(* ===== verification/Prelude.thy ===== *)
theory Prelude
  imports Main "HOL-Library.AList" "HOL-Library.State_Monad" "HOL-Library.Char_ord"
    "HOL-Library.List_Lexorder" "HOL-Library.Product_Lexorder"
begin

text \<open>
  Shared vocabulary of the development: Go's strings, integers and times as HOL values, the
  Go standard library functions the sources call (\<^verbatim>\<open>strings.TrimSpace\<close>,
  \<^verbatim>\<open>strings.HasPrefix\<close>, \<^verbatim>\<open>strings.Contains\<close>, \<^verbatim>\<open>fmt\<close>'s
  \<^verbatim>\<open>%d\<close>, \<^verbatim>\<open>strconv.Atoi\<close>, \<^verbatim>\<open>sort.Strings\<close>), keyed tables as
  association lists, and the rule by which a relation between the states before and after
  is carried through a program written in the state monad.

  Conventions. A Go \<^verbatim>\<open>string\<close> is a list of bytes; \<^verbatim>\<open>TrimSpace\<close> is
  modelled on the ASCII white space (the two-byte encodings of U+0085 and U+00A0 are not
  treated as space). A Go \<^verbatim>\<open>time.Time\<close> is an \<open>int\<close> counting nanoseconds
  since the epoch, a \<^verbatim>\<open>time.Duration\<close> an \<open>int\<close> of nanoseconds, and the zero
  time or an SQL \<^verbatim>\<open>NULL\<close> is \<open>None\<close>. A timestamp written to the
  database loses its fraction of a second (\<open>sql_time\<close>). Go slices are lists; a
  \<open>nil\<close> slice and an empty slice are the same list.
\<close>

named_theorems io_rule \<open>guarantees of the operations, as introduction rules\<close>
named_theorems store_simps \<open>what a store operation leaves unchanged\<close>

type_synonym time = int
type_synonym duration = int
type_synonym issue_key = "string \<times> int"

section \<open>Durations and timestamps\<close>

definition nanosecond :: int where "nanosecond = 1"
definition second :: int where "second = 1000000000"
definition minute :: int where "minute = 60 * second"

text \<open>\<^verbatim>\<open>CURRENT_TIMESTAMP\<close>, \<^verbatim>\<open>datetime('now')\<close> and the RFC3339 layout
  keep whole seconds.\<close>

definition sql_time :: "time \<Rightarrow> time" where
  "sql_time t = t div second * second"

text \<open>\<^verbatim>\<open>int(d.Seconds())\<close>: truncation towards zero.\<close>

definition whole_seconds :: "duration \<Rightarrow> int" where
  "whole_seconds d = (if 0 \<le> d then d div second else - ((- d) div second))"

lemma sql_time_le: "sql_time t \<le> t"
  by (simp add: sql_time_def second_def)

lemma sql_time_idem [simp]: "sql_time (sql_time t) = sql_time t"
  by (simp add: sql_time_def second_def)

lemma sql_time_mono: "s \<le> t \<Longrightarrow> sql_time s \<le> sql_time t"
  by (simp add: sql_time_def second_def zdiv_mono1)

lemma sql_time_add_seconds: "sql_time (t + n * second) = sql_time t + n * second"
  by (simp add: sql_time_def second_def algebra_simps)

section \<open>Strings\<close>

definition is_space :: "char \<Rightarrow> bool" where
  "is_space c \<longleftrightarrow> of_char c \<in> {9, 10, 11, 12, 13, 32 :: nat}"

definition trim_space :: "string \<Rightarrow> string" where
  "trim_space s = rev (dropWhile is_space (rev (dropWhile is_space s)))"

definition lower_char :: "char \<Rightarrow> char" where
  "lower_char c = (let k = of_char c :: nat in if 65 \<le> k \<and> k \<le> 90 then char_of (k + 32) else c)"

definition has_prefix :: "string \<Rightarrow> string \<Rightarrow> bool" where
  "has_prefix s p \<longleftrightarrow> take (length p) s = p"

definition trim_prefix :: "string \<Rightarrow> string \<Rightarrow> string" where
  "trim_prefix s p = (if has_prefix s p then drop (length p) s else s)"

fun contains_sub :: "string \<Rightarrow> string \<Rightarrow> bool" where
  "contains_sub [] p = (p = [])"
| "contains_sub (c # s) p = (has_prefix (c # s) p \<or> contains_sub s p)"

fun join_with :: "string \<Rightarrow> string list \<Rightarrow> string" where
  "join_with sep [] = []"
| "join_with sep [x] = x"
| "join_with sep (x # y # xs) = x @ sep @ join_with sep (y # xs)"

text \<open>\<^verbatim>\<open>strings.Split\<close> at a single character.\<close>

fun split_on :: "char \<Rightarrow> string \<Rightarrow> string list" where
  "split_on c [] = [[]]"
| "split_on c (x # s) =
     (if x = c then [] # split_on c s
      else case split_on c s of [] \<Rightarrow> [[x]] | p # ps \<Rightarrow> (x # p) # ps)"

lemma split_on_nonempty [simp]: "split_on c s \<noteq> []"
  by (induction s) (auto split: list.splits)

lemma split_on_append: "split_on c (a @ c # b) = split_on c a @ split_on c b"
proof (induction a)
  case (Cons x a)
  then show ?case by (cases "split_on c a") auto
qed simp

lemma trim_space_Nil [simp]: "trim_space [] = []"
  by (simp add: trim_space_def)

lemma has_prefix_append [simp]: "has_prefix (p @ s) p"
  by (simp add: has_prefix_def)

lemma trim_prefix_append [simp]: "trim_prefix (p @ s) p = s"
  by (simp add: trim_prefix_def)

lemma trim_space_id:
  assumes "s \<noteq> []" "\<not> is_space (hd s)" "\<not> is_space (last s)"
  shows "trim_space s = s"
proof -
  have "dropWhile is_space s = s" using assms(1,2) by (cases s) auto
  moreover have "dropWhile is_space (rev s) = rev s"
    using assms(1,3) by (simp add: dropWhile_eq_self_iff hd_rev)
  ultimately show ?thesis by (simp add: trim_space_def)
qed

lemma last_dropWhile_eq: "dropWhile P s \<noteq> [] \<Longrightarrow> last (dropWhile P s) = last s"
proof (induction s)
  case (Cons c s)
  then show ?case by (cases "s = []") auto
qed simp

lemma trim_space_idem [simp]: "trim_space (trim_space s) = trim_space s"
proof (cases "trim_space s = []")
  case False
  let ?u = "dropWhile is_space s"
  have t: "trim_space s = rev (dropWhile is_space (rev ?u))" by (simp add: trim_space_def)
  have w: "dropWhile is_space (rev ?u) \<noteq> []" using False by (simp only: t rev_is_Nil_conv not_False_eq_True)
  have "\<not> is_space (last (trim_space s))" using hd_dropWhile [OF w] by (simp only: t last_rev not_False_eq_True)
  moreover have "\<not> is_space (hd (trim_space s))"
  proof -
    have "?u \<noteq> []" using w by fastforce
    from hd_dropWhile [OF this] show ?thesis using last_dropWhile_eq [OF w] by (simp only: t hd_rev last_rev not_False_eq_True)
  qed
  ultimately show ?thesis using False by (intro trim_space_id)
qed simp

lemma trim_space_blank: "trim_space s = [] \<longleftrightarrow> (\<forall>c \<in> set s. is_space c)"
proof
  assume "trim_space s = []"
  then have "\<forall>c \<in> set (dropWhile is_space s). is_space c" by (simp add: trim_space_def)
  then have "dropWhile is_space s = []" using hd_dropWhile [of is_space s] by (cases "dropWhile is_space s") auto
  then show "\<forall>c \<in> set s. is_space c" by simp
qed (simp add: trim_space_def dropWhile_eq_Nil_conv [THEN iffD2])

section \<open>Decimal numerals: fmt's \<open>%d\<close> and strconv.Atoi\<close>

definition digit_char :: "nat \<Rightarrow> char" where
  "digit_char d = char_of (48 + d)"

fun nat_digits :: "nat \<Rightarrow> string" where
  "nat_digits n = (if n < 10 then [digit_char n] else nat_digits (n div 10) @ [digit_char (n mod 10)])"

declare nat_digits.simps [simp del]

definition itoa :: "int \<Rightarrow> string" where
  "itoa n = (if n < 0 then CHR ''-'' # nat_digits (nat (- n)) else nat_digits (nat n))"

definition digit_val :: "char \<Rightarrow> nat option" where
  "digit_val c = (let k = of_char c :: nat in if 48 \<le> k \<and> k \<le> 57 then Some (k - 48) else None)"

fun parse_digits :: "nat \<Rightarrow> string \<Rightarrow> nat option" where
  "parse_digits acc [] = Some acc"
| "parse_digits acc (c # cs) =
     (case digit_val c of None \<Rightarrow> None | Some d \<Rightarrow> parse_digits (10 * acc + d) cs)"

definition max_int64 :: int where "max_int64 = 2 ^ 63 - 1"
definition min_int64 :: int where "min_int64 = - (2 ^ 63)"

text \<open>\<^verbatim>\<open>strconv.Atoi\<close>: an optional sign, at least one decimal digit, nothing
  else, and a value that fits 64 bits; \<open>None\<close> is the error.\<close>

definition atoi :: "string \<Rightarrow> int option" where
  "atoi s =
     (let neg = (s \<noteq> [] \<and> hd s = CHR ''-'');
          ds = (if s \<noteq> [] \<and> (hd s = CHR ''-'' \<or> hd s = CHR ''+'') then tl s else s)
      in if ds = [] then None
         else case parse_digits 0 ds of None \<Rightarrow> None
              | Some n \<Rightarrow> (let v = (if neg then - int n else int n)
                          in if min_int64 \<le> v \<and> v \<le> max_int64 then Some v else None))"

lemma digit_val_digit_char: "d < 10 \<Longrightarrow> digit_val (digit_char d) = Some d"
  by (simp add: digit_val_def digit_char_def Let_def)

lemma digit_char_code: "d < 10 \<Longrightarrow> of_char (digit_char d) = 48 + d"
  by (simp add: digit_char_def)

lemma digit_char_neq:
  assumes "d < 10"
  shows "digit_char d \<noteq> CHR ''#''" "digit_char d \<noteq> CHR ''-''" "digit_char d \<noteq> CHR ''+''"
proof -
  have code: "of_char (digit_char d) = (48 + d :: nat)" using assms by (simp add: digit_char_def)
  show "digit_char d \<noteq> CHR ''#''" "digit_char d \<noteq> CHR ''-''" "digit_char d \<noteq> CHR ''+''"
    using code by auto
qed

lemma nat_digits_nonempty [simp]: "nat_digits n \<noteq> []"
  by (subst nat_digits.simps) simp

lemma nat_digits_chars: "c \<in> set (nat_digits n) \<Longrightarrow> \<exists>d<10. c = digit_char d"
proof (induction n rule: nat_digits.induct)
  case (1 n)
  then show ?case
    by (subst (asm) (2) nat_digits.simps)
      (auto split: if_splits intro: exI [of _ n] exI [of _ "n mod 10"])
qed

lemma parse_digits_append:
  "parse_digits acc (xs @ [c]) =
     (case parse_digits acc xs of None \<Rightarrow> None
      | Some n \<Rightarrow> (case digit_val c of None \<Rightarrow> None | Some d \<Rightarrow> Some (10 * n + d)))"
  by (induction xs arbitrary: acc) (auto split: option.splits)

lemma parse_nat_digits: "parse_digits 0 (nat_digits n) = Some n"
proof (induction n rule: nat_digits.induct)
  case (1 n)
  show ?case
  proof (cases "n < 10")
    case True
    then show ?thesis by (subst nat_digits.simps) (simp add: digit_val_digit_char)
  next
    case False
    with 1 have "parse_digits 0 (nat_digits (n div 10)) = Some (n div 10)" by simp
    with False show ?thesis
      by (subst nat_digits.simps) (simp add: parse_digits_append digit_val_digit_char)
  qed
qed

lemma nat_digits_inj: "nat_digits m = nat_digits n \<Longrightarrow> m = n"
  by (metis option.inject parse_nat_digits)

lemma hd_nat_digits:
  "hd (nat_digits n) \<noteq> CHR ''-''" "hd (nat_digits n) \<noteq> CHR ''+''"
proof -
  obtain d where "d < 10" "hd (nat_digits n) = digit_char d"
    using nat_digits_chars [of "hd (nat_digits n)" n] by auto
  then show "hd (nat_digits n) \<noteq> CHR ''-''" "hd (nat_digits n) \<noteq> CHR ''+''"
    using digit_char_neq by auto
qed

lemma itoa_nonempty [simp]: "itoa n \<noteq> []"
  by (simp add: itoa_def)

lemma itoa_no_hash: "CHR ''#'' \<notin> set (itoa n)"
proof
  assume "CHR ''#'' \<in> set (itoa n)"
  then have "\<exists>m. CHR ''#'' \<in> set (nat_digits m)" by (auto simp: itoa_def split: if_splits)
  then obtain d where "d < 10" "CHR ''#'' = digit_char d"
    using nat_digits_chars by blast
  then show False using digit_char_neq(1) by metis
qed

lemma atoi_itoa: "min_int64 \<le> n \<Longrightarrow> n \<le> max_int64 \<Longrightarrow> atoi (itoa n) = Some n"
  by (auto simp: atoi_def itoa_def Let_def parse_nat_digits hd_nat_digits)

lemma itoa_inj: "itoa m = itoa n \<Longrightarrow> m = n"
  using hd_nat_digits(1)
  by (auto simp: itoa_def dest: nat_digits_inj split: if_splits) (metis list.sel(1))+

section \<open>Keys of the form \<open>repo#n\<close>\<close>

text \<open>\<open>split_last_hash s\<close> cuts \<open>s\<close> at its last \<^verbatim>\<open>#\<close>, as
  \<^verbatim>\<open>strings.LastIndex(raw, "#")\<close> does; \<open>None\<close> when there is none.\<close>

definition split_last_hash :: "string \<Rightarrow> (string \<times> string) option" where
  "split_last_hash s =
     (if CHR ''#'' \<in> set s
      then Some (rev (tl (dropWhile (\<lambda>c. c \<noteq> CHR ''#'') (rev s))),
                 rev (takeWhile (\<lambda>c. c \<noteq> CHR ''#'') (rev s)))
      else None)"

lemma split_last_hash_append:
  assumes "CHR ''#'' \<notin> set t"
  shows "split_last_hash (r @ CHR ''#'' # t) = Some (r, t)"
proof -
  define P where "P = (\<lambda>c. c \<noteq> CHR ''#'')"
  have all: "\<forall>c \<in> set (rev t). P c" using assms by (auto simp: P_def)
  have "dropWhile P (rev t @ CHR ''#'' # rev r) = CHR ''#'' # rev r"
    using all by (simp add: dropWhile_append3 [symmetric] dropWhile_append P_def)
  moreover have "takeWhile P (rev t @ CHR ''#'' # rev r) = rev t"
    using all by (simp add: takeWhile_append P_def takeWhile_eq_all_conv)
  ultimately show ?thesis by (simp add: split_last_hash_def P_def)
qed

lemma hash_key_inj:
  assumes "CHR ''#'' \<notin> set t" "CHR ''#'' \<notin> set u" "r @ CHR ''#'' # t = s @ CHR ''#'' # u"
  shows "r = s \<and> t = u"
proof -
  have "Some (r, t) = Some (s, u)"
    using split_last_hash_append [OF assms(1), of r] split_last_hash_append [OF assms(2), of s]
    unfolding assms(3) by simp
  then show ?thesis by simp
qed

section \<open>Sets and tables as lists\<close>

text \<open>A Go \<^verbatim>\<open>map[string]struct{}\<close> whose size or emptiness matters is a list without
  duplicates.\<close>

definition set_add :: "'a \<Rightarrow> 'a list \<Rightarrow> 'a list" where
  "set_add x xs = (if x \<in> set xs then xs else xs @ [x])"

lemma set_set_add [simp]: "set (set_add x xs) = insert x (set xs)"
  by (auto simp: set_add_def)

lemma distinct_set_add [simp]: "distinct (set_add x xs) = distinct xs"
  by (auto simp: set_add_def)

lemma set_add_nonempty [simp]: "set_add x xs \<noteq> []"
  by (auto simp: set_add_def)

definition tbl_keys_distinct :: "('k \<times> 'v) list \<Rightarrow> bool" where
  "tbl_keys_distinct t \<longleftrightarrow> distinct (map fst t)"

lemma tbl_keys_distinct_update [simp]:
  "tbl_keys_distinct t \<Longrightarrow> tbl_keys_distinct (AList.update k v t)"
  by (simp add: tbl_keys_distinct_def distinct_update)

lemma tbl_keys_distinct_delete [simp]:
  "tbl_keys_distinct t \<Longrightarrow> tbl_keys_distinct (AList.delete k t)"
  by (simp add: tbl_keys_distinct_def distinct_delete)

lemma map_of_update [simp]: "map_of (AList.update k v t) k' = (if k' = k then Some v else map_of t k')"
  by (simp add: update_conv')

lemma map_of_delete_key [simp]: "map_of (AList.delete k t) k = None"
  by (simp add: delete_conv')

lemma set_update_subset: "set (AList.update k v t) \<subseteq> insert (k, v) (set t)"
  by (induction t) auto

lemma length_filter_conj:
  "length (filter P xs) = length (filter (\<lambda>x. P x \<and> Q x) xs) + length (filter (\<lambda>x. P x \<and> \<not> Q x) xs)"
  by (induction xs) auto

text \<open>SQL on a table held as a list of rows in insertion order: \<open>upd_rows P f\<close> is
  \<^verbatim>\<open>UPDATE\<close> with the condition \<open>P\<close>, \<open>count_rows P\<close> the number of rows it
  matches, and \<open>first_by k\<close> is \<^verbatim>\<open>ORDER BY k LIMIT 1\<close>.\<close>

definition upd_rows :: "('r \<Rightarrow> bool) \<Rightarrow> ('r \<Rightarrow> 'r) \<Rightarrow> 'r list \<Rightarrow> 'r list" where
  "upd_rows P f rows = map (\<lambda>r. if P r then f r else r) rows"

definition count_rows :: "('r \<Rightarrow> bool) \<Rightarrow> 'r list \<Rightarrow> nat" where
  "count_rows P rows = length (filter P rows)"

definition first_by :: "('r \<Rightarrow> 'k::linorder) \<Rightarrow> 'r list \<Rightarrow> 'r option" where
  "first_by k rows = (case sort_key k rows of [] \<Rightarrow> None | r # _ \<Rightarrow> Some r)"

text \<open>\<^verbatim>\<open>INSERT ... ON CONFLICT DO UPDATE\<close> on a table without its key as a column.\<close>

definition upsert_row :: "('r \<Rightarrow> bool) \<Rightarrow> ('r \<Rightarrow> 'r) \<Rightarrow> 'r \<Rightarrow> 'r list \<Rightarrow> 'r list" where
  "upsert_row P f new rows = (if count_rows P rows = 0 then rows @ [new] else upd_rows P f rows)"

lemma count_rows_0: "count_rows P rows = 0 \<longleftrightarrow> (\<forall>r \<in> set rows. \<not> P r)"
  by (simp add: count_rows_def filter_empty_conv)

lemma length_upd_rows [simp]: "length (upd_rows P f rows) = length rows"
  by (simp add: upd_rows_def)

lemma upd_rows_none: "count_rows P rows = 0 \<Longrightarrow> upd_rows P f rows = rows"
  by (induction rows) (auto simp: upd_rows_def count_rows_def split: if_splits)

lemma set_upd_rows: "r \<in> set (upd_rows P f rows) \<longleftrightarrow> (\<exists>q \<in> set rows. r = (if P q then f q else q))"
  by (auto simp: upd_rows_def)

lemma map_upd_rows: "(\<And>r. g (f r) = g r) \<Longrightarrow> map g (upd_rows P f rows) = map g rows"
  by (simp add: upd_rows_def)

lemma first_by_Nil [simp]: "first_by k [] = None"
  by (simp add: first_by_def)

lemma first_by_None [simp]: "first_by k rows = None \<longleftrightarrow> rows = []"
proof -
  have "sort_key k rows = [] \<longleftrightarrow> rows = []"
    using length_sort [of k rows] by (cases rows; cases "sort_key k rows") auto
  then show ?thesis by (cases "sort_key k rows") (auto simp: first_by_def)
qed

lemma first_by_Some:
  assumes "first_by k rows = Some r"
  shows "r \<in> set rows \<and> (\<forall>q \<in> set rows. k r \<le> k q)"
proof -
  obtain rs where srt: "sort_key k rows = r # rs"
    using assms by (auto simp: first_by_def split: list.splits)
  have "set rows = insert r (set rs)" using srt by (metis list.simps(15) set_sort)
  moreover have "sorted (map k (r # rs))" using sorted_sort_key [of k rows] by (simp add: srt)
  ultimately show ?thesis by auto
qed

section \<open>Relations carried through monadic programs\<close>

text \<open>
  Handlers of the state machine are programs of the state monad, \<open>\<^const>\<open>run_state\<close> m s\<close>
  being the result and the state after. The library predicate \<open>state_io_rel R m\<close> says that
  every run of \<open>m\<close> relates the state before to the state after by \<open>R\<close>. For a reflexive and
  transitive \<open>R\<close> it follows the structure of the program, so that a frame condition, a
  monotonicity statement or the preservation of an invariant of a long handler reduces to
  the same statement for the operations it calls.
\<close>

locale io_guarantee =
  fixes R :: "'s \<Rightarrow> 's \<Rightarrow> bool"
  assumes R_refl: "R s s"
    and R_trans: "R s t \<Longrightarrow> R t u \<Longrightarrow> R s u"
begin

lemma io_return: "state_io_rel R (State_Monad.return x)"
  by (simp add: state_io_rel_def R_refl)

lemma io_get: "state_io_rel R State_Monad.get"
  by (simp add: state_io_rel_def R_refl)

lemma io_bind:
  assumes "state_io_rel R m" "\<And>x. state_io_rel R (f x)"
  shows "state_io_rel R (State_Monad.bind m f)"
  using assms unfolding state_io_rel_def
  by (auto split: prod.splits) (metis R_trans snd_conv)

text \<open>The rest of a program may rely on what its first part returned.\<close>

lemma io_bind_result:
  assumes "state_io_rel R m" "\<And>s x s'. run_state m s = (x, s') \<Longrightarrow> state_io_rel R (f x)"
  shows "state_io_rel R (State_Monad.bind m f)"
  using assms unfolding state_io_rel_def
  by (auto split: prod.splits) (metis R_trans snd_conv)

lemma io_get_bind:
  assumes "\<And>s. R s (snd (run_state (f s) s))"
  shows "state_io_rel R (State_Monad.bind State_Monad.get f)"
  using assms by (simp add: state_io_rel_def)

lemma io_update:
  assumes "\<And>s. R s (f s)"
  shows "state_io_rel R (State_Monad.update f)"
  using assms by (simp add: state_io_rel_def State_Monad.update_def)

lemma io_run:
  assumes "state_io_rel R m"
  shows "R s (snd (run_state m s))"
  using assms by (simp add: state_io_rel_def)

lemmas io_structure = io_return io_get io_bind

end

text \<open>Case distinctions inside programs.\<close>

lemma io_if: "(c \<Longrightarrow> state_io_rel R a) \<Longrightarrow> (\<not> c \<Longrightarrow> state_io_rel R b) \<Longrightarrow> state_io_rel R (if c then a else b)"
  by simp

lemma io_let: "state_io_rel R (f x) \<Longrightarrow> state_io_rel R (Let x f)"
  by simp

lemma io_case_option:
  "(x = None \<Longrightarrow> state_io_rel R a) \<Longrightarrow> (\<And>y. x = Some y \<Longrightarrow> state_io_rel R (f y)) \<Longrightarrow> state_io_rel R (case_option a f x)"
  by (cases x) simp_all

lemma io_case_sum:
  "(\<And>y. x = Inl y \<Longrightarrow> state_io_rel R (f y)) \<Longrightarrow> (\<And>y. x = Inr y \<Longrightarrow> state_io_rel R (g y)) \<Longrightarrow> state_io_rel R (case_sum f g x)"
  by (cases x) simp_all

lemma io_case_prod: "(\<And>a b. x = (a, b) \<Longrightarrow> state_io_rel R (f a b)) \<Longrightarrow> state_io_rel R (case_prod f x)"
  by (cases x) simp

lemma io_case_list:
  "(x = [] \<Longrightarrow> state_io_rel R a) \<Longrightarrow> (\<And>y ys. x = y # ys \<Longrightarrow> state_io_rel R (f y ys)) \<Longrightarrow> state_io_rel R (case_list a f x)"
  by (cases x) simp_all

lemma io_case_bool:
  "(x \<Longrightarrow> state_io_rel R a) \<Longrightarrow> (\<not> x \<Longrightarrow> state_io_rel R b) \<Longrightarrow> state_io_rel R (case_bool a b x)"
  by (cases x) simp_all

lemmas io_cases = io_if io_let io_case_option io_case_sum io_case_prod io_case_list io_case_bool

end
