(* ===== verification/Config.thy ===== *)
theory Config
  imports Prelude
begin

text \<open>
  Workflow configuration (\<^verbatim>\<open>internal/config\<close>): the records \<^verbatim>\<open>JoinConfig\<close>,
  \<^verbatim>\<open>State\<close>, \<^verbatim>\<open>WorkflowConfig\<close>, and what the loader does with a workflow
  file once YAML has been decoded: defaults, normalisation and validation of the states, the
  automatic \<^verbatim>\<open>failed\<close> state, and the check that no two workflows share a trigger
  label. A Go map of states or workflows is an association list; its order stands for the
  iteration order Go chose. A \<open>nil\<close> state pointer of the decoded map is \<open>None\<close>.
\<close>

section \<open>Data\<close>

record JoinConfig =
  Strategy :: string
  MinSuccesses :: int

record WState =
  EnterLabel :: string
  Agent :: string
  Agents :: "string list"
  Mode :: string
  Join :: JoinConfig
  Rollouts :: int
  Transitions :: "(string \<times> string) list"

record WorkflowConfig =
  wf_Name :: string
  TriggerLabel :: string
  MaxRetries :: int
  MaxReviewCycles :: int
  States :: "(string \<times> WState) list"

definition JoinAllPassed :: string where "JoinAllPassed = ''all_passed''"
definition JoinAnyPassed :: string where "JoinAnyPassed = ''any_passed''"
definition JoinRollouts :: string where "JoinRollouts = ''rollouts''"
definition StateModeReview :: string where "StateModeReview = ''review''"
definition StateModeSynth :: string where "StateModeSynth = ''synthesize''"
definition StateNameFailed :: string where "StateNameFailed = ''failed''"
definition LabelFailed :: string where "LabelFailed = ''status:failed''"

lemmas config_consts =
  JoinAllPassed_def JoinAnyPassed_def JoinRollouts_def StateModeReview_def StateModeSynth_def
  StateNameFailed_def LabelFailed_def

definition empty_join :: JoinConfig where
  "empty_join = \<lparr>Strategy = [], MinSuccesses = 0\<rparr>"

definition empty_state :: WState where
  "empty_state = \<lparr>EnterLabel = [], Agent = [], Agents = [], Mode = [], Join = empty_join,
     Rollouts = 0, Transitions = []\<rparr>"

datatype config_error =
    NilState string
  | RolloutsOutOfRange string int
  | RolloutsWithoutAgents string int
  | RolloutsNeedOneAgent string
  | InvalidRolloutJoin string string
  | MinSuccessesTooLarge string int int
  | InvalidJoin string string
  | MinSuccessesNeedRollouts string
  | EmptyAgentName string
  | DuplicateAgent string string
  | EmptyTransitionLabel string
  | EmptyTransitionTarget string string
  | TriggerConflict string string string

section \<open>Operations\<close>

text \<open>The loop over \<^verbatim>\<open>state.Agents\<close>: names are trimmed, must not be empty and must
  not repeat.\<close>

fun normalizeAgents :: "string \<Rightarrow> string list \<Rightarrow> string list \<Rightarrow> config_error + string list" where
  "normalizeAgents sn acc [] = Inr acc"
| "normalizeAgents sn acc (a # as) =
     (let a' = trim_space a
      in if a' = [] then Inl (EmptyAgentName sn)
         else if a' \<in> set acc then Inl (DuplicateAgent sn a')
         else normalizeAgents sn (acc @ [a']) as)"

text \<open>The join of a state that has agents; \<open>r\<close> is the rollout count after defaulting.\<close>

definition normalizeJoin :: "string \<Rightarrow> nat \<Rightarrow> int \<Rightarrow> JoinConfig \<Rightarrow> config_error + JoinConfig" where
  "normalizeJoin sn nagents r j =
     (let join = trim_space (Strategy j)
      in if r > 1 then
           (let join = (if join = [] then JoinRollouts else join)
            in if nagents \<noteq> 1 then Inl (RolloutsNeedOneAgent sn)
               else if join \<noteq> JoinRollouts then Inl (InvalidRolloutJoin sn join)
               else (let m = (if MinSuccesses j \<le> 0 then r else MinSuccesses j)
                     in if m > r then Inl (MinSuccessesTooLarge sn m r)
                        else Inr \<lparr>Strategy = join, MinSuccesses = m\<rparr>))
         else
           (let join = (if join = [] then JoinAllPassed else join)
            in if join \<noteq> JoinAllPassed \<and> join \<noteq> JoinAnyPassed then Inl (InvalidJoin sn join)
               else if MinSuccesses j \<noteq> 0 then Inl (MinSuccessesNeedRollouts sn)
               else Inr \<lparr>Strategy = join, MinSuccesses = MinSuccesses j\<rparr>))"

text \<open>A single \<^verbatim>\<open>agent\<close> becomes a list of one, and the rollout count defaults to 1.\<close>

definition defaultState :: "WState \<Rightarrow> WState" where
  "defaultState st =
     (let st1 = (if Agents st = [] \<and> trim_space (Agent st) \<noteq> []
                 then st\<lparr>Agents := [Agent st]\<rparr> else st)
      in if Rollouts st1 \<le> 0 then st1\<lparr>Rollouts := 1\<rparr> else st1)"

definition normalizeState :: "string \<Rightarrow> WState option \<Rightarrow> config_error + WState" where
  "normalizeState sn so =
     (case so of
        None \<Rightarrow> Inl (NilState sn)
      | Some st0 \<Rightarrow>
         (let st = defaultState st0
          in if Rollouts st > 5 then Inl (RolloutsOutOfRange sn (Rollouts st))
             else if Agents st = [] then
               (if Rollouts st > 1 then Inl (RolloutsWithoutAgents sn (Rollouts st))
                else Inr (st\<lparr>Join := empty_join\<rparr>))
             else (case normalizeJoin sn (length (Agents st)) (Rollouts st) (Join st) of
                     Inl e \<Rightarrow> Inl e
                   | Inr j \<Rightarrow>
                      (case normalizeAgents sn [] (Agents st) of
                         Inl e \<Rightarrow> Inl e
                       | Inr as \<Rightarrow> Inr (st\<lparr>Join := j, Agents := as\<rparr>)))))"

fun normalizeWorkflowStates ::
  "(string \<times> WState option) list \<Rightarrow> config_error + (string \<times> WState) list" where
  "normalizeWorkflowStates [] = Inr []"
| "normalizeWorkflowStates ((sn, so) # rest) =
     (case normalizeState sn so of Inl e \<Rightarrow> Inl e
      | Inr s \<Rightarrow> (case normalizeWorkflowStates rest of Inl e \<Rightarrow> Inl e
                  | Inr ss \<Rightarrow> Inr ((sn, s) # ss)))"

fun validateTransitions :: "string \<Rightarrow> (string \<times> string) list \<Rightarrow> config_error option" where
  "validateTransitions sn [] = None"
| "validateTransitions sn ((label, target) # ts) =
     (if trim_space label = [] then Some (EmptyTransitionLabel sn)
      else if trim_space target = [] then Some (EmptyTransitionTarget sn (trim_space label))
      else validateTransitions sn ts)"

fun validateStates :: "(string \<times> WState) list \<Rightarrow> config_error option" where
  "validateStates [] = None"
| "validateStates ((sn, s) # ss) =
     (case validateTransitions sn (Transitions s) of Some e \<Rightarrow> Some e
      | None \<Rightarrow> validateStates ss)"

text \<open>A \<^verbatim>\<open>failed\<close> state is added when some transition leads to a state that itself has
  transitions.\<close>

definition autoAddFailedState :: "(string \<times> WState) list \<Rightarrow> (string \<times> WState) list" where
  "autoAddFailedState ss =
     (if map_of ss StateNameFailed \<noteq> None then ss
      else if list_ex (\<lambda>(_, s). list_ex (\<lambda>(_, target).
                 case map_of ss target of None \<Rightarrow> False | Some t \<Rightarrow> Transitions t \<noteq> [])
               (Transitions s)) ss
      then ss @ [(StateNameFailed, empty_state\<lparr>EnterLabel := LabelFailed\<rparr>)]
      else ss)"

text \<open>The part of \<^verbatim>\<open>parseWorkflowFile\<close> after the front matter (\<open>w\<close>) and the states
  block (\<open>raw\<close>) have been decoded by the YAML library.\<close>

definition parseWorkflow ::
  "WorkflowConfig \<Rightarrow> (string \<times> WState option) list \<Rightarrow> config_error + WorkflowConfig" where
  "parseWorkflow w raw =
     (let w1 = (if MaxRetries w = 0 then w\<lparr>MaxRetries := 3\<rparr> else w);
          w2 = (if MaxReviewCycles w1 = 0 then w1\<lparr>MaxReviewCycles := 3\<rparr> else w1)
      in case normalizeWorkflowStates raw of
           Inl e \<Rightarrow> Inl e
         | Inr ss \<Rightarrow> (case validateStates ss of
                        Some e \<Rightarrow> Inl e
                      | None \<Rightarrow> Inr (w2\<lparr>States := autoAddFailedState ss\<rparr>)))"

fun triggerConflictsFrom ::
  "(string \<times> string) list \<Rightarrow> WorkflowConfig list \<Rightarrow> config_error option" where
  "triggerConflictsFrom seen [] = None"
| "triggerConflictsFrom seen (w # ws) =
     (if TriggerLabel w = [] then triggerConflictsFrom seen ws
      else (case map_of seen (TriggerLabel w) of
              Some prev \<Rightarrow> Some (TriggerConflict prev (wf_Name w) (TriggerLabel w))
            | None \<Rightarrow> triggerConflictsFrom (AList.update (TriggerLabel w) (wf_Name w) seen) ws))"

definition validateWorkflowTriggerConflicts ::
  "(string \<times> WorkflowConfig) list \<Rightarrow> config_error option" where
  "validateWorkflowTriggerConflicts ws = triggerConflictsFrom [] (map snd ws)"

section \<open>What the loader establishes\<close>

text \<open>The contract of a loaded state, on which the dispatcher and the join gate rely.\<close>

definition state_ok :: "WState \<Rightarrow> bool" where
  "state_ok s \<longleftrightarrow>
     1 \<le> Rollouts s \<and> Rollouts s \<le> 5 \<and>
     (if Agents s = [] then Join s = empty_join \<and> Rollouts s = 1
      else distinct (Agents s) \<and> (\<forall>a \<in> set (Agents s). a \<noteq> []) \<and>
        (if Rollouts s = 1
         then Strategy (Join s) \<in> {JoinAllPassed, JoinAnyPassed} \<and> MinSuccesses (Join s) = 0
         else length (Agents s) = 1 \<and> Strategy (Join s) = JoinRollouts \<and>
              1 \<le> MinSuccesses (Join s) \<and> MinSuccesses (Join s) \<le> Rollouts s))"

text \<open>The contract of its transitions: a label and a target that are not blank, and, as soon as one of
  them leads to a state that can itself be left, a state named \<^verbatim>\<open>failed\<close> to end in.\<close>

definition transitions_ok :: "(string \<times> WState) list \<Rightarrow> bool" where
  "transitions_ok ss \<longleftrightarrow>
     (\<forall>(sn, s) \<in> set ss. \<forall>(label, target) \<in> set (Transitions s).
        trim_space label \<noteq> [] \<and> trim_space target \<noteq> [] \<and>
        (case map_of ss target of None \<Rightarrow> True
         | Some t \<Rightarrow> Transitions t = [] \<or> map_of ss StateNameFailed \<noteq> None))"

definition workflow_ok :: "WorkflowConfig \<Rightarrow> bool" where
  "workflow_ok w \<longleftrightarrow> MaxRetries w \<noteq> 0 \<and> MaxReviewCycles w \<noteq> 0 \<and>
     (\<forall>(sn, s) \<in> set (States w). s \<noteq> empty_state\<lparr>EnterLabel := LabelFailed\<rparr> \<longrightarrow> state_ok s) \<and>
     transitions_ok (States w)"

lemma normalizeAgents_ok:
  "normalizeAgents sn acc as = Inr as' \<Longrightarrow> distinct acc \<Longrightarrow> (\<forall>a \<in> set acc. a \<noteq> []) \<Longrightarrow>
   distinct as' \<and> (\<forall>a \<in> set as'. a \<noteq> []) \<and> length as' = length acc + length as"
  by (induction sn acc as rule: normalizeAgents.induct) (auto simp: Let_def split: if_splits)

lemma normalizeJoin_ok:
  assumes "normalizeJoin sn n r j = Inr j'" "1 \<le> r"
  shows "if r = 1 then Strategy j' \<in> {JoinAllPassed, JoinAnyPassed} \<and> MinSuccesses j' = 0
         else n = 1 \<and> Strategy j' = JoinRollouts \<and> 1 \<le> MinSuccesses j' \<and> MinSuccesses j' \<le> r"
  using assms by (auto simp: normalizeJoin_def Let_def split: if_splits)

lemma Rollouts_defaultState: "1 \<le> Rollouts (defaultState st)"
  by (simp add: defaultState_def Let_def)

lemma normalizeState_ok:
  assumes "normalizeState sn so = Inr s"
  shows "state_ok s"
proof -
  obtain st0 where so: "so = Some st0" using assms by (cases so) (auto simp: normalizeState_def)
  define st where "st = defaultState st0"
  have r1: "1 \<le> Rollouts st" by (simp add: st_def Rollouts_defaultState)
  note main = assms [unfolded normalizeState_def so option.case Let_def, folded st_def]
  then have r5: "Rollouts st \<le> 5" by (auto split: if_splits)
  show ?thesis
  proof (cases "Agents st = []")
    case True
    with main r1 r5 show ?thesis by (auto simp: state_ok_def split: if_splits)
  next
    case False
    with main r5 obtain j as where
      j: "normalizeJoin sn (length (Agents st)) (Rollouts st) (Join st) = Inr j" and
      as: "normalizeAgents sn [] (Agents st) = Inr as" and
      s: "s = st\<lparr>Join := j, Agents := as\<rparr>"
      by (auto split: if_splits sum.splits)
    from normalizeAgents_ok [OF as] False have "as \<noteq> []" by auto
    with normalizeAgents_ok [OF as] normalizeJoin_ok [OF j r1] s r1 r5 show ?thesis
      by (auto simp: state_ok_def)
  qed
qed

lemma normalizeWorkflowStates_ok:
  "normalizeWorkflowStates raw = Inr ss \<Longrightarrow> map fst ss = map fst raw \<and> (\<forall>(sn, s) \<in> set ss. state_ok s)"
  by (induction raw arbitrary: ss rule: normalizeWorkflowStates.induct)
    (fastforce dest: normalizeState_ok split: sum.splits)+

lemma autoAddFailedState_cases:
  "autoAddFailedState ss = ss \<or>
   autoAddFailedState ss = ss @ [(StateNameFailed, empty_state\<lparr>EnterLabel := LabelFailed\<rparr>)]"
  by (simp add: autoAddFailedState_def)

lemma validateTransitions_None:
  "validateTransitions sn ts = None \<longleftrightarrow> (\<forall>(label, target) \<in> set ts. trim_space label \<noteq> [] \<and> trim_space target \<noteq> [])"
  by (induction sn ts rule: validateTransitions.induct) auto

lemma validateStates_None:
  "validateStates ss = None \<longleftrightarrow>
   (\<forall>(sn, s) \<in> set ss. \<forall>(label, target) \<in> set (Transitions s). trim_space label \<noteq> [] \<and> trim_space target \<noteq> [])"
proof (induction ss rule: validateStates.induct)
  case (2 sn s ss)
  then show ?case using validateTransitions_None [of sn "Transitions s"]
    by (cases "validateTransitions sn (Transitions s)") simp_all
qed simp

text \<open>The check and the added state together give the contract of the transitions.\<close>

lemma autoAddFailedState_ok:
  assumes "validateStates ss = None"
  shows "transitions_ok (autoAddFailedState ss)"
proof (cases "map_of (autoAddFailedState ss) StateNameFailed = None")
  case True
  then have same: "autoAddFailedState ss = ss"
    using autoAddFailedState_cases [of ss] by (auto simp: map_add_def split: option.splits)
  have "\<not> list_ex (\<lambda>(_, s). list_ex (\<lambda>(_, target).
      case map_of ss target of None \<Rightarrow> False | Some t \<Rightarrow> Transitions t \<noteq> []) (Transitions s)) ss"
    using True same by (auto simp: autoAddFailedState_def split: if_splits)
  then show ?thesis using assms unfolding same transitions_ok_def validateStates_None
    by (fastforce simp: list_ex_iff split: option.splits)
next
  case False
  have "\<forall>(sn, s) \<in> set (autoAddFailedState ss). \<forall>(label, target) \<in> set (Transitions s).
      trim_space label \<noteq> [] \<and> trim_space target \<noteq> []"
    using autoAddFailedState_cases [of ss] assms
    by (elim disjE) (simp_all add: validateStates_None empty_state_def ball_Un)
  with False show ?thesis unfolding transitions_ok_def by (fastforce split: option.splits)
qed

lemma parseWorkflow_ok:
  assumes "parseWorkflow w raw = Inr w'"
  shows "workflow_ok w'"
proof -
  obtain ss where ss: "normalizeWorkflowStates raw = Inr ss" and valid: "validateStates ss = None"
    and w': "States w' = autoAddFailedState ss" "MaxRetries w' \<noteq> 0" "MaxReviewCycles w' \<noteq> 0"
    using assms by (auto simp: parseWorkflow_def Let_def split: sum.splits option.splits if_splits)
  then show ?thesis
    using autoAddFailedState_cases [of ss] autoAddFailedState_ok [OF valid] normalizeWorkflowStates_ok [OF ss]
    by (auto simp: workflow_ok_def)
qed

text \<open>Trigger labels that pass the conflict check belong to one workflow each.\<close>

lemma triggerConflictsFrom_None:
  "triggerConflictsFrom seen ws = None \<Longrightarrow>
   distinct (map TriggerLabel (filter (\<lambda>w. TriggerLabel w \<noteq> []) ws)) \<and>
   (\<forall>w \<in> set ws. TriggerLabel w \<noteq> [] \<longrightarrow> map_of seen (TriggerLabel w) = None)"
proof (induction seen ws rule: triggerConflictsFrom.induct)
  case (1 seen)
  then show ?case by simp
next
  case (2 seen w ws)
  show ?case
  proof (cases "TriggerLabel w = []")
    case True
    with 2 show ?thesis by auto
  next
    case False
    with 2 have none: "map_of seen (TriggerLabel w) = None"
      and rest: "triggerConflictsFrom (AList.update (TriggerLabel w) (wf_Name w) seen) ws = None"
      by (auto split: option.splits)
    from 2(2) [OF False none rest]
    show ?thesis using False none by (auto split: if_splits)
  qed
qed

end
