(* ===== verification/Store_Types.thy ===== *)
theory Store_Types
  imports Config
begin

text \<open>
  The database behind \<^verbatim>\<open>internal/store\<close>: one record field per SQL table, rows in
  insertion order, and the environment the store methods consult. Modelled is the SQLite
  dialect, in which every timestamp column has whole seconds.

  \<^item> A row and the Go record scanned from it are the same HOL record; a \<^verbatim>\<open>NULL\<close> column
    is \<open>None\<close>, and \<open>go_str\<close> reads it as Go's empty string.
  \<^item> \<open>clock\<close> is the time every statement and every \<^verbatim>\<open>time.Now()\<close> of the current call
    sees.
  \<^item> \<open>rand\<close> is the byte stream of \<^verbatim>\<open>crypto/rand\<close>, read from position
    \<open>rand_pos\<close>.
  \<^item> \<open>otel_trace\<close> is the trace id that the tracing library offers in the current call, \<open>None\<close>
    when it is invalid.
  \<^item> \<open>faults op\<close> says that statements of kind \<open>op\<close> fail with a driver error in the current
    call; \<open>busy\<close> counts how many of the next retried statements meet
    \<^verbatim>\<open>SQLITE_BUSY\<close>. Nothing is assumed of either unless a theorem says so.
  \<^item> \<open>claim_race\<close> is a claim that another process inserts between the \<^verbatim>\<open>SELECT\<close>
    and the \<^verbatim>\<open>INSERT\<close> of the next acquisition of a free issue, if any.
  \<^item> Labels stored as JSON text are a \<open>labels_text\<close>: \<open>JText ls\<close> is text that
    \<^verbatim>\<open>json.Unmarshal\<close> decodes to \<open>ls\<close>, \<open>JBad s\<close> is text \<open>s\<close> it rejects (the
    empty string among them).
\<close>

datatype labels_text = JText "string list" | JBad string

datatype dbop =
    OpInsertTask | OpGetTask | OpListIssueTasks | OpUpdateTaskSupervisor | OpUpdateTaskStatus
  | OpTransitionTask | OpFinalizeTask | OpClaimTask | OpReleaseTask | OpClaimNext | OpAck
  | OpHeartbeat | OpComplete | OpFailPending | OpReapQuery | OpReapUpdate | OpHasActive
  | OpCountFailures | OpRolloutGroup | OpQueryTasks
  | OpAcquireClaim | OpReleaseClaim | OpDeleteClaim | OpRefreshClaim | OpQueryClaim | OpRand
  | OpIncrementTransition | OpQueryTransitions | OpIncrementCycle | OpTouchDispatch | OpMarkCapHit
  | OpResetCycle | OpQueryCycle | OpUpsertCache | OpQueryCache | OpListCaches | OpDeleteCache
  | OpCreateInstance | OpAdvanceInstance | OpQueryInstances
  | OpReplaceDeps | OpListDeps | OpUpsertDepState | OpQueryDepState | OpMarkReaction | OpDeleteDepState
  | OpUpsertHazard | OpQueryHazard | OpClearHazard
  | OpInsertWorker | OpQueryWorkers | OpWorkerHeartbeat | OpWorkerStatus | OpDeleteWorker
  | OpWorkerRunning | OpRootTrace | OpListHazards
  | OpUpsertRegistration | OpGetRegistration | OpListRegistrations | OpDeleteRegistration
  | OpUpsertRoute | OpGetRoute
  | OpIssueToken | OpListTokens | OpRevokeToken | OpAuthToken
  | OpInsertEvent | OpRecentAlerts | OpCountTasks | OpQueryEvents | OpSessions

datatype store_error =
    DBError dbop
  | ErrBusy
  | UniqueViolation
  | ErrTaskNotFound
  | ErrTaskClaimConflict
  | ErrTaskAlreadyCompleted
  | ErrTaskNotClaimedByWorker
  | ErrTaskStatusTerminal
  | ErrWorkerNotFound
  | ErrIssueClaimHeldByOther
  | TaskMissing string
  | UnexpectedStatus string string
  | UnsupportedStatus string
  | HeartbeatRefused string
  | CompleteRefused
  | WorkerIDRequired
  | GraceNotPositive
  | ErrWorkflowInstanceNotFound
  | ForeignKeyViolation

type_synonym 'a result = "store_error + 'a"

record TaskRecord =
  t_ID :: string
  t_Repo :: string
  t_IssueNum :: int
  t_AgentName :: string
  t_Role :: string
  t_Runtime :: string
  t_Workflow :: string
  t_State :: string
  t_WorkerID :: "string option"
  t_ClaimToken :: "string option"
  t_Status :: string
  t_LeaseExpiresAt :: "time option"
  t_AckedAt :: "time option"
  t_HeartbeatAt :: "time option"
  t_CompletedAt :: "time option"
  t_ExitCode :: int
  t_SessionRefs :: string
  t_RolloutIndex :: int
  t_RolloutsTotal :: int
  t_RolloutGroupID :: string
  t_SupervisorAgentID :: "string option"
  t_CreatedAt :: time
  t_UpdatedAt :: time

record IssueClaimRecord =
  c_WorkerID :: string
  c_ClaimToken :: string
  c_AcquiredAt :: time
  c_ExpiresAt :: time

record WorkflowInstanceRow =
  wi_ID :: string
  wi_WorkflowName :: string
  wi_Repo :: string
  wi_IssueNum :: int
  wi_CurrentState :: string
  wi_CreatedAt :: time
  wi_UpdatedAt :: time

record WorkflowTransitionRow =
  wt_InstanceID :: string
  wt_FromState :: string
  wt_ToState :: string
  wt_TriggerAgent :: string
  wt_CreatedAt :: time

record IssueCache =
  ic_Labels :: labels_text
  ic_Body :: string
  ic_State :: string
  ic_RootTraceID :: string
  ic_ParentIssueNum :: int
  ic_UpdatedAt :: time

record IssueDependency =
  d_Repo :: string
  d_IssueNum :: int
  d_DependsOnRepo :: string
  d_DependsOnIssueNum :: int
  d_SourceHash :: string
  d_Status :: string

record IssueDependencyState =
  ds_Verdict :: string
  ds_ResumeLabel :: string
  ds_BlockedReasonHash :: string
  ds_OverrideActive :: bool
  ds_GraphVersion :: int
  ds_LastReactionBlocked :: bool
  ds_LastEvaluatedAt :: time

record PipelineHazard =
  h_Kind :: string
  h_Fingerprint :: string
  h_DetectedAt :: time

record IssueCycleState =
  cy_DevReviewCycleCount :: int
  cy_SynthCycleCount :: int
  cy_TotalTransitions :: int
  cy_FirstDispatchAt :: "time option"
  cy_CapHitAt :: "time option"
  cy_SynthCapHitAt :: "time option"
  cy_UpdatedAt :: time

record WorkerRecord =
  w_ID :: string
  w_Repo :: string
  w_ReposJSON :: labels_text
  w_Roles :: labels_text
  w_Runtime :: string
  w_Hostname :: string
  w_MgmtBaseURL :: string
  w_AuditURL :: string
  w_Tunnel :: bool
  w_Status :: string
  w_LastHeartbeat :: time
  w_RegisteredAt :: time

record store =
  task_queue :: "TaskRecord list"
  issue_claim :: "(issue_key \<times> IssueClaimRecord) list"
  transition_counts :: "((issue_key \<times> string \<times> string) \<times> int) list"
  workflow_instances :: "WorkflowInstanceRow list"
  workflow_transitions :: "WorkflowTransitionRow list"
  issue_cache :: "(issue_key \<times> IssueCache) list"
  issue_dependencies :: "IssueDependency list"
  issue_dependency_state :: "(issue_key \<times> IssueDependencyState) list"
  issue_pipeline_hazards :: "(issue_key \<times> PipelineHazard) list"
  issue_cycle_state :: "(issue_key \<times> IssueCycleState) list"
  workers :: "(string \<times> WorkerRecord) list"
  claim_race :: "IssueClaimRecord option"
  clock :: time
  otel_trace :: "string option"
  rand :: "nat \<Rightarrow> nat"
  rand_pos :: nat
  faults :: "dbop \<Rightarrow> bool"
  busy :: nat

definition no_faults :: "store \<Rightarrow> bool" where
  "no_faults s \<longleftrightarrow> (\<forall>op. \<not> faults s op)"

definition go_str :: "string option \<Rightarrow> string" where
  "go_str x = (case x of None \<Rightarrow> [] | Some s \<Rightarrow> s)"

text \<open>\<^verbatim>\<open>CURRENT_TIMESTAMP\<close>.\<close>

definition db_now :: "store \<Rightarrow> time" where
  "db_now s = sql_time (clock s)"

definition empty_store :: store where
  "empty_store = \<lparr>task_queue = [], issue_claim = [], transition_counts = [],
     workflow_instances = [], workflow_transitions = [], issue_cache = [], issue_dependencies = [],
     issue_dependency_state = [], issue_pipeline_hazards = [], issue_cycle_state = [],
     workers = [], claim_race = None, clock = 0, otel_trace = None, rand = (\<lambda>_. 0), rand_pos = 0, faults = (\<lambda>_. False), busy = 0\<rparr>"

lemma busy_zero_id [simp]: "busy s = 0 \<Longrightarrow> s\<lparr>busy := 0\<rparr> = s"
  by simp

text \<open>Task status values.\<close>

definition TaskStatusPending :: string where "TaskStatusPending = ''pending''"
definition TaskStatusRunning :: string where "TaskStatusRunning = ''running''"
definition TaskStatusCompleted :: string where "TaskStatusCompleted = ''completed''"
definition TaskStatusFailed :: string where "TaskStatusFailed = ''failed''"
definition TaskStatusTimeout :: string where "TaskStatusTimeout = ''timeout''"

lemmas task_status_defs =
  TaskStatusPending_def TaskStatusRunning_def TaskStatusCompleted_def TaskStatusFailed_def
  TaskStatusTimeout_def

definition terminal_status :: "string \<Rightarrow> bool" where
  "terminal_status st \<longleftrightarrow> st = TaskStatusCompleted \<or> st = TaskStatusFailed \<or> st = TaskStatusTimeout"

definition active_status :: "string \<Rightarrow> bool" where
  "active_status st \<longleftrightarrow> st = TaskStatusPending \<or> st = TaskStatusRunning"

lemma task_status_distinct [simp]:
  "distinct [TaskStatusPending, TaskStatusRunning, TaskStatusCompleted, TaskStatusFailed, TaskStatusTimeout]"
  by (simp add: task_status_defs)

lemma status_simps [simp]:
  "active_status TaskStatusPending" "active_status TaskStatusRunning"
  "terminal_status TaskStatusCompleted" "terminal_status TaskStatusFailed"
  "terminal_status TaskStatusTimeout"
  "\<not> active_status TaskStatusCompleted" "\<not> active_status TaskStatusFailed"
  "\<not> active_status TaskStatusTimeout"
  "\<not> terminal_status TaskStatusPending" "\<not> terminal_status TaskStatusRunning"
  "TaskStatusPending \<noteq> TaskStatusRunning" "TaskStatusRunning \<noteq> TaskStatusPending"
  "TaskStatusCompleted \<noteq> TaskStatusFailed" "TaskStatusFailed \<noteq> TaskStatusCompleted"
  "TaskStatusFailed \<noteq> TaskStatusRunning" "TaskStatusFailed \<noteq> TaskStatusPending"
  "TaskStatusCompleted \<noteq> TaskStatusRunning" "TaskStatusCompleted \<noteq> TaskStatusPending"
  by (simp_all add: active_status_def terminal_status_def task_status_defs)

lemma terminal_not_active: "terminal_status st \<Longrightarrow> \<not> active_status st"
  by (auto simp: active_status_def terminal_status_def task_status_defs)

text \<open>\<^verbatim>\<open>for attempt := 0; attempt < n; attempt++\<close> around a statement that may be busy,
  followed by one last attempt; the sleeps in between are not observable.\<close>

fun retry_busy :: "nat \<Rightarrow> (store \<Rightarrow> store \<times> 'a result) \<Rightarrow> store \<Rightarrow> store \<times> 'a result" where
  "retry_busy 0 op s = op s"
| "retry_busy (Suc n) op s =
     (case op s of (s', Inl ErrBusy) \<Rightarrow> retry_busy n op s' | r \<Rightarrow> r)"

lemma retry_busy_not_busy: "snd (op s) \<noteq> Inl ErrBusy \<Longrightarrow> retry_busy n op s = op s"
  by (cases n) (auto split: prod.splits sum.splits store_error.splits)

text \<open>A relation that each attempt respects is respected by the whole loop.\<close>

lemma retry_busy_rel:
  assumes refl: "\<And>s. R s s" and trans: "\<And>s t u. R s t \<Longrightarrow> R t u \<Longrightarrow> R s u"
    and op: "\<And>s. R s (fst (op s))"
  shows "R s (fst (retry_busy n op s))"
proof (induction n arbitrary: s)
  case 0
  then show ?case by (simp add: op)
next
  case (Suc n)
  obtain s' r where step: "op s = (s', r)" by force
  with op [of s] have 1: "R s s'" by simp
  show ?case
  proof (cases "r = Inl ErrBusy")
    case True
    with trans [OF 1 Suc [of s']] step show ?thesis by simp
  next
    case False
    with step 1 show ?thesis by (auto split: sum.splits store_error.splits)
  qed
qed

lemma retry_busy_result:
  "snd (retry_busy n op s) = Inr x \<Longrightarrow> \<exists>s1. op s1 = retry_busy n op s"
proof (induction n arbitrary: s)
  case 0
  then show ?case by auto
next
  case (Suc n)
  then show ?case
    by (cases "op s") (force split: sum.splits store_error.splits if_splits)
qed

end
