(* ===== verification/Claim_Store.thy ===== *)
theory Claim_Store
  imports Store_Types
begin

text \<open>
  The per-issue dispatch lease of \<^verbatim>\<open>internal/store\<close> (\<^verbatim>\<open>issue_claim\<close>):
  acquisition with extension of one's own lease and takeover of an expired one, release and
  refresh by token, administrative deletion, and the sweep of claims left by a dead
  coordinator.

  Shown here: an acquisition succeeds only when no other worker holds a live lease, also
  when another process inserts its claim in the middle; what other workers do cannot end,
  change or shorten a live lease; a release needs the holder's token.
\<close>

section \<open>Operations\<close>

definition hex_digit :: "nat \<Rightarrow> char" where
  "hex_digit d = (if d < 10 then char_of (48 + d) else char_of (87 + d))"

text \<open>\<^verbatim>\<open>hex.EncodeToString\<close>.\<close>

definition hex_encode :: "nat list \<Rightarrow> string" where
  "hex_encode bs = concat (map (\<lambda>b. [hex_digit (b div 16), hex_digit (b mod 16)]) bs)"

definition generateClaimToken :: "store \<Rightarrow> store \<times> string result" where
  "generateClaimToken s =
     (if faults s OpRand then (s, Inl (DBError OpRand))
      else (s\<lparr>rand_pos := rand_pos s + 16\<rparr>,
            Inr (hex_encode (map (\<lambda>i. rand s (rand_pos s + i) mod 256) [0..<16]))))"

record AcquireIssueClaimResult =
  a_ClaimToken :: string
  a_Extended :: bool
  a_OverwrotePrior :: bool
  a_PriorWorkerID :: string

text \<open>The part of the acquisition that meets a holder \<open>c\<close>.\<close>

definition acquireHeld ::
  "issue_key \<Rightarrow> string \<Rightarrow> duration \<Rightarrow> IssueClaimRecord \<Rightarrow> store \<Rightarrow> store \<times> AcquireIssueClaimResult result" where
  "acquireHeld k worker lease c s =
     (let now = clock s; expiresAt = now + lease; expired = \<not> c_ExpiresAt c > now
      in if c_WorkerID c = worker \<and> \<not> expired then
           (s\<lparr>issue_claim := AList.update k (c\<lparr>c_ExpiresAt := sql_time expiresAt\<rparr>) (issue_claim s)\<rparr>,
            Inr \<lparr>a_ClaimToken = c_ClaimToken c, a_Extended = True, a_OverwrotePrior = False, a_PriorWorkerID = []\<rparr>)
         else if \<not> expired then (s, Inl ErrIssueClaimHeldByOther)
         else (case generateClaimToken s of
             (s1, Inl e) \<Rightarrow> (s1, Inl e)
           | (s1, Inr token) \<Rightarrow>
               (s1\<lparr>issue_claim := AList.update k
                     \<lparr>c_WorkerID = worker, c_ClaimToken = token, c_AcquiredAt = sql_time now,
                      c_ExpiresAt = sql_time expiresAt\<rparr> (issue_claim s1)\<rparr>,
                Inr \<lparr>a_ClaimToken = token, a_Extended = False, a_OverwrotePrior = True,
                     a_PriorWorkerID = c_WorkerID c\<rparr>)))"

definition acquireIssueClaimOnce ::
  "string \<Rightarrow> int \<Rightarrow> string \<Rightarrow> duration \<Rightarrow> store \<Rightarrow> store \<times> AcquireIssueClaimResult result" where
  "acquireIssueClaimOnce repo n worker lease s =
     (if busy s > 0 then (s\<lparr>busy := busy s - 1\<rparr>, Inl ErrBusy)
      else if faults s OpAcquireClaim then (s, Inl (DBError OpAcquireClaim))
      else case map_of (issue_claim s) (repo, n) of
        Some c \<Rightarrow> acquireHeld (repo, n) worker lease c s
      | None \<Rightarrow>
         (case generateClaimToken s of
            (s1, Inl e) \<Rightarrow> (s1, Inl e)
          | (s1, Inr token) \<Rightarrow>
             (case claim_race s1 of
                None \<Rightarrow>
                  (s1\<lparr>issue_claim := AList.update (repo, n)
                       \<lparr>c_WorkerID = worker, c_ClaimToken = token, c_AcquiredAt = sql_time (clock s),
                        c_ExpiresAt = sql_time (clock s + lease)\<rparr> (issue_claim s1)\<rparr>,
                   Inr \<lparr>a_ClaimToken = token, a_Extended = False, a_OverwrotePrior = False, a_PriorWorkerID = []\<rparr>)
              | Some c \<Rightarrow>
                  acquireHeld (repo, n) worker lease c
                    (s1\<lparr>claim_race := None, issue_claim := AList.update (repo, n) c (issue_claim s1)\<rparr>))))"

definition claim_lease :: "duration \<Rightarrow> duration" where
  "claim_lease lease = (if lease \<le> 0 then 30 * minute else lease)"

definition AcquireIssueClaim ::
  "string \<Rightarrow> int \<Rightarrow> string \<Rightarrow> duration \<Rightarrow> store \<Rightarrow> store \<times> AcquireIssueClaimResult result" where
  "AcquireIssueClaim repo n worker lease s =
     (if trim_space worker = [] then (s, Inl WorkerIDRequired)
      else retry_busy 5 (acquireIssueClaimOnce repo n worker (claim_lease lease)) s)"

definition held_with :: "string \<Rightarrow> string \<Rightarrow> IssueClaimRecord option \<Rightarrow> bool" where
  "held_with worker token co =
     (case co of None \<Rightarrow> False | Some c \<Rightarrow> c_WorkerID c = worker \<and> c_ClaimToken c = token)"

definition ReleaseIssueClaim :: "string \<Rightarrow> int \<Rightarrow> string \<Rightarrow> string \<Rightarrow> store \<Rightarrow> store \<times> bool result" where
  "ReleaseIssueClaim repo n worker token s =
     (if faults s OpReleaseClaim then (s, Inl (DBError OpReleaseClaim))
      else if held_with worker token (map_of (issue_claim s) (repo, n))
      then (s\<lparr>issue_claim := AList.delete (repo, n) (issue_claim s)\<rparr>, Inr True)
      else (s, Inr False))"

definition DeleteIssueClaim :: "string \<Rightarrow> int \<Rightarrow> store \<Rightarrow> store \<times> bool result" where
  "DeleteIssueClaim repo n s =
     (if faults s OpDeleteClaim then (s, Inl (DBError OpDeleteClaim))
      else (s\<lparr>issue_claim := AList.delete (repo, n) (issue_claim s)\<rparr>,
            Inr (map_of (issue_claim s) (repo, n) \<noteq> None)))"

definition RefreshIssueClaim :: "string \<Rightarrow> int \<Rightarrow> string \<Rightarrow> string \<Rightarrow> duration \<Rightarrow> store \<Rightarrow> store \<times> bool result" where
  "RefreshIssueClaim repo n worker token lease s =
     (if faults s OpRefreshClaim then (s, Inl (DBError OpRefreshClaim))
      else case map_of (issue_claim s) (repo, n) of
        None \<Rightarrow> (s, Inr False)
      | Some c \<Rightarrow>
          if held_with worker token (Some c) \<and> c_ExpiresAt c > db_now s
          then (s\<lparr>issue_claim := AList.update (repo, n)
                   (c\<lparr>c_ExpiresAt := sql_time (clock s + claim_lease lease)\<rparr>) (issue_claim s)\<rparr>, Inr True)
          else (s, Inr False))"

definition QueryIssueClaim :: "string \<Rightarrow> int \<Rightarrow> store \<Rightarrow> IssueClaimRecord option result" where
  "QueryIssueClaim repo n s =
     (if faults s OpQueryClaim then Inl (DBError OpQueryClaim)
      else Inr (map_of (issue_claim s) (repo, n)))"

text \<open>\<^verbatim>\<open>^coordinator-.*-pid-(\d+)$\<close> on a trimmed worker id: the digits matched by the
  group. A run of digits that ends the string and follows \<^verbatim>\<open>-pid-\<close> is the longest run
  of digits there.\<close>

definition coordinatorPid :: "string \<Rightarrow> string option" where
  "coordinatorPid s =
     (let digits = rev (takeWhile (\<lambda>c. digit_val c \<noteq> None) (rev s));
          rest = rev (dropWhile (\<lambda>c. digit_val c \<noteq> None) (rev s));
          pre = take (length rest - 5) rest;
          mid = drop 12 pre
      in if digits \<noteq> [] \<and> rest = pre @ ''-pid-'' \<and> has_prefix pre ''coordinator-'' \<and> CHR 0x0A \<notin> set mid
         then Some digits else None)"

definition stale_coordinator :: "int \<Rightarrow> string \<Rightarrow> bool" where
  "stale_coordinator pid worker =
     (case coordinatorPid (trim_space worker) of
        None \<Rightarrow> False
      | Some ds \<Rightarrow> (case atoi ds of None \<Rightarrow> False | Some p \<Rightarrow> p \<noteq> pid))"

fun deleteClaims :: "(issue_key \<times> IssueClaimRecord) list \<Rightarrow> store \<Rightarrow> store \<times> unit result" where
  "deleteClaims [] s = (s, Inr ())"
| "deleteClaims ((k, _) # rest) s =
     (case DeleteIssueClaim (fst k) (snd k) s of
        (s', Inl e) \<Rightarrow> (s', Inl e)
      | (s', Inr _) \<Rightarrow> deleteClaims rest s')"

definition DeleteStaleCoordinatorIssueClaims ::
  "int \<Rightarrow> store \<Rightarrow> store \<times> (issue_key \<times> IssueClaimRecord) list result" where
  "DeleteStaleCoordinatorIssueClaims pid s =
     (if faults s OpQueryClaim then (s, Inl (DBError OpQueryClaim))
      else (let stale = filter (\<lambda>(_, c). stale_coordinator pid (c_WorkerID c)) (issue_claim s)
            in case deleteClaims stale s of
                 (s', Inl e) \<Rightarrow> (s', Inl e)
               | (s', Inr _) \<Rightarrow> (s', Inr stale)))"

section \<open>Tokens\<close>

lemma length_hex_encode: "length (hex_encode bs) = 2 * length bs"
  by (induction bs) (auto simp: hex_encode_def)

lemma generateClaimToken_nonempty: "generateClaimToken s = (s', Inr token) \<Longrightarrow> length token = 32"
  by (auto simp: generateClaimToken_def length_hex_encode split: if_splits)

lemma generateClaimToken_frame:
  assumes "generateClaimToken s = (s', r)"
  shows "s' = s\<lparr>rand_pos := rand_pos s'\<rparr>"
  using assms by (auto simp: generateClaimToken_def split: if_splits)

section \<open>A live lease is untouchable\<close>

definition claim_live :: "issue_key \<Rightarrow> IssueClaimRecord \<Rightarrow> store \<Rightarrow> bool" where
  "claim_live k c s \<longleftrightarrow> map_of (issue_claim s) k = Some c \<and> c_ExpiresAt c > clock s"

lemma map_of_delete: "map_of (AList.delete k' t) k = (if k = k' then None else map_of t k)"
  by (simp add: delete_conv')

lemma token_frames [simp]:
  "issue_claim (fst (generateClaimToken s)) = issue_claim s" "clock (fst (generateClaimToken s)) = clock s"
  "claim_race (fst (generateClaimToken s)) = claim_race s"
  by (simp_all add: generateClaimToken_def)

lemma acquireHeld_clock [simp]: "clock (fst (acquireHeld k w l c s)) = clock s"
  by (auto simp: acquireHeld_def Let_def generateClaimToken_def)

lemma acquireIssueClaimOnce_clock [simp]: "clock (fst (acquireIssueClaimOnce repo n w l s)) = clock s"
  by (auto simp: acquireIssueClaimOnce_def generateClaimToken_def split: option.splits)

text \<open>An acquisition attempt for another issue or by another worker leaves a live claim as it
  is.\<close>

lemma acquireHeld_live:
  assumes "claim_live k c s" "k' \<noteq> k \<or> (w \<noteq> c_WorkerID c \<and> c' = c)"
  shows "claim_live k c (fst (acquireHeld k' w l c' s))"
  using assms by (auto simp: acquireHeld_def claim_live_def Let_def generateClaimToken_def)

lemma acquireOnce_live:
  assumes "claim_live k c s" "(repo, n) \<noteq> k \<or> w \<noteq> c_WorkerID c"
  shows "claim_live k c (fst (acquireIssueClaimOnce repo n w l s))"
proof (cases "busy s > 0 \<or> faults s OpAcquireClaim")
  case True
  with assms show ?thesis by (auto simp: acquireIssueClaimOnce_def claim_live_def)
next
  case quiet: False
  show ?thesis
  proof (cases "map_of (issue_claim s) (repo, n)")
    case (Some c')
    then have "(repo, n) \<noteq> k \<or> (w \<noteq> c_WorkerID c \<and> c' = c)" using assms by (auto simp: claim_live_def)
    from acquireHeld_live [OF assms(1) this] Some quiet show ?thesis by (simp add: acquireIssueClaimOnce_def)
  next
    case None
    with assms have other: "k \<noteq> (repo, n)" by (auto simp: claim_live_def)
    have "claim_live k c (s\<lparr>rand_pos := p, claim_race := r, issue_claim := AList.update (repo, n) x (issue_claim s)\<rparr>)" for p r x
      using assms(1) other by (simp add: claim_live_def)
    from acquireHeld_live [OF this, of "(repo, n)"] other assms(1) None quiet show ?thesis
      by (auto simp: acquireIssueClaimOnce_def generateClaimToken_def claim_live_def split: option.splits)
  qed
qed

lemma AcquireIssueClaim_live:
  assumes "claim_live k c s" "(repo, n) \<noteq> k \<or> w \<noteq> c_WorkerID c"
  shows "claim_live k c (fst (AcquireIssueClaim repo n w l s))"
proof -
  have "claim_live k c s \<longrightarrow> claim_live k c (fst (retry_busy 5 (acquireIssueClaimOnce repo n w (claim_lease l)) s))"
    by (rule retry_busy_rel [where R = "\<lambda>s s'. claim_live k c s \<longrightarrow> claim_live k c s'"])
      (use acquireOnce_live assms(2) in auto)
  with assms show ?thesis by (simp add: AcquireIssueClaim_def)
qed

lemma AcquireIssueClaim_clock [simp]: "clock (fst (AcquireIssueClaim repo n w l s)) = clock s"
  using retry_busy_rel [where R = "\<lambda>s s'. clock s' = clock s" and
      op = "acquireIssueClaimOnce repo n w (claim_lease l)" and n = 5 and s = s]
  by (auto simp: AcquireIssueClaim_def)

section \<open>What a successful acquisition means\<close>

definition free_for :: "string \<Rightarrow> issue_key \<Rightarrow> store \<Rightarrow> bool" where
  "free_for w k s \<longleftrightarrow> (\<forall>c. claim_live k c s \<longrightarrow> c_WorkerID c = w)"

definition owns :: "string \<Rightarrow> issue_key \<Rightarrow> string \<Rightarrow> time \<Rightarrow> store \<Rightarrow> bool" where
  "owns w k token e s \<longleftrightarrow> (\<exists>c. map_of (issue_claim s) k = Some c \<and> c_WorkerID c = w \<and>
     c_ClaimToken c = token \<and> c_ExpiresAt c = e)"

lemma acquireHeld_ok:
  assumes "acquireHeld k w l c s = (s', Inr res)" "map_of (issue_claim s) k = Some c"
  shows "free_for w k s \<and> owns w k (a_ClaimToken res) (sql_time (clock s + l)) s' \<and>
     (if a_Extended res then a_ClaimToken res = c_ClaimToken c else length (a_ClaimToken res) = 32)"
proof (cases "c_ExpiresAt c > clock s")
  case True
  with assms show ?thesis
    by (auto simp: acquireHeld_def Let_def free_for_def claim_live_def owns_def split: if_splits)
next
  case False
  obtain s1 r where tok: "generateClaimToken s = (s1, r)" by force
  with False assms show ?thesis
    by (auto simp: acquireHeld_def Let_def free_for_def claim_live_def owns_def
        split: sum.splits dest: generateClaimToken_nonempty)
qed

lemma acquireOnce_ok:
  assumes "acquireIssueClaimOnce repo n w l s = (s', Inr res)"
  shows "free_for w (repo, n) s \<and> owns w (repo, n) (a_ClaimToken res) (sql_time (clock s + l)) s' \<and>
     (a_Extended res \<or> length (a_ClaimToken res) = 32)"
proof (cases "map_of (issue_claim s) (repo, n)")
  case (Some c)
  with assms have "acquireHeld (repo, n) w l c s = (s', Inr res)"
    by (simp add: acquireIssueClaimOnce_def split: if_splits)
  from acquireHeld_ok [OF this Some] show ?thesis by (auto split: if_splits)
next
  case None
  then have free: "free_for w (repo, n) s" by (simp add: free_for_def claim_live_def)
  obtain s1 tok where tok: "generateClaimToken s = (s1, Inr tok)"
    using assms None by (auto simp: acquireIssueClaimOnce_def split: if_splits prod.splits sum.splits)
  have clk: "clock s1 = clock s" using token_frames(2) [of s] tok by simp
  show ?thesis
  proof (cases "claim_race s1")
    case None': None
    with assms None tok have "a_ClaimToken res = tok" "owns w (repo, n) tok (sql_time (clock s + l)) s'"
      by (auto simp: acquireIssueClaimOnce_def owns_def split: if_splits)
    with free generateClaimToken_nonempty [OF tok] show ?thesis by simp
  next
    case (Some c)
    let ?s = "s1\<lparr>claim_race := None, issue_claim := AList.update (repo, n) c (issue_claim s1)\<rparr>"
    from assms None tok Some have "acquireHeld (repo, n) w l c ?s = (s', Inr res)"
      by (simp add: acquireIssueClaimOnce_def split: if_splits)
    from acquireHeld_ok [OF this] free clk show ?thesis by (auto split: if_splits)
  qed
qed

lemma acquireOnce_not_busy:
  assumes "busy s = 0"
  shows "snd (acquireIssueClaimOnce repo n w l s) \<noteq> Inl ErrBusy"
proof -
  have "snd (acquireHeld k w l c t) \<noteq> Inl ErrBusy" for k c t
    by (auto simp: acquireHeld_def Let_def generateClaimToken_def)
  with assms show ?thesis
    by (auto simp: acquireIssueClaimOnce_def generateClaimToken_def split: option.splits)
qed

lemma acquireOnce_busy:
  assumes "snd (acquireIssueClaimOnce repo n w l s) = Inl ErrBusy"
  shows "fst (acquireIssueClaimOnce repo n w l s) = s\<lparr>busy := busy s - 1\<rparr>"
  using assms acquireOnce_not_busy [of s repo n w l]
  by (cases "busy s") (auto simp: acquireIssueClaimOnce_def)

lemma AcquireIssueClaim_calm:
  "busy s = 0 \<Longrightarrow> trim_space w \<noteq> [] \<Longrightarrow>
   AcquireIssueClaim repo n w l s = acquireIssueClaimOnce repo n w (claim_lease l) s"
  by (simp add: AcquireIssueClaim_def retry_busy_not_busy acquireOnce_not_busy)

lemma retry_acquire_ok:
  assumes "retry_busy m (acquireIssueClaimOnce repo n w l) s = (s', Inr res)"
  shows "\<exists>b. acquireIssueClaimOnce repo n w l (s\<lparr>busy := b\<rparr>) = (s', Inr res)"
  using assms
proof (induction m arbitrary: s)
  case 0
  then show ?case by (intro exI [of _ "busy s"]) simp
next
  case (Suc m)
  show ?case
  proof (cases "snd (acquireIssueClaimOnce repo n w l s) = Inl ErrBusy")
    case True
    with acquireOnce_busy [OF True] Suc.prems
    have "retry_busy m (acquireIssueClaimOnce repo n w l) (s\<lparr>busy := busy s - 1\<rparr>) = (s', Inr res)"
      by (cases "acquireIssueClaimOnce repo n w l s") auto
    from Suc.IH [OF this] show ?thesis by simp
  next
    case False
    with Suc.prems have "acquireIssueClaimOnce repo n w l s = (s', Inr res)"
      by (metis retry_busy_not_busy)
    then show ?thesis by (intro exI [of _ "busy s"]) simp
  qed
qed

lemma AcquireIssueClaim_ok:
  assumes "AcquireIssueClaim repo n w l s = (s', Inr res)"
  shows "free_for w (repo, n) s \<and>
     owns w (repo, n) (a_ClaimToken res) (sql_time (clock s + claim_lease l)) s' \<and>
     (a_Extended res \<or> length (a_ClaimToken res) = 32)"
proof -
  obtain b where "acquireIssueClaimOnce repo n w (claim_lease l) (s\<lparr>busy := b\<rparr>) = (s', Inr res)"
    using assms retry_acquire_ok [of 5 repo n w "claim_lease l" s s' res]
    by (auto simp: AcquireIssueClaim_def split: if_splits)
  from acquireOnce_ok [OF this] show ?thesis by (auto simp: free_for_def claim_live_def)
qed

section \<open>Leases as an interface\<close>

text \<open>What the dispatcher relies on: a holder per key that only the holder's own operations and
  time can end, and an acquisition that fails while another holder is live.\<close>

locale exclusive_lease =
  fixes holder :: "'s \<Rightarrow> 'k \<Rightarrow> 'w option"
    and acquire :: "'k \<Rightarrow> 'w \<Rightarrow> 's \<Rightarrow> 's \<times> bool"
  assumes acquire_free: "snd (acquire k w s) \<Longrightarrow> holder s k = None \<or> holder s k = Some w"
    and acquire_holds: "snd (acquire k w s) \<Longrightarrow> holder (fst (acquire k w s)) k = Some w"
    and acquire_keeps: "holder s k = Some w \<Longrightarrow> k' \<noteq> k \<or> w' \<noteq> w \<Longrightarrow> holder (fst (acquire k' w' s)) k = Some w"
begin

lemma attempts_keep:
  assumes "holder s k = Some w" "\<forall>(k', w') \<in> set attempts. k' \<noteq> k \<or> w' \<noteq> w"
  shows "holder (fold (\<lambda>(k', w') s. fst (acquire k' w' s)) attempts s) k = Some w"
  using assms by (induction attempts arbitrary: s) (auto intro: acquire_keeps)

lemma second_acquire_fails:
  assumes "snd (acquire k w s)" "\<forall>(k', w') \<in> set attempts. k' \<noteq> k \<or> w' \<noteq> w" "v \<noteq> w"
  shows "\<not> snd (acquire k v (fold (\<lambda>(k', w') s. fst (acquire k' w' s)) attempts (fst (acquire k w s))))"
  using attempts_keep [OF acquire_holds [OF assms(1)] assms(2)] assms(3) acquire_free by fastforce

end

definition live_holder :: "store \<Rightarrow> issue_key \<Rightarrow> string option" where
  "live_holder s k =
     (case map_of (issue_claim s) k of
        None \<Rightarrow> None | Some c \<Rightarrow> if c_ExpiresAt c > clock s then Some (c_WorkerID c) else None)"

definition try_acquire :: "issue_key \<Rightarrow> string \<Rightarrow> store \<Rightarrow> store \<times> bool" where
  "try_acquire k w s = (case AcquireIssueClaim (fst k) (snd k) w (30 * minute) s of
     (s', Inr _) \<Rightarrow> (s', True) | (s', Inl _) \<Rightarrow> (s', False))"

lemma live_holder_Some: "live_holder s k = Some w \<longleftrightarrow> (\<exists>c. claim_live k c s \<and> c_WorkerID c = w)"
  by (auto simp: live_holder_def claim_live_def split: option.splits)

lemma live_holder_None: "live_holder s k = None \<longleftrightarrow> (\<forall>c. \<not> claim_live k c s)"
  by (auto simp: live_holder_def claim_live_def split: option.splits)

lemma fst_try_acquire: "fst (try_acquire k w s) = fst (AcquireIssueClaim (fst k) (snd k) w (30 * minute) s)"
  by (simp add: try_acquire_def split: prod.splits sum.splits)

lemma lease_outlives: "second \<le> l \<Longrightarrow> t < sql_time (t + l)"
  by (simp add: sql_time_def second_def)

interpretation issue_lease: exclusive_lease live_holder try_acquire
proof unfold_locales
  fix k w and s :: store
  assume ok: "snd (try_acquire k w s)"
  then obtain s' res where acq: "AcquireIssueClaim (fst k) (snd k) w (30 * minute) s = (s', Inr res)"
    by (auto simp: try_acquire_def split: prod.splits sum.splits)
  note A = AcquireIssueClaim_ok [OF acq]
  show "live_holder s k = None \<or> live_holder s k = Some w"
  proof (cases "live_holder s k")
    case (Some v)
    with A show ?thesis by (auto simp: live_holder_Some free_for_def)
  qed simp
  have "clock s' = clock s" using AcquireIssueClaim_clock [of "fst k" "snd k" w "30 * minute" s] acq by simp
  moreover have "clock s < sql_time (clock s + claim_lease (30 * minute))"
    by (rule lease_outlives) (simp add: claim_lease_def minute_def second_def)
  ultimately show "live_holder (fst (try_acquire k w s)) k = Some w"
    using A acq by (auto simp: fst_try_acquire live_holder_Some claim_live_def owns_def)
next
  fix k k' w w' and s :: store
  assume h: "live_holder s k = Some w" and o: "k' \<noteq> k \<or> w' \<noteq> w"
  then obtain c where "claim_live k c s" "c_WorkerID c = w" by (auto simp: live_holder_Some)
  with AcquireIssueClaim_live [of k c s "fst k'" "snd k'" w' "30 * minute"] o
  show "live_holder (fst (try_acquire k' w' s)) k = Some w"
    by (auto simp: fst_try_acquire live_holder_Some)
qed

section \<open>Steps that are not the holder's\<close>

text \<open>\<open>foreign_step k c\<close>: anything that may happen to the claims table while \<open>c\<close> holds \<open>k\<close>, except
  what the holder does with its own worker id and token, an administrative deletion of \<open>k\<close>,
  and a sweep that takes the holder for a dead coordinator.\<close>

inductive foreign_step :: "issue_key \<Rightarrow> IssueClaimRecord \<Rightarrow> store \<Rightarrow> store \<Rightarrow> bool"
  for k :: issue_key and c :: IssueClaimRecord where
  fs_acquire: "(repo, n) \<noteq> k \<or> w \<noteq> c_WorkerID c \<Longrightarrow> foreign_step k c s (fst (AcquireIssueClaim repo n w l s))"
| fs_release: "(repo, n) \<noteq> k \<or> w \<noteq> c_WorkerID c \<or> tok \<noteq> c_ClaimToken c \<Longrightarrow>
    foreign_step k c s (fst (ReleaseIssueClaim repo n w tok s))"
| fs_refresh: "(repo, n) \<noteq> k \<or> w \<noteq> c_WorkerID c \<or> tok \<noteq> c_ClaimToken c \<Longrightarrow>
    foreign_step k c s (fst (RefreshIssueClaim repo n w tok l s))"
| fs_delete: "(repo, n) \<noteq> k \<Longrightarrow> foreign_step k c s (fst (DeleteIssueClaim repo n s))"
| fs_sweep: "\<not> stale_coordinator pid (c_WorkerID c) \<Longrightarrow> distinct (map fst (issue_claim s)) \<Longrightarrow>
    foreign_step k c s (fst (DeleteStaleCoordinatorIssueClaims pid s))"
| fs_env: "issue_claim s' = issue_claim s \<Longrightarrow> clock s \<le> clock s' \<Longrightarrow> foreign_step k c s s'"

lemma deleteClaims_keep:
  assumes "k \<notin> fst ` set ks"
  shows "map_of (issue_claim (fst (deleteClaims ks s))) k = map_of (issue_claim s) k"
  using assms
proof (induction ks s rule: deleteClaims.induct)
  case (2 k' x rest s)
  obtain s' r where d: "DeleteIssueClaim (fst k') (snd k') s = (s', r)" by force
  then have "map_of (issue_claim s') k = map_of (issue_claim s) k"
    using 2(2) by (auto simp: DeleteIssueClaim_def map_of_delete split: if_splits)
  with d 2 show ?case by (cases r) auto
qed simp

lemma deleteClaims_clock: "clock (fst (deleteClaims ks s)) = clock s"
proof (induction ks s rule: deleteClaims.induct)
  case (2 k' x rest s)
  obtain s' r where d: "DeleteIssueClaim (fst k') (snd k') s = (s', r)" by force
  then have "clock s' = clock s" by (auto simp: DeleteIssueClaim_def split: if_splits)
  with d 2 show ?case by (cases r) auto
qed simp

lemma sweep_clock: "clock (fst (DeleteStaleCoordinatorIssueClaims pid s)) = clock s"
  using deleteClaims_clock
  by (auto simp: DeleteStaleCoordinatorIssueClaims_def Let_def split: prod.splits sum.splits) (metis fst_conv)+

lemma sweep_keep:
  assumes "\<not> stale_coordinator pid (c_WorkerID c)" "distinct (map fst (issue_claim s))" "map_of (issue_claim s) k = Some c"
  shows "map_of (issue_claim (fst (DeleteStaleCoordinatorIssueClaims pid s))) k = Some c"
proof -
  let ?stale = "filter (\<lambda>(_, c). stale_coordinator pid (c_WorkerID c)) (issue_claim s)"
  have "k \<notin> fst ` set ?stale"
    using assms by (auto dest: map_of_is_SomeI [OF assms(2)])
  from deleteClaims_keep [OF this, of s] assms(3)
  show ?thesis
    by (auto simp: DeleteStaleCoordinatorIssueClaims_def Let_def split: prod.splits sum.splits)
qed

lemma foreign_step_keeps:
  assumes "foreign_step k c s s'" "claim_live k c s"
  shows "map_of (issue_claim s') k = Some c \<and> clock s \<le> clock s'"
  using assms
proof (cases rule: foreign_step.cases)
  case (fs_acquire repo n w l)
  with AcquireIssueClaim_live [OF assms(2), of repo n w l] show ?thesis by (auto simp: claim_live_def)
next
  case (fs_sweep pid)
  with sweep_keep [OF fs_sweep(2,3)] assms(2) show ?thesis by (simp add: claim_live_def sweep_clock)
qed (auto simp: ReleaseIssueClaim_def RefreshIssueClaim_def DeleteIssueClaim_def held_with_def claim_live_def
    map_of_delete split: option.splits)

lemma foreign_step_clock: "foreign_step k c s s' \<Longrightarrow> clock s \<le> clock s'"
  by (induction rule: foreign_step.induct)
    (auto simp: ReleaseIssueClaim_def RefreshIssueClaim_def DeleteIssueClaim_def sweep_clock split: option.splits)

lemma foreign_steps_keep:
  assumes "(foreign_step k c)\<^sup>*\<^sup>* s s'" "claim_live k c s" "clock s' < c_ExpiresAt c"
  shows "claim_live k c s'"
  using assms
proof (induction rule: rtranclp_induct)
  case (step s1 s2)
  then have "claim_live k c s1" using foreign_step_clock [OF step(2)] by simp
  with foreign_step_keeps [OF step(2)] step(5) show ?case by (simp add: claim_live_def)
qed simp

section \<open>Properties\<close>

text \<open>A successful \<^verbatim>\<open>AcquireIssueClaim\<close> means that no other worker held a live lease
  on the issue when it started, and leaves the issue owned by the caller under the returned
  token until the requested lease (30 minutes when none is given) has passed; the token is the
  32 hexadecimal digits just drawn unless the caller's own live lease was extended. This
  covers retries after busy answers and a claim inserted by another process in between.\<close>

theorem AcquireIssueClaim_sound:
  assumes "AcquireIssueClaim repo n w l s = (s', Inr res)"
  shows "free_for w (repo, n) s \<and>
     owns w (repo, n) (a_ClaimToken res) (sql_time (clock s + claim_lease l)) s' \<and>
     (a_Extended res \<or> length (a_ClaimToken res) = 32)"
  using assms by (rule AcquireIssueClaim_ok)

lemma claim_demo_simps:
  "trim_space ''A'' = ''A''" "trim_space ''B'' = ''B''" "busy empty_store = 0" "\<not> faults empty_store op"
  "issue_claim empty_store = []" "claim_race empty_store = None" "clock empty_store = 0"
  by (simp_all add: trim_space_def is_space_def empty_store_def)

theorem AcquireIssueClaim_sound_witness:
  "\<exists>s' res. AcquireIssueClaim ''o/r'' 7 ''A'' minute empty_store = (s', Inr res) \<and>
     owns ''A'' (''o/r'', 7) (a_ClaimToken res) minute s'"
proof -
  obtain s' res where acq: "AcquireIssueClaim ''o/r'' 7 ''A'' minute empty_store = (s', Inr res)"
    by (auto simp: AcquireIssueClaim_calm claim_demo_simps acquireIssueClaimOnce_def generateClaimToken_def)
  with AcquireIssueClaim_sound [OF acq] show ?thesis
    by (simp add: claim_demo_simps claim_lease_def minute_def second_def sql_time_def)
qed

text \<open>Mutual exclusion of the dispatch lease: while a lease is live, any sequence of other
  workers' acquisitions, releases and refreshes, wrong-token releases, deletions of other
  claims, sweeps that do not concern the holder, clock advances and retries leaves the
  holder's row exactly as it is, and every acquisition by another worker fails.\<close>

theorem issue_claim_mutual_exclusion:
  assumes "(foreign_step (repo, n) c)\<^sup>*\<^sup>* s s'" "claim_live (repo, n) c s" "clock s' < c_ExpiresAt c"
    and "w \<noteq> c_WorkerID c"
  shows "map_of (issue_claim s') (repo, n) = Some c \<and> (\<forall>res. snd (AcquireIssueClaim repo n w l s') \<noteq> Inr res)"
proof -
  have live: "claim_live (repo, n) c s'" by (rule foreign_steps_keep [OF assms(1-3)])
  have "snd (AcquireIssueClaim repo n w l s') \<noteq> Inr res" for res
    using AcquireIssueClaim_ok [of repo n w l s' "fst (AcquireIssueClaim repo n w l s')" res] live assms(4)
    by (metis free_for_def prod.collapse)
  with live show ?thesis by (simp add: claim_live_def)
qed

theorem issue_claim_mutual_exclusion_witness:
  "let c = \<lparr>c_WorkerID = ''A'', c_ClaimToken = ''k'', c_AcquiredAt = 0, c_ExpiresAt = minute\<rparr>;
       s = empty_store\<lparr>issue_claim := [((''o/r'', 7), c)]\<rparr>;
       s' = fst (ReleaseIssueClaim ''o/r'' 7 ''A'' ''stolen'' s)
   in \<forall>res. snd (AcquireIssueClaim ''o/r'' 7 ''B'' minute s') \<noteq> Inr res"
proof -
  let ?c = "\<lparr>c_WorkerID = ''A'', c_ClaimToken = ''k'', c_AcquiredAt = 0, c_ExpiresAt = minute\<rparr>"
  let ?s = "empty_store\<lparr>issue_claim := [((''o/r'', 7), ?c)]\<rparr>"
  let ?s' = "fst (ReleaseIssueClaim ''o/r'' 7 ''A'' ''stolen'' ?s)"
  have "foreign_step (''o/r'', 7) ?c ?s ?s'" by (rule fs_release) simp
  then have steps: "(foreign_step (''o/r'', 7) ?c)\<^sup>*\<^sup>* ?s ?s'" by (rule r_into_rtranclp)
  have "claim_live (''o/r'', 7) ?c ?s" "clock ?s' < c_ExpiresAt ?c"
    by (simp_all add: claim_live_def claim_demo_simps minute_def second_def ReleaseIssueClaim_def held_with_def)
  from issue_claim_mutual_exclusion [OF steps this, of "''B''" minute] show ?thesis
    by (simp add: Let_def)
qed

text \<open>C25. Across a run of acquisition attempts by others, whoever acquired the lease first stays
  its live holder and a later attempt by another worker is refused; this is the law of the
  lease interface at the dispatcher's lease of 30 minutes.\<close>

theorem second_dispatcher_refused:
  assumes "snd (try_acquire k w s)" "\<forall>(k', w') \<in> set attempts. k' \<noteq> k \<or> w' \<noteq> w" "v \<noteq> w"
  shows "\<not> snd (try_acquire k v (fold (\<lambda>(k', w') s. fst (try_acquire k' w' s)) attempts (fst (try_acquire k w s))))"
  using assms by (rule issue_lease.second_acquire_fails)

theorem second_dispatcher_refused_witness:
  "\<not> snd (try_acquire (''o/r'', 7) ''B'' (fold (\<lambda>(k', w') s. fst (try_acquire k' w' s))
       [((''o/r'', 7), ''C'')] (fst (try_acquire (''o/r'', 7) ''A'' empty_store))))"
proof (rule second_dispatcher_refused)
  show "snd (try_acquire (''o/r'', 7) ''A'' empty_store)"
    by (simp add: try_acquire_def AcquireIssueClaim_calm claim_demo_simps acquireIssueClaimOnce_def
        generateClaimToken_def)
qed simp_all

text \<open>\<^verbatim>\<open>ReleaseIssueClaim\<close> removes the claim exactly when worker and token match,
  and reports which of the two happened; a refused release changes nothing, and no release
  touches another issue's claim.\<close>

theorem ReleaseIssueClaim_by_token:
  assumes "ReleaseIssueClaim repo n w token s = (s', Inr released)"
  shows "(released \<longleftrightarrow> held_with w token (map_of (issue_claim s) (repo, n))) \<and>
     (\<not> released \<longrightarrow> s' = s) \<and>
     map_of (issue_claim s') k = (if released \<and> k = (repo, n) then None else map_of (issue_claim s) k)"
  using assms by (auto simp: ReleaseIssueClaim_def map_of_delete split: if_splits)

theorem ReleaseIssueClaim_by_token_witness:
  "\<not> held_with ''B'' ''k'' (map_of (issue_claim empty_store) (''o/r'', 7))"
  using ReleaseIssueClaim_by_token [of "''o/r''" 7 "''B''" "''k''" empty_store empty_store False]
  by (simp add: ReleaseIssueClaim_def held_with_def empty_store_def)

end
