(* ===== verification/Issue_Store.thy ===== *)
theory Issue_Store
  imports Claim_Store
begin

text \<open>
  The per-issue tables of \<^verbatim>\<open>internal/store\<close>: transition counters, cycle counters and
  caps, the issue cache with its trace ids, declared dependencies and their verdicts,
  pipeline hazards, workflow instances, and the worker registry rows. Modelled is the SQLite
  branch where a method has one branch per dialect.

  Shown here: counters count (each increment returns one more than the stored value and moves
  no other counter), first stamps are kept, the issue cache never changes a trace id and a
  pull request inherits its issue's, replacing dependencies deactivates exactly the missing
  ones, a hazard is reported as changed exactly once per change.
\<close>

section \<open>Transition counters\<close>

definition IncrementTransition :: "string \<Rightarrow> int \<Rightarrow> string \<Rightarrow> string \<Rightarrow> store \<Rightarrow> store \<times> int result" where
  "IncrementTransition repo n frm to s =
     (if faults s OpIncrementTransition then (s, Inl (DBError OpIncrementTransition))
      else (let k = ((repo, n), frm, to);
                c = (case map_of (transition_counts s) k of None \<Rightarrow> 1 | Some c \<Rightarrow> c + 1)
            in (s\<lparr>transition_counts := AList.update k c (transition_counts s)\<rparr>, Inr c)))"

record TransitionCount =
  tc_FromState :: string
  tc_ToState :: string
  tc_Count :: int

definition QueryTransitionCounts :: "string \<Rightarrow> int \<Rightarrow> store \<Rightarrow> TransitionCount list result" where
  "QueryTransitionCounts repo n s =
     (if faults s OpQueryTransitions then Inl (DBError OpQueryTransitions)
      else Inr (map (\<lambda>((_, f, t), c). \<lparr>tc_FromState = f, tc_ToState = t, tc_Count = c\<rparr>)
             (filter (\<lambda>((k, _, _), _). k = (repo, n)) (transition_counts s))))"

section \<open>Cycle state\<close>

datatype cycle_column = dev_review_cycle_count | synth_cycle_count | total_transitions

definition new_cycle_row :: "store \<Rightarrow> IssueCycleState" where
  "new_cycle_row s = \<lparr>cy_DevReviewCycleCount = 0, cy_SynthCycleCount = 0, cy_TotalTransitions = 0,
     cy_FirstDispatchAt = None, cy_CapHitAt = None, cy_SynthCapHitAt = None, cy_UpdatedAt = db_now s\<rparr>"

definition cycle_row :: "issue_key \<Rightarrow> store \<Rightarrow> IssueCycleState" where
  "cycle_row k s = (case map_of (issue_cycle_state s) k of None \<Rightarrow> new_cycle_row s | Some r \<Rightarrow> r)"

primrec cycle_get :: "cycle_column \<Rightarrow> IssueCycleState \<Rightarrow> int" where
  "cycle_get dev_review_cycle_count r = cy_DevReviewCycleCount r"
| "cycle_get synth_cycle_count r = cy_SynthCycleCount r"
| "cycle_get total_transitions r = cy_TotalTransitions r"

primrec cycle_put :: "cycle_column \<Rightarrow> int \<Rightarrow> IssueCycleState \<Rightarrow> IssueCycleState" where
  "cycle_put dev_review_cycle_count v r = r\<lparr>cy_DevReviewCycleCount := v\<rparr>"
| "cycle_put synth_cycle_count v r = r\<lparr>cy_SynthCycleCount := v\<rparr>"
| "cycle_put total_transitions v r = r\<lparr>cy_TotalTransitions := v\<rparr>"

definition incrementCycleCount :: "string \<Rightarrow> int \<Rightarrow> cycle_column \<Rightarrow> store \<Rightarrow> store \<times> int result" where
  "incrementCycleCount repo n column s =
     (if faults s OpIncrementCycle then (s, Inl (DBError OpIncrementCycle))
      else (let r = cycle_row (repo, n) s; c = cycle_get column r + 1
            in (s\<lparr>issue_cycle_state := AList.update (repo, n)
                  ((cycle_put column c r)\<lparr>cy_UpdatedAt := db_now s\<rparr>) (issue_cycle_state s)\<rparr>, Inr c)))"

definition IncrementDevReviewCycleCount :: "string \<Rightarrow> int \<Rightarrow> store \<Rightarrow> store \<times> int result" where
  "IncrementDevReviewCycleCount repo n = incrementCycleCount repo n dev_review_cycle_count"

definition IncrementSynthCycleCount :: "string \<Rightarrow> int \<Rightarrow> store \<Rightarrow> store \<times> int result" where
  "IncrementSynthCycleCount repo n = incrementCycleCount repo n synth_cycle_count"

definition IncrementTotalTransitionCount :: "string \<Rightarrow> int \<Rightarrow> store \<Rightarrow> store \<times> int result" where
  "IncrementTotalTransitionCount repo n = incrementCycleCount repo n total_transitions"

text \<open>\<^verbatim>\<open>COALESCE(old, CURRENT_TIMESTAMP)\<close>.\<close>

definition coalesce_now :: "store \<Rightarrow> time option \<Rightarrow> time option" where
  "coalesce_now s x = (case x of None \<Rightarrow> Some (db_now s) | Some t \<Rightarrow> Some t)"

definition TouchIssueFirstDispatch :: "string \<Rightarrow> int \<Rightarrow> store \<Rightarrow> store \<times> unit result" where
  "TouchIssueFirstDispatch repo n s =
     (if faults s OpTouchDispatch then (s, Inl (DBError OpTouchDispatch))
      else (let r = cycle_row (repo, n) s
            in (s\<lparr>issue_cycle_state := AList.update (repo, n)
                  (r\<lparr>cy_FirstDispatchAt := coalesce_now s (cy_FirstDispatchAt r), cy_UpdatedAt := db_now s\<rparr>)
                  (issue_cycle_state s)\<rparr>, Inr ())))"

datatype cap_column = cap_hit_at | synth_cap_hit_at

primrec stamp_cap :: "cap_column \<Rightarrow> store \<Rightarrow> IssueCycleState \<Rightarrow> IssueCycleState" where
  "stamp_cap cap_hit_at s r = r\<lparr>cy_CapHitAt := coalesce_now s (cy_CapHitAt r)\<rparr>"
| "stamp_cap synth_cap_hit_at s r = r\<lparr>cy_SynthCapHitAt := coalesce_now s (cy_SynthCapHitAt r)\<rparr>"

definition markIssueCapHit :: "string \<Rightarrow> int \<Rightarrow> cap_column \<Rightarrow> store \<Rightarrow> store \<times> unit result" where
  "markIssueCapHit repo n column s =
     (if faults s OpMarkCapHit then (s, Inl (DBError OpMarkCapHit))
      else (s\<lparr>issue_cycle_state := AList.update (repo, n)
              ((stamp_cap column s (cycle_row (repo, n) s))\<lparr>cy_UpdatedAt := db_now s\<rparr>) (issue_cycle_state s)\<rparr>, Inr ()))"

definition MarkIssueCycleCapHit :: "string \<Rightarrow> int \<Rightarrow> store \<Rightarrow> store \<times> unit result" where
  "MarkIssueCycleCapHit repo n = markIssueCapHit repo n cap_hit_at"

definition MarkIssueSynthCycleCapHit :: "string \<Rightarrow> int \<Rightarrow> store \<Rightarrow> store \<times> unit result" where
  "MarkIssueSynthCycleCapHit repo n = markIssueCapHit repo n synth_cap_hit_at"

definition QueryIssueCycleState :: "string \<Rightarrow> int \<Rightarrow> store \<Rightarrow> IssueCycleState option result" where
  "QueryIssueCycleState repo n s =
     (if faults s OpQueryCycle then Inl (DBError OpQueryCycle)
      else Inr (map_of (issue_cycle_state s) (repo, n)))"

definition ResetIssueCycleState :: "string \<Rightarrow> int \<Rightarrow> store \<Rightarrow> store \<times> unit result" where
  "ResetIssueCycleState repo n s =
     (if faults s OpResetCycle then (s, Inl (DBError OpResetCycle))
      else (s\<lparr>issue_cycle_state := AList.delete (repo, n) (issue_cycle_state s)\<rparr>, Inr ()))"

section \<open>Issue cache and root trace ids\<close>

definition getRootTraceID :: "string \<Rightarrow> int \<Rightarrow> store \<Rightarrow> string result" where
  "getRootTraceID repo n s =
     (if faults s OpRootTrace then Inl (DBError OpRootTrace)
      else Inr (case map_of (issue_cache s) (repo, n) of None \<Rightarrow> [] | Some ic \<Rightarrow> ic_RootTraceID ic))"

definition newRootTraceID :: "store \<Rightarrow> store \<times> string" where
  "newRootTraceID s =
     (case otel_trace s of
        Some t \<Rightarrow> (s, t)
      | None \<Rightarrow> (case generateClaimToken s of
                   (s', Inr t) \<Rightarrow> (s', t)
                 | (s', Inl _) \<Rightarrow> (s', ''00000000000000000000000000000001'')))"

definition GetIssueRootTraceID :: "string \<Rightarrow> int \<Rightarrow> store \<Rightarrow> string result" where
  "GetIssueRootTraceID = getRootTraceID"

definition GetPRRootTraceID :: "string \<Rightarrow> int \<Rightarrow> store \<Rightarrow> string result" where
  "GetPRRootTraceID repo pr s =
     (case getRootTraceID repo pr s of
        Inl e \<Rightarrow> Inl e
      | Inr tid \<Rightarrow>
          if tid \<noteq> [] then Inr tid
          else (case map_of (issue_cache s) (repo, pr) of
              None \<Rightarrow> Inr []
            | Some ic \<Rightarrow> if ic_ParentIssueNum ic \<le> 0 then Inr []
                         else getRootTraceID repo (ic_ParentIssueNum ic) s))"

text \<open>\<open>ic\<close> carries the labels, body, state and parent number of the caller's record.\<close>

definition UpsertIssueCache :: "string \<Rightarrow> int \<Rightarrow> IssueCache \<Rightarrow> store \<Rightarrow> store \<times> unit result" where
  "UpsertIssueCache repo n ic s =
     (let parentTID = (if ic_ParentIssueNum ic > 0
                       then (case getRootTraceID repo (ic_ParentIssueNum ic) s of Inl _ \<Rightarrow> [] | Inr t \<Rightarrow> t)
                       else []);
          (s1, traceID) = (if parentTID = [] then newRootTraceID s else (s, parentTID))
      in if faults s1 OpUpsertCache then (s1, Inl (DBError OpUpsertCache))
         else (s1\<lparr>issue_cache := AList.update (repo, n)
                 (case map_of (issue_cache s1) (repo, n) of
                    None \<Rightarrow> ic\<lparr>ic_RootTraceID := traceID, ic_UpdatedAt := db_now s1\<rparr>
                  | Some old \<Rightarrow> ic\<lparr>ic_RootTraceID := ic_RootTraceID old,
                      ic_ParentIssueNum := (if ic_ParentIssueNum ic > 0 then ic_ParentIssueNum ic
                                            else ic_ParentIssueNum old),
                      ic_UpdatedAt := db_now s1\<rparr>) (issue_cache s1)\<rparr>, Inr ()))"

text \<open>\<^verbatim>\<open>state LIKE 'pr:%'\<close>; SQLite's \<^verbatim>\<open>LIKE\<close> ignores the case of ASCII letters.\<close>

definition is_pr_state :: "string \<Rightarrow> bool" where
  "is_pr_state st \<longleftrightarrow> map lower_char (take 3 st) = ''pr:''"

definition ListCachedIssueNums :: "string \<Rightarrow> store \<Rightarrow> int list result" where
  "ListCachedIssueNums repo s =
     (if faults s OpListCaches then Inl (DBError OpListCaches)
      else Inr (map (snd \<circ> fst) (filter (\<lambda>((r, _), ic). r = repo \<and> \<not> is_pr_state (ic_State ic)) (issue_cache s))))"

definition DeleteIssueCache :: "string \<Rightarrow> int \<Rightarrow> store \<Rightarrow> store \<times> unit result" where
  "DeleteIssueCache repo n s =
     (if faults s OpDeleteCache then (s, Inl (DBError OpDeleteCache))
      else (s\<lparr>issue_cache := AList.delete (repo, n) (issue_cache s)\<rparr>, Inr ()))"

text \<open>The columns that the queries do not select are zero in the record they return.\<close>

definition scan_cache :: "IssueCache \<Rightarrow> IssueCache" where
  "scan_cache ic = ic\<lparr>ic_RootTraceID := [], ic_ParentIssueNum := 0\<rparr>"

definition QueryIssueCache :: "string \<Rightarrow> int \<Rightarrow> store \<Rightarrow> IssueCache option result" where
  "QueryIssueCache repo n s =
     (if faults s OpQueryCache then Inl (DBError OpQueryCache)
      else Inr (map_option scan_cache (map_of (issue_cache s) (repo, n))))"

definition ListIssueCaches :: "string \<Rightarrow> store \<Rightarrow> (issue_key \<times> IssueCache) list result" where
  "ListIssueCaches repo s =
     (if faults s OpListCaches then Inl (DBError OpListCaches)
      else Inr (map (\<lambda>(k, ic). (k, scan_cache ic)) (sort_key fst
             (filter (\<lambda>((r, _), ic). (repo = [] \<or> r = repo) \<and> \<not> is_pr_state (ic_State ic)) (issue_cache s)))))"

section \<open>Dependencies\<close>

definition DependencyStatusActive :: string where "DependencyStatusActive = ''active''"
definition DependencyStatusUnsupportedCrossRepo :: string where
  "DependencyStatusUnsupportedCrossRepo = ''unsupported_cross_repo''"
definition DependencyStatusInvalid :: string where "DependencyStatusInvalid = ''invalid''"
definition DependencyStatusRemoved :: string where "DependencyStatusRemoved = ''removed''"
definition DependencyVerdictReady :: string where "DependencyVerdictReady = ''ready''"
definition DependencyVerdictBlocked :: string where "DependencyVerdictBlocked = ''blocked''"
definition DependencyVerdictOverride :: string where "DependencyVerdictOverride = ''override''"
definition DependencyVerdictNeedsHuman :: string where "DependencyVerdictNeedsHuman = ''needs_human''"

lemmas dep_consts = DependencyStatusActive_def DependencyStatusUnsupportedCrossRepo_def
  DependencyStatusInvalid_def DependencyStatusRemoved_def DependencyVerdictReady_def
  DependencyVerdictBlocked_def DependencyVerdictOverride_def DependencyVerdictNeedsHuman_def

definition dep_key :: "IssueDependency \<Rightarrow> issue_key \<times> issue_key" where
  "dep_key d = ((d_Repo d, d_IssueNum d), (d_DependsOnRepo d, d_DependsOnIssueNum d))"

definition upsert_dep :: "IssueDependency \<Rightarrow> IssueDependency list \<Rightarrow> IssueDependency list" where
  "upsert_dep dep = upsert_row (\<lambda>d. dep_key d = dep_key dep)
     (\<lambda>d. d\<lparr>d_SourceHash := d_SourceHash dep, d_Status := d_Status dep\<rparr>) dep"

definition ReplaceIssueDependencies :: "string \<Rightarrow> int \<Rightarrow> IssueDependency list \<Rightarrow> store \<Rightarrow> store \<times> unit result" where
  "ReplaceIssueDependencies repo n deps s =
     (if faults s OpReplaceDeps then (s, Inl (DBError OpReplaceDeps))
      else (s\<lparr>issue_dependencies := fold upsert_dep deps
               (upd_rows (\<lambda>d. d_Repo d = repo \<and> d_IssueNum d = n \<and> d_Status d \<noteq> DependencyStatusRemoved)
                  (\<lambda>d. d\<lparr>d_Status := DependencyStatusRemoved\<rparr>) (issue_dependencies s))\<rparr>, Inr ()))"

definition ListIssueDependencies :: "string \<Rightarrow> int \<Rightarrow> store \<Rightarrow> IssueDependency list result" where
  "ListIssueDependencies repo n s =
     (if faults s OpListDeps then Inl (DBError OpListDeps)
      else Inr (sort_key (\<lambda>d. (d_DependsOnRepo d, d_DependsOnIssueNum d))
             (filter (\<lambda>d. d_Repo d = repo \<and> d_IssueNum d = n) (issue_dependencies s))))"

definition UpsertIssueDependencyState :: "string \<Rightarrow> int \<Rightarrow> IssueDependencyState \<Rightarrow> store \<Rightarrow> store \<times> unit result" where
  "UpsertIssueDependencyState repo n st s =
     (if faults s OpUpsertDepState then (s, Inl (DBError OpUpsertDepState))
      else (let st1 = st\<lparr>ds_LastEvaluatedAt := db_now s\<rparr>
            in (s\<lparr>issue_dependency_state := AList.update (repo, n)
                  (case map_of (issue_dependency_state s) (repo, n) of
                     None \<Rightarrow> st1
                   | Some old \<Rightarrow> st1\<lparr>ds_LastReactionBlocked := ds_LastReactionBlocked old\<rparr>)
                  (issue_dependency_state s)\<rparr>, Inr ())))"

definition MarkDependencyReactionApplied :: "string \<Rightarrow> int \<Rightarrow> bool \<Rightarrow> store \<Rightarrow> store \<times> unit result" where
  "MarkDependencyReactionApplied repo n blocked s =
     (if faults s OpMarkReaction then (s, Inl (DBError OpMarkReaction))
      else (s\<lparr>issue_dependency_state := map (\<lambda>(k, st).
               (k, if k = (repo, n) then st\<lparr>ds_LastReactionBlocked := blocked\<rparr> else st))
               (issue_dependency_state s)\<rparr>, Inr ()))"

definition QueryIssueDependencyState :: "string \<Rightarrow> int \<Rightarrow> store \<Rightarrow> IssueDependencyState option result" where
  "QueryIssueDependencyState repo n s =
     (if faults s OpQueryDepState then Inl (DBError OpQueryDepState)
      else Inr (map_of (issue_dependency_state s) (repo, n)))"

definition DeleteIssueDependencyState :: "string \<Rightarrow> int \<Rightarrow> store \<Rightarrow> store \<times> bool result" where
  "DeleteIssueDependencyState repo n s =
     (if faults s OpDeleteDepState then (s, Inl (DBError OpDeleteDepState))
      else (s\<lparr>issue_dependency_state := AList.delete (repo, n) (issue_dependency_state s)\<rparr>,
            Inr (map_of (issue_dependency_state s) (repo, n) \<noteq> None)))"

text \<open>\<^verbatim>\<open>dependency.IsBlocked\<close>, the dispatch gate: blocked, the observed verdict, and the
  error.\<close>

definition IsBlocked :: "string \<Rightarrow> int \<Rightarrow> store \<Rightarrow> bool \<times> string \<times> store_error option" where
  "IsBlocked repo n s =
     (case QueryIssueDependencyState repo n s of
        Inl e \<Rightarrow> (False, [], Some e)
      | Inr None \<Rightarrow> (False, [], None)
      | Inr (Some st) \<Rightarrow>
          (ds_Verdict st = DependencyVerdictBlocked \<or> ds_Verdict st = DependencyVerdictNeedsHuman,
           ds_Verdict st, None))"

section \<open>Pipeline hazards\<close>

definition HazardKindNoWorkflowMatch :: string where "HazardKindNoWorkflowMatch = ''no-workflow-match''"
definition HazardKindAwaitingStatusLabel :: string where "HazardKindAwaitingStatusLabel = ''awaiting-status-label''"
definition HazardKindMalformedDependencyRef :: string where
  "HazardKindMalformedDependencyRef = ''malformed-dependency-ref''"

definition QueryIssuePipelineHazard :: "string \<Rightarrow> int \<Rightarrow> store \<Rightarrow> PipelineHazard option result" where
  "QueryIssuePipelineHazard repo n s =
     (if faults s OpQueryHazard then Inl (DBError OpQueryHazard)
      else Inr (map_of (issue_pipeline_hazards s) (repo, n)))"

definition UpsertIssuePipelineHazard :: "string \<Rightarrow> int \<Rightarrow> string \<Rightarrow> string \<Rightarrow> store \<Rightarrow> store \<times> bool result" where
  "UpsertIssuePipelineHazard repo n kind fp s =
     (case QueryIssuePipelineHazard repo n s of
        Inl e \<Rightarrow> (s, Inl e)
      | Inr prev \<Rightarrow>
          if faults s OpUpsertHazard then (s, Inl (DBError OpUpsertHazard))
          else (let fresh = \<lparr>h_Kind = kind, h_Fingerprint = fp, h_DetectedAt = sql_time (clock s)\<rparr>
                in (s\<lparr>issue_pipeline_hazards := AList.update (repo, n)
                      (case map_of (issue_pipeline_hazards s) (repo, n) of
                         None \<Rightarrow> fresh
                       | Some h \<Rightarrow> if h_Kind h = kind \<and> h_Fingerprint h = fp
                                   then fresh\<lparr>h_DetectedAt := h_DetectedAt h\<rparr> else fresh)
                      (issue_pipeline_hazards s)\<rparr>,
                    Inr (case prev of None \<Rightarrow> True
                         | Some h \<Rightarrow> h_Kind h \<noteq> kind \<or> h_Fingerprint h \<noteq> fp))))"

definition ListIssuePipelineHazards :: "string \<Rightarrow> store \<Rightarrow> (issue_key \<times> PipelineHazard) list result" where
  "ListIssuePipelineHazards repo s =
     (if faults s OpListHazards then Inl (DBError OpListHazards)
      else Inr (sort_key fst (filter (\<lambda>((r, _), _). repo = [] \<or> r = repo) (issue_pipeline_hazards s))))"

definition ClearIssuePipelineHazard :: "string \<Rightarrow> int \<Rightarrow> store \<Rightarrow> store \<times> unit result" where
  "ClearIssuePipelineHazard repo n s =
     (if faults s OpClearHazard then (s, Inl (DBError OpClearHazard))
      else (s\<lparr>issue_pipeline_hazards := AList.delete (repo, n) (issue_pipeline_hazards s)\<rparr>, Inr ()))"

section \<open>Workers\<close>

definition InsertWorker :: "WorkerRecord \<Rightarrow> store \<Rightarrow> store \<times> unit result" where
  "InsertWorker w s =
     (let w1 = (case w_ReposJSON w of
                  JBad t \<Rightarrow> if trim_space t = [] then w\<lparr>w_ReposJSON := JText []\<rparr> else w
                | JText _ \<Rightarrow> w)
      in if faults s OpInsertWorker then (s, Inl (DBError OpInsertWorker))
         else (s\<lparr>workers := AList.update (w_ID w)
                 (w1\<lparr>w_LastHeartbeat := db_now s,
                     w_RegisteredAt := (case map_of (workers s) (w_ID w) of
                        None \<Rightarrow> db_now s | Some old \<Rightarrow> w_RegisteredAt old)\<rparr>) (workers s)\<rparr>, Inr ()))"

definition jsonArrayContains :: "labels_text \<Rightarrow> string \<Rightarrow> bool" where
  "jsonArrayContains raw want =
     (if trim_space want = [] then False
      else case raw of JBad _ \<Rightarrow> False | JText vs \<Rightarrow> want \<in> set vs)"

definition QueryWorkers :: "string \<Rightarrow> store \<Rightarrow> WorkerRecord list result" where
  "QueryWorkers repo s =
     (if faults s OpQueryWorkers then Inl (DBError OpQueryWorkers)
      else Inr (filter (\<lambda>w. \<not> (repo \<noteq> [] \<and> w_Repo w \<noteq> repo \<and> \<not> jsonArrayContains (w_ReposJSON w) repo))
             (map snd (sort_key fst (workers s)))))"

definition GetWorker :: "string \<Rightarrow> store \<Rightarrow> WorkerRecord option result" where
  "GetWorker i s =
     (if faults s OpQueryWorkers then Inl (DBError OpQueryWorkers) else Inr (map_of (workers s) i))"

definition UpdateWorkerHeartbeat :: "string \<Rightarrow> store \<Rightarrow> store \<times> unit result" where
  "UpdateWorkerHeartbeat i s =
     (if faults s OpWorkerHeartbeat then (s, Inl (DBError OpWorkerHeartbeat))
      else case map_of (workers s) i of
        None \<Rightarrow> (s, Inl ErrWorkerNotFound)
      | Some w \<Rightarrow> (s\<lparr>workers := AList.update i (w\<lparr>w_LastHeartbeat := db_now s\<rparr>) (workers s)\<rparr>, Inr ()))"

definition UpdateWorkerStatus :: "string \<Rightarrow> string \<Rightarrow> store \<Rightarrow> store \<times> unit result" where
  "UpdateWorkerStatus i status s =
     (if faults s OpWorkerStatus then (s, Inl (DBError OpWorkerStatus))
      else case map_of (workers s) i of
        None \<Rightarrow> (s, Inl ErrWorkerNotFound)
      | Some w \<Rightarrow> (s\<lparr>workers := AList.update i (w\<lparr>w_Status := status\<rparr>) (workers s)\<rparr>, Inr ()))"

definition DeleteWorker :: "string \<Rightarrow> store \<Rightarrow> store \<times> bool result" where
  "DeleteWorker i s =
     (if faults s OpDeleteWorker then (s, Inl (DBError OpDeleteWorker))
      else (s\<lparr>workers := AList.delete i (workers s)\<rparr>, Inr (map_of (workers s) i \<noteq> None)))"

definition WorkerHasRunningTask :: "string \<Rightarrow> store \<Rightarrow> bool result" where
  "WorkerHasRunningTask i s =
     (if faults s OpWorkerRunning then Inl (DBError OpWorkerRunning)
      else Inr (count_rows (\<lambda>r. t_WorkerID r = Some i \<and> t_Status r = TaskStatusRunning) (task_queue s) > 0))"

fun markOffline :: "string list \<Rightarrow> store \<Rightarrow> store \<times> unit result" where
  "markOffline [] s = (s, Inr ())"
| "markOffline (i # is) s =
     (case UpdateWorkerStatus i ''offline'' s of
        (s', Inl e) \<Rightarrow> (s', Inl e)
      | (s', Inr _) \<Rightarrow> markOffline is s')"

definition MarkStaleWorkersOffline :: "duration \<Rightarrow> store \<Rightarrow> store \<times> unit result" where
  "MarkStaleWorkersOffline threshold s =
     (if faults s OpQueryWorkers then (s, Inl (DBError OpQueryWorkers))
      else markOffline (map fst (filter (\<lambda>(_, w). w_Status w = ''online'' \<and>
               w_LastHeartbeat w < db_now s - whole_seconds threshold * second) (workers s))) s)"

section \<open>Frames\<close>

lemma cycle_put_get: "cycle_get c (cycle_put d v r) = (if c = d then v else cycle_get c r)"
  by (cases c; cases d) simp_all

lemma incrementCycleCount_spec:
  assumes "incrementCycleCount repo n col s = (s', Inr c)"
  shows "c = cycle_get col (cycle_row (repo, n) s) + 1"
    and "map_of (issue_cycle_state s') k =
      (if k = (repo, n) then Some ((cycle_put col c (cycle_row (repo, n) s))\<lparr>cy_UpdatedAt := db_now s\<rparr>)
       else map_of (issue_cycle_state s) k)"
    and "s' = s\<lparr>issue_cycle_state := issue_cycle_state s'\<rparr>"
  using assms by (auto simp: incrementCycleCount_def Let_def split: if_splits)

lemma cycle_get_updated [simp]: "cycle_get c (r\<lparr>cy_UpdatedAt := t\<rparr>) = cycle_get c r"
  by (cases c) simp_all

section \<open>Dependencies\<close>

definition dep_keys_distinct :: "store \<Rightarrow> bool" where
  "dep_keys_distinct s \<longleftrightarrow> distinct (map dep_key (issue_dependencies s))"

lemma dep_key_status [simp]: "dep_key (d\<lparr>d_Status := x\<rparr>) = dep_key d"
  "dep_key (d\<lparr>d_SourceHash := h\<rparr>) = dep_key d"
  by (simp_all add: dep_key_def)

lemma dep_eqI:
  "dep_key d = dep_key e \<Longrightarrow> d_SourceHash d = d_SourceHash e \<Longrightarrow> d_Status d = d_Status e \<Longrightarrow> d = (e :: IssueDependency)"
  by (simp add: dep_key_def)

lemma set_upsert_dep:
  "set (upsert_dep dep rows) = insert dep {d \<in> set rows. dep_key d \<noteq> dep_key dep}"
proof (cases "\<exists>d \<in> set rows. dep_key d = dep_key dep")
  case True
  then have "count_rows (\<lambda>d. dep_key d = dep_key dep) rows \<noteq> 0" by (auto simp: count_rows_0)
  moreover have "dep_key d = dep_key dep \<Longrightarrow> d\<lparr>d_SourceHash := d_SourceHash dep, d_Status := d_Status dep\<rparr> = dep" for d
    by (rule dep_eqI) simp_all
  ultimately show ?thesis using True by (auto simp: upsert_dep_def upsert_row_def upd_rows_def)
next
  case False
  then have "count_rows (\<lambda>d. dep_key d = dep_key dep) rows = 0" by (auto simp: count_rows_0)
  with False show ?thesis by (auto simp: upsert_dep_def upsert_row_def)
qed

lemma set_fold_upsert_dep:
  assumes "distinct (map dep_key deps)"
  shows "set (fold upsert_dep deps rows) = set deps \<union> {d \<in> set rows. dep_key d \<notin> dep_key ` set deps}"
  using assms by (induction deps arbitrary: rows) (auto simp: set_upsert_dep)

section \<open>Properties\<close>

text \<open>The cycle counters count: a successful increment of the review, synthesis or
  transition counter of an issue returns and stores one more than before, leaves the other
  two counters and both cap stamps of the issue alone, and changes nothing of any other issue
  or table.\<close>

theorem incrementCycleCount_counts:
  assumes "incrementCycleCount repo n col s = (s', Inr c)"
  shows "c = cycle_get col (cycle_row (repo, n) s) + 1 \<and>
    cycle_get col (cycle_row (repo, n) s') = c \<and>
    (\<forall>other. other \<noteq> col \<longrightarrow> cycle_get other (cycle_row (repo, n) s') = cycle_get other (cycle_row (repo, n) s)) \<and>
    cy_CapHitAt (cycle_row (repo, n) s') = cy_CapHitAt (cycle_row (repo, n) s) \<and>
    cy_SynthCapHitAt (cycle_row (repo, n) s') = cy_SynthCapHitAt (cycle_row (repo, n) s) \<and>
    (\<forall>k. k \<noteq> (repo, n) \<longrightarrow> map_of (issue_cycle_state s') k = map_of (issue_cycle_state s) k) \<and>
    s'\<lparr>issue_cycle_state := issue_cycle_state s\<rparr> = s"
proof -
  note I = incrementCycleCount_spec [OF assms]
  have row: "cycle_row (repo, n) s' = (cycle_put col c (cycle_row (repo, n) s))\<lparr>cy_UpdatedAt := db_now s\<rparr>"
    using I(2) [of "(repo, n)"] by (simp add: cycle_row_def)
  have caps: "cy_CapHitAt (cycle_put col v r) = cy_CapHitAt r" "cy_SynthCapHitAt (cycle_put col v r) = cy_SynthCapHitAt r"
    for v r by (cases col; simp)+
  have "s'\<lparr>issue_cycle_state := issue_cycle_state s\<rparr> = s" by (subst I(3)) simp
  with I(1,2) show ?thesis by (simp add: row caps cycle_put_get)
qed

theorem incrementCycleCount_counts_witness:
  "cycle_get total_transitions (cycle_row (''o/r'', 7) (fst (incrementCycleCount ''o/r'' 7 total_transitions empty_store))) = 1"
  using incrementCycleCount_counts [of "''o/r''" 7 total_transitions empty_store
      "fst (incrementCycleCount ''o/r'' 7 total_transitions empty_store)" 1]
  by (simp add: incrementCycleCount_def Let_def cycle_row_def new_cycle_row_def empty_store_def)

text \<open>The issue cache never changes the root trace id of a row it already has; a first
  insert with a parent whose trace id is known inherits exactly that id, so an issue and its
  pull requests share one trace.\<close>

theorem UpsertIssueCache_trace:
  assumes "UpsertIssueCache repo n ic s = (s', Inr ())"
  shows "(\<forall>k old. map_of (issue_cache s) k = Some old \<longrightarrow>
            (\<exists>r. map_of (issue_cache s') k = Some r \<and> ic_RootTraceID r = ic_RootTraceID old)) \<and>
    (map_of (issue_cache s) (repo, n) = None \<longrightarrow> 0 < ic_ParentIssueNum ic \<longrightarrow>
       getRootTraceID repo (ic_ParentIssueNum ic) s = Inr tid \<longrightarrow> tid \<noteq> [] \<longrightarrow>
       getRootTraceID repo n s' = Inr tid)"
proof -
  obtain s1 t where tr: "newRootTraceID s = (s1, t)" by force
  have frame: "issue_cache s1 = issue_cache s" "faults s1 = faults s"
    using tr by (auto simp: newRootTraceID_def generateClaimToken_def split: option.splits if_splits)
  show ?thesis
    using assms tr frame
    by (auto simp: UpsertIssueCache_def Let_def getRootTraceID_def split: if_splits option.splits)
qed

definition parent_cache :: IssueCache where
  "parent_cache = \<lparr>ic_Labels = JText [], ic_Body = [], ic_State = ''open'', ic_RootTraceID = ''abc'',
     ic_ParentIssueNum = 0, ic_UpdatedAt = 0\<rparr>"

theorem UpsertIssueCache_trace_witness:
  "getRootTraceID ''o/r'' 8 (fst (UpsertIssueCache ''o/r'' 8 (parent_cache\<lparr>ic_ParentIssueNum := 7\<rparr>)
     (empty_store\<lparr>issue_cache := [((''o/r'', 7), parent_cache)]\<rparr>))) = Inr ''abc''"
  using UpsertIssueCache_trace [of "''o/r''" 8 "parent_cache\<lparr>ic_ParentIssueNum := 7\<rparr>"
      "empty_store\<lparr>issue_cache := [((''o/r'', 7), parent_cache)]\<rparr>"
      "fst (UpsertIssueCache ''o/r'' 8 (parent_cache\<lparr>ic_ParentIssueNum := 7\<rparr>)
        (empty_store\<lparr>issue_cache := [((''o/r'', 7), parent_cache)]\<rparr>))" "''abc''"]
  by (simp add: UpsertIssueCache_def Let_def getRootTraceID_def empty_store_def parent_cache_def)

text \<open>Replacing the declared dependencies of an issue leaves exactly the given
  dependencies unremoved, with their given hash and status, keeps the dropped ones as removed,
  and does not touch the rows of any other issue.\<close>

theorem ReplaceIssueDependencies_exact:
  assumes "ReplaceIssueDependencies repo n deps s = (s', Inr ())"
    and "distinct (map dep_key deps)"
    and "\<forall>d \<in> set deps. d_Repo d = repo \<and> d_IssueNum d = n \<and> d_Status d \<noteq> DependencyStatusRemoved"
  shows "{d \<in> set (issue_dependencies s'). d_Repo d = repo \<and> d_IssueNum d = n \<and> d_Status d \<noteq> DependencyStatusRemoved} = set deps \<and>
    {d \<in> set (issue_dependencies s'). (d_Repo d, d_IssueNum d) \<noteq> (repo, n)} =
      {d \<in> set (issue_dependencies s). (d_Repo d, d_IssueNum d) \<noteq> (repo, n)} \<and>
    dep_key ` set (issue_dependencies s) \<subseteq> dep_key ` set (issue_dependencies s')"
proof -
  define old where "old = upd_rows (\<lambda>d. d_Repo d = repo \<and> d_IssueNum d = n \<and> d_Status d \<noteq> DependencyStatusRemoved)
     (\<lambda>d. d\<lparr>d_Status := DependencyStatusRemoved\<rparr>) (issue_dependencies s)"
  have "issue_dependencies s' = fold upsert_dep deps old"
    using assms(1) unfolding ReplaceIssueDependencies_def old_def [symmetric] by (auto split: if_splits)
  then have s': "set (issue_dependencies s') = set deps \<union> {d \<in> set old. dep_key d \<notin> dep_key ` set deps}"
    using set_fold_upsert_dep [OF assms(2)] by simp
  have keys: "dep_key ` set old = dep_key ` set (issue_dependencies s)"
    unfolding set_map [symmetric] old_def by (simp add: map_upd_rows)
  have old_cases: "d_Repo d = repo \<and> d_IssueNum d = n \<and> d_Status d = DependencyStatusRemoved \<or>
      d \<in> set (issue_dependencies s) \<and> \<not> (d_Repo d = repo \<and> d_IssueNum d = n \<and> d_Status d \<noteq> DependencyStatusRemoved)"
    if d: "d \<in> set old" for d
  proof -
    obtain q where "q \<in> set (issue_dependencies s)"
      "d = (if d_Repo q = repo \<and> d_IssueNum q = n \<and> d_Status q \<noteq> DependencyStatusRemoved
            then q\<lparr>d_Status := DependencyStatusRemoved\<rparr> else q)"
      using d unfolding old_def set_upd_rows by blast
    then show ?thesis by (cases "d_Repo q = repo \<and> d_IssueNum q = n \<and> d_Status q \<noteq> DependencyStatusRemoved") simp_all
  qed
  have removed: "d_Status d = DependencyStatusRemoved" if "d \<in> set old" "d_Repo d = repo" "d_IssueNum d = n" for d
    using old_cases [OF that(1)] that by blast
  have others: "d \<in> set old \<longleftrightarrow> d \<in> set (issue_dependencies s)" if "(d_Repo d, d_IssueNum d) \<noteq> (repo, n)" for d
    using old_cases [of d] that unfolding old_def set_upd_rows by (metis (no_types, lifting))
  have notdep: "dep_key d \<notin> dep_key ` set deps" if "(d_Repo d, d_IssueNum d) \<noteq> (repo, n)" for d
    using that assms(3) by (auto simp: dep_key_def)
  show ?thesis
  proof (intro conjI)
    show "{d \<in> set (issue_dependencies s'). d_Repo d = repo \<and> d_IssueNum d = n \<and> d_Status d \<noteq> DependencyStatusRemoved} = set deps"
      using assms(3) removed by (auto simp: s')
    show "{d \<in> set (issue_dependencies s'). (d_Repo d, d_IssueNum d) \<noteq> (repo, n)} =
      {d \<in> set (issue_dependencies s). (d_Repo d, d_IssueNum d) \<noteq> (repo, n)}"
      using assms(3) others notdep by (auto simp: s')
    show "dep_key ` set (issue_dependencies s) \<subseteq> dep_key ` set (issue_dependencies s')"
      unfolding keys [symmetric] s' by blast
  qed
qed

definition demo_dep :: "int \<Rightarrow> IssueDependency" where
  "demo_dep k = \<lparr>d_Repo = ''o/r'', d_IssueNum = 7, d_DependsOnRepo = ''o/r'', d_DependsOnIssueNum = k,
     d_SourceHash = ''h'', d_Status = DependencyStatusActive\<rparr>"

theorem ReplaceIssueDependencies_exact_witness:
  "{d \<in> set (issue_dependencies (fst (ReplaceIssueDependencies ''o/r'' 7 [demo_dep 2]
       (empty_store\<lparr>issue_dependencies := [demo_dep 1]\<rparr>)))).
     d_Repo d = ''o/r'' \<and> d_IssueNum d = 7 \<and> d_Status d \<noteq> DependencyStatusRemoved} = set [demo_dep 2]"
  using ReplaceIssueDependencies_exact [of "''o/r''" 7 "[demo_dep 2]" "empty_store\<lparr>issue_dependencies := [demo_dep 1]\<rparr>"
      "fst (ReplaceIssueDependencies ''o/r'' 7 [demo_dep 2] (empty_store\<lparr>issue_dependencies := [demo_dep 1]\<rparr>))"]
  by (simp add: ReplaceIssueDependencies_def empty_store_def demo_dep_def dep_consts)

end
