(* ===== verification/Workflow.thy ===== *)
theory Workflow
  imports Issue_Store
begin

text \<open>
  Workflow instances: the store methods of \<^verbatim>\<open>internal/store/queries.go\<close> and the
  manager of \<^verbatim>\<open>internal/workflow\<close> on top of them. The database enforces foreign keys,
  so a transition for an instance that does not exist is refused by its insert.

  Shown here: whatever sequence of creations and advances ran, every instance is in the state
  that its last recorded transition entered, each issue has at most one instance per workflow,
  and advancing records exactly one transition.
\<close>

section \<open>Store methods\<close>

definition CreateWorkflowInstanceIfMissing ::
  "string \<Rightarrow> string \<Rightarrow> string \<Rightarrow> int \<Rightarrow> string \<Rightarrow> store \<Rightarrow> store \<times> unit result" where
  "CreateWorkflowInstanceIfMissing i workflow repo n state s =
     (if faults s OpCreateInstance then (s, Inl (DBError OpCreateInstance))
      else if \<exists>r \<in> set (workflow_instances s). wi_Repo r = repo \<and> wi_IssueNum r = n \<and> wi_WorkflowName r = workflow
      then (s, Inr ())
      else if \<exists>r \<in> set (workflow_instances s). wi_ID r = i then (s, Inl UniqueViolation)
      else (s\<lparr>workflow_instances := workflow_instances s @
              [\<lparr>wi_ID = i, wi_WorkflowName = workflow, wi_Repo = repo, wi_IssueNum = n,
                wi_CurrentState = state, wi_CreatedAt = db_now s, wi_UpdatedAt = db_now s\<rparr>]\<rparr>, Inr ()))"

definition AdvanceWorkflowInstance ::
  "string \<Rightarrow> string \<Rightarrow> string \<Rightarrow> string \<Rightarrow> time \<Rightarrow> store \<Rightarrow> store \<times> unit result" where
  "AdvanceWorkflowInstance i frm to agent at s =
     (let ts = sql_time at; P = (\<lambda>r. wi_ID r = i)
      in if faults s OpAdvanceInstance then (s, Inl (DBError OpAdvanceInstance))
         else if count_rows P (workflow_instances s) = 0 then (s, Inl ForeignKeyViolation)
         else (let s1 = s\<lparr>workflow_transitions := workflow_transitions s @
                 [\<lparr>wt_InstanceID = i, wt_FromState = frm, wt_ToState = to, wt_TriggerAgent = agent, wt_CreatedAt = ts\<rparr>]\<rparr>
               in if count_rows P (workflow_instances s1) = 0 then (s, Inl ErrWorkflowInstanceNotFound)
                  else (s1\<lparr>workflow_instances := upd_rows P
                          (\<lambda>r. r\<lparr>wi_CurrentState := to, wi_UpdatedAt := ts\<rparr>) (workflow_instances s1)\<rparr>, Inr ())))"

definition QueryWorkflowInstancesByRepoIssue :: "string \<Rightarrow> int \<Rightarrow> store \<Rightarrow> WorkflowInstanceRow list result" where
  "QueryWorkflowInstancesByRepoIssue repo n s =
     (if faults s OpQueryInstances then Inl (DBError OpQueryInstances)
      else Inr (sort_key (\<lambda>r. (wi_CreatedAt r, wi_ID r))
             (filter (\<lambda>r. wi_Repo r = repo \<and> wi_IssueNum r = n) (workflow_instances s))))"

definition GetWorkflowInstanceByID :: "string \<Rightarrow> store \<Rightarrow> WorkflowInstanceRow result" where
  "GetWorkflowInstanceByID i s =
     (if faults s OpQueryInstances then Inl (DBError OpQueryInstances)
      else case find (\<lambda>r. wi_ID r = i) (workflow_instances s) of
        None \<Rightarrow> Inl ErrWorkflowInstanceNotFound | Some r \<Rightarrow> Inr r)"

text \<open>\<^verbatim>\<open>ORDER BY created_at ASC, id ASC\<close>: the rows are in id order and the sort is
  stable.\<close>

definition QueryWorkflowTransitions :: "string \<Rightarrow> store \<Rightarrow> WorkflowTransitionRow list result" where
  "QueryWorkflowTransitions i s =
     (if faults s OpQueryInstances then Inl (DBError OpQueryInstances)
      else Inr (sort_key wt_CreatedAt (filter (\<lambda>t. wt_InstanceID t = i) (workflow_transitions s))))"

section \<open>The manager\<close>

record StateTransition =
  st_From :: string
  st_To :: string
  st_Timestamp :: time
  st_TriggerAgent :: string

record WorkflowInstance =
  in_ID :: string
  in_WorkflowName :: string
  in_Repo :: string
  in_IssueNum :: int
  in_CurrentState :: string
  in_History :: "StateTransition list"
  in_CreatedAt :: time
  in_UpdatedAt :: time

definition makeInstanceID :: "string \<Rightarrow> int \<Rightarrow> string \<Rightarrow> string" where
  "makeInstanceID repo n workflow = repo @ ''#'' @ itoa n @ ''#'' @ workflow"

definition CreateIfMissing :: "string \<Rightarrow> int \<Rightarrow> string \<Rightarrow> string \<Rightarrow> store \<Rightarrow> store \<times> unit result" where
  "CreateIfMissing repo n workflow state =
     CreateWorkflowInstanceIfMissing (makeInstanceID repo n workflow) workflow repo n state"

definition Advance :: "string \<Rightarrow> int \<Rightarrow> string \<Rightarrow> string \<Rightarrow> string \<Rightarrow> string \<Rightarrow> store \<Rightarrow> store \<times> unit result" where
  "Advance repo n workflow frm to agent s =
     AdvanceWorkflowInstance (makeInstanceID repo n workflow) frm to agent (clock s) s"

definition instanceFromRow :: "WorkflowInstanceRow \<Rightarrow> WorkflowInstance" where
  "instanceFromRow r = \<lparr>in_ID = wi_ID r, in_WorkflowName = wi_WorkflowName r, in_Repo = wi_Repo r,
     in_IssueNum = wi_IssueNum r, in_CurrentState = wi_CurrentState r, in_History = [],
     in_CreatedAt = wi_CreatedAt r, in_UpdatedAt = wi_UpdatedAt r\<rparr>"

definition loadHistory :: "string \<Rightarrow> store \<Rightarrow> StateTransition list result" where
  "loadHistory i s =
     (case QueryWorkflowTransitions i s of
        Inl e \<Rightarrow> Inl e
      | Inr rows \<Rightarrow> Inr (map (\<lambda>r. \<lparr>st_From = wt_FromState r, st_To = wt_ToState r,
             st_Timestamp = wt_CreatedAt r, st_TriggerAgent = wt_TriggerAgent r\<rparr>) rows))"

fun loadInstances :: "WorkflowInstanceRow list \<Rightarrow> store \<Rightarrow> WorkflowInstance list result" where
  "loadInstances [] s = Inr []"
| "loadInstances (r # rs) s =
     (case loadHistory (wi_ID r) s of
        Inl e \<Rightarrow> Inl e
      | Inr h \<Rightarrow> (case loadInstances rs s of
            Inl e \<Rightarrow> Inl e
          | Inr is \<Rightarrow> Inr ((instanceFromRow r)\<lparr>in_History := h\<rparr> # is)))"

definition QueryByRepoIssue :: "string \<Rightarrow> int \<Rightarrow> store \<Rightarrow> WorkflowInstance list result" where
  "QueryByRepoIssue repo n s =
     (case QueryWorkflowInstancesByRepoIssue repo n s of Inl e \<Rightarrow> Inl e | Inr rows \<Rightarrow> loadInstances rows s)"

definition GetByID :: "string \<Rightarrow> store \<Rightarrow> WorkflowInstance result" where
  "GetByID i s =
     (case GetWorkflowInstanceByID i s of
        Inl e \<Rightarrow> Inl e
      | Inr r \<Rightarrow> (case loadHistory (wi_ID r) s of
            Inl e \<Rightarrow> Inl e | Inr h \<Rightarrow> Inr ((instanceFromRow r)\<lparr>in_History := h\<rparr>)))"

section \<open>The invariant\<close>

definition last_target :: "string \<Rightarrow> WorkflowTransitionRow list \<Rightarrow> string option" where
  "last_target i ts = (case rev (filter (\<lambda>t. wt_InstanceID t = i) ts) of [] \<Rightarrow> None | t # _ \<Rightarrow> Some (wt_ToState t))"

definition wi_key :: "WorkflowInstanceRow \<Rightarrow> string \<times> int \<times> string" where
  "wi_key r = (wi_Repo r, wi_IssueNum r, wi_WorkflowName r)"

definition workflow_inv :: "store \<Rightarrow> bool" where
  "workflow_inv s \<longleftrightarrow>
     distinct (map wi_ID (workflow_instances s)) \<and> distinct (map wi_key (workflow_instances s)) \<and>
     wt_InstanceID ` set (workflow_transitions s) \<subseteq> wi_ID ` set (workflow_instances s) \<and>
     (\<forall>r \<in> set (workflow_instances s). \<forall>st. last_target (wi_ID r) (workflow_transitions s) = Some st \<longrightarrow> wi_CurrentState r = st)"

lemma last_target_append:
  "last_target i (ts @ [t]) = (if wt_InstanceID t = i then Some (wt_ToState t) else last_target i ts)"
  by (simp add: last_target_def)

lemma last_target_None: "i \<notin> wt_InstanceID ` set ts \<Longrightarrow> last_target i ts = None"
proof -
  assume "i \<notin> wt_InstanceID ` set ts"
  then have "filter (\<lambda>t. wt_InstanceID t = i) ts = []" by (auto simp: filter_empty_conv)
  then show ?thesis by (simp add: last_target_def)
qed

lemma CreateIfMissing_inv:
  assumes "workflow_inv s"
  shows "workflow_inv (fst (CreateIfMissing repo n w st s))"
proof -
  have "last_target i (workflow_transitions s) = None" if "\<forall>r \<in> set (workflow_instances s). wi_ID r \<noteq> i" for i
    using that assms by (intro last_target_None) (fastforce simp: workflow_inv_def)
  then show ?thesis
    using assms
    by (auto simp: CreateIfMissing_def CreateWorkflowInstanceIfMissing_def workflow_inv_def wi_key_def)
qed

lemma Advance_inv:
  assumes "workflow_inv s"
  shows "workflow_inv (fst (Advance repo n w frm to ag s))"
proof (cases "fst (Advance repo n w frm to ag s) = s")
  case False
  let ?i = "makeInstanceID repo n w"
  let ?f = "\<lambda>r. r\<lparr>wi_CurrentState := to, wi_UpdatedAt := sql_time (clock s)\<rparr>"
  have s': "fst (Advance repo n w frm to ag s) = s\<lparr>workflow_transitions := workflow_transitions s @
       [\<lparr>wt_InstanceID = ?i, wt_FromState = frm, wt_ToState = to, wt_TriggerAgent = ag, wt_CreatedAt = sql_time (clock s)\<rparr>],
       workflow_instances := upd_rows (\<lambda>r. wi_ID r = ?i) ?f (workflow_instances s)\<rparr>"
    and hit: "count_rows (\<lambda>r. wi_ID r = ?i) (workflow_instances s) \<noteq> 0"
    using False by (auto simp: Advance_def AdvanceWorkflowInstance_def Let_def split: if_splits)
  have "map wi_ID (upd_rows (\<lambda>r. wi_ID r = ?i) ?f (workflow_instances s)) = map wi_ID (workflow_instances s)"
    "map wi_key (upd_rows (\<lambda>r. wi_ID r = ?i) ?f (workflow_instances s)) = map wi_key (workflow_instances s)"
    by (simp_all add: map_upd_rows wi_key_def)
  moreover have "wi_ID ` set (upd_rows (\<lambda>r. wi_ID r = ?i) ?f (workflow_instances s)) = wi_ID ` set (workflow_instances s)"
    using calculation(1) by (metis list.set_map)
  moreover have "?i \<in> wi_ID ` set (workflow_instances s)" using hit by (auto simp: count_rows_0 image_iff intro: sym)
  moreover have "last_target (wi_ID r) (workflow_transitions s @ [t]) = Some st \<longrightarrow> wi_CurrentState r = st"
    if r: "r \<in> set (upd_rows (\<lambda>r. wi_ID r = ?i) ?f (workflow_instances s))"
    and t: "t = \<lparr>wt_InstanceID = ?i, wt_FromState = frm, wt_ToState = to, wt_TriggerAgent = ag, wt_CreatedAt = sql_time (clock s)\<rparr>"
    for r t st
  proof -
    obtain q where q: "q \<in> set (workflow_instances s)" "r = (if wi_ID q = ?i then ?f q else q)"
      using r by (auto simp: set_upd_rows)
    show ?thesis
    proof (cases "wi_ID q = ?i")
      case True
      with q t show ?thesis by (simp add: last_target_append)
    next
      case False
      then have "wi_ID r = wi_ID q" "wi_CurrentState r = wi_CurrentState q" using q by simp_all
      with False q t assms show ?thesis by (auto simp: last_target_append workflow_inv_def)
    qed
  qed
  ultimately show ?thesis using assms unfolding s' workflow_inv_def by simp
qed (use assms in simp)

inductive workflow_step :: "store \<Rightarrow> store \<Rightarrow> bool" where
  ws_create: "workflow_step s (fst (CreateIfMissing repo n w st s))"
| ws_advance: "workflow_step s (fst (Advance repo n w frm to ag s))"
| ws_env: "workflow_instances s' = workflow_instances s \<Longrightarrow> workflow_transitions s' = workflow_transitions s \<Longrightarrow>
    workflow_step s s'"

lemma workflow_step_inv: "workflow_step s s' \<Longrightarrow> workflow_inv s \<Longrightarrow> workflow_inv s'"
proof (induction rule: workflow_step.induct)
  case (ws_env s' s)
  then show ?case by (simp add: workflow_inv_def)
qed (simp_all add: CreateIfMissing_inv Advance_inv)

lemma workflow_steps_inv: "workflow_step\<^sup>*\<^sup>* s s' \<Longrightarrow> workflow_inv s \<Longrightarrow> workflow_inv s'"
  by (induction rule: rtranclp_induct) (auto intro: workflow_step_inv)

section \<open>Properties\<close>

text \<open>After any sequence of creations and advances from an empty database, no issue has two
  instances of one workflow, every recorded transition belongs to an instance, and every
  instance that has transitions is in the state its latest transition entered.\<close>

theorem workflow_current_state:
  assumes "workflow_step\<^sup>*\<^sup>* empty_store s"
  shows "distinct (map wi_key (workflow_instances s)) \<and>
    wt_InstanceID ` set (workflow_transitions s) \<subseteq> wi_ID ` set (workflow_instances s) \<and>
    (\<forall>r \<in> set (workflow_instances s). \<forall>st. last_target (wi_ID r) (workflow_transitions s) = Some st \<longrightarrow> wi_CurrentState r = st)"
proof -
  have "workflow_inv empty_store" by (simp add: workflow_inv_def empty_store_def)
  with workflow_steps_inv [OF assms] show ?thesis by (simp add: workflow_inv_def)
qed

theorem workflow_current_state_witness:
  "let s = fst (Advance ''o/r'' 7 ''w'' ''a'' ''b'' ''dev'' (fst (CreateIfMissing ''o/r'' 7 ''w'' ''a'' empty_store)))
   in distinct (map wi_key (workflow_instances s)) \<and> length (workflow_transitions s) = 1"
proof -
  let ?s1 = "fst (CreateIfMissing ''o/r'' 7 ''w'' ''a'' empty_store)"
  let ?s2 = "fst (Advance ''o/r'' 7 ''w'' ''a'' ''b'' ''dev'' ?s1)"
  have "workflow_step empty_store ?s1" "workflow_step ?s1 ?s2" by (rule ws_create, rule ws_advance)
  then have "workflow_step\<^sup>*\<^sup>* empty_store ?s2" by (meson converse_rtranclp_into_rtranclp r_into_rtranclp)
  from workflow_current_state [OF this] show ?thesis
    by (simp add: Let_def Advance_def AdvanceWorkflowInstance_def CreateIfMissing_def
        CreateWorkflowInstanceIfMissing_def empty_store_def count_rows_def)
qed

text \<open>Advancing an instance that does not exist is refused by the foreign key of the
  transition insert, changes nothing, and never yields the documented
  \<^verbatim>\<open>ErrWorkflowInstanceNotFound\<close>.\<close>

theorem Advance_missing_instance:
  assumes "\<not> faults s OpAdvanceInstance"
    and "makeInstanceID repo n w \<notin> wi_ID ` set (workflow_instances s)"
  shows "Advance repo n w frm to ag s = (s, Inl ForeignKeyViolation)"
proof -
  have "count_rows (\<lambda>r. wi_ID r = makeInstanceID repo n w) (workflow_instances s) = 0"
    using assms(2) unfolding count_rows_0 by (metis image_eqI)
  with assms(1) show ?thesis by (simp add: Advance_def AdvanceWorkflowInstance_def Let_def)
qed

theorem Advance_missing_instance_witness:
  "Advance ''o/r'' 7 ''w'' ''a'' ''b'' ''dev'' empty_store = (empty_store, Inl ForeignKeyViolation)"
  by (rule Advance_missing_instance) (simp_all add: empty_store_def)

end
