(* ===== verification/Sha256.thy ===== *)
theory Sha256
  imports Main "HOL-Library.Word" Claim_Store
begin

unbundle bit_operations_syntax

text \<open>
  SHA-256 (Go's \<^verbatim>\<open>crypto/sha256\<close>) on byte lists, which the sources use for label,
  hazard and declaration fingerprints: padding, message schedule and compression on 32-bit
  words whose addition wraps, and \<open>hash_parts\<close>, the hexadecimal digest of several strings,
  each followed by a zero byte, as the sources feed them to the hash.
\<close>

type_synonym w32 = "32 word"

text \<open>The round constants and the initial state of the standard, in decimal.\<close>

definition sha_K :: "w32 list" where
  "sha_K = [
   1116352408, 1899447441, 3049323471, 3921009573, 961987163, 1508970993, 2453635748, 2870763221,
   3624381080, 310598401, 607225278, 1426881987, 1925078388, 2162078206, 2614888103, 3248222580,
   3835390401, 4022224774, 264347078, 604807628, 770255983, 1249150122, 1555081692, 1996064986,
   2554220882, 2821834349, 2952996808, 3210313671, 3336571891, 3584528711, 113926993, 338241895,
   666307205, 773529912, 1294757372, 1396182291, 1695183700, 1986661051, 2177026350, 2456956037,
   2730485921, 2820302411, 3259730800, 3345764771, 3516065817, 3600352804, 4094571909, 275423344,
   430227734, 506948616, 659060556, 883997877, 958139571, 1322822218, 1537002063, 1747873779,
   1955562222, 2024104815, 2227730452, 2361852424, 2428436474, 2756734187, 3204031479, 3329325298]"

definition sha_init :: "w32 list" where
  "sha_init = [1779033703, 3144134277, 1013904242, 2773480762, 1359893119, 2600822924, 528734635, 1541459225]"

definition sha_pad :: "nat list \<Rightarrow> nat list" where
  "sha_pad m =
     (let l = length m; z = (119 - l mod 64) mod 64; bits = 8 * l
      in m @ [128] @ replicate z 0 @ map (\<lambda>i. bits div 256 ^ (7 - i) mod 256) [0..<8])"

fun be_words :: "nat list \<Rightarrow> w32 list" where
  "be_words (a # b # c # d # rest) =
     of_nat (((a * 256 + b) * 256 + c) * 256 + d) # be_words rest"
| "be_words _ = []"

text \<open>The message schedule, newest word first, so that \<open>w ! 1\<close> is \<open>W(t-2)\<close>.\<close>

fun sha_extend :: "nat \<Rightarrow> w32 list \<Rightarrow> w32 list" where
  "sha_extend 0 w = rev w"
| "sha_extend (Suc n) w =
     (let x = w ! 14; y = w ! 1;
          s0 = word_rotr 7 x XOR word_rotr 18 x XOR drop_bit 3 x;
          s1 = word_rotr 17 y XOR word_rotr 19 y XOR drop_bit 10 y
      in sha_extend n ((w ! 15 + s0 + w ! 6 + s1) # w))"

definition sha_round :: "w32 list \<Rightarrow> w32 \<times> w32 \<Rightarrow> w32 list" where
  "sha_round st kw =
     (case st of
        [a, b, c, d, e, f, g, h] \<Rightarrow>
          (let S1 = word_rotr 6 e XOR word_rotr 11 e XOR word_rotr 25 e;
               ch = (e AND f) XOR ((NOT e) AND g);
               t1 = h + S1 + ch + fst kw + snd kw;
               S0 = word_rotr 2 a XOR word_rotr 13 a XOR word_rotr 22 a;
               maj = (a AND b) XOR (a AND c) XOR (b AND c);
               t2 = S0 + maj
           in [t1 + t2, a, b, c, d + t1, e, f, g])
      | _ \<Rightarrow> st)"

definition sha_block :: "w32 list \<Rightarrow> w32 list \<Rightarrow> w32 list" where
  "sha_block st ws = map2 (+) st (foldl sha_round st (zip sha_K (sha_extend 48 (rev ws))))"

function sha_blocks :: "w32 list \<Rightarrow> w32 list \<Rightarrow> w32 list" where
  "sha_blocks st ws = (if length ws < 16 then st else sha_blocks (sha_block st (take 16 ws)) (drop 16 ws))"
  by auto

termination by (relation "measure (length \<circ> snd)") auto

definition word_hex :: "w32 \<Rightarrow> string" where
  "word_hex w = (let n = unat w in map (\<lambda>i. hex_digit (n div 16 ^ (7 - i) mod 16)) [0..<8])"

definition sha256_hex :: "nat list \<Rightarrow> string" where
  "sha256_hex m = concat (map word_hex (sha_blocks sha_init (be_words (sha_pad m))))"

text \<open>\<^verbatim>\<open>h.Write([]byte(p)); h.Write([]byte{0})\<close> for every part.\<close>

definition hash_parts :: "string list \<Rightarrow> string" where
  "hash_parts ps = sha256_hex (concat (map (\<lambda>p. map of_char p @ [0]) ps))"

declare sha_blocks.simps [simp del]

lemma length_sha_round: "length (sha_round st kw) = length st"
  by (auto simp: sha_round_def Let_def split: list.splits)

lemma length_sha_block: "length (sha_block st ws) = length st"
proof -
  have "length (foldl sha_round st ks) = length st" for ks
    by (induction ks arbitrary: st) (simp_all add: length_sha_round)
  then show ?thesis by (simp add: sha_block_def)
qed

lemma length_sha_blocks: "length (sha_blocks st ws) = length st"
proof (induction st ws rule: sha_blocks.induct)
  case (1 st ws)
  then show ?case by (subst sha_blocks.simps) (simp add: length_sha_block)
qed

lemma length_hash_parts [simp]: "length (hash_parts ps) = 64"
proof -
  have "length (concat (map word_hex ws)) = 8 * length ws" for ws
    by (induction ws) (simp_all add: word_hex_def Let_def)
  then show ?thesis by (simp add: hash_parts_def sha256_hex_def length_sha_blocks sha_init_def)
qed

end
