(* ===== verification/Json_Text.thy ===== *)
theory Json_Text
  imports Sha256
begin

text \<open>
  Strings in the JSON that Go's encoder writes and its decoder reads, on bytes.

  The encoder takes a string apart into the UTF-8 codings of characters. ASCII characters are escaped where JSON or HTML need
  it, the line separators are written as escapes, other codings as they are, and a byte that belongs to no coding is written as the
  escape of the replacement character. The decoder is given for what the encoder writes: it refuses the escapes of
  surrogates, which the encoder never writes.

  Shown here: decoding what was encoded gives the text in which every stray byte is replaced, which is the text itself
  when it is valid UTF-8.
\<close>

section \<open>Characters in UTF-8\<close>

definition byte_in :: "nat \<Rightarrow> nat \<Rightarrow> char \<Rightarrow> bool" where
  "byte_in a b c \<longleftrightarrow> a \<le> of_char c \<and> of_char c \<le> b"

text \<open>The length of the coding of a character beyond ASCII at the beginning, 0 if there is none.\<close>

definition utf8_len :: "string \<Rightarrow> nat" where
  "utf8_len s =
     (case s of
        c1 # c2 # r \<Rightarrow>
          if byte_in 0xC2 0xDF c1 then (if byte_in 0x80 0xBF c2 then 2 else 0)
          else if byte_in 0xE0 0xEF c1 then
            (if byte_in (if of_char c1 = (0xE0 :: nat) then 0xA0 else 0x80) (if of_char c1 = (0xED :: nat) then 0x9F else 0xBF) c2
             then (case r of c3 # _ \<Rightarrow> if byte_in 0x80 0xBF c3 then 3 else 0 | [] \<Rightarrow> 0) else 0)
          else if byte_in 0xF0 0xF4 c1 then
            (if byte_in (if of_char c1 = (0xF0 :: nat) then 0x90 else 0x80) (if of_char c1 = (0xF4 :: nat) then 0x8F else 0xBF) c2
             then (case r of c3 # c4 # _ \<Rightarrow> if byte_in 0x80 0xBF c3 \<and> byte_in 0x80 0xBF c4 then 4 else 0 | _ \<Rightarrow> 0) else 0)
          else 0
      | _ \<Rightarrow> 0)"

lemma utf8_len_spec: "utf8_len s \<le> length s" "c \<in> set (take (utf8_len s) s) \<Longrightarrow> (128::nat) \<le> of_char c"
  by (auto simp: utf8_len_def byte_in_def split: list.splits if_splits)

definition ascii :: "char \<Rightarrow> bool" where
  "ascii c \<longleftrightarrow> of_char c < (128 :: nat)"

text \<open>The codings of the characters, \<open>None\<close> for a stray byte.\<close>

function runes :: "string \<Rightarrow> string option list" where
  "runes [] = []"
| "runes (c # s) =
     (if ascii c then Some [c] # runes s
      else if utf8_len (c # s) = 0 then None # runes s
      else Some (take (utf8_len (c # s)) (c # s)) # runes (drop (utf8_len (c # s)) (c # s)))"
  by pat_completeness auto
termination by (relation "measure length") (auto simp: not_less_eq_eq intro: diff_less_mono)

definition replacement :: string where "replacement = [CHR 0xEF, CHR 0xBF, CHR 0xBD]"

definition valid_text :: "string \<Rightarrow> string" where
  "valid_text s = concat (map (\<lambda>r. case r of None \<Rightarrow> replacement | Some u \<Rightarrow> u) (runes s))"

lemma valid_text_id: "None \<notin> set (runes s) \<Longrightarrow> valid_text s = s"
  by (induction s rule: runes.induct) (auto simp: valid_text_def split: if_splits)

lemma valid_text_ascii: "\<forall>c \<in> set s. ascii c \<Longrightarrow> valid_text s = s"
  by (induction s) (auto simp: valid_text_def)

section \<open>Encoding\<close>

definition json_char :: "char \<Rightarrow> string" where
  "json_char c =
     (let k = of_char c :: nat; bs = CHR 0x5C
      in if k = 34 \<or> k = 92 then [bs, c]
         else if k = 8 then [bs, CHR ''b''] else if k = 12 then [bs, CHR ''f'']
         else if k = 10 then [bs, CHR ''n''] else if k = 13 then [bs, CHR ''r''] else if k = 9 then [bs, CHR ''t'']
         else if k < 32 \<or> k = 60 \<or> k = 62 \<or> k = 38 then bs # ''u00'' @ [hex_digit (k div 16), hex_digit (k mod 16)]
         else [c])"

definition line_separator :: string where "line_separator = [CHR 0xE2, CHR 0x80, CHR 0xA8]"
definition paragraph_separator :: string where "paragraph_separator = [CHR 0xE2, CHR 0x80, CHR 0xA9]"

definition json_rune :: "string option \<Rightarrow> string" where
  "json_rune r =
     (case r of
        None \<Rightarrow> CHR 0x5C # ''ufffd''
      | Some [c] \<Rightarrow> json_char c
      | Some u \<Rightarrow> if u = line_separator then CHR 0x5C # ''u2028'' else if u = paragraph_separator then CHR 0x5C # ''u2029'' else u)"

definition json_body :: "string \<Rightarrow> string" where
  "json_body s = concat (map json_rune (runes s))"

definition json_string :: "string \<Rightarrow> string" where
  "json_string s = CHR 0x22 # json_body s @ [CHR 0x22]"

section \<open>Decoding\<close>

definition hex_val :: "char \<Rightarrow> nat" where
  "hex_val c = (let k = of_char c :: nat in if 48 \<le> k \<and> k \<le> 57 then k - 48 else if 97 \<le> k \<and> k \<le> 102 then k - 87 else k - 55)"

definition hex4 :: "string \<Rightarrow> nat" where
  "hex4 t = foldl (\<lambda>n c. 16 * n + hex_val c) 0 (take 4 t)"

text \<open>The coding of a character of the basic plane that is not a surrogate.\<close>

definition utf8_encode :: "nat \<Rightarrow> string" where
  "utf8_encode n =
     (if n < 0x80 then [char_of n]
      else if n < 0x800 then [char_of (0xC0 + n div 64), char_of (0x80 + n mod 64)]
      else [char_of (0xE0 + n div 4096), char_of (0x80 + n div 64 mod 64), char_of (0x80 + n mod 64)])"

definition json_unescape :: "char \<Rightarrow> char" where
  "json_unescape c = (if c = CHR ''b'' then CHR 0x08 else if c = CHR ''f'' then CHR 0x0C else if c = CHR ''n'' then CHR 0x0A
     else if c = CHR ''r'' then CHR 0x0D else if c = CHR ''t'' then CHR 0x09 else c)"

function json_unquote :: "string \<Rightarrow> (string \<times> string) option" where
  "json_unquote [] = None"
| "json_unquote (c # s) =
     (if c = CHR 0x22 then Some ([], s)
      else if c = CHR 0x5C then
        (case s of
           [] \<Rightarrow> None
         | e # t \<Rightarrow>
             if e = CHR ''u'' then
               (if length t < 4 \<or> 0xD800 \<le> hex4 t \<and> hex4 t \<le> 0xDFFF then None
                else map_option (apfst ((@) (utf8_encode (hex4 t)))) (json_unquote (drop 4 t)))
             else map_option (apfst ((#) (json_unescape e))) (json_unquote t))
      else map_option (apfst ((#) c)) (json_unquote s))"
  by pat_completeness auto
termination by (relation "measure length") auto

lemma unquote_end: "json_unquote (CHR 0x22 # s) = Some ([], s)"
  by simp

lemma unquote_plain: "c \<noteq> CHR 0x22 \<Longrightarrow> c \<noteq> CHR 0x5C \<Longrightarrow> json_unquote (c # s) = map_option (apfst ((#) c)) (json_unquote s)"
  by simp

lemma unquote_esc: "e \<noteq> CHR ''u'' \<Longrightarrow> json_unquote (CHR 0x5C # e # t) = map_option (apfst ((#) (json_unescape e))) (json_unquote t)"
  by simp

lemma unquote_u: "4 \<le> length t \<Longrightarrow> \<not> (0xD800 \<le> hex4 t \<and> hex4 t \<le> 0xDFFF) \<Longrightarrow>
    json_unquote (CHR 0x5C # CHR ''u'' # t) = map_option (apfst ((@) (utf8_encode (hex4 t)))) (json_unquote (drop 4 t))"
  by auto

declare json_unquote.simps [simp del]

section \<open>Round trip\<close>

lemma hex_val_digit: "d < 16 \<Longrightarrow> hex_val (hex_digit d) = d"
  by (simp add: hex_val_def hex_digit_def Let_def)

lemma unquote_ascii:
  assumes "ascii c" shows "json_unquote (json_char c @ t) = map_option (apfst ((@) [c])) (json_unquote t)"
proof -
  let ?k = "of_char c :: nat"
  have k: "?k < 256" "char_of ?k = c" by simp_all
  have c: "?k = n \<Longrightarrow> c = char_of n" for n using k(2) by simp
  have chars: "char_of (34::nat) = CHR 0x22" "char_of (92::nat) = CHR 0x5C" "char_of (8::nat) = CHR 0x08" "char_of (12::nat) = CHR 0x0C"
    "char_of (10::nat) = CHR 0x0A" "char_of (13::nat) = CHR 0x0D" "char_of (9::nat) = CHR 0x09" by code_simp+
  have app: "(#) c = (@) [c]" by (simp add: fun_eq_iff)
  have esc: "json_unquote (CHR 0x5C # e # t) = map_option (apfst ((@) [c])) (json_unquote t)" if "e \<noteq> CHR ''u''" "json_unescape e = c" for e
    using that by (simp add: app [symmetric] unquote_esc)
  consider (quote) "?k = 34 \<or> ?k = 92" | (control) "?k \<in> {8, 12, 10, 13, 9}"
    | (hex) "?k \<notin> {8, 12, 10, 13, 9, 34, 92}" "?k < 32 \<or> ?k = 60 \<or> ?k = 62 \<or> ?k = 38"
    | (plain) "?k \<notin> {8, 12, 10, 13, 9, 34, 92}" "\<not> (?k < 32 \<or> ?k = 60 \<or> ?k = 62 \<or> ?k = 38)" by blast
  then show ?thesis
  proof cases
    case quote
    then have "c = CHR 0x22 \<or> c = CHR 0x5C" using c chars by metis
    moreover from this have "json_char c = [CHR 0x5C, c]" "json_unescape c = c" "c \<noteq> CHR ''u''" by (auto simp: json_char_def json_unescape_def Let_def)
    ultimately show ?thesis using esc [of c] by simp
  next
    case control
    then have "c = char_of (8::nat) \<or> c = char_of (12::nat) \<or> c = char_of (10::nat) \<or> c = char_of (13::nat) \<or> c = char_of (9::nat)"
      using c by blast
    then have "c \<in> {CHR 0x08, CHR 0x0C, CHR 0x0A, CHR 0x0D, CHR 0x09}" unfolding chars by blast
    then obtain e where "json_char c = [CHR 0x5C, e]" "json_unescape e = c" "e \<noteq> CHR ''u''" by (auto simp: json_char_def json_unescape_def Let_def)
    then show ?thesis using esc [of e] by simp
  next
    case hex
    let ?h = "[hex_digit (?k div 16), hex_digit (?k mod 16)]"
    have z: "hex_val (CHR ''0'') = 0" by (simp add: hex_val_def)
    have "hex4 (''00'' @ ?h @ t) = ?k" using k(1) by (simp add: hex4_def z hex_val_digit less_mult_imp_div_less)
    moreover have "utf8_encode ?k = [c]" using assms by (simp add: utf8_encode_def ascii_def)
    moreover have "json_char c @ t = CHR 0x5C # CHR ''u'' # ''00'' @ ?h @ t" using hex by (simp add: json_char_def Let_def)
    ultimately show ?thesis using assms unquote_u [of "''00'' @ ?h @ t"] by (simp add: ascii_def)
  next
    case plain
    have "c \<noteq> CHR 0x22" "c \<noteq> CHR 0x5C" using plain by auto
    then show ?thesis using plain by (simp add: json_char_def app [symmetric] unquote_plain)
  qed
qed

lemma unquote_coding: "\<forall>c \<in> set u. \<not> ascii c \<Longrightarrow> json_unquote (u @ t) = map_option (apfst ((@) u)) (json_unquote t)"
proof (induction u)
  case (Cons c u)
  then have "c \<noteq> CHR 0x22" "c \<noteq> CHR 0x5C" by (auto simp: ascii_def)
  then show ?case using Cons by (cases "json_unquote t") (auto simp: unquote_plain)
qed (cases "json_unquote t"; auto)

lemma unquote_escapes:
  "json_unquote (CHR 0x5C # ''ufffd'' @ t) = map_option (apfst ((@) replacement)) (json_unquote t)"
  "json_unquote (CHR 0x5C # ''u2028'' @ t) = map_option (apfst ((@) line_separator)) (json_unquote t)"
  "json_unquote (CHR 0x5C # ''u2029'' @ t) = map_option (apfst ((@) paragraph_separator)) (json_unquote t)"
proof -
  have n: "hex4 (''fffd'' @ t) = 0xFFFD" "hex4 (''2028'' @ t) = 0x2028" "hex4 (''2029'' @ t) = 0x2029" by (simp_all add: hex4_def hex_val_def)
  have b: "char_of (239::nat) = CHR 0xEF" "char_of (191::nat) = CHR 0xBF" "char_of (189::nat) = CHR 0xBD" "char_of (226::nat) = CHR 0xE2"
    "char_of (128::nat) = CHR 0x80" "char_of (168::nat) = CHR 0xA8" "char_of (169::nat) = CHR 0xA9" by code_simp+
  have e: "utf8_encode 0xFFFD = replacement" "utf8_encode 0x2028 = line_separator" "utf8_encode 0x2029 = paragraph_separator"
    by (simp_all add: utf8_encode_def replacement_def line_separator_def paragraph_separator_def b)
  show "json_unquote (CHR 0x5C # ''ufffd'' @ t) = map_option (apfst ((@) replacement)) (json_unquote t)" using unquote_u [of "''fffd'' @ t"] n(1) e(1) by simp
  show "json_unquote (CHR 0x5C # ''u2028'' @ t) = map_option (apfst ((@) line_separator)) (json_unquote t)" using unquote_u [of "''2028'' @ t"] n(2) e(2) by simp
  show "json_unquote (CHR 0x5C # ''u2029'' @ t) = map_option (apfst ((@) paragraph_separator)) (json_unquote t)" using unquote_u [of "''2029'' @ t"] n(3) e(3) by simp
qed

text \<open>What the elements of \<open>runes\<close> are.\<close>

lemma runes_shape: "r \<in> set (runes s) \<Longrightarrow> r = None \<or> (\<exists>c. ascii c \<and> r = Some [c]) \<or> (\<exists>u. r = Some u \<and> 2 \<le> length u \<and> (\<forall>c \<in> set u. \<not> ascii c))"
proof (induction s rule: runes.induct)
  case (2 c s)
  have "utf8_len (c # s) \<noteq> 1" by (auto simp: utf8_len_def split: list.splits if_splits)
  moreover have "\<forall>x \<in> set (take (utf8_len (c # s)) (c # s)). \<not> ascii x" using utf8_len_spec(2) by (fastforce simp: ascii_def)
  ultimately show ?case using 2 utf8_len_spec(1) [of "c # s"] by (auto split: if_splits simp: min_def)
qed simp

lemma unquote_rune: "r \<in> set (runes s) \<Longrightarrow> json_unquote (json_rune r @ t) = map_option (apfst ((@) (case r of None \<Rightarrow> replacement | Some u \<Rightarrow> u))) (json_unquote t)"
proof (elim runes_shape [elim_format] disjE exE conjE)
  assume "r = None"
  then show ?thesis using unquote_escapes(1) by (simp add: json_rune_def)
next
  fix c assume "ascii c" "r = Some [c]"
  then show ?thesis using unquote_ascii by (simp add: json_rune_def)
next
  fix u assume r: "r = Some u" "2 \<le> length u" and n: "\<forall>c \<in> set u. \<not> ascii c"
  obtain a b v where "u = a # b # v" using r(2) by (cases u rule: remdups_adj.cases) auto
  then have "json_rune r = (if u = line_separator then CHR 0x5C # ''u2028'' else if u = paragraph_separator then CHR 0x5C # ''u2029'' else u)"
    by (simp add: json_rune_def r)
  then show ?thesis using unquote_escapes(2,3) unquote_coding [OF n] r(1) by auto
qed

lemma unquote_string: "json_unquote (json_body s @ CHR 0x22 # t) = Some (valid_text s, t)"
proof -
  let ?u = "\<lambda>r. case r of None \<Rightarrow> replacement | Some u \<Rightarrow> u"
  have "json_unquote (concat (map json_rune rs) @ CHR 0x22 # t) = Some (concat (map ?u rs), t)" if "set rs \<subseteq> set (runes s)" for rs
    using that by (induction rs) (simp_all add: unquote_rune [of _ s] unquote_end)
  then show ?thesis by (simp add: json_body_def valid_text_def)
qed

lemma json_char_code: "c \<in> set (json_char d) \<Longrightarrow> (32::nat) \<le> of_char c"
proof -
  have "(32::nat) \<le> of_char (hex_digit n)" if "n < 16" for n using that by (simp add: hex_digit_def)
  then have "(32::nat) \<le> of_char (hex_digit (of_char d div 16))" "(32::nat) \<le> of_char (hex_digit (of_char d mod 16))" by (simp_all add: less_mult_imp_div_less)
  then show "c \<in> set (json_char d) \<Longrightarrow> (32::nat) \<le> of_char c" by (auto simp: json_char_def Let_def split: if_splits)
qed

text \<open>No control character is left in the coding.\<close>

lemma json_body_code: "c \<in> set (json_body s) \<Longrightarrow> (32::nat) \<le> of_char c"
proof -
  have "(32::nat) \<le> of_char c" if r: "r \<in> set (runes s)" and c: "c \<in> set (json_rune r)" for r
    using runes_shape [OF r]
  proof (elim disjE exE conjE)
    fix u assume u: "r = Some u" "2 \<le> length u" "\<forall>x \<in> set u. \<not> ascii x"
    obtain a b v where "u = a # b # v" using u(2) by (cases u rule: remdups_adj.cases) auto
    then show ?thesis using c u by (auto simp: json_rune_def ascii_def split: if_splits)
  qed (use c json_char_code in \<open>auto simp: json_rune_def\<close>)
  then show "c \<in> set (json_body s) \<Longrightarrow> (32::nat) \<le> of_char c" by (auto simp: json_body_def)
qed

end
