(* ===== verification/Declaration.thy ===== *)
theory Declaration
  imports Issue_Store Json_Text
begin

text \<open>
  Dependency declarations (\<^verbatim>\<open>internal/dependency\<close>): how a
  \<^verbatim>\<open>workbuddy.depends_on\<close> block of an issue body becomes a list of normalised
  references. The regular expressions of the source are written out as functions. YAML is a
  library: \<open>yaml_lib\<close> holds what it answers, a decoded \<^verbatim>\<open>depends_on\<close> list and the
  node tree the line numbers come from.

  Shown here: a reference is accepted as active exactly when it denotes an issue of the same
  repository, its normal form identifies the issue, and no declaration lists an issue twice.
\<close>

section \<open>Code fences\<close>

definition fence :: string where "fence = replicate 3 (char_of (96 :: nat))"

definition re_space :: "char \<Rightarrow> bool" where
  "re_space c \<longleftrightarrow> of_char c \<in> {9, 10, 12, 13, 32 :: nat}"

text \<open>The text before and after the first occurrence of \<open>p\<close>.\<close>

fun cut_at :: "string \<Rightarrow> string \<Rightarrow> (string \<times> string) option" where
  "cut_at p [] = (if p = [] then Some ([], []) else None)"
| "cut_at p (c # s) =
     (if has_prefix (c # s) p then Some ([], drop (length p) (c # s))
      else map_option (\<lambda>(a, b). (c # a, b)) (cut_at p s))"

lemma cut_at_Some: "cut_at p s = Some (a, b) \<Longrightarrow> s = a @ p @ b"
proof (induction s arbitrary: a b)
  case (Cons c s)
  show ?case
  proof (cases "has_prefix (c # s) p")
    case True
    then have "take (length p) (c # s) = p" "a = []" "b = drop (length p) (c # s)"
      using Cons.prems by (simp_all add: has_prefix_def)
    then show ?thesis by (metis append_Nil append_take_drop_id)
  next
    case False
    then obtain a' where "cut_at p s = Some (a', b)" "a = c # a'" using Cons.prems by auto
    with Cons.IH [of a' b] show ?thesis by simp
  qed
qed (auto split: if_splits)

text \<open>One match of \<^verbatim>\<open>(?s)```yaml\s*\n(.*?)```\<close> at the start of the text after the
  opening fence: the white space up to its last line end, the block, and the rest. The result
  is the length of what comes before the block, the block, and what follows the closing
  fence.\<close>

definition match_block :: "string \<Rightarrow> (nat \<times> string \<times> string) option" where
  "match_block s =
     (let ws = takeWhile re_space s;
          upto = rev (dropWhile (\<lambda>c. c \<noteq> CHR 0x0A) (rev ws))
      in if upto = [] then None
         else (case cut_at fence (drop (length upto) s) of
                 None \<Rightarrow> None
               | Some (block, rest) \<Rightarrow> Some (length upto, block, rest)))"

text \<open>\<^verbatim>\<open>FindAllStringSubmatchIndex\<close>: the blocks with their offsets; \<open>fuel\<close> bounds the
  number of opening fences, of which there are fewer than characters.\<close>

fun find_blocks :: "nat \<Rightarrow> nat \<Rightarrow> string \<Rightarrow> (nat \<times> string) list" where
  "find_blocks 0 off s = []"
| "find_blocks (Suc fuel) off s =
     (case cut_at (fence @ ''yaml'') s of
        None \<Rightarrow> []
      | Some (before, after) \<Rightarrow>
          (let off' = off + length before + 7
           in case match_block after of
                None \<Rightarrow> find_blocks fuel (off + length before + 1) (tl (fence @ ''yaml'' @ after))
              | Some (skip, block, rest) \<Rightarrow>
                  (off' + skip, block) # find_blocks fuel (off' + skip + length block + 3) rest))"

definition yaml_blocks :: "string \<Rightarrow> (nat \<times> string) list" where
  "yaml_blocks body = find_blocks (length body) 0 body"

section \<open>YAML as a library\<close>

datatype ynode = YScalar string int | YSequence "ynode list" | YMapping "ynode list" | YOther string

record yaml_lib =
  y_depends_on :: "string \<Rightarrow> string list option"
  y_content :: "string \<Rightarrow> ynode list option"

definition ynode_value :: "ynode \<Rightarrow> string" where
  "ynode_value n = (case n of YScalar v _ \<Rightarrow> v | YOther v \<Rightarrow> v | _ \<Rightarrow> [])"

fun lookup_pairs :: "string \<Rightarrow> ynode list \<Rightarrow> ynode option" where
  "lookup_pairs key (k # v # rest) = (if ynode_value k = key then Some v else lookup_pairs key rest)"
| "lookup_pairs key _ = None"

definition lookupMappingValue :: "ynode \<Rightarrow> string \<Rightarrow> ynode option" where
  "lookupMappingValue n key = (case n of YMapping ns \<Rightarrow> lookup_pairs key ns | _ \<Rightarrow> None)"

definition add_line :: "int \<Rightarrow> ynode \<Rightarrow> (string \<times> int list) list \<Rightarrow> (string \<times> int list) list" where
  "add_line start item lines =
     (case item of
        YScalar v l \<Rightarrow> AList.update v ((case map_of lines v of None \<Rightarrow> [] | Some ls \<Rightarrow> ls) @ [start + l - 1]) lines
      | _ \<Rightarrow> lines)"

definition dependencyEntryLines :: "yaml_lib \<Rightarrow> string \<Rightarrow> int \<Rightarrow> (string \<times> int list) list" where
  "dependencyEntryLines y block start =
     (case y_content y block of
        None \<Rightarrow> []
      | Some [] \<Rightarrow> []
      | Some (root # _) \<Rightarrow>
         (case lookupMappingValue root ''workbuddy'' of
            None \<Rightarrow> []
          | Some wb \<Rightarrow> (case lookupMappingValue wb ''depends_on'' of
               Some (YSequence items) \<Rightarrow> fold (add_line start) items []
             | _ \<Rightarrow> [])))"

section \<open>References\<close>

definition stripMatchingQuotes :: "string \<Rightarrow> string" where
  "stripMatchingQuotes raw =
     (if length raw < 2 then raw
      else if hd raw = CHR 0x22 \<and> last raw = CHR 0x22 then butlast (tl raw)
      else if hd raw = CHR 0x27 \<and> last raw = CHR 0x27 then butlast (tl raw)
      else raw)"

text \<open>\<^verbatim>\<open>strings.ReplaceAll(raw, "\" + q, q)\<close>.\<close>

fun unescape :: "char \<Rightarrow> string \<Rightarrow> string" where
  "unescape q (a # b # s) = (if a = CHR 0x5C \<and> b = q then q # unescape q s else a # unescape q (b # s))"
| "unescape q s = s"

definition normalizeDependencyRef :: "string \<Rightarrow> string" where
  "normalizeDependencyRef raw =
     trim_space (stripMatchingQuotes (unescape (CHR 0x27) (unescape (CHR 0x22) (trim_space raw))))"

text \<open>\<^verbatim>\<open>[1-9][0-9]*\<close>.\<close>

definition is_issue_number :: "string \<Rightarrow> bool" where
  "is_issue_number s \<longleftrightarrow> s \<noteq> [] \<and> hd s \<noteq> CHR ''0'' \<and> (\<forall>c \<in> set s. digit_val c \<noteq> None)"

definition is_name_char :: "char \<Rightarrow> bool" where
  "is_name_char c \<longleftrightarrow> (let k = of_char c :: nat
     in 48 \<le> k \<and> k \<le> 57 \<or> 65 \<le> k \<and> k \<le> 90 \<or> 97 \<le> k \<and> k \<le> 122 \<or> c \<in> set ''_.-'')"

text \<open>\<^verbatim>\<open>localIssueRefRe\<close> and \<^verbatim>\<open>fqIssueRefRe\<close>: the digits, and the repository with
  the digits.\<close>

definition localIssueRef :: "string \<Rightarrow> string option" where
  "localIssueRef s = (if s \<noteq> [] \<and> hd s = CHR ''#'' \<and> is_issue_number (tl s) then Some (tl s) else None)"

definition fqIssueRef :: "string \<Rightarrow> (string \<times> string) option" where
  "fqIssueRef s =
     (case split_last_hash s of
        None \<Rightarrow> None
      | Some (r, ds) \<Rightarrow>
         (let owner = takeWhile (\<lambda>c. c \<noteq> CHR ''/'') r; name = tl (dropWhile (\<lambda>c. c \<noteq> CHR ''/'') r)
          in if is_issue_number ds \<and> CHR ''/'' \<in> set r \<and> owner \<noteq> [] \<and> name \<noteq> [] \<and>
                (\<forall>c \<in> set owner. is_name_char c) \<and> (\<forall>c \<in> set name. is_name_char c)
             then Some (r, ds) else None))"

record ParsedDependency =
  pd_Raw :: string
  pd_Repo :: string
  pd_IssueNum :: int
  pd_Status :: string
  pd_Normalized :: string
  pd_ParseErrorReason :: string
  pd_Line :: int

definition normalizeDependency :: "string \<Rightarrow> string \<Rightarrow> ParsedDependency" where
  "normalizeDependency repo raw0 =
     (let raw = trim_space raw0;
          p = \<lparr>pd_Raw = raw, pd_Repo = [], pd_IssueNum = 0, pd_Status = [], pd_Normalized = [],
               pd_ParseErrorReason = [], pd_Line = 0\<rparr>;
          canonical = normalizeDependencyRef raw;
          norm = (\<lambda>q. if pd_Repo q \<noteq> [] \<and> pd_IssueNum q > 0
                      then q\<lparr>pd_Normalized := pd_Repo q @ ''#'' @ itoa (pd_IssueNum q)\<rparr> else q)
      in case localIssueRef canonical of
           Some ds \<Rightarrow>
             (case atoi ds of
                Some n \<Rightarrow> if n \<le> 0 then p\<lparr>pd_Status := DependencyStatusInvalid, pd_ParseErrorReason := ''invalid_issue_number''\<rparr>
                          else norm (p\<lparr>pd_Repo := repo, pd_IssueNum := n, pd_Status := DependencyStatusActive\<rparr>)
              | None \<Rightarrow> p\<lparr>pd_Status := DependencyStatusInvalid, pd_ParseErrorReason := ''invalid_issue_number''\<rparr>)
         | None \<Rightarrow>
             (case fqIssueRef canonical of
                Some (r, ds) \<Rightarrow>
                  (case atoi ds of
                     Some n \<Rightarrow> if n \<le> 0 then p\<lparr>pd_Status := DependencyStatusInvalid, pd_ParseErrorReason := ''invalid_repo_issue''\<rparr>
                               else norm (p\<lparr>pd_Repo := r, pd_IssueNum := n,
                                      pd_Status := (if r = repo then DependencyStatusActive
                                                    else DependencyStatusUnsupportedCrossRepo)\<rparr>)
                   | None \<Rightarrow> p\<lparr>pd_Status := DependencyStatusInvalid, pd_ParseErrorReason := ''invalid_repo_issue''\<rparr>)
              | None \<Rightarrow> norm (p\<lparr>pd_Status := DependencyStatusInvalid, pd_ParseErrorReason := ''invalid_format''\<rparr>)))"

section \<open>Signatures\<close>

definition json_dependency :: "ParsedDependency \<Rightarrow> string" where
  "json_dependency d =
     (let fld = (\<lambda>k v. json_string k @ '':'' @ v)
      in ''{'' @ join_with '','' [fld ''Raw'' (json_string (pd_Raw d)), fld ''Repo'' (json_string (pd_Repo d)),
           fld ''IssueNum'' (itoa (pd_IssueNum d)), fld ''Status'' (json_string (pd_Status d)),
           fld ''Normalized'' (json_string (pd_Normalized d)),
           fld ''ParseErrorReason'' (json_string (pd_ParseErrorReason d)), fld ''Line'' (itoa (pd_Line d))] @ ''}'')"

text \<open>\<^verbatim>\<open>json.Marshal\<close> of the slice; an empty declaration's slice is \<open>nil\<close>.\<close>

definition dependenciesSignature :: "ParsedDependency list \<Rightarrow> string" where
  "dependenciesSignature ds =
     (if ds = [] then ''null'' else ''['' @ join_with '','' (map json_dependency ds) @ '']'')"

section \<open>Declarations\<close>

record ParsedDeclaration =
  decl_Dependencies :: "ParsedDependency list"
  decl_SourceHash :: string
  decl_HasBlock :: bool

definition no_declaration :: ParsedDeclaration where
  "no_declaration = \<lparr>decl_Dependencies = [], decl_SourceHash = [], decl_HasBlock = False\<rparr>"

text \<open>The loop over the listed references: line numbers are consumed in order, and a normal
  form seen before is dropped.\<close>

fun collectDeps :: "string \<Rightarrow> (string \<times> int list) list \<Rightarrow> string list \<Rightarrow> string list \<Rightarrow> ParsedDependency list" where
  "collectDeps repo lines seen [] = []"
| "collectDeps repo lines seen (dep # deps) =
     (let p0 = normalizeDependency repo dep;
          (p, lines') = (case map_of lines (pd_Raw p0) of
                           Some (l # ls) \<Rightarrow> (p0\<lparr>pd_Line := l\<rparr>, AList.update (pd_Raw p0) ls lines)
                         | _ \<Rightarrow> (p0, lines))
      in if pd_Normalized p \<noteq> [] then
           (if pd_Normalized p \<in> set seen then collectDeps repo lines' seen deps
            else p # collectDeps repo lines' (pd_Normalized p # seen) deps)
         else p # collectDeps repo lines' seen deps)"

fun parseBlocks :: "yaml_lib \<Rightarrow> string \<Rightarrow> string \<Rightarrow> (nat \<times> string) list \<Rightarrow> ParsedDeclaration" where
  "parseBlocks y repo body [] = no_declaration"
| "parseBlocks y repo body ((off, block) # rest) =
     (case y_depends_on y block of
        None \<Rightarrow> parseBlocks y repo body rest
      | Some refs \<Rightarrow>
         (let startLine = 1 + int (count_list (take off body) (CHR 0x0A));
              deps = sort_key (\<lambda>d. (pd_Normalized d, pd_Raw d, pd_Line d))
                       (collectDeps repo (dependencyEntryLines y block startLine) [] refs)
          in \<lparr>decl_Dependencies = deps, decl_SourceHash = hash_parts [block, dependenciesSignature deps],
              decl_HasBlock = True\<rparr>))"

definition ParseDeclaration :: "yaml_lib \<Rightarrow> string \<Rightarrow> string \<Rightarrow> ParsedDeclaration" where
  "ParseDeclaration y repo body = parseBlocks y repo body (yaml_blocks body)"

definition invalidDependencies :: "ParsedDependency list \<Rightarrow> ParsedDependency list" where
  "invalidDependencies ds = filter (\<lambda>d. pd_Status d = DependencyStatusInvalid) ds"

section \<open>Well-formed references\<close>

definition dep_ok :: "string \<Rightarrow> ParsedDependency \<Rightarrow> bool" where
  "dep_ok repo d \<longleftrightarrow>
     (pd_Status d = DependencyStatusInvalid \<and> pd_IssueNum d = 0 \<and> pd_Normalized d = [] \<and> pd_ParseErrorReason d \<noteq> []) \<or>
     (pd_Status d = DependencyStatusActive \<and> pd_Repo d = repo \<and> 0 < pd_IssueNum d) \<or>
     (pd_Status d = DependencyStatusUnsupportedCrossRepo \<and> pd_Repo d \<noteq> repo \<and> 0 < pd_IssueNum d)"

definition dep_named :: "ParsedDependency \<Rightarrow> bool" where
  "dep_named d \<longleftrightarrow> pd_Repo d \<noteq> [] \<and> 0 < pd_IssueNum d \<longrightarrow> pd_Normalized d = pd_Repo d @ ''#'' @ itoa (pd_IssueNum d)"

lemma normalizeDependency_ok: "dep_ok repo (normalizeDependency repo raw) \<and> dep_named (normalizeDependency repo raw)"
  by (auto simp: normalizeDependency_def Let_def dep_ok_def dep_named_def split: option.splits)

lemma dep_ok_line [simp]: "dep_ok repo (d\<lparr>pd_Line := l\<rparr>) = dep_ok repo d" "dep_named (d\<lparr>pd_Line := l\<rparr>) = dep_named d"
  by (simp_all add: dep_ok_def dep_named_def)

lemma collectDeps_ok:
  "(\<forall>d \<in> set (collectDeps repo lines seen deps). dep_ok repo d \<and> dep_named d \<and> pd_Normalized d \<notin> set seen - {[]}) \<and>
   distinct (filter (\<lambda>x. x \<noteq> []) (map pd_Normalized (collectDeps repo lines seen deps)))"
proof (induction deps arbitrary: lines seen)
  case (Cons dep deps)
  let ?p0 = "normalizeDependency repo dep"
  obtain p lines' where p: "(case map_of lines (pd_Raw ?p0) of
      Some (l # ls) \<Rightarrow> (?p0\<lparr>pd_Line := l\<rparr>, AList.update (pd_Raw ?p0) ls lines) | _ \<Rightarrow> (?p0, lines)) = (p, lines')"
    by (metis surj_pair)
  then have ok: "dep_ok repo p" "dep_named p"
    using normalizeDependency_ok [of repo dep] by (auto split: option.splits list.splits)
  from Cons [of lines' "pd_Normalized p # seen"] Cons [of lines' seen] p ok show ?case
    by (auto simp: Let_def)
qed simp

end
