(* ===== verification/SM_Types.thy ===== *)
theory SM_Types
  imports Workflow Declaration
begin

text \<open>
  The state of \<^verbatim>\<open>internal/statemachine\<close> and its surroundings. \<open>sm\<close> is the
  \<^verbatim>\<open>StateMachine\<close> struct together with what its handlers write to: the database, the
  requests sent on the dispatch channel (in order), the event log and the alert bus. The
  handlers are programs of the state monad over \<open>sm\<close>. The mutexes of the source make each
  handler's accesses to its maps atomic; a handler is modelled as running without
  interference by another.

  \<^item> \<open>inflight\<close>, \<open>completionTimes\<close>, \<open>claimTokens\<close> are Go maps keyed by
    \<^verbatim>\<open>repo#issue\<close>, as association lists; \<open>claimWarned\<close> and \<open>processedEvents\<close> are
    sets.
  \<^item> \<open>sends_left\<close> says when the request context is cancelled: after that many further sends
    on the dispatch channel; \<open>None\<close> is never. A \<open>ctx\<close> is the context a handler runs in: the
    background context is never cancelled, and \<open>ctx_trace\<close> is the trace id of its span.
  \<^item> \<open>alerts\<close>, \<open>capReports\<close> and \<open>synthReports\<close> are \<open>None\<close> when the optional collaborator is
    not installed; otherwise they collect what it was sent.
  \<^item> \<open>uuids\<close> is the stream of the UUID library and \<open>uuid_pos\<close> the position in it;
    \<open>span_trace t\<close> is the trace id of a span that the tracing library starts under trace \<open>t\<close>
    (empty when there is none); \<open>yaml\<close> is the YAML library.
\<close>

section \<open>Events and alerts\<close>

datatype pval =
    PStr string
  | PInt int
  | PBool bool
  | PStrs "string list"
  | PInts "int list"
  | PJoin JoinConfig
  | PTime time
  | PMaps "(string \<times> pval) list list"

record Event =
  ev_Type :: string
  ev_Repo :: string
  ev_IssueNum :: int
  ev_Payload :: "(string \<times> pval) list"

record AlertEvent =
  al_Kind :: string
  al_Severity :: string
  al_Repo :: string
  al_IssueNum :: int
  al_AgentName :: string
  al_Timestamp :: int
  al_Payload :: "(string \<times> pval) list"

definition TypeTransition :: string where "TypeTransition = ''transition''"
definition TypeDispatch :: string where "TypeDispatch = ''dispatch''"
definition TypeCompleted :: string where "TypeCompleted = ''completed''"
definition TypeError :: string where "TypeError = ''error''"
definition TypeStateEntry :: string where "TypeStateEntry = ''state_entry''"
definition TypeErrorMultiWorkflow :: string where "TypeErrorMultiWorkflow = ''error_multi_workflow''"
definition TypeCycleLimitReached :: string where "TypeCycleLimitReached = ''cycle_limit_reached''"
definition TypeTransitionToFailed :: string where "TypeTransitionToFailed = ''transition_to_failed''"
definition TypeStuckDetected :: string where "TypeStuckDetected = ''stuck_detected''"
definition TypeDispatchSkippedInflight :: string where "TypeDispatchSkippedInflight = ''dispatch_skipped_inflight''"
definition TypeDispatchBlockedByDependency :: string where
  "TypeDispatchBlockedByDependency = ''dispatch_blocked_by_dependency''"
definition TypeDispatchBlockedByFailureCap :: string where
  "TypeDispatchBlockedByFailureCap = ''dispatch_blocked_by_failure_cap''"
definition TypeDispatchBlockedByDone :: string where "TypeDispatchBlockedByDone = ''dispatch_blocked_by_done''"
definition TypeDispatchSkippedClaim :: string where "TypeDispatchSkippedClaim = ''dispatch_skipped_claim''"
definition TypeIssueClaimExpired :: string where "TypeIssueClaimExpired = ''issue_claim_expired''"
definition TypeDevReviewCycleCount :: string where "TypeDevReviewCycleCount = ''dev_review_cycle_count''"
definition TypeDevReviewCycleApproaching :: string where
  "TypeDevReviewCycleApproaching = ''dev_review_cycle_approaching''"
definition TypeDevReviewCycleCapReached :: string where
  "TypeDevReviewCycleCapReached = ''dev_review_cycle_cap_reached''"
definition TypeDevReviewCycleCountReset :: string where
  "TypeDevReviewCycleCountReset = ''dev_review_cycle_count_reset''"
definition TypeTotalTransitionCapReached :: string where
  "TypeTotalTransitionCapReached = ''total_transition_cap_reached''"
definition TypeRolloutGroupStarted :: string where "TypeRolloutGroupStarted = ''rollout_group_started''"
definition TypeRolloutGroupResolved :: string where "TypeRolloutGroupResolved = ''rollout_group_resolved''"
definition TypeRolloutDispatched :: string where "TypeRolloutDispatched = ''rollout_dispatched''"
definition TypeRolloutCompleted :: string where "TypeRolloutCompleted = ''rollout_completed''"
definition TypeSynthesisDecision :: string where "TypeSynthesisDecision = ''synthesis_decision''"
definition TypeIssueNoWorkflowMatch :: string where "TypeIssueNoWorkflowMatch = ''issue_no_workflow_match''"
definition TypeIssueDependencyUnentered :: string where
  "TypeIssueDependencyUnentered = ''issue_dependency_unentered''"
definition TypeTransitionSkipped :: string where "TypeTransitionSkipped = ''transition_skipped''"
definition TypeIssueResynced :: string where "TypeIssueResynced = ''issue_resynced''"

definition SeverityInfo :: string where "SeverityInfo = ''info''"
definition SeverityWarn :: string where "SeverityWarn = ''warning''"
definition SeverityError :: string where "SeverityError = ''error''"
definition KindCycleLimitReached :: string where "KindCycleLimitReached = ''cycle_limit_reached''"
definition KindTransitionToFailed :: string where "KindTransitionToFailed = ''transition_to_failed''"
definition KindStuckDetected :: string where "KindStuckDetected = ''stuck_detected''"
definition KindDispatchBlocked :: string where "KindDispatchBlocked = ''dispatch_blocked''"
definition KindDevReviewCycleApproaching :: string where
  "KindDevReviewCycleApproaching = ''dev_review_cycle_approaching''"
definition KindDevReviewCycleCapReached :: string where
  "KindDevReviewCycleCapReached = ''dev_review_cycle_cap_reached''"

text \<open>Poller event types.\<close>

definition EventIssueCreated :: string where "EventIssueCreated = ''issue_created''"
definition EventLabelAdded :: string where "EventLabelAdded = ''label_added''"
definition EventIssueResynced :: string where "EventIssueResynced = ''issue_resynced''"
definition EventPollCycleDone :: string where "EventPollCycleDone = ''poll_cycle_done''"

lemmas poller_event_defs = EventIssueCreated_def EventLabelAdded_def EventIssueResynced_def EventPollCycleDone_def

section \<open>Requests and groups\<close>

record ChangeEvent =
  ce_Type :: string
  ce_Repo :: string
  ce_IssueNum :: int
  ce_Labels :: "string list"
  ce_Detail :: string
  ce_Author :: string

record DispatchRequest =
  r_Repo :: string
  r_IssueNum :: int
  r_AgentName :: string
  r_Workflow :: string
  r_State :: string
  r_SourceState :: string
  r_RolloutIndex :: int
  r_RolloutsTotal :: int
  r_RolloutGroupID :: string
  r_RootTraceID :: string

record dispatchGroup =
  g_workflow :: string
  g_state :: string
  g_mode :: string
  g_join :: JoinConfig
  g_slots :: "(string \<times> string) list"
  g_dispatchedSlots :: "string list"
  g_completedTaskIDs :: "string list"
  g_completedSlots :: "string list"
  g_successSlots :: "string list"
  g_failedSlots :: "string list"

definition newDispatchGroup ::
  "string \<Rightarrow> string \<Rightarrow> string \<Rightarrow> JoinConfig \<Rightarrow> (string \<times> string) list \<Rightarrow> dispatchGroup" where
  "newDispatchGroup w state mode join slots =
     \<lparr>g_workflow = w, g_state = state, g_mode = mode, g_join = join, g_slots = slots,
      g_dispatchedSlots = [], g_completedTaskIDs = [], g_completedSlots = [], g_successSlots = [],
      g_failedSlots = []\<rparr>"

record InflightGroupSnapshot =
  sn_Workflow :: string
  sn_State :: string
  sn_Join :: string
  sn_Agents :: "string list"
  sn_Slots :: "(string \<times> string) list"

definition snapshotDispatchGroup :: "dispatchGroup \<Rightarrow> InflightGroupSnapshot" where
  "snapshotDispatchGroup g =
     \<lparr>sn_Workflow = g_workflow g, sn_State = g_state g, sn_Join = Strategy (g_join g),
      sn_Agents = sort (fold (\<lambda>(_, a). set_add a) (g_slots g) []), sn_Slots = g_slots g\<rparr>"

record completionRecord =
  cr_at :: time
  cr_labels :: "string list"

record CycleCapInfo =
  cc_WorkflowName :: string
  cc_CycleCount :: int
  cc_MaxReviewCycles :: int
  cc_HitAt :: time

record SynthesisDecision =
  sy_Outcome :: string
  sy_ChosenPR :: int
  sy_SynthPR :: int
  sy_RejectedPRs :: "int list"
  sy_Reason :: string

record sm =
  workflows :: "(string \<times> WorkflowConfig) list"
  db :: store
  dispatched :: "DispatchRequest list"
  sends_left :: "nat option"
  events :: "Event list"
  alerts :: "AlertEvent list option"
  processedEvents :: "string list"
  inflight :: "(string \<times> dispatchGroup) list"
  stuckTimeout :: duration
  completionTimes :: "(string \<times> completionRecord) list"
  capReports :: "(string \<times> int \<times> CycleCapInfo) list option"
  synthReports :: "(string \<times> int \<times> string) list option"
  issueClaimerID :: string
  issueClaimLease :: duration
  claimTokens :: "(string \<times> string) list"
  claimWarned :: "string list"
  uuids :: "nat \<Rightarrow> string"
  uuid_pos :: nat
  span_trace :: "string \<Rightarrow> string"
  yaml :: yaml_lib

record ctx =
  ctx_background :: bool
  ctx_trace :: string

datatype sm_error =
    SMStore store_error
  | MatchesManyWorkflows nat
  | ConflictingRollouts string
  | InvalidRollout string
  | ContextDone

type_synonym 'a sm_result = "sm_error + 'a"
type_synonym 'a prog = "(sm, 'a) state"

section \<open>Constants\<close>

definition StuckTimeout :: duration where "StuckTimeout = 5 * minute"
definition MaxConsecutiveAgentFailures :: nat where "MaxConsecutiveAgentFailures = 3"
definition DoneLabel :: string where "DoneLabel = ''status:done''"
definition DefaultIssueClaimLease :: duration where "DefaultIssueClaimLease = 30 * minute"
definition DefaultMaxReviewCycles :: int where "DefaultMaxReviewCycles = 3"
definition DefaultMaxSynthCycles :: int where "DefaultMaxSynthCycles = 2"
definition MaxTotalTransitions :: int where "MaxTotalTransitions = 15"
definition stateNameDeveloping :: string where "stateNameDeveloping = ''developing''"
definition stateNameReviewing :: string where "stateNameReviewing = ''reviewing''"
definition stateNameBlocked :: string where "stateNameBlocked = ''blocked''"
definition stateNameSynthesizing :: string where "stateNameSynthesizing = ''synthesizing''"
definition inflightTaskStatusGone :: string where "inflightTaskStatusGone = ''gone''"
definition inflightLeaseExpiryMultiplier :: int where "inflightLeaseExpiryMultiplier = 5"
definition defaultTaskLease :: duration where "defaultTaskLease = 30 * second"
definition defaultJoinConfig :: JoinConfig where
  "defaultJoinConfig = \<lparr>Strategy = JoinAllPassed, MinSuccesses = 0\<rparr>"

section \<open>Primitives\<close>

definition background :: ctx where "background = \<lparr>ctx_background = True, ctx_trace = []\<rparr>"

definition NewStateMachine ::
  "(string \<times> WorkflowConfig) list \<Rightarrow> store \<Rightarrow> AlertEvent list option \<Rightarrow> (nat \<Rightarrow> string) \<Rightarrow>
   (string \<Rightarrow> string) \<Rightarrow> yaml_lib \<Rightarrow> sm" where
  "NewStateMachine ws st bus us tr y =
     \<lparr>workflows = ws, db = st, dispatched = [], sends_left = None, events = [], alerts = bus,
      processedEvents = [], inflight = [], stuckTimeout = StuckTimeout, completionTimes = [],
      capReports = None, synthReports = None, issueClaimerID = [], issueClaimLease = 0,
      claimTokens = [], claimWarned = [], uuids = us, uuid_pos = 0, span_trace = tr, yaml = y\<rparr>"

definition SetIssueClaim :: "string \<Rightarrow> duration \<Rightarrow> sm \<Rightarrow> sm" where
  "SetIssueClaim claimer lease s =
     s\<lparr>issueClaimerID := trim_space claimer,
       issueClaimLease := (if lease \<le> 0 then DefaultIssueClaimLease else lease)\<rparr>"

definition SetCycleCapReporter :: "(string \<times> int \<times> CycleCapInfo) list option \<Rightarrow> sm \<Rightarrow> sm" where
  "SetCycleCapReporter r s = s\<lparr>capReports := r\<rparr>"

definition SetSynthesisNeedsHumanReporter :: "(string \<times> int \<times> string) list option \<Rightarrow> sm \<Rightarrow> sm" where
  "SetSynthesisNeedsHumanReporter r s = s\<lparr>synthReports := r\<rparr>"

definition SetStuckTimeout :: "duration \<Rightarrow> sm \<Rightarrow> sm" where
  "SetStuckTimeout d s = s\<lparr>stuckTimeout := d\<rparr>"

definition ResetDedup :: "sm \<Rightarrow> sm" where
  "ResetDedup s = s\<lparr>processedEvents := [], claimWarned := []\<rparr>"

text \<open>\<open>query f\<close> reads the database, \<open>exec f\<close> runs a store method on it.\<close>

definition query :: "(store \<Rightarrow> 'a) \<Rightarrow> 'a prog" where
  "query f = State (\<lambda>s. (f (db s), s))"

definition exec :: "(store \<Rightarrow> store \<times> 'a) \<Rightarrow> 'a prog" where
  "exec f = State (\<lambda>s. case f (db s) of (d, r) \<Rightarrow> (r, s\<lparr>db := d\<rparr>))"

definition log_event :: "string \<Rightarrow> string \<Rightarrow> int \<Rightarrow> (string \<times> pval) list \<Rightarrow> unit prog" where
  "log_event ty repo n p = State_Monad.update (\<lambda>s. s\<lparr>events := events s @
     [\<lparr>ev_Type = ty, ev_Repo = repo, ev_IssueNum = n, ev_Payload = p\<rparr>]\<rparr>)"

definition publishAlert :: "string \<Rightarrow> string \<Rightarrow> string \<Rightarrow> int \<Rightarrow> string \<Rightarrow> (string \<times> pval) list \<Rightarrow> unit prog" where
  "publishAlert kind severity repo n agent p = State_Monad.update (\<lambda>s. s\<lparr>alerts := map_option (\<lambda>as. as @
     [\<lparr>al_Kind = kind, al_Severity = severity, al_Repo = repo, al_IssueNum = n, al_AgentName = agent,
       al_Timestamp = clock (db s) div second, al_Payload = p\<rparr>]) (alerts s)\<rparr>)"

definition report_cap :: "string \<Rightarrow> int \<Rightarrow> string \<Rightarrow> int \<Rightarrow> int \<Rightarrow> unit prog" where
  "report_cap repo n w count cap = State_Monad.update (\<lambda>s. s\<lparr>capReports := map_option (\<lambda>rs. rs @
     [(repo, n, \<lparr>cc_WorkflowName = w, cc_CycleCount = count, cc_MaxReviewCycles = cap, cc_HitAt = clock (db s)\<rparr>)])
     (capReports s)\<rparr>)"

definition issueKey :: "string \<Rightarrow> int \<Rightarrow> string" where
  "issueKey repo n = repo @ ''#'' @ itoa n"

definition parseIssueKey :: "string \<Rightarrow> (string \<times> int) option" where
  "parseIssueKey raw =
     (case split_last_hash raw of
        None \<Rightarrow> None
      | Some (repo, ds) \<Rightarrow>
          if repo = [] \<or> ds = [] then None
          else (case atoi ds of None \<Rightarrow> None | Some n \<Rightarrow> if n \<le> 0 then None else Some (repo, n)))"

lemma issueKey_inj: "issueKey r m = issueKey r' n \<longleftrightarrow> r = r' \<and> m = n"
  using hash_key_inj [of "itoa m" "itoa n" r r'] itoa_no_hash itoa_inj
  by (auto simp: issueKey_def)

lemma parseIssueKey_issueKey:
  "r \<noteq> [] \<Longrightarrow> 0 < n \<Longrightarrow> n \<le> max_int64 \<Longrightarrow> parseIssueKey (issueKey r n) = Some (r, n)"
  using split_last_hash_append [of "itoa n" r] itoa_no_hash [of n] atoi_itoa [of n]
  by (auto simp: parseIssueKey_def issueKey_def min_int64_def)

lemma run_update [simp]: "run_state (State_Monad.update f) s = ((), f s)"
  by (simp add: State_Monad.update_def)

lemma run_primitives [simp]:
  "run_state (query f) s = (f (db s), s)"
  "run_state (exec g) s = (snd (g (db s)), s\<lparr>db := fst (g (db s))\<rparr>)"
  by (simp_all add: query_def exec_def split: prod.splits)

end
