(* ===== verification/Task_Store.thy ===== *)
theory Task_Store
  imports Store_Types
begin

text \<open>
  The task queue of \<^verbatim>\<open>internal/store\<close>: creation of tasks, the claim / acknowledge /
  heartbeat / complete protocol between the coordinator and its workers, the operator's and
  the reaper's ways of settling a task, and the queries the state machine asks. Every
  operation returns the store after it and its result; \<open>Inl\<close> is Go's non-nil error.

  What these operations guarantee is proved in \<open>Task_Protocol\<close>.
\<close>

section \<open>Operations\<close>

definition taskLeaseOffset :: "duration \<Rightarrow> int" where
  "taskLeaseOffset lease =
     (let seconds = whole_seconds lease in if seconds \<le> 0 then 1 else seconds)"

text \<open>\<^verbatim>\<open>datetime('now', '+N seconds')\<close>.\<close>

definition lease_until :: "store \<Rightarrow> duration \<Rightarrow> time" where
  "lease_until s lease = db_now s + taskLeaseOffset lease * second"

definition default_lease :: "duration \<Rightarrow> duration" where
  "default_lease lease = (if lease \<le> 0 then 30 * second else lease)"

definition scanTaskRecord :: "TaskRecord \<Rightarrow> TaskRecord" where
  "scanTaskRecord r = (if t_RolloutsTotal r = 0 then r\<lparr>t_RolloutsTotal := 1\<rparr> else r)"

definition InsertTask :: "TaskRecord \<Rightarrow> store \<Rightarrow> store \<times> unit result" where
  "InsertTask t s =
     (let t1 = t\<lparr>t_Status := if t_Status t = [] then TaskStatusPending else t_Status t,
                 t_SessionRefs := if t_SessionRefs t = [] then ''[]'' else t_SessionRefs t,
                 t_RolloutsTotal := if t_RolloutsTotal t \<le> 0 then 1 else t_RolloutsTotal t\<rparr>;
          row = t1\<lparr>t_WorkerID := Some (go_str (t_WorkerID t)), t_ClaimToken := Some (go_str (t_ClaimToken t)),
                   t_LeaseExpiresAt := None, t_AckedAt := None, t_HeartbeatAt := None,
                   t_CompletedAt := None, t_SupervisorAgentID := None,
                   t_CreatedAt := db_now s, t_UpdatedAt := db_now s\<rparr>
      in if faults s OpInsertTask then (s, Inl (DBError OpInsertTask))
         else if \<exists>r \<in> set (task_queue s). t_ID r = t_ID t then (s, Inl UniqueViolation)
         else (s\<lparr>task_queue := task_queue s @ [row]\<rparr>, Inr ()))"

definition QueryTasksFiltered :: "string \<Rightarrow> string \<Rightarrow> store \<Rightarrow> TaskRecord list result" where
  "QueryTasksFiltered repo status s =
     (if faults s OpQueryTasks then Inl (DBError OpQueryTasks)
      else Inr (map scanTaskRecord (sort_key t_CreatedAt
        (filter (\<lambda>r. (repo \<noteq> [] \<longrightarrow> t_Repo r = repo) \<and>
                     (if status \<noteq> [] then t_Status r = status
                      else t_Status r \<noteq> TaskStatusCompleted)) (task_queue s)))))"

definition task_by_id :: "string \<Rightarrow> store \<Rightarrow> TaskRecord option" where
  "task_by_id i s = find (\<lambda>r. t_ID r = i) (task_queue s)"

definition GetTask :: "string \<Rightarrow> store \<Rightarrow> TaskRecord result" where
  "GetTask i s =
     (if faults s OpGetTask then Inl (DBError OpGetTask)
      else case task_by_id i s of None \<Rightarrow> Inl ErrTaskNotFound | Some r \<Rightarrow> Inr (scanTaskRecord r))"

definition ListIssueTasks :: "string \<Rightarrow> int \<Rightarrow> store \<Rightarrow> TaskRecord list result" where
  "ListIssueTasks repo n s =
     (if faults s OpListIssueTasks then Inl (DBError OpListIssueTasks)
      else Inr (map scanTaskRecord (sort_key (\<lambda>r. (t_CreatedAt r, t_ID r))
        (filter (\<lambda>r. t_Repo r = repo \<and> t_IssueNum r = n) (task_queue s)))))"

definition UpdateTaskSupervisorAgentID :: "string \<Rightarrow> string \<Rightarrow> store \<Rightarrow> store \<times> unit result" where
  "UpdateTaskSupervisorAgentID i agent s =
     (let P = (\<lambda>r. t_ID r = i)
      in if faults s OpUpdateTaskSupervisor then (s, Inl (DBError OpUpdateTaskSupervisor))
         else if count_rows P (task_queue s) = 0 then (s, Inl (TaskMissing i))
         else (s\<lparr>task_queue := upd_rows P
                  (\<lambda>r. r\<lparr>t_SupervisorAgentID := Some agent, t_UpdatedAt := db_now s\<rparr>) (task_queue s)\<rparr>, Inr ()))"

definition UpdateTaskStatus :: "string \<Rightarrow> string \<Rightarrow> store \<Rightarrow> store \<times> unit result" where
  "UpdateTaskStatus i status s =
     (let P = (\<lambda>r. t_ID r = i)
      in if faults s OpUpdateTaskStatus then (s, Inl (DBError OpUpdateTaskStatus))
         else if count_rows P (task_queue s) = 0 then (s, Inl (TaskMissing i))
         else (s\<lparr>task_queue := upd_rows P
                  (\<lambda>r. r\<lparr>t_Status := status, t_UpdatedAt := db_now s\<rparr>) (task_queue s)\<rparr>, Inr ()))"

text \<open>What \<^verbatim>\<open>TransitionTaskStatusIfRunning\<close> and \<^verbatim>\<open>FinalizeTaskForOperator\<close>
  answer when their guarded \<^verbatim>\<open>UPDATE\<close> matched no row.\<close>

definition inspect_existing :: "string \<Rightarrow> store \<Rightarrow> store_error" where
  "inspect_existing i s =
     (case task_by_id i s of
        None \<Rightarrow> TaskMissing i
      | Some r \<Rightarrow> if terminal_status (t_Status r) then ErrTaskStatusTerminal
                  else UnexpectedStatus i (t_Status r))"

definition TransitionTaskStatusIfRunning :: "string \<Rightarrow> string \<Rightarrow> store \<Rightarrow> store \<times> unit result" where
  "TransitionTaskStatusIfRunning i status s =
     (let P = (\<lambda>r. t_ID r = i \<and> active_status (t_Status r))
      in if faults s OpTransitionTask then (s, Inl (DBError OpTransitionTask))
         else if count_rows P (task_queue s) = 0 then (s, Inl (inspect_existing i s))
         else (s\<lparr>task_queue := upd_rows P
                  (\<lambda>r. r\<lparr>t_Status := status, t_UpdatedAt := db_now s\<rparr>) (task_queue s)\<rparr>, Inr ()))"

definition FinalizeTaskForOperator :: "string \<Rightarrow> string \<Rightarrow> int \<Rightarrow> store \<Rightarrow> store \<times> unit result" where
  "FinalizeTaskForOperator i status exit s =
     (let P = (\<lambda>r. t_ID r = i \<and> active_status (t_Status r))
      in if \<not> terminal_status status then (s, Inl (UnsupportedStatus status))
         else if faults s OpFinalizeTask then (s, Inl (DBError OpFinalizeTask))
         else if count_rows P (task_queue s) = 0 then (s, Inl (inspect_existing i s))
         else (s\<lparr>task_queue := upd_rows P
                  (\<lambda>r. r\<lparr>t_Status := status, t_ExitCode := exit, t_CompletedAt := Some (db_now s),
                         t_HeartbeatAt := Some (db_now s), t_LeaseExpiresAt := None,
                         t_UpdatedAt := db_now s\<rparr>) (task_queue s)\<rparr>, Inr ()))"

definition ClaimTask :: "string \<Rightarrow> string \<Rightarrow> store \<Rightarrow> store \<times> bool result" where
  "ClaimTask i worker s =
     (let P = (\<lambda>r. t_ID r = i \<and> t_Status r = TaskStatusPending)
      in if faults s OpClaimTask then (s, Inl (DBError OpClaimTask))
         else (s\<lparr>task_queue := upd_rows P
                  (\<lambda>r. r\<lparr>t_WorkerID := Some worker, t_Status := TaskStatusRunning,
                         t_UpdatedAt := db_now s\<rparr>) (task_queue s)\<rparr>,
               Inr (count_rows P (task_queue s) > 0)))"

definition ReleaseTask :: "string \<Rightarrow> string \<Rightarrow> store \<Rightarrow> store \<times> bool result" where
  "ReleaseTask i worker s =
     (let P = (\<lambda>r. t_ID r = i \<and> t_WorkerID r = Some worker \<and> t_Status r = TaskStatusRunning)
      in if faults s OpReleaseTask then (s, Inl (DBError OpReleaseTask))
         else (s\<lparr>task_queue := upd_rows P
                  (\<lambda>r. r\<lparr>t_WorkerID := None, t_Status := TaskStatusPending,
                         t_UpdatedAt := db_now s\<rparr>) (task_queue s)\<rparr>,
               Inr (count_rows P (task_queue s) > 0)))"

text \<open>SQL \<^verbatim>\<open>TRIM\<close> strips blanks only.\<close>

definition sql_trim :: "string \<Rightarrow> string" where
  "sql_trim x = rev (dropWhile (\<lambda>c. c = CHR '' '') (rev (dropWhile (\<lambda>c. c = CHR '' '') x)))"

definition lease_free :: "store \<Rightarrow> TaskRecord \<Rightarrow> bool" where
  "lease_free s r = (case t_LeaseExpiresAt r of None \<Rightarrow> True | Some l \<Rightarrow> l < db_now s)"

text \<open>The \<^verbatim>\<open>WHERE\<close> clause of the claim query. \<open>repos\<close> are trimmed and blank ones
  dropped before. In SQL, \<^verbatim>\<open>NOT (status = 'running' AND worker_id = ?)\<close> does not hold of
  a running row whose \<^verbatim>\<open>worker_id\<close> is \<^verbatim>\<open>NULL\<close>.\<close>

definition claimable :: "string \<Rightarrow> string list \<Rightarrow> string list \<Rightarrow> string \<Rightarrow> store \<Rightarrow> TaskRecord \<Rightarrow> bool" where
  "claimable worker roles repos runtime s r \<longleftrightarrow>
     active_status (t_Status r) \<and> lease_free s r \<and>
     (t_Status r = TaskStatusRunning \<longrightarrow> t_WorkerID r \<noteq> None \<and> t_WorkerID r \<noteq> Some worker) \<and>
     (roles \<noteq> [] \<longrightarrow> t_Role r \<in> set roles) \<and>
     (repos \<noteq> [] \<longrightarrow> t_Repo r \<in> set repos) \<and>
     (let rt = trim_space runtime
      in if rt = [] then sql_trim (t_Runtime r) = []
         else sql_trim (t_Runtime r) = [] \<or> t_Runtime r = rt)"

definition held_by_token :: "string \<Rightarrow> string \<Rightarrow> store \<Rightarrow> TaskRecord \<Rightarrow> bool" where
  "held_by_token worker tok s r \<longleftrightarrow>
     t_WorkerID r = Some worker \<and> t_ClaimToken r = Some tok \<and> t_Status r = TaskStatusRunning \<and>
     (case t_LeaseExpiresAt r of None \<Rightarrow> False | Some l \<Rightarrow> l \<ge> db_now s)"

definition claimNextTaskOnce ::
  "string \<Rightarrow> string list \<Rightarrow> string list \<Rightarrow> string \<Rightarrow> string \<Rightarrow> duration \<Rightarrow> store \<Rightarrow>
   store \<times> TaskRecord option result" where
  "claimNextTaskOnce worker roles repos runtime tok lease s =
     (let repos' = filter (\<lambda>r. r \<noteq> []) (map trim_space repos);
          held = (if tok = [] then None
                  else first_by (\<lambda>r. - t_UpdatedAt r) (filter (held_by_token worker tok s) (task_queue s)));
          next = first_by (\<lambda>r. (t_CreatedAt r, t_ID r))
                   (filter (claimable worker roles repos' runtime s) (task_queue s))
      in if busy s > 0 then (s\<lparr>busy := busy s - 1\<rparr>, Inl ErrBusy)
         else if faults s OpClaimNext then (s, Inl (DBError OpClaimNext))
         else case held of
           Some r \<Rightarrow> (s, Inr (Some (scanTaskRecord r)))
         | None \<Rightarrow>
             if repos' = [] \<and> repos \<noteq> [] then (s, Inr None)
             else (case next of
                None \<Rightarrow> (s, Inr None)
              | Some r \<Rightarrow>
                  (let P = (\<lambda>q. t_ID q = t_ID r \<and> active_status (t_Status q) \<and> lease_free s q)
                   in if count_rows P (task_queue s) = 0 then (s, Inl ErrTaskClaimConflict)
                      else (s\<lparr>task_queue := upd_rows P
                              (\<lambda>q. q\<lparr>t_WorkerID := Some worker, t_ClaimToken := Some tok,
                                     t_Status := TaskStatusRunning,
                                     t_LeaseExpiresAt := Some (lease_until s lease),
                                     t_HeartbeatAt := Some (db_now s), t_UpdatedAt := db_now s\<rparr>)
                              (task_queue s)\<rparr>,
                            Inr (Some ((scanTaskRecord r)\<lparr>t_WorkerID := Some worker, t_ClaimToken := Some tok,
                               t_Status := TaskStatusRunning, t_HeartbeatAt := Some (clock s),
                               t_LeaseExpiresAt := Some (clock s + lease)\<rparr>))))))"

definition ClaimNextTask ::
  "string \<Rightarrow> string list \<Rightarrow> string list \<Rightarrow> string \<Rightarrow> string \<Rightarrow> duration \<Rightarrow> store \<Rightarrow>
   store \<times> TaskRecord option result" where
  "ClaimNextTask worker roles repos runtime tok lease =
     retry_busy 5 (claimNextTaskOnce worker roles repos runtime tok (default_lease lease))"

definition ensureTaskOwnership :: "string \<Rightarrow> string \<Rightarrow> store \<Rightarrow> TaskRecord result" where
  "ensureTaskOwnership i worker s =
     (case task_by_id i s of
        None \<Rightarrow> Inl ErrTaskNotFound
      | Some r \<Rightarrow> if terminal_status (t_Status r) then Inl ErrTaskAlreadyCompleted
                  else if go_str (t_WorkerID r) \<noteq> worker then Inl ErrTaskNotClaimedByWorker
                  else Inr (scanTaskRecord r))"

definition AckTask :: "string \<Rightarrow> string \<Rightarrow> duration \<Rightarrow> store \<Rightarrow> store \<times> unit result" where
  "AckTask i worker lease s =
     (let P = (\<lambda>r. t_ID r = i \<and> t_WorkerID r = Some worker)
      in if faults s OpAck then (s, Inl (DBError OpAck))
         else case ensureTaskOwnership i worker s of
           Inl e \<Rightarrow> (s, Inl e)
         | Inr _ \<Rightarrow>
             if count_rows P (task_queue s) = 0 then (s, Inl ErrTaskNotClaimedByWorker)
             else (s\<lparr>task_queue := upd_rows P
                      (\<lambda>r. r\<lparr>t_AckedAt := (case t_AckedAt r of None \<Rightarrow> Some (db_now s) | Some a \<Rightarrow> Some a),
                             t_HeartbeatAt := Some (db_now s),
                             t_LeaseExpiresAt := Some (lease_until s (default_lease lease)),
                             t_UpdatedAt := db_now s\<rparr>) (task_queue s)\<rparr>, Inr ()))"

definition heartbeatTaskOnce :: "string \<Rightarrow> string \<Rightarrow> duration \<Rightarrow> store \<Rightarrow> store \<times> unit result" where
  "heartbeatTaskOnce i worker lease s =
     (let P = (\<lambda>r. t_ID r = i \<and> t_WorkerID r = Some worker \<and> t_Status r = TaskStatusRunning)
      in if busy s > 0 then (s\<lparr>busy := busy s - 1\<rparr>, Inl ErrBusy)
         else if faults s OpHeartbeat then (s, Inl (DBError OpHeartbeat))
         else case ensureTaskOwnership i worker s of
           Inl e \<Rightarrow> (s, Inl e)
         | Inr _ \<Rightarrow>
             if count_rows P (task_queue s) = 0 then (s, Inl (HeartbeatRefused i))
             else (s\<lparr>task_queue := upd_rows P
                      (\<lambda>r. r\<lparr>t_HeartbeatAt := Some (db_now s),
                             t_LeaseExpiresAt := Some (lease_until s lease),
                             t_UpdatedAt := db_now s\<rparr>) (task_queue s)\<rparr>, Inr ()))"

definition HeartbeatTask :: "string \<Rightarrow> string \<Rightarrow> duration \<Rightarrow> store \<Rightarrow> store \<times> unit result" where
  "HeartbeatTask i worker lease = retry_busy 3 (heartbeatTaskOnce i worker (default_lease lease))"

definition CompleteTask :: "string \<Rightarrow> string \<Rightarrow> int \<Rightarrow> string \<Rightarrow> store \<Rightarrow> store \<times> unit result" where
  "CompleteTask i worker exit refs s =
     (let P = (\<lambda>r. t_ID r = i \<and> t_WorkerID r = Some worker \<and>
                 t_Status r \<noteq> TaskStatusCompleted \<and> t_Status r \<noteq> TaskStatusFailed \<and>
                 (case t_LeaseExpiresAt r of None \<Rightarrow> False | Some l \<Rightarrow> l > db_now s))
      in if faults s OpComplete then (s, Inl (DBError OpComplete))
         else case ensureTaskOwnership i worker s of
           Inl e \<Rightarrow> (s, Inl e)
         | Inr _ \<Rightarrow>
             if count_rows P (task_queue s) = 0 then (s, Inl CompleteRefused)
             else (s\<lparr>task_queue := upd_rows P
                      (\<lambda>r. r\<lparr>t_Status := if exit = 0 then TaskStatusCompleted else TaskStatusFailed,
                             t_ExitCode := exit, t_SessionRefs := if refs = [] then ''[]'' else refs,
                             t_CompletedAt := Some (db_now s), t_HeartbeatAt := Some (db_now s),
                             t_LeaseExpiresAt := None, t_UpdatedAt := db_now s\<rparr>) (task_queue s)\<rparr>, Inr ()))"

definition FailPendingTasksForRepo :: "string \<Rightarrow> store \<Rightarrow> store \<times> unit result" where
  "FailPendingTasksForRepo repo s =
     (if faults s OpFailPending then (s, Inl (DBError OpFailPending))
      else (s\<lparr>task_queue := upd_rows (\<lambda>r. t_Repo r = repo \<and> active_status (t_Status r))
               (\<lambda>r. r\<lparr>t_Status := TaskStatusFailed, t_ExitCode := 1, t_CompletedAt := Some (db_now s),
                      t_UpdatedAt := db_now s\<rparr>) (task_queue s)\<rparr>, Inr ()))"

definition HasActiveTask :: "string \<Rightarrow> int \<Rightarrow> string \<Rightarrow> store \<Rightarrow> bool result" where
  "HasActiveTask repo n agent s =
     (if faults s OpHasActive then Inl (DBError OpHasActive)
      else Inr (count_rows (\<lambda>r. t_Repo r = repo \<and> t_IssueNum r = n \<and> t_AgentName r = agent \<and>
                              active_status (t_Status r)) (task_queue s) > 0))"

definition HasAnyActiveTask :: "string \<Rightarrow> int \<Rightarrow> store \<Rightarrow> bool result" where
  "HasAnyActiveTask repo n s =
     (if faults s OpHasActive then Inl (DBError OpHasActive)
      else Inr (count_rows (\<lambda>r. t_Repo r = repo \<and> t_IssueNum r = n \<and> active_status (t_Status r))
                 (task_queue s) > 0))"

text \<open>The loop of \<^verbatim>\<open>CountConsecutiveAgentFailures\<close> over the statuses, newest first.\<close>

fun count_until_completed :: "string list \<Rightarrow> nat" where
  "count_until_completed [] = 0"
| "count_until_completed (st # sts) =
     (if st = TaskStatusCompleted then 0 else Suc (count_until_completed sts))"

definition agent_outcomes :: "string \<Rightarrow> int \<Rightarrow> string \<Rightarrow> store \<Rightarrow> string list" where
  "agent_outcomes repo n agent s =
     map t_Status (filter (\<lambda>r. t_Repo r = repo \<and> t_IssueNum r = n \<and> t_AgentName r = agent \<and>
                              terminal_status (t_Status r)) (task_queue s))"

definition CountConsecutiveAgentFailures :: "string \<Rightarrow> int \<Rightarrow> string \<Rightarrow> store \<Rightarrow> nat result" where
  "CountConsecutiveAgentFailures repo n agent s =
     (if faults s OpCountFailures then Inl (DBError OpCountFailures)
      else Inr (count_until_completed (rev (agent_outcomes repo n agent s))))"

section \<open>The stale-task reaper\<close>

definition TaskReapedExitCode :: int where "TaskReapedExitCode = -2"

definition reap_stale :: "duration \<Rightarrow> store \<Rightarrow> TaskRecord \<Rightarrow> bool" where
  "reap_stale grace s r \<longleftrightarrow>
     t_Status r = TaskStatusRunning \<and>
     (let cutoff = db_now s - max 1 (whole_seconds grace) * second
      in case t_HeartbeatAt r of Some h \<Rightarrow> h < cutoff | None \<Rightarrow> t_CreatedAt r < cutoff)"

definition reapUpdate :: "string \<Rightarrow> store \<Rightarrow> store \<times> bool result" where
  "reapUpdate i s =
     (let P = (\<lambda>r. t_ID r = i \<and> t_Status r = TaskStatusRunning)
      in if busy s > 0 then (s\<lparr>busy := busy s - 1\<rparr>, Inl ErrBusy)
         else if faults s OpReapUpdate then (s, Inl (DBError OpReapUpdate))
         else (s\<lparr>task_queue := upd_rows P
                  (\<lambda>r. r\<lparr>t_Status := TaskStatusFailed, t_ExitCode := TaskReapedExitCode,
                         t_CompletedAt := Some (db_now s), t_LeaseExpiresAt := None,
                         t_WorkerID := None, t_ClaimToken := None, t_UpdatedAt := db_now s\<rparr>)
                  (task_queue s)\<rparr>,
               Inr (count_rows P (task_queue s) > 0)))"

text \<open>The retry loop around one update: \<open>lastErr\<close> is set by a failed attempt and, as in the
  source, not cleared by a later successful one.\<close>

fun reapAttempts :: "nat \<Rightarrow> store_error option \<Rightarrow> string \<Rightarrow> store \<Rightarrow> store \<times> store_error option \<times> bool" where
  "reapAttempts 0 lastErr i s = (s, lastErr, False)"
| "reapAttempts (Suc n) lastErr i s =
     (case reapUpdate i s of
        (s', Inr updated) \<Rightarrow> (s', lastErr, updated)
      | (s', Inl e) \<Rightarrow> if e = ErrBusy then reapAttempts n (Some e) i s' else (s', Some e, False))"

fun reapLoop :: "TaskRecord list \<Rightarrow> TaskRecord list \<Rightarrow> store \<Rightarrow> store \<times> TaskRecord list \<times> store_error option" where
  "reapLoop reaped [] s = (s, reaped, None)"
| "reapLoop reaped (t # ts) s =
     (case reapAttempts 4 None (t_ID t) s of
        (s', Some e, _) \<Rightarrow> (s', reaped, Some e)
      | (s', None, updated) \<Rightarrow> reapLoop (if updated then reaped @ [t] else reaped) ts s')"

definition ReapStaleRunningTasks :: "duration \<Rightarrow> store \<Rightarrow> store \<times> TaskRecord list \<times> store_error option" where
  "ReapStaleRunningTasks grace s =
     (if grace \<le> 0 then (s, [], Some GraceNotPositive)
      else if faults s OpReapQuery then (s, [], Some (DBError OpReapQuery))
      else reapLoop [] (map scanTaskRecord (filter (reap_stale grace s) (task_queue s))) s)"

section \<open>Rollout groups\<close>

record RolloutGroupSummary =
  rg_ID :: string
  rg_RolloutsTotal :: int
  rg_SuccessCount :: int
  rg_FailedCount :: int
  rg_TerminalCount :: int
  rg_PendingCount :: int
  rg_Tasks :: "TaskRecord list"

definition ListTasksByRolloutGroup :: "string \<Rightarrow> store \<Rightarrow> TaskRecord list result" where
  "ListTasksByRolloutGroup gid s =
     (let g = trim_space gid
      in if g = [] then Inr []
         else if faults s OpRolloutGroup then Inl (DBError OpRolloutGroup)
         else Inr (map scanTaskRecord (sort_key (\<lambda>r. (t_RolloutIndex r, t_CreatedAt r, t_ID r))
                (filter (\<lambda>r. t_RolloutGroupID r = g) (task_queue s)))))"

definition summarize_step :: "RolloutGroupSummary \<Rightarrow> TaskRecord \<Rightarrow> RolloutGroupSummary" where
  "summarize_step sm t =
     (let sm1 = (if t_Status t = TaskStatusCompleted
                 then sm\<lparr>rg_SuccessCount := rg_SuccessCount sm + 1, rg_TerminalCount := rg_TerminalCount sm + 1\<rparr>
                 else if t_Status t = TaskStatusFailed \<or> t_Status t = TaskStatusTimeout
                 then sm\<lparr>rg_FailedCount := rg_FailedCount sm + 1, rg_TerminalCount := rg_TerminalCount sm + 1\<rparr>
                 else sm\<lparr>rg_PendingCount := rg_PendingCount sm + 1\<rparr>)
      in if t_RolloutsTotal t > rg_RolloutsTotal sm1
         then sm1\<lparr>rg_RolloutsTotal := t_RolloutsTotal t\<rparr> else sm1)"

definition SummarizeRolloutGroup :: "string \<Rightarrow> store \<Rightarrow> RolloutGroupSummary option result" where
  "SummarizeRolloutGroup gid s =
     (case ListTasksByRolloutGroup gid s of
        Inl e \<Rightarrow> Inl e
      | Inr [] \<Rightarrow> Inr None
      | Inr (t # ts) \<Rightarrow>
         (let sm = foldl summarize_step
                \<lparr>rg_ID = gid, rg_RolloutsTotal = t_RolloutsTotal t, rg_SuccessCount = 0,
                 rg_FailedCount = 0, rg_TerminalCount = 0, rg_PendingCount = 0, rg_Tasks = t # ts\<rparr>
                (t # ts)
          in Inr (Some (if rg_RolloutsTotal sm \<le> 0
                        then sm\<lparr>rg_RolloutsTotal := int (length (t # ts))\<rparr> else sm))))"

text \<open>\<^verbatim>\<open>ORDER BY created_at DESC, rowid DESC LIMIT 1\<close>: the rows are in rowid order, so
  the reversed list is newest first among equal times.\<close>

definition LatestRolloutGroupSummaryForIssueState ::
  "string \<Rightarrow> int \<Rightarrow> string \<Rightarrow> string \<Rightarrow> store \<Rightarrow> RolloutGroupSummary option result" where
  "LatestRolloutGroupSummaryForIssueState repo n workflow state s =
     (if faults s OpRolloutGroup then Inl (DBError OpRolloutGroup)
      else case first_by (\<lambda>r. - t_CreatedAt r)
             (rev (filter (\<lambda>r. t_Repo r = repo \<and> t_IssueNum r = n \<and> t_Workflow r = workflow \<and>
                              t_State r = state \<and> t_RolloutGroupID r \<noteq> []) (task_queue s))) of
        None \<Rightarrow> Inr None
      | Some r \<Rightarrow> SummarizeRolloutGroup (t_RolloutGroupID r) s)"

end
