(* ===== verification/Task_Protocol.thy ===== *)
theory Task_Protocol
  imports Task_Store
begin

text \<open>
  What the task queue guarantees: task ids stay unique and no operation loses a task; a
  settled task keeps its outcome, unless a recovery that had read it as running before it settled
  still has to mark it with the unconditional \<^verbatim>\<open>UpdateTaskStatus\<close>; a claim never takes a task whose lease is live, gives the
  oldest eligible one, and makes the claimer its owner; only the owner within its lease
  completes a task; the failure counter, the rollout summary and the reaper do what their
  callers rely on.
\<close>

section \<open>Tasks are never lost and settled tasks keep their outcome\<close>

definition outcome :: "TaskRecord \<Rightarrow> string \<times> int \<times> time option \<times> string" where
  "outcome r = (t_Status r, t_ExitCode r, t_CompletedAt r, t_SessionRefs r)"

definition row_evolves :: "TaskRecord \<Rightarrow> TaskRecord \<Rightarrow> bool" where
  "row_evolves r r' \<longleftrightarrow> t_ID r' = t_ID r \<and> t_Repo r' = t_Repo r \<and> t_IssueNum r' = t_IssueNum r \<and>
     t_AgentName r' = t_AgentName r \<and> (terminal_status (t_Status r) \<longrightarrow> outcome r' = outcome r)"

definition rows_evolve :: "TaskRecord list \<Rightarrow> TaskRecord list \<Rightarrow> bool" where
  "rows_evolve rs rs' \<longleftrightarrow> length rs \<le> length rs' \<and> (\<forall>i < length rs. row_evolves (rs ! i) (rs' ! i))"

definition task_ids_distinct :: "store \<Rightarrow> bool" where
  "task_ids_distinct s \<longleftrightarrow> distinct (map t_ID (task_queue s))"

lemma row_evolves_refl [simp]: "row_evolves r r"
  by (simp add: row_evolves_def)

lemma row_evolves_trans: "row_evolves a b \<Longrightarrow> row_evolves b c \<Longrightarrow> row_evolves a c"
  by (auto simp: row_evolves_def outcome_def)

lemma rows_evolve_refl [simp]: "rows_evolve rs rs"
  by (simp add: rows_evolve_def)

lemma rows_evolve_trans: "rows_evolve a b \<Longrightarrow> rows_evolve b c \<Longrightarrow> rows_evolve a c"
  by (force simp: rows_evolve_def intro: row_evolves_trans)

lemma rows_evolve_append [simp]: "rows_evolve rs (rs @ qs)"
  by (simp add: rows_evolve_def nth_append)

lemma rows_evolve_settled:
  assumes "rows_evolve rs rs'" "r \<in> set rs" "terminal_status (t_Status r)"
  shows "\<exists>r' \<in> set rs'. t_ID r' = t_ID r \<and> outcome r' = outcome r"
proof -
  obtain i where i: "i < length rs" "r = rs ! i" using assms(2) by (auto simp: in_set_conv_nth)
  with assms(1) have "row_evolves r (rs' ! i)" "i < length rs'" by (auto simp: rows_evolve_def)
  with assms(3) show ?thesis by (auto simp: row_evolves_def intro!: bexI [of _ "rs' ! i"])
qed

text \<open>The contract every operation on the queue keeps: with unique ids before, ids are unique
  after and every row evolves.\<close>

definition task_safe :: "store \<Rightarrow> store \<Rightarrow> bool" where
  "task_safe s s' \<longleftrightarrow>
     (task_ids_distinct s \<longrightarrow> task_ids_distinct s' \<and> rows_evolve (task_queue s) (task_queue s'))"

lemma task_safe_refl [simp]: "task_safe s s"
  by (simp add: task_safe_def)

lemma task_safe_trans: "task_safe s t \<Longrightarrow> task_safe t u \<Longrightarrow> task_safe s u"
  by (auto simp: task_safe_def intro: rows_evolve_trans)

lemma task_safe_queue_eq: "task_queue s' = task_queue s \<Longrightarrow> task_safe s s'"
  by (simp add: task_safe_def task_ids_distinct_def)

lemma task_safe_busy [simp]: "task_safe s (s\<lparr>busy := b\<rparr>)"
  by (rule task_safe_queue_eq) simp

text \<open>A guarded update of rows that changes neither ids nor settled outcomes is such an
  operation; this covers most of the store.\<close>

lemma task_safe_upd:
  assumes "task_queue s' = upd_rows P f (task_queue s)"
    and "\<And>r. r \<in> set (task_queue s) \<Longrightarrow> task_ids_distinct s \<Longrightarrow> P r \<Longrightarrow> row_evolves r (f r)"
  shows "task_safe s s'"
proof -
  have "task_ids_distinct s \<Longrightarrow> map t_ID (task_queue s') = map t_ID (task_queue s)"
    using assms by (auto simp: upd_rows_def row_evolves_def)
  moreover have "task_ids_distinct s \<Longrightarrow> rows_evolve (task_queue s) (task_queue s')"
    using assms by (auto simp: rows_evolve_def upd_rows_def)
  ultimately show ?thesis by (simp add: task_safe_def task_ids_distinct_def)
qed

text \<open>With unique ids, the row a lookup finds is the only row with its id, so an update by id
  that follows a successful ownership check meets an unsettled row.\<close>

lemma task_by_id_Some:
  "task_by_id i s = Some r \<Longrightarrow> r \<in> set (task_queue s) \<and> t_ID r = i"
  by (auto simp: task_by_id_def find_Some_iff)

lemma task_by_id_unique:
  assumes "task_ids_distinct s" "r \<in> set (task_queue s)"
  shows "task_by_id (t_ID r) s = Some r"
proof -
  obtain q where q: "task_by_id (t_ID r) s = Some q"
    using assms(2) by (cases "task_by_id (t_ID r) s") (auto simp: task_by_id_def find_None_iff)
  with task_by_id_Some [OF q] assms show ?thesis
    by (auto simp: task_ids_distinct_def distinct_map inj_on_def)
qed

lemma ensureTaskOwnership_unsettled:
  assumes "ensureTaskOwnership i w s = Inr x" "task_ids_distinct s" "r \<in> set (task_queue s)" "t_ID r = i"
  shows "\<not> terminal_status (t_Status r)"
  using assms task_by_id_unique [OF assms(2,3)]
  by (auto simp: ensureTaskOwnership_def split: if_splits)

named_theorems task_safe \<open>operations that keep the queue contract\<close>

lemmas row_evolve_defs = row_evolves_def outcome_def

lemma InsertTask_safe [task_safe]: "task_safe s (fst (InsertTask t s))"
  by (auto simp: InsertTask_def Let_def task_safe_def task_ids_distinct_def)

lemma UpdateTaskSupervisorAgentID_safe [task_safe]:
  "task_safe s (fst (UpdateTaskSupervisorAgentID i a s))"
  by (auto simp: UpdateTaskSupervisorAgentID_def Let_def row_evolve_defs intro!: task_safe_upd)

lemma TransitionTaskStatusIfRunning_safe [task_safe]:
  "task_safe s (fst (TransitionTaskStatusIfRunning i st s))"
  by (auto simp: TransitionTaskStatusIfRunning_def Let_def row_evolve_defs
      dest: terminal_not_active intro!: task_safe_upd)

lemma FinalizeTaskForOperator_safe [task_safe]:
  "task_safe s (fst (FinalizeTaskForOperator i st e s))"
  by (auto simp: FinalizeTaskForOperator_def Let_def row_evolve_defs
      dest: terminal_not_active intro!: task_safe_upd)

lemma ClaimTask_safe [task_safe]: "task_safe s (fst (ClaimTask i w s))"
  by (auto simp: ClaimTask_def Let_def row_evolve_defs intro!: task_safe_upd)

lemma ReleaseTask_safe [task_safe]: "task_safe s (fst (ReleaseTask i w s))"
  by (auto simp: ReleaseTask_def Let_def row_evolve_defs intro!: task_safe_upd)

lemma FailPendingTasksForRepo_safe [task_safe]: "task_safe s (fst (FailPendingTasksForRepo repo s))"
  by (auto simp: FailPendingTasksForRepo_def row_evolve_defs dest: terminal_not_active
      intro!: task_safe_upd)

lemma claimNextTaskOnce_safe: "task_safe s (fst (claimNextTaskOnce w ro re rt tok l s))"
  by (auto simp: claimNextTaskOnce_def Let_def row_evolve_defs split: option.splits
      dest: terminal_not_active intro!: task_safe_upd)

lemma ClaimNextTask_safe [task_safe]: "task_safe s (fst (ClaimNextTask w ro re rt tok l s))"
  unfolding ClaimNextTask_def
  by (rule retry_busy_rel) (auto intro: task_safe_trans claimNextTaskOnce_safe)

lemma AckTask_safe [task_safe]: "task_safe s (fst (AckTask i w l s))"
  by (auto simp: AckTask_def Let_def row_evolve_defs split: sum.splits intro!: task_safe_upd)

lemma HeartbeatTask_safe [task_safe]: "task_safe s (fst (HeartbeatTask i w l s))"
proof -
  have "task_safe s (fst (heartbeatTaskOnce i w l s))" for l s
    by (auto simp: heartbeatTaskOnce_def Let_def row_evolve_defs split: sum.splits
        intro!: task_safe_upd)
  then show ?thesis
    unfolding HeartbeatTask_def by (rule retry_busy_rel [rotated 2]) (auto intro: task_safe_trans)
qed

lemma CompleteTask_safe [task_safe]: "task_safe s (fst (CompleteTask i w e refs s))"
  by (auto simp: CompleteTask_def Let_def row_evolve_defs split: sum.splits
      dest: ensureTaskOwnership_unsettled intro!: task_safe_upd)

lemma reapUpdate_safe: "task_safe s (fst (reapUpdate i s))"
  by (auto simp: reapUpdate_def Let_def row_evolve_defs intro!: task_safe_upd)

lemma reapAttempts_safe: "task_safe s (fst (reapAttempts n e i s))"
proof (induction n arbitrary: e s)
  case (Suc n)
  obtain s' r where step: "reapUpdate i s = (s', r)" by force
  then have "task_safe s s'" using reapUpdate_safe [of s i] by simp
  with step Suc show ?case by (cases r) (auto intro: task_safe_trans)
qed simp

lemma reapLoop_safe: "task_safe s (fst (reapLoop acc ts s))"
proof (induction ts arbitrary: acc s)
  case (Cons t ts)
  obtain s' e u where step: "reapAttempts 4 None (t_ID t) s = (s', e, u)" by (metis prod_cases3)
  then have "task_safe s s'" using reapAttempts_safe [of s 4 None "t_ID t"] by simp
  with step Cons show ?case by (cases e) (auto intro: task_safe_trans)
qed simp

lemma ReapStaleRunningTasks_safe [task_safe]: "task_safe s (fst (ReapStaleRunningTasks g s))"
  by (auto simp: ReapStaleRunningTasks_def reapLoop_safe)

text \<open>The recovery at the start of a coordinator (\<^verbatim>\<open>RecoverTasks\<close>) reads the running tasks and then marks each
  with \<^verbatim>\<open>UpdateTaskStatus\<close>, which has no guard. Between the two, other processes on the same database go on, so
  these are separate steps: beside the database, the state has the ids that recoveries have read and not yet marked.\<close>

type_synonym recovering_store = "store \<times> string list"

text \<open>One step of the queue: any operation that writes to it, or a change of the environment.\<close>

inductive task_step :: "recovering_store \<Rightarrow> recovering_store \<Rightarrow> bool" where
  st_insert: "task_step (s, p) (fst (InsertTask t s), p)"
| st_supervisor: "task_step (s, p) (fst (UpdateTaskSupervisorAgentID i a s), p)"
| st_transition: "task_step (s, p) (fst (TransitionTaskStatusIfRunning i st s), p)"
| st_finalize: "task_step (s, p) (fst (FinalizeTaskForOperator i st e s), p)"
| st_claim: "task_step (s, p) (fst (ClaimTask i w s), p)"
| st_release: "task_step (s, p) (fst (ReleaseTask i w s), p)"
| st_failrepo: "task_step (s, p) (fst (FailPendingTasksForRepo repo s), p)"
| st_next: "task_step (s, p) (fst (ClaimNextTask w ro re rt tok l s), p)"
| st_ack: "task_step (s, p) (fst (AckTask i w l s), p)"
| st_heartbeat: "task_step (s, p) (fst (HeartbeatTask i w l s), p)"
| st_complete: "task_step (s, p) (fst (CompleteTask i w e refs s), p)"
| st_reap: "task_step (s, p) (fst (ReapStaleRunningTasks g s), p)"
| st_recover_read: "QueryTasksFiltered [] TaskStatusRunning s = Inr ts \<Longrightarrow> task_step (s, p) (s, p @ map t_ID ts)"
| st_recover_mark: "i \<in> set p \<Longrightarrow> task_step (s, p) (fst (UpdateTaskStatus i TaskStatusFailed s), remove1 i p)"
| st_recover_stop: "set p' \<subseteq> set p \<Longrightarrow> task_step (s, p) (s, p')"
| st_env: "task_queue s' = task_queue s \<Longrightarrow> task_step (s, p) (s', p)"

text \<open>What holds of such a step: rows evolve but for those a recovery has read, and no recovery reads a settled task.\<close>

definition recovery_safe :: "recovering_store \<Rightarrow> recovering_store \<Rightarrow> bool" where
  "recovery_safe x y \<longleftrightarrow> (task_ids_distinct (fst x) \<longrightarrow> task_ids_distinct (fst y) \<and> length (task_queue (fst x)) \<le> length (task_queue (fst y)) \<and>
     (\<forall>i < length (task_queue (fst x)). let r = task_queue (fst x) ! i; r' = task_queue (fst y) ! i
        in t_ID r' = t_ID r \<and> (t_ID r \<notin> set (snd x) \<longrightarrow> row_evolves r r' \<and> (terminal_status (t_Status r) \<longrightarrow> t_ID r \<notin> set (snd y)))))"

lemma recovery_safeD:
  assumes "recovery_safe x y" "task_ids_distinct (fst x)" "i < length (task_queue (fst x))"
  shows "i < length (task_queue (fst y))"
    and "t_ID (task_queue (fst x) ! i) \<notin> set (snd x) \<Longrightarrow> row_evolves (task_queue (fst x) ! i) (task_queue (fst y) ! i)"
    and "t_ID (task_queue (fst x) ! i) \<notin> set (snd x) \<Longrightarrow> terminal_status (t_Status (task_queue (fst x) ! i)) \<Longrightarrow> t_ID (task_queue (fst x) ! i) \<notin> set (snd y)"
  using assms by (simp_all add: recovery_safe_def Let_def)

lemma task_safe_recovery: "task_safe s s' \<Longrightarrow> recovery_safe (s, p) (s', p)"
  by (auto simp: task_safe_def rows_evolve_def row_evolves_def recovery_safe_def Let_def)

lemma recover_mark_safe: "i \<in> set p \<Longrightarrow> recovery_safe (s, p) (fst (UpdateTaskStatus i TaskStatusFailed s), remove1 i p)"
  by (auto simp: UpdateTaskStatus_def Let_def recovery_safe_def task_ids_distinct_def upd_rows_def comp_def if_distrib [of t_ID] nth_map
      dest: notin_set_remove1 cong: if_cong)

lemma running_not_terminal: "\<not> terminal_status TaskStatusRunning"
  by (simp add: terminal_status_def task_status_defs)

lemma recover_read_safe:
  assumes "QueryTasksFiltered [] TaskStatusRunning s = Inr ts" shows "recovery_safe (s, p) (s, p @ map t_ID ts)"
proof -
  have "TaskStatusRunning \<noteq> []" "t_ID \<circ> scanTaskRecord = t_ID" by (auto simp: task_status_defs scanTaskRecord_def)
  then have ids: "set (map t_ID ts) \<subseteq> t_ID ` {r \<in> set (task_queue s). t_Status r = TaskStatusRunning}"
    using assms by (auto simp: QueryTasksFiltered_def comp_def fun_eq_iff split: if_splits)
  have "t_ID r \<notin> set (map t_ID ts)" if "task_ids_distinct s" "r \<in> set (task_queue s)" "terminal_status (t_Status r)" for r
  proof
    assume "t_ID r \<in> set (map t_ID ts)"
    then have "t_ID r \<in> t_ID ` {r \<in> set (task_queue s). t_Status r = TaskStatusRunning}" using ids by blast
    then obtain q where q: "q \<in> set (task_queue s)" "t_Status q = TaskStatusRunning" "t_ID r = t_ID q" by blast
    have "q = r" using task_by_id_unique [OF that(1) q(1)] task_by_id_unique [OF that(1,2)] q(3) by simp
    then show False using that(3) q(2) running_not_terminal by simp
  qed
  then show ?thesis by (auto simp: recovery_safe_def Let_def)
qed

lemma recover_stop_safe: "set p' \<subseteq> set p \<Longrightarrow> recovery_safe (s, p) (s, p')"
  by (auto simp: recovery_safe_def Let_def dest: subsetD)

text \<open>The interface the rest of the system relies on: steps that keep the contract.\<close>

locale task_queue_steps =
  fixes step :: "recovering_store \<Rightarrow> recovering_store \<Rightarrow> bool"
  assumes step_safe: "step x y \<Longrightarrow> recovery_safe x y"
begin

lemma ids_unique: "step\<^sup>*\<^sup>* x y \<Longrightarrow> task_ids_distinct (fst x) \<Longrightarrow> task_ids_distinct (fst y)"
  by (induction rule: rtranclp_induct) (use step_safe in \<open>auto simp: recovery_safe_def\<close>)

lemma settled_at:
  assumes "step\<^sup>*\<^sup>* x y" "task_ids_distinct (fst x)" "i < length (task_queue (fst x))" "terminal_status (t_Status (task_queue (fst x) ! i))" "t_ID (task_queue (fst x) ! i) \<notin> set (snd x)"
  shows "i < length (task_queue (fst y)) \<and> row_evolves (task_queue (fst x) ! i) (task_queue (fst y) ! i) \<and> t_ID (task_queue (fst x) ! i) \<notin> set (snd y)"
  using assms(1)
proof (induction rule: rtranclp_induct)
  case base
  then show ?case using assms by simp
next
  case (step y z)
  let ?q = "task_queue (fst x) ! i" and ?r = "task_queue (fst y) ! i"
  have ids: "task_ids_distinct (fst y)" using ids_unique [OF step.hyps(1) assms(2)] .
  have IH: "i < length (task_queue (fst y))" "row_evolves ?q ?r" "t_ID ?q \<notin> set (snd y)" using step.IH by blast+
  have r: "t_ID ?r = t_ID ?q" "terminal_status (t_Status ?r)" using IH(2) assms(4) by (simp_all add: row_evolves_def outcome_def)
  note D = recovery_safeD [OF step_safe [OF step.hyps(2)] ids IH(1), unfolded r(1)]
  show ?case using D(1) row_evolves_trans [OF IH(2) D(2) [OF IH(3)]] D(3) [OF IH(3) r(2)] by blast
qed

lemma settled_kept:
  assumes "step\<^sup>*\<^sup>* x y" "task_ids_distinct (fst x)" "r \<in> set (task_queue (fst x))" "terminal_status (t_Status r)" "t_ID r \<notin> set (snd x)"
  shows "\<exists>r'. task_by_id (t_ID r) (fst y) = Some r' \<and> outcome r' = outcome r"
proof -
  obtain i where i: "i < length (task_queue (fst x))" "r = task_queue (fst x) ! i" using assms(3) by (auto simp: in_set_conv_nth)
  let ?r = "task_queue (fst y) ! i"
  have s: "i < length (task_queue (fst y))" "row_evolves r ?r" using settled_at [OF assms(1,2) i(1)] assms(4,5) i(2) by simp_all
  have "task_by_id (t_ID ?r) (fst y) = Some ?r" using task_by_id_unique [OF ids_unique [OF assms(1,2)]] s(1) by simp
  then show ?thesis using s(2) assms(4) by (auto simp: row_evolves_def)
qed

end

interpretation tq: task_queue_steps task_step
  by unfold_locales (erule task_step.cases; simp add: task_safe_recovery task_safe task_safe_queue_eq recover_mark_safe recover_read_safe recover_stop_safe)

section \<open>Claiming\<close>

text \<open>Retries change nothing but the count of pending busy answers.\<close>

lemma claimNextTaskOnce_busy:
  "busy s > 0 \<Longrightarrow> claimNextTaskOnce w ro re rt tok l s = (s\<lparr>busy := busy s - 1\<rparr>, Inl ErrBusy)"
  by (simp add: claimNextTaskOnce_def Let_def)

lemma claimNextTaskOnce_not_busy: "busy s = 0 \<Longrightarrow> snd (claimNextTaskOnce w ro re rt tok l s) \<noteq> Inl ErrBusy"
  by (auto simp: claimNextTaskOnce_def Let_def split: option.splits)

lemma retry_claim:
  "busy s \<le> n \<Longrightarrow> retry_busy n (claimNextTaskOnce w ro re rt tok l) s =
     claimNextTaskOnce w ro re rt tok l (s\<lparr>busy := 0\<rparr>)"
proof (induction n arbitrary: s)
  case (Suc n)
  show ?case
  proof (cases "busy s")
    case 0
    then show ?thesis by (metis busy_zero_id claimNextTaskOnce_not_busy retry_busy_not_busy)
  next
    case (Suc b)
    with Suc.IH [of "s\<lparr>busy := b\<rparr>"] Suc.prems show ?thesis
      by (simp add: claimNextTaskOnce_busy)
  qed
qed simp

definition claimed_row :: "string \<Rightarrow> string \<Rightarrow> duration \<Rightarrow> store \<Rightarrow> TaskRecord \<Rightarrow> TaskRecord" where
  "claimed_row w tok lease s q =
     q\<lparr>t_WorkerID := Some w, t_ClaimToken := Some tok, t_Status := TaskStatusRunning,
       t_LeaseExpiresAt := Some (lease_until s lease), t_HeartbeatAt := Some (db_now s),
       t_UpdatedAt := db_now s\<rparr>"

lemma claim_held_or_fresh:
  assumes "claimNextTaskOnce w ro re rt tok l s = (s', Inr (Some r))" "task_ids_distinct s"
  defines "re' \<equiv> filter (\<lambda>x. x \<noteq> []) (map trim_space re)"
  shows "(s' = s \<and> tok \<noteq> [] \<and> (\<exists>q \<in> set (task_queue s). t_ID q = t_ID r \<and> held_by_token w tok s q)) \<or>
    (\<exists>q \<in> set (task_queue s). t_ID q = t_ID r \<and> claimable w ro re' rt s q \<and>
       (\<forall>p \<in> set (task_queue s). claimable w ro re' rt s p \<longrightarrow>
           (t_CreatedAt q, t_ID q) \<le> (t_CreatedAt p, t_ID p)) \<and>
       s' = s\<lparr>task_queue := upd_rows (\<lambda>p. p = q) (claimed_row w tok l s) (task_queue s)\<rparr>)"
proof -
  note D = assms(1) [unfolded claimNextTaskOnce_def Let_def, folded re'_def]
  let ?held = "if tok = [] then None
     else first_by (\<lambda>r. - t_UpdatedAt r) (filter (held_by_token w tok s) (task_queue s))"
  show ?thesis
  proof (cases ?held)
    case (Some q)
    then have "tok \<noteq> []" "q \<in> set (task_queue s)" "held_by_token w tok s q"
      by (auto dest: first_by_Some split: if_splits)
    moreover have "s' = s" "r = scanTaskRecord q" using D Some by (auto split: if_splits)
    ultimately show ?thesis by (auto simp: scanTaskRecord_def)
  next
    case None
    with D obtain q where q: "first_by (\<lambda>r. (t_CreatedAt r, t_ID r))
         (filter (claimable w ro re' rt s) (task_queue s)) = Some q"
      by (auto split: if_splits option.splits)
    let ?P = "\<lambda>p. t_ID p = t_ID q \<and> active_status (t_Status p) \<and> lease_free s p"
    from first_by_Some [OF q] have mem: "q \<in> set (task_queue s)" "claimable w ro re' rt s q"
      and least: "\<forall>p \<in> set (task_queue s). claimable w ro re' rt s p \<longrightarrow>
           (t_CreatedAt q, t_ID q) \<le> (t_CreatedAt p, t_ID p)" by auto
    have "?P p \<longleftrightarrow> p = q" if "p \<in> set (task_queue s)" for p
      using that mem assms(2) by (auto simp: claimable_def task_ids_distinct_def distinct_map inj_on_def)
    then have upd: "upd_rows ?P f (task_queue s) = upd_rows (\<lambda>p. p = q) f (task_queue s)" for f
      by (simp add: upd_rows_def)
    from D None q have "s' = s\<lparr>task_queue := upd_rows ?P (claimed_row w tok l s) (task_queue s)\<rparr>"
      "t_ID r = t_ID q"
      by (auto simp: scanTaskRecord_def claimed_row_def [abs_def] split: if_splits)
    with mem least show ?thesis unfolding upd by metis
  qed
qed

lemma lease_until_after: "db_now s + second \<le> lease_until s l"
  by (simp add: lease_until_def taskLeaseOffset_def Let_def second_def)

text \<open>A row under a live lease is not taken by the claim query, whoever asks.\<close>

lemma not_claimable_live: "t_LeaseExpiresAt r = Some l \<Longrightarrow> db_now s \<le> l \<Longrightarrow> \<not> claimable w ro re rt s r"
  by (simp add: claimable_def lease_free_def)

section \<open>Completion\<close>

definition completable :: "string \<Rightarrow> string \<Rightarrow> store \<Rightarrow> TaskRecord \<Rightarrow> bool" where
  "completable i w s r \<longleftrightarrow> t_ID r = i \<and> t_WorkerID r = Some w \<and> \<not> terminal_status (t_Status r) \<and>
     (case t_LeaseExpiresAt r of None \<Rightarrow> False | Some l \<Rightarrow> l > db_now s)"

definition completed_row :: "int \<Rightarrow> string \<Rightarrow> store \<Rightarrow> TaskRecord \<Rightarrow> TaskRecord" where
  "completed_row e refs s r =
     r\<lparr>t_Status := if e = 0 then TaskStatusCompleted else TaskStatusFailed, t_ExitCode := e,
       t_SessionRefs := if refs = [] then ''[]'' else refs, t_CompletedAt := Some (db_now s),
       t_HeartbeatAt := Some (db_now s), t_LeaseExpiresAt := None, t_UpdatedAt := db_now s\<rparr>"

lemma CompleteTask_eval:
  assumes "task_ids_distinct s" "\<not> faults s OpComplete" "r \<in> set (task_queue s)" "completable i w s r"
  shows "CompleteTask i w e refs s =
     (s\<lparr>task_queue := upd_rows (\<lambda>q. q = r) (completed_row e refs s) (task_queue s)\<rparr>, Inr ())"
proof -
  let ?P = "\<lambda>r. t_ID r = i \<and> t_WorkerID r = Some w \<and> t_Status r \<noteq> TaskStatusCompleted \<and>
     t_Status r \<noteq> TaskStatusFailed \<and> (case t_LeaseExpiresAt r of None \<Rightarrow> False | Some l \<Rightarrow> l > db_now s)"
  have own: "ensureTaskOwnership i w s = Inr (scanTaskRecord r)"
    using task_by_id_unique [OF assms(1,3)] assms(4)
    by (auto simp: ensureTaskOwnership_def completable_def go_str_def)
  have P: "?P q \<longleftrightarrow> q = r" if "q \<in> set (task_queue s)" for q
    using that assms(1,3,4)
    by (auto simp: completable_def task_ids_distinct_def distinct_map inj_on_def split: option.splits)
  then have "count_rows ?P (task_queue s) \<noteq> 0" using assms(3) by (simp add: count_rows_0)
  moreover have "upd_rows ?P f (task_queue s) = upd_rows (\<lambda>q. q = r) f (task_queue s)" for f
    using P by (simp add: upd_rows_def)
  ultimately show ?thesis
    using own assms(2) by (simp add: CompleteTask_def Let_def completed_row_def [abs_def])
qed

lemma CompleteTask_ok_iff:
  assumes "task_ids_distinct s" "\<not> faults s OpComplete"
  shows "snd (CompleteTask i w e refs s) = Inr () \<longleftrightarrow> (\<exists>r \<in> set (task_queue s). completable i w s r)"
proof
  assume "snd (CompleteTask i w e refs s) = Inr ()"
  then show "\<exists>r \<in> set (task_queue s). completable i w s r"
    using assms ensureTaskOwnership_unsettled [OF _ assms(1)]
    by (fastforce simp: CompleteTask_def Let_def completable_def count_rows_0 split: sum.splits if_splits)
qed (use CompleteTask_eval [OF assms] in auto)

section \<open>The failure counter\<close>

lemma count_until_completed_ge:
  "k \<le> count_until_completed sts \<longleftrightarrow>
   k \<le> length sts \<and> (\<forall>st \<in> set (take k sts). st \<noteq> TaskStatusCompleted)"
proof (induction sts arbitrary: k)
  case (Cons st sts)
  then show ?case by (cases k) auto
qed simp

section \<open>Rollout groups\<close>

lemma summarize_fold:
  "rg_SuccessCount (foldl summarize_step sm ts) =
     rg_SuccessCount sm + int (count_rows (\<lambda>t. t_Status t = TaskStatusCompleted) ts)"
  "rg_FailedCount (foldl summarize_step sm ts) =
     rg_FailedCount sm + int (count_rows (\<lambda>t. t_Status t = TaskStatusFailed \<or> t_Status t = TaskStatusTimeout) ts)"
  "rg_TerminalCount (foldl summarize_step sm ts) =
     rg_TerminalCount sm + int (count_rows (\<lambda>t. terminal_status (t_Status t)) ts)"
  "rg_PendingCount (foldl summarize_step sm ts) =
     rg_PendingCount sm + int (count_rows (\<lambda>t. \<not> terminal_status (t_Status t)) ts)"
  "rg_Tasks (foldl summarize_step sm ts) = rg_Tasks sm"
  by (induction ts arbitrary: sm)
    (auto simp: summarize_step_def Let_def count_rows_def terminal_status_def task_status_defs)

lemma summarize_fold_total: "rg_RolloutsTotal sm \<le> rg_RolloutsTotal (foldl summarize_step sm ts)"
proof (induction ts arbitrary: sm)
  case (Cons t ts)
  have "rg_RolloutsTotal sm \<le> rg_RolloutsTotal (summarize_step sm t)"
    by (simp add: summarize_step_def Let_def)
  also note Cons.IH
  finally show ?case by simp
qed simp

section \<open>The reaper\<close>

definition reaped_row :: "store \<Rightarrow> TaskRecord \<Rightarrow> TaskRecord" where
  "reaped_row s r =
     r\<lparr>t_Status := TaskStatusFailed, t_ExitCode := TaskReapedExitCode, t_CompletedAt := Some (db_now s),
       t_LeaseExpiresAt := None, t_WorkerID := None, t_ClaimToken := None, t_UpdatedAt := db_now s\<rparr>"

definition running_in :: "string list \<Rightarrow> TaskRecord \<Rightarrow> bool" where
  "running_in ids r \<longleftrightarrow> t_ID r \<in> set ids \<and> t_Status r = TaskStatusRunning"

lemma reaped_row_frame [simp]:
  "reaped_row (s\<lparr>busy := b\<rparr>) = reaped_row s" "reaped_row (s\<lparr>task_queue := q\<rparr>) = reaped_row s"
  by (simp_all add: reaped_row_def [abs_def] db_now_def)

lemma reapAttempts_calm:
  assumes "busy s = 0" "\<not> faults s OpReapUpdate"
  shows "reapAttempts (Suc n) None i s =
     (s\<lparr>task_queue := upd_rows (running_in [i]) (reaped_row s) (task_queue s)\<rparr>, None,
      count_rows (running_in [i]) (task_queue s) > 0)"
  using assms by (simp add: reapUpdate_def Let_def running_in_def [abs_def] reaped_row_def [abs_def])

lemma upd_rows_reaped_twice:
  "upd_rows (running_in is) (reaped_row s) (upd_rows (running_in [i]) (reaped_row s) rows) =
   upd_rows (running_in (i # is)) (reaped_row s) rows"
  by (auto simp: upd_rows_def running_in_def reaped_row_def)

lemma reapLoop_calm:
  assumes "busy s = 0" "\<not> faults s OpReapUpdate" "distinct (map t_ID ts)"
    "\<forall>t \<in> set ts. \<exists>r \<in> set (task_queue s). t_ID r = t_ID t \<and> t_Status r = TaskStatusRunning"
  shows "reapLoop acc ts s =
     (s\<lparr>task_queue := upd_rows (running_in (map t_ID ts)) (reaped_row s) (task_queue s)\<rparr>, acc @ ts, None)"
  using assms
proof (induction ts arbitrary: acc s)
  case Nil
  then show ?case by (simp add: upd_rows_def running_in_def)
next
  case (Cons t ts)
  let ?s = "s\<lparr>task_queue := upd_rows (running_in [t_ID t]) (reaped_row s) (task_queue s)\<rparr>"
  have hit: "count_rows (running_in [t_ID t]) (task_queue s) > 0"
    using Cons.prems(4) by (auto simp: count_rows_0 running_in_def simp flip: neq0_conv)
  have "\<exists>r \<in> set (task_queue ?s). t_ID r = t_ID u \<and> t_Status r = TaskStatusRunning"
    if u: "u \<in> set ts" for u
  proof -
    obtain r where r: "r \<in> set (task_queue s)" "t_ID r = t_ID u" "t_Status r = TaskStatusRunning"
      using Cons.prems(4) u by (meson list.set_intros(2))
    moreover have "t_ID u \<noteq> t_ID t" using Cons.prems(3) u by (metis distinct.simps(2) image_eqI list.map(2) list.set_map)
    ultimately show ?thesis by (auto simp: set_upd_rows running_in_def intro!: bexI [of _ r])
  qed
  with Cons have "reapLoop (acc @ [t]) ts ?s =
     (?s\<lparr>task_queue := upd_rows (running_in (map t_ID ts)) (reaped_row ?s) (task_queue ?s)\<rparr>, acc @ t # ts, None)"
    by simp
  then show ?case
    using reapAttempts_calm [OF Cons.prems(1,2), of 3 "t_ID t"] hit
    by (simp add: upd_rows_reaped_twice numeral_eq_Suc)
qed

lemma ReapStale_calm:
  assumes "0 < grace" "busy s = 0" "\<not> faults s OpReapUpdate" "\<not> faults s OpReapQuery" "task_ids_distinct s"
  shows "ReapStaleRunningTasks grace s =
     (s\<lparr>task_queue := upd_rows (reap_stale grace s) (reaped_row s) (task_queue s)\<rparr>,
      map scanTaskRecord (filter (reap_stale grace s) (task_queue s)), None)"
proof -
  let ?ts = "map scanTaskRecord (filter (reap_stale grace s) (task_queue s))"
  have ids: "map t_ID ?ts = map t_ID (filter (reap_stale grace s) (task_queue s))"
    by (simp add: scanTaskRecord_def)
  have dist: "distinct (map t_ID ?ts)"
    unfolding ids using assms(5) by (simp add: task_ids_distinct_def distinct_map_filter)
  have run: "\<forall>t \<in> set ?ts. \<exists>r \<in> set (task_queue s). t_ID r = t_ID t \<and> t_Status r = TaskStatusRunning"
    by (auto simp: scanTaskRecord_def reap_stale_def)
  have "running_in (map t_ID ?ts) r \<longleftrightarrow> reap_stale grace s r" if "r \<in> set (task_queue s)" for r
    using that assms(5) unfolding ids
    by (auto simp: running_in_def reap_stale_def task_ids_distinct_def distinct_map inj_on_def)
  then have "upd_rows (running_in (map t_ID ?ts)) (reaped_row s) (task_queue s) =
     upd_rows (reap_stale grace s) (reaped_row s) (task_queue s)"
    by (simp add: upd_rows_def)
  with reapLoop_calm [OF assms(2,3) dist run, of "[]"] assms(1,4) show ?thesis
    by (simp add: ReapStaleRunningTasks_def)
qed

text \<open>One to three busy answers on the first update: the row is settled, yet the call reports an
  error and no reaped task, because the error of the first attempt outlives the retry.\<close>

lemma reapAttempts_busy:
  assumes "0 < busy s" "busy s \<le> n" "\<not> faults s OpReapUpdate"
  shows "reapAttempts (Suc n) e i s =
     (s\<lparr>busy := 0, task_queue := upd_rows (running_in [i]) (reaped_row s) (task_queue s)\<rparr>, Some ErrBusy,
      count_rows (running_in [i]) (task_queue s) > 0)"
  using assms
proof (induction n arbitrary: s e)
  case (Suc n)
  let ?s = "s\<lparr>busy := busy s - 1\<rparr>"
  have step: "reapUpdate i s = (?s, Inl ErrBusy)" using Suc.prems by (simp add: reapUpdate_def Let_def)
  show ?case
  proof (cases "busy ?s = 0")
    case True
    then have "reapUpdate i ?s = (s\<lparr>busy := 0, task_queue := upd_rows (running_in [i]) (reaped_row s) (task_queue s)\<rparr>,
        Inr (count_rows (running_in [i]) (task_queue s) > 0))"
      using Suc.prems by (simp add: reapUpdate_def Let_def running_in_def [abs_def] reaped_row_def [abs_def] db_now_def)
    with step show ?thesis by simp
  next
    case False
    with Suc.IH [of ?s "Some ErrBusy"] Suc.prems show ?thesis
      by (simp add: reapAttempts.simps(2) [of "Suc n"] step del: reapAttempts.simps)
  qed
qed simp

section \<open>Properties\<close>

lemma retry_claim_Inr:
  "snd (retry_busy n (claimNextTaskOnce w ro re rt tok l) s) = Inr x \<Longrightarrow> busy s \<le> n"
proof (induction n arbitrary: s)
  case 0
  then show ?case by (cases "busy s") (auto simp: claimNextTaskOnce_busy)
next
  case (Suc n)
  show ?case
  proof (cases "busy s")
    case (Suc b)
    with Suc.IH [of "s\<lparr>busy := b\<rparr>"] Suc.prems show ?thesis by (simp add: claimNextTaskOnce_busy)
  qed simp
qed

lemma db_now_frames [simp]:
  "db_now (s\<lparr>busy := b\<rparr>) = db_now s" "db_now (s\<lparr>task_queue := q\<rparr>) = db_now s"
  by (simp_all add: db_now_def)

lemma env_frames [simp]:
  "claimable w ro re rt (s\<lparr>busy := b\<rparr>) = claimable w ro re rt s"
  "held_by_token w tok (s\<lparr>busy := b\<rparr>) = held_by_token w tok s"
  "claimed_row w tok l (s\<lparr>busy := b\<rparr>) = claimed_row w tok l s"
  "task_ids_distinct (s\<lparr>busy := b\<rparr>) = task_ids_distinct s"
  by (simp_all add: fun_eq_iff claimable_def lease_free_def held_by_token_def claimed_row_def lease_until_def
      task_ids_distinct_def cong: option.case_cong)

lemma claim_held_or_fresh_busy:
  assumes "task_ids_distinct s" "ClaimNextTask w ro re rt tok l s = (s', Inr (Some r))"
  shows "\<exists>q \<in> set (task_queue s). t_ID q = t_ID r \<and>
     ((tok \<noteq> [] \<and> held_by_token w tok s q \<and> task_queue s' = task_queue s) \<or>
      (let eligible = claimable w ro (filter (\<lambda>x. x \<noteq> []) (map trim_space re)) rt s
       in eligible q \<and>
          (\<forall>p \<in> set (task_queue s). eligible p \<longrightarrow> (t_CreatedAt q, t_ID q) \<le> (t_CreatedAt p, t_ID p)) \<and>
          task_queue s' = upd_rows (\<lambda>p. p = q) (claimed_row w tok (default_lease l) s) (task_queue s)))"
proof -
  have "busy s \<le> 5" using assms(2) retry_claim_Inr unfolding ClaimNextTask_def by (metis snd_conv)
  then have "claimNextTaskOnce w ro re rt tok (default_lease l) (s\<lparr>busy := 0\<rparr>) = (s', Inr (Some r))"
    using assms(2) by (simp add: ClaimNextTask_def retry_claim)
  from claim_held_or_fresh [OF this] assms(1) show ?thesis by (auto simp: Let_def)
qed

text \<open>C3. A settled task keeps its status, exit code, completion time and session references, and stays findable under its id, whatever
  sequence of writes to the queue follows (inserts, claims, acknowledgements, heartbeats, completions, releases, operator transitions,
  reaping, and the start-up recovery with its separate read and unguarded marks, in any order, by any worker, at any time, with any
  faults), provided that no recovery had read the task as running before it settled and has still to mark it.\<close>

theorem task_outcomes_final:
  assumes "task_step\<^sup>*\<^sup>* (s, p) (s', p')" "task_ids_distinct s" "r \<in> set (task_queue s)" "terminal_status (t_Status r)" "t_ID r \<notin> set p"
  shows "\<exists>r'. task_by_id (t_ID r) s' = Some r' \<and> outcome r' = outcome r"
  using tq.settled_kept [OF assms(1)] assms(2-5) by simp

definition sample_task :: TaskRecord where
  "sample_task = \<lparr>t_ID = ''t1'', t_Repo = ''o/r'', t_IssueNum = 7, t_AgentName = ''dev'', t_Role = ''dev'',
     t_Runtime = [], t_Workflow = ''w'', t_State = ''developing'', t_WorkerID = Some ''A'',
     t_ClaimToken = Some ''k'', t_Status = TaskStatusRunning, t_LeaseExpiresAt = Some (30 * second),
     t_AckedAt = None, t_HeartbeatAt = Some 0, t_CompletedAt = None, t_ExitCode = 0,
     t_SessionRefs = ''[]'', t_RolloutIndex = 0, t_RolloutsTotal = 1, t_RolloutGroupID = [],
     t_SupervisorAgentID = None, t_CreatedAt = 0, t_UpdatedAt = 0\<rparr>"

definition sample_queue :: "TaskRecord list \<Rightarrow> store" where
  "sample_queue ts = empty_store\<lparr>task_queue := ts\<rparr>"

lemmas sample_defs = sample_task_def sample_queue_def empty_store_def

definition settled_queue :: store where
  "settled_queue = sample_queue [sample_task\<lparr>t_Status := TaskStatusCompleted\<rparr>, sample_task\<lparr>t_ID := ''t2''\<rparr>]"

text \<open>A recovery that reads the queue and marks the running task leaves the settled one.\<close>

theorem task_outcomes_final_witness:
  "\<exists>r'. task_by_id ''t1'' (fst (UpdateTaskStatus ''t2'' TaskStatusFailed settled_queue)) = Some r' \<and> t_Status r' = TaskStatusCompleted"
proof -
  let ?r = "sample_task\<lparr>t_Status := TaskStatusCompleted\<rparr>"
  obtain ts where ts: "QueryTasksFiltered [] TaskStatusRunning settled_queue = Inr ts" "map t_ID ts = [''t2'']"
    by (simp add: QueryTasksFiltered_def settled_queue_def sample_defs scanTaskRecord_def task_status_defs)
  have "task_step\<^sup>*\<^sup>* (settled_queue, []) (fst (UpdateTaskStatus ''t2'' TaskStatusFailed settled_queue), [])"
    using st_recover_read [OF ts(1), of "[]"] st_recover_mark [of "''t2''" "[''t2'']" settled_queue] ts(2)
    by (auto intro: rtranclp.rtrancl_into_rtrancl r_into_rtranclp)
  from task_outcomes_final [OF this, of ?r] show ?thesis
    by (auto simp: settled_queue_def sample_defs task_ids_distinct_def outcome_def)
qed

text \<open>Without the proviso it is not so: the recovery of a second coordinator on the same database can read a task as running, its worker
  complete it, and the recovery then mark the completed task as failed.\<close>

lemma recovery_overwrites:
  "\<exists>s p s'. task_step\<^sup>*\<^sup>* (sample_queue [sample_task], []) (s, p) \<and> map t_Status (task_queue s) = [TaskStatusCompleted] \<and>
     task_step (s, p) (s', []) \<and> map t_Status (task_queue s') = [TaskStatusFailed]"
proof -
  let ?q = "sample_queue [sample_task]" and ?s = "fst (CompleteTask ''t1'' ''A'' 0 [] (sample_queue [sample_task]))"
  obtain ts where ts: "QueryTasksFiltered [] TaskStatusRunning ?q = Inr ts" "map t_ID ts = [''t1'']"
    by (simp add: QueryTasksFiltered_def sample_defs scanTaskRecord_def task_status_defs)
  have run: "task_step\<^sup>*\<^sup>* (?q, []) (?s, [''t1''])"
    using st_recover_read [OF ts(1), of "[]"] st_complete [of ?q "[''t1'']" "''t1''" "''A''" 0 "[]"] ts(2)
    by (auto intro: rtranclp.rtrancl_into_rtrancl r_into_rtranclp)
  have "task_step (?s, [''t1'']) (fst (UpdateTaskStatus ''t1'' TaskStatusFailed ?s), [])" using st_recover_mark [of "''t1''" "[''t1'']" ?s] by simp
  moreover have "map t_Status (task_queue ?s) = [TaskStatusCompleted]"
    "map t_Status (task_queue (fst (UpdateTaskStatus ''t1'' TaskStatusFailed ?s))) = [TaskStatusFailed]"
    by (simp_all add: CompleteTask_def ensureTaskOwnership_def task_by_id_def UpdateTaskStatus_def sample_defs upd_rows_def count_rows_def Let_def
        db_now_def sql_time_def second_def task_status_defs terminal_status_def go_str_def)
  ultimately show ?thesis using run by (intro exI conjI)
qed

text \<open>A successful \<^verbatim>\<open>ClaimNextTask\<close> either hands out again a running task that this
  worker already holds with this token and a live lease, changing nothing, or it takes a
  task that matches the worker's roles, repositories and runtime and whose lease is free, the
  one with the least creation time and id among all such tasks, and changes exactly that row:
  running, owned by the worker, with the token and the new lease.\<close>

theorem ClaimNextTask_spec:
  assumes "task_ids_distinct s" "ClaimNextTask w ro re rt tok l s = (s', Inr (Some r))"
  shows "\<exists>q \<in> set (task_queue s). t_ID q = t_ID r \<and>
     ((tok \<noteq> [] \<and> held_by_token w tok s q \<and> task_queue s' = task_queue s) \<or>
      (let eligible = claimable w ro (filter (\<lambda>x. x \<noteq> []) (map trim_space re)) rt s
       in eligible q \<and>
          (\<forall>p \<in> set (task_queue s). eligible p \<longrightarrow> (t_CreatedAt q, t_ID q) \<le> (t_CreatedAt p, t_ID p)) \<and>
          task_queue s' = upd_rows (\<lambda>p. p = q) (claimed_row w tok (default_lease l) s) (task_queue s)))"
  using assms by (rule claim_held_or_fresh_busy)

theorem ClaimNextTask_spec_witness:
  "let s = sample_queue [sample_task\<lparr>t_Status := TaskStatusPending, t_LeaseExpiresAt := None\<rparr>]
   in \<exists>s' r. ClaimNextTask ''B'' [] [] [] ''tk'' second s = (s', Inr (Some r)) \<and>
        (\<exists>q \<in> set (task_queue s). t_ID q = t_ID r)"
proof -
  let ?s = "sample_queue [sample_task\<lparr>t_Status := TaskStatusPending, t_LeaseExpiresAt := None\<rparr>]"
  have "\<exists>s' r. ClaimNextTask ''B'' [] [] [] ''tk'' second ?s = (s', Inr (Some r))"
    by (simp add: ClaimNextTask_def retry_claim claimNextTaskOnce_def Let_def held_by_token_def claimable_def
        lease_free_def sample_defs first_by_def count_rows_def sql_trim_def)
  moreover have "task_ids_distinct ?s" by (simp add: sample_defs task_ids_distinct_def)
  ultimately show ?thesis using ClaimNextTask_spec unfolding Let_def by blast
qed

text \<open>C4. Task claims are exclusive: as long as the lease that a claim shows on a task has not
  run out, no claim by another worker returns that task.\<close>

theorem ClaimNextTask_exclusive:
  assumes "task_ids_distinct s" "ClaimNextTask w ro re rt tok l s = (s1, Inr (Some r))"
    and "task_queue s2 = task_queue s1"
    and "\<forall>q \<in> set (task_queue s1). t_ID q = t_ID r \<longrightarrow> (case t_LeaseExpiresAt q of None \<Rightarrow> False | Some e \<Rightarrow> db_now s2 \<le> e)"
    and "w' \<noteq> w" "ClaimNextTask w' ro' re' rt' tok' l' s2 = (s3, Inr (Some r'))"
  shows "t_ID r' \<noteq> t_ID r"
proof
  assume eq: "t_ID r' = t_ID r"
  have ids: "task_ids_distinct s1" "task_ids_distinct s2"
    using ClaimNextTask_safe [of s w ro re rt tok l] assms(1-3)
    by (auto simp: task_safe_def task_ids_distinct_def)
  obtain q0 where q0: "q0 \<in> set (task_queue s)" "t_ID q0 = t_ID r" and
    cases1: "held_by_token w tok s q0 \<and> task_queue s1 = task_queue s \<or>
       task_queue s1 = upd_rows (\<lambda>p. p = q0) (claimed_row w tok (default_lease l) s) (task_queue s)"
    using claim_held_or_fresh_busy [OF assms(1,2)] by (auto simp: Let_def)
  obtain q1 where q1: "q1 \<in> set (task_queue s1)" "t_ID q1 = t_ID r" "t_WorkerID q1 = Some w"
    using cases1
  proof
    assume "held_by_token w tok s q0 \<and> task_queue s1 = task_queue s"
    with q0 show ?thesis by (intro that [of q0]) (auto simp: held_by_token_def)
  next
    assume "task_queue s1 = upd_rows (\<lambda>p. p = q0) (claimed_row w tok (default_lease l) s) (task_queue s)"
    with q0 show ?thesis
      by (intro that [of "claimed_row w tok (default_lease l) s q0"])
        (auto simp: set_upd_rows claimed_row_def)
  qed
  obtain q2 where q2: "q2 \<in> set (task_queue s2)" "t_ID q2 = t_ID r" and
    cases2: "held_by_token w' tok' s2 q2 \<or> (\<exists>rs. claimable w' ro' rs rt' s2 q2)"
    using claim_held_or_fresh_busy [OF ids(2) assms(6)] eq by (auto simp: Let_def)
  have "q2 = q1" using q1 q2 ids(2) assms(3) by (auto simp: task_ids_distinct_def distinct_map inj_on_def)
  with cases2 q1 assms(3-5) show False
    by (auto simp: held_by_token_def claimable_def lease_free_def split: option.splits)
qed

definition claim_demo :: store where
  "claim_demo = sample_queue
     [sample_task\<lparr>t_Status := TaskStatusPending, t_LeaseExpiresAt := None\<rparr>,
      sample_task\<lparr>t_ID := ''t2'', t_Status := TaskStatusPending, t_LeaseExpiresAt := None\<rparr>]"

lemmas claim_eval = ClaimNextTask_def retry_claim claimNextTaskOnce_def Let_def held_by_token_def claimable_def
  lease_free_def sample_defs first_by_def count_rows_def upd_rows_def sql_trim_def scanTaskRecord_def
  default_lease_def lease_until_def taskLeaseOffset_def whole_seconds_def second_def db_now_def sql_time_def
  task_status_defs active_status_def

theorem ClaimNextTask_exclusive_witness:
  "\<exists>s1 r s3 r'. ClaimNextTask ''A'' [] [] [] ''k'' second claim_demo = (s1, Inr (Some r)) \<and>
     ClaimNextTask ''B'' [] [] [] ''m'' second s1 = (s3, Inr (Some r')) \<and> t_ID r' \<noteq> t_ID r"
proof -
  let ?c1 = "ClaimNextTask ''A'' [] [] [] ''k'' second claim_demo"
  obtain s1 r where 1: "?c1 = (s1, Inr (Some r))"
    and s1: "s1 = fst ?c1"
    by (simp add: claim_eval claim_demo_def)
  obtain s3 r' where 2: "ClaimNextTask ''B'' [] [] [] ''m'' second s1 = (s3, Inr (Some r'))"
    by (simp add: s1 claim_eval claim_demo_def)
  have "task_ids_distinct claim_demo" by (simp add: claim_demo_def sample_defs task_ids_distinct_def)
  moreover have "\<forall>q \<in> set (task_queue s1). t_ID q = t_ID r \<longrightarrow>
      (case t_LeaseExpiresAt q of None \<Rightarrow> False | Some e \<Rightarrow> db_now s1 \<le> e)"
    using 1 by (auto simp: claim_eval claim_demo_def)
  ultimately have "t_ID r' \<noteq> t_ID r"
    using 1 2 by (intro ClaimNextTask_exclusive [where w' = "''B''"]) auto
  with 1 2 show ?thesis by blast
qed

text \<open>\<^verbatim>\<open>CompleteTask\<close> succeeds exactly when the task is owned by the calling
  worker, is not settled and its lease has not run out; afterwards the row carries the status
  of the exit code, the exit code and the session references, and every further completion
  attempt, by any worker, is refused as already completed.\<close>

theorem CompleteTask_once:
  assumes "task_ids_distinct s" "\<not> faults s OpComplete"
  shows "(snd (CompleteTask i w e refs s) = Inr () \<longleftrightarrow> (\<exists>r \<in> set (task_queue s). completable i w s r)) \<and>
    (snd (CompleteTask i w e refs s) = Inr () \<longrightarrow>
       (let s' = fst (CompleteTask i w e refs s)
        in (\<exists>r. task_by_id i s' = Some r \<and> t_ExitCode r = e \<and>
               t_Status r = (if e = 0 then TaskStatusCompleted else TaskStatusFailed) \<and>
               t_SessionRefs r = (if refs = [] then ''[]'' else refs)) \<and>
           snd (CompleteTask i w' e' refs' s') = Inl ErrTaskAlreadyCompleted))"
proof (intro conjI impI)
  show "snd (CompleteTask i w e refs s) = Inr () \<longleftrightarrow> (\<exists>r \<in> set (task_queue s). completable i w s r)"
    by (rule CompleteTask_ok_iff [OF assms])
next
  assume ok: "snd (CompleteTask i w e refs s) = Inr ()"
  let ?s = "fst (CompleteTask i w e refs s)"
  obtain r where r: "r \<in> set (task_queue s)" "completable i w s r"
    using CompleteTask_ok_iff [OF assms] ok by blast
  have ids: "task_ids_distinct ?s" using CompleteTask_safe [of s i w e refs] assms(1) by (simp add: task_safe_def)
  define r' where "r' = completed_row e refs s r"
  have s': "?s = s\<lparr>task_queue := upd_rows (\<lambda>q. q = r) (completed_row e refs s) (task_queue s)\<rparr>"
    using CompleteTask_eval [OF assms r] by simp
  have mem: "r' \<in> set (task_queue ?s)" using r(1) by (auto simp: s' set_upd_rows r'_def)
  have i: "t_ID r' = i" using r(2) by (simp add: r'_def completed_row_def completable_def)
  have find: "task_by_id i ?s = Some r'" using task_by_id_unique [OF ids mem] i by simp
  have settled: "terminal_status (t_Status r')" by (simp add: r'_def completed_row_def)
  have "ensureTaskOwnership i w' ?s = Inl ErrTaskAlreadyCompleted"
    by (simp add: ensureTaskOwnership_def find settled)
  then have "snd (CompleteTask i w' e' refs' ?s) = Inl ErrTaskAlreadyCompleted"
    using assms(2) unfolding s' by (simp add: CompleteTask_def Let_def)
  with find show "let s' = ?s in (\<exists>r. task_by_id i s' = Some r \<and> t_ExitCode r = e \<and>
               t_Status r = (if e = 0 then TaskStatusCompleted else TaskStatusFailed) \<and>
               t_SessionRefs r = (if refs = [] then ''[]'' else refs)) \<and>
           snd (CompleteTask i w' e' refs' s') = Inl ErrTaskAlreadyCompleted"
    by (simp add: Let_def r'_def completed_row_def)
qed

theorem CompleteTask_once_witness:
  "snd (CompleteTask ''t1'' ''A'' 0 [] (sample_queue [sample_task])) = Inr ()"
  using CompleteTask_once [of "sample_queue [sample_task]" "''t1''" "''A''" 0 "[]"]
  by (simp add: sample_defs task_ids_distinct_def completable_def db_now_def sql_time_def second_def)

text \<open>The consecutive-failure counter reaches \<open>k\<close> exactly when there are at least \<open>k\<close>
  settled tasks of the agent on the issue and the \<open>k\<close> most recent of them are all
  unsuccessful; the order is that of insertion, and unsettled tasks do not count.\<close>

theorem CountConsecutiveAgentFailures_ge:
  assumes "CountConsecutiveAgentFailures repo n agent s = Inr c"
  shows "k \<le> c \<longleftrightarrow> k \<le> length (agent_outcomes repo n agent s) \<and>
     (\<forall>st \<in> set (take k (rev (agent_outcomes repo n agent s))). st \<in> {TaskStatusFailed, TaskStatusTimeout})"
proof -
  let ?last = "take k (rev (agent_outcomes repo n agent s))"
  have terminal: "terminal_status st" if "st \<in> set ?last" for st
    using that by (auto simp: agent_outcomes_def dest: in_set_takeD)
  have "st \<noteq> TaskStatusCompleted \<longleftrightarrow> st \<in> {TaskStatusFailed, TaskStatusTimeout}" if "st \<in> set ?last" for st
    using terminal [OF that] by (auto simp: terminal_status_def task_status_defs)
  then have "(\<forall>st \<in> set ?last. st \<noteq> TaskStatusCompleted) \<longleftrightarrow>
     (\<forall>st \<in> set ?last. st \<in> {TaskStatusFailed, TaskStatusTimeout})" by (rule ball_cong [OF refl])
  moreover have "c = count_until_completed (rev (agent_outcomes repo n agent s))"
    using assms by (simp add: CountConsecutiveAgentFailures_def split: if_splits)
  ultimately show ?thesis by (simp add: count_until_completed_ge)
qed

theorem CountConsecutiveAgentFailures_ge_witness:
  "CountConsecutiveAgentFailures ''o/r'' 7 ''dev'' (sample_queue
     [sample_task\<lparr>t_Status := TaskStatusCompleted\<rparr>, sample_task\<lparr>t_Status := TaskStatusFailed\<rparr>, sample_task]) = Inr 1 \<and>
   \<not> 2 \<le> (1::nat)"
proof -
  let ?s = "sample_queue [sample_task\<lparr>t_Status := TaskStatusCompleted\<rparr>, sample_task\<lparr>t_Status := TaskStatusFailed\<rparr>, sample_task]"
  have "CountConsecutiveAgentFailures ''o/r'' 7 ''dev'' ?s = Inr 1"
    by (simp add: CountConsecutiveAgentFailures_def agent_outcomes_def sample_defs)
  moreover from CountConsecutiveAgentFailures_ge [OF this, of 2] have "\<not> 2 \<le> (1::nat)"
    by (simp add: agent_outcomes_def sample_defs task_status_defs terminal_status_def)
  ultimately show ?thesis by simp
qed

text \<open>The rollout group summary counts every task of the group once: successes, failures
  (timeouts included) and pending tasks are exactly the tasks with those statuses, the terminal
  count is successes plus failures, all counts add up to the size of the group, and the
  rollout total is at least 1 and at least that of the first task.\<close>

theorem SummarizeRolloutGroup_counts:
  assumes "SummarizeRolloutGroup gid s = Inr (Some sm)"
  shows "ListTasksByRolloutGroup gid s = Inr (rg_Tasks sm) \<and> rg_Tasks sm \<noteq> [] \<and>
    rg_SuccessCount sm = int (count_rows (\<lambda>t. t_Status t = TaskStatusCompleted) (rg_Tasks sm)) \<and>
    rg_FailedCount sm = int (count_rows (\<lambda>t. t_Status t = TaskStatusFailed \<or> t_Status t = TaskStatusTimeout) (rg_Tasks sm)) \<and>
    rg_PendingCount sm = int (count_rows (\<lambda>t. \<not> terminal_status (t_Status t)) (rg_Tasks sm)) \<and>
    rg_TerminalCount sm = rg_SuccessCount sm + rg_FailedCount sm \<and>
    rg_TerminalCount sm + rg_PendingCount sm = int (length (rg_Tasks sm)) \<and>
    1 \<le> rg_RolloutsTotal sm \<and> t_RolloutsTotal (hd (rg_Tasks sm)) \<le> rg_RolloutsTotal sm"
proof -
  obtain t ts where l: "ListTasksByRolloutGroup gid s = Inr (t # ts)"
    using assms by (auto simp: SummarizeRolloutGroup_def split: sum.splits list.splits)
  define sm0 where "sm0 = \<lparr>rg_ID = gid, rg_RolloutsTotal = t_RolloutsTotal t, rg_SuccessCount = 0,
     rg_FailedCount = 0, rg_TerminalCount = 0, rg_PendingCount = 0, rg_Tasks = t # ts\<rparr>"
  define f where "f = foldl summarize_step sm0 (t # ts)"
  have sm: "sm = (if rg_RolloutsTotal f \<le> 0 then f\<lparr>rg_RolloutsTotal := int (length (t # ts))\<rparr> else f)"
    using assms l unfolding SummarizeRolloutGroup_def f_def sm0_def Let_def by simp
  note F = summarize_fold [of sm0 "t # ts", folded f_def]
  have total: "t_RolloutsTotal t \<le> rg_RolloutsTotal f"
    using summarize_fold_total [of sm0 "t # ts", folded f_def] by (simp add: sm0_def)
  have parts: "count_rows (\<lambda>t. terminal_status (t_Status t)) us =
      count_rows (\<lambda>t. t_Status t = TaskStatusCompleted) us +
      count_rows (\<lambda>t. t_Status t = TaskStatusFailed \<or> t_Status t = TaskStatusTimeout) us"
    "count_rows (\<lambda>t. terminal_status (t_Status t)) us + count_rows (\<lambda>t. \<not> terminal_status (t_Status t)) us = length us"
    for us
    by (induction us) (auto simp: count_rows_def terminal_status_def task_status_defs)
  show ?thesis
    using F total parts [of "t # ts"] by (auto simp: sm l sm0_def)
qed

theorem SummarizeRolloutGroup_counts_witness:
  "\<exists>sm. SummarizeRolloutGroup ''g'' (sample_queue
     [sample_task\<lparr>t_RolloutGroupID := ''g'', t_Status := TaskStatusCompleted\<rparr>]) = Inr (Some sm) \<and>
     rg_TerminalCount sm + rg_PendingCount sm = int (length (rg_Tasks sm))"
proof -
  let ?s = "sample_queue [sample_task\<lparr>t_RolloutGroupID := ''g'', t_Status := TaskStatusCompleted\<rparr>]"
  have "trim_space ''g'' = ''g''" by (rule trim_space_id) (simp_all add: is_space_def)
  then obtain sm where "SummarizeRolloutGroup ''g'' ?s = Inr (Some sm)"
    by (auto simp: SummarizeRolloutGroup_def ListTasksByRolloutGroup_def Let_def sample_defs)
  with SummarizeRolloutGroup_counts [OF this] show ?thesis by blast
qed

text \<open>Without database contention, the reaper settles exactly the running tasks whose last
  heartbeat (or creation, when there was none) lies before the grace cutoff, as failed with the
  exit code of a reaped task and without an owner, leaves every other row alone, and reports
  exactly the tasks it settled.\<close>

theorem ReapStaleRunningTasks_exact:
  assumes "0 < grace" "busy s = 0" "\<not> faults s OpReapUpdate" "\<not> faults s OpReapQuery" "task_ids_distinct s"
  shows "ReapStaleRunningTasks grace s =
     (s\<lparr>task_queue := upd_rows (reap_stale grace s) (reaped_row s) (task_queue s)\<rparr>,
      map scanTaskRecord (filter (reap_stale grace s) (task_queue s)), None)"
  using assms by (rule ReapStale_calm)

theorem ReapStaleRunningTasks_exact_witness:
  "map t_ID (fst (snd (ReapStaleRunningTasks minute (sample_queue [sample_task]\<lparr>clock := 61 * second\<rparr>)))) = [''t1'']"
  using ReapStaleRunningTasks_exact [of minute "sample_queue [sample_task]\<lparr>clock := 61 * second\<rparr>"]
  by (simp add: sample_defs task_ids_distinct_def minute_def second_def reap_stale_def whole_seconds_def
      db_now_def sql_time_def scanTaskRecord_def)

text \<open>When the database answers busy once to three times before the first update of a
  reaping pass succeeds, the task is settled all the same, but the pass stops there, returns
  the busy error and does not report the task among the reaped ones.\<close>

theorem ReapStaleRunningTasks_busy_unreported:
  assumes "0 < grace" "0 < busy s" "busy s \<le> 3" "\<not> faults s OpReapUpdate" "\<not> faults s OpReapQuery"
    and "filter (reap_stale grace s) (task_queue s) = t # ts"
  shows "ReapStaleRunningTasks grace s =
     (s\<lparr>busy := 0, task_queue := upd_rows (running_in [t_ID t]) (reaped_row s) (task_queue s)\<rparr>, [], Some ErrBusy)"
  using reapAttempts_busy [OF assms(2,3,4), of None "t_ID t"] assms
  by (simp add: ReapStaleRunningTasks_def scanTaskRecord_def numeral_eq_Suc del: reapAttempts.simps)

theorem ReapStaleRunningTasks_busy_unreported_witness:
  "snd (ReapStaleRunningTasks minute (sample_queue [sample_task]\<lparr>clock := 61 * second, busy := 1\<rparr>)) =
   ([], Some ErrBusy)"
  using ReapStaleRunningTasks_busy_unreported [of minute
      "sample_queue [sample_task]\<lparr>clock := 61 * second, busy := 1\<rparr>" sample_task "[]"]
  by (simp add: sample_defs minute_def second_def reap_stale_def whole_seconds_def
      db_now_def sql_time_def)

end
