(* ===== verification/SM_Dispatch.thy ===== *)
theory SM_Dispatch
  imports SM_Types Task_Protocol
begin

text \<open>
  The dispatch half of \<^verbatim>\<open>internal/statemachine\<close>: the gates (finished issue, failure cap,
  dependency verdict, per-issue claim), the inspection of inflight groups against the task
  queue, rollout fan-out, and the sending of dispatch requests. Definitions in the order of
  the source.
\<close>

section \<open>Claims\<close>

definition contextWithIssueTrace :: "ctx \<Rightarrow> string \<Rightarrow> int \<Rightarrow> sm \<Rightarrow> string" where
  "contextWithIssueTrace c repo n s =
     (if n \<le> 0 then ctx_trace c
      else (let tid = (case GetIssueRootTraceID repo n (db s) of Inl _ \<Rightarrow> [] | Inr t \<Rightarrow> t)
            in if tid \<noteq> [] then tid
               else (case GetPRRootTraceID repo n (db s) of
                       Inl _ \<Rightarrow> ctx_trace c | Inr t \<Rightarrow> if t \<noteq> [] then t else ctx_trace c)))"

text \<open>The context of a request handler: the issue's trace, under which the tracing library
  starts a span.\<close>

definition issue_ctx :: "ctx \<Rightarrow> string \<Rightarrow> int \<Rightarrow> ctx prog" where
  "issue_ctx c repo n = do {
     s \<leftarrow> State_Monad.get;
     State_Monad.return (c\<lparr>ctx_trace := span_trace s (contextWithIssueTrace c repo n s)\<rparr>)
   }"

definition claim_held_by :: "string \<Rightarrow> int \<Rightarrow> store \<Rightarrow> string" where
  "claim_held_by repo n d =
     (case QueryIssueClaim repo n d of Inr (Some c) \<Rightarrow> c_WorkerID c | _ \<Rightarrow> [])"

definition isBlockedByIssueClaim ::
  "string \<Rightarrow> int \<Rightarrow> string \<Rightarrow> string \<Rightarrow> string \<Rightarrow> bool sm_result prog" where
  "isBlockedByIssueClaim repo n agent workflow state = do {
     s \<leftarrow> State_Monad.get;
     let claimer = issueClaimerID s;
     let lease = (if issueClaimLease s \<le> 0 then DefaultIssueClaimLease else issueClaimLease s);
     if claimer = [] then State_Monad.return (Inr False)
     else do {
       r \<leftarrow> exec (AcquireIssueClaim repo n claimer lease);
       (case r of
          Inl e \<Rightarrow>
            if e = ErrIssueClaimHeldByOther then do {
              other \<leftarrow> query (claim_held_by repo n);
              State_Monad.update (\<lambda>s. s\<lparr>claimWarned := set_add (issueKey repo n) (claimWarned s)\<rparr>);
              log_event TypeDispatchSkippedClaim repo n
                [(''agent'', PStr agent), (''workflow'', PStr workflow), (''state'', PStr state),
                 (''claimer'', PStr claimer), (''held_by'', PStr other),
                 (''reason'', PStr ''issue_claim_held_by_other'')];
              State_Monad.return (Inr True)
            } else State_Monad.return (Inl (SMStore e))
        | Inr res \<Rightarrow> do {
            (if a_OverwrotePrior res
             then log_event TypeIssueClaimExpired repo n
                [(''agent'', PStr agent), (''workflow'', PStr workflow), (''state'', PStr state),
                 (''claimer'', PStr claimer), (''prior_owner'', PStr (a_PriorWorkerID res))]
             else State_Monad.return ());
            State_Monad.update (\<lambda>s. s\<lparr>claimTokens := AList.update (issueKey repo n) (a_ClaimToken res) (claimTokens s)\<rparr>);
            State_Monad.return (Inr False)
          })
     }
   }"

definition releaseIssueClaim :: "string \<Rightarrow> int \<Rightarrow> unit prog" where
  "releaseIssueClaim repo n = do {
     s \<leftarrow> State_Monad.get;
     if issueClaimerID s = [] then State_Monad.return ()
     else do {
       let token = (case map_of (claimTokens s) (issueKey repo n) of None \<Rightarrow> [] | Some t \<Rightarrow> t);
       State_Monad.update (\<lambda>s. s\<lparr>claimTokens := AList.delete (issueKey repo n) (claimTokens s)\<rparr>);
       if token = [] then State_Monad.return ()
       else do {
         _ \<leftarrow> exec (ReleaseIssueClaim repo n (issueClaimerID s) token);
         State_Monad.return ()
       }
     }
   }"

fun releaseTracked :: "string \<Rightarrow> (string \<times> string) list \<Rightarrow> unit prog" where
  "releaseTracked claimer [] = State_Monad.return ()"
| "releaseTracked claimer ((key, token) # rest) = do {
     (if token = [] then State_Monad.return ()
      else (case parseIssueKey key of
              None \<Rightarrow> State_Monad.return ()
            | Some (repo, n) \<Rightarrow> do {
                _ \<leftarrow> exec (ReleaseIssueClaim repo n claimer token);
                State_Monad.return ()
              }));
     releaseTracked claimer rest
   }"

definition ReleaseAllIssueClaims :: "unit prog" where
  "ReleaseAllIssueClaims = do {
     s \<leftarrow> State_Monad.get;
     if issueClaimerID s = [] then State_Monad.return ()
     else do {
       State_Monad.update (\<lambda>s. s\<lparr>claimTokens := []\<rparr>);
       releaseTracked (issueClaimerID s) (claimTokens s)
     }
   }"

section \<open>Gates\<close>

definition isBlockedByDone :: "string \<Rightarrow> int \<Rightarrow> string \<Rightarrow> bool sm_result prog" where
  "isBlockedByDone repo n agent = do {
     r \<leftarrow> query (QueryIssueCache repo n);
     let blocked = (\<lambda>extra. do {
        log_event TypeDispatchBlockedByDone repo n
          ([(''agent'', PStr agent), (''label'', PStr DoneLabel)] @ extra);
        publishAlert KindDispatchBlocked SeverityInfo repo n []
          [(''reason'', PStr ''status_done''), (''agent'', PStr agent)];
        State_Monad.return (Inr True)
     });
     (case r of
        Inl e \<Rightarrow> State_Monad.return (Inl (SMStore e))
      | Inr None \<Rightarrow> State_Monad.return (Inr False)
      | Inr (Some ic) \<Rightarrow>
         (case ic_Labels ic of
            JText ls \<Rightarrow> if DoneLabel \<in> set ls then blocked [] else State_Monad.return (Inr False)
          | JBad raw \<Rightarrow>
              if raw = [] then State_Monad.return (Inr False)
              else do {
                log_event TypeError repo n [(''source'', PStr ''issue_cache_labels_unmarshal'')];
                if contains_sub raw (CHR 0x22 # DoneLabel @ [CHR 0x22])
                then blocked [(''fallback'', PStr ''substring_scan_after_unmarshal_error'')]
                else State_Monad.return (Inr False)
              }))
   }"

definition isBlockedByFailureCap :: "string \<Rightarrow> int \<Rightarrow> string \<Rightarrow> bool sm_result prog" where
  "isBlockedByFailureCap repo n agent = do {
     r \<leftarrow> query (CountConsecutiveAgentFailures repo n agent);
     (case r of
        Inl e \<Rightarrow> State_Monad.return (Inl (SMStore e))
      | Inr count \<Rightarrow>
          if count < MaxConsecutiveAgentFailures then State_Monad.return (Inr False)
          else do {
            log_event TypeDispatchBlockedByFailureCap repo n
              [(''agent'', PStr agent), (''consecutive_fails'', PInt (int count)),
               (''cap'', PInt (int MaxConsecutiveAgentFailures))];
            publishAlert KindDispatchBlocked SeverityError repo n []
              [(''reason'', PStr ''failure_cap''), (''agent'', PStr agent),
               (''consecutive_fails'', PInt (int count)), (''cap'', PInt (int MaxConsecutiveAgentFailures))];
            State_Monad.return (Inr True)
          })
   }"

definition isBlockedByDependency ::
  "string \<Rightarrow> int \<Rightarrow> string \<Rightarrow> string \<Rightarrow> string \<Rightarrow> bool sm_result prog" where
  "isBlockedByDependency repo n agent workflow state = do {
     r \<leftarrow> query (QueryIssueDependencyState repo n);
     (case r of
        Inl e \<Rightarrow> State_Monad.return (Inl (SMStore e))
      | Inr None \<Rightarrow> State_Monad.return (Inr False)
      | Inr (Some st) \<Rightarrow>
          if ds_Verdict st = DependencyVerdictBlocked \<or> ds_Verdict st = DependencyVerdictNeedsHuman
          then do {
            log_event TypeDispatchBlockedByDependency repo n
              [(''agent'', PStr agent), (''workflow'', PStr workflow), (''state'', PStr state),
               (''source'', PStr ''statemachine''), (''verdict'', PStr (ds_Verdict st))];
            State_Monad.return (Inr True)
          } else State_Monad.return (Inr False))
   }"

section \<open>Inflight groups against the task queue\<close>

definition rolloutSlotKey :: "int \<Rightarrow> string" where
  "rolloutSlotKey i = ''rollout:'' @ itoa i"

definition dispatchSlotKey :: "DispatchRequest \<Rightarrow> string" where
  "dispatchSlotKey req = (if r_RolloutIndex req > 0 then rolloutSlotKey (r_RolloutIndex req) else r_AgentName req)"

text \<open>Task rows always carry an update time.\<close>

definition taskRecency :: "TaskRecord \<Rightarrow> time" where
  "taskRecency t = t_UpdatedAt t"

fun latest_task :: "TaskRecord option \<Rightarrow> TaskRecord list \<Rightarrow> TaskRecord option" where
  "latest_task best [] = best"
| "latest_task best (t # ts) =
     latest_task (case best of None \<Rightarrow> Some t
       | Some b \<Rightarrow> if taskRecency t > taskRecency b then Some t else Some b) ts"

definition findInflightSlotTask :: "TaskRecord list \<Rightarrow> dispatchGroup \<Rightarrow> string \<Rightarrow> TaskRecord option" where
  "findInflightSlotTask tasks g slot =
     (let wantAgent = (case map_of (g_slots g) slot of None \<Rightarrow> [] | Some a \<Rightarrow> a);
          pick = (\<lambda>wantRollout. latest_task None (filter (\<lambda>t. t_Workflow t = g_workflow g \<and> t_State t = g_state g \<and>
             (if wantRollout > 0 then t_RolloutIndex t = wantRollout
              else t_RolloutIndex t = 0 \<and> t_AgentName t = wantAgent)) tasks))
      in if has_prefix slot ''rollout:''
         then (case atoi (trim_prefix slot ''rollout:'') of None \<Rightarrow> None | Some i \<Rightarrow> pick i)
         else pick 0)"

definition inferredTaskLease :: "TaskRecord \<Rightarrow> duration" where
  "inferredTaskLease t =
     (case t_LeaseExpiresAt t of
        None \<Rightarrow> defaultTaskLease
      | Some e \<Rightarrow>
         (case (case t_HeartbeatAt t of Some h \<Rightarrow> Some h | None \<Rightarrow> t_AckedAt t) of
            None \<Rightarrow> defaultTaskLease
          | Some start \<Rightarrow> if e - start \<le> 0 then defaultTaskLease else e - start))"

definition inflightTaskKeepsGroupLive :: "time \<Rightarrow> TaskRecord \<Rightarrow> bool" where
  "inflightTaskKeepsGroupLive now t =
     (if t_Status t = TaskStatusPending then True
      else if t_Status t = TaskStatusRunning then
        (case t_LeaseExpiresAt t of
           None \<Rightarrow> True
         | Some e \<Rightarrow> now < e + inflightLeaseExpiryMultiplier * inferredTaskLease t)
      else t_Status t = TaskStatusCompleted)"

definition formatInflightTaskStatus :: "(string \<times> string) list \<Rightarrow> string" where
  "formatInflightTaskStatus sts =
     (let shown = (\<lambda>st. let t = trim_space st in if t = [] then inflightTaskStatusGone else t)
      in case sts of
           [] \<Rightarrow> inflightTaskStatusGone
         | [(_, st)] \<Rightarrow> shown st
         | _ \<Rightarrow> join_with '','' (map (\<lambda>(k, st). k @ ''='' @ shown st) sts))"

definition inspectInflightTaskStatus :: "string \<Rightarrow> int \<Rightarrow> dispatchGroup \<Rightarrow> store \<Rightarrow> string \<times> bool" where
  "inspectInflightTaskStatus repo n g d =
     (case ListIssueTasks repo n d of
        Inl _ \<Rightarrow> ([], False)
      | Inr tasks \<Rightarrow>
         (let slotKeys = sort (map fst (g_slots g));
              found = map (\<lambda>k. (k, findInflightSlotTask tasks g k)) slotKeys;
              sts = map (\<lambda>(k, to). (k, case to of None \<Rightarrow> inflightTaskStatusGone | Some t \<Rightarrow> t_Status t)) found;
              live = list_ex (\<lambda>(_, to). case to of None \<Rightarrow> False | Some t \<Rightarrow> inflightTaskKeepsGroupLive (clock d) t) found
          in (formatInflightTaskStatus sts, slotKeys \<noteq> [] \<and> \<not> live)))"

text \<open>The comparison of the group pointers, as a comparison of the groups.\<close>

definition clearInflightIfMatch :: "string \<Rightarrow> dispatchGroup \<Rightarrow> bool prog" where
  "clearInflightIfMatch key target = do {
     s \<leftarrow> State_Monad.get;
     if map_of (inflight s) key \<noteq> Some target then State_Monad.return False
     else do {
       State_Monad.update (\<lambda>s. s\<lparr>inflight := AList.delete key (inflight s)\<rparr>);
       State_Monad.return True
     }
   }"

definition reconcileStaleInflight :: "string \<Rightarrow> int \<Rightarrow> unit prog" where
  "reconcileStaleInflight repo n = do {
     s \<leftarrow> State_Monad.get;
     (case map_of (inflight s) (issueKey repo n) of
        None \<Rightarrow> State_Monad.return ()
      | Some g \<Rightarrow>
          if \<not> snd (inspectInflightTaskStatus repo n g (db s)) then State_Monad.return ()
          else do {
            cleared \<leftarrow> clearInflightIfMatch (issueKey repo n) g;
            if cleared then releaseIssueClaim repo n else State_Monad.return ()
          })
   }"

definition IsInflight :: "string \<Rightarrow> int \<Rightarrow> sm \<Rightarrow> bool" where
  "IsInflight repo n s \<longleftrightarrow> map_of (inflight s) (issueKey repo n) \<noteq> None"

definition ClearInflight :: "string \<Rightarrow> int \<Rightarrow> InflightGroupSnapshot option prog" where
  "ClearInflight repo n = do {
     s \<leftarrow> State_Monad.get;
     (case map_of (inflight s) (issueKey repo n) of
        None \<Rightarrow> State_Monad.return None
      | Some g \<Rightarrow> do {
          State_Monad.update (\<lambda>s. s\<lparr>inflight := AList.delete (issueKey repo n) (inflight s)\<rparr>);
          releaseIssueClaim repo n;
          State_Monad.return (Some (snapshotDispatchGroup g))
        })
   }"

section \<open>Sending\<close>

definition log_skip_inflight :: "dispatchGroup \<Rightarrow> DispatchRequest \<Rightarrow> string \<Rightarrow> unit prog" where
  "log_skip_inflight g req reason = do {
     status \<leftarrow> query (\<lambda>d. fst (inspectInflightTaskStatus (r_Repo req) (r_IssueNum req) g d));
     log_event TypeDispatchSkippedInflight (r_Repo req) (r_IssueNum req)
       [(''agent'', PStr (r_AgentName req)), (''reason'', PStr reason), (''state'', PStr (r_State req)),
        (''task_status'', PStr status), (''workflow'', PStr (r_Workflow req))]
   }"

definition dispatch_payload :: "DispatchRequest \<Rightarrow> (string \<times> pval) list" where
  "dispatch_payload req =
     [(''agent_name'', PStr (r_AgentName req)), (''workflow'', PStr (r_Workflow req)),
      (''state'', PStr (r_State req)), (''rollout_index'', PInt (r_RolloutIndex req)),
      (''rollouts_total'', PInt (r_RolloutsTotal req)), (''group_id'', PStr (r_RolloutGroupID req))]"

text \<open>Reserving the slot in the inflight map; \<open>Some reason\<close> says why not.\<close>

definition reserveSlot :: "DispatchRequest \<Rightarrow> (dispatchGroup \<times> string) option prog" where
  "reserveSlot req = do {
     s \<leftarrow> State_Monad.get;
     let key = issueKey (r_Repo req) (r_IssueNum req);
     let slot = dispatchSlotKey req;
     (case map_of (inflight s) key of
        Some g \<Rightarrow>
          if g_workflow g \<noteq> r_Workflow req \<or> g_state g \<noteq> r_State req
          then State_Monad.return (Some (g, ''different state/workflow already running''))
          else if slot \<in> set (g_dispatchedSlots g)
          then State_Monad.return (Some (g, ''agent already dispatched''))
          else do {
            State_Monad.update (\<lambda>s. s\<lparr>inflight := AList.update key
              (g\<lparr>g_dispatchedSlots := set_add slot (g_dispatchedSlots g)\<rparr>) (inflight s)\<rparr>);
            State_Monad.return None
          }
      | None \<Rightarrow> do {
          State_Monad.update (\<lambda>s. s\<lparr>inflight := AList.update key
            ((newDispatchGroup (r_Workflow req) (r_State req) StateModeReview defaultJoinConfig
               [(slot, r_AgentName req)])\<lparr>g_dispatchedSlots := [slot]\<rparr>) (inflight s)\<rparr>);
          State_Monad.return None
        })
   }"

definition ctx_done :: "ctx \<Rightarrow> sm \<Rightarrow> bool" where
  "ctx_done c s \<longleftrightarrow> \<not> ctx_background c \<and> sends_left s = Some 0"

text \<open>Undo of the reservation when the context is done before the send.\<close>

definition rollbackSlot :: "DispatchRequest \<Rightarrow> unit prog" where
  "rollbackSlot req = do {
     s \<leftarrow> State_Monad.get;
     let key = issueKey (r_Repo req) (r_IssueNum req);
     (case map_of (inflight s) key of
        None \<Rightarrow> State_Monad.return ()
      | Some g \<Rightarrow>
         (let left = filter (\<lambda>k. k \<noteq> dispatchSlotKey req) (g_dispatchedSlots g)
          in if left = [] then do {
               State_Monad.update (\<lambda>s. s\<lparr>inflight := AList.delete key (inflight s)\<rparr>);
               releaseIssueClaim (r_Repo req) (r_IssueNum req)
             } else State_Monad.update (\<lambda>s. s\<lparr>inflight := AList.update key (g\<lparr>g_dispatchedSlots := left\<rparr>) (inflight s)\<rparr>)))
   }"

definition send :: "ctx \<Rightarrow> DispatchRequest \<Rightarrow> unit prog" where
  "send c req = State_Monad.update (\<lambda>s. s\<lparr>dispatched := dispatched s @ [req],
     sends_left := (if ctx_background c then sends_left s else map_option (\<lambda>k. k - 1) (sends_left s))\<rparr>)"

definition dispatchSingleAgent :: "ctx \<Rightarrow> DispatchRequest \<Rightarrow> unit sm_result prog" where
  "dispatchSingleAgent c req0 = do {
     let req = (if r_RootTraceID req0 = [] then req0\<lparr>r_RootTraceID := ctx_trace c\<rparr> else req0);
     refused \<leftarrow> reserveSlot req;
     (case refused of
        Some (g, reason) \<Rightarrow> do { log_skip_inflight g req reason; State_Monad.return (Inr ()) }
      | None \<Rightarrow> do {
          log_event TypeDispatch (r_Repo req) (r_IssueNum req) (dispatch_payload req);
          (if r_RolloutIndex req > 0
           then log_event TypeRolloutDispatched (r_Repo req) (r_IssueNum req) (dispatch_payload req)
           else State_Monad.return ());
          s \<leftarrow> State_Monad.get;
          if ctx_done c s then do { rollbackSlot req; State_Monad.return (Inl ContextDone) }
          else do { send c req; State_Monad.return (Inr ()) }
        })
   }"

text \<open>Sequencing of a gate: an error or a block ends the handler.\<close>

definition unless_blocked :: "bool sm_result prog \<Rightarrow> unit sm_result prog \<Rightarrow> unit sm_result prog" where
  "unless_blocked gate rest = do {
     r \<leftarrow> gate;
     (case r of
        Inl e \<Rightarrow> State_Monad.return (Inl e)
      | Inr blocked \<Rightarrow> if blocked then State_Monad.return (Inr ()) else rest)
   }"

definition DispatchAgent :: "ctx \<Rightarrow> string \<Rightarrow> int \<Rightarrow> string \<Rightarrow> string \<Rightarrow> string \<Rightarrow> unit sm_result prog" where
  "DispatchAgent c0 repo n agent workflow state = do {
     c \<leftarrow> issue_ctx c0 repo n;
     unless_blocked (isBlockedByDone repo n agent)
      (unless_blocked (isBlockedByFailureCap repo n agent)
       (unless_blocked (isBlockedByDependency repo n agent workflow state)
        (do {
           reconcileStaleInflight repo n;
           unless_blocked (isBlockedByIssueClaim repo n agent workflow state)
             (dispatchSingleAgent c
               \<lparr>r_Repo = repo, r_IssueNum = n, r_AgentName = agent, r_Workflow = workflow, r_State = state,
                r_SourceState = [], r_RolloutIndex = 0, r_RolloutsTotal = 0, r_RolloutGroupID = [],
                r_RootTraceID = []\<rparr>)
         })))
   }"

section \<open>Fan-out\<close>

definition stateAgents :: "WState \<Rightarrow> string list" where
  "stateAgents st = (if Agents st \<noteq> [] then Agents st else if Agent st = [] then [] else [Agent st])"

definition stateHasAgents :: "WState \<Rightarrow> bool" where
  "stateHasAgents st \<longleftrightarrow> stateAgents st \<noteq> []"

definition stateMode :: "WState \<Rightarrow> string" where
  "stateMode st = (if trim_space (Mode st) = [] then StateModeReview else Mode st)"

definition inferAgentRole :: "string \<Rightarrow> string" where
  "inferAgentRole agent =
     (let name = map lower_char (trim_space agent)
      in if contains_sub name ''review'' then ''review''
         else if contains_sub name ''dev'' then ''dev'' else ''other'')"

definition rollout_override :: "string \<Rightarrow> int option" where
  "rollout_override label =
     (if label = ''rollouts:2'' then Some 2 else if label = ''rollouts:3'' then Some 3
      else if label = ''rollouts:4'' then Some 4 else if label = ''rollouts:5'' then Some 5 else None)"

fun scanRolloutLabels :: "int \<Rightarrow> string list \<Rightarrow> int sm_result" where
  "scanRolloutLabels override [] = Inr override"
| "scanRolloutLabels override (l # ls) =
     (let label = trim_space l
      in if \<not> has_prefix label ''rollouts:'' then scanRolloutLabels override ls
         else (case rollout_override label of
                 None \<Rightarrow> Inl (InvalidRollout label)
               | Some n \<Rightarrow> if override \<noteq> 0 \<and> override \<noteq> n then Inl (ConflictingRollouts label)
                           else scanRolloutLabels n ls))"

definition resolveStateRollouts :: "WState \<Rightarrow> string list \<Rightarrow> int sm_result" where
  "resolveStateRollouts st labels =
     (let dflt = (if Rollouts st > 0 then Rollouts st else 1)
      in case scanRolloutLabels 0 labels of
           Inl e \<Rightarrow> Inl e
         | Inr override \<Rightarrow> Inr (if override > 0 then override else dflt))"

definition base_request :: "string \<Rightarrow> int \<Rightarrow> string \<Rightarrow> string \<Rightarrow> string \<Rightarrow> string \<Rightarrow> DispatchRequest" where
  "base_request repo n agent workflow state source =
     \<lparr>r_Repo = repo, r_IssueNum = n, r_AgentName = agent, r_Workflow = workflow, r_State = state,
      r_SourceState = source, r_RolloutIndex = 0, r_RolloutsTotal = 0, r_RolloutGroupID = [],
      r_RootTraceID = []\<rparr>"

definition inheritedRolloutRequests ::
  "string \<Rightarrow> int \<Rightarrow> WorkflowConfig \<Rightarrow> string \<Rightarrow> string \<Rightarrow> string \<Rightarrow> store \<Rightarrow> DispatchRequest list sm_result" where
  "inheritedRolloutRequests repo n w source target agent d =
     (if source = [] \<or> source = target then Inr []
      else (case map_of (States w) source of
          None \<Rightarrow> Inr []
        | Some sd \<Rightarrow>
            if trim_space (Strategy (Join sd)) \<noteq> JoinRollouts then Inr []
            else (case LatestRolloutGroupSummaryForIssueState repo n (wf_Name w) source d of
                Inl e \<Rightarrow> Inl (SMStore e)
              | Inr None \<Rightarrow> Inr []
              | Inr (Some sm) \<Rightarrow>
                  if rg_SuccessCount sm = 0 then Inr []
                  else Inr (sort_key r_RolloutIndex
                    (map (\<lambda>t. (base_request repo n agent (wf_Name w) target source)
                         \<lparr>r_RolloutIndex := t_RolloutIndex t, r_RolloutsTotal := t_RolloutsTotal t,
                          r_RolloutGroupID := t_RolloutGroupID t\<rparr>)
                      (filter (\<lambda>t. t_Status t = TaskStatusCompleted \<and> t_RolloutIndex t > 0) (rg_Tasks sm)))))))"

text \<open>The requests of a state entry: a numbered fan-out under a fresh group id, the successful
  rollouts of the source state, or one request per agent.\<close>

definition buildRequests ::
  "string \<Rightarrow> int \<Rightarrow> WorkflowConfig \<Rightarrow> string \<Rightarrow> string \<Rightarrow> WState \<Rightarrow> int \<Rightarrow> DispatchRequest list sm_result prog" where
  "buildRequests repo n w source state st rollouts =
     (let agents = stateAgents st; agent0 = hd agents;
          plain = map (\<lambda>a. base_request repo n a (wf_Name w) state source) agents
      in if rollouts > 1 then do {
           gid \<leftarrow> State (\<lambda>s. (uuids s (uuid_pos s), s\<lparr>uuid_pos := uuid_pos s + 1\<rparr>));
           State_Monad.return (Inr (map (\<lambda>i. (base_request repo n agent0 (wf_Name w) state source)
                \<lparr>r_RolloutIndex := i, r_RolloutsTotal := rollouts, r_RolloutGroupID := gid\<rparr>) [1..rollouts]))
         }
         else if stateMode st \<noteq> StateModeSynth then do {
           r \<leftarrow> query (inheritedRolloutRequests repo n w source state agent0);
           State_Monad.return (case r of
             Inl e \<Rightarrow> Inl e
           | Inr inherited \<Rightarrow> Inr (if inherited \<noteq> [] then inherited else plain))
         }
         else State_Monad.return (Inr plain))"

definition slots_of :: "DispatchRequest list \<Rightarrow> (string \<times> string) list" where
  "slots_of reqs = fold (\<lambda>r. AList.update (dispatchSlotKey r) (r_AgentName r)) reqs []"

fun dispatchAll :: "ctx \<Rightarrow> DispatchRequest list \<Rightarrow> unit sm_result prog" where
  "dispatchAll c [] = State_Monad.return (Inr ())"
| "dispatchAll c (req # reqs) = do {
     r \<leftarrow> dispatchSingleAgent c req;
     (case r of Inl e \<Rightarrow> State_Monad.return (Inl e) | Inr _ \<Rightarrow> dispatchAll c reqs)
   }"

definition startGroup ::
  "ctx \<Rightarrow> string \<Rightarrow> int \<Rightarrow> string \<Rightarrow> string \<Rightarrow> dispatchGroup \<Rightarrow> DispatchRequest list \<Rightarrow> unit sm_result prog" where
  "startGroup c repo n workflow state gr reqs = do {
     s \<leftarrow> State_Monad.get;
     (case map_of (inflight s) (issueKey repo n) of
        Some g \<Rightarrow> do {
          log_event TypeDispatchSkippedInflight repo n
            [(''state'', PStr state),
             (''reason'', PStr (if g_workflow g \<noteq> workflow \<or> g_state g \<noteq> state
                then ''different state/workflow already running'' else ''same state group already inflight'')),
             (''task_status'', PStr (fst (inspectInflightTaskStatus repo n g (db s)))),
             (''workflow'', PStr workflow)];
          State_Monad.return (Inr ())
        }
      | None \<Rightarrow> do {
          State_Monad.update (\<lambda>s. s\<lparr>inflight := AList.update (issueKey repo n) gr (inflight s)\<rparr>);
          (if length reqs > 1 \<and> r_RolloutGroupID (hd reqs) \<noteq> []
           then log_event TypeRolloutGroupStarted repo n
             [(''group_id'', PStr (r_RolloutGroupID (hd reqs))), (''rollouts_total'', PInt (int (length reqs))),
              (''issue_num'', PInt n), (''role'', PStr (inferAgentRole (r_AgentName (hd reqs)))), (''state'', PStr state)]
           else State_Monad.return ());
          dispatchAll c reqs
        })
   }"

definition dispatchStateAgents ::
  "ctx \<Rightarrow> string \<Rightarrow> int \<Rightarrow> WorkflowConfig \<Rightarrow> string \<Rightarrow> string \<Rightarrow> WState \<Rightarrow> string list \<Rightarrow> unit sm_result prog" where
  "dispatchStateAgents c repo n w source state st labels =
     (if stateAgents st = [] then State_Monad.return (Inr ())
      else unless_blocked (isBlockedByDependency repo n (hd (stateAgents st)) (wf_Name w) state) (do {
        reconcileStaleInflight repo n;
        unless_blocked (isBlockedByIssueClaim repo n (hd (stateAgents st)) (wf_Name w) state) (do {
          (case resolveStateRollouts st labels of
             Inl e \<Rightarrow> State_Monad.return (Inl e)
           | Inr rollouts \<Rightarrow> do {
               r \<leftarrow> buildRequests repo n w source state st rollouts;
               (case r of
                  Inl e \<Rightarrow> State_Monad.return (Inl e)
                | Inr reqs \<Rightarrow>
                   (let join = (if trim_space (Strategy (Join st)) = [] then defaultJoinConfig else Join st)
                    in startGroup c repo n (wf_Name w) state
                         (newDispatchGroup (wf_Name w) state (stateMode st) join (slots_of reqs)) reqs))
             })
        })
      }))"

end
