(* ===== verification/SM_Events.thy ===== *)
theory SM_Events
  imports SM_Dispatch
begin

text \<open>
  The event half of \<^verbatim>\<open>internal/statemachine\<close>: from a poller event to a state entry or
  a transition, with the review, synthesis and total-transition caps, the retry limit on
  back-edges, and the pipeline hazards. Definitions in the order in which
  \<^verbatim>\<open>HandleEvent\<close> reaches them.
\<close>

section \<open>Workflow lookup\<close>

definition findMatchingWorkflows :: "string list \<Rightarrow> sm \<Rightarrow> WorkflowConfig list" where
  "findMatchingWorkflows labels s =
     filter (\<lambda>w. TriggerLabel w \<noteq> [] \<and> TriggerLabel w \<in> set labels) (map snd (workflows s))"

definition findCurrentState :: "WorkflowConfig \<Rightarrow> string list \<Rightarrow> (string \<times> WState) option" where
  "findCurrentState w labels =
     find (\<lambda>(_, st). EnterLabel st \<noteq> [] \<and> EnterLabel st \<in> set labels) (States w)"

definition ensureWorkflowInstance :: "string \<Rightarrow> string \<Rightarrow> int \<Rightarrow> string \<Rightarrow> unit result prog" where
  "ensureWorkflowInstance workflow repo n state = exec (CreateIfMissing repo n workflow state)"

definition queryPriorWorkflowState :: "string \<Rightarrow> string \<Rightarrow> int \<Rightarrow> store \<Rightarrow> string" where
  "queryPriorWorkflowState workflow repo n d =
     (case QueryByRepoIssue repo n d of
        Inl _ \<Rightarrow> []
      | Inr is \<Rightarrow> (case find (\<lambda>i. in_WorkflowName i = workflow) is of
                      None \<Rightarrow> [] | Some i \<Rightarrow> in_CurrentState i))"

fun latestInto :: "string \<Rightarrow> string \<Rightarrow> WorkflowInstance list \<Rightarrow> string" where
  "latestInto workflow to [] = []"
| "latestInto workflow to (i # is) =
     (if in_WorkflowName i \<noteq> workflow then latestInto workflow to is
      else (case find (\<lambda>h. st_To h = to) (rev (in_History i)) of
              Some h \<Rightarrow> st_From h
            | None \<Rightarrow> latestInto workflow to is))"

definition latestTransitionIntoState :: "string \<Rightarrow> string \<Rightarrow> int \<Rightarrow> string \<Rightarrow> store \<Rightarrow> string" where
  "latestTransitionIntoState workflow repo n to d =
     (case QueryByRepoIssue repo n d of Inl _ \<Rightarrow> [] | Inr is \<Rightarrow> latestInto workflow to is)"

definition recordStateEntry :: "string \<Rightarrow> string \<Rightarrow> int \<Rightarrow> string \<Rightarrow> WState \<Rightarrow> unit prog" where
  "recordStateEntry workflow repo n state st = do {
     prior \<leftarrow> query (queryPriorWorkflowState workflow repo n);
     if prior = [] \<or> prior = state then State_Monad.return ()
     else do {
       r \<leftarrow> exec (Advance repo n workflow prior state (Agent st));
       (case r of
          Inl _ \<Rightarrow> State_Monad.return ()
        | Inr _ \<Rightarrow> do { _ \<leftarrow> exec (IncrementTransition repo n prior state); State_Monad.return () })
     }
   }"

section \<open>Hazards\<close>

definition hasStatusLabel :: "string list \<Rightarrow> bool" where
  "hasStatusLabel labels \<longleftrightarrow> list_ex (\<lambda>l. has_prefix l ''status:'') labels"

definition labelsFingerprint :: "string list \<Rightarrow> string" where
  "labelsFingerprint labels = hash_parts (sort labels)"

definition hazardFingerprint :: "string list \<Rightarrow> string" where
  "hazardFingerprint parts = hash_parts parts"

definition hasAnyWorkflow :: "sm \<Rightarrow> bool" where
  "hasAnyWorkflow s \<longleftrightarrow> list_ex (\<lambda>(_, w). trim_space (TriggerLabel w) \<noteq> []) (workflows s)"

definition workflowTriggerLabels :: "sm \<Rightarrow> string list" where
  "workflowTriggerLabels s = sort (filter (\<lambda>l. l \<noteq> []) (map (\<lambda>(_, w). trim_space (TriggerLabel w)) (workflows s)))"

definition detectNoWorkflowMatchHazard :: "ChangeEvent \<Rightarrow> unit prog" where
  "detectNoWorkflowMatchHazard ev = do {
     s \<leftarrow> State_Monad.get;
     if \<not> hasStatusLabel (ce_Labels ev) \<or> \<not> hasAnyWorkflow s then State_Monad.return ()
     else do {
       r \<leftarrow> exec (UpsertIssuePipelineHazard (ce_Repo ev) (ce_IssueNum ev) HazardKindNoWorkflowMatch
              (labelsFingerprint (ce_Labels ev)));
       (case r of
          Inr True \<Rightarrow> log_event TypeIssueNoWorkflowMatch (ce_Repo ev) (ce_IssueNum ev)
            [(''labels'', PStrs (ce_Labels ev)), (''workflow_triggers'', PStrs (workflowTriggerLabels s)),
             (''hint'', PStr ''add one of the workflow trigger labels (e.g. workbuddy) to opt this issue into the pipeline'')]
        | _ \<Rightarrow> State_Monad.return ())
     }
   }"

definition detectDependencyUnenteredHazard :: "WorkflowConfig \<Rightarrow> ChangeEvent \<Rightarrow> unit prog" where
  "detectDependencyUnenteredHazard w ev = do {
     s \<leftarrow> State_Monad.get;
     (case QueryIssueCache (ce_Repo ev) (ce_IssueNum ev) (db s) of
        Inr (Some cache) \<Rightarrow>
         (let decl = ParseDeclaration (yaml s) (ce_Repo ev) (ic_Body cache);
              deps = map (\<lambda>d. if pd_Normalized d = [] then pd_Raw d else pd_Normalized d) (decl_Dependencies decl)
          in if \<not> decl_HasBlock decl then State_Monad.return ()
             else do {
               r \<leftarrow> exec (UpsertIssuePipelineHazard (ce_Repo ev) (ce_IssueNum ev) HazardKindAwaitingStatusLabel
                      (hazardFingerprint [labelsFingerprint (ce_Labels ev), decl_SourceHash decl]));
               (case r of
                  Inr True \<Rightarrow> log_event TypeIssueDependencyUnentered (ce_Repo ev) (ce_IssueNum ev)
                    [(''workflow'', PStr (wf_Name w)), (''reason'', PStr ''missing_status_label''),
                     (''labels'', PStrs (ce_Labels ev)), (''depends_on'', PStrs deps),
                     (''hint'', PStr ''add status:blocked so the dependency gate can evaluate, or status:developing if the deps are already satisfied'')]
                | _ \<Rightarrow> State_Monad.return ())
             })
      | _ \<Rightarrow> State_Monad.return ())
   }"

definition clearHazardIfKind :: "string \<Rightarrow> int \<Rightarrow> string \<Rightarrow> unit prog" where
  "clearHazardIfKind repo n kind = do {
     r \<leftarrow> query (QueryIssuePipelineHazard repo n);
     (case r of
        Inr (Some h) \<Rightarrow>
          if h_Kind h \<noteq> kind then State_Monad.return ()
          else do { _ \<leftarrow> exec (ClearIssuePipelineHazard repo n); State_Monad.return () }
      | _ \<Rightarrow> State_Monad.return ())
   }"

section \<open>Cycle caps\<close>

record cycleCapSpec =
  cs_synth :: bool
  cs_maxCycles :: int
  cs_countLabel :: string
  cs_capLabel :: string
  cs_emitCountEvent :: bool
  cs_alertOnCapHit :: bool
  cs_headsUp :: bool

definition devReviewCycleCapSpec :: "WorkflowConfig \<Rightarrow> cycleCapSpec" where
  "devReviewCycleCapSpec w =
     \<lparr>cs_synth = False,
      cs_maxCycles = (if MaxReviewCycles w \<le> 0 then DefaultMaxReviewCycles else MaxReviewCycles w),
      cs_countLabel = ''cycle_count'', cs_capLabel = ''max_review_cycles'',
      cs_emitCountEvent = True, cs_alertOnCapHit = True, cs_headsUp = True\<rparr>"

definition synthCycleCapSpec :: "WorkflowConfig \<Rightarrow> cycleCapSpec" where
  "synthCycleCapSpec w =
     \<lparr>cs_synth = True, cs_maxCycles = DefaultMaxSynthCycles,
      cs_countLabel = ''synth_cycle_count'', cs_capLabel = ''max_synth_cycles'',
      cs_emitCountEvent = False, cs_alertOnCapHit = False, cs_headsUp = False\<rparr>"

definition enforceCycleCap :: "WorkflowConfig \<Rightarrow> string \<Rightarrow> int \<Rightarrow> cycleCapSpec \<Rightarrow> bool sm_result prog" where
  "enforceCycleCap w repo n spec = do {
     r \<leftarrow> exec (if cs_synth spec then IncrementSynthCycleCount repo n else IncrementDevReviewCycleCount repo n);
     (case r of
        Inl e \<Rightarrow> State_Monad.return (Inl (SMStore e))
      | Inr count \<Rightarrow> do {
          let payload = [(''workflow'', PStr (wf_Name w)), (cs_countLabel spec, PInt count),
                         (cs_capLabel spec, PInt (cs_maxCycles spec))];
          (if cs_emitCountEvent spec then log_event TypeDevReviewCycleCount repo n payload
           else State_Monad.return ());
          if count \<ge> cs_maxCycles spec then do {
            _ \<leftarrow> exec (if cs_synth spec then MarkIssueSynthCycleCapHit repo n else MarkIssueCycleCapHit repo n);
            log_event TypeDevReviewCycleCapReached repo n payload;
            (if cs_alertOnCapHit spec
             then publishAlert KindDevReviewCycleCapReached SeverityError repo n [] payload
             else State_Monad.return ());
            report_cap repo n (wf_Name w) count (cs_maxCycles spec);
            State_Monad.return (Inr True)
          } else if cs_headsUp spec \<and> count = cs_maxCycles spec - 1 then do {
            let warn = payload @ [(''remaining'', PInt (cs_maxCycles spec - count))];
            log_event TypeDevReviewCycleApproaching repo n warn;
            publishAlert KindDevReviewCycleApproaching SeverityWarn repo n [] warn;
            State_Monad.return (Inr False)
          } else State_Monad.return (Inr False)
        })
   }"

definition applyDevReviewCycleCap :: "WorkflowConfig \<Rightarrow> string \<Rightarrow> int \<Rightarrow> string \<Rightarrow> bool sm_result prog" where
  "applyDevReviewCycleCap w repo n state =
     (if state \<noteq> stateNameDeveloping then State_Monad.return (Inr False)
      else do {
        prior \<leftarrow> query (queryPriorWorkflowState (wf_Name w) repo n);
        if prior = stateNameBlocked then do {
          r \<leftarrow> exec (ResetIssueCycleState repo n);
          (case r of
             Inl e \<Rightarrow> State_Monad.return (Inl (SMStore e))
           | Inr _ \<Rightarrow> do {
               log_event TypeDevReviewCycleCountReset repo n
                 [(''workflow'', PStr (wf_Name w)), (''prior_state'', PStr prior),
                  (''reason'', PStr ''blocked_to_developing'')];
               State_Monad.return (Inr False)
             })
        } else if prior \<noteq> stateNameReviewing then State_Monad.return (Inr False)
        else do {
          source \<leftarrow> query (latestTransitionIntoState (wf_Name w) repo n stateNameReviewing);
          if source = stateNameSynthesizing then enforceCycleCap w repo n (synthCycleCapSpec w)
          else enforceCycleCap w repo n (devReviewCycleCapSpec w)
        }
      })"

text \<open>The total-transition cap at a state entry: \<open>True\<close> ends the handler. An increment that fails
  is logged and counts as zero.\<close>

definition applyTotalTransitionCap :: "WorkflowConfig \<Rightarrow> string \<Rightarrow> int \<Rightarrow> bool prog" where
  "applyTotalTransitionCap w repo n = do {
     r \<leftarrow> exec (IncrementTotalTransitionCount repo n);
     let total = (case r of Inl _ \<Rightarrow> 0 | Inr c \<Rightarrow> c);
     if total > MaxTotalTransitions then do {
       log_event TypeTotalTransitionCapReached repo n
         [(''workflow'', PStr (wf_Name w)), (''total_transitions'', PInt total),
          (''max_transitions'', PInt MaxTotalTransitions)];
       publishAlert KindDevReviewCycleCapReached SeverityError repo n []
         [(''workflow'', PStr (wf_Name w)), (''total_transitions'', PInt total),
          (''max_transitions'', PInt MaxTotalTransitions), (''reason'', PStr ''total_transition_cap'')];
       report_cap repo n (wf_Name w) total MaxTotalTransitions;
       State_Monad.return True
     } else State_Monad.return False
   }"

section \<open>Transitions\<close>

definition transitionAllowedForState :: "string \<Rightarrow> WState \<Rightarrow> string \<Rightarrow> string \<Rightarrow> string list \<Rightarrow> bool" where
  "transitionAllowedForState current st label target labels =
     (if current \<noteq> stateNameDeveloping then True
      else if \<not> list_ex (\<lambda>(_, t). t = stateNameSynthesizing) (Transitions st) then True
      else (case resolveStateRollouts st labels of
              Inl _ \<Rightarrow> False
            | Inr rollouts \<Rightarrow>
                if target = stateNameSynthesizing then rollouts > 1
                else if target = stateNameReviewing \<and> label = ''status:reviewing'' then rollouts \<le> 1
                else True))"

definition isBackEdge :: "string \<Rightarrow> int \<Rightarrow> string \<Rightarrow> store \<Rightarrow> bool" where
  "isBackEdge repo n target d =
     (case QueryTransitionCounts repo n d of
        Inl _ \<Rightarrow> False
      | Inr tcs \<Rightarrow> list_ex (\<lambda>tc. tc_ToState tc = target \<and> tc_Count tc > 0) tcs)"

definition max_retries :: "WorkflowConfig \<Rightarrow> int" where
  "max_retries w = (if MaxRetries w \<le> 0 then 3 else MaxRetries w)"

text \<open>Counting the transition and the back-edge limit: \<open>Inr True\<close> lets it happen.\<close>

definition admitTransition :: "WorkflowConfig \<Rightarrow> string \<Rightarrow> int \<Rightarrow> string \<Rightarrow> string \<Rightarrow> bool sm_result prog" where
  "admitTransition w repo n current target = do {
     back \<leftarrow> query (isBackEdge repo n target);
     r \<leftarrow> exec (IncrementTransition repo n current target);
     (case r of
        Inl e \<Rightarrow> State_Monad.return (Inl (SMStore e))
      | Inr count \<Rightarrow>
          if back \<and> count \<ge> max_retries w then do {
            let p = [(''from'', PStr current), (''to'', PStr target), (''count'', PInt count),
                     (''max_retries'', PInt (max_retries w))];
            let q = [(''from'', PStr current), (''rejected_to'', PStr target), (''needs_human'', PBool True)];
            log_event TypeCycleLimitReached repo n p;
            publishAlert KindCycleLimitReached SeverityError repo n [] p;
            log_event TypeTransitionToFailed repo n q;
            publishAlert KindTransitionToFailed SeverityError repo n [] q;
            State_Monad.return (Inr False)
          } else State_Monad.return (Inr True))
   }"

definition log_transition_skipped :: "ChangeEvent \<Rightarrow> string \<Rightarrow> string \<Rightarrow> string \<Rightarrow> unit prog" where
  "log_transition_skipped ev current target reason =
     log_event TypeTransitionSkipped (ce_Repo ev) (ce_IssueNum ev)
       [(''from_state'', PStr current), (''target_state'', PStr target),
        (''added_label'', PStr (ce_Detail ev)), (''reason'', PStr reason)]"

definition takeTransition ::
  "ctx \<Rightarrow> WorkflowConfig \<Rightarrow> ChangeEvent \<Rightarrow> string \<Rightarrow> WState \<Rightarrow> string \<Rightarrow> WState \<Rightarrow> (bool \<times> sm_error option) prog" where
  "takeTransition c w ev current st target tst = do {
     r \<leftarrow> exec (Advance (ce_Repo ev) (ce_IssueNum ev) (wf_Name w) current target (Agent st));
     (case r of
        Inl e \<Rightarrow> State_Monad.return (False, Some (SMStore e))
      | Inr _ \<Rightarrow> do {
          log_event TypeTransition (ce_Repo ev) (ce_IssueNum ev) [(''from'', PStr current), (''to'', PStr target)];
          if stateHasAgents tst then do {
            d \<leftarrow> dispatchStateAgents c (ce_Repo ev) (ce_IssueNum ev) w current target tst (ce_Labels ev);
            State_Monad.return (True, case d of Inl e \<Rightarrow> Some e | Inr _ \<Rightarrow> None)
          } else State_Monad.return (True, None)
        })
   }"

definition evaluateTransitions ::
  "ctx \<Rightarrow> WorkflowConfig \<Rightarrow> ChangeEvent \<Rightarrow> string \<Rightarrow> WState \<Rightarrow> (bool \<times> sm_error option) prog" where
  "evaluateTransitions c w ev current st =
     (if ce_Type ev \<noteq> EventLabelAdded \<or> ce_Detail ev = [] then State_Monad.return (False, None)
      else (case map_of (Transitions st) (ce_Detail ev) of
          None \<Rightarrow> State_Monad.return (False, None)
        | Some target \<Rightarrow>
            if \<not> transitionAllowedForState current st (ce_Detail ev) target (ce_Labels ev) then do {
              log_transition_skipped ev current target ''transition_not_allowed'';
              State_Monad.return (False, None)
            } else (case map_of (States w) target of
                None \<Rightarrow> do {
                  log_transition_skipped ev current target ''target_unknown'';
                  State_Monad.return (False, None)
                }
              | Some tst \<Rightarrow> do {
                  a \<leftarrow> admitTransition w (ce_Repo ev) (ce_IssueNum ev) current target;
                  (case a of
                     Inl e \<Rightarrow> State_Monad.return (False, Some e)
                   | Inr ok \<Rightarrow> if ok then takeTransition c w ev current st target tst
                               else State_Monad.return (False, None))
                })))"

section \<open>Events\<close>

definition stateEntryDetected :: "ChangeEvent \<Rightarrow> WState \<Rightarrow> bool" where
  "stateEntryDetected ev st \<longleftrightarrow>
     (ce_Type ev = EventLabelAdded \<and> ce_Detail ev = EnterLabel st) \<or>
     ce_Type ev = EventIssueCreated \<or> ce_Type ev = EventIssueResynced"

text \<open>The gate of a periodic resync: \<open>Some reason\<close> suppresses it.\<close>

definition resyncSuppressed :: "ChangeEvent \<Rightarrow> sm \<Rightarrow> string option" where
  "resyncSuppressed ev s =
     (if IsInflight (ce_Repo ev) (ce_IssueNum ev) s then Some ''inflight''
      else (case HasAnyActiveTask (ce_Repo ev) (ce_IssueNum ev) (db s) of
              Inr True \<Rightarrow> Some ''active_task'' | _ \<Rightarrow> None))"

definition clearForeignStateGroup :: "string \<Rightarrow> string \<Rightarrow> unit prog" where
  "clearForeignStateGroup key state = State_Monad.update (\<lambda>s.
     case map_of (inflight s) key of
       Some g \<Rightarrow> if g_state g \<noteq> state then s\<lparr>inflight := AList.delete key (inflight s)\<rparr> else s
     | None \<Rightarrow> s)"

text \<open>The caps of a state entry that is a real change: \<open>Inr True\<close> ends the handler.\<close>

definition entryCaps :: "WorkflowConfig \<Rightarrow> ChangeEvent \<Rightarrow> string \<Rightarrow> bool sm_result prog" where
  "entryCaps w ev state =
     (if ce_Type ev = EventIssueResynced then State_Monad.return (Inr False)
      else do {
        capped \<leftarrow> applyTotalTransitionCap w (ce_Repo ev) (ce_IssueNum ev);
        if capped then State_Monad.return (Inr True)
        else applyDevReviewCycleCap w (ce_Repo ev) (ce_IssueNum ev) state
      })"

definition enterStateWithAgents ::
  "ctx \<Rightarrow> WorkflowConfig \<Rightarrow> ChangeEvent \<Rightarrow> string \<Rightarrow> string \<Rightarrow> WState \<Rightarrow> unit sm_result prog" where
  "enterStateWithAgents c w ev prior state st = do {
     log_event TypeStateEntry (ce_Repo ev) (ce_IssueNum ev)
       [(''state'', PStr state), (''agents'', PStrs (stateAgents st)), (''join'', PJoin (Join st))];
     clearForeignStateGroup (issueKey (ce_Repo ev) (ce_IssueNum ev)) state;
     unless_blocked (entryCaps w ev state) (do {
       recordStateEntry (wf_Name w) (ce_Repo ev) (ce_IssueNum ev) state st;
       _ \<leftarrow> exec (TouchIssueFirstDispatch (ce_Repo ev) (ce_IssueNum ev));
       (if ce_Type ev = EventIssueResynced
        then log_event TypeIssueResynced (ce_Repo ev) (ce_IssueNum ev)
          [(''workflow'', PStr (wf_Name w)), (''state'', PStr state), (''labels'', PStrs (ce_Labels ev)),
           (''author'', PStr (ce_Author ev)), (''title'', PStr (ce_Detail ev))]
        else State_Monad.return ());
       dispatchStateAgents c (ce_Repo ev) (ce_IssueNum ev) w prior state st (ce_Labels ev)
     })
   }"

definition processEntry ::
  "ctx \<Rightarrow> WorkflowConfig \<Rightarrow> ChangeEvent \<Rightarrow> string \<Rightarrow> string \<Rightarrow> WState \<Rightarrow> unit sm_result prog" where
  "processEntry c w ev prior state st = do {
     s \<leftarrow> State_Monad.get;
     let entry = stateEntryDetected ev st;
     let suppressed = (if ce_Type ev = EventIssueResynced \<and> entry \<and> stateHasAgents st
                       then resyncSuppressed ev s else None);
     (case suppressed of
        Some reason \<Rightarrow> do {
          log_event TypeDispatchSkippedInflight (ce_Repo ev) (ce_IssueNum ev)
            [(''state'', PStr state), (''source'', PStr ''resync''), (''reason'', PStr reason),
             (''trigger'', PStr (ce_Type ev))];
          State_Monad.return (Inr ())
        }
      | None \<Rightarrow>
          if entry \<and> stateHasAgents st then enterStateWithAgents c w ev prior state st
          else if entry then do {
            recordStateEntry (wf_Name w) (ce_Repo ev) (ce_IssueNum ev) state st;
            State_Monad.return (Inr ())
          } else do {
            r \<leftarrow> evaluateTransitions c w ev state st;
            State_Monad.return (case snd r of None \<Rightarrow> Inr () | Some e \<Rightarrow> Inl e)
          })
   }"

definition processWorkflowEvent :: "ctx \<Rightarrow> WorkflowConfig \<Rightarrow> ChangeEvent \<Rightarrow> unit sm_result prog" where
  "processWorkflowEvent c w ev = do {
     let cur = findCurrentState w (ce_Labels ev);
     r \<leftarrow> ensureWorkflowInstance (wf_Name w) (ce_Repo ev) (ce_IssueNum ev)
            (case cur of None \<Rightarrow> [] | Some (name, _) \<Rightarrow> name);
     (case r of
        Inl e \<Rightarrow> State_Monad.return (Inl (SMStore e))
      | Inr _ \<Rightarrow> do {
          prior \<leftarrow> query (queryPriorWorkflowState (wf_Name w) (ce_Repo ev) (ce_IssueNum ev));
          (case cur of
             None \<Rightarrow> do {
               (if ce_IssueNum ev > 0 then detectDependencyUnenteredHazard w ev else State_Monad.return ());
               State_Monad.return (Inr ())
             }
           | Some (state, st) \<Rightarrow> do {
               (if ce_IssueNum ev > 0
                then clearHazardIfKind (ce_Repo ev) (ce_IssueNum ev) HazardKindAwaitingStatusLabel
                else State_Monad.return ());
               processEntry c w ev prior state st
             })
        })
   }"

definition eventKey :: "ChangeEvent \<Rightarrow> string" where
  "eventKey ev = ce_Repo ev @ ''#'' @ itoa (ce_IssueNum ev) @ ''#'' @ ce_Type ev @ ''#'' @ ce_Detail ev"

definition HandleEvent :: "ctx \<Rightarrow> ChangeEvent \<Rightarrow> unit sm_result prog" where
  "HandleEvent c0 ev = do {
     c \<leftarrow> issue_ctx c0 (ce_Repo ev) (ce_IssueNum ev);
     s \<leftarrow> State_Monad.get;
     if eventKey ev \<in> set (processedEvents s) then State_Monad.return (Inr ())
     else do {
       State_Monad.update (\<lambda>s. s\<lparr>processedEvents := set_add (eventKey ev) (processedEvents s)\<rparr>);
       (case findMatchingWorkflows (ce_Labels ev) s of
          [] \<Rightarrow> do {
            (if ce_IssueNum ev > 0 \<and> ce_Type ev \<noteq> EventPollCycleDone then detectNoWorkflowMatchHazard ev
             else State_Monad.return ());
            State_Monad.return (Inr ())
          }
        | w # ws \<Rightarrow> do {
            (if ce_IssueNum ev > 0
             then clearHazardIfKind (ce_Repo ev) (ce_IssueNum ev) HazardKindNoWorkflowMatch
             else State_Monad.return ());
            if ws \<noteq> [] then do {
              log_event TypeErrorMultiWorkflow (ce_Repo ev) (ce_IssueNum ev)
                [(''workflows'', PStrs (map wf_Name (w # ws))), (''labels'', PStrs (ce_Labels ev))];
              State_Monad.return (Inl (MatchesManyWorkflows (Suc (length ws))))
            } else processWorkflowEvent c w ev
          })
     }
   }"

end
