(* ===== verification/SM_Completion.thy ===== *)
theory SM_Completion
  imports SM_Events
begin

text \<open>
  The completion half of \<^verbatim>\<open>internal/statemachine\<close>: an agent's result is recorded in
  its dispatch group, the join decides whether the group is over and whether it passed, and
  the issue is advanced, blocked or watched; and the detector of issues whose labels do not
  change after a completion.
\<close>

section \<open>Joins\<close>

definition stateModeFromGroup :: "dispatchGroup \<Rightarrow> string" where
  "stateModeFromGroup g = (if trim_space (g_mode g) = [] then StateModeReview else g_mode g)"

definition canonicalAgentName :: "string \<Rightarrow> string \<Rightarrow> store \<Rightarrow> string" where
  "canonicalAgentName taskID fallback d =
     (if trim_space taskID = [] then fallback
      else (case GetTask taskID d of
              Inl _ \<Rightarrow> fallback
            | Inr t \<Rightarrow> if trim_space (t_AgentName t) = [] then fallback else t_AgentName t))"

text \<open>Slot key, rollout group id, rollout index and rollout total of the completed task.\<close>

definition completionSlot :: "string \<Rightarrow> string \<Rightarrow> store \<Rightarrow> string \<times> string \<times> int \<times> int" where
  "completionSlot taskID agent d =
     (if trim_space taskID = [] then (agent, [], 0, 1)
      else (case GetTask taskID d of
              Inl _ \<Rightarrow> (agent, [], 0, 1)
            | Inr t \<Rightarrow> (if t_RolloutIndex t > 0 then rolloutSlotKey (t_RolloutIndex t) else agent,
                        t_RolloutGroupID t, t_RolloutIndex t, t_RolloutsTotal t)))"

definition completeSlot :: "string \<Rightarrow> int \<Rightarrow> dispatchGroup \<Rightarrow> dispatchGroup" where
  "completeSlot slot exit g =
     (if slot \<in> set (g_completedSlots g) then g
      else (let g1 = g\<lparr>g_completedSlots := set_add slot (g_completedSlots g)\<rparr>
            in if exit = 0 then g1\<lparr>g_successSlots := set_add slot (g_successSlots g1)\<rparr>
               else g1\<lparr>g_failedSlots := set_add slot (g_failedSlots g1)\<rparr>))"

text \<open>The switch over the join strategy: whether the group is over, whether it passed, and the
  rollout summary consulted. \<open>seen\<close> says that the slot had completed before, \<open>g\<close> is the group
  after the completion was recorded.\<close>

definition joinDecision ::
  "dispatchGroup \<Rightarrow> bool \<Rightarrow> int \<Rightarrow> string \<Rightarrow> store \<Rightarrow> bool \<times> bool \<times> RolloutGroupSummary option" where
  "joinDecision g seen exit gid d =
     (let all = length (g_completedSlots g) \<ge> length (g_slots g);
          join = Strategy (g_join g)
      in if join = JoinRollouts then
           (if gid = [] then (all, all \<and> g_failedSlots g = [], None)
            else (case SummarizeRolloutGroup gid d of
                    Inl _ \<Rightarrow> (False, False, None)
                  | Inr None \<Rightarrow> (False, False, None)
                  | Inr (Some sm) \<Rightarrow>
                     (let need = (if MinSuccesses (g_join g) \<le> 0 then rg_RolloutsTotal sm else MinSuccesses (g_join g));
                          over = rg_TerminalCount sm \<ge> rg_RolloutsTotal sm
                      in (over, over \<and> rg_SuccessCount sm \<ge> need, Some sm))))
         else if join = JoinAnyPassed then
           (if \<not> seen \<and> exit = 0 \<and> g_successSlots g \<noteq> [] then (True, True, None)
            else (all, False, None))
         else if join = JoinAllPassed then
           (let early = \<not> seen \<and> exit \<noteq> 0
            in (early \<or> all, all \<and> g_failedSlots g = [], None))
         else (all, all \<and> g_failedSlots g = [], None))"

section \<open>Effects of a completion\<close>

definition logCompletionEvent :: "string \<Rightarrow> int \<Rightarrow> string \<Rightarrow> string \<Rightarrow> int \<Rightarrow> unit prog" where
  "logCompletionEvent repo n taskID agent exit =
     log_event TypeCompleted repo n
       [(''task_id'', PStr taskID), (''agent_name'', PStr agent), (''exit_code'', PInt exit)]"

definition logSynthesisDecision :: "string \<Rightarrow> int \<Rightarrow> dispatchGroup \<Rightarrow> SynthesisDecision option \<Rightarrow> unit prog" where
  "logSynthesisDecision repo n g decision =
     (if stateModeFromGroup g \<noteq> StateModeSynth then State_Monad.return ()
      else (case decision of
          None \<Rightarrow> log_event TypeSynthesisDecision repo n
            [(''outcome'', PStr ''escalate''), (''rejected_prs'', PInts []),
             (''reason'', PStr ''malformed_or_missing_synthesis_output'')]
        | Some sd \<Rightarrow> log_event TypeSynthesisDecision repo n
            ([(''outcome'', PStr (sy_Outcome sd)), (''rejected_prs'', PInts (sy_RejectedPRs sd)),
              (''reason'', PStr (sy_Reason sd))] @
             (if sy_Outcome sd = ''pick'' then [(''chosen_pr'', PInt (sy_ChosenPR sd))]
              else if sy_Outcome sd = ''cherry-pick'' then [(''synth_pr'', PInt (sy_SynthPR sd))] else []))))"

definition shouldEscalateSynthDecision :: "SynthesisDecision option \<Rightarrow> bool" where
  "shouldEscalateSynthDecision decision =
     (case decision of None \<Rightarrow> True | Some sd \<Rightarrow> sy_Outcome sd = ''escalate'')"

definition recordStuckCandidate :: "string \<Rightarrow> string list \<Rightarrow> unit prog" where
  "recordStuckCandidate key labels = State_Monad.update (\<lambda>s. s\<lparr>completionTimes :=
     AList.update key \<lparr>cr_at = clock (db s), cr_labels = labels\<rparr> (completionTimes s)\<rparr>)"

definition advanceRolloutFailureToBlocked :: "string \<Rightarrow> int \<Rightarrow> string \<Rightarrow> string \<Rightarrow> unit sm_result prog" where
  "advanceRolloutFailureToBlocked repo n workflow source = do {
     s \<leftarrow> State_Monad.get;
     (case map_of (workflows s) workflow of
        None \<Rightarrow> State_Monad.return (Inr ())
      | Some w \<Rightarrow>
         (case map_of (States w) stateNameBlocked of
            None \<Rightarrow> State_Monad.return (Inr ())
          | Some _ \<Rightarrow> do {
              r \<leftarrow> exec (Advance repo n workflow source stateNameBlocked []);
              (case r of
                 Inl e \<Rightarrow> State_Monad.return (Inl (SMStore e))
               | Inr _ \<Rightarrow> do {
                   q \<leftarrow> exec (IncrementTransition repo n source stateNameBlocked);
                   (case q of
                      Inl e \<Rightarrow> State_Monad.return (Inl (SMStore e))
                    | Inr _ \<Rightarrow> do {
                        log_event TypeTransition repo n [(''from'', PStr source), (''to'', PStr stateNameBlocked)];
                        State_Monad.return (Inr ())
                      })
                 })
            }))
   }"

fun tryLabels ::
  "string list \<Rightarrow> WorkflowConfig \<Rightarrow> ChangeEvent \<Rightarrow> string \<Rightarrow> WState \<Rightarrow> bool prog" where
  "tryLabels [] w ev source st = State_Monad.return False"
| "tryLabels (l # ls) w ev source st = do {
     r \<leftarrow> evaluateTransitions background w (ev\<lparr>ce_Detail := l\<rparr>) source st;
     if snd r \<noteq> None then State_Monad.return False
     else if fst r then State_Monad.return True
     else tryLabels ls w ev source st
   }"

definition evaluateCompletionTransitions :: "string \<Rightarrow> int \<Rightarrow> string \<Rightarrow> string \<Rightarrow> string list \<Rightarrow> bool prog" where
  "evaluateCompletionTransitions repo n workflow source labels = do {
     s \<leftarrow> State_Monad.get;
     let ev = \<lparr>ce_Type = EventLabelAdded, ce_Repo = repo, ce_IssueNum = n, ce_Labels = labels,
               ce_Detail = [], ce_Author = []\<rparr>;
     (case findMatchingWorkflows labels s of
        [w] \<Rightarrow>
          if wf_Name w \<noteq> workflow then State_Monad.return False
          else (case map_of (States w) source of
                  None \<Rightarrow> State_Monad.return False
                | Some st \<Rightarrow> tryLabels labels w ev source st)
      | _ \<Rightarrow> State_Monad.return False)
   }"

section \<open>After the join\<close>

definition logGroupResolved ::
  "string \<Rightarrow> int \<Rightarrow> dispatchGroup \<Rightarrow> string \<Rightarrow> bool \<Rightarrow> RolloutGroupSummary option \<Rightarrow> unit prog" where
  "logGroupResolved repo n g gid passed summary =
     (if Strategy (g_join g) \<noteq> JoinRollouts then State_Monad.return ()
      else log_event TypeRolloutGroupResolved repo n
        [(''group_id'', PStr gid),
         (''success_count'', PInt (case summary of None \<Rightarrow> int (length (g_successSlots g)) | Some sm \<Rightarrow> rg_SuccessCount sm)),
         (''failed_count'', PInt (case summary of None \<Rightarrow> int (length (g_failedSlots g)) | Some sm \<Rightarrow> rg_FailedCount sm)),
         (''decision'', PStr (if passed then ''join_satisfied'' else ''min_successes_unmet''))])"

definition finishGroup ::
  "string \<Rightarrow> int \<Rightarrow> dispatchGroup \<Rightarrow> bool \<Rightarrow> SynthesisDecision option \<Rightarrow> string list \<Rightarrow> unit prog" where
  "finishGroup repo n g passed decision labels =
     (let key = issueKey repo n; join = Strategy (g_join g); synth = (stateModeFromGroup g = StateModeSynth)
      in if synth \<and> shouldEscalateSynthDecision decision then do {
           (if decision = None
            then State_Monad.update (\<lambda>s. s\<lparr>synthReports := map_option (\<lambda>rs. rs @
                   [(repo, n, ''malformed_or_missing_synthesis_output'')]) (synthReports s)\<rparr>)
            else State_Monad.return ());
           _ \<leftarrow> advanceRolloutFailureToBlocked repo n (g_workflow g) (g_state g);
           recordStuckCandidate key labels
         } else if passed then do {
           moved \<leftarrow> evaluateCompletionTransitions repo n (g_workflow g) (g_state g) labels;
           if moved then State_Monad.return ()
           else if synth then do {
             _ \<leftarrow> advanceRolloutFailureToBlocked repo n (g_workflow g) (g_state g);
             State_Monad.return ()
           } else recordStuckCandidate key labels
         } else do {
           log_event TypeTransitionToFailed repo n
             [(''state'', PStr (g_state g)), (''issue'', PInt n), (''join'', PStr join),
              (''needs_human'', PBool (join = JoinRollouts))];
           (if join = JoinRollouts then do {
              _ \<leftarrow> advanceRolloutFailureToBlocked repo n (g_workflow g) (g_state g);
              State_Monad.return ()
            } else State_Monad.return ());
           publishAlert KindTransitionToFailed SeverityError repo n []
             [(''state'', PStr (g_state g)), (''join'', PStr join), (''needs_human'', PBool (join = JoinRollouts))];
           recordStuckCandidate key labels
         })"

text \<open>The part under the inflight lock, and the release of the claim that follows it: the slot is
  recorded, the join decides, and a decided group is dropped.\<close>

definition settleSlot ::
  "string \<Rightarrow> int \<Rightarrow> string \<Rightarrow> int \<Rightarrow> dispatchGroup \<Rightarrow> string \<times> string \<times> int \<times> int \<Rightarrow>
   (bool \<times> bool \<times> RolloutGroupSummary option) prog" where
  "settleSlot repo n agent exit g1 slotinfo =
     (case slotinfo of (slot, gid, idx, tot) \<Rightarrow> do {
        let key = issueKey repo n;
        let g = completeSlot slot exit g1;
        State_Monad.update (\<lambda>s. s\<lparr>inflight := AList.update key g (inflight s)\<rparr>);
        (if idx > 0 then log_event TypeRolloutCompleted repo n
           [(''agent_name'', PStr agent), (''workflow'', PStr (g_workflow g)), (''state'', PStr (g_state g)),
            (''rollout_index'', PInt idx), (''rollouts_total'', PInt tot), (''group_id'', PStr gid),
            (''status'', PStr (if exit = 0 then TaskStatusCompleted else TaskStatusFailed))]
         else State_Monad.return ());
        dec \<leftarrow> query (joinDecision g (slot \<in> set (g_completedSlots g1)) exit gid);
        (if fst dec then do {
           State_Monad.update (\<lambda>s. s\<lparr>inflight := AList.delete key (inflight s)\<rparr>);
           releaseIssueClaim repo n
         } else State_Monad.return ());
        State_Monad.return dec
      })"

definition recordCompletion ::
  "string \<Rightarrow> int \<Rightarrow> string \<Rightarrow> string \<Rightarrow> int \<Rightarrow> string list \<Rightarrow> SynthesisDecision option \<Rightarrow> dispatchGroup \<Rightarrow>
   string \<times> string \<times> int \<times> int \<Rightarrow> unit prog" where
  "recordCompletion repo n taskID agent exit labels decision g1 slotinfo = do {
     dec \<leftarrow> settleSlot repo n agent exit g1 slotinfo;
     let g = completeSlot (fst slotinfo) exit g1;
     (case dec of (over, passed, summary) \<Rightarrow> do {
       logCompletionEvent repo n taskID agent exit;
       logSynthesisDecision repo n g decision;
       if over then do {
         logGroupResolved repo n g (fst (snd slotinfo)) passed summary;
         finishGroup repo n g passed decision labels
       } else State_Monad.return ()
     })
   }"

definition MarkAgentCompletedWithDecision ::
  "string \<Rightarrow> int \<Rightarrow> string \<Rightarrow> string \<Rightarrow> int \<Rightarrow> string list \<Rightarrow> SynthesisDecision option \<Rightarrow> unit prog" where
  "MarkAgentCompletedWithDecision repo n taskID agent0 exit labels decision = do {
     s \<leftarrow> State_Monad.get;
     let key = issueKey repo n;
     let agent = canonicalAgentName taskID agent0 (db s);
     let info = completionSlot taskID agent (db s);
     let taskKey = trim_space taskID;
     (case map_of (inflight s) key of
        None \<Rightarrow> do {
          releaseIssueClaim repo n;
          recordStuckCandidate key labels;
          logCompletionEvent repo n taskID agent exit
        }
      | Some g \<Rightarrow>
          if taskKey \<noteq> [] \<and> taskKey \<in> set (g_completedTaskIDs g)
          then logCompletionEvent repo n taskID agent exit
          else do {
            let g1 = (if taskKey \<noteq> [] then g\<lparr>g_completedTaskIDs := set_add taskKey (g_completedTaskIDs g)\<rparr> else g);
            State_Monad.update (\<lambda>s. s\<lparr>inflight := AList.update key g1 (inflight s)\<rparr>);
            if map_of (g_slots g1) (fst info) = None
            then logCompletionEvent repo n taskID agent exit
            else recordCompletion repo n taskID agent exit labels decision g1 info
          })
   }"

definition MarkAgentCompleted :: "string \<Rightarrow> int \<Rightarrow> string \<Rightarrow> string \<Rightarrow> int \<Rightarrow> string list \<Rightarrow> unit prog" where
  "MarkAgentCompleted repo n taskID agent exit labels =
     MarkAgentCompletedWithDecision repo n taskID agent exit labels None"

section \<open>The stuck detector\<close>

definition CheckStuck :: "string \<Rightarrow> int \<Rightarrow> string list \<Rightarrow> unit prog" where
  "CheckStuck repo n labels = do {
     s \<leftarrow> State_Monad.get;
     let key = issueKey repo n;
     (case map_of (completionTimes s) key of
        None \<Rightarrow> State_Monad.return ()
      | Some rec \<Rightarrow>
          if clock (db s) - cr_at rec < stuckTimeout s then State_Monad.return ()
          else do {
            (if labels = cr_labels rec then do {
               log_event TypeStuckDetected repo n
                 [(''since'', PTime (cr_at rec)), (''labels'', PStrs (cr_labels rec))];
               publishAlert KindStuckDetected SeverityWarn repo n []
                 [(''since'', PTime (cr_at rec)), (''labels'', PStrs (cr_labels rec))]
             } else State_Monad.return ());
            State_Monad.update (\<lambda>s. s\<lparr>completionTimes := AList.delete key (completionTimes s)\<rparr>)
          })
   }"

fun checkAll :: "(issue_key \<times> IssueCache) list \<Rightarrow> unit prog" where
  "checkAll [] = State_Monad.return ()"
| "checkAll ((k, ic) # rest) = do {
     (if ic_State ic \<noteq> ''open'' then State_Monad.return ()
      else (case ic_Labels ic of
              JBad _ \<Rightarrow> State_Monad.return ()
            | JText ls \<Rightarrow> CheckStuck (fst k) (snd k) ls));
     checkAll rest
   }"

definition CheckAllStuck :: "string \<Rightarrow> unit prog" where
  "CheckAllStuck repo = do {
     r \<leftarrow> query (ListIssueCaches repo);
     (case r of Inl _ \<Rightarrow> State_Monad.return () | Inr cached \<Rightarrow> checkAll cached)
   }"

end
