(* ===== verification/SM_Gates.thy ===== *)
theory SM_Gates
  imports SM_Completion
begin

text \<open>
  Dispatch gates as an interface. A gate is a condition on the state under which no request
  for a given issue may be sent. \<open>dispatch_gate\<close> states what a gate must satisfy: it looks only
  at the dependency verdicts, the claims table and the clock, it survives the claims this
  coordinator takes and releases, and one of the two checks before a fan-out refuses. From
  that it follows once and for all that no handler of the state machine sends a request for
  the issue or opens the gate. It is interpreted for the dependency verdict and for a live
  claim of another coordinator.
\<close>

section \<open>What programs leave alone\<close>

definition gate_view :: "sm \<Rightarrow> (issue_key \<times> IssueClaimRecord) list \<times> time \<times>
    (issue_key \<times> IssueDependencyState) list \<times> (dbop \<Rightarrow> bool) \<times> string" where
  "gate_view s = (issue_claim (db s), clock (db s), issue_dependency_state (db s), faults (db s), issueClaimerID s)"

definition calm :: "sm \<Rightarrow> sm \<Rightarrow> bool" where
  "calm s s' \<longleftrightarrow> gate_view s' = gate_view s \<and> dispatched s' = dispatched s"

definition store_calm :: "store \<Rightarrow> store \<Rightarrow> bool" where
  "store_calm d d' \<longleftrightarrow> issue_claim d' = issue_claim d \<and> clock d' = clock d \<and>
     issue_dependency_state d' = issue_dependency_state d \<and> faults d' = faults d"

interpretation calm: io_guarantee calm
  by unfold_locales (auto simp: calm_def)

named_theorems calm_store \<open>store methods that leave claims, verdicts, clock and faults alone\<close>
named_theorems calm_intro \<open>programs that leave the gate view alone and send nothing\<close>

lemma store_calm_refl [simp]: "store_calm d d"
  by (simp add: store_calm_def)

lemma calm_exec: "(\<And>d. store_calm d (fst (f d))) \<Longrightarrow> state_io_rel calm (exec f)"
  by (auto simp: state_io_rel_def calm_def gate_view_def store_calm_def)

lemma calm_query [calm_intro]: "state_io_rel calm (query f)"
  by (simp add: state_io_rel_def calm_def)

lemma calm_outputs [calm_intro]:
  "state_io_rel calm (log_event ty repo n p)"
  "state_io_rel calm (publishAlert kind sev repo n a p)"
  "state_io_rel calm (report_cap repo n w i j)"
  by (simp_all add: log_event_def publishAlert_def report_cap_def state_io_rel_def calm_def gate_view_def)

lemma calm_updates [calm_intro]:
  "state_io_rel calm (State_Monad.update (\<lambda>s. s\<lparr>inflight := f1 s\<rparr>))"
  "state_io_rel calm (State_Monad.update (\<lambda>s. s\<lparr>claimTokens := f2 s\<rparr>))"
  "state_io_rel calm (State_Monad.update (\<lambda>s. s\<lparr>claimWarned := f3 s\<rparr>))"
  "state_io_rel calm (State_Monad.update (\<lambda>s. s\<lparr>completionTimes := f4 s\<rparr>))"
  "state_io_rel calm (State_Monad.update (\<lambda>s. s\<lparr>synthReports := f5 s\<rparr>))"
  "state_io_rel calm (State_Monad.update (\<lambda>s. s\<lparr>processedEvents := f6 s\<rparr>))"
  by (simp_all add: state_io_rel_def calm_def gate_view_def)

lemma calm_stores [calm_store]:
  "store_calm d (fst (CreateIfMissing repo n w st d))"
  "store_calm d (fst (Advance repo n w st st' a d))"
  "store_calm d (fst (IncrementTransition repo n st st' d))"
  "store_calm d (fst (incrementCycleCount repo n col d))"
  "store_calm d (fst (TouchIssueFirstDispatch repo n d))"
  "store_calm d (fst (markIssueCapHit repo n cap d))"
  "store_calm d (fst (ResetIssueCycleState repo n d))"
  "store_calm d (fst (UpsertIssuePipelineHazard repo n k fp d))"
  "store_calm d (fst (ClearIssuePipelineHazard repo n d))"
  by (auto simp: store_calm_def CreateIfMissing_def CreateWorkflowInstanceIfMissing_def Advance_def
      AdvanceWorkflowInstance_def IncrementTransition_def incrementCycleCount_def TouchIssueFirstDispatch_def
      markIssueCapHit_def ResetIssueCycleState_def UpsertIssuePipelineHazard_def ClearIssuePipelineHazard_def
      Let_def split: sum.splits)

lemma calm_execs [calm_intro]:
  "state_io_rel calm (exec (CreateIfMissing repo n w st))"
  "state_io_rel calm (exec (Advance repo n w st st' a))"
  "state_io_rel calm (exec (IncrementTransition repo n st st'))"
  "state_io_rel calm (exec (IncrementTotalTransitionCount repo n))"
  "state_io_rel calm (exec (IncrementSynthCycleCount repo n))"
  "state_io_rel calm (exec (IncrementDevReviewCycleCount repo n))"
  "state_io_rel calm (exec (TouchIssueFirstDispatch repo n))"
  "state_io_rel calm (exec (MarkIssueCycleCapHit repo n))"
  "state_io_rel calm (exec (MarkIssueSynthCycleCapHit repo n))"
  "state_io_rel calm (exec (ResetIssueCycleState repo n))"
  "state_io_rel calm (exec (UpsertIssuePipelineHazard repo n k fp))"
  "state_io_rel calm (exec (ClearIssuePipelineHazard repo n))"
  by (rule calm_exec, simp add: calm_store IncrementTotalTransitionCount_def IncrementSynthCycleCount_def
      IncrementDevReviewCycleCount_def MarkIssueCycleCapHit_def MarkIssueSynthCycleCapHit_def)+

lemma io_case_labels:
  "(\<And>y. x = JText y \<Longrightarrow> state_io_rel R (f y)) \<Longrightarrow> (\<And>y. x = JBad y \<Longrightarrow> state_io_rel R (g y)) \<Longrightarrow>
   state_io_rel R (case_labels_text f g x)"
  by (cases x) simp_all

lemmas calm_struct = calm.io_structure io_cases io_case_labels

lemma calm_gates [calm_intro]:
  "state_io_rel calm (isBlockedByDone repo n a)"
  "state_io_rel calm (isBlockedByFailureCap repo n a)"
  "state_io_rel calm (isBlockedByDependency repo n a w st)"
  unfolding isBlockedByDone_def isBlockedByFailureCap_def isBlockedByDependency_def
  by (intro calm_struct calm_intro)+

lemma calm_dispatch_parts [calm_intro]:
  "state_io_rel calm (issue_ctx c repo n)"
  "state_io_rel calm (log_skip_inflight g req reason)"
  "state_io_rel calm (clearInflightIfMatch key g)"
  "state_io_rel calm (reserveSlot req)"
  unfolding issue_ctx_def log_skip_inflight_def clearInflightIfMatch_def reserveSlot_def
  by (intro calm_struct calm_intro)+

lemma calm_uuid [calm_intro]: "state_io_rel calm (State (\<lambda>s. (uuids s (uuid_pos s), s\<lparr>uuid_pos := uuid_pos s + 1\<rparr>)))"
  by (simp add: state_io_rel_def calm_def gate_view_def)

lemma calm_buildRequests [calm_intro]: "state_io_rel calm (buildRequests repo n w src st sd k)"
  unfolding buildRequests_def by (intro calm_struct calm_intro)+

lemma calm_event_parts [calm_intro]:
  "state_io_rel calm (ensureWorkflowInstance w repo n st)"
  "state_io_rel calm (recordStateEntry w repo n st sd)"
  "state_io_rel calm (detectNoWorkflowMatchHazard ev)"
  "state_io_rel calm (detectDependencyUnenteredHazard wf' ev)"
  "state_io_rel calm (clearHazardIfKind repo n k)"
  "state_io_rel calm (admitTransition wf' repo n cur target)"
  "state_io_rel calm (log_transition_skipped ev cur target reason)"
  unfolding ensureWorkflowInstance_def recordStateEntry_def detectNoWorkflowMatchHazard_def
    detectDependencyUnenteredHazard_def clearHazardIfKind_def admitTransition_def log_transition_skipped_def
  by (intro calm_struct calm_intro)+

lemma calm_enforceCycleCap [calm_intro]: "state_io_rel calm (enforceCycleCap w repo n spec)"
  unfolding enforceCycleCap_def by (cases "cs_synth spec") (simp; intro calm_struct calm_intro)+

lemma calm_caps [calm_intro]:
  "state_io_rel calm (applyDevReviewCycleCap w repo n st)"
  "state_io_rel calm (applyTotalTransitionCap w repo n)"
  unfolding applyDevReviewCycleCap_def applyTotalTransitionCap_def
  by (intro calm_struct calm_intro)+

lemma calm_clearForeign [calm_intro]: "state_io_rel calm (clearForeignStateGroup key st)"
  by (auto simp: clearForeignStateGroup_def state_io_rel_def calm_def gate_view_def split: option.splits)

lemma calm_entryCaps [calm_intro]: "state_io_rel calm (entryCaps w ev st)"
  unfolding entryCaps_def by (intro calm_struct calm_intro)+

lemma calm_completion_parts [calm_intro]:
  "state_io_rel calm (logCompletionEvent repo n t a e)"
  "state_io_rel calm (logSynthesisDecision repo n g d)"
  "state_io_rel calm (recordStuckCandidate key labels)"
  "state_io_rel calm (advanceRolloutFailureToBlocked repo n w src)"
  "state_io_rel calm (logGroupResolved repo n g gid p sm)"
  "state_io_rel calm (CheckStuck repo n labels)"
  unfolding logCompletionEvent_def logSynthesisDecision_def recordStuckCandidate_def
    advanceRolloutFailureToBlocked_def logGroupResolved_def CheckStuck_def
  by (intro calm_struct calm_intro)+

lemma calm_checkAll [calm_intro]: "state_io_rel calm (checkAll cs)"
proof (induction cs)
  case Nil
  then show ?case by (simp add: calm.io_return)
next
  case (Cons x cs)
  obtain k ic where x: "x = (k, ic)" by (cases x)
  show ?case unfolding x checkAll.simps by (intro calm_struct calm_intro Cons.IH)
qed

lemma calm_CheckAllStuck [calm_intro]: "state_io_rel calm (CheckAllStuck repo)"
  unfolding CheckAllStuck_def by (intro calm_struct calm_intro)+

lemma buildRequests_issue:
  assumes "run_state (buildRequests repo n w src st sd j) s = (Inr reqs, s')" "r \<in> set reqs"
  shows "r_Repo r = repo \<and> r_IssueNum r = n"
  using assms
  by (auto simp: buildRequests_def Let_def base_request_def inheritedRolloutRequests_def
      split: if_splits sum.splits option.splits)

section \<open>The interface\<close>

definition for_issue :: "issue_key \<Rightarrow> DispatchRequest \<Rightarrow> bool" where
  "for_issue k r \<longleftrightarrow> (r_Repo r, r_IssueNum r) = k"

locale dispatch_gate =
  fixes B :: "sm \<Rightarrow> bool" and k :: issue_key
  assumes B_view: "gate_view s' = gate_view s \<Longrightarrow> B s' \<longleftrightarrow> B s"
    and B_acquire: "B s \<Longrightarrow> B (s\<lparr>db := fst (AcquireIssueClaim repo n (issueClaimerID s) l (db s))\<rparr>)"
    and B_release: "B s \<Longrightarrow> B (s\<lparr>db := fst (ReleaseIssueClaim repo n (issueClaimerID s) tok (db s))\<rparr>)"
    and stops: "B s \<Longrightarrow> k = (repo, n) \<Longrightarrow>
      fst (run_state (isBlockedByDependency repo n a w st) s) \<noteq> Inr False \<or>
      (\<forall>s'. B s' \<longrightarrow> fst (run_state (isBlockedByIssueClaim repo n a w st) s') \<noteq> Inr False)"
begin

definition shut :: "sm \<Rightarrow> sm \<Rightarrow> bool" where
  "shut s s' \<longleftrightarrow> (B s \<longrightarrow> B s' \<and> filter (for_issue k) (dispatched s') = filter (for_issue k) (dispatched s))"

sublocale io_guarantee shut
  by unfold_locales (auto simp: shut_def)

lemma shutI: "gate_view s' = gate_view s \<Longrightarrow> filter (for_issue k) (dispatched s') = filter (for_issue k) (dispatched s) \<Longrightarrow>
   shut s s'"
  unfolding shut_def by (metis B_view)

lemma shut_calm: "state_io_rel calm m \<Longrightarrow> state_io_rel shut m"
  by (auto simp: state_io_rel_def calm_def intro!: shutI)

lemmas shut_intro = calm_intro [THEN shut_calm]
lemmas shut_struct = io_structure io_cases io_case_labels

lemma shut_claim_gate: "state_io_rel shut (isBlockedByIssueClaim repo n a w st)"
proof (unfold state_io_rel_def, intro allI)
  fix s :: sm
  let ?l = "if issueClaimLease s \<le> 0 then DefaultIssueClaimLease else issueClaimLease s"
  let ?d = "fst (AcquireIssueClaim repo n (issueClaimerID s) ?l (db s))"
  obtain s' where s': "s' = snd (run_state (isBlockedByIssueClaim repo n a w st) s)" by simp
  have "gate_view s' = gate_view s \<and> dispatched s' = dispatched s \<or>
      gate_view s' = gate_view (s\<lparr>db := ?d\<rparr>) \<and> dispatched s' = dispatched s"
    unfolding s' isBlockedByIssueClaim_def
    by (auto simp: log_event_def gate_view_def Let_def split: sum.splits)
  then show "shut s (snd (run_state (isBlockedByIssueClaim repo n a w st) s))"
    using B_view B_acquire unfolding shut_def s' by metis
qed

lemma shut_releaseIssueClaim: "state_io_rel shut (releaseIssueClaim repo n)"
proof (unfold state_io_rel_def, intro allI)
  fix s :: sm
  let ?t = "case map_of (claimTokens s) (issueKey repo n) of None \<Rightarrow> [] | Some t \<Rightarrow> t"
  obtain s' where s': "s' = snd (run_state (releaseIssueClaim repo n) s)" by simp
  have "gate_view s' = gate_view s \<and> dispatched s' = dispatched s \<or>
      gate_view s' = gate_view (s\<lparr>db := fst (ReleaseIssueClaim repo n (issueClaimerID s) ?t (db s))\<rparr>) \<and>
      dispatched s' = dispatched s"
    unfolding s' releaseIssueClaim_def by (auto simp: gate_view_def Let_def)
  then show "shut s (snd (run_state (releaseIssueClaim repo n) s))"
    using B_view B_release unfolding shut_def s' by metis
qed

lemma shut_reconcile: "state_io_rel shut (reconcileStaleInflight repo n)"
  unfolding reconcileStaleInflight_def by (intro shut_struct shut_intro shut_releaseIssueClaim)

lemma shut_rollback: "state_io_rel shut (rollbackSlot req)"
  unfolding rollbackSlot_def by (intro shut_struct shut_intro shut_releaseIssueClaim)

lemma shut_send_other: "\<not> for_issue k req \<Longrightarrow> state_io_rel shut (send c req)"
  by (auto simp: state_io_rel_def send_def gate_view_def intro!: shutI)

lemma shut_single_other:
  assumes "\<not> for_issue k req"
  shows "state_io_rel shut (dispatchSingleAgent c req)"
proof -
  have "\<not> for_issue k (if r_RootTraceID req = [] then req\<lparr>r_RootTraceID := ctx_trace c\<rparr> else req)"
    using assms by (simp add: for_issue_def)
  then show ?thesis
    unfolding dispatchSingleAgent_def Let_def
    by (intro shut_struct shut_intro shut_rollback shut_send_other)
qed

lemma shut_all_other: "(\<And>r. r \<in> set reqs \<Longrightarrow> \<not> for_issue k r) \<Longrightarrow> state_io_rel shut (dispatchAll c reqs)"
proof (induction reqs)
  case Nil
  show ?case unfolding dispatchAll.simps by (rule io_return)
next
  case (Cons r rs)
  show ?case unfolding dispatchAll.simps
    by (intro shut_struct shut_single_other Cons.IH) (use Cons.prems in auto)
qed

text \<open>A gate that refuses keeps whatever follows from running.\<close>

lemma unless_blocked_io:
  "state_io_rel shut g \<Longrightarrow> state_io_rel shut p \<Longrightarrow> state_io_rel shut (unless_blocked g p)"
  unfolding unless_blocked_def by (intro shut_struct)

lemma unless_blocked_stop:
  assumes "state_io_rel shut g" "\<And>s. B s \<Longrightarrow> fst (run_state g s) \<noteq> Inr False"
  shows "state_io_rel shut (unless_blocked g p)"
proof (unfold state_io_rel_def, intro allI)
  fix s
  show "shut s (snd (run_state (unless_blocked g p) s))"
  proof (cases "B s")
    case True
    obtain r s1 where g: "run_state g s = (r, s1)" by force
    with assms(2) [OF True] have "snd (run_state (unless_blocked g p) s) = s1"
      by (auto simp: unless_blocked_def split: sum.splits)
    with io_run [OF assms(1), of s] g show ?thesis by simp
  qed (simp add: shut_def)
qed

lemma shut_claim_then:
  assumes "k \<noteq> (repo, n) \<or> (\<forall>s. B s \<longrightarrow> fst (run_state (isBlockedByIssueClaim repo n a w st) s) \<noteq> Inr False)"
    and "k \<noteq> (repo, n) \<Longrightarrow> state_io_rel shut p"
  shows "state_io_rel shut (unless_blocked (isBlockedByIssueClaim repo n a w st) p)"
  using assms(1)
proof
  assume "k \<noteq> (repo, n)"
  then show ?thesis by (intro unless_blocked_io shut_claim_gate assms(2))
next
  assume "\<forall>s. B s \<longrightarrow> fst (run_state (isBlockedByIssueClaim repo n a w st) s) \<noteq> Inr False"
  then show ?thesis by (intro unless_blocked_stop shut_claim_gate) simp
qed

text \<open>Both checks before a fan-out, one after the other.\<close>

lemma shut_gated:
  assumes "k \<noteq> (repo, n) \<Longrightarrow> state_io_rel shut p"
  shows "state_io_rel shut (unless_blocked (isBlockedByDependency repo n a w st)
     (do { reconcileStaleInflight repo n; unless_blocked (isBlockedByIssueClaim repo n a w st) p }))"
    (is "state_io_rel shut (unless_blocked ?g ?p)")
proof (unfold state_io_rel_def, intro allI)
  fix s
  have g: "state_io_rel shut ?g" by (intro shut_intro)
  show "shut s (snd (run_state (unless_blocked ?g ?p) s))"
  proof (cases "B s \<and> k = (repo, n) \<and> fst (run_state ?g s) \<noteq> Inr False")
    case True
    obtain r s1 where run: "run_state ?g s = (r, s1)" by force
    with True have "snd (run_state (unless_blocked ?g ?p) s) = s1"
      by (auto simp: unless_blocked_def split: sum.splits)
    with io_run [OF g, of s] run show ?thesis by simp
  next
    case False
    show ?thesis
    proof (cases "B s")
      case True
      with False stops [of s repo n a w st]
      have "k \<noteq> (repo, n) \<or> (\<forall>s. B s \<longrightarrow> fst (run_state (isBlockedByIssueClaim repo n a w st) s) \<noteq> Inr False)"
        by blast
      then have "state_io_rel shut ?p"
        by (intro io_bind shut_reconcile shut_claim_then assms)
      then show ?thesis by (rule io_run [OF unless_blocked_io [OF g]])
    qed (simp add: shut_def)
  qed
qed

lemma shut_startGroup:
  "(\<And>r. r \<in> set reqs \<Longrightarrow> \<not> for_issue k r) \<Longrightarrow> state_io_rel shut (startGroup c repo n w st g reqs)"
  unfolding startGroup_def by (intro shut_struct shut_intro shut_all_other)

lemma shut_dispatchStateAgents: "state_io_rel shut (dispatchStateAgents c repo n w src st sd labels)"
proof -
  have "state_io_rel shut (startGroup c repo n x y g reqs)"
    if "k \<noteq> (repo, n)" "run_state (buildRequests repo n w src st sd j) s = (Inr reqs, s')" for j s reqs s' x y g
    using buildRequests_issue [OF that(2)] that(1) by (intro shut_startGroup) (auto simp: for_issue_def)
  then show ?thesis
    unfolding dispatchStateAgents_def
    by (intro io_if io_return shut_gated io_case_sum io_bind_result [of "buildRequests repo n w src st sd x" for x])
      (auto simp: Let_def split: sum.splits intro!: shut_intro io_return)
qed

lemma shut_DispatchAgent: "state_io_rel shut (DispatchAgent c repo n a w st)"
proof -
  have "k \<noteq> (repo, n) \<Longrightarrow> r_Repo req = repo \<Longrightarrow> r_IssueNum req = n \<Longrightarrow> state_io_rel shut (dispatchSingleAgent c' req)" for c' req
    by (rule shut_single_other) (simp add: for_issue_def)
  then show ?thesis
    unfolding DispatchAgent_def by (intro io_bind unless_blocked_io shut_intro shut_gated) auto
qed

section \<open>Handlers under a shut gate\<close>

lemma shut_evaluateTransitions: "state_io_rel shut (evaluateTransitions c w ev cur st)"
  unfolding evaluateTransitions_def takeTransition_def
  by (intro shut_struct shut_intro shut_dispatchStateAgents)

lemma shut_processEntry: "state_io_rel shut (processEntry c w ev prior st sd)"
  unfolding processEntry_def enterStateWithAgents_def
  by (intro shut_struct shut_intro unless_blocked_io shut_dispatchStateAgents shut_evaluateTransitions)

lemma shut_HandleEvent: "state_io_rel shut (HandleEvent c ev)"
  unfolding HandleEvent_def processWorkflowEvent_def
  by (intro shut_struct shut_intro shut_processEntry)

lemma shut_tryLabels: "state_io_rel shut (tryLabels ls w ev src st)"
proof (induction ls)
  case Nil
  show ?case unfolding tryLabels.simps by (rule io_return)
next
  case (Cons l ls)
  show ?case unfolding tryLabels.simps by (intro shut_struct shut_evaluateTransitions Cons.IH)
qed

lemma shut_finishGroup: "state_io_rel shut (finishGroup repo n g p d labels)"
  unfolding finishGroup_def evaluateCompletionTransitions_def
  by (intro shut_struct shut_intro shut_tryLabels)

lemma shut_MarkAgentCompleted:
  "state_io_rel shut (MarkAgentCompletedWithDecision repo n t a e labels d)"
  unfolding MarkAgentCompletedWithDecision_def recordCompletion_def settleSlot_def
  by (intro shut_struct shut_intro shut_releaseIssueClaim shut_finishGroup)

lemma shut_ClearInflight: "state_io_rel shut (ClearInflight repo n)"
  unfolding ClearInflight_def by (intro shut_struct shut_intro shut_releaseIssueClaim)

lemma shut_releaseTracked:
  "issueClaimerID s = claimer \<Longrightarrow> shut s (snd (run_state (releaseTracked claimer ts) s))"
proof (induction ts arbitrary: s)
  case Nil
  show ?case by (simp add: R_refl)
next
  case (Cons x ts)
  obtain key token where x: "x = (key, token)" by (cases x)
  show ?case
  proof (cases "token = [] \<or> parseIssueKey key = None")
    case True
    with Cons show ?thesis by (auto simp: x)
  next
    case False
    then obtain repo n where p: "parseIssueKey key = Some (repo, n)" by auto
    let ?s = "s\<lparr>db := fst (ReleaseIssueClaim repo n claimer token (db s))\<rparr>"
    have "shut s ?s" using B_release [of s repo n token] Cons.prems by (simp add: shut_def)
    moreover have "shut ?s (snd (run_state (releaseTracked claimer ts) ?s))" using Cons by simp
    ultimately show ?thesis using False by (simp add: x p) (rule R_trans)
  qed
qed

lemma shut_ReleaseAll: "state_io_rel shut ReleaseAllIssueClaims"
proof (unfold state_io_rel_def, intro allI)
  fix s :: sm
  have "shut s (s\<lparr>claimTokens := []\<rparr>)" by (rule shutI) (simp_all add: gate_view_def)
  moreover have "shut (s\<lparr>claimTokens := []\<rparr>)
      (snd (run_state (releaseTracked (issueClaimerID s) (claimTokens s)) (s\<lparr>claimTokens := []\<rparr>)))"
    by (rule shut_releaseTracked) simp
  ultimately show "shut s (snd (run_state ReleaseAllIssueClaims s))"
    by (auto simp: ReleaseAllIssueClaims_def R_refl intro: R_trans)
qed

end

section \<open>Runs of the state machine\<close>

text \<open>Steps of other processes: they change the database only, as \<open>P\<close> allows.\<close>

definition world :: "(store \<Rightarrow> store \<Rightarrow> bool) \<Rightarrow> sm \<Rightarrow> sm \<Rightarrow> bool" where
  "world P s s' \<longleftrightarrow> (\<exists>d. P (db s) d \<and> s' = s\<lparr>db := d\<rparr>)"

text \<open>Any handler of the state machine, or a step of its environment (workers, poller, other
  processes, the clock) from a relation \<open>E\<close>.\<close>

inductive sm_step :: "(sm \<Rightarrow> sm \<Rightarrow> bool) \<Rightarrow> sm \<Rightarrow> sm \<Rightarrow> bool" for E :: "sm \<Rightarrow> sm \<Rightarrow> bool" where
  ss_event: "sm_step E s (snd (run_state (HandleEvent c ev) s))"
| ss_dispatch: "sm_step E s (snd (run_state (DispatchAgent c repo n a w st) s))"
| ss_completed: "sm_step E s (snd (run_state (MarkAgentCompletedWithDecision repo n t a e labels d) s))"
| ss_clear: "sm_step E s (snd (run_state (ClearInflight repo n) s))"
| ss_release_all: "sm_step E s (snd (run_state ReleaseAllIssueClaims s))"
| ss_stuck: "sm_step E s (snd (run_state (CheckAllStuck repo) s))"
| ss_reset: "sm_step E s (ResetDedup s)"
| ss_env: "E s s' \<Longrightarrow> sm_step E s s'"

context dispatch_gate
begin

lemma shut_step: "sm_step E s s' \<Longrightarrow> (\<And>s s'. E s s' \<Longrightarrow> shut s s') \<Longrightarrow> shut s s'"
proof (induction rule: sm_step.induct)
  case (ss_reset s)
  show ?case by (rule shutI) (simp_all add: ResetDedup_def gate_view_def)
next
  case (ss_stuck s repo)
  show ?case by (rule io_run) (rule shut_intro)
qed (auto intro!: io_run shut_HandleEvent shut_DispatchAgent shut_MarkAgentCompleted shut_ClearInflight shut_ReleaseAll)

theorem shut_run:
  assumes "(sm_step E)\<^sup>*\<^sup>* s s'" "\<And>s s'. E s s' \<Longrightarrow> shut s s'" "B s"
  shows "B s' \<and> filter (for_issue k) (dispatched s') = filter (for_issue k) (dispatched s)"
proof -
  have "shut s s'"
    using assms(1)
  proof (induction rule: rtranclp_induct)
    case (step y z)
    from step.IH shut_step [OF step(2) assms(2)] show ?case by (rule R_trans)
  qed (rule R_refl)
  with assms(3) show ?thesis by (simp add: shut_def)
qed

end

section \<open>The dependency verdict and foreign claims as gates\<close>

definition dep_blocked :: "string \<Rightarrow> int \<Rightarrow> sm \<Rightarrow> bool" where
  "dep_blocked repo n s \<longleftrightarrow> fst (IsBlocked repo n (db s))"

lemma dep_blocked_iff:
  "dep_blocked repo n s \<longleftrightarrow> \<not> faults (db s) OpQueryDepState \<and>
     (\<exists>st. map_of (issue_dependency_state (db s)) (repo, n) = Some st \<and>
        (ds_Verdict st = DependencyVerdictBlocked \<or> ds_Verdict st = DependencyVerdictNeedsHuman))"
  by (auto simp: dep_blocked_def IsBlocked_def QueryIssueDependencyState_def split: option.splits)

lemma dep_gate_verdict:
  "fst (run_state (isBlockedByDependency repo n a w st) s) =
     (case IsBlocked repo n (db s) of
        (_, _, Some e) \<Rightarrow> Inl (SMStore e)
      | (blocked, _, None) \<Rightarrow> Inr blocked)"
  by (auto simp: isBlockedByDependency_def IsBlocked_def log_event_def split: option.splits sum.splits)

lemma dep_gate_refuses:
  "dep_blocked repo n s \<Longrightarrow> fst (run_state (isBlockedByDependency repo n a w st) s) \<noteq> Inr False"
  by (auto simp: dep_gate_verdict dep_blocked_def split: prod.splits option.splits)

lemma acquire_frame:
  "issue_dependency_state (fst (AcquireIssueClaim repo n w l d)) = issue_dependency_state d \<and>
   faults (fst (AcquireIssueClaim repo n w l d)) = faults d"
proof -
  have "issue_dependency_state (fst (acquireIssueClaimOnce repo n w l d)) = issue_dependency_state d \<and>
    faults (fst (acquireIssueClaimOnce repo n w l d)) = faults d" for l d
    by (auto simp: acquireIssueClaimOnce_def acquireHeld_def generateClaimToken_def Let_def split: option.splits)
  then have "issue_dependency_state (fst (retry_busy m (acquireIssueClaimOnce repo n w l) d)) = issue_dependency_state d \<and>
    faults (fst (retry_busy m (acquireIssueClaimOnce repo n w l) d)) = faults d" for m l
    by (rule retry_busy_rel [where R = "\<lambda>d d'. issue_dependency_state d' = issue_dependency_state d \<and> faults d' = faults d", rotated 2])
      auto
  then show ?thesis by (simp add: AcquireIssueClaim_def)
qed

interpretation dep_gate: dispatch_gate "dep_blocked repo n" "(repo, n)" for repo n
proof unfold_locales
  fix s s' :: sm and repo' n' l tok a w st
  show "gate_view s' = gate_view s \<Longrightarrow> dep_blocked repo n s' = dep_blocked repo n s"
    by (simp add: gate_view_def dep_blocked_iff)
  assume B: "dep_blocked repo n s"
  then show "dep_blocked repo n (s\<lparr>db := fst (AcquireIssueClaim repo' n' (issueClaimerID s) l (db s))\<rparr>)"
    by (simp add: dep_blocked_iff acquire_frame)
  from B show "dep_blocked repo n (s\<lparr>db := fst (ReleaseIssueClaim repo' n' (issueClaimerID s) tok (db s))\<rparr>)"
    by (simp add: dep_blocked_iff ReleaseIssueClaim_def)
  show "(repo, n) = (repo', n') \<Longrightarrow> fst (run_state (isBlockedByDependency repo' n' a w st) s) \<noteq> Inr False \<or>
      (\<forall>s'. dep_blocked repo n s' \<longrightarrow> fst (run_state (isBlockedByIssueClaim repo' n' a w st) s') \<noteq> Inr False)"
    using B dep_gate_refuses by auto
qed

definition foreign_claim :: "string \<Rightarrow> int \<Rightarrow> sm \<Rightarrow> bool" where
  "foreign_claim repo n s \<longleftrightarrow> issueClaimerID s \<noteq> [] \<and>
     (\<exists>c. claim_live (repo, n) c (db s) \<and> c_WorkerID c \<noteq> issueClaimerID s)"

lemma claim_gate_refuses:
  assumes "foreign_claim repo n s"
  shows "fst (run_state (isBlockedByIssueClaim repo n a w st) s) \<noteq> Inr False"
proof -
  let ?l = "if issueClaimLease s \<le> 0 then DefaultIssueClaimLease else issueClaimLease s"
  obtain c where "claim_live (repo, n) c (db s)" "c_WorkerID c \<noteq> issueClaimerID s" "issueClaimerID s \<noteq> []"
    using assms by (auto simp: foreign_claim_def)
  then obtain d e where "AcquireIssueClaim repo n (issueClaimerID s) ?l (db s) = (d, Inl e)"
    using AcquireIssueClaim_ok [of repo n "issueClaimerID s" ?l "db s"] unfolding free_for_def
    by (metis surj_pair sum.exhaust)
  then show ?thesis
    using assms by (auto simp: isBlockedByIssueClaim_def foreign_claim_def Let_def log_event_def)
qed

interpretation claim_gate: dispatch_gate "foreign_claim repo n" "(repo, n)" for repo n
proof unfold_locales
  fix s s' :: sm and repo' n' l tok a w st
  show "gate_view s' = gate_view s \<Longrightarrow> foreign_claim repo n s' = foreign_claim repo n s"
    by (simp add: gate_view_def foreign_claim_def claim_live_def)
  assume B: "foreign_claim repo n s"
  then obtain c where c: "claim_live (repo, n) c (db s)" "c_WorkerID c \<noteq> issueClaimerID s" "issueClaimerID s \<noteq> []"
    by (auto simp: foreign_claim_def)
  from AcquireIssueClaim_live [OF c(1), of repo' n' "issueClaimerID s" l] c
  show "foreign_claim repo n (s\<lparr>db := fst (AcquireIssueClaim repo' n' (issueClaimerID s) l (db s))\<rparr>)"
    by (auto simp: foreign_claim_def)
  from c show "foreign_claim repo n (s\<lparr>db := fst (ReleaseIssueClaim repo' n' (issueClaimerID s) tok (db s))\<rparr>)"
    by (auto simp: foreign_claim_def claim_live_def ReleaseIssueClaim_def held_with_def map_of_delete
        split: option.splits)
  show "(repo, n) = (repo', n') \<Longrightarrow> fst (run_state (isBlockedByDependency repo' n' a w st) s) \<noteq> Inr False \<or>
      (\<forall>s'. foreign_claim repo n s' \<longrightarrow> fst (run_state (isBlockedByIssueClaim repo' n' a w st) s') \<noteq> Inr False)"
    using claim_gate_refuses by auto
qed

section \<open>A sample state machine\<close>

definition no_yaml :: yaml_lib where
  "no_yaml = \<lparr>y_depends_on = (\<lambda>_. None), y_content = (\<lambda>_. None)\<rparr>"

definition demo_sm :: "store \<Rightarrow> sm" where
  "demo_sm d = NewStateMachine [] d None (\<lambda>_. ''uuid'') (\<lambda>t. t) no_yaml"

lemma dispatch_step: "(sm_step E)\<^sup>*\<^sup>* s (snd (run_state (DispatchAgent c repo n a w st) s))"
  by (rule r_into_rtranclp) (rule ss_dispatch)

end
