(* ===== verification/SM_Effects.thy ===== *)
theory SM_Effects
  imports SM_Gates
begin

text \<open>
  The effects a handler of the state machine can have, as a step relation: outputs and
  bookkeeping, a call of one of the store methods the state machine uses, the operations on a
  dispatch group, a send. Every handler is shown to be a sequence of such effects
  (\<open>handlers_refine\<close>), so that an invariant needs to be checked for the effects only.
\<close>

section \<open>Effects\<close>

text \<open>Store methods called by the state machine that write, \<open>w\<close> being its claimer id.\<close>

inductive store_effect :: "string \<Rightarrow> store \<Rightarrow> store \<Rightarrow> bool" for w :: string where
  st_create: "store_effect w d (fst (CreateIfMissing repo n wn st d))"
| st_advance: "store_effect w d (fst (Advance repo n wn st st' a d))"
| st_transition: "store_effect w d (fst (IncrementTransition repo n st st' d))"
| st_cycle: "store_effect w d (fst (incrementCycleCount repo n col d))"
| st_touch: "store_effect w d (fst (TouchIssueFirstDispatch repo n d))"
| st_cap: "store_effect w d (fst (markIssueCapHit repo n cap d))"
| st_reset: "store_effect w d (fst (ResetIssueCycleState repo n d))"
| st_hazard: "store_effect w d (fst (UpsertIssuePipelineHazard repo n k fp d))"
| st_clear: "store_effect w d (fst (ClearIssuePipelineHazard repo n d))"
| st_acquire: "store_effect w d (fst (AcquireIssueClaim repo n w l d))"
| st_release: "store_effect w d (fst (ReleaseIssueClaim repo n w tok d))"

text \<open>What happens to a group in flight; a slot may be recorded only while the join stays open.\<close>

inductive group_change :: "store \<Rightarrow> dispatchGroup \<Rightarrow> dispatchGroup \<Rightarrow> bool" for d :: store where
  gc_reserve: "group_change d g (g\<lparr>g_dispatchedSlots := set_add slot (g_dispatchedSlots g)\<rparr>)"
| gc_rollback: "group_change d g (g\<lparr>g_dispatchedSlots := filter P (g_dispatchedSlots g)\<rparr>)"
| gc_task: "group_change d g (g\<lparr>g_completedTaskIDs := ids\<rparr>)"
| gc_slot: "map_of (g_slots g) slot \<noteq> None \<Longrightarrow>
    \<not> fst (joinDecision (completeSlot slot exit g) (slot \<in> set (g_completedSlots g)) exit gid d) \<Longrightarrow>
    group_change d g (completeSlot slot exit g)"

definition fresh_group :: "dispatchGroup \<Rightarrow> bool" where
  "fresh_group g \<longleftrightarrow> g_slots g \<noteq> [] \<and> distinct (map fst (g_slots g)) \<and>
     g_completedSlots g = [] \<and> g_successSlots g = [] \<and> g_failedSlots g = []"

lemma fresh_reserved:
  "fresh_group ((newDispatchGroup w st mode j [(slot, a)])\<lparr>g_dispatchedSlots := ds\<rparr>)"
  by (simp add: fresh_group_def newDispatchGroup_def)

definition core :: "sm \<Rightarrow> store \<times> DispatchRequest list \<times> (string \<times> dispatchGroup) list \<times> string list \<times>
    (string \<times> WorkflowConfig) list \<times> string" where
  "core s = (db s, dispatched s, inflight s, processedEvents s, workflows s, issueClaimerID s)"

inductive sm_effect :: "sm \<Rightarrow> sm \<Rightarrow> bool" where
  e_local: "core s' = core s \<Longrightarrow> sm_effect s s'"
| e_store: "store_effect (issueClaimerID s) (db s) d \<Longrightarrow> sm_effect s (s\<lparr>db := d\<rparr>)"
| e_seen: "sm_effect s (s\<lparr>processedEvents := set_add k (processedEvents s)\<rparr>)"
| e_drop: "sm_effect s (s\<lparr>inflight := AList.delete key (inflight s)\<rparr>)"
| e_start: "map_of (inflight s) key = None \<Longrightarrow> fresh_group g \<Longrightarrow>
    sm_effect s (s\<lparr>inflight := AList.update key g (inflight s)\<rparr>)"
| e_group: "map_of (inflight s) key = Some g \<Longrightarrow> group_change (db s) g g' \<Longrightarrow>
    sm_effect s (s\<lparr>inflight := AList.update key g' (inflight s)\<rparr>)"
| e_send: "sm_effect s (s\<lparr>dispatched := dispatched s @ [r], sends_left := l\<rparr>)"

abbreviation effects :: "sm \<Rightarrow> sm \<Rightarrow> bool" where "effects \<equiv> sm_effect\<^sup>*\<^sup>*"

interpretation eff: io_guarantee effects
  by unfold_locales auto

named_theorems eff_intro \<open>programs that are sequences of effects\<close>

lemmas eff_struct = eff.io_structure io_cases io_case_labels

section \<open>Programs as effects\<close>

lemma eff_query [eff_intro]: "state_io_rel effects (query f)"
  by (simp add: state_io_rel_def)

lemma eff_local: "(\<And>s. core (f s) = core s) \<Longrightarrow> state_io_rel effects (State_Monad.update f)"
  by (auto simp: state_io_rel_def intro!: e_local)

lemma eff_outputs [eff_intro]:
  "state_io_rel effects (log_event ty repo n p)"
  "state_io_rel effects (publishAlert kind sev repo n a p)"
  "state_io_rel effects (report_cap repo n w i j)"
  "state_io_rel effects (State_Monad.update (\<lambda>s. s\<lparr>claimTokens := f2 s\<rparr>))"
  "state_io_rel effects (State_Monad.update (\<lambda>s. s\<lparr>claimWarned := f3 s\<rparr>))"
  "state_io_rel effects (State_Monad.update (\<lambda>s. s\<lparr>completionTimes := f4 s\<rparr>))"
  "state_io_rel effects (State_Monad.update (\<lambda>s. s\<lparr>synthReports := f5 s\<rparr>))"
  unfolding log_event_def publishAlert_def report_cap_def
  by (rule eff_local, simp add: core_def)+

lemma eff_updates [eff_intro]:
  "state_io_rel effects (State_Monad.update (\<lambda>s. s\<lparr>processedEvents := set_add k (processedEvents s)\<rparr>))"
  "state_io_rel effects (State_Monad.update (\<lambda>s. s\<lparr>inflight := AList.delete key (inflight s)\<rparr>))"
  "state_io_rel effects (send c req)"
  unfolding state_io_rel_def send_def run_update snd_conv
  by (intro allI r_into_rtranclp sm_effect.intros)+

lemma eff_put:
  "map_of (inflight s) key = Some g \<Longrightarrow> group_change (db s) g g' \<Longrightarrow>
   effects s (s\<lparr>inflight := AList.update key g' (inflight s)\<rparr>)"
  by (rule r_into_rtranclp) (rule e_group)

lemma eff_uuid [eff_intro]: "state_io_rel effects (State (\<lambda>s. (uuids s (uuid_pos s), s\<lparr>uuid_pos := uuid_pos s + 1\<rparr>)))"
  by (auto simp: state_io_rel_def core_def intro!: e_local)

lemma eff_exec: "(\<And>w d. store_effect w d (fst (f d))) \<Longrightarrow> state_io_rel effects (exec f)"
  by (auto simp: state_io_rel_def intro!: e_store)

lemma eff_execs [eff_intro]:
  "state_io_rel effects (exec (CreateIfMissing repo n w st))"
  "state_io_rel effects (exec (Advance repo n w st st' a))"
  "state_io_rel effects (exec (IncrementTransition repo n st st'))"
  "state_io_rel effects (exec (IncrementTotalTransitionCount repo n))"
  "state_io_rel effects (exec (IncrementSynthCycleCount repo n))"
  "state_io_rel effects (exec (IncrementDevReviewCycleCount repo n))"
  "state_io_rel effects (exec (TouchIssueFirstDispatch repo n))"
  "state_io_rel effects (exec (MarkIssueCycleCapHit repo n))"
  "state_io_rel effects (exec (MarkIssueSynthCycleCapHit repo n))"
  "state_io_rel effects (exec (ResetIssueCycleState repo n))"
  "state_io_rel effects (exec (UpsertIssuePipelineHazard repo n k fp))"
  "state_io_rel effects (exec (ClearIssuePipelineHazard repo n))"
  by (rule eff_exec, simp add: store_effect.intros IncrementTotalTransitionCount_def IncrementSynthCycleCount_def
      IncrementDevReviewCycleCount_def MarkIssueCycleCapHit_def MarkIssueSynthCycleCapHit_def)+

lemma eff_gates [eff_intro]:
  "state_io_rel effects (isBlockedByDone repo n a)"
  "state_io_rel effects (isBlockedByFailureCap repo n a)"
  "state_io_rel effects (isBlockedByDependency repo n a w st)"
  unfolding isBlockedByDone_def isBlockedByFailureCap_def isBlockedByDependency_def
  by (intro eff_struct eff_intro)+

lemma eff_store_step: "store_effect (issueClaimerID s) (db s) d \<Longrightarrow> core s' = core (s\<lparr>db := d\<rparr>) \<Longrightarrow> effects s s'"
  by (blast intro: e_store e_local rtranclp_trans)

lemma eff_claim_gate [eff_intro]: "state_io_rel effects (isBlockedByIssueClaim repo n a w st)"
proof (unfold state_io_rel_def, intro allI)
  fix s :: sm
  let ?l = "if issueClaimLease s \<le> 0 then DefaultIssueClaimLease else issueClaimLease s"
  let ?d = "fst (AcquireIssueClaim repo n (issueClaimerID s) ?l (db s))"
  let ?s' = "snd (run_state (isBlockedByIssueClaim repo n a w st) s)"
  have "core ?s' = core s \<or> core ?s' = core (s\<lparr>db := ?d\<rparr>)"
    unfolding isBlockedByIssueClaim_def
    by (auto simp: log_event_def core_def Let_def split: sum.splits)
  then show "effects s ?s'"
    using st_acquire by (blast intro: eff_store_step e_local)
qed

lemma eff_release [eff_intro]: "state_io_rel effects (releaseIssueClaim repo n)"
proof (unfold state_io_rel_def, intro allI)
  fix s :: sm
  let ?t = "case map_of (claimTokens s) (issueKey repo n) of None \<Rightarrow> [] | Some t \<Rightarrow> t"
  let ?s' = "snd (run_state (releaseIssueClaim repo n) s)"
  have "core ?s' = core s \<or> core ?s' = core (s\<lparr>db := fst (ReleaseIssueClaim repo n (issueClaimerID s) ?t (db s))\<rparr>)"
    unfolding releaseIssueClaim_def by (auto simp: core_def Let_def)
  then show "effects s ?s'"
    using st_release by (blast intro: eff_store_step e_local)
qed

lemma eff_dispatch_parts [eff_intro]:
  "state_io_rel effects (issue_ctx c repo n)"
  "state_io_rel effects (log_skip_inflight g req reason)"
  "state_io_rel effects (clearInflightIfMatch key g)"
  unfolding issue_ctx_def log_skip_inflight_def clearInflightIfMatch_def
  by (intro eff_struct eff_intro)+

lemma eff_reconcile [eff_intro]: "state_io_rel effects (reconcileStaleInflight repo n)"
  unfolding reconcileStaleInflight_def by (intro eff_struct eff_intro)

lemma eff_unless [eff_intro]:
  "state_io_rel effects g \<Longrightarrow> state_io_rel effects p \<Longrightarrow> state_io_rel effects (unless_blocked g p)"
  unfolding unless_blocked_def by (intro eff_struct)

lemma eff_reserveSlot [eff_intro]: "state_io_rel effects (reserveSlot req)"
  unfolding reserveSlot_def Let_def
proof (rule eff.io_get_bind, goal_cases)
  case (1 s)
  let ?key = "issueKey (r_Repo req) (r_IssueNum req)"
  show ?case
  proof (cases "map_of (inflight s) ?key")
    case None
    from e_start [OF None] show ?thesis
      by (simp add: None) (blast intro: r_into_rtranclp e_start None fresh_reserved)
  next
    case (Some g)
    with eff_put [OF Some gc_reserve] show ?thesis by simp
  qed
qed

lemma eff_rollback [eff_intro]: "state_io_rel effects (rollbackSlot req)"
  unfolding rollbackSlot_def Let_def
proof (rule eff.io_get_bind, goal_cases)
  case (1 s)
  let ?key = "issueKey (r_Repo req) (r_IssueNum req)"
  have "state_io_rel effects (do {
      State_Monad.update (\<lambda>s. s\<lparr>inflight := AList.delete ?key (inflight s)\<rparr>);
      releaseIssueClaim (r_Repo req) (r_IssueNum req)})"
    by (intro eff_struct eff_intro)
  note drop = eff.io_run [OF this, of s]
  show ?case
  proof (cases "map_of (inflight s) ?key")
    case (Some g)
    with drop eff_put [OF Some gc_rollback] show ?thesis by simp
  qed simp
qed

lemma eff_single [eff_intro]: "state_io_rel effects (dispatchSingleAgent c req)"
  unfolding dispatchSingleAgent_def by (intro eff_struct eff_intro)

lemma eff_all [eff_intro]: "state_io_rel effects (dispatchAll c reqs)"
proof (induction reqs)
  case Nil
  show ?case unfolding dispatchAll.simps by (rule eff.io_return)
next
  case (Cons r rs)
  show ?case unfolding dispatchAll.simps by (intro eff_struct eff_intro Cons.IH)
qed

lemma eff_DispatchAgent [eff_intro]: "state_io_rel effects (DispatchAgent c repo n a w st)"
  unfolding DispatchAgent_def by (intro eff_struct eff_intro)

lemma eff_startGroup:
  assumes "fresh_group g"
  shows "state_io_rel effects (startGroup c repo n w st g reqs)"
  unfolding startGroup_def
proof (rule eff.io_get_bind, goal_cases)
  case (1 s)
  show ?case
  proof (cases "map_of (inflight s) (issueKey repo n)")
    case None
    let ?s = "s\<lparr>inflight := AList.update (issueKey repo n) g (inflight s)\<rparr>"
    have start: "effects s ?s" using None assms by (intro r_into_rtranclp e_start)
    have rest: "state_io_rel effects (do { (if b then log_event ty repo n p else State_Monad.return ()); dispatchAll c reqs })" for b ty p
      by (intro eff_struct eff_intro)
    show ?thesis using eff.R_trans [OF start eff.io_run [OF rest]] None by simp
  qed (auto simp: log_event_def core_def intro!: e_local)
qed

section \<open>Fan-out\<close>

lemma slots_of_distinct: "distinct (map fst (slots_of reqs))"
proof -
  have "distinct (map fst xs) \<Longrightarrow>
    distinct (map fst (fold (\<lambda>r. AList.update (dispatchSlotKey r) (r_AgentName r)) reqs xs))" for xs
    by (induction reqs arbitrary: xs) (simp_all add: distinct_update)
  then show ?thesis by (simp add: slots_of_def)
qed

lemma slots_of_keys: "fst ` set (slots_of reqs) = dispatchSlotKey ` set reqs"
proof -
  have "fst ` set (fold (\<lambda>r. AList.update (dispatchSlotKey r) (r_AgentName r)) reqs xs) =
    fst ` set xs \<union> dispatchSlotKey ` set reqs" for xs
    by (induction reqs arbitrary: xs) (auto simp: dom_update)
  then show ?thesis by (simp add: slots_of_def)
qed

lemma fresh_slots: "reqs \<noteq> [] \<Longrightarrow> fresh_group (newDispatchGroup w st mode j (slots_of reqs))"
  using slots_of_keys [of reqs] by (auto simp: fresh_group_def newDispatchGroup_def slots_of_distinct)

lemma buildRequests_nonempty:
  assumes "run_state (buildRequests repo n w src st sd j) s = (Inr reqs, s')" "stateAgents sd \<noteq> []"
  shows "reqs \<noteq> []"
  using assms by (auto simp: buildRequests_def Let_def split: if_splits sum.splits)

lemma eff_buildRequests [eff_intro]: "state_io_rel effects (buildRequests repo n w src st sd k)"
  unfolding buildRequests_def by (intro eff_struct eff_intro)+

lemma eff_dispatchStateAgents [eff_intro]:
  "state_io_rel effects (dispatchStateAgents c repo n w src st sd labels)"
proof (cases "stateAgents sd = []")
  case False
  then have "state_io_rel effects (startGroup c repo n x y (newDispatchGroup x y m j (slots_of reqs)) reqs)"
    if "run_state (buildRequests repo n w src st sd k) s = (Inr reqs, s')" for k s reqs s' x y m j
    using buildRequests_nonempty [OF that] by (intro eff_startGroup fresh_slots)
  then show ?thesis
    unfolding dispatchStateAgents_def
    by (intro io_if eff.io_return eff_unless eff_intro eff.io_bind [of "reconcileStaleInflight repo n"] io_case_sum
        eff.io_bind_result [of "buildRequests repo n w src st sd x" for x])
      (auto simp: Let_def split: sum.splits intro!: eff_intro eff.io_return)
qed (simp add: dispatchStateAgents_def eff.io_return)

section \<open>Handlers\<close>

lemma eff_event_parts [eff_intro]:
  "state_io_rel effects (ensureWorkflowInstance w repo n st)"
  "state_io_rel effects (recordStateEntry w repo n st sd)"
  "state_io_rel effects (detectNoWorkflowMatchHazard ev)"
  "state_io_rel effects (detectDependencyUnenteredHazard w' ev)"
  "state_io_rel effects (clearHazardIfKind repo n k)"
  "state_io_rel effects (admitTransition w' repo n cur target)"
  "state_io_rel effects (log_transition_skipped ev cur target reason)"
  unfolding ensureWorkflowInstance_def recordStateEntry_def detectNoWorkflowMatchHazard_def
    detectDependencyUnenteredHazard_def clearHazardIfKind_def admitTransition_def log_transition_skipped_def
  by (intro eff_struct eff_intro)+

lemma eff_enforceCycleCap [eff_intro]: "state_io_rel effects (enforceCycleCap w repo n spec)"
  unfolding enforceCycleCap_def by (cases "cs_synth spec") (simp; intro eff_struct eff_intro)+

lemma eff_caps [eff_intro]:
  "state_io_rel effects (applyDevReviewCycleCap w repo n st)"
  "state_io_rel effects (applyTotalTransitionCap w repo n)"
  unfolding applyDevReviewCycleCap_def applyTotalTransitionCap_def
  by (intro eff_struct eff_intro)+

lemma eff_clearForeign [eff_intro]: "state_io_rel effects (clearForeignStateGroup key st)"
  by (auto simp: clearForeignStateGroup_def state_io_rel_def split: option.splits intro: e_drop)

lemma eff_entryCaps [eff_intro]: "state_io_rel effects (entryCaps w ev st)"
  unfolding entryCaps_def by (intro eff_struct eff_intro)+

lemma eff_evaluateTransitions [eff_intro]: "state_io_rel effects (evaluateTransitions c w ev cur st)"
  unfolding evaluateTransitions_def takeTransition_def by (intro eff_struct eff_intro)

lemma eff_processEntry [eff_intro]: "state_io_rel effects (processEntry c w ev prior st sd)"
  unfolding processEntry_def enterStateWithAgents_def by (intro eff_struct eff_intro)

lemma eff_HandleEvent [eff_intro]: "state_io_rel effects (HandleEvent c ev)"
  unfolding HandleEvent_def processWorkflowEvent_def by (intro eff_struct eff_intro)

lemma eff_completion_parts [eff_intro]:
  "state_io_rel effects (logCompletionEvent repo n t a e)"
  "state_io_rel effects (logSynthesisDecision repo n g d)"
  "state_io_rel effects (recordStuckCandidate key labels)"
  "state_io_rel effects (advanceRolloutFailureToBlocked repo n w src)"
  "state_io_rel effects (logGroupResolved repo n g gid p sm)"
  "state_io_rel effects (CheckStuck repo n labels)"
  "state_io_rel effects (ClearInflight repo n)"
  unfolding logCompletionEvent_def logSynthesisDecision_def recordStuckCandidate_def ClearInflight_def
    advanceRolloutFailureToBlocked_def logGroupResolved_def CheckStuck_def
  by (intro eff_struct eff_intro)+

lemma eff_tryLabels [eff_intro]: "state_io_rel effects (tryLabels ls w ev src st)"
proof (induction ls)
  case Nil
  show ?case unfolding tryLabels.simps by (rule eff.io_return)
next
  case (Cons l ls)
  show ?case unfolding tryLabels.simps by (intro eff_struct eff_intro Cons.IH)
qed

lemma eff_finishGroup [eff_intro]: "state_io_rel effects (finishGroup repo n g p d labels)"
  unfolding finishGroup_def evaluateCompletionTransitions_def by (intro eff_struct eff_intro)

lemma log_if:
  "\<exists>es. \<forall>t. run_state (if b then log_event ty repo n p else State_Monad.return ()) t = ((), t\<lparr>events := events t @ es\<rparr>)"
  by (cases b) (auto simp: log_event_def intro: exI [of _ "[]"])

lemma eff_settleSlot:
  assumes g: "map_of (inflight s) (issueKey repo n) = Some g" and slot: "map_of (g_slots g) slot \<noteq> None"
  shows "effects s (snd (run_state (settleSlot repo n a exit g (slot, gid, idx, tot)) s))"
proof -
  let ?key = "issueKey repo n" and ?g = "completeSlot slot exit g"
  obtain es where es: "run_state (if idx > 0 then log_event TypeRolloutCompleted repo n
           [(''agent_name'', PStr a), (''workflow'', PStr (g_workflow ?g)), (''state'', PStr (g_state ?g)),
            (''rollout_index'', PInt idx), (''rollouts_total'', PInt tot), (''group_id'', PStr gid),
            (''status'', PStr (if exit = 0 then TaskStatusCompleted else TaskStatusFailed))]
         else State_Monad.return ()) t = ((), t\<lparr>events := events t @ es\<rparr>)" for t
    using log_if by metis
  let ?s = "s\<lparr>events := events s @ es\<rparr>"
  have log: "effects s ?s" by (intro r_into_rtranclp e_local) (simp add: core_def)
  show ?thesis
  proof (cases "fst (joinDecision ?g (slot \<in> set (g_completedSlots g)) exit gid (db s))")
    case True
    let ?p = "do { State_Monad.update (\<lambda>s. s\<lparr>inflight := AList.delete ?key (inflight s)\<rparr>); releaseIssueClaim repo n }"
    have "effects ?s (snd (run_state ?p ?s))" by (rule eff.io_run) (intro eff_struct eff_intro)
    with log have "effects s (snd (run_state ?p ?s))" by (rule eff.R_trans)
    with True es show ?thesis
      by (auto simp: settleSlot_def Let_def delete_update_same split: prod.splits)
  next
    case False
    let ?u = "s\<lparr>inflight := AList.update ?key ?g (inflight s)\<rparr>"
    have "effects s ?u" using g False by (intro eff_put [OF _ gc_slot [OF slot, where gid = gid]])
    also have "effects ?u (?u\<lparr>events := events s @ es\<rparr>)" by (intro r_into_rtranclp e_local) (simp add: core_def)
    finally have "effects s (?u\<lparr>events := events s @ es\<rparr>)" .
    with False es show ?thesis by (simp add: settleSlot_def Let_def split: prod.splits)
  qed
qed

lemma eff_recordCompletion:
  assumes "map_of (inflight s) (issueKey repo n) = Some g" "map_of (g_slots g) (fst info) \<noteq> None"
  shows "effects s (snd (run_state (recordCompletion repo n t a exit labels d g info) s))"
proof -
  obtain slot gid idx tot where info: "info = (slot, gid, idx, tot)" by (cases info)
  obtain dec s1 where run: "run_state (settleSlot repo n a exit g info) s = (dec, s1)" by (rule prod.exhaust)
  with eff_settleSlot [OF assms(1), of slot a exit gid idx tot] assms(2) have "effects s s1"
    by (simp add: info)
  moreover have "state_io_rel effects (case dec of (over, passed, summary) \<Rightarrow> do {
       logCompletionEvent repo n t a exit;
       logSynthesisDecision repo n (completeSlot (fst info) exit g) d;
       if over then do {
         logGroupResolved repo n (completeSlot (fst info) exit g) (fst (snd info)) passed summary;
         finishGroup repo n (completeSlot (fst info) exit g) passed d labels
       } else State_Monad.return () })"
    by (intro eff_struct eff_intro)
  ultimately show ?thesis
    using eff.R_trans eff.io_run run by (simp add: recordCompletion_def Let_def) blast
qed

lemma eff_MarkAgentCompleted [eff_intro]:
  "state_io_rel effects (MarkAgentCompletedWithDecision repo n t a e labels d)"
  unfolding MarkAgentCompletedWithDecision_def Let_def
proof (rule eff.io_get_bind, goal_cases)
  case (1 s)
  let ?key = "issueKey repo n" and ?a = "canonicalAgentName t a (db s)" and ?k = "trim_space t"
  let ?info = "completionSlot t ?a (db s)"
  have log: "effects u (snd (run_state (logCompletionEvent repo n t ?a e) u))" for u
    by (rule eff.io_run) (rule eff_intro)
  show ?case
  proof (cases "map_of (inflight s) ?key")
    case None
    have "state_io_rel effects (do { releaseIssueClaim repo n; recordStuckCandidate ?key labels;
        logCompletionEvent repo n t ?a e })"
      by (intro eff_struct eff_intro)
    from eff.io_run [OF this, of s] None show ?thesis by simp
  next
    case (Some g)
    define g1 where "g1 = (if ?k \<noteq> [] then g\<lparr>g_completedTaskIDs := set_add ?k (g_completedTaskIDs g)\<rparr> else g)"
    define s1 where "s1 = s\<lparr>inflight := AList.update ?key g1 (inflight s)\<rparr>"
    have "group_change (db s) g g1"
      using gc_task [of "db s" g "g_completedTaskIDs g"] by (simp add: g1_def gc_task)
    then have s1: "effects s s1" unfolding s1_def using Some by (rule eff_put [rotated])
    have g1: "map_of (inflight s1) ?key = Some g1" by (simp add: s1_def update_Some_unfold)
    have body: "effects s (snd (run_state (if map_of (g_slots g1) (fst ?info) = None then logCompletionEvent repo n t ?a e
        else recordCompletion repo n t ?a e labels d g1 ?info) s1))"
      using eff.R_trans [OF s1] log [of s1] eff_recordCompletion [OF g1, of ?info t ?a e labels d] by simp
    show ?thesis
    proof (cases "?k \<noteq> [] \<and> ?k \<in> set (g_completedTaskIDs g)")
      case True
      with log [of s] show ?thesis by (simp add: Some)
    next
      case False
      show ?thesis
        using body unfolding Some option.case if_not_P [OF False] run_state_bind run_update case_prod_conv
          g1_def [symmetric] s1_def [symmetric] .
    qed
  qed
qed

lemma eff_releaseTracked: "issueClaimerID s = w \<Longrightarrow> effects s (snd (run_state (releaseTracked w ts) s))"
proof (induction ts arbitrary: s)
  case (Cons x ts)
  obtain key token where x: "x = (key, token)" by (cases x)
  have step: "effects s (s\<lparr>db := fst (ReleaseIssueClaim repo n w token (db s))\<rparr>)" for repo n
    using Cons.prems st_release by (blast intro: e_store)
  show ?case
    using Cons eff.R_trans [OF step Cons.IH] by (auto simp: x split: option.split)
qed simp

lemma eff_ReleaseAll [eff_intro]: "state_io_rel effects ReleaseAllIssueClaims"
proof (unfold state_io_rel_def, intro allI)
  fix s :: sm
  let ?s = "s\<lparr>claimTokens := []\<rparr>"
  have "effects s ?s" by (intro r_into_rtranclp e_local) (simp add: core_def)
  with eff_releaseTracked [of ?s "issueClaimerID s" "claimTokens s"]
  show "effects s (snd (run_state ReleaseAllIssueClaims s))"
    by (auto simp: ReleaseAllIssueClaims_def intro: eff.R_trans)
qed

lemma eff_checkAll [eff_intro]: "state_io_rel effects (checkAll cs)"
proof (induction cs)
  case Nil
  show ?case unfolding checkAll.simps by (rule eff.io_return)
next
  case (Cons x cs)
  obtain k ic where x: "x = (k, ic)" by (cases x)
  show ?case unfolding x checkAll.simps by (intro eff_struct eff_intro Cons.IH)
qed

lemma eff_CheckAllStuck [eff_intro]: "state_io_rel effects (CheckAllStuck repo)"
  unfolding CheckAllStuck_def by (intro eff_struct eff_intro)+

section \<open>Invariants of runs\<close>

text \<open>A property of states that every effect keeps, that \<open>ResetDedup\<close> keeps and that the
  environment keeps holds in every state of a run.\<close>

locale effect_invariant =
  fixes I :: "sm \<Rightarrow> bool"
  assumes effect: "sm_effect s s' \<Longrightarrow> I s \<Longrightarrow> I s'"
    and reset: "I s \<Longrightarrow> I (ResetDedup s)"
begin

lemma after_effects: "effects s s' \<Longrightarrow> I s \<Longrightarrow> I s'"
  by (induction rule: rtranclp_induct) (auto intro: effect)

lemma after_program: "state_io_rel effects m \<Longrightarrow> I s \<Longrightarrow> I (snd (run_state m s))"
  using eff.io_run after_effects by blast

lemma after_step: "sm_step E s s' \<Longrightarrow> (\<And>s s'. E s s' \<Longrightarrow> I s \<Longrightarrow> I s') \<Longrightarrow> I s \<Longrightarrow> I s'"
  by (induction rule: sm_step.induct) (auto intro: after_program eff_intro reset)

theorem after_run:
  assumes "(sm_step E)\<^sup>*\<^sup>* s s'" "\<And>s s'. E s s' \<Longrightarrow> I s \<Longrightarrow> I s'" "I s"
  shows "I s'"
  using assms(1,3) by (induction rule: rtranclp_induct) (auto intro: after_step assms(2))

end

end
