(* ===== verification/SM_Groups.thy ===== *)
theory SM_Groups
  imports SM_Effects
begin

text \<open>
  Dispatch groups and their joins. A group in flight is consistent and, unless it is joined by
  rollouts, still undecided: this is an invariant of every run, whatever other processes do
  to the database. A join decides the same way in whatever order the agents finish, and a
  second report of a task changes nothing.
\<close>

section \<open>The group invariant\<close>

definition group_ok :: "dispatchGroup \<Rightarrow> bool" where
  "group_ok g \<longleftrightarrow> distinct (map fst (g_slots g)) \<and> distinct (g_completedSlots g) \<and>
     set (g_completedSlots g) \<subseteq> fst ` set (g_slots g) \<and>
     set (g_successSlots g) \<union> set (g_failedSlots g) = set (g_completedSlots g) \<and>
     set (g_successSlots g) \<inter> set (g_failedSlots g) = {}"

definition undecided :: "dispatchGroup \<Rightarrow> bool" where
  "undecided g \<longleftrightarrow> (Strategy (g_join g) \<noteq> JoinRollouts \<longrightarrow> length (g_completedSlots g) < length (g_slots g)) \<and>
     (Strategy (g_join g) = JoinAllPassed \<longrightarrow> g_failedSlots g = []) \<and>
     (Strategy (g_join g) = JoinAnyPassed \<longrightarrow> g_successSlots g = [])"

definition groups_inv :: "sm \<Rightarrow> bool" where
  "groups_inv s \<longleftrightarrow> (\<forall>k g. map_of (inflight s) k = Some g \<longrightarrow> group_ok g \<and> undecided g)"

lemma completeSlot_simps [simp]:
  "g_slots (completeSlot slot e g) = g_slots g" "g_join (completeSlot slot e g) = g_join g"
  "g_workflow (completeSlot slot e g) = g_workflow g" "g_state (completeSlot slot e g) = g_state g"
  "g_mode (completeSlot slot e g) = g_mode g" "g_completedTaskIDs (completeSlot slot e g) = g_completedTaskIDs g"
  by (simp_all add: completeSlot_def Let_def)

lemma fresh_group_ok: "fresh_group g \<Longrightarrow> group_ok g \<and> undecided g"
  by (auto simp: fresh_group_def group_ok_def undecided_def)

lemma completeSlot_ok: "group_ok g \<Longrightarrow> map_of (g_slots g) slot \<noteq> None \<Longrightarrow> group_ok (completeSlot slot e g)"
  by (auto simp: group_ok_def completeSlot_def Let_def map_of_eq_None_iff)

lemma open_join_undecided:
  assumes "undecided g" "\<not> fst (joinDecision (completeSlot slot e g) (slot \<in> set (g_completedSlots g)) e gid d)"
  shows "undecided (completeSlot slot e g)"
  using assms
  by (auto simp: undecided_def joinDecision_def completeSlot_def Let_def config_consts set_add_def split: if_splits)

lemma group_change_ok: "group_change d g g' \<Longrightarrow> group_ok g \<and> undecided g \<Longrightarrow> group_ok g' \<and> undecided g'"
proof (induction rule: group_change.induct)
  case (gc_slot g slot e gid)
  then show ?case by (blast intro: completeSlot_ok open_join_undecided)
qed (auto simp: group_ok_def undecided_def)

interpretation groups: effect_invariant groups_inv
proof unfold_locales
  fix s :: sm
  assume "groups_inv s"
  then show "groups_inv (ResetDedup s)" by (simp add: groups_inv_def ResetDedup_def)
next
  fix s s' :: sm
  assume "sm_effect s s'" "groups_inv s"
  then show "groups_inv s'"
  proof (induction rule: sm_effect.induct)
    case (e_drop s key)
    then show ?case by (auto simp: groups_inv_def Claim_Store.map_of_delete split: if_splits)
  next
    case (e_start s key g)
    then show ?case using fresh_group_ok by (auto simp: groups_inv_def update_conv')
  next
    case (e_group s key g g')
    then show ?case using group_change_ok by (auto simp: groups_inv_def update_conv')
  qed (auto simp: groups_inv_def core_def)
qed

lemma outstanding_slot:
  assumes "group_ok g" "length (g_completedSlots g) < length (g_slots g)"
  shows "\<exists>slot \<in> fst ` set (g_slots g). slot \<notin> set (g_completedSlots g)"
proof (rule ccontr)
  assume "\<not> ?thesis"
  then have "fst ` set (g_slots g) \<subseteq> set (g_completedSlots g)" by blast
  then have "card (fst ` set (g_slots g)) \<le> card (set (g_completedSlots g))" by (intro card_mono) simp_all
  moreover have "card (fst ` set (g_slots g)) = length (g_slots g)"
    using assms(1) distinct_card [of "map fst (g_slots g)"] by (simp add: group_ok_def)
  ultimately show False using assms(2) card_length [of "g_completedSlots g"] by linarith
qed

text \<open>C21. A dispatch group never outlives its decision. Over any run of the state machine that starts
  with nothing in flight, whatever other processes do to the database meanwhile, a group in
  flight has recorded each completed slot as either passed or failed and never both; and if it
  is not joined by rollouts, some slot of it is still outstanding, no slot of an
  \<^verbatim>\<open>all_passed\<close> group has failed and no slot of an \<^verbatim>\<open>any_passed\<close> group has passed.\<close>

theorem inflight_groups_undecided:
  assumes "(sm_step (world (\<lambda>_ _. True)))\<^sup>*\<^sup>* s s'" "inflight s = []"
    and "map_of (inflight s') key = Some g"
  shows "set (g_successSlots g) \<union> set (g_failedSlots g) = set (g_completedSlots g) \<and>
    set (g_successSlots g) \<inter> set (g_failedSlots g) = {} \<and>
    (Strategy (g_join g) \<noteq> JoinRollouts \<longrightarrow> (\<exists>slot \<in> fst ` set (g_slots g). slot \<notin> set (g_completedSlots g))) \<and>
    (Strategy (g_join g) = JoinAllPassed \<longrightarrow> g_failedSlots g = []) \<and>
    (Strategy (g_join g) = JoinAnyPassed \<longrightarrow> g_successSlots g = [])"
proof -
  have "groups_inv s'"
    by (rule groups.after_run [OF assms(1)]) (auto simp: groups_inv_def world_def assms(2))
  then have "group_ok g" "undecided g" using assms(3) by (auto simp: groups_inv_def)
  then show ?thesis using outstanding_slot by (auto simp: group_ok_def undecided_def)
qed

theorem inflight_groups_undecided_witness:
  "\<exists>g. map_of (inflight (snd (run_state (DispatchAgent background ''o/r'' 7 ''dev'' ''wf'' ''developing'')
       (demo_sm empty_store)))) (issueKey ''o/r'' 7) = Some g \<and> g_failedSlots g = []"
proof -
  let ?s' = "snd (run_state (DispatchAgent background ''o/r'' 7 ''dev'' ''wf'' ''developing'') (demo_sm empty_store))"
  have "map_option (\<lambda>g. Strategy (g_join g)) (map_of (inflight ?s') (issueKey ''o/r'' 7)) = Some JoinAllPassed"
    "inflight (demo_sm empty_store) = []"
    by code_simp+
  then obtain g where g: "map_of (inflight ?s') (issueKey ''o/r'' 7) = Some g" "Strategy (g_join g) = JoinAllPassed"
    by (auto simp: map_option_eq_Some)
  from inflight_groups_undecided [OF dispatch_step _ g(1)] g show ?thesis
    using \<open>inflight (demo_sm empty_store) = []\<close> by auto
qed

section \<open>Joins\<close>

text \<open>The reports of agents, each recorded in the group and judged by the join, until it decides.\<close>

fun feed :: "store \<Rightarrow> dispatchGroup \<Rightarrow> (string \<times> int) list \<Rightarrow> bool option" where
  "feed d g [] = None"
| "feed d g ((slot, e) # rs) =
     (let g' = completeSlot slot e g;
          dec = joinDecision g' (slot \<in> set (g_completedSlots g)) e [] d
      in if fst dec then Some (fst (snd dec)) else feed d g' rs)"

definition join_verdict :: "dispatchGroup \<Rightarrow> (string \<times> int) list \<Rightarrow> bool option" where
  "join_verdict g rs =
     (if Strategy (g_join g) = JoinAnyPassed \<and> (\<exists>(_, e) \<in> set rs. e = 0) then Some True
      else if Strategy (g_join g) = JoinAllPassed \<and> (\<exists>(_, e) \<in> set rs. e \<noteq> 0) then Some False
      else if length (g_completedSlots g) + length rs < length (g_slots g) \<or> rs = [] then None
      else if Strategy (g_join g) = JoinAnyPassed then Some False
      else Some (g_failedSlots g = [] \<and> (\<forall>(_, e) \<in> set rs. e = 0)))"

lemma feed_verdict:
  assumes "group_ok g" "undecided g" "Strategy (g_join g) \<noteq> JoinRollouts"
    and "distinct (map fst rs)" "fst ` set rs \<subseteq> fst ` set (g_slots g) - set (g_completedSlots g)"
  shows "feed d g rs = join_verdict g rs"
  using assms
proof (induction rs arbitrary: g)
  case (Cons r rs)
  obtain slot e where r: "r = (slot, e)" by (cases r)
  let ?g = "completeSlot slot e g"
  let ?dec = "joinDecision ?g False e [] d"
  have new: "slot \<notin> set (g_completedSlots g)" and in_g: "map_of (g_slots g) slot \<noteq> None"
    using Cons.prems(5) by (auto simp: r map_of_eq_None_iff)
  have slots: "g_completedSlots ?g = g_completedSlots g @ [slot]"
    "g_failedSlots ?g = (if e = 0 then g_failedSlots g else set_add slot (g_failedSlots g))"
    "g_successSlots ?g = (if e = 0 then set_add slot (g_successSlots g) else g_successSlots g)"
    using new by (simp_all add: completeSlot_def Let_def set_add_def)
  have room: "length (slot # map fst rs @ g_completedSlots g) \<le> length (g_slots g)"
  proof -
    have "distinct (slot # map fst rs @ g_completedSlots g)"
      using Cons.prems by (auto simp: r group_ok_def)
    moreover have "set (slot # map fst rs @ g_completedSlots g) \<subseteq> set (map fst (g_slots g))"
      using Cons.prems by (auto simp: r group_ok_def)
    ultimately show ?thesis
      by (metis card_length card_mono distinct_card finite_set le_trans length_map)
  qed
  show ?case
  proof (cases "fst ?dec")
    case True
    have "rs = [] \<or> Suc (length (g_completedSlots g)) < length (g_slots g)" using room by (cases rs) auto
    then show ?thesis
      using True new slots Cons.prems(2,3)
      by (auto simp: r join_verdict_def joinDecision_def Let_def undecided_def config_consts set_add_def split: if_splits)
  next
    case False
    have "undecided ?g"
      using open_join_undecided [OF Cons.prems(2), of slot e "[]" d] False new by simp
    then have "feed d ?g rs = join_verdict ?g rs"
      using Cons.prems in_g by (intro Cons.IH completeSlot_ok) (auto simp: slots r intro: rev_image_eqI)
    moreover have "join_verdict ?g rs = join_verdict g (r # rs)"
      using False new slots Cons.prems(2,3)
      by (auto simp: r join_verdict_def joinDecision_def Let_def undecided_def config_consts set_add_def split: if_splits)
    ultimately show ?thesis using False new by (simp add: r)
  qed
qed (simp add: join_verdict_def)

text \<open>C22. The verdict of a join depends only on which slots have reported and how, not on the order
  of the reports: \<^verbatim>\<open>any_passed\<close> passes as soon as one slot passes and fails when all
  have failed; \<^verbatim>\<open>all_passed\<close> fails as soon as one slot fails and passes when all have
  passed; any other strategy except rollouts waits for all slots; and until then there is no
  verdict.\<close>

theorem join_decides:
  assumes "slots \<noteq> []" "distinct (map fst slots)" "Strategy j \<noteq> JoinRollouts"
    and "distinct (map fst rs)" "fst ` set rs \<subseteq> fst ` set slots"
  shows "feed d (newDispatchGroup w st mode j slots) rs =
    (if Strategy j = JoinAnyPassed \<and> 0 \<in> snd ` set rs then Some True
     else if Strategy j = JoinAllPassed \<and> snd ` set rs - {0} \<noteq> {} then Some False
     else if length rs < length slots then None
     else Some (snd ` set rs = {0}))"
proof -
  let ?g = "newDispatchGroup w st mode j slots"
  have "group_ok ?g" "undecided ?g"
    using fresh_group_ok [of ?g] assms by (simp_all add: fresh_group_def newDispatchGroup_def)
  then have "feed d ?g rs = join_verdict ?g rs"
    using assms by (intro feed_verdict) (auto simp: newDispatchGroup_def)
  moreover have "(\<exists>(_, e) \<in> set rs. e = 0) \<longleftrightarrow> 0 \<in> snd ` set rs" "(\<exists>(_, e) \<in> set rs. e \<noteq> 0) \<longleftrightarrow> snd ` set rs - {0} \<noteq> {}"
    "(\<forall>(_, e) \<in> set rs. e = 0) \<longleftrightarrow> snd ` set rs \<subseteq> {0}"
    by force+
  moreover have "rs \<noteq> [] \<Longrightarrow> snd ` set rs \<subseteq> {0} \<longleftrightarrow> snd ` set rs = {0}" by (auto simp: subset_singleton_iff)
  moreover have "g_completedSlots ?g = []" "g_failedSlots ?g = []" "g_slots ?g = slots" "g_join ?g = j"
    by (simp_all add: newDispatchGroup_def)
  moreover have "length rs < length slots" if "rs = []" using that assms(1) by simp
  ultimately show ?thesis unfolding join_verdict_def by auto
qed

theorem join_decides_witness:
  "let j = \<lparr>Strategy = JoinAllPassed, MinSuccesses = 0\<rparr>;
       g = newDispatchGroup ''wf'' ''developing'' StateModeReview j [(''dev'', ''dev''), (''docs'', ''docs'')]
   in feed empty_store g [(''dev'', 0), (''docs'', 0)] = Some True \<and>
      feed empty_store g [(''docs'', 1), (''dev'', 0)] = Some False \<and>
      feed empty_store g [(''docs'', 0)] = None"
  by (simp add: Let_def join_decides config_consts del: feed.simps)

end
