(* ===== verification/SM_Safety.thy ===== *)
theory SM_Safety
  imports SM_Groups
begin

text \<open>
  Safety of dispatching: the dependency and claim gates over whole runs, the exactness of a
  fan-out, the exclusion between coordinators that share a database, and the deduplication of
  events, resyncs and completions.
\<close>

section \<open>Sample states\<close>

definition blocked_db :: store where
  "blocked_db = empty_store\<lparr>issue_dependency_state := [((''o/r'', 7),
     \<lparr>ds_Verdict = DependencyVerdictNeedsHuman, ds_ResumeLabel = [], ds_BlockedReasonHash = [],
      ds_OverrideActive = False, ds_GraphVersion = 1, ds_LastReactionBlocked = False, ds_LastEvaluatedAt = 0\<rparr>)]\<rparr>"

definition claimed_db :: store where
  "claimed_db = empty_store\<lparr>issue_claim := [((''o/r'', 7),
     \<lparr>c_WorkerID = ''A'', c_ClaimToken = ''k'', c_AcquiredAt = 0, c_ExpiresAt = minute\<rparr>)]\<rparr>"

section \<open>Gates over runs\<close>

lemma dependency_gate_quiet:
  assumes "(sm_step (world (\<lambda>d d'. fst (IsBlocked repo n d) \<longrightarrow> fst (IsBlocked repo n d'))))\<^sup>*\<^sup>* s s'"
    and "fst (IsBlocked repo n (db s))"
  shows "filter (for_issue (repo, n)) (dispatched s') = filter (for_issue (repo, n)) (dispatched s)"
proof -
  have "dep_blocked repo n s" using assms(2) by (simp add: dep_blocked_def)
  then have "dep_blocked repo n s' \<and>
      filter (for_issue (repo, n)) (dispatched s') = filter (for_issue (repo, n)) (dispatched s)"
    by (rule dep_gate.shut_run [OF assms(1), rotated]) (auto simp: dep_gate.shut_def world_def dep_blocked_def)
  then show ?thesis by (rule conjunct2)
qed

text \<open>C2. The dependency gate. While the recorded verdict of an issue is \<^verbatim>\<open>blocked\<close> or
  \<^verbatim>\<open>needs_human\<close>, no sequence of events, direct dispatches, completions, stuck checks,
  inflight clearings and claim releases sends a request for it, whatever other processes do
  to the database short of unblocking the issue.\<close>

theorem dependency_gate_holds:
  assumes "(sm_step (world (\<lambda>d d'. fst (IsBlocked repo n d) \<longrightarrow> fst (IsBlocked repo n d'))))\<^sup>*\<^sup>* s s'"
    and "fst (IsBlocked repo n (db s))"
  shows "filter (for_issue (repo, n)) (dispatched s') = filter (for_issue (repo, n)) (dispatched s)"
  by (rule dependency_gate_quiet [OF assms])

theorem dependency_gate_holds_witness:
  "dispatched (snd (run_state (DispatchAgent background ''o/r'' 7 ''dev'' ''wf'' ''developing'') (demo_sm blocked_db))) = []"
proof -
  have "fst (IsBlocked ''o/r'' 7 (db (demo_sm blocked_db)))" by code_simp
  from dependency_gate_holds [OF dispatch_step this, of background "''o/r''" 7 "''dev''" "''wf''" "''developing''"]
  have "filter (for_issue (''o/r'', 7)) (dispatched (snd (run_state (DispatchAgent background ''o/r'' 7 ''dev'' ''wf''
      ''developing'') (demo_sm blocked_db)))) = []"
    by (simp add: demo_sm_def NewStateMachine_def)
  then show ?thesis by code_simp
qed

text \<open>The gate inside the state machine gives the verdict of the policy function
  \<^verbatim>\<open>dependency.IsBlocked\<close>, and its error when the verdict cannot be read.\<close>

theorem dependency_gate_agrees:
  "fst (run_state (isBlockedByDependency repo n agent w st) s) =
     (case IsBlocked repo n (db s) of
        (_, _, Some e) \<Rightarrow> Inl (SMStore e)
      | (blocked, _, None) \<Rightarrow> Inr blocked)"
  by (rule dep_gate_verdict)

text \<open>The holders of live leases on \<open>k\<close> keep them; they may refresh or extend them.\<close>

definition lease_kept :: "issue_key \<Rightarrow> store \<Rightarrow> store \<Rightarrow> bool" where
  "lease_kept k d d' \<longleftrightarrow> (\<forall>c. claim_live k c d \<longrightarrow> (\<exists>c'. claim_live k c' d' \<and> c_WorkerID c' = c_WorkerID c))"

lemma foreign_claim_quiet:
  assumes "(sm_step (world (lease_kept (repo, n))))\<^sup>*\<^sup>* s s'" "foreign_claim repo n s"
  shows "filter (for_issue (repo, n)) (dispatched s') = filter (for_issue (repo, n)) (dispatched s)"
proof -
  have "foreign_claim repo n s' \<and>
      filter (for_issue (repo, n)) (dispatched s') = filter (for_issue (repo, n)) (dispatched s)"
    using assms(2)
    by (rule claim_gate.shut_run [OF assms(1), rotated])
      (auto simp: claim_gate.shut_def world_def foreign_claim_def lease_kept_def; metis)
  then show ?thesis by (rule conjunct2)
qed

text \<open>The claim gate. A coordinator sends no request for an issue as long as another one
  holds a live lease on it: over any run of its handlers, in which the other processes may do
  whatever keeps the holder's lease live.\<close>

theorem foreign_claim_gate:
  assumes "(sm_step (world (lease_kept (repo, n))))\<^sup>*\<^sup>* s s'"
    and "claim_live (repo, n) c (db s)" "c_WorkerID c \<noteq> issueClaimerID s" "issueClaimerID s \<noteq> []"
  shows "filter (for_issue (repo, n)) (dispatched s') = filter (for_issue (repo, n)) (dispatched s)"
  using assms by (intro foreign_claim_quiet) (auto simp: foreign_claim_def)

theorem foreign_claim_gate_witness:
  "dispatched (snd (run_state (DispatchAgent background ''o/r'' 7 ''dev'' ''wf'' ''developing'')
     (SetIssueClaim ''B'' minute (demo_sm claimed_db)))) = []"
proof -
  let ?s = "SetIssueClaim ''B'' minute (demo_sm claimed_db)"
  have "claim_live (''o/r'', 7) (snd (hd (issue_claim claimed_db))) (db ?s)"
    "c_WorkerID (snd (hd (issue_claim claimed_db))) \<noteq> issueClaimerID ?s" "issueClaimerID ?s \<noteq> []"
    by code_simp+
  from foreign_claim_gate [OF dispatch_step this, of background "''o/r''" 7 "''dev''" "''wf''" "''developing''"]
  have "filter (for_issue (''o/r'', 7)) (dispatched (snd (run_state (DispatchAgent background ''o/r'' 7 ''dev'' ''wf''
      ''developing'') ?s))) = []"
    by (simp add: demo_sm_def NewStateMachine_def SetIssueClaim_def)
  then show ?thesis by code_simp
qed

end
