(* ===== verification/SM_Fanout.thy ===== *)
theory SM_Fanout
  imports SM_Safety
begin

text \<open>
  What is sent. A request goes out exactly once per slot of a group; a fan-out sends every
  request in order unless its context is cancelled; and a coordinator that has sent anything
  for an issue holds the lease on it, so that the others cannot.
\<close>

section \<open>One request\<close>

definition stamp :: "ctx \<Rightarrow> DispatchRequest \<Rightarrow> DispatchRequest" where
  "stamp c req = (if r_RootTraceID req = [] then req\<lparr>r_RootTraceID := ctx_trace c\<rparr> else req)"

lemma stamp_simps [simp]:
  "r_Repo (stamp c r) = r_Repo r" "r_IssueNum (stamp c r) = r_IssueNum r" "r_Workflow (stamp c r) = r_Workflow r"
  "r_State (stamp c r) = r_State r" "r_AgentName (stamp c r) = r_AgentName r"
  "r_RolloutIndex (stamp c r) = r_RolloutIndex r" "dispatchSlotKey (stamp c r) = dispatchSlotKey r"
  by (simp_all add: stamp_def dispatchSlotKey_def)

abbreviation req_key :: "DispatchRequest \<Rightarrow> string" where
  "req_key r \<equiv> issueKey (r_Repo r) (r_IssueNum r)"

text \<open>The slot is taken: the issue runs another state, or the slot went out already.\<close>

definition slot_taken :: "DispatchRequest \<Rightarrow> sm \<Rightarrow> bool" where
  "slot_taken r s \<longleftrightarrow> (\<exists>g. map_of (inflight s) (req_key r) = Some g \<and>
     (g_workflow g \<noteq> r_Workflow r \<or> g_state g \<noteq> r_State r \<or> dispatchSlotKey r \<in> set (g_dispatchedSlots g)))"

definition reserved :: "DispatchRequest \<Rightarrow> sm \<Rightarrow> dispatchGroup" where
  "reserved r s = (case map_of (inflight s) (req_key r) of
     None \<Rightarrow> (newDispatchGroup (r_Workflow r) (r_State r) StateModeReview defaultJoinConfig
       [(dispatchSlotKey r, r_AgentName r)])\<lparr>g_dispatchedSlots := [dispatchSlotKey r]\<rparr>
   | Some g \<Rightarrow> g\<lparr>g_dispatchedSlots := set_add (dispatchSlotKey r) (g_dispatchedSlots g)\<rparr>)"

lemma taken_stamp [simp]: "slot_taken (stamp c r) s = slot_taken r s" "reserved (stamp c r) s = reserved r s"
  by (simp_all add: slot_taken_def reserved_def cong: option.case_cong)

lemma reserveSlot_taken:
  "slot_taken r s \<Longrightarrow> \<exists>x. run_state (reserveSlot r) s = (Some x, s)"
  by (auto simp: slot_taken_def reserveSlot_def Let_def)

lemma reserveSlot_free:
  "\<not> slot_taken r s \<Longrightarrow>
   run_state (reserveSlot r) s = (None, s\<lparr>inflight := AList.update (req_key r) (reserved r s) (inflight s)\<rparr>)"
  by (auto simp: slot_taken_def reserveSlot_def reserved_def Let_def split: option.splits)

lemma single_taken:
  assumes "slot_taken r s"
  shows "\<exists>es. run_state (dispatchSingleAgent c r) s = (Inr (), s\<lparr>events := events s @ es\<rparr>)"
proof -
  have "slot_taken (stamp c r) s" using assms by simp
  then obtain g reason where "run_state (reserveSlot (stamp c r)) s = (Some (g, reason), s)"
    using reserveSlot_taken by (metis surj_pair)
  then show ?thesis
    by (auto simp: dispatchSingleAgent_def stamp_def [symmetric] Let_def log_skip_inflight_def log_event_def)
qed

lemma single_sent:
  assumes "\<not> slot_taken r s" "\<not> ctx_done c s"
  shows "\<exists>es. run_state (dispatchSingleAgent c r) s = (Inr (), s\<lparr>inflight := AList.update (req_key r) (reserved r s) (inflight s),
     events := events s @ es, dispatched := dispatched s @ [stamp c r],
     sends_left := (if ctx_background c then sends_left s else map_option (\<lambda>k. k - 1) (sends_left s))\<rparr>)"
proof -
  have "run_state (reserveSlot (stamp c r)) s =
      (None, s\<lparr>inflight := AList.update (req_key r) (reserved r s) (inflight s)\<rparr>)"
    using reserveSlot_free [of "stamp c r" s] assms(1) by simp
  then show ?thesis
    using assms(2)
    by (cases "r_RolloutIndex r > 0")
      (auto simp: dispatchSingleAgent_def stamp_def [symmetric] Let_def log_event_def ctx_done_def send_def)
qed

text \<open>A cancelled send: nothing goes out, and if other slots of the group did, the claim stays.\<close>

lemma single_cancelled:
  assumes "\<not> slot_taken r s" "ctx_done c s"
  shows "dispatched (snd (run_state (dispatchSingleAgent c r) s)) = dispatched s \<and>
     fst (run_state (dispatchSingleAgent c r) s) = Inl ContextDone \<and>
     (map_of (inflight s) (req_key r) = Some g \<longrightarrow> g_dispatchedSlots g \<noteq> [] \<longrightarrow>
       db (snd (run_state (dispatchSingleAgent c r) s)) = db s)"
proof -
  let ?s1 = "s\<lparr>inflight := AList.update (req_key r) (reserved r s) (inflight s)\<rparr>"
  have run: "run_state (reserveSlot (stamp c r)) s = (None, ?s1)"
    using reserveSlot_free [of "stamp c r" s] assms(1) by simp
  have "\<exists>es. run_state (dispatchSingleAgent c r) s =
      (Inl ContextDone, snd (run_state (rollbackSlot (stamp c r)) (?s1\<lparr>events := events s @ es\<rparr>)))"
    using assms(2) run
    by (cases "r_RolloutIndex r > 0")
      (auto simp: dispatchSingleAgent_def stamp_def [symmetric] Let_def log_event_def ctx_done_def case_prod_unfold)
  then obtain es where es: "run_state (dispatchSingleAgent c r) s =
      (Inl ContextDone, snd (run_state (rollbackSlot (stamp c r)) (?s1\<lparr>events := events s @ es\<rparr>)))" ..
  have "dispatched (snd (run_state (rollbackSlot (stamp c r)) t)) = dispatched t" for t
    by (auto simp: rollbackSlot_def releaseIssueClaim_def Let_def split: option.splits)
  moreover have "db (snd (run_state (rollbackSlot (stamp c r)) (?s1\<lparr>events := events s @ es\<rparr>))) = db s"
    if "map_of (inflight s) (req_key r) = Some g" "g_dispatchedSlots g \<noteq> []"
  proof -
    have "dispatchSlotKey r \<notin> set (g_dispatchedSlots g)" using assms(1) that(1) by (auto simp: slot_taken_def)
    then have "filter (\<lambda>k. k \<noteq> dispatchSlotKey r) (set_add (dispatchSlotKey r) (g_dispatchedSlots g)) = g_dispatchedSlots g"
      by (auto simp: set_add_def filter_id_conv)
    with that show ?thesis by (simp add: rollbackSlot_def Let_def reserved_def update_conv')
  qed
  ultimately show ?thesis by (simp add: es)
qed

text \<open>Sending one request. It goes out, carrying the trace of its context if it had none,
  exactly when the issue is not running another state, the slot has not been sent yet and the
  context is not done; only a done context is an error; and once sent the slot stays taken, so
  that sending the same request again sends nothing.\<close>

theorem dispatchSingleAgent_once:
  "let out = run_state (dispatchSingleAgent c req) s; s1 = snd out
   in dispatched s1 = (if slot_taken req s \<or> ctx_done c s then dispatched s else dispatched s @ [stamp c req]) \<and>
      fst out = (if \<not> slot_taken req s \<and> ctx_done c s then Inl ContextDone else Inr ()) \<and>
      (dispatched s1 \<noteq> dispatched s \<longrightarrow>
        dispatched (snd (run_state (dispatchSingleAgent c' req) s1)) = dispatched s1)"
proof -
  let ?s1 = "snd (run_state (dispatchSingleAgent c req) s)"
  have again: "dispatched (snd (run_state (dispatchSingleAgent c' req) ?s1)) = dispatched ?s1"
    if "\<not> slot_taken req s" "\<not> ctx_done c s"
  proof -
    have "slot_taken req ?s1"
      using single_sent [OF that] by (auto simp: slot_taken_def reserved_def newDispatchGroup_def update_conv' split: option.splits)
    with single_taken [of req ?s1 c'] show ?thesis by auto
  qed
  show ?thesis
  proof (cases "slot_taken req s")
    case True
    with single_taken [of req s c] show ?thesis by (auto simp: Let_def)
  next
    case False
    with single_sent [of req s c] single_cancelled [of req s c] again show ?thesis
      by (cases "ctx_done c s") (auto simp: Let_def)
  qed
qed

definition demo_request :: DispatchRequest where
  "demo_request = base_request ''o/r'' 7 ''dev'' ''wf'' ''developing'' ''triage''"

theorem dispatchSingleAgent_once_witness:
  "let s1 = snd (run_state (dispatchSingleAgent background demo_request) (demo_sm empty_store))
   in dispatched s1 = [demo_request] \<and>
      dispatched (snd (run_state (dispatchSingleAgent background demo_request) s1)) = [demo_request]"
proof -
  let ?s1 = "snd (run_state (dispatchSingleAgent background demo_request) (demo_sm empty_store))"
  have "\<not> slot_taken demo_request (demo_sm empty_store)" "\<not> ctx_done background (demo_sm empty_store)"
    "dispatched (demo_sm empty_store) = []"
    by (simp_all add: slot_taken_def demo_sm_def NewStateMachine_def ctx_done_def)
  moreover have "stamp background demo_request = demo_request"
    by (simp add: stamp_def demo_request_def base_request_def background_def)
  ultimately show ?thesis
    using dispatchSingleAgent_once [of background demo_request "demo_sm empty_store" background]
    by (simp add: Let_def)
qed

section \<open>A fan-out\<close>

definition never_done :: "ctx \<Rightarrow> sm \<Rightarrow> bool" where
  "never_done c s \<longleftrightarrow> ctx_background c \<or> sends_left s = None"

lemma dispatchAll_sends:
  assumes "map_of (inflight s) key = Some g" "never_done c s"
    and "\<forall>r \<in> set reqs. req_key r = key \<and> r_Workflow r = g_workflow g \<and> r_State r = g_state g"
    and "distinct (map dispatchSlotKey reqs)" "dispatchSlotKey ` set reqs \<inter> set (g_dispatchedSlots g) = {}"
  shows "fst (run_state (dispatchAll c reqs) s) = Inr () \<and>
     dispatched (snd (run_state (dispatchAll c reqs) s)) = dispatched s @ map (stamp c) reqs \<and>
     map_of (inflight (snd (run_state (dispatchAll c reqs) s))) key =
       Some (g\<lparr>g_dispatchedSlots := g_dispatchedSlots g @ map dispatchSlotKey reqs\<rparr>) \<and>
     db (snd (run_state (dispatchAll c reqs) s)) = db s"
  using assms
proof (induction reqs arbitrary: s g)
  case (Cons r rs)
  let ?g = "g\<lparr>g_dispatchedSlots := g_dispatchedSlots g @ [dispatchSlotKey r]\<rparr>"
  have key: "req_key r = key" using Cons.prems(3) by simp
  have "\<not> slot_taken r s" using Cons.prems key by (auto simp: slot_taken_def)
  moreover have "\<not> ctx_done c s" using Cons.prems(2) by (auto simp: never_done_def ctx_done_def)
  ultimately obtain es where run: "run_state (dispatchSingleAgent c r) s =
      (Inr (), s\<lparr>inflight := AList.update (req_key r) (reserved r s) (inflight s),
     events := events s @ es, dispatched := dispatched s @ [stamp c r],
     sends_left := (if ctx_background c then sends_left s else map_option (\<lambda>k. k - 1) (sends_left s))\<rparr>)" (is "_ = (_, ?s)")
    using single_sent by blast
  have "reserved r s = ?g" using Cons.prems key by (auto simp: reserved_def set_add_def)
  then have "map_of (inflight ?s) key = Some ?g" by (simp add: key update_conv')
  moreover have "never_done c ?s" using Cons.prems(2) by (auto simp: never_done_def)
  moreover have "dispatchSlotKey ` set rs \<inter> set (g_dispatchedSlots ?g) = {}"
    using Cons.prems(4,5) by auto
  ultimately have "fst (run_state (dispatchAll c rs) ?s) = Inr () \<and>
     dispatched (snd (run_state (dispatchAll c rs) ?s)) = dispatched ?s @ map (stamp c) rs \<and>
     map_of (inflight (snd (run_state (dispatchAll c rs) ?s))) key =
       Some (?g\<lparr>g_dispatchedSlots := g_dispatchedSlots ?g @ map dispatchSlotKey rs\<rparr>) \<and>
     db (snd (run_state (dispatchAll c rs) ?s)) = db ?s"
    using Cons.prems(3,4) by (intro Cons.IH) auto
  then show ?case by (simp add: run)
qed simp

text \<open>Nothing sent, or the database (and with it the claim) untouched.\<close>

lemma dispatchAll_db_started:
  assumes "map_of (inflight s) key = Some g" "g_dispatchedSlots g \<noteq> []" "\<forall>r \<in> set reqs. req_key r = key"
  shows "db (snd (run_state (dispatchAll c reqs) s)) = db s"
  using assms
proof (induction reqs arbitrary: s g)
  case (Cons r rs)
  have key: "req_key r = key" using Cons.prems by simp
  show ?case
  proof (cases "slot_taken r s")
    case True
    with single_taken obtain es where "run_state (dispatchSingleAgent c r) s = (Inr (), s\<lparr>events := events s @ es\<rparr>)" by blast
    with Cons.IH [of "s\<lparr>events := events s @ es\<rparr>" g] Cons.prems show ?thesis by simp
  next
    case False
    show ?thesis
    proof (cases "ctx_done c s")
      case True
      with single_cancelled [OF False, of c g] Cons.prems key show ?thesis by (auto simp: case_prod_unfold)
    next
      case not_done: False
      with single_sent [OF False] obtain es where run: "run_state (dispatchSingleAgent c r) s =
          (Inr (), s\<lparr>inflight := AList.update (req_key r) (reserved r s) (inflight s),
         events := events s @ es, dispatched := dispatched s @ [stamp c r],
         sends_left := (if ctx_background c then sends_left s else map_option (\<lambda>k. k - 1) (sends_left s))\<rparr>)" (is "_ = (_, ?s)")
        by blast
      have "map_of (inflight ?s) key = Some (reserved r s)" by (simp add: key update_conv')
      moreover have "g_dispatchedSlots (reserved r s) \<noteq> []"
        using Cons.prems by (auto simp: reserved_def key)
      ultimately have "db (snd (run_state (dispatchAll c rs) ?s)) = db ?s"
        using Cons.prems by (intro Cons.IH) auto
      then show ?thesis by (simp add: run)
    qed
  qed
qed simp

lemma dispatchAll_db:
  assumes "\<forall>r \<in> set reqs. req_key r = key"
  shows "dispatched (snd (run_state (dispatchAll c reqs) s)) = dispatched s \<or>
    db (snd (run_state (dispatchAll c reqs) s)) = db s"
  using assms
proof (induction reqs arbitrary: s)
  case (Cons r rs)
  show ?case
  proof (cases "slot_taken r s")
    case True
    with single_taken obtain es where "run_state (dispatchSingleAgent c r) s = (Inr (), s\<lparr>events := events s @ es\<rparr>)" by blast
    with Cons.IH [of "s\<lparr>events := events s @ es\<rparr>"] Cons.prems show ?thesis by simp
  next
    case False
    show ?thesis
    proof (cases "ctx_done c s")
      case True
      with single_cancelled [OF False, of c] show ?thesis by (auto simp: case_prod_unfold)
    next
      case not_done: False
      with single_sent [OF False] obtain es where run: "run_state (dispatchSingleAgent c r) s =
          (Inr (), s\<lparr>inflight := AList.update (req_key r) (reserved r s) (inflight s),
         events := events s @ es, dispatched := dispatched s @ [stamp c r],
         sends_left := (if ctx_background c then sends_left s else map_option (\<lambda>k. k - 1) (sends_left s))\<rparr>)" (is "_ = (_, ?s)")
        by blast
      have "map_of (inflight ?s) key = Some (reserved r s)" using Cons.prems by (simp add: update_conv')
      moreover have "g_dispatchedSlots (reserved r s) \<noteq> []"
        by (auto simp: reserved_def newDispatchGroup_def split: option.split)
      ultimately have "db (snd (run_state (dispatchAll c rs) ?s)) = db ?s"
        using Cons.prems by (intro dispatchAll_db_started) auto
      then show ?thesis by (simp add: run)
    qed
  qed
qed simp

lemma startGroup_db:
  assumes "\<forall>r \<in> set reqs. req_key r = issueKey repo n"
  shows "dispatched (snd (run_state (startGroup c repo n w st g reqs) s)) = dispatched s \<or>
    db (snd (run_state (startGroup c repo n w st g reqs) s)) = db s"
proof (cases "map_of (inflight s) (issueKey repo n)")
  case None
  let ?u = "s\<lparr>inflight := AList.update (issueKey repo n) g (inflight s)\<rparr>"
  obtain es where es: "run_state (if length reqs > 1 \<and> r_RolloutGroupID (hd reqs) \<noteq> []
           then log_event TypeRolloutGroupStarted repo n
             [(''group_id'', PStr (r_RolloutGroupID (hd reqs))), (''rollouts_total'', PInt (int (length reqs))),
              (''issue_num'', PInt n), (''role'', PStr (inferAgentRole (r_AgentName (hd reqs)))), (''state'', PStr st)]
           else State_Monad.return ()) t = ((), t\<lparr>events := events t @ es\<rparr>)" for t
    using log_if by metis
  show ?thesis
    using dispatchAll_db [OF assms, of c "?u\<lparr>events := events s @ es\<rparr>"] None es by (simp add: startGroup_def)
qed (simp add: startGroup_def log_event_def)

section \<open>Whoever dispatches holds the lease\<close>

definition sm_lease :: "sm \<Rightarrow> duration" where
  "sm_lease s = (if issueClaimLease s \<le> 0 then DefaultIssueClaimLease else issueClaimLease s)"

lemma claim_gate_owns:
  assumes "run_state (isBlockedByIssueClaim repo n a w st) s = (Inr False, s')" "issueClaimerID s \<noteq> []" "second \<le> sm_lease s"
  shows "\<exists>c. claim_live (repo, n) c (db s') \<and> c_WorkerID c = issueClaimerID s"
proof -
  obtain d res where acq: "AcquireIssueClaim repo n (issueClaimerID s) (sm_lease s) (db s) = (d, res)" by (rule prod.exhaust)
  then obtain r where r: "res = Inr r" and d: "db s' = d"
    using assms(1,2)
    by (cases res) (auto simp: isBlockedByIssueClaim_def Let_def sm_lease_def [symmetric] log_event_def split: if_splits)
  note own = AcquireIssueClaim_ok [OF acq [unfolded r]]
  have "clock d = clock (db s)" using AcquireIssueClaim_clock [of repo n "issueClaimerID s" "sm_lease s" "db s"] acq by simp
  moreover have "claim_lease (sm_lease s) = sm_lease s" using assms(3) by (simp add: claim_lease_def second_def)
  ultimately show ?thesis
    using own lease_outlives [OF assms(3), of "clock (db s)"] d by (auto simp: owns_def claim_live_def)
qed

lemma calm_dispatched: "state_io_rel calm m \<Longrightarrow> dispatched (snd (run_state m s)) = dispatched s"
  by (simp add: state_io_rel_def calm_def)

lemma claimer_kept:
  "issueClaimerID (snd (run_state (isBlockedByDependency repo n a w st) s)) = issueClaimerID s"
  "issueClaimLease (snd (run_state (isBlockedByDependency repo n a w st) s)) = issueClaimLease s"
  "issueClaimerID (snd (run_state (reconcileStaleInflight repo n) s)) = issueClaimerID s"
  "issueClaimLease (snd (run_state (reconcileStaleInflight repo n) s)) = issueClaimLease s"
  "dispatched (snd (run_state (reconcileStaleInflight repo n) s)) = dispatched s"
  "dispatched (snd (run_state (isBlockedByIssueClaim repo n a w st) s)) = dispatched s"
  by (auto simp: isBlockedByDependency_def reconcileStaleInflight_def clearInflightIfMatch_def releaseIssueClaim_def
      isBlockedByIssueClaim_def log_event_def Let_def split: sum.splits option.splits)

text \<open>The two gates before a fan-out: if something was sent after them, the lease was taken.\<close>

lemma gated_dispatch_owns:
  assumes "issueClaimerID s \<noteq> []" "second \<le> sm_lease s"
    and p: "\<And>u. dispatched (snd (run_state p u)) = dispatched u \<or> db (snd (run_state p u)) = db u"
    and run: "run_state (unless_blocked (isBlockedByDependency repo n a w st)
      (do { reconcileStaleInflight repo n; unless_blocked (isBlockedByIssueClaim repo n a w st) p })) s = (res, s')"
    and sent: "dispatched s' \<noteq> dispatched s"
  shows "\<exists>c. claim_live (repo, n) c (db s') \<and> c_WorkerID c = issueClaimerID s"
proof -
  obtain r1 s1 where 1: "run_state (isBlockedByDependency repo n a w st) s = (r1, s1)" by (rule prod.exhaust)
  have calm1: "dispatched s1 = dispatched s"
    using calm_dispatched [of "isBlockedByDependency repo n a w st" s] 1 calm_gates(3) by simp
  obtain u s2 where 2: "run_state (reconcileStaleInflight repo n) s1 = (u, s2)" by (rule prod.exhaust)
  obtain r3 s3 where 3: "run_state (isBlockedByIssueClaim repo n a w st) s2 = (r3, s3)" by (rule prod.exhaust)
  have same: "dispatched s3 = dispatched s" "issueClaimerID s2 = issueClaimerID s" "sm_lease s2 = sm_lease s"
    using claimer_kept(1,2) [of repo n a w st s] claimer_kept(3,4,5) [of repo n s1] claimer_kept(6) [of repo n a w st s2] 1 2 3 calm1
    by (simp_all add: sm_lease_def)
  have r1: "r1 = Inr False" and r3: "r3 = Inr False"
    using sent run 1 2 3 calm1 same(1) claimer_kept(5) [of repo n s1]
    by (auto simp: unless_blocked_def split: sum.splits if_splits)
  then have s': "s' = snd (run_state p s3)" using run 1 2 3 by (simp add: unless_blocked_def)
  then have "db s' = db s3" using p [of s3] sent same(1) by auto
  then show ?thesis using claim_gate_owns [OF 3 [unfolded r3]] same assms(1,2) by simp
qed

lemma dispatchStateAgents_owns:
  assumes "issueClaimerID s \<noteq> []" "second \<le> sm_lease s"
    and run: "run_state (dispatchStateAgents c repo n w src st sd labels) s = (res, s')"
    and sent: "dispatched s' \<noteq> dispatched s"
  shows "\<exists>c. claim_live (repo, n) c (db s') \<and> c_WorkerID c = issueClaimerID s"
proof -
  let ?p = "case resolveStateRollouts sd labels of
             Inl e \<Rightarrow> State_Monad.return (Inl e)
           | Inr rollouts \<Rightarrow> do {
               r \<leftarrow> buildRequests repo n w src st sd rollouts;
               (case r of
                  Inl e \<Rightarrow> State_Monad.return (Inl e)
                | Inr reqs \<Rightarrow>
                   (let join = (if trim_space (Strategy (Join sd)) = [] then defaultJoinConfig else Join sd)
                    in startGroup c repo n (wf_Name w) st
                         (newDispatchGroup (wf_Name w) st (stateMode sd) join (slots_of reqs)) reqs))
             }"
  have "dispatched (snd (run_state ?p u)) = dispatched u \<or> db (snd (run_state ?p u)) = db u" for u
  proof (cases "resolveStateRollouts sd labels")
    case (Inr k)
    obtain r u1 where b: "run_state (buildRequests repo n w src st sd k) u = (r, u1)" by (rule prod.exhaust)
    have u1: "dispatched u1 = dispatched u" "db u1 = db u"
      using b by (auto simp: buildRequests_def Let_def split: if_splits)
    show ?thesis
    proof (cases r)
      case (Inr reqs)
      with buildRequests_issue [of repo n w src st sd k u reqs u1] b
      have "\<forall>r \<in> set reqs. req_key r = issueKey repo n" by simp
      from startGroup_db [OF this] u1 b Inr \<open>resolveStateRollouts sd labels = Inr k\<close> show ?thesis by (simp add: Let_def) metis
    qed (use u1 b Inr in simp)
  qed simp
  from gated_dispatch_owns [OF assms(1,2) this, of repo n "hd (stateAgents sd)" "wf_Name w" st res s'] run sent
  show ?thesis by (cases "stateAgents sd = []") (simp_all add: dispatchStateAgents_def)
qed

text \<open>C1. No double dispatch by two coordinators that share the database. If coordinator \<open>a\<close>,
  configured with a claimer id and a lease of at least a second, sends anything for an issue
  when it dispatches a state's agents, then coordinator \<open>b\<close> with another claimer id sends
  nothing for that issue in any run from then on, as long as the lease is kept live.\<close>

theorem no_double_dispatch:
  assumes "run_state (dispatchStateAgents c repo n w src st sd labels) a = (res, a')" "dispatched a' \<noteq> dispatched a"
    and "issueClaimerID a \<noteq> []" "second \<le> sm_lease a"
    and "db b = db a'" "issueClaimerID b \<noteq> []" "issueClaimerID b \<noteq> issueClaimerID a"
    and "(sm_step (world (lease_kept (repo, n))))\<^sup>*\<^sup>* b b'"
  shows "filter (for_issue (repo, n)) (dispatched b') = filter (for_issue (repo, n)) (dispatched b)"
proof -
  obtain cl where "claim_live (repo, n) cl (db a')" "c_WorkerID cl = issueClaimerID a"
    using dispatchStateAgents_owns [OF assms(3,4,1,2)] by blast
  then have "foreign_claim repo n b" using assms(5-7) by (auto simp: foreign_claim_def)
  with assms(8) show ?thesis by (rule foreign_claim_quiet)
qed

definition demo_state :: WState where
  "demo_state = empty_state\<lparr>EnterLabel := ''status:developing'', Agents := [''dev'', ''docs''], Rollouts := 1,
     Join := \<lparr>Strategy = JoinAllPassed, MinSuccesses = 0\<rparr>, Transitions := [(''status:reviewing'', ''reviewing'')]\<rparr>"

definition demo_reviewing :: WState where
  "demo_reviewing = demo_state\<lparr>EnterLabel := ''status:reviewing'', Agents := [''review''],
     Transitions := [(''status:developing'', ''developing'')]\<rparr>"

definition demo_workflow :: WorkflowConfig where
  "demo_workflow = \<lparr>wf_Name = ''default'', TriggerLabel = ''workbuddy'', MaxRetries = 3, MaxReviewCycles = 3,
     States = [(''developing'', demo_state), (''reviewing'', demo_reviewing)]\<rparr>"

definition demo_coord :: "string \<Rightarrow> store \<Rightarrow> sm" where
  "demo_coord name d = SetIssueClaim name minute ((demo_sm d)\<lparr>workflows := [(''default'', demo_workflow)]\<rparr>)"

definition demo_entry :: "string \<Rightarrow> store \<Rightarrow> sm" where
  "demo_entry name d = snd (run_state (dispatchStateAgents background ''o/r'' 7 demo_workflow [] ''developing''
     demo_state [''workbuddy'', ''status:developing'']) (demo_coord name d))"

theorem no_double_dispatch_witness:
  "let a' = demo_entry ''A'' empty_store;
       b' = snd (run_state (DispatchAgent background ''o/r'' 7 ''dev'' ''default'' ''developing'') (demo_coord ''B'' (db a')))
   in map r_AgentName (dispatched a') = [''dev'', ''docs''] \<and> dispatched b' = []"
proof -
  let ?a = "demo_coord ''A'' empty_store" and ?a' = "demo_entry ''A'' empty_store"
  let ?b = "demo_coord ''B'' (db ?a')"
  let ?b' = "snd (run_state (DispatchAgent background ''o/r'' 7 ''dev'' ''default'' ''developing'') ?b)"
  have sent: "map r_AgentName (dispatched ?a') = [''dev'', ''docs'']" by code_simp
  moreover have "dispatched ?a = []" by code_simp
  ultimately have "dispatched ?a' \<noteq> dispatched ?a" by auto
  moreover have "run_state (dispatchStateAgents background ''o/r'' 7 demo_workflow [] ''developing''
      demo_state [''workbuddy'', ''status:developing'']) ?a = (Inr (), ?a')"
    unfolding demo_entry_def by (rule prod_eqI) (code_simp, simp)
  moreover have "issueClaimerID ?a \<noteq> []" "second \<le> sm_lease ?a" "db ?b = db ?a'" "issueClaimerID ?b \<noteq> []"
    "issueClaimerID ?b \<noteq> issueClaimerID ?a" "dispatched ?b = []"
    by (simp_all add: demo_coord_def SetIssueClaim_def demo_sm_def NewStateMachine_def trim_space_def is_space_def
        sm_lease_def minute_def second_def)
  ultimately have "filter (for_issue (''o/r'', 7)) (dispatched ?b') = []"
    using no_double_dispatch [of background "''o/r''" 7 demo_workflow "[]" "''developing''" demo_state
        "[''workbuddy'', ''status:developing'']" ?a "Inr ()" ?a' ?b ?b', OF _ _ _ _ _ _ _ dispatch_step] by simp
  then have "dispatched ?b' = []" by code_simp
  with sent show ?thesis by (simp add: Let_def)
qed

section \<open>A whole fan-out\<close>

lemma startGroup_sends:
  assumes "map_of (inflight s) (issueKey repo n) = None" "never_done c s" "g_dispatchedSlots g = []"
    and "\<forall>r \<in> set reqs. req_key r = issueKey repo n \<and> r_Workflow r = g_workflow g \<and> r_State r = g_state g"
    and "distinct (map dispatchSlotKey reqs)"
  shows "fst (run_state (startGroup c repo n w st g reqs) s) = Inr () \<and>
     dispatched (snd (run_state (startGroup c repo n w st g reqs) s)) = dispatched s @ map (stamp c) reqs \<and>
     map_of (inflight (snd (run_state (startGroup c repo n w st g reqs) s))) (issueKey repo n) =
       Some (g\<lparr>g_dispatchedSlots := map dispatchSlotKey reqs\<rparr>)"
proof -
  let ?u = "s\<lparr>inflight := AList.update (issueKey repo n) g (inflight s)\<rparr>"
  obtain es where es: "run_state (if length reqs > 1 \<and> r_RolloutGroupID (hd reqs) \<noteq> []
           then log_event TypeRolloutGroupStarted repo n
             [(''group_id'', PStr (r_RolloutGroupID (hd reqs))), (''rollouts_total'', PInt (int (length reqs))),
              (''issue_num'', PInt n), (''role'', PStr (inferAgentRole (r_AgentName (hd reqs)))), (''state'', PStr st)]
           else State_Monad.return ()) t = ((), t\<lparr>events := events t @ es\<rparr>)" for t
    using log_if by metis
  let ?v = "?u\<lparr>events := events s @ es\<rparr>"
  have "map_of (inflight ?v) (issueKey repo n) = Some g" by (simp add: update_conv')
  moreover have "never_done c ?v" using assms(2) by (simp add: never_done_def)
  ultimately show ?thesis
    using dispatchAll_sends [of ?v "issueKey repo n" g c reqs] assms es by (simp add: startGroup_def)
qed

lemma itoa_slot_inj: "rolloutSlotKey i = rolloutSlotKey j \<longleftrightarrow> i = j"
  using itoa_inj by (auto simp: rolloutSlotKey_def)

lemma buildRequests_fresh:
  assumes "run_state (buildRequests repo n w src st sd k) s = (Inr reqs, s')" "k > 1 \<or> src = []" "distinct (stateAgents sd)"
  shows "(\<forall>r \<in> set reqs. req_key r = issueKey repo n \<and> r_Workflow r = wf_Name w \<and> r_State r = st) \<and>
    distinct (map dispatchSlotKey reqs) \<and>
    map dispatchSlotKey reqs = (if k > 1 then map rolloutSlotKey [1..k] else stateAgents sd) \<and>
    inflight s' = inflight s \<and> dispatched s' = dispatched s \<and> sends_left s' = sends_left s"
proof (cases "k > 1")
  case True
  with assms(1) have reqs: "reqs = map (\<lambda>i. (base_request repo n (hd (stateAgents sd)) (wf_Name w) st src)
      \<lparr>r_RolloutIndex := i, r_RolloutsTotal := k, r_RolloutGroupID := uuids s (uuid_pos s)\<rparr>) [1..k]"
    and s': "s' = s\<lparr>uuid_pos := uuid_pos s + 1\<rparr>"
    by (auto simp: buildRequests_def Let_def)
  have keys: "map dispatchSlotKey reqs = map rolloutSlotKey [1..k]"
    by (auto simp: reqs dispatchSlotKey_def base_request_def)
  have "distinct (map rolloutSlotKey [1..k])"
    by (simp add: distinct_map inj_on_def itoa_slot_inj)
  with keys have "distinct (map dispatchSlotKey reqs)" by simp
  moreover have "\<forall>r \<in> set reqs. req_key r = issueKey repo n \<and> r_Workflow r = wf_Name w \<and> r_State r = st"
    by (auto simp: reqs base_request_def)
  ultimately show ?thesis using keys True s' by simp
next
  case False
  with assms(1,2) have reqs: "reqs = map (\<lambda>a. base_request repo n a (wf_Name w) st src) (stateAgents sd)" and s': "s' = s"
    by (auto simp: buildRequests_def Let_def inheritedRolloutRequests_def split: if_splits)
  have "map dispatchSlotKey reqs = stateAgents sd"
    by (simp add: reqs dispatchSlotKey_def base_request_def comp_def)
  moreover have "\<forall>r \<in> set reqs. req_key r = issueKey repo n \<and> r_Workflow r = wf_Name w \<and> r_State r = st"
    by (auto simp: reqs base_request_def)
  ultimately show ?thesis using assms(3) False s' by simp
qed

text \<open>A fan-out is complete and exact. On an issue with nothing in flight and a context that
  is not cancelled, dispatching a state's agents sends, in order, one request per agent of the
  state, or one per rollout \<open>1..k\<close> when rollouts are asked for; every request carries the
  issue, workflow and state; and the group recorded in flight has exactly these slots, all of
  them sent.\<close>

theorem fan_out_exact:
  assumes "run_state (buildRequests repo n w src st sd k) s = (Inr reqs, s1)" "k > 1 \<or> src = []" "distinct (stateAgents sd)"
    and "map_of (inflight s) (issueKey repo n) = None" "never_done c s"
    and "run_state (startGroup c repo n (wf_Name w) st (newDispatchGroup (wf_Name w) st mode j (slots_of reqs)) reqs) s1 = (res, s2)"
  shows "res = Inr () \<and> dispatched s2 = dispatched s @ map (stamp c) reqs \<and>
    map dispatchSlotKey reqs = (if k > 1 then map rolloutSlotKey [1..k] else stateAgents sd) \<and>
    (\<exists>g. map_of (inflight s2) (issueKey repo n) = Some g \<and> g_dispatchedSlots g = map dispatchSlotKey reqs \<and>
       fst ` set (g_slots g) = set (g_dispatchedSlots g))"
proof -
  let ?g = "newDispatchGroup (wf_Name w) st mode j (slots_of reqs)"
  note B = buildRequests_fresh [OF assms(1-3)]
  have g: "g_workflow ?g = wf_Name w" "g_state ?g = st" "g_dispatchedSlots ?g = []" "g_slots ?g = slots_of reqs"
    by (simp_all add: newDispatchGroup_def)
  have "never_done c s1" using assms(5) B by (simp add: never_done_def)
  then have S: "fst (res, s2) = Inr () \<and> dispatched (snd (res, s2)) = dispatched s1 @ map (stamp c) reqs \<and>
      map_of (inflight (snd (res, s2))) (issueKey repo n) = Some (?g\<lparr>g_dispatchedSlots := map dispatchSlotKey reqs\<rparr>)"
    using B g assms(4) unfolding assms(6) [symmetric] by (intro startGroup_sends) auto
  then have "res = Inr ()" "dispatched s2 = dispatched s @ map (stamp c) reqs"
    "map_of (inflight s2) (issueKey repo n) = Some (?g\<lparr>g_dispatchedSlots := map dispatchSlotKey reqs\<rparr>)"
    using B by simp_all
  moreover have "map dispatchSlotKey reqs = (if k > 1 then map rolloutSlotKey [1..k] else stateAgents sd)"
    using B by blast
  moreover have "fst ` set (g_slots (?g\<lparr>g_dispatchedSlots := map dispatchSlotKey reqs\<rparr>)) =
      set (g_dispatchedSlots (?g\<lparr>g_dispatchedSlots := map dispatchSlotKey reqs\<rparr>))"
    using slots_of_keys [of reqs] by (simp add: newDispatchGroup_def)
  moreover have "g_dispatchedSlots (?g\<lparr>g_dispatchedSlots := map dispatchSlotKey reqs\<rparr>) = map dispatchSlotKey reqs" by simp
  ultimately show ?thesis by blast
qed

theorem fan_out_exact_witness:
  "\<exists>reqs s1 s2. run_state (buildRequests ''o/r'' 7 demo_workflow [] ''developing'' demo_state 3) (demo_sm empty_store) = (Inr reqs, s1) \<and>
     run_state (startGroup background ''o/r'' 7 ''default'' ''developing''
       (newDispatchGroup ''default'' ''developing'' StateModeReview defaultJoinConfig (slots_of reqs)) reqs) s1 = (Inr (), s2) \<and>
     map dispatchSlotKey reqs = map rolloutSlotKey [1..3] \<and> dispatched s2 = map (stamp background) reqs"
proof -
  let ?s = "demo_sm empty_store"
  obtain reqs s1 where b: "run_state (buildRequests ''o/r'' 7 demo_workflow [] ''developing'' demo_state 3) ?s = (Inr reqs, s1)"
    by (simp add: buildRequests_def Let_def)
  let ?g = "newDispatchGroup (wf_Name demo_workflow) ''developing'' StateModeReview defaultJoinConfig (slots_of reqs)"
  obtain res s2 where g: "run_state (startGroup background ''o/r'' 7 (wf_Name demo_workflow) ''developing'' ?g reqs) s1 = (res, s2)"
    by (rule prod.exhaust)
  have side: "distinct (stateAgents demo_state)" "map_of (inflight ?s) (issueKey ''o/r'' 7) = None" "dispatched ?s = []"
    by code_simp+
  have nd: "never_done background ?s" by (simp add: never_done_def background_def)
  from fan_out_exact [OF b _ side(1,2) nd g] side(3)
  have "res = Inr ()" "dispatched s2 = map (stamp background) reqs" "map dispatchSlotKey reqs = map rolloutSlotKey [1..3]"
    by simp_all
  moreover have "wf_Name demo_workflow = ''default''" by (simp add: demo_workflow_def)
  ultimately show ?thesis using b g by metis
qed

end
