(* ===== verification/SM_Idempotence.thy ===== *)
theory SM_Idempotence
  imports SM_Fanout
begin

text \<open>
  What happens only once: the processing of an event between two dedup resets, the report of a
  task, the alert about a stuck issue; and what a resync and a shutdown leave behind.
\<close>

section \<open>Events\<close>

text \<open>A handler's effects, or a change of the database by somebody else.\<close>

abbreviation goes_on :: "sm \<Rightarrow> sm \<Rightarrow> bool" where
  "goes_on \<equiv> (\<lambda>s s'. sm_effect s s' \<or> world (\<lambda>_ _. True) s s')\<^sup>*\<^sup>*"

lemma goes_on_seen: "goes_on s s' \<Longrightarrow> set (processedEvents s) \<subseteq> set (processedEvents s')"
proof (induction rule: rtranclp_induct)
  case (step t u)
  then have "set (processedEvents t) \<subseteq> set (processedEvents u)"
    by (auto simp: world_def core_def elim!: sm_effect.cases)
  with step.IH show ?case by blast
qed simp

lemma effects_goes_on: "effects s s' \<Longrightarrow> goes_on s s'"
  by (erule rtranclp_mono [THEN predicate2D, rotated]) auto

lemma HandleEvent_seen: "eventKey ev \<in> set (processedEvents (snd (run_state (HandleEvent c ev) s)))"
proof (cases "eventKey ev \<in> set (processedEvents s)")
  case True
  then show ?thesis
    using goes_on_seen [OF effects_goes_on [OF eff.io_run [OF eff_HandleEvent]], of s c ev] by blast
next
  case False
  let ?s = "s\<lparr>processedEvents := set_add (eventKey ev) (processedEvents s)\<rparr>"
  let ?rest = "\<lambda>c. case findMatchingWorkflows (ce_Labels ev) s of
          [] \<Rightarrow> do {
            (if ce_IssueNum ev > 0 \<and> ce_Type ev \<noteq> EventPollCycleDone then detectNoWorkflowMatchHazard ev
             else State_Monad.return ());
            State_Monad.return (Inr ())
          }
        | w # ws \<Rightarrow> do {
            (if ce_IssueNum ev > 0
             then clearHazardIfKind (ce_Repo ev) (ce_IssueNum ev) HazardKindNoWorkflowMatch
             else State_Monad.return ());
            if ws \<noteq> [] then do {
              log_event TypeErrorMultiWorkflow (ce_Repo ev) (ce_IssueNum ev)
                [(''workflows'', PStrs (map wf_Name (w # ws))), (''labels'', PStrs (ce_Labels ev))];
              State_Monad.return (Inl (MatchesManyWorkflows (Suc (length ws))))
            } else processWorkflowEvent c w ev
          }"
  have "state_io_rel effects (?rest c')" for c'
    unfolding processWorkflowEvent_def by (intro eff_struct eff_intro)
  from goes_on_seen [OF effects_goes_on [OF eff.io_run [OF this]], of ?s]
  have "eventKey ev \<in> set (processedEvents (snd (run_state (?rest c') ?s)))" for c' by auto
  then show ?thesis
    using False by (simp add: HandleEvent_def issue_ctx_def)
qed

text \<open>C23. Between two dedup resets an event is processed once: after \<^verbatim>\<open>HandleEvent\<close> has
  seen it, and after any further effects of handlers and changes of the database, an event
  with the same key (repository, issue, type, detail) is dropped without any effect.\<close>

theorem event_processed_once:
  assumes "goes_on (snd (run_state (HandleEvent c ev) s)) s'" "eventKey ev' = eventKey ev"
  shows "run_state (HandleEvent c' ev') s' = (Inr (), s')"
proof -
  have "eventKey ev' \<in> set (processedEvents s')"
    using HandleEvent_seen [of ev c s] goes_on_seen [OF assms(1)] assms(2) by auto
  then show ?thesis by (simp add: HandleEvent_def issue_ctx_def)
qed

definition demo_event :: "string \<Rightarrow> ChangeEvent" where
  "demo_event ty = \<lparr>ce_Type = ty, ce_Repo = ''o/r'', ce_IssueNum = 7, ce_Labels = [''workbuddy'', ''status:developing''],
     ce_Detail = ''status:developing'', ce_Author = []\<rparr>"

theorem event_processed_once_witness:
  "let s1 = snd (run_state (HandleEvent background (demo_event EventLabelAdded)) (demo_coord ''A'' empty_store))
   in map r_AgentName (dispatched s1) = [''dev'', ''docs''] \<and>
      run_state (HandleEvent background (demo_event EventLabelAdded)) s1 = (Inr (), s1)"
proof -
  let ?ev = "demo_event EventLabelAdded"
  let ?s1 = "snd (run_state (HandleEvent background ?ev) (demo_coord ''A'' empty_store))"
  have "map r_AgentName (dispatched ?s1) = [''dev'', ''docs'']" by code_simp
  with event_processed_once [of background ?ev "demo_coord ''A'' empty_store" ?s1 ?ev background]
  show ?thesis by (simp add: Let_def)
qed

section \<open>Resyncs\<close>

definition resync_view :: "sm \<Rightarrow> DispatchRequest list \<times> (string \<times> dispatchGroup) list \<times> TaskRecord list \<times>
    (dbop \<Rightarrow> bool) \<times> (issue_key \<times> IssueCycleState) list \<times> (issue_key \<times> IssueClaimRecord) list" where
  "resync_view s = (dispatched s, inflight s, task_queue (db s), faults (db s), issue_cycle_state (db s), issue_claim (db s))"

abbreviation resync_quiet :: "sm \<Rightarrow> sm \<Rightarrow> bool" where
  "resync_quiet s s' \<equiv> resync_view s' = resync_view s"

interpretation rq: io_guarantee resync_quiet
  by unfold_locales auto

named_theorems rq_intro \<open>programs that a suppressed resync may run\<close>

lemmas rq_struct = rq.io_structure io_cases io_case_labels

lemma rq_primitives [rq_intro]:
  "state_io_rel resync_quiet (query f)"
  "state_io_rel resync_quiet (log_event ty repo n p)"
  "state_io_rel resync_quiet (State_Monad.update (\<lambda>s. s\<lparr>processedEvents := h s\<rparr>))"
  by (simp_all add: state_io_rel_def log_event_def resync_view_def)

lemma rq_execs [rq_intro]:
  "state_io_rel resync_quiet (exec (CreateIfMissing repo n w st))"
  "state_io_rel resync_quiet (exec (Advance repo n w st st' a))"
  "state_io_rel resync_quiet (exec (IncrementTransition repo n st st'))"
  "state_io_rel resync_quiet (exec (UpsertIssuePipelineHazard repo n k fp))"
  "state_io_rel resync_quiet (exec (ClearIssuePipelineHazard repo n))"
  by (auto simp: state_io_rel_def resync_view_def CreateIfMissing_def CreateWorkflowInstanceIfMissing_def Advance_def
      AdvanceWorkflowInstance_def IncrementTransition_def UpsertIssuePipelineHazard_def ClearIssuePipelineHazard_def
      Let_def split: sum.splits)

lemma rq_parts [rq_intro]:
  "state_io_rel resync_quiet (issue_ctx c repo n)"
  "state_io_rel resync_quiet (ensureWorkflowInstance w repo n st)"
  "state_io_rel resync_quiet (recordStateEntry w repo n st sd)"
  "state_io_rel resync_quiet (detectNoWorkflowMatchHazard ev)"
  "state_io_rel resync_quiet (detectDependencyUnenteredHazard w' ev)"
  "state_io_rel resync_quiet (clearHazardIfKind repo n k)"
  unfolding issue_ctx_def ensureWorkflowInstance_def recordStateEntry_def detectNoWorkflowMatchHazard_def
    detectDependencyUnenteredHazard_def clearHazardIfKind_def
  by (intro rq_struct rq_intro)+

lemma busy_issue_view:
  "resync_quiet s s' \<Longrightarrow> resyncSuppressed ev s' = resyncSuppressed ev s"
  by (simp add: resync_view_def resyncSuppressed_def IsInflight_def HasAnyActiveTask_def)

text \<open>Programs that are quiet when started in a state where the resync is suppressed.\<close>

definition quiet_if :: "ChangeEvent \<Rightarrow> sm \<Rightarrow> sm \<Rightarrow> bool" where
  "quiet_if ev s s' \<longleftrightarrow> (resyncSuppressed ev s \<noteq> None \<longrightarrow> resync_quiet s s')"

interpretation qi: io_guarantee "quiet_if ev" for ev
proof unfold_locales
  fix s t u :: sm
  show "quiet_if ev s s" by (simp add: quiet_if_def)
  show "quiet_if ev s t \<Longrightarrow> quiet_if ev t u \<Longrightarrow> quiet_if ev s u"
    unfolding quiet_if_def using busy_issue_view by metis
qed

lemma qi_quiet: "state_io_rel resync_quiet m \<Longrightarrow> state_io_rel (quiet_if ev) m"
  by (simp add: state_io_rel_def quiet_if_def)

lemma qi_processEntry:
  assumes "ce_Type ev = EventIssueResynced"
  shows "state_io_rel (quiet_if ev) (processEntry c w ev prior st sd)"
  unfolding processEntry_def
proof (rule qi.io_get_bind, goal_cases)
  case (1 s)
  have entry: "stateEntryDetected ev sd" using assms by (simp add: stateEntryDetected_def)
  show ?case
  proof (cases "resyncSuppressed ev s")
    case None
    then show ?thesis by (simp add: quiet_if_def)
  next
    case (Some reason)
    have "state_io_rel (quiet_if ev) (do { log_event ty repo n p; State_Monad.return (Inr () :: unit sm_result) })" for ty repo n p
      by (intro qi_quiet rq_struct rq_intro)
    moreover have "state_io_rel (quiet_if ev) (do { recordStateEntry w' repo n st sd; State_Monad.return (Inr () :: unit sm_result) })" for w' repo n
      by (intro qi_quiet rq_struct rq_intro)
    ultimately show ?thesis
      using Some entry assms by (cases "stateHasAgents sd") (auto simp: Let_def simp del: run_state_bind intro: qi.io_run)
  qed
qed

lemma qi_HandleEvent:
  assumes "ce_Type ev = EventIssueResynced"
  shows "state_io_rel (quiet_if ev) (HandleEvent c ev)"
  unfolding HandleEvent_def processWorkflowEvent_def
  by (intro qi.io_structure io_cases io_case_labels rq_intro [THEN qi_quiet] qi_processEntry assms)

text \<open>A periodic resync never dispatches twice: when the issue has a group in flight, or a
  pending or running task, the resync event sends nothing, and leaves the groups in flight, the
  claims, the task queue and the cycle counters as they are.\<close>

theorem resync_suppressed:
  assumes "ce_Type ev = EventIssueResynced"
    and "IsInflight (ce_Repo ev) (ce_IssueNum ev) s \<or> HasAnyActiveTask (ce_Repo ev) (ce_IssueNum ev) (db s) = Inr True"
    and "run_state (HandleEvent c ev) s = (res, s')"
  shows "dispatched s' = dispatched s \<and> inflight s' = inflight s \<and> issue_claim (db s') = issue_claim (db s) \<and>
    task_queue (db s') = task_queue (db s) \<and> issue_cycle_state (db s') = issue_cycle_state (db s)"
proof -
  have "resyncSuppressed ev s \<noteq> None" using assms(2) by (auto simp: resyncSuppressed_def)
  then have "resync_quiet s s'"
    using qi.io_run [OF qi_HandleEvent [OF assms(1), of c], of s] assms(3) by (simp add: quiet_if_def)
  then show ?thesis by (simp add: resync_view_def)
qed

theorem resync_suppressed_witness:
  "let s = demo_entry ''A'' empty_store
   in IsInflight ''o/r'' 7 s \<and> dispatched (snd (run_state (HandleEvent background (demo_event EventIssueResynced)) s)) = dispatched s"
proof -
  let ?s = "demo_entry ''A'' empty_store" and ?ev = "demo_event EventIssueResynced"
  have "IsInflight ''o/r'' 7 ?s" by code_simp
  moreover obtain res s' where "run_state (HandleEvent background ?ev) ?s = (res, s')" by (rule prod.exhaust)
  ultimately show ?thesis
    using resync_suppressed [of ?ev ?s background res s'] by (simp add: demo_event_def Let_def)
qed

section \<open>Completions\<close>

text \<open>A task is counted once: a second report of a task that its group has already recorded
  is logged and changes nothing else.\<close>

theorem duplicate_completion_ignored:
  assumes "map_of (inflight s) (issueKey repo n) = Some g" "trim_space taskID \<noteq> []"
    and "trim_space taskID \<in> set (g_completedTaskIDs g)"
  shows "\<exists>e. ev_Type e = TypeCompleted \<and>
    run_state (MarkAgentCompletedWithDecision repo n taskID agent exit labels decision) s = ((), s\<lparr>events := events s @ [e]\<rparr>)"
  using assms
  by (intro exI [of _ "\<lparr>ev_Type = TypeCompleted, ev_Repo = repo, ev_IssueNum = n,
      ev_Payload = [(''task_id'', PStr taskID), (''agent_name'', PStr (canonicalAgentName taskID agent (db s))),
        (''exit_code'', PInt exit)]\<rparr>"])
    (simp add: MarkAgentCompletedWithDecision_def Let_def logCompletionEvent_def log_event_def)

definition reported_sm :: sm where
  "reported_sm = snd (run_state (MarkAgentCompleted ''o/r'' 7 ''t1'' ''dev'' 0 []) (demo_entry ''A'' empty_store))"

theorem duplicate_completion_ignored_witness:
  "inflight (snd (run_state (MarkAgentCompletedWithDecision ''o/r'' 7 ''t1'' ''dev'' 1 [] None) reported_sm)) = inflight reported_sm"
proof -
  have "(case map_of (inflight reported_sm) (issueKey ''o/r'' 7) of None \<Rightarrow> False
      | Some g \<Rightarrow> trim_space ''t1'' \<in> set (g_completedTaskIDs g))" by code_simp
  then obtain g where g: "map_of (inflight reported_sm) (issueKey ''o/r'' 7) = Some g" "trim_space ''t1'' \<in> set (g_completedTaskIDs g)"
    by (auto split: option.splits)
  have "trim_space ''t1'' \<noteq> []" by code_simp
  from duplicate_completion_ignored [OF g(1) this g(2), of "''dev''" 1 "[]" None] show ?thesis by auto
qed

section \<open>Stuck issues\<close>

definition stuck_now :: "string \<Rightarrow> int \<Rightarrow> string list \<Rightarrow> sm \<Rightarrow> bool" where
  "stuck_now repo n labels s \<longleftrightarrow> (\<exists>r. map_of (completionTimes s) (issueKey repo n) = Some r \<and>
     stuckTimeout s \<le> clock (db s) - cr_at r \<and> labels = cr_labels r)"

lemma CheckStuck_cases:
  "run_state (CheckStuck repo n labels) s = ((), s) \<or>
   map_of (completionTimes (snd (run_state (CheckStuck repo n labels) s))) (issueKey repo n) = None"
  by (auto simp: CheckStuck_def Let_def log_event_def publishAlert_def Claim_Store.map_of_delete split: option.splits)

text \<open>The stuck detector speaks once per completion: \<^verbatim>\<open>CheckStuck\<close> logs exactly when the
  last completion is at least the timeout old and the labels are still those of the
  completion, the event is \<^verbatim>\<open>stuck_detected\<close>, and having spoken it stays silent about
  the issue, whatever its labels, until another completion is recorded.\<close>

theorem stuck_reported_once:
  "let s1 = snd (run_state (CheckStuck repo n labels) s)
   in map ev_Type (events s1) = map ev_Type (events s) @ (if stuck_now repo n labels s then [TypeStuckDetected] else []) \<and>
      (stuck_now repo n labels s \<longrightarrow> run_state (CheckStuck repo n labels') s1 = ((), s1))"
proof -
  let ?s1 = "snd (run_state (CheckStuck repo n labels) s)"
  have ev: "map ev_Type (events ?s1) = map ev_Type (events s) @ (if stuck_now repo n labels s then [TypeStuckDetected] else [])"
    by (auto simp: CheckStuck_def stuck_now_def Let_def log_event_def publishAlert_def split: option.splits)
  moreover have "run_state (CheckStuck repo n labels') ?s1 = ((), ?s1)" if "stuck_now repo n labels s"
  proof -
    have "map_of (completionTimes ?s1) (issueKey repo n) = None"
      using CheckStuck_cases [of repo n labels s] ev that by auto
    then show ?thesis by (simp add: CheckStuck_def Let_def)
  qed
  ultimately show ?thesis by (simp add: Let_def)
qed

definition idle_sm :: sm where
  "idle_sm = (demo_sm (empty_store\<lparr>clock := 6 * minute\<rparr>))\<lparr>completionTimes := [(issueKey ''o/r'' 7, \<lparr>cr_at = 0, cr_labels = [''x'']\<rparr>)]\<rparr>"

theorem stuck_reported_once_witness:
  "let s1 = snd (run_state (CheckStuck ''o/r'' 7 [''x'']) idle_sm)
   in map ev_Type (events s1) = [TypeStuckDetected] \<and> run_state (CheckStuck ''o/r'' 7 [''x'']) s1 = ((), s1)"
proof -
  have "stuck_now ''o/r'' 7 [''x''] idle_sm" "events idle_sm = []"
    by (simp_all add: stuck_now_def idle_sm_def demo_sm_def NewStateMachine_def StuckTimeout_def minute_def second_def empty_store_def)
  with stuck_reported_once [of "''o/r''" 7 "[''x'']" idle_sm "[''x'']"] show ?thesis by (simp add: Let_def)
qed

section \<open>Shutdown\<close>

lemma ReleaseIssueClaim_row:
  "map_of (issue_claim (fst (ReleaseIssueClaim repo n w tok d))) k =
     (if \<not> faults d OpReleaseClaim \<and> k = (repo, n) \<and> held_with w tok (map_of (issue_claim d) k) then None
      else map_of (issue_claim d) k)"
  by (auto simp: ReleaseIssueClaim_def Claim_Store.map_of_delete)

lemma releaseTracked_rows:
  assumes "\<not> faults (db s) OpReleaseClaim"
  shows "map_of (issue_claim (db (snd (run_state (releaseTracked w ts) s)))) k =
    (if \<exists>(key, tok) \<in> set ts. tok \<noteq> [] \<and> parseIssueKey key = Some k \<and> held_with w tok (map_of (issue_claim (db s)) k)
     then None else map_of (issue_claim (db s)) k)"
  using assms
proof (induction ts arbitrary: s)
  case (Cons x ts)
  obtain key tok where x: "x = (key, tok)" by (cases x)
  show ?case
  proof (cases "tok = [] \<or> parseIssueKey key = None")
    case True
    with Cons show ?thesis by (auto simp: x)
  next
    case False
    then obtain repo n where p: "parseIssueKey key = Some (repo, n)" by auto
    let ?s = "s\<lparr>db := fst (ReleaseIssueClaim repo n w tok (db s))\<rparr>"
    have "\<not> faults (db ?s) OpReleaseClaim" using Cons.prems by (simp add: ReleaseIssueClaim_def)
    from Cons.IH [OF this] show ?thesis
      using False Cons.prems by (auto simp: x p ReleaseIssueClaim_row held_with_def split: option.splits)
  qed
qed simp

text \<open>C31. A clean shutdown gives up every lease: when the store accepts the releases, each claim
  row that this coordinator holds under a token it tracks is gone afterwards, no token is
  tracked any more, and no row of another coordinator or under another token is touched.\<close>

theorem shutdown_releases_claims:
  assumes "issueClaimerID s \<noteq> []" "\<not> faults (db s) OpReleaseClaim"
  shows "let s' = snd (run_state ReleaseAllIssueClaims s) in claimTokens s' = [] \<and>
    (\<forall>repo n tok. (issueKey repo n, tok) \<in> set (claimTokens s) \<and> tok \<noteq> [] \<and> repo \<noteq> [] \<and> 0 < n \<and> n \<le> max_int64 \<and>
        held_with (issueClaimerID s) tok (map_of (issue_claim (db s)) (repo, n)) \<longrightarrow>
      map_of (issue_claim (db s')) (repo, n) = None) \<and>
    (\<forall>k. (\<forall>tok \<in> snd ` set (claimTokens s). \<not> held_with (issueClaimerID s) tok (map_of (issue_claim (db s)) k)) \<longrightarrow>
      map_of (issue_claim (db s')) k = map_of (issue_claim (db s)) k)"
proof -
  let ?s = "s\<lparr>claimTokens := []\<rparr>"
  have toks: "claimTokens (snd (run_state (releaseTracked w ts) t)) = claimTokens t" for w ts t
    by (induction ts arbitrary: t) (auto split: option.splits prod.splits)
  have run: "snd (run_state ReleaseAllIssueClaims s) = snd (run_state (releaseTracked (issueClaimerID s) (claimTokens s)) ?s)"
    using assms(1) by (simp add: ReleaseAllIssueClaims_def)
  have rows: "map_of (issue_claim (db (snd (run_state ReleaseAllIssueClaims s)))) k =
      (if \<exists>(key, tok) \<in> set (claimTokens s). tok \<noteq> [] \<and> parseIssueKey key = Some k \<and>
          held_with (issueClaimerID s) tok (map_of (issue_claim (db s)) k)
       then None else map_of (issue_claim (db s)) k)" for k
    using releaseTracked_rows [of ?s "issueClaimerID s" "claimTokens s" k] assms(2) by (simp add: run)
  have "map_of (issue_claim (db (snd (run_state ReleaseAllIssueClaims s)))) (repo, n) = None"
    if "(issueKey repo n, tok) \<in> set (claimTokens s)" "tok \<noteq> []" "repo \<noteq> []" "0 < n" "n \<le> max_int64"
      "held_with (issueClaimerID s) tok (map_of (issue_claim (db s)) (repo, n))" for repo n tok
    using that parseIssueKey_issueKey [OF that(3-5)] unfolding rows by (auto intro!: bexI [of _ "(issueKey repo n, tok)"])
  moreover have "map_of (issue_claim (db (snd (run_state ReleaseAllIssueClaims s)))) k = map_of (issue_claim (db s)) k"
    if "\<forall>tok \<in> snd ` set (claimTokens s). \<not> held_with (issueClaimerID s) tok (map_of (issue_claim (db s)) k)" for k
    using that unfolding rows by force
  moreover have "claimTokens (snd (run_state ReleaseAllIssueClaims s)) = []" using toks by (simp add: run)
  ultimately show ?thesis unfolding Let_def by blast
qed

theorem shutdown_releases_claims_witness:
  "let s' = snd (run_state ReleaseAllIssueClaims (demo_entry ''A'' empty_store))
   in issue_claim (db (demo_entry ''A'' empty_store)) \<noteq> [] \<and> claimTokens s' = [] \<and>
      map_of (issue_claim (db s')) (''o/r'', 7) = None"
proof -
  let ?s = "demo_entry ''A'' empty_store" and ?tok = "replicate 32 (CHR ''0'')"
  have "claimTokens ?s = [(issueKey ''o/r'' 7, ?tok)]" "held_with (issueClaimerID ?s) ?tok (map_of (issue_claim (db ?s)) (''o/r'', 7))"
    "issueClaimerID ?s \<noteq> []" "\<not> faults (db ?s) OpReleaseClaim" "issue_claim (db ?s) \<noteq> []"
    by code_simp+
  with shutdown_releases_claims [of ?s] show ?thesis by (auto simp: Let_def max_int64_def)
qed

end
