(* ===== verification/SM_Limits.thy ===== *)
theory SM_Limits
  imports SM_Idempotence
begin

text \<open>
  The limits that stop an issue from going round in circles: the total transition cap, the
  review and synthesis caps with their reset, the retry limit on back-edges, the gates of a
  direct dispatch, and the size of a fan-out.
\<close>

section \<open>Caps\<close>

lemma calm_run: "state_io_rel calm m \<Longrightarrow> run_state m s = (r, s') \<Longrightarrow> dispatched s' = dispatched s"
  using calm_dispatched [of m s] by simp

lemma total_cap_run:
  assumes "\<not> faults (db s) OpIncrementCycle"
  shows "fst (run_state (applyTotalTransitionCap w repo n) s) \<longleftrightarrow>
      MaxTotalTransitions \<le> cy_TotalTransitions (cycle_row (repo, n) (db s))"
    and "db (snd (run_state (applyTotalTransitionCap w repo n) s)) = fst (IncrementTotalTransitionCount repo n (db s))"
  using assms
  by (auto simp: applyTotalTransitionCap_def IncrementTotalTransitionCount_def incrementCycleCount_def Let_def
      log_event_def publishAlert_def report_cap_def MaxTotalTransitions_def)

lemma increment_total_row:
  assumes "\<not> faults d OpIncrementCycle"
  shows "cy_TotalTransitions (cycle_row (repo, n) (fst (IncrementTotalTransitionCount repo n d))) =
      cy_TotalTransitions (cycle_row (repo, n) d) + 1"
    and "workflow_instances (fst (IncrementTotalTransitionCount repo n d)) = workflow_instances d"
  using assms by (simp_all add: IncrementTotalTransitionCount_def incrementCycleCount_def Let_def cycle_row_def update_conv')

text \<open>C24. The total transition cap is final for the entries it counts. Once an issue has been counted entering states with agents
  \<^verbatim>\<open>MaxTotalTransitions\<close> times, a further entry by the creation of the issue or by the label of the state being added, with a
  counter that can be written, sends nothing, reports no error, does not advance the workflow, and raises the counter again whatever
  state the issue comes from: not even an entry from \<^verbatim>\<open>blocked\<close>, which resets the counters otherwise, gets past it. The cap does
  not see entries on a periodic resync and transitions taken by their label, and an increment that fails counts as zero.\<close>

theorem transition_cap_final:
  assumes "stateEntryDetected ev sd" "stateHasAgents sd" "ce_Type ev \<noteq> EventIssueResynced"
    and "\<not> faults (db s) OpIncrementCycle"
    and "MaxTotalTransitions \<le> cy_TotalTransitions (cycle_row (ce_Repo ev, ce_IssueNum ev) (db s))"
    and "run_state (processEntry c w ev prior st sd) s = (res, s')"
  shows "res = Inr () \<and> dispatched s' = dispatched s \<and> workflow_instances (db s') = workflow_instances (db s) \<and>
    cy_TotalTransitions (cycle_row (ce_Repo ev, ce_IssueNum ev) (db s')) =
      cy_TotalTransitions (cycle_row (ce_Repo ev, ce_IssueNum ev) (db s)) + 1"
proof -
  let ?r = "ce_Repo ev" and ?n = "ce_IssueNum ev"
  let ?pre = "do { log_event TypeStateEntry ?r ?n [(''state'', PStr st), (''agents'', PStrs (stateAgents sd)), (''join'', PJoin (Join sd))];
      clearForeignStateGroup (issueKey ?r ?n) st }"
  obtain u s1 where 1: "run_state ?pre s = (u, s1)" by (rule prod.exhaust)
  then have db1: "db s1 = db s"
    by (auto simp: log_event_def clearForeignStateGroup_def split: option.splits if_splits)
  have "state_io_rel calm ?pre" by (intro calm_struct calm_intro)
  from calm_run [OF this 1] have d1: "dispatched s1 = dispatched s" .
  obtain b s2 where 2: "run_state (applyTotalTransitionCap w ?r ?n) s1 = (b, s2)" by (rule prod.exhaust)
  have b: "b" and db2: "db s2 = fst (IncrementTotalTransitionCount ?r ?n (db s))"
    using total_cap_run [of s1 w ?r ?n] 2 assms(4,5) db1 by simp_all
  have "dispatched s2 = dispatched s" using calm_run [OF calm_caps(2) 2] d1 by simp
  moreover have "run_state (processEntry c w ev prior st sd) s = (Inr (), s2)"
    using 1 2 b assms(1-3)
    by (auto simp: processEntry_def enterStateWithAgents_def entryCaps_def unless_blocked_def Let_def split: prod.splits)
  ultimately show ?thesis
    using assms(6) db2 increment_total_row [OF assms(4), of ?r ?n] by simp
qed

definition worn_db :: store where
  "worn_db = empty_store\<lparr>issue_cycle_state := [((''o/r'', 7), (new_cycle_row empty_store)
     \<lparr>cy_TotalTransitions := 15, cy_DevReviewCycleCount := 2\<rparr>)]\<rparr>"

theorem transition_cap_final_witness:
  "dispatched (snd (run_state (processEntry background demo_workflow (demo_event EventLabelAdded) ''blocked'' ''developing'' demo_state)
     (demo_coord ''A'' worn_db))) = []"
proof -
  let ?ev = "demo_event EventLabelAdded" and ?s = "demo_coord ''A'' worn_db"
  obtain res s' where run: "run_state (processEntry background demo_workflow ?ev ''blocked'' ''developing'' demo_state) ?s = (res, s')"
    by (rule prod.exhaust)
  have "stateEntryDetected ?ev demo_state" "stateHasAgents demo_state" "ce_Type ?ev \<noteq> EventIssueResynced"
    "\<not> faults (db ?s) OpIncrementCycle"
    "MaxTotalTransitions \<le> cy_TotalTransitions (cycle_row (ce_Repo ?ev, ce_IssueNum ?ev) (db ?s))" "dispatched ?s = []"
    by code_simp+
  with transition_cap_final [OF _ _ _ _ _ run] run show ?thesis by simp
qed

text \<open>What the cap does not see: an issue that is over it is sent to its agents again on a resync, and by a transition that is taken
  from the state before.\<close>

lemma cap_not_seen:
  "map r_AgentName (dispatched (snd (run_state (processEntry background demo_workflow (demo_event EventIssueResynced) ''developing'' ''developing'' demo_state)
     (demo_coord ''A'' worn_db)))) = [''dev'', ''docs'']"
  "map r_AgentName (dispatched (snd (run_state (evaluateTransitions background demo_workflow (demo_event EventLabelAdded) ''reviewing'' demo_reviewing)
     (demo_coord ''A'' (fst (CreateIfMissing ''o/r'' 7 ''default'' ''reviewing'' worn_db)))))) = [''dev'', ''docs'']"
  by code_simp+

text \<open>One round trip counted against its cap.\<close>

definition cap_column_of :: "cycleCapSpec \<Rightarrow> cycle_column" where
  "cap_column_of spec = (if cs_synth spec then synth_cycle_count else dev_review_cycle_count)"

lemma enforceCycleCap_spec:
  assumes "\<not> faults (db s) OpIncrementCycle"
  shows "fst (run_state (enforceCycleCap w repo n spec) s) =
      Inr (cs_maxCycles spec \<le> cycle_get (cap_column_of spec) (cycle_row (repo, n) (db s)) + 1)"
  using assms
  by (auto simp: enforceCycleCap_def cap_column_of_def IncrementSynthCycleCount_def IncrementDevReviewCycleCount_def
      incrementCycleCount_def Let_def log_event_def publishAlert_def report_cap_def)

lemma enforceCycleCap_row:
  assumes "\<not> faults (db s) OpIncrementCycle"
  shows "cycle_get (cap_column_of spec) (cycle_row (repo, n) (db (snd (run_state (enforceCycleCap w repo n spec) s)))) =
      cycle_get (cap_column_of spec) (cycle_row (repo, n) (db s)) + 1"
proof -
  have "cycle_get col (cycle_put col v r\<lparr>cy_UpdatedAt := t\<rparr>) = v" for col v r t by (cases col) simp_all
  moreover have "cycle_get col (stamp_cap cap d r\<lparr>cy_UpdatedAt := t\<rparr>) = cycle_get col r" for col cap d r t
    by (cases col; cases cap) simp_all
  ultimately show ?thesis
    using assms
    by (cases "cs_synth spec")
      (auto simp: enforceCycleCap_def cap_column_of_def IncrementSynthCycleCount_def IncrementDevReviewCycleCount_def
        incrementCycleCount_def Let_def log_event_def publishAlert_def report_cap_def cycle_row_def update_conv'
        MarkIssueCycleCapHit_def MarkIssueSynthCycleCapHit_def markIssueCapHit_def)
qed

text \<open>Review and synthesis caps. When an issue enters \<^verbatim>\<open>developing\<close> again from
  \<^verbatim>\<open>reviewing\<close>, the round trip is counted, against the synthesis counter if the review
  was of a synthesis and against the review counter otherwise, and dispatch is refused exactly
  when the new count reaches the cap (two, and \<^verbatim>\<open>max_review_cycles\<close> or three). Coming from
  \<^verbatim>\<open>blocked\<close> all counters start afresh, and any other entry counts nothing.\<close>

theorem review_cycle_cap:
  assumes "\<not> faults (db s) OpIncrementCycle" "\<not> faults (db s) OpResetCycle"
    and "run_state (applyDevReviewCycleCap w repo n st) s = (res, s')"
  shows "let prior = queryPriorWorkflowState (wf_Name w) repo n (db s);
      synth = (latestTransitionIntoState (wf_Name w) repo n stateNameReviewing (db s) = stateNameSynthesizing);
      col = (if synth then synth_cycle_count else dev_review_cycle_count);
      cap = (if synth then 2 else if MaxReviewCycles w \<le> 0 then 3 else MaxReviewCycles w);
      count = cycle_get col (cycle_row (repo, n) (db s))
    in if st = stateNameDeveloping \<and> prior = stateNameReviewing
       then res = Inr (cap \<le> count + 1) \<and> cycle_get col (cycle_row (repo, n) (db s')) = count + 1
       else res = Inr False \<and>
         (if st = stateNameDeveloping \<and> prior = stateNameBlocked
          then map_of (issue_cycle_state (db s')) (repo, n) = None else db s' = db s)"
proof -
  let ?prior = "queryPriorWorkflowState (wf_Name w) repo n (db s)"
  let ?synth = "latestTransitionIntoState (wf_Name w) repo n stateNameReviewing (db s) = stateNameSynthesizing"
  let ?spec = "if ?synth then synthCycleCapSpec w else devReviewCycleCapSpec w"
  have names: "stateNameReviewing \<noteq> stateNameBlocked" "stateNameBlocked \<noteq> stateNameReviewing"
    by (simp_all add: stateNameReviewing_def stateNameBlocked_def)
  show ?thesis
  proof (cases "st = stateNameDeveloping \<and> ?prior = stateNameReviewing")
    case True
    then have "run_state (applyDevReviewCycleCap w repo n st) s = run_state (enforceCycleCap w repo n ?spec) s"
      using names by (auto simp: applyDevReviewCycleCap_def)
    moreover have "cap_column_of ?spec = (if ?synth then synth_cycle_count else dev_review_cycle_count)"
      "cs_maxCycles ?spec = (if ?synth then 2 else if MaxReviewCycles w \<le> 0 then 3 else MaxReviewCycles w)"
      by (simp_all add: cap_column_of_def synthCycleCapSpec_def devReviewCycleCapSpec_def DefaultMaxSynthCycles_def DefaultMaxReviewCycles_def)
    ultimately show ?thesis
      using True assms(3) enforceCycleCap_spec [OF assms(1), of w repo n ?spec] enforceCycleCap_row [OF assms(1), of ?spec repo n w]
      by (simp only: Let_def simp_thms if_True fst_conv snd_conv)
  next
    case False
    then show ?thesis
      using assms(2,3) names
      by (auto simp: applyDevReviewCycleCap_def Let_def ResetIssueCycleState_def log_event_def Claim_Store.map_of_delete split: if_splits)
  qed
qed

definition reviewed_db :: store where
  "reviewed_db = fst (Advance ''o/r'' 7 ''default'' ''developing'' ''reviewing'' ''dev''
     (fst (CreateIfMissing ''o/r'' 7 ''default'' ''developing'' worn_db)))"

theorem review_cycle_cap_witness:
  "fst (run_state (applyDevReviewCycleCap demo_workflow ''o/r'' 7 ''developing'') (demo_coord ''A'' reviewed_db)) = Inr True"
proof -
  let ?s = "demo_coord ''A'' reviewed_db"
  obtain res s' where run: "run_state (applyDevReviewCycleCap demo_workflow ''o/r'' 7 ''developing'') ?s = (res, s')"
    by (rule prod.exhaust)
  have "\<not> faults (db ?s) OpIncrementCycle" "\<not> faults (db ?s) OpResetCycle"
    "queryPriorWorkflowState (wf_Name demo_workflow) ''o/r'' 7 (db ?s) = stateNameReviewing"
    "latestTransitionIntoState (wf_Name demo_workflow) ''o/r'' 7 stateNameReviewing (db ?s) \<noteq> stateNameSynthesizing"
    "MaxReviewCycles demo_workflow = 3" "cycle_get dev_review_cycle_count (cycle_row (''o/r'', 7) (db ?s)) = 2"
    "''developing'' = stateNameDeveloping"
    by code_simp+
  with review_cycle_cap [OF _ _ run] run show ?thesis by (simp add: Let_def)
qed

section \<open>Back-edges\<close>

lemma isBackEdge_visited:
  "\<not> faults d OpQueryTransitions \<Longrightarrow> ((repo, n), frm, target) \<in> fst ` set (filter (\<lambda>(_, c). 0 < c) (transition_counts d)) \<Longrightarrow>
   isBackEdge repo n target d"
  by (force simp: isBackEdge_def QueryTransitionCounts_def list_ex_iff)

text \<open>The retry limit on back-edges. A transition into a state that the issue has been in
  before, and that has been taken often enough that this one would reach the workflow's
  \<^verbatim>\<open>max_retries\<close> (three by default), does not happen: nothing is sent, the workflow is not
  advanced, and the failure is logged for a human.\<close>

theorem back_edge_limit:
  assumes "ce_Type ev = EventLabelAdded" "ce_Detail ev \<noteq> []" "map_of (Transitions sd) (ce_Detail ev) = Some target"
    and "transitionAllowedForState cur sd (ce_Detail ev) target (ce_Labels ev)" "map_of (States w) target = Some tsd"
    and "\<not> faults (db s) OpQueryTransitions" "\<not> faults (db s) OpIncrementTransition"
    and "map_of (transition_counts (db s)) ((ce_Repo ev, ce_IssueNum ev), cur, target) = Some k" "0 < k" "max_retries w \<le> k + 1"
    and "run_state (evaluateTransitions c w ev cur sd) s = (res, s')"
  shows "res = (False, None) \<and> dispatched s' = dispatched s \<and> workflow_instances (db s') = workflow_instances (db s) \<and>
    map ev_Type (events s') = map ev_Type (events s) @ [TypeCycleLimitReached, TypeTransitionToFailed]"
proof -
  have "isBackEdge (ce_Repo ev) (ce_IssueNum ev) target (db s)"
    using assms(6,8,9) by (intro isBackEdge_visited [of _ _ _ cur]) (force dest: map_of_SomeD)+
  then have "run_state (admitTransition w (ce_Repo ev) (ce_IssueNum ev) cur target) s = (Inr False,
      snd (run_state (admitTransition w (ce_Repo ev) (ce_IssueNum ev) cur target) s))"
    and "map ev_Type (events (snd (run_state (admitTransition w (ce_Repo ev) (ce_IssueNum ev) cur target) s))) =
      map ev_Type (events s) @ [TypeCycleLimitReached, TypeTransitionToFailed]"
    and "workflow_instances (db (snd (run_state (admitTransition w (ce_Repo ev) (ce_IssueNum ev) cur target) s))) = workflow_instances (db s)"
    using assms(7-10)
    by (simp_all add: admitTransition_def IncrementTransition_def Let_def log_event_def publishAlert_def)
  moreover have "dispatched (snd (run_state (admitTransition w (ce_Repo ev) (ce_IssueNum ev) cur target) s)) = dispatched s"
    by (intro calm_dispatched calm_intro)
  ultimately show ?thesis
    using assms(1-5,11) by (auto simp: evaluateTransitions_def split: prod.splits)
qed

definition retried_db :: store where
  "retried_db = empty_store\<lparr>transition_counts := [(((''o/r'', 7), ''reviewing'', ''developing''), 2)]\<rparr>"

theorem back_edge_limit_witness:
  "dispatched (snd (run_state (evaluateTransitions background demo_workflow (demo_event EventLabelAdded) ''reviewing''
     demo_reviewing) (demo_coord ''A'' retried_db))) = []"
proof -
  let ?ev = "demo_event EventLabelAdded" and ?s = "demo_coord ''A'' retried_db"
  obtain res s' where run: "run_state (evaluateTransitions background demo_workflow ?ev ''reviewing'' demo_reviewing) ?s = (res, s')"
    by (rule prod.exhaust)
  have "ce_Type ?ev = EventLabelAdded" "ce_Detail ?ev \<noteq> []" "map_of (Transitions demo_reviewing) (ce_Detail ?ev) = Some ''developing''"
    "transitionAllowedForState ''reviewing'' demo_reviewing (ce_Detail ?ev) ''developing'' (ce_Labels ?ev)"
    "map_of (States demo_workflow) ''developing'' = Some demo_state"
    "\<not> faults (db ?s) OpQueryTransitions" "\<not> faults (db ?s) OpIncrementTransition"
    "map_of (transition_counts (db ?s)) ((ce_Repo ?ev, ce_IssueNum ?ev), ''reviewing'', ''developing'') = Some 2"
    "max_retries demo_workflow \<le> 2 + 1" "dispatched ?s = []"
    by code_simp+
  from back_edge_limit [OF this(1-8) _ this(9) run] this(10) run show ?thesis by simp
qed

section \<open>Direct dispatches\<close>

lemma unless_blocked_sent:
  assumes "state_io_rel calm g" "run_state (unless_blocked g p) s = (res, s')" "dispatched s' \<noteq> dispatched s"
  shows "fst (run_state g s) = Inr False \<and> run_state p (snd (run_state g s)) = (res, s')"
proof -
  obtain r s1 where g: "run_state g s = (r, s1)" by (rule prod.exhaust)
  with calm_run [OF assms(1) g] assms(2,3) show ?thesis
    by (auto simp: unless_blocked_def split: sum.splits if_splits)
qed

lemma gates_frame:
  "db (snd (run_state (isBlockedByDone repo n a) s)) = db s"
  "db (snd (run_state (isBlockedByFailureCap repo n a) s)) = db s"
  "db (snd (run_state (isBlockedByDependency repo n a w st) s)) = db s"
  by (auto simp: isBlockedByDone_def isBlockedByFailureCap_def isBlockedByDependency_def log_event_def publishAlert_def
      Let_def split: sum.splits option.splits labels_text.splits)

lemma done_gate_open:
  "fst (run_state (isBlockedByDone repo n a) s) = Inr False \<Longrightarrow> QueryIssueCache repo n (db s) = Inr (Some ic) \<Longrightarrow>
   ic_Labels ic = JText ls \<Longrightarrow> DoneLabel \<notin> set ls"
  by (auto simp: isBlockedByDone_def Let_def log_event_def publishAlert_def)

lemma failure_gate_open:
  "fst (run_state (isBlockedByFailureCap repo n a) s) = Inr False \<Longrightarrow>
   \<exists>k < 3. CountConsecutiveAgentFailures repo n a (db s) = Inr k"
  by (auto simp: isBlockedByFailureCap_def MaxConsecutiveAgentFailures_def log_event_def publishAlert_def split: sum.splits if_splits)

lemma sent_by_last_gate:
  assumes "run_state (do { reconcileStaleInflight repo n; unless_blocked (isBlockedByIssueClaim repo n a w st) (dispatchSingleAgent c req) }) s = (res, s')"
    and "dispatched s' \<noteq> dispatched s"
  shows "dispatched s' = dispatched s @ [stamp c req]"
proof -
  obtain u s1 where 1: "run_state (reconcileStaleInflight repo n) s = (u, s1)" by (rule prod.exhaust)
  obtain r s2 where 2: "run_state (isBlockedByIssueClaim repo n a w st) s1 = (r, s2)" by (rule prod.exhaust)
  have d: "dispatched s2 = dispatched s"
    using claimer_kept(5) [of repo n s] claimer_kept(6) [of repo n a w st s1] 1 2 by simp
  then have s': "s' = snd (run_state (dispatchSingleAgent c req) s2)"
    using assms 1 2 by (auto simp: unless_blocked_def split: sum.splits if_splits)
  show ?thesis
  proof (cases "slot_taken req s2")
    case True
    with single_taken [of req s2 c] s' d assms(2) show ?thesis by auto
  next
    case False
    with single_sent [of req s2 c] single_cancelled [of req s2 c] s' d assms(2) show ?thesis
      by (cases "ctx_done c s2") auto
  qed
qed

text \<open>Whatever a direct dispatch sends has passed every gate: the cached labels do not carry
  \<^verbatim>\<open>status:done\<close>, fewer than three of the agent's last tasks on the issue failed in a row,
  the dependency verdict lets it through, and exactly one request goes out, for this agent,
  workflow and state.\<close>

theorem direct_dispatch_gated:
  assumes "run_state (DispatchAgent c repo n agent w st) s = (res, s')" "dispatched s' \<noteq> dispatched s"
  shows "(\<forall>ic ls. QueryIssueCache repo n (db s) = Inr (Some ic) \<longrightarrow> ic_Labels ic = JText ls \<longrightarrow> DoneLabel \<notin> set ls) \<and>
    (\<exists>k < 3. CountConsecutiveAgentFailures repo n agent (db s) = Inr k) \<and>
    fst (IsBlocked repo n (db s)) = False \<and>
    (\<exists>r. dispatched s' = dispatched s @ [r] \<and> r_Repo r = repo \<and> r_IssueNum r = n \<and> r_AgentName r = agent \<and>
       r_Workflow r = w \<and> r_State r = st)"
proof -
  obtain c1 where c1: "run_state (issue_ctx c repo n) s = (c1, s)" by (simp add: issue_ctx_def)
  let ?req = "base_request repo n agent w st []"
  let ?p4 = "unless_blocked (isBlockedByIssueClaim repo n agent w st) (dispatchSingleAgent c1 ?req)"
  let ?p3 = "do { reconcileStaleInflight repo n; ?p4 }"
  let ?p2 = "unless_blocked (isBlockedByDependency repo n agent w st) ?p3"
  let ?p1 = "unless_blocked (isBlockedByFailureCap repo n agent) ?p2"
  have run: "run_state (unless_blocked (isBlockedByDone repo n agent) ?p1) s = (res, s')"
    using assms(1) c1 by (simp add: DispatchAgent_def base_request_def)
  define s1 where "s1 = snd (run_state (isBlockedByDone repo n agent) s)"
  note 1 = unless_blocked_sent [OF calm_gates(1) run assms(2), folded s1_def]
  have s1: "dispatched s1 = dispatched s" "db s1 = db s"
    using calm_dispatched [OF calm_gates(1)] gates_frame by (simp_all add: s1_def)
  define s2 where "s2 = snd (run_state (isBlockedByFailureCap repo n agent) s1)"
  have sent1: "dispatched s' \<noteq> dispatched s1" using assms(2) s1 by simp
  note 2 = unless_blocked_sent [OF calm_gates(2) conjunct2 [OF 1] sent1, folded s2_def]
  have s2: "dispatched s2 = dispatched s" "db s2 = db s"
    using calm_dispatched [OF calm_gates(2)] gates_frame s1 by (simp_all add: s2_def)
  define s3 where "s3 = snd (run_state (isBlockedByDependency repo n agent w st) s2)"
  have sent2: "dispatched s' \<noteq> dispatched s2" using assms(2) s2 by simp
  note 3 = unless_blocked_sent [OF calm_gates(3) conjunct2 [OF 2] sent2, folded s3_def]
  have s3: "dispatched s3 = dispatched s" using calm_dispatched [OF calm_gates(3)] s2 by (simp add: s3_def)
  have "dispatched s' = dispatched s3 @ [stamp c1 ?req]"
    using sent_by_last_gate [of repo n agent w st c1 ?req s3 res s'] 3 s3 assms(2) by simp
  then have "\<exists>r. dispatched s' = dispatched s @ [r] \<and> r_Repo r = repo \<and> r_IssueNum r = n \<and> r_AgentName r = agent \<and>
       r_Workflow r = w \<and> r_State r = st"
    by (simp add: s3 stamp_def base_request_def)
  moreover have "fst (IsBlocked repo n (db s)) = False"
    using dep_gate_refuses [of repo n s2 agent w st] 3 s2 by (auto simp: dep_blocked_def)
  moreover have "\<exists>k < 3. CountConsecutiveAgentFailures repo n agent (db s) = Inr k"
    using failure_gate_open [of repo n agent s1] 2 s1 by simp
  ultimately show ?thesis using done_gate_open [of repo n agent s] 1 by blast
qed

theorem direct_dispatch_gated_witness:
  "\<exists>r. dispatched (snd (run_state (DispatchAgent background ''o/r'' 7 ''dev'' ''wf'' ''developing'') (demo_sm empty_store))) = [r] \<and>
     r_AgentName r = ''dev''"
proof -
  let ?s = "demo_sm empty_store"
  obtain res s' where run: "run_state (DispatchAgent background ''o/r'' 7 ''dev'' ''wf'' ''developing'') ?s = (res, s')"
    by (rule prod.exhaust)
  have "dispatched (snd (run_state (DispatchAgent background ''o/r'' 7 ''dev'' ''wf'' ''developing'') ?s)) \<noteq> dispatched ?s"
    "dispatched ?s = []"
    by code_simp+
  with direct_dispatch_gated [OF run] run show ?thesis by auto
qed

section \<open>The size of a fan-out\<close>

lemma scan_rollouts:
  "scanRolloutLabels k labels = Inr r \<Longrightarrow>
   (\<forall>l \<in> set labels. has_prefix (trim_space l) ''rollouts:'' \<longrightarrow> rollout_override (trim_space l) = Some r) \<and>
   (r = k \<or> 2 \<le> r \<and> r \<le> 5) \<and> (k \<noteq> 0 \<longrightarrow> r = k) \<and>
   (r = 0 \<longrightarrow> (\<forall>l \<in> set labels. \<not> has_prefix (trim_space l) ''rollouts:'')) \<and>
   ((\<forall>l \<in> set labels. \<not> has_prefix (trim_space l) ''rollouts:'') \<longrightarrow> r = k)"
proof (induction k labels rule: scanRolloutLabels.induct)
  case (2 k l ls)
  have range: "rollout_override x = Some n \<Longrightarrow> 2 \<le> n \<and> n \<le> 5" for x n
    by (auto simp: rollout_override_def split: if_splits)
  show ?case
  proof (cases "has_prefix (trim_space l) ''rollouts:''")
    case False
    with 2 show ?thesis by (auto simp: Let_def)
  next
    case True
    with "2.prems" obtain n where n: "rollout_override (trim_space l) = Some n" "k = 0 \<or> k = n" "scanRolloutLabels n ls = Inr r"
      by (auto simp: Let_def split: option.splits if_splits)
    with "2.IH"(2) [OF refl _ n(1)] True range [OF n(1)] show ?thesis by auto
  qed
qed simp

text \<open>The size of a fan-out is bounded and unambiguous: for a state that the configuration
  loader accepts, the number of rollouts is between 1 and 5; without a rollout label it is the
  configured number, and with rollout labels all of them name that number (labels that
  disagree or name another number are an error).\<close>

theorem rollouts_bounded:
  assumes "parseWorkflow w0 raw = Inr w" "map_of (States w) st = Some sd" "stateAgents sd \<noteq> []"
    and "resolveStateRollouts sd labels = Inr k"
  shows "1 \<le> k \<and> k \<le> 5 \<and>
    (if \<exists>l \<in> set labels. has_prefix (trim_space l) ''rollouts:''
     then \<forall>l \<in> set labels. has_prefix (trim_space l) ''rollouts:'' \<longrightarrow> rollout_override (trim_space l) = Some k
     else k = Rollouts sd)"
proof -
  have "(st, sd) \<in> set (States w)" using assms(2) by (rule map_of_SomeD)
  moreover have "sd \<noteq> empty_state\<lparr>EnterLabel := LabelFailed\<rparr>"
    using assms(3) by (auto simp: stateAgents_def empty_state_def)
  ultimately have ok: "1 \<le> Rollouts sd" "Rollouts sd \<le> 5"
    using parseWorkflow_ok [OF assms(1)] by (auto simp: workflow_ok_def state_ok_def)
  from assms(4) obtain r where scan: "scanRolloutLabels 0 labels = Inr r"
    and k: "k = (if r > 0 then r else if Rollouts sd > 0 then Rollouts sd else 1)"
    by (auto simp: resolveStateRollouts_def Let_def split: sum.splits)
  with scan_rollouts [OF scan] ok show ?thesis
    by (cases "r = 0") auto
qed

theorem rollouts_bounded_witness:
  "\<exists>w sd. parseWorkflow (demo_workflow\<lparr>States := []\<rparr>) [(''developing'', Some demo_state)] = Inr w \<and>
     map_of (States w) ''developing'' = Some sd \<and> resolveStateRollouts sd [''workbuddy'', ''rollouts:3''] = Inr 3 \<and> 3 \<le> (5 :: int)"
proof -
  let ?w = "demo_workflow\<lparr>States := [(''developing'', demo_state)]\<rparr>"
  have "parseWorkflow (demo_workflow\<lparr>States := []\<rparr>) [(''developing'', Some demo_state)] = Inr ?w"
    "map_of (States ?w) ''developing'' = Some demo_state" "stateAgents demo_state \<noteq> []"
    "resolveStateRollouts demo_state [''workbuddy'', ''rollouts:3''] = Inr 3"
    by code_simp+
  moreover from rollouts_bounded [OF this] have "3 \<le> (5 :: int)" by blast
  ultimately show ?thesis by blast
qed

end
