(* ===== verification/Gh_Util.thy ===== *)
theory Gh_Util
  imports Prelude
begin

text \<open>
  Helpers on error texts of the GitHub command line (\<^verbatim>\<open>internal/ghutil\<close>): the rate-limit
  test and the redaction of access tokens. The regular expressions
  \<^verbatim>\<open>(?i)<prefix>[A-Za-z0-9_]{20,}\<close> are written out over ASCII (case folding also maps two
  non-ASCII letters into the class; they are not modelled).

  Shown here: no text that leaves the redaction contains a token, whichever token the
  replacements of the others may have put next to each other, and a text without tokens is
  left as it is.
\<close>

definition IsRateLimit :: "string \<Rightarrow> bool" where
  "IsRateLimit msg \<longleftrightarrow> contains_sub (map lower_char msg) ''rate limit''"

definition token_char :: "char \<Rightarrow> bool" where
  "token_char c \<longleftrightarrow> (let k = of_char c :: nat
     in 48 \<le> k \<and> k \<le> 57 \<or> 65 \<le> k \<and> k \<le> 90 \<or> 97 \<le> k \<and> k \<le> 122 \<or> k = 95)"

definition tokenPatterns :: "string list" where
  "tokenPatterns = [''ghp_'', ''ghs_'', ''github_pat_'']"

text \<open>A match of the pattern with this prefix at the start of the text.\<close>

definition token_at :: "string \<Rightarrow> string \<Rightarrow> bool" where
  "token_at pre s \<longleftrightarrow> has_prefix (map lower_char s) pre \<and> 20 \<le> length (takeWhile token_char (drop (length pre) s))"

text \<open>\<^verbatim>\<open>ReplaceAllString\<close>: leftmost matches, each as long as possible.\<close>

function redact :: "string \<Rightarrow> string \<Rightarrow> string" where
  "redact pre [] = []"
| "redact pre (c # s) =
     (if token_at pre (c # s)
      then ''[REDACTED]'' @ redact pre (dropWhile token_char (drop (length pre) (c # s)))
      else c # redact pre s)"
  by pat_completeness auto

termination redact
proof (relation "measure (length \<circ> snd)", goal_cases)
  case (2 pre c s)
  let ?t = "drop (length pre) (c # s)"
  have "length (takeWhile token_char ?t) + length (dropWhile token_char ?t) = length ?t"
    by (metis length_append takeWhile_dropWhile_id)
  moreover have "length ?t \<le> Suc (length s)" by simp
  ultimately show ?case using 2 unfolding token_at_def by (simp del: drop_Suc_Cons length_drop)
qed auto

definition RedactTokens :: "string \<Rightarrow> string" where
  "RedactTokens raw = fold redact tokenPatterns raw"

fun has_token :: "string \<Rightarrow> string \<Rightarrow> bool" where
  "has_token pre [] = False"
| "has_token pre (c # s) = (token_at pre (c # s) \<or> has_token pre s)"

section \<open>What a redaction leaves\<close>

definition token_prefix :: "string \<Rightarrow> bool" where
  "token_prefix pre \<longleftrightarrow> pre \<noteq> [] \<and> list_all token_char pre"

lemma lower_token_char [simp]: "token_char (lower_char c) = token_char c"
  by (auto simp: token_char_def lower_char_def Let_def)

lemma tokenPatterns_ok: "pre \<in> set tokenPatterns \<Longrightarrow> token_prefix pre"
  by (auto simp: tokenPatterns_def token_prefix_def token_char_def)

lemma token_at_Cons:
  "token_at (p # pre) [] = False" "token_at (p # pre) (c # s) \<longleftrightarrow> lower_char c = p \<and> token_at pre s"
  by (auto simp: token_at_def has_prefix_def)

text \<open>Only the run of token characters at the start decides whether a token starts here.\<close>

lemma token_at_run: "list_all token_char pre \<Longrightarrow> token_at pre s \<Longrightarrow> 20 \<le> length (takeWhile token_char s)"
proof (induction pre arbitrary: s)
  case (Cons p pre)
  then show ?case by (cases s) (force simp: token_at_Cons)+
qed (simp add: token_at_def)

lemma token_at_mono:
  assumes "list_all token_char pre" "token_at pre s" "takeWhile token_char t = takeWhile token_char s @ z"
  shows "token_at pre t"
  using assms
proof (induction pre arbitrary: s t)
  case (Cons p pre)
  then obtain c s' where s: "s = c # s'" "token_char c" "token_at pre s'"
    by (cases s) (auto simp: token_at_Cons)
  with Cons.prems obtain t' where "t = c # t'" "takeWhile token_char t' = takeWhile token_char s' @ z"
    by (cases t) (auto split: if_splits)
  then show ?case using s Cons.prems(1,2) Cons.IH [of s' t'] by (simp add: token_at_Cons)
qed (simp add: token_at_def has_prefix_def)

lemma redact_run: "\<exists>z. takeWhile token_char s = takeWhile token_char (redact pre s) @ z"
proof (induction pre s rule: redact.induct)
  case (2 pre c s)
  then show ?case by (auto simp: token_char_def)
qed simp

lemma token_at_redact: "token_prefix pre \<Longrightarrow> token_at pre (redact q s) \<Longrightarrow> token_at pre s"
  using redact_run [of s q] token_at_mono [of pre "redact q s" s] by (auto simp: token_prefix_def)

lemma no_token_in_mark:
  assumes "token_prefix pre"
  shows "has_token pre (''[REDACTED]'' @ s) = has_token pre s"
proof -
  have "\<not> token_at pre t" if "length (takeWhile token_char t) < 20" for t
    using that token_at_run [of pre t] assms by (auto simp: token_prefix_def)
  moreover have "\<not> token_char (CHR ''['')" "\<not> token_char (CHR '']'')" "\<forall>c \<in> set ''REDACTED''. token_char c"
    by (simp_all add: token_char_def)
  ultimately show ?thesis by simp
qed

lemma redact_none: "token_prefix pre \<Longrightarrow> \<not> has_token pre (redact pre s)"
proof (induction pre s rule: redact.induct)
  case (2 pre c s)
  show ?case
  proof (cases "token_at pre (c # s)")
    case True
    then show ?thesis
      unfolding redact.simps if_P [OF True] no_token_in_mark [OF 2(3)] by (rule 2(1) [OF _ 2(3)])
  next
    case False
    then have "redact pre (c # s) = c # redact pre s" by simp
    then show ?thesis using 2(2) [OF False 2(3)] token_at_redact [OF 2(3), of pre "c # s"] False by auto
  qed
qed simp

lemma has_token_drop: "has_token pre (drop n s) \<Longrightarrow> has_token pre s"
  by (induction n arbitrary: s) (auto simp: drop_Suc, metis has_token.simps(2) list.collapse list.sel(2))

lemma redact_no_new: "token_prefix pre \<Longrightarrow> has_token pre (redact q s) \<Longrightarrow> has_token pre s"
proof (induction q s rule: redact.induct)
  case (2 q c s)
  show ?case
  proof (cases "token_at q (c # s)")
    case True
    let ?t = "drop (length q) (c # s)"
    have "has_token pre (dropWhile token_char ?t)" using 2 True no_token_in_mark by auto
    then have "has_token pre (c # s)" using has_token_drop by (metis dropWhile_eq_drop)
    then show ?thesis .
  next
    case False
    then show ?thesis using 2 token_at_redact [of pre q "c # s"] by auto
  qed
qed simp

lemma redact_id: "\<not> has_token pre s \<Longrightarrow> redact pre s = s"
  by (induction s) auto

section \<open>Properties\<close>

text \<open>No GitHub token survives a redaction: the result contains no text that one of the
  token patterns matches, also none that the replacement of another pattern has created; and a
  text that contains no token is not changed.\<close>

theorem RedactTokens_clean:
  "(\<forall>pre \<in> set tokenPatterns. \<not> has_token pre (RedactTokens s)) \<and>
   ((\<forall>pre \<in> set tokenPatterns. \<not> has_token pre s) \<longrightarrow> RedactTokens s = s)"
proof -
  have "token_prefix ''ghp_''" "token_prefix ''ghs_''" "token_prefix ''github_pat_''"
    by (simp_all add: tokenPatterns_ok tokenPatterns_def)
  note clean = this [THEN redact_none] and old = this [THEN redact_no_new, rotated]
  have "\<not> has_token ''ghp_'' (RedactTokens s)" "\<not> has_token ''ghs_'' (RedactTokens s)"
    "\<not> has_token ''github_pat_'' (RedactTokens s)"
    unfolding RedactTokens_def tokenPatterns_def fold.simps o_apply id_apply using clean old by blast+
  then show ?thesis by (simp add: tokenPatterns_def RedactTokens_def redact_id)
qed

theorem RedactTokens_clean_witness:
  "\<not> has_token ''ghp_'' (RedactTokens ''token ghp_0123456789abcdefghij: rate limit'') \<and>
   RedactTokens ''HTTP 403: rate limit'' = ''HTTP 403: rate limit''"
proof -
  have "\<forall>pre \<in> set tokenPatterns. \<not> has_token pre ''HTTP 403: rate limit''" by code_simp
  moreover have "''ghp_'' \<in> set tokenPatterns" by (simp add: tokenPatterns_def)
  ultimately show ?thesis using RedactTokens_clean by blast
qed

end
