(* ===== verification/Poller.thy ===== *)
theory Poller
  imports SM_Types Gh_Util
begin

text \<open>
  The poller (\<^verbatim>\<open>internal/poller/poller.go\<close>): one cycle lists the open issues and pull
  requests, compares them with the issue cache and turns the differences into change events.
  The source collects events and closures in memory and commits them at the end; the closures
  are the constructors of \<open>cache_op\<close> here.

  \<^item> What the GitHub reader answers in a cycle is an argument of \<open>poll\<close>: an error text or a
    list. \<open>tripped\<close> says that the failpoint before the first listing returned an error.
  \<^item> \<open>pl_ctx\<close> is the number of further looks at the context before it is seen cancelled, \<open>None\<close>
    when it is not cancelled during the cycle. An event whose sending meets the cancelled
    context is dropped.
  \<^item> \<open>pl_events\<close> is what was sent on the channel so far, in order; \<open>pl_eventlog\<close> is \<open>None\<close> when no
    recorder is installed.

  Shown here: a cycle is all or nothing; a cycle that committed leaves the cache equal to what
  it saw, so that a second cycle over the same lists reports no change; and the backoff after
  rate limits never exceeds one minute.
\<close>

section \<open>Types\<close>

record Issue =
  i_Number :: int
  i_Title :: string
  i_State :: string
  i_Labels :: "string list"
  i_Body :: string
  i_Author :: string

record PR =
  q_Number :: int
  q_URL :: string
  q_Branch :: string
  q_State :: string

record IssueDetails =
  id_Number :: int
  id_State :: string
  id_StateReason :: string
  id_Body :: string
  id_Labels :: "string list"
  id_ClosedByLinkedPR :: bool

record Poller =
  pl_db :: store
  pl_repo :: string
  pl_interval :: duration
  pl_events :: "ChangeEvent list"
  pl_eventlog :: "Event list option"
  pl_backoff :: duration
  pl_maxBackoff :: duration
  pl_resyncInterval :: duration
  pl_lastResyncAt :: "(int \<times> time) list"
  pl_ctx :: "nat option"

definition EventLabelRemoved :: string where "EventLabelRemoved = ''label_removed''"
definition EventPRCreated :: string where "EventPRCreated = ''pr_created''"
definition EventPRStateChanged :: string where "EventPRStateChanged = ''pr_state_changed''"
definition EventIssueClosed :: string where "EventIssueClosed = ''issue_closed''"
definition TypeRateLimit :: string where "TypeRateLimit = ''rate_limit''"
definition DefaultResyncInterval :: duration where "DefaultResyncInterval = 5 * minute"
definition ghListLimit :: nat where "ghListLimit = 100"

lemmas poller_types = poller_event_defs EventLabelRemoved_def EventPRCreated_def EventPRStateChanged_def
  EventIssueClosed_def

definition NewPoller :: "store \<Rightarrow> string \<Rightarrow> duration \<Rightarrow> Poller" where
  "NewPoller st repo interval =
     \<lparr>pl_db = st, pl_repo = repo, pl_interval = (if interval \<le> 0 then 30 * second else interval),
      pl_events = [], pl_eventlog = None, pl_backoff = 0, pl_maxBackoff = 15 * minute,
      pl_resyncInterval = DefaultResyncInterval, pl_lastResyncAt = [], pl_ctx = None\<rparr>"

definition SetResyncInterval :: "duration \<Rightarrow> Poller \<Rightarrow> Poller" where
  "SetResyncInterval d p = p\<lparr>pl_resyncInterval := (if d \<le> 0 then DefaultResyncInterval else d)\<rparr>"

definition SetEventRecorder :: "Event list option \<Rightarrow> Poller \<Rightarrow> Poller" where
  "SetEventRecorder r p = p\<lparr>pl_eventlog := r\<rparr>"

section \<open>Helpers\<close>

definition labelsToJSON :: "string list \<Rightarrow> labels_text" where
  "labelsToJSON ls = JText (sort ls)"

definition labelsFromJSON :: "labels_text \<Rightarrow> string list" where
  "labelsFromJSON t = (case t of JText ls \<Rightarrow> ls | JBad _ \<Rightarrow> [])"

definition diffLabels :: "string list \<Rightarrow> string list \<Rightarrow> string list \<times> string list" where
  "diffLabels old new = (filter (\<lambda>l. l \<notin> set old) new, filter (\<lambda>l. l \<notin> set new) old)"

text \<open>\<^verbatim>\<open>(?:^|/)issue-(\d+)(?:[/-]|$)\<close>, leftmost match, at the start of a text and anywhere.\<close>

definition issue_at :: "string \<Rightarrow> string option" where
  "issue_at s =
     (let ds = takeWhile (\<lambda>c. digit_val c \<noteq> None) (drop 6 s); rest = drop (6 + length ds) s
      in if has_prefix s ''issue-'' \<and> ds \<noteq> [] \<and> (rest = [] \<or> hd rest \<in> set ''/-'') then Some ds else None)"

fun issue_after_slash :: "string \<Rightarrow> string option" where
  "issue_after_slash [] = None"
| "issue_after_slash (c # s) =
     (case (if c = CHR ''/'' then issue_at s else None) of
        Some ds \<Rightarrow> Some ds
      | None \<Rightarrow> issue_after_slash s)"

definition parentIssueFromBranch :: "string \<Rightarrow> int" where
  "parentIssueFromBranch branch =
     (case (case issue_at branch of Some ds \<Rightarrow> Some ds | None \<Rightarrow> issue_after_slash branch) of
        None \<Rightarrow> 0
      | Some ds \<Rightarrow> (case atoi ds of None \<Rightarrow> 0 | Some n \<Rightarrow> if n \<le> 0 then 0 else n))"

definition applyBackoff :: "Poller \<Rightarrow> Poller" where
  "applyBackoff p =
     (let b = (if pl_backoff p = 0 then 60 * second else pl_backoff p * 2)
      in p\<lparr>pl_backoff := (if b > pl_maxBackoff p then pl_maxBackoff p else b)\<rparr>)"

definition ResetBackoff :: "Poller \<Rightarrow> Poller" where
  "ResetBackoff p = p\<lparr>pl_backoff := 0\<rparr>"

definition logRateLimitEvent :: "string \<Rightarrow> string \<Rightarrow> Poller \<Rightarrow> Poller" where
  "logRateLimitEvent scope e p = p\<lparr>pl_eventlog := map_option (\<lambda>es. es @
     [\<lparr>ev_Type = TypeRateLimit, ev_Repo = pl_repo p, ev_IssueNum = 0,
       ev_Payload = [(''source'', PStr ''poller''), (''scope'', PStr scope), (''error'', PStr (RedactTokens e))]\<rparr>])
     (pl_eventlog p)\<rparr>"

definition list_failed :: "string \<Rightarrow> string \<Rightarrow> Poller \<Rightarrow> Poller" where
  "list_failed scope e p = (if IsRateLimit e then applyBackoff (logRateLimitEvent scope e p) else p)"

section \<open>Collecting\<close>

datatype cache_op = UpsertOp int IssueCache | CloseOp int | ResyncOp int time

record plan =
  pn_pending :: "ChangeEvent list"
  pn_ops :: "cache_op list"
  pn_resync :: "Issue list"
  pn_first :: "int list"

definition ctx_err :: "Poller \<Rightarrow> Poller \<times> bool" where
  "ctx_err p = (case pl_ctx p of
      None \<Rightarrow> (p, False)
    | Some 0 \<Rightarrow> (p, True)
    | Some (Suc k) \<Rightarrow> (p\<lparr>pl_ctx := Some k\<rparr>, False))"

definition issue_event :: "string \<Rightarrow> string \<Rightarrow> Issue \<Rightarrow> string \<Rightarrow> ChangeEvent" where
  "issue_event repo ty i detail =
     \<lparr>ce_Type = ty, ce_Repo = repo, ce_IssueNum = i_Number i, ce_Labels = i_Labels i, ce_Detail = detail,
      ce_Author = i_Author i\<rparr>"

definition plain_event :: "string \<Rightarrow> string \<Rightarrow> int \<Rightarrow> string \<Rightarrow> ChangeEvent" where
  "plain_event repo ty n detail =
     \<lparr>ce_Type = ty, ce_Repo = repo, ce_IssueNum = n, ce_Labels = [], ce_Detail = detail, ce_Author = []\<rparr>"

definition planDiffIssue :: "Poller \<Rightarrow> Issue \<Rightarrow> (ChangeEvent list \<times> cache_op \<times> bool) option" where
  "planDiffIssue p i =
     (case QueryIssueCache (pl_repo p) (i_Number i) (pl_db p) of
        Inl _ \<Rightarrow> None
      | Inr cached \<Rightarrow>
         (let evs = (case cached of
                 None \<Rightarrow> [issue_event (pl_repo p) EventIssueCreated i (i_Title i)]
               | Some ic \<Rightarrow>
                  (case diffLabels (labelsFromJSON (ic_Labels ic)) (i_Labels i) of (added, removed) \<Rightarrow>
                     map (issue_event (pl_repo p) EventLabelAdded i) added @
                     map (issue_event (pl_repo p) EventLabelRemoved i) removed));
              op = UpsertOp (i_Number i)
                     \<lparr>ic_Labels = labelsToJSON (i_Labels i), ic_Body = i_Body i,
                      ic_State = map lower_char (i_State i), ic_RootTraceID = [], ic_ParentIssueNum = 0,
                      ic_UpdatedAt = 0\<rparr>
          in Some (evs, op, cached \<noteq> None)))"

definition planDiffPR :: "Poller \<Rightarrow> PR \<Rightarrow> (ChangeEvent list \<times> cache_op) option" where
  "planDiffPR p q =
     (let stateVal = ''pr:'' @ map lower_char (q_State q)
      in case QueryIssueCache (pl_repo p) (q_Number q) (pl_db p) of
           Inl _ \<Rightarrow> None
         | Inr cached \<Rightarrow>
            Some (case cached of
                    None \<Rightarrow> [plain_event (pl_repo p) EventPRCreated (q_Number q) (q_Branch q)]
                  | Some ic \<Rightarrow> if ic_State ic \<noteq> stateVal
                      then [plain_event (pl_repo p) EventPRStateChanged (q_Number q) (ic_State ic @ '' -> '' @ stateVal)]
                      else [],
                  UpsertOp (q_Number q)
                    \<lparr>ic_Labels = JBad [], ic_Body = [], ic_State = stateVal, ic_RootTraceID = [],
                     ic_ParentIssueNum = parentIssueFromBranch (q_Branch q), ic_UpdatedAt = 0\<rparr>))"

fun collectIssues :: "Issue list \<Rightarrow> plan \<Rightarrow> Poller \<Rightarrow> Poller \<times> plan option" where
  "collectIssues [] pn p = (p, Some pn)"
| "collectIssues (i # is) pn p =
     (case ctx_err p of
        (p1, True) \<Rightarrow> (p1, None)
      | (p1, False) \<Rightarrow>
         (case planDiffIssue p1 i of
            None \<Rightarrow> (p1, None)
          | Some (evs, op, wasCached) \<Rightarrow>
              collectIssues is (pn\<lparr>pn_pending := pn_pending pn @ evs, pn_ops := pn_ops pn @ [op],
                 pn_resync := (if wasCached \<and> i_Labels i \<noteq> [] then pn_resync pn @ [i] else pn_resync pn),
                 pn_first := (if \<not> wasCached \<and> i_Labels i \<noteq> [] then pn_first pn @ [i_Number i] else pn_first pn)\<rparr>) p1))"

fun collectPRs :: "PR list \<Rightarrow> plan \<Rightarrow> Poller \<Rightarrow> Poller \<times> plan option" where
  "collectPRs [] pn p = (p, Some pn)"
| "collectPRs (q # qs) pn p =
     (case ctx_err p of
        (p1, True) \<Rightarrow> (p1, None)
      | (p1, False) \<Rightarrow>
         (case planDiffPR p1 q of
            None \<Rightarrow> (p1, None)
          | Some (evs, op) \<Rightarrow>
              collectPRs qs (pn\<lparr>pn_pending := pn_pending pn @ evs, pn_ops := pn_ops pn @ [op]\<rparr>) p1))"

fun closeMissing :: "int list \<Rightarrow> int list \<Rightarrow> plan \<Rightarrow> Poller \<Rightarrow> Poller \<times> plan option" where
  "closeMissing open [] pn p = (p, Some pn)"
| "closeMissing open (n # ns) pn p =
     (case ctx_err p of
        (p1, True) \<Rightarrow> (p1, None)
      | (p1, False) \<Rightarrow>
          if n \<in> set open then closeMissing open ns pn p1
          else closeMissing open ns
            (pn\<lparr>pn_pending := pn_pending pn @
                  [plain_event (pl_repo p1) EventIssueClosed n ''issue no longer in open issues list''],
                pn_ops := pn_ops pn @ [CloseOp n]\<rparr>) p1)"

definition collectClosed :: "Issue list \<Rightarrow> PR list \<Rightarrow> plan \<Rightarrow> Poller \<Rightarrow> Poller \<times> plan option" where
  "collectClosed is qs pn p =
     (if length is \<ge> ghListLimit then (p, Some pn)
      else case ListCachedIssueNums (pl_repo p) (pl_db p) of
        Inl _ \<Rightarrow> (p, None)
      | Inr nums \<Rightarrow> closeMissing (map i_Number is @ map q_Number qs) nums pn p)"

definition resync_due :: "Poller \<Rightarrow> Issue \<Rightarrow> bool" where
  "resync_due p i =
     (case map_of (pl_lastResyncAt p) (i_Number i) of
        None \<Rightarrow> True
      | Some at \<Rightarrow> \<not> clock (pl_db p) - at < pl_resyncInterval p)"

definition scheduleResync :: "Poller \<Rightarrow> plan \<Rightarrow> plan" where
  "scheduleResync p pn =
     (let due = filter (resync_due p) (pn_resync pn); now = clock (pl_db p)
      in pn\<lparr>pn_pending := pn_pending pn @
              map (\<lambda>i. issue_event (pl_repo p) EventIssueResynced i (i_Title i)) due,
            pn_ops := pn_ops pn @ map (\<lambda>i. ResyncOp (i_Number i) now) due @
              map (\<lambda>n. ResyncOp n now) (pn_first pn)\<rparr>)"

section \<open>Committing\<close>

definition run_op :: "cache_op \<Rightarrow> Poller \<Rightarrow> Poller" where
  "run_op op p =
     (case op of
        UpsertOp n ic \<Rightarrow> p\<lparr>pl_db := fst (UpsertIssueCache (pl_repo p) n ic (pl_db p))\<rparr>
      | CloseOp n \<Rightarrow>
         (case DeleteIssueCache (pl_repo p) n (pl_db p) of
            (d, Inl _) \<Rightarrow> p\<lparr>pl_db := d\<rparr>
          | (d, Inr _) \<Rightarrow> p\<lparr>pl_db := fst (ClearIssuePipelineHazard (pl_repo p) n d),
                            pl_lastResyncAt := AList.delete n (pl_lastResyncAt p)\<rparr>)
      | ResyncOp n now \<Rightarrow> p\<lparr>pl_lastResyncAt := AList.update n now (pl_lastResyncAt p)\<rparr>)"

fun runOps :: "cache_op list \<Rightarrow> Poller \<Rightarrow> Poller \<times> bool" where
  "runOps [] p = (p, True)"
| "runOps (op # ops) p =
     (case ctx_err p of (p1, True) \<Rightarrow> (p1, False) | (p1, False) \<Rightarrow> runOps ops (run_op op p1))"

definition emit :: "ChangeEvent \<Rightarrow> Poller \<Rightarrow> Poller" where
  "emit ev p = (case ctx_err p of (p1, True) \<Rightarrow> p1 | (p1, False) \<Rightarrow> p1\<lparr>pl_events := pl_events p1 @ [ev]\<rparr>)"

fun emitAll :: "ChangeEvent list \<Rightarrow> Poller \<Rightarrow> Poller \<times> bool" where
  "emitAll [] p = (p, True)"
| "emitAll (ev # evs) p =
     (case ctx_err p of (p1, True) \<Rightarrow> (p1, False) | (p1, False) \<Rightarrow> emitAll evs (emit ev p1))"

definition commit :: "plan \<Rightarrow> Poller \<Rightarrow> Poller" where
  "commit pn p =
     (case runOps (pn_ops pn) p of
        (p1, False) \<Rightarrow> p1
      | (p1, True) \<Rightarrow>
         (case emitAll (pn_pending pn) p1 of
            (p2, False) \<Rightarrow> p2
          | (p2, True) \<Rightarrow> emit (plain_event (pl_repo p2) EventPollCycleDone 0 []) p2))"

definition empty_plan :: plan where
  "empty_plan = \<lparr>pn_pending = [], pn_ops = [], pn_resync = [], pn_first = []\<rparr>"

definition poll :: "bool \<Rightarrow> string + Issue list \<Rightarrow> string + PR list \<Rightarrow> Poller \<Rightarrow> Poller" where
  "poll tripped issues prs p =
     (if tripped then p
      else case issues of
        Inl e \<Rightarrow> list_failed ''issues'' e p
      | Inr is \<Rightarrow>
         (case collectIssues is empty_plan p of
            (p1, None) \<Rightarrow> p1
          | (p1, Some pn1) \<Rightarrow>
             (case prs of
                Inl e \<Rightarrow> list_failed ''prs'' e p1
              | Inr qs \<Rightarrow>
                 (case collectPRs qs pn1 p1 of
                    (p2, None) \<Rightarrow> p2
                  | (p2, Some pn2) \<Rightarrow>
                     (case collectClosed is qs pn2 p2 of
                        (p3, None) \<Rightarrow> p3
                      | (p3, Some pn3) \<Rightarrow> commit (scheduleResync p3 pn3) (ResetBackoff p3))))))"

text \<open>One tick of \<^verbatim>\<open>Run\<close>: a running backoff is counted down instead of polling.\<close>

definition run_tick :: "bool \<Rightarrow> string + Issue list \<Rightarrow> string + PR list \<Rightarrow> Poller \<Rightarrow> Poller" where
  "run_tick tripped issues prs p =
     (if pl_backoff p > 0
      then (let b = pl_backoff p - pl_interval p in p\<lparr>pl_backoff := (if b < 0 then 0 else b)\<rparr>)
      else poll tripped issues prs p)"

text \<open>\<^verbatim>\<open>Run\<close>: the first poll happens at once, then one tick per answer of the reader; between
  ticks other parts of the program change the database and the clock moves on.\<close>

type_synonym gh_answer = "bool \<times> (string + Issue list) \<times> (string + PR list) \<times> store"

fun runLoop :: "gh_answer list \<Rightarrow> Poller \<Rightarrow> Poller" where
  "runLoop [] p = p"
| "runLoop ((tripped, issues, prs, d) # as) p = runLoop as (run_tick tripped issues prs (p\<lparr>pl_db := d\<rparr>))"

definition Run :: "gh_answer \<Rightarrow> gh_answer list \<Rightarrow> Poller \<Rightarrow> Poller" where
  "Run first rest p =
     (case first of (tripped, issues, prs, d) \<Rightarrow> runLoop rest (poll tripped issues prs (p\<lparr>pl_db := d\<rparr>)))"

section \<open>A cycle whose context stays alive\<close>

lemma ctx_alive [simp]: "pl_ctx p = None \<Longrightarrow> ctx_err p = (p, False)"
  by (simp add: ctx_err_def)

text \<open>What a cycle sees of the cache, and the events that follow from it.\<close>

definition cached_row :: "Poller \<Rightarrow> int \<Rightarrow> IssueCache option" where
  "cached_row p n = map_option scan_cache (map_of (issue_cache (pl_db p)) (pl_repo p, n))"

definition issue_changes :: "Poller \<Rightarrow> Issue \<Rightarrow> ChangeEvent list" where
  "issue_changes p i =
     (case cached_row p (i_Number i) of
        None \<Rightarrow> [issue_event (pl_repo p) EventIssueCreated i (i_Title i)]
      | Some ic \<Rightarrow> map (issue_event (pl_repo p) EventLabelAdded i) (filter (\<lambda>l. l \<notin> set (labelsFromJSON (ic_Labels ic))) (i_Labels i)) @
          map (issue_event (pl_repo p) EventLabelRemoved i) (filter (\<lambda>l. l \<notin> set (i_Labels i)) (labelsFromJSON (ic_Labels ic))))"

definition pr_changes :: "Poller \<Rightarrow> PR \<Rightarrow> ChangeEvent list" where
  "pr_changes p q =
     (let st = ''pr:'' @ map lower_char (q_State q)
      in case cached_row p (q_Number q) of
           None \<Rightarrow> [plain_event (pl_repo p) EventPRCreated (q_Number q) (q_Branch q)]
         | Some ic \<Rightarrow> if ic_State ic = st then []
             else [plain_event (pl_repo p) EventPRStateChanged (q_Number q) (ic_State ic @ '' -> '' @ st)])"

definition closed_nums :: "Issue list \<Rightarrow> PR list \<Rightarrow> Poller \<Rightarrow> int list" where
  "closed_nums is qs p =
     (if length is \<ge> ghListLimit then []
      else filter (\<lambda>n. n \<notin> set (map i_Number is @ map q_Number qs))
        (map (snd \<circ> fst) (filter (\<lambda>((r, _), ic). r = pl_repo p \<and> \<not> is_pr_state (ic_State ic)) (issue_cache (pl_db p)))))"

definition due_resyncs :: "Issue list \<Rightarrow> Poller \<Rightarrow> Issue list" where
  "due_resyncs is p = filter (\<lambda>i. cached_row p (i_Number i) \<noteq> None \<and> i_Labels i \<noteq> [] \<and> resync_due p i) is"

definition changes :: "Issue list \<Rightarrow> PR list \<Rightarrow> Poller \<Rightarrow> ChangeEvent list" where
  "changes is qs p = concat (map (issue_changes p) is) @ concat (map (pr_changes p) qs) @
     map (\<lambda>n. plain_event (pl_repo p) EventIssueClosed n ''issue no longer in open issues list'') (closed_nums is qs p)"

definition resyncs :: "Issue list \<Rightarrow> Poller \<Rightarrow> ChangeEvent list" where
  "resyncs is p = map (\<lambda>i. issue_event (pl_repo p) EventIssueResynced i (i_Title i)) (due_resyncs is p)"

definition issue_row :: "Issue \<Rightarrow> IssueCache" where
  "issue_row i = \<lparr>ic_Labels = labelsToJSON (i_Labels i), ic_Body = i_Body i, ic_State = map lower_char (i_State i),
     ic_RootTraceID = [], ic_ParentIssueNum = 0, ic_UpdatedAt = 0\<rparr>"

definition pr_row :: "PR \<Rightarrow> IssueCache" where
  "pr_row q = \<lparr>ic_Labels = JBad [], ic_Body = [], ic_State = ''pr:'' @ map lower_char (q_State q),
     ic_RootTraceID = [], ic_ParentIssueNum = parentIssueFromBranch (q_Branch q), ic_UpdatedAt = 0\<rparr>"

definition row_ops :: "Issue list \<Rightarrow> PR list \<Rightarrow> Poller \<Rightarrow> cache_op list" where
  "row_ops is qs p = map (\<lambda>i. UpsertOp (i_Number i) (issue_row i)) is @ map (\<lambda>q. UpsertOp (q_Number q) (pr_row q)) qs @
     map CloseOp (closed_nums is qs p)"

definition gate_ops :: "Issue list \<Rightarrow> Poller \<Rightarrow> cache_op list" where
  "gate_ops is p = map (\<lambda>i. ResyncOp (i_Number i) (clock (pl_db p))) (due_resyncs is p) @
     map (\<lambda>i. ResyncOp (i_Number i) (clock (pl_db p))) (filter (\<lambda>i. cached_row p (i_Number i) = None \<and> i_Labels i \<noteq> []) is)"

lemma planDiffIssue_ok:
  "\<not> faults (pl_db p) OpQueryCache \<Longrightarrow>
   planDiffIssue p i = Some (issue_changes p i, UpsertOp (i_Number i) (issue_row i), cached_row p (i_Number i) \<noteq> None)"
  by (auto simp: planDiffIssue_def QueryIssueCache_def issue_changes_def cached_row_def issue_row_def diffLabels_def
      split: option.splits)

lemma planDiffPR_ok:
  "\<not> faults (pl_db p) OpQueryCache \<Longrightarrow> planDiffPR p q = Some (pr_changes p q, UpsertOp (q_Number q) (pr_row q))"
  by (auto simp: planDiffPR_def QueryIssueCache_def pr_changes_def cached_row_def pr_row_def Let_def split: option.splits)

lemma planDiff_fail:
  "faults (pl_db p) OpQueryCache \<Longrightarrow> planDiffIssue p i = None"
  "faults (pl_db p) OpQueryCache \<Longrightarrow> planDiffPR p q = None"
  by (simp_all add: planDiffIssue_def planDiffPR_def QueryIssueCache_def)

lemma collectIssues_alive:
  assumes "pl_ctx p = None"
  shows "collectIssues is pn p = (p, if is \<noteq> [] \<and> faults (pl_db p) OpQueryCache then None
    else Some (pn\<lparr>pn_pending := pn_pending pn @ concat (map (issue_changes p) is),
      pn_ops := pn_ops pn @ map (\<lambda>i. UpsertOp (i_Number i) (issue_row i)) is,
      pn_resync := pn_resync pn @ filter (\<lambda>i. cached_row p (i_Number i) \<noteq> None \<and> i_Labels i \<noteq> []) is,
      pn_first := pn_first pn @ map i_Number (filter (\<lambda>i. cached_row p (i_Number i) = None \<and> i_Labels i \<noteq> []) is)\<rparr>))"
proof (induction "is" arbitrary: pn)
  case (Cons i "is")
  then show ?case using assms by (simp add: planDiffIssue_ok planDiff_fail)
qed simp

lemma collectPRs_alive:
  assumes "pl_ctx p = None"
  shows "collectPRs qs pn p = (p, if qs \<noteq> [] \<and> faults (pl_db p) OpQueryCache then None
    else Some (pn\<lparr>pn_pending := pn_pending pn @ concat (map (pr_changes p) qs),
      pn_ops := pn_ops pn @ map (\<lambda>q. UpsertOp (q_Number q) (pr_row q)) qs\<rparr>))"
proof (induction qs arbitrary: pn)
  case (Cons q qs)
  then show ?case using assms by (simp add: planDiffPR_ok planDiff_fail)
qed simp

lemma closeMissing_alive:
  assumes "pl_ctx p = None"
  shows "closeMissing nums ns pn p = (p, Some (pn\<lparr>pn_pending := pn_pending pn @
      map (\<lambda>n. plain_event (pl_repo p) EventIssueClosed n ''issue no longer in open issues list'') (filter (\<lambda>n. n \<notin> set nums) ns),
    pn_ops := pn_ops pn @ map CloseOp (filter (\<lambda>n. n \<notin> set nums) ns)\<rparr>))"
proof (induction ns arbitrary: pn)
  case (Cons n ns)
  then show ?case using assms by simp
qed simp

lemma run_op_alive: "pl_ctx (run_op op p) = pl_ctx p" "pl_repo (run_op op p) = pl_repo p"
  "pl_events (run_op op p) = pl_events p" "pl_backoff (run_op op p) = pl_backoff p"
  by (simp_all add: run_op_def split: cache_op.splits prod.splits sum.splits)

lemma runOps_alive: "pl_ctx p = None \<Longrightarrow> runOps ops p = (fold run_op ops p, True)"
  by (induction ops arbitrary: p) (simp_all add: run_op_alive)

lemma emitAll_alive: "pl_ctx p = None \<Longrightarrow> emitAll evs p = (p\<lparr>pl_events := pl_events p @ evs\<rparr>, True)"
  by (induction evs arbitrary: p) (simp_all add: emit_def)

lemma fold_run_op: "pl_ctx (fold run_op ops p) = pl_ctx p" "pl_repo (fold run_op ops p) = pl_repo p"
  "pl_events (fold run_op ops p) = pl_events p" "pl_backoff (fold run_op ops p) = pl_backoff p"
  by (induction ops arbitrary: p) (simp_all add: run_op_alive)

definition reads_ok :: "Issue list \<Rightarrow> PR list \<Rightarrow> Poller \<Rightarrow> bool" where
  "reads_ok is qs p \<longleftrightarrow> (is \<noteq> [] \<or> qs \<noteq> [] \<longrightarrow> \<not> faults (pl_db p) OpQueryCache) \<and>
     (length is < ghListLimit \<longrightarrow> \<not> faults (pl_db p) OpListCaches)"

definition cycle_done :: "Poller \<Rightarrow> ChangeEvent" where
  "cycle_done p = plain_event (pl_repo p) EventPollCycleDone 0 []"

definition untouched :: "Poller \<Rightarrow> Poller \<Rightarrow> bool" where
  "untouched p p' \<longleftrightarrow> pl_db p' = pl_db p \<and> pl_events p' = pl_events p \<and> pl_lastResyncAt p' = pl_lastResyncAt p"

lemma resync_due_due:
  "filter (resync_due p) (filter (\<lambda>i. cached_row p (i_Number i) \<noteq> None \<and> i_Labels i \<noteq> []) is) = due_resyncs is p"
  by (simp add: due_resyncs_def conj_ac cong: filter_cong)

lemma collectClosed_alive:
  assumes "pl_ctx p = None"
  shows "collectClosed is qs pn p = (p, if length is < ghListLimit \<and> faults (pl_db p) OpListCaches then None
    else Some (pn\<lparr>pn_pending := pn_pending pn @
        map (\<lambda>n. plain_event (pl_repo p) EventIssueClosed n ''issue no longer in open issues list'') (closed_nums is qs p),
      pn_ops := pn_ops pn @ map CloseOp (closed_nums is qs p)\<rparr>))"
  using closeMissing_alive [OF assms] by (auto simp: collectClosed_def closed_nums_def ListCachedIssueNums_def)

lemma commit_alive:
  assumes "pl_ctx p = None"
  shows "commit pn p = (fold run_op (pn_ops pn) p)\<lparr>pl_events := pl_events p @ pn_pending pn @ [cycle_done p]\<rparr>"
  using assms by (simp add: commit_def runOps_alive emitAll_alive fold_run_op emit_def cycle_done_def)

lemma poll_alive:
  assumes "pl_ctx p = None" "reads_ok is qs p"
  shows "poll False (Inr is) (Inr qs) p = (fold run_op (row_ops is qs p @ gate_ops is p) (ResetBackoff p))
    \<lparr>pl_events := pl_events p @ changes is qs p @ resyncs is p @ [cycle_done p]\<rparr>"
proof -
  have "\<not> (is \<noteq> [] \<and> faults (pl_db p) OpQueryCache)" "\<not> (qs \<noteq> [] \<and> faults (pl_db p) OpQueryCache)"
    "\<not> (length is < ghListLimit \<and> faults (pl_db p) OpListCaches)"
    using assms(2) by (auto simp: reads_ok_def)
  note reads = this [THEN if_not_P]
  show ?thesis
    unfolding poll_def if_False sum.case prod.case option.case
      collectIssues_alive [OF assms(1), of "is", unfolded reads(1)] collectPRs_alive [OF assms(1), of qs, unfolded reads(2)]
      collectClosed_alive [OF assms(1), of "is" qs, unfolded reads(3)]
    using assms(1) resync_due_due [of p "is"]
    by (simp add: commit_alive scheduleResync_def Let_def empty_plan_def ResetBackoff_def row_ops_def gate_ops_def
        changes_def resyncs_def cycle_done_def comp_def)
qed

lemma list_failed_untouched: "untouched p (list_failed scope e p)"
  by (simp add: untouched_def list_failed_def applyBackoff_def logRateLimitEvent_def Let_def)

lemma poll_aborted:
  assumes "pl_ctx p = None" "\<not> reads_ok is qs p"
  shows "poll False (Inr is) (Inr qs) p = p"
  using assms by (auto simp: poll_def reads_ok_def collectIssues_alive collectPRs_alive collectClosed_alive)

lemma poll_list_failed:
  assumes "pl_ctx p = None" "tripped \<or> isl issues \<or> isl prs"
  shows "untouched p (poll tripped issues prs p)"
  using assms list_failed_untouched
  by (auto simp: poll_def collectIssues_alive untouched_def split: sum.splits)

text \<open>C32. A poll cycle is all or nothing. When a listing fails, a cache query fails or the
  failpoint trips, the cache, the database and the resync times are as before and no event is
  sent, so the next cycle sees the same differences again. Otherwise exactly these events are
  sent, in this order: one per new issue, added label, removed label, new pull request, changed
  pull request and closed issue, one per resync that is due, and last the end-of-cycle event.\<close>

theorem poll_all_or_nothing:
  assumes "pl_ctx p = None"
  shows "(tripped \<or> isl issues \<or> isl prs \<longrightarrow> untouched p (poll tripped issues prs p)) \<and>
    (\<not> reads_ok is qs p \<longrightarrow> untouched p (poll False (Inr is) (Inr qs) p)) \<and>
    (reads_ok is qs p \<longrightarrow>
       pl_events (poll False (Inr is) (Inr qs) p) = pl_events p @ changes is qs p @ resyncs is p @ [cycle_done p] \<and>
       pl_backoff (poll False (Inr is) (Inr qs) p) = 0)"
  using poll_list_failed [OF assms] poll_aborted [OF assms] poll_alive [OF assms]
  by (simp add: untouched_def fold_run_op ResetBackoff_def)

definition demo_issue :: "int \<Rightarrow> string list \<Rightarrow> Issue" where
  "demo_issue n ls = \<lparr>i_Number = n, i_Title = ''title'', i_State = ''OPEN'', i_Labels = ls, i_Body = [], i_Author = ''a''\<rparr>"

definition demo_pr :: PR where
  "demo_pr = \<lparr>q_Number = 9, q_URL = [], q_Branch = ''workbuddy/issue-7'', q_State = ''OPEN''\<rparr>"

definition demo_poller :: Poller where
  "demo_poller = NewPoller empty_store ''o/r'' 0"

theorem poll_all_or_nothing_witness:
  "untouched demo_poller (poll False (Inr [demo_issue 7 [''workbuddy'']]) (Inl ''HTTP 502'') demo_poller) \<and>
   pl_events (poll False (Inr [demo_issue 7 [''workbuddy'']]) (Inr [demo_pr]) demo_poller) =
     [issue_event ''o/r'' EventIssueCreated (demo_issue 7 [''workbuddy'']) ''title'',
      plain_event ''o/r'' EventPRCreated 9 ''workbuddy/issue-7'', plain_event ''o/r'' EventPollCycleDone 0 []]"
proof -
  have "pl_ctx demo_poller = None" by (simp add: demo_poller_def NewPoller_def)
  note spec = poll_all_or_nothing [OF this]
  have "reads_ok [demo_issue 7 [''workbuddy'']] [demo_pr] demo_poller" by code_simp
  moreover have "pl_events demo_poller @ changes [demo_issue 7 [''workbuddy'']] [demo_pr] demo_poller @
      resyncs [demo_issue 7 [''workbuddy'']] demo_poller @ [cycle_done demo_poller] =
     [issue_event ''o/r'' EventIssueCreated (demo_issue 7 [''workbuddy'']) ''title'',
      plain_event ''o/r'' EventPRCreated 9 ''workbuddy/issue-7'', plain_event ''o/r'' EventPollCycleDone 0 []]"
    by code_simp
  ultimately show ?thesis using spec by simp
qed

section \<open>The cache after a cycle\<close>

type_synonym row_view = "labels_text \<times> string \<times> string"

definition view_row :: "IssueCache \<Rightarrow> row_view" where
  "view_row ic = (ic_Labels ic, ic_Body ic, ic_State ic)"

definition row_of :: "Poller \<Rightarrow> int \<Rightarrow> row_view option" where
  "row_of p n = map_option view_row (map_of (issue_cache (pl_db p)) (pl_repo p, n))"

primrec op_num :: "cache_op \<Rightarrow> int option" where
  "op_num (UpsertOp n ic) = Some n"
| "op_num (CloseOp n) = Some n"
| "op_num (ResyncOp n t) = None"

primrec op_row :: "cache_op \<Rightarrow> row_view option" where
  "op_row (UpsertOp n ic) = Some (view_row ic)"
| "op_row (CloseOp n) = None"
| "op_row (ResyncOp n t) = None"

lemma newRootTraceID_frame: "issue_cache (fst (newRootTraceID s)) = issue_cache s" "faults (fst (newRootTraceID s)) = faults s"
  by (auto simp: newRootTraceID_def generateClaimToken_def split: option.splits prod.splits sum.splits)

lemma UpsertIssueCache_row:
  assumes "\<not> faults s OpUpsertCache"
  shows "map_option view_row (map_of (issue_cache (fst (UpsertIssueCache repo n ic s))) k) =
      (if k = (repo, n) then Some (view_row ic) else map_option view_row (map_of (issue_cache s) k))"
    and "faults (fst (UpsertIssueCache repo n ic s)) = faults s"
    and "tbl_keys_distinct (issue_cache s) \<Longrightarrow> tbl_keys_distinct (issue_cache (fst (UpsertIssueCache repo n ic s)))"
  using assms newRootTraceID_frame [of s]
  by (auto simp: UpsertIssueCache_def Let_def view_row_def split: prod.splits option.splits if_splits)

lemma run_op_faults: "no_faults (pl_db p) \<Longrightarrow> no_faults (pl_db (run_op op p))"
  using UpsertIssueCache_row(2) [of "pl_db p"]
  by (auto simp: run_op_def no_faults_def DeleteIssueCache_def ClearIssuePipelineHazard_def split: cache_op.splits)

lemma run_op_distinct:
  "no_faults (pl_db p) \<Longrightarrow> tbl_keys_distinct (issue_cache (pl_db p)) \<Longrightarrow> tbl_keys_distinct (issue_cache (pl_db (run_op op p)))"
  using UpsertIssueCache_row(3) [of "pl_db p"]
  by (auto simp: run_op_def no_faults_def DeleteIssueCache_def ClearIssuePipelineHazard_def split: cache_op.splits)

lemma run_op_row:
  assumes "no_faults (pl_db p)"
  shows "row_of (run_op op p) n = (if op_num op = Some n then op_row op else row_of p n)"
proof -
  have f: "\<not> faults (pl_db p) OpUpsertCache" using assms by (simp add: no_faults_def)
  show ?thesis using assms UpsertIssueCache_row(1) [OF f]
    by (cases op) (auto simp: run_op_def row_of_def no_faults_def DeleteIssueCache_def ClearIssuePipelineHazard_def delete_conv')
qed

lemma run_ops_inv:
  assumes "no_faults (pl_db p)" "tbl_keys_distinct (issue_cache (pl_db p))"
  shows "no_faults (pl_db (fold run_op ops p)) \<and> tbl_keys_distinct (issue_cache (pl_db (fold run_op ops p)))"
  using assms by (induction ops arbitrary: p) (simp_all add: run_op_faults run_op_distinct)

text \<open>A number that all its operations agree on ends up with the row they say; a number without
  operations keeps its row.\<close>

lemma run_ops_row:
  assumes "no_faults (pl_db p)" "\<forall>op \<in> set ops. op_num op = Some n \<longrightarrow> op_row op = r"
  shows "row_of (fold run_op ops p) n = (if \<exists>op \<in> set ops. op_num op = Some n then r else row_of p n)"
  using assms
proof (induction ops arbitrary: p)
  case (Cons op ops)
  then show ?case using run_op_row [of p op n] run_op_faults [of p op] by auto
qed simp

definition reflects :: "Issue list \<Rightarrow> PR list \<Rightarrow> Poller \<Rightarrow> bool" where
  "reflects is qs p \<longleftrightarrow>
     (\<forall>i \<in> set is. row_of p (i_Number i) = Some (labelsToJSON (i_Labels i), i_Body i, map lower_char (i_State i))) \<and>
     (\<forall>q \<in> set qs. row_of p (q_Number q) = Some (JBad [], [], ''pr:'' @ map lower_char (q_State q))) \<and>
     closed_nums is qs p = []"

definition numbers_distinct :: "Issue list \<Rightarrow> PR list \<Rightarrow> bool" where
  "numbers_distinct is qs \<longleftrightarrow> distinct (map i_Number is @ map q_Number qs)"

lemma closed_nums_iff:
  assumes "tbl_keys_distinct (issue_cache (pl_db p))"
  shows "n \<in> set (closed_nums is qs p) \<longleftrightarrow> length is < ghListLimit \<and> n \<notin> i_Number ` set is \<union> q_Number ` set qs \<and>
    (\<exists>l b st. row_of p n = Some (l, b, st) \<and> \<not> is_pr_state st)"
proof -
  have "(\<exists>l b st. row_of p n = Some (l, b, st) \<and> \<not> is_pr_state st) \<longleftrightarrow>
      (\<exists>ic. ((pl_repo p, n), ic) \<in> set (issue_cache (pl_db p)) \<and> \<not> is_pr_state (ic_State ic))"
    using assms by (auto simp: row_of_def view_row_def tbl_keys_distinct_def)
  then show ?thesis by (auto simp: closed_nums_def image_iff)
qed

lemma op_cases:
  assumes "op \<in> set (row_ops is qs p @ gate_ops is p)" "op_num op = Some n"
  obtains i where "i \<in> set is" "i_Number i = n" "op = UpsertOp n (issue_row i)"
  | q where "q \<in> set qs" "q_Number q = n" "op = UpsertOp n (pr_row q)"
  | "op = CloseOp n" "n \<in> set (closed_nums is qs p)"
  using assms by (auto simp: row_ops_def gate_ops_def)

lemma closed_nums_out: "n \<in> set (closed_nums is qs p) \<Longrightarrow> n \<notin> i_Number ` set is \<and> n \<notin> q_Number ` set qs"
  by (auto simp: closed_nums_def split: if_splits)

lemma numbers_distinctD:
  assumes "numbers_distinct is qs"
  shows "i \<in> set is \<Longrightarrow> j \<in> set is \<Longrightarrow> i_Number i = i_Number j \<Longrightarrow> i = j"
    and "q \<in> set qs \<Longrightarrow> r \<in> set qs \<Longrightarrow> q_Number q = q_Number r \<Longrightarrow> q = r"
    and "i \<in> set is \<Longrightarrow> q \<in> set qs \<Longrightarrow> i_Number i \<noteq> q_Number q"
  using assms by (auto simp: numbers_distinct_def distinct_map dest: inj_onD)

lemma op_row_issue:
  assumes "numbers_distinct is qs" "i \<in> set is" "op \<in> set (row_ops is qs p @ gate_ops is p)" "op_num op = Some (i_Number i)"
  shows "op_row op = Some (view_row (issue_row i))"
  using assms(3,4)
proof (cases rule: op_cases)
  case (1 j)
  then show ?thesis using numbers_distinctD(1) [OF assms(1,2), of j] by simp
next
  case (2 q)
  then show ?thesis using numbers_distinctD(3) [OF assms(1,2), of q] by simp
next
  case 3
  then show ?thesis using closed_nums_out [of "i_Number i"] assms(2) by auto
qed

lemma op_row_pr:
  assumes "numbers_distinct is qs" "q \<in> set qs" "op \<in> set (row_ops is qs p @ gate_ops is p)" "op_num op = Some (q_Number q)"
  shows "op_row op = Some (view_row (pr_row q))"
  using assms(3,4)
proof (cases rule: op_cases)
  case (1 j)
  then show ?thesis using numbers_distinctD(3) [OF assms(1) _ assms(2), of j] by simp
next
  case (2 r)
  then show ?thesis using numbers_distinctD(2) [OF assms(1,2), of r] by simp
next
  case 3
  then show ?thesis using closed_nums_out [of "q_Number q" "is" qs p] assms(2) by simp
qed

lemma ops_reflect:
  assumes "no_faults (pl_db p)" "tbl_keys_distinct (issue_cache (pl_db p))" "numbers_distinct is qs"
  shows "reflects is qs (fold run_op (row_ops is qs p @ gate_ops is p) p)"
proof -
  let ?ops = "row_ops is qs p @ gate_ops is p" and ?p = "fold run_op (row_ops is qs p @ gate_ops is p) p"
  have by_op: "row_of ?p n = r" if "\<And>op. op \<in> set ?ops \<Longrightarrow> op_num op = Some n \<Longrightarrow> op_row op = r"
    "UpsertOp n ic \<in> set ?ops" for n r ic
  proof -
    have "\<exists>op \<in> set ?ops. op_num op = Some n" using that(2) by (intro bexI [of _ "UpsertOp n ic"]) simp_all
    then show ?thesis using run_ops_row [OF assms(1), of ?ops n r] that(1) by simp
  qed
  have "row_of ?p (i_Number i) = Some (view_row (issue_row i))" if "i \<in> set is" for i
    using op_row_issue [OF assms(3) that] that by (intro by_op [of _ _ "issue_row i"]) (auto simp: row_ops_def)
  moreover have "row_of ?p (q_Number q) = Some (view_row (pr_row q))" if "q \<in> set qs" for q
    using op_row_pr [OF assms(3) that] that by (intro by_op [of _ _ "pr_row q"]) (auto simp: row_ops_def)
  moreover have "n \<notin> set (closed_nums is qs ?p)" for n
  proof
    assume n: "n \<in> set (closed_nums is qs ?p)"
    have out: "length is < ghListLimit" "n \<notin> i_Number ` set is \<union> q_Number ` set qs"
      and row: "\<exists>l b st. row_of ?p n = Some (l, b, st) \<and> \<not> is_pr_state st"
      using n unfolding closed_nums_iff [OF run_ops_inv [OF assms(1,2), THEN conjunct2]] by blast+
    have "\<forall>op \<in> set ?ops. op_num op = Some n \<longrightarrow> op_row op = None"
      using out(2) by (auto simp: row_ops_def gate_ops_def)
    from run_ops_row [OF assms(1) this] row have eq: "row_of ?p n = row_of p n"
      and "\<not> (\<exists>op \<in> set ?ops. op_num op = Some n)" by (auto split: if_splits)
    then have "n \<notin> set (closed_nums is qs p)" by (force simp: row_ops_def)
    then show False using closed_nums_iff [OF assms(2)] out row eq by auto
  qed
  ultimately show ?thesis
    using last_in_set by (auto simp: reflects_def view_row_def issue_row_def pr_row_def)
qed

lemma reflects_quiet:
  assumes "reflects is qs p"
  shows "changes is qs p = []"
proof -
  have "issue_changes p i = []" if "i \<in> set is" for i
    using assms that
    by (auto simp: reflects_def issue_changes_def row_of_def cached_row_def view_row_def scan_cache_def labelsToJSON_def labelsFromJSON_def)
  moreover have "pr_changes p q = []" if "q \<in> set qs" for q
    using assms that
    by (auto simp: reflects_def pr_changes_def row_of_def cached_row_def view_row_def scan_cache_def)
  ultimately show ?thesis using assms by (simp add: changes_def reflects_def)
qed

lemma reflects_cache:
  "reflects is qs p \<Longrightarrow> issue_cache (pl_db p') = issue_cache (pl_db p) \<Longrightarrow> pl_repo p' = pl_repo p \<Longrightarrow> reflects is qs p'"
proof -
  assume eq: "issue_cache (pl_db p') = issue_cache (pl_db p)" "pl_repo p' = pl_repo p"
  then have "row_of p' = row_of p" "closed_nums is qs p' = closed_nums is qs p"
    by (simp_all add: row_of_def closed_nums_def fun_eq_iff)
  then show "reflects is qs p \<Longrightarrow> reflects is qs p'" by (simp add: reflects_def)
qed

lemma closed_nums_frame [simp]: "closed_nums is qs (ResetBackoff p) = closed_nums is qs p" "gate_ops is (ResetBackoff p) = gate_ops is p"
  "row_ops is qs (ResetBackoff p) = row_ops is qs p"
  by (simp_all add: closed_nums_def ResetBackoff_def gate_ops_def row_ops_def due_resyncs_def cached_row_def resync_due_def cong: filter_cong option.case_cong)

lemma poll_reflects:
  assumes "pl_ctx p = None" "no_faults (pl_db p)" "tbl_keys_distinct (issue_cache (pl_db p))" "numbers_distinct is qs"
  shows "reflects is qs (poll False (Inr is) (Inr qs) p)"
proof -
  have "reads_ok is qs p" using assms(2) by (simp add: reads_ok_def no_faults_def)
  moreover have "reflects is qs (fold run_op (row_ops is qs p @ gate_ops is p) (ResetBackoff p))"
    using ops_reflect [of "ResetBackoff p" "is" qs] assms(2-4) unfolding closed_nums_frame by (simp add: ResetBackoff_def)
  ultimately show ?thesis
    using poll_alive [OF assms(1)] by (auto elim!: reflects_cache)
qed

lemma poll_no_faults:
  assumes "pl_ctx p = None" "no_faults (pl_db p)" "tbl_keys_distinct (issue_cache (pl_db p))"
  shows "no_faults (pl_db (poll False (Inr is) (Inr qs) p))"
  using run_ops_inv [of "ResetBackoff p" "row_ops is qs p @ gate_ops is p"] assms poll_alive [OF assms(1), of "is" qs]
  by (simp add: reads_ok_def no_faults_def ResetBackoff_def)

text \<open>A committed cycle leaves the cache equal to what it saw: every listed issue and pull
  request has a row with its labels, body and state, and no other open issue is left. Hence,
  as long as the cache is not written by anyone else, a later cycle over the same lists reports
  no change: nothing is reported twice, only resyncs that have become due.\<close>

theorem poll_settles:
  assumes "pl_ctx p = None" "no_faults (pl_db p)" "tbl_keys_distinct (issue_cache (pl_db p))" "numbers_distinct is qs"
    and "issue_cache (pl_db p') = issue_cache (pl_db (poll False (Inr is) (Inr qs) p))"
    and "pl_repo p' = pl_repo p" "pl_ctx p' = None" "no_faults (pl_db p')"
  shows "reflects is qs (poll False (Inr is) (Inr qs) p) \<and>
    pl_events (poll False (Inr is) (Inr qs) p') = pl_events p' @ resyncs is p' @ [cycle_done p']"
proof -
  have ok: "reads_ok is qs p" "reads_ok is qs p'" using assms(2,8) by (simp_all add: reads_ok_def no_faults_def)
  have r: "reflects is qs (poll False (Inr is) (Inr qs) p)" using poll_reflects assms(1-4) .
  have "pl_repo (poll False (Inr is) (Inr qs) p) = pl_repo p"
    using poll_alive [OF assms(1) ok(1)] by (simp add: fold_run_op ResetBackoff_def)
  then have "reflects is qs p'" using reflects_cache [OF r assms(5)] assms(6) by simp
  then show ?thesis using r poll_alive [OF assms(7) ok(2)] by (simp add: reflects_quiet)
qed

theorem poll_settles_witness:
  "let i = demo_issue 7 [''workbuddy'', ''status:developing'']; p' = poll False (Inr [i]) (Inr [demo_pr]) demo_poller
   in reflects [i] [demo_pr] p' \<and>
      pl_events (poll False (Inr [i]) (Inr [demo_pr]) p') = pl_events p' @ [cycle_done p']"
proof -
  let ?i = "demo_issue 7 [''workbuddy'', ''status:developing'']"
  let ?p = "poll False (Inr [?i]) (Inr [demo_pr]) demo_poller"
  have "numbers_distinct [?i] [demo_pr]" by code_simp
  moreover have "pl_ctx demo_poller = None" "no_faults (pl_db demo_poller)" "tbl_keys_distinct (issue_cache (pl_db demo_poller))"
    by (simp_all add: demo_poller_def NewPoller_def no_faults_def empty_store_def tbl_keys_distinct_def)
  moreover from this have "no_faults (pl_db ?p)" using poll_no_faults by blast
  moreover have "resyncs [?i] ?p = []" "pl_repo ?p = pl_repo demo_poller" "pl_ctx ?p = None" by code_simp+
  ultimately show ?thesis using poll_settles [of demo_poller "[?i]" "[demo_pr]" ?p] by (simp add: Let_def)
qed

section \<open>Backoff\<close>

text \<open>Collecting changes nothing but the number of looks at the context.\<close>

definition sans_ctx :: "Poller \<Rightarrow> Poller" where
  "sans_ctx p = p\<lparr>pl_ctx := None\<rparr>"

lemma ctx_err_frame: "ctx_err p = (p1, b) \<Longrightarrow> sans_ctx p1 = sans_ctx p"
  by (auto simp: ctx_err_def sans_ctx_def split: option.splits nat.splits)

lemma collect_frame:
  "sans_ctx (fst (collectIssues is pn p)) = sans_ctx p" "sans_ctx (fst (collectPRs qs pn p)) = sans_ctx p"
  "sans_ctx (fst (closeMissing nums ns pn p)) = sans_ctx p"
proof -
  show "sans_ctx (fst (collectIssues is pn p)) = sans_ctx p"
    by (induction "is" arbitrary: pn p) (auto split: prod.splits bool.splits option.splits dest!: ctx_err_frame)
  show "sans_ctx (fst (collectPRs qs pn p)) = sans_ctx p"
    by (induction qs arbitrary: pn p) (auto split: prod.splits bool.splits option.splits dest!: ctx_err_frame)
  show "sans_ctx (fst (closeMissing nums ns pn p)) = sans_ctx p"
    by (induction ns arbitrary: pn p) (auto split: prod.splits bool.splits option.splits dest!: ctx_err_frame)
qed

lemma collectClosed_frame: "sans_ctx (fst (collectClosed is qs pn p)) = sans_ctx p"
  by (simp add: collectClosed_def collect_frame split: sum.splits)

definition timing :: "Poller \<Rightarrow> duration \<times> duration \<times> duration" where
  "timing p = (pl_backoff p, pl_maxBackoff p, pl_interval p)"

lemma timing_sans_ctx [simp]: "timing (sans_ctx p) = timing p"
  by (simp add: timing_def sans_ctx_def)

lemma timing_ctx_err: "ctx_err p = (p1, b) \<Longrightarrow> timing p1 = timing p"
  by (metis ctx_err_frame timing_sans_ctx)

lemma timing_run_op [simp]: "timing (run_op op p) = timing p"
  by (simp add: timing_def run_op_def split: cache_op.splits prod.splits sum.splits)

lemma timing_emit [simp]: "timing (emit ev p) = timing p"
proof -
  have "timing (p1\<lparr>pl_events := es\<rparr>) = timing p1" for p1 es by (simp add: timing_def)
  then show ?thesis by (auto simp: emit_def split: prod.splits bool.splits dest!: timing_ctx_err)
qed

lemma timing_commit: "timing (commit pn p) = timing p"
proof -
  have "timing (fst (runOps ops p)) = timing p" for ops p
    by (induction ops arbitrary: p) (auto split: prod.splits bool.splits dest!: timing_ctx_err)
  moreover have "timing (fst (emitAll evs p)) = timing p" for evs p
    by (induction evs arbitrary: p) (auto split: prod.splits bool.splits dest!: timing_ctx_err)
  ultimately show ?thesis by (simp add: commit_def split: prod.splits bool.splits) (metis fst_conv)
qed

lemma poll_timing:
  assumes "pl_backoff p = 0" "60 * second \<le> pl_maxBackoff p"
  shows "timing (poll tripped issues prs p) \<in> {timing p, (60 * second, pl_maxBackoff p, pl_interval p)}"
proof -
  have failed: "timing (list_failed scope e q) \<in> {timing q, (60 * second, pl_maxBackoff p, pl_interval p)}"
    if "sans_ctx q = sans_ctx p" for scope e q
  proof -
    have "timing q = timing p" using that by (metis timing_sans_ctx)
    then show ?thesis using assms
      by (auto simp: list_failed_def applyBackoff_def logRateLimitEvent_def timing_def Let_def second_def)
  qed
  have reset: "timing (commit pn (ResetBackoff q)) = timing p" if "sans_ctx q = sans_ctx p" for pn q
    using that assms(1) timing_sans_ctx [of q] timing_sans_ctx [of p]
    by (simp add: timing_commit) (simp add: timing_def ResetBackoff_def)
  have fst_eq: "sans_ctx q = sans_ctx r" if "f = (q, z)" "sans_ctx (fst f) = sans_ctx r" for f q r and z :: "plan option"
    using that by simp
  show ?thesis
    unfolding poll_def
    using failed reset collect_frame collectClosed_frame
    by (auto split: sum.splits prod.splits option.splits dest!: fst_eq [OF _ collect_frame(1)] fst_eq [OF _ collect_frame(2)]
        fst_eq [OF _ collectClosed_frame]) (metis timing_sans_ctx)+
qed

definition timing_ok :: "Poller \<Rightarrow> bool" where
  "timing_ok p \<longleftrightarrow> 0 \<le> pl_backoff p \<and> pl_backoff p \<le> 60 * second \<and> 60 * second \<le> pl_maxBackoff p \<and> 0 \<le> pl_interval p"

lemma timing_okI: "timing p' \<in> {timing p, (60 * second, pl_maxBackoff p, pl_interval p)} \<Longrightarrow> timing_ok p \<Longrightarrow> timing_ok p'"
  by (auto simp: timing_ok_def timing_def second_def)

lemma poll_timing_ok: "timing_ok p \<Longrightarrow> pl_backoff p = 0 \<Longrightarrow> timing_ok (poll tripped issues prs p)"
  using poll_timing [of p tripped issues prs] timing_okI [of "poll tripped issues prs p" p] by (simp add: timing_ok_def)

lemma run_tick_timing_ok: "timing_ok p \<Longrightarrow> timing_ok (run_tick tripped issues prs p)"
  using poll_timing_ok [of p] by (auto simp: run_tick_def timing_ok_def Let_def)

lemma runLoop_timing_ok: "timing_ok p \<Longrightarrow> timing_ok (runLoop as p)"
proof (induction "as" p rule: runLoop.induct)
  case (2 tripped issues prs d "as" p)
  have "timing_ok (p\<lparr>pl_db := d\<rparr>)" using 2(2) by (simp add: timing_ok_def)
  then show ?case using 2(1) run_tick_timing_ok by simp
qed simp

text \<open>C40. Whatever GitHub answers, the backoff of a running poller stays between zero and one
  minute: a poll only happens when the backoff has run down, so a rate limit always starts it
  anew at one minute, and neither the doubling nor the maximum of fifteen minutes takes
  effect.\<close>

theorem backoff_one_minute:
  "let p' = Run first rest ((NewPoller st repo interval)\<lparr>pl_ctx := c\<rparr>)
   in 0 \<le> pl_backoff p' \<and> pl_backoff p' \<le> 60 * second \<and> pl_backoff p' < pl_maxBackoff (NewPoller st repo interval)"
proof -
  let ?p = "(NewPoller st repo interval)\<lparr>pl_ctx := c\<rparr>"
  obtain tripped issues prs d where first: "first = (tripped, issues, prs, d)" by (cases first) auto
  have "timing_ok (poll tripped issues prs (?p\<lparr>pl_db := d\<rparr>))"
    by (rule poll_timing_ok) (auto simp: timing_ok_def NewPoller_def second_def minute_def)
  then have "timing_ok (Run first rest ?p)" by (simp add: Run_def first runLoop_timing_ok)
  then show ?thesis by (simp add: Let_def timing_ok_def NewPoller_def minute_def second_def)
qed

end
