(* ===== verification/Cycles.thy ===== *)
theory Cycles
  imports Prelude
begin

text \<open>
  Cycle detection on the dependency graph (\<^verbatim>\<open>internal/dependency/dependency.go\<close>,
  \<^verbatim>\<open>detectCycles\<close>): a depth-first search with three colours and an explicit stack. The
  recursive closure \<^verbatim>\<open>visit\<close> and its loop over the successors are one function \<open>dfs\<close> on
  the list of successors still to look at; its termination measure is the number of white
  nodes, then the length of the list.

  Shown here: the search returns on every graph; every path it reports is a cycle of the
  graph through the node it is reported for; and on every cycle of the graph there is an
  edge whose two ends are reported, so no cycle goes unnoticed. Not every node of a cycle is
  reported (\<open>detectCycles_partial\<close>).
\<close>

section \<open>The search\<close>

datatype color = White | Gray | Black

type_synonym graph = "(int \<times> int list) list"

record dfs_state =
  colors :: "(int \<times> color) list"
  stack :: "int list"
  cyc :: "(int \<times> string list) list"

definition color_of :: "dfs_state \<Rightarrow> int \<Rightarrow> color" where
  "color_of st n = (case map_of (colors st) n of None \<Rightarrow> White | Some c \<Rightarrow> c)"

definition succs :: "graph \<Rightarrow> int \<Rightarrow> int list" where
  "succs g n = (case map_of g n of None \<Rightarrow> [] | Some ns \<Rightarrow> ns)"

fun index_of :: "int \<Rightarrow> int list \<Rightarrow> nat option" where
  "index_of t [] = None"
| "index_of t (n # ns) = (if n = t then Some 0 else map_option Suc (index_of t ns))"

definition extractCyclePath :: "int list \<Rightarrow> int \<Rightarrow> int list" where
  "extractCyclePath stk target =
     (let start = (case index_of target stk of None \<Rightarrow> 0 | Some i \<Rightarrow> i) in drop start stk @ [target])"

definition formatCycle :: "int list \<Rightarrow> string list" where
  "formatCycle path = map (\<lambda>n. ''#'' @ itoa n) path"

definition enter :: "int \<Rightarrow> dfs_state \<Rightarrow> dfs_state" where
  "enter n st = st\<lparr>colors := AList.update n Gray (colors st), stack := stack st @ [n]\<rparr>"

definition leave :: "int \<Rightarrow> dfs_state \<Rightarrow> dfs_state" where
  "leave n st = st\<lparr>stack := butlast (stack st), colors := AList.update n Black (colors st)\<rparr>"

definition report_cycle :: "int \<Rightarrow> dfs_state \<Rightarrow> dfs_state" where
  "report_cycle nxt st =
     (let path = extractCyclePath (stack st) nxt
      in st\<lparr>cyc := fold (\<lambda>n. AList.update n (formatCycle path)) path (cyc st)\<rparr>)"

function dfs :: "graph \<Rightarrow> int list \<Rightarrow> dfs_state \<Rightarrow> dfs_state" where
  "dfs g [] st = st"
| "dfs g (nxt # rest) st = dfs g rest
     (case color_of st nxt of
        White \<Rightarrow> leave nxt (dfs g (succs g nxt) (enter nxt st))
      | Gray \<Rightarrow> report_cycle nxt st
      | Black \<Rightarrow> st)"
  by pat_completeness auto

lemma color_of_simps [simp]:
  "color_of (enter n st) m = (if m = n then Gray else color_of st m)"
  "color_of (leave n st) m = (if m = n then Black else color_of st m)"
  "color_of (report_cycle n st) m = color_of st m"
  by (simp_all add: color_of_def enter_def leave_def report_cycle_def Let_def)

lemma stack_simps [simp]:
  "stack (enter n st) = stack st @ [n]" "stack (leave n st) = butlast (stack st)"
  "stack (report_cycle n st) = stack st"
  by (simp_all add: enter_def leave_def report_cycle_def Let_def)

text \<open>No node turns white again; this is needed before the search is known to return.\<close>

lemma dfs_seen_dom: "dfs_dom (g, xs, st) \<Longrightarrow> color_of st n \<noteq> White \<Longrightarrow> color_of (dfs g xs st) n \<noteq> White"
proof (induction g xs st rule: dfs.pinduct)
  case (2 g nxt rest st)
  then show ?case by (cases "color_of st nxt") (simp_all add: dfs.psimps)
qed (simp add: dfs.psimps)

definition graph_nodes :: "graph \<Rightarrow> int set" where
  "graph_nodes g = fst ` set g \<union> (\<Union>ns \<in> snd ` set g. set ns)"

lemma succs_nodes: "set (succs g n) \<subseteq> graph_nodes g"
proof
  fix m assume "m \<in> set (succs g n)"
  then obtain ns where "map_of g n = Some ns" "m \<in> set ns" by (cases "map_of g n") (auto simp: succs_def)
  then show "m \<in> graph_nodes g" by (force simp: graph_nodes_def dest: map_of_SomeD)
qed

definition whites :: "graph \<Rightarrow> int list \<Rightarrow> dfs_state \<Rightarrow> int set" where
  "whites g xs st = {n \<in> graph_nodes g \<union> set xs. color_of st n = White}"

lemma finite_whites [simp]: "finite (whites g xs st)"
  by (simp add: whites_def graph_nodes_def)

termination dfs
proof (relation "measures [\<lambda>(g, xs, st). card (whites g xs st), \<lambda>(g, xs, st). length xs]", goal_cases)
  case (2 g nxt rest st)
  have "whites g (succs g nxt) (enter nxt st) \<subset> whites g (nxt # rest) st"
    using 2 succs_nodes [of g nxt] by (auto simp: whites_def split: if_splits)
  then show ?case by (simp add: psubset_card_mono)
next
  case (3 g nxt rest st)
  let ?st = "case color_of st nxt of White \<Rightarrow> leave nxt (dfs g (succs g nxt) (enter nxt st))
      | Gray \<Rightarrow> report_cycle nxt st | Black \<Rightarrow> st"
  have "color_of ?st n \<noteq> White" if "color_of st n \<noteq> White" for n
    using that 3 dfs_seen_dom [of g "succs g nxt" "enter nxt st" n] by (simp split: color.split)
  then have "whites g rest ?st \<subseteq> whites g (nxt # rest) st" by (auto simp: whites_def)
  from card_mono [OF _ this] show ?case by auto
qed simp

definition visit :: "graph \<Rightarrow> int \<Rightarrow> dfs_state \<Rightarrow> dfs_state" where
  "visit g n st = leave n (dfs g (succs g n) (enter n st))"

definition visit_roots :: "graph \<Rightarrow> int list \<Rightarrow> dfs_state \<Rightarrow> dfs_state" where
  "visit_roots g = fold (\<lambda>n st. if color_of st n = White then visit g n st else st)"

text \<open>The map of nodes on a reported cycle to the formatted cycle, an association list.\<close>

definition detectCycles :: "graph \<Rightarrow> (int \<times> string list) list" where
  "detectCycles g = cyc (visit_roots g (sort (remdups (map fst g))) \<lparr>colors = [], stack = [], cyc = []\<rparr>)"


section \<open>What the search keeps\<close>

lemma dfs_gray [simp]: "stack (dfs g xs st) = stack st \<and> (color_of (dfs g xs st) n = Gray \<longleftrightarrow> color_of st n = Gray)"
proof (induction g xs st rule: dfs.induct)
  case (2 g nxt rest st)
  then show ?case
    by (cases "color_of st nxt") auto
qed simp

lemma dfs_black [simp]: "color_of st n = Black \<Longrightarrow> color_of (dfs g xs st) n = Black"
proof (induction g xs st rule: dfs.induct)
  case (2 g nxt rest st)
  then show ?case by (cases "color_of st nxt") simp_all
qed simp

definition flagged :: "dfs_state \<Rightarrow> int set" where
  "flagged st = dom (map_of (cyc st))"

lemma map_of_fold_update:
  "map_of (fold (\<lambda>n. AList.update n v) ns kvs) k = (if k \<in> set ns then Some v else map_of kvs k)"
  by (induction ns arbitrary: kvs) auto

lemma flagged_simps [simp]:
  "flagged (enter n st) = flagged st" "flagged (leave n st) = flagged st"
  "flagged (report_cycle n st) = set (extractCyclePath (stack st) n) \<union> flagged st"
  by (auto simp: flagged_def enter_def leave_def report_cycle_def Let_def map_of_fold_update split: if_splits)

lemma dfs_flagged: "flagged st \<subseteq> flagged (dfs g xs st)"
proof (induction g xs st rule: dfs.induct)
  case (2 g nxt rest st)
  then show ?case by (cases "color_of st nxt") auto
qed simp

section \<open>Reported paths are cycles\<close>

definition edge :: "graph \<Rightarrow> int \<Rightarrow> int \<Rightarrow> bool" where
  "edge g a b \<longleftrightarrow> b \<in> set (succs g a)"

definition is_cycle :: "graph \<Rightarrow> int list \<Rightarrow> bool" where
  "is_cycle g p \<longleftrightarrow> 2 \<le> length p \<and> hd p = last p \<and> successively (edge g) p"

definition cycles_real :: "graph \<Rightarrow> dfs_state \<Rightarrow> bool" where
  "cycles_real g st \<longleftrightarrow> (\<forall>n f. map_of (cyc st) n = Some f \<longrightarrow>
     (\<exists>p. is_cycle g p \<and> n \<in> set p \<and> f = formatCycle p))"

definition on_stack :: "dfs_state \<Rightarrow> bool" where
  "on_stack st \<longleftrightarrow> (\<forall>n. color_of st n = Gray \<longleftrightarrow> n \<in> set (stack st))"

definition on_path :: "graph \<Rightarrow> dfs_state \<Rightarrow> bool" where
  "on_path g st \<longleftrightarrow> successively (edge g) (stack st) \<and> on_stack st"

lemma index_of_Some: "t \<in> set ns \<Longrightarrow> \<exists>i. index_of t ns = Some i \<and> i < length ns \<and> ns ! i = t"
  by (induction ns) auto

lemma extractCyclePath_split:
  assumes "t \<in> set stk"
  obtains pre mid where "stk = pre @ t # mid" "extractCyclePath stk t = t # mid @ [t]"
proof -
  obtain i where i: "index_of t stk = Some i" "i < length stk" "stk ! i = t" using index_of_Some [OF assms] by auto
  then have "stk = take i stk @ t # drop (Suc i) stk" using id_take_nth_drop [of i stk] by simp
  moreover have "extractCyclePath stk t = t # drop (Suc i) stk @ [t]"
    using i Cons_nth_drop_Suc [of i stk] by (simp add: extractCyclePath_def)
  ultimately show thesis by (rule that)
qed

lemma report_cycle_real:
  assumes "on_path g st" "cycles_real g st" "color_of st n = Gray" "edge g (last (stack st)) n"
  shows "cycles_real g (report_cycle n st)"
proof -
  from assms(1,3) have "n \<in> set (stack st)" by (simp add: on_path_def on_stack_def)
  then obtain pre mid where sp: "stack st = pre @ n # mid" "extractCyclePath (stack st) n = n # mid @ [n]"
    by (rule extractCyclePath_split)
  have "successively (edge g) (n # mid)"
    using assms(1) sp(1) by (auto simp: on_path_def successively_append_iff)
  then have "successively (edge g) ((n # mid) @ [n])"
    using assms(4) sp(1) by (subst successively_append_iff) simp
  then have "is_cycle g (extractCyclePath (stack st) n)" by (simp add: is_cycle_def sp(2))
  with assms(2) show ?thesis
    by (auto simp: cycles_real_def report_cycle_def Let_def map_of_fold_update split: if_splits)
qed

lemma cycles_real_step [simp]:
  "cycles_real g (enter n st) = cycles_real g st" "cycles_real g (leave n st) = cycles_real g st"
  by (simp_all add: cycles_real_def enter_def leave_def)

lemma on_stack_step [simp]:
  "on_stack st \<Longrightarrow> on_stack (enter n st)" "on_stack (report_cycle n st) = on_stack st"
  "on_stack st \<Longrightarrow> on_stack (dfs g xs st)"
  by (auto simp: on_stack_def)

lemma on_stack_visit: "on_stack st \<Longrightarrow> color_of st n \<noteq> Gray \<Longrightarrow> on_stack (leave n (dfs g xs (enter n st)))"
  by (auto simp: on_stack_def)

lemma dfs_cycles_real:
  "on_path g st \<Longrightarrow> cycles_real g st \<Longrightarrow> \<forall>n \<in> set xs. edge g (last (stack st)) n \<Longrightarrow> cycles_real g (dfs g xs st)"
proof (induction g xs st rule: dfs.induct)
  case (2 g nxt rest st)
  let ?in = "dfs g (succs g nxt) (enter nxt st)"
  show ?case
  proof (cases "color_of st nxt")
    case White
    have "cycles_real g ?in"
      using 2 White by (intro 2(1)) (auto simp: on_path_def successively_append_iff edge_def)
    moreover have "on_path g (leave nxt ?in)"
      using 2(3) on_stack_visit [of st nxt g] by (simp add: on_path_def White)
    ultimately show ?thesis using 2 White by auto
  next
    case Gray
    have "on_path g (report_cycle nxt st)" using 2(3) by (simp add: on_path_def)
    then show ?thesis using 2 Gray report_cycle_real [of g st nxt] by auto
  qed (use 2 in auto)
qed simp

section \<open>No cycle goes unnoticed\<close>

text \<open>Finished nodes can be ranked so that every edge out of one either goes to a finished
  node of lower rank or joins two reported nodes.\<close>

definition ranked :: "graph \<Rightarrow> dfs_state \<Rightarrow> bool" where
  "ranked g st \<longleftrightarrow> (\<exists>f :: int \<Rightarrow> nat. \<forall>u w. color_of st u = Black \<longrightarrow> edge g u w \<longrightarrow>
     color_of st w = Black \<and> f w < f u \<or> u \<in> flagged st \<and> w \<in> flagged st)"

definition looked_at :: "int list \<Rightarrow> dfs_state \<Rightarrow> bool" where
  "looked_at xs st \<longleftrightarrow> (\<forall>w \<in> set xs. color_of st w = Black \<or> w \<in> flagged st \<and> last (stack st) \<in> flagged st)"

lemma ranked_frame:
  assumes "ranked g st" "\<And>n. color_of st' n = Black \<longleftrightarrow> color_of st n = Black" "flagged st \<subseteq> flagged st'"
  shows "ranked g st'"
  using assms(1) subsetD [OF assms(3)] unfolding ranked_def assms(2) by meson

lemma ranked_leave:
  assumes "ranked g st" "color_of st n = Gray" "\<forall>w. edge g n w \<longrightarrow> color_of st w = Black \<or> w \<in> flagged st \<and> n \<in> flagged st"
  shows "ranked g (leave n st)"
proof -
  obtain f :: "int \<Rightarrow> nat" where f: "\<And>u w. color_of st u = Black \<Longrightarrow> edge g u w \<Longrightarrow>
     color_of st w = Black \<and> f w < f u \<or> u \<in> flagged st \<and> w \<in> flagged st"
    using assms(1) unfolding ranked_def by blast
  let ?f = "f(n := Suc (sum_list (map f (succs g n))))"
  have "f w \<le> sum_list (map f (succs g n))" if "edge g n w" for w
    using that by (intro member_le_sum_list) (simp_all add: edge_def)
  then have "color_of (leave n st) u = Black \<longrightarrow> edge g u w \<longrightarrow>
     color_of (leave n st) w = Black \<and> ?f w < ?f u \<or> u \<in> flagged (leave n st) \<and> w \<in> flagged (leave n st)" for u w
    using f [of u w] assms(2,3) by (cases "u = n"; cases "w = n") (auto simp: less_Suc_eq_le)
  then show ?thesis unfolding ranked_def by blast
qed

lemma ranked_visit:
  assumes "ranked g (dfs g (succs g n) (enter n st))" "looked_at (succs g n) (dfs g (succs g n) (enter n st))"
  shows "ranked g (leave n (dfs g (succs g n) (enter n st)))"
  using assms by (intro ranked_leave) (auto simp: looked_at_def edge_def)

lemma dfs_ranked:
  "ranked g st \<Longrightarrow> on_stack st \<Longrightarrow> stack st \<noteq> [] \<Longrightarrow> ranked g (dfs g xs st) \<and> looked_at xs (dfs g xs st)"
proof (induction g xs st rule: dfs.induct)
  case (2 g nxt rest st)
  let ?in = "dfs g (succs g nxt) (enter nxt st)"
  let ?st = "case color_of st nxt of White \<Rightarrow> leave nxt ?in | Gray \<Rightarrow> report_cycle nxt st | Black \<Rightarrow> st"
  have step: "ranked g ?st \<and> on_stack ?st \<and> stack ?st \<noteq> [] \<and> looked_at [nxt] ?st"
  proof (cases "color_of st nxt")
    case White
    have "ranked g (enter nxt st)" using 2(3) by (rule ranked_frame) (auto simp: White)
    then have "ranked g ?in" "looked_at (succs g nxt) ?in" using 2(1) [OF White] 2(4) by simp_all
    then show ?thesis using ranked_visit 2(4,5) White by (simp add: looked_at_def on_stack_visit)
  next
    case Gray
    then have "nxt \<in> set (stack st)" using 2(4) by (simp add: on_stack_def)
    then obtain pre mid where "stack st = pre @ nxt # mid" "extractCyclePath (stack st) nxt = nxt # mid @ [nxt]"
      by (rule extractCyclePath_split)
    then have "looked_at [nxt] (report_cycle nxt st)" by (simp add: looked_at_def)
    moreover have "ranked g (report_cycle nxt st)" using 2(3) by (rule ranked_frame) auto
    ultimately show ?thesis using 2(4,5) Gray by simp
  next
    case Black
    then show ?thesis using 2 by (simp add: looked_at_def)
  qed
  then have "ranked g (dfs g rest ?st)" "looked_at rest (dfs g rest ?st)" using 2(2) by blast+
  moreover have "looked_at [nxt] (dfs g rest ?st)"
    using step dfs_flagged [of ?st g rest] unfolding looked_at_def by auto
  ultimately show ?case by (simp add: looked_at_def)
qed (simp add: looked_at_def)

section \<open>The whole search\<close>

lemma visit_roots_inv:
  assumes "ranked g st" "on_stack st" "stack st = []" "cycles_real g st"
  shows "let st' = visit_roots g ns st
    in ranked g st' \<and> on_stack st' \<and> stack st' = [] \<and> cycles_real g st' \<and>
       (\<forall>n. color_of st n = Black \<or> n \<in> set ns \<longrightarrow> color_of st' n = Black)"
  using assms
proof (induction ns arbitrary: st)
  case (Cons n ns)
  let ?st = "if color_of st n = White then visit g n st else st"
  let ?in = "dfs g (succs g n) (enter n st)"
  have no_gray: "color_of st m \<noteq> Gray" for m using Cons.prems by (simp add: on_stack_def)
  have "ranked g ?st \<and> on_stack ?st \<and> stack ?st = [] \<and> cycles_real g ?st \<and>
      (\<forall>m. color_of st m = Black \<or> m = n \<longrightarrow> color_of ?st m = Black)"
  proof (cases "color_of st n = White")
    case True
    have "ranked g (enter n st)" using Cons.prems(1) by (rule ranked_frame) (auto simp: True)
    then have "ranked g ?in \<and> looked_at (succs g n) ?in" using Cons.prems by (intro dfs_ranked) simp_all
    moreover have "cycles_real g ?in"
      using Cons.prems by (intro dfs_cycles_real) (auto simp: on_path_def edge_def)
    ultimately show ?thesis
      using Cons.prems ranked_visit [of g n st] True
      by (auto simp: visit_def on_stack_visit)
  next
    case False
    then show ?thesis using Cons.prems no_gray [of n] by (cases "color_of st n") auto
  qed
  with Cons.IH [of ?st] show ?case by (auto simp: visit_roots_def Let_def)
qed (simp add: visit_roots_def)

lemma detectCycles_final:
  obtains st where "detectCycles g = cyc st" "ranked g st" "cycles_real g st" "\<forall>n \<in> fst ` set g. color_of st n = Black"
proof -
  let ?st0 = "\<lparr>colors = [], stack = [], cyc = []\<rparr>"
  have "ranked g ?st0" "on_stack ?st0" "cycles_real g ?st0"
    by (simp_all add: ranked_def on_stack_def cycles_real_def color_of_def)
  from visit_roots_inv [OF this(1,2) _ this(3), of "sort (remdups (map fst g))"] show thesis
    by (intro that [of "visit_roots g (sort (remdups (map fst g))) ?st0"])
      (simp_all add: Let_def detectCycles_def)
qed

lemma ranked_descent:
  assumes "successively (edge g) (a # p)" "\<forall>u w. edge g u w \<longrightarrow> (f w :: nat) < f u \<or> u \<in> F \<and> w \<in> F"
    and "\<forall>(u, w) \<in> set (zip (a # p) p). \<not> (u \<in> F \<and> w \<in> F)"
  shows "p \<noteq> [] \<Longrightarrow> f (last p) < f a"
  using assms
proof (induction p arbitrary: a)
  case (Cons b p)
  then show ?case by (cases p) (fastforce simp: successively_Cons)+
qed simp

lemma cycle_successor: "is_cycle g p \<Longrightarrow> n \<in> set p \<Longrightarrow> \<exists>w. edge g n w"
proof -
  assume c: "is_cycle g p" and n: "n \<in> set p"
  then obtain i where i: "i < length p" "p ! i = n" by (auto simp: in_set_conv_nth)
  have step: "edge g (p ! j) (p ! Suc j)" if "Suc j < length p" for j
    using c that by (simp add: is_cycle_def successively_conv_nth)
  show ?thesis
  proof (cases "Suc i < length p")
    case True
    then show ?thesis using step [of i] i(2) by auto
  next
    case False
    then have "i = length p - 1" using i(1) by simp
    then have "n = last p" using i by (metis last_conv_nth length_0_conv less_nat_zero_code)
    moreover have "p \<noteq> []" using i(1) by auto
    ultimately have "n = p ! 0" using c by (simp add: is_cycle_def hd_conv_nth [symmetric])
    then show ?thesis using step [of 0] c by (auto simp: is_cycle_def)
  qed
qed

lemma detectCycles_successor:
  assumes "map_of (detectCycles g) n = Some f"
  shows "f \<noteq> []" "\<exists>w. edge g n w"
proof -
  obtain st where "detectCycles g = cyc st" "cycles_real g st" by (rule detectCycles_final)
  then obtain p where p: "is_cycle g p" "n \<in> set p" "f = formatCycle p" using assms unfolding cycles_real_def by auto
  then show "\<exists>w. edge g n w" by (intro cycle_successor)
  show "f \<noteq> []" using p by (auto simp: formatCycle_def)
qed

text \<open>Every entry of the result names a real cycle of the dependency graph: the reported
  path starts and ends at the same issue, each step is a declared dependency, and the issue it
  is reported for lies on it.\<close>

lemma detectCycles_sound:
  assumes "map_of (detectCycles g) n = Some f"
  shows "\<exists>p. is_cycle g p \<and> n \<in> set p \<and> f = formatCycle p"
proof -
  obtain st where "detectCycles g = cyc st" "cycles_real g st" by (rule detectCycles_final)
  then show ?thesis using assms unfolding cycles_real_def by simp
qed

text \<open>No cycle of the dependency graph goes unnoticed: on every cycle some dependency has
  both its issues in the result. In particular the result is empty exactly when the graph has
  no cycle.\<close>

lemma detectCycles_complete:
  assumes "is_cycle g p"
  shows "\<exists>(a, b) \<in> set (zip p (tl p)). map_of (detectCycles g) a \<noteq> None \<and> map_of (detectCycles g) b \<noteq> None"
proof (rule ccontr)
  obtain st where st: "detectCycles g = cyc st" "ranked g st" "\<forall>n \<in> fst ` set g. color_of st n = Black"
    by (rule detectCycles_final)
  then obtain f :: "int \<Rightarrow> nat" where f: "\<forall>u w. color_of st u = Black \<longrightarrow> edge g u w \<longrightarrow>
      color_of st w = Black \<and> f w < f u \<or> u \<in> flagged st \<and> w \<in> flagged st"
    unfolding ranked_def by blast
  have "u \<in> fst ` set g" if "edge g u w" for u w
    using that by (cases "map_of g u") (auto simp: edge_def succs_def dest: map_of_SomeD intro: rev_image_eqI)
  then have dec: "\<forall>u w. edge g u w \<longrightarrow> f w < f u \<or> u \<in> flagged st \<and> w \<in> flagged st" using f st(3) by blast
  assume none: "\<not> ?thesis"
  obtain a q where p: "p = a # q" "q \<noteq> []" "last q = a" "successively (edge g) (a # q)"
    using assms unfolding is_cycle_def by (cases p; cases "tl p") auto
  have "\<forall>(u, w) \<in> set (zip (a # q) q). \<not> (u \<in> flagged st \<and> w \<in> flagged st)"
    using none p(1) by (auto simp: flagged_def st(1))
  from ranked_descent [OF p(4) dec this p(2)] p(3) show False by simp
qed

text \<open>Issue 3 lies on the cycle 1, 3, 2, 1 but is not in the result: the search reaches it when
  2 is already finished.\<close>

lemma detectCycles_partial:
  "is_cycle [(1, [2, 3]), (2, [1]), (3, [2])] [1, 3, 2, 1] \<and>
   map_of (detectCycles [(1, [2, 3]), (2, [1]), (3, [2])]) 3 = None"
proof
  show "is_cycle [(1, [2, 3]), (2, [1]), (3, [2])] [1, 3, 2, 1]" by (simp add: is_cycle_def edge_def succs_def)
  show "map_of (detectCycles [(1, [2, 3]), (2, [1]), (3, [2])]) 3 = None" by code_simp
qed

section \<open>Properties\<close>

text \<open>The cycle search is sound and misses no cycle. Every entry of the result names a real
  cycle of the dependency graph: the reported path starts and ends at the same issue, each step
  is a declared dependency, and the issue it is reported for lies on it. On every cycle of the
  graph some dependency has both its issues in the result, so the result is empty exactly when
  the graph has no cycle.\<close>

theorem detectCycles_correct:
  "(\<forall>n f. map_of (detectCycles g) n = Some f \<longrightarrow> (\<exists>p. is_cycle g p \<and> n \<in> set p \<and> f = formatCycle p)) \<and>
   (\<forall>p. is_cycle g p \<longrightarrow>
      (\<exists>(a, b) \<in> set (zip p (tl p)). map_of (detectCycles g) a \<noteq> None \<and> map_of (detectCycles g) b \<noteq> None))"
  using detectCycles_sound detectCycles_complete by blast

theorem detectCycles_correct_witness:
  "(\<exists>p. is_cycle [(1, [2, 3]), (2, [1]), (3, [2])] p \<and> 2 \<in> set p \<and> [''#1'', ''#2'', ''#1''] = formatCycle p) \<and>
   (\<exists>(a, b) \<in> set (zip [1, 3, 2, 1] [3, 2, 1 :: int]).
      map_of (detectCycles [(1, [2, 3]), (2, [1]), (3, [2])]) a \<noteq> None \<and>
      map_of (detectCycles [(1, [2, 3]), (2, [1]), (3, [2])]) b \<noteq> None)"
proof -
  let ?g = "[(1, [2, 3]), (2, [1]), (3, [2])] :: graph"
  note ok = detectCycles_correct [of ?g]
  have two: "map_of (detectCycles ?g) 2 = Some [''#1'', ''#2'', ''#1'']" by code_simp
  have cycle: "is_cycle ?g [1, 3, 2, 1]" by (simp add: is_cycle_def edge_def succs_def)
  show ?thesis
  proof
    show "\<exists>p. is_cycle ?g p \<and> 2 \<in> set p \<and> [''#1'', ''#2'', ''#1''] = formatCycle p"
      using ok [THEN conjunct1, rule_format, OF two] .
    show "\<exists>(a, b) \<in> set (zip [1, 3, 2, 1] [3, 2, 1 :: int]).
        map_of (detectCycles ?g) a \<noteq> None \<and> map_of (detectCycles ?g) b \<noteq> None"
      using ok [THEN conjunct2, rule_format, OF cycle] by (simp only: list.sel)
  qed
qed

end
