(* ===== verification/Resolver.thy ===== *)
theory Resolver
  imports Poller Cycles
begin

text \<open>
  The dependency resolver (\<^verbatim>\<open>internal/dependency/dependency.go\<close>): for every cached open
  issue it parses the declared dependencies, records them, detects cycles and computes the
  verdict that the dispatch gate reads.

  \<^item> \<open>rs_reader\<close> is what the GitHub reader answers for an issue: an error text or its details;
    the answers are taken to be fixed during one evaluation.
  \<^item> \<open>rs_log\<close> and \<open>rs_alerts\<close> are \<open>None\<close> when no recorder and no alert bus are installed.
  \<^item> \<open>rs_ctx\<close> counts the looks at the context before it is seen cancelled, \<open>None\<close> when it is not.
  \<^item> The Go maps over issue numbers are association lists in the order of the cache query.

  Shown here: the verdict of an issue is exactly what its labels, the reported cycles and the
  state of its dependencies say, and after an evaluation the dispatch gate blocks exactly the
  issues with an unmet dependency or on a reported cycle that carry no override label.
\<close>

section \<open>Types\<close>

definition OverrideLabel :: string where "OverrideLabel = ''override:force-unblock''"
definition StatusBlocked :: string where "StatusBlocked = ''status:blocked''"
definition StatusDone :: string where "StatusDone = ''status:done''"
definition StatusFailed :: string where "StatusFailed = ''status:failed''"
definition TypeDependencyVerdictChanged :: string where "TypeDependencyVerdictChanged = ''dependency_verdict_changed''"
definition TypeDependencyCycleDetected :: string where "TypeDependencyCycleDetected = ''dependency_cycle_detected''"
definition TypeDependencyOverrideActivated :: string where
  "TypeDependencyOverrideActivated = ''dependency_override_activated''"
definition KindDependencyCycleDetected :: string where "KindDependencyCycleDetected = ''dependency_cycle_detected''"

datatype resolve_error = RStore store_error | RCancelled

record Resolver =
  rs_db :: store
  rs_reader :: "string \<Rightarrow> int \<Rightarrow> string + IssueDetails"
  rs_yaml :: yaml_lib
  rs_log :: "Event list option"
  rs_alerts :: "AlertEvent list option"
  rs_ctx :: "nat option"

definition NewResolver ::
  "store \<Rightarrow> (string \<Rightarrow> int \<Rightarrow> string + IssueDetails) \<Rightarrow> yaml_lib \<Rightarrow> Event list option \<Rightarrow> AlertEvent list option \<Rightarrow> Resolver" where
  "NewResolver st rd y lg bus =
     \<lparr>rs_db = st, rs_reader = rd, rs_yaml = y, rs_log = lg, rs_alerts = bus, rs_ctx = None\<rparr>"

definition rs_event :: "string \<Rightarrow> string \<Rightarrow> int \<Rightarrow> (string \<times> pval) list \<Rightarrow> Resolver \<Rightarrow> Resolver" where
  "rs_event ty repo n payload r = r\<lparr>rs_log := map_option (\<lambda>es. es @
     [\<lparr>ev_Type = ty, ev_Repo = repo, ev_IssueNum = n, ev_Payload = payload\<rparr>]) (rs_log r)\<rparr>"

definition rs_publishAlert :: "string \<Rightarrow> string \<Rightarrow> string \<Rightarrow> int \<Rightarrow> string \<Rightarrow> (string \<times> pval) list \<Rightarrow> Resolver \<Rightarrow> Resolver" where
  "rs_publishAlert kind severity repo n agent payload r = r\<lparr>rs_alerts := map_option (\<lambda>as. as @
     [\<lparr>al_Kind = kind, al_Severity = severity, al_Repo = repo, al_IssueNum = n, al_AgentName = agent,
       al_Timestamp = clock (rs_db r) div second, al_Payload = payload\<rparr>]) (rs_alerts r)\<rparr>"

section \<open>Labels\<close>

definition hasLabel :: "string list \<Rightarrow> string \<Rightarrow> bool" where
  "hasLabel labels want \<longleftrightarrow> want \<in> set labels"

definition classifyOpenDependency :: "string list \<Rightarrow> string" where
  "classifyOpenDependency labels =
     (if hasLabel labels StatusDone then ''done'' else if hasLabel labels StatusFailed then ''failed'' else ''open'')"

definition findResumeLabel :: "string list \<Rightarrow> string \<Rightarrow> string" where
  "findResumeLabel labels fallback =
     (case filter (\<lambda>l. has_prefix l ''status:'' \<and> l \<noteq> StatusBlocked) labels of [] \<Rightarrow> fallback | l # _ \<Rightarrow> l)"

section \<open>Malformed references\<close>

definition invalidDependencyRefs :: "ParsedDependency list \<Rightarrow> string list" where
  "invalidDependencyRefs invalid = map pd_Raw invalid"

definition invalidDependencyPayload :: "ParsedDependency list \<Rightarrow> (string \<times> pval) list list" where
  "invalidDependencyPayload invalid = map (\<lambda>d.
     [(''raw'', PStr (pd_Raw d)), (''parse_error_reason'', PStr (pd_ParseErrorReason d))] @
     (if pd_Line d > 0 then [(''line'', PInt (pd_Line d))] else [])) invalid"

text \<open>Go's \<^verbatim>\<open>%q\<close> on ASCII; a byte above is part of a printable character and kept.\<close>

definition quote_char :: "char \<Rightarrow> string" where
  "quote_char c =
     (let k = of_char c :: nat; bs = CHR 0x5C
      in if k = 34 \<or> k = 92 then [bs, c]
         else if k = 7 then [bs, CHR ''a''] else if k = 8 then [bs, CHR ''b''] else if k = 12 then [bs, CHR ''f'']
         else if k = 10 then [bs, CHR ''n''] else if k = 13 then [bs, CHR ''r''] else if k = 9 then [bs, CHR ''t'']
         else if k = 11 then [bs, CHR ''v'']
         else if k < 32 \<or> k = 127 then bs # CHR ''x'' # [hex_digit (k div 16), hex_digit (k mod 16)]
         else [c])"

definition go_quote :: "string \<Rightarrow> string" where
  "go_quote s = CHR 0x22 # concat (map quote_char s) @ [CHR 0x22]"

definition backtick :: string where "backtick = [CHR 0x60]"

definition ref_forms :: string where
  "ref_forms = backtick @ ''#<int>'' @ backtick @ '' or '' @ backtick @ ''owner/repo#<int>'' @ backtick"

definition invalidDependencyHint :: "ParsedDependency list \<Rightarrow> string" where
  "invalidDependencyHint invalid =
     (case invalid of
        [] \<Rightarrow> ''edit the malformed depends_on entry so it uses '' @ ref_forms
      | d # _ \<Rightarrow>
          if pd_Line d > 0
          then ''edit issue body line '' @ itoa (pd_Line d) @ '' under '' @ backtick @ ''workbuddy.depends_on'' @ backtick @
               '': replace '' @ go_quote (pd_Raw d) @ '' with '' @ ref_forms
          else ''edit the malformed '' @ backtick @ ''workbuddy.depends_on'' @ backtick @ '' entry '' @ go_quote (pd_Raw d) @
               '' so it uses '' @ ref_forms)"

definition clearPipelineHazardIfKind :: "string \<Rightarrow> int \<Rightarrow> string \<Rightarrow> Resolver \<Rightarrow> Resolver \<times> unit result" where
  "clearPipelineHazardIfKind repo n kind r =
     (case QueryIssuePipelineHazard repo n (rs_db r) of
        Inl e \<Rightarrow> (r, Inl e)
      | Inr None \<Rightarrow> (r, Inr ())
      | Inr (Some h) \<Rightarrow>
          if h_Kind h \<noteq> kind then (r, Inr ())
          else (case ClearIssuePipelineHazard repo n (rs_db r) of (d, res) \<Rightarrow> (r\<lparr>rs_db := d\<rparr>, res)))"

definition syncMalformedDependencyHazard :: "string \<Rightarrow> int \<Rightarrow> ParsedDeclaration \<Rightarrow> Resolver \<Rightarrow> Resolver \<times> unit result" where
  "syncMalformedDependencyHazard repo n decl r =
     (let invalid = invalidDependencies (decl_Dependencies decl)
      in if invalid = [] then clearPipelineHazardIfKind repo n HazardKindMalformedDependencyRef r
         else (case UpsertIssuePipelineHazard repo n HazardKindMalformedDependencyRef
                 (hash_parts [''malformed_dependency_ref'', decl_SourceHash decl, dependenciesSignature invalid]) (rs_db r) of
                 (d, Inl e) \<Rightarrow> (r\<lparr>rs_db := d\<rparr>, Inl e)
               | (d, Inr changed) \<Rightarrow>
                  (if changed
                   then rs_event TypeIssueDependencyUnentered repo n
                     [(''reason'', PStr ''unparseable_ref''), (''depends_on'', PStrs (invalidDependencyRefs invalid)),
                      (''invalid_dependencies'', PMaps (invalidDependencyPayload invalid)),
                      (''hint'', PStr (invalidDependencyHint invalid))] (r\<lparr>rs_db := d\<rparr>)
                   else r\<lparr>rs_db := d\<rparr>, Inr ())))"

section \<open>Verdicts\<close>

text \<open>The variables of the loop over the dependencies of one issue.\<close>

record resolving =
  rv_verdict :: string
  rv_reasons :: "string list"
  rv_closed :: "(int \<times> IssueDetails) list"

definition add_reason :: "string \<Rightarrow> resolving \<Rightarrow> resolving" where
  "add_reason why v = v\<lparr>rv_reasons := rv_reasons v @ [why]\<rparr>"

definition needs_human :: "string \<Rightarrow> resolving \<Rightarrow> resolving" where
  "needs_human why v = (add_reason why v)\<lparr>rv_verdict := DependencyVerdictNeedsHuman\<rparr>"

definition waits :: "string \<Rightarrow> resolving \<Rightarrow> resolving" where
  "waits why v = (add_reason why v)\<lparr>rv_verdict :=
     (if rv_verdict v = DependencyVerdictReady then DependencyVerdictBlocked else rv_verdict v)\<rparr>"

text \<open>Looking up a dependency that is not among the open issues: the cache of this evaluation,
  then the reader.\<close>

definition readClosed ::
  "string \<Rightarrow> int \<Rightarrow> ParsedDependency \<Rightarrow> resolving \<times> Resolver \<Rightarrow> (resolving \<times> Resolver) \<times> IssueDetails option" where
  "readClosed repo n dep vr =
     (case vr of (v, r) \<Rightarrow>
        (case map_of (rv_closed v) (pd_IssueNum dep) of
           Some detail \<Rightarrow> ((v, r), Some detail)
         | None \<Rightarrow>
            if pd_Repo dep \<noteq> repo then ((v, r), None)
            else (case rs_reader r repo (pd_IssueNum dep) of
                    Inr detail \<Rightarrow> ((v\<lparr>rv_closed := AList.update (pd_IssueNum dep) detail (rv_closed v)\<rparr>, r), Some detail)
                  | Inl e \<Rightarrow>
                     ((v, if IsRateLimit e
                          then rs_event TypeRateLimit repo n
                            [(''source'', PStr ''dependency_resolver''), (''dep'', PStr (pd_Normalized dep)),
                             (''error'', PStr (RedactTokens e))] r
                          else r), None))))"

definition resolveDependency ::
  "string \<Rightarrow> int \<Rightarrow> (int \<times> Issue) list \<Rightarrow> ParsedDependency \<Rightarrow> resolving \<times> Resolver \<Rightarrow> resolving \<times> Resolver" where
  "resolveDependency repo n openIssues dep vr =
     (case vr of (v, r) \<Rightarrow>
        if pd_Status dep = DependencyStatusUnsupportedCrossRepo
        then (needs_human (pd_Normalized dep @ '':unsupported-cross-repo'') v, r)
        else if pd_Status dep = DependencyStatusInvalid
        then (needs_human (pd_Raw dep @ '':'' @ pd_ParseErrorReason dep) v, r)
        else (case (map_of openIssues (pd_IssueNum dep), pd_Repo dep = repo) of
                (Some depIssue, True) \<Rightarrow>
                  (let status = classifyOpenDependency (i_Labels depIssue)
                   in if status = ''done'' then (v, r)
                      else (waits (pd_Normalized dep @ (if status = ''failed'' then '':failed'' else '':open'')) v, r))
              | _ \<Rightarrow>
                 (case readClosed repo n dep (v, r) of ((v1, r1), detail) \<Rightarrow>
                   (case detail of
                      None \<Rightarrow> (needs_human (pd_Normalized dep @ '':unreadable'') v1, r1)
                    | Some d \<Rightarrow>
                        if id_State d = ''closed'' \<and> id_ClosedByLinkedPR d then (v1, r1)
                        else if id_State d = ''closed'' then (waits (pd_Normalized dep @ '':closed-without-linked-pr'') v1, r1)
                        else (needs_human (pd_Normalized dep @ '':unreadable'') v1, r1)))))"

definition buildResolveResult ::
  "string \<Rightarrow> Issue \<Rightarrow> ParsedDeclaration \<Rightarrow> int \<Rightarrow> string list \<Rightarrow> (int \<times> Issue) list \<Rightarrow> (int \<times> IssueDetails) list \<Rightarrow>
   Resolver \<Rightarrow> IssueDependencyState \<times> (int \<times> IssueDetails) list \<times> Resolver" where
  "buildResolveResult repo issue decl graphVersion cyclePath openIssues closedCache r =
     (let overrideActive = hasLabel (i_Labels issue) OverrideLabel;
          v0 = \<lparr>rv_verdict = DependencyVerdictReady, rv_reasons = [], rv_closed = closedCache\<rparr>;
          v1 = (if cyclePath \<noteq> [] then needs_human (''cycle:'' @ join_with '' -> '' cyclePath) v0 else v0);
          (v, r') = fold (resolveDependency repo (i_Number issue) openIssues) (decl_Dependencies decl) (v1, r)
      in (\<lparr>ds_Verdict = (if overrideActive then DependencyVerdictOverride else rv_verdict v),
           ds_ResumeLabel = findResumeLabel (i_Labels issue) [], ds_BlockedReasonHash = hash_parts (rv_reasons v),
           ds_OverrideActive = overrideActive, ds_GraphVersion = graphVersion, ds_LastReactionBlocked = False,
           ds_LastEvaluatedAt = clock (rs_db r)\<rparr>, rv_closed v, r'))"

section \<open>The evaluation\<close>

definition cached_issue :: "issue_key \<times> IssueCache \<Rightarrow> Issue" where
  "cached_issue kc = (case kc of ((_, n), ic) \<Rightarrow>
     \<lparr>i_Number = n, i_Title = [], i_State = ic_State ic, i_Labels = labelsFromJSON (ic_Labels ic), i_Body = ic_Body ic,
      i_Author = []\<rparr>)"

definition openIssuesOf :: "(issue_key \<times> IssueCache) list \<Rightarrow> (int \<times> Issue) list" where
  "openIssuesOf caches = fold (\<lambda>kc. AList.update (i_Number (cached_issue kc)) (cached_issue kc))
     (filter (\<lambda>(_, ic). ic_State ic = ''open'') caches) []"

definition depRows :: "string \<Rightarrow> int \<Rightarrow> ParsedDeclaration \<Rightarrow> IssueDependency list" where
  "depRows repo n decl = map (\<lambda>d. \<lparr>d_Repo = repo, d_IssueNum = n, d_DependsOnRepo = pd_Repo d, d_DependsOnIssueNum = pd_IssueNum d,
      d_SourceHash = decl_SourceHash decl, d_Status = pd_Status d\<rparr>)
     (filter (\<lambda>d. \<not> (pd_Repo d = [] \<or> pd_IssueNum d \<le> 0)) (decl_Dependencies decl))"

definition localEdges :: "string \<Rightarrow> ParsedDeclaration \<Rightarrow> int list" where
  "localEdges repo decl = map pd_IssueNum (filter (\<lambda>d. \<not> (pd_Repo d = [] \<or> pd_IssueNum d \<le> 0) \<and>
     pd_Status d = DependencyStatusActive \<and> pd_Repo d = repo) (decl_Dependencies decl))"

fun recordDeclarations ::
  "string \<Rightarrow> (int \<times> Issue) list \<Rightarrow> graph \<Rightarrow> Resolver \<Rightarrow> Resolver \<times> graph result" where
  "recordDeclarations repo [] g r = (r, Inr g)"
| "recordDeclarations repo ((n, issue) # rest) g r =
     (let decl = ParseDeclaration (rs_yaml r) repo (i_Body issue)
      in case syncMalformedDependencyHazard repo n decl r of
           (r1, Inl e) \<Rightarrow> (r1, Inl e)
         | (r1, Inr _) \<Rightarrow>
            (case ReplaceIssueDependencies repo n (depRows repo n decl) (rs_db r1) of
               (d, Inl e) \<Rightarrow> (r1\<lparr>rs_db := d\<rparr>, Inl e)
             | (d, Inr _) \<Rightarrow> recordDeclarations repo rest
                  (if localEdges repo decl = [] then g else g @ [(n, localEdges repo decl)]) (r1\<lparr>rs_db := d\<rparr>)))"

definition rs_ctx_err :: "Resolver \<Rightarrow> Resolver \<times> bool" where
  "rs_ctx_err r = (case rs_ctx r of
      None \<Rightarrow> (r, False)
    | Some 0 \<Rightarrow> (r, True)
    | Some (Suc k) \<Rightarrow> (r\<lparr>rs_ctx := Some k\<rparr>, False))"

definition verdict_changed :: "IssueDependencyState option \<Rightarrow> IssueDependencyState \<Rightarrow> bool" where
  "verdict_changed prev st = (case prev of
      None \<Rightarrow> True
    | Some p \<Rightarrow> ds_Verdict p \<noteq> ds_Verdict st \<or> ds_BlockedReasonHash p \<noteq> ds_BlockedReasonHash st \<or>
                ds_OverrideActive p \<noteq> ds_OverrideActive st)"

definition blocking :: "string \<Rightarrow> bool" where
  "blocking v \<longleftrightarrow> v = DependencyVerdictBlocked \<or> v = DependencyVerdictNeedsHuman"

definition keepResumeLabel :: "IssueDependencyState option \<Rightarrow> IssueDependencyState \<Rightarrow> IssueDependencyState" where
  "keepResumeLabel prev st = (case prev of
      Some p \<Rightarrow> if ds_ResumeLabel p \<noteq> [] \<and> ds_ResumeLabel st = [] then st\<lparr>ds_ResumeLabel := ds_ResumeLabel p\<rparr> else st
    | None \<Rightarrow> st)"

text \<open>What the evaluation reports for one issue, and whether the issue counts as unblocked (only
  when the change was logged).\<close>

definition announce ::
  "string \<Rightarrow> int \<Rightarrow> int \<Rightarrow> string list option \<Rightarrow> IssueDependencyState option \<Rightarrow> IssueDependencyState \<Rightarrow> Resolver \<Rightarrow>
   Resolver \<times> bool" where
  "announce repo n graphVersion cycle prev st r =
     (let logged = verdict_changed prev st \<and> rs_log r \<noteq> None;
          r1 = (if logged then rs_event TypeDependencyVerdictChanged repo n
                  [(''verdict'', PStr (ds_Verdict st)), (''override_active'', PBool (ds_OverrideActive st)),
                   (''graph_version'', PInt graphVersion)] r else r);
          freed = (logged \<and> (case prev of None \<Rightarrow> False | Some p \<Rightarrow> blocking (ds_Verdict p)) \<and>
                   (ds_Verdict st = DependencyVerdictReady \<or> ds_Verdict st = DependencyVerdictOverride));
          r2 = (case cycle of
                  Some path \<Rightarrow> if rs_log r1 = None then r1
                    else rs_publishAlert KindDependencyCycleDetected SeverityError repo n [] [(''cycle_path'', PStrs path)]
                           (rs_event TypeDependencyCycleDetected repo n [(''cycle_path'', PStrs path)] r1)
                | None \<Rightarrow> r1);
          r3 = (if ds_OverrideActive st then rs_event TypeDependencyOverrideActivated repo n
                  [(''resume_label'', PStr (ds_ResumeLabel st))] r2 else r2)
      in (r3, freed))"

fun evaluateAll ::
  "string \<Rightarrow> int \<Rightarrow> (int \<times> string list) list \<Rightarrow> (int \<times> Issue) list \<Rightarrow> (int \<times> Issue) list \<Rightarrow> (int \<times> IssueDetails) list \<Rightarrow>
   Resolver \<Rightarrow> Resolver \<times> (resolve_error + int list)" where
  "evaluateAll repo gv cycles openIssues [] closedCache r = (r, Inr [])"
| "evaluateAll repo gv cycles openIssues ((n, issue) # rest) closedCache r =
     (case rs_ctx_err r of
        (r0, True) \<Rightarrow> (r0, Inl RCancelled)
      | (r0, False) \<Rightarrow>
         (let decl = ParseDeclaration (rs_yaml r0) repo (i_Body issue);
              path = (case map_of cycles n of None \<Rightarrow> [] | Some p \<Rightarrow> p)
          in case buildResolveResult repo issue decl gv path openIssues closedCache r0 of
               (st0, closed1, r1) \<Rightarrow>
                 (case QueryIssueDependencyState repo n (rs_db r1) of
                    Inl e \<Rightarrow> (r1, Inl (RStore e))
                  | Inr prev \<Rightarrow>
                     if \<not> decl_HasBlock decl \<and> prev = None
                     then evaluateAll repo gv cycles openIssues rest closed1 r1
                     else (let st = keepResumeLabel prev st0
                           in case UpsertIssueDependencyState repo n st (rs_db r1) of
                                (d, Inl e) \<Rightarrow> (r1\<lparr>rs_db := d\<rparr>, Inl (RStore e))
                              | (d, Inr _) \<Rightarrow>
                                 (case announce repo n gv (map_of cycles n) prev st (r1\<lparr>rs_db := d\<rparr>) of
                                    (r2, freed) \<Rightarrow>
                                      (case evaluateAll repo gv cycles openIssues rest closed1 r2 of
                                         (r3, Inl e) \<Rightarrow> (r3, Inl e)
                                       | (r3, Inr ns) \<Rightarrow> (r3, Inr (if freed then n # ns else ns))))))))"

definition EvaluateOpenIssues :: "string \<Rightarrow> int \<Rightarrow> Resolver \<Rightarrow> Resolver \<times> (resolve_error + int list)" where
  "EvaluateOpenIssues repo graphVersion r =
     (case ListIssueCaches repo (rs_db r) of
        Inl e \<Rightarrow> (r, Inl (RStore e))
      | Inr caches \<Rightarrow>
         (let openIssues = openIssuesOf caches
          in case recordDeclarations repo openIssues [] r of
               (r1, Inl e) \<Rightarrow> (r1, Inl (RStore e))
             | (r1, Inr g) \<Rightarrow> evaluateAll repo graphVersion (detectCycles g) openIssues openIssues [] r1))"

section \<open>What a dependency amounts to\<close>

datatype dep_outcome = Met | Unmet | Unclear

text \<open>The reference meaning of a declared dependency, on the open issues and the answers of the
  reader: met when it is done or was closed by a linked pull request, unclear when it cannot be
  resolved without a human, unmet otherwise.\<close>

definition outcome_of ::
  "string \<Rightarrow> (int \<times> Issue) list \<Rightarrow> (string \<Rightarrow> int \<Rightarrow> string + IssueDetails) \<Rightarrow> ParsedDependency \<Rightarrow> dep_outcome" where
  "outcome_of repo openIssues rd dep =
     (if pd_Status dep \<noteq> DependencyStatusActive then Unclear
      else case map_of openIssues (pd_IssueNum dep) of
        Some i \<Rightarrow> if StatusDone \<in> set (i_Labels i) then Met else Unmet
      | None \<Rightarrow>
         (case rd repo (pd_IssueNum dep) of
            Inl _ \<Rightarrow> Unclear
          | Inr d \<Rightarrow> if id_State d \<noteq> ''closed'' then Unclear else if id_ClosedByLinkedPR d then Met else Unmet))"

definition combine :: "string \<Rightarrow> dep_outcome list \<Rightarrow> string" where
  "combine v os =
     (if v = DependencyVerdictNeedsHuman \<or> Unclear \<in> set os then DependencyVerdictNeedsHuman
      else if Unmet \<in> set os then (if v = DependencyVerdictReady then DependencyVerdictBlocked else v) else v)"

definition cache_agrees :: "string \<Rightarrow> resolving \<times> Resolver \<Rightarrow> bool" where
  "cache_agrees repo vr \<longleftrightarrow> (\<forall>n d. map_of (rv_closed (fst vr)) n = Some d \<longrightarrow> rs_reader (snd vr) repo n = Inr d)"

definition rs_frame :: "Resolver \<Rightarrow> store \<times> (string \<Rightarrow> int \<Rightarrow> string + IssueDetails) \<times> yaml_lib" where
  "rs_frame r = (rs_db r, rs_reader r, rs_yaml r)"

lemma frame_event [simp]: "rs_frame (rs_event ty repo n p r) = rs_frame r"
  "rs_frame (rs_publishAlert k sv repo n a p r) = rs_frame r"
  by (simp_all add: rs_frame_def rs_event_def rs_publishAlert_def)

lemma frameD: "rs_frame r' = rs_frame r \<Longrightarrow> rs_db r' = rs_db r \<and> rs_reader r' = rs_reader r \<and> rs_yaml r' = rs_yaml r"
  by (simp add: rs_frame_def)

lemma verdict_simps [simp]:
  "rv_verdict (needs_human why v) = DependencyVerdictNeedsHuman"
  "rv_verdict (waits why v) = (if rv_verdict v = DependencyVerdictReady then DependencyVerdictBlocked else rv_verdict v)"
  "rv_closed (needs_human why v) = rv_closed v" "rv_closed (waits why v) = rv_closed v"
  by (simp_all add: needs_human_def waits_def add_reason_def)

lemma readClosed_spec:
  assumes "cache_agrees repo (v, r)" "pd_Repo dep = repo" "readClosed repo n dep (v, r) = ((v1, r1), detail)"
  shows "cache_agrees repo (v1, r1) \<and> rs_frame r1 = rs_frame r \<and> rv_verdict v1 = rv_verdict v \<and>
    detail = (case rs_reader r repo (pd_IssueNum dep) of Inl _ \<Rightarrow> None | Inr d \<Rightarrow> Some d)"
proof (cases "map_of (rv_closed v) (pd_IssueNum dep)")
  case (Some d)
  moreover from this have "rs_reader r repo (pd_IssueNum dep) = Inr d" using assms(1) by (simp add: cache_agrees_def)
  ultimately show ?thesis using assms by (auto simp: readClosed_def)
qed (use assms in \<open>auto simp: readClosed_def cache_agrees_def rs_event_def rs_frame_def split: sum.splits if_splits\<close>)

lemma resolveDependency_spec:
  assumes "cache_agrees repo (v, r)" "dep_ok repo dep" "resolveDependency repo n opens dep (v, r) = (v1, r1)"
  shows "cache_agrees repo (v1, r1) \<and> rs_frame r1 = rs_frame r \<and>
    rv_verdict v1 = combine (rv_verdict v) [outcome_of repo opens (rs_reader r) dep]"
proof (cases "pd_Status dep = DependencyStatusActive")
  case False
  then have "pd_Status dep = DependencyStatusUnsupportedCrossRepo \<or> pd_Status dep = DependencyStatusInvalid"
    using assms(2) by (auto simp: dep_ok_def)
  with False assms(1,3) show ?thesis
    by (auto simp: resolveDependency_def outcome_of_def combine_def cache_agrees_def split: if_splits)
next
  case True
  then have repo: "pd_Repo dep = repo" using assms(2) by (auto simp: dep_ok_def dep_consts)
  obtain v2 r2 detail where rc: "readClosed repo n dep (v, r) = ((v2, r2), detail)" by (metis prod.exhaust)
  note spec = readClosed_spec [OF assms(1) repo rc]
  have agree: "cache_agrees repo (x, r2)" if "rv_closed x = rv_closed v2" for x
    using spec that by (simp add: cache_agrees_def)
  show ?thesis
  proof (cases "map_of opens (pd_IssueNum dep)")
    case None
    then show ?thesis using assms(3) spec agree True repo rc
      by (auto simp: resolveDependency_def outcome_of_def combine_def dep_consts Let_def split: sum.splits if_splits)
  next
    case (Some i)
    then show ?thesis using assms(1,3) True repo
      by (auto simp: resolveDependency_def outcome_of_def combine_def cache_agrees_def dep_consts Let_def
          classifyOpenDependency_def hasLabel_def split: if_splits)
  qed
qed

lemma combine_append: "combine (combine v os) os' = combine v (os @ os')"
  by (auto simp: combine_def dep_consts)

lemma resolve_fold:
  assumes "cache_agrees repo vr" "\<forall>d \<in> set deps. dep_ok repo d"
  shows "let vr' = fold (resolveDependency repo n opens) deps vr
    in cache_agrees repo vr' \<and> rs_frame (snd vr') = rs_frame (snd vr) \<and>
       rv_verdict (fst vr') = combine (rv_verdict (fst vr)) (map (outcome_of repo opens (rs_reader (snd vr))) deps)"
  using assms
proof (induction deps arbitrary: vr)
  case Nil
  then show ?case by (simp add: combine_def)
next
  case (Cons d deps)
  obtain v r v1 r1 where vr: "vr = (v, r)" "resolveDependency repo n opens d (v, r) = (v1, r1)" by (metis prod.exhaust)
  then have s: "cache_agrees repo (v1, r1)" "rs_frame r1 = rs_frame r"
    "rv_verdict v1 = combine (rv_verdict v) [outcome_of repo opens (rs_reader r) d]"
    using resolveDependency_spec [of repo v r d n opens v1 r1] Cons.prems by auto
  from Cons.IH [of "(v1, r1)"] s Cons.prems vr frameD [OF s(2)] show ?case
    by (simp add: Let_def combine_append)
qed

lemma parseBlocks_ok: "d \<in> set (decl_Dependencies (parseBlocks y repo body bs)) \<Longrightarrow> dep_ok repo d"
proof (induction bs)
  case (Cons b bs)
  then show ?case using collectDeps_ok by (cases b) (auto simp: Let_def split: option.splits)
qed (simp add: no_declaration_def)

lemma parseBlocks_none: "\<not> decl_HasBlock (parseBlocks y repo body bs) \<Longrightarrow> decl_Dependencies (parseBlocks y repo body bs) = []"
proof (induction bs)
  case (Cons b bs)
  then show ?case by (cases b) (auto simp: Let_def split: option.splits)
qed (simp add: no_declaration_def)

lemmas ParseDeclaration_ok = parseBlocks_ok [where bs = "yaml_blocks body" and body = body for body, folded ParseDeclaration_def]
lemmas ParseDeclaration_none = parseBlocks_none [where bs = "yaml_blocks body" and body = body for body, folded ParseDeclaration_def]

section \<open>The verdict of an issue\<close>

definition issue_outcomes ::
  "string \<Rightarrow> yaml_lib \<Rightarrow> (string \<Rightarrow> int \<Rightarrow> string + IssueDetails) \<Rightarrow> (int \<times> Issue) list \<Rightarrow> Issue \<Rightarrow> dep_outcome list" where
  "issue_outcomes repo y rd opens issue =
     map (outcome_of repo opens rd) (decl_Dependencies (ParseDeclaration y repo (i_Body issue)))"

definition verdict_of ::
  "string \<Rightarrow> yaml_lib \<Rightarrow> (string \<Rightarrow> int \<Rightarrow> string + IssueDetails) \<Rightarrow> (int \<times> Issue) list \<Rightarrow> string list \<Rightarrow> Issue \<Rightarrow> string" where
  "verdict_of repo y rd opens cycle issue =
     (if OverrideLabel \<in> set (i_Labels issue) then DependencyVerdictOverride
      else combine (if cycle \<noteq> [] then DependencyVerdictNeedsHuman else DependencyVerdictReady)
             (issue_outcomes repo y rd opens issue))"

lemma buildResolveResult_spec:
  assumes "\<forall>n d. map_of closed n = Some d \<longrightarrow> rs_reader r repo n = Inr d"
    and "buildResolveResult repo issue (ParseDeclaration (rs_yaml r) repo (i_Body issue)) gv cycle opens closed r = (st, closed', r')"
  shows "ds_Verdict st = verdict_of repo (rs_yaml r) (rs_reader r) opens cycle issue \<and> rs_frame r' = rs_frame r \<and>
    (\<forall>n d. map_of closed' n = Some d \<longrightarrow> rs_reader r repo n = Inr d)"
proof -
  let ?v0 = "\<lparr>rv_verdict = DependencyVerdictReady, rv_reasons = [], rv_closed = closed\<rparr>"
  let ?v1 = "if cycle \<noteq> [] then needs_human (''cycle:'' @ join_with '' -> '' cycle) ?v0 else ?v0"
  let ?deps = "decl_Dependencies (ParseDeclaration (rs_yaml r) repo (i_Body issue))"
  obtain v2 r2 where f: "fold (resolveDependency repo (i_Number issue) opens) ?deps (?v1, r) = (v2, r2)" by (metis prod.exhaust)
  have "cache_agrees repo (?v1, r)" using assms(1) by (simp add: cache_agrees_def)
  from resolve_fold [OF this, of ?deps "i_Number issue" opens] f ParseDeclaration_ok
  have s: "cache_agrees repo (v2, r2)" "rs_frame r2 = rs_frame r"
    "rv_verdict v2 = combine (rv_verdict ?v1) (map (outcome_of repo opens (rs_reader r)) ?deps)"
    by (auto simp: Let_def)
  have "closed' = rv_closed v2" "r' = r2"
    "ds_Verdict st = (if OverrideLabel \<in> set (i_Labels issue) then DependencyVerdictOverride else rv_verdict v2)"
    using assms(2) f by (auto simp: buildResolveResult_def Let_def hasLabel_def)
  then show ?thesis using s frameD [OF s(2)]
    by (auto simp: verdict_of_def issue_outcomes_def cache_agrees_def)
qed

definition verdict_row :: "string \<Rightarrow> int \<Rightarrow> store \<Rightarrow> string option" where
  "verdict_row repo n d = map_option ds_Verdict (map_of (issue_dependency_state d) (repo, n))"

lemma announce_frame: "rs_frame (fst (announce repo n gv cycle prev st r)) = rs_frame r"
  by (simp add: announce_def Let_def split: option.splits)

lemma ctx_err_frame_rs: "rs_ctx_err r = (r0, b) \<Longrightarrow> rs_frame r0 = rs_frame r"
  by (auto simp: rs_ctx_err_def rs_frame_def split: option.splits nat.splits)

definition cycle_path :: "(int \<times> string list) list \<Rightarrow> int \<Rightarrow> string list" where
  "cycle_path cycles n = (case map_of cycles n of None \<Rightarrow> [] | Some p \<Rightarrow> p)"

text \<open>The row of an issue after its turn, and nothing else changes.\<close>

definition row_after :: "string \<Rightarrow> (int \<times> string list) list \<Rightarrow> (int \<times> Issue) list \<Rightarrow> int \<Rightarrow> Issue \<Rightarrow> Resolver \<Rightarrow> string option" where
  "row_after repo cycles opens n issue r =
     (if \<not> decl_HasBlock (ParseDeclaration (rs_yaml r) repo (i_Body issue)) \<and> verdict_row repo n (rs_db r) = None then None
      else Some (verdict_of repo (rs_yaml r) (rs_reader r) opens (cycle_path cycles n) issue))"

lemma verdict_row_upsert:
  "UpsertIssueDependencyState repo n st s = (s', Inr u) \<Longrightarrow>
   verdict_row repo m s' = (if m = n then Some (ds_Verdict st) else verdict_row repo m s) \<and> faults s' = faults s"
  by (auto simp: UpsertIssueDependencyState_def verdict_row_def Let_def split: if_splits option.splits)

definition answers_kept :: "string \<Rightarrow> (int \<times> IssueDetails) list \<Rightarrow> Resolver \<Rightarrow> bool" where
  "answers_kept repo closed r \<longleftrightarrow> (\<forall>n d. map_of closed n = Some d \<longrightarrow> rs_reader r repo n = Inr d)"

definition same_world :: "Resolver \<Rightarrow> Resolver \<Rightarrow> bool" where
  "same_world r r' \<longleftrightarrow> rs_reader r' = rs_reader r \<and> rs_yaml r' = rs_yaml r \<and> faults (rs_db r') = faults (rs_db r)"

lemma evaluateAll_step:
  assumes "evaluateAll repo gv cycles opens ((n, issue) # rest) closed r = (r', Inr ns)" "answers_kept repo closed r"
  obtains r2 closed2 ns2 where "evaluateAll repo gv cycles opens rest closed2 r2 = (r', Inr ns2)" "answers_kept repo closed2 r2"
    "same_world r r2" "\<not> faults (rs_db r) OpQueryDepState"
    "\<And>m. verdict_row repo m (rs_db r2) = (if m = n then row_after repo cycles opens n issue r else verdict_row repo m (rs_db r))"
proof -
  obtain r0 where r0: "rs_ctx_err r = (r0, False)" using assms(1) by (auto split: prod.splits bool.splits)
  note f0 = frameD [OF ctx_err_frame_rs [OF r0]]
  let ?decl = "ParseDeclaration (rs_yaml r0) repo (i_Body issue)"
  obtain st0 closed1 r1 where b: "buildResolveResult repo issue ?decl gv (cycle_path cycles n) opens closed r0 = (st0, closed1, r1)"
    by (metis prod.exhaust)
  have pre: "\<forall>n d. map_of closed n = Some d \<longrightarrow> rs_reader r0 repo n = Inr d" using assms(2) f0 by (simp add: answers_kept_def)
  have s: "ds_Verdict st0 = verdict_of repo (rs_yaml r) (rs_reader r) opens (cycle_path cycles n) issue"
    and fr: "rs_frame r1 = rs_frame r0" and keep: "answers_kept repo closed1 r"
    using buildResolveResult_spec [OF pre b] f0 by (simp_all add: answers_kept_def)
  note f1 = frameD [OF fr]
  note ev = assms(1) [simplified r0 evaluateAll.simps prod.case bool.case Let_def, folded cycle_path_def, unfolded b prod.case]
  obtain prev where q: "QueryIssueDependencyState repo n (rs_db r1) = Inr prev" using ev by (auto split: sum.splits)
  then have nf: "\<not> faults (rs_db r) OpQueryDepState" and prev: "map_option ds_Verdict prev = verdict_row repo n (rs_db r)"
    using f0 f1 by (auto simp: QueryIssueDependencyState_def verdict_row_def split: if_splits)
  show thesis
  proof (cases "\<not> decl_HasBlock ?decl \<and> prev = None")
    case True
    then have "evaluateAll repo gv cycles opens rest closed1 r1 = (r', Inr ns)" using ev q by simp
    moreover have "row_after repo cycles opens n issue r = verdict_row repo n (rs_db r)"
      using True prev f0 by (simp add: row_after_def)
    ultimately show thesis using that keep nf f0 f1 by (auto simp: answers_kept_def same_world_def)
  next
    case False
    let ?st = "keepResumeLabel prev st0"
    have stv: "ds_Verdict ?st = ds_Verdict st0" by (simp add: keepResumeLabel_def split: option.splits)
    obtain d where u: "UpsertIssueDependencyState repo n ?st (rs_db r1) = (d, Inr ())"
      using ev q False by (auto split: sum.splits prod.splits)
    obtain r2 freed where an: "announce repo n gv (map_of cycles n) prev ?st (r1\<lparr>rs_db := d\<rparr>) = (r2, freed)" by (metis prod.exhaust)
    obtain ns2 where rest: "evaluateAll repo gv cycles opens rest closed1 r2 = (r', Inr ns2)"
      using ev q False u an by (auto split: sum.splits prod.splits)
    have f2: "rs_db r2 = d" "rs_reader r2 = rs_reader r" "rs_yaml r2 = rs_yaml r"
      using frameD [OF announce_frame [of repo n gv "map_of cycles n" prev ?st "r1\<lparr>rs_db := d\<rparr>"]] an f0 f1 by simp_all
    have "row_after repo cycles opens n issue r = Some (ds_Verdict ?st)"
      using False prev f0 s stv by (auto simp: row_after_def)
    with that [OF rest] keep nf f0 f1 f2 verdict_row_upsert [OF u] show thesis
      by (auto simp: answers_kept_def same_world_def)
  qed
qed

lemma evaluateAll_rows:
  assumes "evaluateAll repo gv cycles opens items closed r = (r', Inr ns)" "answers_kept repo closed r" "distinct (map fst items)"
  shows "verdict_row repo n (rs_db r') = (case map_of items n of
      None \<Rightarrow> verdict_row repo n (rs_db r) | Some issue \<Rightarrow> row_after repo cycles opens n issue r) \<and>
    faults (rs_db r') = faults (rs_db r) \<and> (items \<noteq> [] \<longrightarrow> \<not> faults (rs_db r) OpQueryDepState)"
  using assms
proof (induction items arbitrary: closed r ns)
  case (Cons it items)
  obtain m issue where it: "it = (m, issue)" by (rule prod.exhaust)
  from Cons.prems(1,2) obtain r2 closed2 ns2 where st: "evaluateAll repo gv cycles opens items closed2 r2 = (r', Inr ns2)"
    "answers_kept repo closed2 r2" "same_world r r2" "\<not> faults (rs_db r) OpQueryDepState"
    "\<And>k. verdict_row repo k (rs_db r2) = (if k = m then row_after repo cycles opens m issue r else verdict_row repo k (rs_db r))"
    unfolding it by (rule evaluateAll_step) blast
  have "row_after repo cycles opens n x r2 = row_after repo cycles opens n x r" if "n \<noteq> m" for x
    using st(3,5) that by (simp add: row_after_def same_world_def)
  moreover have "map_of items m = None" using Cons.prems(3) it by (simp add: map_of_eq_None_iff)
  ultimately show ?case using Cons.IH [OF st(1,2)] Cons.prems(3) st(3,4,5) it
    by (auto simp: same_world_def split: option.splits)
qed simp

section \<open>The dependency graph\<close>

definition dependency_graph :: "yaml_lib \<Rightarrow> string \<Rightarrow> (int \<times> Issue) list \<Rightarrow> graph" where
  "dependency_graph y repo opens = filter (\<lambda>(_, es). es \<noteq> [])
     (map (\<lambda>(n, i). (n, localEdges repo (ParseDeclaration y repo (i_Body i)))) opens)"

lemma hazard_frames:
  "clearPipelineHazardIfKind repo n kind r = (r1, x) \<Longrightarrow>
   same_world r r1 \<and> issue_dependency_state (rs_db r1) = issue_dependency_state (rs_db r)"
  "syncMalformedDependencyHazard repo n decl r = (r1, x) \<Longrightarrow>
   same_world r r1 \<and> issue_dependency_state (rs_db r1) = issue_dependency_state (rs_db r)"
proof -
  show clear: "clearPipelineHazardIfKind repo n kind r = (r1, x) \<Longrightarrow>
    same_world r r1 \<and> issue_dependency_state (rs_db r1) = issue_dependency_state (rs_db r)" for kind
    by (auto simp: clearPipelineHazardIfKind_def ClearIssuePipelineHazard_def same_world_def
        split: sum.splits option.splits if_splits)
  show "syncMalformedDependencyHazard repo n decl r = (r1, x) \<Longrightarrow>
    same_world r r1 \<and> issue_dependency_state (rs_db r1) = issue_dependency_state (rs_db r)"
    using clear [of HazardKindMalformedDependencyRef]
    by (auto simp: syncMalformedDependencyHazard_def UpsertIssuePipelineHazard_def rs_event_def same_world_def Let_def
        split: if_splits sum.splits prod.splits)
qed

lemma recordDeclarations_spec:
  "recordDeclarations repo items g r = (r1, Inr g1) \<Longrightarrow>
   g1 = g @ dependency_graph (rs_yaml r) repo items \<and> same_world r r1 \<and>
   issue_dependency_state (rs_db r1) = issue_dependency_state (rs_db r)"
proof (induction items arbitrary: g r)
  case (Cons it items)
  obtain n issue where it: "it = (n, issue)" by (rule prod.exhaust)
  let ?decl = "ParseDeclaration (rs_yaml r) repo (i_Body issue)"
  obtain r0 where r0: "syncMalformedDependencyHazard repo n ?decl r = (r0, Inr ())"
    using Cons.prems it by (auto simp: Let_def split: prod.splits sum.splits)
  obtain d where d: "ReplaceIssueDependencies repo n (depRows repo n ?decl) (rs_db r0) = (d, Inr ())"
    using Cons.prems it r0 by (auto simp: Let_def split: prod.splits sum.splits)
  have "faults d = faults (rs_db r0)" "issue_dependency_state d = issue_dependency_state (rs_db r0)"
    using d by (auto simp: ReplaceIssueDependencies_def split: if_splits)
  moreover have "recordDeclarations repo items (if localEdges repo ?decl = [] then g else g @ [(n, localEdges repo ?decl)])
      (r0\<lparr>rs_db := d\<rparr>) = (r1, Inr g1)"
    using Cons.prems it r0 d by (simp add: Let_def)
  ultimately show ?case using Cons.IH hazard_frames(2) [OF r0] it
    by (fastforce simp: same_world_def dependency_graph_def)
qed (simp add: dependency_graph_def same_world_def)

lemma edges_of_reported:
  assumes "map_of (detectCycles (dependency_graph y repo opens)) n = Some f" "map_of opens n = Some issue" "distinct (map fst opens)"
  shows "decl_HasBlock (ParseDeclaration y repo (i_Body issue))"
proof (rule ccontr)
  assume "\<not> ?thesis"
  then have none: "localEdges repo (ParseDeclaration y repo (i_Body issue)) = []"
    by (simp add: ParseDeclaration_none localEdges_def)
  obtain w where "edge (dependency_graph y repo opens) n w" using detectCycles_successor(2) [OF assms(1)] by auto
  then obtain es where "map_of (dependency_graph y repo opens) n = Some es" "es \<noteq> []"
    by (cases "map_of (dependency_graph y repo opens) n") (force simp: edge_def succs_def)+
  then have "(n, es) \<in> set (dependency_graph y repo opens)" "es \<noteq> []" by (simp_all add: map_of_SomeD)
  then obtain i where "(n, i) \<in> set opens" "localEdges repo (ParseDeclaration y repo (i_Body i)) \<noteq> []"
    by (auto simp: dependency_graph_def)
  moreover have "map_of opens n = Some i" using calculation(1) assms(3) by simp
  ultimately show False using none assms(2) by simp
qed

lemma distinct_fold_update:
  "distinct (map fst kvs) \<Longrightarrow> distinct (map fst (fold (\<lambda>x. AList.update (f x) (h x)) xs kvs))"
  by (induction xs arbitrary: kvs) (simp_all add: distinct_update)

lemma openIssuesOf_distinct: "distinct (map fst (openIssuesOf caches))"
  by (simp add: openIssuesOf_def distinct_fold_update)

lemma blocking_combine:
  "blocking (combine (if c then DependencyVerdictNeedsHuman else DependencyVerdictReady) os) \<longleftrightarrow> c \<or> (\<exists>x \<in> set os. x \<noteq> Met)"
proof -
  have "x \<noteq> Met \<longleftrightarrow> x = Unmet \<or> x = Unclear" for x by (cases x) simp_all
  then show ?thesis by (auto simp: blocking_def combine_def dep_consts)
qed

lemma IsBlocked_row:
  "\<not> faults d OpQueryDepState \<Longrightarrow>
   fst (IsBlocked repo n d) = (case verdict_row repo n d of None \<Rightarrow> False | Some v \<Rightarrow> blocking v)"
  by (simp add: IsBlocked_def QueryIssueDependencyState_def verdict_row_def blocking_def split: option.splits)

section \<open>An evaluation completes\<close>

lemma frame_no_faults: "same_world r r' \<Longrightarrow> no_faults (rs_db r) \<Longrightarrow> no_faults (rs_db r')"
  by (simp add: same_world_def no_faults_def)

lemma sync_completes:
  assumes "no_faults (rs_db r)"
  shows "\<exists>r1. syncMalformedDependencyHazard repo n decl r = (r1, Inr ()) \<and> rs_ctx r1 = rs_ctx r"
  using assms
  by (auto simp: syncMalformedDependencyHazard_def clearPipelineHazardIfKind_def QueryIssuePipelineHazard_def
      ClearIssuePipelineHazard_def UpsertIssuePipelineHazard_def no_faults_def Let_def rs_event_def split: option.splits)

lemma recordDeclarations_completes:
  "no_faults (rs_db r) \<Longrightarrow> \<exists>r1 g1. recordDeclarations repo items g r = (r1, Inr g1) \<and> no_faults (rs_db r1) \<and> rs_ctx r1 = rs_ctx r"
proof (induction items arbitrary: g r)
  case (Cons it items)
  obtain n issue where it: "it = (n, issue)" by (rule prod.exhaust)
  let ?decl = "ParseDeclaration (rs_yaml r) repo (i_Body issue)"
  obtain r1 where r1: "syncMalformedDependencyHazard repo n ?decl r = (r1, Inr ())" "rs_ctx r1 = rs_ctx r"
    using sync_completes [OF Cons.prems] by blast
  then have nf: "no_faults (rs_db r1)" using hazard_frames(2) frame_no_faults Cons.prems by blast
  obtain d where d: "ReplaceIssueDependencies repo n (depRows repo n ?decl) (rs_db r1) = (d, Inr ())" "faults d = faults (rs_db r1)"
    using nf by (simp add: ReplaceIssueDependencies_def no_faults_def)
  have "no_faults (rs_db (r1\<lparr>rs_db := d\<rparr>))" using nf d(2) by (simp add: no_faults_def)
  from Cons.IH [OF this, of "if localEdges repo ?decl = [] then g else g @ [(n, localEdges repo ?decl)]"]
  show ?case using it r1 d(1) by (simp add: Let_def)
qed simp

lemma resolve_ctx: "rs_ctx (snd (fold (resolveDependency repo n opens) deps vr)) = rs_ctx (snd vr)"
proof (induction deps arbitrary: vr)
  case (Cons d deps)
  have "rs_ctx (snd (fst (readClosed repo n d x))) = rs_ctx (snd x)" for x
    by (auto simp: readClosed_def rs_event_def split: prod.splits option.splits sum.splits)
  then have "rs_ctx (snd (resolveDependency repo n opens d vr)) = rs_ctx (snd vr)"
    by (auto simp: resolveDependency_def Let_def split: prod.splits option.splits bool.splits) (metis fst_conv snd_conv)+
  with Cons show ?case by simp
qed simp

lemma evaluateAll_completes:
  "no_faults (rs_db r) \<Longrightarrow> rs_ctx r = None \<Longrightarrow> answers_kept repo closed r \<Longrightarrow>
   \<exists>r' ns. evaluateAll repo gv cycles opens items closed r = (r', Inr ns)"
proof (induction items arbitrary: closed r)
  case (Cons it items)
  obtain n issue where it: "it = (n, issue)" by (rule prod.exhaust)
  let ?decl = "ParseDeclaration (rs_yaml r) repo (i_Body issue)"
  let ?b = "buildResolveResult repo issue ?decl gv (cycle_path cycles n) opens closed r"
  obtain st0 closed1 r1 where b: "?b = (st0, closed1, r1)" by (metis prod.exhaust)
  have ctx: "rs_ctx r1 = None"
    using b Cons.prems(2) resolve_ctx [of repo "i_Number issue" opens "decl_Dependencies ?decl"]
    by (auto simp: buildResolveResult_def Let_def split: prod.splits) (metis snd_conv)+
  from buildResolveResult_spec [OF Cons.prems(3) [unfolded answers_kept_def] b]
  have fr: "rs_frame r1 = rs_frame r" and keep: "answers_kept repo closed1 r" by (simp_all add: answers_kept_def)
  note f1 = frameD [OF fr]
  obtain prev where q: "QueryIssueDependencyState repo n (rs_db r1) = Inr prev"
    using f1 Cons.prems(1) by (simp add: QueryIssueDependencyState_def no_faults_def)
  obtain d where u: "UpsertIssueDependencyState repo n (keepResumeLabel prev st0) (rs_db r1) = (d, Inr ())" "faults d = faults (rs_db r)"
    using f1 Cons.prems(1) by (simp add: UpsertIssueDependencyState_def no_faults_def Let_def)
  obtain r2 freed where an: "announce repo n gv (map_of cycles n) prev (keepResumeLabel prev st0) (r1\<lparr>rs_db := d\<rparr>) = (r2, freed)"
    by (metis prod.exhaust)
  have "rs_ctx r2 = rs_ctx r1"
    using an by (auto simp: announce_def Let_def rs_event_def rs_publishAlert_def split: option.splits if_splits)
  moreover have "rs_db r2 = d" "rs_reader r2 = rs_reader r"
    using frameD [OF announce_frame [of repo n gv "map_of cycles n" prev "keepResumeLabel prev st0" "r1\<lparr>rs_db := d\<rparr>"]] an f1
    by simp_all
  ultimately have "\<exists>r' ns. evaluateAll repo gv cycles opens items closed1 r2 = (r', Inr ns)"
    using Cons.IH [of r2 closed1] Cons.prems(1) u(2) keep ctx by (simp add: no_faults_def answers_kept_def)
  moreover have "\<exists>r' ns. evaluateAll repo gv cycles opens items closed1 r1 = (r', Inr ns)"
    using Cons.IH [of r1 closed1] Cons.prems(1) f1 keep ctx by (simp add: answers_kept_def)
  ultimately show ?case
    using it Cons.prems(2) b q u(1) an by (auto simp: rs_ctx_err_def Let_def cycle_path_def split: option.splits)
qed simp

lemma EvaluateOpenIssues_completes:
  assumes "no_faults (rs_db r)" "rs_ctx r = None"
  shows "\<exists>r' ns. EvaluateOpenIssues repo gv r = (r', Inr ns)"
proof -
  obtain caches where c: "ListIssueCaches repo (rs_db r) = Inr caches"
    using assms(1) by (simp add: ListIssueCaches_def no_faults_def)
  obtain r1 g where "recordDeclarations repo (openIssuesOf caches) [] r = (r1, Inr g)" "no_faults (rs_db r1)" "rs_ctx r1 = None"
    using recordDeclarations_completes [OF assms(1)] assms(2) by metis
  then show ?thesis using c evaluateAll_completes [of r1 repo "[]"] by (simp add: EvaluateOpenIssues_def answers_kept_def Let_def)
qed

text \<open>A completed evaluation leaves a verdict that blocks exactly the issues with an obstacle.\<close>

lemma evaluated_gate:
  assumes "EvaluateOpenIssues repo gv r = (r', Inr ns)" "ListIssueCaches repo (rs_db r) = Inr caches"
    and "map_of (openIssuesOf caches) n = Some issue"
  shows "fst (IsBlocked repo n (rs_db r')) \<longleftrightarrow> OverrideLabel \<notin> set (i_Labels issue) \<and>
    (map_of (detectCycles (dependency_graph (rs_yaml r) repo (openIssuesOf caches))) n \<noteq> None \<or>
     (\<exists>x \<in> set (issue_outcomes repo (rs_yaml r) (rs_reader r) (openIssuesOf caches) issue). x \<noteq> Met))"
proof -
  let ?opens = "openIssuesOf caches"
  let ?g = "dependency_graph (rs_yaml r) repo ?opens"
  obtain r1 g where r1: "recordDeclarations repo ?opens [] r = (r1, Inr g)"
      "evaluateAll repo gv (detectCycles g) ?opens ?opens [] r1 = (r', Inr ns)"
    using assms(1,2) by (auto simp: EvaluateOpenIssues_def Let_def split: prod.splits sum.splits)
  note w = recordDeclarations_spec [OF r1(1)]
  have "?opens \<noteq> []" using assms(3) by auto
  with evaluateAll_rows [OF r1(2) _ openIssuesOf_distinct, of n] assms(3) w
  have row: "verdict_row repo n (rs_db r') = row_after repo (detectCycles ?g) ?opens n issue r1"
    and nf: "\<not> faults (rs_db r') OpQueryDepState" by (simp_all add: answers_kept_def)
  have c: "cycle_path (detectCycles ?g) n \<noteq> [] \<longleftrightarrow> map_of (detectCycles ?g) n \<noteq> None"
    using detectCycles_successor(1) [of ?g n] by (auto simp: cycle_path_def split: option.splits)
  show ?thesis
  proof (cases "verdict_row repo n (rs_db r')")
    case None
    then have "\<not> decl_HasBlock (ParseDeclaration (rs_yaml r) repo (i_Body issue))"
      using row w by (auto simp: row_after_def same_world_def split: if_splits)
    moreover from this have "issue_outcomes repo (rs_yaml r) (rs_reader r) ?opens issue = []"
      by (simp add: issue_outcomes_def ParseDeclaration_none)
    ultimately show ?thesis
      using None edges_of_reported [OF _ assms(3) openIssuesOf_distinct, of "rs_yaml r" repo] IsBlocked_row [OF nf] by auto
  next
    case (Some v)
    then have "v = verdict_of repo (rs_yaml r) (rs_reader r) ?opens (cycle_path (detectCycles ?g) n) issue"
      using row w by (auto simp: row_after_def same_world_def split: if_splits)
    then show ?thesis using Some IsBlocked_row [OF nf] c blocking_combine
      by (auto simp: verdict_of_def) (auto simp: blocking_def dep_consts)
  qed
qed

section \<open>Properties\<close>

text \<open>After a completed evaluation the dispatch gate tells the truth about every open issue:
  it blocks exactly the issues that carry no override label and that either lie on a reported
  cycle of the declared dependencies or have a dependency that is not met, that is, one that is
  neither done nor closed by a linked pull request, cannot be read or cannot be parsed.\<close>

theorem resolver_gate:
  assumes "EvaluateOpenIssues repo gv r = (r', Inr ns)" "ListIssueCaches repo (rs_db r) = Inr caches"
    and "map_of (openIssuesOf caches) n = Some issue"
  shows "fst (IsBlocked repo n (rs_db r')) \<longleftrightarrow> OverrideLabel \<notin> set (i_Labels issue) \<and>
    (map_of (detectCycles (dependency_graph (rs_yaml r) repo (openIssuesOf caches))) n \<noteq> None \<or>
     (\<exists>x \<in> set (issue_outcomes repo (rs_yaml r) (rs_reader r) (openIssuesOf caches) issue). x \<noteq> Met))"
  by (rule evaluated_gate [OF assms])

definition demo_body :: string where
  "demo_body = fence @ ''yaml'' @ [CHR 0x0A] @ ''w'' @ [CHR 0x0A] @ fence"

definition demo_yaml :: yaml_lib where
  "demo_yaml = \<lparr>y_depends_on = (\<lambda>_. Some [''#8'']), y_content = (\<lambda>_. None)\<rparr>"

definition demo_row :: "string \<Rightarrow> IssueCache" where
  "demo_row body = \<lparr>ic_Labels = JText [''status:developing''], ic_Body = body, ic_State = ''open'', ic_RootTraceID = [],
     ic_ParentIssueNum = 0, ic_UpdatedAt = 0\<rparr>"

definition demo_resolver :: Resolver where
  "demo_resolver = NewResolver (empty_store\<lparr>issue_cache := [((''o/r'', 7), demo_row demo_body), ((''o/r'', 8), demo_row [])]\<rparr>)
     (\<lambda>_ _. Inl ''HTTP 404'') demo_yaml (Some []) None"

abbreviation demo_open :: "(int \<times> Issue) list" where
  "demo_open \<equiv> [(7, cached_issue ((''o/r'', 7), demo_row demo_body)), (8, cached_issue ((''o/r'', 8), demo_row []))]"

lemma demo_evaluation:
  obtains r' ns caches where "EvaluateOpenIssues ''o/r'' 1 demo_resolver = (r', Inr ns)"
    "ListIssueCaches ''o/r'' (rs_db demo_resolver) = Inr caches" "openIssuesOf caches = demo_open"
proof -
  have "no_faults (rs_db demo_resolver)" "rs_ctx demo_resolver = None"
    by (simp_all add: demo_resolver_def NewResolver_def no_faults_def empty_store_def)
  then obtain r' ns where ev: "EvaluateOpenIssues ''o/r'' 1 demo_resolver = (r', Inr ns)"
    using EvaluateOpenIssues_completes by blast
  define caches where "caches = [((''o/r'', 7 :: int), scan_cache (demo_row demo_body)), ((''o/r'', 8), scan_cache (demo_row []))]"
  have "ListIssueCaches ''o/r'' (rs_db demo_resolver) = Inr caches" "openIssuesOf caches = demo_open"
    unfolding caches_def by code_simp+
  with ev show thesis by (rule that)
qed

lemma demo_declared:
  "decl_Dependencies (ParseDeclaration demo_yaml ''o/r'' demo_body) = [normalizeDependency ''o/r'' ''#8'']"
  "decl_Dependencies (ParseDeclaration demo_yaml ''o/r'' []) = []"
proof -
  have blocks: "yaml_blocks demo_body = [(8, ''w'' @ [CHR 0x0A])]" "yaml_blocks [] = []" by code_simp+
  have "collectDeps ''o/r'' [] [] [''#8''] = [normalizeDependency ''o/r'' ''#8'']" by code_simp
  then show "decl_Dependencies (ParseDeclaration demo_yaml ''o/r'' demo_body) = [normalizeDependency ''o/r'' ''#8'']"
    by (simp add: ParseDeclaration_def blocks demo_yaml_def dependencyEntryLines_def Let_def)
  show "decl_Dependencies (ParseDeclaration demo_yaml ''o/r'' []) = []"
    by (simp add: ParseDeclaration_def blocks no_declaration_def)
qed

lemma demo_issue:
  "i_Body (cached_issue (k, demo_row b)) = b" "i_Labels (cached_issue (k, demo_row b)) = [''status:developing'']"
  by (simp_all add: cached_issue_def demo_row_def labelsFromJSON_def split: prod.splits)

lemma demo_world: "rs_yaml demo_resolver = demo_yaml" "rs_reader demo_resolver = (\<lambda>_ _. Inl ''HTTP 404'')"
  by (simp_all add: demo_resolver_def NewResolver_def)

lemma demo_outcomes:
  "issue_outcomes ''o/r'' demo_yaml (\<lambda>_ _. Inl ''HTTP 404'') demo_open (cached_issue ((''o/r'', 7), demo_row demo_body)) = [Unmet]"
  "issue_outcomes ''o/r'' demo_yaml (\<lambda>_ _. Inl ''HTTP 404'') demo_open (cached_issue ((''o/r'', 8), demo_row [])) = []"
proof -
  have "outcome_of ''o/r'' demo_open (\<lambda>_ _. Inl ''HTTP 404'') (normalizeDependency ''o/r'' ''#8'') = Unmet" by code_simp
  then show "issue_outcomes ''o/r'' demo_yaml (\<lambda>_ _. Inl ''HTTP 404'') demo_open (cached_issue ((''o/r'', 7), demo_row demo_body)) = [Unmet]"
    by (simp add: issue_outcomes_def demo_declared demo_issue)
  show "issue_outcomes ''o/r'' demo_yaml (\<lambda>_ _. Inl ''HTTP 404'') demo_open (cached_issue ((''o/r'', 8), demo_row [])) = []"
    by (simp add: issue_outcomes_def demo_declared demo_issue)
qed

lemma demo_graph: "dependency_graph demo_yaml ''o/r'' demo_open = [(7, [8])]"
proof -
  have nd: "normalizeDependency ''o/r'' ''#8'' = \<lparr>pd_Raw = ''#8'', pd_Repo = ''o/r'', pd_IssueNum = 8,
      pd_Status = DependencyStatusActive, pd_Normalized = ''o/r#8'', pd_ParseErrorReason = [], pd_Line = 0\<rparr>" by code_simp
  have "localEdges ''o/r'' (ParseDeclaration demo_yaml ''o/r'' demo_body) = [8]"
    "localEdges ''o/r'' (ParseDeclaration demo_yaml ''o/r'' []) = []"
    unfolding localEdges_def demo_declared nd by simp_all
  then show ?thesis unfolding dependency_graph_def by (simp add: demo_issue)
qed

theorem resolver_gate_witness:
  "\<exists>r' ns. EvaluateOpenIssues ''o/r'' 1 demo_resolver = (r', Inr ns) \<and>
     fst (IsBlocked ''o/r'' 7 (rs_db r')) \<and> \<not> fst (IsBlocked ''o/r'' 8 (rs_db r'))"
proof -
  obtain r' ns caches where ev: "EvaluateOpenIssues ''o/r'' 1 demo_resolver = (r', Inr ns)"
    and c: "ListIssueCaches ''o/r'' (rs_db demo_resolver) = Inr caches" and opens: "openIssuesOf caches = demo_open"
    by (rule demo_evaluation)
  have dc: "detectCycles [(7, [8])] = []" by code_simp
  note spec = resolver_gate [OF ev c, unfolded opens demo_world demo_graph dc]
  have "fst (IsBlocked ''o/r'' 7 (rs_db r'))" "\<not> fst (IsBlocked ''o/r'' 8 (rs_db r'))"
    using spec [of 7] spec [of 8] by (simp_all add: demo_outcomes demo_issue OverrideLabel_def)
  then show ?thesis using ev by blast
qed

end
