(* ===== verification/Liveness.thy ===== *)
theory Liveness
  imports Prelude
begin

text \<open>
  Detection of stuck work: the shared durations and the check of their order
  (\<^verbatim>\<open>internal/liveness\<close>), the watchdog that ends an idle agent
  (\<^verbatim>\<open>internal/staleinference\<close>), and the classification of what an agent did to the
  labels of its issue (\<^verbatim>\<open>internal/labelcheck\<close>).

  The watchdog looks at an agent once per check interval. A look is what the activity checker
  answers at that moment: the time of the last output (\<open>None\<close> when there is no session file),
  the time a completion was observed, if any, and whether there are child processes (\<open>None\<close>
  when that cannot be told). Go's timers are not modelled: the looks are a list in order of
  time, each with the time it happens at.

  Shown here: the watchdog ends an agent exactly when it has been idle for the whole threshold
  and has no children, and never one that keeps producing output; the defaults are ordered as
  the detectors require; and the label check accepts exactly the moves the workflow allows.
\<close>

section \<open>Durations\<close>

record Defaults =
  IdleKill :: duration
  IdleCheckInterval :: duration
  CompletedGracePeriod :: duration
  OrphanReaperGrace :: duration
  ReaperInterval :: duration
  AlertCheckInterval :: duration
  LeaseExpiredGrace :: duration
  PendingTaskStuckAfter :: duration
  MissingLabelAfter :: duration
  AgentTimeout :: duration
  ForensicOrphanFactor :: int
  StuckIssueThreshold :: duration
  NoChildGracePeriod :: duration
  WorkerHeartbeatStaleFactor :: int

definition Default :: Defaults where
  "Default = \<lparr>IdleKill = 10 * minute, IdleCheckInterval = 30 * second, CompletedGracePeriod = minute,
     OrphanReaperGrace = 5 * minute, ReaperInterval = 60 * second, AlertCheckInterval = 60 * second,
     LeaseExpiredGrace = 30 * second, PendingTaskStuckAfter = 10 * minute, MissingLabelAfter = 5 * minute,
     AgentTimeout = 60 * minute, ForensicOrphanFactor = 2, StuckIssueThreshold = 60 * minute,
     NoChildGracePeriod = 2 * minute, WorkerHeartbeatStaleFactor = 3\<rparr>"

definition ForensicOrphanedAfterFor :: "duration \<Rightarrow> Defaults \<Rightarrow> duration" where
  "ForensicOrphanedAfterFor agentTimeout d =
     (let t = (if agentTimeout \<le> 0 then AgentTimeout d else agentTimeout);
          factor = (if ForensicOrphanFactor d \<le> 0 then 1 else ForensicOrphanFactor d)
      in factor * t)"

definition WorkerHeartbeatStaleAfter :: "duration \<Rightarrow> Defaults \<Rightarrow> duration" where
  "WorkerHeartbeatStaleAfter interval d =
     (if WorkerHeartbeatStaleFactor d \<le> 0 then 1 else WorkerHeartbeatStaleFactor d) * interval"

datatype liveness_error = NotPositive | IdleKillAboveTimeout | GraceAboveForensic

definition Validate :: "Defaults \<Rightarrow> liveness_error option" where
  "Validate d =
     (if IdleKill d \<le> 0 \<or> OrphanReaperGrace d \<le> 0 \<or> AgentTimeout d \<le> 0 then Some NotPositive
      else if IdleKill d > AgentTimeout d then Some IdleKillAboveTimeout
      else if OrphanReaperGrace d > ForensicOrphanedAfterFor (AgentTimeout d) d then Some GraceAboveForensic
      else None)"

section \<open>The watchdog\<close>

record stale_config =
  IdleThreshold :: duration
  CheckInterval :: duration
  GracePeriod :: duration

definition withDefaults :: "stale_config \<Rightarrow> stale_config" where
  "withDefaults cfg =
     (let c1 = (if CheckInterval cfg \<le> 0 then cfg\<lparr>CheckInterval := IdleCheckInterval Default\<rparr> else cfg);
          c2 = (if IdleThreshold c1 \<le> 0 then c1\<lparr>IdleThreshold := IdleKill Default\<rparr> else c1)
      in if GracePeriod c2 \<le> 0 then c2\<lparr>GracePeriod := CompletedGracePeriod Default\<rparr> else c2)"

record look =
  lk_now :: time
  lk_mtime :: "time option"
  lk_completed :: "time option"
  lk_children :: "bool option"

definition isStale :: "stale_config \<Rightarrow> look \<Rightarrow> bool" where
  "isStale cfg l =
     (case lk_mtime l of
        None \<Rightarrow> False
      | Some mtime0 \<Rightarrow>
         (case (case lk_completed l of
                  Some c \<Rightarrow> (GracePeriod cfg, if mtime0 < c then c else mtime0)
                | None \<Rightarrow> (IdleThreshold cfg, mtime0)) of
            (threshold, mtime) \<Rightarrow>
              if lk_now l - mtime < threshold then False
              else case lk_children l of None \<Rightarrow> False | Some children \<Rightarrow> \<not> children))"

text \<open>\<^verbatim>\<open>Watch\<close> over the looks until the context is done: the time at which it cancels the
  agent, if it does.\<close>

fun watchLooks :: "stale_config \<Rightarrow> look list \<Rightarrow> time option" where
  "watchLooks cfg [] = None"
| "watchLooks cfg (l # ls) = (if isStale cfg l then Some (lk_now l) else watchLooks cfg ls)"

definition Watch :: "stale_config \<Rightarrow> look list \<Rightarrow> time option" where
  "Watch cfg ls = watchLooks (withDefaults cfg) ls"

text \<open>The tracker the worker installs as activity checker.\<close>

record EventTracker =
  et_lastActivity :: int
  et_completedAt :: int

definition RecordActivity :: "time \<Rightarrow> EventTracker \<Rightarrow> EventTracker" where
  "RecordActivity now t = t\<lparr>et_lastActivity := now\<rparr>"

definition NewEventTracker :: "time \<Rightarrow> EventTracker" where
  "NewEventTracker now = RecordActivity now \<lparr>et_lastActivity = 0, et_completedAt = 0\<rparr>"

definition RecordCompletion :: "time \<Rightarrow> EventTracker \<Rightarrow> EventTracker" where
  "RecordCompletion now t = t\<lparr>et_completedAt := now, et_lastActivity := now\<rparr>"

definition SessionFileModTime :: "EventTracker \<Rightarrow> time option" where
  "SessionFileModTime t = (if et_lastActivity t = 0 then None else Some (et_lastActivity t))"

definition CompletionObservedAt :: "EventTracker \<Rightarrow> time option" where
  "CompletionObservedAt t = (if et_completedAt t = 0 then None else Some (et_completedAt t))"

definition tracker_look :: "time \<Rightarrow> EventTracker \<Rightarrow> look" where
  "tracker_look now t = \<lparr>lk_now = now, lk_mtime = SessionFileModTime t, lk_completed = CompletionObservedAt t,
     lk_children = Some False\<rparr>"

section \<open>The label check\<close>

record lc_state =
  s_Name :: string
  s_Label :: string

definition no_state :: lc_state where "no_state = \<lparr>s_Name = [], s_Label = []\<rparr>"

record lc_input =
  in_Pre :: "string list"
  in_Post :: "string list"
  in_ExitCode :: int
  in_Current :: lc_state
  in_Allowed :: "lc_state list"
  in_Known :: "lc_state list"

datatype Classification = ClOK | ClNoTransitionAfterSuccess | ClNoTransitionAfterFailure | ClUnexpectedTransition | ClFailed

record lc_result =
  re_Class :: Classification
  re_From :: lc_state
  re_To :: lc_state

definition noTransitionClassification :: "int \<Rightarrow> Classification" where
  "noTransitionClassification code = (if code = 0 then ClNoTransitionAfterSuccess else ClNoTransitionAfterFailure)"

definition matchStates :: "string list \<Rightarrow> lc_state list \<Rightarrow> lc_state list" where
  "matchStates labels known = filter (\<lambda>s. s_Label s \<noteq> [] \<and> s_Label s \<in> set labels) known"

definition containsState :: "lc_state list \<Rightarrow> lc_state \<Rightarrow> bool" where
  "containsState states want = list_ex (\<lambda>s. s_Label s = s_Label want \<and> s_Name s = s_Name want) states"

definition selectPrimaryState :: "lc_state list \<Rightarrow> lc_state \<Rightarrow> lc_state" where
  "selectPrimaryState states current =
     (case find (\<lambda>s. s_Label current \<noteq> [] \<and> s_Label s \<noteq> s_Label current) states of
        Some s \<Rightarrow> s
      | None \<Rightarrow> (case states of [] \<Rightarrow> no_state | s # _ \<Rightarrow> s))"

definition stateNamed :: "lc_state list \<Rightarrow> string \<Rightarrow> lc_state option" where
  "stateNamed states name = find (\<lambda>s. s_Name s = name) states"

definition ResolveCurrent :: "string list \<Rightarrow> lc_state \<Rightarrow> lc_state list \<Rightarrow> lc_state" where
  "ResolveCurrent pre fallback known =
     (let s = selectPrimaryState (matchStates pre known) fallback
      in if s_Label s \<noteq> [] then s else fallback)"

definition Classify :: "lc_input \<Rightarrow> lc_result" where
  "Classify x =
     (let current = ResolveCurrent (in_Pre x) (in_Current x) (in_Known x);
          post = matchStates (in_Post x) (in_Known x)
      in case stateNamed post ''failed'' of
           Some failed \<Rightarrow> \<lparr>re_Class = ClFailed, re_From = current, re_To = failed\<rparr>
         | None \<Rightarrow>
            if post = [] then
              (if s_Label current = []
               then \<lparr>re_Class = noTransitionClassification (in_ExitCode x), re_From = current, re_To = no_state\<rparr>
               else \<lparr>re_Class = ClUnexpectedTransition, re_From = current, re_To = no_state\<rparr>)
            else if length post = 1 \<and> s_Label current \<noteq> [] \<and> s_Label (hd post) = s_Label current
            then \<lparr>re_Class = noTransitionClassification (in_ExitCode x), re_From = current, re_To = hd post\<rparr>
            else if length post = 1 \<and> containsState (in_Allowed x) (hd post)
            then \<lparr>re_Class = ClOK, re_From = current, re_To = hd post\<rparr>
            else \<lparr>re_Class = ClUnexpectedTransition, re_From = current, re_To = selectPrimaryState post current\<rparr>)"

definition displayState :: "lc_state \<Rightarrow> string" where
  "displayState s = (if s_Name s \<noteq> [] then s_Name s else if s_Label s \<noteq> [] then s_Label s else ''none'')"

definition Summary :: "lc_result \<Rightarrow> string" where
  "Summary r =
     (let from' = displayState (re_From r); to' = displayState (re_To r)
      in case re_Class r of
           ClOK \<Rightarrow> ''Label transition: '' @ from' @ '' -> '' @ to' @ '' (OK)''
         | ClNoTransitionAfterSuccess \<Rightarrow> ''Label transition: none - needs human review''
         | ClNoTransitionAfterFailure \<Rightarrow> ''Label transition: none - retry path''
         | ClFailed \<Rightarrow> ''Label transition: '' @ from' @ '' -> '' @ to' @ '' (failed)''
         | ClUnexpectedTransition \<Rightarrow> ''Label transition: '' @ from' @ '' -> '' @ to' @ '' (unexpected)'')"

definition NeedsHumanRecommendation :: "lc_result \<Rightarrow> bool" where
  "NeedsHumanRecommendation r \<longleftrightarrow> re_Class r = ClNoTransitionAfterSuccess"

section \<open>What the watchdog does\<close>

lemma Default_valid: "Validate Default = None"
  by (simp add: Validate_def Default_def ForensicOrphanedAfterFor_def minute_def second_def)

text \<open>A task that the forensic tool calls orphaned has been without a heartbeat for longer than the
  grace of the reaper, which has thus had its turn.\<close>

lemma reaper_before_forensic:
  "Validate d = None \<Longrightarrow> ForensicOrphanedAfterFor (AgentTimeout d) d < age \<Longrightarrow> OrphanReaperGrace d < age"
  by (simp add: Validate_def split: if_splits)

lemma withDefaults_positive:
  "0 < IdleThreshold (withDefaults cfg)" "0 < CheckInterval (withDefaults cfg)" "0 < GracePeriod (withDefaults cfg)"
  by (simp_all add: withDefaults_def Default_def minute_def second_def Let_def)

lemma watchLooks_find: "watchLooks cfg ls = map_option lk_now (find (isStale cfg) ls)"
  by (induction ls) simp_all

text \<open>The time a look measures idleness from.\<close>

definition quiet_since :: "look \<Rightarrow> time \<Rightarrow> time" where
  "quiet_since l mtime = (case lk_completed l of None \<Rightarrow> mtime | Some c \<Rightarrow> max mtime c)"

lemma isStale_iff:
  "isStale cfg l \<longleftrightarrow> lk_children l = Some False \<and> (\<exists>m. lk_mtime l = Some m \<and>
     (if lk_completed l = None then IdleThreshold cfg else GracePeriod cfg) \<le> lk_now l - quiet_since l m)"
  by (auto simp: isStale_def quiet_since_def max_def split: option.splits)

text \<open>The watchdog ends an agent at the first look at which it has been quiet for the whole threshold
  (the shorter grace period once a completion was seen) and has no child process, and only then.\<close>

lemma Watch_exact:
  "Watch cfg ls = Some t \<longleftrightarrow>
   (\<exists>i < length ls. t = lk_now (ls ! i) \<and> isStale (withDefaults cfg) (ls ! i) \<and>
      (\<forall>j < i. \<not> isStale (withDefaults cfg) (ls ! j)))"
  unfolding Watch_def watchLooks_find by (auto simp: find_Some_iff)

lemma Watch_busy:
  assumes "\<And>l. l \<in> set ls \<Longrightarrow> lk_completed l = None \<and> (\<exists>m. lk_mtime l = Some m \<and> lk_now l - m < IdleThreshold (withDefaults cfg))"
  shows "Watch cfg ls = None"
proof -
  have "\<not> isStale (withDefaults cfg) l" if "l \<in> set ls" for l
    using assms [OF that] by (auto simp: isStale_iff quiet_since_def)
  then show ?thesis by (simp add: Watch_def watchLooks_find find_None_iff)
qed

lemma tracker_stale:
  "isStale (withDefaults cfg) (tracker_look now (RecordActivity t tr)) \<longleftrightarrow>
   t \<noteq> 0 \<and> (if et_completedAt tr = 0 then IdleThreshold (withDefaults cfg) \<le> now - t
     else GracePeriod (withDefaults cfg) \<le> now - max t (et_completedAt tr))"
  by (auto simp: isStale_iff tracker_look_def RecordActivity_def SessionFileModTime_def CompletionObservedAt_def quiet_since_def)

section \<open>What the label check accepts\<close>

lemma Classify_ok_iff:
  "re_Class (Classify x) = ClOK \<longleftrightarrow>
   (\<exists>s. matchStates (in_Post x) (in_Known x) = [s] \<and> s_Name s \<noteq> ''failed'' \<and> containsState (in_Allowed x) s \<and>
     s_Label s \<noteq> s_Label (ResolveCurrent (in_Pre x) (in_Current x) (in_Known x)))"
proof -
  let ?post = "matchStates (in_Post x) (in_Known x)"
  consider "?post = []" | s where "?post = [s]" | s s' ss where "?post = s # s' # ss" by (metis list.exhaust)
  then show ?thesis
  proof cases
    case 2
    then have "s \<in> set ?post" by simp
    then have "s_Label s \<noteq> []" unfolding matchStates_def by simp
    with 2 show ?thesis by (auto simp: Classify_def Let_def stateNamed_def noTransitionClassification_def)
  qed (auto simp: Classify_def Let_def stateNamed_def noTransitionClassification_def split: option.splits)
qed

end
