(* ===== verification/Agent_Config.thy ===== *)
theory Agent_Config
  imports Declaration Liveness
begin

text \<open>
  Agent files and the configuration directory (\<^verbatim>\<open>internal/config/loader.go\<close>,
  \<^verbatim>\<open>types.go\<close>): front matter, agent normalisation with its matrix of runtimes and
  policies, worker and operator defaults, and \<^verbatim>\<open>LoadConfig\<close> over the files of a directory.

  \<^item> YAML is a library: \<open>config_yaml\<close> holds what it decodes a text to, \<open>None\<close> being its error.
  \<^item> \<open>config_dir\<close> is what the operating system shows of the directory: a file is its name with
    its content (\<open>None\<close> when it cannot be read), a sub-directory is left out; \<open>None\<close> for a listing
    is an error of \<^verbatim>\<open>ReadDir\<close>. \<open>stat\<close> says whether a schema file exists.
  \<^item> Of an agent the fields that the loader and the scheduler read are modelled; the description,
    the command, the permissions and the AgentM extras are carried along unread by the source.

  Shown here: what a loaded configuration satisfies (\<open>config_ok\<close>), and that normalising an agent
  twice is the same as once, on which the registration of a repository relies.
\<close>

section \<open>Data\<close>

record TriggerRule =
  tr_State :: string
  tr_Event :: string

record PolicyConfig =
  po_Sandbox :: string
  po_Approval :: string
  po_Model :: string
  po_Timeout :: duration

record AgentConfig =
  ac_Name :: string
  ac_Triggers :: "TriggerRule list"
  ac_Role :: string
  ac_Runtime :: string
  ac_Context :: "string list"
  ac_Prompt :: string
  ac_Policy :: PolicyConfig
  ac_SchemaFile :: string
  ac_Timeout :: duration
  ac_DevContainerImage :: string
  ac_SourcePath :: string

definition empty_agent :: AgentConfig where
  "empty_agent = \<lparr>ac_Name = [], ac_Triggers = [], ac_Role = [], ac_Runtime = [], ac_Context = [], ac_Prompt = [],
     ac_Policy = \<lparr>po_Sandbox = [], po_Approval = [], po_Model = [], po_Timeout = 0\<rparr>, ac_SchemaFile = [], ac_Timeout = 0,
     ac_DevContainerImage = [], ac_SourcePath = []\<rparr>"

definition RuntimeClaudeCode :: string where "RuntimeClaudeCode = ''claude-code''"
definition RuntimeClaudeShot :: string where "RuntimeClaudeShot = ''claude-oneshot''"
definition RuntimeCodex :: string where "RuntimeCodex = ''codex''"
definition RuntimeCodexExec :: string where "RuntimeCodexExec = ''codex-exec''"
definition RuntimeCodexServer :: string where "RuntimeCodexServer = ''codex-appserver''"
definition RuntimeAgentM :: string where "RuntimeAgentM = ''agentm''"

lemmas runtime_consts =
  RuntimeClaudeCode_def RuntimeClaudeShot_def RuntimeCodex_def RuntimeCodexExec_def RuntimeCodexServer_def RuntimeAgentM_def

definition validRuntimes :: "string list" where
  "validRuntimes = [RuntimeClaudeCode, RuntimeClaudeShot, RuntimeCodex, RuntimeCodexExec, RuntimeCodexServer, RuntimeAgentM]"

datatype load_error =
    BlankSchemaFile
  | SchemaNeedsSourcePath
  | SchemaMissing string
  | SandboxRequired string
  | ApprovalRequired string
  | UnsupportedSandbox string string
  | UnsupportedApproval string string
  | UnsupportedRuntime string
  | FileUnreadable string
  | NoFrontmatter string
  | UnclosedFrontmatter string
  | YamlError string
  | MissingField string string
  | InvalidRuntime string string
  | NoStatesBlock string
  | InvalidWorkflow string config_error
  | NotADirectory

datatype warning =
    SandboxDegraded string string
  | ImageIgnored string string
  | UnknownTriggerState string string

section \<open>Agents\<close>

text \<open>Where the schema of an agent is: \<open>None\<close> for Go's empty path. Joining and cleaning the path of a
  relative file is left to the operating system's answer.\<close>

datatype schema_path = AbsolutePath string | BesideAgent string string

definition OutputContractSchemaPath :: "AgentConfig \<Rightarrow> schema_path option" where
  "OutputContractSchemaPath a =
     (let f = trim_space (ac_SchemaFile a)
      in if f = [] then None
         else if has_prefix f ''/'' then Some (AbsolutePath f)
         else if trim_space (ac_SourcePath a) = [] then None
         else Some (BesideAgent (ac_SourcePath a) f))"

definition checkSchema :: "(schema_path \<Rightarrow> bool) \<Rightarrow> AgentConfig \<Rightarrow> load_error option" where
  "checkSchema stat a =
     (if ac_SchemaFile a = [] then None
      else if trim_space (ac_SchemaFile a) = [] then Some BlankSchemaFile
      else case OutputContractSchemaPath a of
             None \<Rightarrow> Some SchemaNeedsSourcePath
           | Some p \<Rightarrow> if stat p then None else Some (SchemaMissing (ac_SchemaFile a)))"

definition defaultSandboxForRuntime :: "string \<Rightarrow> string" where
  "defaultSandboxForRuntime r =
     (if r \<in> {RuntimeClaudeCode, RuntimeClaudeShot, RuntimeCodex, RuntimeAgentM} then ''read-only'' else [])"

definition defaultApprovalForRuntime :: "string \<Rightarrow> string" where
  "defaultApprovalForRuntime r =
     (if r \<in> {RuntimeClaudeCode, RuntimeClaudeShot, RuntimeCodex, RuntimeAgentM} then ''never'' else [])"

text \<open>The switch over the runtime: the sandbox the agent ends up with, or the error.\<close>

definition checkPolicy :: "string \<Rightarrow> string \<Rightarrow> string \<Rightarrow> string \<Rightarrow> load_error + string \<times> warning list" where
  "checkPolicy name runtime sandbox approval =
     (if runtime \<in> {RuntimeClaudeCode, RuntimeClaudeShot} then
        (if sandbox \<in> {''read-only'', ''danger-full-access'', ''workspace-write''} then
           (if approval \<noteq> ''never'' then Inl (UnsupportedApproval approval runtime)
            else if sandbox = ''workspace-write'' then Inr (''read-only'', [SandboxDegraded name runtime])
            else Inr (sandbox, []))
         else Inl (UnsupportedSandbox sandbox runtime))
      else if runtime \<in> {RuntimeCodex, RuntimeAgentM} then
        (if sandbox \<notin> {''read-only'', ''workspace-write'', ''danger-full-access''} then Inl (UnsupportedSandbox sandbox runtime)
         else if approval \<notin> {''never'', ''on-failure'', ''on-request'', ''via-approver''} then Inl (UnsupportedApproval approval runtime)
         else Inr (sandbox, []))
      else Inl (UnsupportedRuntime runtime))"

text \<open>The aliases of the codex runtime, and the timeout of the policy.\<close>

definition aliasAgent :: "AgentConfig \<Rightarrow> AgentConfig" where
  "aliasAgent a =
     (let a1 = (if ac_Runtime a \<in> {RuntimeCodex, RuntimeCodexExec, RuntimeCodexServer}
                then a\<lparr>ac_Runtime := RuntimeCodex\<rparr> else a)
      in if 0 < po_Timeout (ac_Policy a1) then a1\<lparr>ac_Timeout := po_Timeout (ac_Policy a1)\<rparr> else a1)"

definition normalizeAgentConfig :: "(schema_path \<Rightarrow> bool) \<Rightarrow> AgentConfig \<Rightarrow> load_error + AgentConfig \<times> warning list" where
  "normalizeAgentConfig stat a0 =
     (let a2 = aliasAgent a0
      in case checkSchema stat a2 of
           Some e \<Rightarrow> Inl e
         | None \<Rightarrow>
            (let p = ac_Policy a2; runtime = ac_Runtime a2;
                 sandbox = (if po_Sandbox p = [] then defaultSandboxForRuntime runtime else po_Sandbox p);
                 approval = (if po_Approval p = [] then defaultApprovalForRuntime runtime else po_Approval p)
             in if sandbox = [] then Inl (SandboxRequired runtime)
                else if approval = [] then Inl (ApprovalRequired runtime)
                else case checkPolicy (ac_Name a2) runtime sandbox approval of
                       Inl e \<Rightarrow> Inl e
                     | Inr (sandbox', ws) \<Rightarrow>
                         Inr (a2\<lparr>ac_Policy := p\<lparr>po_Sandbox := sandbox', po_Approval := approval\<rparr>\<rparr>,
                              ws @ (if trim_space (ac_DevContainerImage a2) \<noteq> [] \<and> runtime \<noteq> RuntimeAgentM
                                    then [ImageIgnored (ac_Name a2) runtime] else []))))"

section \<open>Files\<close>

definition newline :: string where "newline = [CHR 0x0A]"

definition parseFrontmatter :: "string \<Rightarrow> string \<Rightarrow> load_error + string \<times> string" where
  "parseFrontmatter path content =
     (if \<not> has_prefix content ''---'' then Inl (NoFrontmatter path)
      else case cut_at (newline @ ''---'') (drop 3 content) of
             None \<Rightarrow> Inl (UnclosedFrontmatter path)
           | Some (fm, body) \<Rightarrow> Inr (fm, body))"

record GlobalConfig =
  gc_Repo :: string
  gc_Environment :: string
  gc_PollInterval :: duration
  gc_Port :: int

record OperatorConfig =
  oc_Enabled :: bool
  oc_CheckInterval :: duration
  oc_DedupWindow :: duration
  oc_InboxDir :: string

record file_config =
  fc_Global :: GlobalConfig
  fc_Operator :: OperatorConfig
  fc_Stale :: stale_config
  fc_HasOperator :: bool

record config_yaml =
  cy_config :: "string \<Rightarrow> file_config option"
  cy_agent :: "string \<Rightarrow> AgentConfig option"
  cy_workflow :: "string \<Rightarrow> WorkflowConfig option"
  cy_states :: "string \<Rightarrow> (string \<times> WState option) list option"

definition parseAgentFile ::
  "config_yaml \<Rightarrow> (schema_path \<Rightarrow> bool) \<Rightarrow> string \<Rightarrow> string option \<Rightarrow> load_error + AgentConfig \<times> warning list" where
  "parseAgentFile y stat path data =
     (case data of
        None \<Rightarrow> Inl (FileUnreadable path)
      | Some content \<Rightarrow>
         (case parseFrontmatter path content of
            Inl e \<Rightarrow> Inl e
          | Inr (fm, body) \<Rightarrow>
             (case cy_agent y fm of
                None \<Rightarrow> Inl (YamlError path)
              | Some a0 \<Rightarrow>
                 (let a = a0\<lparr>ac_SourcePath := path, ac_Prompt := trim_space body\<rparr>
                  in if ac_Name a = [] then Inl (MissingField path ''name'')
                     else if ac_Triggers a = [] then Inl (MissingField path ''triggers'')
                     else if ac_Role a = [] then Inl (MissingField path ''role'')
                     else if ac_Context a = [] then Inl (MissingField path ''context'')
                     else if ac_Prompt a = [] then Inl (MissingField path ''prompt'')
                     else (let a1 = (if ac_Runtime a = [] then a\<lparr>ac_Runtime := RuntimeClaudeCode\<rparr> else a)
                           in if ac_Runtime a1 \<notin> set validRuntimes then Inl (InvalidRuntime path (ac_Runtime a1))
                              else normalizeAgentConfig stat a1)))))"

definition parseWorkflowFile :: "config_yaml \<Rightarrow> string \<Rightarrow> string option \<Rightarrow> load_error + WorkflowConfig" where
  "parseWorkflowFile y path data =
     (case data of
        None \<Rightarrow> Inl (FileUnreadable path)
      | Some content \<Rightarrow>
         (case parseFrontmatter path content of
            Inl e \<Rightarrow> Inl e
          | Inr (fm, body) \<Rightarrow>
             (case cy_workflow y fm of
                None \<Rightarrow> Inl (YamlError path)
              | Some w \<Rightarrow>
                 (case yaml_blocks body of
                    [] \<Rightarrow> Inl (NoStatesBlock path)
                  | (_, block) # _ \<Rightarrow>
                     (case cy_states y block of
                        None \<Rightarrow> Inl (YamlError path)
                      | Some raw \<Rightarrow> (case parseWorkflow w raw of Inl e \<Rightarrow> Inl (InvalidWorkflow path e) | Inr w' \<Rightarrow> Inr w'))))))"

section \<open>The configuration directory\<close>

definition applyWorkerDefaults :: "stale_config \<Rightarrow> stale_config" where
  "applyWorkerDefaults cfg =
     (let c1 = (if IdleThreshold cfg \<le> 0 then cfg\<lparr>IdleThreshold := IdleKill Default\<rparr> else cfg);
          c2 = (if CheckInterval c1 \<le> 0 then c1\<lparr>CheckInterval := IdleCheckInterval Default\<rparr> else c1)
      in if GracePeriod c2 \<le> 0 then c2\<lparr>GracePeriod := CompletedGracePeriod Default\<rparr> else c2)"

definition applyOperatorDefaults :: "OperatorConfig \<Rightarrow> bool \<Rightarrow> OperatorConfig" where
  "applyOperatorDefaults cfg explicit =
     (let c0 = (if \<not> explicit \<and> \<not> oc_Enabled cfg \<and> oc_CheckInterval cfg = 0 \<and> oc_DedupWindow cfg = 0 \<and>
                   trim_space (oc_InboxDir cfg) = []
                then cfg\<lparr>oc_Enabled := True\<rparr> else cfg);
          c1 = (if oc_CheckInterval c0 \<le> 0 then c0\<lparr>oc_CheckInterval := AlertCheckInterval Default\<rparr> else c0);
          c2 = (if oc_DedupWindow c1 \<le> 0 then c1\<lparr>oc_DedupWindow := 5 * minute\<rparr> else c1)
      in if trim_space (oc_InboxDir c2) = [] then c2\<lparr>oc_InboxDir := ''~/.workbuddy/operator/inbox''\<rparr> else c2)"

record FullConfig =
  cf_Global :: GlobalConfig
  cf_Operator :: OperatorConfig
  cf_Stale :: stale_config
  cf_Agents :: "(string \<times> AgentConfig) list"
  cf_Workflows :: "(string \<times> WorkflowConfig) list"

record config_dir =
  cd_is_dir :: bool
  cd_config :: "string option"
  cd_agents :: "(string \<times> string option) list option"
  cd_workflows :: "(string \<times> string option) list option"

definition has_suffix :: "string \<Rightarrow> string \<Rightarrow> bool" where
  "has_suffix s p \<longleftrightarrow> has_prefix (rev s) (rev p)"

fun loadAgents ::
  "config_yaml \<Rightarrow> (schema_path \<Rightarrow> bool) \<Rightarrow> (string \<times> string option) list \<Rightarrow> (string \<times> AgentConfig) list \<Rightarrow> warning list \<Rightarrow>
   load_error + (string \<times> AgentConfig) list \<times> warning list" where
  "loadAgents y stat [] as ws = Inr (as, ws)"
| "loadAgents y stat ((file, data) # files) as ws =
     (if \<not> has_suffix file ''.md'' then loadAgents y stat files as ws
      else case parseAgentFile y stat file data of
             Inl e \<Rightarrow> Inl e
           | Inr (a, ws') \<Rightarrow> loadAgents y stat files (AList.update (ac_Name a) a as) (ws @ ws'))"

fun loadWorkflows ::
  "config_yaml \<Rightarrow> (string \<times> string option) list \<Rightarrow> (string \<times> WorkflowConfig) list \<Rightarrow> load_error + (string \<times> WorkflowConfig) list" where
  "loadWorkflows y [] ws = Inr ws"
| "loadWorkflows y ((file, data) # files) ws =
     (if \<not> has_suffix file ''.md'' then loadWorkflows y files ws
      else case parseWorkflowFile y file data of
             Inl e \<Rightarrow> Inl e
           | Inr w \<Rightarrow> loadWorkflows y files (AList.update (wf_Name w) w ws))"

definition checkAgentLabelConsistency :: "FullConfig \<Rightarrow> warning list" where
  "checkAgentLabelConsistency cfg =
     (let known = filter (\<lambda>n. n \<noteq> []) (concat (map (\<lambda>(_, w). map fst (States w)) (cf_Workflows cfg)))
      in concat (map (\<lambda>name. case map_of (cf_Agents cfg) name of
            None \<Rightarrow> []
          | Some a \<Rightarrow> map (\<lambda>t. UnknownTriggerState (ac_Name a) (tr_State t))
              (filter (\<lambda>t. tr_State t \<noteq> [] \<and> tr_State t \<notin> set known) (ac_Triggers a)))
          (sort (map fst (cf_Agents cfg)))))"

definition no_file_config :: file_config where
  "no_file_config = \<lparr>fc_Global = \<lparr>gc_Repo = [], gc_Environment = [], gc_PollInterval = 0, gc_Port = 0\<rparr>,
     fc_Operator = \<lparr>oc_Enabled = False, oc_CheckInterval = 0, oc_DedupWindow = 0, oc_InboxDir = []\<rparr>,
     fc_Stale = \<lparr>IdleThreshold = 0, CheckInterval = 0, GracePeriod = 0\<rparr>, fc_HasOperator = False\<rparr>"

definition LoadConfig :: "config_yaml \<Rightarrow> (schema_path \<Rightarrow> bool) \<Rightarrow> config_dir \<Rightarrow> load_error + FullConfig \<times> warning list" where
  "LoadConfig y stat d =
     (if \<not> cd_is_dir d then Inl NotADirectory
      else case (case cd_config d of None \<Rightarrow> Some no_file_config | Some text \<Rightarrow> cy_config y text) of
             None \<Rightarrow> Inl (YamlError ''config.yaml'')
           | Some fc \<Rightarrow>
              (case loadAgents y stat (case cd_agents d of None \<Rightarrow> [] | Some fs \<Rightarrow> fs) [] [] of
                 Inl e \<Rightarrow> Inl e
               | Inr (as, ws) \<Rightarrow>
                  (case loadWorkflows y (case cd_workflows d of None \<Rightarrow> [] | Some fs \<Rightarrow> fs) [] of
                     Inl e \<Rightarrow> Inl e
                   | Inr wfs \<Rightarrow>
                      (case validateWorkflowTriggerConflicts wfs of
                         Some e \<Rightarrow> Inl (InvalidWorkflow [] e)
                       | None \<Rightarrow>
                          (let cfg = \<lparr>cf_Global = fc_Global fc, cf_Operator = applyOperatorDefaults (fc_Operator fc) (fc_HasOperator fc),
                                 cf_Stale = applyWorkerDefaults (fc_Stale fc), cf_Agents = as, cf_Workflows = wfs\<rparr>
                           in Inr (cfg, ws @ checkAgentLabelConsistency cfg))))))"

section \<open>What is established\<close>

text \<open>The runtimes and policies the launchers accept.\<close>

definition policy_ok :: "string \<Rightarrow> string \<Rightarrow> string \<Rightarrow> bool" where
  "policy_ok runtime sandbox approval \<longleftrightarrow>
     (if runtime \<in> {RuntimeClaudeCode, RuntimeClaudeShot}
      then sandbox \<in> {''read-only'', ''danger-full-access''} \<and> approval = ''never''
      else runtime \<in> {RuntimeCodex, RuntimeAgentM} \<and> sandbox \<in> {''read-only'', ''workspace-write'', ''danger-full-access''} \<and>
        approval \<in> {''never'', ''on-failure'', ''on-request'', ''via-approver''})"

definition agent_ok :: "AgentConfig \<Rightarrow> bool" where
  "agent_ok a \<longleftrightarrow> policy_ok (ac_Runtime a) (po_Sandbox (ac_Policy a)) (po_Approval (ac_Policy a)) \<and>
     (0 < po_Timeout (ac_Policy a) \<longrightarrow> ac_Timeout a = po_Timeout (ac_Policy a))"

lemma checkPolicy_ok: "checkPolicy name r s ap = Inr (s', ws) \<Longrightarrow> policy_ok r s' ap"
  by (auto simp: checkPolicy_def policy_ok_def split: if_splits)

lemma checkPolicy_fixed: "policy_ok r s ap \<Longrightarrow> checkPolicy name r s ap = Inr (s, [])"
  by (auto simp: checkPolicy_def policy_ok_def split: if_splits)

lemma policy_ok_nonempty: "policy_ok r s ap \<Longrightarrow> s \<noteq> [] \<and> ap \<noteq> []"
  by (auto simp: policy_ok_def split: if_splits)

lemma aliasAgent_fields [simp]:
  "ac_Policy (aliasAgent a) = ac_Policy a" "ac_Name (aliasAgent a) = ac_Name a" "ac_SchemaFile (aliasAgent a) = ac_SchemaFile a"
  "ac_SourcePath (aliasAgent a) = ac_SourcePath a"
  "0 < po_Timeout (ac_Policy a) \<Longrightarrow> ac_Timeout (aliasAgent a) = po_Timeout (ac_Policy a)"
  by (simp_all add: aliasAgent_def Let_def)

lemma checkSchema_cong:
  "ac_SchemaFile a = ac_SchemaFile b \<Longrightarrow> ac_SourcePath a = ac_SourcePath b \<Longrightarrow> checkSchema stat a = checkSchema stat b"
  by (simp add: checkSchema_def OutputContractSchemaPath_def Let_def cong: option.case_cong)

lemma normalizeAgentConfig_ok:
  assumes "normalizeAgentConfig stat a = Inr (a', ws)"
  shows "agent_ok a'" "checkSchema stat a' = None" "ac_Name a' = ac_Name a"
proof -
  let ?p = "ac_Policy a" and ?r = "ac_Runtime (aliasAgent a)"
  have schema: "checkSchema stat (aliasAgent a) = None"
    using assms by (auto simp: normalizeAgentConfig_def Let_def split: option.splits)
  obtain s ap s' ws' where c: "checkPolicy (ac_Name a) ?r s ap = Inr (s', ws')"
    and a': "a' = (aliasAgent a)\<lparr>ac_Policy := ?p\<lparr>po_Sandbox := s', po_Approval := ap\<rparr>\<rparr>"
    using assms schema by (auto simp: normalizeAgentConfig_def Let_def split: sum.splits if_splits)
  show "agent_ok a'" using checkPolicy_ok [OF c] by (simp add: agent_ok_def a')
  show "checkSchema stat a' = None" using schema checkSchema_cong [of a' "aliasAgent a"] by (simp add: a')
  show "ac_Name a' = ac_Name a" by (simp add: a')
qed

lemma aliasAgent_fixed:
  assumes "agent_ok a"
  shows "aliasAgent a = a"
proof -
  have "ac_Runtime a \<noteq> RuntimeCodexExec" "ac_Runtime a \<noteq> RuntimeCodexServer"
    using assms by (auto simp: agent_ok_def policy_ok_def runtime_consts split: if_splits)
  then show ?thesis using assms by (cases a) (auto simp: aliasAgent_def agent_ok_def Let_def)
qed

lemma normalizeAgentConfig_fixed:
  assumes "agent_ok a" "checkSchema stat a = None"
  obtains ws where "normalizeAgentConfig stat a = Inr (a, ws)"
proof -
  let ?p = "ac_Policy a"
  have ok: "policy_ok (ac_Runtime a) (po_Sandbox ?p) (po_Approval ?p)" using assms(1) by (simp add: agent_ok_def)
  have "a\<lparr>ac_Policy := ?p\<lparr>po_Sandbox := po_Sandbox ?p, po_Approval := po_Approval ?p\<rparr>\<rparr> = a" by simp
  then show thesis
    using that aliasAgent_fixed [OF assms(1)] checkPolicy_fixed [OF ok] policy_ok_nonempty [OF ok] assms(2)
    by (simp add: normalizeAgentConfig_def Let_def)
qed

text \<open>What holds of every configuration that was loaded.\<close>

definition config_ok :: "(schema_path \<Rightarrow> bool) \<Rightarrow> FullConfig \<Rightarrow> bool" where
  "config_ok stat cfg \<longleftrightarrow>
     distinct (map fst (cf_Agents cfg)) \<and> distinct (map fst (cf_Workflows cfg)) \<and>
     (\<forall>(name, a) \<in> set (cf_Agents cfg). ac_Name a = name \<and> name \<noteq> [] \<and> agent_ok a \<and> checkSchema stat a = None) \<and>
     (\<forall>(name, w) \<in> set (cf_Workflows cfg). wf_Name w = name \<and> workflow_ok w) \<and>
     distinct (filter (\<lambda>l. l \<noteq> []) (map (\<lambda>(_, w). TriggerLabel w) (cf_Workflows cfg))) \<and>
     0 < IdleThreshold (cf_Stale cfg) \<and> 0 < CheckInterval (cf_Stale cfg) \<and> 0 < GracePeriod (cf_Stale cfg) \<and>
     0 < oc_CheckInterval (cf_Operator cfg) \<and> 0 < oc_DedupWindow (cf_Operator cfg) \<and> trim_space (oc_InboxDir (cf_Operator cfg)) \<noteq> []"

lemma parseAgentFile_ok:
  assumes "parseAgentFile y stat path data = Inr (a, ws)"
  shows "ac_Name a \<noteq> [] \<and> agent_ok a \<and> checkSchema stat a = None"
proof -
  obtain a1 where "normalizeAgentConfig stat a1 = Inr (a, ws)" "ac_Name a1 \<noteq> []"
    using assms by (auto simp: parseAgentFile_def Let_def split: option.splits sum.splits prod.splits if_splits)
  then show ?thesis using normalizeAgentConfig_ok by metis
qed

lemma parseWorkflow_name: "parseWorkflow w raw = Inr w' \<Longrightarrow> wf_Name w' = wf_Name w"
  by (auto simp: parseWorkflow_def Let_def split: sum.splits option.splits)

lemma parseWorkflowFile_ok:
  assumes "parseWorkflowFile y path data = Inr w"
  shows "workflow_ok w"
proof -
  obtain w0 raw where "parseWorkflow w0 raw = Inr w"
    using assms by (auto simp: parseWorkflowFile_def split: option.splits sum.splits list.splits)
  then show ?thesis by (rule parseWorkflow_ok)
qed

lemma loadAgents_ok:
  assumes "loadAgents y stat files as ws = Inr (as', ws')" "distinct (map fst as)"
    and "\<forall>(name, a) \<in> set as. ac_Name a = name \<and> name \<noteq> [] \<and> agent_ok a \<and> checkSchema stat a = None"
  shows "distinct (map fst as') \<and>
    (\<forall>(name, a) \<in> set as'. ac_Name a = name \<and> name \<noteq> [] \<and> agent_ok a \<and> checkSchema stat a = None)"
  using assms
proof (induction y stat files as ws rule: loadAgents.induct)
  case (2 y stat fn fd files as ws)
  show ?case
  proof (cases "has_suffix fn ''.md''")
    case True
    then obtain a ws2 where a: "parseAgentFile y stat fn fd = Inr (a, ws2)"
      "loadAgents y stat files (AList.update (ac_Name a) a as) (ws @ ws2) = Inr (as', ws')"
      using 2(3) by (auto split: sum.splits)
    have "\<forall>(name, b) \<in> set (AList.update (ac_Name a) a as). ac_Name b = name \<and> name \<noteq> [] \<and> agent_ok b \<and> checkSchema stat b = None"
      using 2(5) parseAgentFile_ok [OF a(1)] by (auto dest: set_update_subset [THEN subsetD])
    then show ?thesis using 2(2) [OF _ a(1) refl a(2)] True 2(4) by (simp add: distinct_update)
  qed (use 2 in simp)
qed simp

lemma loadWorkflows_ok:
  assumes "loadWorkflows y files ws = Inr ws'" "distinct (map fst ws)" "\<forall>(name, w) \<in> set ws. wf_Name w = name \<and> workflow_ok w"
  shows "distinct (map fst ws') \<and> (\<forall>(name, w) \<in> set ws'. wf_Name w = name \<and> workflow_ok w)"
  using assms
proof (induction y files ws rule: loadWorkflows.induct)
  case (2 y fn fd files ws)
  show ?case
  proof (cases "has_suffix fn ''.md''")
    case True
    then obtain w where w: "parseWorkflowFile y fn fd = Inr w" "loadWorkflows y files (AList.update (wf_Name w) w ws) = Inr ws'"
      using 2(3) by (auto split: sum.splits)
    have "\<forall>(name, v) \<in> set (AList.update (wf_Name w) w ws). wf_Name v = name \<and> workflow_ok v"
      using 2(5) parseWorkflowFile_ok [OF w(1)] by (auto dest: set_update_subset [THEN subsetD])
    then show ?thesis using 2(2) [OF _ w(1) w(2)] True 2(4) by (simp add: distinct_update)
  qed (use 2 in simp)
qed simp

lemma trigger_labels_distinct:
  assumes "validateWorkflowTriggerConflicts ws = None"
  shows "distinct (filter (\<lambda>l. l \<noteq> []) (map (\<lambda>(_, w). TriggerLabel w) ws))"
proof -
  have "filter (\<lambda>l. l \<noteq> []) (map (\<lambda>(_, w). TriggerLabel w) ws) = map TriggerLabel (filter (\<lambda>w. TriggerLabel w \<noteq> []) (map snd ws))"
    by (induction ws) auto
  then show ?thesis using assms triggerConflictsFrom_None [of "[]" "map snd ws"] by (simp add: validateWorkflowTriggerConflicts_def)
qed

lemma defaults_ok:
  "0 < IdleThreshold (applyWorkerDefaults c)" "0 < CheckInterval (applyWorkerDefaults c)" "0 < GracePeriod (applyWorkerDefaults c)"
  "0 < oc_CheckInterval (applyOperatorDefaults o' e)" "0 < oc_DedupWindow (applyOperatorDefaults o' e)"
  "trim_space (oc_InboxDir (applyOperatorDefaults o' e)) \<noteq> []"
proof -
  have "trim_space ''~/.workbuddy/operator/inbox'' \<noteq> []" by code_simp
  then show "trim_space (oc_InboxDir (applyOperatorDefaults o' e)) \<noteq> []" by (simp add: applyOperatorDefaults_def Let_def)
qed (simp_all add: applyWorkerDefaults_def applyOperatorDefaults_def Default_def minute_def second_def Let_def)

section \<open>Properties\<close>

text \<open>C26. A configuration that loads is well-formed: agents and workflows are stored under their own
  names, every agent has a supported combination of runtime, sandbox and approval, a timeout that
  agrees with its policy and a schema file that exists, every workflow has normalised states, no
  two workflows are triggered by the same label, and the watchdog and operator settings are
  positive.\<close>

theorem LoadConfig_ok:
  assumes "LoadConfig y stat d = Inr (cfg, ws)"
  shows "config_ok stat cfg"
proof -
  let ?fc = "case cd_config d of None \<Rightarrow> Some no_file_config | Some text \<Rightarrow> cy_config y text"
  obtain fc where fc: "?fc = Some fc" using assms by (cases ?fc) (auto simp: LoadConfig_def split: if_splits)
  have l: "\<exists>ws0. loadAgents y stat (case cd_agents d of None \<Rightarrow> [] | Some fs \<Rightarrow> fs) [] [] = Inr (cf_Agents cfg, ws0)"
    "loadWorkflows y (case cd_workflows d of None \<Rightarrow> [] | Some fs \<Rightarrow> fs) [] = Inr (cf_Workflows cfg)"
    "validateWorkflowTriggerConflicts (cf_Workflows cfg) = None"
    "cf_Operator cfg = applyOperatorDefaults (fc_Operator fc) (fc_HasOperator fc)" "cf_Stale cfg = applyWorkerDefaults (fc_Stale fc)"
    using assms unfolding LoadConfig_def fc option.case Let_def
    by (auto split: if_splits sum.splits prod.splits option.splits(2))
  from l(1) obtain ws0 where "loadAgents y stat (case cd_agents d of None \<Rightarrow> [] | Some fs \<Rightarrow> fs) [] [] = Inr (cf_Agents cfg, ws0)" ..
  from loadAgents_ok [OF this] loadWorkflows_ok [OF l(2)] trigger_labels_distinct [OF l(3)]
  show ?thesis unfolding config_ok_def l(4,5) by (simp add: defaults_ok)
qed

definition demo_agent_file :: string where
  "demo_agent_file = ''---'' @ newline @ ''name: dev'' @ newline @ ''---'' @ newline @ ''Do the work.''"

definition demo_config_yaml :: config_yaml where
  "demo_config_yaml = \<lparr>cy_config = (\<lambda>_. None),
     cy_agent = (\<lambda>_. Some (empty_agent\<lparr>ac_Name := ''dev'', ac_Triggers := [\<lparr>tr_State = ''developing'', tr_Event = []\<rparr>],
       ac_Role := ''dev'', ac_Runtime := ''codex-exec'', ac_Context := [''Issue'']\<rparr>)),
     cy_workflow = (\<lambda>_. None), cy_states = (\<lambda>_. None)\<rparr>"

definition demo_config_dir :: config_dir where
  "demo_config_dir = \<lparr>cd_is_dir = True, cd_config = None, cd_agents = Some [(''dev.md'', Some demo_agent_file)], cd_workflows = None\<rparr>"

theorem LoadConfig_ok_witness:
  "\<exists>cfg ws. LoadConfig demo_config_yaml (\<lambda>_. True) demo_config_dir = Inr (cfg, ws) \<and>
     map (ac_Runtime \<circ> snd) (cf_Agents cfg) = [''codex''] \<and> config_ok (\<lambda>_. True) cfg"
proof -
  have "(case LoadConfig demo_config_yaml (\<lambda>_. True) demo_config_dir of Inl _ \<Rightarrow> False
      | Inr (cfg, _) \<Rightarrow> map (ac_Runtime \<circ> snd) (cf_Agents cfg) = [''codex''])" by code_simp
  then obtain cfg ws where load: "LoadConfig demo_config_yaml (\<lambda>_. True) demo_config_dir = Inr (cfg, ws)"
    "map (ac_Runtime \<circ> snd) (cf_Agents cfg) = [''codex'']" by (auto split: sum.splits)
  show ?thesis using load LoadConfig_ok [OF load(1)] by (intro exI [of _ cfg] exI [of _ ws]) simp
qed

end
