(* ===== verification/Repo_Registration.thy ===== *)
theory Repo_Registration
  imports Agent_Config
begin

text \<open>
  Registrations of repositories: the table \<^verbatim>\<open>repo_registrations\<close> of
  \<^verbatim>\<open>internal/store\<close> and the building and decoding of a registration
  (\<^verbatim>\<open>internal/app/repo_runtime.go\<close>).

  \<^item> The configuration column holds JSON. \<open>CText p\<close> is text that decodes to the payload \<open>p\<close>, which
    is also what marshalling \<open>p\<close> writes; \<open>CBad s\<close> is text \<open>s\<close> that is not valid (the empty text
    among them). A JSON \<^verbatim>\<open>null\<close> among the agents or workflows is \<open>None\<close>.
  \<^item> The operations take the table and the store whose clock and failures they see.

  Shown here: a registration that was built decodes again, to a well-formed configuration, and
  building from that gives the same registration; the poll interval of the payload is lost.
\<close>

section \<open>Data\<close>

record RepoRegistrationPayload =
  rp_Repo :: string
  rp_Environment :: string
  rp_PollInterval :: duration
  rp_Agents :: "AgentConfig option list"
  rp_Workflows :: "WorkflowConfig option list"

datatype config_text = CText RepoRegistrationPayload | CBad string

definition empty_payload :: RepoRegistrationPayload where
  "empty_payload = \<lparr>rp_Repo = [], rp_Environment = [], rp_PollInterval = 0, rp_Agents = [], rp_Workflows = []\<rparr>"

record RepoRegistrationRecord =
  rr_Repo :: string
  rr_Environment :: string
  rr_Status :: string
  rr_ConfigJSON :: config_text
  rr_RegisteredAt :: time
  rr_UpdatedAt :: time

type_synonym registrations = "(string \<times> RepoRegistrationRecord) list"

section \<open>The table\<close>

definition blank_text :: "config_text \<Rightarrow> bool" where
  "blank_text t \<longleftrightarrow> (case t of CText _ \<Rightarrow> False | CBad s \<Rightarrow> trim_space s = [])"

definition UpsertRepoRegistration :: "RepoRegistrationRecord \<Rightarrow> store \<Rightarrow> registrations \<Rightarrow> registrations \<times> unit result" where
  "UpsertRepoRegistration rec0 s tbl =
     (let rec1 = (if trim_space (rr_Status rec0) = [] then rec0\<lparr>rr_Status := ''active''\<rparr> else rec0);
          rec = (if blank_text (rr_ConfigJSON rec1) then rec1\<lparr>rr_ConfigJSON := CText empty_payload\<rparr> else rec1)
      in if faults s OpUpsertRegistration then (tbl, Inl (DBError OpUpsertRegistration))
         else (AList.update (rr_Repo rec)
                 (case map_of tbl (rr_Repo rec) of
                    None \<Rightarrow> rec\<lparr>rr_RegisteredAt := db_now s, rr_UpdatedAt := db_now s\<rparr>
                  | Some old \<Rightarrow> old\<lparr>rr_Environment := rr_Environment rec, rr_Status := rr_Status rec,
                      rr_ConfigJSON := rr_ConfigJSON rec, rr_UpdatedAt := db_now s\<rparr>) tbl, Inr ()))"

definition GetRepoRegistration :: "string \<Rightarrow> store \<Rightarrow> registrations \<Rightarrow> RepoRegistrationRecord option result" where
  "GetRepoRegistration repo s tbl =
     (if faults s OpGetRegistration then Inl (DBError OpGetRegistration) else Inr (map_of tbl repo))"

definition ListRepoRegistrations :: "store \<Rightarrow> registrations \<Rightarrow> RepoRegistrationRecord list result" where
  "ListRepoRegistrations s tbl =
     (if faults s OpListRegistrations then Inl (DBError OpListRegistrations) else Inr (map snd (sort_key fst tbl)))"

definition DeleteRepoRegistration :: "string \<Rightarrow> store \<Rightarrow> registrations \<Rightarrow> registrations \<times> unit result" where
  "DeleteRepoRegistration repo s tbl =
     (if faults s OpDeleteRegistration then (tbl, Inl (DBError OpDeleteRegistration)) else (AList.delete repo tbl, Inr ()))"

section \<open>Building and decoding\<close>

datatype registration_error = BadConfigText | BadAgent string load_error | BadWorkflows config_error | PayloadRequired

definition BuildRepoRegistrationPayload :: "FullConfig \<Rightarrow> RepoRegistrationPayload" where
  "BuildRepoRegistrationPayload cfg =
     \<lparr>rp_Repo = trim_space (gc_Repo (cf_Global cfg)), rp_Environment = trim_space (gc_Environment (cf_Global cfg)),
      rp_PollInterval = gc_PollInterval (cf_Global cfg),
      rp_Agents = map (\<lambda>(_, a). Some (a\<lparr>ac_SourcePath := []\<rparr>)) (cf_Agents cfg),
      rp_Workflows = map (\<lambda>(_, w). Some w) (cf_Workflows cfg)\<rparr>"

fun decodeAgents :: "(schema_path \<Rightarrow> bool) \<Rightarrow> AgentConfig option list \<Rightarrow> (string \<times> AgentConfig) list \<Rightarrow>
    registration_error + (string \<times> AgentConfig) list" where
  "decodeAgents stat [] as = Inr as"
| "decodeAgents stat (None # rest) as = decodeAgents stat rest as"
| "decodeAgents stat (Some a # rest) as =
     (case normalizeAgentConfig stat (a\<lparr>ac_SourcePath := []\<rparr>) of
        Inl e \<Rightarrow> Inl (BadAgent (ac_Name a) e)
      | Inr (a', _) \<Rightarrow> decodeAgents stat rest (AList.update (ac_Name a') a' as))"

fun decodeWorkflows :: "WorkflowConfig option list \<Rightarrow> (string \<times> WorkflowConfig) list \<Rightarrow> (string \<times> WorkflowConfig) list" where
  "decodeWorkflows [] ws = ws"
| "decodeWorkflows (None # rest) ws = decodeWorkflows rest ws"
| "decodeWorkflows (Some w # rest) ws = decodeWorkflows rest (AList.update (wf_Name w) w ws)"

text \<open>The operator and worker sections of the configuration keep Go's zero values.\<close>

definition DecodeRepoRegistrationConfig ::
  "(schema_path \<Rightarrow> bool) \<Rightarrow> RepoRegistrationRecord \<Rightarrow> registration_error + FullConfig" where
  "DecodeRepoRegistrationConfig stat rec =
     (case rr_ConfigJSON rec of
        CBad _ \<Rightarrow> Inl BadConfigText
      | CText p \<Rightarrow>
         (case decodeAgents stat (rp_Agents p) [] of
            Inl e \<Rightarrow> Inl e
          | Inr as \<Rightarrow>
             (let ws = decodeWorkflows (rp_Workflows p) []
              in case validateWorkflowTriggerConflicts ws of
                   Some e \<Rightarrow> Inl (BadWorkflows e)
                 | None \<Rightarrow> Inr \<lparr>cf_Global = \<lparr>gc_Repo = rr_Repo rec, gc_Environment = rr_Environment rec,
                       gc_PollInterval = rp_PollInterval p, gc_Port = 0\<rparr>,
                     cf_Operator = fc_Operator no_file_config, cf_Stale = fc_Stale no_file_config, cf_Agents = as, cf_Workflows = ws\<rparr>)))"

definition BuildRepoRegistrationRecord ::
  "(schema_path \<Rightarrow> bool) \<Rightarrow> RepoRegistrationPayload option \<Rightarrow> registration_error + RepoRegistrationRecord" where
  "BuildRepoRegistrationRecord stat payload =
     (case payload of
        None \<Rightarrow> Inl PayloadRequired
      | Some p \<Rightarrow>
         (let candidate = p\<lparr>rp_Repo := trim_space (rp_Repo p), rp_Environment := trim_space (rp_Environment p), rp_PollInterval := 0\<rparr>;
              rec = \<lparr>rr_Repo = rp_Repo candidate, rr_Environment = rp_Environment candidate, rr_Status = ''active'',
                     rr_ConfigJSON = CText candidate, rr_RegisteredAt = 0, rr_UpdatedAt = 0\<rparr>
          in case DecodeRepoRegistrationConfig stat rec of
               Inl e \<Rightarrow> Inl e
             | Inr cfg \<Rightarrow>
                (let np = BuildRepoRegistrationPayload cfg
                 in Inr (rec\<lparr>rr_Environment := rp_Environment np, rr_ConfigJSON := CText np\<rparr>))))"

section \<open>Decoding what was built\<close>

definition agents_normal :: "(schema_path \<Rightarrow> bool) \<Rightarrow> (string \<times> AgentConfig) list \<Rightarrow> bool" where
  "agents_normal stat as \<longleftrightarrow> distinct (map fst as) \<and>
     (\<forall>(name, a) \<in> set as. ac_Name a = name \<and> ac_SourcePath a = [] \<and> agent_ok a \<and> checkSchema stat a = None)"

lemma normalize_source: "normalizeAgentConfig stat a = Inr (a', ws) \<Longrightarrow> ac_SourcePath a' = ac_SourcePath a"
  by (auto simp: normalizeAgentConfig_def Let_def split: option.splits sum.splits if_splits)

lemma decodeAgents_normal: "decodeAgents stat raw as = Inr as' \<Longrightarrow> agents_normal stat as \<Longrightarrow> agents_normal stat as'"
proof (induction stat raw as rule: decodeAgents.induct)
  case (3 stat a rest as)
  then obtain a' ws where a': "normalizeAgentConfig stat (a\<lparr>ac_SourcePath := []\<rparr>) = Inr (a', ws)"
    "decodeAgents stat rest (AList.update (ac_Name a') a' as) = Inr as'" by (auto split: sum.splits)
  have "agents_normal stat (AList.update (ac_Name a') a' as)"
    using 3(3) normalizeAgentConfig_ok [OF a'(1)] normalize_source [OF a'(1)]
    by (auto simp: agents_normal_def distinct_update dest: set_update_subset [THEN subsetD])
  then show ?case using 3(1) [OF a'(1) refl a'(2)] by blast
qed simp_all

lemma update_new: "k \<notin> fst ` set t \<Longrightarrow> AList.update k v t = t @ [(k, v)]"
  by (induction t) auto

lemma decodeAgents_fixed:
  "agents_normal stat (as @ bs) \<Longrightarrow> decodeAgents stat (map (\<lambda>(_, a). Some (a\<lparr>ac_SourcePath := []\<rparr>)) bs) as = Inr (as @ bs)"
proof (induction bs arbitrary: as)
  case (Cons b bs)
  obtain name a where b: "b = (name, a)" by (rule prod.exhaust)
  have ok: "ac_Name a = name" "ac_SourcePath a = []" "agent_ok a" "checkSchema stat a = None" "name \<notin> fst ` set as"
    using Cons.prems by (auto simp: agents_normal_def b)
  then have src: "a\<lparr>ac_SourcePath := []\<rparr> = a" by simp
  obtain ws where "normalizeAgentConfig stat a = Inr (a, ws)" using normalizeAgentConfig_fixed ok(3,4) .
  then show ?case using Cons.IH [of "as @ [b]"] Cons.prems ok(1,5) by (simp add: b src update_new)
qed simp

lemma decodeWorkflows_named:
  "distinct (map fst ws) \<and> (\<forall>(name, w) \<in> set ws. wf_Name w = name) \<Longrightarrow>
   distinct (map fst (decodeWorkflows raw ws)) \<and> (\<forall>(name, w) \<in> set (decodeWorkflows raw ws). wf_Name w = name)"
proof (induction raw ws rule: decodeWorkflows.induct)
  case (3 w rest ws)
  then show ?case by (auto simp: distinct_update intro!: 3(1) dest: set_update_subset [THEN subsetD])
qed simp_all

lemma decodeWorkflows_fixed:
  "distinct (map fst (ws @ vs)) \<Longrightarrow> \<forall>(name, w) \<in> set vs. wf_Name w = name \<Longrightarrow>
   decodeWorkflows (map (\<lambda>(_, w). Some w) vs) ws = ws @ vs"
  by (induction vs arbitrary: ws) (auto simp: update_new)

lemma decode_built:
  assumes "DecodeRepoRegistrationConfig stat rec = Inr cfg" "rr_ConfigJSON rec = CText p" "rp_PollInterval p = 0"
    and "trim_space (rr_Repo rec) = rr_Repo rec" "trim_space (rr_Environment rec) = rr_Environment rec"
  shows "DecodeRepoRegistrationConfig stat (rec\<lparr>rr_ConfigJSON := CText (BuildRepoRegistrationPayload cfg)\<rparr>) = Inr cfg"
    and "agents_normal stat (cf_Agents cfg)" "gc_PollInterval (cf_Global cfg) = 0"
    and "BuildRepoRegistrationPayload cfg = (BuildRepoRegistrationPayload cfg)\<lparr>rp_Repo := rr_Repo rec,
      rp_Environment := rr_Environment rec, rp_PollInterval := 0\<rparr>"
proof -
  let ?ws = "decodeWorkflows (rp_Workflows p) []"
  obtain as where as: "decodeAgents stat (rp_Agents p) [] = Inr as" and ok: "validateWorkflowTriggerConflicts ?ws = None"
    and cfg: "cfg = \<lparr>cf_Global = \<lparr>gc_Repo = rr_Repo rec, gc_Environment = rr_Environment rec, gc_PollInterval = 0, gc_Port = 0\<rparr>,
      cf_Operator = fc_Operator no_file_config, cf_Stale = fc_Stale no_file_config, cf_Agents = as, cf_Workflows = ?ws\<rparr>"
    using assms(1-3) by (auto simp: DecodeRepoRegistrationConfig_def Let_def split: sum.splits option.splits)
  have normal: "agents_normal stat as" using decodeAgents_normal [OF as] by (simp add: agents_normal_def)
  have ws: "distinct (map fst ?ws)" "\<forall>(name, w) \<in> set ?ws. wf_Name w = name"
    using decodeWorkflows_named [of "[]" "rp_Workflows p"] by simp_all
  show "agents_normal stat (cf_Agents cfg)" "gc_PollInterval (cf_Global cfg) = 0" using normal by (simp_all add: cfg)
  show "BuildRepoRegistrationPayload cfg = (BuildRepoRegistrationPayload cfg)\<lparr>rp_Repo := rr_Repo rec,
      rp_Environment := rr_Environment rec, rp_PollInterval := 0\<rparr>"
    using assms(4,5) by (simp add: BuildRepoRegistrationPayload_def cfg)
  show "DecodeRepoRegistrationConfig stat (rec\<lparr>rr_ConfigJSON := CText (BuildRepoRegistrationPayload cfg)\<rparr>) = Inr cfg"
    using decodeAgents_fixed [of stat "[]" as] normal decodeWorkflows_fixed [of "[]" ?ws] ws ok
    by (simp add: DecodeRepoRegistrationConfig_def BuildRepoRegistrationPayload_def cfg Let_def)
qed

section \<open>Properties\<close>

text \<open>A registration survives its way through the database: whenever a registration is built
  from a payload, the stored record decodes, to a configuration for the same repository whose
  agents are normalised and named, and building a registration from that configuration gives
  the same record again. The poll interval is not part of it: it is always zero.\<close>

theorem registration_roundtrip:
  assumes "BuildRepoRegistrationRecord stat (Some p) = Inr rec"
  shows "\<exists>cfg. DecodeRepoRegistrationConfig stat rec = Inr cfg \<and> gc_Repo (cf_Global cfg) = trim_space (rp_Repo p) \<and>
    agents_normal stat (cf_Agents cfg) \<and> gc_PollInterval (cf_Global cfg) = 0 \<and>
    BuildRepoRegistrationRecord stat (Some (BuildRepoRegistrationPayload cfg)) = Inr rec"
proof -
  define c where "c = p\<lparr>rp_Repo := trim_space (rp_Repo p), rp_Environment := trim_space (rp_Environment p), rp_PollInterval := 0\<rparr>"
  define r0 where "r0 = \<lparr>rr_Repo = rp_Repo c, rr_Environment = rp_Environment c, rr_Status = ''active'', rr_ConfigJSON = CText c,
    rr_RegisteredAt = 0, rr_UpdatedAt = 0\<rparr>"
  have c: "trim_space (rp_Repo c) = rp_Repo c" "trim_space (rp_Environment c) = rp_Environment c" "rp_PollInterval c = 0"
    by (simp_all add: c_def)
  obtain cfg where dec: "DecodeRepoRegistrationConfig stat r0 = Inr cfg"
    and rec0: "rec = r0\<lparr>rr_Environment := rp_Environment (BuildRepoRegistrationPayload cfg), rr_ConfigJSON := CText (BuildRepoRegistrationPayload cfg)\<rparr>"
    using assms unfolding BuildRepoRegistrationRecord_def option.case Let_def c_def [symmetric] r0_def [symmetric]
    by (auto split: sum.splits)
  let ?np = "BuildRepoRegistrationPayload cfg"
  have b: "DecodeRepoRegistrationConfig stat (r0\<lparr>rr_ConfigJSON := CText ?np\<rparr>) = Inr cfg" "agents_normal stat (cf_Agents cfg)"
      "gc_PollInterval (cf_Global cfg) = 0" "?np = ?np\<lparr>rp_Repo := rr_Repo r0, rp_Environment := rr_Environment r0, rp_PollInterval := 0\<rparr>"
    using decode_built [OF dec] c by (simp_all add: r0_def)
  have np: "rp_Repo ?np = rp_Repo c" "rp_Environment ?np = rp_Environment c" "rp_PollInterval ?np = 0"
    using b(4) by (metis RepoRegistrationPayload.select_convs(1-3) RepoRegistrationPayload.surjective RepoRegistrationPayload.update_convs(1-3)
      RepoRegistrationRecord.select_convs(1,2) r0_def)+
  have r: "rec = r0\<lparr>rr_ConfigJSON := CText ?np\<rparr>" using np(2) by (simp add: rec0 r0_def)
  have "?np\<lparr>rp_Repo := trim_space (rp_Repo ?np), rp_Environment := trim_space (rp_Environment ?np), rp_PollInterval := 0\<rparr> = ?np"
    using np c b(4) by (simp add: r0_def)
  then have "BuildRepoRegistrationRecord stat (Some ?np) = Inr rec"
    using b(1) np by (simp add: BuildRepoRegistrationRecord_def Let_def r r0_def)
  moreover have "gc_Repo (cf_Global cfg) = trim_space (rp_Repo p)"
    using dec by (auto simp: DecodeRepoRegistrationConfig_def r0_def c_def Let_def split: sum.splits option.splits)
  ultimately show ?thesis using b(1-3) by (simp add: r)
qed

definition demo_payload :: RepoRegistrationPayload where
  "demo_payload = \<lparr>rp_Repo = '' o/r'', rp_Environment = [], rp_PollInterval = minute,
     rp_Agents = [None, Some (empty_agent\<lparr>ac_Name := ''dev'', ac_Runtime := ''codex-exec''\<rparr>)], rp_Workflows = []\<rparr>"

theorem registration_roundtrip_witness:
  "\<exists>rec cfg. BuildRepoRegistrationRecord (\<lambda>_. False) (Some demo_payload) = Inr rec \<and>
     DecodeRepoRegistrationConfig (\<lambda>_. False) rec = Inr cfg \<and> gc_Repo (cf_Global cfg) = ''o/r'' \<and>
     gc_PollInterval (cf_Global cfg) = 0"
proof -
  have "\<not> isl (BuildRepoRegistrationRecord (\<lambda>_. False) (Some demo_payload))" by code_simp
  then obtain rec where r: "BuildRepoRegistrationRecord (\<lambda>_. False) (Some demo_payload) = Inr rec"
    by (cases "BuildRepoRegistrationRecord (\<lambda>_. False) (Some demo_payload)") auto
  have "trim_space (rp_Repo demo_payload) = ''o/r''" by code_simp
  with registration_roundtrip [OF r] r show ?thesis by auto
qed

end
