(* ===== verification/Security.thy ===== *)
theory Security
  imports Poller
begin

text \<open>
  The allow list of issue authors (\<^verbatim>\<open>internal/security\<close>) and the check of events against
  it (\<^verbatim>\<open>internal/app/security_event.go\<close>).

  \<^item> Reading the configuration file is an argument: a missing file, an error, or its content.
    YAML is a library; \<open>None\<close> is its error. The file watcher only decides when
    \<^verbatim>\<open>reloadFromFile\<close> runs.
  \<^item> The index of a snapshot is the list of the normalised names.

  Shown here: who is allowed, exactly; that a failed reload keeps the old list; and that resync
  events pass the check whoever the author is, although they carry one.
\<close>

definition SourceNone :: string where "SourceNone = ''none''"
definition SourceFlag :: string where "SourceFlag = ''flag''"
definition SourceEnv :: string where "SourceEnv = ''env''"
definition SourceFile :: string where "SourceFile = ''file''"

record Snapshot =
  sn_TrustedAuthors :: "string list"
  sn_Source :: string
  sn_index :: "string list"

record Options =
  op_FlagValue :: string
  op_FlagSet :: bool
  op_EnvValue :: string
  op_FilePath :: string

datatype file_answer = FileMissing | FileError | FileContent string

definition normalizeAuthor :: "string \<Rightarrow> string" where
  "normalizeAuthor a = map lower_char (trim_space a)"

fun addAuthors :: "string list \<Rightarrow> string list \<Rightarrow> string list \<Rightarrow> string list" where
  "addAuthors seen out [] = out"
| "addAuthors seen out (part # parts) =
     (let t = trim_space part
      in if t = [] then addAuthors seen out parts
         else if normalizeAuthor t \<in> set seen then addAuthors seen out parts
         else addAuthors (set_add (normalizeAuthor t) seen) (out @ [t]) parts)"

definition parseAuthorList :: "string \<Rightarrow> string list" where
  "parseAuthorList raw = (if trim_space raw = [] then [] else addAuthors [] [] (split_on (CHR '','') raw))"

definition newSnapshot :: "string list \<Rightarrow> string \<Rightarrow> Snapshot" where
  "newSnapshot authors source =
     (let normalized = parseAuthorList (join_with '','' authors)
      in \<lparr>sn_TrustedAuthors = normalized, sn_Source = source,
          sn_index = fold (\<lambda>a. set_add (normalizeAuthor a)) normalized []\<rparr>)"

definition Allows :: "string \<Rightarrow> Snapshot \<Rightarrow> bool" where
  "Allows author s \<longleftrightarrow> sn_index s = [] \<or> normalizeAuthor author \<in> set (sn_index s)"

definition IsRestricted :: "Snapshot \<Rightarrow> bool" where
  "IsRestricted s \<longleftrightarrow> sn_TrustedAuthors s \<noteq> []"

definition loadFileSnapshot :: "(string \<Rightarrow> string list option) \<Rightarrow> (string \<Rightarrow> file_answer) \<Rightarrow> string \<Rightarrow> Snapshot option" where
  "loadFileSnapshot yml read path0 =
     (let path = trim_space path0
      in if path = [] then Some (newSnapshot [] SourceNone)
         else case read path of
                FileMissing \<Rightarrow> Some (newSnapshot [] SourceNone)
              | FileError \<Rightarrow> None
              | FileContent text \<Rightarrow> map_option (\<lambda>authors. newSnapshot authors SourceFile) (yml text))"

definition loadInitial ::
  "(string \<Rightarrow> string list option) \<Rightarrow> (string \<Rightarrow> file_answer) \<Rightarrow> Options \<Rightarrow> Snapshot option \<times> bool" where
  "loadInitial yml read opts =
     (if op_FlagSet opts then (Some (newSnapshot (parseAuthorList (op_FlagValue opts)) SourceFlag), False)
      else if trim_space (op_EnvValue opts) \<noteq> [] then (Some (newSnapshot (parseAuthorList (op_EnvValue opts)) SourceEnv), False)
      else (loadFileSnapshot yml read (op_FilePath opts), True))"

record security_runtime =
  sr_filePath :: string
  sr_value :: Snapshot

definition NewRuntime ::
  "(string \<Rightarrow> string list option) \<Rightarrow> (string \<Rightarrow> file_answer) \<Rightarrow> Options \<Rightarrow> (security_runtime \<times> bool) option" where
  "NewRuntime yml read opts =
     (case loadInitial yml read opts of
        (None, _) \<Rightarrow> None
      | (Some s, watch) \<Rightarrow> Some (\<lparr>sr_filePath = trim_space (op_FilePath opts), sr_value = s\<rparr>, watch))"

definition reloadFromFile ::
  "(string \<Rightarrow> string list option) \<Rightarrow> (string \<Rightarrow> file_answer) \<Rightarrow> security_runtime \<Rightarrow> security_runtime" where
  "reloadFromFile yml read r =
     (case loadFileSnapshot yml read (sr_filePath r) of None \<Rightarrow> r | Some s \<Rightarrow> r\<lparr>sr_value := s\<rparr>)"

definition AllowSecurityEvent :: "security_runtime option \<Rightarrow> ChangeEvent \<Rightarrow> bool" where
  "AllowSecurityEvent sec ev =
     (case sec of
        None \<Rightarrow> True
      | Some r \<Rightarrow>
          if ce_Type ev \<notin> {EventIssueCreated, EventLabelAdded, EventLabelRemoved} then True
          else \<not> IsRestricted (sr_value r) \<or> Allows (ce_Author ev) (sr_value r))"

section \<open>Who is allowed\<close>

text \<open>The names a list of entries denotes: entries may hold several names separated by commas.\<close>

definition author_names :: "string list \<Rightarrow> string set" where
  "author_names authors = normalizeAuthor ` set (filter (\<lambda>p. trim_space p \<noteq> []) (concat (map (split_on (CHR '','')) authors)))"

lemma normalizeAuthor_trim [simp]: "normalizeAuthor (trim_space a) = normalizeAuthor a"
  by (simp add: normalizeAuthor_def)

lemma addAuthors_names:
  assumes "set seen = normalizeAuthor ` set out"
  shows "normalizeAuthor ` set (addAuthors seen out parts) =
    normalizeAuthor ` set out \<union> {normalizeAuthor p | p. p \<in> set parts \<and> trim_space p \<noteq> []}"
  using assms
proof (induction seen out parts rule: addAuthors.induct)
  case (2 seen out part parts)
  let ?t = "trim_space part"
  consider "?t = []" | "?t \<noteq> []" "normalizeAuthor part \<in> set seen" | "?t \<noteq> []" "normalizeAuthor part \<notin> set seen" by blast
  then show ?case
  proof cases
    case 3
    then show ?thesis using 2(3) [of ?t] 2(4) by (auto simp: Let_def)
  qed (use 2 in \<open>auto simp: Let_def\<close>)
qed simp

lemma split_on_join: "authors \<noteq> [] \<Longrightarrow> set (split_on c (join_with [c] authors)) = (\<Union>a \<in> set authors. set (split_on c a))"
  by (induction "[c]" authors rule: join_with.induct) (auto simp: split_on_append)

lemma index_names: "set (fold (\<lambda>a. set_add (normalizeAuthor a)) as acc) = normalizeAuthor ` set as \<union> set acc"
  by (induction as arbitrary: acc) auto

lemma split_on_chars: "p \<in> set (split_on c s) \<Longrightarrow> set p \<subseteq> set s"
proof (induction s arbitrary: p)
  case (Cons x s)
  then show ?case by (cases "split_on c s") (fastforce split: if_splits)+
qed simp

lemma parseAuthorList_names:
  "normalizeAuthor ` set (parseAuthorList raw) = {normalizeAuthor p | p. p \<in> set (split_on (CHR '','') raw) \<and> trim_space p \<noteq> []}"
proof (cases "trim_space raw = []")
  case True
  then show ?thesis using split_on_chars [of _ "CHR '',''" raw] by (auto simp: parseAuthorList_def trim_space_blank)
qed (simp add: parseAuthorList_def addAuthors_names)

lemma newSnapshot_names: "set (sn_index (newSnapshot authors src)) = author_names authors"
proof (cases "authors = []")
  case True
  then show ?thesis by (simp add: newSnapshot_def parseAuthorList_def author_names_def Let_def)
next
  case False
  then show ?thesis
    by (auto simp: newSnapshot_def Let_def index_names parseAuthorList_names split_on_join author_names_def)
qed

lemma newSnapshot_restricted: "IsRestricted (newSnapshot authors src) \<longleftrightarrow> author_names authors \<noteq> {}"
  using newSnapshot_names [of authors src] by (auto simp: IsRestricted_def newSnapshot_def Let_def index_names)

section \<open>Properties\<close>

text \<open>C16. With an allow list in force, an event about a new issue or a label change is let through
  exactly when its author is on the list, up to case and surrounding white space; an empty list
  restricts nobody.\<close>

theorem allow_list_exact:
  assumes "ce_Type ev \<in> {EventIssueCreated, EventLabelAdded, EventLabelRemoved}" "sr_value r = newSnapshot authors src"
  shows "AllowSecurityEvent (Some r) ev \<longleftrightarrow> author_names authors = {} \<or> normalizeAuthor (ce_Author ev) \<in> author_names authors"
  using assms newSnapshot_restricted [of authors src] newSnapshot_names [of authors src]
  by (auto simp: AllowSecurityEvent_def Allows_def)

definition demo_security :: security_runtime where
  "demo_security = \<lparr>sr_filePath = [], sr_value = newSnapshot ['' Alice, bob''] SourceFlag\<rparr>"

definition demo_change :: "string \<Rightarrow> string \<Rightarrow> ChangeEvent" where
  "demo_change ty author = \<lparr>ce_Type = ty, ce_Repo = ''o/r'', ce_IssueNum = 7, ce_Labels = [''workbuddy''], ce_Detail = [], ce_Author = author\<rparr>"

theorem allow_list_exact_witness:
  "AllowSecurityEvent (Some demo_security) (demo_change ''issue_created'' ''ALICE'') \<and>
   \<not> AllowSecurityEvent (Some demo_security) (demo_change ''issue_created'' ''mallory'')"
proof -
  have sec: "sr_value demo_security = newSnapshot ['' Alice, bob''] SourceFlag" by (simp add: demo_security_def)
  have names: "author_names ['' Alice, bob''] = {''alice'', ''bob''}"
    by code_simp
  have "normalizeAuthor ''ALICE'' = ''alice''" "normalizeAuthor ''mallory'' = ''mallory''" by code_simp+
  moreover have "ce_Type (demo_change ''issue_created'' a) \<in> {EventIssueCreated, EventLabelAdded, EventLabelRemoved}"
    "ce_Author (demo_change ty a) = a" for ty a by (simp_all add: demo_change_def EventIssueCreated_def)
  ultimately show ?thesis using allow_list_exact [OF _ sec] names by simp
qed

text \<open>The allow list does not cover resync events. They carry the author of the issue and make
  the state machine enter states, but the check lets them through whoever the author is.\<close>

theorem resync_bypasses_allow_list:
  "AllowSecurityEvent sec (ev\<lparr>ce_Type := EventIssueResynced\<rparr>)"
  by (simp add: AllowSecurityEvent_def EventIssueResynced_def EventIssueCreated_def EventLabelAdded_def EventLabelRemoved_def
      split: option.split)

end
