(* ===== verification/Repo_Runtime.thy ===== *)
theory Repo_Runtime
  imports Repo_Registration Resolver Security SM_Completion
begin

text \<open>
  The manager of the per-repository runtimes (\<^verbatim>\<open>internal/app/repo_runtime.go\<close>): starting,
  updating and stopping a repository, the path of a poller event through the author check, the
  dependency resolver and the state machine, and the recovery of issues whose work got lost.

  \<^item> The runtimes share the database, the event log and the alert bus of the manager; \<open>run_in\<close>
    lends them to the state machine of one runtime and takes them back. What a runtime sent on
    its dispatch channel stays in its state machine.
  \<^item> The goroutines that a start spawns (poller, router, forwarding of events) are not part of
    the state: their events and requests are the arguments and results of the operations here.
  \<^item> \<open>pm_env\<close> collects what the outside answers: the GitHub reader of a repository (\<open>None\<close> when none
    can be built), its check before the start, whether a runtime stops within five seconds,
    whether setting a reaction on an issue succeeds, the host name and the process id.
\<close>

section \<open>State\<close>

definition TypePeriodicRecoveryTick :: string where "TypePeriodicRecoveryTick = ''periodic_recovery_tick''"

type_synonym issue_reader = "string \<Rightarrow> int \<Rightarrow> string + IssueDetails"

record pm_env =
  en_ctx :: ctx
  en_resolver_ctx :: "nat option"
  en_yaml :: yaml_lib
  en_uuids :: "nat \<Rightarrow> string"
  en_span_trace :: "string \<Rightarrow> string"
  en_stat :: "schema_path \<Rightarrow> bool"
  en_reader :: "RepoRegistrationRecord \<Rightarrow> issue_reader option"
  en_precheck :: "string \<Rightarrow> bool"
  en_stops :: "string \<Rightarrow> bool"
  en_react :: "string \<Rightarrow> int \<Rightarrow> bool \<Rightarrow> bool"
  en_reporter :: bool
  en_host :: "string option"
  en_pid :: int

record RepoRuntime =
  rt_Registration :: RepoRegistrationRecord
  rt_Config :: FullConfig
  rt_sm :: sm
  rt_reader :: issue_reader
  rt_cancelled :: bool
  rt_depsResolved :: bool
  rt_depGraphVersion :: int

record PollerManager =
  pm_db :: store
  pm_registrations :: registrations
  pm_events :: "Event list"
  pm_alerts :: "AlertEvent list option"
  pm_uuid_pos :: nat
  pm_runtimes :: "(string \<times> RepoRuntime) list"
  pm_security :: "security_runtime option"
  pm_reactions :: "(string \<times> int \<times> bool) list"

definition pm_log :: "string \<Rightarrow> string \<Rightarrow> int \<Rightarrow> (string \<times> pval) list \<Rightarrow> PollerManager \<Rightarrow> PollerManager" where
  "pm_log ty repo n p pm = pm\<lparr>pm_events := pm_events pm @
     [\<lparr>ev_Type = ty, ev_Repo = repo, ev_IssueNum = n, ev_Payload = p\<rparr>]\<rparr>"

definition lend :: "sm \<Rightarrow> PollerManager \<Rightarrow> sm" where
  "lend s pm = s\<lparr>db := pm_db pm, events := pm_events pm, alerts := pm_alerts pm, uuid_pos := pm_uuid_pos pm\<rparr>"

definition take_back :: "sm \<Rightarrow> PollerManager \<Rightarrow> PollerManager" where
  "take_back s pm = pm\<lparr>pm_db := db s, pm_events := events s, pm_alerts := alerts s, pm_uuid_pos := uuid_pos s\<rparr>"

definition set_runtime :: "string \<Rightarrow> RepoRuntime \<Rightarrow> PollerManager \<Rightarrow> PollerManager" where
  "set_runtime repo rt pm = pm\<lparr>pm_runtimes := AList.update repo rt (pm_runtimes pm)\<rparr>"

definition run_in :: "string \<Rightarrow> RepoRuntime \<Rightarrow> 'a prog \<Rightarrow> PollerManager \<Rightarrow> PollerManager \<times> 'a" where
  "run_in repo rt p pm =
     (case run_state p (lend (rt_sm rt) pm) of
        (x, s) \<Rightarrow> (set_runtime repo (rt\<lparr>rt_sm := s\<rparr>) (take_back s pm), x))"

section \<open>Recovery of lost work\<close>

definition parseCachedLabels :: "labels_text \<Rightarrow> string list option" where
  "parseCachedLabels raw =
     (case raw of JText ls \<Rightarrow> Some ls | JBad s \<Rightarrow> if trim_space s = [] then Some [] else None)"

definition recoverableStateAgents :: "WState \<Rightarrow> string list" where
  "recoverableStateAgents st =
     (if Agents st \<noteq> [] then Agents st else if trim_space (Agent st) = [] then [] else [Agent st])"

text \<open>The matches of the two loops over workflows and states; a second one is an error.\<close>

definition activeMatches :: "(string \<times> WorkflowConfig) list \<Rightarrow> string list \<Rightarrow> (string \<times> string \<times> string list) list" where
  "activeMatches ws labels =
     concat (map (\<lambda>(_, w).
       (let trigger = trim_space (TriggerLabel w)
        in if trigger = [] \<or> trigger \<notin> set labels then []
           else concat (map (\<lambda>(name, st).
             if EnterLabel st = [] \<or> EnterLabel st \<notin> set labels \<or> recoverableStateAgents st = [] then []
             else [(wf_Name w, name, recoverableStateAgents st)]) (States w)))) ws)"

definition recoverableActiveState ::
  "FullConfig \<Rightarrow> string list \<Rightarrow> unit + (string \<times> string \<times> string list) option" where
  "recoverableActiveState cfg labels =
     (case activeMatches (cf_Workflows cfg) labels of [] \<Rightarrow> Inr None | [m] \<Rightarrow> Inr (Some m) | _ \<Rightarrow> Inl ())"

definition created_event :: "string \<Rightarrow> int \<Rightarrow> string list \<Rightarrow> ChangeEvent" where
  "created_event repo n labels = \<lparr>ce_Type = EventIssueCreated, ce_Repo = repo, ce_IssueNum = n, ce_Labels = labels,
     ce_Detail = [], ce_Author = []\<rparr>"

fun recoverEach :: "pm_env \<Rightarrow> string \<Rightarrow> (issue_key \<times> IssueCache) list \<Rightarrow> nat \<Rightarrow> PollerManager \<Rightarrow> PollerManager \<times> nat" where
  "recoverEach env repo [] count pm = (pm, count)"
| "recoverEach env repo (((r, n), cached) # rest) count pm =
     (case map_of (pm_runtimes pm) repo of
        None \<Rightarrow> (pm, count)
      | Some rt \<Rightarrow>
         if ic_State cached \<noteq> ''open'' then recoverEach env repo rest count pm
         else case parseCachedLabels (ic_Labels cached) of
                None \<Rightarrow> recoverEach env repo rest count pm
              | Some labels \<Rightarrow>
                 (case recoverableActiveState (rt_Config rt) labels of
                    Inl _ \<Rightarrow> recoverEach env repo rest count pm
                  | Inr None \<Rightarrow> recoverEach env repo rest count pm
                  | Inr (Some _) \<Rightarrow>
                     (case HasAnyActiveTask r n (pm_db pm) of
                        Inl _ \<Rightarrow> recoverEach env repo rest count pm
                      | Inr True \<Rightarrow> recoverEach env repo rest count pm
                      | Inr False \<Rightarrow>
                         (case run_in repo rt (HandleEvent (en_ctx env) (created_event r n labels)) pm of
                            (pm', Inl _) \<Rightarrow> recoverEach env repo rest count pm'
                          | (pm', Inr _) \<Rightarrow> recoverEach env repo rest (Suc count) pm'))))"

definition recoverOrphanedActiveStates :: "pm_env \<Rightarrow> string \<Rightarrow> PollerManager \<Rightarrow> PollerManager \<times> nat result" where
  "recoverOrphanedActiveStates env repo pm =
     (case ListIssueCaches repo (pm_db pm) of
        Inl e \<Rightarrow> (pm, Inl e)
      | Inr caches \<Rightarrow> (case recoverEach env repo caches 0 pm of (pm', k) \<Rightarrow> (pm', Inr k)))"

fun sweepRuntimes :: "pm_env \<Rightarrow> string list \<Rightarrow> nat \<Rightarrow> nat \<Rightarrow> PollerManager \<Rightarrow> PollerManager \<times> nat \<times> nat" where
  "sweepRuntimes env [] swept sent pm = (pm, swept, sent)"
| "sweepRuntimes env (repo # repos) swept sent pm =
     (case map_of (pm_runtimes pm) repo of
        None \<Rightarrow> sweepRuntimes env repos swept sent pm
      | Some rt \<Rightarrow>
         if rt_cancelled rt then sweepRuntimes env repos swept sent pm
         else (case recoverOrphanedActiveStates env repo pm of
                 (pm', Inl _) \<Rightarrow> sweepRuntimes env repos (Suc swept) sent pm'
               | (pm', Inr k) \<Rightarrow> sweepRuntimes env repos (Suc swept) (sent + k) pm'))"

definition runPeriodicRecoveryOnce :: "pm_env \<Rightarrow> PollerManager \<Rightarrow> PollerManager" where
  "runPeriodicRecoveryOnce env pm =
     (case sweepRuntimes env (map fst (pm_runtimes pm)) 0 0 pm of
        (pm', swept, sent) \<Rightarrow> pm_log TypePeriodicRecoveryTick [] 0
          [(''repos_swept'', PInt (int swept)), (''issues_redispatched'', PInt (int sent))] pm')"

section \<open>Starting and stopping\<close>

definition HostnameOrUnknown :: "string option \<Rightarrow> string" where
  "HostnameOrUnknown host =
     (case host of None \<Rightarrow> ''unknown'' | Some h \<Rightarrow> if trim_space h = [] then ''unknown'' else h)"

definition BuildIssueClaimerID :: "string option \<Rightarrow> int \<Rightarrow> string \<Rightarrow> int \<Rightarrow> string" where
  "BuildIssueClaimerID host own_pid base0 pid0 =
     (let base = (if trim_space base0 = [] then ''coordinator-'' @ HostnameOrUnknown host else trim_space base0)
      in base @ ''-pid-'' @ itoa (if pid0 \<le> 0 then own_pid else pid0))"

datatype pm_error =
    PMRegistration registration_error
  | PMReader
  | PMPreCheck
  | PMStopTimeout string
  | PMStore store_error

definition stopRepo :: "pm_env \<Rightarrow> string \<Rightarrow> PollerManager \<Rightarrow> PollerManager \<times> (pm_error + unit)" where
  "stopRepo env repo pm =
     (case map_of (pm_runtimes pm) repo of
        None \<Rightarrow> (pm, Inr ())
      | Some rt \<Rightarrow>
         (let pm1 = pm\<lparr>pm_runtimes := AList.delete repo (pm_runtimes pm)\<rparr>;
              pm2 = take_back (snd (run_state ReleaseAllIssueClaims (lend (rt_sm rt) pm1))) pm1
          in (pm2, if en_stops env repo then Inr () else Inl (PMStopTimeout repo))))"

fun stopEach :: "pm_env \<Rightarrow> string list \<Rightarrow> PollerManager \<Rightarrow> PollerManager" where
  "stopEach env [] pm = pm"
| "stopEach env (repo # repos) pm = stopEach env repos (fst (stopRepo env repo pm))"

definition stopAll :: "pm_env \<Rightarrow> PollerManager \<Rightarrow> PollerManager" where
  "stopAll env pm = stopEach env (map fst (pm_runtimes pm)) pm"

definition newRuntime :: "pm_env \<Rightarrow> RepoRegistrationRecord \<Rightarrow> FullConfig \<Rightarrow> issue_reader \<Rightarrow> PollerManager \<Rightarrow> RepoRuntime" where
  "newRuntime env rec cfg reader pm =
     (let sm0 = NewStateMachine (cf_Workflows cfg) (pm_db pm) (pm_alerts pm) (en_uuids env) (en_span_trace env) (en_yaml env);
          sm1 = SetIssueClaim (BuildIssueClaimerID (en_host env) (en_pid env) (''coordinator-'' @ HostnameOrUnknown (en_host env)) (en_pid env))
                  DefaultIssueClaimLease sm0;
          sm2 = (if en_reporter env then SetSynthesisNeedsHumanReporter (Some []) (SetCycleCapReporter (Some []) sm1) else sm1)
      in \<lparr>rt_Registration = rec, rt_Config = cfg, rt_sm = sm2, rt_reader = reader, rt_cancelled = False,
          rt_depsResolved = False, rt_depGraphVersion = 0\<rparr>)"

definition StartOrUpdate :: "pm_env \<Rightarrow> RepoRegistrationRecord \<Rightarrow> PollerManager \<Rightarrow> PollerManager \<times> (pm_error + unit)" where
  "StartOrUpdate env rec pm =
     (case DecodeRepoRegistrationConfig (en_stat env) rec of
        Inl e \<Rightarrow> (pm, Inl (PMRegistration e))
      | Inr cfg \<Rightarrow>
         (case en_reader env rec of
            None \<Rightarrow> (pm, Inl PMReader)
          | Some reader \<Rightarrow>
             if \<not> en_precheck env (rr_Repo rec) then (pm, Inl PMPreCheck)
             else (case stopRepo env (rr_Repo rec) pm of
                     (pm1, Inl e) \<Rightarrow> (pm1, Inl e)
                   | (pm1, Inr _) \<Rightarrow>
                      (let pm2 = set_runtime (rr_Repo rec) (newRuntime env rec cfg reader pm1) pm1
                       in (fst (recoverOrphanedActiveStates env (rr_Repo rec) pm2), Inr ())))))"

fun startEach :: "pm_env \<Rightarrow> RepoRegistrationRecord list \<Rightarrow> PollerManager \<Rightarrow> PollerManager \<times> (pm_error + unit)" where
  "startEach env [] pm = (pm, Inr ())"
| "startEach env (rec # recs) pm =
     (if rr_Status rec \<noteq> ''active'' then startEach env recs pm
      else case StartOrUpdate env rec pm of (pm', Inl e) \<Rightarrow> (pm', Inl e) | (pm', Inr _) \<Rightarrow> startEach env recs pm')"

definition LoadExisting :: "pm_env \<Rightarrow> PollerManager \<Rightarrow> PollerManager \<times> (pm_error + unit)" where
  "LoadExisting env pm =
     (case ListRepoRegistrations (pm_db pm) (pm_registrations pm) of
        Inl e \<Rightarrow> (pm, Inl (PMStore e))
      | Inr regs \<Rightarrow> startEach env regs pm)"

definition Deregister :: "pm_env \<Rightarrow> string \<Rightarrow> PollerManager \<Rightarrow> PollerManager \<times> (pm_error + unit)" where
  "Deregister env repo pm =
     (case stopRepo env repo pm of
        (pm1, Inl e) \<Rightarrow> (pm1, Inl e)
      | (pm1, Inr _) \<Rightarrow>
         (case FailPendingTasksForRepo repo (pm_db pm1) of
            (d, Inl e) \<Rightarrow> (pm1\<lparr>pm_db := d\<rparr>, Inl (PMStore e))
          | (d, Inr _) \<Rightarrow>
             (case DeleteRepoRegistration repo d (pm_registrations pm1) of
                (tbl, Inl e) \<Rightarrow> (pm1\<lparr>pm_db := d, pm_registrations := tbl\<rparr>, Inl (PMStore e))
              | (tbl, Inr _) \<Rightarrow> (pm1\<lparr>pm_db := d, pm_registrations := tbl\<rparr>, Inr ()))))"

definition ListStatuses :: "PollerManager \<Rightarrow> (RepoRegistrationRecord \<times> string) list result" where
  "ListStatuses pm =
     (case ListRepoRegistrations (pm_db pm) (pm_registrations pm) of
        Inl e \<Rightarrow> Inl e
      | Inr regs \<Rightarrow> Inr (map (\<lambda>rec. (rec, if map_of (pm_runtimes pm) (rr_Repo rec) \<noteq> None then ''running'' else ''stopped'')) regs))"

definition IsRegistered :: "string \<Rightarrow> PollerManager \<Rightarrow> bool result" where
  "IsRegistered repo pm =
     (case GetRepoRegistration repo (pm_db pm) (pm_registrations pm) of
        Inl e \<Rightarrow> Inl e
      | Inr None \<Rightarrow> Inr False
      | Inr (Some rec) \<Rightarrow> Inr (rr_Status rec = ''active''))"

section \<open>Events\<close>

definition pm_MarkAgentCompletedWithDecision ::
  "string \<Rightarrow> int \<Rightarrow> string \<Rightarrow> string \<Rightarrow> int \<Rightarrow> string list \<Rightarrow> SynthesisDecision option \<Rightarrow> PollerManager \<Rightarrow> PollerManager" where
  "pm_MarkAgentCompletedWithDecision repo n i agent exit labels decision pm =
     (case map_of (pm_runtimes pm) repo of
        None \<Rightarrow> pm
      | Some rt \<Rightarrow> fst (run_in repo rt (MarkAgentCompletedWithDecision repo n i agent exit labels decision) pm))"

definition ResolveAgentConfig :: "string \<Rightarrow> string \<Rightarrow> PollerManager \<Rightarrow> AgentConfig option" where
  "ResolveAgentConfig repo agent pm =
     (case map_of (pm_runtimes pm) repo of None \<Rightarrow> None | Some rt \<Rightarrow> map_of (cf_Agents (rt_Config rt)) agent)"

definition pm_ClearInflight :: "string \<Rightarrow> int \<Rightarrow> PollerManager \<Rightarrow> PollerManager \<times> InflightGroupSnapshot option" where
  "pm_ClearInflight repo n pm =
     (case map_of (pm_runtimes pm) repo of
        None \<Rightarrow> (pm, None)
      | Some rt \<Rightarrow> run_in repo rt (ClearInflight repo n) pm)"

fun dropCaches :: "string \<Rightarrow> int list \<Rightarrow> store \<Rightarrow> store" where
  "dropCaches repo [] d = d"
| "dropCaches repo (n # ns) d = dropCaches repo ns (fst (DeleteIssueCache repo n d))"

fun applyReactions :: "pm_env \<Rightarrow> (issue_key \<times> IssueCache) list \<Rightarrow> PollerManager \<Rightarrow> PollerManager" where
  "applyReactions env [] pm = pm"
| "applyReactions env (((r, n), cached) # rest) pm =
     (if ic_State cached \<noteq> ''open'' then applyReactions env rest pm
      else case QueryIssueDependencyState r n (pm_db pm) of
             Inl _ \<Rightarrow> applyReactions env rest pm
           | Inr None \<Rightarrow> applyReactions env rest pm
           | Inr (Some st) \<Rightarrow>
              (let want = (ds_Verdict st = DependencyVerdictBlocked \<or> ds_Verdict st = DependencyVerdictNeedsHuman)
               in if want = ds_LastReactionBlocked st \<or> \<not> en_react env r n want then applyReactions env rest pm
                  else applyReactions env rest (pm\<lparr>pm_reactions := pm_reactions pm @ [(r, n, want)],
                    pm_db := fst (MarkDependencyReactionApplied r n want (pm_db pm))\<rparr>)))"

definition resolver_of :: "pm_env \<Rightarrow> RepoRuntime \<Rightarrow> PollerManager \<Rightarrow> Resolver" where
  "resolver_of env rt pm =
     (NewResolver (pm_db pm) (rt_reader rt) (en_yaml env) (Some (pm_events pm)) (pm_alerts pm))\<lparr>rs_ctx := en_resolver_ctx env\<rparr>"

definition runDependencyMaintenance :: "pm_env \<Rightarrow> string \<Rightarrow> RepoRuntime \<Rightarrow> PollerManager \<Rightarrow> PollerManager" where
  "runDependencyMaintenance env repo rt pm0 =
     (let version = rt_depGraphVersion rt + 1;
          pm1 = set_runtime repo (rt\<lparr>rt_depGraphVersion := version\<rparr>) pm0
      in case EvaluateOpenIssues (rr_Repo (rt_Registration rt)) version (resolver_of env rt pm1) of
           (r, res) \<Rightarrow>
             (let pm2 = pm1\<lparr>pm_db := rs_db r, pm_events := (case rs_log r of None \<Rightarrow> pm_events pm1 | Some es \<Rightarrow> es), pm_alerts := rs_alerts r\<rparr>
              in case res of
                   Inl _ \<Rightarrow> pm2
                 | Inr unblocked \<Rightarrow>
                    (let pm3 = pm2\<lparr>pm_db := dropCaches (rr_Repo (rt_Registration rt)) unblocked (pm_db pm2)\<rparr>
                     in case ListIssueCaches (rr_Repo (rt_Registration rt)) (pm_db pm3) of
                          Inl _ \<Rightarrow> pm3
                        | Inr caches \<Rightarrow> applyReactions env caches pm3)))"

definition upd_runtime :: "string \<Rightarrow> (RepoRuntime \<Rightarrow> RepoRuntime) \<Rightarrow> PollerManager \<Rightarrow> PollerManager" where
  "upd_runtime repo f pm = (case map_of (pm_runtimes pm) repo of None \<Rightarrow> pm | Some rt \<Rightarrow> set_runtime repo (f rt) pm)"

definition handleEvent :: "pm_env \<Rightarrow> ChangeEvent \<Rightarrow> PollerManager \<Rightarrow> PollerManager" where
  "handleEvent env ev pm =
     (case map_of (pm_runtimes pm) (ce_Repo ev) of
        None \<Rightarrow> pm
      | Some rt \<Rightarrow>
          if ce_Type ev = EventPollCycleDone then
            (let pm1 = pm_log EventPollCycleDone (ce_Repo ev) 0 [(''source'', PStr ''poller'')] pm;
                 pm2 = (if rt_depsResolved rt then pm1 else runDependencyMaintenance env (ce_Repo ev) rt pm1)
             in upd_runtime (ce_Repo ev) (\<lambda>rt. rt\<lparr>rt_depsResolved := False, rt_sm := ResetDedup (rt_sm rt)\<rparr>) pm2)
          else if \<not> AllowSecurityEvent (pm_security pm) ev then pm
          else
            (let pm1 = (if rt_depsResolved rt then pm
                        else upd_runtime (ce_Repo ev) (\<lambda>rt. rt\<lparr>rt_depsResolved := True\<rparr>)
                               (runDependencyMaintenance env (ce_Repo ev) rt pm))
             in case map_of (pm_runtimes pm1) (ce_Repo ev) of
                  None \<Rightarrow> pm1
                | Some rt1 \<Rightarrow> fst (run_in (ce_Repo ev) rt1 (HandleEvent (en_ctx env) ev) pm1)))"

end
