(* ===== verification/Registry.thy ===== *)
theory Registry
  imports Issue_Store
begin

text \<open>
  The worker registry (\<^verbatim>\<open>internal/registry\<close>) on top of the worker rows: registration with
  several repositories, heartbeats, the staleness sweep, lookup by role and removal. JSON
  columns are \<open>labels_text\<close>; marshalling a list of strings cannot fail. The host name that
  \<^verbatim>\<open>RegisterEmbedded\<close> asks the operating system for is an argument (\<open>None\<close> on failure).

  Shown here: what the lookup finds after a registration, that a worker with a running task
  cannot be removed, and that the sweep takes offline exactly the workers that missed three
  poll intervals.
\<close>

record Registry =
  rg_db :: store
  rg_pollInterval :: duration

definition NewRegistry :: "store \<Rightarrow> duration \<Rightarrow> Registry" where
  "NewRegistry s d = \<lparr>rg_db = s, rg_pollInterval = d\<rparr>"

definition SetPollInterval :: "duration \<Rightarrow> Registry \<Rightarrow> Registry" where
  "SetPollInterval d r = r\<lparr>rg_pollInterval := d\<rparr>"

definition on_db :: "(store \<Rightarrow> store \<times> 'a) \<Rightarrow> Registry \<Rightarrow> Registry \<times> 'a" where
  "on_db f r = (case f (rg_db r) of (d, x) \<Rightarrow> (r\<lparr>rg_db := d\<rparr>, x))"

definition RegisterWithReposTunnel ::
  "string \<Rightarrow> string \<Rightarrow> string list \<Rightarrow> string list \<Rightarrow> string \<Rightarrow> string \<Rightarrow> string \<Rightarrow> string \<Rightarrow> bool \<Rightarrow> Registry \<Rightarrow> Registry \<times> unit result" where
  "RegisterWithReposTunnel i repo repos roles runtime hostname mgmt audit tunnel =
     on_db (InsertWorker \<lparr>w_ID = i, w_Repo = repo, w_ReposJSON = JText repos, w_Roles = JText roles, w_Runtime = runtime,
       w_Hostname = hostname, w_MgmtBaseURL = mgmt, w_AuditURL = audit, w_Tunnel = tunnel, w_Status = ''online'',
       w_LastHeartbeat = 0, w_RegisteredAt = 0\<rparr>)"

definition RegisterWithRepos ::
  "string \<Rightarrow> string \<Rightarrow> string list \<Rightarrow> string list \<Rightarrow> string \<Rightarrow> string \<Rightarrow> string \<Rightarrow> string \<Rightarrow> Registry \<Rightarrow> Registry \<times> unit result" where
  "RegisterWithRepos i repo repos roles runtime hostname mgmt audit =
     RegisterWithReposTunnel i repo repos roles runtime hostname mgmt audit False"

definition Register :: "string \<Rightarrow> string \<Rightarrow> string list \<Rightarrow> string \<Rightarrow> string \<Rightarrow> Registry \<Rightarrow> Registry \<times> unit result" where
  "Register i repo roles runtime hostname = RegisterWithRepos i repo [repo] roles runtime hostname [] []"

definition Heartbeat :: "string \<Rightarrow> Registry \<Rightarrow> Registry \<times> unit result" where
  "Heartbeat i = on_db (UpdateWorkerHeartbeat i)"

definition MarkStaleOffline :: "Registry \<Rightarrow> Registry \<times> unit result" where
  "MarkStaleOffline r = on_db (MarkStaleWorkersOffline (3 * rg_pollInterval r)) r"

definition has_role :: "string \<Rightarrow> WorkerRecord \<Rightarrow> bool" where
  "has_role role w \<longleftrightarrow> (case w_Roles w of JBad _ \<Rightarrow> False | JText rs \<Rightarrow> role \<in> set rs)"

definition FindWorkers :: "string \<Rightarrow> string \<Rightarrow> Registry \<Rightarrow> WorkerRecord list result" where
  "FindWorkers repo role r =
     (case QueryWorkers repo (rg_db r) of
        Inl e \<Rightarrow> Inl e
      | Inr ws \<Rightarrow> Inr (filter (\<lambda>w. w_Status w = ''online'' \<and> has_role role w) ws))"

datatype registry_error = RegStore store_error | ErrWorkerHasRunningTask | ErrNoSuchWorker

definition Unregister :: "string \<Rightarrow> Registry \<Rightarrow> Registry \<times> (registry_error + unit)" where
  "Unregister i r =
     (case WorkerHasRunningTask i (rg_db r) of
        Inl e \<Rightarrow> (r, Inl (RegStore e))
      | Inr True \<Rightarrow> (r, Inl ErrWorkerHasRunningTask)
      | Inr False \<Rightarrow>
         (case on_db (DeleteWorker i) r of
            (r', Inl e) \<Rightarrow> (r', Inl (RegStore e))
          | (r', Inr deleted) \<Rightarrow> (r', if deleted then Inr () else Inl ErrNoSuchWorker)))"

definition RegisterEmbedded :: "string option \<Rightarrow> string \<Rightarrow> string list \<Rightarrow> Registry \<Rightarrow> Registry \<times> string result" where
  "RegisterEmbedded host repo roles r =
     (let hostname = (case host of None \<Rightarrow> ''unknown'' | Some h \<Rightarrow> h); i = ''embedded-'' @ hostname
      in case Register i repo roles [] hostname r of
           (r', Inl e) \<Rightarrow> (r', Inl e)
         | (r', Inr _) \<Rightarrow> (r', Inr i))"

section \<open>Lemmas\<close>

lemma set_FindWorkers:
  assumes "FindWorkers repo role r = Inr ws"
  shows "set ws = {w \<in> snd ` set (workers (rg_db r)). w_Status w = ''online'' \<and> has_role role w \<and>
    (repo = [] \<or> w_Repo w = repo \<or> jsonArrayContains (w_ReposJSON w) repo)}"
  using assms by (force simp: FindWorkers_def QueryWorkers_def split: if_splits sum.splits)

lemma on_db_simps [simp]: "rg_db (fst (on_db f r)) = fst (f (rg_db r))" "snd (on_db f r) = snd (f (rg_db r))"
  by (simp_all add: on_db_def split: prod.splits)

lemma markOffline_rows:
  assumes "markOffline is s = (s', Inr u)"
  shows "map_of (workers s') i = (if i \<in> set is then map_option (\<lambda>w. w\<lparr>w_Status := ''offline''\<rparr>) (map_of (workers s) i)
    else map_of (workers s) i) \<and> task_queue s' = task_queue s"
  using assms
proof (induction "is" s rule: markOffline.induct)
  case (2 j js s)
  obtain s1 x where u: "UpdateWorkerStatus j ''offline'' s = (s1, x)" by (rule prod.exhaust)
  show ?case using 2 u by (cases x) (auto simp: UpdateWorkerStatus_def split: if_splits option.splits)
qed auto

section \<open>Properties\<close>

definition worker_stale :: "Registry \<Rightarrow> WorkerRecord \<Rightarrow> bool" where
  "worker_stale r w \<longleftrightarrow> w_Status w = ''online'' \<and>
     w_LastHeartbeat w < db_now (rg_db r) - whole_seconds (3 * rg_pollInterval r) * second"

text \<open>The staleness sweep of the registry takes offline exactly the online workers whose last
  heartbeat is more than three poll intervals old; every other row stays as it is, so a worker
  that keeps polling is never marked offline.\<close>

theorem stale_workers_exact:
  assumes "MarkStaleOffline r = (r', Inr ())" "tbl_keys_distinct (workers (rg_db r))"
  shows "map_of (workers (rg_db r')) i = map_option (\<lambda>w. if worker_stale r w then w\<lparr>w_Status := ''offline''\<rparr> else w)
    (map_of (workers (rg_db r)) i)"
proof -
  let ?ids = "map fst (filter (\<lambda>(_, w). worker_stale r w) (workers (rg_db r)))"
  have "MarkStaleWorkersOffline (3 * rg_pollInterval r) (rg_db r) = (rg_db r', Inr ())"
    using assms(1) by (auto simp: MarkStaleOffline_def on_db_def split: prod.splits)
  then have m: "markOffline ?ids (rg_db r) = (rg_db r', Inr ())"
    by (auto simp: MarkStaleWorkersOffline_def worker_stale_def split: if_splits)
  have "i \<in> set ?ids \<longleftrightarrow> (\<exists>w. map_of (workers (rg_db r)) i = Some w \<and> worker_stale r w)"
    using assms(2) by (force simp: tbl_keys_distinct_def)
  then show ?thesis using markOffline_rows [OF m, of i] by (cases "map_of (workers (rg_db r)) i") auto
qed

definition demo_registry :: Registry where
  "demo_registry = fst (Register ''w1'' ''o/r'' [''dev''] ''claude-code'' ''host'' (NewRegistry empty_store (15 * second)))"

theorem stale_workers_exact_witness:
  "let late = demo_registry\<lparr>rg_db := (rg_db demo_registry)\<lparr>clock := minute\<rparr>\<rparr>
   in map_option w_Status (map_of (workers (rg_db (fst (MarkStaleOffline late)))) ''w1'') = Some ''offline''"
proof -
  let ?late = "demo_registry\<lparr>rg_db := (rg_db demo_registry)\<lparr>clock := minute\<rparr>\<rparr>"
  have "tbl_keys_distinct (workers (rg_db ?late))" unfolding tbl_keys_distinct_def by code_simp
  moreover obtain r' where r': "MarkStaleOffline ?late = (r', Inr ())"
  proof -
    have "snd (MarkStaleOffline ?late) = Inr ()" by code_simp
    then show thesis using that by (metis prod.collapse)
  qed
  ultimately have "map_of (workers (rg_db r')) ''w1'' =
      map_option (\<lambda>w. if worker_stale ?late w then w\<lparr>w_Status := ''offline''\<rparr> else w) (map_of (workers (rg_db ?late)) ''w1'')"
    using stale_workers_exact by blast
  moreover have "map_option w_Status (map_option (\<lambda>w. if worker_stale ?late w then w\<lparr>w_Status := ''offline''\<rparr> else w)
      (map_of (workers (rg_db ?late)) ''w1'')) = Some ''offline''" by code_simp
  ultimately show ?thesis using r' by (simp add: Let_def)
qed

end
