(* ===== verification/Coordinator.thy ===== *)
theory Coordinator
  imports Repo_Runtime Registry Task_Protocol
begin

text \<open>
  The coordinator around the state machine: the router and the task preparer
  (\<^verbatim>\<open>internal/router\<close>, \<^verbatim>\<open>internal/taskprep\<close>), the HTTP handlers through which workers
  claim, renew, release and report tasks (\<^verbatim>\<open>internal/app/coordinator.go\<close>), the task reaper
  and the recovery at start-up.

  \<^item> \<open>co_pm\<close> is the manager of the repository runtimes with the shared database and event log; the
    worker registry works on the same database. \<open>co_routes\<close> is the table of session owners.
  \<^item> Every router of the program is built with a nil task channel, so a prepared task ends as a
    pending row; the in-process delivery behind it is not modelled.
  \<^item> A request body is \<open>None\<close> when it is not valid JSON. A response is its status code with the
    text of its error or status field, the error of the store, or the task. The synthesis
    context of a polled task is not modelled.
  \<^item> A handler is modelled as running without interference between its reads and writes.

  What these operations do to the queue is shown in \<open>Task_Flow\<close>.
\<close>

section \<open>Router and task preparation\<close>

record Decision =
  de_Repo :: string
  de_IssueNum :: int
  de_AgentName :: string
  de_Agent :: "AgentConfig option"
  de_Workflow :: string
  de_State :: string
  de_SourceState :: string
  de_RolloutIndex :: int
  de_RolloutsTotal :: int
  de_RolloutGroupID :: string
  de_StateDef :: "WState option"
  de_SourceStateDef :: "WState option"

record Router =
  ro_agents :: "(string \<times> AgentConfig) list"
  ro_workflows :: "(string \<times> WorkflowConfig) list"
  ro_db :: store
  ro_events :: "Event list option"
  ro_uuids :: "nat \<Rightarrow> string"
  ro_uuid_pos :: nat

definition TypeDispatchSkippedAgentNotFound :: string where
  "TypeDispatchSkippedAgentNotFound = ''dispatch_skipped_agent_not_found''"
definition TypeInfraFailure :: string where "TypeInfraFailure = ''infra_failure''"
definition TypeTaskReaped :: string where "TypeTaskReaped = ''task_reaped''"
definition KindOrphanedTask :: string where "KindOrphanedTask = ''orphaned_task''"
definition DefaultLongPollTimeout :: duration where "DefaultLongPollTimeout = 30 * second"

definition ro_logEvent :: "string \<Rightarrow> string \<Rightarrow> int \<Rightarrow> (string \<times> pval) list \<Rightarrow> Router \<Rightarrow> Router" where
  "ro_logEvent ty repo n p r = r\<lparr>ro_events := map_option (\<lambda>es. es @
     [\<lparr>ev_Type = ty, ev_Repo = repo, ev_IssueNum = n, ev_Payload = p\<rparr>]) (ro_events r)\<rparr>"

definition lookupAgentMeta :: "string \<Rightarrow> Router \<Rightarrow> string \<times> string" where
  "lookupAgentMeta name r = (case map_of (ro_agents r) name of
      None \<Rightarrow> ([], []) | Some a \<Rightarrow> (ac_Role a, ac_Runtime a))"

definition lookupState :: "string \<Rightarrow> string \<Rightarrow> Router \<Rightarrow> WState option" where
  "lookupState w st r = (case map_of (ro_workflows r) w of None \<Rightarrow> None | Some cfg \<Rightarrow> map_of (States cfg) st)"

definition decide :: "(store_error \<Rightarrow> string) \<Rightarrow> DispatchRequest \<Rightarrow> Router \<Rightarrow> Router \<times> Decision option" where
  "decide err_text req r =
     (let base = [(''agent'', PStr (r_AgentName req)), (''workflow'', PStr (r_Workflow req)), (''state'', PStr (r_State req))]
      in case map_of (ro_agents r) (r_AgentName req) of
           None \<Rightarrow> (ro_logEvent TypeDispatchSkippedAgentNotFound (r_Repo req) (r_IssueNum req) base r, None)
         | Some agent \<Rightarrow>
            (case IsBlocked (r_Repo req) (r_IssueNum req) (ro_db r) of
               (_, _, Some e) \<Rightarrow>
                 (ro_logEvent TypeDispatchBlockedByDependency (r_Repo req) (r_IssueNum req)
                    (base @ [(''source'', PStr ''router''), (''error'', PStr (err_text e))]) r, None)
             | (True, verdict, None) \<Rightarrow>
                 (ro_logEvent TypeDispatchBlockedByDependency (r_Repo req) (r_IssueNum req)
                    (base @ [(''source'', PStr ''router''), (''verdict'', PStr verdict)]) r, None)
             | (False, _, None) \<Rightarrow>
                 (r, Some \<lparr>de_Repo = r_Repo req, de_IssueNum = r_IssueNum req, de_AgentName = r_AgentName req,
                    de_Agent = Some agent, de_Workflow = r_Workflow req, de_State = r_State req,
                    de_SourceState = r_SourceState req, de_RolloutIndex = r_RolloutIndex req,
                    de_RolloutsTotal = r_RolloutsTotal req, de_RolloutGroupID = r_RolloutGroupID req,
                    de_StateDef = lookupState (r_Workflow req) (r_State req) r,
                    de_SourceStateDef = lookupState (r_Workflow req) (r_SourceState req) r\<rparr>)))"

datatype prepare_error = NilAgent | PrepStore store_error

definition task_of :: "string \<Rightarrow> Decision \<Rightarrow> AgentConfig \<Rightarrow> TaskRecord" where
  "task_of i d a = \<lparr>t_ID = i, t_Repo = de_Repo d, t_IssueNum = de_IssueNum d, t_AgentName = de_AgentName d,
     t_Role = ac_Role a, t_Runtime = ac_Runtime a, t_Workflow = de_Workflow d, t_State = de_State d, t_WorkerID = None,
     t_ClaimToken = None, t_Status = TaskStatusPending, t_LeaseExpiresAt = None, t_AckedAt = None, t_HeartbeatAt = None,
     t_CompletedAt = None, t_ExitCode = 0, t_SessionRefs = [], t_RolloutIndex = de_RolloutIndex d,
     t_RolloutsTotal = de_RolloutsTotal d, t_RolloutGroupID = de_RolloutGroupID d, t_SupervisorAgentID = None,
     t_CreatedAt = 0, t_UpdatedAt = 0\<rparr>"

text \<open>\<^verbatim>\<open>Prepare\<close> up to the return that a nil task channel forces; \<open>ro_uuids\<close> is the stream of the UUID
  library and \<open>ro_uuid_pos\<close> the position in it.\<close>

definition Prepare :: "Decision \<Rightarrow> Router \<Rightarrow> Router \<times> (prepare_error + unit)" where
  "Prepare d r =
     (case de_Agent d of
        None \<Rightarrow> (r, Inl NilAgent)
      | Some a \<Rightarrow>
         (case InsertTask (task_of (ro_uuids r (ro_uuid_pos r)) d a) (ro_db r) of
            (db', Inl e) \<Rightarrow> (r\<lparr>ro_db := db', ro_uuid_pos := Suc (ro_uuid_pos r)\<rparr>, Inl (PrepStore e))
          | (db', Inr _) \<Rightarrow> (r\<lparr>ro_db := db', ro_uuid_pos := Suc (ro_uuid_pos r)\<rparr>, Inr ())))"

definition handleDispatch :: "(store_error \<Rightarrow> string) \<Rightarrow> DispatchRequest \<Rightarrow> Router \<Rightarrow> Router" where
  "handleDispatch err_text req r =
     (case decide err_text req r of (r1, None) \<Rightarrow> r1 | (r1, Some d) \<Rightarrow> fst (Prepare d r1))"

text \<open>\<^verbatim>\<open>Run\<close> on the requests received before the context is done or the channel is closed.\<close>

definition routeAll :: "(store_error \<Rightarrow> string) \<Rightarrow> DispatchRequest list \<Rightarrow> Router \<Rightarrow> Router" where
  "routeAll err_text = fold (handleDispatch err_text)"

section \<open>Worker requests\<close>

text \<open>The table \<^verbatim>\<open>session_routes\<close>: which worker owns a session.\<close>

record SessionRoute =
  so_WorkerID :: string
  so_Repo :: string
  so_IssueNum :: int
  so_CreatedAt :: time

record coordinator =
  co_pm :: PollerManager
  co_routes :: "(string \<times> SessionRoute) list"
  co_hub :: "(string \<times> string \<times> int \<times> string \<times> string \<times> int) list option"

datatype route_error = RouteField string | RouteStore store_error

datatype http_body =
    HErr string
  | HStoreErr store_error
  | HPMErr pm_error
  | HRegErr registration_error
  | HRouteErr route_error
  | HStatus string
  | HEmpty
  | HTask TaskRecord "string list" "AgentConfig option"
  | HGroup string int InflightGroupSnapshot
  | HRepos "(RepoRegistrationRecord \<times> string) list"
  | HCount nat

type_synonym response = "nat \<times> http_body"

definition co_db :: "coordinator \<Rightarrow> store" where
  "co_db c = pm_db (co_pm c)"

definition put_pm :: "PollerManager \<Rightarrow> coordinator \<Rightarrow> coordinator" where
  "put_pm pm c = c\<lparr>co_pm := pm\<rparr>"

definition put_db :: "store \<Rightarrow> coordinator \<Rightarrow> coordinator" where
  "put_db d c = put_pm ((co_pm c)\<lparr>pm_db := d\<rparr>) c"

definition co_log :: "string \<Rightarrow> string \<Rightarrow> int \<Rightarrow> (string \<times> pval) list \<Rightarrow> coordinator \<Rightarrow> coordinator" where
  "co_log ty repo n p c = put_pm (pm_log ty repo n p (co_pm c)) c"

definition co_heartbeat :: "string \<Rightarrow> coordinator \<Rightarrow> coordinator \<times> unit result" where
  "co_heartbeat w c = (case Heartbeat w (NewRegistry (co_db c) 0) of (r, x) \<Rightarrow> (put_db (rg_db r) c, x))"

definition NormalizeTaskResultStatus :: "string \<Rightarrow> string" where
  "NormalizeTaskResultStatus raw =
     (let s = trim_space (map lower_char raw)
      in if s = TaskStatusCompleted then TaskStatusCompleted
         else if s = TaskStatusFailed then TaskStatusFailed
         else if s = TaskStatusTimeout then TaskStatusTimeout else [])"

definition PublishTaskCompletion :: "TaskRecord \<Rightarrow> string \<Rightarrow> int \<Rightarrow> coordinator \<Rightarrow> coordinator" where
  "PublishTaskCompletion t status exit c = c\<lparr>co_hub := map_option (\<lambda>es. es @
     [(t_ID t, t_Repo t, t_IssueNum t, t_AgentName t, status, exit)]) (co_hub c)\<rparr>"

record TaskResultRequest =
  rq_WorkerID :: string
  rq_Status :: string
  rq_CurrentLabels :: "string list"
  rq_InfraFailure :: bool
  rq_InfraReason :: string
  rq_SynthesisDecision :: "SynthesisDecision option"

definition finishResult :: "TaskResultRequest \<Rightarrow> string \<Rightarrow> TaskRecord \<Rightarrow> string \<Rightarrow> coordinator \<Rightarrow> coordinator" where
  "finishResult req worker t status c =
     (let exit = (if status \<noteq> TaskStatusCompleted then 1 else 0);
          c1 = PublishTaskCompletion t status exit (fst (co_heartbeat worker c));
          info = [(''task_id'', PStr (t_ID t)), (''worker_id'', PStr worker), (''agent_name'', PStr (t_AgentName t)),
                  (''status'', PStr status)];
          c2 = (if rq_InfraFailure req
                then co_log TypeInfraFailure (t_Repo t) (t_IssueNum t)
                       (info @ [(''reason'', PStr (rq_InfraReason req)), (''source'', PStr ''worker_submit'')]) c1
                else put_pm (pm_MarkAgentCompletedWithDecision (t_Repo t) (t_IssueNum t) (t_ID t) (t_AgentName t) exit
                       (rq_CurrentLabels req) (rq_SynthesisDecision req) (co_pm c1)) c1)
      in co_log TypeCompleted (t_Repo t) (t_IssueNum t) info c2)"

definition HandleTaskResult :: "TaskResultRequest option \<Rightarrow> string \<Rightarrow> coordinator \<Rightarrow> coordinator \<times> response" where
  "HandleTaskResult body i c =
     (case body of
        None \<Rightarrow> (c, 400, HErr ''invalid JSON'')
      | Some req \<Rightarrow>
         (let worker = trim_space (rq_WorkerID req)
          in case GetTask i (co_db c) of
               Inl e \<Rightarrow> (c, 500, HStoreErr e)
             | Inr t \<Rightarrow>
                if worker = [] \<or> go_str (t_WorkerID t) \<noteq> worker
                then (c, 400, HErr ''worker_id does not match claimed task'')
                else (let status = NormalizeTaskResultStatus (rq_Status req)
                      in if status = [] then (c, 400, HErr ''status must be completed, failed, or timeout'')
                         else (case TransitionTaskStatusIfRunning i status (co_db c) of
                                 (d, Inl e) \<Rightarrow>
                                   if e = ErrTaskStatusTerminal
                                   then (put_db d c, 409, HErr ''task already in terminal status'')
                                   else (put_db d c, 500, HStoreErr e)
                               | (d, Inr _) \<Rightarrow> (finishResult req worker t status (put_db d c), 200, HStatus status)))))"

definition HandleTaskHeartbeat :: "string option \<Rightarrow> string \<Rightarrow> coordinator \<Rightarrow> coordinator \<times> response" where
  "HandleTaskHeartbeat body i c =
     (case body of
        None \<Rightarrow> (c, 400, HErr ''invalid JSON'')
      | Some raw \<Rightarrow>
         (let worker = trim_space raw
          in if worker = [] then (c, 400, HErr ''worker_id is required'')
             else case GetTask i (co_db c) of
               Inl e \<Rightarrow> (c, 500, HStoreErr e)
             | Inr t \<Rightarrow>
                if go_str (t_WorkerID t) \<noteq> worker then (c, 400, HErr ''worker_id does not match claimed task'')
                else (case co_heartbeat worker (put_db (fst (HeartbeatTask i worker DefaultLongPollTimeout (co_db c))) c) of
                        (c1, Inl e) \<Rightarrow> if e = ErrWorkerNotFound then (c1, 400, HErr ''unknown worker'') else (c1, 500, HStoreErr e)
                      | (c1, Inr _) \<Rightarrow> (c1, 204, HEmpty))))"

definition HandleTaskRelease :: "string option \<Rightarrow> string \<Rightarrow> coordinator \<Rightarrow> coordinator \<times> response" where
  "HandleTaskRelease body i c =
     (case body of
        None \<Rightarrow> (c, 400, HErr ''invalid JSON'')
      | Some raw \<Rightarrow>
         (let worker = trim_space raw
          in if worker = [] then (c, 400, HErr ''worker_id is required'')
             else case ReleaseTask i worker (co_db c) of
               (d, Inl e) \<Rightarrow> (put_db d c, 500, HStoreErr e)
             | (d, Inr released) \<Rightarrow>
                 (put_db d c, if released then (204, HEmpty) else (409, HErr ''task is not claimable by this worker''))))"

text \<open>\<^verbatim>\<open>claimNextTask\<close>: \<open>tripped\<close> says that the failpoint returned an error.\<close>

datatype claim_error = RolesUnreadable | FailpointHit | ClaimStore store_error

definition co_claimNextTask ::
  "bool \<Rightarrow> WorkerRecord \<Rightarrow> coordinator \<Rightarrow> coordinator \<times> (claim_error + (TaskRecord \<times> string list) option)" where
  "co_claimNextTask tripped w c =
     (case w_Roles w of
        JBad _ \<Rightarrow> (c, Inl RolesUnreadable)
      | JText roles \<Rightarrow>
         (let repos = (case w_ReposJSON w of JText (r # rs) \<Rightarrow> r # rs | _ \<Rightarrow> [w_Repo w])
          in if tripped then (c, Inl FailpointHit)
             else case ClaimNextTask (w_ID w) roles repos (w_Runtime w) [] DefaultLongPollTimeout (co_db c) of
               (d, Inl e) \<Rightarrow> (put_db d c, Inl (ClaimStore e))
             | (d, Inr None) \<Rightarrow> (put_db d c, Inr None)
             | (d, Inr (Some t)) \<Rightarrow>
                 (co_log TypeDispatch (t_Repo t) (t_IssueNum t)
                    [(''task_id'', PStr (t_ID t)), (''worker_id'', PStr (w_ID w)), (''agent_name'', PStr (t_AgentName t))]
                    (put_db d c), Inr (Some (t, roles)))))"

text \<open>The long poll: one attempt at once and one per tick of the check interval, until the deadline,
  the end of the request or the shutdown, after which there are no more ticks. \<open>tripped\<close> says
  whether the failpoint trips in an attempt; a tick also carries the database as other processes
  have left it.\<close>

fun pollLoop :: "WorkerRecord \<Rightarrow> bool \<Rightarrow> (bool \<times> store) list \<Rightarrow> coordinator \<Rightarrow> coordinator \<times> response" where
  "pollLoop w tripped ticks c =
     (let wait = (\<lambda>c1. case ticks of [] \<Rightarrow> (c1, 204, HEmpty) | (tr, d) # ts \<Rightarrow> pollLoop w tr ts (put_db d c1))
      in case co_claimNextTask tripped w c of
        (c1, Inl e) \<Rightarrow>
          if e = ClaimStore ErrTaskClaimConflict then wait c1
          else (c1, 500, case e of ClaimStore se \<Rightarrow> HStoreErr se | _ \<Rightarrow> HErr ''claim failed'')
      | (c1, Inr None) \<Rightarrow> wait c1
      | (c1, Inr (Some (t, roles))) \<Rightarrow>
          (fst (co_heartbeat (w_ID w) c1), 200, HTask t roles (ResolveAgentConfig (t_Repo t) (t_AgentName t) (co_pm c1))))"

definition HandlePollTask :: "bool \<Rightarrow> string \<Rightarrow> bool \<Rightarrow> (bool \<times> store) list \<Rightarrow> coordinator \<Rightarrow> coordinator \<times> response" where
  "HandlePollTask is_get raw tripped ticks c =
     (if \<not> is_get then (c, 405, HErr ''method not allowed'')
      else let worker = trim_space raw
           in if worker = [] then (c, 400, HErr ''worker_id is required'')
              else case GetWorker worker (co_db c) of
                Inl e \<Rightarrow> (c, 500, HStoreErr e)
              | Inr None \<Rightarrow> (c, 400, HErr ''unknown worker'')
              | Inr (Some w) \<Rightarrow> pollLoop w tripped ticks (fst (co_heartbeat (w_ID w) c)))"

section \<open>Paths\<close>

definition trim_slash :: "string \<Rightarrow> string" where
  "trim_slash s = rev (dropWhile (\<lambda>ch. ch = CHR ''/'') (rev (dropWhile (\<lambda>ch. ch = CHR ''/'') s)))"

definition parseFullTaskActionPath :: "string \<Rightarrow> (string \<times> string) option" where
  "parseFullTaskActionPath path =
     (case split_on (CHR ''/'') (trim_slash (trim_prefix path ''/api/v1/tasks/'')) of
        [i, action] \<Rightarrow> if i = [] \<or> action = [] then None else Some (i, action)
      | _ \<Rightarrow> None)"

definition parseClearIssueInflightPath :: "string \<Rightarrow> (string \<times> int) option" where
  "parseClearIssueInflightPath path =
     (let parts = split_on (CHR ''/'') (trim_slash (trim_prefix path ''/api/v1/admin/issues/''))
      in if length parts < 4 \<or> last parts \<noteq> ''clear-inflight'' then None
         else case atoi (parts ! (length parts - 2)) of
           None \<Rightarrow> None
         | Some n \<Rightarrow> (let repo = join_with ''/'' (take (length parts - 2) parts)
                     in if n \<le> 0 \<or> trim_space repo = [] then None else Some (repo, n)))"

definition HandleTaskAction ::
  "bool \<Rightarrow> string \<Rightarrow> TaskResultRequest option \<Rightarrow> string option \<Rightarrow> coordinator \<Rightarrow> coordinator \<times> response" where
  "HandleTaskAction is_post path result worker c =
     (case parseFullTaskActionPath path of
        None \<Rightarrow> (c, 404, HEmpty)
      | Some (i, action) \<Rightarrow>
          if is_post \<and> action = ''result'' then HandleTaskResult result i c
          else if is_post \<and> action = ''heartbeat'' then HandleTaskHeartbeat worker i c
          else if is_post \<and> action = ''release'' then HandleTaskRelease worker i c
          else (c, 405, HErr ''method not allowed''))"

section \<open>Sessions, workers and repositories\<close>

definition TypeWorkerRegistered :: string where "TypeWorkerRegistered = ''worker_registered''"

definition UpsertSessionRoute :: "string \<Rightarrow> SessionRoute \<Rightarrow> coordinator \<Rightarrow> coordinator \<times> (route_error + unit)" where
  "UpsertSessionRoute sid route c =
     (if trim_space sid = [] then (c, Inl (RouteField ''session_id''))
      else if trim_space (so_WorkerID route) = [] then (c, Inl (RouteField ''worker_id''))
      else if faults (co_db c) OpUpsertRoute then (c, Inl (RouteStore (DBError OpUpsertRoute)))
      else (case map_of (co_routes c) sid of
              Some _ \<Rightarrow> (c, Inr ())
            | None \<Rightarrow> (c\<lparr>co_routes := co_routes c @ [(sid, route\<lparr>so_CreatedAt := db_now (co_db c)\<rparr>)]\<rparr>, Inr ())))"

fun bulkRoutes :: "store \<Rightarrow> (string \<times> SessionRoute) list \<Rightarrow> (string \<times> SessionRoute) list \<Rightarrow> (string \<times> SessionRoute) list" where
  "bulkRoutes d [] tbl = tbl"
| "bulkRoutes d ((sid, route) # rest) tbl =
     (if trim_space sid = [] \<or> trim_space (so_WorkerID route) = [] \<or> map_of tbl sid \<noteq> None then bulkRoutes d rest tbl
      else bulkRoutes d rest (tbl @ [(sid, route\<lparr>so_CreatedAt := db_now d\<rparr>)]))"

definition BulkUpsertSessionRoutes :: "(string \<times> SessionRoute) list \<Rightarrow> coordinator \<Rightarrow> coordinator \<times> unit result" where
  "BulkUpsertSessionRoutes routes c =
     (if routes = [] then (c, Inr ())
      else if faults (co_db c) OpUpsertRoute then (c, Inl (DBError OpUpsertRoute))
      else (c\<lparr>co_routes := bulkRoutes (co_db c) routes (co_routes c)\<rparr>, Inr ()))"

definition GetSessionRoute :: "string \<Rightarrow> coordinator \<Rightarrow> SessionRoute option result" where
  "GetSessionRoute sid c =
     (if trim_space sid = [] then Inr None
      else if faults (co_db c) OpGetRoute then Inl (DBError OpGetRoute)
      else Inr (map_of (co_routes c) (trim_space sid)))"

record SessionAnnounce =
  an_SessionID :: string
  an_Repo :: string
  an_IssueNum :: int

definition parseAnnounceSessionPath :: "string \<Rightarrow> string option" where
  "parseAnnounceSessionPath path =
     (let pre = ''/api/v1/workers/''; suf = ''/sessions/announce''
      in if \<not> has_prefix path pre \<or> \<not> has_suffix path suf then None
         else (let rest = trim_prefix path pre;
                   i = trim_space (if has_suffix rest suf then take (length rest - length suf) rest else rest)
               in if i = [] \<or> CHR ''/'' \<in> set i then None else Some i))"

definition HandleAnnounceSession :: "bool \<Rightarrow> string \<Rightarrow> SessionAnnounce option \<Rightarrow> coordinator \<Rightarrow> coordinator \<times> response" where
  "HandleAnnounceSession is_post path body c =
     (if \<not> is_post then (c, 405, HErr ''method not allowed'')
      else case parseAnnounceSessionPath path of
             None \<Rightarrow> (c, 400, HErr ''invalid path; expect /api/v1/workers/<id>/sessions/announce'')
           | Some worker \<Rightarrow>
              (case body of
                 None \<Rightarrow> (c, 400, HErr ''invalid JSON'')
               | Some ann \<Rightarrow>
                  (let sid = trim_space (an_SessionID ann)
                   in if sid = [] then (c, 400, HErr ''session_id is required'')
                      else case GetWorker worker (co_db c) of
                             Inl e \<Rightarrow> (c, 500, HStoreErr e)
                           | Inr None \<Rightarrow> (c, 404, HErr ''worker not registered'')
                           | Inr (Some _) \<Rightarrow>
                              (case UpsertSessionRoute sid \<lparr>so_WorkerID = worker, so_Repo = trim_space (an_Repo ann),
                                       so_IssueNum = an_IssueNum ann, so_CreatedAt = 0\<rparr> c of
                                 (c', Inl e) \<Rightarrow> (c', 500, HRouteErr e)
                               | (c', Inr _) \<Rightarrow> (c', 201, HStatus ''announced'')))))"

definition HandleWorkerByPath :: "string \<Rightarrow> string \<Rightarrow> SessionAnnounce option \<Rightarrow> coordinator \<Rightarrow> coordinator \<times> response" where
  "HandleWorkerByPath method path body c =
     (if has_suffix path ''/sessions/announce'' then HandleAnnounceSession (method = ''POST'') path body c
      else let worker = trim_space (trim_prefix path ''/api/v1/workers/'')
           in if worker = [] then (c, 404, HEmpty)
              else if method \<noteq> ''DELETE'' then (c, 405, HErr ''method not allowed'')
              else case Unregister worker (NewRegistry (co_db c) 0) of
                     (r, Inl ErrNoSuchWorker) \<Rightarrow> (put_db (rg_db r) c, 404, HErr ''worker not found'')
                   | (r, Inl ErrWorkerHasRunningTask) \<Rightarrow> (put_db (rg_db r) c, 409, HErr ''worker has a running task'')
                   | (r, Inl (RegStore e)) \<Rightarrow> (put_db (rg_db r) c, 500, HStoreErr e)
                   | (r, Inr _) \<Rightarrow> (put_db (rg_db r) c, 200, HStatus ''unregistered''))"

record WorkerRegisterRequest =
  wr_WorkerID :: string
  wr_Repo :: string
  wr_Roles :: "string list"
  wr_Runtime :: string
  wr_Repos :: "string list"
  wr_Hostname :: string
  wr_MgmtBaseURL :: string
  wr_Tunnel :: bool
  wr_AuditURL :: string
  wr_OpenSessions :: "SessionAnnounce list"

definition trim_right_slash :: "string \<Rightarrow> string" where
  "trim_right_slash s = rev (dropWhile (\<lambda>ch. ch = CHR ''/'') (rev s))"

text \<open>The first repository of the list that is not registered, or the error of the query.\<close>

fun firstUnregistered :: "string list \<Rightarrow> PollerManager \<Rightarrow> string option result" where
  "firstUnregistered [] pm = Inr None"
| "firstUnregistered (repo # repos) pm =
     (case IsRegistered repo pm of
        Inl e \<Rightarrow> Inl e
      | Inr True \<Rightarrow> firstUnregistered repos pm
      | Inr False \<Rightarrow> Inr (Some repo))"

definition seedRoutes :: "string \<Rightarrow> SessionAnnounce list \<Rightarrow> (string \<times> SessionRoute) list" where
  "seedRoutes worker anns = concat (map (\<lambda>a. let sid = trim_space (an_SessionID a)
     in if sid = [] then [] else [(sid, \<lparr>so_WorkerID = worker, so_Repo = trim_space (an_Repo a), so_IssueNum = an_IssueNum a,
          so_CreatedAt = 0\<rparr>)]) anns)"

text \<open>\<open>url_ok\<close> is the answer of the URL library: an http or https URL with a host.\<close>

definition HandleRegisterWorker ::
  "(string \<Rightarrow> bool) \<Rightarrow> bool \<Rightarrow> WorkerRegisterRequest option \<Rightarrow> coordinator \<Rightarrow> coordinator \<times> response" where
  "HandleRegisterWorker url_ok is_post body c =
     (if \<not> is_post then (c, 405, HErr ''method not allowed'')
      else case body of
        None \<Rightarrow> (c, 400, HErr ''invalid JSON'')
      | Some req \<Rightarrow>
         (let worker = trim_space (wr_WorkerID req); repo0 = trim_space (wr_Repo req);
              mgmt0 = trim_right_slash (trim_space (wr_MgmtBaseURL req)); audit = trim_right_slash (trim_space (wr_AuditURL req))
          in if audit \<noteq> [] \<and> \<not> url_ok audit then (c, 400, HErr ''audit_url must be an http or https URL with a host'')
             else
               (let repos = (if wr_Repos req = [] \<and> repo0 \<noteq> [] then [repo0] else wr_Repos req);
                    repo = (if repo0 = [] \<and> repos \<noteq> [] then trim_space (hd repos) else repo0);
                    runtime = (if trim_space (wr_Runtime req) = [] then RuntimeClaudeCode else trim_space (wr_Runtime req))
                in if worker = [] \<or> repo = [] \<or> wr_Roles req = [] then (c, 400, HErr ''worker_id, repo, and roles are required'')
                   else case firstUnregistered repos (co_pm c) of
                     Inl e \<Rightarrow> (c, 500, HStoreErr e)
                   | Inr (Some r) \<Rightarrow> (c, 400, HErr (''repo '' @ go_quote r @ '' is not registered''))
                   | Inr None \<Rightarrow>
                      (let mgmt = (if wr_Tunnel req then trim_space mgmt0 else mgmt0)
                       in case RegisterWithReposTunnel worker repo repos (wr_Roles req) runtime (wr_Hostname req) mgmt audit
                                 (wr_Tunnel req) (NewRegistry (co_db c) 0) of
                            (r, Inl e) \<Rightarrow> (put_db (rg_db r) c, 500, HStoreErr e)
                          | (r, Inr _) \<Rightarrow>
                             (let c1 = put_db (rg_db r) c;
                                  c2 = (if wr_OpenSessions req = [] then c1
                                        else fst (BulkUpsertSessionRoutes (seedRoutes worker (wr_OpenSessions req)) c1))
                              in (co_log TypeWorkerRegistered repo 0
                                    [(''worker_id'', PStr worker), (''roles'', PStrs (wr_Roles req)), (''runtime'', PStr runtime),
                                     (''repos'', PStrs repos), (''hostname'', PStr (wr_Hostname req)), (''mgmt_url'', PStr mgmt),
                                     (''audit_url'', PStr audit), (''tunnel'', PBool (wr_Tunnel req))] c2,
                                  201, HStatus ''registered''))))))"

definition HandleClearIssueInflight :: "bool \<Rightarrow> string \<Rightarrow> coordinator \<Rightarrow> coordinator \<times> response" where
  "HandleClearIssueInflight is_post path c =
     (if \<not> is_post then (c, 405, HErr ''method not allowed'')
      else case parseClearIssueInflightPath path of
             None \<Rightarrow> (c, 400, HErr ''invalid issue path'')
           | Some (repo, n) \<Rightarrow>
              (case pm_ClearInflight repo n (co_pm c) of
                 (pm, None) \<Rightarrow> (put_pm pm c, 404, HErr ''no inflight entry for issue'')
               | (pm, Some g) \<Rightarrow> (put_pm pm c, 200, HGroup repo n g)))"

definition HandleHealth :: "coordinator \<Rightarrow> coordinator \<times> response" where
  "HandleHealth c = (case ListStatuses (co_pm c) of Inl e \<Rightarrow> (c, 500, HStoreErr e) | Inr ss \<Rightarrow> (c, 200, HCount (length ss)))"

definition HandleListRepos :: "bool \<Rightarrow> coordinator \<Rightarrow> coordinator \<times> response" where
  "HandleListRepos is_get c =
     (if \<not> is_get then (c, 405, HErr ''method not allowed'')
      else case ListStatuses (co_pm c) of Inl e \<Rightarrow> (c, 500, HStoreErr e) | Inr ss \<Rightarrow> (c, 200, HRepos ss))"

definition HandleRepoByPath :: "pm_env \<Rightarrow> string \<Rightarrow> string \<Rightarrow> coordinator \<Rightarrow> coordinator \<times> response" where
  "HandleRepoByPath env method path c =
     (let repo = trim_space (trim_prefix path ''/api/v1/repos/'')
      in if repo = [] then (c, 404, HEmpty)
         else if method \<noteq> ''DELETE'' then (c, 405, HErr ''method not allowed'')
         else case Deregister env repo (co_pm c) of
                (pm, Inl e) \<Rightarrow> (put_pm pm c, 500, HPMErr e)
              | (pm, Inr _) \<Rightarrow> (put_pm pm c, 200, HStatus ''deleted''))"

definition put_regs :: "registrations \<Rightarrow> PollerManager \<Rightarrow> PollerManager" where
  "put_regs tbl pm = pm\<lparr>pm_registrations := tbl\<rparr>"

definition HandleRegisterRepo :: "pm_env \<Rightarrow> bool \<Rightarrow> RepoRegistrationPayload option \<Rightarrow> coordinator \<Rightarrow> coordinator \<times> response" where
  "HandleRegisterRepo env is_post body c =
     (if \<not> is_post then (c, 405, HErr ''method not allowed'')
      else case body of
        None \<Rightarrow> (c, 400, HErr ''invalid JSON'')
      | Some req \<Rightarrow>
         (let repo = trim_space (rp_Repo req); pm = co_pm c
          in if repo = [] then (c, 400, HErr ''repo is required'')
             else case BuildRepoRegistrationRecord (en_stat env) (Some (req\<lparr>rp_Repo := repo, rp_Environment := trim_space (rp_Environment req),
                         rp_PollInterval := 0\<rparr>)) of
               Inl e \<Rightarrow> (c, 400, HRegErr e)
             | Inr rec \<Rightarrow>
                (case GetRepoRegistration repo (pm_db pm) (pm_registrations pm) of
                   Inl e \<Rightarrow> (c, 500, HStoreErr e)
                 | Inr prev \<Rightarrow>
                    (case UpsertRepoRegistration rec (pm_db pm) (pm_registrations pm) of
                       (tbl, Inl e) \<Rightarrow> (put_pm (put_regs tbl pm) c, 500, HStoreErr e)
                     | (tbl, Inr _) \<Rightarrow>
                        (case StartOrUpdate env rec (put_regs tbl pm) of
                           (pm1, Inr _) \<Rightarrow> (put_pm pm1 c, 200, HStatus ''registered'')
                         | (pm1, Inl e) \<Rightarrow>
                            (case (case prev of
                                     Some old \<Rightarrow> UpsertRepoRegistration old (pm_db pm1) (pm_registrations pm1)
                                   | None \<Rightarrow> DeleteRepoRegistration repo (pm_db pm1) (pm_registrations pm1)) of
                               (tbl', _) \<Rightarrow> (put_pm (put_regs tbl' pm1) c, 500, HPMErr e)))))))"

section \<open>House-keeping\<close>

definition reaperRunOnce :: "duration \<Rightarrow> store \<times> Event list option \<Rightarrow> store \<times> Event list option" where
  "reaperRunOnce grace x =
     (case x of (d, lg) \<Rightarrow>
        (case ReapStaleRunningTasks grace d of
           (d', _, Some _) \<Rightarrow> (d', lg)
         | (d', reaped, None) \<Rightarrow> (d', map_option (\<lambda>es. es @ map (\<lambda>t.
             \<lparr>ev_Type = TypeTaskReaped, ev_Repo = t_Repo t, ev_IssueNum = t_IssueNum t,
              ev_Payload = [(''task_id'', PStr (t_ID t)), (''repo'', PStr (t_Repo t)), (''issue_num'', PInt (t_IssueNum t)),
                (''agent'', PStr (t_AgentName t)), (''worker_id'', PStr (go_str (t_WorkerID t)))] @
                (case t_HeartbeatAt t of None \<Rightarrow> [(''last_heartbeat_at'', PStr [])] | Some h \<Rightarrow> [(''last_heartbeat_at'', PTime h)]) @
                [(''reason'', PStr ''no_heartbeat'')]\<rparr>) reaped) lg)))"

definition RecoverCoordinatorIssueClaims :: "int \<Rightarrow> store \<Rightarrow> store \<times> unit result" where
  "RecoverCoordinatorIssueClaims pid s =
     (case DeleteStaleCoordinatorIssueClaims pid s of (d, Inl e) \<Rightarrow> (d, Inl e) | (d, Inr _) \<Rightarrow> (d, Inr ()))"

fun failRunning :: "TaskRecord list \<Rightarrow> store \<times> AlertEvent list option \<Rightarrow> store \<times> AlertEvent list option" where
  "failRunning [] x = x"
| "failRunning (t # ts) (d, al) = failRunning ts
     (fst (UpdateTaskStatus (t_ID t) TaskStatusFailed d), map_option (\<lambda>es. es @
        [\<lparr>al_Kind = KindOrphanedTask, al_Severity = SeverityWarn, al_Repo = t_Repo t, al_IssueNum = t_IssueNum t,
          al_AgentName = t_AgentName t, al_Timestamp = clock d div second,
          al_Payload = [(''task_id'', PStr (t_ID t)), (''status'', PStr TaskStatusFailed)]\<rparr>]) al)"

definition RecoverTasks :: "store \<times> AlertEvent list option \<Rightarrow> (store \<times> AlertEvent list option) \<times> unit result" where
  "RecoverTasks x =
     (case QueryTasksFiltered [] TaskStatusRunning (fst x) of
        Inl e \<Rightarrow> (x, Inl e)
      | Inr running \<Rightarrow>
         (let x1 = failRunning running x
          in case QueryTasksFiltered [] TaskStatusPending (fst x1) of Inl e \<Rightarrow> (x1, Inl e) | Inr _ \<Rightarrow> (x1, Inr ())))"

end
