(* ===== verification/Runtime_Safety.thy ===== *)
theory Runtime_Safety
  imports Repo_Runtime SM_Fanout
begin

text \<open>
  What the manager of the runtimes guarantees: the recovery of lost work handles exactly the
  orphaned issues, a repository that is deregistered leaves nothing behind, and the dependency
  maintenance before the first event of a cycle keeps issues with unmet dependencies out of the
  dispatch channel. A part of the database that no store call of the state machine writes is
  kept by every operation that only runs state machines (locale \<open>store_kept\<close>).
\<close>

section \<open>Parts of the database that state machines leave alone\<close>

locale store_kept =
  fixes V :: "store \<Rightarrow> 'v"
  assumes kept: "store_effect w d d' \<Longrightarrow> V d' = V d"
begin

lemma effects_kept: "effects s s' \<Longrightarrow> V (db s') = V (db s)"
proof (induction rule: rtranclp_induct)
  case (step t u)
  from step(2) have "V (db u) = V (db t)"
    by (cases rule: sm_effect.cases) (auto simp: core_def kept)
  with step.IH show ?case by simp
qed simp

lemma program_kept: "state_io_rel effects p \<Longrightarrow> V (db (snd (run_state p s))) = V (db s)"
  by (rule effects_kept) (rule eff.io_run)

lemma run_in_kept:
  assumes "state_io_rel effects p"
  shows "V (pm_db (fst (run_in repo rt p pm))) = V (pm_db pm)"
  using program_kept [OF assms, of "lend (rt_sm rt) pm"]
  by (simp add: run_in_def set_runtime_def take_back_def lend_def case_prod_beta)

lemma recoverEach_kept: "V (pm_db (fst (recoverEach env repo cs k pm))) = V (pm_db pm)"
proof (induction env repo cs k pm rule: recoverEach.induct)
  case (2 env repo r n cached rest k pm)
  have "V (pm_db pm') = V (pm_db pm)"
    if "run_in repo rt (HandleEvent (en_ctx env) (created_event r n labels)) pm = (pm', x)" for rt labels pm' x
    using run_in_kept [OF eff_HandleEvent, of repo rt "en_ctx env" "created_event r n labels" pm] that by simp
  with 2 show ?case by (auto split: option.splits sum.splits bool.splits prod.splits)
qed simp

lemma recover_kept: "V (pm_db (fst (recoverOrphanedActiveStates env repo pm))) = V (pm_db pm)"
  using recoverEach_kept by (auto simp: recoverOrphanedActiveStates_def split: sum.splits prod.splits) (metis fst_conv)

lemma stopRepo_kept: "V (pm_db (fst (stopRepo env repo pm))) = V (pm_db pm)"
  using program_kept [OF eff_ReleaseAll]
  by (auto simp: stopRepo_def Let_def take_back_def lend_def split: option.splits)

lemma StartOrUpdate_kept: "V (pm_db (fst (StartOrUpdate env rec pm))) = V (pm_db pm)"
  using stopRepo_kept [of env "rr_Repo rec" pm] recover_kept
  by (auto simp: StartOrUpdate_def set_runtime_def split: sum.splits option.splits prod.splits)

end

lemma acquire_queue: "task_queue (fst (AcquireIssueClaim repo n w l d)) = task_queue d"
proof -
  have "task_queue (fst (acquireIssueClaimOnce repo n w l d)) = task_queue d" for l d
    by (auto simp: acquireIssueClaimOnce_def acquireHeld_def generateClaimToken_def Let_def split: option.splits)
  then have "task_queue (fst (retry_busy m (acquireIssueClaimOnce repo n w l) d)) = task_queue d" for m l
    by (rule retry_busy_rel [where R = "\<lambda>d d'. task_queue d' = task_queue d", rotated 2]) auto
  then show ?thesis by (simp add: AcquireIssueClaim_def)
qed

interpretation queue_kept: store_kept "\<lambda>d. (task_queue d, faults d)"
proof unfold_locales
  fix w d d'
  assume "store_effect w d d'"
  then show "(task_queue d', faults d') = (task_queue d, faults d)"
    by cases (auto simp: acquire_queue acquire_frame CreateIfMissing_def CreateWorkflowInstanceIfMissing_def Advance_def
      AdvanceWorkflowInstance_def IncrementTransition_def incrementCycleCount_def TouchIssueFirstDispatch_def
      markIssueCapHit_def ResetIssueCycleState_def UpsertIssuePipelineHazard_def ClearIssuePipelineHazard_def
      ReleaseIssueClaim_def Let_def split: sum.splits)
qed

section \<open>A sample manager\<close>

definition demo_env :: pm_env where
  "demo_env = \<lparr>en_ctx = background, en_resolver_ctx = None, en_yaml = demo_yaml, en_uuids = (\<lambda>_. ''uuid''), en_span_trace = (\<lambda>t. t),
     en_stat = (\<lambda>_. False), en_reader = (\<lambda>_. Some (\<lambda>_ _. Inl ''HTTP 404'')), en_precheck = (\<lambda>_. True), en_stops = (\<lambda>_. True),
     en_react = (\<lambda>_ _ _. True), en_reporter = False, en_host = None, en_pid = 1\<rparr>"

definition demo_registration :: RepoRegistrationRecord where
  "demo_registration = \<lparr>rr_Repo = ''o/r'', rr_Environment = [], rr_Status = ''active'', rr_ConfigJSON = CText demo_payload,
     rr_RegisteredAt = 0, rr_UpdatedAt = 0\<rparr>"

definition demo_full_config :: FullConfig where
  "demo_full_config = \<lparr>cf_Global = \<lparr>gc_Repo = ''o/r'', gc_Environment = [], gc_PollInterval = 0, gc_Port = 0\<rparr>,
     cf_Operator = \<lparr>oc_Enabled = False, oc_CheckInterval = 0, oc_DedupWindow = 0, oc_InboxDir = []\<rparr>,
     cf_Stale = withDefaults \<lparr>IdleThreshold = 0, CheckInterval = 0, GracePeriod = 0\<rparr>,
     cf_Agents = [], cf_Workflows = [(''default'', demo_workflow)]\<rparr>"

definition demo_manager :: "store \<Rightarrow> PollerManager" where
  "demo_manager d = \<lparr>pm_db = d, pm_registrations = [(''o/r'', demo_registration)], pm_events = [], pm_alerts = None, pm_uuid_pos = 0,
     pm_runtimes = [(''o/r'', \<lparr>rt_Registration = demo_registration, rt_Config = demo_full_config, rt_sm = demo_coord ''A'' empty_store,
       rt_reader = (\<lambda>_ _. Inl ''HTTP 404''), rt_cancelled = False, rt_depsResolved = False, rt_depGraphVersion = 0\<rparr>)],
     pm_security = None, pm_reactions = []\<rparr>"

section \<open>Deregistering\<close>

lemma filter_upd_rows:
  assumes "\<And>r. P r \<Longrightarrow> \<not> Q r" "\<And>r. P r \<Longrightarrow> \<not> Q (f r)"
  shows "filter Q (upd_rows P f rows) = filter Q rows"
  by (induction rows) (simp_all add: upd_rows_def assms)

lemma upd_rows_gone:
  assumes "r \<in> set (upd_rows P f rows)" "\<And>r. P r \<Longrightarrow> \<not> P (f r)"
  shows "\<not> P r"
  using assms by (auto simp: set_upd_rows split: if_splits) metis

lemma stopRepo_frame:
  "stopRepo env repo pm = (pm', x) \<Longrightarrow> pm_runtimes pm' = AList.delete repo (pm_runtimes pm) \<and> pm_registrations pm' = pm_registrations pm"
  by (auto simp: stopRepo_def Let_def take_back_def AList.delete_notin_dom map_of_eq_None_iff dom_map_of_conv_image_fst delete_id
      split: option.splits)

text \<open>C10. Deregistering a repository leaves nothing of it behind: when it succeeds the repository
  has no runtime, no registration and no pending or running task; the runtimes, registrations
  and tasks of the other repositories are as before. It succeeds whenever the runtime stops in
  time and the database accepts the two statements.\<close>

theorem deregister_complete:
  assumes "en_stops env repo" "\<not> faults (pm_db pm) OpFailPending" "\<not> faults (pm_db pm) OpDeleteRegistration"
  shows "\<exists>pm'. Deregister env repo pm = (pm', Inr ()) \<and> map_of (pm_runtimes pm') repo = None \<and>
    map_of (pm_registrations pm') repo = None \<and>
    (\<forall>t \<in> set (task_queue (pm_db pm')). t_Repo t = repo \<longrightarrow> \<not> active_status (t_Status t)) \<and>
    filter (\<lambda>t. t_Repo t \<noteq> repo) (task_queue (pm_db pm')) = filter (\<lambda>t. t_Repo t \<noteq> repo) (task_queue (pm_db pm)) \<and>
    (\<forall>other. other \<noteq> repo \<longrightarrow> map_of (pm_runtimes pm') other = map_of (pm_runtimes pm) other \<and>
       map_of (pm_registrations pm') other = map_of (pm_registrations pm) other)"
proof -
  obtain pm1 x where stop: "stopRepo env repo pm = (pm1, x)" by (rule prod.exhaust)
  have x: "x = Inr ()" using stop assms(1) by (auto simp: stopRepo_def Let_def split: option.splits)
  have db: "task_queue (pm_db pm1) = task_queue (pm_db pm)" "faults (pm_db pm1) = faults (pm_db pm)"
    using queue_kept.stopRepo_kept [of env repo pm] stop by simp_all
  note frame = stopRepo_frame [OF stop]
  define q where "q = upd_rows (\<lambda>t. t_Repo t = repo \<and> active_status (t_Status t))
    (\<lambda>t. t\<lparr>t_Status := TaskStatusFailed, t_ExitCode := 1, t_CompletedAt := Some (db_now (pm_db pm1)), t_UpdatedAt := db_now (pm_db pm1)\<rparr>)
    (task_queue (pm_db pm))"
  define pm' where "pm' = pm1\<lparr>pm_db := (pm_db pm1)\<lparr>task_queue := q\<rparr>, pm_registrations := AList.delete repo (pm_registrations pm)\<rparr>"
  have "Deregister env repo pm = (pm', Inr ())"
    using assms(2,3) frame by (simp add: Deregister_def stop x FailPendingTasksForRepo_def DeleteRepoRegistration_def db pm'_def q_def)
  moreover have "\<not> active_status TaskStatusFailed" by (simp add: active_status_def task_status_defs)
  then have "\<not> (t_Repo t = repo \<and> active_status (t_Status t))" if "t \<in> set q" for t
    using that unfolding q_def by (elim upd_rows_gone) simp
  moreover have "filter (\<lambda>t. t_Repo t \<noteq> repo) q = filter (\<lambda>t. t_Repo t \<noteq> repo) (task_queue (pm_db pm))"
    unfolding q_def by (rule filter_upd_rows) simp_all
  ultimately show ?thesis using frame by (intro exI [of _ pm']) (simp add: pm'_def delete_conv')
qed

theorem deregister_complete_witness:
  "\<exists>pm'. Deregister demo_env ''o/r'' (demo_manager (sample_queue [sample_task])) = (pm', Inr ()) \<and>
     map_of (pm_runtimes pm') ''o/r'' = None \<and> map_of (pm_registrations pm') ''o/r'' = None \<and>
     (\<forall>t \<in> set (task_queue (pm_db pm')). t_Repo t = ''o/r'' \<longrightarrow> \<not> active_status (t_Status t))"
proof -
  have "en_stops demo_env ''o/r''" "\<not> faults (pm_db (demo_manager (sample_queue [sample_task]))) OpFailPending"
    "\<not> faults (pm_db (demo_manager (sample_queue [sample_task]))) OpDeleteRegistration"
    by code_simp+
  from deregister_complete [OF this] show ?thesis by blast
qed

section \<open>Recovery\<close>

text \<open>An issue is orphaned when it is open, its labels select exactly one state with agents and no
  task of it is pending or running. The event that recovers it.\<close>

definition orphan_event :: "FullConfig \<Rightarrow> store \<Rightarrow> issue_key \<times> IssueCache \<Rightarrow> ChangeEvent option" where
  "orphan_event cfg d x =
     (case x of ((r, n), cached) \<Rightarrow>
        (case parseCachedLabels (ic_Labels cached) of
           None \<Rightarrow> None
         | Some labels \<Rightarrow>
             if ic_State cached = ''open'' \<and> length (activeMatches (cf_Workflows cfg) labels) = 1 \<and>
                \<not> (\<exists>t \<in> set (task_queue d). t_Repo t = r \<and> t_IssueNum t = n \<and> active_status (t_Status t))
             then Some (created_event r n labels) else None))"

fun handle_all :: "ctx \<Rightarrow> ChangeEvent list \<Rightarrow> sm \<Rightarrow> nat \<times> sm" where
  "handle_all c [] s = (0, s)"
| "handle_all c (ev # evs) s =
     (case run_state (HandleEvent c ev) s of
        (x, s1) \<Rightarrow> (case handle_all c evs s1 of (k, s2) \<Rightarrow> (if isl x then k else Suc k, s2)))"

text \<open>The state machine of a runtime as its next call will see it.\<close>

definition runtime_state :: "string \<Rightarrow> PollerManager \<Rightarrow> sm option" where
  "runtime_state repo pm = map_option (\<lambda>rt. lend (rt_sm rt) pm) (map_of (pm_runtimes pm) repo)"

lemma HasAnyActiveTask_none:
  "\<not> faults d OpHasActive \<Longrightarrow> HasAnyActiveTask r n d =
     Inr (\<exists>t \<in> set (task_queue d). t_Repo t = r \<and> t_IssueNum t = n \<and> active_status (t_Status t))"
  by (auto simp: HasAnyActiveTask_def count_rows_def filter_empty_conv)

lemma recoverEach_Cons:
  assumes "map_of (pm_runtimes pm) repo = Some rt" "\<not> faults (pm_db pm) OpHasActive"
  shows "recoverEach env repo (x # rest) k pm =
    (case orphan_event (rt_Config rt) (pm_db pm) x of
       None \<Rightarrow> recoverEach env repo rest k pm
     | Some ev \<Rightarrow> (case run_in repo rt (HandleEvent (en_ctx env) ev) pm of
         (pm', y) \<Rightarrow> recoverEach env repo rest (if isl y then k else Suc k) pm'))"
proof -
  obtain r n cached where x: "x = ((r, n), cached)" by (metis prod.exhaust)
  show ?thesis
  proof (cases "parseCachedLabels (ic_Labels cached)")
    case (Some labels)
    have one: "recoverableActiveState (rt_Config rt) labels = Inr (Some m) \<Longrightarrow> length (activeMatches (cf_Workflows (rt_Config rt)) labels) = 1"
      "recoverableActiveState (rt_Config rt) labels = Inl () \<Longrightarrow> length (activeMatches (cf_Workflows (rt_Config rt)) labels) \<noteq> 1"
      "recoverableActiveState (rt_Config rt) labels = Inr None \<Longrightarrow> length (activeMatches (cf_Workflows (rt_Config rt)) labels) \<noteq> 1" for m
      by (auto simp: recoverableActiveState_def split: list.splits)
    show ?thesis
      using assms one
      by (auto simp: x Some orphan_event_def HasAnyActiveTask_none bool.case_eq_if split: sum.splits option.splits prod.splits)
  qed (simp add: x assms orphan_event_def)
qed

lemma run_in_state:
  assumes "map_of (pm_runtimes pm) repo = Some rt" "run_state p (lend (rt_sm rt) pm) = (y, s)"
  obtains pm' rt' where "run_in repo rt p pm = (pm', y)" "map_of (pm_runtimes pm') repo = Some rt'"
    "lend (rt_sm rt') pm' = s" "rt_Config rt' = rt_Config rt" "pm_db pm' = db s"
proof
  let ?pm = "set_runtime repo (rt\<lparr>rt_sm := s\<rparr>) (take_back s pm)"
  show "run_in repo rt p pm = (?pm, y)" using assms(2) by (simp add: run_in_def)
  show "map_of (pm_runtimes ?pm) repo = Some (rt\<lparr>rt_sm := s\<rparr>)" by (simp add: set_runtime_def update_conv')
  show "lend (rt_sm (rt\<lparr>rt_sm := s\<rparr>)) ?pm = s" by (simp add: lend_def set_runtime_def take_back_def)
qed (simp_all add: set_runtime_def take_back_def)

lemma recoverEach_handles:
  assumes "map_of (pm_runtimes pm) repo = Some rt" "\<not> faults (pm_db pm) OpHasActive"
    and "handle_all (en_ctx env) (List.map_filter (orphan_event (rt_Config rt) (pm_db pm)) cs) (lend (rt_sm rt) pm) = (j, s)"
  shows "\<exists>pm'. recoverEach env repo cs k pm = (pm', k + j) \<and> runtime_state repo pm' = Some s"
  using assms
proof (induction cs arbitrary: pm rt k j)
  case Nil
  then show ?case by (simp add: List.map_filter_def runtime_state_def)
next
  case (Cons x cs)
  note step = recoverEach_Cons [OF Cons.prems(1,2), of env x cs k]
  show ?case
  proof (cases "orphan_event (rt_Config rt) (pm_db pm) x")
    case None
    then show ?thesis using step Cons.IH [OF Cons.prems(1,2)] Cons.prems(3) by (simp add: List.map_filter_def)
  next
    case (Some ev)
    obtain y s1 where y: "run_state (HandleEvent (en_ctx env) ev) (lend (rt_sm rt) pm) = (y, s1)" by (rule prod.exhaust)
    obtain pm1 rt1 where r1: "run_in repo rt (HandleEvent (en_ctx env) ev) pm = (pm1, y)" "map_of (pm_runtimes pm1) repo = Some rt1"
      "lend (rt_sm rt1) pm1 = s1" "rt_Config rt1 = rt_Config rt" by (rule run_in_state [OF Cons.prems(1) y])
    have db: "task_queue (pm_db pm1) = task_queue (pm_db pm)" "faults (pm_db pm1) = faults (pm_db pm)"
      using queue_kept.run_in_kept [OF eff_HandleEvent, of repo rt "en_ctx env" ev pm] r1(1) by simp_all
    have same: "orphan_event (rt_Config rt1) (pm_db pm1) = orphan_event (rt_Config rt) (pm_db pm)"
      unfolding orphan_event_def [abs_def] r1(4) db(1) ..
    obtain j1 where j1: "handle_all (en_ctx env) (List.map_filter (orphan_event (rt_Config rt) (pm_db pm)) cs) s1 = (j1, s)"
      and j: "j = (if isl y then j1 else Suc j1)"
      using Cons.prems(3) Some y by (auto simp: List.map_filter_def split: prod.splits)
    from Cons.IH [OF r1(2), of j1 "if isl y then k else Suc k"] Cons.prems(2) db r1(3) j1 same
    show ?thesis using step Some r1(1) j by auto
  qed
qed

text \<open>C9. The recovery handles exactly the orphaned issues: for each of them, in the order of the
  cache, the state machine of the runtime processes a created event with the cached labels, and
  nothing else happens to it; the number reported is the number of events handled without an
  error. Which issues are orphaned is decided on the state before the recovery.\<close>

theorem recovery_exact:
  assumes "ListIssueCaches repo (pm_db pm) = Inr caches" "\<not> faults (pm_db pm) OpHasActive"
    and "map_of (pm_runtimes pm) repo = Some rt"
  shows "case handle_all (en_ctx env) (List.map_filter (orphan_event (rt_Config rt) (pm_db pm)) caches) (lend (rt_sm rt) pm) of
    (k, s) \<Rightarrow> \<exists>pm'. recoverOrphanedActiveStates env repo pm = (pm', Inr k) \<and> runtime_state repo pm' = Some s \<and>
      task_queue (pm_db pm') = task_queue (pm_db pm)"
proof -
  obtain k s where h: "handle_all (en_ctx env) (List.map_filter (orphan_event (rt_Config rt) (pm_db pm)) caches) (lend (rt_sm rt) pm) = (k, s)"
    by (rule prod.exhaust)
  from recoverEach_handles [OF assms(3,2) h, of 0] obtain pm' where
    "recoverEach env repo caches 0 pm = (pm', k)" "runtime_state repo pm' = Some s" by auto
  moreover from this(1) have "recoverOrphanedActiveStates env repo pm = (pm', Inr k)"
    by (simp add: recoverOrphanedActiveStates_def assms(1))
  ultimately show ?thesis using h queue_kept.recover_kept [of env repo pm] by simp
qed

definition orphan_db :: store where
  "orphan_db = empty_store\<lparr>issue_cache := [((''o/r'', 7), (demo_row [])\<lparr>ic_Labels := JText [''workbuddy'', ''status:developing'']\<rparr>),
     ((''o/r'', 8), demo_row [])]\<rparr>"

theorem recovery_exact_witness:
  "\<exists>pm' s. recoverOrphanedActiveStates demo_env ''o/r'' (demo_manager orphan_db) = (pm', Inr 1) \<and>
     runtime_state ''o/r'' pm' = Some s \<and> map r_AgentName (dispatched s) = [''dev'', ''docs'']"
proof -
  let ?pm = "demo_manager orphan_db"
  define rt where "rt = snd (hd (pm_runtimes ?pm))"
  define caches where "caches = [((''o/r'', 7 :: int), scan_cache (snd (hd (issue_cache orphan_db)))), ((''o/r'', 8), scan_cache (demo_row []))]"
  have c: "ListIssueCaches ''o/r'' (pm_db ?pm) = Inr caches" "\<not> faults (pm_db ?pm) OpHasActive"
    unfolding caches_def by code_simp+
  have rt: "map_of (pm_runtimes ?pm) ''o/r'' = Some rt" by (simp add: rt_def demo_manager_def)
  obtain k s where ks: "handle_all (en_ctx demo_env) (List.map_filter (orphan_event (rt_Config rt) (pm_db ?pm)) caches) (lend (rt_sm rt) ?pm) = (k, s)"
    by (rule prod.exhaust)
  have "(\<lambda>(k, s). k = 1 \<and> map r_AgentName (dispatched s) = [''dev'', ''docs''])
      (handle_all (en_ctx demo_env) (List.map_filter (orphan_event (rt_Config rt) (pm_db ?pm)) caches) (lend (rt_sm rt) ?pm))"
    unfolding rt_def caches_def by code_simp
  with recovery_exact [OF c rt, of demo_env] ks show ?thesis by auto
qed

section \<open>The dependency gate in a poll cycle\<close>

definition sent_for :: "string \<Rightarrow> int \<Rightarrow> PollerManager \<Rightarrow> DispatchRequest list" where
  "sent_for repo n pm =
     (case map_of (pm_runtimes pm) repo of None \<Rightarrow> [] | Some rt \<Rightarrow> filter (for_issue (repo, n)) (dispatched (rt_sm rt)))"

lemma dropCaches_gate: "IsBlocked r n (dropCaches repo ns d) = IsBlocked r n d"
proof (induction ns arbitrary: d)
  case (Cons m ns)
  have "IsBlocked r n (fst (DeleteIssueCache repo m d)) = IsBlocked r n d"
    by (simp add: DeleteIssueCache_def IsBlocked_def QueryIssueDependencyState_def)
  with Cons show ?case by simp
qed simp

lemma reaction_gate: "IsBlocked r n (fst (MarkDependencyReactionApplied repo m b d)) = IsBlocked r n d"
proof -
  have m: "map_of (map (\<lambda>(k, st). (k, if k = (repo, m) then st\<lparr>ds_LastReactionBlocked := b\<rparr> else st)) xs) k =
    map_option (\<lambda>st. if k = (repo, m) then st\<lparr>ds_LastReactionBlocked := b\<rparr> else st) (map_of xs k)" for xs k
    by (induction xs) auto
  show ?thesis
    by (cases "map_of (issue_dependency_state d) (r, n)")
      (simp_all add: MarkDependencyReactionApplied_def IsBlocked_def QueryIssueDependencyState_def m)
qed

lemma applyReactions_gate:
  "IsBlocked r n (pm_db (applyReactions env cs pm)) = IsBlocked r n (pm_db pm) \<and> pm_runtimes (applyReactions env cs pm) = pm_runtimes pm"
proof (induction cs arbitrary: pm)
  case (Cons x rest)
  obtain r' n' cached where "x = ((r', n'), cached)" by (metis prod.exhaust)
  with Cons show ?case by (simp add: Let_def reaction_gate split: sum.split option.split)
qed simp

lemma maintenance_gate:
  assumes "EvaluateOpenIssues (rr_Repo (rt_Registration rt)) (rt_depGraphVersion rt + 1) (resolver_of env rt pm) = (r, Inr ns)"
  shows "IsBlocked repo' n (pm_db (runDependencyMaintenance env repo rt pm)) = IsBlocked repo' n (rs_db r)"
    and "map_of (pm_runtimes (runDependencyMaintenance env repo rt pm)) repo = Some (rt\<lparr>rt_depGraphVersion := rt_depGraphVersion rt + 1\<rparr>)"
proof -
  have "resolver_of env rt (set_runtime repo rt' pm) = resolver_of env rt pm" for rt'
    by (simp add: resolver_of_def set_runtime_def)
  with assms show "IsBlocked repo' n (pm_db (runDependencyMaintenance env repo rt pm)) = IsBlocked repo' n (rs_db r)"
    "map_of (pm_runtimes (runDependencyMaintenance env repo rt pm)) repo = Some (rt\<lparr>rt_depGraphVersion := rt_depGraphVersion rt + 1\<rparr>)"
    by (auto simp: runDependencyMaintenance_def Let_def dropCaches_gate applyReactions_gate set_runtime_def update_conv'
        split: sum.splits)
qed

lemma lend_dispatched: "dispatched (lend s pm) = dispatched s"
  by (simp add: lend_def)

lemma event_quiet:
  assumes "map_of (pm_runtimes pm) repo = Some rt" "fst (IsBlocked repo n (pm_db pm))"
  obtains rt' where "map_of (pm_runtimes (fst (run_in repo rt (HandleEvent c ev) pm))) repo = Some rt'"
    "rt_depsResolved rt' = rt_depsResolved rt" "fst (IsBlocked repo n (pm_db (fst (run_in repo rt (HandleEvent c ev) pm))))"
    "filter (for_issue (repo, n)) (dispatched (rt_sm rt')) = filter (for_issue (repo, n)) (dispatched (rt_sm rt))"
proof -
  let ?s = "lend (rt_sm rt) pm"
  obtain y s where y: "run_state (HandleEvent c ev) ?s = (y, s)" by (rule prod.exhaust)
  have "dep_gate.shut repo n ?s s"
    using dep_gate.io_run [OF dep_gate.shut_HandleEvent [of repo n c ev], of ?s] y by simp
  moreover have "dep_blocked repo n ?s" using assms(2) by (simp add: dep_blocked_def lend_def)
  ultimately have "dep_blocked repo n s" "filter (for_issue (repo, n)) (dispatched s) = filter (for_issue (repo, n)) (dispatched ?s)"
    by (simp_all add: dep_gate.shut_def)
  then show thesis
    using that [of "rt\<lparr>rt_sm := s\<rparr>"] lend_dispatched
    by (simp add: run_in_def y set_runtime_def take_back_def update_conv' dep_blocked_def)
qed

text \<open>Once the maintenance has run, the events of the cycle leave a blocked issue alone.\<close>

lemma resolved_cycle_quiet:
  assumes "map_of (pm_runtimes pm) repo = Some rt" "rt_depsResolved rt" "fst (IsBlocked repo n (pm_db pm))"
    and "\<forall>ev \<in> set evs. ce_Repo ev = repo \<and> ce_Type ev \<noteq> EventPollCycleDone"
  shows "sent_for repo n (fold (handleEvent env) evs pm) = sent_for repo n pm"
  using assms
proof (induction evs arbitrary: pm rt)
  case (Cons ev evs)
  show ?case
  proof (cases "AllowSecurityEvent (pm_security pm) ev")
    case False
    then have "handleEvent env ev pm = pm" using Cons.prems by (simp add: handleEvent_def)
    with Cons show ?thesis by simp
  next
    case True
    then have h: "handleEvent env ev pm = fst (run_in repo rt (HandleEvent (en_ctx env) ev) pm)"
      using Cons.prems by (simp add: handleEvent_def)
    from event_quiet [OF Cons.prems(1,3), of "en_ctx env" ev] obtain rt' where
      "map_of (pm_runtimes (handleEvent env ev pm)) repo = Some rt'" "rt_depsResolved rt' = rt_depsResolved rt"
      "fst (IsBlocked repo n (pm_db (handleEvent env ev pm)))"
      "filter (for_issue (repo, n)) (dispatched (rt_sm rt')) = filter (for_issue (repo, n)) (dispatched (rt_sm rt))"
      unfolding h by blast
    with Cons.IH [of "handleEvent env ev pm" rt'] Cons.prems show ?thesis by (simp add: sent_for_def)
  qed
qed simp

text \<open>C5. A poll cycle sends nothing for an issue with an unmet dependency. The first event of a
  cycle runs the dependency maintenance before the state machine sees it, so whatever events of
  the repository follow until the end of the cycle, no request is sent for an open issue without
  the override label that has a dependency that is not met or lies on a reported cycle.\<close>

theorem cycle_respects_dependencies:
  assumes "map_of (pm_runtimes pm) repo = Some rt" "rr_Repo (rt_Registration rt) = repo" "\<not> rt_depsResolved rt"
    and "EvaluateOpenIssues repo (rt_depGraphVersion rt + 1) (resolver_of env rt pm) = (r, Inr ns)"
    and "ListIssueCaches repo (pm_db pm) = Inr caches" "map_of (openIssuesOf caches) n = Some issue"
    and "OverrideLabel \<notin> set (i_Labels issue)"
    and "map_of (detectCycles (dependency_graph (en_yaml env) repo (openIssuesOf caches))) n \<noteq> None \<or>
      (\<exists>x \<in> set (issue_outcomes repo (en_yaml env) (rt_reader rt) (openIssuesOf caches) issue). x \<noteq> Met)"
    and "\<forall>ev \<in> set evs. ce_Repo ev = repo \<and> ce_Type ev \<noteq> EventPollCycleDone"
  shows "sent_for repo n (fold (handleEvent env) evs pm) = sent_for repo n pm"
  using assms(9)
proof (induction evs)
  case (Cons ev evs)
  show ?case
  proof (cases "AllowSecurityEvent (pm_security pm) ev")
    case False
    then have "handleEvent env ev pm = pm" using Cons.prems assms(1) by (simp add: handleEvent_def)
    with Cons show ?thesis by simp
  next
    case True
    let ?pm1 = "runDependencyMaintenance env repo rt pm"
    let ?rt1 = "rt\<lparr>rt_depGraphVersion := rt_depGraphVersion rt + 1, rt_depsResolved := True\<rparr>"
    let ?pm2 = "set_runtime repo ?rt1 ?pm1"
    have world: "rs_db (resolver_of env rt pm) = pm_db pm" "rs_yaml (resolver_of env rt pm) = en_yaml env"
      "rs_reader (resolver_of env rt pm) = rt_reader rt"
      by (simp_all add: resolver_of_def NewResolver_def)
    note m = maintenance_gate [of rt env pm, unfolded assms(2), OF assms(4)]
    have "fst (IsBlocked repo n (rs_db r))"
      using evaluated_gate [OF assms(4), unfolded world, OF assms(5,6)] assms(7,8) by simp
    then have b: "fst (IsBlocked repo n (pm_db ?pm2))" by (simp add: set_runtime_def m(1))
    have r1: "map_of (pm_runtimes ?pm2) repo = Some ?rt1" by (simp add: set_runtime_def update_conv')
    have h: "handleEvent env ev pm = fst (run_in repo ?rt1 (HandleEvent (en_ctx env) ev) ?pm2)"
      using Cons.prems True assms(1,3) m(2) r1 by (simp add: handleEvent_def upd_runtime_def)
    from event_quiet [OF r1 b, of "en_ctx env" ev] obtain rt' where
      "map_of (pm_runtimes (handleEvent env ev pm)) repo = Some rt'" "rt_depsResolved rt'"
      "fst (IsBlocked repo n (pm_db (handleEvent env ev pm)))"
      "filter (for_issue (repo, n)) (dispatched (rt_sm rt')) = filter (for_issue (repo, n)) (dispatched (rt_sm rt))"
      unfolding h by auto
    with resolved_cycle_quiet [of "handleEvent env ev pm" repo rt' n evs env] Cons.prems assms(1)
    show ?thesis by (simp add: sent_for_def)
  qed
qed simp

theorem cycle_respects_dependencies_witness:
  "sent_for ''o/r'' 7 (handleEvent demo_env (demo_change EventIssueCreated ''eve'') (demo_manager (rs_db demo_resolver))) = []"
proof -
  let ?pm = "demo_manager (rs_db demo_resolver)" and ?ev = "demo_change EventIssueCreated ''eve''"
  define rt where "rt = snd (hd (pm_runtimes ?pm))"
  have rt: "map_of (pm_runtimes ?pm) ''o/r'' = Some rt" "rr_Repo (rt_Registration rt) = ''o/r''" "\<not> rt_depsResolved rt"
    "rt_depGraphVersion rt + 1 = 1" "en_yaml demo_env = demo_yaml" "rt_reader rt = (\<lambda>_ _. Inl ''HTTP 404'')"
    by (simp_all add: rt_def demo_manager_def demo_registration_def demo_env_def)
  have res: "resolver_of demo_env rt ?pm = demo_resolver"
    by (simp add: resolver_of_def rt_def demo_manager_def demo_env_def NewResolver_def demo_resolver_def)
  have db: "pm_db ?pm = rs_db demo_resolver" by (simp add: demo_manager_def)
  obtain r' ns caches where ev: "EvaluateOpenIssues ''o/r'' 1 demo_resolver = (r', Inr ns)"
    and c: "ListIssueCaches ''o/r'' (rs_db demo_resolver) = Inr caches" and opens: "openIssuesOf caches = demo_open"
    by (rule demo_evaluation)
  note spec = cycle_respects_dependencies [OF rt(1-3), of demo_env, unfolded rt(4-6) res db, OF ev c, of 7 "cached_issue ((''o/r'', 7), demo_row demo_body)" "[?ev]", unfolded opens]
  have "sent_for ''o/r'' 7 (fold (handleEvent demo_env) [?ev] ?pm) = sent_for ''o/r'' 7 ?pm"
    by (rule spec) (simp_all add: demo_issue demo_outcomes OverrideLabel_def demo_change_def EventIssueCreated_def EventPollCycleDone_def)
  moreover have "sent_for ''o/r'' 7 ?pm = []" by code_simp
  ultimately show ?thesis by simp
qed

end
