(* ===== verification/Task_Flow.thy ===== *)
theory Task_Flow
  imports Coordinator Runtime_Safety
begin

text \<open>
  The way of a task through the coordinator: from the requests of the state machine over the
  router into the queue, and from a worker's report back into the state machine. The state
  machine itself never writes the queue (interpretation \<open>queue_kept\<close> of \<open>Runtime_Safety\<close>), so what
  the handlers do to a row is what their store operations do. Also: what a refused registration
  of a repository leaves behind.
\<close>

section \<open>Routing\<close>

definition admitted :: "DispatchRequest \<Rightarrow> Router \<Rightarrow> bool" where
  "admitted req r \<longleftrightarrow> map_of (ro_agents r) (r_AgentName req) \<noteq> None \<and>
     (case IsBlocked (r_Repo req) (r_IssueNum req) (ro_db r) of (blocked, _, e) \<Rightarrow> \<not> blocked \<and> e = None)"

text \<open>The pending row of a request.\<close>

definition row_for :: "(string \<times> AgentConfig) list \<Rightarrow> DispatchRequest \<Rightarrow> TaskRecord \<Rightarrow> bool" where
  "row_for agents req t \<longleftrightarrow> t_Repo t = r_Repo req \<and> t_IssueNum t = r_IssueNum req \<and> t_AgentName t = r_AgentName req \<and>
     (\<exists>a. map_of agents (r_AgentName req) = Some a \<and> t_Role t = ac_Role a \<and> t_Runtime t = ac_Runtime a) \<and>
     t_Workflow t = r_Workflow req \<and> t_State t = r_State req \<and> t_RolloutIndex t = r_RolloutIndex req \<and>
     t_RolloutsTotal t = (if r_RolloutsTotal req \<le> 0 then 1 else r_RolloutsTotal req) \<and>
     t_RolloutGroupID t = r_RolloutGroupID req \<and> t_Status t = TaskStatusPending \<and> t_LeaseExpiresAt t = None"

definition fresh_ids :: "Router \<Rightarrow> bool" where
  "fresh_ids r \<longleftrightarrow> inj (ro_uuids r) \<and> (\<forall>k \<ge> ro_uuid_pos r. \<forall>t \<in> set (task_queue (ro_db r)). t_ID t \<noteq> ro_uuids r k)"

definition same_gates :: "Router \<Rightarrow> Router \<Rightarrow> bool" where
  "same_gates r r' \<longleftrightarrow> ro_agents r' = ro_agents r \<and> faults (ro_db r') = faults (ro_db r) \<and>
     issue_dependency_state (ro_db r') = issue_dependency_state (ro_db r)"

lemma admitted_same: "same_gates r r' \<Longrightarrow> admitted req r' = admitted req r"
  by (simp add: same_gates_def admitted_def IsBlocked_def QueryIssueDependencyState_def)

lemma handleDispatch_step:
  assumes "fresh_ids r" "\<not> faults (ro_db r) OpInsertTask"
  shows "\<exists>rows. task_queue (ro_db (handleDispatch txt req r)) = task_queue (ro_db r) @ rows \<and>
      (if admitted req r then \<exists>t. rows = [t] \<and> row_for (ro_agents r) req t else rows = []) \<and>
      fresh_ids (handleDispatch txt req r) \<and> same_gates r (handleDispatch txt req r)"
proof (cases "admitted req r")
  case False
  then have "handleDispatch txt req r = r\<lparr>ro_events := ro_events (handleDispatch txt req r)\<rparr>"
    by (auto simp: handleDispatch_def decide_def admitted_def ro_logEvent_def Let_def split: option.splits prod.splits bool.splits)
  then have "ro_db (handleDispatch txt req r) = ro_db r" "ro_agents (handleDispatch txt req r) = ro_agents r"
    "ro_uuids (handleDispatch txt req r) = ro_uuids r" "ro_uuid_pos (handleDispatch txt req r) = ro_uuid_pos r"
    by (metis Router.select_convs Router.surjective Router.update_convs(4))+
  then show ?thesis using False assms(1) by (simp add: fresh_ids_def same_gates_def)
next
  case True
  then obtain a v where a: "map_of (ro_agents r) (r_AgentName req) = Some a"
    and b: "IsBlocked (r_Repo req) (r_IssueNum req) (ro_db r) = (False, v, None)"
    by (auto simp: admitted_def split: prod.splits)
  let ?i = "ro_uuids r (ro_uuid_pos r)" and ?q = "task_queue (ro_db r)"
  obtain d where d: "decide txt req r = (r, Some d)" "de_Agent d = Some a"
    and fields: "de_Repo d = r_Repo req" "de_IssueNum d = r_IssueNum req" "de_AgentName d = r_AgentName req"
      "de_Workflow d = r_Workflow req" "de_State d = r_State req" "de_RolloutIndex d = r_RolloutIndex req"
      "de_RolloutsTotal d = r_RolloutsTotal req" "de_RolloutGroupID d = r_RolloutGroupID req"
    using a b by (simp add: decide_def)
  have "\<not> (\<exists>t \<in> set ?q. t_ID t = ?i)" using assms(1) by (auto simp: fresh_ids_def)
  then obtain t where t: "InsertTask (task_of ?i d a) (ro_db r) = ((ro_db r)\<lparr>task_queue := ?q @ [t]\<rparr>, Inr ())"
      "t_ID t = ?i" "row_for (ro_agents r) req t"
    using assms(2) a fields by (simp add: InsertTask_def Let_def task_of_def row_for_def task_status_defs)
  have h: "handleDispatch txt req r = r\<lparr>ro_db := (ro_db r)\<lparr>task_queue := ?q @ [t]\<rparr>, ro_uuid_pos := Suc (ro_uuid_pos r)\<rparr>"
    by (simp add: handleDispatch_def d Prepare_def t(1))
  have "fresh_ids (handleDispatch txt req r)"
    using assms(1) t(2) by (auto simp: h fresh_ids_def dest: injD)
  then show ?thesis using True t(3) by (simp add: h same_gates_def)
qed

text \<open>The router turns a batch of dispatch requests into tasks without loss or duplication:
  exactly the requests for a known agent whose issue the dependency gate does not block become
  rows, one each, in order, pending, unleased and with the fields of the request and the role
  and runtime of the agent; nothing else in the queue changes.\<close>

theorem routeAll_exact:
  assumes "fresh_ids r" "\<not> faults (ro_db r) OpInsertTask"
  shows "\<exists>rows. task_queue (ro_db (routeAll txt reqs r)) = task_queue (ro_db r) @ rows \<and>
    list_all2 (row_for (ro_agents r)) (filter (\<lambda>req. admitted req r) reqs) rows"
  using assms
proof (induction reqs arbitrary: r)
  case (Cons req reqs)
  let ?r = "handleDispatch txt req r"
  obtain rows where rows: "task_queue (ro_db ?r) = task_queue (ro_db r) @ rows"
    "if admitted req r then \<exists>t. rows = [t] \<and> row_for (ro_agents r) req t else rows = []"
    "fresh_ids ?r" "same_gates r ?r"
    using handleDispatch_step [OF Cons.prems] by blast
  have "\<not> faults (ro_db ?r) OpInsertTask" "ro_agents ?r = ro_agents r"
    using rows(4) Cons.prems(2) by (simp_all add: same_gates_def)
  with Cons.IH [OF rows(3)] admitted_same [OF rows(4)] obtain rest where
    "task_queue (ro_db (routeAll txt reqs ?r)) = task_queue (ro_db ?r) @ rest"
    "list_all2 (row_for (ro_agents r)) (filter (\<lambda>req. admitted req r) reqs) rest" by auto
  then show ?case using rows(1,2) by (intro exI [of _ "rows @ rest"]) (auto simp: routeAll_def split: if_splits)
qed (simp add: routeAll_def)

definition demo_router :: Router where
  "demo_router = \<lparr>ro_agents = [(''dev'', empty_agent\<lparr>ac_Name := ''dev'', ac_Role := ''dev'', ac_Runtime := ''codex''\<rparr>)], ro_workflows = [],
     ro_db = empty_store, ro_events = None, ro_uuids = (\<lambda>k. replicate k CHR ''u''), ro_uuid_pos = 0\<rparr>"

definition demo_request :: "string \<Rightarrow> int \<Rightarrow> DispatchRequest" where
  "demo_request agent n = \<lparr>r_Repo = ''o/r'', r_IssueNum = n, r_AgentName = agent, r_Workflow = ''wf'', r_State = ''developing'',
     r_SourceState = [], r_RolloutIndex = 0, r_RolloutsTotal = 1, r_RolloutGroupID = [], r_RootTraceID = []\<rparr>"

theorem routeAll_exact_witness:
  "length (task_queue (ro_db (routeAll (\<lambda>_. []) [demo_request ''dev'' 7, demo_request ''ghost'' 8, demo_request ''dev'' 9] demo_router))) = 2"
proof -
  let ?reqs = "[demo_request ''dev'' 7, demo_request ''ghost'' 8, demo_request ''dev'' 9]"
  have "fresh_ids demo_router" "\<not> faults (ro_db demo_router) OpInsertTask"
    by (auto simp: fresh_ids_def demo_router_def empty_store_def inj_def)
  then obtain rows where
    "task_queue (ro_db (routeAll (\<lambda>_. []) ?reqs demo_router)) = task_queue (ro_db demo_router) @ rows"
    "list_all2 (row_for (ro_agents demo_router)) (filter (\<lambda>req. admitted req demo_router) ?reqs) rows"
    using routeAll_exact by blast
  moreover have "length (filter (\<lambda>req. admitted req demo_router) ?reqs) = 2" by code_simp
  moreover have "task_queue (ro_db demo_router) = []" by code_simp
  ultimately show ?thesis by (simp add: list_all2_lengthD)
qed

section \<open>Reporting a result\<close>

lemma co_db_simps [simp]:
  "co_db (put_pm pm c) = pm_db pm" "co_db (put_db d c) = d" "co_db (co_log ty repo n p c) = co_db c"
  "co_db (PublishTaskCompletion t status e c) = co_db c"
  by (simp_all add: co_db_def put_db_def put_pm_def co_log_def pm_log_def PublishTaskCompletion_def)

lemma co_heartbeat_queue: "task_queue (co_db (fst (co_heartbeat w c))) = task_queue (co_db c)"
  by (auto simp: co_heartbeat_def Heartbeat_def on_db_def NewRegistry_def UpdateWorkerHeartbeat_def
      split: prod.splits option.splits if_splits)

lemma completion_queue: "task_queue (pm_db (pm_MarkAgentCompletedWithDecision repo n i a e ls dec pm)) = task_queue (pm_db pm)"
  using queue_kept.run_in_kept [OF eff_MarkAgentCompleted] by (simp add: pm_MarkAgentCompletedWithDecision_def split: option.split)

lemma finishResult_queue: "task_queue (co_db (finishResult req w t status c)) = task_queue (co_db c)"
proof -
  have "pm_db (co_pm c) = co_db c" for c by (simp add: co_db_def)
  then show ?thesis by (simp add: finishResult_def Let_def completion_queue co_heartbeat_queue)
qed

lemma NormalizeTaskResultStatus_terminal: "NormalizeTaskResultStatus raw \<noteq> [] \<Longrightarrow> terminal_status (NormalizeTaskResultStatus raw)"
  by (auto simp: NormalizeTaskResultStatus_def Let_def terminal_status_def)

definition settled_as :: "string \<Rightarrow> string \<Rightarrow> store \<Rightarrow> TaskRecord list" where
  "settled_as i status s = upd_rows (\<lambda>r. t_ID r = i \<and> active_status (t_Status r))
     (\<lambda>r. r\<lparr>t_Status := status, t_UpdatedAt := db_now s\<rparr>) (task_queue s)"

lemma result_accepted:
  assumes "HandleTaskResult body i c = (c', 200, x)"
  obtains req t where "body = Some req" "task_by_id i (co_db c) = Some t" "go_str (t_WorkerID t) = trim_space (rq_WorkerID req)"
    "trim_space (rq_WorkerID req) \<noteq> []" "terminal_status (NormalizeTaskResultStatus (rq_Status req))"
    "x = HStatus (NormalizeTaskResultStatus (rq_Status req))"
    "count_rows (\<lambda>r. t_ID r = i \<and> active_status (t_Status r)) (task_queue (co_db c)) \<noteq> 0"
    "task_queue (co_db c') = settled_as i (NormalizeTaskResultStatus (rq_Status req)) (co_db c)"
proof -
  obtain req where req: "body = Some req" using assms by (auto simp: HandleTaskResult_def split: option.splits)
  let ?w = "trim_space (rq_WorkerID req)" and ?st = "NormalizeTaskResultStatus (rq_Status req)"
  obtain t where t: "GetTask i (co_db c) = Inr t" "?w \<noteq> []" "go_str (t_WorkerID t) = ?w" "?st \<noteq> []"
    using assms req by (auto simp: HandleTaskResult_def Let_def split: sum.splits if_splits)
  obtain d where d: "TransitionTaskStatusIfRunning i ?st (co_db c) = (d, Inr ())"
      "c' = finishResult req ?w t ?st (put_db d c)" "x = HStatus ?st"
    using assms req t by (auto simp: HandleTaskResult_def Let_def split: sum.splits if_splits prod.splits)
  obtain r where r: "task_by_id i (co_db c) = Some r" "t_WorkerID t = t_WorkerID r"
    using t(1) by (auto simp: GetTask_def scanTaskRecord_def split: if_splits option.splits)
  have "count_rows (\<lambda>r. t_ID r = i \<and> active_status (t_Status r)) (task_queue (co_db c)) \<noteq> 0"
    "task_queue d = settled_as i ?st (co_db c)"
    using d(1) by (auto simp: TransitionTaskStatusIfRunning_def settled_as_def Let_def split: if_splits)
  then show thesis
    using that [of req r] req r t d NormalizeTaskResultStatus_terminal [of "rq_Status req"]
    by (simp add: finishResult_queue)
qed

lemma result_refused:
  assumes "task_ids_distinct (co_db c)" "task_by_id i (co_db c) = Some r" "terminal_status (t_Status r)"
  shows "fst (snd (HandleTaskResult body i c)) \<noteq> 200"
proof
  assume "fst (snd (HandleTaskResult body i c)) = 200"
  then obtain c' x where "HandleTaskResult body i c = (c', 200, x)" by (metis prod.collapse)
  then have "count_rows (\<lambda>r. t_ID r = i \<and> active_status (t_Status r)) (task_queue (co_db c)) \<noteq> 0" by (rule result_accepted)
  then obtain q where "q \<in> set (task_queue (co_db c))" "t_ID q = i" "active_status (t_Status q)" by (auto simp: count_rows_0)
  with task_by_id_unique [OF assms(1)] assms(2,3) terminal_not_active show False by fastforce
qed

text \<open>The result of a task is accepted at most once, from the worker that holds it: when the
  coordinator accepts a report, the task was active and owned by the reporting worker and is
  settled with the reported status afterwards, and whatever operations on the queue follow (unless a start-up recovery
  had read the task while it was running), every later report for the task is refused, so the state machine hears of no task twice.\<close>

theorem task_result_once:
  assumes "HandleTaskResult body i c = (c', 200, x)" "task_ids_distinct (co_db c)" "task_step\<^sup>*\<^sup>* (co_db c', p) (co_db c2, p')" "i \<notin> set p"
  shows "(\<exists>req t t'. body = Some req \<and> task_by_id i (co_db c) = Some t \<and> active_status (t_Status t) \<and>
      t_WorkerID t = Some (trim_space (rq_WorkerID req)) \<and>
      task_by_id i (co_db c') = Some t' \<and> t_Status t' = NormalizeTaskResultStatus (rq_Status req) \<and> terminal_status (t_Status t')) \<and>
    fst (snd (HandleTaskResult body' i c2)) \<noteq> 200"
proof -
  obtain req t where a: "body = Some req" "task_by_id i (co_db c) = Some t" "go_str (t_WorkerID t) = trim_space (rq_WorkerID req)"
    "trim_space (rq_WorkerID req) \<noteq> []" "terminal_status (NormalizeTaskResultStatus (rq_Status req))"
    "count_rows (\<lambda>r. t_ID r = i \<and> active_status (t_Status r)) (task_queue (co_db c)) \<noteq> 0"
    "task_queue (co_db c') = settled_as i (NormalizeTaskResultStatus (rq_Status req)) (co_db c)"
    using assms(1) by (rule result_accepted) blast
  let ?t = "t\<lparr>t_Status := NormalizeTaskResultStatus (rq_Status req), t_UpdatedAt := db_now (co_db c)\<rparr>"
  obtain q where "q \<in> set (task_queue (co_db c))" "t_ID q = i" "active_status (t_Status q)" using a(6) by (auto simp: count_rows_0)
  with task_by_id_unique [OF assms(2)] a(2)
  have t: "t \<in> set (task_queue (co_db c))" "t_ID t = i" "active_status (t_Status t)" by fastforce+
  then have in': "?t \<in> set (task_queue (co_db c'))" by (auto simp: a(7) settled_as_def upd_rows_def image_iff intro!: bexI [of _ t])
  have ids: "task_ids_distinct (co_db c')"
    using assms(2) by (simp add: a(7) settled_as_def task_ids_distinct_def map_upd_rows)
  from task_by_id_unique [OF ids in'] t(2) have "task_by_id i (co_db c') = Some ?t" by simp
  moreover have "t_WorkerID t = Some (trim_space (rq_WorkerID req))" using a(3,4) by (cases "t_WorkerID t") (simp_all add: go_str_def)
  moreover obtain r2 where "task_by_id i (co_db c2) = Some r2" "outcome r2 = outcome ?t"
    using tq.settled_kept [OF assms(3)] ids in' assms(4) a(5) t(2) by fastforce
  then have "fst (snd (HandleTaskResult body' i c2)) \<noteq> 200"
    using result_refused [of c2] tq.ids_unique [OF assms(3)] ids a(5) by (simp add: outcome_def)
  ultimately show ?thesis using a(1,2,5) t(3) by auto
qed

definition demo_coordinator :: coordinator where
  "demo_coordinator = \<lparr>co_pm = demo_manager (sample_queue [sample_task]), co_routes = [], co_hub = Some []\<rparr>"

definition demo_result :: TaskResultRequest where
  "demo_result = \<lparr>rq_WorkerID = '' A '', rq_Status = ''Completed'', rq_CurrentLabels = [], rq_InfraFailure = False,
     rq_InfraReason = [], rq_SynthesisDecision = None\<rparr>"

theorem task_result_once_witness:
  "let r = HandleTaskResult (Some demo_result) ''t1'' demo_coordinator
   in fst (snd r) = 200 \<and> fst (snd (HandleTaskResult (Some demo_result) ''t1'' (fst r))) \<noteq> 200"
proof -
  let ?r = "HandleTaskResult (Some demo_result) ''t1'' demo_coordinator"
  have "fst (snd ?r) = 200" by code_simp
  then obtain c' x where r: "?r = (c', 200, x)" by (metis prod.collapse)
  have "task_ids_distinct (co_db demo_coordinator)" unfolding task_ids_distinct_def by code_simp
  from task_result_once [OF r this, of "[]" c' "[]" "Some demo_result"] r show ?thesis by (simp add: Let_def)
qed

section \<open>Registering a repository\<close>

text \<open>Equal up to the time of the last write.\<close>

definition same_registration :: "RepoRegistrationRecord option \<Rightarrow> RepoRegistrationRecord option \<Rightarrow> bool" where
  "same_registration x y \<longleftrightarrow> map_option (\<lambda>r. r\<lparr>rr_UpdatedAt := 0\<rparr>) x = map_option (\<lambda>r. r\<lparr>rr_UpdatedAt := 0\<rparr>) y"

text \<open>What the table holds when only \<^verbatim>\<open>UpsertRepoRegistration\<close> writes it.\<close>

definition registrations_ok :: "registrations \<Rightarrow> bool" where
  "registrations_ok tbl \<longleftrightarrow> (\<forall>repo r. map_of tbl repo = Some r \<longrightarrow>
     rr_Repo r = repo \<and> trim_space (rr_Status r) \<noteq> [] \<and> \<not> blank_text (rr_ConfigJSON r))"

lemma StartOrUpdate_failed:
  assumes "StartOrUpdate env rec pm = (pm', Inl e)"
  shows "pm_registrations pm' = pm_registrations pm \<and> faults (pm_db pm') = faults (pm_db pm) \<and>
    (e = PMStopTimeout (rr_Repo rec) \<or> pm' = pm)"
proof (cases "pm' = pm")
  case False
  then have stop: "stopRepo env (rr_Repo rec) pm = (pm', Inl e)"
    using assms by (auto simp: StartOrUpdate_def Let_def split: sum.splits option.splits if_splits prod.splits)
  then have "e = PMStopTimeout (rr_Repo rec)" by (auto simp: stopRepo_def Let_def split: option.splits if_splits)
  then show ?thesis using stopRepo_frame [OF stop] queue_kept.StartOrUpdate_kept [of env rec pm] assms by simp
qed simp

lemma BuildRepoRegistrationRecord_repo:
  "BuildRepoRegistrationRecord stat (Some p) = Inr rec \<Longrightarrow> rr_Repo rec = trim_space (rp_Repo p)"
  by (auto simp: BuildRepoRegistrationRecord_def Let_def split: sum.splits)

lemma rollback_restores:
  assumes "UpsertRepoRegistration rec d tbl = (tbl1, Inr ())" "rr_Repo rec = repo" "registrations_ok tbl" "map_of tbl repo = Some old"
    and "\<not> faults d' OpUpsertRegistration"
  shows "same_registration (map_of (fst (UpsertRepoRegistration old d' tbl1)) k) (map_of tbl k)"
proof -
  have old: "rr_Repo old = repo" "trim_space (rr_Status old) \<noteq> []" "\<not> blank_text (rr_ConfigJSON old)"
    using assms(3,4) by (auto simp: registrations_ok_def)
  obtain en st cfg where r1: "tbl1 = AList.update repo (old\<lparr>rr_Environment := en, rr_Status := st,
      rr_ConfigJSON := cfg, rr_UpdatedAt := db_now d\<rparr>) tbl"
    using assms(1,2,4) by (auto simp: UpsertRepoRegistration_def Let_def split: if_splits)
  show ?thesis
    using assms(4,5) old by (simp add: UpsertRepoRegistration_def Let_def r1 update_conv' same_registration_def)
qed

lemma rollback_deletes:
  assumes "UpsertRepoRegistration rec d tbl = (tbl1, Inr ())" "rr_Repo rec = repo" "map_of tbl repo = None"
    and "\<not> faults d' OpDeleteRegistration"
  shows "map_of (fst (DeleteRepoRegistration repo d' tbl1)) k = map_of tbl k"
proof -
  obtain r1 where "tbl1 = AList.update repo r1 tbl"
    using assms(1,2) by (auto simp: UpsertRepoRegistration_def Let_def split: if_splits)
  then show ?thesis using assms(3,4) by (simp add: DeleteRepoRegistration_def delete_conv' update_conv')
qed

text \<open>A registration that cannot be put into effect is taken back: when the runtime of a
  repository cannot be started or replaced, the handler answers with a server error and leaves
  the registrations of all repositories as they were, up to the time of the last write; unless
  the old runtime did not stop in time, the running repositories, the database and the event
  log are untouched as well.\<close>

theorem refused_registration_undone:
  assumes "HandleRegisterRepo env True (Some req) c = (c', 500, HPMErr e)"
    and "registrations_ok (pm_registrations (co_pm c))"
    and "\<not> faults (co_db c) OpUpsertRegistration" "\<not> faults (co_db c) OpDeleteRegistration"
  shows "(\<forall>repo. same_registration (map_of (pm_registrations (co_pm c')) repo) (map_of (pm_registrations (co_pm c)) repo)) \<and>
    (e = PMStopTimeout (trim_space (rp_Repo req)) \<or>
     (co_pm c')\<lparr>pm_registrations := pm_registrations (co_pm c)\<rparr> = co_pm c)"
proof -
  let ?repo = "trim_space (rp_Repo req)" and ?pm = "co_pm c"
  let ?req = "req\<lparr>rp_Repo := ?repo, rp_Environment := trim_space (rp_Environment req), rp_PollInterval := 0\<rparr>"
  obtain rec where b: "BuildRepoRegistrationRecord (en_stat env) (Some ?req) = Inr rec"
    using assms(1) by (auto simp: HandleRegisterRepo_def Let_def split: if_splits sum.splits)
  from BuildRepoRegistrationRecord_repo [OF this] have rec: "rr_Repo rec = ?repo" by simp
  obtain tbl where up: "UpsertRepoRegistration rec (pm_db ?pm) (pm_registrations ?pm) = (tbl, Inr ())"
    using assms(1) by (auto simp: HandleRegisterRepo_def Let_def b split: if_splits sum.splits prod.splits)
  obtain pm1 y where run: "StartOrUpdate env rec (put_regs tbl ?pm) = (pm1, y)" by (rule prod.exhaust)
  have start: "StartOrUpdate env rec (put_regs tbl ?pm) = (pm1, Inl e)"
    using assms(1) run by (auto simp: HandleRegisterRepo_def Let_def b up split: if_splits sum.splits prod.splits)
  have c': "c' = put_pm (put_regs (fst (case map_of (pm_registrations ?pm) ?repo of
        Some old \<Rightarrow> UpsertRepoRegistration old (pm_db pm1) (pm_registrations pm1)
      | None \<Rightarrow> DeleteRepoRegistration ?repo (pm_db pm1) (pm_registrations pm1))) pm1) c"
    using assms(1)
    by (cases "map_of (pm_registrations ?pm) ?repo")
      (auto simp: HandleRegisterRepo_def Let_def b up start GetRepoRegistration_def split: if_splits prod.splits)
  note st = StartOrUpdate_failed [OF start]
  have tbl1: "pm_registrations pm1 = tbl" and ok: "\<not> faults (pm_db pm1) OpUpsertRegistration" "\<not> faults (pm_db pm1) OpDeleteRegistration"
    using st assms(3,4) by (simp_all add: put_regs_def co_db_def)
  have "same_registration (map_of (pm_registrations (co_pm c')) k) (map_of (pm_registrations ?pm) k)" for k
    using rollback_restores [OF up rec assms(2) _ ok(1)] rollback_deletes [OF up rec _ ok(2)]
    by (simp add: c' put_pm_def put_regs_def tbl1 same_registration_def split: option.split)
  moreover have "e = PMStopTimeout ?repo \<or> (co_pm c')\<lparr>pm_registrations := pm_registrations ?pm\<rparr> = ?pm"
  proof (cases "e = PMStopTimeout ?repo")
    case False
    then have "pm1 = put_regs tbl ?pm" using st rec by simp
    then show ?thesis by (simp add: c' put_pm_def put_regs_def)
  qed simp
  ultimately show ?thesis by blast
qed

theorem refused_registration_undone_witness:
  "let env = demo_env\<lparr>en_precheck := (\<lambda>_. False)\<rparr>; r = HandleRegisterRepo env True (Some demo_payload) demo_coordinator
   in snd r = (500, HPMErr PMPreCheck) \<and>
      same_registration (map_of (pm_registrations (co_pm (fst r))) ''o/r'') (Some demo_registration) \<and>
      pm_runtimes (co_pm (fst r)) = pm_runtimes (co_pm demo_coordinator)"
proof -
  let ?env = "demo_env\<lparr>en_precheck := (\<lambda>_. False)\<rparr>"
  let ?r = "HandleRegisterRepo ?env True (Some demo_payload) demo_coordinator"
  have s: "snd ?r = (500, HPMErr PMPreCheck)" by code_simp
  then have r: "?r = (fst ?r, 500, HPMErr PMPreCheck)" by (metis prod.collapse)
  have regs: "pm_registrations (co_pm demo_coordinator) = [(''o/r'', demo_registration)]"
    by (simp add: demo_coordinator_def demo_manager_def)
  have "rr_Repo demo_registration = ''o/r''" "trim_space (rr_Status demo_registration) \<noteq> []" "\<not> blank_text (rr_ConfigJSON demo_registration)"
    by code_simp+
  then have "registrations_ok (pm_registrations (co_pm demo_coordinator))" unfolding regs by (simp add: registrations_ok_def)
  moreover have "\<not> faults (co_db demo_coordinator) OpUpsertRegistration" "\<not> faults (co_db demo_coordinator) OpDeleteRegistration"
    by code_simp+
  ultimately have u: "(\<forall>repo. same_registration (map_of (pm_registrations (co_pm (fst ?r))) repo)
      (map_of (pm_registrations (co_pm demo_coordinator)) repo)) \<and>
    (co_pm (fst ?r))\<lparr>pm_registrations := pm_registrations (co_pm demo_coordinator)\<rparr> = co_pm demo_coordinator"
    using refused_registration_undone [OF r] by blast
  then have "pm_runtimes (co_pm (fst ?r)) = pm_runtimes (co_pm demo_coordinator)"
    by (metis PollerManager.select_convs(6) PollerManager.surjective PollerManager.update_convs(2))
  moreover have "same_registration (map_of (pm_registrations (co_pm (fst ?r))) ''o/r'') (Some demo_registration)"
    using conjunct1 [OF u, rule_format, of "''o/r''"] unfolding regs by simp
  ultimately show ?thesis using s by (simp add: Let_def)
qed

end
