(* ===== verification/Reference_Forms.thy ===== *)
theory Reference_Forms
  imports Declaration
begin

text \<open>
  The normal form of a dependency reference (\<^verbatim>\<open>owner/name#n\<close>) denotes what it was made from:
  reading it again gives the same repository, number, status and normal form. The resolver
  keys its reasons and the deduplication of a declaration on this form.
\<close>

definition is_repo_name :: "string \<Rightarrow> bool" where
  "is_repo_name r \<longleftrightarrow>
     (let owner = takeWhile (\<lambda>c. c \<noteq> CHR ''/'') r; name = tl (dropWhile (\<lambda>c. c \<noteq> CHR ''/'') r)
      in CHR ''/'' \<in> set r \<and> owner \<noteq> [] \<and> name \<noteq> [] \<and>
         (\<forall>c \<in> set owner. is_name_char c) \<and> (\<forall>c \<in> set name. is_name_char c))"

definition plain_char :: "char \<Rightarrow> bool" where
  "plain_char c \<longleftrightarrow> is_name_char c \<or> c = CHR ''/'' \<or> c = CHR ''#''"

lemma plain_char_not:
  "plain_char c \<Longrightarrow> \<not> is_space c \<and> c \<noteq> CHR 0x22 \<and> c \<noteq> CHR 0x27 \<and> c \<noteq> CHR 0x5C"
  by (auto simp: plain_char_def is_name_char_def is_space_def Let_def)

lemma repo_name_plain:
  assumes "is_repo_name r"
  shows "r \<noteq> []" "\<forall>c \<in> set r. plain_char c" "hd r \<noteq> CHR ''#''"
proof -
  let ?P = "\<lambda>c. c \<noteq> CHR ''/''"
  have ok: "takeWhile ?P r \<noteq> []" "\<forall>c \<in> set (takeWhile ?P r). is_name_char c" "\<forall>c \<in> set (tl (dropWhile ?P r)). is_name_char c"
    using assms by (simp_all add: is_repo_name_def Let_def)
  show "r \<noteq> []" using ok(1) by auto
  have "set (takeWhile ?P r @ dropWhile ?P r) = set r" by simp
  then have "set r = set (takeWhile ?P r) \<union> set (dropWhile ?P r)" by (simp only: set_append)
  moreover have "set (dropWhile ?P r) \<subseteq> insert (CHR ''/'') (set (tl (dropWhile ?P r)))"
  proof (cases "dropWhile ?P r")
    case (Cons c cs)
    then have "hd (dropWhile ?P r) = CHR ''/''" using hd_dropWhile [of ?P r] by force
    with Cons show ?thesis by simp
  next
    case Nil
    show ?thesis unfolding Nil by simp
  qed
  ultimately show "\<forall>c \<in> set r. plain_char c" using ok(2,3) unfolding plain_char_def by blast
  have "is_name_char (hd r)" using ok(1,2) by (cases r) (auto split: if_splits)
  then show "hd r \<noteq> CHR ''#''" by (auto simp: is_name_char_def)
qed

lemma digit_char_name: "d < 10 \<Longrightarrow> is_name_char (digit_char d)"
  by (simp add: is_name_char_def digit_char_def Let_def)

lemma nat_digits_hd: "0 < n \<Longrightarrow> hd (nat_digits n) \<noteq> CHR ''0''"
proof (induction n rule: nat_digits.induct)
  case (1 n)
  have "digit_char n \<noteq> CHR ''0''" if "n < 10"
  proof
    assume "digit_char n = CHR ''0''"
    then have "of_char (digit_char n) = (48 :: nat)" by simp
    then show False using digit_char_code [OF that] 1(2) by simp
  qed
  moreover have "hd (nat_digits (n div 10)) \<noteq> CHR ''0''" if "\<not> n < 10" using 1 that by simp
  ultimately show ?case by (subst nat_digits.simps) (auto simp: hd_append)
qed

lemma itoa_issue_number: "0 < n \<Longrightarrow> is_issue_number (itoa n)"
  using nat_digits_hd [of "nat n"] nat_digits_chars [of _ "nat n"] digit_val_digit_char
  by (fastforce simp: is_issue_number_def itoa_def)

lemma itoa_plain: "0 < n \<Longrightarrow> c \<in> set (itoa n) \<Longrightarrow> plain_char c"
  using nat_digits_chars [of c "nat n"] digit_char_name by (auto simp: itoa_def plain_char_def)

lemma unescape_plain: "CHR 0x5C \<notin> set s \<Longrightarrow> unescape q s = s"
  by (induction q s rule: unescape.induct) auto

lemma plain_ref_kept:
  assumes "s \<noteq> []" "\<forall>c \<in> set s. plain_char c"
  shows "trim_space s = s" "normalizeDependencyRef s = s"
proof -
  have no: "\<not> is_space c" "c \<noteq> CHR 0x22" "c \<noteq> CHR 0x27" "c \<noteq> CHR 0x5C" if "c \<in> set s" for c
    using that assms(2) plain_char_not by auto
  show t: "trim_space s = s" using assms(1) no(1) by (intro trim_space_id) auto
  have "unescape q s = s" for q using no(4) by (intro unescape_plain) auto
  moreover have "stripMatchingQuotes s = s"
    using no(2,3) assms(1) by (auto simp: stripMatchingQuotes_def)
  ultimately show "normalizeDependencyRef s = s" using t by (simp add: normalizeDependencyRef_def)
qed

lemma fq_form:
  assumes "is_repo_name r" "0 < n" "n \<le> max_int64"
  shows "normalizeDependency repo (r @ ''#'' @ itoa n) =
    \<lparr>pd_Raw = r @ ''#'' @ itoa n, pd_Repo = r, pd_IssueNum = n,
     pd_Status = (if r = repo then DependencyStatusActive else DependencyStatusUnsupportedCrossRepo),
     pd_Normalized = r @ ''#'' @ itoa n, pd_ParseErrorReason = [], pd_Line = 0\<rparr>"
proof -
  let ?s = "r @ ''#'' @ itoa n"
  have "\<forall>c \<in> set ?s. plain_char c"
    using repo_name_plain(2) [OF assms(1)] itoa_plain [OF assms(2)] by (auto simp: plain_char_def)
  then have kept: "trim_space ?s = ?s" "normalizeDependencyRef ?s = ?s" by (intro plain_ref_kept; simp)+
  have "hd ?s \<noteq> CHR ''#''" using repo_name_plain [OF assms(1)] by (simp add: hd_append)
  then have "localIssueRef ?s = None" by (simp add: localIssueRef_def)
  moreover have "split_last_hash ?s = Some (r, itoa n)" using split_last_hash_append [OF itoa_no_hash] by simp
  then have "fqIssueRef ?s = Some (r, itoa n)"
    using assms(1) itoa_issue_number [OF assms(2)] by (simp add: fqIssueRef_def is_repo_name_def Let_def)
  moreover have "atoi (itoa n) = Some n" using assms(2,3) by (intro atoi_itoa) (simp_all add: min_int64_def)
  ultimately show ?thesis
    using kept assms(2) repo_name_plain(1) [OF assms(1)] by (simp add: normalizeDependency_def Let_def)
qed

lemma normalized_bounds:
  "pd_IssueNum (normalizeDependency repo raw) \<le> max_int64 \<and>
   (0 < pd_IssueNum (normalizeDependency repo raw) \<longrightarrow>
      pd_Repo (normalizeDependency repo raw) = repo \<or> is_repo_name (pd_Repo (normalizeDependency repo raw)))"
proof -
  have bound: "atoi ds = Some n \<Longrightarrow> n \<le> max_int64" for ds n
    by (auto simp: atoi_def Let_def split: if_splits option.splits)
  have fq: "fqIssueRef s = Some (r, ds) \<Longrightarrow> is_repo_name r" for s r ds
    by (auto simp: fqIssueRef_def is_repo_name_def Let_def split: option.splits if_splits)
  have "0 \<le> max_int64" by (simp add: max_int64_def)
  then show ?thesis
    by (auto simp: normalizeDependency_def Let_def split: option.splits dest: bound fq)
qed

lemma normalized_ref:
  assumes "is_repo_name repo" "pd_Normalized (normalizeDependency repo raw) \<noteq> []"
  shows "let d = normalizeDependency repo raw
    in is_repo_name (pd_Repo d) \<and> 0 < pd_IssueNum d \<and> pd_IssueNum d \<le> max_int64 \<and>
       pd_Normalized d = pd_Repo d @ ''#'' @ itoa (pd_IssueNum d) \<and>
       pd_Status d = (if pd_Repo d = repo then DependencyStatusActive else DependencyStatusUnsupportedCrossRepo)"
proof -
  let ?d = "normalizeDependency repo raw"
  have "0 < pd_IssueNum ?d" "pd_Status ?d = (if pd_Repo ?d = repo then DependencyStatusActive else DependencyStatusUnsupportedCrossRepo)"
    using normalizeDependency_ok [of repo raw] assms(2) by (auto simp: dep_ok_def)
  moreover from this have "is_repo_name (pd_Repo ?d)" using normalized_bounds [of repo raw] assms(1) by auto
  moreover from this have "pd_Repo ?d \<noteq> []" by (rule repo_name_plain)
  ultimately show ?thesis
    using normalized_bounds [of repo raw] normalizeDependency_ok [of repo raw] by (simp add: dep_named_def Let_def)
qed

section \<open>Properties\<close>

text \<open>Reading the normal form of a dependency reference again gives the same dependency: the
  same repository, issue number and status, and the same normal form; whether the reference was
  written as \<^verbatim>\<open>#n\<close> or in full, quoted, escaped or padded with white space.\<close>

theorem normal_form_stable:
  assumes "is_repo_name repo" "pd_Normalized (normalizeDependency repo raw) \<noteq> []"
  shows "let d = normalizeDependency repo raw; d' = normalizeDependency repo (pd_Normalized d)
    in pd_Repo d' = pd_Repo d \<and> pd_IssueNum d' = pd_IssueNum d \<and> pd_Status d' = pd_Status d \<and>
       pd_Normalized d' = pd_Normalized d"
  using normalized_ref [OF assms]
    fq_form [of "pd_Repo (normalizeDependency repo raw)" "pd_IssueNum (normalizeDependency repo raw)" repo]
  by (simp add: Let_def)

theorem normal_form_stable_witness:
  "let d = normalizeDependency ''o/r'' [CHR 0x22, CHR ''#'', CHR ''1'', CHR ''2'', CHR 0x22];
       d' = normalizeDependency ''o/r'' (pd_Normalized d)
   in pd_Normalized d = ''o/r#12'' \<and> pd_Repo d' = pd_Repo d \<and> pd_IssueNum d' = pd_IssueNum d"
proof -
  let ?raw = "[CHR 0x22, CHR ''#'', CHR ''1'', CHR ''2'', CHR 0x22]"
  have n: "pd_Normalized (normalizeDependency ''o/r'' ?raw) = ''o/r#12''" by code_simp
  moreover have "is_repo_name ''o/r''" by code_simp
  ultimately show ?thesis using normal_form_stable [of "''o/r''" ?raw] by (simp add: Let_def)
qed

end
