(* ===== verification/Auth.thy ===== *)
theory Auth
  imports Coordinator Sha256
begin

text \<open>
  Who may call the coordinator: the tokens of workers (\<^verbatim>\<open>internal/store/worker_tokens.go\<close>) and the
  authorisation of requests (\<^verbatim>\<open>WrapAuth\<close> and its helpers in \<^verbatim>\<open>internal/app/coordinator.go\<close>).

  \<^item> The token columns of the table \<^verbatim>\<open>workers\<close> are kept apart from the other columns:
    \<open>td_tokens\<close> holds them for the workers that were ever issued a token.
  \<^item> Only the SHA-256 hash of a token is stored. Nothing is assumed of the hash: where two
    tokens must not be confused, the statement says that their hashes differ.
  \<^item> A request is its authorisation header, its session cookie, its accept header and its URI.
\<close>

section \<open>Worker tokens\<close>

record token_cols =
  tk_KID :: "string option"
  tk_Hash :: "string option"
  tk_RevokedAt :: "time option"

record token_db =
  td_db :: store
  td_tokens :: "(string \<times> token_cols) list"

record IssuedWorkerToken =
  it_WorkerID :: string
  it_KID :: string
  it_Token :: string

record WorkerTokenRecord =
  wt_WorkerID :: string
  wt_Repo :: string
  wt_Roles :: labels_text
  wt_Hostname :: string
  wt_Status :: string
  wt_KID :: string
  wt_RevokedAt :: "time option"
  wt_RegisteredAt :: time

record WorkerAuthRecord =
  wa_WorkerID :: string
  wa_Repo :: string
  wa_Roles :: labels_text
  wa_Hostname :: string
  wa_Status :: string
  wa_KID :: string

datatype token_error = ErrInvalidWorkerToken | TokenWorkerNotFound string | TokenStore store_error

definition randomHex :: "nat \<Rightarrow> store \<Rightarrow> store \<times> string result" where
  "randomHex n s =
     (if faults s OpRand then (s, Inl (DBError OpRand))
      else (s\<lparr>rand_pos := rand_pos s + n\<rparr>,
            Inr (hex_encode (map (\<lambda>i. rand s (rand_pos s + i) mod 256) [0..<n]))))"

definition hashWorkerToken :: "string \<Rightarrow> string" where
  "hashWorkerToken token = sha256_hex (map of_char token)"

definition parseWorkerTokenKID :: "string \<Rightarrow> string option" where
  "parseWorkerTokenKID token =
     (let t = trim_space token; kid = takeWhile (\<lambda>c. c \<noteq> CHR ''.'') t
      in if CHR ''.'' \<notin> set t \<or> kid = [] then None else Some kid)"

definition token_row :: "string \<Rightarrow> string \<Rightarrow> string list \<Rightarrow> string \<Rightarrow> store \<Rightarrow> WorkerRecord" where
  "token_row w repo roles hostname s =
     (case map_of (workers s) w of
        None \<Rightarrow> \<lparr>w_ID = w, w_Repo = repo, w_ReposJSON = JText [], w_Roles = JText roles, w_Runtime = [], w_Hostname = hostname,
          w_MgmtBaseURL = [], w_AuditURL = [], w_Tunnel = False, w_Status = ''online'', w_LastHeartbeat = db_now s,
          w_RegisteredAt = db_now s\<rparr>
      | Some old \<Rightarrow> old\<lparr>w_Repo := repo, w_Roles := JText roles, w_Hostname := hostname, w_Status := ''online''\<rparr>)"

definition IssueWorkerToken ::
  "string \<Rightarrow> string \<Rightarrow> string list \<Rightarrow> string \<Rightarrow> token_db \<Rightarrow> token_db \<times> (token_error + IssuedWorkerToken)" where
  "IssueWorkerToken w repo roles hostname td =
     (case randomHex 6 (td_db td) of
        (s1, Inl e) \<Rightarrow> (td\<lparr>td_db := s1\<rparr>, Inl (TokenStore e))
      | (s1, Inr kid) \<Rightarrow>
         (case randomHex 24 s1 of
            (s2, Inl e) \<Rightarrow> (td\<lparr>td_db := s2\<rparr>, Inl (TokenStore e))
          | (s2, Inr secret) \<Rightarrow>
             (let token = kid @ ''.'' @ secret
              in if faults s2 OpIssueToken then (td\<lparr>td_db := s2\<rparr>, Inl (TokenStore (DBError OpIssueToken)))
                 else (\<lparr>td_db = s2\<lparr>workers := AList.update w (token_row w repo roles hostname s2) (workers s2)\<rparr>,
                        td_tokens = AList.update w \<lparr>tk_KID = Some kid, tk_Hash = Some (hashWorkerToken token), tk_RevokedAt = None\<rparr>
                          (td_tokens td)\<rparr>,
                       Inr \<lparr>it_WorkerID = w, it_KID = kid, it_Token = token\<rparr>))))"

text \<open>The rows of a query: the token columns with the other columns of the worker.\<close>

definition token_rows :: "token_db \<Rightarrow> (string \<times> token_cols \<times> WorkerRecord) list" where
  "token_rows td = List.map_filter (\<lambda>(i, c). map_option (\<lambda>w. (i, c, w)) (map_of (workers (td_db td)) i)) (td_tokens td)"

definition ListWorkerTokens :: "string \<Rightarrow> token_db \<Rightarrow> WorkerTokenRecord list result" where
  "ListWorkerTokens repo td =
     (if faults (td_db td) OpListTokens then Inl (DBError OpListTokens)
      else Inr (map (\<lambda>(i, c, w). \<lparr>wt_WorkerID = i, wt_Repo = w_Repo w, wt_Roles = w_Roles w, wt_Hostname = w_Hostname w,
                   wt_Status = w_Status w, wt_KID = go_str (tk_KID c), wt_RevokedAt = tk_RevokedAt c, wt_RegisteredAt = w_RegisteredAt w\<rparr>)
             (sort_key fst (filter (\<lambda>(i, c, w). tk_KID c \<noteq> None \<and> (repo = [] \<or> w_Repo w = repo)) (token_rows td)))))"

definition RevokeWorkerToken :: "string \<Rightarrow> string \<Rightarrow> token_db \<Rightarrow> token_db \<times> (token_error + unit)" where
  "RevokeWorkerToken w kid td =
     (if faults (td_db td) OpRevokeToken then (td, Inl (TokenStore (DBError OpRevokeToken)))
      else case map_of (workers (td_db td)) w of
             None \<Rightarrow> (td, Inl (TokenWorkerNotFound w))
           | Some _ \<Rightarrow>
              (let c = (case map_of (td_tokens td) w of None \<Rightarrow> \<lparr>tk_KID = None, tk_Hash = None, tk_RevokedAt = None\<rparr> | Some c \<Rightarrow> c)
               in if trim_space kid \<noteq> [] \<and> tk_KID c \<noteq> Some kid then (td, Inl (TokenWorkerNotFound w))
                  else (td\<lparr>td_tokens := AList.update w (c\<lparr>tk_Hash := None, tk_RevokedAt := Some (db_now (td_db td))\<rparr>) (td_tokens td)\<rparr>,
                        Inr ())))"

definition AuthenticateWorkerToken :: "string \<Rightarrow> token_db \<Rightarrow> token_error + WorkerAuthRecord" where
  "AuthenticateWorkerToken token td =
     (case parseWorkerTokenKID token of
        None \<Rightarrow> Inl ErrInvalidWorkerToken
      | Some kid \<Rightarrow>
         if faults (td_db td) OpAuthToken then Inl (TokenStore (DBError OpAuthToken))
         else case filter (\<lambda>(i, c, w). tk_KID c = Some kid \<and> tk_Hash c = Some (hashWorkerToken token)) (token_rows td) of
                [] \<Rightarrow> Inl ErrInvalidWorkerToken
              | (i, c, w) # _ \<Rightarrow>
                 if tk_RevokedAt c \<noteq> None then Inl ErrInvalidWorkerToken
                 else Inr \<lparr>wa_WorkerID = i, wa_Repo = w_Repo w, wa_Roles = w_Roles w, wa_Hostname = w_Hostname w,
                        wa_Status = w_Status w, wa_KID = kid\<rparr>)"

section \<open>Requests\<close>

record auth_server =
  AuthEnabled :: bool
  AuthToken :: string

record http_request =
  hr_Authorization :: string
  hr_Cookie :: "string option"
  hr_Accept :: string
  hr_URI :: string

definition isAuthorizedBearer :: "auth_server \<Rightarrow> token_db option \<Rightarrow> string \<Rightarrow> bool" where
  "isAuthorizedBearer srv tdb raw =
     (let token = trim_space raw
      in if token = [] then False
         else if AuthToken srv \<noteq> [] \<and> token = AuthToken srv then True
         else case tdb of None \<Rightarrow> False | Some td \<Rightarrow> \<not> isl (AuthenticateWorkerToken token td))"

definition requestAuthorized :: "auth_server \<Rightarrow> token_db option \<Rightarrow> http_request \<Rightarrow> bool" where
  "requestAuthorized srv tdb req =
     (if has_prefix (hr_Authorization req) ''Bearer '' \<and>
         isAuthorizedBearer srv tdb (trim_space (trim_prefix (hr_Authorization req) ''Bearer '')) then True
      else case hr_Cookie req of None \<Rightarrow> False | Some c \<Rightarrow> isAuthorizedBearer srv tdb (trim_space c))"

definition prefersHTML :: "http_request \<Rightarrow> bool" where
  "prefersHTML req \<longleftrightarrow> contains_sub (hr_Accept req) ''text/html''"

text \<open>\<^verbatim>\<open>url.QueryEscape\<close>.\<close>

definition hex_upper :: "nat \<Rightarrow> char" where
  "hex_upper d = (if d < 10 then char_of (48 + d) else char_of (55 + d))"

definition query_char :: "char \<Rightarrow> string" where
  "query_char c =
     (let k = of_char c :: nat
      in if 48 \<le> k \<and> k \<le> 57 \<or> 65 \<le> k \<and> k \<le> 90 \<or> 97 \<le> k \<and> k \<le> 122 \<or> c \<in> set ''-_.~'' then [c]
         else if c = CHR '' '' then ''+'' else [CHR ''%'', hex_upper (k div 16), hex_upper (k mod 16)])"

definition redirectToLogin :: "http_request \<Rightarrow> string" where
  "redirectToLogin req =
     (if hr_URI req \<noteq> [] \<and> hr_URI req \<noteq> ''/login'' then ''/login?next='' @ concat (map query_char (hr_URI req)) else ''/login'')"

datatype 'a access = Served 'a | LoginRedirect string | Unauthorized

definition WrapAuth :: "auth_server \<Rightarrow> token_db option \<Rightarrow> http_request \<Rightarrow> 'a \<Rightarrow> 'a access" where
  "WrapAuth srv tdb req answer =
     (if \<not> AuthEnabled srv then Served answer
      else if requestAuthorized srv tdb req then Served answer
      else if prefersHTML req then LoginRedirect (redirectToLogin req)
      else Unauthorized)"

section \<open>Life of a token\<close>

text \<open>The operations that touch the table of workers.\<close>

datatype worker_op =
    IssueOp string string "string list" string
  | RevokeOp string string
  | RegisterOp WorkerRecord
  | HeartbeatOp string
  | StatusOp string string
  | DeleteOp string

fun run_worker_op :: "worker_op \<Rightarrow> token_db \<Rightarrow> token_db" where
  "run_worker_op (IssueOp w repo roles host) td = fst (IssueWorkerToken w repo roles host td)"
| "run_worker_op (RevokeOp w kid) td = fst (RevokeWorkerToken w kid td)"
| "run_worker_op (RegisterOp w) td = td\<lparr>td_db := fst (InsertWorker w (td_db td))\<rparr>"
| "run_worker_op (HeartbeatOp w) td = td\<lparr>td_db := fst (UpdateWorkerHeartbeat w (td_db td))\<rparr>"
| "run_worker_op (StatusOp w st) td = td\<lparr>td_db := fst (UpdateWorkerStatus w st (td_db td))\<rparr>"
| "run_worker_op (DeleteOp w) td =
     (case DeleteWorker w (td_db td) of
        (s, Inl _) \<Rightarrow> td\<lparr>td_db := s\<rparr>
      | (s, Inr _) \<Rightarrow> \<lparr>td_db = s, td_tokens = AList.delete w (td_tokens td)\<rparr>)"

definition locked_out :: "string \<Rightarrow> token_db \<Rightarrow> bool" where
  "locked_out w td \<longleftrightarrow> (\<forall>c. map_of (td_tokens td) w = Some c \<longrightarrow> tk_Hash c = None)"

definition tokens_ok :: "token_db \<Rightarrow> bool" where
  "tokens_ok td \<longleftrightarrow> distinct (map fst (td_tokens td))"

lemma in_map_filter: "y \<in> set (List.map_filter f xs) \<longleftrightarrow> (\<exists>x \<in> set xs. f x = Some y)"
  by (induction xs) (auto simp: List.map_filter_def)

lemma token_rows_in:
  "(i, c, w) \<in> set (token_rows td) \<longleftrightarrow> (i, c) \<in> set (td_tokens td) \<and> map_of (workers (td_db td)) i = Some w"
  by (force simp: token_rows_def in_map_filter)

lemma authenticated_row:
  assumes "AuthenticateWorkerToken t td = Inr r"
  obtains c w where "(wa_WorkerID r, c, w) \<in> set (token_rows td)" "tk_Hash c = Some (hashWorkerToken t)" "tk_RevokedAt c = None"
    "parseWorkerTokenKID t = tk_KID c"
proof -
  obtain kid where k: "parseWorkerTokenKID t = Some kid" using assms by (auto simp: AuthenticateWorkerToken_def split: option.splits)
  obtain i c w rest where f: "filter (\<lambda>(i, c, w). tk_KID c = Some kid \<and> tk_Hash c = Some (hashWorkerToken t)) (token_rows td) = (i, c, w) # rest"
    and r: "tk_RevokedAt c = None" "wa_WorkerID r = i"
    using assms k by (auto simp: AuthenticateWorkerToken_def split: if_splits list.splits)
  from f have "(i, c, w) \<in> set (filter (\<lambda>(i, c, w). tk_KID c = Some kid \<and> tk_Hash c = Some (hashWorkerToken t)) (token_rows td))" by simp
  with that [of c w] k r show thesis by simp
qed

lemma locked_out_refused:
  assumes "locked_out w td" "tokens_ok td" "AuthenticateWorkerToken t td = Inr r"
  shows "wa_WorkerID r \<noteq> w"
proof
  assume "wa_WorkerID r = w"
  with assms(3) obtain c row where "(w, c, row) \<in> set (token_rows td)" "tk_Hash c \<noteq> None" by (elim authenticated_row) auto
  with assms(1,2) show False by (auto simp: locked_out_def tokens_ok_def token_rows_in)
qed

lemma run_worker_op_ok: "tokens_ok td \<Longrightarrow> tokens_ok (run_worker_op op td)"
  by (cases op) (auto simp: tokens_ok_def IssueWorkerToken_def RevokeWorkerToken_def Let_def distinct_update distinct_delete
      split: prod.splits sum.splits option.splits)

fun issues_for :: "string \<Rightarrow> worker_op \<Rightarrow> bool" where
  "issues_for w (IssueOp w' repo roles host) \<longleftrightarrow> w' = w"
| "issues_for w _ \<longleftrightarrow> False"

lemma run_worker_op_locked:
  assumes "locked_out w td" "\<not> issues_for w op"
  shows "locked_out w (run_worker_op op td)"
  using assms
  by (cases op) (auto simp: locked_out_def IssueWorkerToken_def RevokeWorkerToken_def Let_def update_conv' delete_conv'
      split: prod.splits sum.splits option.splits if_splits)

lemma run_ops_locked:
  assumes "locked_out w td" "tokens_ok td" "\<forall>op \<in> set ops. \<not> issues_for w op"
  shows "locked_out w (fold run_worker_op ops td) \<and> tokens_ok (fold run_worker_op ops td)"
  using assms by (induction ops arbitrary: td) (simp_all add: run_worker_op_ok run_worker_op_locked)

text \<open>The tokens a request carries.\<close>

definition carried_tokens :: "http_request \<Rightarrow> string list" where
  "carried_tokens req =
     (if has_prefix (hr_Authorization req) ''Bearer '' then [trim_space (trim_prefix (hr_Authorization req) ''Bearer '')] else []) @
     (case hr_Cookie req of None \<Rightarrow> [] | Some c \<Rightarrow> [trim_space c])"

lemma isAuthorizedBearer_iff:
  "isAuthorizedBearer srv (Some td) (trim_space t) \<longleftrightarrow> trim_space t \<noteq> [] \<and>
     (trim_space t = AuthToken srv \<or> (\<exists>r. AuthenticateWorkerToken (trim_space t) td = Inr r))"
  by (cases "AuthenticateWorkerToken (trim_space t) td") (auto simp: isAuthorizedBearer_def Let_def)

lemma requestAuthorized_iff:
  "requestAuthorized srv (Some td) req \<longleftrightarrow> (\<exists>t \<in> set (carried_tokens req). t \<noteq> [] \<and>
     (t = AuthToken srv \<or> (\<exists>r. AuthenticateWorkerToken t td = Inr r)))"
  by (auto simp: requestAuthorized_def carried_tokens_def isAuthorizedBearer_iff split: option.splits)

text \<open>C14. Revocation is final. Once the token of a worker has been revoked, and whatever
  registrations, heartbeats, status changes, deletions, revocations and tokens for other workers
  follow, no token authenticates as this worker until a new one is issued to it. So with
  authorisation on, a request that is served carries the token of the server or the live token
  of another worker.\<close>

theorem revocation_final:
  assumes "RevokeWorkerToken w kid td = (td1, Inr ())" "tokens_ok td" "\<forall>op \<in> set ops. \<not> issues_for w op"
    and "AuthEnabled srv" "WrapAuth srv (Some (fold run_worker_op ops td1)) req answer = Served x"
  shows "\<exists>t \<in> set (carried_tokens req). t = AuthToken srv \<or>
    (\<exists>r. AuthenticateWorkerToken t (fold run_worker_op ops td1) = Inr r \<and> wa_WorkerID r \<noteq> w)"
proof -
  have "locked_out w td1" "tokens_ok td1"
    using assms(1,2) by (auto simp: RevokeWorkerToken_def locked_out_def tokens_ok_def Let_def update_conv' distinct_update
        split: if_splits option.splits)
  from run_ops_locked [OF this assms(3)] have "wa_WorkerID r \<noteq> w" if "AuthenticateWorkerToken t (fold run_worker_op ops td1) = Inr r" for t r
    using locked_out_refused that by blast
  moreover have "requestAuthorized srv (Some (fold run_worker_op ops td1)) req"
    using assms(4,5) by (auto simp: WrapAuth_def split: if_splits)
  ultimately show ?thesis unfolding requestAuthorized_iff by blast
qed

section \<open>A fresh token\<close>

lemma hex_digit_plain: "d < 16 \<Longrightarrow> hex_digit d \<noteq> CHR ''.'' \<and> \<not> is_space (hex_digit d)"
proof -
  have "\<forall>d \<in> set [0..<16]. hex_digit d \<noteq> CHR ''.'' \<and> \<not> is_space (hex_digit d)" by code_simp
  then show "d < 16 \<Longrightarrow> hex_digit d \<noteq> CHR ''.'' \<and> \<not> is_space (hex_digit d)" by simp
qed

lemma hex_encode_plain: "\<forall>b \<in> set bs. b < 256 \<Longrightarrow> c \<in> set (hex_encode bs) \<Longrightarrow> c \<noteq> CHR ''.'' \<and> \<not> is_space c"
  by (auto simp: hex_encode_def hex_digit_plain less_mult_imp_div_less)

lemma randomHex_plain:
  assumes "randomHex n s = (s1, Inr h)"
  shows "length h = 2 * n" "c \<in> set h \<Longrightarrow> c \<noteq> CHR ''.'' \<and> \<not> is_space c" "s1 = s\<lparr>rand_pos := rand_pos s + n\<rparr>"
proof -
  have h: "h = hex_encode (map (\<lambda>i. rand s (rand_pos s + i) mod 256) [0..<n])" and "s1 = s\<lparr>rand_pos := rand_pos s + n\<rparr>"
    using assms by (auto simp: randomHex_def split: if_splits)
  then show "s1 = s\<lparr>rand_pos := rand_pos s + n\<rparr>" by simp
  show "length h = 2 * n" by (simp add: h length_hex_encode)
  show "c \<in> set h \<Longrightarrow> c \<noteq> CHR ''.'' \<and> \<not> is_space c" unfolding h by (rule hex_encode_plain) auto
qed

lemma parse_issued:
  assumes "\<And>c. c \<in> set kid \<Longrightarrow> c \<noteq> CHR ''.'' \<and> \<not> is_space c" "\<And>c. c \<in> set secret \<Longrightarrow> \<not> is_space c" "kid \<noteq> []" "secret \<noteq> []"
  shows "parseWorkerTokenKID (kid @ ''.'' @ secret) = Some kid"
proof -
  have "trim_space (kid @ ''.'' @ secret) = kid @ ''.'' @ secret"
    by (rule trim_space_id) (use assms in \<open>auto simp: hd_append\<close>)
  moreover have "takeWhile (\<lambda>c. c \<noteq> CHR ''.'') (kid @ ''.'' @ secret) = kid"
    using assms(1) by (simp add: takeWhile_append)
  ultimately show ?thesis using assms(3) by (simp add: parseWorkerTokenKID_def Let_def)
qed

text \<open>A token that is issued is the one token of its worker: it authenticates as the worker with
  the identity it was issued for, and no other token, earlier ones of the worker included,
  authenticates as this worker any more. The only condition is that the hash of the new token is
  not in the table yet.\<close>

theorem token_roundtrip:
  assumes "IssueWorkerToken w repo roles host td = (td1, Inr tok)" "tokens_ok td" "\<not> faults (td_db td) OpAuthToken"
    and "\<forall>(i, c) \<in> set (td_tokens td). tk_Hash c \<noteq> Some (hashWorkerToken (it_Token tok))"
  shows "(\<exists>r. AuthenticateWorkerToken (it_Token tok) td1 = Inr r \<and> wa_WorkerID r = w \<and> wa_KID r = it_KID tok \<and> wa_Repo r = repo \<and>
      wa_Roles r = JText roles \<and> wa_Hostname r = host \<and> wa_Status r = ''online'') \<and>
    (\<forall>t r. AuthenticateWorkerToken t td1 = Inr r \<longrightarrow> wa_WorkerID r = w \<longrightarrow> hashWorkerToken t = hashWorkerToken (it_Token tok))"
proof -
  obtain s1 s2 kid secret where k: "randomHex 6 (td_db td) = (s1, Inr kid)" "randomHex 24 s1 = (s2, Inr secret)"
    and tok: "tok = \<lparr>it_WorkerID = w, it_KID = kid, it_Token = kid @ ''.'' @ secret\<rparr>"
    and td1: "td1 = \<lparr>td_db = s2\<lparr>workers := AList.update w (token_row w repo roles host s2) (workers s2)\<rparr>,
      td_tokens = AList.update w \<lparr>tk_KID = Some kid, tk_Hash = Some (hashWorkerToken (kid @ ''.'' @ secret)), tk_RevokedAt = None\<rparr> (td_tokens td)\<rparr>"
    using assms(1) by (auto simp: IssueWorkerToken_def Let_def split: prod.splits sum.splits if_splits)
  let ?C = "\<lparr>tk_KID = Some kid, tk_Hash = Some (hashWorkerToken (kid @ ''.'' @ secret)), tk_RevokedAt = None\<rparr>"
  let ?W = "token_row w repo roles host s2"
  let ?P = "\<lambda>(i :: string, c, w :: WorkerRecord). tk_KID c = Some kid \<and> tk_Hash c = Some (hashWorkerToken (it_Token tok))"
  have ok1: "tokens_ok td1" using assms(2) by (simp add: tokens_ok_def td1 distinct_update)
  have rows: "(i, c, v) \<in> set (token_rows td1) \<longleftrightarrow>
      (if i = w then c = ?C \<and> v = ?W else (i, c) \<in> set (td_tokens td) \<and> map_of (workers s2) i = Some v)" for i c v
  proof -
    have "(i, c) \<in> set (td_tokens td1) \<longleftrightarrow> map_of (td_tokens td1) i = Some c" "(i, c) \<in> set (td_tokens td) \<longleftrightarrow> map_of (td_tokens td) i = Some c"
      using ok1 assms(2) by (auto simp: tokens_ok_def)
    then show ?thesis by (auto simp: token_rows_in td1)
  qed
  have only: "x = (w, ?C, ?W)" if "x \<in> set (filter ?P (token_rows td1))" for x
  proof -
    obtain i c v where x: "x = (i, c, v)" by (metis prod.exhaust)
    with that have "(i, c, v) \<in> set (token_rows td1)" "tk_Hash c = Some (hashWorkerToken (it_Token tok))" by simp_all
    with assms(4) show ?thesis unfolding rows by (auto simp: x split: if_splits)
  qed
  have "(w, ?C, ?W) \<in> set (filter ?P (token_rows td1))" using rows by (simp add: tok)
  then obtain x rest where xs: "filter ?P (token_rows td1) = x # rest" by (cases "filter ?P (token_rows td1)") auto
  have "x = (w, ?C, ?W)" by (rule only) (simp only: xs list.set_intros)
  with xs have f: "filter ?P (token_rows td1) = (w, ?C, ?W) # rest" by simp
  have "kid \<noteq> []" "secret \<noteq> []" using randomHex_plain(1) [OF k(1)] randomHex_plain(1) [OF k(2)] by auto
  then have parse: "parseWorkerTokenKID (it_Token tok) = Some kid"
    unfolding tok using parse_issued randomHex_plain(2) [OF k(1)] randomHex_plain(2) [OF k(2)] by simp
  have W: "w_Repo ?W = repo" "w_Roles ?W = JText roles" "w_Hostname ?W = host" "w_Status ?W = ''online''"
    by (simp_all add: token_row_def split: option.splits)
  have "\<not> faults (td_db td1) OpAuthToken" using assms(3) randomHex_plain(3) [OF k(1)] randomHex_plain(3) [OF k(2)] by (simp add: td1)
  then have "\<exists>r. AuthenticateWorkerToken (it_Token tok) td1 = Inr r \<and> wa_WorkerID r = w \<and> wa_KID r = it_KID tok \<and> wa_Repo r = repo \<and>
      wa_Roles r = JText roles \<and> wa_Hostname r = host \<and> wa_Status r = ''online''"
    using f parse W by (simp add: AuthenticateWorkerToken_def tok)
  moreover have "hashWorkerToken t = hashWorkerToken (it_Token tok)"
    if "AuthenticateWorkerToken t td1 = Inr r" "wa_WorkerID r = w" for t r
    using that(1) by (rule authenticated_row) (use that(2) rows in \<open>auto simp: tok\<close>)
  ultimately show ?thesis by blast
qed

definition demo_tokens :: token_db where
  "demo_tokens = \<lparr>td_db = empty_store, td_tokens = []\<rparr>"

theorem token_roundtrip_witness:
  "\<exists>td1 tok r. IssueWorkerToken ''w1'' ''o/r'' [''dev''] ''host'' demo_tokens = (td1, Inr tok) \<and>
     AuthenticateWorkerToken (it_Token tok) td1 = Inr r \<and> wa_WorkerID r = ''w1''"
proof -
  have "\<not> faults (td_db demo_tokens) op" for op by (simp add: demo_tokens_def empty_store_def)
  then obtain td1 tok where iss: "IssueWorkerToken ''w1'' ''o/r'' [''dev''] ''host'' demo_tokens = (td1, Inr tok)"
    by (auto simp: IssueWorkerToken_def randomHex_def Let_def)
  have "tokens_ok demo_tokens" "\<not> faults (td_db demo_tokens) OpAuthToken"
    "\<forall>(i, c) \<in> set (td_tokens demo_tokens). tk_Hash c \<noteq> Some (hashWorkerToken (it_Token tok))"
    by (simp_all add: demo_tokens_def tokens_ok_def empty_store_def)
  from token_roundtrip [OF iss this] iss show ?thesis by blast
qed

definition demo_token_holder :: token_db where
  "demo_token_holder = \<lparr>td_db = empty_store\<lparr>workers := [(''w1'', token_row ''w1'' ''o/r'' [''dev''] ''host'' empty_store)]\<rparr>,
     td_tokens = [(''w1'', \<lparr>tk_KID = Some ''k'', tk_Hash = Some ''h'', tk_RevokedAt = None\<rparr>)]\<rparr>"

theorem revocation_final_witness:
  "\<exists>td1. RevokeWorkerToken ''w1'' [] demo_token_holder = (td1, Inr ()) \<and>
     WrapAuth \<lparr>AuthEnabled = True, AuthToken = ''s3cret''\<rparr> (Some td1)
       \<lparr>hr_Authorization = ''Bearer  s3cret'', hr_Cookie = None, hr_Accept = [], hr_URI = ''/''\<rparr> () = Served () \<and>
     (\<exists>t \<in> {''s3cret''}. t = ''s3cret'' \<or> (\<exists>r. AuthenticateWorkerToken t td1 = Inr r \<and> wa_WorkerID r \<noteq> ''w1''))"
proof -
  let ?srv = "\<lparr>AuthEnabled = True, AuthToken = ''s3cret''\<rparr>"
  let ?req = "\<lparr>hr_Authorization = ''Bearer  s3cret'', hr_Cookie = None, hr_Accept = [], hr_URI = ''/''\<rparr>"
  define td1 where "td1 = fst (RevokeWorkerToken ''w1'' [] demo_token_holder)"
  have "snd (RevokeWorkerToken ''w1'' [] demo_token_holder) = Inr ()" by code_simp
  then have r: "RevokeWorkerToken ''w1'' [] demo_token_holder = (td1, Inr ())" by (metis prod.collapse td1_def)
  have ok: "tokens_ok demo_token_holder" by (simp add: tokens_ok_def demo_token_holder_def)
  have served: "WrapAuth ?srv (Some td1) ?req () = Served ()" unfolding td1_def by code_simp
  have "set (carried_tokens ?req) = {''s3cret''}" by code_simp
  with revocation_final [OF r ok, of "[]" ?srv ?req "()" "()"] served r show ?thesis by simp
qed

end
