(* ===== verification/Hook_Config.thy ===== *)
theory Hook_Config
  imports Store_Types
begin

text \<open>
  The configuration of event hooks (\<^verbatim>\<open>internal/hooks/config.go\<close>, \<^verbatim>\<open>webhook.go\<close>, \<^verbatim>\<open>command.go\<close>):
  validation, the subscription of a hook to event types, the match filter on repository and
  severity, and the resolution of environment variables in headers.

  \<^item> The YAML decoder is a parameter; a timeout is its value, blank or malformed.
  \<^item> \<open>path_match\<close> is the standard library's \<^verbatim>\<open>path.Match\<close> on texts of one-byte characters: the
    pattern is first read into tokens (\<open>None\<close> is the error for a malformed pattern, which the
    library reports whatever the text is) and then matched chunk by chunk, each star taking the
    first place where the chunk behind it fits.
  \<^item> The process environment is the argument \<open>env\<close>.
\<close>

section \<open>Glob patterns\<close>

datatype glob_tok = GStar | GAny | GLit char | GClass bool "(char \<times> char) list"

definition get_esc :: "string \<Rightarrow> (char \<times> string) option" where
  "get_esc s =
     (case s of
        [] \<Rightarrow> None
      | c # r \<Rightarrow>
          if c = CHR ''-'' \<or> c = CHR '']'' then None
          else let t = (if c = CHR 0x5C then r else s)
               in case t of [] \<Rightarrow> None | d # u \<Rightarrow> if u = [] then None else Some (d, u))"

lemma get_esc_shorter: "get_esc s = Some (c, t) \<Longrightarrow> length t < length s"
  by (auto simp: get_esc_def Let_def split: list.splits if_splits)

function class_ranges :: "(char \<times> char) list \<Rightarrow> string \<Rightarrow> ((char \<times> char) list \<times> string) option" where
  "class_ranges rs s =
     (if s \<noteq> [] \<and> hd s = CHR '']'' \<and> rs \<noteq> [] then Some (rs, tl s)
      else case get_esc s of
             None \<Rightarrow> None
           | Some (lo, t) \<Rightarrow>
               if hd t = CHR ''-'' then (case get_esc (tl t) of None \<Rightarrow> None | Some (hi, u) \<Rightarrow> class_ranges (rs @ [(lo, hi)]) u)
               else class_ranges (rs @ [(lo, lo)]) t)"
  by pat_completeness auto
termination
proof (relation "measure (\<lambda>(rs, s). length s)")
  show "wf (measure (\<lambda>(rs :: (char \<times> char) list, s :: string). length s))" by simp
next
  fix rs :: "(char \<times> char) list" and s x lo t y hi u
  assume "get_esc s = Some x" "(lo, t) = x" "get_esc (tl t) = Some y" "(hi, u) = y"
  then have "length t < length s" "length u < length (tl t)" using get_esc_shorter by blast+
  then show "((rs @ [(lo, hi)], u), (rs, s)) \<in> measure (\<lambda>(rs, s). length s)" by simp
next
  fix rs :: "(char \<times> char) list" and s x lo t
  assume "get_esc s = Some x" "(lo, t) = x"
  then show "((rs @ [(lo, lo)], t), (rs, s)) \<in> measure (\<lambda>(rs, s). length s)" using get_esc_shorter by auto
qed

declare class_ranges.simps [simp del]

lemma class_ranges_shorter: "class_ranges rs s = Some (rs', t) \<Longrightarrow> length t < length s"
proof (induction rs s rule: class_ranges.induct)
  case (1 rs s)
  show ?case
  proof (cases "s \<noteq> [] \<and> hd s = CHR '']'' \<and> rs \<noteq> []")
    case True
    with 1(3) show ?thesis by (subst (asm) class_ranges.simps) (cases s, auto)
  next
    case False
    with 1(3) obtain lo u where u: "get_esc s = Some (lo, u)"
      by (subst (asm) class_ranges.simps) (auto split: option.splits if_splits)
    note shorter = get_esc_shorter [OF u]
    show ?thesis
    proof (cases "hd u = CHR ''-''")
      case True
      with 1(3) False u obtain hi v where v: "get_esc (tl u) = Some (hi, v)" "class_ranges (rs @ [(lo, hi)]) v = Some (rs', t)"
        by (subst (asm) class_ranges.simps) (auto split: option.splits)
      with 1(1) [OF False u _ True v(1)] shorter get_esc_shorter [OF v(1)] show ?thesis by fastforce
    next
      case no: False
      with 1(3) False u have "class_ranges (rs @ [(lo, lo)]) u = Some (rs', t)"
        by (subst (asm) class_ranges.simps) auto
      with 1(2) [OF False u _ no] shorter show ?thesis by fastforce
    qed
  qed
qed

function parse_glob :: "string \<Rightarrow> glob_tok list option" where
  "parse_glob [] = Some []"
| "parse_glob (c # s) =
     (if c = CHR ''*'' then map_option (Cons GStar) (parse_glob s)
      else if c = CHR ''?'' then map_option (Cons GAny) (parse_glob s)
      else if c = CHR 0x5C then (case s of [] \<Rightarrow> None | d # t \<Rightarrow> map_option (Cons (GLit d)) (parse_glob t))
      else if c = CHR ''['' then
        (let neg = (s \<noteq> [] \<and> hd s = CHR ''^'')
         in case class_ranges [] (if neg then tl s else s) of
              None \<Rightarrow> None
            | Some (rs, t) \<Rightarrow> map_option (Cons (GClass neg rs)) (parse_glob t))
      else map_option (Cons (GLit c)) (parse_glob s))"
  by pat_completeness auto
termination
proof (relation "measure length")
  fix c :: char and s neg x rs t
  assume "class_ranges [] (if neg then tl s else s) = Some x" "(rs, t) = x"
  then have "length t < length (if neg then tl s else s)" using class_ranges_shorter by blast
  then show "(t, c # s) \<in> measure length" by (auto split: if_splits)
qed auto

fun match_chunk :: "glob_tok list \<Rightarrow> string \<Rightarrow> string option" where
  "match_chunk [] s = Some s"
| "match_chunk (tok # toks) [] = None"
| "match_chunk (tok # toks) (c # s) =
     (if (case tok of
            GStar \<Rightarrow> False
          | GAny \<Rightarrow> c \<noteq> CHR ''/''
          | GLit d \<Rightarrow> c = d
          | GClass neg rs \<Rightarrow> (\<exists>(lo, hi) \<in> set rs. of_char lo \<le> (of_char c :: nat) \<and> of_char c \<le> (of_char hi :: nat)) \<noteq> neg)
      then match_chunk toks s else None)"

fun star_skip :: "glob_tok list \<Rightarrow> bool \<Rightarrow> string \<Rightarrow> string option" where
  "star_skip chunk final [] = None"
| "star_skip chunk final (c # s) =
     (if c = CHR ''/'' then None
      else case match_chunk chunk s of
             Some t \<Rightarrow> if final \<and> t \<noteq> [] then star_skip chunk final s else Some t
           | None \<Rightarrow> star_skip chunk final s)"

fun glob_chunks :: "glob_tok list \<Rightarrow> (bool \<times> glob_tok list) list" where
  "glob_chunks [] = []"
| "glob_chunks (GStar # ts) =
     (case glob_chunks ts of (False, chunk) # rest \<Rightarrow> (True, chunk) # rest | (True, chunk) # rest \<Rightarrow> (True, chunk) # rest | [] \<Rightarrow> [(True, [])])"
| "glob_chunks (tok # ts) =
     (case glob_chunks ts of (False, chunk) # rest \<Rightarrow> (False, tok # chunk) # rest | cs \<Rightarrow> (False, [tok]) # cs)"

fun match_chunks :: "(bool \<times> glob_tok list) list \<Rightarrow> string \<Rightarrow> bool" where
  "match_chunks [] name \<longleftrightarrow> name = []"
| "match_chunks ((star, chunk) # rest) name =
     (if star \<and> chunk = [] then CHR ''/'' \<notin> set name
      else case match_chunk chunk name of
             Some t \<Rightarrow>
               if t = [] \<or> rest \<noteq> [] then match_chunks rest t
               else star \<and> (case star_skip chunk (rest = []) name of None \<Rightarrow> False | Some u \<Rightarrow> match_chunks rest u)
           | None \<Rightarrow> star \<and> (case star_skip chunk (rest = []) name of None \<Rightarrow> False | Some u \<Rightarrow> match_chunks rest u))"

definition path_match :: "string \<Rightarrow> string \<Rightarrow> bool option" where
  "path_match pattern name = map_option (\<lambda>ts. match_chunks (glob_chunks ts) name) (parse_glob pattern)"

lemma glob_examples:
  "path_match ''owner/*'' ''owner/repo'' = Some True" "path_match ''owner/*'' ''owner/a/b'' = Some False"
  "path_match ''*/r[a-f]po?'' ''o/repo1'' = Some True" "path_match ''[]'' ''x'' = None" "path_match ''*-b*c'' ''a-b-bc'' = Some True"
  by code_simp+

text \<open>A pattern without special characters matches exactly itself.\<close>

lemma glob_literal:
  assumes "\<forall>c \<in> set p. c \<notin> set ''*?['' \<and> c \<noteq> CHR 0x5C"
  shows "path_match p s = Some (s = p)"
proof -
  have "parse_glob p = Some (map GLit p)" using assms by (induction p) auto
  moreover have "glob_chunks (map GLit p) = (if p = [] then [] else [(False, map GLit p)])" by (induction p) auto
  moreover have "match_chunk (map GLit p) s = (if take (length p) s = p then Some (drop (length p) s) else None)" for s
  proof (induction p arbitrary: s)
    case (Cons c p)
    then show ?case by (cases s) auto
  qed simp
  ultimately show ?thesis by (auto simp: path_match_def)
qed

section \<open>Hooks\<close>

definition ConfigSchemaVersion :: int where "ConfigSchemaVersion = 1"
definition ActionTypeWebhook :: string where "ActionTypeWebhook = ''webhook''"
definition ActionTypeCommand :: string where "ActionTypeCommand = ''command''"

record MatchFilter =
  mf_Severity :: "string list"
  mf_Repo :: string

record ActionConfig =
  act_Type :: string
  act_URL :: string
  act_Headers :: "(string \<times> string) list"
  act_Method :: string
  act_Cmd :: "string list"
  act_Cwd :: string

datatype duration_text = DurBlank | DurText duration | DurBad string

record Hook =
  hk_Name :: string
  hk_Enabled :: "bool option"
  hk_Events :: "string list"
  hk_Match :: "MatchFilter option"
  hk_Timeout :: duration
  hk_RawTimeout :: duration_text
  hk_Action :: ActionConfig

record hooks_config =
  hc_SchemaVersion :: int
  hc_Hooks :: "Hook list"

text \<open>An event as the dispatcher sees it. The payload of the event log is JSON text (\<open>RawJSON\<close>), or text
  that is not valid JSON (\<open>RawBad\<close>).\<close>

datatype raw_json = RawJSON string | RawBad string

fun raw_text :: "raw_json \<Rightarrow> string" where
  "raw_text (RawJSON t) = t"
| "raw_text (RawBad t) = t"

record hook_event =
  he_Type :: string
  he_Repo :: string
  he_IssueNum :: int
  he_Payload :: raw_json
  he_Timestamp :: time

datatype hook_error =
    BadYAML
  | BadSchemaVersion int
  | HookMissingName
  | HookBadName string
  | HookDuplicate string
  | HookNoEvents string
  | HookEmptyEvent string
  | HookNoActionType string
  | HookBadTimeout string
  | HookUnknownAction string string
  | HookNoURL string
  | HookBadMethod string
  | HookNoArgv string
  | HookNoProgram string
  | HookBadGlob string
  | HooksUnreadable

datatype hook_warning = UnsetEnv string string string | SeverityIgnored string

definition IsEnabled :: "Hook \<Rightarrow> bool" where
  "IsEnabled h = (case hk_Enabled h of None \<Rightarrow> True | Some b \<Rightarrow> b)"

definition name_char :: "char \<Rightarrow> bool" where
  "name_char c \<longleftrightarrow> (let k = of_char c :: nat in 48 \<le> k \<and> k \<le> 57 \<or> 65 \<le> k \<and> k \<le> 90 \<or> 97 \<le> k \<and> k \<le> 122 \<or> c \<in> set ''._-'')"

definition validateHook :: "Hook \<Rightarrow> string list \<Rightarrow> hook_error + string list" where
  "validateHook h seen =
     (if trim_space (hk_Name h) = [] then Inl HookMissingName
      else if \<not> list_all name_char (hk_Name h) then Inl (HookBadName (hk_Name h))
      else if hk_Name h \<in> set seen then Inl (HookDuplicate (hk_Name h))
      else if hk_Events h = [] then Inl (HookNoEvents (hk_Name h))
      else if \<exists>ev \<in> set (hk_Events h). trim_space ev = [] then Inl (HookEmptyEvent (hk_Name h))
      else if trim_space (act_Type (hk_Action h)) = [] then Inl (HookNoActionType (hk_Name h))
      else Inr (set_add (hk_Name h) seen))"

section \<open>Actions\<close>

definition upper_char :: "char \<Rightarrow> char" where
  "upper_char c = (let k = of_char c :: nat in if 97 \<le> k \<and> k \<le> 122 then char_of (k - 32) else c)"

definition env_head :: "char \<Rightarrow> bool" where
  "env_head c \<longleftrightarrow> (let k = of_char c :: nat in 65 \<le> k \<and> k \<le> 90 \<or> 97 \<le> k \<and> k \<le> 122 \<or> c = CHR ''_'')"

definition env_tail :: "char \<Rightarrow> bool" where
  "env_tail c \<longleftrightarrow> env_head c \<or> (let k = of_char c :: nat in 48 \<le> k \<and> k \<le> 57)"

text \<open>The name of a placeholder that starts here, and the text behind it.\<close>

definition placeholder :: "string \<Rightarrow> (string \<times> string) option" where
  "placeholder s =
     (case s of
        d # b # h # r \<Rightarrow>
          if d = CHR ''$'' \<and> b = CHR ''{'' \<and> env_head h
          then (let name = h # takeWhile env_tail r; rest = dropWhile env_tail r
                in case rest of c # u \<Rightarrow> if c = CHR ''}'' then Some (name, u) else None | [] \<Rightarrow> None)
          else None
      | _ \<Rightarrow> None)"

lemma placeholder_shorter: "placeholder s = Some (n, t) \<Longrightarrow> length t < length s"
proof -
  assume a: "placeholder s = Some (n, t)"
  then obtain d b h r c where s: "s = d # b # h # r" "dropWhile env_tail r = c # t"
    by (auto simp: placeholder_def Let_def split: list.splits if_splits)
  from s(2) length_dropWhile_le [of env_tail r] show "length t < length s" by (simp add: s(1))
qed

function resolve_value :: "(string \<Rightarrow> string option) \<Rightarrow> string \<Rightarrow> string \<times> string list" where
  "resolve_value env [] = ([], [])"
| "resolve_value env (c # s) =
     (case placeholder (c # s) of
        Some (name, t) \<Rightarrow>
          (case resolve_value env t of (out, missing) \<Rightarrow>
             (go_str (env name) @ out, if go_str (env name) = [] then name # missing else missing))
      | None \<Rightarrow> (case resolve_value env s of (out, missing) \<Rightarrow> (c # out, missing)))"
  by pat_completeness auto
termination
proof (relation "measure (\<lambda>(env, s). length s)")
  fix env :: "string \<Rightarrow> string option" and c s x name t
  assume "placeholder (c # s) = Some x" "(name, t) = x"
  then have "length t < length (c # s)" using placeholder_shorter by blast
  then show "((env, t), (env, c # s)) \<in> measure (\<lambda>(env, s). length s)" by simp
qed auto

definition resolveHeaders ::
  "(string \<Rightarrow> string option) \<Rightarrow> string \<Rightarrow> (string \<times> string) list \<Rightarrow> (string \<times> string) list \<times> hook_warning list" where
  "resolveHeaders env hook raw =
     (map (\<lambda>(k, v). (k, fst (resolve_value env v))) raw,
      concat (map (\<lambda>(k, v). map (UnsetEnv hook k) (snd (resolve_value env v))) raw))"

definition finalizeWebhookAction :: "(string \<Rightarrow> string option) \<Rightarrow> Hook \<Rightarrow> hook_error + hook_warning list" where
  "finalizeWebhookAction env h =
     (let method = map upper_char (trim_space (act_Method (hk_Action h)))
      in if trim_space (act_URL (hk_Action h)) = [] then Inl (HookNoURL (hk_Name h))
         else if method \<noteq> [] \<and> method \<noteq> ''POST'' \<and> method \<noteq> ''PUT'' then Inl (HookBadMethod (hk_Name h))
         else Inr (snd (resolveHeaders env (hk_Name h) (act_Headers (hk_Action h)))))"

datatype hook_action =
    WebhookAction string string "(string \<times> string) list"
  | CommandAction string "string list" string

definition buildWebhookAction :: "(string \<Rightarrow> string option) \<Rightarrow> Hook \<Rightarrow> hook_error + hook_action \<times> hook_warning list" where
  "buildWebhookAction env h =
     (if trim_space (act_URL (hk_Action h)) = [] then Inl (HookNoURL (hk_Name h))
      else let m0 = map upper_char (trim_space (act_Method (hk_Action h))); method = (if m0 = [] then ''POST'' else m0)
           in if method \<noteq> ''POST'' \<and> method \<noteq> ''PUT'' then Inl (HookBadMethod (hk_Name h))
              else (case resolveHeaders env (hk_Name h) (act_Headers (hk_Action h)) of
                      (hs, ws) \<Rightarrow> Inr (WebhookAction (act_URL (hk_Action h)) method hs, ws)))"

definition buildCommandAction :: "Hook \<Rightarrow> hook_error + hook_action \<times> hook_warning list" where
  "buildCommandAction h =
     (case act_Cmd (hk_Action h) of
        [] \<Rightarrow> Inl (HookNoArgv (hk_Name h))
      | prog # args \<Rightarrow>
          if trim_space prog = [] then Inl (HookNoProgram (hk_Name h))
          else Inr (CommandAction (hk_Name h) (prog # args) (act_Cwd (hk_Action h)), []))"

definition finalizeCommandAction :: "Hook \<Rightarrow> hook_error + hook_warning list" where
  "finalizeCommandAction h = (case buildCommandAction h of Inl e \<Rightarrow> Inl e | Inr _ \<Rightarrow> Inr [])"

definition finalizeAction :: "(string \<Rightarrow> string option) \<Rightarrow> Hook \<Rightarrow> hook_error + hook_warning list" where
  "finalizeAction env h =
     (if act_Type (hk_Action h) = ActionTypeWebhook then finalizeWebhookAction env h
      else if act_Type (hk_Action h) = ActionTypeCommand then finalizeCommandAction h
      else Inl (HookUnknownAction (hk_Name h) (act_Type (hk_Action h))))"

text \<open>\<^verbatim>\<open>Build\<close> on the default registry of actions.\<close>

definition Build :: "(string \<Rightarrow> string option) \<Rightarrow> Hook \<Rightarrow> hook_error + hook_action \<times> hook_warning list" where
  "Build env h =
     (if act_Type (hk_Action h) = ActionTypeWebhook then buildWebhookAction env h
      else if act_Type (hk_Action h) = ActionTypeCommand then buildCommandAction h
      else Inl (HookUnknownAction (hk_Name h) (act_Type (hk_Action h))))"

section \<open>Matching\<close>

definition validateMatchFilter :: "Hook \<Rightarrow> hook_error + hook_warning list" where
  "validateMatchFilter h =
     (case hk_Match h of
        None \<Rightarrow> Inr []
      | Some m \<Rightarrow>
          if trim_space (mf_Repo m) \<noteq> [] \<and> path_match (mf_Repo m) ''owner/repo'' = None then Inl (HookBadGlob (hk_Name h))
          else Inr (if mf_Severity m \<noteq> [] \<and> (\<exists>ev \<in> set (hk_Events h). ev \<noteq> ''alert'') then [SeverityIgnored (hk_Name h)] else []))"

text \<open>The first match of the regular expression \<^verbatim>\<open>"severity"\s*:\s*"([^"]*)"\<close>.\<close>

definition re_space :: "char \<Rightarrow> bool" where
  "re_space c \<longleftrightarrow> of_char c \<in> {9, 10, 12, 13, 32 :: nat}"

definition severity_at :: "string \<Rightarrow> string option" where
  "severity_at s =
     (let dq = CHR 0x22; key = dq # ''severity'' @ [dq]
      in if \<not> has_prefix s key then None
         else case dropWhile re_space (drop (length key) s) of
                c # r \<Rightarrow>
                  if c \<noteq> CHR '':'' then None
                  else (case dropWhile re_space r of
                          q # t \<Rightarrow> if q = dq \<and> dq \<in> set t then Some (takeWhile (\<lambda>ch. ch \<noteq> dq) t) else None
                        | [] \<Rightarrow> None)
              | [] \<Rightarrow> None)"

fun extractSeverity :: "string \<Rightarrow> string" where
  "extractSeverity [] = []"
| "extractSeverity (c # s) = (case severity_at (c # s) of Some sev \<Rightarrow> sev | None \<Rightarrow> extractSeverity s)"

definition MatchesFilter :: "Hook \<Rightarrow> hook_event \<Rightarrow> bool" where
  "MatchesFilter h ev =
     (case hk_Match h of
        None \<Rightarrow> True
      | Some m \<Rightarrow>
          if mf_Repo m \<noteq> [] \<and> path_match (mf_Repo m) (he_Repo ev) \<noteq> Some True then False
          else if mf_Severity m \<noteq> [] \<and> he_Type ev = ''alert'' then
            (let sev = extractSeverity (raw_text (he_Payload ev))
             in sev \<noteq> [] \<and> (\<exists>allowed \<in> set (mf_Severity m). map lower_char (trim_space allowed) = map lower_char sev))
          else True)"

definition MatchesEvent :: "Hook \<Rightarrow> string \<Rightarrow> bool" where
  "MatchesEvent h ty \<longleftrightarrow> (\<exists>ev \<in> set (hk_Events h). ev = ''*'' \<or> ev = ty \<or>
     (\<exists>c \<in> set ev. c \<in> set ''*?['') \<and> path_match ev ty = Some True)"

section \<open>Reading the configuration\<close>

fun checkHooks :: "(string \<Rightarrow> string option) \<Rightarrow> string list \<Rightarrow> Hook list \<Rightarrow> hook_error + Hook list \<times> hook_warning list" where
  "checkHooks env seen [] = Inr ([], [])"
| "checkHooks env seen (h # hs) =
     (case validateHook h seen of
        Inl e \<Rightarrow> Inl e
      | Inr seen' \<Rightarrow>
         (case hk_RawTimeout h of
            DurBad t \<Rightarrow> Inl (HookBadTimeout (hk_Name h))
          | rt \<Rightarrow>
             (let h1 = (case rt of DurText d \<Rightarrow> h\<lparr>hk_Timeout := d\<rparr> | _ \<Rightarrow> h)
              in case finalizeAction env h1 of
                   Inl e \<Rightarrow> Inl e
                 | Inr w1 \<Rightarrow>
                    (case validateMatchFilter h1 of
                       Inl e \<Rightarrow> Inl e
                     | Inr w2 \<Rightarrow>
                        (case checkHooks env seen' hs of
                           Inl e \<Rightarrow> Inl e
                         | Inr (hs', ws) \<Rightarrow> Inr (h1 # hs', w1 @ w2 @ ws))))))"

definition ParseConfig ::
  "(string \<Rightarrow> hooks_config option) \<Rightarrow> (string \<Rightarrow> string option) \<Rightarrow> string \<Rightarrow> hook_error + hooks_config \<times> hook_warning list" where
  "ParseConfig yml env raw =
     (case yml raw of
        None \<Rightarrow> Inl BadYAML
      | Some cfg \<Rightarrow>
         (let v = (if hc_SchemaVersion cfg = 0 then ConfigSchemaVersion else hc_SchemaVersion cfg)
          in if v \<noteq> ConfigSchemaVersion then Inl (BadSchemaVersion v)
             else case checkHooks env [] (hc_Hooks cfg) of
                    Inl e \<Rightarrow> Inl e
                  | Inr (hs, ws) \<Rightarrow> Inr (\<lparr>hc_SchemaVersion = v, hc_Hooks = hs\<rparr>, ws)))"

text \<open>Reading a file: its text, that it is missing, or that it cannot be read.\<close>

datatype file_text = FileText string | FileMissing | FileUnreadable

definition hooks_LoadConfig ::
  "(string \<Rightarrow> hooks_config option) \<Rightarrow> (string \<Rightarrow> string option) \<Rightarrow> (string \<Rightarrow> file_text) \<Rightarrow> string \<Rightarrow>
   hook_error + hooks_config option \<times> hook_warning list" where
  "hooks_LoadConfig yml env read path =
     (if trim_space path = [] then Inr (None, [])
      else case read path of
             FileMissing \<Rightarrow> Inr (None, [])
           | FileUnreadable \<Rightarrow> Inl HooksUnreadable
           | FileText t \<Rightarrow> (case ParseConfig yml env t of Inl e \<Rightarrow> Inl e | Inr (cfg, ws) \<Rightarrow> Inr (Some cfg, ws)))"

section \<open>What an accepted configuration guarantees\<close>

definition hook_ok :: "(string \<Rightarrow> string option) \<Rightarrow> Hook \<Rightarrow> bool" where
  "hook_ok env h \<longleftrightarrow> hk_Name h \<noteq> [] \<and> list_all name_char (hk_Name h) \<and> hk_Events h \<noteq> [] \<and>
     (\<exists>a ws. Build env h = Inr (a, ws)) \<and>
     (\<forall>m. hk_Match h = Some m \<longrightarrow> trim_space (mf_Repo m) \<noteq> [] \<longrightarrow> path_match (mf_Repo m) ''owner/repo'' \<noteq> None)"

lemma finalized_builds: "finalizeAction env h = Inr ws \<Longrightarrow> \<exists>a ws'. Build env h = Inr (a, ws')"
  by (auto simp: finalizeAction_def Build_def finalizeWebhookAction_def buildWebhookAction_def finalizeCommandAction_def
      buildCommandAction_def Let_def split: if_splits sum.splits list.splits prod.splits)

lemma checkHooks_step:
  assumes "checkHooks env seen (h # hs) = Inr (out, ws)"
  obtains h1 seen' hs' ws' where "out = h1 # hs'" "checkHooks env seen' hs = Inr (hs', ws')" "hook_ok env h1" "hk_Name h1 = hk_Name h"
    "set seen' = insert (hk_Name h) (set seen)" "hk_Name h \<notin> set seen"
proof -
  let ?h1 = "case hk_RawTimeout h of DurText d \<Rightarrow> h\<lparr>hk_Timeout := d\<rparr> | _ \<Rightarrow> h"
  obtain seen' where v: "validateHook h seen = Inr seen'" using assms by (auto split: sum.splits)
  obtain w1 w2 hs' ws' where f: "finalizeAction env ?h1 = Inr w1" "validateMatchFilter ?h1 = Inr w2" "checkHooks env seen' hs = Inr (hs', ws')"
    "out = ?h1 # hs'"
    using assms v by (auto simp: Let_def split: sum.splits duration_text.splits)
  have same: "hk_Name ?h1 = hk_Name h" "hk_Events ?h1 = hk_Events h" by (simp_all split: duration_text.split)
  have "hk_Name h \<notin> set seen" "set seen' = insert (hk_Name h) (set seen)" "hk_Name h \<noteq> []" "list_all name_char (hk_Name h)" "hk_Events h \<noteq> []"
    using v by (auto simp: validateHook_def split: if_splits)
  moreover have "hook_ok env ?h1"
    using calculation same finalized_builds [OF f(1)] f(2)
    unfolding hook_ok_def by (auto simp: validateMatchFilter_def split: option.splits if_splits)
  ultimately show thesis using that [of ?h1 hs' seen' ws'] f same by blast
qed

lemma checkHooks_ok:
  "checkHooks env seen hs = Inr (out, ws) \<Longrightarrow>
     list_all (hook_ok env) out \<and> distinct (map hk_Name out) \<and> set (map hk_Name out) \<inter> set seen = {}"
proof (induction hs arbitrary: seen out ws)
  case (Cons h hs)
  from Cons.prems show ?case
  proof (rule checkHooks_step)
    fix h1 seen' hs' ws'
    assume a: "out = h1 # hs'" "checkHooks env seen' hs = Inr (hs', ws')" "hook_ok env h1" "hk_Name h1 = hk_Name h"
      "set seen' = insert (hk_Name h) (set seen)" "hk_Name h \<notin> set seen"
    from Cons.IH [OF a(2)] a show ?thesis by auto
  qed
qed simp

text \<open>An accepted configuration has hooks with distinct well-formed names, each with events, an action
  that can be built and a well-formed repository pattern.\<close>

lemma ParseConfig_ok:
  assumes "ParseConfig yml env raw = Inr (cfg, ws)"
  shows "list_all (hook_ok env) (hc_Hooks cfg) \<and> distinct (map hk_Name (hc_Hooks cfg))"
proof -
  obtain hs where "checkHooks env [] hs = Inr (hc_Hooks cfg, ws)"
    using assms by (auto simp: ParseConfig_def Let_def split: option.splits if_splits sum.splits)
  from checkHooks_ok [OF this] show ?thesis by simp
qed

end
