(* ===== verification/Hooks.thy ===== *)
theory Hooks
  imports Hook_Config SM_Types "HOL-Library.Word"
begin

text \<open>
  The dispatcher of event hooks (\<^verbatim>\<open>internal/hooks/dispatcher.go\<close>, \<^verbatim>\<open>eventpayload.go\<close>).

  \<^item> The central channel and the channels of the hooks are lists with their capacities; what a
    hook's goroutine has received and is working on is in \<open>dp_running\<close>. Publishing, the receipt of
    an event by a hook and the end of its action are one step each; every interleaving of the steps of publishers,
    the fan-in loop and the hooks is a path of \<open>disp_step\<close>.
  \<^item> The fan-in loop is coarser than the code: \<open>fanOut\<close> hands one event to all hooks in one step, where the
    code takes the mutex of each hook up to twice and sends in between. In the code a hook may take
    an event or disable itself between two rounds, or between the look at its flag and the send, so
    that an event may still be queued for a hook that has just been disabled.
  \<^item> What an action does outside is an argument of the step that finishes it: start and end
    times, captured output and error.
  \<^item> The 64-bit counters are words. A duration falls into a bucket when it is at most the bound
    in nanoseconds.
\<close>

section \<open>State\<close>

definition channelCapacity :: nat where "channelCapacity = 1024"
definition DefaultHookTimeout :: duration where "DefaultHookTimeout = 5 * second"
definition invocationBufferSize :: nat where "invocationBufferSize = 100"
definition invocationPreviewLimit :: nat where "invocationPreviewLimit = 4096"
definition InvocationResultSuccess :: string where "InvocationResultSuccess = ''success''"
definition InvocationResultFailure :: string where "InvocationResultFailure = ''failure''"
definition InvocationResultOverflow :: string where "InvocationResultOverflow = ''overflow''"
definition AutoDisableThreshold :: int where "AutoDisableThreshold = 5"
definition HookEventPrefix :: string where "HookEventPrefix = ''hook_''"
definition HookDisabledEvent :: string where "HookDisabledEvent = HookEventPrefix @ ''disabled''"
definition PayloadSchemaVersion :: int where "PayloadSchemaVersion = 1"

definition hookDurationBuckets :: "duration list" where
  "hookDurationBuckets = [5000000, 10000000, 25000000, 50000000, 100000000, 250000000, 500000000, second, 2500000000, 5 * second, 10 * second]"

record Invocation =
  in_StartedAt :: time
  in_FinishedAt :: time
  in_DurationNs :: int
  in_Result :: string
  in_Error :: string
  in_EventType :: string
  in_Repo :: string
  in_IssueNum :: int
  in_Stdout :: string
  in_Stderr :: string

definition zero_invocation :: Invocation where
  "zero_invocation = \<lparr>in_StartedAt = 0, in_FinishedAt = 0, in_DurationNs = 0, in_Result = [], in_Error = [], in_EventType = [],
     in_Repo = [], in_IssueNum = 0, in_Stdout = [], in_Stderr = []\<rparr>"

type_synonym counter = "64 word"

record boundHook =
  bh_hook :: Hook
  bh_action :: hook_action
  bh_failures :: int
  bh_disabled :: bool
  bh_lastErr :: string
  bh_lastFailureAt :: time
  bh_successCount :: counter
  bh_failureCount :: counter
  bh_filteredCount :: counter
  bh_disabledDrops :: counter
  bh_overflowCount :: counter
  bh_durationSumNs :: counter
  bh_durationCount :: counter
  bh_durationBuckets :: "counter list"
  bh_lastInvokedAt :: time
  bh_invocations :: "Invocation list"
  bh_invocationsLen :: nat
  bh_invocationsIdx :: nat

definition bind_hook :: "Hook \<Rightarrow> hook_action \<Rightarrow> boundHook" where
  "bind_hook h a = \<lparr>bh_hook = h, bh_action = a, bh_failures = 0, bh_disabled = False, bh_lastErr = [], bh_lastFailureAt = 0,
     bh_successCount = 0, bh_failureCount = 0, bh_filteredCount = 0, bh_disabledDrops = 0, bh_overflowCount = 0,
     bh_durationSumNs = 0, bh_durationCount = 0, bh_durationBuckets = replicate (length hookDurationBuckets) 0,
     bh_lastInvokedAt = 0, bh_invocations = [], bh_invocationsLen = 0, bh_invocationsIdx = 0\<rparr>"

abbreviation bh_name :: "boundHook \<Rightarrow> string" where
  "bh_name b \<equiv> hk_Name (bh_hook b)"

record Dispatcher =
  dp_hooks :: "boundHook list"
  dp_in :: "hook_event list"
  dp_overflow :: counter
  dp_dropped :: counter
  dp_emitter :: "Event list option"
  dp_started :: bool
  dp_stopped :: bool
  dp_closed :: bool
  dp_bound :: bool
  dp_cancelled :: bool
  dp_fanIn :: bool
  dp_workers :: "string list"
  dp_subQueue :: "(string \<times> hook_event list) list"
  dp_running :: "(string \<times> hook_event) list"

fun bindHooks :: "(string \<Rightarrow> string option) \<Rightarrow> Hook list \<Rightarrow> hook_error + boundHook list \<times> hook_warning list" where
  "bindHooks env [] = Inr ([], [])"
| "bindHooks env (h # hs) =
     (if \<not> IsEnabled h then bindHooks env hs
      else case Build env h of
             Inl e \<Rightarrow> Inl e
           | Inr (a, ws) \<Rightarrow>
              (case bindHooks env hs of Inl e \<Rightarrow> Inl e | Inr (bs, ws') \<Rightarrow> Inr (bind_hook h a # bs, ws @ ws')))"

definition cfg_hooks :: "hooks_config option \<Rightarrow> Hook list" where
  "cfg_hooks cfg = (case cfg of None \<Rightarrow> [] | Some c \<Rightarrow> hc_Hooks c)"

definition NewDispatcher ::
  "(string \<Rightarrow> string option) \<Rightarrow> Event list option \<Rightarrow> hooks_config option \<Rightarrow> hook_error + Dispatcher \<times> hook_warning list" where
  "NewDispatcher env emitter cfg =
     (case bindHooks env (cfg_hooks cfg) of
        Inl e \<Rightarrow> Inl e
      | Inr (bs, ws) \<Rightarrow>
          Inr (\<lparr>dp_hooks = bs, dp_in = [], dp_overflow = 0, dp_dropped = 0, dp_emitter = emitter, dp_started = False,
                dp_stopped = False, dp_closed = False, dp_bound = False, dp_cancelled = False, dp_fanIn = False, dp_workers = [],
                dp_subQueue = [], dp_running = []\<rparr>, ws))"

section \<open>Invocation history\<close>

definition appendInvocationLocked :: "Invocation \<Rightarrow> boundHook \<Rightarrow> boundHook" where
  "appendInvocationLocked iv b =
     (let slots = (if bh_invocations b = [] then replicate invocationBufferSize zero_invocation else bh_invocations b)
      in b\<lparr>bh_invocations := slots[bh_invocationsIdx b := iv],
           bh_invocationsIdx := (bh_invocationsIdx b + 1) mod invocationBufferSize,
           bh_invocationsLen := (if bh_invocationsLen b < invocationBufferSize then bh_invocationsLen b + 1 else bh_invocationsLen b)\<rparr>)"

definition snapshotInvocationsLocked :: "boundHook \<Rightarrow> Invocation list" where
  "snapshotInvocationsLocked b =
     (let start = (bh_invocationsIdx b + invocationBufferSize - bh_invocationsLen b) mod invocationBufferSize
      in map (\<lambda>i. bh_invocations b ! ((start + i) mod invocationBufferSize)) [0..<bh_invocationsLen b])"

definition Invocations :: "string \<Rightarrow> int \<Rightarrow> Dispatcher \<Rightarrow> Invocation list option" where
  "Invocations name limit d =
     (case filter (\<lambda>b. bh_name b = name) (dp_hooks d) of
        [] \<Rightarrow> None
      | b # _ \<Rightarrow>
         (let snap = rev (snapshotInvocationsLocked b)
          in Some (if limit > 0 \<and> int (length snap) > limit then take (nat limit) snap else snap)))"

section \<open>Events\<close>

definition IsHookSelfEvent :: "string \<Rightarrow> bool" where
  "IsHookSelfEvent ty \<longleftrightarrow> has_prefix ty HookEventPrefix"

record Envelope =
  en_SchemaVersion :: int
  en_EventType :: string
  en_Timestamp :: time
  en_Repo :: string
  en_IssueNum :: int
  en_Data :: raw_json

definition BuildEnvelope :: "time \<Rightarrow> hook_event \<Rightarrow> Envelope" where
  "BuildEnvelope now ev =
     \<lparr>en_SchemaVersion = PayloadSchemaVersion, en_EventType = he_Type ev,
      en_Timestamp = (if he_Timestamp ev = 0 then now else he_Timestamp ev), en_Repo = he_Repo ev, en_IssueNum = he_IssueNum ev,
      en_Data = (if raw_text (he_Payload ev) = [] then RawJSON ''null'' else he_Payload ev)\<rparr>"

text \<open>Whether \<^verbatim>\<open>json.Marshal\<close> accepts the envelope: its raw message has to be valid JSON.\<close>

definition MarshalEnvelope :: "Envelope \<Rightarrow> bool" where
  "MarshalEnvelope e = (case en_Data e of RawJSON _ \<Rightarrow> True | RawBad _ \<Rightarrow> False)"

definition Publish :: "hook_event \<Rightarrow> Dispatcher \<Rightarrow> Dispatcher" where
  "Publish ev d =
     (if IsHookSelfEvent (he_Type ev) then d
      else if length (dp_in d) < channelCapacity then d\<lparr>dp_in := dp_in d @ [ev]\<rparr>
      else d\<lparr>dp_overflow := dp_overflow d + 1\<rparr>)"

definition PublishFromRaw :: "string \<Rightarrow> string \<Rightarrow> int \<Rightarrow> raw_json \<Rightarrow> Dispatcher \<Rightarrow> Dispatcher" where
  "PublishFromRaw ty repo n payload =
     Publish \<lparr>he_Type = ty, he_Repo = repo, he_IssueNum = n, he_Payload = payload, he_Timestamp = 0\<rparr>"

definition overflow_invocation :: "time \<Rightarrow> hook_event \<Rightarrow> Invocation" where
  "overflow_invocation now ev = zero_invocation\<lparr>in_StartedAt := now, in_FinishedAt := now, in_Result := InvocationResultOverflow,
     in_Error := ''per-hook queue full; event dropped'', in_EventType := he_Type ev, in_Repo := he_Repo ev, in_IssueNum := he_IssueNum ev\<rparr>"

text \<open>One round of the loop of \<^verbatim>\<open>fanOut\<close>: the hook, the queues and whether the event was dropped.\<close>

definition fanHook ::
  "time \<Rightarrow> hook_event \<Rightarrow> boundHook \<Rightarrow> (string \<times> hook_event list) list \<Rightarrow> boundHook \<times> (string \<times> hook_event list) list \<times> bool" where
  "fanHook now ev b qs =
     (if \<not> MatchesEvent (bh_hook b) (he_Type ev) then (b, qs, False)
      else if bh_disabled b then (b\<lparr>bh_disabledDrops := bh_disabledDrops b + 1\<rparr>, qs, False)
      else if \<not> MatchesFilter (bh_hook b) ev then (b\<lparr>bh_filteredCount := bh_filteredCount b + 1\<rparr>, qs, False)
      else case map_of qs (bh_name b) of
             None \<Rightarrow> (b, qs, False)
           | Some q \<Rightarrow>
               if length q < 1 then (b, AList.update (bh_name b) (q @ [ev]) qs, False)
               else (appendInvocationLocked (overflow_invocation now ev) (b\<lparr>bh_overflowCount := bh_overflowCount b + 1\<rparr>), qs, True))"

fun fanHooks ::
  "time \<Rightarrow> hook_event \<Rightarrow> boundHook list \<Rightarrow> (string \<times> hook_event list) list \<Rightarrow> counter \<Rightarrow>
   boundHook list \<times> (string \<times> hook_event list) list \<times> counter" where
  "fanHooks now ev [] qs n = ([], qs, n)"
| "fanHooks now ev (b # bs) qs n =
     (case fanHook now ev b qs of (b', qs', dropped) \<Rightarrow>
        (case fanHooks now ev bs qs' (if dropped then n + 1 else n) of (bs', qs'', n') \<Rightarrow> (b' # bs', qs'', n')))"

definition fanOut :: "time \<Rightarrow> hook_event \<Rightarrow> Dispatcher \<Rightarrow> Dispatcher" where
  "fanOut now ev d =
     (case fanHooks now ev (dp_hooks d) (dp_subQueue d) (dp_dropped d) of
        (bs, qs, n) \<Rightarrow> d\<lparr>dp_hooks := bs, dp_subQueue := qs, dp_dropped := n\<rparr>)"

section \<open>Running an action\<close>

definition truncateBytes :: "string \<Rightarrow> nat \<Rightarrow> string" where
  "truncateBytes src limit = take limit src"

definition observeDurationLocked :: "duration \<Rightarrow> boundHook \<Rightarrow> boundHook" where
  "observeDurationLocked t b = b\<lparr>bh_durationCount := bh_durationCount b + 1, bh_durationSumNs := bh_durationSumNs b + of_int t,
     bh_durationBuckets := map2 (\<lambda>upper n. if t \<le> upper then n + 1 else n) hookDurationBuckets (bh_durationBuckets b)\<rparr>"

record action_run =
  ar_start :: time
  ar_finish :: time
  ar_stdout :: string
  ar_stderr :: string
  ar_err :: "string option"

definition emitDisabled :: "string \<Rightarrow> string \<Rightarrow> Event list option \<Rightarrow> Event list option" where
  "emitDisabled name err = map_option (\<lambda>es. es @ [\<lparr>ev_Type = HookDisabledEvent, ev_Repo = [], ev_IssueNum = 0,
     ev_Payload = [(''hook'', PStr name), (''failures'', PInt AutoDisableThreshold), (''last_error'', PStr err),
       (''requires_reload'', PBool True)]\<rparr>])"

definition executeOne :: "action_run \<Rightarrow> hook_event \<Rightarrow> boundHook \<Rightarrow> Event list option \<Rightarrow> boundHook \<times> Event list option" where
  "executeOne run ev b emitter =
     (if \<not> MarshalEnvelope (BuildEnvelope (ar_start run) ev) then (b, emitter)
      else
        (let elapsed = ar_finish run - ar_start run;
             iv = zero_invocation\<lparr>in_StartedAt := ar_start run, in_FinishedAt := ar_finish run, in_DurationNs := elapsed,
               in_EventType := he_Type ev, in_Repo := he_Repo ev, in_IssueNum := he_IssueNum ev,
               in_Stdout := truncateBytes (ar_stdout run) invocationPreviewLimit,
               in_Stderr := truncateBytes (ar_stderr run) invocationPreviewLimit\<rparr>
         in case ar_err run of
              None \<Rightarrow>
                (appendInvocationLocked (iv\<lparr>in_Result := InvocationResultSuccess\<rparr>)
                   (observeDurationLocked elapsed (b\<lparr>bh_failures := 0, bh_lastErr := [], bh_successCount := bh_successCount b + 1,
                      bh_lastInvokedAt := ar_finish run\<rparr>)), emitter)
            | Some err \<Rightarrow>
                (let b1 = appendInvocationLocked (iv\<lparr>in_Result := InvocationResultFailure, in_Error := err\<rparr>)
                       (observeDurationLocked elapsed (b\<lparr>bh_failures := bh_failures b + 1, bh_lastErr := err,
                          bh_failureCount := bh_failureCount b + 1, bh_lastFailureAt := ar_finish run,
                          bh_lastInvokedAt := ar_finish run\<rparr>))
                 in if \<not> bh_disabled b1 \<and> bh_failures b1 \<ge> AutoDisableThreshold
                    then (b1\<lparr>bh_disabled := True\<rparr>, emitDisabled (bh_name b1) err emitter)
                    else (b1, emitter))))"

section \<open>The goroutines\<close>

text \<open>\<^verbatim>\<open>Start\<close>; the flag says whether the context is the caller's or the background context.\<close>

definition start_under :: "bool \<Rightarrow> Dispatcher \<Rightarrow> Dispatcher" where
  "start_under bound d =
     (if dp_started d then d
      else d\<lparr>dp_started := True, dp_subQueue := fold (\<lambda>b. AList.update (bh_name b) []) (dp_hooks d) (dp_subQueue d),
             dp_workers := map bh_name (dp_hooks d), dp_fanIn := True, dp_bound := bound\<rparr>)"

definition Start :: "Dispatcher \<Rightarrow> Dispatcher" where
  "Start = start_under True"

text \<open>\<^verbatim>\<open>Stop\<close> up to its wait for the goroutines, which end by the exit steps below.\<close>

definition Stop :: "Dispatcher \<Rightarrow> Dispatcher" where
  "Stop d = (if dp_stopped d \<or> \<not> dp_started d then d\<lparr>dp_stopped := True\<rparr> else d\<lparr>dp_stopped := True, dp_closed := True\<rparr>)"

definition cancelContext :: "Dispatcher \<Rightarrow> Dispatcher" where
  "cancelContext d = d\<lparr>dp_cancelled := True\<rparr>"

definition told_to_exit :: "Dispatcher \<Rightarrow> bool" where
  "told_to_exit d \<longleftrightarrow> dp_closed d \<or> dp_bound d \<and> dp_cancelled d"

definition exitFanIn :: "Dispatcher \<Rightarrow> Dispatcher" where
  "exitFanIn d = (if told_to_exit d then d\<lparr>dp_fanIn := False\<rparr> else d)"

definition exitHook :: "string \<Rightarrow> Dispatcher \<Rightarrow> Dispatcher" where
  "exitHook name d = (if told_to_exit d \<and> map_of (dp_running d) name = None then d\<lparr>dp_workers := remove1 name (dp_workers d)\<rparr> else d)"

definition drained :: "Dispatcher \<Rightarrow> bool" where
  "drained d \<longleftrightarrow> \<not> dp_fanIn d \<and> dp_workers d = [] \<and> dp_running d = []"

definition runFanIn :: "time \<Rightarrow> Dispatcher \<Rightarrow> Dispatcher" where
  "runFanIn now d =
     (case dp_in d of
        [] \<Rightarrow> d
      | ev # rest \<Rightarrow> if dp_fanIn d then fanOut now ev (d\<lparr>dp_in := rest\<rparr>) else d)"

definition takeEvent :: "string \<Rightarrow> Dispatcher \<Rightarrow> Dispatcher" where
  "takeEvent name d =
     (case map_of (dp_subQueue d) name of
        Some (ev # q) \<Rightarrow>
          if name \<in> set (dp_workers d) \<and> map_of (dp_running d) name = None
          then d\<lparr>dp_subQueue := AList.update name q (dp_subQueue d), dp_running := AList.update name ev (dp_running d)\<rparr>
          else d
      | _ \<Rightarrow> d)"

fun updateHook :: "string \<Rightarrow> (boundHook \<Rightarrow> Event list option \<Rightarrow> boundHook \<times> Event list option) \<Rightarrow> boundHook list \<Rightarrow> Event list option \<Rightarrow>
   boundHook list \<times> Event list option" where
  "updateHook name f [] em = ([], em)"
| "updateHook name f (b # bs) em =
     (if bh_name b = name then (case f b em of (b', em') \<Rightarrow> (b' # bs, em'))
      else case updateHook name f bs em of (bs', em') \<Rightarrow> (b # bs', em'))"

definition finishEvent :: "string \<Rightarrow> action_run \<Rightarrow> Dispatcher \<Rightarrow> Dispatcher" where
  "finishEvent name run d =
     (case map_of (dp_running d) name of
        None \<Rightarrow> d
      | Some ev \<Rightarrow>
         (case updateHook name (executeOne run ev) (dp_hooks d) (dp_emitter d) of
            (bs, em) \<Rightarrow> d\<lparr>dp_hooks := bs, dp_emitter := em, dp_running := AList.delete name (dp_running d)\<rparr>))"

text \<open>
  \<^verbatim>\<open>Reload\<close> in two parts: it builds the new hooks and, when that succeeds, tells a running pool to
  stop; once the goroutines have returned it puts the new pool in place.
\<close>

definition beginReload :: "(string \<Rightarrow> string option) \<Rightarrow> hooks_config option \<Rightarrow> Dispatcher \<Rightarrow> Dispatcher" where
  "beginReload env cfg d =
     (case bindHooks env (cfg_hooks cfg) of
        Inl e \<Rightarrow> d
      | Inr _ \<Rightarrow> if dp_started d \<and> \<not> dp_stopped d then d\<lparr>dp_closed := True, dp_stopped := True\<rparr> else d)"

definition Reload :: "(string \<Rightarrow> string option) \<Rightarrow> hooks_config option \<Rightarrow> Dispatcher \<Rightarrow> Dispatcher \<times> (hook_error + hook_warning list)" where
  "Reload env cfg d =
     (case bindHooks env (cfg_hooks cfg) of
        Inl e \<Rightarrow> (d, Inl e)
      | Inr (bs, ws) \<Rightarrow>
         (let d1 = d\<lparr>dp_hooks := bs, dp_subQueue := [], dp_closed := False, dp_stopped := False\<rparr>
          in (if dp_started d then start_under False (d1\<lparr>dp_started := False\<rparr>) else d1, Inr ws)))"

definition IsDisabled :: "string \<Rightarrow> Dispatcher \<Rightarrow> bool" where
  "IsDisabled name d = (case filter (\<lambda>b. bh_name b = name) (dp_hooks d) of [] \<Rightarrow> False | b # _ \<Rightarrow> bh_disabled b)"

record HookSummary =
  sm_Name :: string
  sm_Events :: "string list"
  sm_ActionType :: string
  sm_Enabled :: bool

definition hook_summaries :: "Dispatcher \<Rightarrow> HookSummary list" where
  "hook_summaries d = map (\<lambda>b. \<lparr>sm_Name = bh_name b, sm_Events = hk_Events (bh_hook b), sm_ActionType = act_Type (hk_Action (bh_hook b)),
     sm_Enabled = (IsEnabled (bh_hook b) \<and> \<not> bh_disabled b)\<rparr>) (dp_hooks d)"

record HookStats =
  hs_Name :: string
  hs_Events :: "string list"
  hs_ActionType :: string
  hs_Enabled :: bool
  hs_Disabled :: bool
  hs_Successes :: counter
  hs_Failures :: counter
  hs_Filtered :: counter
  hs_DisabledDrops :: counter
  hs_Overflow :: counter
  hs_ConsecutiveFail :: int
  hs_LastError :: string
  hs_LastFailureAt :: time
  hs_LastInvokedAt :: time
  hs_DurationCount :: counter
  hs_DurationSumNs :: counter
  hs_DurationBuckets :: "counter list"

definition Stats :: "Dispatcher \<Rightarrow> HookStats list" where
  "Stats d = map (\<lambda>b. \<lparr>hs_Name = bh_name b, hs_Events = hk_Events (bh_hook b), hs_ActionType = act_Type (hk_Action (bh_hook b)),
     hs_Enabled = (IsEnabled (bh_hook b) \<and> \<not> bh_disabled b), hs_Disabled = bh_disabled b,
     hs_Successes = bh_successCount b, hs_Failures = bh_failureCount b, hs_Filtered = bh_filteredCount b,
     hs_DisabledDrops = bh_disabledDrops b, hs_Overflow = bh_overflowCount b, hs_ConsecutiveFail = bh_failures b,
     hs_LastError = bh_lastErr b, hs_LastFailureAt = bh_lastFailureAt b, hs_LastInvokedAt = bh_lastInvokedAt b,
     hs_DurationCount = bh_durationCount b, hs_DurationSumNs = bh_durationSumNs b, hs_DurationBuckets = bh_durationBuckets b\<rparr>) (dp_hooks d)"

inductive disp_step :: "Dispatcher \<Rightarrow> Dispatcher \<Rightarrow> bool" where
  ds_publish: "disp_step d (Publish ev d)"
| ds_fan: "disp_step d (runFanIn now d)"
| ds_take: "disp_step d (takeEvent name d)"
| ds_finish: "disp_step d (finishEvent name run d)"
| ds_start: "disp_step d (Start d)"
| ds_stop: "disp_step d (Stop d)"
| ds_cancel: "disp_step d (cancelContext d)"
| ds_exit_fan: "disp_step d (exitFanIn d)"
| ds_exit: "disp_step d (exitHook name d)"

inductive reload_step :: "Dispatcher \<Rightarrow> Dispatcher \<Rightarrow> bool" where
  rs_step: "disp_step d d' \<Longrightarrow> reload_step d d'"
| rs_begin: "reload_step d (beginReload env cfg d)"
| rs_reload: "drained d \<Longrightarrow> reload_step d (fst (Reload env cfg d))"

section \<open>The ring of invocations\<close>

definition ring_ok :: "boundHook \<Rightarrow> bool" where
  "ring_ok b \<longleftrightarrow>
     (if bh_invocations b = [] then bh_invocationsLen b = 0 \<and> bh_invocationsIdx b = 0
      else length (bh_invocations b) = invocationBufferSize \<and> bh_invocationsIdx b < invocationBufferSize \<and>
           bh_invocationsLen b \<le> invocationBufferSize)"

definition last_n :: "nat \<Rightarrow> 'a list \<Rightarrow> 'a list" where
  "last_n n xs = drop (length xs - n) xs"

lemma last_n_snoc: "0 < n \<Longrightarrow> last_n n (last_n n xs @ [x]) = last_n n (xs @ [x])"
  by (cases "n \<le> length xs") (simp_all add: last_n_def Suc_diff_le)

lemma rev_last_n: "rev (last_n n xs) = take n (rev xs)"
  by (simp add: last_n_def take_rev)

lemma ring_ok_append: "ring_ok b \<Longrightarrow> ring_ok (appendInvocationLocked x b)"
  by (auto simp: ring_ok_def appendInvocationLocked_def Let_def invocationBufferSize_def)

lemma length_snapshot [simp]: "length (snapshotInvocationsLocked b) = bh_invocationsLen b"
  by (simp add: snapshotInvocationsLocked_def Let_def)

lemma snapshot_nth:
  "i < bh_invocationsLen b \<Longrightarrow>
   snapshotInvocationsLocked b ! i = bh_invocations b ! ((bh_invocationsIdx b + 100 - bh_invocationsLen b + i) mod 100)"
  by (simp add: snapshotInvocationsLocked_def Let_def invocationBufferSize_def mod_add_left_eq)

lemma ring_shift:
  fixes idx l i :: nat
  assumes "idx < 100" "l \<le> 100"
  shows "((idx + 1) mod 100 + 100 - l + i) mod 100 = (idx + 1 + (100 - l) + i) mod 100"
proof (cases "idx = 99")
  case True
  then show ?thesis using assms mod_add_self1 [of 100 "100 - l + i"] by (simp add: algebra_simps)
next
  case False
  then have "(idx + 1) mod 100 + 100 - l + i = idx + 1 + (100 - l) + i" using assms by simp
  then show ?thesis by (simp only:)
qed

lemma mod_shift_ne:
  fixes idx k :: nat
  assumes "idx < 100" "0 < k" "k < 100"
  shows "(idx + k) mod 100 \<noteq> idx"
  using assms by (cases "idx + k < 100") (simp_all add: le_mod_geq)

lemma snapshot_append:
  assumes ok: "ring_ok b"
  shows "snapshotInvocationsLocked (appendInvocationLocked x b) = last_n 100 (snapshotInvocationsLocked b @ [x])"
    (is "?l = ?r")
proof (rule nth_equalityI)
  define slots where "slots = (if bh_invocations b = [] then replicate invocationBufferSize zero_invocation else bh_invocations b)"
  define idx where "idx = bh_invocationsIdx b"
  define n where "n = bh_invocationsLen b"
  have len: "length slots = 100" and idx: "idx < 100" and n: "n \<le> 100"
    using ok by (auto simp: ring_ok_def slots_def idx_def n_def invocationBufferSize_def split: if_splits)
  have new: "bh_invocationsLen (appendInvocationLocked x b) = min 100 (n + 1)"
            "bh_invocationsIdx (appendInvocationLocked x b) = (idx + 1) mod 100"
            "bh_invocations (appendInvocationLocked x b) = slots[idx := x]"
    using n by (auto simp: appendInvocationLocked_def Let_def n_def idx_def slots_def invocationBufferSize_def)
  show "length ?l = length ?r" using n by (simp add: last_n_def new n_def [symmetric])
  fix i assume "i < length ?l"
  then have i: "i < min 100 (n + 1)" by (simp add: new)
  define j where "j = (if n = 100 then i + 1 else i)"
  have r: "?r ! i = (snapshotInvocationsLocked b @ [x]) ! j"
    using i n by (auto simp: last_n_def j_def n_def [symmetric] nth_append)
  have "idx + 1 + (100 - min 100 (n + 1)) + i = idx + (100 - n + j)" using n unfolding j_def min_def by (split if_split)+ linarith
  then have left: "?l ! i = slots[idx := x] ! ((idx + (100 - n + j)) mod 100)"
    using i idx by (simp only: snapshot_nth new ring_shift min.cobounded1)
  show "?l ! i = ?r ! i"
  proof (cases "j = n")
    case True
    then show ?thesis using len idx n by (simp add: left r n_def [symmetric] nth_append)
  next
    case False
    then have jn: "j < n" "0 < 100 - n + j" using i n by (auto simp: j_def split: if_splits)
    have "(idx + (100 - n + j)) mod 100 \<noteq> idx" using jn n idx by (intro mod_shift_ne) simp_all
    moreover have "bh_invocations b \<noteq> []" using ok jn by (auto simp: ring_ok_def n_def)
    ultimately show ?thesis using jn(1) n
      by (simp add: left r nth_append n_def [symmetric] snapshot_nth idx_def [symmetric] slots_def add.assoc)
  qed
qed

lemma ring_history:
  assumes "ring_ok b"
  shows "ring_ok (fold appendInvocationLocked xs b)"
        "snapshotInvocationsLocked (fold appendInvocationLocked xs b) = last_n 100 (snapshotInvocationsLocked b @ xs)"
proof (induction xs rule: rev_induct)
  case Nil
  { case 1 show ?case using assms by simp }
  { case 2 show ?case using assms by (auto simp: last_n_def ring_ok_def invocationBufferSize_def split: if_splits) }
next
  case (snoc x xs)
  { case 1 show ?case using snoc.IH(1) by (simp add: ring_ok_append) }
  { case 2 show ?case using snoc.IH by (simp add: snapshot_append last_n_snoc) }
qed

lemma ring_ok_bind [simp]: "ring_ok (bind_hook h a)"
  by (simp add: ring_ok_def bind_hook_def)

lemma bind_hook_snapshot [simp]: "snapshotInvocationsLocked (bind_hook h a) = []"
  by (simp add: snapshotInvocationsLocked_def bind_hook_def)

lemma bh_hook_append [simp]: "bh_hook (appendInvocationLocked x b) = bh_hook b"
  by (simp add: appendInvocationLocked_def Let_def)

lemma bh_hook_fold_append [simp]: "bh_hook (fold appendInvocationLocked xs b) = bh_hook b"
  by (induction xs arbitrary: b) simp_all

text \<open>The fixed buffer of a hook's invocations behaves as the list of everything that was recorded:
  whatever was appended since the hook was bound, \<^verbatim>\<open>Invocations\<close> returns the newest 100 entries,
  newest first, cut to the limit when one is given.
\<close>

theorem history_keeps_latest:
  "Invocations (hk_Name h) limit (d\<lparr>dp_hooks := fold appendInvocationLocked xs (bind_hook h a) # bs\<rparr>) =
   Some (take (if 0 < limit then min 100 (nat limit) else 100) (rev xs))"
  by (auto simp: Invocations_def Let_def ring_history rev_last_n bind_hook_def [THEN arg_cong [where f = bh_hook]] min_def not_less take_all)

section \<open>Auto-disable and the self-event guard\<close>

definition bound_ok :: "boundHook \<Rightarrow> bool" where
  "bound_ok b \<longleftrightarrow> ring_ok b \<and> 0 \<le> bh_failures b \<and> (bh_failures b < AutoDisableThreshold \<or> bh_disabled b) \<and>
     length (bh_durationBuckets b) = length hookDurationBuckets"

definition foreign :: "hook_event \<Rightarrow> bool" where
  "foreign ev \<longleftrightarrow> \<not> IsHookSelfEvent (he_Type ev)"

definition queues_ok :: "(string \<times> hook_event list) list \<Rightarrow> bool" where
  "queues_ok qs \<longleftrightarrow> (\<forall>(name, q)\<in>set qs. length q \<le> 1 \<and> (\<forall>ev\<in>set q. foreign ev))"

definition runs_ok :: "(string \<times> hook_event) list \<Rightarrow> bool" where
  "runs_ok rs \<longleftrightarrow> (\<forall>(name, ev)\<in>set rs. foreign ev)"

definition dispatcher_ok :: "Dispatcher \<Rightarrow> bool" where
  "dispatcher_ok d \<longleftrightarrow>
     (\<forall>b\<in>set (dp_hooks d). bound_ok b) \<and> length (dp_in d) \<le> channelCapacity \<and> (\<forall>ev\<in>set (dp_in d). foreign ev) \<and>
     queues_ok (dp_subQueue d) \<and>
     runs_ok (dp_running d)"

named_theorems disp_defs "the projections of the dispatcher's hook updates"

lemma append_fields [disp_defs]:
  "bh_failures (appendInvocationLocked x b) = bh_failures b" "bh_disabled (appendInvocationLocked x b) = bh_disabled b"
  "bh_durationBuckets (appendInvocationLocked x b) = bh_durationBuckets b"
  "bh_successCount (appendInvocationLocked x b) = bh_successCount b" "bh_failureCount (appendInvocationLocked x b) = bh_failureCount b"
  by (simp_all add: appendInvocationLocked_def Let_def)

lemma observe_fields [disp_defs]:
  "bh_failures (observeDurationLocked t b) = bh_failures b" "bh_disabled (observeDurationLocked t b) = bh_disabled b"
  "bh_hook (observeDurationLocked t b) = bh_hook b" "ring_ok (observeDurationLocked t b) = ring_ok b"
  "bh_successCount (observeDurationLocked t b) = bh_successCount b" "bh_failureCount (observeDurationLocked t b) = bh_failureCount b"
  "length (bh_durationBuckets (observeDurationLocked t b)) = min (length hookDurationBuckets) (length (bh_durationBuckets b))"
  by (simp_all add: observeDurationLocked_def ring_ok_def)

lemma ring_ok_cong:
  "bh_invocations b = bh_invocations b' \<Longrightarrow> bh_invocationsLen b = bh_invocationsLen b' \<Longrightarrow> bh_invocationsIdx b = bh_invocationsIdx b' \<Longrightarrow>
   ring_ok b = ring_ok b'"
  by (simp add: ring_ok_def)

lemma ring_ok_update [simp]:
  "ring_ok (b\<lparr>bh_failures := f\<rparr>) = ring_ok b" "ring_ok (b\<lparr>bh_disabled := t\<rparr>) = ring_ok b"
  "ring_ok (b\<lparr>bh_lastErr := e\<rparr>) = ring_ok b" "ring_ok (b\<lparr>bh_lastFailureAt := at\<rparr>) = ring_ok b"
  "ring_ok (b\<lparr>bh_lastInvokedAt := at\<rparr>) = ring_ok b" "ring_ok (b\<lparr>bh_successCount := n\<rparr>) = ring_ok b"
  "ring_ok (b\<lparr>bh_failureCount := n\<rparr>) = ring_ok b" "ring_ok (b\<lparr>bh_filteredCount := n\<rparr>) = ring_ok b"
  "ring_ok (b\<lparr>bh_disabledDrops := n\<rparr>) = ring_ok b" "ring_ok (b\<lparr>bh_overflowCount := n\<rparr>) = ring_ok b"
  by (simp_all add: ring_ok_def)

lemma bound_ok_bind: "bound_ok (bind_hook h a)"
  by (simp add: bound_ok_def) (simp add: bind_hook_def AutoDisableThreshold_def)

lemma bind_hook_enabled: "\<not> bh_disabled (bind_hook h a)"
  by (simp add: bind_hook_def)

lemma executeOne_ok: "bound_ok b \<Longrightarrow> bound_ok (fst (executeOne run ev b em))"
  by (auto simp: executeOne_def bound_ok_def Let_def disp_defs ring_ok_append AutoDisableThreshold_def split: option.split)

lemma executeOne_hook [simp]: "bh_hook (fst (executeOne run ev b em)) = bh_hook b"
  by (auto simp: executeOne_def Let_def disp_defs split: option.split)

lemma fanHook_ok: "bound_ok b \<Longrightarrow> bound_ok (fst (fanHook now ev b qs))"
  by (auto simp: fanHook_def bound_ok_def disp_defs ring_ok_append split: option.split)

lemma fanHook_hook [simp]: "bh_hook (fst (fanHook now ev b qs)) = bh_hook b"
  by (auto simp: fanHook_def split: option.split)

lemma set_AList_update: "x \<in> set (AList.update k v xs) \<Longrightarrow> x = (k, v) \<or> x \<in> set xs"
  by (induction xs) (auto split: if_splits)

lemma queues_ok_update: "queues_ok qs \<Longrightarrow> length q \<le> 1 \<Longrightarrow> \<forall>ev\<in>set q. foreign ev \<Longrightarrow> queues_ok (AList.update k q qs)"
  unfolding queues_ok_def by (auto dest!: set_AList_update)

lemma queues_ok_lookup: "queues_ok qs \<Longrightarrow> map_of qs k = Some q \<Longrightarrow> length q \<le> 1 \<and> (\<forall>ev\<in>set q. foreign ev)"
  unfolding queues_ok_def by (auto dest!: map_of_SomeD)

lemma runs_ok_update: "runs_ok rs \<Longrightarrow> foreign ev \<Longrightarrow> runs_ok (AList.update k ev rs)"
  unfolding runs_ok_def by (auto dest!: set_AList_update)

lemma runs_ok_delete: "runs_ok rs \<Longrightarrow> runs_ok (AList.delete k rs)"
  unfolding runs_ok_def by (auto simp: AList.delete_eq)

lemma fanHook_queues:
  assumes "queues_ok qs" "foreign ev"
  shows "queues_ok (fst (snd (fanHook now ev b qs)))"
proof (cases "\<exists>q. map_of qs (bh_name b) = Some q \<and> q = [] \<and> fst (snd (fanHook now ev b qs)) = AList.update (bh_name b) [ev] qs")
  case True
  then show ?thesis using assms by (auto intro: queues_ok_update)
next
  case False
  then have "fst (snd (fanHook now ev b qs)) = qs" by (auto simp: fanHook_def split: option.splits if_splits)
  then show ?thesis using assms by simp
qed

lemma fanHooks_ok:
  assumes "\<forall>b\<in>set bs. bound_ok b" "queues_ok qs" "foreign ev" "fanHooks now ev bs qs n = (bs', qs', n')"
  shows "(\<forall>b\<in>set bs'. bound_ok b) \<and> queues_ok qs'"
  using assms(1,2,4)
proof (induction bs arbitrary: qs n bs')
  case (Cons b bs)
  obtain b1 qs1 dr where f: "fanHook now ev b qs = (b1, qs1, dr)" by (metis prod.exhaust)
  then have "bound_ok b1" "queues_ok qs1"
    using Cons.prems(1) fanHook_ok [of b now ev qs] fanHook_queues [OF Cons.prems(2) assms(3), of now b] by simp_all
  then show ?case using Cons.prems Cons.IH [of qs1] f by (auto split: prod.splits)
qed simp

lemma updateHook_ok:
  "(\<And>b em. b \<in> set bs \<Longrightarrow> bound_ok (fst (f b em))) \<Longrightarrow> \<forall>b\<in>set bs. bound_ok b \<Longrightarrow> \<forall>b\<in>set (fst (updateHook name f bs em)). bound_ok b"
  by (induction bs arbitrary: em) (auto split: prod.split simp: split_def)

lemma bindHooks_ok: "bindHooks env hs = Inr (bs, ws) \<Longrightarrow> \<forall>b\<in>set bs. bound_ok b \<and> \<not> bh_disabled b"
  by (induction env hs arbitrary: bs ws rule: bindHooks.induct)
     (auto split: if_splits sum.splits simp: bound_ok_bind bind_hook_enabled)

lemma start_queues: "queues_ok qs \<Longrightarrow> queues_ok (fold (\<lambda>b. AList.update (bh_name b) []) bs qs)"
  by (induction bs arbitrary: qs) (simp_all add: queues_ok_update)

lemma start_under_ok: "dispatcher_ok d \<Longrightarrow> dispatcher_ok (start_under bound d)"
  by (simp add: dispatcher_ok_def start_under_def start_queues)

lemma runFanIn_ok:
  assumes ok: "dispatcher_ok d"
  shows "dispatcher_ok (runFanIn now d)"
proof (cases "dp_in d")
  case (Cons ev rest)
  obtain bs qs n where f: "fanHooks now ev (dp_hooks d) (dp_subQueue d) (dp_dropped d) = (bs, qs, n)" by (metis prod.exhaust)
  have "(\<forall>b\<in>set bs. bound_ok b) \<and> queues_ok qs"
    using ok Cons by (intro fanHooks_ok [OF _ _ _ f]) (auto simp: dispatcher_ok_def)
  then show ?thesis using ok Cons by (simp add: runFanIn_def fanOut_def dispatcher_ok_def f)
qed (use ok in \<open>simp add: runFanIn_def\<close>)

lemma takeEvent_ok: "dispatcher_ok d \<Longrightarrow> dispatcher_ok (takeEvent name d)"
  using queues_ok_lookup [of "dp_subQueue d" name]
  by (auto simp: takeEvent_def dispatcher_ok_def queues_ok_update runs_ok_update split: option.split list.split)

lemma finishEvent_ok:
  assumes ok: "dispatcher_ok d"
  shows "dispatcher_ok (finishEvent name run d)"
proof (cases "map_of (dp_running d) name")
  case (Some ev)
  obtain bs em where u: "updateHook name (executeOne run ev) (dp_hooks d) (dp_emitter d) = (bs, em)" by (rule prod.exhaust)
  have "\<forall>b\<in>set bs. bound_ok b"
    using updateHook_ok [of "dp_hooks d" "executeOne run ev" name "dp_emitter d"] ok by (auto simp: executeOne_ok dispatcher_ok_def u)
  then show ?thesis using ok by (simp add: finishEvent_def Some u dispatcher_ok_def runs_ok_delete)
qed (use ok in \<open>simp add: finishEvent_def\<close>)

lemma disp_step_ok: "disp_step d d' \<Longrightarrow> dispatcher_ok d \<Longrightarrow> dispatcher_ok d'"
proof (induction rule: disp_step.induct)
  case (ds_publish d ev)
  then show ?case by (auto simp: dispatcher_ok_def Publish_def foreign_def)
qed (simp_all add: runFanIn_ok takeEvent_ok finishEvent_ok Start_def start_under_ok Stop_def cancelContext_def exitFanIn_def exitHook_def,
     simp_all add: dispatcher_ok_def)

lemma Reload_ok:
  assumes ok: "dispatcher_ok d"
  shows "dispatcher_ok (fst (Reload env cfg d))"
proof (cases "bindHooks env (cfg_hooks cfg)")
  case (Inr r)
  obtain bs ws where r: "r = (bs, ws)" by (rule prod.exhaust)
  define d1 where "d1 = d\<lparr>dp_hooks := bs, dp_subQueue := [], dp_closed := False, dp_stopped := False\<rparr>"
  have "dispatcher_ok d1" "dispatcher_ok (d1\<lparr>dp_started := False\<rparr>)"
    using ok bindHooks_ok [of env "cfg_hooks cfg" bs ws] Inr r by (auto simp: dispatcher_ok_def d1_def queues_ok_def)
  then show ?thesis using Inr r by (simp add: Reload_def Let_def d1_def [symmetric] start_under_ok)
qed (use ok in \<open>simp add: Reload_def\<close>)

lemma reload_step_ok: "reload_step d d' \<Longrightarrow> dispatcher_ok d \<Longrightarrow> dispatcher_ok d'"
proof (induction rule: reload_step.induct)
  case (rs_begin d env cfg)
  then show ?case by (simp add: beginReload_def dispatcher_ok_def split: sum.split)
qed (simp_all add: disp_step_ok Reload_ok)

lemma NewDispatcher_ok: "NewDispatcher env em cfg = Inr (d, ws) \<Longrightarrow> dispatcher_ok d"
  using bindHooks_ok by (fastforce simp: NewDispatcher_def dispatcher_ok_def queues_ok_def runs_ok_def split: sum.splits)

lemma reload_steps_ok: "reload_step\<^sup>*\<^sup>* d d' \<Longrightarrow> dispatcher_ok d \<Longrightarrow> dispatcher_ok d'"
  by (induction rule: rtranclp_induct) (auto dest: reload_step_ok)

text \<open>C15. Whatever the publishers, the fan-in loop and the goroutines of the hooks do, in any order and
  across reloads: a hook that is not disabled has fewer than five consecutive failures, the central
  channel holds at most 1024 events and the channel of a hook at most one, and no event the
  hook system emits itself is ever queued or handed to an action.
\<close>

theorem dispatcher_bounded:
  assumes "NewDispatcher env em cfg = Inr (d0, ws)" "reload_step\<^sup>*\<^sup>* d0 d"
  shows "(\<forall>b\<in>set (dp_hooks d). bh_disabled b \<or> bh_failures b < 5) \<and> length (dp_in d) \<le> 1024 \<and>
    (\<forall>name q. map_of (dp_subQueue d) name = Some q \<longrightarrow> length q \<le> 1) \<and>
    (\<forall>name ev. map_of (dp_running d) name = Some ev \<longrightarrow> \<not> IsHookSelfEvent (he_Type ev))"
proof -
  have "dispatcher_ok d" using assms reload_steps_ok NewDispatcher_ok by blast
  then show ?thesis using queues_ok_lookup [of "dp_subQueue d"]
    by (auto simp: dispatcher_ok_def bound_ok_def channelCapacity_def AutoDisableThreshold_def runs_ok_def foreign_def dest: map_of_SomeD)
qed

section \<open>What a disabled hook still runs\<close>

definition find_hook :: "string \<Rightarrow> boundHook list \<Rightarrow> boundHook option" where
  "find_hook name bs = find (\<lambda>b. bh_name b = name) bs"

definition hook_calls :: "string \<Rightarrow> Dispatcher \<Rightarrow> counter" where
  "hook_calls name d = (case find_hook name (dp_hooks d) of None \<Rightarrow> 0 | Some b \<Rightarrow> bh_successCount b + bh_failureCount b)"

definition pending :: "string \<Rightarrow> Dispatcher \<Rightarrow> nat" where
  "pending name d = (case map_of (dp_subQueue d) name of None \<Rightarrow> 0 | Some q \<Rightarrow> length q) +
     (case map_of (dp_running d) name of None \<Rightarrow> 0 | Some _ \<Rightarrow> 1)"

lemma find_hook_simps [simp]:
  "find_hook name [] = None" "find_hook name (b # bs) = (if bh_name b = name then Some b else find_hook name bs)"
  by (simp_all add: find_hook_def)

lemma find_hook_None [simp]: "find_hook name bs = None \<longleftrightarrow> name \<notin> bh_name ` set bs"
  by (induction bs) auto

lemma IsDisabled_find: "IsDisabled name d = (case find_hook name (dp_hooks d) of None \<Rightarrow> False | Some b \<Rightarrow> bh_disabled b)"
proof -
  have "(case filter (\<lambda>b. bh_name b = name) bs of [] \<Rightarrow> False | b # _ \<Rightarrow> bh_disabled b) =
        (case find_hook name bs of None \<Rightarrow> False | Some b \<Rightarrow> bh_disabled b)" for bs
    by (induction bs) auto
  then show ?thesis by (simp add: IsDisabled_def)
qed

lemma fanHook_other: "bh_name b \<noteq> name \<Longrightarrow> map_of (fst (snd (fanHook now ev b qs))) name = map_of qs name"
  by (auto simp: fanHook_def update_conv' split: option.split)

lemma fanHook_disabled:
  "bh_disabled b \<Longrightarrow> fst (snd (fanHook now ev b qs)) = qs \<and> bh_disabled (fst (fanHook now ev b qs)) \<and>
   bh_successCount (fst (fanHook now ev b qs)) = bh_successCount b \<and> bh_failureCount (fst (fanHook now ev b qs)) = bh_failureCount b"
  by (simp add: fanHook_def)

lemma fanHooks_names: "fanHooks now ev bs qs n = (bs', qs', n') \<Longrightarrow> map bh_hook bs' = map bh_hook bs"
proof (induction bs arbitrary: qs n bs')
  case (Cons b bs)
  then show ?case using fanHook_hook [of now ev b qs] by (auto split: prod.splits simp del: fanHook_hook)
qed simp

lemma fanHooks_other: "fanHooks now ev bs qs n = (bs', qs', n') \<Longrightarrow> name \<notin> bh_name ` set bs \<Longrightarrow> map_of qs' name = map_of qs name"
proof (induction bs arbitrary: qs n bs')
  case (Cons b bs)
  obtain b1 qs1 dr where f: "fanHook now ev b qs = (b1, qs1, dr)" by (metis prod.exhaust)
  then show ?case using Cons.prems Cons.IH [of qs1] fanHook_other [of b name now ev qs] by (auto split: prod.splits)
qed simp

lemma fanHooks_disabled:
  assumes "fanHooks now ev bs qs n = (bs', qs', n')" "distinct (map bh_name bs)" "find_hook name bs = Some b" "bh_disabled b"
  shows "map_of qs' name = map_of qs name \<and> (\<exists>b'. find_hook name bs' = Some b' \<and> bh_disabled b' \<and>
           bh_successCount b' = bh_successCount b \<and> bh_failureCount b' = bh_failureCount b)"
  using assms(1-3)
proof (induction bs arbitrary: qs n bs')
  case (Cons c bs)
  obtain c1 qs1 dr where f: "fanHook now ev c qs = (c1, qs1, dr)" by (metis prod.exhaust)
  obtain bs1 where r: "fanHooks now ev bs qs1 (if dr then n + 1 else n) = (bs1, qs', n')" and bs': "bs' = c1 # bs1"
    using Cons.prems(1) f by (auto split: prod.splits)
  have n1: "bh_name c1 = bh_name c" using fanHook_hook [of now ev c qs] f by simp
  show ?case
  proof (cases "bh_name c = name")
    case True
    then have "c = b" "name \<notin> bh_name ` set bs" using Cons.prems by auto
    then show ?thesis using fanHook_disabled [OF assms(4), of now ev qs] f fanHooks_other [OF r] n1 True by (simp add: bs')
  next
    case False
    then show ?thesis using Cons.IH [OF r] Cons.prems n1 fanHook_other [OF False, of now ev qs] f by (simp add: bs')
  qed
qed simp

lemma updateHook_names:
  "(\<And>b em. bh_hook (fst (f b em)) = bh_hook b) \<Longrightarrow> map bh_hook (fst (updateHook name f bs em)) = map bh_hook bs"
  by (induction bs arbitrary: em) (auto simp: split_def)

lemma updateHook_find:
  "(\<And>b em. bh_hook (fst (f b em)) = bh_hook b) \<Longrightarrow>
   find_hook name (fst (updateHook name' f bs em)) =
     (if name = name' then map_option (\<lambda>b. fst (f b em)) (find_hook name bs) else find_hook name bs)"
  by (induction bs arbitrary: em) (auto simp: split_def)

lemma executeOne_disabled:
  "bh_disabled b \<Longrightarrow> bh_disabled (fst (executeOne run ev b em)) \<and>
   (\<exists>k\<le>1. bh_successCount (fst (executeOne run ev b em)) + bh_failureCount (fst (executeOne run ev b em)) =
           bh_successCount b + bh_failureCount b + of_nat k)"
  by (auto simp: executeOne_def Let_def disp_defs split: option.split intro: exI [of _ 0] exI [of _ 1])

definition quiet_step :: "string \<Rightarrow> Dispatcher \<Rightarrow> Dispatcher \<Rightarrow> bool" where
  "quiet_step name d d' \<longleftrightarrow> IsDisabled name d' \<and> map bh_hook (dp_hooks d') = map bh_hook (dp_hooks d) \<and>
     (\<exists>k. hook_calls name d' = hook_calls name d + of_nat k \<and> k + pending name d' \<le> pending name d)"

lemma quiet_step_trans:
  assumes "quiet_step name d d'" "quiet_step name d' d''"
  shows "quiet_step name d d''"
proof -
  obtain k l where "hook_calls name d' = hook_calls name d + of_nat k" "k + pending name d' \<le> pending name d"
      "hook_calls name d'' = hook_calls name d' + of_nat l" "l + pending name d'' \<le> pending name d'"
    using assms unfolding quiet_step_def by blast
  then have "hook_calls name d'' = hook_calls name d + of_nat (k + l) \<and> (k + l) + pending name d'' \<le> pending name d" by simp
  then show ?thesis using assms unfolding quiet_step_def by metis
qed

lemma quiet_step_same:
  "IsDisabled name d \<Longrightarrow> dp_hooks d' = dp_hooks d \<Longrightarrow> pending name d' \<le> pending name d \<Longrightarrow> quiet_step name d d'"
  by (auto simp: quiet_step_def IsDisabled_def hook_calls_def intro: exI [of _ 0])

lemma start_lookup: "map_of (fold (\<lambda>b. AList.update (bh_name b) []) bs qs) name = (if name \<in> bh_name ` set bs then Some [] else map_of qs name)"
  by (induction bs arbitrary: qs) (auto simp: update_conv')

lemma runFanIn_quiet:
  assumes d: "IsDisabled name d" and dist: "distinct (map bh_name (dp_hooks d))"
  shows "quiet_step name d (runFanIn now d)"
proof (cases "dp_in d \<noteq> [] \<and> dp_fanIn d")
  case True
  then obtain ev rest where i: "dp_in d = ev # rest" by (cases "dp_in d") auto
  obtain bs qs n where f: "fanHooks now ev (dp_hooks d) (dp_subQueue d) (dp_dropped d) = (bs, qs, n)" by (metis prod.exhaust)
  obtain b where b: "find_hook name (dp_hooks d) = Some b" "bh_disabled b" using d by (auto simp: IsDisabled_find split: option.splits)
  have r: "runFanIn now d = d\<lparr>dp_in := rest, dp_hooks := bs, dp_subQueue := qs, dp_dropped := n\<rparr>"
    using True by (simp add: runFanIn_def i fanOut_def f)
  show ?thesis using fanHooks_disabled [OF f dist b] fanHooks_names [OF f] b
    by (auto simp: quiet_step_def r IsDisabled_find hook_calls_def pending_def intro: exI [of _ 0])
next
  case False
  then show ?thesis using d by (intro quiet_step_same) (auto simp: runFanIn_def split: list.split)
qed

lemma finishEvent_quiet:
  assumes d: "IsDisabled name d"
  shows "quiet_step name d (finishEvent name' run d)"
proof (cases "map_of (dp_running d) name'")
  case (Some ev)
  let ?f = "executeOne run ev"
  obtain b where b: "find_hook name (dp_hooks d) = Some b" "bh_disabled b" using d by (auto simp: IsDisabled_find split: option.splits)
  have r: "finishEvent name' run d = d\<lparr>dp_hooks := fst (updateHook name' ?f (dp_hooks d) (dp_emitter d)),
      dp_emitter := snd (updateHook name' ?f (dp_hooks d) (dp_emitter d)), dp_running := AList.delete name' (dp_running d)\<rparr>"
    by (simp add: finishEvent_def Some split_def)
  have names: "map bh_hook (fst (updateHook name' ?f (dp_hooks d) (dp_emitter d))) = map bh_hook (dp_hooks d)"
    by (rule updateHook_names) simp
  have find: "find_hook name (fst (updateHook name' ?f (dp_hooks d) (dp_emitter d))) =
      (if name = name' then map_option (\<lambda>b. fst (?f b (dp_emitter d))) (find_hook name (dp_hooks d)) else find_hook name (dp_hooks d))"
    by (rule updateHook_find) simp
  obtain k where k: "k \<le> 1" "bh_disabled (fst (?f b (dp_emitter d)))"
      "bh_successCount (fst (?f b (dp_emitter d))) + bh_failureCount (fst (?f b (dp_emitter d))) = bh_successCount b + bh_failureCount b + of_nat k"
    using executeOne_disabled [OF b(2), of run ev "dp_emitter d"] by blast
  show ?thesis
  proof (cases "name = name'")
    case True
    then have "k + pending name (finishEvent name' run d) \<le> pending name d" using k(1) Some by (simp add: pending_def r delete_conv')
    then show ?thesis using True k b names find by (auto simp: quiet_step_def r IsDisabled_find hook_calls_def)
  next
    case False
    then have "pending name (finishEvent name' run d) = pending name d" by (simp add: pending_def r delete_conv')
    then show ?thesis using False b names find by (auto simp: quiet_step_def r IsDisabled_find hook_calls_def intro: exI [of _ 0])
  qed
qed (use d in \<open>auto simp: finishEvent_def intro: quiet_step_same\<close>)

lemma disp_step_quiet:
  "disp_step d d' \<Longrightarrow> IsDisabled name d \<Longrightarrow> distinct (map bh_name (dp_hooks d)) \<Longrightarrow> quiet_step name d d'"
proof (induction rule: disp_step.induct)
  case (ds_take d name')
  then show ?case
    by (intro quiet_step_same) (auto simp: takeEvent_def pending_def update_conv' split: option.split list.split)
next
  case (ds_start d)
  then show ?case
    by (intro quiet_step_same) (auto simp: Start_def start_under_def pending_def start_lookup split: option.split)
qed (simp_all add: runFanIn_quiet finishEvent_quiet, auto intro!: quiet_step_same simp: Publish_def Stop_def cancelContext_def exitFanIn_def exitHook_def pending_def)

lemma disp_steps_quiet:
  assumes "disp_step\<^sup>*\<^sup>* d d'" "IsDisabled name d" "distinct (map bh_name (dp_hooks d))"
  shows "quiet_step name d d'"
  using assms(1)
proof (induction rule: rtranclp_induct)
  case base
  then show ?case using assms(2) by (simp add: quiet_step_same)
next
  case (step y z)
  have "map hk_Name (map bh_hook (dp_hooks y)) = map hk_Name (map bh_hook (dp_hooks d))"
    using step.IH unfolding quiet_step_def by simp
  then have "distinct (map bh_name (dp_hooks y))" using assms(3) by (simp add: comp_def)
  moreover have "IsDisabled name y" using step.IH by (simp add: quiet_step_def)
  ultimately have "quiet_step name y z" using disp_step_quiet [OF step.hyps(2)] by simp
  then show ?case using step.IH quiet_step_trans by blast
qed

text \<open>A hook that was disabled stays disabled until a reload, and no new event reaches its action:
  whatever steps follow, the number of runs that are still counted for it is at most the number of
  events that were already in its channel or being executed when it was disabled. (In the code one more
  event may be on its way: the one for which the fan-in loop has looked at the flag and not yet sent.)
\<close>

theorem disabled_hook_quiet:
  assumes "IsDisabled name d" "distinct (map bh_name (dp_hooks d))" "disp_step\<^sup>*\<^sup>* d d'"
  shows "IsDisabled name d' \<and> (\<exists>k. hook_calls name d' = hook_calls name d + of_nat k \<and> k + pending name d' \<le> pending name d)"
  using disp_steps_quiet [OF assms(3,1,2)] by (simp add: quiet_step_def)

section \<open>A run of a command hook\<close>

definition demo_hook :: Hook where
  "demo_hook = \<lparr>hk_Name = ''page'', hk_Enabled = None, hk_Events = [''task_failed''], hk_Match = None, hk_Timeout = 0,
     hk_RawTimeout = DurBlank, hk_Action = \<lparr>act_Type = ''command'', act_URL = [], act_Headers = [], act_Method = [],
       act_Cmd = [''/bin/page''], act_Cwd = []\<rparr>\<rparr>"

definition demo_hooks :: hooks_config where
  "demo_hooks = \<lparr>hc_SchemaVersion = 1, hc_Hooks = [demo_hook]\<rparr>"

definition demo_hook_event :: hook_event where
  "demo_hook_event = \<lparr>he_Type = ''task_failed'', he_Repo = ''o/r'', he_IssueNum = 3, he_Payload = RawJSON ''{}'', he_Timestamp = 1\<rparr>"

definition demo_failure :: action_run where
  "demo_failure = \<lparr>ar_start = 10, ar_finish = 20, ar_stdout = [], ar_stderr = ''no'', ar_err = Some ''exit status 1''\<rparr>"

definition demo_dispatcher :: Dispatcher where
  "demo_dispatcher = (case NewDispatcher (\<lambda>_. None) (Some []) (Some demo_hooks) of Inr (d, ws) \<Rightarrow> d | Inl _ \<Rightarrow> undefined)"

definition demo_round :: "Dispatcher \<Rightarrow> Dispatcher" where
  "demo_round d = finishEvent ''page'' demo_failure (takeEvent ''page'' (runFanIn 5 (Publish demo_hook_event d)))"

lemma demo_round_steps: "disp_step\<^sup>*\<^sup>* d (demo_round d)"
  unfolding demo_round_def
  by (meson ds_publish ds_fan ds_take ds_finish rtranclp.rtrancl_into_rtrancl rtranclp.rtrancl_refl)

lemma disp_steps_reload: "disp_step\<^sup>*\<^sup>* d d' \<Longrightarrow> reload_step\<^sup>*\<^sup>* d d'"
  by (induction rule: rtranclp_induct) (auto intro: rs_step rtranclp.rtrancl_into_rtrancl)

theorem dispatcher_bounded_witness:
  "let d = demo_round (Start demo_dispatcher)
   in hook_calls ''page'' d = 1 \<and> (\<forall>b\<in>set (dp_hooks d). bh_disabled b \<or> bh_failures b < 5) \<and> length (dp_in d) \<le> 1024"
proof -
  have n: "NewDispatcher (\<lambda>_. None) (Some []) (Some demo_hooks) = Inr (demo_dispatcher, [])" by code_simp
  have "disp_step\<^sup>*\<^sup>* demo_dispatcher (demo_round (Start demo_dispatcher))"
    by (meson demo_round_steps ds_start converse_rtranclp_into_rtranclp)
  then have "reload_step\<^sup>*\<^sup>* demo_dispatcher (demo_round (Start demo_dispatcher))" by (rule disp_steps_reload)
  moreover have "hook_calls ''page'' (demo_round (Start demo_dispatcher)) = 1" by code_simp
  ultimately show ?thesis using dispatcher_bounded [OF n] by (simp add: Let_def)
qed

definition demo_failing :: Dispatcher where
  "demo_failing = (let d = Start demo_dispatcher in d\<lparr>dp_hooks := map (\<lambda>b. b\<lparr>bh_failures := 4, bh_failureCount := 4\<rparr>) (dp_hooks d)\<rparr>)"

theorem disabled_hook_quiet_witness:
  "let d = demo_round demo_failing
   in IsDisabled ''page'' d \<and> hook_calls ''page'' d = 5 \<and> pending ''page'' d = 0 \<and> hook_calls ''page'' (demo_round d) = 5"
proof -
  let ?d = "demo_round demo_failing"
  have "IsDisabled ''page'' ?d \<and> distinct (map bh_name (dp_hooks ?d)) \<and> hook_calls ''page'' ?d = 5 \<and> pending ''page'' ?d = 0"
    by code_simp
  then have dis: "IsDisabled ''page'' ?d" "distinct (map bh_name (dp_hooks ?d))" "hook_calls ''page'' ?d = 5" "pending ''page'' ?d = 0"
    by blast+
  then obtain k where "hook_calls ''page'' (demo_round ?d) = hook_calls ''page'' ?d + of_nat k" "k + pending ''page'' (demo_round ?d) \<le> 0"
    using disabled_hook_quiet [OF dis(1,2) demo_round_steps] by auto
  then show ?thesis using dis by (simp add: Let_def)
qed

end
