(* ===== verification/Worker_Lock.thy ===== *)
theory Worker_Lock
  imports SM_Types
begin

text \<open>
  The per-issue locks of the worker's executor (\<^verbatim>\<open>issueTaskLocks\<close> in \<^verbatim>\<open>internal/worker/executor.go\<close>).

  Lock objects live in a heap and are addressed by their position; the table maps an issue to the
  object in use. \<^verbatim>\<open>Acquire\<close> and \<^verbatim>\<open>Release\<close> are two steps each: the section under the table's
  mutex, and the operation on the mutex of the object. \<open>lo_pc\<close> says how far each goroutine is.
\<close>

section \<open>Operations\<close>

record issueTaskLock =
  lk_key :: string
  lk_refs :: int
  lk_holder :: "nat option"

datatype lock_pc = Idle | Waiting nat | Holding nat | Leaving nat

record issueTaskLocks =
  lo_locks :: "(string \<times> nat) list"
  lo_heap :: "issueTaskLock list"
  lo_pc :: "nat \<Rightarrow> lock_pc"

definition no_locks :: issueTaskLocks where
  "no_locks = \<lparr>lo_locks = [], lo_heap = [], lo_pc = (\<lambda>_. Idle)\<rparr>"

definition lock_key :: "string \<Rightarrow> int \<Rightarrow> string" where
  "lock_key repo issue = repo @ ''#'' @ itoa issue"

definition acquireRef :: "nat \<Rightarrow> string \<Rightarrow> int \<Rightarrow> issueTaskLocks \<Rightarrow> issueTaskLocks" where
  "acquireRef g repo issue s =
     (let key = lock_key repo issue
      in case map_of (lo_locks s) key of
           Some a \<Rightarrow>
             s\<lparr>lo_heap := (lo_heap s)[a := (lo_heap s ! a)\<lparr>lk_refs := lk_refs (lo_heap s ! a) + 1\<rparr>], lo_pc := (lo_pc s)(g := Waiting a)\<rparr>
         | None \<Rightarrow>
             s\<lparr>lo_locks := AList.update key (length (lo_heap s)) (lo_locks s),
               lo_heap := lo_heap s @ [\<lparr>lk_key = key, lk_refs = 1, lk_holder = None\<rparr>],
               lo_pc := (lo_pc s)(g := Waiting (length (lo_heap s)))\<rparr>)"

definition lockMutex :: "nat \<Rightarrow> nat \<Rightarrow> issueTaskLocks \<Rightarrow> issueTaskLocks" where
  "lockMutex g a s = s\<lparr>lo_heap := (lo_heap s)[a := (lo_heap s ! a)\<lparr>lk_holder := Some g\<rparr>], lo_pc := (lo_pc s)(g := Holding a)\<rparr>"

definition unlockMutex :: "nat \<Rightarrow> nat \<Rightarrow> issueTaskLocks \<Rightarrow> issueTaskLocks" where
  "unlockMutex g a s = s\<lparr>lo_heap := (lo_heap s)[a := (lo_heap s ! a)\<lparr>lk_holder := None\<rparr>], lo_pc := (lo_pc s)(g := Leaving a)\<rparr>"

definition dropRef :: "nat \<Rightarrow> nat \<Rightarrow> issueTaskLocks \<Rightarrow> issueTaskLocks" where
  "dropRef g a s =
     (let l = (lo_heap s ! a)\<lparr>lk_refs := lk_refs (lo_heap s ! a) - 1\<rparr>;
          s1 = s\<lparr>lo_heap := (lo_heap s)[a := l], lo_pc := (lo_pc s)(g := Idle)\<rparr>
      in if lk_refs l = 0 \<and> map_of (lo_locks s) (lk_key l) = Some a
         then s1\<lparr>lo_locks := AList.delete (lk_key l) (lo_locks s)\<rparr> else s1)"

inductive lock_step :: "issueTaskLocks \<Rightarrow> issueTaskLocks \<Rightarrow> bool" where
  ls_acquire: "lo_pc s g = Idle \<Longrightarrow> lock_step s (acquireRef g repo issue s)"
| ls_lock: "lo_pc s g = Waiting a \<Longrightarrow> lk_holder (lo_heap s ! a) = None \<Longrightarrow> lock_step s (lockMutex g a s)"
| ls_unlock: "lo_pc s g = Holding a \<Longrightarrow> lock_step s (unlockMutex g a s)"
| ls_drop: "lo_pc s g = Leaving a \<Longrightarrow> lock_step s (dropRef g a s)"

inductive_cases lock_stepE: "lock_step s s'"

section \<open>Invariant\<close>

fun pc_addr :: "lock_pc \<Rightarrow> nat option" where
  "pc_addr Idle = None"
| "pc_addr (Waiting a) = Some a"
| "pc_addr (Holding a) = Some a"
| "pc_addr (Leaving a) = Some a"

definition users :: "issueTaskLocks \<Rightarrow> nat \<Rightarrow> nat set" where
  "users s a = {g. pc_addr (lo_pc s g) = Some a}"

definition cell_ok :: "issueTaskLocks \<Rightarrow> nat \<Rightarrow> bool" where
  "cell_ok s a \<longleftrightarrow> finite (users s a) \<and> lk_refs (lo_heap s ! a) = int (card (users s a)) \<and>
     (\<forall>g. lk_holder (lo_heap s ! a) = Some g \<longleftrightarrow> lo_pc s g = Holding a) \<and>
     (users s a \<noteq> {} \<longrightarrow> map_of (lo_locks s) (lk_key (lo_heap s ! a)) = Some a)"

definition table_ok :: "issueTaskLocks \<Rightarrow> bool" where
  "table_ok s \<longleftrightarrow> (\<forall>key a. map_of (lo_locks s) key = Some a \<longrightarrow> a < length (lo_heap s) \<and> lk_key (lo_heap s ! a) = key \<and> users s a \<noteq> {})"

definition locks_ok :: "issueTaskLocks \<Rightarrow> bool" where
  "locks_ok s \<longleftrightarrow> (\<forall>g a. pc_addr (lo_pc s g) = Some a \<longrightarrow> a < length (lo_heap s)) \<and> (\<forall>a < length (lo_heap s). cell_ok s a) \<and> table_ok s"

lemma locks_okD:
  assumes "locks_ok s"
  shows "pc_addr (lo_pc s g) = Some a \<Longrightarrow> a < length (lo_heap s)"
    and "a < length (lo_heap s) \<Longrightarrow> cell_ok s a"
    and "map_of (lo_locks s) key = Some a \<Longrightarrow> a < length (lo_heap s) \<and> lk_key (lo_heap s ! a) = key \<and> users s a \<noteq> {}"
  using assms unfolding locks_ok_def table_ok_def by auto

lemma users_moved:
  assumes "lo_pc s' = (lo_pc s)(g := p)"
  shows "users s' a = (if pc_addr p = Some a then insert g (users s a) else users s a - {g})"
  using assms by (auto simp: users_def)

text \<open>A step that only changes the cell of one lock: it keeps the invariant when that cell stays in order.\<close>

lemma cell_step:
  assumes ok: "locks_ok s" and a: "a < length (lo_heap s)"
    and s': "lo_heap s' = (lo_heap s)[a := l]" "lo_pc s' = (lo_pc s)(g := p)" "lo_locks s' = lo_locks s" "lk_key l = lk_key (lo_heap s ! a)"
    and pcs: "pc_addr (lo_pc s g) = Some a" "pc_addr p = Some a" and cell: "cell_ok s' a"
  shows "locks_ok s'"
proof -
  have u: "users s' b = users s b" for b using s'(2) pcs by (auto simp: users_def)
  have hold: "lo_pc s' h = Holding b \<longleftrightarrow> lo_pc s h = Holding b" if "b \<noteq> a" for h b using s'(2) pcs that by auto
  have other: "cell_ok s' b" if "b < length (lo_heap s)" "b \<noteq> a" for b
    using locks_okD(2) [OF ok that(1)] that(2) unfolding cell_ok_def u hold [OF that(2)] s'(1,3) by simp
  have "table_ok s'" using ok s' a unfolding locks_ok_def table_ok_def u by (auto simp: nth_list_update)
  moreover have "b < length (lo_heap s')" if "pc_addr (lo_pc s' h) = Some b" for h b
    using that locks_okD(1) [OF ok, of h b] pcs a unfolding s'(1,2) by (auto split: if_splits)
  moreover have "cell_ok s' b" if "b < length (lo_heap s')" for b using that other cell unfolding s'(1) by (cases "b = a") simp_all
  ultimately show ?thesis unfolding locks_ok_def by blast
qed

lemma lockMutex_ok:
  assumes ok: "locks_ok s" and pc: "lo_pc s g = Waiting a" and free: "lk_holder (lo_heap s ! a) = None"
  shows "locks_ok (lockMutex g a s)"
proof (rule cell_step [OF ok, where g = g and p = "Holding a" and l = "(lo_heap s ! a)\<lparr>lk_holder := Some g\<rparr>"])
  show a: "a < length (lo_heap s)" using locks_okD(1) [OF ok, of g a] pc by simp
  have u: "users (lockMutex g a s) b = users s b" for b using pc by (auto simp: lockMutex_def users_def)
  have "\<forall>h. lo_pc s h \<noteq> Holding a" using locks_okD(2) [OF ok a] free by (auto simp: cell_ok_def)
  then show "cell_ok (lockMutex g a s) a" using locks_okD(2) [OF ok a] a unfolding cell_ok_def u by (simp add: lockMutex_def)
qed (use pc in \<open>simp_all add: lockMutex_def\<close>)

lemma unlockMutex_ok:
  assumes ok: "locks_ok s" and pc: "lo_pc s g = Holding a"
  shows "locks_ok (unlockMutex g a s)"
proof (rule cell_step [OF ok, where g = g and p = "Leaving a" and l = "(lo_heap s ! a)\<lparr>lk_holder := None\<rparr>"])
  show a: "a < length (lo_heap s)" using locks_okD(1) [OF ok, of g a] pc by simp
  have u: "users (unlockMutex g a s) b = users s b" for b using pc by (auto simp: unlockMutex_def users_def)
  have "\<forall>h. lo_pc s h = Holding a \<longrightarrow> h = g"
    using locks_okD(2) [OF ok a] pc unfolding cell_ok_def by (metis option.inject)
  then show "cell_ok (unlockMutex g a s) a" using locks_okD(2) [OF ok a] a unfolding cell_ok_def u by (auto simp: unlockMutex_def)
qed (use pc in \<open>simp_all add: unlockMutex_def\<close>)

lemma acquireRef_ok:
  assumes ok: "locks_ok s" and pc: "lo_pc s g = Idle"
  shows "locks_ok (acquireRef g repo issue s)"
proof (cases "map_of (lo_locks s) (lock_key repo issue)")
  case (Some a)
  define s' where "s' = acquireRef g repo issue s"
  have s': "lo_heap s' = (lo_heap s)[a := (lo_heap s ! a)\<lparr>lk_refs := lk_refs (lo_heap s ! a) + 1\<rparr>]"
    "lo_pc s' = (lo_pc s)(g := Waiting a)" "lo_locks s' = lo_locks s"
    by (simp_all add: s'_def acquireRef_def Some)
  have a: "a < length (lo_heap s)" "lk_key (lo_heap s ! a) = lock_key repo issue" using locks_okD(3) [OF ok Some] by simp_all
  have new: "g \<notin> users s b" for b using pc by (simp add: users_def)
  have u: "users s' b = (if b = a then insert g (users s a) else users s b)" for b
    using users_moved [OF s'(2), of b] new by auto
  have hold: "lo_pc s' h = Holding b \<longleftrightarrow> lo_pc s h = Holding b" for h b using s'(2) pc by auto
  have "cell_ok s' b" if b: "b < length (lo_heap s)" for b
    using locks_okD(2) [OF ok b] a Some new unfolding cell_ok_def u hold s'(1,3) by (cases "b = a") simp_all
  moreover have "table_ok s'" using ok s' a unfolding locks_ok_def table_ok_def u by (auto simp: nth_list_update)
  ultimately show ?thesis using ok a s' unfolding locks_ok_def s'_def [symmetric] by (auto split: if_splits)
next
  case None
  define s' where "s' = acquireRef g repo issue s"
  let ?n = "length (lo_heap s)"
  have s': "lo_heap s' = lo_heap s @ [\<lparr>lk_key = lock_key repo issue, lk_refs = 1, lk_holder = None\<rparr>]"
    "lo_pc s' = (lo_pc s)(g := Waiting ?n)" "lo_locks s' = AList.update (lock_key repo issue) ?n (lo_locks s)"
    by (simp_all add: s'_def acquireRef_def None Let_def)
  have new: "g \<notin> users s b" for b using pc by (simp add: users_def)
  have none: "pc_addr (lo_pc s h) \<noteq> Some ?n" for h using locks_okD(1) [OF ok, of h ?n] by blast
  have free: "lo_pc s h \<noteq> Holding ?n" for h using none [of h] by auto
  have "users s ?n = {}" using none by (simp add: users_def)
  then have u: "users s' b = (if b = ?n then {g} else users s b)" for b
    using users_moved [OF s'(2), of b] new by auto
  have "cell_ok s' b" if b: "b < ?n" for b
    using locks_okD(2) [OF ok b] s' pc None b unfolding cell_ok_def u by (auto simp: nth_append update_conv')
  moreover have "cell_ok s' ?n" using s' free unfolding cell_ok_def u by (auto simp: update_conv')
  moreover have "table_ok s'"
    using ok s' unfolding locks_ok_def table_ok_def u by (auto simp: nth_append update_conv' less_SucI split: if_splits)
  ultimately show ?thesis using ok s' unfolding locks_ok_def s'_def [symmetric] by (auto simp: less_Suc_eq split: if_splits)
qed

lemma dropRef_ok:
  assumes ok: "locks_ok s" and pc: "lo_pc s g = Leaving a"
  shows "locks_ok (dropRef g a s)"
proof -
  define s' where "s' = dropRef g a s"
  let ?key = "lk_key (lo_heap s ! a)"
  have a: "a < length (lo_heap s)" using locks_okD(1) [OF ok, of g a] pc by simp
  have g: "g \<in> users s a" using pc by (simp add: users_def)
  have key: "map_of (lo_locks s) ?key = Some a" and fin: "finite (users s a)"
    and refs: "lk_refs (lo_heap s ! a) = int (card (users s a))"
    using locks_okD(2) [OF ok a] g by (auto simp: cell_ok_def)
  have empty: "lk_refs (lo_heap s ! a) - 1 = 0 \<longleftrightarrow> users s a - {g} = {}"
    using refs g fin card_Diff_singleton [OF g] card_0_eq [of "users s a - {g}"] card_gt_0_iff [of "users s a"] by auto
  have s': "lo_heap s' = (lo_heap s)[a := (lo_heap s ! a)\<lparr>lk_refs := lk_refs (lo_heap s ! a) - 1\<rparr>]"
    "lo_pc s' = (lo_pc s)(g := Idle)"
    "lo_locks s' = (if users s a - {g} = {} then AList.delete ?key (lo_locks s) else lo_locks s)"
    using key empty by (auto simp: s'_def dropRef_def Let_def)
  have u: "users s' b = (if b = a then users s a - {g} else users s b)" for b
    using users_moved [OF s'(2), of b] pc by (auto simp: users_def)
  have keys: "lk_key (lo_heap s ! b) \<noteq> ?key" if "b < length (lo_heap s)" "b \<noteq> a" "users s b \<noteq> {}" for b
    using locks_okD(2) [OF ok that(1)] that key by (auto simp: cell_ok_def)
  have "cell_ok s' b" if b: "b < length (lo_heap s)" for b
  proof (cases "b = a")
    case True
    have "card (users s a - {g}) + 1 = card (users s a)" using card_Suc_Diff1 [OF fin g] by simp
    then show ?thesis using locks_okD(2) [OF ok a] a s' pc True unfolding cell_ok_def u by auto
  next
    case False
    then show ?thesis using locks_okD(2) [OF ok b] keys [OF b False] s' pc unfolding cell_ok_def u by (auto simp: delete_conv')
  qed
  moreover have "table_ok s'"
    using ok s' a unfolding locks_ok_def table_ok_def u by (auto simp: nth_list_update delete_conv' split: if_splits)
  ultimately show ?thesis using ok s' unfolding locks_ok_def s'_def [symmetric] by (auto split: if_splits)
qed

lemma lock_steps_ok: "lock_step\<^sup>*\<^sup>* no_locks s \<Longrightarrow> locks_ok s"
proof (induction rule: rtranclp_induct)
  case base
  show ?case by (simp add: locks_ok_def table_ok_def no_locks_def)
next
  case (step s s')
  from step.hyps(2) step.IH show ?case
    by (auto elim!: lock_stepE intro: acquireRef_ok lockMutex_ok unlockMutex_ok dropRef_ok)
qed

section \<open>Properties\<close>

definition executing :: "issueTaskLocks \<Rightarrow> nat \<Rightarrow> string \<Rightarrow> bool" where
  "executing s g key \<longleftrightarrow> (\<exists>a. lo_pc s g = Holding a \<and> a < length (lo_heap s) \<and> lk_key (lo_heap s ! a) = key)"

text \<open>C7. At most one goroutine of a worker executes a task of an issue at a time, however
  acquisitions and releases interleave and although lock objects are created and discarded on
  demand: two goroutines that hold the lock of the same repository and issue number are the same.
  No lock object leaks: when every goroutine has left, the table is empty.\<close>

theorem issue_lock_exclusive:
  assumes "lock_step\<^sup>*\<^sup>* no_locks s"
  shows "(executing s g (lock_key repo issue) \<longrightarrow> executing s h (lock_key repo issue) \<longrightarrow> g = h) \<and>
    ((\<forall>g. lo_pc s g = Idle) \<longrightarrow> lo_locks s = [])"
proof (intro conjI impI)
  have ok: "locks_ok s" using assms by (rule lock_steps_ok)
  have holder: "map_of (lo_locks s) key = Some a \<and> lk_holder (lo_heap s ! a) = Some f"
    if "lo_pc s f = Holding a" "a < length (lo_heap s)" "lk_key (lo_heap s ! a) = key" for f a key
  proof -
    have "f \<in> users s a" using that(1) by (simp add: users_def)
    then show ?thesis using locks_okD(2) [OF ok that(2)] that by (auto simp: cell_ok_def)
  qed
  assume "executing s g (lock_key repo issue)" "executing s h (lock_key repo issue)"
  then show "g = h" unfolding executing_def using holder by (metis option.inject)
next
  have ok: "locks_ok s" using assms by (rule lock_steps_ok)
  assume "\<forall>g. lo_pc s g = Idle"
  then have "users s a = {}" for a by (simp add: users_def)
  then have "map_of (lo_locks s) key = None" for key using locks_okD(3) [OF ok, of key] by (cases "map_of (lo_locks s) key") auto
  then show "lo_locks s = []" by (cases "lo_locks s") (auto split: if_splits, metis option.distinct(1))
qed

definition demo_locked :: issueTaskLocks where
  "demo_locked = acquireRef 2 ''o/r'' 7 (lockMutex 1 0 (acquireRef 1 ''o/r'' 7 no_locks))"

theorem issue_lock_exclusive_witness:
  "executing demo_locked 1 (lock_key ''o/r'' 7) \<and> \<not> executing demo_locked 2 (lock_key ''o/r'' 7) \<and> lo_locks demo_locked \<noteq> []"
proof -
  have steps: "lock_step no_locks (acquireRef 1 ''o/r'' 7 no_locks)"
    "lock_step (acquireRef 1 ''o/r'' 7 no_locks) (lockMutex 1 0 (acquireRef 1 ''o/r'' 7 no_locks))"
    "lock_step (lockMutex 1 0 (acquireRef 1 ''o/r'' 7 no_locks)) demo_locked"
    unfolding demo_locked_def by (rule ls_acquire, code_simp, rule ls_lock, code_simp, code_simp, rule ls_acquire, code_simp)
  then have run: "lock_step\<^sup>*\<^sup>* no_locks demo_locked" by (meson converse_rtranclp_into_rtranclp rtranclp.rtrancl_refl)
  have "lo_pc demo_locked 1 = Holding 0" "length (lo_heap demo_locked) = 1" "lk_key (lo_heap demo_locked ! 0) = lock_key ''o/r'' 7"
    "lo_locks demo_locked \<noteq> []" by code_simp+
  then have "executing demo_locked 1 (lock_key ''o/r'' 7)" by (simp add: executing_def)
  then show ?thesis using issue_lock_exclusive [OF run, of 1 "''o/r''" 7 2] \<open>lo_locks demo_locked \<noteq> []\<close> by auto
qed

end
