(* ===== verification/Worker_Exec.thy ===== *)
theory Worker_Exec
  imports Worker_Lock Agent_Config
begin

text \<open>
  The execution of one task on a worker (\<^verbatim>\<open>internal/worker/executor.go\<close>, \<^verbatim>\<open>task.go\<close>,
  \<^verbatim>\<open>reporting_helpers.go\<close>) with the launcher that starts its session (\<^verbatim>\<open>Registry.Start\<close> of
  \<^verbatim>\<open>internal/runtime/registry.go\<close>), which opens the managed session the execution has to close.

  What happens outside is one record \<open>exec_env\<close>: the answers of the workspace manager, the
  session manager and the runtimes behind the launcher, the session, the event stream and the issue reader. An agent is always given,
  as every caller does. \<open>Execute\<close> returns the execution
  and the effects in the order they happen, deferred calls included. Errors are their texts.
  Tracing, the lifecycle context and fields of a result no code of these files reads are left out.
\<close>

section \<open>Results and executions\<close>

text \<open>The outcome of a run; standard output, duration, last message and token usage are only copied into
  reports and are left out.\<close>

record agent_result =
  ag_ExitCode :: int
  ag_Stderr :: string
  ag_Meta :: "(string \<times> string) list"
  ag_SessionPath :: string
  ag_RawSessionPath :: string
  ag_Synthesis :: "SynthesisDecision option"

definition MetaInfraFailure :: string where "MetaInfraFailure = ''infra_failure''"
definition MetaInfraFailureReason :: string where "MetaInfraFailureReason = ''infra_failure_reason''"

text \<open>Go's reading of a string map: a missing key gives the empty string.\<close>

definition meta :: "agent_result \<Rightarrow> string \<Rightarrow> string" where
  "meta r k = (case map_of (ag_Meta r) k of None \<Rightarrow> [] | Some v \<Rightarrow> v)"

definition IsInfraFailure :: "agent_result option \<Rightarrow> bool" where
  "IsInfraFailure result = (case result of None \<Rightarrow> False | Some r \<Rightarrow> meta r MetaInfraFailure = ''true'')"

definition infraFailureResult :: "string \<Rightarrow> string option \<Rightarrow> agent_result" where
  "infraFailureResult reason err =
     \<lparr>ag_ExitCode = -1, ag_Stderr = (case err of None \<Rightarrow> [] | Some e \<Rightarrow> e),
      ag_Meta = [(MetaInfraFailure, ''true''), (MetaInfraFailureReason, reason)], ag_SessionPath = [], ag_RawSessionPath = [],
      ag_Synthesis = None\<rparr>"

definition executionStatus :: "agent_result option \<Rightarrow> string option \<Rightarrow> string" where
  "executionStatus result runErr =
     (if (case result of None \<Rightarrow> False | Some r \<Rightarrow> meta r ''timeout'' = ''true'') then TaskStatusTimeout
      else if runErr \<noteq> None \<or> (case result of None \<Rightarrow> False | Some r \<Rightarrow> ag_ExitCode r \<noteq> 0) then TaskStatusFailed
      else TaskStatusCompleted)"

text \<open>The context of a task; the title and comments of the issue and the related pull requests, which only
  the prompt templates read, are left out.\<close>

record PRSummary =
  ps_Number :: int
  ps_State :: string
  ps_Title :: string
  ps_HeadRefName :: string
  ps_BaseRefName :: string
  ps_HeadSHA :: string
  ps_URL :: string
  ps_IsDraft :: bool

record SynthesisCandidate =
  sc_TaskID :: string
  sc_RolloutIndex :: int
  sc_PullRequest :: PRSummary
  sc_SessionSummary :: string
  sc_SessionURL :: string
  sc_Diff :: string

record SynthesisContext =
  sy_SourceState :: string
  sy_MinSuccesses :: int
  sy_Candidates :: "SynthesisCandidate list"

record RolloutContext =
  rc_Index :: int
  rc_Total :: int
  rc_GroupID :: string

record stateMetadata =
  sd_EnterLabel :: string
  sd_Transitions :: "(string \<times> string) list"

record task_context =
  cx_IssueNum :: int
  cx_Body :: string
  cx_Labels :: "string list"
  cx_Repo :: string
  cx_RepoRoot :: string
  cx_WorkDir :: string
  cx_SessionID :: string
  cx_TaskID :: string
  cx_WorkerID :: string
  cx_Attempt :: int
  cx_PreLabels :: "string list"
  cx_PostLabels :: "string list"
  cx_Managed :: bool
  cx_Rollout :: RolloutContext
  cx_Synthesis :: "SynthesisContext option"
  cx_stateName :: string
  cx_state :: "stateMetadata option"
  cx_stateMode :: string

definition empty_context :: task_context where
  "empty_context = \<lparr>cx_IssueNum = 0, cx_Body = [], cx_Labels = [], cx_Repo = [], cx_RepoRoot = [], cx_WorkDir = [], cx_SessionID = [],
     cx_TaskID = [], cx_WorkerID = [], cx_Attempt = 0, cx_PreLabels = [], cx_PostLabels = [], cx_Managed = False,
     cx_Rollout = \<lparr>rc_Index = 0, rc_Total = 0, rc_GroupID = []\<rparr>, cx_Synthesis = None, cx_stateName = [], cx_state = None, cx_stateMode = []\<rparr>"

definition SetWorkflowState :: "string \<Rightarrow> string \<Rightarrow> (string \<times> string) list \<Rightarrow> task_context \<Rightarrow> task_context" where
  "SetWorkflowState name enterLabel transitions cx =
     cx\<lparr>cx_stateName := name, cx_state := (if name = [] \<and> enterLabel = [] \<and> transitions = [] then None
       else Some \<lparr>sd_EnterLabel = enterLabel, sd_Transitions = transitions\<rparr>)\<rparr>"

definition SetWorkflowStateMode :: "string \<Rightarrow> task_context \<Rightarrow> task_context" where
  "SetWorkflowStateMode mode cx = cx\<lparr>cx_stateMode := mode\<rparr>"

record exec_task =
  xk_TaskID :: string
  xk_Repo :: string
  xk_IssueNum :: int
  xk_AgentName :: string
  xk_Agent :: AgentConfig
  xk_Workflow :: string
  xk_State :: string
  xk_RolloutIndex :: int
  xk_RolloutsTotal :: int
  xk_RolloutGroupID :: string
  xk_WorkerID :: string
  xk_Attempt :: int
  xk_Context :: "task_context option"
  xk_Cleanup :: bool
  xk_Workspace :: bool
  xk_OnPrepared :: bool

record Execution =
  xn_Context :: task_context
  xn_Result :: "agent_result option"
  xn_RunErr :: "string option"
  xn_StartedAt :: "time option"
  xn_CompletedAt :: time
  xn_PreLabels :: "string list"
  xn_PostLabels :: "string list"
  xn_CompletionLabels :: "string list"
  xn_PreErr :: "string option"
  xn_PostErr :: "string option"
  xn_EventErr :: "string option"
  xn_FailureSource :: string

definition ExitCode :: "Execution \<Rightarrow> int" where
  "ExitCode e = (case xn_Result e of None \<Rightarrow> -1 | Some r \<Rightarrow> ag_ExitCode r)"

definition Execution_Status :: "Execution \<Rightarrow> string" where
  "Execution_Status e =
     (if (case xn_Result e of None \<Rightarrow> False | Some r \<Rightarrow> meta r ''timeout'' = ''true'') then ''timeout''
      else if xn_RunErr e \<noteq> None \<or> ExitCode e \<noteq> 0 then ''failed'' else ''completed'')"

definition InfraFailure :: "Execution \<Rightarrow> bool" where
  "InfraFailure e = IsInfraFailure (xn_Result e)"

definition InfraReason :: "Execution \<Rightarrow> string" where
  "InfraReason e = (case xn_Result e of None \<Rightarrow> [] | Some r \<Rightarrow> meta r MetaInfraFailureReason)"

section \<open>Execute\<close>

text \<open>\<open>xe_starter\<close>: the error, if any, of a session starter that takes the task; \<open>xe_manager\<close>: the error, if any, of opening a session
  with the session manager, \<open>None\<close> without a manager; \<open>xe_start_err\<close>: that of the runtime's own \<^verbatim>\<open>Start\<close>.\<close>

record exec_env =
  xe_uuid :: string
  xe_create :: "string + string"
  xe_starter :: "string option option"
  xe_manager :: "string option option"
  xe_runtimes :: "string list"
  xe_start_err :: "string option"
  xe_reader :: bool
  xe_pre :: "string + string list"
  xe_run :: "agent_result option \<times> string option"
  xe_events :: "string \<times> string option"
  xe_post :: "string + string list"
  xe_startedAt :: time
  xe_completedAt :: time

datatype exec_effect =
    FxLock string | FxCreate string | FxPrepared | FxOpen string | FxStart | FxRun
  | FxSessionClose | FxRemove string | FxCleanup | FxFinalize string | FxUnlock string

definition generateSessionID :: "string \<Rightarrow> string \<Rightarrow> string" where
  "generateSessionID uuid taskID = ''session-'' @ taskID @ ''-'' @ take 8 uuid"

definition snapshotIssueLabels :: "bool \<Rightarrow> string + string list \<Rightarrow> string + string list" where
  "snapshotIssueLabels reader answer = (if reader then answer else Inl ''no issue label reader configured'')"

definition closeManagedSession :: "task_context \<Rightarrow> string \<Rightarrow> exec_effect list" where
  "closeManagedSession cx status = (if cx_Managed cx then [FxFinalize (if status = [] then TaskStatusCompleted else status)] else [])"

definition SetSessionHandle :: "task_context \<Rightarrow> task_context" where
  "SetSessionHandle cx = cx\<lparr>cx_Managed := True\<rparr>"

definition supportedRuntimes :: "string list \<Rightarrow> string" where
  "supportedRuntimes rts = join_with '', '' (sort (remdups rts))"

definition runtimeName :: "AgentConfig \<Rightarrow> string" where
  "runtimeName agent = (if ac_Runtime agent = [] then RuntimeClaudeCode else ac_Runtime agent)"

text \<open>\<^verbatim>\<open>Registry.Start\<close>: the context it leaves, its error, and what it did. The session's handle is set before the runtime is
  looked for, so that it is there to be closed when the start fails.\<close>

definition Registry_Start :: "exec_env \<Rightarrow> AgentConfig \<Rightarrow> task_context \<Rightarrow> task_context \<times> string option \<times> exec_effect list" where
  "Registry_Start env agent cx =
     (let rt = runtimeName agent;
          launch = (\<lambda>cx. if rt \<notin> set (xe_runtimes env)
             then (cx, Some (''runtime: unsupported runtime: '' @ rt @ '', supported: '' @ supportedRuntimes (xe_runtimes env)), [])
             else (cx, xe_start_err env, [FxStart]))
      in case xe_starter env of
           Some err \<Rightarrow> (cx, err, [FxStart])
         | None \<Rightarrow>
            if xe_manager env \<noteq> None \<and> \<not> cx_Managed cx
            then case the (xe_manager env) of
                   Some err \<Rightarrow> (cx, Some err, [])
                 | None \<Rightarrow> (case launch (SetSessionHandle cx) of (cx1, err, fx) \<Rightarrow> (cx1, err, FxOpen (cx_SessionID cx) # fx))
            else launch cx)"

definition prepareContext :: "exec_env \<Rightarrow> exec_task \<Rightarrow> task_context" where
  "prepareContext env task =
     (let cx = (case xk_Context task of None \<Rightarrow> empty_context | Some cx \<Rightarrow> cx)
      in cx\<lparr>cx_SessionID := (if cx_SessionID cx = [] \<and> xk_TaskID task \<noteq> [] then generateSessionID (xe_uuid env) (xk_TaskID task) else cx_SessionID cx),
            cx_Repo := xk_Repo task, cx_IssueNum := xk_IssueNum task, cx_TaskID := xk_TaskID task,
            cx_WorkerID := xk_WorkerID task, cx_Attempt := xk_Attempt task\<rparr>)"

definition failed_execution :: "exec_env \<Rightarrow> task_context \<Rightarrow> string \<Rightarrow> agent_result \<Rightarrow> string \<Rightarrow> Execution" where
  "failed_execution env cx runErr result source =
     \<lparr>xn_Context = cx, xn_Result = Some result, xn_RunErr = Some runErr, xn_StartedAt = None,
      xn_CompletedAt = xe_completedAt env, xn_PreLabels = [], xn_PostLabels = [], xn_CompletionLabels = [], xn_PreErr = None,
      xn_PostErr = None, xn_EventErr = None, xn_FailureSource = source\<rparr>"

text \<open>From the first snapshot of the labels to the end of \<^verbatim>\<open>Execute\<close>: the session has been started.\<close>

definition runSession :: "exec_env \<Rightarrow> task_context \<Rightarrow> Execution" where
  "runSession env cx0 =
     (let pre = snapshotIssueLabels (xe_reader env) (xe_pre env);
          cx1 = (case pre of Inr ls \<Rightarrow> cx0\<lparr>cx_PreLabels := ls\<rparr> | Inl _ \<Rightarrow> cx0);
          (result0, runErr) = xe_run env;
          (eventsPath, eventErr) = xe_events env;
          result1 = map_option (\<lambda>r. if eventsPath \<noteq> [] \<and> eventErr = None
             then r\<lparr>ag_RawSessionPath := (if ag_RawSessionPath r = [] then ag_SessionPath r else ag_RawSessionPath r), ag_SessionPath := eventsPath\<rparr>
             else r) result0;
          post = snapshotIssueLabels (xe_reader env) (xe_post env);
          cx2 = (case post of Inr ls \<Rightarrow> cx1\<lparr>cx_PostLabels := ls\<rparr> | Inl _ \<Rightarrow> cx1);
          (result2, source0) = (case result1 of
             None \<Rightarrow> (infraFailureResult ''session.Run returned nil result'' runErr, ''session_run_nil_result'')
           | Some r \<Rightarrow> (r, []));
          result3 = (case runErr of Some e \<Rightarrow> if ag_Stderr result2 = [] then result2\<lparr>ag_Stderr := e\<rparr> else result2 | None \<Rightarrow> result2);
          source = (if source0 = [] \<and> IsInfraFailure (Some result3) then ''launcher_infra_failure'' else source0)
      in \<lparr>xn_Context = cx2, xn_Result = Some result3, xn_RunErr = runErr, xn_StartedAt = Some (xe_startedAt env),
          xn_CompletedAt = xe_completedAt env,
          xn_PreLabels = (case pre of Inr ls \<Rightarrow> ls | Inl _ \<Rightarrow> []), xn_PostLabels = (case post of Inr ls \<Rightarrow> ls | Inl _ \<Rightarrow> []),
          xn_CompletionLabels = (case post of Inr ls \<Rightarrow> ls | Inl _ \<Rightarrow> cx_Labels cx2),
          xn_PreErr = (case pre of Inl e \<Rightarrow> Some e | Inr _ \<Rightarrow> None), xn_PostErr = (case post of Inl e \<Rightarrow> Some e | Inr _ \<Rightarrow> None),
          xn_EventErr = eventErr, xn_FailureSource = source\<rparr>)"

definition Execute :: "exec_env \<Rightarrow> exec_task \<Rightarrow> Execution \<times> exec_effect list" where
  "Execute env task =
     (let key = lock_key (xk_Repo task) (xk_IssueNum task);
          cx = prepareContext env task;
          leave = (\<lambda>cx e. (if xk_Cleanup task then [FxCleanup] else []) @
                     closeManagedSession cx (executionStatus (xn_Result e) (xn_RunErr e)) @ [FxUnlock key])
      in case (if xk_Workspace task then xe_create env else Inr []) of
           Inl err \<Rightarrow>
             (let e = failed_execution env cx (''worktree setup failed: '' @ err)
                        (infraFailureResult (''worktree setup failed: '' @ err) (Some err)) ''worktree_setup_error''
              in (e, [FxLock key] @ leave cx e))
         | Inr path \<Rightarrow>
             (let cx1 = (if xk_Workspace task then cx\<lparr>cx_RepoRoot := path, cx_WorkDir := path\<rparr> else cx);
                  before = [FxLock key] @ (if xk_Workspace task then [FxCreate path] else []) @ (if xk_OnPrepared task then [FxPrepared] else []);
                  after = (\<lambda>cx e. (if xk_Workspace task then [FxRemove path] else []) @ leave cx e)
              in case Registry_Start env (xk_Agent task) cx1 of
                   (cx2, Some err, started) \<Rightarrow>
                     (let e = (failed_execution env cx2 err (infraFailureResult (''launcher Start() failed: '' @ err) (Some err)) ''launcher_start_error'')
                                \<lparr>xn_StartedAt := Some (xe_startedAt env)\<rparr>
                      in (e, before @ started @ after cx2 e))
                 | (cx2, None, started) \<Rightarrow>
                     (let e = runSession env cx2
                      in (e, before @ started @ [FxRun, FxSessionClose] @ after (xn_Context e) e))))"

section \<open>Checking the labels\<close>

definition exitCodeForValidation :: "agent_result option \<Rightarrow> int" where
  "exitCodeForValidation result = (case result of None \<Rightarrow> -1 | Some r \<Rightarrow> ag_ExitCode r)"

fun unseen_states :: "string list \<Rightarrow> (string \<times> string) list \<Rightarrow> lc_state list" where
  "unseen_states seen [] = []"
| "unseen_states seen ((name, label) # xs) =
     (if label = [] \<or> label \<in> set seen then unseen_states seen xs
      else \<lparr>s_Name = name, s_Label = label\<rparr> # unseen_states (label # seen) xs)"

definition sorted_states :: "WorkflowConfig \<Rightarrow> (string \<times> WState) list" where
  "sorted_states w = map (\<lambda>name. (name, the (map_of (States w) name))) (sort (remdups (map fst (States w))))"

definition resolveWorkflowLabelState :: "WorkflowConfig \<Rightarrow> lc_state \<Rightarrow> WState option" where
  "resolveWorkflowLabelState w current =
     (case (if s_Name current \<noteq> [] then map_of (States w) (s_Name current) else None) of
        Some st \<Rightarrow> Some st
      | None \<Rightarrow>
          if s_Label current = [] then None
          else map_option snd (find (\<lambda>(name, st). EnterLabel st = s_Label current) (sorted_states w)))"

datatype validation_error = MissingConfig | WorkflowNotFound string | StateNotFound string string | ResolvedStateNotFound lc_state

definition validateLabelTransition ::
  "FullConfig option \<Rightarrow> string \<Rightarrow> string \<Rightarrow> string list \<Rightarrow> string list \<Rightarrow> agent_result option \<Rightarrow> validation_error + lc_result" where
  "validateLabelTransition cfg workflow state preLabels postLabels result =
     (case cfg of
        None \<Rightarrow> Inl MissingConfig
      | Some c \<Rightarrow>
         (case map_of (cf_Workflows c) workflow of
            None \<Rightarrow> Inl (WorkflowNotFound workflow)
          | Some w \<Rightarrow>
             (case map_of (States w) state of
                None \<Rightarrow> Inl (StateNotFound state workflow)
              | Some queued \<Rightarrow>
                 (let known = unseen_states [] (map (\<lambda>(name, st). (name, EnterLabel st)) (sorted_states w));
                      current = ResolveCurrent preLabels \<lparr>s_Name = state, s_Label = EnterLabel queued\<rparr> known
                  in case resolveWorkflowLabelState w current of
                       None \<Rightarrow> Inl (ResolvedStateNotFound current)
                     | Some st \<Rightarrow>
                        (let targets = map snd (Transitions st);
                             allowed = unseen_states [] (map (\<lambda>t. (t, case map_of (States w) t of None \<Rightarrow> [] | Some s \<Rightarrow> EnterLabel s)) targets)
                         in Inr (Classify \<lparr>in_Pre = preLabels, in_Post = postLabels, in_ExitCode = exitCodeForValidation result,
                                    in_Current = current, in_Allowed = allowed, in_Known = known\<rparr>))))))"

definition labelsUnchanged :: "string list \<Rightarrow> string list \<Rightarrow> bool" where
  "labelsUnchanged pre post \<longleftrightarrow> length pre = length post \<and> sort pre = sort post"

definition workflowMaxRetries :: "FullConfig option \<Rightarrow> string \<Rightarrow> int" where
  "workflowMaxRetries cfg workflow =
     (case cfg of
        None \<Rightarrow> 3
      | Some c \<Rightarrow> (case map_of (cf_Workflows c) workflow of None \<Rightarrow> 3 | Some w \<Rightarrow> if MaxRetries w > 0 then MaxRetries w else 3))"

section \<open>What an execution leaves behind\<close>

lemma status_texts: "TaskStatusTimeout = ''timeout''" "TaskStatusFailed = ''failed''" "TaskStatusCompleted = ''completed''"
  by (simp_all add: TaskStatusTimeout_def TaskStatusFailed_def TaskStatusCompleted_def)

text \<open>The status the local session is closed with and the status that is reported are computed twice.\<close>

lemma executionStatus_agrees: "xn_Result e \<noteq> None \<Longrightarrow> executionStatus (xn_Result e) (xn_RunErr e) = Execution_Status e"
  by (auto simp: executionStatus_def Execution_Status_def ExitCode_def status_texts)

lemma runSession_result: "xn_Result (runSession env cx) \<noteq> None"
  by (simp add: runSession_def Let_def split: prod.split)

lemma infraFailureResult_infra [simp]: "IsInfraFailure (Some (infraFailureResult reason err))"
  by (simp add: IsInfraFailure_def infraFailureResult_def meta_def)

lemma executionStatus_nonempty: "executionStatus r e \<noteq> []"
  by (simp add: executionStatus_def status_texts)

text \<open>When the launcher opens a session: the task has no handle yet, no starter takes it, and the manager can open it.\<close>

definition opens :: "exec_env \<Rightarrow> task_context \<Rightarrow> bool" where
  "opens env cx \<longleftrightarrow> xe_starter env = None \<and> xe_manager env = Some None \<and> \<not> cx_Managed cx"

definition starts :: "exec_env \<Rightarrow> AgentConfig \<Rightarrow> task_context \<Rightarrow> bool" where
  "starts env agent cx \<longleftrightarrow>
     (case xe_starter env of
        Some err \<Rightarrow> err = None
      | None \<Rightarrow> (cx_Managed cx \<or> xe_manager env = None \<or> xe_manager env = Some None) \<and> runtimeName agent \<in> set (xe_runtimes env) \<and> xe_start_err env = None)"

lemma Registry_Start_spec:
  assumes "Registry_Start env agent cx = (cx', err, fx)"
  shows "cx' = (if opens env cx then SetSessionHandle cx else cx)" "err = None \<longleftrightarrow> starts env agent cx"
    "set fx \<subseteq> {FxOpen (cx_SessionID cx), FxStart}" "FxOpen (cx_SessionID cx) \<in> set fx \<longleftrightarrow> opens env cx"
  using assms by (auto simp: Registry_Start_def Let_def opens_def starts_def SetSessionHandle_def split: option.splits if_splits)

lemma prepared_managed: "cx_Managed (prepareContext env task) = (case xk_Context task of None \<Rightarrow> False | Some cx \<Rightarrow> cx_Managed cx)"
  by (simp add: prepareContext_def empty_context_def Let_def split: option.splits)

lemma runSession_managed: "cx_Managed (xn_Context (runSession env cx)) = cx_Managed cx"
  by (simp add: runSession_def Let_def split: prod.split sum.split)

definition workspace_ok :: "exec_env \<Rightarrow> exec_task \<Rightarrow> bool" where
  "workspace_ok env task \<longleftrightarrow> (xk_Workspace task \<longrightarrow> (\<exists>p. xe_create env = Inr p))"

definition ran_ok :: "exec_env \<Rightarrow> exec_task \<Rightarrow> bool" where
  "ran_ok env task \<longleftrightarrow> workspace_ok env task \<and> starts env (xk_Agent task) (prepareContext env task)"

definition opened :: "exec_env \<Rightarrow> exec_task \<Rightarrow> bool" where
  "opened env task \<longleftrightarrow> workspace_ok env task \<and> opens env (prepareContext env task)"

lemma failed_execution_simps [simp]:
  "xn_Result (failed_execution env cx err r src) = Some r" "xn_RunErr (failed_execution env cx err r src) = Some err"
  by (simp_all add: failed_execution_def)

lemma infra_status: "executionStatus (Some (infraFailureResult reason err)) x = ''failed''"
  by (simp add: executionStatus_def infraFailureResult_def meta_def MetaInfraFailure_def MetaInfraFailureReason_def status_texts)

lemma Execute_shape:
  assumes "Execute env task = (e, fx)"
  obtains made prep started between clean cx where
    "fx = FxLock (lock_key (xk_Repo task) (xk_IssueNum task)) # map FxCreate made @ prep @ started @ between @ map FxRemove made @ clean @
       closeManagedSession cx (Execution_Status e) @ [FxUnlock (lock_key (xk_Repo task) (xk_IssueNum task))]"
    "set prep \<subseteq> {FxPrepared}" "set started \<subseteq> {FxOpen (cx_SessionID (prepareContext env task)), FxStart}"
    "FxOpen (cx_SessionID (prepareContext env task)) \<in> set started \<longleftrightarrow> opened env task"
    "between = (if ran_ok env task then [FxRun, FxSessionClose] else [])" "set clean \<subseteq> {FxCleanup}" "xn_Result e \<noteq> None"
    "\<not> ran_ok env task \<Longrightarrow> InfraFailure e \<and> Execution_Status e = ''failed''" "cx_Managed cx \<longleftrightarrow> cx_Managed (prepareContext env task) \<or> opened env task"
proof (cases "if xk_Workspace task then xe_create env else Inr []")
  case (Inl err)
  then have "xk_Workspace task" "\<not> workspace_ok env task" by (auto simp: workspace_ok_def split: if_splits)
  with Inl assms show thesis
    by (intro that [of "[]" "[]" "[]" "[]" "if xk_Cleanup task then [FxCleanup] else []" "prepareContext env task"])
       (auto simp: Execute_def Let_def executionStatus_agrees [symmetric] infra_status InfraFailure_def ran_ok_def opened_def)
next
  case (Inr path)
  define made where "made = (if xk_Workspace task then [path] else [])"
  define prep where "prep = (if xk_OnPrepared task then [FxPrepared] else [])"
  define clean where "clean = (if xk_Cleanup task then [FxCleanup] else [])"
  define cx1 where "cx1 = (if xk_Workspace task then prepareContext env task\<lparr>cx_RepoRoot := path, cx_WorkDir := path\<rparr> else prepareContext env task)"
  have w: "workspace_ok env task" using Inr by (auto simp: workspace_ok_def split: if_splits)
  obtain cx2 err started where s: "Registry_Start env (xk_Agent task) cx1 = (cx2, err, started)" by (metis prod_cases3)
  have same: "cx_SessionID cx1 = cx_SessionID (prepareContext env task)" "cx_Managed cx1 = cx_Managed (prepareContext env task)" by (simp_all add: cx1_def)
  then have eqs: "opens env cx1 = opened env task" "starts env (xk_Agent task) cx1 = ran_ok env task" using w
    by (simp_all add: opens_def starts_def opened_def ran_ok_def split: option.split)
  note spec = Registry_Start_spec [OF s, unfolded eqs same(1)]
  have m: "cx_Managed cx2 \<longleftrightarrow> cx_Managed (prepareContext env task) \<or> opened env task" using same(2) by (simp add: spec(1) SetSessionHandle_def)
  show thesis
  proof (cases err)
    case (Some x)
    then have n: "\<not> ran_ok env task" using spec(2) by simp
    have e: "e = (failed_execution env cx2 x (infraFailureResult (''launcher Start() failed: '' @ x) (Some x)) ''launcher_start_error'')\<lparr>xn_StartedAt := Some (xe_startedAt env)\<rparr>"
      using Inr assms s Some by (auto simp: Execute_def Let_def cx1_def)
    have st: "Execution_Status e = ''failed''" by (simp add: e executionStatus_agrees [symmetric] infra_status)
    show thesis
      by (rule that [of made prep started "[]" clean cx2])
         (use Inr assms s Some n m spec(3,4) st in \<open>auto simp: Execute_def Let_def infra_status InfraFailure_def made_def prep_def clean_def cx1_def\<close>)
  next
    case None
    then have n: "ran_ok env task" using spec(2) by simp
    have e: "e = runSession env cx2" using Inr assms s None by (auto simp: Execute_def Let_def cx1_def)
    have st: "executionStatus (xn_Result e) (xn_RunErr e) = Execution_Status e" by (rule executionStatus_agrees) (simp add: e runSession_result)
    have y: "\<exists>y. xn_Result e = Some y" using runSession_result [of env cx2] by (simp add: e)
    show thesis
      by (rule that [of made prep started "[FxRun, FxSessionClose]" clean "xn_Context e"])
         (use Inr assms s None n m spec(3,4) st y in \<open>auto simp: Execute_def Let_def runSession_managed runSession_result made_def prep_def clean_def cx1_def\<close>)
  qed
qed

text \<open>The managed session is closed exactly when there is one: the task came with it, or the launcher opened it.\<close>

definition finalized :: "exec_effect list \<Rightarrow> string list" where
  "finalized fx = List.map_filter (\<lambda>x. case x of FxFinalize st \<Rightarrow> Some st | _ \<Rightarrow> None) fx"

lemma finalized_simps [simp]:
  "finalized [] = []" "finalized (xs @ ys) = finalized xs @ finalized ys" "finalized (FxFinalize st # xs) = st # finalized xs"
  "finalized (FxLock k # xs) = finalized xs" "finalized (FxUnlock k # xs) = finalized xs" "finalized (map FxCreate ps) = []" "finalized (map FxRemove ps) = []"
  by (simp_all add: finalized_def map_filter_simps List.map_filter_def comp_def)

lemma finalized_none: "(\<And>st. FxFinalize st \<notin> set xs) \<Longrightarrow> finalized xs = []"
  by (induction xs) (auto simp: finalized_def map_filter_simps split: exec_effect.splits)

text \<open>C8. An execution cleans up after itself on every path: it runs under the lock of its issue and removes exactly the worktree it
  created. The managed session, whether the task came with it or the launcher opened it, even when the start fails after that, is
  closed exactly once, with the status that is reported; without a session none is closed. There is always a result. The agent runs
  exactly when worktree and launcher start succeeded; an execution in which it did not run is an infrastructure failure.\<close>

theorem execution_cleans_up:
  assumes "Execute env task = (e, fx)"
  shows "hd fx = FxLock (lock_key (xk_Repo task) (xk_IssueNum task)) \<and> last fx = FxUnlock (lock_key (xk_Repo task) (xk_IssueNum task)) \<and>
    (\<forall>p. FxCreate p \<in> set fx \<longleftrightarrow> FxRemove p \<in> set fx) \<and>
    finalized fx = (if cx_Managed (prepareContext env task) \<or> (\<exists>i. FxOpen i \<in> set fx) then [Execution_Status e] else []) \<and>
    ((\<exists>i. FxOpen i \<in> set fx) \<longleftrightarrow> opened env task) \<and> (FxRun \<in> set fx \<longleftrightarrow> ran_ok env task) \<and>
    xn_Result e \<noteq> None \<and> (FxRun \<notin> set fx \<longrightarrow> InfraFailure e \<and> Execution_Status e = ''failed'')"
proof -
  obtain made prep started between clean cx where
    fx: "fx = FxLock (lock_key (xk_Repo task) (xk_IssueNum task)) # map FxCreate made @ prep @ started @ between @ map FxRemove made @ clean @
       closeManagedSession cx (Execution_Status e) @ [FxUnlock (lock_key (xk_Repo task) (xk_IssueNum task))]"
    and sets: "set prep \<subseteq> {FxPrepared}" "set started \<subseteq> {FxOpen (cx_SessionID (prepareContext env task)), FxStart}" "set clean \<subseteq> {FxCleanup}"
    and op: "FxOpen (cx_SessionID (prepareContext env task)) \<in> set started \<longleftrightarrow> opened env task"
    and b: "between = (if ran_ok env task then [FxRun, FxSessionClose] else [])"
    and facts: "xn_Result e \<noteq> None" "\<not> ran_ok env task \<Longrightarrow> InfraFailure e \<and> Execution_Status e = ''failed''"
    and m: "cx_Managed cx \<longleftrightarrow> cx_Managed (prepareContext env task) \<or> opened env task"
    by (rule Execute_shape [OF assms]) blast
  have c: "closeManagedSession cx (Execution_Status e) = (if cx_Managed cx then [FxFinalize (Execution_Status e)] else [])"
    by (simp add: closeManagedSession_def Execution_Status_def)
  have o: "(\<exists>i. FxOpen i \<in> set fx) \<longleftrightarrow> opened env task" using sets op b by (auto simp: fx c subset_iff)
  have n: "finalized prep = []" "finalized started = []" "finalized between = []" "finalized clean = []"
    using sets b by (auto intro!: finalized_none)
  have f: "finalized fx = (if cx_Managed cx then [Execution_Status e] else [])" by (simp add: fx c n)
  have "(\<forall>p. FxCreate p \<in> set fx \<longleftrightarrow> FxRemove p \<in> set fx) \<and> (FxRun \<in> set fx \<longleftrightarrow> ran_ok env task)"
    using sets b by (auto simp: fx c subset_iff)
  moreover have "hd fx = FxLock (lock_key (xk_Repo task) (xk_IssueNum task))" "last fx = FxUnlock (lock_key (xk_Repo task) (xk_IssueNum task))"
    by (simp_all add: fx)
  ultimately show ?thesis using f m o facts by auto
qed

text \<open>The directory a report is committed from is gone by then: an execution in a worktree ends with
  the worktree removed while the working directory it hands to the reporter is still its path.\<close>

theorem report_dir_removed:
  assumes "Execute env task = (e, fx)" "xk_Workspace task" "xe_create env = Inr path"
  shows "cx_WorkDir (xn_Context e) = path \<and> FxRemove path \<in> set fx"
proof -
  have w: "cx_WorkDir (xn_Context (runSession env cx)) = cx_WorkDir cx" for cx
    by (simp add: runSession_def Let_def split: prod.split sum.split)
  let ?cx = "prepareContext env task\<lparr>cx_RepoRoot := path, cx_WorkDir := path\<rparr>"
  obtain cx2 err started where s: "Registry_Start env (xk_Agent task) ?cx = (cx2, err, started)" by (metis prod_cases3)
  have "cx_WorkDir cx2 = path" by (simp add: Registry_Start_spec(1) [OF s] SetSessionHandle_def)
  then show ?thesis using assms s w by (cases err) (auto simp: Execute_def Let_def failed_execution_def)
qed

section \<open>A run that ends in a time-out\<close>

definition demo_exec_env :: exec_env where
  "demo_exec_env = \<lparr>xe_uuid = ''0123456789'', xe_create = Inr ''/wt'', xe_starter = None, xe_manager = Some None, xe_runtimes = [RuntimeClaudeCode], xe_start_err = None,
     xe_reader = True, xe_pre = Inr [''status:developing''],
     xe_run = (Some \<lparr>ag_ExitCode = 1, ag_Stderr = [], ag_Meta = [(''timeout'', ''true'')], ag_SessionPath = [], ag_RawSessionPath = [],
       ag_Synthesis = None\<rparr>, Some ''killed''), xe_events = (''/ev'', None), xe_post = Inr [''status:developing''], xe_startedAt = 1, xe_completedAt = 2\<rparr>"

definition demo_exec_task :: exec_task where
  "demo_exec_task = \<lparr>xk_TaskID = ''t1'', xk_Repo = ''o/r'', xk_IssueNum = 7, xk_AgentName = ''dev'', xk_Agent = empty_agent, xk_Workflow = ''w'',
     xk_State = ''developing'', xk_RolloutIndex = 0, xk_RolloutsTotal = 0, xk_RolloutGroupID = [], xk_WorkerID = ''w'', xk_Attempt = 0,
     xk_Context = None, xk_Cleanup = False, xk_Workspace = True, xk_OnPrepared = True\<rparr>"

theorem execution_cleans_up_witness:
  "let (e, fx) = Execute demo_exec_env demo_exec_task
   in FxRun \<in> set fx \<and> FxCreate ''/wt'' \<in> set fx \<and> FxRemove ''/wt'' \<in> set fx \<and> finalized fx = [''timeout''] \<and> Execution_Status e = ''timeout''"
proof -
  obtain e fx where r: "Execute demo_exec_env demo_exec_task = (e, fx)" by (rule prod.exhaust)
  have "Execution_Status (fst (Execute demo_exec_env demo_exec_task)) = ''timeout''" by code_simp
  moreover have "FxCreate ''/wt'' \<in> set (snd (Execute demo_exec_env demo_exec_task))" by code_simp
  moreover have "opened demo_exec_env demo_exec_task" "ran_ok demo_exec_env demo_exec_task"
    by (simp_all add: opened_def opens_def ran_ok_def starts_def workspace_ok_def prepared_managed runtimeName_def empty_agent_def demo_exec_env_def demo_exec_task_def)
  ultimately show ?thesis using execution_cleans_up [OF r] by (auto simp: r)
qed

theorem report_dir_removed_witness:
  "cx_WorkDir (xn_Context (fst (Execute demo_exec_env demo_exec_task))) = ''/wt'' \<and> FxRemove ''/wt'' \<in> set (snd (Execute demo_exec_env demo_exec_task))"
  by (rule report_dir_removed [OF prod.collapse [symmetric]]) (simp_all add: demo_exec_env_def demo_exec_task_def)

end
