(* ===== verification/Worker_Remote.thy ===== *)
theory Worker_Remote
  imports Worker_Exec Task_Flow
begin

text \<open>
  A worker's work on a task it was handed (\<^verbatim>\<open>internal/worker/distributed.go\<close>) and the client it
  talks to the coordinator with (\<^verbatim>\<open>internal/workerclient/client.go\<close>).

  \<^item> The client is an interface of the worker: \<open>ExecuteTask\<close> takes its three calls as arguments.
    The locale \<open>acknowledging_client\<close> states what the worker relies on; it is interpreted on the
    client of the code over the coordinator's handlers and a network that may lose requests and
    replies (\<open>link\<close>).
  \<^item> \<open>doJSON\<close> is given the attempts that fit into its context. A context that ends while it waits
    shows as the end of that list.
  \<^item> What the agent, GitHub, the reader and the verifier do is in \<open>run_env\<close>. A shutdown during the
    run is \<open>re_bg\<close>: the release that the watching goroutine sends arrives before or after the
    worker's own look at the context.
  \<^item> The prompt metadata a launch context carries, session capture and the report texts are left out.
\<close>

section \<open>The client\<close>

datatype client_error =
    ErrUnauthorized
  | ServerError int string
  | UnexpectedStatus int string
  | TransportError string
  | DecodeError string
  | ContextEnded

fun client_text :: "client_error \<Rightarrow> string" where
  "client_text ErrUnauthorized = ''workerclient: unauthorized''"
| "client_text (ServerError n body) = ''workerclient: server error '' @ itoa n @ '': '' @ trim_space body"
| "client_text (UnexpectedStatus n body) = ''workerclient: unexpected status '' @ itoa n @ '': '' @ trim_space body"
| "client_text (TransportError t) = ''workerclient: '' @ t"
| "client_text (DecodeError t) = ''workerclient: decode '' @ t"
| "client_text ContextEnded = ''context deadline exceeded''"

text \<open>Errors of the transport are network errors.\<close>

definition isRetryable :: "client_error \<Rightarrow> bool" where
  "isRetryable e \<longleftrightarrow> (case e of TransportError _ \<Rightarrow> True | ContextEnded \<Rightarrow> True | _ \<Rightarrow> contains_sub (client_text e) ''server error'')"

datatype http_answer = Answer int string | Lost string

definition doJSONOnce :: "int list \<Rightarrow> (string \<Rightarrow> bool) option \<Rightarrow> http_answer \<Rightarrow> client_error + int \<times> string" where
  "doJSONOnce okStatuses out a =
     (case a of
        Lost t \<Rightarrow> Inl (TransportError t)
      | Answer status body \<Rightarrow>
          if status \<in> set okStatuses
          then (case out of
                  None \<Rightarrow> Inr (status, body)
                | Some decodes \<Rightarrow> if body \<noteq> [] \<and> \<not> decodes body then Inl (DecodeError body) else Inr (status, body))
          else if status = 401 then Inl ErrUnauthorized
          else if status \<ge> 500 then Inl (ServerError status body)
          else Inl (UnexpectedStatus status body))"

text \<open>An attempt with what it does, and whether the context has ended when it returns.\<close>

type_synonym 's attempt = "('s \<Rightarrow> 's \<times> http_answer) \<times> bool"

fun doJSON :: "int list \<Rightarrow> (string \<Rightarrow> bool) option \<Rightarrow> 's attempt list \<Rightarrow> 's \<Rightarrow> 's \<times> (client_error + int \<times> string)" where
  "doJSON okStatuses out [] s = (s, Inl ContextEnded)"
| "doJSON okStatuses out ((go, ended) # rest) s =
     (case go s of (s', a) \<Rightarrow>
        (case doJSONOnce okStatuses out a of
           Inr x \<Rightarrow> (s', Inr x)
         | Inl e \<Rightarrow> if e = ErrUnauthorized \<or> \<not> isRetryable e \<or> ended then (s', Inl e) else doJSON okStatuses out rest s'))"

definition call :: "int list \<Rightarrow> 's attempt list \<Rightarrow> 's \<Rightarrow> 's \<times> (client_error + unit)" where
  "call okStatuses attempts s = (case doJSON okStatuses None attempts s of (s', r) \<Rightarrow> (s', map_sum id (\<lambda>_. ()) r))"

section \<open>Submitting a result\<close>

definition IsTaskOwnershipLost :: "client_error \<Rightarrow> bool" where
  "IsTaskOwnershipLost e \<longleftrightarrow> list_ex (contains_sub (client_text e))
     [''worker_id does not match claimed task'', ''task already completed'', ''not claimable by this worker'',
      ''task is no longer owned by worker'']"

definition submitResultMaxAttempts :: nat where "submitResultMaxAttempts = 3"

text \<open>An attempt: what the network does to it, whether the worker's context has ended after it, and
  whether it has ended after the pause.\<close>

type_synonym 't submit_try = "'t \<times> bool \<times> bool"

fun submitTries :: "('t \<Rightarrow> 's \<Rightarrow> 's \<times> (client_error + unit)) \<Rightarrow> (nat \<Rightarrow> 't submit_try) \<Rightarrow> nat \<Rightarrow> nat \<Rightarrow> 's \<Rightarrow> 's \<times> (client_error + unit)" where
  "submitTries submit tries attempt 0 s = (s, Inl ContextEnded)"
| "submitTries submit tries attempt (Suc left) s =
     (case tries attempt of (net, dead, dead_later) \<Rightarrow>
        (case submit net s of
           (s', Inr _) \<Rightarrow> (s', Inr ())
         | (s', Inl e) \<Rightarrow>
             if dead \<or> e = ErrUnauthorized \<or> IsTaskOwnershipLost e then (s', Inl e)
             else if left = 0 then (s', Inl e)
             else if dead_later then (s', Inl ContextEnded)
             else submitTries submit tries (attempt + 1) left s'))"

definition submitResultWithRetry :: "('t \<Rightarrow> 's \<Rightarrow> 's \<times> (client_error + unit)) \<Rightarrow> (nat \<Rightarrow> 't submit_try) \<Rightarrow> 's \<Rightarrow> 's \<times> (client_error + unit)" where
  "submitResultWithRetry submit tries s = submitTries submit tries 1 submitResultMaxAttempts s"

section \<open>A task\<close>

record remote_task =
  rm_TaskID :: string
  rm_Repo :: string
  rm_IssueNum :: int
  rm_AgentName :: string
  rm_Workflow :: string
  rm_State :: string
  rm_RolloutIndex :: int
  rm_RolloutsTotal :: int
  rm_RolloutGroupID :: string
  rm_Synthesis :: "SynthesisContext option"
  rm_Agent :: "AgentConfig option"

record worker_deps =
  wd_Config :: "FullConfig option"
  wd_Executor :: bool
  wd_Client :: bool
  wd_Reporter :: bool
  wd_WorkDir :: string
  wd_WorkerID :: string
  wd_RuntimeAlias :: string
  wd_Workspace :: bool

datatype 't background = NoRelease | EarlyRelease 't | LateRelease 't

record 't run_env =
  re_exec :: exec_env
  re_issue :: "(string \<times> string list) option"
  re_beats :: "'t list"
  re_bg :: "'t background"
  re_dead :: bool
  re_partial :: bool
  re_release :: 't
  re_tries :: "nat \<Rightarrow> 't submit_try"

datatype work_error = TaskRequired | AgentNotFound string | ExecutorRequired | ClientRequired | ReporterRequired | RunFailed "string option" | SubmitFailed client_error

datatype worker_report =
    RpStarted string
  | RpNeedsHuman string
  | RpWorktreeFailure string
  | RpResult string "client_error option"
  | RpVerdict string

definition resolveAgentConfig :: "worker_deps \<Rightarrow> remote_task \<Rightarrow> work_error + AgentConfig" where
  "resolveAgentConfig deps t =
     (case rm_Agent t of
        Some a \<Rightarrow> Inr a
      | None \<Rightarrow>
         (case wd_Config deps of
            None \<Rightarrow> Inl (AgentNotFound (rm_AgentName t))
          | Some c \<Rightarrow> (case map_of (cf_Agents c) (rm_AgentName t) of None \<Rightarrow> Inl (AgentNotFound (rm_AgentName t)) | Some a \<Rightarrow> Inr a)))"

definition runtimeOf :: "worker_deps \<Rightarrow> AgentConfig \<Rightarrow> string" where
  "runtimeOf deps a = (if trim_space (ac_Runtime a) = [] \<and> wd_RuntimeAlias deps \<noteq> [] then wd_RuntimeAlias deps else ac_Runtime a)"

definition BuildRemoteTaskContext :: "string \<Rightarrow> (string \<times> string list) option \<Rightarrow> remote_task \<Rightarrow> string \<Rightarrow> task_context" where
  "BuildRemoteTaskContext uuid details t workDir =
     empty_context\<lparr>cx_IssueNum := rm_IssueNum t, cx_Body := (case details of None \<Rightarrow> [] | Some (b, _) \<Rightarrow> b),
       cx_Labels := (case details of None \<Rightarrow> [] | Some (_, ls) \<Rightarrow> ls), cx_Repo := rm_Repo t, cx_RepoRoot := workDir, cx_WorkDir := workDir,
       cx_Synthesis := rm_Synthesis t,
       cx_Rollout := \<lparr>rc_Index = rm_RolloutIndex t, rc_Total = rm_RolloutsTotal t, rc_GroupID = rm_RolloutGroupID t\<rparr>,
       cx_SessionID := generateSessionID uuid (rm_TaskID t)\<rparr>"

definition attachState :: "worker_deps \<Rightarrow> remote_task \<Rightarrow> task_context \<Rightarrow> task_context" where
  "attachState deps t cx =
     (case wd_Config deps of
        None \<Rightarrow> cx
      | Some c \<Rightarrow>
         (case map_of (cf_Workflows c) (rm_Workflow t) of
            None \<Rightarrow> cx
          | Some w \<Rightarrow>
             (case map_of (States w) (rm_State t) of
                Some st \<Rightarrow> SetWorkflowStateMode (Mode st) (SetWorkflowState (rm_State t) (EnterLabel st) (Transitions st) cx)
              | None \<Rightarrow> SetWorkflowState (rm_State t) [] [] cx)))"

definition remote_exec_task :: "worker_deps \<Rightarrow> 't run_env \<Rightarrow> AgentConfig \<Rightarrow> remote_task \<Rightarrow> exec_task" where
  "remote_exec_task deps env agent t =
     \<lparr>xk_TaskID = rm_TaskID t, xk_Repo = rm_Repo t, xk_IssueNum = rm_IssueNum t, xk_AgentName = rm_AgentName t,
      xk_Agent = agent\<lparr>ac_Runtime := runtimeOf deps agent\<rparr>, xk_Workflow = rm_Workflow t, xk_State = rm_State t,
      xk_RolloutIndex = rm_RolloutIndex t, xk_RolloutsTotal = rm_RolloutsTotal t, xk_RolloutGroupID = rm_RolloutGroupID t,
      xk_WorkerID = wd_WorkerID deps, xk_Attempt = 0,
      xk_Context = Some (attachState deps t (BuildRemoteTaskContext (xe_uuid (re_exec env)) (re_issue env) t (wd_WorkDir deps))),
      xk_Cleanup = False, xk_Workspace = wd_Workspace deps, xk_OnPrepared = True\<rparr>"

text \<open>The heartbeat loop over the beats that fall into the run; it stops when the coordinator says that
  the task is no longer this worker's.\<close>

fun heartbeatLoop :: "('t \<Rightarrow> 's \<Rightarrow> 's \<times> (client_error + unit)) \<Rightarrow> 't list \<Rightarrow> 's \<Rightarrow> 's \<times> bool" where
  "heartbeatLoop beat [] s = (s, False)"
| "heartbeatLoop beat (net # nets) s =
     (case beat net s of
        (s', Inl e) \<Rightarrow>
          if e \<noteq> ContextEnded \<and> e \<noteq> ErrUnauthorized \<and> IsTaskOwnershipLost e then (s', True) else heartbeatLoop beat nets s'
      | (s', Inr _) \<Rightarrow> heartbeatLoop beat nets s')"

definition labelReport :: "worker_deps \<Rightarrow> remote_task \<Rightarrow> Execution \<Rightarrow> string \<times> worker_report list" where
  "labelReport deps t e =
     (if xn_PreErr e = None \<and> xn_PostErr e = None
      then (case validateLabelTransition (wd_Config deps) (rm_Workflow t) (rm_State t) (xn_PreLabels e) (xn_PostLabels e) (xn_Result e) of
              Inl _ \<Rightarrow> ([], [])
            | Inr v \<Rightarrow> (Summary v, if NeedsHumanRecommendation v then [RpNeedsHuman (Summary v)] else []))
      else ([], []))"

definition result_status :: "Execution \<Rightarrow> bool \<Rightarrow> string" where
  "result_status e part =
     (if part then TaskStatusFailed
      else if Execution_Status e = ''failed'' then TaskStatusFailed
      else if Execution_Status e = ''timeout'' then TaskStatusTimeout else TaskStatusCompleted)"

definition resultRequest :: "worker_deps \<Rightarrow> 't run_env \<Rightarrow> Execution \<Rightarrow> TaskResultRequest" where
  "resultRequest deps env e =
     \<lparr>rq_WorkerID = wd_WorkerID deps, rq_Status = result_status e (re_partial env),
      rq_CurrentLabels = (if xn_PostErr e \<noteq> None then cx_Labels (xn_Context e) else xn_CompletionLabels e),
      rq_InfraFailure = InfraFailure e, rq_InfraReason = InfraReason e,
      rq_SynthesisDecision = (case xn_Result e of None \<Rightarrow> None | Some r \<Rightarrow> ag_Synthesis r)\<rparr>"

text \<open>What follows a run whose task was not given back.\<close>

definition deliverResult ::
  "('t \<Rightarrow> string \<Rightarrow> 's \<Rightarrow> 's \<times> (client_error + unit)) \<Rightarrow> ('t \<Rightarrow> TaskResultRequest \<Rightarrow> 's \<Rightarrow> 's \<times> (client_error + unit)) \<Rightarrow>
   worker_deps \<Rightarrow> 't run_env \<Rightarrow> Execution \<Rightarrow> string \<Rightarrow> 's \<Rightarrow> 's \<times> worker_report list \<times> (work_error + unit)" where
  "deliverResult release submit deps env e labelSummary s =
     (let workDir = (if cx_WorkDir (xn_Context e) \<noteq> [] then cx_WorkDir (xn_Context e) else wd_WorkDir deps)
      in if xn_FailureSource e = ''worktree_setup_error''
         then (let reason = (if InfraReason e \<noteq> [] then InfraReason e else ''worktree setup failed: '' @ (case xn_RunErr e of None \<Rightarrow> ''<nil>'' | Some t \<Rightarrow> t))
               in (fst (release (re_release env) reason s), [RpWorktreeFailure labelSummary], Inl (RunFailed (xn_RunErr e))))
         else (case submitResultWithRetry (\<lambda>net. submit net (resultRequest deps env e)) (re_tries env) s of
                 (s1, Inl err) \<Rightarrow>
                   (fst (release (re_release env) (''submit result failed: '' @ client_text err) s1), [RpResult workDir (Some err)], Inl (SubmitFailed err))
               | (s1, Inr _) \<Rightarrow>
                   (s1, RpResult workDir None #
                          (let reason = (case xn_Result e of None \<Rightarrow> [] | Some r \<Rightarrow> meta r ''agentm_failure_reason'')
                           in if reason \<noteq> [] then [RpVerdict reason] else []), Inr ())))"

definition shutdown_reason :: string where "shutdown_reason = ''worker shutdown''"

definition settleRun ::
  "('t \<Rightarrow> string \<Rightarrow> 's \<Rightarrow> 's \<times> (client_error + unit)) \<Rightarrow> 't run_env \<Rightarrow> 's \<Rightarrow> 's \<times> bool" where
  "settleRun release env s =
     (let (s1, rel1) = (case re_bg env of EarlyRelease net \<Rightarrow> apsnd (\<lambda>r. r = Inr ()) (release net shutdown_reason s) | _ \<Rightarrow> (s, False));
          dead = (re_dead env \<or> re_bg env \<noteq> NoRelease);
          (s2, rel2) = (if dead \<and> \<not> rel1 then apsnd (\<lambda>r. r = Inr ()) (release (re_release env) shutdown_reason s1) else (s1, rel1))
      in case re_bg env of
           LateRelease net \<Rightarrow> apsnd (\<lambda>r. rel2 \<or> r = Inr ()) (release net shutdown_reason s2)
         | _ \<Rightarrow> (s2, rel2))"

definition ExecuteTask ::
  "('t \<Rightarrow> 's \<Rightarrow> 's \<times> (client_error + unit)) \<Rightarrow> ('t \<Rightarrow> string \<Rightarrow> 's \<Rightarrow> 's \<times> (client_error + unit)) \<Rightarrow>
   ('t \<Rightarrow> TaskResultRequest \<Rightarrow> 's \<Rightarrow> 's \<times> (client_error + unit)) \<Rightarrow> worker_deps \<Rightarrow> 't run_env \<Rightarrow> remote_task option \<Rightarrow> 's \<Rightarrow>
   's \<times> worker_report list \<times> (work_error + unit)" where
  "ExecuteTask beat release submit deps env task s =
     (case task of
        None \<Rightarrow> (s, [], Inl TaskRequired)
      | Some t \<Rightarrow>
         (case resolveAgentConfig deps t of
            Inl e \<Rightarrow> (s, [], Inl e)
          | Inr agent \<Rightarrow>
             if \<not> wd_Executor deps then (s, [], Inl ExecutorRequired)
             else if \<not> wd_Client deps then (s, [], Inl ClientRequired)
             else if \<not> wd_Reporter deps then (s, [], Inl ReporterRequired)
             else
               (let (e, fx) = Execute (re_exec env) (remote_exec_task deps env agent t);
                    started = (if FxPrepared \<in> set fx then [RpStarted (cx_SessionID (xn_Context e))] else []);
                    (labelSummary, humans) = labelReport deps t e
                in case settleRun release env (fst (heartbeatLoop beat (re_beats env) s)) of
                     (s1, True) \<Rightarrow> (s1, started @ humans, Inr ())
                   | (s1, False) \<Rightarrow>
                       (case deliverResult release submit deps env e labelSummary s1 of (s2, reports, r) \<Rightarrow> (s2, started @ humans @ reports, r)))))"

section \<open>What the worker relies on\<close>

locale keeping_client =
  fixes beat :: "'t \<Rightarrow> 's \<Rightarrow> 's \<times> (client_error + unit)"
    and release :: "'t \<Rightarrow> string \<Rightarrow> 's \<Rightarrow> 's \<times> (client_error + unit)"
    and submit :: "'t \<Rightarrow> TaskResultRequest \<Rightarrow> 's \<Rightarrow> 's \<times> (client_error + unit)"
    and sane :: "'s \<Rightarrow> bool"
  assumes sane_beat: "sane s \<Longrightarrow> sane (fst (beat net s))"
    and sane_release: "sane s \<Longrightarrow> sane (fst (release net why s))"
    and sane_submit: "sane s \<Longrightarrow> sane (fst (submit net req s))"
begin

lemma heartbeatLoop_sane: "sane s \<Longrightarrow> sane (fst (heartbeatLoop beat nets s))"
proof (induction nets arbitrary: s)
  case (Cons net nets)
  then show ?case using sane_beat [OF Cons.prems, of net] by (auto split: prod.splits sum.splits)
qed simp

lemma submitTries_sane: "sane s \<Longrightarrow> sane (fst (submitTries (\<lambda>net. submit net req) tries attempt left s))"
proof (induction left arbitrary: attempt s)
  case (Suc left)
  obtain net dead later where t: "tries attempt = (net, dead, later)" by (metis prod.exhaust)
  show ?case using Suc.IH sane_submit [OF Suc.prems, of net req] by (auto simp: t split: prod.splits sum.splits)
qed simp

lemma settleRun_sane: "sane s \<Longrightarrow> sane (fst (settleRun release env s))"
  using sane_release by (auto simp: settleRun_def apsnd_def map_prod_def split: background.split prod.splits) (metis fst_conv)+

lemma deliverResult_sane: "sane s \<Longrightarrow> sane (fst (deliverResult release submit deps env e summary s))"
proof -
  assume s: "sane s"
  obtain s1 r where t: "submitResultWithRetry (\<lambda>net. submit net (resultRequest deps env e)) (re_tries env) s = (s1, r)" by (rule prod.exhaust)
  have "sane s1" using submitTries_sane [OF s] t by (metis fst_conv submitResultWithRetry_def)
  then show ?thesis using s sane_release t by (auto simp: deliverResult_def Let_def split: sum.split)
qed

lemma ExecuteTask_sane: "sane s \<Longrightarrow> sane (fst (ExecuteTask beat release submit deps env task s))"
  using settleRun_sane [OF heartbeatLoop_sane, of s env "re_beats env"] deliverResult_sane
  by (auto simp: ExecuteTask_def Let_def split: option.split sum.split prod.splits bool.split) (metis fst_conv)+

end

locale acknowledging_client = keeping_client +
  fixes given_up :: "'b \<Rightarrow> bool"
  assumes release_ack: "sane s \<Longrightarrow> release net why s = (s', Inr ()) \<Longrightarrow> given_up s'"
    and submit_ack: "sane s \<Longrightarrow> submit net req s = (s', Inr ()) \<Longrightarrow> given_up s'"
    and release_keeps: "given_up s \<Longrightarrow> given_up (fst (release net why s))"
begin

lemma submitTries_ack:
  "sane s \<Longrightarrow> submitTries (\<lambda>net. submit net req) tries attempt left s = (s', Inr ()) \<Longrightarrow> given_up s'"
proof (induction left arbitrary: attempt s)
  case (Suc left)
  then show ?case using sane_submit [OF Suc.prems(1)] submit_ack [OF Suc.prems(1)]
    by (auto split: prod.splits sum.splits if_splits) (metis fst_conv)+
qed simp

lemma release_flag:
  assumes "sane s" "apsnd (\<lambda>r. r = Inr ()) (release net why s) = (s', ok)"
  shows "sane s' \<and> (ok \<longrightarrow> given_up s')"
  using assms sane_release [OF assms(1), of net why] release_ack [OF assms(1), of net why] by (cases "release net why s") auto

lemma settleRun_ack:
  assumes sane: "sane s" and run: "settleRun release env s = (s', r)"
  shows "sane s' \<and> (r \<longrightarrow> given_up s')"
proof (cases "re_bg env")
  case NoRelease
  then show ?thesis using run sane release_flag [OF sane] by (auto simp: settleRun_def split: if_splits)
next
  case (EarlyRelease net)
  obtain s1 rel1 where one: "apsnd (\<lambda>r. r = Inr ()) (release net shutdown_reason s) = (s1, rel1)" by (rule prod.exhaust)
  note first = release_flag [OF sane one]
  then show ?thesis using run one release_flag [of s1] by (auto simp: settleRun_def EarlyRelease split: if_splits)
next
  case (LateRelease net)
  obtain s1 rel1 where one: "apsnd (\<lambda>r. r = Inr ()) (release (re_release env) shutdown_reason s) = (s1, rel1)" by (rule prod.exhaust)
  obtain s2 ans where two: "release net shutdown_reason s1 = (s2, ans)" by (rule prod.exhaust)
  have r: "s' = s2" "r = (rel1 \<or> ans = Inr ())" using run one two by (auto simp: settleRun_def LateRelease)
  show ?thesis using release_flag [OF sane one] sane_release [of s1 net shutdown_reason] release_ack [of s1 net shutdown_reason]
      release_keeps [of s1 net shutdown_reason] two by (auto simp: r)
qed

lemma deliverResult_ack: "sane s \<Longrightarrow> deliverResult release submit deps env e summary s = (s', reports, Inr ()) \<Longrightarrow> given_up s'"
  using submitTries_ack by (auto simp: deliverResult_def submitResultWithRetry_def Let_def split: if_splits prod.splits sum.splits)

lemma ExecuteTask_ack:
  assumes sane: "sane s" and run: "ExecuteTask beat release submit deps env task s = (s', reports, Inr ())"
  shows "given_up s'"
proof -
  obtain t agent where t: "task = Some t" "resolveAgentConfig deps t = Inr agent" "wd_Executor deps" "wd_Client deps" "wd_Reporter deps"
    using run by (auto simp: ExecuteTask_def split: option.splits sum.splits if_splits)
  obtain s1 rel where settle: "settleRun release env (fst (heartbeatLoop beat (re_beats env) s)) = (s1, rel)" by (rule prod.exhaust)
  note one = settleRun_ack [OF heartbeatLoop_sane [OF sane] settle]
  show ?thesis
  proof (cases rel)
    case True
    then show ?thesis using run t settle one by (auto simp: ExecuteTask_def Let_def split: prod.splits)
  next
    case False
    then show ?thesis using run t settle one deliverResult_ack [of s1] by (auto simp: ExecuteTask_def Let_def split: prod.splits)
  qed
qed

end

section \<open>The client over the coordinator's handlers\<close>

text \<open>A request reaches the coordinator or is lost, its reply reaches the worker or is lost, or the token
  is rejected before the handler runs.\<close>

datatype delivery = Delivered | RequestLost string | ReplyLost string | Rejected

record link =
  ln_co :: coordinator
  ln_results :: "nat list"

definition body_text :: "(http_body \<Rightarrow> string) \<Rightarrow> http_body \<Rightarrow> string" where
  "body_text txt b = (case b of HErr m \<Rightarrow> ''{\"error\":\"'' @ m @ ''\"}'' | _ \<Rightarrow> txt b)"

definition over_net :: "(http_body \<Rightarrow> string) \<Rightarrow> ('s \<Rightarrow> 's \<times> response) \<Rightarrow> delivery \<Rightarrow> 's \<Rightarrow> 's \<times> http_answer" where
  "over_net txt handler net s =
     (case net of
        RequestLost t \<Rightarrow> (s, Lost t)
      | Rejected \<Rightarrow> (s, Answer 401 [])
      | ReplyLost t \<Rightarrow> (fst (handler s), Lost t)
      | Delivered \<Rightarrow> (case handler s of (s', status, body) \<Rightarrow> (s', Answer (int status) (body_text txt body))))"

definition attempts :: "(http_body \<Rightarrow> string) \<Rightarrow> ('s \<Rightarrow> 's \<times> response) \<Rightarrow> (delivery \<times> bool) list \<Rightarrow> 's attempt list" where
  "attempts txt handler nets = map (\<lambda>(net, ended). (over_net txt handler net, ended)) nets"

definition on_co :: "(coordinator \<Rightarrow> coordinator \<times> response) \<Rightarrow> link \<Rightarrow> link \<times> response" where
  "on_co handler l = (case handler (ln_co l) of (c, r) \<Rightarrow> (l\<lparr>ln_co := c\<rparr>, r))"

definition result_handler :: "string \<Rightarrow> TaskResultRequest \<Rightarrow> link \<Rightarrow> link \<times> response" where
  "result_handler i req l = (case HandleTaskResult (Some req) i (ln_co l) of
     (c, status, body) \<Rightarrow> (l\<lparr>ln_co := c, ln_results := ln_results l @ [status]\<rparr>, status, body))"

definition SubmitResult :: "(http_body \<Rightarrow> string) \<Rightarrow> string \<Rightarrow> (delivery \<times> bool) list \<Rightarrow> TaskResultRequest \<Rightarrow> link \<Rightarrow> link \<times> (client_error + unit)" where
  "SubmitResult txt i nets req = call [200] (attempts txt (result_handler i req) nets)"

definition client_ReleaseTask :: "(http_body \<Rightarrow> string) \<Rightarrow> string \<Rightarrow> string \<Rightarrow> (delivery \<times> bool) list \<Rightarrow> string \<Rightarrow> link \<Rightarrow> link \<times> (client_error + unit)" where
  "client_ReleaseTask txt worker i nets reason = call [200, 204] (attempts txt (on_co (HandleTaskRelease (Some worker) i)) nets)"

definition client_Heartbeat :: "(http_body \<Rightarrow> string) \<Rightarrow> string \<Rightarrow> string \<Rightarrow> (delivery \<times> bool) list \<Rightarrow> link \<Rightarrow> link \<times> (client_error + unit)" where
  "client_Heartbeat txt worker i nets = call [204] (attempts txt (on_co (HandleTaskHeartbeat (Some worker) i)) nets)"

text \<open>No task of the given identity is running under the worker.\<close>

definition not_held :: "string \<Rightarrow> string \<Rightarrow> link \<Rightarrow> bool" where
  "not_held worker i l \<longleftrightarrow> (\<forall>r \<in> set (task_queue (co_db (ln_co l))). t_ID r = i \<longrightarrow> \<not> (t_Status r = TaskStatusRunning \<and> t_WorkerID r = Some worker))"

text \<open>A call whose handler keeps an invariant, and establishes \<open>Q\<close> with every answer the call accepts.\<close>

lemma call_keeps:
  assumes "\<And>s. P s \<Longrightarrow> P (fst (handler s))" "P s"
  shows "P (fst (call ok (attempts txt handler nets) s))"
proof -
  have "P s \<Longrightarrow> P (fst (doJSON ok None (attempts txt handler nets) s))" for s
  proof (induction nets arbitrary: s)
    case (Cons x nets)
    obtain net ended where x: "x = (net, ended)" by (rule prod.exhaust)
    have "P (fst (over_net txt handler net s))"
      using assms(1) [OF Cons.prems] Cons.prems by (auto simp: over_net_def split: delivery.split prod.splits)
    then show ?case using Cons.IH by (auto simp: attempts_def x split: prod.splits sum.splits)
  qed (simp add: attempts_def)
  then show ?thesis using assms(2) by (simp add: call_def split_def)
qed

lemma call_ack:
  assumes "\<And>s. P s \<Longrightarrow> P (fst (handler s))" "P s" "call ok (attempts txt handler nets) s = (s', Inr ())"
    and "\<And>s s' status body. P s \<Longrightarrow> handler s = (s', status, body) \<Longrightarrow> int status \<in> set ok \<Longrightarrow> Q s'" "401 \<notin> set ok"
  shows "Q s'"
proof -
  have "P s \<Longrightarrow> doJSON ok None (attempts txt handler nets) s = (s', Inr x) \<Longrightarrow> Q s'" for s x
  proof (induction nets arbitrary: s)
    case (Cons y nets)
    obtain net ended where y: "y = (net, ended)" by (rule prod.exhaust)
    obtain s1 a where o: "over_net txt handler net s = (s1, a)" by (rule prod.exhaust)
    have "P s1" using assms(1) [OF Cons.prems(1)] Cons.prems(1) o by (auto simp: over_net_def split: delivery.splits prod.splits)
    then show ?case using Cons.prems Cons.IH [of s1] o assms(4) [OF Cons.prems(1)] assms(5)
      by (auto simp: attempts_def y doJSONOnce_def over_net_def split: prod.splits sum.splits http_answer.splits if_splits delivery.splits)
  qed (simp add: attempts_def)
  moreover obtain x where "doJSON ok None (attempts txt handler nets) s = (s', Inr x)"
    using assms(3) by (cases "snd (doJSON ok None (attempts txt handler nets) s)") (auto simp: call_def split: prod.splits)
  ultimately show ?thesis using assms(2) by blast
qed

lemma result_queue:
  assumes "HandleTaskResult (Some req) i c = (c', status, body)" "status \<noteq> 200"
  shows "task_queue (co_db c') = task_queue (co_db c)"
  using assms
  by (auto simp: HandleTaskResult_def TransitionTaskStatusIfRunning_def Let_def split: sum.splits if_splits prod.splits)

lemma release_queue:
  "task_safe (co_db c) (co_db (fst (HandleTaskRelease (Some w) i c)))"
  using ReleaseTask_safe [of "co_db c" i "trim_space w"]
  by (auto simp: HandleTaskRelease_def Let_def split: prod.splits sum.splits)

lemma heartbeat_queue: "task_safe (co_db c) (co_db (fst (HandleTaskHeartbeat (Some w) i c)))"
proof -
  let ?c = "put_db (fst (HeartbeatTask i (trim_space w) DefaultLongPollTimeout (co_db c))) c"
  have "task_safe (co_db ?c) (co_db (fst (co_heartbeat (trim_space w) ?c)))"
    by (rule task_safe_queue_eq) (simp add: co_heartbeat_queue)
  then have "task_safe (co_db c) (co_db (fst (co_heartbeat (trim_space w) ?c)))"
    using HeartbeatTask_safe [of "co_db c" i "trim_space w" DefaultLongPollTimeout] task_safe_trans by force
  then show ?thesis by (auto simp: HandleTaskHeartbeat_def Let_def split: prod.splits sum.splits)
qed

definition settled_row :: "string \<Rightarrow> store \<Rightarrow> bool" where
  "settled_row i d \<longleftrightarrow> (\<exists>r. task_by_id i d = Some r \<and> terminal_status (t_Status r))"

definition once_ok :: "string \<Rightarrow> link \<Rightarrow> bool" where
  "once_ok i l \<longleftrightarrow> task_ids_distinct (co_db (ln_co l)) \<and> count_list (ln_results l) 200 \<le> 1 \<and>
     (200 \<in> set (ln_results l) \<longrightarrow> settled_row i (co_db (ln_co l)))"

lemma settled_row_safe:
  assumes "task_safe d d'" "task_ids_distinct d" "settled_row i d"
  shows "settled_row i d'"
proof -
  obtain r where r: "task_by_id i d = Some r" "terminal_status (t_Status r)" using assms(3) by (auto simp: settled_row_def)
  then have "r \<in> set (task_queue d)" "t_ID r = i" using task_by_id_Some by auto
  moreover have "rows_evolve (task_queue d) (task_queue d')" "task_ids_distinct d'" using assms(1,2) by (simp_all add: task_safe_def)
  ultimately obtain r' where "r' \<in> set (task_queue d')" "t_ID r' = i" "outcome r' = outcome r"
    using rows_evolve_settled r(2) by blast
  then show ?thesis using r(2) task_by_id_unique \<open>task_ids_distinct d'\<close> by (fastforce simp: settled_row_def outcome_def)
qed

lemma once_ok_safe:
  assumes "once_ok i l" "task_safe (co_db (ln_co l)) (co_db c)"
  shows "once_ok i (l\<lparr>ln_co := c\<rparr>)"
  using assms settled_row_safe [OF assms(2)] by (auto simp: once_ok_def task_safe_def)

lemma once_ok_on_co: "once_ok i l \<Longrightarrow> (\<And>c. task_safe (co_db c) (co_db (fst (h c)))) \<Longrightarrow> once_ok i (fst (on_co h l))"
  using once_ok_safe [of i l "fst (h (ln_co l))"] by (simp add: on_co_def split_def)

lemma accepted_settles:
  assumes "HandleTaskResult (Some req) i c = (c', 200, x)" "task_ids_distinct (co_db c)"
  shows "task_ids_distinct (co_db c') \<and> settled_row i (co_db c')"
proof -
  obtain t where a: "terminal_status (NormalizeTaskResultStatus (rq_Status req))"
    "count_rows (\<lambda>r. t_ID r = i \<and> active_status (t_Status r)) (task_queue (co_db c)) \<noteq> 0"
    "task_queue (co_db c') = settled_as i (NormalizeTaskResultStatus (rq_Status req)) (co_db c)"
    using assms(1) by (rule result_accepted) blast
  obtain q where q: "q \<in> set (task_queue (co_db c))" "t_ID q = i" "active_status (t_Status q)" using a(2) by (auto simp: count_rows_0)
  let ?q = "q\<lparr>t_Status := NormalizeTaskResultStatus (rq_Status req), t_UpdatedAt := db_now (co_db c)\<rparr>"
  have in': "?q \<in> set (task_queue (co_db c'))" using q by (auto simp: a(3) settled_as_def upd_rows_def image_iff intro!: bexI [of _ q])
  have ids: "task_ids_distinct (co_db c')"
    using assms(2) by (simp add: a(3) settled_as_def task_ids_distinct_def map_upd_rows)
  from task_by_id_unique [OF ids in'] q(2) have "task_by_id i (co_db c') = Some ?q" by simp
  then show ?thesis using ids a(1) by (simp add: settled_row_def)
qed

lemma once_ok_result: "once_ok i l \<Longrightarrow> once_ok i (fst (result_handler i req l))"
proof -
  assume ok: "once_ok i l"
  obtain c status body where h: "HandleTaskResult (Some req) i (ln_co l) = (c, status, body)" by (metis prod.exhaust)
  show ?thesis
  proof (cases "status = 200")
    case True
    then have "200 \<notin> set (ln_results l)"
      using ok h result_refused [of "ln_co l" i _ "Some req"] by (auto simp: once_ok_def settled_row_def)
    then show ?thesis using ok h True accepted_settles [of req i "ln_co l" c body] by (simp add: once_ok_def result_handler_def count_list_0_iff)
  next
    case False
    have "task_safe (co_db (ln_co l)) (co_db c)" by (rule task_safe_queue_eq) (rule result_queue [OF h False])
    then show ?thesis using once_ok_safe [OF ok] False h by (simp add: result_handler_def once_ok_def)
  qed
qed

definition given_back :: "string \<Rightarrow> string \<Rightarrow> store \<Rightarrow> TaskRecord list" where
  "given_back i w d = upd_rows (\<lambda>r. t_ID r = i \<and> t_WorkerID r = Some w \<and> t_Status r = TaskStatusRunning)
     (\<lambda>r. r\<lparr>t_WorkerID := None, t_Status := TaskStatusPending, t_UpdatedAt := db_now d\<rparr>) (task_queue d)"

lemma in_given_back:
  assumes "r \<in> set (given_back i w d)" "t_Status r = TaskStatusRunning"
  shows "r \<in> set (task_queue d) \<and> \<not> (t_ID r = i \<and> t_WorkerID r = Some w)"
proof -
  obtain q where q: "q \<in> set (task_queue d)"
    "r = (if t_ID q = i \<and> t_WorkerID q = Some w \<and> t_Status q = TaskStatusRunning
          then q\<lparr>t_WorkerID := None, t_Status := TaskStatusPending, t_UpdatedAt := db_now d\<rparr> else q)"
    using assms(1) by (auto simp: given_back_def set_upd_rows)
  then show ?thesis using assms(2) by (cases "t_ID q = i \<and> t_WorkerID q = Some w \<and> t_Status q = TaskStatusRunning") (auto simp: task_status_distinct)
qed

lemma released_queue:
  "task_queue (co_db (fst (HandleTaskRelease (Some raw) i c))) \<in> {task_queue (co_db c), given_back i (trim_space raw) (co_db c)}"
  by (simp add: HandleTaskRelease_def ReleaseTask_def given_back_def Let_def)

lemma release_answered:
  assumes "HandleTaskRelease (Some raw) i c = (c', 204, x)"
  shows "task_queue (co_db c') = given_back i (trim_space raw) (co_db c)"
proof -
  obtain d r where rel: "ReleaseTask i (trim_space raw) (co_db c) = (d, r)" by (rule prod.exhaust)
  have "r \<noteq> Inl e" for e using assms rel by (auto simp: HandleTaskRelease_def Let_def split: if_splits)
  then have "task_queue d = given_back i (trim_space raw) (co_db c)"
    using rel [symmetric] by (cases r) (simp_all add: ReleaseTask_def given_back_def Let_def split: if_splits)
  moreover have "co_db c' = d" using assms rel by (auto simp: HandleTaskRelease_def Let_def split: if_splits sum.splits)
  ultimately show ?thesis by simp
qed

lemma release_status: "fst (snd (HandleTaskRelease (Some raw) i c)) \<noteq> 200"
  by (simp add: HandleTaskRelease_def ReleaseTask_def Let_def)

lemma not_held_safe: "not_held w i l \<Longrightarrow> not_held w i (fst (on_co (HandleTaskRelease (Some raw) i) l))"
  using released_queue [of raw i "ln_co l"]
  by (auto simp: not_held_def on_co_def split_def dest!: in_given_back)

lemma settled_not_held:
  assumes "task_queue d' = settled_as i status d" "terminal_status status" "r \<in> set (task_queue d')" "t_ID r = i"
  shows "t_Status r \<noteq> TaskStatusRunning"
proof -
  obtain q where q: "r = (if t_ID q = i \<and> active_status (t_Status q) then q\<lparr>t_Status := status, t_UpdatedAt := db_now d\<rparr> else q)"
    using assms(1,3) by (auto simp: settled_as_def set_upd_rows)
  have "\<not> active_status status" using assms(2) terminal_not_active by blast
  then show ?thesis using q assms(4) by (cases "t_ID q = i \<and> active_status (t_Status q)") (auto simp: active_status_def)
qed

interpretation remote: acknowledging_client "client_Heartbeat txt worker i" "client_ReleaseTask txt worker i"
  "SubmitResult txt i" "once_ok i" "not_held (trim_space worker) i"
proof
  fix s net why req s'
  show "once_ok i s \<Longrightarrow> once_ok i (fst (client_Heartbeat txt worker i net s))"
    unfolding client_Heartbeat_def by (rule call_keeps) (rule once_ok_on_co, assumption, rule heartbeat_queue)
  show "once_ok i s \<Longrightarrow> once_ok i (fst (client_ReleaseTask txt worker i net why s))"
    unfolding client_ReleaseTask_def by (rule call_keeps) (rule once_ok_on_co, assumption, rule release_queue)
  show "once_ok i s \<Longrightarrow> once_ok i (fst (SubmitResult txt i net req s))"
    unfolding SubmitResult_def by (rule call_keeps) (rule once_ok_result)
  show "not_held (trim_space worker) i s \<Longrightarrow> not_held (trim_space worker) i (fst (client_ReleaseTask txt worker i net why s))"
    unfolding client_ReleaseTask_def by (rule call_keeps) (rule not_held_safe)
  show "client_ReleaseTask txt worker i net why s = (s', Inr ()) \<Longrightarrow> not_held (trim_space worker) i s'"
    unfolding client_ReleaseTask_def
  proof (erule call_ack [where P = "\<lambda>_. True", rotated 2])
    fix l l' :: link and status :: nat and body
    assume a: "on_co (HandleTaskRelease (Some worker) i) l = (l', status, body)" "int status \<in> set [200, 204]"
    then have "HandleTaskRelease (Some worker) i (ln_co l) = (ln_co l', 204, body)"
      using release_status [of worker i "ln_co l"] by (auto simp: on_co_def split: prod.splits)
    then have "task_queue (co_db (ln_co l')) = given_back i (trim_space worker) (co_db (ln_co l))" by (rule release_answered)
    then show "not_held (trim_space worker) i l'" by (auto simp: not_held_def dest!: in_given_back)
  qed simp_all
  show "SubmitResult txt i net req s = (s', Inr ()) \<Longrightarrow> not_held (trim_space worker) i s'"
    unfolding SubmitResult_def
  proof (erule call_ack [where P = "\<lambda>_. True", rotated 2])
    fix l l' :: link and status :: nat and body
    assume "result_handler i req l = (l', status, body)" "int status \<in> set [200]"
    then have "HandleTaskResult (Some req) i (ln_co l) = (ln_co l', 200, body)" by (auto simp: result_handler_def split: prod.splits)
    then obtain "terminal_status (NormalizeTaskResultStatus (rq_Status req))"
      "task_queue (co_db (ln_co l')) = settled_as i (NormalizeTaskResultStatus (rq_Status req)) (co_db (ln_co l))" by (rule result_accepted) auto
    then show "not_held (trim_space worker) i l'" unfolding not_held_def using settled_not_held by blast
  qed simp_all
qed

section \<open>Properties\<close>

text \<open>C6. A worker's work on a task has one outcome at the coordinator, whatever the agent does, whenever
  the worker is shut down and whatever requests and replies the network loses: at most one of the
  submissions it sends is accepted, and when it reports success the task is settled or given
  back, so that no task is left running under a worker that has finished with it.\<close>

theorem worker_outcome_once:
  assumes "task_ids_distinct (co_db c)"
    and "ExecuteTask (client_Heartbeat txt worker i) (client_ReleaseTask txt worker i) (SubmitResult txt i) deps env task
           \<lparr>ln_co = c, ln_results = []\<rparr> = (l, reports, res)"
  shows "count_list (ln_results l) 200 \<le> 1 \<and> (200 \<in> set (ln_results l) \<longrightarrow> settled_row i (co_db (ln_co l))) \<and>
    (res = Inr () \<longrightarrow> not_held (trim_space worker) i l)"
proof -
  have ok: "once_ok i \<lparr>ln_co = c, ln_results = []\<rparr>" using assms(1) by (simp add: once_ok_def)
  have "once_ok i l" using remote.ExecuteTask_sane [OF ok] assms(2) by (metis fst_conv)
  then show ?thesis using remote.ExecuteTask_ack [OF ok] assms(2) by (auto simp: once_ok_def)
qed

text \<open>What the worker makes of a submission that was accepted but whose reply was lost.\<close>

definition settled_link :: "string \<Rightarrow> link \<Rightarrow> bool" where
  "settled_link i l \<longleftrightarrow> task_ids_distinct (co_db (ln_co l)) \<and> settled_row i (co_db (ln_co l))"

lemma settled_link_refuses: "settled_link i l \<Longrightarrow> fst (snd (HandleTaskResult (Some req) i (ln_co l))) \<noteq> 200"
  using result_refused by (auto simp: settled_link_def settled_row_def)

lemma settled_link_kept:
  assumes "settled_link i l"
  shows "settled_link i (fst (result_handler i req l))"
proof -
  obtain c status body where h: "HandleTaskResult (Some req) i (ln_co l) = (c, status, body)" by (metis prod.exhaust)
  have "task_queue (co_db c) = task_queue (co_db (ln_co l))" using result_queue [OF h] settled_link_refuses [OF assms, of req] h by simp
  then show ?thesis using assms h by (simp add: settled_link_def result_handler_def settled_row_def task_by_id_def task_ids_distinct_def)
qed

lemma resubmission_refused:
  assumes "settled_link i l" "call [200] (attempts txt (result_handler i req) nets) l = (l', r)"
  shows "settled_link i l' \<and> r \<noteq> Inr ()"
proof -
  have "settled_link i (fst (call [200] (attempts txt (result_handler i req) nets) l))"
    by (rule call_keeps [where P = "settled_link i"]) (rule settled_link_kept, assumption, rule assms(1))
  then have "settled_link i l'" by (simp add: assms(2))
  moreover have False if "r = Inr ()"
  proof (rule call_ack [where P = "settled_link i" and Q = "\<lambda>_. False" and ok = "[200]"])
    show "settled_link i l" by (rule assms(1))
    show "settled_link i (fst (result_handler i req s))" if "settled_link i s" for s using that by (rule settled_link_kept)
    show "call [200] (attempts txt (result_handler i req) nets) l = (l', Inr ())" using assms(2) that by simp
    show "False" if "settled_link i s" "result_handler i req s = (s', status, body)" "int status \<in> set [200]" for s s' status body
      using that settled_link_refuses [of i s req] by (auto simp: result_handler_def split: prod.splits)
  qed simp
  ultimately show ?thesis by blast
qed

lemma resubmissions_refused:
  "settled_link i l \<Longrightarrow> snd (submitTries (\<lambda>net. SubmitResult txt i net req) tries attempt left l) \<noteq> Inr ()"
proof (induction left arbitrary: attempt l)
  case (Suc left)
  obtain net dead later where t: "tries attempt = (net, dead, later)" by (metis prod.exhaust)
  obtain l' r where c: "SubmitResult txt i net req l = (l', r)" by (rule prod.exhaust)
  have "settled_link i l' \<and> r \<noteq> Inr ()"
    using resubmission_refused [OF Suc.prems] c unfolding SubmitResult_def by blast
  then show ?case using Suc.IH by (cases r) (auto simp: t c)
qed simp

text \<open>A lost reply turns an accepted result into a reported failure: when the coordinator accepts a
  submission and its reply is lost, every further submission is refused, so the worker ends with an
  error although the task is settled.\<close>

theorem lost_reply_misreported:
  assumes "task_ids_distinct (co_db c)" "HandleTaskResult (Some req) i c = (c', 200, x)"
    and "tries 1 = ((ReplyLost t, False) # nets, dead, later)"
  shows "snd (submitResultWithRetry (\<lambda>net. SubmitResult txt i net req) tries \<lparr>ln_co = c, ln_results = []\<rparr>) \<noteq> Inr ()"
proof -
  let ?l0 = "\<lparr>ln_co = c, ln_results = []\<rparr>"
  define l where "l = fst (result_handler i req ?l0)"
  have "settled_link i l" using accepted_settles [OF assms(2,1)] by (simp add: l_def result_handler_def assms(2) settled_link_def)
  have "SubmitResult txt i ((ReplyLost t, False) # nets) req ?l0 = SubmitResult txt i nets req l"
    by (simp add: SubmitResult_def call_def attempts_def over_net_def doJSONOnce_def isRetryable_def l_def)
  moreover obtain l' r where c: "SubmitResult txt i nets req l = (l', r)" by (rule prod.exhaust)
  moreover have "settled_link i l' \<and> r \<noteq> Inr ()"
    using resubmission_refused [OF \<open>settled_link i l\<close>] c unfolding SubmitResult_def by blast
  moreover have three: "submitResultMaxAttempts = Suc 2" by (simp add: submitResultMaxAttempts_def)
  ultimately show ?thesis using resubmissions_refused [of i l' "txt" req tries]
    unfolding submitResultWithRetry_def three submitTries.simps(2) assms(3) by (cases r) auto
qed

definition demo_remote_task :: remote_task where
  "demo_remote_task = \<lparr>rm_TaskID = ''t1'', rm_Repo = ''o/r'', rm_IssueNum = 7, rm_AgentName = ''dev'', rm_Workflow = ''w'', rm_State = ''developing'',
     rm_RolloutIndex = 0, rm_RolloutsTotal = 0, rm_RolloutGroupID = [], rm_Synthesis = None, rm_Agent = Some empty_agent\<rparr>"

definition demo_deps :: worker_deps where
  "demo_deps = \<lparr>wd_Config = None, wd_Executor = True, wd_Client = True, wd_Reporter = True, wd_WorkDir = ''/repo'', wd_WorkerID = ''A'',
     wd_RuntimeAlias = [], wd_Workspace = True\<rparr>"

definition demo_run_env :: "(delivery \<times> bool) list run_env" where
  "demo_run_env = \<lparr>re_exec = demo_exec_env, re_issue = None, re_beats = [], re_bg = NoRelease, re_dead = False, re_partial = False,
     re_release = [(Delivered, False)], re_tries = (\<lambda>n. ([(if n = 1 then ReplyLost ''timeout'' else Delivered, True)], False, False))\<rparr>"

theorem worker_outcome_once_witness:
  "let (l, reports, res) = ExecuteTask (client_Heartbeat (\<lambda>_. []) ''A'' ''t1'') (client_ReleaseTask (\<lambda>_. []) ''A'' ''t1'')
     (SubmitResult (\<lambda>_. []) ''t1'') demo_deps demo_run_env (Some demo_remote_task) \<lparr>ln_co = demo_coordinator, ln_results = []\<rparr>
   in ln_results l = [200, 409, 409] \<and> count_list (ln_results l) 200 \<le> 1 \<and> settled_row ''t1'' (co_db (ln_co l))"
proof -
  let ?run = "ExecuteTask (client_Heartbeat (\<lambda>_. []) ''A'' ''t1'') (client_ReleaseTask (\<lambda>_. []) ''A'' ''t1'')
     (SubmitResult (\<lambda>_. []) ''t1'') demo_deps demo_run_env (Some demo_remote_task) \<lparr>ln_co = demo_coordinator, ln_results = []\<rparr>"
  obtain l reports res where r: "?run = (l, reports, res)" by (metis prod.exhaust)
  have "ln_results (fst ?run) = [200, 409, 409]" by code_simp
  moreover have "task_ids_distinct (co_db demo_coordinator)" unfolding task_ids_distinct_def by code_simp
  ultimately show ?thesis using worker_outcome_once [OF _ r] r by (simp add: Let_def)
qed

theorem lost_reply_misreported_witness:
  "fst (snd (HandleTaskResult (Some demo_result) ''t1'' demo_coordinator)) = 200 \<and>
   snd (submitResultWithRetry (\<lambda>net. SubmitResult (\<lambda>_. []) ''t1'' net demo_result) (\<lambda>_. ([(ReplyLost ''timeout'', False), (Delivered, False)], False, False))
     \<lparr>ln_co = demo_coordinator, ln_results = []\<rparr>) \<noteq> Inr ()"
proof -
  have a: "fst (snd (HandleTaskResult (Some demo_result) ''t1'' demo_coordinator)) = 200" by code_simp
  then obtain c' x where r: "HandleTaskResult (Some demo_result) ''t1'' demo_coordinator = (c', 200, x)" by (metis prod.collapse)
  have "task_ids_distinct (co_db demo_coordinator)" unfolding task_ids_distinct_def by code_simp
  note spec = lost_reply_misreported [OF this r, where tries = "\<lambda>_. ([(ReplyLost ''timeout'', False), (Delivered, False)], False, False)"]
  from spec [OF refl, of "\<lambda>_. []"] a show ?thesis by blast
qed

end
