(* ===== verification/Worker_Resume.thy ===== *)
theory Worker_Resume
  imports Prelude
begin

text \<open>
  Resuming the agents of a restarted worker (\<^verbatim>\<open>internal/worker/resume.go\<close>).

  The supervisor is an interface: its answers to the two status requests and the stream it sends
  are arguments. The event file is the list of its lines, \<open>None\<close> when it does not exist; a write
  that fails is marked in the stream. Tasks are resumed independently of each other.
\<close>

section \<open>Operations\<close>

record InFlightTask =
  fl_TaskID :: string
  fl_SupervisorAgentID :: string
  fl_EventsV1Path :: string

datatype sup_status = StatusOK string | StatusNotFound | StatusError string

datatype stream_end = StreamClosed | StreamNotFound | StreamCanceled | StreamFailed string

text \<open>An event of the stream: offset, line, and whether writing the line would fail.\<close>

type_synonym stream_event = "int \<times> string \<times> bool"

record supervisor =
  su_status :: sup_status
  su_stream :: "stream_event list"
  su_end :: stream_end
  su_final :: sup_status

datatype resume_error =
    NoAgentID
  | SupervisorStatus string
  | UnexpectedStatus_of string
  | CountLines
  | OpenEvents
  | AppendEvents
  | StreamEvents string
  | StatusAfterClose string

datatype resume_outcome = OnFailed string | OnExited | Nothing | ResumeError resume_error

record event_file =
  ef_lines :: "string list option"
  ef_opens :: bool

definition scan_limit :: nat where "scan_limit = 1024 * 1024"

text \<open>The scanner counts lines and fails on one that does not fit its buffer.\<close>

definition countEventLines :: "string \<Rightarrow> event_file \<Rightarrow> resume_error + int" where
  "countEventLines path f =
     (if path = [] then Inr 0
      else case ef_lines f of
             None \<Rightarrow> Inr 0
           | Some ls \<Rightarrow> if list_ex (\<lambda>l. length l \<ge> scan_limit) ls then Inl CountLines else Inr (int (length ls)))"

text \<open>The callback of the stream: the offset reached and the lines written; \<open>Some\<close> stops the stream.\<close>

fun appendEvents :: "int \<Rightarrow> stream_event list \<Rightarrow> string list \<Rightarrow> int \<times> string list \<times> bool" where
  "appendEvents from [] out = (from, out, False)"
| "appendEvents from ((off, line, bad) # evs) out =
     (if off \<le> from then appendEvents from evs out
      else if bad then (from, out, True)
      else appendEvents off evs (out @ [line]))"

definition agent_reason :: "string \<Rightarrow> string \<Rightarrow> string \<Rightarrow> string" where
  "agent_reason before i after = before @ i @ after"

definition resumeRunning :: "supervisor \<Rightarrow> InFlightTask \<Rightarrow> event_file \<Rightarrow> event_file \<times> resume_outcome" where
  "resumeRunning sv t f =
     (case countEventLines (fl_EventsV1Path t) f of
        Inl e \<Rightarrow> (f, ResumeError e)
      | Inr from \<Rightarrow>
         if fl_EventsV1Path t \<noteq> [] \<and> \<not> ef_opens f then (f, ResumeError OpenEvents)
         else
           (case appendEvents from (su_stream sv) (case ef_lines f of None \<Rightarrow> [] | Some ls \<Rightarrow> ls) of
              (_, lines, failed) \<Rightarrow>
                (let f' = (if fl_EventsV1Path t = [] then f else f\<lparr>ef_lines := Some lines\<rparr>);
                     agent = fl_SupervisorAgentID t
                 in (f', if failed then ResumeError AppendEvents
                         else case su_end sv of
                                StreamNotFound \<Rightarrow> OnFailed (agent_reason ''supervisor lost agent '' agent '' mid-resume'')
                              | StreamCanceled \<Rightarrow> Nothing
                              | StreamFailed e \<Rightarrow> ResumeError (StreamEvents e)
                              | StreamClosed \<Rightarrow>
                                  (case su_final sv of
                                     StatusNotFound \<Rightarrow> OnFailed (agent_reason ''supervisor lost agent '' agent '' after stream close'')
                                   | StatusError e \<Rightarrow> ResumeError (StatusAfterClose e)
                                   | StatusOK st \<Rightarrow> if st = ''exited'' then OnExited else Nothing)))))"

definition resumeOne :: "supervisor \<Rightarrow> InFlightTask \<Rightarrow> event_file \<Rightarrow> event_file \<times> resume_outcome" where
  "resumeOne sv t f =
     (if fl_SupervisorAgentID t = [] then (f, ResumeError NoAgentID)
      else case su_status sv of
             StatusNotFound \<Rightarrow> (f, OnFailed (agent_reason ''supervisor does not recognize agent '' (fl_SupervisorAgentID t) []))
           | StatusError e \<Rightarrow> (f, ResumeError (SupervisorStatus e))
           | StatusOK st \<Rightarrow>
               if st = ''exited'' then (f, OnExited)
               else if st = ''running'' then resumeRunning sv t f
               else (f, ResumeError (UnexpectedStatus_of st)))"

section \<open>The event file\<close>

text \<open>What the supervisor promises: the event at an offset is that line of its log, and it leaves no gap
  after the offset it was asked to start from. It may send lines again, whatever they are then.\<close>

fun faithful_stream :: "string list \<Rightarrow> int \<Rightarrow> stream_event list \<Rightarrow> bool" where
  "faithful_stream log from [] \<longleftrightarrow> True"
| "faithful_stream log from ((off, line, bad) # evs) \<longleftrightarrow>
     1 \<le> off \<and> off \<le> int (length log) \<and> (from < off \<longrightarrow> line = log ! nat (off - 1)) \<and> off \<le> from + 1 \<and> faithful_stream log (max from off) evs"

lemma appendEvents_prefix:
  assumes "faithful_stream log (int n) evs" "n \<le> length log" "appendEvents (int n) evs (take n log) = (from, out, failed)"
  shows "\<exists>m. n \<le> m \<and> m \<le> length log \<and> out = take m log \<and> from = int m"
  using assms
proof (induction evs arbitrary: n)
  case Nil
  then show ?case by auto
next
  case (Cons ev evs)
  obtain off line bad where ev: "ev = (off, line, bad)" by (metis prod.exhaust)
  show ?case
  proof (cases "off \<le> int n")
    case True
    then show ?thesis using Cons ev by (auto simp: max_absorb1)
  next
    case False
    then have "off = int (Suc n)" using Cons.prems(1) ev by auto
    then have off: "off = int (Suc n)" "n < length log" "line = log ! n" using Cons.prems(1) ev by auto
    then have rest: "faithful_stream log (int (Suc n)) evs" using Cons.prems(1) ev by (simp add: max_absorb2)
    show ?thesis
    proof (cases bad)
      case True
      then show ?thesis using Cons.prems ev off False by auto
    next
      case False
      then have "appendEvents (int (Suc n)) evs (take (Suc n) log) = (from, out, failed)"
        using Cons.prems(3) ev off by (simp add: take_Suc_conv_app_nth)
      then show ?thesis using Cons.IH [OF rest] off(2) by fastforce
    qed
  qed
qed

text \<open>Resuming an agent never duplicates, drops or reorders its events: when the file holds a
  beginning of the supervisor's log and the supervisor streams without gaps from where the file
  ends, possibly sending lines again, then the file holds a beginning of the log afterwards,
  at least as long as before, whatever cuts the stream short.\<close>

lemma resume_file:
  assumes "ef_lines f = Some (take n log)" "n \<le> length log" "fl_EventsV1Path t \<noteq> []"
    and "faithful_stream log (int n) (su_stream sv)" "resumeOne sv t f = (f', res)"
  shows "\<exists>m. n \<le> m \<and> m \<le> length log \<and> ef_lines f' = Some (take m log)"
proof -
  have "\<exists>m. n \<le> m \<and> m \<le> length log \<and> ef_lines (fst (resumeRunning sv t f)) = Some (take m log)"
  proof (cases "countEventLines (fl_EventsV1Path t) f")
    case (Inr k)
    then have k: "k = int n" using assms(1-3) by (auto simp: countEventLines_def min_absorb2 split: if_splits)
    obtain fr out failed where a: "appendEvents (int n) (su_stream sv) (take n log) = (fr, out, failed)" by (metis prod.exhaust)
    then show ?thesis using appendEvents_prefix [OF assms(4,2) a] assms(1-3) Inr k by (auto simp: resumeRunning_def Let_def)
  qed (use assms(1,2) in \<open>auto simp: resumeRunning_def\<close>)
  then show ?thesis using assms(1,2,5) by (auto simp: resumeOne_def split: if_splits sup_status.splits)
qed

end
