(* ===== verification/Notifications.thy ===== *)
theory Notifications
  imports SM_Types
begin

text \<open>
  Outgoing notifications: the alert bus and the task hub (\<^verbatim>\<open>internal/alertbus\<close>,
  \<^verbatim>\<open>internal/tasknotify\<close>), which are the same publisher with different events and buffers, and
  the notifier behind them (\<^verbatim>\<open>internal/notifier\<close>).

  \<^item> A publisher copies the channels under the mutex and sends after releasing it; an unsubscriber
    removes a channel under the mutex and closes it after. These sections are single steps.
    Sending on a closed channel panics.
  \<^item> The notifier's map of keys is an association list with distinct keys. What a sender answers
    is an argument; the text of a message is a parameter (\<open>msg\<close>).
\<close>

section \<open>Publishers\<close>

record 'e pubsub =
  ps_nextID :: nat
  ps_buffer :: nat
  ps_subscribers :: "nat list"
  ps_channels :: "(nat \<times> 'e list) list"
  ps_closed :: "nat list"
  ps_sending :: "('e \<times> nat list) list"
  ps_panic :: bool

definition new_pubsub :: "nat \<Rightarrow> 'e pubsub" where
  "new_pubsub buffer = \<lparr>ps_nextID = 0, ps_buffer = buffer, ps_subscribers = [], ps_channels = [], ps_closed = [], ps_sending = [], ps_panic = False\<rparr>"

definition NewBus :: "int \<Rightarrow> 'e pubsub" where
  "NewBus buffer = new_pubsub (nat (if buffer \<le> 0 then 64 else buffer))"

definition NewHub :: "'e pubsub" where
  "NewHub = new_pubsub 1"

definition Subscribe :: "'e pubsub \<Rightarrow> 'e pubsub \<times> nat" where
  "Subscribe b =
     (let i = ps_nextID b + 1
      in (b\<lparr>ps_nextID := i, ps_subscribers := ps_subscribers b @ [i], ps_channels := AList.update i [] (ps_channels b)\<rparr>, i))"

definition unsubscribe_remove :: "nat \<Rightarrow> 'e pubsub \<Rightarrow> 'e pubsub" where
  "unsubscribe_remove i b = b\<lparr>ps_subscribers := removeAll i (ps_subscribers b)\<rparr>"

definition unsubscribe_close :: "nat \<Rightarrow> 'e pubsub \<Rightarrow> 'e pubsub" where
  "unsubscribe_close i b = b\<lparr>ps_closed := i # ps_closed b\<rparr>"

definition publish_begin :: "'e \<Rightarrow> 'e pubsub \<Rightarrow> 'e pubsub" where
  "publish_begin ev b = b\<lparr>ps_sending := ps_sending b @ [(ev, ps_subscribers b)]\<rparr>"

text \<open>The publisher at position \<open>k\<close> sends to its next channel, without blocking.\<close>

definition publish_send :: "nat \<Rightarrow> 'e pubsub \<Rightarrow> 'e pubsub" where
  "publish_send k b =
     (case ps_sending b ! k of
        (ev, []) \<Rightarrow> b
      | (ev, i # is) \<Rightarrow>
         (let b1 = b\<lparr>ps_sending := (ps_sending b)[k := (ev, is)]\<rparr>;
              q = (case map_of (ps_channels b) i of None \<Rightarrow> [] | Some q \<Rightarrow> q)
          in if i \<in> set (ps_closed b) then b1\<lparr>ps_panic := True\<rparr>
             else if length q < ps_buffer b then b1\<lparr>ps_channels := AList.update i (q @ [ev]) (ps_channels b)\<rparr>
             else b1))"

definition receive :: "nat \<Rightarrow> 'e pubsub \<Rightarrow> 'e pubsub" where
  "receive i b = b\<lparr>ps_channels := AList.update i (case map_of (ps_channels b) i of None \<Rightarrow> [] | Some q \<Rightarrow> tl q) (ps_channels b)\<rparr>"

text \<open>The steps; the first argument says whether consumers may unsubscribe.\<close>

inductive pub_step :: "bool \<Rightarrow> 'e pubsub \<Rightarrow> 'e pubsub \<Rightarrow> bool" for leave where
  pu_subscribe: "pub_step leave b (fst (Subscribe b))"
| pu_remove: "leave \<Longrightarrow> i \<in> set (ps_subscribers b) \<Longrightarrow> pub_step leave b (unsubscribe_remove i b)"
| pu_close: "leave \<Longrightarrow> 0 < i \<Longrightarrow> i \<notin> set (ps_subscribers b) \<Longrightarrow> i \<le> ps_nextID b \<Longrightarrow> i \<notin> set (ps_closed b) \<Longrightarrow> pub_step leave b (unsubscribe_close i b)"
| pu_begin: "pub_step leave b (publish_begin ev b)"
| pu_send: "k < length (ps_sending b) \<Longrightarrow> pub_step leave b (publish_send k b)"
| pu_receive: "pub_step leave b (receive i b)"

definition pub_ok :: "'e pubsub \<Rightarrow> bool" where
  "pub_ok b \<longleftrightarrow> (\<forall>i q. map_of (ps_channels b) i = Some q \<longrightarrow> length q \<le> ps_buffer b)"

lemma pub_step_ok: "pub_step leave b b' \<Longrightarrow> pub_ok b \<Longrightarrow> pub_ok b' \<and> ps_buffer b' = ps_buffer b"
proof (induction rule: pub_step.induct)
  case (pu_receive b i)
  then show ?case by (auto simp: receive_def pub_ok_def update_conv' split: option.splits) (meson diff_le_self le_trans)
qed (auto simp: pub_ok_def Subscribe_def Let_def update_conv' unsubscribe_remove_def unsubscribe_close_def publish_begin_def publish_send_def
     split: prod.splits list.splits option.splits if_splits)

lemma pub_step_calm:
  "pub_step False b b' \<Longrightarrow> ps_closed b = [] \<and> \<not> ps_panic b \<Longrightarrow> ps_closed b' = [] \<and> \<not> ps_panic b'"
  by (induction rule: pub_step.induct)
     (auto simp: Subscribe_def Let_def receive_def publish_begin_def publish_send_def split: prod.splits list.splits)

lemma publisher_contract:
  assumes "(pub_step leave)\<^sup>*\<^sup>* (new_pubsub n) b"
  shows "pub_ok b \<and> ps_buffer b = n \<and> (\<not> leave \<longrightarrow> \<not> ps_panic b)"
proof -
  have "pub_ok b \<and> ps_buffer b = n" using assms
    by (induction rule: rtranclp_induct) (auto simp: new_pubsub_def pub_ok_def dest: pub_step_ok)
  moreover have "\<not> ps_panic b" if "\<not> leave"
  proof -
    have "ps_closed b = [] \<and> \<not> ps_panic b" using assms that
      by (induction rule: rtranclp_induct) (auto simp: new_pubsub_def dest!: pub_step_calm)
    then show ?thesis by simp
  qed
  ultimately show ?thesis by blast
qed

text \<open>C35. Publishing races with unsubscribing: there is a run of the alert bus, and of the task hub, in
  which a consumer leaves between a publisher's copy of the channels and its send, and the
  send on the closed channel panics. Without unsubscribing no run panics, and no channel ever
  holds more than its buffer.\<close>

theorem publish_unsubscribe_race:
  "(\<exists>b. (pub_step True)\<^sup>*\<^sup>* (NewBus n :: AlertEvent pubsub) b \<and> ps_panic b) \<and>
   (\<exists>b. (pub_step True)\<^sup>*\<^sup>* (NewHub :: AlertEvent pubsub) b \<and> ps_panic b) \<and>
   (\<nexists>b. (pub_step False)\<^sup>*\<^sup>* (NewBus n :: AlertEvent pubsub) b \<and> ps_panic b)"
proof -
  have race: "\<exists>b. (pub_step True)\<^sup>*\<^sup>* (new_pubsub m :: AlertEvent pubsub) b \<and> ps_panic b" for m
  proof -
    fix ev :: AlertEvent
    let ?b0 = "new_pubsub m :: AlertEvent pubsub"
    let ?b1 = "fst (Subscribe ?b0)"
    let ?b2 = "publish_begin ev ?b1"
    let ?b3 = "unsubscribe_remove 1 ?b2"
    let ?b4 = "unsubscribe_close 1 ?b3"
    let ?b5 = "publish_send 0 ?b4"
    note defs = new_pubsub_def Subscribe_def Let_def publish_begin_def unsubscribe_remove_def unsubscribe_close_def publish_send_def
    have "pub_step True ?b0 ?b1" "pub_step True ?b1 ?b2" by (rule pu_subscribe, rule pu_begin)
    moreover have "pub_step True ?b2 ?b3" by (rule pu_remove) (simp_all add: defs)
    moreover have "pub_step True ?b3 ?b4" by (rule pu_close) (simp_all add: defs)
    moreover have "pub_step True ?b4 ?b5" by (rule pu_send) (simp add: defs)
    ultimately have "(pub_step True)\<^sup>*\<^sup>* ?b0 ?b5" by (meson converse_rtranclp_into_rtranclp rtranclp.rtrancl_refl)
    moreover have "ps_panic ?b5" by (simp add: defs)
    ultimately show ?thesis by blast
  qed
  show ?thesis unfolding NewBus_def NewHub_def using race publisher_contract by blast
qed

section \<open>From tasks to alerts\<close>

definition notifierQueueSize :: nat where "notifierQueueSize = 64"
definition notifierBatchMaxSize :: nat where "notifierBatchMaxSize = 16"
definition retryAttempts :: nat where "retryAttempts = 3"
definition retryDelay :: duration where "retryDelay = 5 * second"
definition defaultDedupWindow :: duration where "defaultDedupWindow = 5 * minute"
definition pruneEveryN :: nat where "pruneEveryN = 100"
definition KindAgentExitNonZero :: string where "KindAgentExitNonZero = ''agent_exit_non_zero''"
definition KindRepeatedFailure :: string where "KindRepeatedFailure = ''repeated_failure''"
definition KindTaskCompletedSuccess :: string where "KindTaskCompletedSuccess = ''task_completed''"
definition TypeNotificationFailed :: string where "TypeNotificationFailed = ''notification_failed''"

record TaskEvent =
  te_TaskID :: string
  te_Repo :: string
  te_IssueNum :: int
  te_AgentName :: string
  te_Status :: string
  te_ExitCode :: int
  te_CompletedAt :: time

record NotificationsConfig =
  nc_Enabled :: bool
  nc_InstanceName :: string
  nc_DedupWindow :: duration
  nc_BatchWindow :: duration
  nc_Success :: bool

record Notifier =
  no_enabled :: bool
  no_instanceName :: string
  no_dedupWindow :: duration
  no_batchWindow :: duration
  no_successNotify :: bool
  no_senders :: nat
  no_incoming :: "AlertEvent list"
  no_dedup :: "(string \<times> time) list"
  no_failureCounters :: "(string \<times> int) list"
  no_log :: "Event list"

text \<open>\<^verbatim>\<open>New\<close>: \<open>senders\<close> is the number of senders the enabled channels give, or an error of building one.\<close>

definition New :: "NotificationsConfig \<Rightarrow> string + nat \<Rightarrow> string + Notifier" where
  "New cfg senders =
     (let n = \<lparr>no_enabled = nc_Enabled cfg,
               no_instanceName = (if trim_space (nc_InstanceName cfg) = [] then ''workbuddy'' else trim_space (nc_InstanceName cfg)),
               no_dedupWindow = (if nc_DedupWindow cfg \<le> 0 then defaultDedupWindow else nc_DedupWindow cfg),
               no_batchWindow = (if nc_BatchWindow cfg < 0 then 0 else nc_BatchWindow cfg), no_successNotify = nc_Success cfg,
               no_senders = 0, no_incoming = [], no_dedup = [], no_failureCounters = [], no_log = []\<rparr>
      in if \<not> nc_Enabled cfg then Inr n
         else case senders of Inl e \<Rightarrow> Inl e | Inr k \<Rightarrow> Inr (n\<lparr>no_senders := k\<rparr>))"

definition enqueue :: "AlertEvent \<Rightarrow> Notifier \<Rightarrow> Notifier" where
  "enqueue ev n = (if length (no_incoming n) < notifierQueueSize then n\<lparr>no_incoming := no_incoming n @ [ev]\<rparr> else n)"

definition eventDedupKey :: "string \<Rightarrow> int \<Rightarrow> string \<Rightarrow> string" where
  "eventDedupKey repo issueNum kind = join_with ''#'' [repo, itoa issueNum, kind]"

definition repeatFailureKey :: "string \<Rightarrow> int \<Rightarrow> string" where
  "repeatFailureKey repo issueNum = eventDedupKey repo issueNum KindAgentExitNonZero"

definition unix_seconds :: "time \<Rightarrow> int" where
  "unix_seconds t = t div second"

definition taskEventToAlertEvent :: "TaskEvent \<Rightarrow> bool \<Rightarrow> AlertEvent option" where
  "taskEventToAlertEvent t notifySuccess =
     (let ev = (\<lambda>kind severity. \<lparr>al_Kind = kind, al_Severity = severity, al_Repo = te_Repo t, al_IssueNum = te_IssueNum t,
            al_AgentName = te_AgentName t, al_Timestamp = unix_seconds (te_CompletedAt t),
            al_Payload = [(''task_id'', PStr (te_TaskID t)), (''status'', PStr (te_Status t)), (''exit_code'', PInt (te_ExitCode t))]\<rparr>)
      in if te_Status t = TaskStatusCompleted
         then (if te_ExitCode t \<noteq> 0 then Some (ev KindAgentExitNonZero SeverityError)
               else if \<not> notifySuccess then None
               else Some (ev KindTaskCompletedSuccess SeverityInfo))
         else if te_Status t = TaskStatusTimeout \<or> te_Status t = TaskStatusFailed then Some (ev KindAgentExitNonZero SeverityError)
         else None)"

definition maybeEmitRepeatedFailure :: "AlertEvent \<Rightarrow> Notifier \<Rightarrow> Notifier" where
  "maybeEmitRepeatedFailure ev n =
     (if al_Kind ev \<noteq> KindAgentExitNonZero then n
      else
        (let key = repeatFailureKey (al_Repo ev) (al_IssueNum ev);
             count = (case map_of (no_failureCounters n) key of None \<Rightarrow> 0 | Some k \<Rightarrow> k) + 1;
             n1 = n\<lparr>no_failureCounters := AList.update key count (no_failureCounters n)\<rparr>
         in if count \<le> 1 then n1
            else enqueue (ev\<lparr>al_Kind := KindRepeatedFailure, al_Severity := SeverityWarn,
                   al_Payload := AList.update ''failure_count'' (PInt count) (al_Payload ev)\<rparr>) n1))"

definition taskPump :: "TaskEvent \<Rightarrow> Notifier \<Rightarrow> Notifier" where
  "taskPump t n =
     (case taskEventToAlertEvent t (no_successNotify n) of
        None \<Rightarrow> n
      | Some alert \<Rightarrow> enqueue alert (maybeEmitRepeatedFailure alert n))"

section \<open>Duplicates\<close>

definition pruneStale :: "time \<Rightarrow> Notifier \<Rightarrow> Notifier" where
  "pruneStale now n =
     (let stale = map fst (filter (\<lambda>(k, exp). \<not> now < exp) (no_dedup n))
      in n\<lparr>no_dedup := filter (\<lambda>(k, exp). now < exp) (no_dedup n),
           no_failureCounters := filter (\<lambda>(k, _). k \<notin> set stale) (no_failureCounters n)\<rparr>)"

definition shouldDrop :: "time \<Rightarrow> AlertEvent \<Rightarrow> Notifier \<Rightarrow> Notifier \<times> bool" where
  "shouldDrop now ev n =
     (let key = eventDedupKey (al_Repo ev) (al_IssueNum ev) (al_Kind ev);
          n1 = (if length (no_dedup n) mod pruneEveryN = 0 \<and> length (no_dedup n) > 0 then pruneStale now n else n)
      in case map_of (no_dedup n1) key of
           Some exp \<Rightarrow>
             if now < exp then (n1, True)
             else (n1\<lparr>no_dedup := AList.update key (now + no_dedupWindow n1) (no_dedup n1)\<rparr>, False)
         | None \<Rightarrow> (n1\<lparr>no_dedup := AList.update key (now + no_dedupWindow n1) (no_dedup n1)\<rparr>, False))"

section \<open>Delivery\<close>

text \<open>A sender's answer to each attempt, and whether the context ends during the pause after it. The result
  is the waits in between and the error, if any.\<close>

fun sendAttempts :: "(nat \<Rightarrow> string option \<times> bool) \<Rightarrow> nat \<Rightarrow> nat \<Rightarrow> duration \<Rightarrow> duration list \<times> string option" where
  "sendAttempts answers attempt 0 wait = ([], None)"
| "sendAttempts answers attempt (Suc left) wait =
     (case answers attempt of
        (None, ended) \<Rightarrow> ([], None)
      | (Some err, ended) \<Rightarrow>
          if left = 0 then ([], Some err)
          else if ended then ([wait], Some ''context canceled'')
          else apfst (Cons wait) (sendAttempts answers (attempt + 1) left (wait * 2)))"

definition sendWithRetry :: "(nat \<Rightarrow> string option \<times> bool) \<Rightarrow> duration list \<times> string option" where
  "sendWithRetry answers = sendAttempts answers 1 retryAttempts retryDelay"

fun deliver :: "(nat \<Rightarrow> string option \<times> bool) list \<Rightarrow> string \<Rightarrow> int \<Rightarrow> string \<Rightarrow> Notifier \<Rightarrow> Notifier" where
  "deliver [] repo issueNum kind n = n"
| "deliver (answers # senders) repo issueNum kind n =
     deliver senders repo issueNum kind
       (case sendWithRetry answers of
          (_, None) \<Rightarrow> n
        | (_, Some err) \<Rightarrow> n\<lparr>no_log := no_log n @ [\<lparr>ev_Type = TypeNotificationFailed, ev_Repo = repo, ev_IssueNum = issueNum,
             ev_Payload = [(''event_kind'', PStr kind), (''error'', PStr err)]\<rparr>]\<rparr>)"

fun groupEvents :: "AlertEvent list \<Rightarrow> (string \<times> AlertEvent list) list" where
  "groupEvents [] = []"
| "groupEvents (ev # evs) =
     (let key = eventDedupKey (al_Repo ev) (al_IssueNum ev) (al_Kind ev); g = groupEvents evs
      in AList.update key (ev # (case map_of g key of None \<Rightarrow> [] | Some xs \<Rightarrow> xs)) g)"

text \<open>\<^verbatim>\<open>deliverBatch\<close>: the messages it sends, one per repository, issue and kind.\<close>

definition deliverBatch :: "(AlertEvent \<Rightarrow> string) \<Rightarrow> AlertEvent list \<Rightarrow> (string \<times> string \<times> int) list" where
  "deliverBatch msg evs =
     map (\<lambda>(key, g). (join_with [CHR 0x0A] (map msg g), al_Repo (hd g), al_IssueNum (hd g))) (groupEvents evs)"

section \<open>Batches\<close>

record batcher =
  bt_notifier :: Notifier
  bt_batch :: "AlertEvent list"
  bt_timer :: bool
  bt_flushed :: "AlertEvent list list"
  bt_running :: bool

datatype batch_event = Arrives time | TimerFires | ContextDone

definition flush :: "batcher \<Rightarrow> batcher" where
  "flush w = (if bt_batch w = [] then w else w\<lparr>bt_flushed := bt_flushed w @ [bt_batch w], bt_batch := [], bt_timer := False\<rparr>)"

definition runBatchWorker :: "batch_event \<Rightarrow> batcher \<Rightarrow> batcher" where
  "runBatchWorker e w =
     (if \<not> bt_running w then w
      else case e of
             ContextDone \<Rightarrow> (flush w)\<lparr>bt_running := False\<rparr>
           | TimerFires \<Rightarrow> if bt_timer w then flush w else w
           | Arrives now \<Rightarrow>
              (case no_incoming (bt_notifier w) of
                 [] \<Rightarrow> w
               | ev # rest \<Rightarrow>
                  (case shouldDrop now ev ((bt_notifier w)\<lparr>no_incoming := rest\<rparr>) of
                     (n, True) \<Rightarrow> w\<lparr>bt_notifier := n\<rparr>
                   | (n, False) \<Rightarrow>
                      (let w1 = w\<lparr>bt_notifier := n, bt_batch := bt_batch w @ [ev]\<rparr>
                       in if length (bt_batch w1) \<ge> notifierBatchMaxSize then flush w1 else w1\<lparr>bt_timer := True\<rparr>))))"

section \<open>Properties\<close>

text \<open>The rule the notifier follows, without any map to prune: an event is dropped when the last one of its
  kind that was let through for its issue is less than a window old.\<close>

fun spec_drops :: "duration \<Rightarrow> (string \<Rightarrow> time option) \<Rightarrow> (time \<times> AlertEvent) list \<Rightarrow> bool list" where
  "spec_drops window seen [] = []"
| "spec_drops window seen ((now, ev) # calls) =
     (let key = eventDedupKey (al_Repo ev) (al_IssueNum ev) (al_Kind ev);
          drops = (case seen key of None \<Rightarrow> False | Some t \<Rightarrow> now < t + window)
      in drops # spec_drops window (if drops then seen else seen(key \<mapsto> now)) calls)"

fun run_drops :: "Notifier \<Rightarrow> (time \<times> AlertEvent) list \<Rightarrow> bool list" where
  "run_drops n [] = []"
| "run_drops n ((now, ev) # calls) = (case shouldDrop now ev n of (n', drops) \<Rightarrow> drops # run_drops n' calls)"

definition key_rel :: "time \<Rightarrow> duration \<Rightarrow> time option \<Rightarrow> time option \<Rightarrow> bool" where
  "key_rel now window exp seen = (case exp of
     Some e \<Rightarrow> seen = Some (e - window)
   | None \<Rightarrow> (case seen of None \<Rightarrow> True | Some t \<Rightarrow> t + window \<le> now))"

definition dedup_rel :: "time \<Rightarrow> Notifier \<Rightarrow> (string \<Rightarrow> time option) \<Rightarrow> bool" where
  "dedup_rel now n seen \<longleftrightarrow> distinct (map fst (no_dedup n)) \<and>
     (\<forall>key. key_rel now (no_dedupWindow n) (map_of (no_dedup n) key) (seen key))"

lemma key_rel_later: "key_rel now w e s \<Longrightarrow> now \<le> later \<Longrightarrow> key_rel later w e s"
  by (auto simp: key_rel_def split: option.splits)

lemma key_rel_pruned: "key_rel now w e s \<Longrightarrow> key_rel now w (case e of Some v \<Rightarrow> if now < v then Some v else None | None \<Rightarrow> None) s"
  by (auto simp: key_rel_def split: option.splits)

lemma key_rel_drops: "key_rel now w e s \<Longrightarrow> (case e of None \<Rightarrow> False | Some v \<Rightarrow> now < v) = (case s of None \<Rightarrow> False | Some t \<Rightarrow> now < t + w)"
  by (auto simp: key_rel_def split: option.splits)

lemma map_of_filter_val:
  "distinct (map fst xs) \<Longrightarrow>
   map_of (filter (\<lambda>(k, v). P v) xs) k = (case map_of xs k of Some v \<Rightarrow> if P v then Some v else None | None \<Rightarrow> None)"
  by (induction xs) (auto split: option.split simp: map_of_eq_None_iff image_iff)

lemma pruneStale_rel:
  assumes "dedup_rel now n seen"
  shows "dedup_rel now (pruneStale now n) seen"
proof -
  have d: "distinct (map fst (no_dedup n))" using assms by (simp add: dedup_rel_def)
  have "map_of (no_dedup (pruneStale now n)) key = (case map_of (no_dedup n) key of Some v \<Rightarrow> if now < v then Some v else None | None \<Rightarrow> None)" for key
    unfolding pruneStale_def Let_def by (simp add: map_of_filter_val [OF d])
  moreover have "distinct (map fst (no_dedup (pruneStale now n)))" "no_dedupWindow (pruneStale now n) = no_dedupWindow n"
    using d by (simp_all add: pruneStale_def Let_def distinct_map_filter)
  ultimately show ?thesis using assms unfolding dedup_rel_def by (simp add: key_rel_pruned)
qed

lemma shouldDrop_rel:
  assumes rel: "dedup_rel now n seen" and run: "shouldDrop now ev n = (n', drops)"
  defines "key \<equiv> eventDedupKey (al_Repo ev) (al_IssueNum ev) (al_Kind ev)"
  shows "drops = (case seen key of None \<Rightarrow> False | Some t \<Rightarrow> now < t + no_dedupWindow n) \<and> no_dedupWindow n' = no_dedupWindow n \<and>
    dedup_rel now n' (if drops then seen else seen(key \<mapsto> now))"
proof -
  define n1 where "n1 = (if length (no_dedup n) mod pruneEveryN = 0 \<and> length (no_dedup n) > 0 then pruneStale now n else n)"
  have n1: "dedup_rel now n1 seen" "no_dedupWindow n1 = no_dedupWindow n"
    using pruneStale_rel [OF rel] rel by (simp_all add: n1_def pruneStale_def Let_def)
  define n2 where "n2 = n1\<lparr>no_dedup := AList.update key (now + no_dedupWindow n1) (no_dedup n1)\<rparr>"
  have n2: "dedup_rel now n2 (seen(key \<mapsto> now))" "no_dedupWindow n2 = no_dedupWindow n"
    using n1 by (auto simp: n2_def distinct_update dedup_rel_def update_conv' key_rel_def)
  have "shouldDrop now ev n = (case map_of (no_dedup n1) key of
      Some exp \<Rightarrow> if now < exp then (n1, True) else (n2, False) | None \<Rightarrow> (n2, False))"
    unfolding shouldDrop_def Let_def n1_def [symmetric] key_def [symmetric] n2_def ..
  then have r: "drops = (case map_of (no_dedup n1) key of None \<Rightarrow> False | Some v \<Rightarrow> now < v)" "n' = (if drops then n1 else n2)"
    using run by (auto split: option.splits if_splits)
  have "key_rel now (no_dedupWindow n) (map_of (no_dedup n1) key) (seen key)" using n1 by (simp add: dedup_rel_def)
  from key_rel_drops [OF this] show ?thesis using r n1 n2 by simp
qed

text \<open>C34. The map of recent alerts, pruned at every hundredth size, decides as the plain rule does: over any
  sequence of alerts in time order, an alert is suppressed exactly when one of the same kind for
  the same issue was let through less than a window earlier.\<close>

theorem dedup_follows_rule:
  assumes "New cfg senders = Inr n" "sorted (map fst calls)"
  shows "run_drops n calls = spec_drops (no_dedupWindow n) (\<lambda>_. None) calls"
proof -
  have "run_drops n calls = spec_drops (no_dedupWindow n) seen calls"
    if "dedup_rel start n seen" "\<forall>t \<in> set (map fst calls). start \<le> t" for n seen start
    using that assms(2)
  proof (induction calls arbitrary: n seen start)
    case (Cons call calls)
    obtain now ev where c: "call = (now, ev)" by (rule prod.exhaust)
    obtain n' drops where d: "shouldDrop now ev n = (n', drops)" by (rule prod.exhaust)
    have "dedup_rel now n seen" using Cons.prems(1,2) c key_rel_later unfolding dedup_rel_def by fastforce
    note step = shouldDrop_rel [OF this d]
    then have "run_drops n' calls = spec_drops (no_dedupWindow n')
        (if drops then seen else seen(eventDedupKey (al_Repo ev) (al_IssueNum ev) (al_Kind ev) \<mapsto> now)) calls"
      using Cons.prems(3) c by (intro Cons.IH [where start = now]) auto
    then show ?case using step by (simp add: c d Let_def)
  qed simp
  moreover have "no_dedup n = []" using assms(1) by (auto simp: New_def Let_def split: if_splits sum.splits)
  then have "dedup_rel start n (\<lambda>_. None)" for start by (simp add: dedup_rel_def key_rel_def)
  moreover have "\<forall>t \<in> set (map fst calls). (case calls of [] \<Rightarrow> 0 | c # _ \<Rightarrow> fst c) \<le> t" using assms(2) by (cases calls) auto
  ultimately show ?thesis by simp
qed

text \<open>Inputs of the batching worker: an alert arrives in the queue, or the worker takes a step.\<close>

datatype batch_input = Enqueued AlertEvent | Worker batch_event

definition new_batcher :: "Notifier \<Rightarrow> batcher" where
  "new_batcher n = \<lparr>bt_notifier = n, bt_batch = [], bt_timer = False, bt_flushed = [], bt_running = True\<rparr>"

definition batch_input_step :: "batch_input \<Rightarrow> batcher \<Rightarrow> batcher" where
  "batch_input_step x w = (case x of Enqueued ev \<Rightarrow> w\<lparr>bt_notifier := enqueue ev (bt_notifier w)\<rparr> | Worker e \<Rightarrow> runBatchWorker e w)"

text \<open>The alerts the worker took from the queue and did not drop, in order.\<close>

fun let_through :: "batch_input list \<Rightarrow> batcher \<Rightarrow> AlertEvent list" where
  "let_through [] w = []"
| "let_through (x # xs) w =
     (case (x, no_incoming (bt_notifier w)) of
        (Worker (Arrives now), ev # rest) \<Rightarrow>
          if bt_running w \<and> \<not> snd (shouldDrop now ev ((bt_notifier w)\<lparr>no_incoming := rest\<rparr>)) then [ev] else []
      | _ \<Rightarrow> []) @ let_through xs (batch_input_step x w)"

definition batcher_ok :: "batcher \<Rightarrow> bool" where
  "batcher_ok w \<longleftrightarrow> (\<forall>b \<in> set (bt_flushed w). b \<noteq> [] \<and> length b \<le> notifierBatchMaxSize) \<and> length (bt_batch w) < notifierBatchMaxSize \<and>
     (bt_batch w \<noteq> [] \<longrightarrow> bt_timer w) \<and> (\<not> bt_running w \<longrightarrow> bt_batch w = [])"

definition kept :: "batcher \<Rightarrow> AlertEvent list" where
  "kept w = concat (bt_flushed w) @ bt_batch w"

lemma flush_kept [simp]: "kept (flush w) = kept w" "bt_batch (flush w) = []"
  by (simp_all add: flush_def kept_def)

lemma flush_ok: "batcher_ok w \<Longrightarrow> batcher_ok (flush w)"
  by (auto simp: flush_def batcher_ok_def notifierBatchMaxSize_def)

lemma batch_step:
  assumes ok: "batcher_ok w"
  shows "batcher_ok (batch_input_step x w) \<and> kept (batch_input_step x w) @ ys = kept w @
    (case (x, no_incoming (bt_notifier w)) of
        (Worker (Arrives now), ev # rest) \<Rightarrow>
          if bt_running w \<and> \<not> snd (shouldDrop now ev ((bt_notifier w)\<lparr>no_incoming := rest\<rparr>)) then [ev] else []
      | _ \<Rightarrow> []) @ ys"
proof (cases x)
  case (Enqueued ev)
  then show ?thesis using ok by (simp add: batch_input_step_def batcher_ok_def kept_def)
next
  case (Worker e)
  show ?thesis
  proof (cases "bt_running w")
    case False
    then show ?thesis using ok Worker by (simp add: batch_input_step_def runBatchWorker_def split: batch_event.split list.split)
  next
    case running: True
    show ?thesis
    proof (cases e)
      case (Arrives now)
      show ?thesis
      proof (cases "no_incoming (bt_notifier w)")
        case (Cons ev rest)
        obtain n drops where d: "shouldDrop now ev ((bt_notifier w)\<lparr>no_incoming := rest\<rparr>) = (n, drops)" by (rule prod.exhaust)
        show ?thesis
        proof (cases drops)
          case True
          then show ?thesis using ok running Worker Arrives Cons d by (simp add: batch_input_step_def runBatchWorker_def batcher_ok_def kept_def)
        next
          case False
          then show ?thesis using ok running Worker Arrives Cons d
            by (auto simp: batch_input_step_def runBatchWorker_def Let_def batcher_ok_def kept_def flush_def notifierBatchMaxSize_def)
        qed
      qed (use ok running Worker Arrives in \<open>simp add: batch_input_step_def runBatchWorker_def\<close>)
    next
      case TimerFires
      then show ?thesis using ok running Worker flush_ok [OF ok] by (simp add: batch_input_step_def runBatchWorker_def)
    next
      case ContextDone
      have "kept ((flush w)\<lparr>bt_running := False\<rparr>) = kept w" using flush_kept(1) [of w] by (simp add: kept_def)
      moreover have "batcher_ok ((flush w)\<lparr>bt_running := False\<rparr>)" using flush_ok [OF ok] by (simp add: batcher_ok_def)
      ultimately show ?thesis using running Worker ContextDone by (simp add: batch_input_step_def runBatchWorker_def)
    qed
  qed
qed

text \<open>Batching loses and repeats nothing: whatever arrives and whenever the timer fires or the worker is
  stopped, the flushed batches followed by the pending one are exactly the alerts that were let
  through, in order. A batch has between one and sixteen alerts, a pending batch always has its
  timer running, and a worker that has stopped has flushed everything.\<close>

theorem batches_complete:
  fixes n :: Notifier
  defines "w \<equiv> \<lambda>xs. fold batch_input_step xs (new_batcher n)"
  shows "concat (bt_flushed (w xs)) @ bt_batch (w xs) = let_through xs (new_batcher n) \<and>
    (\<forall>b \<in> set (bt_flushed (w xs)). b \<noteq> [] \<and> length b \<le> 16) \<and> length (bt_batch (w xs)) < 16 \<and>
    (bt_batch (w xs) \<noteq> [] \<longrightarrow> bt_timer (w xs)) \<and> (\<not> bt_running (w xs) \<longrightarrow> bt_batch (w xs) = [])"
proof -
  have "batcher_ok (fold batch_input_step xs v) \<and> kept (fold batch_input_step xs v) = kept v @ let_through xs v" if "batcher_ok v" for v
    using that
  proof (induction xs arbitrary: v)
    case (Cons x xs)
    show ?case using Cons.IH [of "batch_input_step x v"] batch_step [OF Cons.prems, of x "let_through xs (batch_input_step x v)"] by simp
  qed simp
  from this [of "new_batcher n"] show ?thesis
    by (simp add: w_def new_batcher_def batcher_ok_def kept_def notifierBatchMaxSize_def)
qed

definition demo_alert :: "int \<Rightarrow> AlertEvent" where
  "demo_alert i = \<lparr>al_Kind = KindAgentExitNonZero, al_Severity = SeverityError, al_Repo = ''o/r'', al_IssueNum = i, al_AgentName = ''dev'',
     al_Timestamp = 0, al_Payload = []\<rparr>"

definition demo_notifications :: NotificationsConfig where
  "demo_notifications = \<lparr>nc_Enabled = True, nc_InstanceName = [], nc_DedupWindow = 0, nc_BatchWindow = second, nc_Success = False\<rparr>"

definition demo_notifier :: Notifier where
  "demo_notifier = (case New demo_notifications (Inr 1) of Inr n \<Rightarrow> n | Inl _ \<Rightarrow> undefined)"

theorem dedup_follows_rule_witness:
  "run_drops demo_notifier [(0, demo_alert 7), (second, demo_alert 7), (second, demo_alert 8), (400 * second, demo_alert 7)] =
   [False, True, False, False]"
proof -
  have n: "New demo_notifications (Inr 1) = Inr demo_notifier" by (simp add: demo_notifier_def New_def demo_notifications_def)
  have "no_dedupWindow demo_notifier = defaultDedupWindow" by (simp add: demo_notifier_def New_def demo_notifications_def)
  moreover have "eventDedupKey ''o/r'' 7 KindAgentExitNonZero \<noteq> eventDedupKey ''o/r'' 8 KindAgentExitNonZero" by code_simp
  ultimately show ?thesis
    using dedup_follows_rule [OF n, of "[(0, demo_alert 7), (second, demo_alert 7), (second, demo_alert 8), (400 * second, demo_alert 7)]"]
    by (simp add: Let_def demo_alert_def defaultDedupWindow_def minute_def second_def)
qed

theorem batches_complete_witness:
  "let w = fold batch_input_step [Enqueued (demo_alert 7), Worker (Arrives 0), Worker ContextDone] (new_batcher demo_notifier)
   in bt_flushed w = [[demo_alert 7]] \<and> bt_batch w = [] \<and> concat (bt_flushed w) @ bt_batch w = [demo_alert 7]"
proof -
  let ?xs = "[Enqueued (demo_alert 7), Worker (Arrives 0), Worker ContextDone]"
  have "bt_flushed (fold batch_input_step ?xs (new_batcher demo_notifier)) = [[demo_alert 7]]"
    "\<not> bt_running (fold batch_input_step ?xs (new_batcher demo_notifier))" by code_simp+
  then show ?thesis using batches_complete [where n = demo_notifier and xs = ?xs] by (simp add: Let_def)
qed

end
