(* ===== verification/Event_Log.thy ===== *)
theory Event_Log
  imports Hooks Issue_Store
begin

text \<open>
  The event log: the \<^verbatim>\<open>events\<close> table with its queries (\<^verbatim>\<open>internal/store\<close>) and the logger on top of
  it (\<^verbatim>\<open>internal/eventlog/eventlog.go\<close>), which never fails its caller, counts what it could not write
  and forwards every event to the hook dispatcher.

  \<^item> The table is kept beside the other tables in \<open>event_db\<close>; \<open>ed_next\<close> is the value of
    \<^verbatim>\<open>AUTOINCREMENT\<close>. The payload column is a type parameter: the logger stores JSON text, the
    operator stores alerts.
  \<^item> \<^verbatim>\<open>json.Marshal\<close> of the payload is the argument \<open>marshal\<close>: text, or an error.
  \<^item> The injected failures of a failpoint build are not modelled; a busy database is \<open>busy\<close> of the
    store, as for the other retried statements.
\<close>

section \<open>The events table\<close>

record 'p event_row =
  er_ID :: int
  er_TS :: time
  er_Type :: string
  er_Repo :: string
  er_IssueNum :: int
  er_Payload :: 'p

record 'p event_db =
  ed_store :: store
  ed_rows :: "'p event_row list"
  ed_next :: int

definition insertOnce :: "string \<Rightarrow> string \<Rightarrow> int \<Rightarrow> 'p \<Rightarrow> 'p event_db \<Rightarrow> 'p event_db \<times> int result" where
  "insertOnce ty repo n p d =
     (let s = ed_store d
      in if busy s > 0 then (d\<lparr>ed_store := s\<lparr>busy := busy s - 1\<rparr>\<rparr>, Inl ErrBusy)
         else if faults s OpInsertEvent then (d, Inl (DBError OpInsertEvent))
         else (d\<lparr>ed_rows := ed_rows d @ [\<lparr>er_ID = ed_next d, er_TS = db_now s, er_Type = ty, er_Repo = repo, er_IssueNum = n, er_Payload = p\<rparr>],
                 ed_next := ed_next d + 1\<rparr>, Inr (ed_next d)))"

fun insertAttempts :: "nat \<Rightarrow> string \<Rightarrow> string \<Rightarrow> int \<Rightarrow> 'p \<Rightarrow> 'p event_db \<Rightarrow> 'p event_db \<times> int result" where
  "insertAttempts 0 ty repo n p d = (d, Inl ErrBusy)"
| "insertAttempts (Suc k) ty repo n p d =
     (case insertOnce ty repo n p d of
        (d', Inl ErrBusy) \<Rightarrow> insertAttempts k ty repo n p d'
      | r \<Rightarrow> r)"

definition InsertEvent :: "string \<Rightarrow> string \<Rightarrow> int \<Rightarrow> 'p \<Rightarrow> 'p event_db \<Rightarrow> 'p event_db \<times> int result" where
  "InsertEvent = insertAttempts 4"

definition QueryEvents :: "string \<Rightarrow> 'p event_db \<Rightarrow> 'p event_row list result" where
  "QueryEvents repo d =
     (if faults (ed_store d) OpQueryEvents then Inl (DBError OpQueryEvents)
      else Inr (filter (\<lambda>r. repo = [] \<or> er_Repo r = repo) (ed_rows d)))"

record EventQueryFilter =
  ef_Since :: "time option"
  ef_Until :: "time option"
  ef_Type :: string
  ef_Repo :: string
  ef_IssueNum :: int

text \<open>Times are compared as texts of whole seconds.\<close>

definition event_matches :: "EventQueryFilter \<Rightarrow> 'p event_row \<Rightarrow> bool" where
  "event_matches f r \<longleftrightarrow> (ef_Repo f \<noteq> [] \<longrightarrow> er_Repo r = ef_Repo f) \<and> (ef_Type f \<noteq> [] \<longrightarrow> er_Type r = ef_Type f) \<and>
     (ef_IssueNum f \<noteq> 0 \<longrightarrow> er_IssueNum r = ef_IssueNum f) \<and>
     (case ef_Since f of None \<Rightarrow> True | Some t \<Rightarrow> sql_time t \<le> er_TS r) \<and>
     (case ef_Until f of None \<Rightarrow> True | Some t \<Rightarrow> er_TS r \<le> sql_time t)"

definition QueryEventsFiltered :: "EventQueryFilter \<Rightarrow> 'p event_db \<Rightarrow> 'p event_row list result" where
  "QueryEventsFiltered f d =
     (if faults (ed_store d) OpQueryEvents then Inl (DBError OpQueryEvents) else Inr (filter (event_matches f) (ed_rows d)))"

text \<open>\<^verbatim>\<open>ORDER BY ts DESC, id DESC LIMIT 1\<close>.\<close>

definition latest_row :: "'p event_row list \<Rightarrow> 'p event_row option" where
  "latest_row rows = (case sort_key (\<lambda>r. (er_TS r, er_ID r)) rows of [] \<Rightarrow> None | rs \<Rightarrow> Some (last rs))"

definition issue_rows :: "string \<Rightarrow> int \<Rightarrow> 'p event_db \<Rightarrow> 'p event_row list" where
  "issue_rows repo n d = filter (\<lambda>r. er_Repo r = repo \<and> er_IssueNum r = n) (ed_rows d)"

definition LatestEventAt :: "string \<Rightarrow> int \<Rightarrow> 'p event_db \<Rightarrow> time option result" where
  "LatestEventAt repo n d =
     (if faults (ed_store d) OpQueryEvents then Inl (DBError OpQueryEvents)
      else Inr (map_option er_TS (latest_row (issue_rows repo n d))))"

definition LatestIssueEvent :: "string \<Rightarrow> int \<Rightarrow> 'p event_db \<Rightarrow> (string \<times> time) option result" where
  "LatestIssueEvent repo n d =
     (if faults (ed_store d) OpQueryEvents then Inl (DBError OpQueryEvents)
      else Inr (map_option (\<lambda>r. (er_Type r, er_TS r)) (latest_row (issue_rows repo n d))))"

record IssueTransitionEvent =
  it_From :: string
  it_To :: string
  it_At :: time
  it_By :: string

text \<open>\<open>decode\<close> is \<^verbatim>\<open>json.Unmarshal\<close> into the fields from, to and by.\<close>

definition parseTransitionPayload :: "('p \<Rightarrow> (string \<times> string \<times> string) option) \<Rightarrow> 'p event_row \<Rightarrow> IssueTransitionEvent" where
  "parseTransitionPayload decode r =
     (case decode (er_Payload r) of
        None \<Rightarrow> \<lparr>it_From = [], it_To = [], it_At = er_TS r, it_By = []\<rparr>
      | Some (f, t, b) \<Rightarrow> \<lparr>it_From = f, it_To = t, it_At = er_TS r, it_By = b\<rparr>)"

definition transition_rows :: "string \<Rightarrow> int \<Rightarrow> 'p event_db \<Rightarrow> 'p event_row list" where
  "transition_rows repo n d = filter (\<lambda>r. er_Type r = TypeTransition) (issue_rows repo n d)"

definition LatestIssueTransition ::
  "('p \<Rightarrow> (string \<times> string \<times> string) option) \<Rightarrow> string \<Rightarrow> int \<Rightarrow> 'p event_db \<Rightarrow> IssueTransitionEvent option result" where
  "LatestIssueTransition decode repo n d =
     (if faults (ed_store d) OpQueryEvents then Inl (DBError OpQueryEvents)
      else Inr (map_option (parseTransitionPayload decode) (latest_row (transition_rows repo n d))))"

definition QueryIssueTransitions ::
  "('p \<Rightarrow> (string \<times> string \<times> string) option) \<Rightarrow> string \<Rightarrow> int \<Rightarrow> 'p event_db \<Rightarrow> IssueTransitionEvent list result" where
  "QueryIssueTransitions decode repo n d =
     (if faults (ed_store d) OpQueryEvents then Inl (DBError OpQueryEvents)
      else Inr (map (parseTransitionPayload decode) (sort_key (\<lambda>r. (er_TS r, er_ID r)) (transition_rows repo n d))))"

definition RecentAlertPayloads :: "string \<Rightarrow> int \<Rightarrow> 'p event_db \<Rightarrow> 'p list result" where
  "RecentAlertPayloads ty limit d =
     (if faults (ed_store d) OpRecentAlerts then Inl (DBError OpRecentAlerts)
      else Inr (map er_Payload (take (nat (if limit \<le> 0 then 256 else limit)) (rev (filter (\<lambda>r. er_Type r = ty) (ed_rows d))))))"

text \<open>\<^verbatim>\<open>GROUP BY\<close> with the number of rows of each group.\<close>

definition group_counts :: "('r \<Rightarrow> 'k) \<Rightarrow> 'r list \<Rightarrow> ('k \<times> nat) list" where
  "group_counts key rows = map (\<lambda>k. (k, length (filter (\<lambda>r. key r = k) rows))) (remdups (map key rows))"

definition CountEventsByRepoType :: "'p event_db \<Rightarrow> ((string \<times> string) \<times> nat) list result" where
  "CountEventsByRepoType d =
     (if faults (ed_store d) OpQueryEvents then Inl (DBError OpQueryEvents)
      else Inr (group_counts (\<lambda>r. (er_Repo r, er_Type r)) (ed_rows d)))"

definition TokenUsageEvents :: "string \<Rightarrow> 'p event_db \<Rightarrow> (string \<times> 'p) list result" where
  "TokenUsageEvents ty d =
     (if faults (ed_store d) OpQueryEvents then Inl (DBError OpQueryEvents)
      else Inr (map (\<lambda>r. (er_Repo r, er_Payload r)) (filter (\<lambda>r. er_Type r = ty) (ed_rows d))))"

definition CountTasksByRepoStatus :: "store \<Rightarrow> ((string \<times> string) \<times> nat) list result" where
  "CountTasksByRepoStatus s =
     (if faults s OpCountTasks then Inl (DBError OpCountTasks) else Inr (group_counts (\<lambda>t. (t_Repo t, t_Status t)) (task_queue s)))"

definition CountTasksByIssue :: "string \<Rightarrow> int \<Rightarrow> store \<Rightarrow> nat result" where
  "CountTasksByIssue repo n s =
     (if faults s OpCountTasks then Inl (DBError OpCountTasks)
      else Inr (length (filter (\<lambda>t. t_Repo t = repo \<and> t_IssueNum t = n) (task_queue s))))"

section \<open>The logger\<close>

record Health =
  he_Degraded :: bool
  he_WriteFailures :: nat
  he_LastError :: "store_error option"
  he_LastFailureAt :: "time option"

record EventLogger =
  el_db :: "raw_json event_db"
  el_writeFailures :: nat
  el_lastErr :: "store_error option"
  el_lastFailureAt :: "time option"
  el_publisher :: "Dispatcher option"

definition NewEventLogger :: "raw_json event_db \<Rightarrow> EventLogger" where
  "NewEventLogger d = \<lparr>el_db = d, el_writeFailures = 0, el_lastErr = None, el_lastFailureAt = None, el_publisher = None\<rparr>"

definition recordFailure :: "store_error \<Rightarrow> EventLogger \<Rightarrow> EventLogger" where
  "recordFailure e l = l\<lparr>el_writeFailures := el_writeFailures l + 1, el_lastErr := Some e,
     el_lastFailureAt := Some (clock (ed_store (el_db l)))\<rparr>"

definition SetPublisher :: "Dispatcher option \<Rightarrow> EventLogger \<Rightarrow> EventLogger" where
  "SetPublisher p l = l\<lparr>el_publisher := p\<rparr>"

text \<open>The text of the payload column. When the payload cannot be marshalled, the column gets the error text
  quoted by \<^verbatim>\<open>fmt\<close>'s \<^verbatim>\<open>%q\<close> (an argument), whose escapes are Go's and not JSON's: whether the result is
  valid JSON (\<^verbatim>\<open>json.Valid\<close>, an argument too) depends on the error text.\<close>

definition payload_text :: "(string \<Rightarrow> bool) \<Rightarrow> (string \<Rightarrow> string) \<Rightarrow> (string + string) option \<Rightarrow> raw_json" where
  "payload_text valid quote p =
     (case p of
        None \<Rightarrow> RawBad []
      | Some (Inl err) \<Rightarrow>
          (let t = ''{\"marshal_error\":'' @ quote err @ ''}'' in if valid t then RawJSON t else RawBad t)
      | Some (Inr t) \<Rightarrow> RawJSON t)"

definition Log :: "('v \<Rightarrow> string + string) \<Rightarrow> (string \<Rightarrow> bool) \<Rightarrow> (string \<Rightarrow> string) \<Rightarrow> string \<Rightarrow> string \<Rightarrow> int \<Rightarrow> 'v option \<Rightarrow> EventLogger \<Rightarrow> EventLogger" where
  "Log marshal valid quote ty repo n payload l =
     (let txt = payload_text valid quote (map_option marshal payload);
          (d, r) = InsertEvent ty repo n txt (el_db l);
          l1 = l\<lparr>el_db := d\<rparr>;
          l2 = (case r of Inl e \<Rightarrow> recordFailure e l1 | Inr _ \<Rightarrow> l1)
      in l2\<lparr>el_publisher := map_option (PublishFromRaw ty repo n txt) (el_publisher l2)\<rparr>)"

definition Health_of :: "EventLogger \<Rightarrow> Health" where
  "Health_of l = \<lparr>he_Degraded = (el_writeFailures l > 0), he_WriteFailures = el_writeFailures l,
     he_LastError = el_lastErr l, he_LastFailureAt = el_lastFailureAt l\<rparr>"

definition Query :: "EventQueryFilter \<Rightarrow> EventLogger \<Rightarrow> raw_json event_row list result" where
  "Query f l = QueryEventsFiltered f (el_db l)"

section \<open>What an insertion does\<close>

text \<open>An insertion appends one row or leaves the table alone, and says which; a busy database is waited
  for up to three times.\<close>

definition event_content :: "'p event_row \<Rightarrow> string \<times> string \<times> int \<times> 'p" where
  "event_content r = (er_Type r, er_Repo r, er_IssueNum r, er_Payload r)"

lemma insertOnce_busy:
  "busy (ed_store d) > 0 \<Longrightarrow> insertOnce ty repo n p d = (d\<lparr>ed_store := (ed_store d)\<lparr>busy := busy (ed_store d) - 1\<rparr>\<rparr>, Inl ErrBusy)"
  by (simp add: insertOnce_def Let_def)

lemma insertOnce_fault:
  "busy (ed_store d) = 0 \<Longrightarrow> faults (ed_store d) OpInsertEvent \<Longrightarrow> insertOnce ty repo n p d = (d, Inl (DBError OpInsertEvent))"
  by (simp add: insertOnce_def Let_def)

definition event_at :: "string \<Rightarrow> string \<Rightarrow> int \<Rightarrow> 'p \<Rightarrow> 'p event_db \<Rightarrow> 'p event_row" where
  "event_at ty repo n p d = \<lparr>er_ID = ed_next d, er_TS = db_now (ed_store d), er_Type = ty, er_Repo = repo, er_IssueNum = n, er_Payload = p\<rparr>"

lemma insertOnce_ok:
  "busy (ed_store d) = 0 \<Longrightarrow> \<not> faults (ed_store d) OpInsertEvent \<Longrightarrow>
   insertOnce ty repo n p d = (d\<lparr>ed_rows := ed_rows d @ [event_at ty repo n p d], ed_next := ed_next d + 1\<rparr>, Inr (ed_next d))"
  by (simp add: insertOnce_def Let_def event_at_def)

lemma event_at_content [simp]: "event_content (event_at ty repo n p d) = (ty, repo, n, p)" "er_TS (event_at ty repo n p d) = db_now (ed_store d)"
  by (simp_all add: event_content_def event_at_def)

text \<open>What an insertion leaves alone: everything but the events and the count of busy statements.\<close>

definition events_only :: "'p event_db \<Rightarrow> 'p event_db \<Rightarrow> bool" where
  "events_only d d' \<longleftrightarrow> (ed_store d')\<lparr>busy := 0\<rparr> = (ed_store d)\<lparr>busy := 0\<rparr>"

lemma events_onlyD:
  assumes "events_only d d'"
  shows "faults (ed_store d') = faults (ed_store d)" "clock (ed_store d') = clock (ed_store d)" "db_now (ed_store d') = db_now (ed_store d)"
proof -
  have "f ((ed_store d')\<lparr>busy := 0\<rparr>) = f ((ed_store d)\<lparr>busy := 0\<rparr>)" for f :: "store \<Rightarrow> 'x" using assms by (simp add: events_only_def)
  from this [of faults] this [of clock] show "faults (ed_store d') = faults (ed_store d)" "clock (ed_store d') = clock (ed_store d)" by simp_all
  then show "db_now (ed_store d') = db_now (ed_store d)" by (simp add: db_now_def)
qed

lemma insertAttempts_effect:
  assumes "insertAttempts k ty repo n p d = (d', res)"
  shows "events_only d d' \<and> (case res of Inl _ \<Rightarrow> ed_rows d' = ed_rows d
     | Inr i \<Rightarrow> \<exists>r. ed_rows d' = ed_rows d @ [r] \<and> event_content r = (ty, repo, n, p) \<and> er_TS r = db_now (ed_store d))"
  using assms
proof (induction k arbitrary: d)
  case (Suc k)
  show ?case
  proof (cases "busy (ed_store d) > 0")
    case True
    let ?d1 = "d\<lparr>ed_store := (ed_store d)\<lparr>busy := busy (ed_store d) - 1\<rparr>\<rparr>"
    have "insertAttempts k ty repo n p ?d1 = (d', res)" using Suc.prems by (simp add: insertOnce_busy [OF True])
    from Suc.IH [OF this] show ?thesis by (cases res) (simp_all add: events_only_def db_now_def)
  next
    case False
    then have b: "busy (ed_store d) = 0" by simp
    show ?thesis
    proof (cases "faults (ed_store d) OpInsertEvent")
      case True
      then show ?thesis using Suc.prems by (auto simp: insertOnce_fault [OF b True] events_only_def)
    next
      case False
      then show ?thesis using Suc.prems by (auto simp: insertOnce_ok [OF b False] events_only_def)
    qed
  qed
qed (auto simp: events_only_def)

lemma insertAttempts_iff:
  "(\<exists>d' i. insertAttempts k ty repo n p d = (d', Inr i)) \<longleftrightarrow> busy (ed_store d) < k \<and> \<not> faults (ed_store d) OpInsertEvent"
proof (induction k arbitrary: d)
  case (Suc k)
  show ?case
  proof (cases "busy (ed_store d) > 0")
    case True
    then show ?thesis using Suc.IH [of "d\<lparr>ed_store := (ed_store d)\<lparr>busy := busy (ed_store d) - 1\<rparr>\<rparr>"]
      by (auto simp: insertOnce_busy)
  next
    case False
    then have b: "busy (ed_store d) = 0" by simp
    then show ?thesis by (cases "faults (ed_store d) OpInsertEvent") (simp_all add: insertOnce_fault insertOnce_ok)
  qed
qed simp

lemma InsertEvent_effect:
  assumes "InsertEvent ty repo n p d = (d', res)"
  shows "events_only d d' \<and> (case res of Inl _ \<Rightarrow> ed_rows d' = ed_rows d
     | Inr i \<Rightarrow> \<exists>r. ed_rows d' = ed_rows d @ [r] \<and> event_content r = (ty, repo, n, p) \<and> er_TS r = db_now (ed_store d))"
  by (rule insertAttempts_effect [of 4]) (use assms in \<open>simp add: InsertEvent_def\<close>)

text \<open>The states of the database in which an event can be written.\<close>

definition writable :: "store \<Rightarrow> bool" where
  "writable s \<longleftrightarrow> busy s \<le> 3 \<and> \<not> faults s OpInsertEvent"

lemma InsertEvent_iff: "(\<exists>d' i. InsertEvent ty repo n p d = (d', Inr i)) \<longleftrightarrow> writable (ed_store d)"
  unfolding InsertEvent_def insertAttempts_iff writable_def by auto

lemma sum_length_filter: "(\<Sum>k \<in> key ` set rows. length (filter (\<lambda>r. key r = k) rows)) = length rows"
proof (induction rows)
  case (Cons a rows)
  let ?f = "\<lambda>k. length (filter (\<lambda>r. key r = k) rows)"
  have zero: "?f k = 0" if "k \<notin> key ` set rows" for k using that by (auto simp: filter_empty_conv)
  have "(\<Sum>k \<in> key ` set (a # rows). length (filter (\<lambda>r. key r = k) (a # rows))) =
    (\<Sum>k \<in> insert (key a) (key ` set rows). (if k = key a then 1 else 0) + ?f k)"
    by (rule sum.cong) auto
  also have "\<dots> = 1 + (\<Sum>k \<in> insert (key a) (key ` set rows). ?f k)" by (simp add: sum.distrib)
  also have "(\<Sum>k \<in> insert (key a) (key ` set rows). ?f k) = (\<Sum>k \<in> key ` set rows. ?f k)"
    by (rule sum.mono_neutral_right) (use zero in auto)
  finally show ?case using Cons by simp
qed simp

lemma group_counts_total: "sum_list (map snd (group_counts key rows)) = length rows"
proof -
  have "sum_list (map snd (group_counts key rows)) = (\<Sum>k \<in> key ` set rows. length (filter (\<lambda>r. key r = k) rows))"
    by (simp add: group_counts_def comp_def sum_list_distinct_conv_sum_set)
  also have "\<dots> = length rows"
    using sum_length_filter [of key rows] by simp
  finally show ?thesis .
qed

section \<open>Properties of the log\<close>

text \<open>A call of the logger, with the state the database is in by then.\<close>

definition log_call :: "('v \<Rightarrow> string + string) \<Rightarrow> (string \<Rightarrow> bool) \<Rightarrow> (string \<Rightarrow> string) \<Rightarrow> store \<times> string \<times> string \<times> int \<times> 'v option \<Rightarrow> EventLogger \<Rightarrow> EventLogger" where
  "log_call marshal valid quote c l = (case c of (s, ty, repo, n, v) \<Rightarrow> Log marshal valid quote ty repo n v (l\<lparr>el_db := (el_db l)\<lparr>ed_store := s\<rparr>\<rparr>))"

definition call_content :: "('v \<Rightarrow> string + string) \<Rightarrow> (string \<Rightarrow> bool) \<Rightarrow> (string \<Rightarrow> string) \<Rightarrow> store \<times> string \<times> string \<times> int \<times> 'v option \<Rightarrow> string \<times> string \<times> int \<times> raw_json" where
  "call_content marshal valid quote c = (case c of (s, ty, repo, n, v) \<Rightarrow> (ty, repo, n, payload_text valid quote (map_option marshal v)))"

definition publish_content :: "string \<times> string \<times> int \<times> raw_json \<Rightarrow> Dispatcher \<Rightarrow> Dispatcher" where
  "publish_content c = (case c of (ty, repo, n, p) \<Rightarrow> PublishFromRaw ty repo n p)"

definition written :: "EventLogger \<Rightarrow> (string \<times> string \<times> int \<times> raw_json) list" where
  "written l = map event_content (ed_rows (el_db l))"

lemma log_call_effect:
  "written (log_call marshal valid quote c l) = written l @ (if writable (fst c) then [call_content marshal valid quote c] else []) \<and>
   el_writeFailures (log_call marshal valid quote c l) = el_writeFailures l + (if writable (fst c) then 0 else 1) \<and>
   el_publisher (log_call marshal valid quote c l) = map_option (publish_content (call_content marshal valid quote c)) (el_publisher l)"
proof -
  obtain s ty repo n v where c: "c = (s, ty, repo, n, v)" by (metis prod.exhaust)
  let ?p = "payload_text valid quote (map_option marshal v)"
  let ?d = "(el_db l)\<lparr>ed_store := s\<rparr>"
  obtain d r where ins: "InsertEvent ty repo n ?p ?d = (d, r)" by (rule prod.exhaust)
  note eff = InsertEvent_effect [OF ins]
  note iff = InsertEvent_iff [of ty repo n ?p ?d]
  show ?thesis
  proof (cases r)
    case (Inl e)
    then show ?thesis using eff iff
      by (auto simp: c ins log_call_def Log_def call_content_def publish_content_def written_def recordFailure_def Let_def)
  next
    case (Inr i)
    then show ?thesis using eff iff
      by (auto simp: c ins log_call_def Log_def call_content_def publish_content_def written_def Let_def)
  qed
qed

text \<open>C28. No event is lost silently: over any sequence of calls, whatever state the database is in at each of
  them, the table holds exactly the events whose writing was not prevented by an error or by a
  database that stayed busy for four attempts, in the order they were logged; every other event is
  counted, so that the log is reported degraded exactly when one was lost; and the hook dispatcher
  gets all of them.\<close>

theorem log_accounts:
  "let l' = fold (log_call marshal valid quote) calls (SetPublisher pub (NewEventLogger d))
   in written l' = map event_content (ed_rows d) @ map (call_content marshal valid quote) (filter (writable \<circ> fst) calls) \<and>
      he_WriteFailures (Health_of l') = length (filter (Not \<circ> writable \<circ> fst) calls) \<and>
      (he_Degraded (Health_of l') \<longleftrightarrow> (\<exists>c \<in> set calls. \<not> writable (fst c))) \<and>
      el_publisher l' = map_option (fold publish_content (map (call_content marshal valid quote) calls)) pub"
proof -
  have "written (fold (log_call marshal valid quote) calls l) = written l @ map (call_content marshal valid quote) (filter (writable \<circ> fst) calls) \<and>
    el_writeFailures (fold (log_call marshal valid quote) calls l) = el_writeFailures l + length (filter (Not \<circ> writable \<circ> fst) calls) \<and>
    el_publisher (fold (log_call marshal valid quote) calls l) = map_option (fold publish_content (map (call_content marshal valid quote) calls)) (el_publisher l)" for l
  proof (induction calls arbitrary: l)
    case (Cons c calls)
    then show ?case using log_call_effect [of marshal valid quote c l] by (simp add: option.map_comp comp_def)
  qed (simp add: id_def option.map_ident)
  from this [of "SetPublisher pub (NewEventLogger d)"] show ?thesis
    by (auto simp: Let_def Health_of_def SetPublisher_def NewEventLogger_def written_def filter_empty_conv)
qed

text \<open>What has been logged is found again: a query answers with the logged event as its last row whenever
  the filter asks for it, and the counts by repository and type add up to the rows of the table.\<close>

theorem logged_event_found:
  assumes "writable (ed_store (el_db l))" "\<not> faults (ed_store (el_db l)) OpQueryEvents"
    and "ef_Type f \<in> {[], ty}" "ef_Repo f \<in> {[], repo}" "ef_IssueNum f \<in> {0, n}" "ef_Until f = None"
    and "case ef_Since f of None \<Rightarrow> True | Some t \<Rightarrow> t \<le> clock (ed_store (el_db l))"
  shows "\<exists>rows r. Query f (Log marshal valid quote ty repo n v l) = Inr (rows @ [r]) \<and>
    event_content r = (ty, repo, n, payload_text valid quote (map_option marshal v))"
proof -
  let ?p = "payload_text valid quote (map_option marshal v)"
  obtain d i where ins: "InsertEvent ty repo n ?p (el_db l) = (d, Inr i)" using InsertEvent_iff [of ty repo n ?p "el_db l"] assms(1) by blast
  obtain r where r: "ed_rows d = ed_rows (el_db l) @ [r]" "event_content r = (ty, repo, n, ?p)" "er_TS r = db_now (ed_store (el_db l))"
    and "events_only (el_db l) d"
    using InsertEvent_effect [OF ins] by auto
  then have f: "faults (ed_store d) = faults (ed_store (el_db l))" using events_onlyD by blast
  have "event_matches f r"
    using assms(3-7) r(2,3) by (auto simp: event_matches_def event_content_def db_now_def sql_time_mono split: option.splits)
  then show ?thesis using r f assms(2) by (auto simp: Query_def QueryEventsFiltered_def Log_def Let_def ins)
qed

end
