(* ===== verification/Issue_Restart.thy ===== *)
theory Issue_Restart
  imports Event_Log Claim_Store Poller
begin

text \<open>
  The operator commands that push an issue back through the pipeline: \<^verbatim>\<open>workbuddy issue restart\<close>
  (\<^verbatim>\<open>cmd/admin_restart_issue.go\<close>), \<^verbatim>\<open>workbuddy cache invalidate\<close> (\<^verbatim>\<open>cmd/cache_invalidate.go\<close>) and the
  confirmation they ask for (\<^verbatim>\<open>cmd/destructive.go\<close>).

  The request to a running coordinator is the argument \<open>post\<close>: it answers with a status, or with
  nothing when the request fails. Flag parsing and the printing of results are not modelled.
\<close>

type_synonym admin_db = "(string \<times> pval) list event_db"

definition on_store :: "(store \<Rightarrow> store \<times> 'a result) \<Rightarrow> 'p event_db \<Rightarrow> 'p event_db \<times> 'a result" where
  "on_store f d = (case f (ed_store d) of (s, r) \<Rightarrow> (d\<lparr>ed_store := s\<rparr>, r))"

definition TypeIssueRestarted :: string where "TypeIssueRestarted = ''issue_restarted''"

section \<open>Restarting an issue\<close>

record restartIssueResult =
  ri_Repo :: string
  ri_IssueNum :: int
  ri_CacheCleared :: bool
  ri_DependencyStateCleared :: bool
  ri_ClaimCleared :: bool
  ri_CycleStateCleared :: bool
  ri_InflightCleared :: bool
  ri_ClaimOwner :: string
  ri_EventLogged :: bool

definition inspectRestartIssueStore :: "string \<Rightarrow> int \<Rightarrow> store \<Rightarrow> restartIssueResult result" where
  "inspectRestartIssueStore repo n s =
     (case QueryIssueCache repo n s of
        Inl e \<Rightarrow> Inl e
      | Inr cached \<Rightarrow>
     (case QueryIssueDependencyState repo n s of
        Inl e \<Rightarrow> Inl e
      | Inr dep \<Rightarrow>
     (case QueryIssueClaim repo n s of
        Inl e \<Rightarrow> Inl e
      | Inr claim \<Rightarrow>
     (case QueryIssueCycleState repo n s of
        Inl e \<Rightarrow> Inl e
      | Inr cy \<Rightarrow>
          Inr \<lparr>ri_Repo = repo, ri_IssueNum = n, ri_CacheCleared = (cached \<noteq> None), ri_DependencyStateCleared = (dep \<noteq> None),
               ri_ClaimCleared = (claim \<noteq> None), ri_CycleStateCleared = (cy \<noteq> None), ri_InflightCleared = False,
               ri_ClaimOwner = (case claim of None \<Rightarrow> [] | Some c \<Rightarrow> c_WorkerID c), ri_EventLogged = False\<rparr>))))"

definition restart_payload :: "string \<Rightarrow> restartIssueResult \<Rightarrow> (string \<times> pval) list" where
  "restart_payload source r =
     [(''repo'', PStr (ri_Repo r)), (''issue_num'', PInt (ri_IssueNum r)), (''source'', PStr source),
      (''cache_cleared'', PBool (ri_CacheCleared r)), (''dependency_state_cleared'', PBool (ri_DependencyStateCleared r)),
      (''claim_cleared'', PBool (ri_ClaimCleared r)), (''cycle_state_cleared'', PBool (ri_CycleStateCleared r)),
      (''claim_owner'', PStr (ri_ClaimOwner r))]"

text \<open>A step of the command that is skipped when there is nothing to clear.\<close>

definition when_set :: "bool \<Rightarrow> (store \<Rightarrow> store \<times> 'a result) \<Rightarrow> 'a \<Rightarrow> 'p event_db \<Rightarrow> 'p event_db \<times> 'a result" where
  "when_set b f x d = (if b then on_store f d else (d, Inr x))"

definition runRestartIssueStore :: "string \<Rightarrow> int \<Rightarrow> string \<Rightarrow> admin_db \<Rightarrow> admin_db \<times> restartIssueResult result" where
  "runRestartIssueStore repo n source d =
     (case inspectRestartIssueStore repo n (ed_store d) of
        Inl e \<Rightarrow> (d, Inl e)
      | Inr r \<Rightarrow>
     (case when_set (ri_CacheCleared r) (DeleteIssueCache repo n) () d of
        (d1, Inl e) \<Rightarrow> (d1, Inl e)
      | (d1, Inr _) \<Rightarrow>
     (case when_set (ri_DependencyStateCleared r) (DeleteIssueDependencyState repo n) False d1 of
        (d2, Inl e) \<Rightarrow> (d2, Inl e)
      | (d2, Inr _) \<Rightarrow>
     (case when_set (ri_ClaimCleared r) (DeleteIssueClaim repo n) False d2 of
        (d3, Inl e) \<Rightarrow> (d3, Inl e)
      | (d3, Inr deleted) \<Rightarrow>
     (let r1 = (if ri_ClaimCleared r then r\<lparr>ri_ClaimCleared := deleted\<rparr> else r)
      in case when_set (ri_CycleStateCleared r) (ResetIssueCycleState repo n) () d3 of
        (d4, Inl e) \<Rightarrow> (d4, Inl e)
      | (d4, Inr _) \<Rightarrow>
     (case InsertEvent TypeIssueRestarted repo n (restart_payload source r1) d4 of
        (d5, Inl e) \<Rightarrow> (d5, Inl e)
      | (d5, Inr _) \<Rightarrow> (d5, Inr (r1\<lparr>ri_EventLogged := True\<rparr>))))))))"

section \<open>The command\<close>

datatype cli_error = CliStore store_error | ForceRequired | ClearUnauthorized | ClearFailed int | ClearUnreachable

text \<open>The answer is the line read from the terminal.\<close>

definition confirmDestructiveAction :: "bool \<Rightarrow> bool \<Rightarrow> bool \<Rightarrow> string \<Rightarrow> cli_error + bool" where
  "confirmDestructiveAction interactive force dryRun answer =
     (if dryRun \<or> force then Inr True
      else if \<not> interactive then Inl ForceRequired
      else Inr (map lower_char (trim_space answer) = ''yes''))"

definition clearCoordinatorInflight :: "('c \<Rightarrow> 'c \<times> int option) \<Rightarrow> 'c \<Rightarrow> 'c \<times> (cli_error + bool)" where
  "clearCoordinatorInflight post c =
     (case post c of
        (c', None) \<Rightarrow> (c', Inl ClearUnreachable)
      | (c', Some status) \<Rightarrow>
          (c', if status = 200 then Inr True else if status = 404 then Inr False
               else if status = 401 then Inl ClearUnauthorized else Inl (ClearFailed status)))"

record restartIssueOpts =
  ro_repo :: string
  ro_issue :: int
  ro_source :: string
  ro_coordinator :: bool
  ro_force :: bool
  ro_dryRun :: bool
  ro_interactive :: bool
  ro_answer :: string

definition runRestartIssueWithOpts ::
  "('c \<Rightarrow> 'c \<times> int option) \<Rightarrow> restartIssueOpts \<Rightarrow> admin_db \<times> 'c \<Rightarrow> (admin_db \<times> 'c) \<times> (cli_error + restartIssueResult option)" where
  "runRestartIssueWithOpts post opts dc =
     (case dc of (d, c) \<Rightarrow>
     (case inspectRestartIssueStore (ro_repo opts) (ro_issue opts) (ed_store d) of
        Inl e \<Rightarrow> ((d, c), Inl (CliStore e))
      | Inr preview \<Rightarrow>
     if ro_dryRun opts then ((d, c), Inr (Some preview))
     else case confirmDestructiveAction (ro_interactive opts) (ro_force opts) (ro_dryRun opts) (ro_answer opts) of
        Inl e \<Rightarrow> ((d, c), Inl e)
      | Inr False \<Rightarrow> ((d, c), Inr None)
      | Inr True \<Rightarrow>
     (case runRestartIssueStore (ro_repo opts) (ro_issue opts) (ro_source opts) d of
        (d', Inl e) \<Rightarrow> ((d', c), Inl (CliStore e))
      | (d', Inr r) \<Rightarrow>
          if ro_coordinator opts
          then (case clearCoordinatorInflight post c of
                  (c', Inl e) \<Rightarrow> ((d', c'), Inl e)
                | (c', Inr cleared) \<Rightarrow> ((d', c'), Inr (Some (r\<lparr>ri_InflightCleared := cleared\<rparr>))))
          else ((d', c), Inr (Some r)))))"

section \<open>Invalidating the cache\<close>

record cacheInvalidateResult =
  cv_Repo :: string
  cv_IssueNum :: int
  cv_Result :: string
  cv_DependencyStateCleared :: bool
  cv_EventLogged :: bool

definition invalidateOne :: "string \<Rightarrow> int \<Rightarrow> string \<Rightarrow> bool \<Rightarrow> admin_db \<Rightarrow> admin_db \<times> cacheInvalidateResult result" where
  "invalidateOne repo n source dryRun d =
     (case QueryIssueCache repo n (ed_store d) of
        Inl e \<Rightarrow> (d, Inl e)
      | Inr cached \<Rightarrow>
     (case when_set (cached \<noteq> None \<and> \<not> dryRun) (DeleteIssueCache repo n) () d of
        (d1, Inl e) \<Rightarrow> (d1, Inl e)
      | (d1, Inr _) \<Rightarrow>
     (case (if dryRun then (d1, case QueryIssueDependencyState repo n (ed_store d1) of Inl e \<Rightarrow> Inl e | Inr x \<Rightarrow> Inr (x \<noteq> None))
            else on_store (DeleteIssueDependencyState repo n) d1) of
        (d2, Inl e) \<Rightarrow> (d2, Inl e)
      | (d2, Inr dep) \<Rightarrow>
     (case (if dryRun then (d2, Inr 0)
            else InsertEvent ''cache_invalidated'' repo n [(''repo'', PStr repo), (''issue_num'', PInt n), (''source'', PStr source)] d2) of
        (d3, Inl e) \<Rightarrow> (d3, Inl e)
      | (d3, Inr _) \<Rightarrow>
          (d3, Inr \<lparr>cv_Repo = repo, cv_IssueNum = n,
                    cv_Result = (if dryRun then (if cached \<noteq> None then ''would_delete'' else ''would_skip'')
                                 else if cached \<noteq> None then ''deleted'' else ''skipped''),
                    cv_DependencyStateCleared = dep, cv_EventLogged = (\<not> dryRun)\<rparr>)))))"

fun runCacheInvalidateStore :: "string \<Rightarrow> int list \<Rightarrow> string \<Rightarrow> bool \<Rightarrow> admin_db \<Rightarrow> admin_db \<times> cacheInvalidateResult list result" where
  "runCacheInvalidateStore repo [] source dryRun d = (d, Inr [])"
| "runCacheInvalidateStore repo (n # ns) source dryRun d =
     (case invalidateOne repo n source dryRun d of
        (d1, Inl e) \<Rightarrow> (d1, Inl e)
      | (d1, Inr r) \<Rightarrow>
         (case runCacheInvalidateStore repo ns source dryRun d1 of
            (d2, Inl e) \<Rightarrow> (d2, Inl e)
          | (d2, Inr rs) \<Rightarrow> (d2, Inr (r # rs))))"

fun issueParts :: "string list \<Rightarrow> int list \<Rightarrow> int list option" where
  "issueParts [] issues = Some issues"
| "issueParts (part # parts) issues =
     (let p = trim_space part
      in if p = [] then issueParts parts issues
         else case atoi p of
                None \<Rightarrow> None
              | Some n \<Rightarrow> if n \<le> 0 then None else issueParts parts (if n \<in> set issues then issues else issues @ [n]))"

definition parseIssueList :: "string \<Rightarrow> int list option" where
  "parseIssueList raw = (if trim_space raw = [] then Some [] else issueParts (split_on (CHR '','') (trim_space raw)) [])"

lemma issueParts_ok:
  "issueParts parts issues = Some ns \<Longrightarrow> distinct issues \<Longrightarrow> (\<forall>n \<in> set issues. 0 < n) \<Longrightarrow> distinct ns \<and> (\<forall>n \<in> set ns. 0 < n)"
  by (induction parts issues rule: issueParts.induct) (auto simp: Let_def split: if_splits option.splits)

lemma parseIssueList_ok: "parseIssueList raw = Some ns \<Longrightarrow> distinct ns \<and> (\<forall>n \<in> set ns. 0 < n)"
  by (auto simp: parseIssueList_def dest: issueParts_ok split: if_splits)

section \<open>What the commands do to the database\<close>

text \<open>The rows of one issue, and everything but the rows of some issues.\<close>

definition issue_view :: "issue_key \<Rightarrow> store \<Rightarrow>
    IssueCache option \<times> IssueDependencyState option \<times> IssueClaimRecord option \<times> IssueCycleState option" where
  "issue_view k s = (map_of (issue_cache s) k, map_of (issue_dependency_state s) k, map_of (issue_claim s) k, map_of (issue_cycle_state s) k)"

definition rest_view :: "store \<Rightarrow> store" where
  "rest_view s = s\<lparr>busy := 0, issue_cache := [], issue_dependency_state := [], issue_claim := [], issue_cycle_state := []\<rparr>"

definition same_but :: "issue_key set \<Rightarrow> store \<Rightarrow> store \<Rightarrow> bool" where
  "same_but ks s s' \<longleftrightarrow> rest_view s' = rest_view s \<and> (\<forall>k. k \<notin> ks \<longrightarrow> issue_view k s' = issue_view k s)"

lemma same_but_refl [simp, intro]: "same_but ks s s"
  by (simp add: same_but_def)

lemma same_but_trans: "same_but ks s t \<Longrightarrow> same_but ks t u \<Longrightarrow> same_but ks s u"
  by (simp add: same_but_def)

lemma same_but_mono: "same_but ks s t \<Longrightarrow> ks \<subseteq> ls \<Longrightarrow> same_but ls s t"
  by (auto simp: same_but_def)

lemma clear_steps:
  "same_but {(repo, n)} s (fst (DeleteIssueCache repo n s))"
  "same_but {(repo, n)} s (fst (DeleteIssueDependencyState repo n s))"
  "same_but {(repo, n)} s (fst (DeleteIssueClaim repo n s))"
  "same_but {(repo, n)} s (fst (ResetIssueCycleState repo n s))"
  by (auto simp: same_but_def rest_view_def issue_view_def DeleteIssueCache_def DeleteIssueDependencyState_def DeleteIssueClaim_def
      ResetIssueCycleState_def map_of_delete)

lemma same_but_events_only: "events_only d d' \<Longrightarrow> same_but ks (ed_store d) (ed_store d')"
proof -
  assume "events_only d d'"
  then have eq: "f ((ed_store d')\<lparr>busy := 0\<rparr>) = f ((ed_store d)\<lparr>busy := 0\<rparr>)" for f :: "store \<Rightarrow> 'x" by (simp add: events_only_def)
  from eq [of rest_view] eq [of issue_cache] eq [of issue_dependency_state] eq [of issue_claim] eq [of issue_cycle_state]
  show ?thesis by (simp add: same_but_def rest_view_def issue_view_def)
qed

lemma when_set_same:
  assumes "\<And>s. same_but ks s (fst (f s))"
  shows "same_but ks (ed_store d) (ed_store (fst (when_set b f x d)))"
  using assms [of "ed_store d"] by (auto simp: when_set_def on_store_def split: prod.splits)

text \<open>Every command touches nothing but the rows of its own issue, on every path.\<close>

lemma runRestartIssueStore_same: "same_but {(repo, n)} (ed_store d) (ed_store (fst (runRestartIssueStore repo n source d)))"
proof (cases "inspectRestartIssueStore repo n (ed_store d)")
  case (Inr r)
  let ?K = "{(repo, n)}"
  obtain d1 a1 where 1: "when_set (ri_CacheCleared r) (DeleteIssueCache repo n) () d = (d1, a1)" by (rule prod.exhaust)
  obtain d2 a2 where 2: "when_set (ri_DependencyStateCleared r) (DeleteIssueDependencyState repo n) False d1 = (d2, a2)" by (rule prod.exhaust)
  obtain d3 a3 where 3: "when_set (ri_ClaimCleared r) (DeleteIssueClaim repo n) False d2 = (d3, a3)" by (rule prod.exhaust)
  obtain d4 a4 where 4: "when_set (ri_CycleStateCleared r) (ResetIssueCycleState repo n) () d3 = (d4, a4)" by (rule prod.exhaust)
  have s1: "same_but ?K (ed_store d) (ed_store d1)" using when_set_same [of ?K "DeleteIssueCache repo n" d] clear_steps(1) 1 by (metis fst_conv)
  have "same_but ?K (ed_store d1) (ed_store d2)" using when_set_same [of ?K "DeleteIssueDependencyState repo n" d1] clear_steps(2) 2 by (metis fst_conv)
  with s1 have s2: "same_but ?K (ed_store d) (ed_store d2)" by (rule same_but_trans)
  have "same_but ?K (ed_store d2) (ed_store d3)" using when_set_same [of ?K "DeleteIssueClaim repo n" d2] clear_steps(3) 3 by (metis fst_conv)
  with s2 have s3: "same_but ?K (ed_store d) (ed_store d3)" by (rule same_but_trans)
  have "same_but ?K (ed_store d3) (ed_store d4)" using when_set_same [of ?K "ResetIssueCycleState repo n" d3] clear_steps(4) 4 by (metis fst_conv)
  with s3 have s4: "same_but ?K (ed_store d) (ed_store d4)" by (rule same_but_trans)
  have s5: "same_but ?K (ed_store d) (ed_store d5)" if "InsertEvent TypeIssueRestarted repo n p d4 = (d5, a)" for p d5 a
    using same_but_trans [OF s4 same_but_events_only] InsertEvent_effect [OF that] by blast
  show ?thesis using s1 s2 s3 s4 s5
    by (auto simp: runRestartIssueStore_def Inr 1 2 3 4 Let_def split: sum.split prod.split)
qed (simp add: runRestartIssueStore_def)

text \<open>A restart that succeeds leaves no row of the issue.\<close>

lemma inspect_view:
  assumes "inspectRestartIssueStore repo n s = Inr r"
  shows "ri_CacheCleared r \<longleftrightarrow> map_of (issue_cache s) (repo, n) \<noteq> None"
    "ri_DependencyStateCleared r \<longleftrightarrow> map_of (issue_dependency_state s) (repo, n) \<noteq> None"
    "ri_ClaimCleared r \<longleftrightarrow> map_of (issue_claim s) (repo, n) \<noteq> None"
    "ri_CycleStateCleared r \<longleftrightarrow> map_of (issue_cycle_state s) (repo, n) \<noteq> None"
  using assms by (auto simp: inspectRestartIssueStore_def QueryIssueCache_def QueryIssueDependencyState_def QueryIssueClaim_def
      QueryIssueCycleState_def split: if_splits option.splits)

lemma clear_one:
  "when_set (map_of (issue_cache (ed_store d)) k \<noteq> None) (DeleteIssueCache (fst k) (snd k)) () d = (d', Inr u) \<Longrightarrow>
    map_of (issue_cache (ed_store d')) k = None \<and> issue_dependency_state (ed_store d') = issue_dependency_state (ed_store d) \<and>
    issue_claim (ed_store d') = issue_claim (ed_store d) \<and> issue_cycle_state (ed_store d') = issue_cycle_state (ed_store d)"
  "when_set (map_of (issue_dependency_state (ed_store d)) k \<noteq> None) (DeleteIssueDependencyState (fst k) (snd k)) False d = (d', Inr b) \<Longrightarrow>
    map_of (issue_dependency_state (ed_store d')) k = None \<and> issue_cache (ed_store d') = issue_cache (ed_store d) \<and>
    issue_claim (ed_store d') = issue_claim (ed_store d) \<and> issue_cycle_state (ed_store d') = issue_cycle_state (ed_store d)"
  "when_set (map_of (issue_claim (ed_store d)) k \<noteq> None) (DeleteIssueClaim (fst k) (snd k)) False d = (d', Inr b) \<Longrightarrow>
    map_of (issue_claim (ed_store d')) k = None \<and> issue_cache (ed_store d') = issue_cache (ed_store d) \<and>
    issue_dependency_state (ed_store d') = issue_dependency_state (ed_store d) \<and> issue_cycle_state (ed_store d') = issue_cycle_state (ed_store d)"
  "when_set (map_of (issue_cycle_state (ed_store d)) k \<noteq> None) (ResetIssueCycleState (fst k) (snd k)) () d = (d', Inr u) \<Longrightarrow>
    map_of (issue_cycle_state (ed_store d')) k = None \<and> issue_cache (ed_store d') = issue_cache (ed_store d) \<and>
    issue_dependency_state (ed_store d') = issue_dependency_state (ed_store d) \<and> issue_claim (ed_store d') = issue_claim (ed_store d)"
  by (auto simp: when_set_def on_store_def DeleteIssueCache_def DeleteIssueDependencyState_def DeleteIssueClaim_def ResetIssueCycleState_def
      map_of_delete split: if_splits)

lemma events_only_view: "events_only d d' \<Longrightarrow> issue_view k (ed_store d') = issue_view k (ed_store d)"
  using same_but_events_only [of d d' "{}"] by (cases k) (simp add: same_but_def)

lemma runRestartIssueStore_clears:
  assumes "runRestartIssueStore repo n source d = (d', Inr res)"
  shows "issue_view (repo, n) (ed_store d') = (None, None, None, None)"
proof -
  obtain r where r: "inspectRestartIssueStore repo n (ed_store d) = Inr r"
    using assms by (auto simp: runRestartIssueStore_def split: sum.splits)
  note view = inspect_view [OF r]
  obtain d1 where 1: "when_set (ri_CacheCleared r) (DeleteIssueCache repo n) () d = (d1, Inr ())"
    using assms by (auto simp: runRestartIssueStore_def r split: sum.splits prod.splits)
  obtain d2 b2 where 2: "when_set (ri_DependencyStateCleared r) (DeleteIssueDependencyState repo n) False d1 = (d2, Inr b2)"
    using assms by (auto simp: runRestartIssueStore_def r 1 split: sum.splits prod.splits)
  obtain d3 b3 where 3: "when_set (ri_ClaimCleared r) (DeleteIssueClaim repo n) False d2 = (d3, Inr b3)"
    using assms by (auto simp: runRestartIssueStore_def r 1 2 split: sum.splits prod.splits)
  obtain d4 where 4: "when_set (ri_CycleStateCleared r) (ResetIssueCycleState repo n) () d3 = (d4, Inr ())"
    using assms by (auto simp: runRestartIssueStore_def r 1 2 3 Let_def split: sum.splits prod.splits)
  obtain p i where 5: "InsertEvent TypeIssueRestarted repo n p d4 = (d', Inr i)"
    using assms by (auto simp: runRestartIssueStore_def r 1 2 3 4 Let_def split: sum.splits prod.splits)
  note c1 = clear_one(1) [of d "(repo, n)" d1 "()", folded view, simplified, OF 1]
  note c2 = clear_one(2) [of d1 "(repo, n)" d2 b2, simplified]
  note c3 = clear_one(3) [of d2 "(repo, n)" d3 b3, simplified]
  note c4 = clear_one(4) [of d3 "(repo, n)" d4 "()", simplified]
  have "issue_view (repo, n) (ed_store d4) = (None, None, None, None)"
    using c1 c2 c3 c4 2 3 4 view by (auto simp: issue_view_def)
  then show ?thesis using events_only_view InsertEvent_effect [OF 5] by metis
qed

lemma runRestartIssueStore_logs:
  assumes "runRestartIssueStore repo n source d = (d', Inr res)"
  shows "\<exists>p. map event_content (ed_rows d') = map event_content (ed_rows d) @ [(TypeIssueRestarted, repo, n, p)]"
proof -
  have keep: "ed_rows (fst (when_set b f x e)) = ed_rows e" for b x and f :: "store \<Rightarrow> store \<times> 'a result" and e :: admin_db
    by (auto simp: when_set_def on_store_def split: prod.splits)
  obtain p d4 i where 5: "InsertEvent TypeIssueRestarted repo n p d4 = (d', Inr i)" and 4: "ed_rows d4 = ed_rows d"
    using assms by (auto simp: runRestartIssueStore_def Let_def split: sum.splits prod.splits) (metis keep fst_conv)+
  then show ?thesis using InsertEvent_effect [OF 5] by auto
qed

section \<open>What a poll cycle makes of it\<close>

lemma uncached_created:
  assumes "map_of (issue_cache (pl_db p)) (pl_repo p, i_Number i) = None" "i \<in> set is" "pl_ctx p = None" "reads_ok is qs p"
  shows "issue_event (pl_repo p) EventIssueCreated i (i_Title i) \<in> set (drop (length (pl_events p)) (pl_events (poll False (Inr is) (Inr qs) p)))"
proof -
  have "issue_event (pl_repo p) EventIssueCreated i (i_Title i) \<in> set (issue_changes p i)"
    using assms(1) by (simp add: issue_changes_def cached_row_def)
  then show ?thesis using assms(2) by (auto simp: poll_alive [OF assms(3,4)] changes_def)
qed

text \<open>C11. A restart puts the issue back at the start and nothing else: when the command succeeds, the cache,
  the dependency verdict, the claim and the counters of the issue are gone, no other row of the
  database has changed, one event records it, and the next poll cycle that sees the issue reports
  it as new, so that the state machine enters it again.\<close>

theorem restart_rediscovers:
  assumes run: "runRestartIssueWithOpts post opts (d, c) = ((d', c'), Inr (Some r))" "\<not> ro_dryRun opts"
    and p: "pl_db p = ed_store d'" "pl_repo p = ro_repo opts" "pl_ctx p = None" "reads_ok is qs p"
    and i: "i \<in> set is" "i_Number i = ro_issue opts"
  shows "issue_event (ro_repo opts) EventIssueCreated i (i_Title i) \<in> set (drop (length (pl_events p)) (pl_events (poll False (Inr is) (Inr qs) p))) \<and>
    issue_view (ro_repo opts, ro_issue opts) (ed_store d') = (None, None, None, None) \<and>
    same_but {(ro_repo opts, ro_issue opts)} (ed_store d) (ed_store d') \<and>
    (\<exists>q. map event_content (ed_rows d') = map event_content (ed_rows d) @ [(TypeIssueRestarted, ro_repo opts, ro_issue opts, q)])"
proof -
  obtain r' where st: "runRestartIssueStore (ro_repo opts) (ro_issue opts) (ro_source opts) d = (d', Inr r')"
    using run by (auto simp: runRestartIssueWithOpts_def split: sum.splits prod.splits if_splits bool.splits)
  note cleared = runRestartIssueStore_clears [OF st]
  then have "map_of (issue_cache (pl_db p)) (pl_repo p, i_Number i) = None" by (simp add: p i issue_view_def)
  from uncached_created [OF this i(1) p(3,4)] cleared runRestartIssueStore_same [of "ro_repo opts" "ro_issue opts" d "ro_source opts"]
    runRestartIssueStore_logs [OF st]
  show ?thesis by (simp add: st p(2))
qed

text \<open>A dry run changes nothing, asks nobody and announces exactly what the command would then clear.\<close>

theorem dry_run_exact:
  assumes "ro_dryRun opts" "runRestartIssueWithOpts post opts dc = (dc', Inr (Some r))"
    and "runRestartIssueWithOpts post' (opts\<lparr>ro_dryRun := False\<rparr>) dc = (dc'', Inr (Some r'))"
  shows "dc' = dc \<and> ri_CacheCleared r' = ri_CacheCleared r \<and> ri_DependencyStateCleared r' = ri_DependencyStateCleared r \<and>
    ri_ClaimCleared r' = ri_ClaimCleared r \<and> ri_CycleStateCleared r' = ri_CycleStateCleared r \<and> ri_ClaimOwner r' = ri_ClaimOwner r"
proof -
  obtain d c where dc: "dc = (d, c)" by (rule prod.exhaust)
  have r: "inspectRestartIssueStore (ro_repo opts) (ro_issue opts) (ed_store d) = Inr r" "dc' = dc"
    using assms(1,2) by (auto simp: runRestartIssueWithOpts_def dc split: sum.splits)
  obtain d1 q where st: "runRestartIssueStore (ro_repo opts) (ro_issue opts) (ro_source opts) d = (d1, Inr q)"
    and q: "ri_CacheCleared r' = ri_CacheCleared q" "ri_DependencyStateCleared r' = ri_DependencyStateCleared q"
      "ri_ClaimCleared r' = ri_ClaimCleared q" "ri_CycleStateCleared r' = ri_CycleStateCleared q" "ri_ClaimOwner r' = ri_ClaimOwner q"
    using assms(3) by (auto simp: runRestartIssueWithOpts_def dc split: sum.splits prod.splits if_splits bool.splits)
  have keep: "issue_claim (ed_store (fst (when_set b (DeleteIssueCache repo n) u e))) = issue_claim (ed_store e)"
    "issue_claim (ed_store (fst (when_set b (DeleteIssueDependencyState repo n) v e))) = issue_claim (ed_store e)" for b repo n u v and e :: admin_db
    by (auto simp: when_set_def on_store_def DeleteIssueCache_def DeleteIssueDependencyState_def split: if_splits)
  obtain d2 u where 1: "when_set (ri_CacheCleared r) (DeleteIssueCache (ro_repo opts) (ro_issue opts)) () d = (d2, u)" by (rule prod.exhaust)
  obtain d3 v where 2: "when_set (ri_DependencyStateCleared r) (DeleteIssueDependencyState (ro_repo opts) (ro_issue opts)) False d2 = (d3, v)" by (rule prod.exhaust)
  have "issue_claim (ed_store d3) = issue_claim (ed_store d)" using keep 1 2 by (metis fst_conv)
  then have claim: "b" if "ri_ClaimCleared r" "when_set True (DeleteIssueClaim (ro_repo opts) (ro_issue opts)) False d3 = (d4, Inr b)" for d4 b
    using that inspect_view(3) [OF r(1)] by (auto simp: when_set_def on_store_def DeleteIssueClaim_def split: if_splits)
  have "ri_CacheCleared q = ri_CacheCleared r \<and> ri_DependencyStateCleared q = ri_DependencyStateCleared r \<and>
    ri_ClaimCleared q = ri_ClaimCleared r \<and> ri_CycleStateCleared q = ri_CycleStateCleared r \<and> ri_ClaimOwner q = ri_ClaimOwner r"
    using st claim by (auto simp: runRestartIssueStore_def r 1 2 Let_def split: sum.splits prod.splits if_splits)
  then show ?thesis using r(2) q by simp
qed

section \<open>Invalidated issues\<close>

lemma invalidateOne_effect:
  assumes "invalidateOne repo n source False d = (d', Inr r)"
  shows "map_of (issue_cache (ed_store d')) (repo, n) = None \<and> map_of (issue_dependency_state (ed_store d')) (repo, n) = None \<and>
    same_but {(repo, n)} (ed_store d) (ed_store d') \<and> issue_claim (ed_store d') = issue_claim (ed_store d)"
proof -
  obtain cached where c: "QueryIssueCache repo n (ed_store d) = Inr cached"
    using assms by (auto simp: invalidateOne_def split: sum.splits)
  then have cn: "cached \<noteq> None \<longleftrightarrow> map_of (issue_cache (ed_store d)) (repo, n) \<noteq> None"
    by (auto simp: QueryIssueCache_def split: if_splits)
  obtain d1 d2 b q i where 1: "when_set (\<exists>y. cached = Some y) (DeleteIssueCache repo n) () d = (d1, Inr ())"
    and 2: "on_store (DeleteIssueDependencyState repo n) d1 = (d2, Inr b)"
    and 3: "InsertEvent ''cache_invalidated'' repo n q d2 = (d', Inr i)"
    using assms by (auto simp: invalidateOne_def c split: sum.splits prod.splits)
  have s1: "same_but {(repo, n)} (ed_store d) (ed_store d1)"
    using when_set_same [of "{(repo, n)}" "DeleteIssueCache repo n" d "\<exists>y. cached = Some y" "()"] clear_steps(1) 1 by (metis fst_conv)
  have s2: "same_but {(repo, n)} (ed_store d1) (ed_store d2)"
    using when_set_same [of "{(repo, n)}" "DeleteIssueDependencyState repo n" d1 True False] clear_steps(2) 2 by (simp add: when_set_def)
  have ev: "events_only d2 d'" using InsertEvent_effect [OF 3] by blast
  have v2: "map_of (issue_cache (ed_store d2)) (repo, n) = None" "map_of (issue_dependency_state (ed_store d2)) (repo, n) = None"
    "issue_claim (ed_store d2) = issue_claim (ed_store d)"
    using 1 2 cn by (auto simp: when_set_def on_store_def DeleteIssueCache_def DeleteIssueDependencyState_def map_of_delete split: if_splits)
  have "issue_claim (ed_store d') = issue_claim (ed_store d2)" using arg_cong [OF ev [unfolded events_only_def], of issue_claim] by simp
  then show ?thesis using v2 events_only_view [OF ev, of "(repo, n)"]
      same_but_trans [OF same_but_trans [OF s1 s2] same_but_events_only [OF ev]]
    by (simp add: issue_view_def)
qed

lemma runCacheInvalidateStore_effect:
  "runCacheInvalidateStore repo ns source False d = (d', Inr rs) \<Longrightarrow>
   (\<forall>n \<in> set ns. map_of (issue_cache (ed_store d')) (repo, n) = None) \<and>
   same_but (Pair repo ` set ns) (ed_store d) (ed_store d') \<and> issue_claim (ed_store d') = issue_claim (ed_store d) \<and> map cv_IssueNum rs = ns"
proof (induction ns arbitrary: d rs)
  case (Cons n ns)
  obtain d1 r where 1: "invalidateOne repo n source False d = (d1, Inr r)"
    using Cons.prems by (auto split: sum.splits prod.splits)
  obtain rs' where 2: "runCacheInvalidateStore repo ns source False d1 = (d', Inr rs')" "rs = r # rs'"
    using Cons.prems by (auto simp: 1 split: sum.splits prod.splits)
  note one = invalidateOne_effect [OF 1] and rest = Cons.IH [OF 2(1)]
  have "cv_IssueNum r = n" using 1 by (auto simp: invalidateOne_def split: sum.splits prod.splits)
  moreover have "map_of (issue_cache (ed_store d')) (repo, n) = None"
  proof (cases "n \<in> set ns")
    case False
    then have "issue_view (repo, n) (ed_store d') = issue_view (repo, n) (ed_store d1)" using rest by (auto simp: same_but_def)
    then show ?thesis using one by (simp add: issue_view_def)
  qed (use rest in blast)
  moreover have "same_but (Pair repo ` set (n # ns)) (ed_store d) (ed_store d')"
  proof (rule same_but_trans)
    show "same_but (Pair repo ` set (n # ns)) (ed_store d) (ed_store d1)" using one by (auto intro: same_but_mono)
    show "same_but (Pair repo ` set (n # ns)) (ed_store d1) (ed_store d')" using rest by (auto intro: same_but_mono)
  qed
  ultimately show ?case using one rest 2(2) by auto
qed simp

text \<open>Invalidating a list of issues makes the next poll cycle report each of them as new and touches no
  other issue and no claim: the numbers are those of the list without repetitions, all positive.\<close>

theorem invalidate_rediscovers:
  assumes "parseIssueList raw = Some ns" "runCacheInvalidateStore repo ns source False d = (d', Inr rs)"
    and "pl_db p = ed_store d'" "pl_repo p = repo" "pl_ctx p = None" "reads_ok is qs p"
  shows "map cv_IssueNum rs = ns \<and> distinct ns \<and> (\<forall>n \<in> set ns. 0 < n) \<and>
    same_but (Pair repo ` set ns) (ed_store d) (ed_store d') \<and> issue_claim (ed_store d') = issue_claim (ed_store d) \<and>
    (\<forall>i \<in> set is. i_Number i \<in> set ns \<longrightarrow>
      issue_event repo EventIssueCreated i (i_Title i) \<in> set (drop (length (pl_events p)) (pl_events (poll False (Inr is) (Inr qs) p))))"
  using runCacheInvalidateStore_effect [OF assms(2)] parseIssueList_ok [OF assms(1)] uncached_created [of p _ "is" qs] assms(3-6) by simp

section \<open>An issue that is stuck under a claim\<close>

definition demo_admin_db :: admin_db where
  "demo_admin_db = \<lparr>ed_store = empty_store\<lparr>
     issue_cache := [((''o/r'', 7), issue_row (demo_issue 7 [''workbuddy''])), ((''o/r'', 8), issue_row (demo_issue 8 []))],
     issue_claim := [((''o/r'', 7), \<lparr>c_WorkerID = ''co-1'', c_ClaimToken = ''t'', c_AcquiredAt = 0, c_ExpiresAt = 0\<rparr>)]\<rparr>,
     ed_rows = [], ed_next = 1\<rparr>"

definition demo_restart :: restartIssueOpts where
  "demo_restart = \<lparr>ro_repo = ''o/r'', ro_issue = 7, ro_source = ''cli'', ro_coordinator = True, ro_force = False, ro_dryRun = False,
     ro_interactive = True, ro_answer = ''Yes ''\<rparr>"

definition demo_post :: "nat \<Rightarrow> nat \<times> int option" where
  "demo_post c = (c + 1, Some 404)"

definition demo_restarted :: "(admin_db \<times> nat) \<times> (cli_error + restartIssueResult option)" where
  "demo_restarted = runRestartIssueWithOpts demo_post demo_restart (demo_admin_db, 0)"

theorem restart_rediscovers_witness:
  "let p = NewPoller (ed_store (fst (fst demo_restarted))) ''o/r'' 0
   in issue_event ''o/r'' EventIssueCreated (demo_issue 7 [''workbuddy'']) ''title'' \<in>
        set (pl_events (poll False (Inr [demo_issue 7 [''workbuddy''], demo_issue 8 []]) (Inr []) p)) \<and>
      map_of (issue_claim (ed_store (fst (fst demo_restarted)))) (''o/r'', 7) = None"
proof -
  let ?p = "NewPoller (ed_store (fst (fst demo_restarted))) ''o/r'' 0"
  have ok: "case snd demo_restarted of Inr (Some _) \<Rightarrow> True | _ \<Rightarrow> False" by code_simp
  obtain r where "snd demo_restarted = Inr (Some r)" using ok by (auto split: sum.splits option.splits)
  then have run: "runRestartIssueWithOpts demo_post demo_restart (demo_admin_db, 0) = ((fst (fst demo_restarted), snd (fst demo_restarted)), Inr (Some r))"
    unfolding demo_restarted_def by (metis prod.collapse)
  have f: "\<not> faults (ed_store (fst (fst demo_restarted))) OpQueryCache" "\<not> faults (ed_store (fst (fst demo_restarted))) OpListCaches" by code_simp+
  show ?thesis
    using restart_rediscovers [OF run, of ?p "[demo_issue 7 [''workbuddy''], demo_issue 8 []]" "[]" "demo_issue 7 [''workbuddy'']"] f
    by (auto simp: demo_restart_def NewPoller_def reads_ok_def demo_issue_def issue_view_def)
qed

definition demo_invalidated :: "admin_db \<times> cacheInvalidateResult list result" where
  "demo_invalidated = runCacheInvalidateStore ''o/r'' [8, 7] ''cli'' False demo_admin_db"

theorem invalidate_rediscovers_witness:
  "map_of (issue_claim (ed_store (fst demo_invalidated))) (''o/r'', 7) \<noteq> None \<and>
   issue_event ''o/r'' EventIssueCreated (demo_issue 8 []) ''title'' \<in>
     set (pl_events (poll False (Inr [demo_issue 8 []]) (Inr []) (NewPoller (ed_store (fst demo_invalidated)) ''o/r'' 0)))"
proof -
  let ?p = "NewPoller (ed_store (fst demo_invalidated)) ''o/r'' 0"
  have parse: "parseIssueList '' 8,7, 8'' = Some [8, 7]" by code_simp
  have ok: "\<not> isl (snd demo_invalidated)" by code_simp
  then have run: "runCacheInvalidateStore ''o/r'' [8, 7] ''cli'' False demo_admin_db = (fst demo_invalidated, Inr (projr (snd demo_invalidated)))"
    unfolding demo_invalidated_def by (metis prod.collapse sum.collapse(2))
  have f: "\<not> faults (ed_store (fst demo_invalidated)) OpQueryCache" "\<not> faults (ed_store (fst demo_invalidated)) OpListCaches" by code_simp+
  have c: "map_of (issue_claim (ed_store demo_admin_db)) (''o/r'', 7) \<noteq> None" by (simp add: demo_admin_db_def)
  show ?thesis
    using invalidate_rediscovers [OF parse run, of ?p "[demo_issue 8 []]" "[]"] f c
    by (auto simp: NewPoller_def reads_ok_def demo_issue_def)
qed

end
