(* ===== verification/Operator.thy ===== *)
theory Operator
  imports Event_Log Task_Store Liveness Repo_Registration
begin

text \<open>
  The detector of the operator (\<^verbatim>\<open>internal/operator/detector.go\<close>): it looks at the tasks, caches and
  workers of every repository at an interval and raises alerts, which it writes to the event log and
  to files of an inbox and publishes, unless the same alert was raised a short while ago.

  \<^item> A resource of an alert holds strings and numbers, the only values the detector builds. The text
    and the snapshot of an alert are for human readers and are left out.
  \<^item> The payload of an alert in the event log is its JSON text: \<open>AlertJSON a\<close> decodes to \<open>a\<close>,
    \<open>AlertBad\<close> does not decode.
  \<^item> \<open>stamp\<close> is the format of a time in the name of an alert, \<open>sha\<close> the SHA-1 digest in hexadecimal.
  \<^item> A pass sees the tables in the state they are in by then (\<open>pe_store\<close>, \<open>pe_registrations\<close>), the
    events that others have logged since the last one (\<open>pe_events\<close>, none of them an alert, a type
    that only the detector writes), the answer of the process inspector and whether the file of an
    alert can be written.

  Shown here: the same alert is not raised twice within the window unless more than 256 alerts were raised since,
  over restarts too; what was raised is in the log, in the inbox and on the bus; and the first error ends
  the detector.
\<close>

section \<open>Alerts\<close>

datatype resource_value = RStr string | RInt int

type_synonym resource = "(string \<times> resource_value) list"

record Alert =
  aa_ID :: string
  aa_Kind :: string
  aa_Severity :: string
  aa_Ts :: time
  aa_Resource :: resource

datatype alert_text = AlertJSON Alert | AlertBad

definition KindLeaseExpired :: string where "KindLeaseExpired = ''lease_expired''"
definition KindTaskStuck :: string where "KindTaskStuck = ''task_stuck''"
definition KindMissingLabel :: string where "KindMissingLabel = ''missing_label''"
definition KindCacheStale :: string where "KindCacheStale = ''cache_stale''"
definition KindWorkerMissing :: string where "KindWorkerMissing = ''worker_missing''"
definition KindCoordinatorRestartGap :: string where "KindCoordinatorRestartGap = ''coordinator_restart_gap''"
definition op_SeverityInfo :: string where "op_SeverityInfo = ''info''"
definition op_SeverityWarn :: string where "op_SeverityWarn = ''warn''"
definition op_SeverityError :: string where "op_SeverityError = ''error''"
definition TypeAlert :: string where "TypeAlert = ''alert''"
definition leaseExpiredGrace :: duration where "leaseExpiredGrace = LeaseExpiredGrace Default"
definition taskStuckAfter :: duration where "taskStuckAfter = PendingTaskStuckAfter Default"
definition missingLabelAfter :: duration where "missingLabelAfter = MissingLabelAfter Default"

fun canonicalValue :: "resource_value \<Rightarrow> string" where
  "canonicalValue (RStr s) = s"
| "canonicalValue (RInt n) = itoa n"

definition stableResourceKey :: "resource \<Rightarrow> string" where
  "stableResourceKey res = join_with '','' (map (\<lambda>(k, v). k @ ''='' @ canonicalValue v) (sort_key fst res))"

definition alert_key :: "Alert \<Rightarrow> string" where
  "alert_key a = aa_Kind a @ ''|'' @ stableResourceKey (aa_Resource a)"

definition alertID :: "(time \<Rightarrow> string) \<Rightarrow> (string \<Rightarrow> string) \<Rightarrow> time \<Rightarrow> string \<Rightarrow> resource \<Rightarrow> string" where
  "alertID stamp sha ts kind res = stamp ts @ ''-'' @ kind @ ''-'' @ take 8 (sha (kind @ ''|'' @ stableResourceKey res))"

definition newAlert :: "(time \<Rightarrow> string) \<Rightarrow> (string \<Rightarrow> string) \<Rightarrow> time \<Rightarrow> string \<Rightarrow> string \<Rightarrow> resource \<Rightarrow> Alert" where
  "newAlert stamp sha now kind severity res =
     \<lparr>aa_ID = alertID stamp sha now kind res, aa_Kind = kind, aa_Severity = severity, aa_Ts = now, aa_Resource = res\<rparr>"

definition alertRepoIssue :: "Alert \<Rightarrow> string \<times> int" where
  "alertRepoIssue a = (case map_of (aa_Resource a) ''repo'' of Some (RStr r) \<Rightarrow> r | _ \<Rightarrow> [],
     case map_of (aa_Resource a) ''issue_num'' of Some (RInt n) \<Rightarrow> n | Some (RStr s) \<Rightarrow> (case atoi s of Some n \<Rightarrow> n | None \<Rightarrow> 0) | None \<Rightarrow> 0)"

definition toBusSeverity :: "string \<Rightarrow> string" where
  "toBusSeverity s = (if s = op_SeverityInfo then SeverityInfo else if s = op_SeverityError then SeverityError else SeverityWarn)"

section \<open>Labels\<close>

definition decodeLabels :: "labels_text \<Rightarrow> string list" where
  "decodeLabels t = (case t of JText ls \<Rightarrow> ls | JBad _ \<Rightarrow> [])"

definition firstStatusLabel :: "string list \<Rightarrow> string" where
  "firstStatusLabel ls = (case find (\<lambda>l. has_prefix l ''status:'') ls of None \<Rightarrow> [] | Some l \<Rightarrow> l)"

definition containsLabel :: "string list \<Rightarrow> string \<Rightarrow> bool" where
  "containsLabel ls want = list_ex (\<lambda>l. l = want) ls"

definition inferCurrentState :: "string list \<Rightarrow> string \<Rightarrow> string" where
  "inferCurrentState ls issueState = (if firstStatusLabel ls \<noteq> [] then firstStatusLabel ls else issueState)"

definition isIntermediateState :: "string \<Rightarrow> bool" where
  "isIntermediateState st \<longleftrightarrow> st \<notin> {[], ''closed'', ''status:blocked'', ''status:done'', ''status:failed''} \<and> has_prefix st ''status:''"

section \<open>The detector\<close>

record Detector =
  dt_db :: "alert_text event_db"
  dt_registrations :: registrations
  dt_cfg :: OperatorConfig
  dt_bus :: "AlertEvent list option"
  dt_inbox :: "(string \<times> Alert) list"
  dt_defaultRepo :: string
  dt_defaultPollInterval :: duration
  dt_workerHeartbeatInterval :: duration

record pass_env =
  pe_now :: time
  pe_store :: store
  pe_registrations :: registrations
  pe_events :: "alert_text event_row list"
  pe_codex :: "string + int"
  pe_writes :: "Alert \<Rightarrow> bool"

datatype operator_error = OpStore store_error | OpInspect string | OpInbox

definition NewDetector :: "OperatorConfig \<Rightarrow> alert_text event_db \<Rightarrow> AlertEvent list option \<Rightarrow> string \<Rightarrow> duration \<Rightarrow> duration \<Rightarrow> Detector" where
  "NewDetector cfg d bus repo poll hb =
     \<lparr>dt_db = d, dt_registrations = [],
      dt_cfg = \<lparr>oc_Enabled = oc_Enabled cfg,
                oc_CheckInterval = (if oc_CheckInterval cfg \<le> 0 then AlertCheckInterval Default else oc_CheckInterval cfg),
                oc_DedupWindow = (if oc_DedupWindow cfg \<le> 0 then 5 * minute else oc_DedupWindow cfg),
                oc_InboxDir = (if trim_space (oc_InboxDir cfg) = [] then ''~/.workbuddy/operator/inbox'' else oc_InboxDir cfg)\<rparr>,
      dt_bus = bus, dt_inbox = [], dt_defaultRepo = trim_space repo,
      dt_defaultPollInterval = (if poll \<le> 0 then 30 * second else poll),
      dt_workerHeartbeatInterval = (if hb \<le> 0 then 15 * second else hb)\<rparr>"

text \<open>The repositories in order of their names, each once; all of them have the same poll interval.\<close>

definition repoContexts :: "Detector \<Rightarrow> (string \<times> duration) list result" where
  "repoContexts d =
     (case ListRepoRegistrations (ed_store (dt_db d)) (dt_registrations d) of
        Inl e \<Rightarrow> Inl e
      | Inr regs \<Rightarrow>
          Inr (map (\<lambda>r. (r, dt_defaultPollInterval d))
            (sort (remdups ((if dt_defaultRepo d \<noteq> [] then [dt_defaultRepo d] else []) @
               filter (\<lambda>r. r \<noteq> []) (map (\<lambda>r. trim_space (rr_Repo r)) regs))))))"

text \<open>The number of processes is asked for at most once per pass, and only when a lease has run out;
  before that it is negative.\<close>

definition detectTask ::
  "(string \<Rightarrow> string \<Rightarrow> resource \<Rightarrow> Alert) \<Rightarrow> string \<Rightarrow> time \<Rightarrow> bool \<Rightarrow> string + int \<Rightarrow> TaskRecord \<Rightarrow> int \<Rightarrow> operator_error + Alert list \<times> int" where
  "detectTask alert repo now hasOnline codex t count =
     (let res = [(''repo'', RStr repo), (''issue_num'', RInt (t_IssueNum t)), (''task_id'', RStr (t_ID t))]
      in case t_LeaseExpiresAt t of
           Some l \<Rightarrow>
             if t_Status t = TaskStatusRunning
             then (if now > l + leaseExpiredGrace
                   then (case (if count < 0 then codex else Inr count) of
                           Inl e \<Rightarrow> Inl (OpInspect e)
                         | Inr c \<Rightarrow> Inr (if c = 0 then [alert KindLeaseExpired op_SeverityWarn res] else [], c))
                   else Inr ([], count))
             else Inr (if t_Status t = TaskStatusPending \<and> now - t_CreatedAt t > taskStuckAfter \<and> \<not> hasOnline
                       then [alert KindTaskStuck op_SeverityWarn res] else [], count)
         | None \<Rightarrow>
             Inr (if t_Status t = TaskStatusPending \<and> now - t_CreatedAt t > taskStuckAfter \<and> \<not> hasOnline
                  then [alert KindTaskStuck op_SeverityWarn res] else [], count))"

fun detectTasks ::
  "(string \<Rightarrow> string \<Rightarrow> resource \<Rightarrow> Alert) \<Rightarrow> string \<Rightarrow> time \<Rightarrow> bool \<Rightarrow> string + int \<Rightarrow> TaskRecord list \<Rightarrow> int \<Rightarrow> operator_error + Alert list \<times> int" where
  "detectTasks alert repo now hasOnline codex [] count = Inr ([], count)"
| "detectTasks alert repo now hasOnline codex (t # ts) count =
     (case detectTask alert repo now hasOnline codex t count of
        Inl e \<Rightarrow> Inl e
      | Inr (as, c) \<Rightarrow>
         (case detectTasks alert repo now hasOnline codex ts c of
            Inl e \<Rightarrow> Inl e
          | Inr (bs, c') \<Rightarrow> Inr (as @ bs, c')))"

definition detectCache ::
  "(string \<Rightarrow> string \<Rightarrow> resource \<Rightarrow> Alert) \<Rightarrow> string \<Rightarrow> duration \<Rightarrow> time \<Rightarrow> bool \<Rightarrow> store \<Rightarrow> issue_key \<times> IssueCache \<Rightarrow> operator_error + Alert list" where
  "detectCache alert repo poll now startup s kc =
     (case kc of ((_, n), ic) \<Rightarrow>
      let labels = decodeLabels (ic_Labels ic);
          res = [(''repo'', RStr repo), (''issue_num'', RInt n)];
          missing = (if containsLabel labels ''workbuddy'' \<and> firstStatusLabel labels = [] \<and> now - ic_UpdatedAt ic > missingLabelAfter
                     then [alert KindMissingLabel op_SeverityInfo res] else []);
          stale = (if poll > 0 \<and> now - ic_UpdatedAt ic > 2 * poll then [alert KindCacheStale op_SeverityWarn res] else [])
      in if startup \<and> isIntermediateState (inferCurrentState labels (ic_State ic))
         then (case CountTasksByIssue repo n s of
                 Inl e \<Rightarrow> Inl (OpStore e)
               | Inr k \<Rightarrow> Inr (missing @ stale @ (if k = 0 then [alert KindCoordinatorRestartGap op_SeverityWarn res] else [])))
         else Inr (missing @ stale))"

fun detectCaches ::
  "(string \<Rightarrow> string \<Rightarrow> resource \<Rightarrow> Alert) \<Rightarrow> string \<Rightarrow> duration \<Rightarrow> time \<Rightarrow> bool \<Rightarrow> store \<Rightarrow> (issue_key \<times> IssueCache) list \<Rightarrow> operator_error + Alert list" where
  "detectCaches alert repo poll now startup s [] = Inr []"
| "detectCaches alert repo poll now startup s (c # cs) =
     (case detectCache alert repo poll now startup s c of
        Inl e \<Rightarrow> Inl e
      | Inr as \<Rightarrow> (case detectCaches alert repo poll now startup s cs of Inl e \<Rightarrow> Inl e | Inr bs \<Rightarrow> Inr (as @ bs)))"

definition detectWorkers :: "(string \<Rightarrow> string \<Rightarrow> resource \<Rightarrow> Alert) \<Rightarrow> string \<Rightarrow> duration \<Rightarrow> time \<Rightarrow> WorkerRecord list \<Rightarrow> Alert list" where
  "detectWorkers alert repo hb now ws =
     map (\<lambda>w. alert KindWorkerMissing op_SeverityError [(''repo'', RStr repo), (''worker_id'', RStr (w_ID w))])
       (filter (\<lambda>w. w_Status w = ''online'' \<and> now - w_LastHeartbeat w > WorkerHeartbeatStaleAfter hb Default) ws)"

definition detectRepoAlerts ::
  "(string \<Rightarrow> string \<Rightarrow> resource \<Rightarrow> Alert) \<Rightarrow> Detector \<Rightarrow> time \<Rightarrow> bool \<Rightarrow> string + int \<Rightarrow> string \<times> duration \<Rightarrow> int \<Rightarrow> operator_error + Alert list \<times> int" where
  "detectRepoAlerts alert d now startup codex rc count =
     (let repo = fst rc; s = ed_store (dt_db d)
      in case ListIssueCaches repo s of
           Inl e \<Rightarrow> Inl (OpStore e)
         | Inr caches \<Rightarrow>
        (case QueryTasksFiltered repo [] s of
           Inl e \<Rightarrow> Inl (OpStore e)
         | Inr tasks \<Rightarrow>
        (case QueryWorkers repo s of
           Inl e \<Rightarrow> Inl (OpStore e)
         | Inr ws \<Rightarrow>
        (case detectTasks alert repo now (list_ex (\<lambda>w. w_Status w = ''online'') ws) codex tasks count of
           Inl e \<Rightarrow> Inl e
         | Inr (as, c) \<Rightarrow>
        (case detectCaches alert repo (snd rc) now startup s caches of
           Inl e \<Rightarrow> Inl e
         | Inr bs \<Rightarrow> Inr (as @ bs @ detectWorkers alert repo (dt_workerHeartbeatInterval d) now ws, c))))))"

fun detectRepos ::
  "(string \<Rightarrow> string \<Rightarrow> resource \<Rightarrow> Alert) \<Rightarrow> Detector \<Rightarrow> time \<Rightarrow> bool \<Rightarrow> string + int \<Rightarrow> (string \<times> duration) list \<Rightarrow> int \<Rightarrow> operator_error + Alert list" where
  "detectRepos alert d now startup codex [] count = Inr []"
| "detectRepos alert d now startup codex (rc # rcs) count =
     (case detectRepoAlerts alert d now startup codex rc count of
        Inl e \<Rightarrow> Inl e
      | Inr (as, c) \<Rightarrow> (case detectRepos alert d now startup codex rcs c of Inl e \<Rightarrow> Inl e | Inr bs \<Rightarrow> Inr (as @ bs)))"

section \<open>Raising an alert\<close>

definition isDuplicate :: "Alert \<Rightarrow> Detector \<Rightarrow> bool result" where
  "isDuplicate a d =
     (case RecentAlertPayloads TypeAlert 256 (dt_db d) of
        Inl e \<Rightarrow> Inl e
      | Inr ps \<Rightarrow>
          Inr (list_ex (\<lambda>p. case p of AlertBad \<Rightarrow> False
             | AlertJSON x \<Rightarrow> \<not> aa_Ts x < aa_Ts a - oc_DedupWindow (dt_cfg d) \<and> alert_key x = alert_key a) ps))"

definition bus_event :: "Alert \<Rightarrow> AlertEvent" where
  "bus_event a =
     \<lparr>al_Kind = aa_Kind a, al_Severity = toBusSeverity (aa_Severity a), al_Repo = fst (alertRepoIssue a), al_IssueNum = snd (alertRepoIssue a),
      al_AgentName = [], al_Timestamp = aa_Ts a div second,
      al_Payload = [(''alert_id'', PStr (aa_ID a)),
        (''resource'', PMaps [map (\<lambda>(k, v). (k, case v of RStr s \<Rightarrow> PStr s | RInt n \<Rightarrow> PInt n)) (aa_Resource a)])]\<rparr>"

definition emit_alert :: "(Alert \<Rightarrow> bool) \<Rightarrow> Alert \<Rightarrow> Detector \<Rightarrow> Detector \<times> (operator_error + bool)" where
  "emit_alert writes a d =
     (case isDuplicate a d of
        Inl e \<Rightarrow> (d, Inl (OpStore e))
      | Inr True \<Rightarrow> (d, Inr False)
      | Inr False \<Rightarrow>
         (case InsertEvent TypeAlert (fst (alertRepoIssue a)) (snd (alertRepoIssue a)) (AlertJSON a) (dt_db d) of
            (db', Inl e) \<Rightarrow> (d\<lparr>dt_db := db'\<rparr>, Inl (OpStore e))
          | (db', Inr _) \<Rightarrow>
              (let d1 = d\<lparr>dt_db := db'\<rparr>
               in if \<not> writes a then (d1, Inl OpInbox)
                  else (d1\<lparr>dt_inbox := AList.update (aa_ID a) a (dt_inbox d1), dt_bus := map_option (\<lambda>b. b @ [bus_event a]) (dt_bus d1)\<rparr>, Inr True))))"

fun emitAlerts :: "(Alert \<Rightarrow> bool) \<Rightarrow> Alert list \<Rightarrow> Detector \<Rightarrow> Detector \<times> Alert list \<times> operator_error option" where
  "emitAlerts writes [] d = (d, [], None)"
| "emitAlerts writes (a # as) d =
     (case emit_alert writes a d of
        (d1, Inl e) \<Rightarrow> (d1, [], Some e)
      | (d1, Inr ok) \<Rightarrow> (case emitAlerts writes as d1 of (d2, es, r) \<Rightarrow> (d2, (if ok then a # es else es), r)))"

definition observe :: "pass_env \<Rightarrow> Detector \<Rightarrow> Detector" where
  "observe env d =
     d\<lparr>dt_db := (dt_db d)\<lparr>ed_store := pe_store env, ed_rows := ed_rows (dt_db d) @ filter (\<lambda>r. er_Type r \<noteq> TypeAlert) (pe_events env)\<rparr>,
       dt_registrations := pe_registrations env\<rparr>"

definition runPass :: "(time \<Rightarrow> string) \<Rightarrow> (string \<Rightarrow> string) \<Rightarrow> pass_env \<Rightarrow> bool \<Rightarrow> Detector \<Rightarrow> Detector \<times> Alert list \<times> operator_error option" where
  "runPass stamp sha env startup d0 =
     (let d = observe env d0
      in case repoContexts d of
           Inl e \<Rightarrow> (d, [], Some (OpStore e))
         | Inr rcs \<Rightarrow>
            (case detectRepos (newAlert stamp sha (pe_now env)) d (pe_now env) startup (pe_codex env) rcs (-1) of
               Inl e \<Rightarrow> (d, [], Some e)
             | Inr as \<Rightarrow> emitAlerts (pe_writes env) as d))"

fun detectorLoop :: "(time \<Rightarrow> string) \<Rightarrow> (string \<Rightarrow> string) \<Rightarrow> bool \<Rightarrow> pass_env list \<Rightarrow> Detector \<Rightarrow> Detector \<times> Alert list \<times> operator_error option" where
  "detectorLoop stamp sha startup [] d = (d, [], None)"
| "detectorLoop stamp sha startup (env # envs) d =
     (case runPass stamp sha env startup d of
        (d1, as, Some e) \<Rightarrow> (d1, as, Some e)
      | (d1, as, None) \<Rightarrow> (case detectorLoop stamp sha False envs d1 of (d2, bs, r) \<Rightarrow> (d2, as @ bs, r)))"

definition detector_Run :: "(time \<Rightarrow> string) \<Rightarrow> (string \<Rightarrow> string) \<Rightarrow> pass_env list \<Rightarrow> Detector \<Rightarrow> Detector \<times> Alert list \<times> operator_error option" where
  "detector_Run stamp sha envs d = (if \<not> oc_Enabled (dt_cfg d) then (d, [], None) else detectorLoop stamp sha True envs d)"

section \<open>The log of alerts\<close>

definition alert_log :: "Detector \<Rightarrow> alert_text list" where
  "alert_log d = map er_Payload (filter (\<lambda>r. er_Type r = TypeAlert) (ed_rows (dt_db d)))"

text \<open>An entry from position \<open>n\<close> on and an earlier one with the same key are further apart than the window, or more than 256 entries apart.\<close>

definition spaced :: "nat \<Rightarrow> duration \<Rightarrow> alert_text list \<Rightarrow> bool" where
  "spaced n w ts \<longleftrightarrow> (\<forall>i j a b. i < j \<longrightarrow> n \<le> j \<longrightarrow> j < length ts \<longrightarrow> ts ! i = AlertJSON a \<longrightarrow> ts ! j = AlertJSON b \<longrightarrow> alert_key a = alert_key b \<longrightarrow>
     aa_Ts b > aa_Ts a + w \<or> j - i > 256)"

lemma spaced_snoc:
  assumes "spaced n w ts" "\<And>a. AlertJSON a \<in> set (take 256 (rev ts)) \<Longrightarrow> alert_key a = alert_key b \<Longrightarrow> aa_Ts a < aa_Ts b - w"
  shows "spaced n w (ts @ [AlertJSON b])"
  unfolding spaced_def
proof (intro allI impI)
  fix i j x y
  assume ij: "i < j" "j < length (ts @ [AlertJSON b])" and nj: "n \<le> j" and x: "(ts @ [AlertJSON b]) ! i = AlertJSON x"
    and y: "(ts @ [AlertJSON b]) ! j = AlertJSON y" and key: "alert_key x = alert_key y"
  show "aa_Ts x + w < aa_Ts y \<or> 256 < j - i"
  proof (cases "j < length ts")
    case True
    then show ?thesis using assms(1) ij nj x y key by (simp add: spaced_def nth_append)
  next
    case False
    then have j: "j = length ts" and y': "y = b" using ij(2) y by (auto simp: nth_append)
    have i: "i < length ts" "ts ! i = AlertJSON x" using ij x j by (auto simp: nth_append)
    show ?thesis
    proof (cases "length ts - i \<le> 256")
      case True
      have "rev ts ! (length ts - 1 - i) = AlertJSON x" using i by (simp add: rev_nth)
      moreover have "length ts - 1 - i < length (take 256 (rev ts))" using i(1) True by (simp only: length_take length_rev min_less_iff_conj) linarith
      ultimately have "AlertJSON x \<in> set (take 256 (rev ts))" by (metis in_set_conv_nth nth_take length_take min_less_iff_conj)
      then show ?thesis using assms(2) key y' by force
    qed (simp add: j)
  qed
qed

lemma InsertEvent_alert:
  assumes "InsertEvent TypeAlert repo n (AlertJSON a) (dt_db d) = (db', r)"
  shows "alert_log (d\<lparr>dt_db := db'\<rparr>) = alert_log d @ (case r of Inl _ \<Rightarrow> [] | Inr _ \<Rightarrow> [AlertJSON a])"
  using InsertEvent_effect [OF assms] by (auto simp: alert_log_def event_content_def split: sum.splits)

lemma decoded_ex:
  "list_ex (\<lambda>p. case p of AlertBad \<Rightarrow> False | AlertJSON x \<Rightarrow> Q x) ps \<longleftrightarrow> (\<exists>x. AlertJSON x \<in> set ps \<and> Q x)"
proof (induction ps)
  case (Cons p ps)
  then show ?case by (cases p) auto
qed simp

lemma isDuplicate_alert_log:
  assumes "isDuplicate a d = Inr b"
  shows "b \<longleftrightarrow> (\<exists>x. AlertJSON x \<in> set (take 256 (rev (alert_log d))) \<and> \<not> aa_Ts x < aa_Ts a - oc_DedupWindow (dt_cfg d) \<and> alert_key x = alert_key a)"
proof -
  have "take 256 (rev (alert_log d)) = map er_Payload (take 256 (rev (filter (\<lambda>r. er_Type r = TypeAlert) (ed_rows (dt_db d)))))"
    by (simp add: alert_log_def rev_map take_map)
  then show ?thesis using assms unfolding isDuplicate_def RecentAlertPayloads_def
    by (simp add: decoded_ex split: if_splits)
qed

lemma emit_alert_effect:
  assumes "emit_alert writes a d = (d', r)"
  shows "dt_cfg d' = dt_cfg d \<and>
    (alert_log d' = alert_log d \<and> dt_inbox d' = dt_inbox d \<and> dt_bus d' = dt_bus d \<and> r \<noteq> Inr True \<or>
     alert_log d' = alert_log d @ [AlertJSON a] \<and> isDuplicate a d = Inr False \<and>
       (r = Inl OpInbox \<and> dt_inbox d' = dt_inbox d \<and> dt_bus d' = dt_bus d \<or>
        r = Inr True \<and> dt_inbox d' = AList.update (aa_ID a) a (dt_inbox d) \<and> dt_bus d' = map_option (\<lambda>b. b @ [bus_event a]) (dt_bus d)))"
proof (cases "isDuplicate a d")
  case (Inl e)
  then show ?thesis using assms by (auto simp: emit_alert_def)
next
  case (Inr dup)
  obtain db' q where ins: "InsertEvent TypeAlert (fst (alertRepoIssue a)) (snd (alertRepoIssue a)) (AlertJSON a) (dt_db d) = (db', q)"
    by (rule prod.exhaust)
  note log = InsertEvent_alert [OF ins]
  show ?thesis
  proof (cases dup)
    case True
    then show ?thesis using assms by (auto simp: emit_alert_def Inr)
  next
    case False
    show ?thesis
    proof (cases q)
      case (Inl e)
      then show ?thesis using assms False log by (auto simp: emit_alert_def Inr ins)
    next
      case (Inr i)
      have "alert_log (d\<lparr>dt_db := db', dt_inbox := x, dt_bus := y\<rparr>) = alert_log (d\<lparr>dt_db := db'\<rparr>)" for x y by (simp add: alert_log_def)
      then show ?thesis using assms False log \<open>isDuplicate a d = Inr dup\<close> by (auto simp: emit_alert_def Inr ins Let_def split: if_splits)
    qed
  qed
qed

lemma emit_alert_spaced:
  assumes "emit_alert writes a d = (d', r)" "spaced n (oc_DedupWindow (dt_cfg d)) (alert_log d)"
  shows "spaced n (oc_DedupWindow (dt_cfg d')) (alert_log d')"
proof (cases "isDuplicate a d = Inr False")
  case True
  have "aa_Ts x < aa_Ts a - oc_DedupWindow (dt_cfg d)" if "AlertJSON x \<in> set (take 256 (rev (alert_log d)))" "alert_key x = alert_key a" for x
    using isDuplicate_alert_log [OF True] that by blast
  from spaced_snoc [OF assms(2) this] show ?thesis using emit_alert_effect [OF assms(1)] assms(2) by auto
next
  case False
  then show ?thesis using emit_alert_effect [OF assms(1)] assms(2) by auto
qed

text \<open>What a stretch of the detector's work does: the log grows by the alerts it reports, and by one more
  when a file could not be written; the bus gets the reported ones; every reported alert has its file.\<close>

definition accounted :: "Detector \<Rightarrow> Detector \<Rightarrow> Alert list \<Rightarrow> operator_error option \<Rightarrow> bool" where
  "accounted d d' as r \<longleftrightarrow> dt_cfg d' = dt_cfg d \<and>
     (\<exists>lost. alert_log d' = alert_log d @ map AlertJSON (as @ lost) \<and> (lost \<noteq> [] \<longrightarrow> r = Some OpInbox)) \<and>
     dt_bus d' = map_option (\<lambda>b. b @ map bus_event as) (dt_bus d) \<and>
     fst ` set (dt_inbox d') = fst ` set (dt_inbox d) \<union> aa_ID ` set as"

lemma accounted_refl [simp, intro]: "accounted d d [] r"
  by (simp add: accounted_def option.map_ident)

lemma accounted_trans:
  assumes "accounted d d1 as None" "accounted d1 d2 bs r"
  shows "accounted d d2 (as @ bs) r"
  using assms by (auto simp: accounted_def option.map_comp comp_def)

lemma fst_set_update: "fst ` set (AList.update k v xs) = insert k (fst ` set xs)"
  by (induction xs) auto

lemma emit_alert_accounted:
  assumes "emit_alert writes a d = (d', r)"
  shows "case r of Inl e \<Rightarrow> accounted d d' [] (Some e) | Inr ok \<Rightarrow> accounted d d' (if ok then [a] else []) None"
proof (cases r)
  case (Inl e)
  then show ?thesis using emit_alert_effect [OF assms] by (auto simp: accounted_def option.map_ident intro: exI [of _ "[]"] exI [of _ "[a]"])
next
  case (Inr ok)
  then show ?thesis using emit_alert_effect [OF assms] by (cases ok) (auto simp: accounted_def option.map_ident fst_set_update)
qed

lemma emitAlerts_accounted:
  "emitAlerts writes as d = (d', es, r) \<Longrightarrow> accounted d d' es r \<and> (spaced n (oc_DedupWindow (dt_cfg d)) (alert_log d) \<longrightarrow> spaced n (oc_DedupWindow (dt_cfg d')) (alert_log d'))"
proof (induction as arbitrary: d es)
  case (Cons a as)
  obtain d1 q where e: "emit_alert writes a d = (d1, q)" by (rule prod.exhaust)
  note acc = emit_alert_accounted [OF e] and sp = emit_alert_spaced [OF e]
  show ?case
  proof (cases q)
    case (Inl err)
    then show ?thesis using Cons.prems acc sp by (auto simp: e)
  next
    case (Inr ok)
    obtain es' where rest: "emitAlerts writes as d1 = (d', es', r)" "es = (if ok then [a] else []) @ es'"
      using Cons.prems by (auto simp: e Inr split: prod.splits)
    have "accounted d d1 (if ok then [a] else []) None" using acc Inr by simp
    from accounted_trans [OF this] Cons.IH [OF rest(1)] sp show ?thesis by (simp add: rest(2))
  qed
qed auto

lemma observe_frame [simp]: "alert_log (observe env d) = alert_log d" "dt_cfg (observe env d) = dt_cfg d" "dt_bus (observe env d) = dt_bus d"
  "dt_inbox (observe env d) = dt_inbox d"
  by (simp_all add: observe_def alert_log_def)

lemma accounted_observe [simp]: "accounted (observe env d) d' as r = accounted d d' as r"
  by (simp add: accounted_def)

lemma runPass_accounted:
  assumes "runPass stamp sha env startup d = (d', es, r)"
  shows "accounted d d' es r \<and> (spaced n (oc_DedupWindow (dt_cfg d)) (alert_log d) \<longrightarrow> spaced n (oc_DedupWindow (dt_cfg d')) (alert_log d'))"
proof -
  have idle: "accounted d (observe env d) [] q" for q by (simp add: accounted_def option.map_ident)
  show ?thesis using assms idle emitAlerts_accounted [of "pe_writes env" _ "observe env d" d' es r]
    by (auto simp: runPass_def Let_def split: sum.splits)
qed

lemma detectorLoop_accounted:
  "detectorLoop stamp sha startup envs d = (d', es, r) \<Longrightarrow>
   accounted d d' es r \<and> (spaced n (oc_DedupWindow (dt_cfg d)) (alert_log d) \<longrightarrow> spaced n (oc_DedupWindow (dt_cfg d')) (alert_log d'))"
proof (induction envs arbitrary: d es startup)
  case (Cons env envs)
  obtain d1 as q where p: "runPass stamp sha env startup d = (d1, as, q)" by (metis prod.exhaust)
  note one = runPass_accounted [OF p]
  show ?case
  proof (cases q)
    case None
    obtain bs where rest: "detectorLoop stamp sha False envs d1 = (d', bs, r)" "es = as @ bs"
      using Cons.prems by (auto simp: p None split: prod.splits)
    from accounted_trans [of d d1 as d' bs r] Cons.IH [OF rest(1)] one show ?thesis by (simp add: None rest(2))
  next
    case (Some e)
    then show ?thesis using Cons.prems one by (auto simp: p)
  qed
qed auto

section \<open>Properties\<close>

text \<open>C29. An alert is not repeated: over any number of passes, whatever the tables hold at each of them and whatever alerts the log
  held before, an alert that is written to the log and any earlier entry with the same kind and resource are further apart than the
  window of deduplication, unless the new one comes more than 256 entries after the earlier one, the number of entries the detector looks
  back; and every alert the detector reports is in the log, after the old entries, in a file of the inbox and on the bus, in the
  order it was raised.\<close>

theorem alerts_spaced:
  assumes "detector_Run stamp sha envs (NewDetector cfg edb bus repo poll hb) = (d, as, r)"
  shows "let old = alert_log (NewDetector cfg edb bus repo poll hb)
    in spaced (length old) (oc_DedupWindow (dt_cfg d)) (alert_log d) \<and>
       (\<exists>lost. alert_log d = old @ map AlertJSON (as @ lost) \<and> (lost \<noteq> [] \<longrightarrow> r = Some OpInbox)) \<and>
       dt_bus d = map_option (\<lambda>b. b @ map bus_event as) bus \<and> fst ` set (dt_inbox d) = aa_ID ` set as"
proof -
  let ?d0 = "NewDetector cfg edb bus repo poll hb"
  let ?n = "length (alert_log ?d0)"
  have zero: "dt_bus ?d0 = bus" "dt_inbox ?d0 = []" by (simp_all add: NewDetector_def)
  have old: "spaced ?n w (alert_log ?d0)" for w by (simp add: spaced_def)
  have "accounted ?d0 d as r \<and> spaced ?n (oc_DedupWindow (dt_cfg d)) (alert_log d)"
    using assms(1) detectorLoop_accounted [of stamp sha True envs ?d0 d as r ?n] old by (auto simp: detector_Run_def split: if_splits)
  then show ?thesis unfolding accounted_def zero Let_def by simp metis
qed

text \<open>The detector gives up at the first error: when a pass fails, because one query failed, the processes
  could not be listed or one file could not be written, no later pass takes place, and nothing that happens
  afterwards raises an alert.\<close>

theorem detector_gives_up:
  assumes "detector_Run stamp sha envs d = (d', as, Some e)"
  shows "detector_Run stamp sha (envs @ later) d = (d', as, Some e)"
proof -
  have "detectorLoop stamp sha startup envs d = (d', as, Some e) \<Longrightarrow> detectorLoop stamp sha startup (envs @ later) d = (d', as, Some e)" for startup
  proof (induction envs arbitrary: d as startup)
    case (Cons env envs)
    then show ?case by (auto split: prod.splits option.splits)
  qed simp
  then show ?thesis using assms by (auto simp: detector_Run_def split: if_splits)
qed

section \<open>A worker that stops its heartbeats\<close>

definition demo_worker_row :: WorkerRecord where
  "demo_worker_row = \<lparr>w_ID = ''w1'', w_Repo = ''o/r'', w_ReposJSON = JText [], w_Roles = JText [''dev''], w_Runtime = [], w_Hostname = [], w_MgmtBaseURL = [],
     w_AuditURL = [], w_Tunnel = False, w_Status = ''online'', w_LastHeartbeat = 0, w_RegisteredAt = 0\<rparr>"

definition demo_pass :: "time \<Rightarrow> pass_env" where
  "demo_pass t = \<lparr>pe_now = t, pe_store = empty_store\<lparr>workers := [(''w1'', demo_worker_row)]\<rparr>, pe_registrations = [], pe_events = [], pe_codex = Inr 0,
     pe_writes = (\<lambda>_. True)\<rparr>"

definition demo_detector :: Detector where
  "demo_detector = NewDetector \<lparr>oc_Enabled = True, oc_CheckInterval = 0, oc_DedupWindow = 0, oc_InboxDir = []\<rparr>
     \<lparr>ed_store = empty_store, ed_rows = [], ed_next = 1\<rparr> (Some []) ''o/r'' 0 0"

definition demo_detected :: "Detector \<times> Alert list \<times> operator_error option" where
  "demo_detected = detector_Run (\<lambda>_. []) (\<lambda>x. x) [demo_pass minute, demo_pass (2 * minute), demo_pass (7 * minute)] demo_detector"

theorem alerts_spaced_witness:
  "map aa_Ts (fst (snd demo_detected)) = [minute, 7 * minute] \<and> spaced 0 (5 * minute) (alert_log (fst demo_detected)) \<and>
   length (the (dt_bus (fst demo_detected))) = 2"
proof -
  obtain d as r where run: "demo_detected = (d, as, r)" by (metis prod.exhaust)
  have ts: "map aa_Ts (fst (snd demo_detected)) = [minute, 7 * minute]" by code_simp
  have w: "oc_DedupWindow (dt_cfg (fst demo_detected)) = 5 * minute" by code_simp
  have n: "length as = 2" using arg_cong [OF ts, of length] by (simp add: run)
  have z: "alert_log (NewDetector \<lparr>oc_Enabled = True, oc_CheckInterval = 0, oc_DedupWindow = 0, oc_InboxDir = []\<rparr>
     \<lparr>ed_store = empty_store, ed_rows = [], ed_next = 1\<rparr> (Some []) ''o/r'' 0 0) = []" by (simp add: NewDetector_def alert_log_def)
  note spec = alerts_spaced [OF run [unfolded demo_detected_def demo_detector_def], unfolded z Let_def]
  from spec ts w n show ?thesis by (simp add: run)
qed

theorem detector_gives_up_witness:
  "snd (snd (detector_Run (\<lambda>_. []) (\<lambda>x. x) [demo_pass minute\<lparr>pe_store := empty_store\<lparr>faults := (\<lambda>op. op = OpQueryWorkers)\<rparr>\<rparr>, demo_pass (2 * minute)] demo_detector)) =
     Some (OpStore (DBError OpQueryWorkers)) \<and>
   fst (snd (detector_Run (\<lambda>_. []) (\<lambda>x. x) [demo_pass minute\<lparr>pe_store := empty_store\<lparr>faults := (\<lambda>op. op = OpQueryWorkers)\<rparr>\<rparr>, demo_pass (2 * minute)] demo_detector)) = []"
proof -
  let ?e = "demo_pass minute\<lparr>pe_store := empty_store\<lparr>faults := (\<lambda>op. op = OpQueryWorkers)\<rparr>\<rparr>"
  have "snd (snd (detector_Run (\<lambda>_. []) (\<lambda>x. x) [?e] demo_detector)) = Some (OpStore (DBError OpQueryWorkers))"
    "fst (snd (detector_Run (\<lambda>_. []) (\<lambda>x. x) [?e] demo_detector)) = []" by code_simp+
  then have "detector_Run (\<lambda>_. []) (\<lambda>x. x) [?e] demo_detector =
    (fst (detector_Run (\<lambda>_. []) (\<lambda>x. x) [?e] demo_detector), [], Some (OpStore (DBError OpQueryWorkers)))" by (metis prod.collapse)
  from detector_gives_up [OF this, of "[demo_pass (2 * minute)]"] show ?thesis by simp
qed

end
