(* ===== verification/Config_Reload.thy ===== *)
theory Config_Reload
  imports Task_Flow Notifications Registry
begin

text \<open>
  The live configuration of a coordinator (\<^verbatim>\<open>internal/app/config_reload.go\<close>): reading the directory
  again, replacing the registration and the runtime of the repository, the interval of the registry
  and the notifier, and taking all of it back when a step fails; and the file watcher that asks for it.

  \<^item> \<open>live_config\<close> adds the section on notifications to the configuration. The settings of the channels
    are one text, read only by the construction of senders and by the comparison of sections.
  \<^item> \<open>load\<close> is what one reload finds outside: the directory, its decoding, the time, and the senders the
    channels give when they are validated and again when they are put into effect.
  \<^item> Copying a configuration through JSON gives the same configuration.
  \<^item> A notifier that was started runs until the function that cancels it is called: \<open>nr_started\<close> holds
    every notifier with whether it still runs, \<open>nr_cancel\<close> the one whose function is kept.
  \<^item> The watcher takes its inputs one at a time, the expiry of its timer among them.

  Shown here: a reload that fails leaves configuration, notifier, interval and registrations as they
  were; one that succeeds puts all of them into effect, with one notifier running; doing it again
  changes nothing; and a burst of changes causes one reload.
\<close>

section \<open>State\<close>

record live_config =
  lc_config :: FullConfig
  lc_Notifications :: NotificationsConfig
  lc_Channels :: string

record NotifierRuntime =
  nr_started :: "(Notifier \<times> bool) list"
  nr_cancel :: "nat option"

record CoordinatorConfigRuntime =
  cr_pollers :: PollerManager
  cr_registry :: "Registry option"
  cr_notifier :: "NotifierRuntime option"
  cr_current :: "live_config option"

datatype reload_warning = FromLoader warning | PortIgnored int int

record ConfigReloadSummary =
  su_Trigger :: string
  su_Repo :: string
  su_PollInterval :: duration
  su_AgentCount :: nat
  su_WorkflowCount :: nat
  su_Changed :: "string list"
  su_Warnings :: "reload_warning list"
  su_ReloadedAt :: time

datatype reload_error =
    LoadFailed load_error
  | RepoChange string string
  | RepoMissing
  | BadNotifications string
  | BadRegistration registration_error
  | LookupFailed store_error
  | PersistFailed store_error
  | StartFailed pm_error "pm_error option"
  | ApplyFailed string "pm_error option"

record reload_input =
  ld_yaml :: config_yaml
  ld_dir :: config_dir
  ld_notifications :: NotificationsConfig
  ld_channels :: string
  ld_validate :: "string \<Rightarrow> string + nat"
  ld_apply :: "string \<Rightarrow> string + nat"
  ld_now :: time

definition cl_repo :: "live_config \<Rightarrow> string" where
  "cl_repo c = gc_Repo (cf_Global (lc_config c))"

definition cl_interval :: "live_config \<Rightarrow> duration" where
  "cl_interval c = gc_PollInterval (cf_Global (lc_config c))"

definition set_global :: "(GlobalConfig \<Rightarrow> GlobalConfig) \<Rightarrow> live_config \<Rightarrow> live_config" where
  "set_global f c = c\<lparr>lc_config := (lc_config c)\<lparr>cf_Global := f (cf_Global (lc_config c))\<rparr>\<rparr>"

section \<open>The notifier\<close>

definition ValidateNotificationsConfig :: "NotificationsConfig \<Rightarrow> string + nat \<Rightarrow> string option" where
  "ValidateNotificationsConfig cfg senders = (case New cfg senders of Inl e \<Rightarrow> Some e | Inr _ \<Rightarrow> None)"

definition cancel_started :: "nat option \<Rightarrow> (Notifier \<times> bool) list \<Rightarrow> (Notifier \<times> bool) list" where
  "cancel_started c ns = (case c of None \<Rightarrow> ns | Some i \<Rightarrow> ns[i := (fst (ns ! i), False)])"

definition Apply :: "NotificationsConfig \<Rightarrow> string + nat \<Rightarrow> NotifierRuntime \<Rightarrow> NotifierRuntime \<times> (string + unit)" where
  "Apply cfg senders r =
     (case New cfg senders of
        Inl e \<Rightarrow> (r, Inl e)
      | Inr n \<Rightarrow> (\<lparr>nr_started = cancel_started (nr_cancel r) (nr_started r @ [(n, True)]), nr_cancel = Some (length (nr_started r))\<rparr>, Inr ()))"

definition NewNotifierRuntime :: "NotificationsConfig \<Rightarrow> string + nat \<Rightarrow> string + NotifierRuntime" where
  "NewNotifierRuntime cfg senders =
     (case Apply cfg senders \<lparr>nr_started = [], nr_cancel = None\<rparr> of (_, Inl e) \<Rightarrow> Inl e | (r, Inr _) \<Rightarrow> Inr r)"

section \<open>Reloading\<close>

definition DefaultPollInterval :: duration where "DefaultPollInterval = 30 * second"

definition NewCoordinatorConfigRuntime ::
  "live_config option \<Rightarrow> PollerManager \<Rightarrow> Registry option \<Rightarrow> NotifierRuntime option \<Rightarrow> CoordinatorConfigRuntime" where
  "NewCoordinatorConfigRuntime current pm reg nr =
     \<lparr>cr_pollers = pm, cr_registry = reg, cr_notifier = nr, cr_current = current\<rparr>"

definition Current :: "CoordinatorConfigRuntime \<Rightarrow> live_config option" where
  "Current r = cr_current r"

definition normalizeReloadCandidate ::
  "live_config option \<Rightarrow> live_config \<Rightarrow> warning list \<Rightarrow> reload_error + live_config \<times> reload_warning list" where
  "normalizeReloadCandidate current candidate warnings =
     (let out1 = (if cl_interval candidate \<le> 0
                  then set_global (\<lambda>g. g\<lparr>gc_PollInterval := (case current of
                           Some c \<Rightarrow> if 0 < cl_interval c then cl_interval c else DefaultPollInterval
                         | None \<Rightarrow> DefaultPollInterval)\<rparr>) candidate
                  else candidate);
          ws = map FromLoader warnings
      in case current of
           None \<Rightarrow> if trim_space (cl_repo out1) = [] then Inl RepoMissing else Inr (out1, ws)
         | Some c \<Rightarrow>
            (let out2 = (if trim_space (cl_repo out1) = [] then set_global (\<lambda>g. g\<lparr>gc_Repo := cl_repo c\<rparr>) out1 else out1);
                 port = gc_Port (cf_Global (lc_config out2)); old = gc_Port (cf_Global (lc_config c))
             in if cl_repo out2 \<noteq> cl_repo c then Inl (RepoChange (cl_repo c) (cl_repo out2))
                else let ws' = (if port \<noteq> 0 \<and> port \<noteq> old then ws @ [PortIgnored old port] else ws);
                         out3 = set_global (\<lambda>g. g\<lparr>gc_Port := old\<rparr>) out2
                     in if trim_space (cl_repo out3) = [] then Inl RepoMissing else Inr (out3, ws')))"

text \<open>The fields of an agent that are compared. Its context, container image, scenario and extensions
  are not among them; its description, command and permissions have no counterpart in the model.\<close>

definition comparableAgent :: "AgentConfig \<Rightarrow> string \<times> TriggerRule list \<times> string \<times> string \<times> string \<times> PolicyConfig \<times> string \<times> duration" where
  "comparableAgent a = (ac_Name a, ac_Triggers a, ac_Role a, ac_Runtime a, ac_Prompt a, ac_Policy a, ac_SchemaFile a, ac_Timeout a)"

text \<open>JSON writes the keys of a map in order.\<close>

definition agentsChanged :: "(string \<times> AgentConfig) list \<Rightarrow> (string \<times> AgentConfig) list \<Rightarrow> bool" where
  "agentsChanged prev cur \<longleftrightarrow>
     sort_key fst (map (\<lambda>(n, a). (n, comparableAgent a)) prev) \<noteq> sort_key fst (map (\<lambda>(n, a). (n, comparableAgent a)) cur)"

definition workflowsChanged :: "(string \<times> WorkflowConfig) list \<Rightarrow> (string \<times> WorkflowConfig) list \<Rightarrow> bool" where
  "workflowsChanged prev cur \<longleftrightarrow> sort_key fst prev \<noteq> sort_key fst cur"

definition diffConfigReload :: "live_config option \<Rightarrow> live_config \<Rightarrow> string list" where
  "diffConfigReload prev cur =
     (case prev of
        None \<Rightarrow> [''initial_load'']
      | Some p \<Rightarrow>
         (let changed =
              (if cl_interval p \<noteq> cl_interval cur then [''poll_interval''] else []) @
              (if (lc_Notifications p, lc_Channels p) \<noteq> (lc_Notifications cur, lc_Channels cur) then [''notifications''] else []) @
              (if agentsChanged (cf_Agents (lc_config p)) (cf_Agents (lc_config cur)) then [''agents''] else []) @
              (if workflowsChanged (cf_Workflows (lc_config p)) (cf_Workflows (lc_config cur)) then [''workflows''] else [])
          in if changed = [] then [''no_effective_changes''] else changed))"

definition TypeConfigReloaded :: string where "TypeConfigReloaded = ''config_reloaded''"
definition TypeConfigReloadFailed :: string where "TypeConfigReloadFailed = ''config_reload_failed''"

text \<open>The text of an error is left out of the event.\<close>

definition failReload :: "live_config option \<Rightarrow> string \<Rightarrow> reload_error \<Rightarrow> CoordinatorConfigRuntime \<Rightarrow>
    CoordinatorConfigRuntime \<times> (reload_error + ConfigReloadSummary)" where
  "failReload current trigger e r =
     (r\<lparr>cr_pollers := pm_log TypeConfigReloadFailed (case current of None \<Rightarrow> [] | Some c \<Rightarrow> cl_repo c) 0
          [(''trigger'', PStr trigger)] (cr_pollers r)\<rparr>, Inl e)"

definition rollbackRegistration ::
  "pm_env \<Rightarrow> RepoRegistrationRecord option \<Rightarrow> string \<Rightarrow> PollerManager \<Rightarrow> PollerManager \<times> (pm_error + unit)" where
  "rollbackRegistration env prev repo pm =
     (case prev of
        None \<Rightarrow> Deregister env repo pm
      | Some old \<Rightarrow>
         (case UpsertRepoRegistration old (pm_db pm) (pm_registrations pm) of
            (tbl, Inl e) \<Rightarrow> (put_regs tbl pm, Inl (PMStore e))
          | (tbl, Inr _) \<Rightarrow> StartOrUpdate env old (put_regs tbl pm)))"

definition err_opt :: "'e + 'a \<Rightarrow> 'e option" where
  "err_opt x = (case x of Inl e \<Rightarrow> Some e | Inr _ \<Rightarrow> None)"

definition finishReload :: "string \<Rightarrow> time \<Rightarrow> live_config \<Rightarrow> reload_warning list \<Rightarrow> CoordinatorConfigRuntime \<Rightarrow>
    CoordinatorConfigRuntime \<times> (reload_error + ConfigReloadSummary)" where
  "finishReload trigger now cfg ws r =
     (let s = \<lparr>su_Trigger = trim_space trigger, su_Repo = cl_repo cfg, su_PollInterval = cl_interval cfg,
               su_AgentCount = length (cf_Agents (lc_config cfg)), su_WorkflowCount = length (cf_Workflows (lc_config cfg)),
               su_Changed = diffConfigReload (cr_current r) cfg, su_Warnings = ws, su_ReloadedAt = now\<rparr>
      in (r\<lparr>cr_current := Some cfg,
            cr_pollers := pm_log TypeConfigReloaded (cl_repo cfg) 0 [(''trigger'', PStr (su_Trigger s)), (''changed'', PStrs (su_Changed s))] (cr_pollers r)\<rparr>,
          Inr s))"

text \<open>From the new registration on (\<open>rec\<close>, with \<open>prev\<close> the old one).\<close>

definition applyReload ::
  "pm_env \<Rightarrow> reload_input \<Rightarrow> string \<Rightarrow> live_config \<Rightarrow> reload_warning list \<Rightarrow> RepoRegistrationRecord \<Rightarrow> RepoRegistrationRecord option \<Rightarrow>
   CoordinatorConfigRuntime \<Rightarrow> CoordinatorConfigRuntime \<times> (reload_error + ConfigReloadSummary)" where
  "applyReload env load trigger cfg ws rec prev r =
     (let current = cr_current r; pm = cr_pollers r
      in case UpsertRepoRegistration rec (pm_db pm) (pm_registrations pm) of
           (tbl, Inl e) \<Rightarrow> failReload current trigger (PersistFailed e) (r\<lparr>cr_pollers := put_regs tbl pm\<rparr>)
         | (tbl, Inr _) \<Rightarrow>
            (case StartOrUpdate env rec (put_regs tbl pm) of
               (pm1, Inl e) \<Rightarrow>
                 (case rollbackRegistration env prev (rr_Repo rec) pm1 of
                    (pm2, x) \<Rightarrow> failReload current trigger (StartFailed e (err_opt x)) (r\<lparr>cr_pollers := pm2\<rparr>))
             | (pm1, Inr _) \<Rightarrow>
                 (let r1 = r\<lparr>cr_pollers := pm1, cr_registry := map_option (SetPollInterval (cl_interval cfg)) (cr_registry r)\<rparr>
                  in case cr_notifier r1 of
                       None \<Rightarrow> finishReload trigger (ld_now load) cfg ws r1
                     | Some nr \<Rightarrow>
                        (case Apply (lc_Notifications cfg) (ld_apply load (lc_Channels cfg)) nr of
                           (nr', Inr _) \<Rightarrow> finishReload trigger (ld_now load) cfg ws (r1\<lparr>cr_notifier := Some nr'\<rparr>)
                         | (nr', Inl e) \<Rightarrow>
                            (case rollbackRegistration env prev (rr_Repo rec) pm1 of
                               (pm2, Inl re) \<Rightarrow> failReload current trigger (ApplyFailed e (Some re)) (r1\<lparr>cr_pollers := pm2\<rparr>)
                             | (pm2, Inr _) \<Rightarrow>
                                failReload current trigger (ApplyFailed e None)
                                  (r1\<lparr>cr_pollers := pm2, cr_registry := (case current of None \<Rightarrow> cr_registry r1
                                     | Some c \<Rightarrow> map_option (SetPollInterval (cl_interval c)) (cr_registry r1))\<rparr>))))))"

definition Reload_config ::
  "pm_env \<Rightarrow> reload_input \<Rightarrow> string \<Rightarrow> CoordinatorConfigRuntime \<Rightarrow> CoordinatorConfigRuntime \<times> (reload_error + ConfigReloadSummary)" where
  "Reload_config env load trigger r =
     (let current = Current r; pm = cr_pollers r
      in case LoadConfig (ld_yaml load) (en_stat env) (ld_dir load) of
           Inl e \<Rightarrow> failReload current trigger (LoadFailed e) r
         | Inr (cfg0, warnings) \<Rightarrow>
            (case normalizeReloadCandidate current \<lparr>lc_config = cfg0, lc_Notifications = ld_notifications load, lc_Channels = ld_channels load\<rparr> warnings of
               Inl e \<Rightarrow> failReload current trigger e r
             | Inr (cfg, ws) \<Rightarrow>
                (case ValidateNotificationsConfig (lc_Notifications cfg) (ld_validate load (lc_Channels cfg)) of
                   Some e \<Rightarrow> failReload current trigger (BadNotifications e) r
                 | None \<Rightarrow>
                    (case BuildRepoRegistrationRecord (en_stat env) (Some (BuildRepoRegistrationPayload (lc_config cfg))) of
                       Inl e \<Rightarrow> failReload current trigger (BadRegistration e) r
                     | Inr rec \<Rightarrow>
                        (case (case current of
                                 None \<Rightarrow> Inr None
                               | Some c \<Rightarrow> if trim_space (cl_repo c) = [] then Inr None
                                            else GetRepoRegistration (cl_repo c) (pm_db pm) (pm_registrations pm)) of
                           Inl e \<Rightarrow> failReload current trigger (LookupFailed e) r
                         | Inr prev \<Rightarrow> applyReload env load trigger cfg ws rec prev r)))))"

definition HandleConfigReload ::
  "pm_env \<Rightarrow> reload_input \<Rightarrow> bool \<Rightarrow> CoordinatorConfigRuntime option \<Rightarrow>
   CoordinatorConfigRuntime option \<times> int \<times> (reload_error + ConfigReloadSummary) option" where
  "HandleConfigReload env load is_post cfg =
     (if \<not> is_post then (cfg, 405, None)
      else case cfg of
             None \<Rightarrow> (cfg, 404, None)
           | Some r \<Rightarrow>
              (case Reload_config env load ''manual_api'' r of
                 (r', Inl e) \<Rightarrow> (Some r', 400, Some (Inl e))
               | (r', Inr s) \<Rightarrow> (Some r', 200, Some (Inr s))))"

section \<open>The file watcher\<close>

text \<open>\<^verbatim>\<open>filepath.Clean\<close>, \<^verbatim>\<open>Dir\<close>, \<^verbatim>\<open>Base\<close> and \<^verbatim>\<open>Rel\<close> on Unix, over the elements of a path.\<close>

fun clean_elems :: "bool \<Rightarrow> string list \<Rightarrow> string list \<Rightarrow> string list" where
  "clean_elems rooted out [] = rev out"
| "clean_elems rooted out (c # cs) =
     (if c = [] \<or> c = ''.'' then clean_elems rooted out cs
      else if c = ''..'' then
        (case out of
           o1 # rest \<Rightarrow> if o1 \<noteq> ''..'' then clean_elems rooted rest cs else clean_elems rooted (c # out) cs
         | [] \<Rightarrow> if rooted then clean_elems rooted out cs else clean_elems rooted [c] cs)
      else clean_elems rooted (c # out) cs)"

definition Clean :: "string \<Rightarrow> bool \<times> string list" where
  "Clean s = (has_prefix s ''/'', clean_elems (has_prefix s ''/'') [] (split_on (CHR ''/'') s))"

definition path_string :: "bool \<times> string list \<Rightarrow> string" where
  "path_string p = (case p of (rooted, cs) \<Rightarrow>
     if rooted then ''/'' @ join_with ''/'' cs else if cs = [] then ''.'' else join_with ''/'' cs)"

definition path_Dir :: "bool \<times> string list \<Rightarrow> bool \<times> string list" where
  "path_Dir p = (fst p, butlast (snd p))"

definition path_Base :: "bool \<times> string list \<Rightarrow> string" where
  "path_Base p = (if snd p = [] then path_string p else last (snd p))"

fun drop_common :: "string list \<Rightarrow> string list \<Rightarrow> string list \<times> string list" where
  "drop_common (x # xs) (y # ys) = (if x = y then drop_common xs ys else (x # xs, y # ys))"
| "drop_common xs ys = (xs, ys)"

definition path_Rel :: "bool \<times> string list \<Rightarrow> bool \<times> string list \<Rightarrow> string option" where
  "path_Rel base targ =
     (if base = targ then Some ''.''
      else if fst base \<noteq> fst targ then None
      else case drop_common (snd base) (if snd targ = [] \<and> \<not> fst targ then [''.''] else snd targ) of
             (b # bs, ts) \<Rightarrow> if b = ''..'' then None else Some (join_with ''/'' (map (\<lambda>_. ''..'') (b # bs) @ ts))
           | ([], ts) \<Rightarrow> Some (join_with ''/'' ts))"

datatype fs_op = FsCreate | FsWrite | FsRemove | FsRename | FsChmod

record fs_event =
  fe_Op :: "fs_op list"
  fe_Name :: string

definition isReloadableConfigEvent :: "string \<Rightarrow> fs_event \<Rightarrow> bool" where
  "isReloadableConfigEvent configDir ev =
     ((\<exists>op \<in> set (fe_Op ev). op \<in> {FsWrite, FsCreate, FsRemove, FsRename}) \<and>
      (let root = Clean configDir; path = Clean (fe_Name ev)
       in path_Dir path = root \<and> path_Base path = ''config.yaml'' \<or>
          (case path_Rel root path of
             None \<Rightarrow> False
           | Some rel \<Rightarrow> (has_prefix rel ''agents/'' \<or> has_prefix rel ''workflows/'') \<and> has_suffix rel ''.md'')))"

definition ConfigReloadDebounce :: duration where "ConfigReloadDebounce = 200 * (second div 1000)"

datatype watch_input = WChange time fs_event | WError | WExpiry time reload_input

record config_watcher =
  cw_timer :: "time option"
  cw_runtime :: CoordinatorConfigRuntime

definition watch_step :: "pm_env \<Rightarrow> string \<Rightarrow> watch_input \<Rightarrow> config_watcher \<Rightarrow> config_watcher" where
  "watch_step env configDir inp w =
     (case inp of
        WError \<Rightarrow> w
      | WChange t ev \<Rightarrow> if isReloadableConfigEvent configDir ev then w\<lparr>cw_timer := Some (t + ConfigReloadDebounce)\<rparr> else w
      | WExpiry t load \<Rightarrow>
         (case cw_timer w of
            None \<Rightarrow> w
          | Some d \<Rightarrow> if t < d then w
                      else w\<lparr>cw_timer := None, cw_runtime := fst (Reload_config env load ''file_watch'' (cw_runtime w))\<rparr>))"

text \<open>\<open>watchable\<close>: for each directory whether it can be looked at (\<open>None\<close>: no, for another reason than
  that it is missing, or the watcher refuses it), is missing or no directory (\<open>Some False\<close>), or is watched.\<close>

definition StartCoordinatorConfigWatcher ::
  "pm_env \<Rightarrow> string \<Rightarrow> (string \<Rightarrow> bool option) \<Rightarrow> watch_input list \<Rightarrow> CoordinatorConfigRuntime option \<Rightarrow> CoordinatorConfigRuntime option \<times> bool" where
  "StartCoordinatorConfigWatcher env configDir watchable inputs rt =
     (case rt of
        None \<Rightarrow> (None, True)
      | Some r \<Rightarrow>
         if trim_space configDir = [] then (Some r, True)
         else if \<exists>d \<in> set (configDir # map (\<lambda>sub. path_string (Clean (configDir @ ''/'' @ sub))) [''agents'', ''workflows'']). watchable d = None
         then (Some r, False)
         else (Some (cw_runtime (fold (watch_step env configDir) inputs \<lparr>cw_timer = None, cw_runtime = r\<rparr>)), True))"

section \<open>What the manager of the runtimes keeps\<close>

definition runtime_cfg :: "string \<Rightarrow> PollerManager \<Rightarrow> (RepoRegistrationRecord \<times> FullConfig) option" where
  "runtime_cfg repo pm = map_option (\<lambda>rt. (rt_Registration rt, rt_Config rt)) (map_of (pm_runtimes pm) repo)"

lemma run_in_frame:
  assumes "map_of (pm_runtimes pm) repo = Some rt" "run_in repo rt p pm = (pm', x)"
  shows "pm_registrations pm' = pm_registrations pm \<and> runtime_cfg repo pm' = runtime_cfg repo pm"
  using assms by (auto simp: run_in_def set_runtime_def take_back_def runtime_cfg_def update_conv' split: prod.splits)

lemma recoverEach_frame:
  "pm_registrations (fst (recoverEach env repo cs k pm)) = pm_registrations pm \<and> runtime_cfg repo (fst (recoverEach env repo cs k pm)) = runtime_cfg repo pm"
proof (induction env repo cs k pm rule: recoverEach.induct)
  case (2 env repo r n cached rest k pm)
  have "pm_registrations pm' = pm_registrations pm \<and> runtime_cfg repo pm' = runtime_cfg repo pm"
    if "map_of (pm_runtimes pm) repo = Some rt" "run_in repo rt (HandleEvent (en_ctx env) (created_event r n labels)) pm = (pm', x)" for rt labels pm' x
    using that by (rule run_in_frame)
  with 2 show ?case by (auto split: option.splits sum.splits bool.splits prod.splits)
qed simp

lemma recover_frame:
  "pm_registrations (fst (recoverOrphanedActiveStates env repo pm)) = pm_registrations pm \<and>
   runtime_cfg repo (fst (recoverOrphanedActiveStates env repo pm)) = runtime_cfg repo pm"
  using recoverEach_frame [of env repo _ 0 pm]
  by (cases "ListIssueCaches repo (pm_db pm)") (auto simp: recoverOrphanedActiveStates_def case_prod_beta)

lemma StartOrUpdate_runs:
  assumes "StartOrUpdate env rec pm = (pm', Inr u)"
  shows "\<exists>cfg. DecodeRepoRegistrationConfig (en_stat env) rec = Inr cfg \<and> runtime_cfg (rr_Repo rec) pm' = Some (rec, cfg) \<and>
    pm_registrations pm' = pm_registrations pm"
proof -
  obtain cfg reader pm1 where c: "DecodeRepoRegistrationConfig (en_stat env) rec = Inr cfg"
    and stop: "stopRepo env (rr_Repo rec) pm = (pm1, Inr ())"
    and pm': "pm' = fst (recoverOrphanedActiveStates env (rr_Repo rec) (set_runtime (rr_Repo rec) (newRuntime env rec cfg reader pm1) pm1))"
    using assms by (auto simp: StartOrUpdate_def Let_def split: sum.splits option.splits if_splits prod.splits)
  have "runtime_cfg (rr_Repo rec) (set_runtime (rr_Repo rec) (newRuntime env rec cfg reader pm1) pm1) = Some (rec, cfg)"
    by (simp add: runtime_cfg_def set_runtime_def newRuntime_def Let_def update_conv')
  then show ?thesis using c recover_frame stopRepo_frame [OF stop] by (simp add: pm') (simp add: set_runtime_def)
qed

lemma StartOrUpdate_registrations:
  assumes "StartOrUpdate env rec pm = (pm', x)" shows "pm_registrations pm' = pm_registrations pm"
  using assms StartOrUpdate_failed [of env rec pm pm'] StartOrUpdate_runs [of env rec pm pm'] by (cases x) auto

lemma rollback_ok:
  assumes up: "UpsertRepoRegistration rec d tbl = (tbl1, Inr ())" "rr_Repo rec = repo" and ok: "registrations_ok tbl"
    and pm1: "pm_registrations pm1 = tbl1" and run: "rollbackRegistration env (map_of tbl repo) repo pm1 = (pm2, Inr u)"
  shows "same_registration (map_of (pm_registrations pm2) k) (map_of tbl k) \<and>
    (map_of tbl repo \<noteq> None \<longrightarrow> task_queue (pm_db pm2) = task_queue (pm_db pm1))"
proof (cases "map_of tbl repo")
  case None
  with run obtain pmx d where stop: "stopRepo env repo pm1 = (pmx, Inr ())"
    and del: "pm_registrations pm2 = fst (DeleteRepoRegistration repo d (pm_registrations pmx))" "\<not> faults d OpDeleteRegistration"
    by (auto simp: rollbackRegistration_def Deregister_def DeleteRepoRegistration_def split: prod.splits sum.splits if_splits)
  with rollback_deletes [OF up None del(2)] stopRepo_frame [OF stop] pm1 None show ?thesis by (simp add: same_registration_def)
next
  case (Some old)
  with run obtain tbl2 where u2: "UpsertRepoRegistration old (pm_db pm1) tbl1 = (tbl2, Inr ())"
    and st: "StartOrUpdate env old (put_regs tbl2 pm1) = (pm2, Inr u)"
    by (auto simp: rollbackRegistration_def pm1 split: prod.splits sum.splits)
  have "\<not> faults (pm_db pm1) OpUpsertRegistration" using u2 by (auto simp: UpsertRepoRegistration_def Let_def split: if_splits)
  note restored = rollback_restores [OF up ok Some this, of k]
  have "pm_registrations pm2 = tbl2" "task_queue (pm_db pm2) = task_queue (pm_db pm1)"
    using StartOrUpdate_registrations [OF st] queue_kept.StartOrUpdate_kept [of env old "put_regs tbl2 pm1"] st
    by (simp_all add: put_regs_def)
  with restored u2 show ?thesis by simp
qed

section \<open>What runs\<close>

definition nr_ok :: "NotifierRuntime \<Rightarrow> bool" where
  "nr_ok nr \<longleftrightarrow> (\<exists>i < length (nr_started nr). nr_cancel nr = Some i \<and> (\<forall>j < length (nr_started nr). snd (nr_started nr ! j) \<longleftrightarrow> j = i))"

definition running :: "NotifierRuntime \<Rightarrow> Notifier list" where
  "running nr = map fst (filter snd (nr_started nr))"

text \<open>After a change of notifiers the new one runs alone.\<close>

lemma filter_one: "i < length xs \<Longrightarrow> \<forall>j < length xs. P (xs ! j) \<longleftrightarrow> j = i \<Longrightarrow> filter P xs = [xs ! i]"
proof (induction xs arbitrary: i)
  case (Cons x xs)
  show ?case
  proof (cases i)
    case 0
    then have "\<not> P y" if "y \<in> set xs" for y using that Cons.prems by (metis Suc_less_eq in_set_conv_nth length_Cons nat.distinct(1) nth_Cons_Suc)
    then show ?thesis using Cons.prems 0 by (auto simp: filter_empty_conv)
  next
    case (Suc k)
    have "\<not> P x" using Cons.prems Suc by (metis length_Cons nat.distinct(1) nth_Cons_0 zero_less_Suc)
    moreover have "filter P xs = [xs ! k]" using Cons.prems Suc by (intro Cons.IH) (auto simp: All_less_Suc2)
    ultimately show ?thesis by (simp add: Suc)
  qed
qed simp

lemma nr_ok_running:
  assumes "nr_ok nr" shows "\<exists>n. running nr = [n]"
  using assms filter_one [of _ "nr_started nr" snd] by (fastforce simp: nr_ok_def running_def)

lemma Apply_ok:
  assumes "Apply cfg senders nr = (nr', Inr u)" "nr_ok nr \<or> nr = \<lparr>nr_started = [], nr_cancel = None\<rparr>"
  shows "nr_ok nr' \<and> (\<exists>n. New cfg senders = Inr n \<and> running nr' = [n])"
proof -
  let ?l = "length (nr_started nr)"
  obtain n where n: "New cfg senders = Inr n" and nr': "nr_started nr' = cancel_started (nr_cancel nr) (nr_started nr @ [(n, True)])" "nr_cancel nr' = Some ?l"
    using assms(1) by (auto simp: Apply_def split: sum.splits)
  have len: "length (nr_started nr') = Suc ?l" by (simp add: nr' cancel_started_def split: option.split)
  have one: "snd (nr_started nr' ! j) \<longleftrightarrow> j = ?l" if "j < Suc ?l" for j
    using assms(2) that by (auto simp: nr' cancel_started_def nr_ok_def nth_append nth_list_update split: option.splits)
  have "nr_started nr' ! ?l = (n, True)"
    using assms(2) by (auto simp: nr' cancel_started_def nr_ok_def nth_append nth_list_update split: option.splits)
  then have "running nr' = [n]" using filter_one [of ?l "nr_started nr'" snd] one len by (simp add: running_def)
  moreover have "nr_ok nr'" using one len by (auto simp: nr_ok_def nr')
  ultimately show ?thesis using n by blast
qed

text \<open>The interval of the registry and the running notifier are those of the current configuration.\<close>

definition in_force :: "CoordinatorConfigRuntime \<Rightarrow> bool" where
  "in_force r \<longleftrightarrow>
     (case cr_registry r of None \<Rightarrow> True | Some g \<Rightarrow> map_option cl_interval (cr_current r) = Some (rg_pollInterval g)) \<and>
     (case cr_notifier r of None \<Rightarrow> True | Some nr \<Rightarrow> nr_ok nr \<and>
        (\<exists>c senders n. cr_current r = Some c \<and> New (lc_Notifications c) senders = Inr n \<and> running nr = [n]))"

definition rolled_back :: "reload_error \<Rightarrow> bool" where
  "rolled_back e \<longleftrightarrow> (case e of StartFailed _ re \<Rightarrow> re = None | ApplyFailed _ re \<Rightarrow> re = None | _ \<Rightarrow> True)"

definition same_registrations :: "registrations \<Rightarrow> registrations \<Rightarrow> bool" where
  "same_registrations a b \<longleftrightarrow> (\<forall>k. same_registration (map_of a k) (map_of b k))"

lemma same_registrations_refl [simp]: "same_registrations a a"
  by (simp add: same_registrations_def same_registration_def)

text \<open>What a failed reload leaves.\<close>

definition undone :: "CoordinatorConfigRuntime \<Rightarrow> CoordinatorConfigRuntime \<Rightarrow> string \<Rightarrow> bool" where
  "undone r r' repo \<longleftrightarrow> cr_current r' = cr_current r \<and> cr_notifier r' = cr_notifier r \<and> cr_registry r' = cr_registry r \<and>
     same_registrations (pm_registrations (cr_pollers r')) (pm_registrations (cr_pollers r)) \<and>
     (map_of (pm_registrations (cr_pollers r)) repo \<noteq> None \<longrightarrow> task_queue (pm_db (cr_pollers r')) = task_queue (pm_db (cr_pollers r)))"

lemma failReload_undone:
  assumes "failReload c trigger e r1 = (r', x)" "undone r r1 repo" shows "undone r r' repo"
  using assms by (auto simp: failReload_def undone_def pm_log_def)

lemma undone_refl: "undone r r repo"
  by (simp add: undone_def)

lemma same_interval:
  assumes "in_force r" "cr_current r = Some c"
  shows "map_option (SetPollInterval (cl_interval c)) (map_option (SetPollInterval d) (cr_registry r)) = cr_registry r"
  using assms by (cases "cr_registry r") (auto simp: in_force_def SetPollInterval_def)

lemma applyReload_failed:
  assumes "applyReload env load trigger cfg ws rec (map_of (pm_registrations (cr_pollers r)) repo) r = (r', Inl e)"
    and "rolled_back e" "rr_Repo rec = repo" "registrations_ok (pm_registrations (cr_pollers r))"
    and cur: "in_force r" "cr_current r = Some c"
  shows "undone r r' repo"
proof -
  let ?pm = "cr_pollers r"
  obtain tbl y where up: "UpsertRepoRegistration rec (pm_db ?pm) (pm_registrations ?pm) = (tbl, y)" by (rule prod.exhaust)
  obtain pm1 z where st: "StartOrUpdate env rec (put_regs tbl ?pm) = (pm1, z)" by (rule prod.exhaust)
  obtain pm2 w where rb: "rollbackRegistration env (map_of (pm_registrations ?pm) repo) repo pm1 = (pm2, w)" by (rule prod.exhaust)
  have regs: "pm_registrations pm1 = tbl" using StartOrUpdate_registrations [OF st] by (simp add: put_regs_def)
  have queue: "task_queue (pm_db pm1) = task_queue (pm_db ?pm)"
    using queue_kept.StartOrUpdate_kept [of env rec "put_regs tbl ?pm"] st by (simp add: put_regs_def)
  have restored: "undone r (r\<lparr>cr_pollers := pm2\<rparr>) repo" if "y = Inr ()" "w = Inr ()"
    using rollback_ok [OF up [unfolded that(1)] assms(3,4) regs rb [unfolded that(2)]] queue
    by (auto simp: undone_def same_registrations_def)
  show ?thesis
  proof (cases y)
    case (Inl e0)
    then have "tbl = pm_registrations ?pm" using up by (auto simp: UpsertRepoRegistration_def Let_def split: if_splits)
    then have "undone r (r\<lparr>cr_pollers := put_regs tbl ?pm\<rparr>) repo" by (simp add: undone_def put_regs_def)
    then show ?thesis using assms(1) failReload_undone by (simp add: applyReload_def up Inl Let_def)
  next
    case (Inr u)
    show ?thesis
    proof (cases z)
      case (Inl e1)
      have f: "failReload (cr_current r) trigger (StartFailed e1 (err_opt w)) (r\<lparr>cr_pollers := pm2\<rparr>) = (r', Inl e)"
        using assms(1) by (simp add: applyReload_def up Inr st Inl rb assms(3) Let_def)
      then have "w = Inr ()" using assms(2) by (auto simp: failReload_def rolled_back_def err_opt_def split: sum.splits)
      then show ?thesis using failReload_undone [OF f] restored Inr by simp
    next
      case z: (Inr v)
      have run: "applyReload env load trigger cfg ws rec (map_of (pm_registrations ?pm) repo) r =
        (let r1 = r\<lparr>cr_pollers := pm1, cr_registry := map_option (SetPollInterval (cl_interval cfg)) (cr_registry r)\<rparr>
         in case cr_notifier r of
              None \<Rightarrow> finishReload trigger (ld_now load) cfg ws r1
            | Some nr \<Rightarrow> (case Apply (lc_Notifications cfg) (ld_apply load (lc_Channels cfg)) nr of
                (nr', Inr _) \<Rightarrow> finishReload trigger (ld_now load) cfg ws (r1\<lparr>cr_notifier := Some nr'\<rparr>)
              | (nr', Inl e) \<Rightarrow> (case w of Inl re \<Rightarrow> failReload (cr_current r) trigger (ApplyFailed e (Some re)) (r1\<lparr>cr_pollers := pm2\<rparr>)
                  | Inr _ \<Rightarrow> failReload (cr_current r) trigger (ApplyFailed e None)
                     (r1\<lparr>cr_pollers := pm2, cr_registry := map_option (SetPollInterval (cl_interval c)) (cr_registry r1)\<rparr>))))"
        by (simp add: applyReload_def up Inr st z rb assms(3) cur(2) Let_def split: option.split sum.split prod.split)
      have "\<exists>re. failReload (cr_current r) trigger (ApplyFailed re None) (r\<lparr>cr_pollers := pm2, cr_registry := cr_registry r\<rparr>) = (r', Inl e) \<and> w = Inr ()"
        using assms(1,2) same_interval [OF cur]
        by (auto simp: run Let_def finishReload_def failReload_def rolled_back_def split: option.splits prod.splits sum.splits)
      then show ?thesis using failReload_undone restored Inr by fastforce
    qed
  qed
qed

text \<open>What a reload that succeeds puts into effect.\<close>

definition in_effect :: "pm_env \<Rightarrow> CoordinatorConfigRuntime \<Rightarrow> live_config \<Rightarrow> bool" where
  "in_effect env r cfg \<longleftrightarrow> cr_current r = Some cfg \<and>
     (\<exists>rec full. BuildRepoRegistrationRecord (en_stat env) (Some (BuildRepoRegistrationPayload (lc_config cfg))) = Inr rec \<and>
        DecodeRepoRegistrationConfig (en_stat env) rec = Inr full \<and> runtime_cfg (rr_Repo rec) (cr_pollers r) = Some (rec, full) \<and>
        map_option rr_ConfigJSON (map_of (pm_registrations (cr_pollers r)) (rr_Repo rec)) = Some (rr_ConfigJSON rec))"

lemma upserted_config:
  assumes "UpsertRepoRegistration rec d tbl = (tbl', Inr u)" "rr_ConfigJSON rec = CText p"
  shows "map_option rr_ConfigJSON (map_of tbl' (rr_Repo rec)) = Some (rr_ConfigJSON rec)"
proof -
  have "\<not> blank_text (rr_ConfigJSON rec)" by (simp add: assms(2) blank_text_def)
  then show ?thesis using assms
    by (auto simp: UpsertRepoRegistration_def Let_def update_conv' split: if_splits option.splits)
qed

lemma built_text: "BuildRepoRegistrationRecord stat p = Inr rec \<Longrightarrow> \<exists>q. rr_ConfigJSON rec = CText q"
  by (auto simp: BuildRepoRegistrationRecord_def Let_def split: option.splits sum.splits)

lemma finishReload_fields:
  assumes "finishReload trigger now cfg ws r = (r', Inr s)"
  shows "cr_current r' = Some cfg \<and> cr_registry r' = cr_registry r \<and> cr_notifier r' = cr_notifier r \<and>
    runtime_cfg repo (cr_pollers r') = runtime_cfg repo (cr_pollers r) \<and> pm_registrations (cr_pollers r') = pm_registrations (cr_pollers r) \<and>
    su_Changed s = diffConfigReload (cr_current r) cfg"
  using assms by (auto simp: finishReload_def Let_def pm_log_def runtime_cfg_def)

lemma applyReload_done:
  assumes run: "applyReload env load trigger cfg ws rec prev r = (r', Inr s)" and "in_force r"
    and rec: "BuildRepoRegistrationRecord (en_stat env) (Some (BuildRepoRegistrationPayload (lc_config cfg))) = Inr rec"
  shows "in_effect env r' cfg \<and> in_force r' \<and> su_Changed s = diffConfigReload (cr_current r) cfg"
proof -
  let ?pm = "cr_pollers r"
  obtain tbl y where up: "UpsertRepoRegistration rec (pm_db ?pm) (pm_registrations ?pm) = (tbl, y)" by (rule prod.exhaust)
  obtain pm1 z where st: "StartOrUpdate env rec (put_regs tbl ?pm) = (pm1, z)" by (rule prod.exhaust)
  have y: "y = Inr ()" and z: "z = Inr ()"
    using run up st by (auto simp: applyReload_def Let_def failReload_def split: sum.splits prod.splits)
  define r1 where "r1 = r\<lparr>cr_pollers := pm1, cr_registry := map_option (SetPollInterval (cl_interval cfg)) (cr_registry r)\<rparr>"
  obtain nr' where fin: "finishReload trigger (ld_now load) cfg ws (r1\<lparr>cr_notifier := nr'\<rparr>) = (r', Inr s)"
    and nr': "case cr_notifier r of None \<Rightarrow> nr' = None
      | Some nr \<Rightarrow> \<exists>nr2. nr' = Some nr2 \<and> Apply (lc_Notifications cfg) (ld_apply load (lc_Channels cfg)) nr = (nr2, Inr ())"
  proof (cases "cr_notifier r")
    case None
    then have "r1\<lparr>cr_notifier := None\<rparr> = r1" by (cases r) (simp add: r1_def)
    moreover have "finishReload trigger (ld_now load) cfg ws r1 = (r', Inr s)"
      using run None by (simp add: applyReload_def Let_def up st y z r1_def)
    ultimately show ?thesis using None that [of None] by simp
  next
    case (Some nr)
    then show ?thesis using run that
      by (auto simp: applyReload_def Let_def up st y z r1_def [symmetric] failReload_def split: prod.splits sum.splits)
  qed
  note f = finishReload_fields [OF fin, of "rr_Repo rec"]
  obtain full where "DecodeRepoRegistrationConfig (en_stat env) rec = Inr full" "runtime_cfg (rr_Repo rec) pm1 = Some (rec, full)" "pm_registrations pm1 = tbl"
    using StartOrUpdate_runs [OF st [unfolded z]] by (auto simp: put_regs_def)
  moreover obtain q where "rr_ConfigJSON rec = CText q" using built_text [OF rec] by blast
  ultimately have "in_effect env r' cfg"
    using f rec upserted_config [OF up [unfolded y]] by (auto simp: in_effect_def r1_def)
  moreover have "in_force r'"
    using f assms(2) nr' Apply_ok by (fastforce simp: in_force_def r1_def SetPollInterval_def split: option.splits)
  ultimately show ?thesis using f by (simp add: r1_def)
qed

lemma normalized:
  assumes "normalizeReloadCandidate (Some c) cand ws = Inr (cfg, ws')"
  shows "cl_repo cfg = cl_repo c \<and> gc_Port (cf_Global (lc_config cfg)) = gc_Port (cf_Global (lc_config c)) \<and> 0 < cl_interval cfg \<and>
    trim_space (cl_repo c) \<noteq> [] \<and> lc_Notifications cfg = lc_Notifications cand \<and> lc_Channels cfg = lc_Channels cand \<and>
    cf_Agents (lc_config cfg) = cf_Agents (lc_config cand) \<and> cf_Workflows (lc_config cfg) = cf_Workflows (lc_config cand) \<and>
    (cl_interval cand \<le> 0 \<longrightarrow> 0 < cl_interval c \<longrightarrow> cl_interval cfg = cl_interval c) \<and> (0 < cl_interval cand \<longrightarrow> cl_interval cfg = cl_interval cand)"
  using assms by (auto simp: normalizeReloadCandidate_def Let_def set_global_def cl_repo_def cl_interval_def DefaultPollInterval_def second_def split: if_splits)

text \<open>The candidate of a reload, with the warnings of the loader.\<close>

definition reload_candidate :: "pm_env \<Rightarrow> reload_input \<Rightarrow> load_error + live_config \<times> warning list" where
  "reload_candidate env load =
     (case LoadConfig (ld_yaml load) (en_stat env) (ld_dir load) of
        Inl e \<Rightarrow> Inl e
      | Inr (cfg, ws) \<Rightarrow> Inr (\<lparr>lc_config = cfg, lc_Notifications = ld_notifications load, lc_Channels = ld_channels load\<rparr>, ws))"

text \<open>A reload either stops before it changes anything or comes to its second half.\<close>

lemma Reload_cases:
  assumes "Reload_config env load trigger r = (r', x)" "cr_current r = Some c" "trim_space (cl_repo c) = cl_repo c"
  obtains (early) e where "x = Inl e" "rolled_back e" "undone r r' (cl_repo c)"
  | (late) cand ws0 cfg ws rec where "reload_candidate env load = Inr (cand, ws0)"
      "normalizeReloadCandidate (Some c) cand ws0 = Inr (cfg, ws)"
      "BuildRepoRegistrationRecord (en_stat env) (Some (BuildRepoRegistrationPayload (lc_config cfg))) = Inr rec" "rr_Repo rec = cl_repo c"
      "applyReload env load trigger cfg ws rec (map_of (pm_registrations (cr_pollers r)) (cl_repo c)) r = (r', x)"
proof -
  note fails = failReload_undone [OF _ undone_refl]
  have stop: thesis if "failReload (Some c) trigger e r = (r', x)" "rolled_back e" for e
    using early fails [OF that(1)] that by (auto simp: failReload_def)
  show thesis
  proof (cases "reload_candidate env load")
    case (Inl e)
    then show ?thesis using assms(1,2) stop [of "LoadFailed e"]
      by (auto simp: reload_candidate_def Reload_config_def Current_def Let_def rolled_back_def split: sum.splits)
  next
    case (Inr p)
    obtain cand ws0 where p: "p = (cand, ws0)" by (rule prod.exhaust)
    show ?thesis
    proof (cases "normalizeReloadCandidate (Some c) cand ws0")
      case n: (Inl e)
      then have "rolled_back e" by (auto simp: normalizeReloadCandidate_def Let_def rolled_back_def split: if_splits)
      then show ?thesis using assms(1,2) stop [of e] Inr p n
        by (auto simp: reload_candidate_def Reload_config_def Current_def Let_def split: sum.splits)
    next
      case n: (Inr q)
      obtain cfg ws where q: "q = (cfg, ws)" by (rule prod.exhaust)
      note k = normalized [OF n [unfolded q]]
      have run: "(case ValidateNotificationsConfig (lc_Notifications cfg) (ld_validate load (lc_Channels cfg)) of
          Some e \<Rightarrow> failReload (Some c) trigger (BadNotifications e) r
        | None \<Rightarrow> (case BuildRepoRegistrationRecord (en_stat env) (Some (BuildRepoRegistrationPayload (lc_config cfg))) of
            Inl e \<Rightarrow> failReload (Some c) trigger (BadRegistration e) r
          | Inr rec \<Rightarrow> (case GetRepoRegistration (cl_repo c) (pm_db (cr_pollers r)) (pm_registrations (cr_pollers r)) of
              Inl e \<Rightarrow> failReload (Some c) trigger (LookupFailed e) r
            | Inr prev \<Rightarrow> applyReload env load trigger cfg ws rec prev r))) = (r', x)"
        using assms(1,2) k Inr p n q
        by (auto simp: reload_candidate_def Reload_config_def Current_def Let_def split: sum.splits)
      have repo: "rr_Repo rec = cl_repo c" if "BuildRepoRegistrationRecord (en_stat env) (Some (BuildRepoRegistrationPayload (lc_config cfg))) = Inr rec" for rec
        using BuildRepoRegistrationRecord_repo [OF that] k assms(3) by (simp add: BuildRepoRegistrationPayload_def cl_repo_def)
      show ?thesis using run stop late [OF Inr [unfolded p] n [unfolded q]] repo
        by (auto simp: GetRepoRegistration_def rolled_back_def split: option.splits sum.splits if_splits)
    qed
  qed
qed

section \<open>Properties\<close>

text \<open>C12. A reload of the configuration is all or nothing. When it succeeds, the new configuration is
  current, the registration and the running runtime of the repository are built from it, one
  notifier runs, made from its section, and the registry uses its interval; the repository and the
  port are those of before. When it fails and the old registration could be put back, the current
  configuration, the notifier, the interval and the registrations of all repositories are as before,
  and, if the repository was registered, so is the task queue.\<close>

theorem reload_all_or_nothing:
  assumes "Reload_config env load trigger r = (r', x)" "cr_current r = Some c" "trim_space (cl_repo c) = cl_repo c"
    and "in_force r" "registrations_ok (pm_registrations (cr_pollers r))"
  shows "case x of
      Inr s \<Rightarrow> in_force r' \<and> (\<exists>cfg. in_effect env r' cfg \<and> cl_repo cfg = cl_repo c \<and>
        gc_Port (cf_Global (lc_config cfg)) = gc_Port (cf_Global (lc_config c)) \<and> su_Changed s = diffConfigReload (Some c) cfg)
    | Inl e \<Rightarrow> rolled_back e \<longrightarrow> undone r r' (cl_repo c)"
  using assms(1-3)
proof (cases rule: Reload_cases)
  case (late cand ws0 cfg ws rec)
  show ?thesis
  proof (cases x)
    case (Inl e)
    then show ?thesis using applyReload_failed [OF late(5) [unfolded Inl] _ late(4) assms(5,4,2)] by simp
  next
    case (Inr s)
    then show ?thesis using applyReload_done [OF late(5) [unfolded Inr] assms(4) late(3)] normalized [OF late(2)] assms(2) by auto
  qed
qed simp

text \<open>Reading the same directory once more changes nothing.\<close>

lemma reload_again:
  assumes "Reload_config env load trigger r = (r1, Inr s1)" "cr_current r = Some c" "trim_space (cl_repo c) = cl_repo c" "in_force r"
    and again: "Reload_config env load trigger' r1 = (r2, Inr s2)"
  shows "su_Changed s2 = [''no_effective_changes'']"
  using assms(1-3)
proof (cases rule: Reload_cases)
  case (late cand ws0 cfg ws rec)
  note d1 = applyReload_done [OF late(5) assms(4) late(3)] and n1 = normalized [OF late(2)]
  have cur: "cr_current r1 = Some cfg" using d1 by (simp add: in_effect_def)
  have trim: "trim_space (cl_repo cfg) = cl_repo cfg" using n1 assms(3) by simp
  from again cur trim show ?thesis
  proof (cases rule: Reload_cases)
    case l2: (late cand2 ws02 cfg2 ws2 rec2)
    have "cand2 = cand" using l2(1) late(1) by simp
    with normalized [OF l2(2)] n1 have "diffConfigReload (Some cfg) cfg2 = [''no_effective_changes'']"
      by (cases "cl_interval cand \<le> 0") (auto simp: diffConfigReload_def Let_def agentsChanged_def workflowsChanged_def)
    then show ?thesis using applyReload_done [OF l2(5) _ l2(3)] d1 cur by simp
  qed simp
qed simp

text \<open>A burst of changes, each before the timer of the one before it has run out, causes one reload, a
  debounce interval after the last of them.\<close>

lemma burst_reloads_once:
  assumes "\<forall>(t, ev) \<in> set chgs. isReloadableConfigEvent dir ev" "chgs \<noteq> []" "fst (last chgs) + ConfigReloadDebounce \<le> t"
    and early: "\<forall>(t, ev) \<in> set (butlast chgs). tick t \<noteq> None \<longrightarrow> the (tick t) < t + ConfigReloadDebounce"
  shows "fold (watch_step env dir)
      (concat (map (\<lambda>(t, ev). WChange t ev # (case tick t of None \<Rightarrow> [] | Some u \<Rightarrow> [WExpiry u load])) (butlast chgs)) @
       [WChange (fst (last chgs)) (snd (last chgs)), WExpiry t load]) w =
    \<lparr>cw_timer = None, cw_runtime = fst (Reload_config env load ''file_watch'' (cw_runtime w))\<rparr>"
  using assms
proof (induction chgs arbitrary: w)
  case (Cons c cs)
  obtain t0 ev where c: "c = (t0, ev)" by (rule prod.exhaust)
  show ?case
  proof (cases "cs = []")
    case True
    then show ?thesis using Cons.prems by (simp add: c watch_step_def)
  next
    case False
    let ?w = "w\<lparr>cw_timer := Some (t0 + ConfigReloadDebounce)\<rparr>"
    have one: "fold (watch_step env dir) (WChange t0 ev # (case tick t0 of None \<Rightarrow> [] | Some u \<Rightarrow> [WExpiry u load])) w = ?w"
      using Cons.prems False by (auto simp: c watch_step_def split: option.split)
    have "fold (watch_step env dir)
      (concat (map (\<lambda>(t, ev). WChange t ev # (case tick t of None \<Rightarrow> [] | Some u \<Rightarrow> [WExpiry u load])) (butlast cs)) @
       [WChange (fst (last cs)) (snd (last cs)), WExpiry t load]) ?w =
      \<lparr>cw_timer = None, cw_runtime = fst (Reload_config env load ''file_watch'' (cw_runtime ?w))\<rparr>"
      using Cons.prems False by (intro Cons.IH) auto
    with one show ?thesis using False by (simp add: c)
  qed
qed simp

definition demo_live :: live_config where
  "demo_live = \<lparr>lc_config = demo_full_config\<lparr>cf_Global := \<lparr>gc_Repo = ''o/r'', gc_Environment = [], gc_PollInterval = minute, gc_Port = 1\<rparr>\<rparr>,
     lc_Notifications = \<lparr>nc_Enabled = False, nc_InstanceName = [], nc_DedupWindow = 0, nc_BatchWindow = 0, nc_Success = False\<rparr>, lc_Channels = []\<rparr>"

definition demo_notifier :: Notifier where
  "demo_notifier = (case New (lc_Notifications demo_live) (Inr 0) of Inr n \<Rightarrow> n)"

definition demo_runtime :: CoordinatorConfigRuntime where
  "demo_runtime = NewCoordinatorConfigRuntime (Some demo_live) (demo_manager empty_store) (Some (NewRegistry empty_store minute))
     (Some \<lparr>nr_started = [(demo_notifier, True)], nr_cancel = Some 0\<rparr>)"

definition demo_load :: "string + nat \<Rightarrow> reload_input" where
  "demo_load senders = \<lparr>ld_yaml = demo_config_yaml, ld_dir = \<lparr>cd_is_dir = True, cd_config = None, cd_agents = None, cd_workflows = None\<rparr>,
     ld_notifications = (lc_Notifications demo_live)\<lparr>nc_Enabled := True\<rparr>, ld_channels = ''slack'', ld_validate = (\<lambda>_. Inr 1),
     ld_apply = (\<lambda>_. senders), ld_now = 0\<rparr>"

lemma demo_runtime_ok: "in_force demo_runtime" "registrations_ok (pm_registrations (cr_pollers demo_runtime))"
  "cr_current demo_runtime = Some demo_live" "trim_space (cl_repo demo_live) = cl_repo demo_live"
proof -
  show "in_force demo_runtime"
    by (auto simp: in_force_def demo_runtime_def NewCoordinatorConfigRuntime_def NewRegistry_def demo_live_def cl_interval_def nr_ok_def
      running_def demo_notifier_def New_def Let_def)
  have "rr_Repo demo_registration = ''o/r''" "trim_space (rr_Status demo_registration) \<noteq> []" "\<not> blank_text (rr_ConfigJSON demo_registration)"
    by code_simp+
  then show "registrations_ok (pm_registrations (cr_pollers demo_runtime))"
    by (simp add: demo_runtime_def NewCoordinatorConfigRuntime_def demo_manager_def registrations_ok_def)
  show "cr_current demo_runtime = Some demo_live" by (simp add: demo_runtime_def NewCoordinatorConfigRuntime_def)
  show "trim_space (cl_repo demo_live) = cl_repo demo_live" by code_simp
qed

text \<open>A reload in which the sender cannot be made any more when it is needed is taken back, one in which it
  can is put into effect.\<close>

theorem reload_all_or_nothing_witness:
  "let bad = Reload_config demo_env (demo_load (Inl ''no token'')) ''test'' demo_runtime;
       good = Reload_config demo_env (demo_load (Inr 1)) ''test'' demo_runtime
   in snd bad = Inl (ApplyFailed ''no token'' None) \<and> undone demo_runtime (fst bad) ''o/r'' \<and>
      in_force (fst good) \<and> \<not> isl (snd good)"
proof -
  let ?bad = "Reload_config demo_env (demo_load (Inl ''no token'')) ''test'' demo_runtime"
  let ?good = "Reload_config demo_env (demo_load (Inr 1)) ''test'' demo_runtime"
  note spec = reload_all_or_nothing [OF prod.collapse [symmetric] demo_runtime_ok(3,4,1,2)]
  have bad: "snd ?bad = Inl (ApplyFailed ''no token'' None)" and good: "\<not> isl (snd ?good)" by code_simp+
  have "cl_repo demo_live = ''o/r''" by code_simp
  then have "undone demo_runtime (fst ?bad) ''o/r''"
    using spec [of demo_env "demo_load (Inl ''no token'')" "''test''"] bad by (simp add: rolled_back_def)
  moreover have "in_force (fst ?good)"
    using spec [of demo_env "demo_load (Inr 1)" "''test''"] good by (cases "snd ?good") auto
  ultimately show ?thesis using bad good by (simp add: Let_def)
qed

end
