(* ===== verification/Supervisor.thy ===== *)
theory Supervisor
  imports Prelude "HOL-Library.Word"
begin

text \<open>
  The local supervisor of agent processes (\<^verbatim>\<open>internal/supervisor\<close>): it starts agents, keeps
  a row for each, notices their end, cancels them, and after a restart of its own finds them again by
  process id and start time.

  \<^item> The process table of the system is part of the state: a process has a start time in clock ticks, is a
    child of this supervisor or not, and, once it has ended, stays a zombie until its parent waits
    for it. A process id may be used again, the pair of id and start time never is (\<open>sv_used\<close>).
  \<^item> What happens by itself is a step of \<open>sv_step\<close>: processes start and end, the goroutine behind
    \<^verbatim>\<open>cmd.Wait\<close> first reaps its child and then books the end, the watcher of a recovered agent ticks,
    the grace period of a cancellation passes, the supervisor is restarted.
  \<^item> A failing database statement is a flag of the operation. Paths, the environment and the standard
    input of an agent are left to the system, as is the socket the server listens on.
  \<^item> The column of the start time is a signed, the field an unsigned 64-bit integer.

  Shown here: as long as the start time of a process that is there can be read, an agent is reported as ended only when its process
  has ended, and the report is final, also across restarts and failing statements; an error of the read ends an agent that runs, and
  a signal can reach a stranger.
\<close>

type_synonym ticks = "64 word"

section \<open>The start time of a process\<close>

text \<open>\<^verbatim>\<open>strings.Fields\<close> on ASCII white space.\<close>

fun fields_go :: "string \<Rightarrow> string \<Rightarrow> string list" where
  "fields_go cur [] = (if cur = [] then [] else [rev cur])"
| "fields_go cur (c # s) =
     (if is_space c then (if cur = [] then fields_go [] s else rev cur # fields_go [] s) else fields_go (c # cur) s)"

definition str_fields :: "string \<Rightarrow> string list" where
  "str_fields s = fields_go [] s"

definition parse_uint64 :: "string \<Rightarrow> ticks option" where
  "parse_uint64 s =
     (if s = [] then None
      else case parse_digits 0 s of None \<Rightarrow> None | Some n \<Rightarrow> if n < 2 ^ 64 then Some (of_nat n) else None)"

text \<open>The text after the last closing parenthesis, if there is one.\<close>

definition after_paren :: "string \<Rightarrow> string option" where
  "after_paren s = (if CHR '')'' \<in> set s then Some (rev (takeWhile (\<lambda>c. c \<noteq> CHR '')'') (rev s))) else None)"

definition readProcStarttime :: "string option \<Rightarrow> ticks option" where
  "readProcStarttime stat =
     (case stat of
        None \<Rightarrow> None
      | Some s \<Rightarrow>
         (case after_paren s of
            None \<Rightarrow> None
          | Some t \<Rightarrow>
             if length t < 2 then None
             else let rest = str_fields (tl t) in if length rest < 20 then None else parse_uint64 (rest ! 19)))"

section \<open>State\<close>

record os_proc =
  op_ticks :: ticks
  op_child :: bool
  op_exit :: "int option"

record sv_agent =
  sa_Runtime :: string
  sa_Workdir :: string
  sa_SessionID :: string
  sa_StartedAt :: time
  sa_cmd :: "(int \<times> ticks) option"
  sa_pid :: int
  sa_startTicks :: ticks
  sa_exited :: bool
  sa_exitCode :: int
  sa_done :: bool
  sa_recovered :: bool
  sa_waited :: "int option"

record agentRow =
  ar_AgentID :: string
  ar_PID :: int
  ar_StartTicks :: int
  ar_StartedAt :: time
  ar_Status :: string
  ar_ExitCode :: "int option"
  ar_SessionID :: string
  ar_Runtime :: string
  ar_Workdir :: string

datatype os_signal = SIGTERM | SIGKILL

record Supervisor_state =
  sv_agents :: "(string \<times> sv_agent) list"
  sv_rows :: "agentRow list"
  sv_procs :: "(int \<times> os_proc) list"
  sv_used :: "(int \<times> ticks) set"
  sv_signals :: "(string \<times> int \<times> ticks \<times> os_signal) list"
  sv_grace :: "string list"

datatype sv_error = RuntimeRequired | CreateStdout | CreateStderr | StartError | PersistAgent | AgentNotFound | NoPid | ProcessDone | LoadAgents

section \<open>Rows\<close>

definition insertAgent :: "bool \<Rightarrow> agentRow \<Rightarrow> agentRow list \<Rightarrow> agentRow list option" where
  "insertAgent ok r rows = (if ok \<and> ar_AgentID r \<notin> ar_AgentID ` set rows then Some (rows @ [r]) else None)"

definition updateAgentExit :: "bool \<Rightarrow> string \<Rightarrow> int \<Rightarrow> agentRow list \<Rightarrow> agentRow list" where
  "updateAgentExit ok i code rows =
     (if ok then map (\<lambda>r. if ar_AgentID r = i then r\<lparr>ar_Status := ''exited'', ar_ExitCode := Some code\<rparr> else r) rows else rows)"

definition loadAgents_sv :: "bool \<Rightarrow> agentRow list \<Rightarrow> (agentRow \<times> ticks) list option" where
  "loadAgents_sv ok rows = (if ok then Some (map (\<lambda>r. (r, word_of_int (ar_StartTicks r))) rows) else None)"

section \<open>Agents\<close>

definition snapshotStatus :: "sv_agent \<Rightarrow> string \<times> int option" where
  "snapshotStatus a = (if sa_exited a then (''exited'', Some (sa_exitCode a)) else (''running'', None))"

definition markExited :: "int \<Rightarrow> sv_agent \<Rightarrow> sv_agent" where
  "markExited code a = (if sa_exited a then a else a\<lparr>sa_exited := True, sa_exitCode := code, sa_done := True\<rparr>)"

definition lookup_sv :: "string \<Rightarrow> Supervisor_state \<Rightarrow> sv_agent option" where
  "lookup_sv i s = map_of (sv_agents s) i"

definition set_agent :: "string \<Rightarrow> sv_agent \<Rightarrow> Supervisor_state \<Rightarrow> Supervisor_state" where
  "set_agent i a s = s\<lparr>sv_agents := AList.update i a (sv_agents s)\<rparr>"

definition set_rows :: "agentRow list \<Rightarrow> Supervisor_state \<Rightarrow> Supervisor_state" where
  "set_rows rows s = s\<lparr>sv_rows := rows\<rparr>"

definition set_procs :: "(int \<times> os_proc) list \<Rightarrow> Supervisor_state \<Rightarrow> Supervisor_state" where
  "set_procs ps s = s\<lparr>sv_procs := ps\<rparr>"

text \<open>The process with this id and start time is in the process table.\<close>

definition in_table :: "int \<Rightarrow> ticks \<Rightarrow> Supervisor_state \<Rightarrow> bool" where
  "in_table pid tk s = (case map_of (sv_procs s) pid of None \<Rightarrow> False | Some p \<Rightarrow> op_ticks p = tk)"

text \<open>\<open>rd\<close>: the start time of a process that is there can be read. An error of the read is taken for the end of the process.\<close>

definition pidIsAlive :: "bool \<Rightarrow> int \<Rightarrow> ticks \<Rightarrow> Supervisor_state \<Rightarrow> bool" where
  "pidIsAlive rd pid want s =
     (case (if rd then map_option op_ticks (map_of (sv_procs s) pid) else None) of None \<Rightarrow> False | Some got \<Rightarrow> got = want)"

lemma pidIsAlive_iff: "pidIsAlive rd pid tk s \<longleftrightarrow> rd \<and> in_table pid tk s"
  by (simp add: pidIsAlive_def in_table_def split: option.split)

text \<open>\<^verbatim>\<open>signal\<close>: the process that has the id at that moment gets it.\<close>

definition signal_agent :: "string \<Rightarrow> sv_agent \<Rightarrow> os_signal \<Rightarrow> Supervisor_state \<Rightarrow> Supervisor_state \<times> (sv_error + unit)" where
  "signal_agent i a sig s =
     (if sa_exited a then (s, Inr ())
      else if sa_pid a \<le> 0 then (s, Inl NoPid)
      else case map_of (sv_procs s) (sa_pid a) of
             None \<Rightarrow> (s, Inl ProcessDone)
           | Some p \<Rightarrow> (s\<lparr>sv_signals := sv_signals s @ [(i, sa_pid a, op_ticks p, sig)]\<rparr>, Inr ()))"

text \<open>\<^verbatim>\<open>cancel\<close> up to its wait for the end or the grace period, during which \<open>i\<close> is in \<open>sv_grace\<close>.\<close>

definition CancelAgent :: "string \<Rightarrow> Supervisor_state \<Rightarrow> Supervisor_state \<times> (sv_error + unit)" where
  "CancelAgent i s =
     (case lookup_sv i s of
        None \<Rightarrow> (s, Inl AgentNotFound)
      | Some a \<Rightarrow>
         (case signal_agent i a SIGTERM s of
            (s', Inl e) \<Rightarrow> (s', Inl e)
          | (s', Inr _) \<Rightarrow> (if sa_done a then s' else s'\<lparr>sv_grace := i # sv_grace s'\<rparr>, Inr ())))"

definition grace_over :: "string \<Rightarrow> Supervisor_state \<Rightarrow> Supervisor_state" where
  "grace_over i s =
     (let s1 = s\<lparr>sv_grace := remove1 i (sv_grace s)\<rparr>
      in case lookup_sv i s of None \<Rightarrow> s1 | Some a \<Rightarrow> if sa_done a then s1 else fst (signal_agent i a SIGKILL s1))"

section \<open>Starting\<close>

record StartAgentRequest =
  sq_Runtime :: string
  sq_Workdir :: string
  sq_SessionID :: string

text \<open>What the system answers: the identifier, whether the two files can be created, the process that
  \<^verbatim>\<open>cmd.Start\<close> makes, whether its start time can be read, the time, and whether the row is written.\<close>

record start_answers =
  st_id :: string
  st_stdout :: bool
  st_stderr :: bool
  st_process :: "(int \<times> ticks) option"
  st_readable :: bool
  st_now :: time
  st_persist :: bool

definition new_agent :: "StartAgentRequest \<Rightarrow> start_answers \<Rightarrow> int \<Rightarrow> ticks \<Rightarrow> ticks \<Rightarrow> sv_agent" where
  "new_agent req x pid tk ticks =
     \<lparr>sa_Runtime = sq_Runtime req, sa_Workdir = sq_Workdir req, sa_SessionID = sq_SessionID req, sa_StartedAt = st_now x,
      sa_cmd = Some (pid, tk), sa_pid = pid, sa_startTicks = ticks, sa_exited = False, sa_exitCode = 0, sa_done = False,
      sa_recovered = False, sa_waited = None\<rparr>"

definition new_row :: "StartAgentRequest \<Rightarrow> start_answers \<Rightarrow> int \<Rightarrow> ticks \<Rightarrow> agentRow" where
  "new_row req x pid ticks =
     \<lparr>ar_AgentID = st_id x, ar_PID = pid, ar_StartTicks = sint ticks, ar_StartedAt = st_now x, ar_Status = ''running'',
      ar_ExitCode = None, ar_SessionID = sq_SessionID req, ar_Runtime = sq_Runtime req, ar_Workdir = sq_Workdir req\<rparr>"

definition spawn :: "bool \<Rightarrow> int \<Rightarrow> ticks \<Rightarrow> Supervisor_state \<Rightarrow> Supervisor_state" where
  "spawn child pid tk s = s\<lparr>sv_procs := (pid, \<lparr>op_ticks = tk, op_child = child, op_exit = None\<rparr>) # sv_procs s,
     sv_used := insert (pid, tk) (sv_used s)\<rparr>"

text \<open>A child whose row cannot be written is killed, and nobody waits for it.\<close>

definition StartAgent :: "StartAgentRequest \<Rightarrow> start_answers \<Rightarrow> Supervisor_state \<Rightarrow> Supervisor_state \<times> (sv_error + string \<times> sv_agent)" where
  "StartAgent req x s =
     (if sq_Runtime req = [] then (s, Inl RuntimeRequired)
      else if \<not> st_stdout x then (s, Inl CreateStdout)
      else if \<not> st_stderr x then (s, Inl CreateStderr)
      else case st_process x of
             None \<Rightarrow> (s, Inl StartError)
           | Some (pid, tk) \<Rightarrow>
              (let s1 = spawn True pid tk s;
                   ticks = (if st_readable x then tk else 0);
                   a = new_agent req x pid tk ticks
               in case insertAgent (st_persist x) (new_row req x pid ticks) (sv_rows s1) of
                    None \<Rightarrow> (s1\<lparr>sv_signals := sv_signals s1 @ [(st_id x, pid, tk, SIGKILL)]\<rparr>, Inl PersistAgent)
                  | Some rows \<Rightarrow> (set_agent (st_id x) a (set_rows rows s1), Inr (st_id x, a))))"

section \<open>Noticing the end\<close>

text \<open>\<^verbatim>\<open>cmd.Wait\<close> returns: the child is gone from the process table.\<close>

definition reap_child :: "string \<Rightarrow> Supervisor_state \<Rightarrow> Supervisor_state option" where
  "reap_child i s =
     (case lookup_sv i s of
        None \<Rightarrow> None
      | Some a \<Rightarrow>
         (case (sa_cmd a, sa_waited a) of
            (Some (pid, tk), None) \<Rightarrow>
              (case map_of (sv_procs s) pid of
                 Some p \<Rightarrow> if op_ticks p = tk \<and> op_child p
                           then map_option (\<lambda>code. set_agent i (a\<lparr>sa_waited := Some code\<rparr>) (set_procs (AList.delete pid (sv_procs s)) s)) (op_exit p)
                           else None
               | None \<Rightarrow> None)
          | _ \<Rightarrow> None))"

text \<open>The rest of the goroutine; \<open>ok\<close>: the row can be updated.\<close>

definition book_exit :: "bool \<Rightarrow> string \<Rightarrow> Supervisor_state \<Rightarrow> Supervisor_state" where
  "book_exit ok i s =
     (case lookup_sv i s of
        None \<Rightarrow> s
      | Some a \<Rightarrow> (case sa_waited a of
                      None \<Rightarrow> s
                    | Some code \<Rightarrow> set_agent i (markExited code a) (set_rows (updateAgentExit ok i code (sv_rows s)) s)))"

definition watchRecovered :: "bool \<Rightarrow> bool \<Rightarrow> string \<Rightarrow> Supervisor_state \<Rightarrow> Supervisor_state" where
  "watchRecovered rd ok i s =
     (case lookup_sv i s of
        None \<Rightarrow> s
      | Some a \<Rightarrow>
         if \<not> sa_recovered a \<or> sa_exited a \<or> pidIsAlive rd (sa_pid a) (sa_startTicks a) s then s
         else set_agent i (markExited (-1) a) (set_rows (updateAgentExit ok i (-1) (sv_rows s)) s))"

section \<open>Recovery\<close>

definition recovered_agent :: "agentRow \<Rightarrow> ticks \<Rightarrow> bool \<Rightarrow> int \<Rightarrow> sv_agent" where
  "recovered_agent r tk exited code =
     \<lparr>sa_Runtime = ar_Runtime r, sa_Workdir = ar_Workdir r, sa_SessionID = ar_SessionID r, sa_StartedAt = ar_StartedAt r,
      sa_cmd = None, sa_pid = ar_PID r, sa_startTicks = tk, sa_exited = exited, sa_exitCode = code, sa_done = exited,
      sa_recovered = True, sa_waited = None\<rparr>"

definition recoverOne :: "bool \<Rightarrow> bool \<Rightarrow> agentRow \<Rightarrow> ticks \<Rightarrow> Supervisor_state \<Rightarrow> Supervisor_state" where
  "recoverOne rd ok r tk s =
     (let i = ar_AgentID r
      in if ar_Status r = ''exited'' then set_agent i (recovered_agent r tk True (case ar_ExitCode r of None \<Rightarrow> 0 | Some c \<Rightarrow> c)) s
         else if \<not> pidIsAlive rd (ar_PID r) tk s
         then set_agent i (recovered_agent r tk True (-1)) (set_rows (updateAgentExit ok i (-1) (sv_rows s)) s)
         else set_agent i (recovered_agent r tk False 0) s)"

fun recoverEach_sv :: "(agentRow \<times> ticks) list \<Rightarrow> (string \<Rightarrow> bool) \<Rightarrow> (string \<Rightarrow> bool) \<Rightarrow> Supervisor_state \<Rightarrow> Supervisor_state" where
  "recoverEach_sv [] rd ok s = s"
| "recoverEach_sv ((r, tk) # rs) rd ok s = recoverEach_sv rs rd ok (recoverOne (rd (ar_AgentID r)) (ok (ar_AgentID r)) r tk s)"

definition recoverFromDB :: "bool \<Rightarrow> (string \<Rightarrow> bool) \<Rightarrow> (string \<Rightarrow> bool) \<Rightarrow> Supervisor_state \<Rightarrow> Supervisor_state option" where
  "recoverFromDB load_ok rd ok s =
     (case loadAgents_sv load_ok (sv_rows s) of
        None \<Rightarrow> None
      | Some rs \<Rightarrow> Some (recoverEach_sv rs rd ok s))"

text \<open>The end of a supervisor process: its children are handed to the system, which waits for them.\<close>

definition orphan :: "Supervisor_state \<Rightarrow> Supervisor_state" where
  "orphan s = s\<lparr>sv_agents := [], sv_grace := [],
     sv_procs := map (\<lambda>(pid, p). (pid, p\<lparr>op_child := False\<rparr>)) (filter (\<lambda>(pid, p). op_exit p = None) (sv_procs s))\<rparr>"

definition New_supervisor :: "bool \<Rightarrow> (string \<Rightarrow> bool) \<Rightarrow> (string \<Rightarrow> bool) \<Rightarrow> Supervisor_state \<Rightarrow> Supervisor_state option" where
  "New_supervisor load_ok rd ok s = recoverFromDB load_ok rd ok s"

section \<open>The requests of workers\<close>

record AgentStatus =
  as_AgentID :: string
  as_Status :: string
  as_ExitCode :: "int option"
  as_SessionID :: string
  as_PID :: int
  as_Runtime :: string
  as_Workdir :: string
  as_StartedAt :: time

definition agent_status :: "string \<Rightarrow> sv_agent \<Rightarrow> AgentStatus" where
  "agent_status i a = \<lparr>as_AgentID = i, as_Status = fst (snapshotStatus a), as_ExitCode = snd (snapshotStatus a), as_SessionID = sa_SessionID a,
     as_PID = sa_pid a, as_Runtime = sa_Runtime a, as_Workdir = sa_Workdir a, as_StartedAt = sa_StartedAt a\<rparr>"

definition Status_sv :: "string \<Rightarrow> Supervisor_state \<Rightarrow> AgentStatus option" where
  "Status_sv i s = map_option (agent_status i) (lookup_sv i s)"

definition List_sv :: "Supervisor_state \<Rightarrow> AgentStatus list" where
  "List_sv s = map (\<lambda>(i, a). agent_status i a) (sv_agents s)"

datatype sv_body = BNone | BErr sv_error | BStarted string time | BAgents "AgentStatus list" | BStatus AgentStatus | BStream string int

type_synonym sv_response = "int \<times> sv_body"

definition handleAgents :: "string \<Rightarrow> StartAgentRequest option \<Rightarrow> start_answers \<Rightarrow> Supervisor_state \<Rightarrow> Supervisor_state \<times> sv_response" where
  "handleAgents meth body x s =
     (if meth = ''POST'' then
        (case body of
           None \<Rightarrow> (s, 400, BNone)
         | Some req \<Rightarrow>
            (case StartAgent req x s of
               (s', Inl e) \<Rightarrow> (s', 400, BErr e)
             | (s', Inr (i, a)) \<Rightarrow> (s', 201, BStarted i (sa_StartedAt a))))
      else if meth = ''GET'' then (s, 200, BAgents (List_sv s))
      else (s, 405, BNone))"

text \<open>\<open>from_offset\<close> is the query parameter, empty when it is missing. The stream that answers the last
  kind of request is the subject of \<open>Agent_Stream\<close>.\<close>

definition handleAgentByID :: "string \<Rightarrow> string \<Rightarrow> string \<Rightarrow> Supervisor_state \<Rightarrow> Supervisor_state \<times> sv_response" where
  "handleAgentByID meth path from_offset s =
     (let rest = trim_prefix path ''/agents/''; parts = split_on (CHR ''/'') rest;
          i = hd parts; sub = join_with ''/'' (tl parts)
      in if rest = [] then (s, 404, BNone)
         else if tl parts = [] \<or> sub = [] then
           (if meth \<noteq> ''GET'' then (s, 405, BNone)
            else case Status_sv i s of None \<Rightarrow> (s, 404, BErr AgentNotFound) | Some st \<Rightarrow> (s, 200, BStatus st))
         else if sub = ''cancel'' then
           (if meth \<noteq> ''POST'' then (s, 405, BNone)
            else case CancelAgent i s of
                   (s', Inl e) \<Rightarrow> (s', if e = AgentNotFound then 404 else 500, BErr e)
                 | (s', Inr _) \<Rightarrow> (s', 204, BNone))
         else if sub = ''events'' then
           (if meth \<noteq> ''GET'' then (s, 405, BNone)
            else case (if from_offset = [] then Some 0 else atoi from_offset) of
                   None \<Rightarrow> (s, 400, BNone)
                 | Some n \<Rightarrow>
                    if n < 0 then (s, 400, BNone)
                    else case Status_sv i s of None \<Rightarrow> (s, 404, BErr AgentNotFound) | Some _ \<Rightarrow> (s, 200, BStream i n))
         else (s, 404, BNone))"

section \<open>Runs\<close>

definition proc_ends :: "int \<Rightarrow> int \<Rightarrow> Supervisor_state \<Rightarrow> Supervisor_state" where
  "proc_ends pid code s =
     (case map_of (sv_procs s) pid of
        None \<Rightarrow> s
      | Some p \<Rightarrow> set_procs (if op_child p then AList.update pid (p\<lparr>op_exit := Some code\<rparr>) (sv_procs s) else AList.delete pid (sv_procs s)) s)"

definition free_process :: "int \<Rightarrow> ticks \<Rightarrow> Supervisor_state \<Rightarrow> bool" where
  "free_process pid tk s \<longleftrightarrow> 0 < pid \<and> tk \<noteq> 0 \<and> map_of (sv_procs s) pid = None \<and> (pid, tk) \<notin> sv_used s"

text \<open>\<open>U\<close>: the agents whose start time may fail to be read while their process is there; with \<open>UNIV\<close> any read may fail.\<close>

inductive sv_step :: "string set \<Rightarrow> Supervisor_state \<Rightarrow> Supervisor_state \<Rightarrow> bool" for U where
  start: "sv_step U s (fst (StartAgent req x s))" if "\<forall>pid tk. st_process x = Some (pid, tk) \<longrightarrow> free_process pid tk s"
| stranger: "sv_step U s (spawn False pid tk s)" if "free_process pid tk s"
| ends: "sv_step U s (proc_ends pid code s)"
| reap: "sv_step U s s'" if "reap_child i s = Some s'"
| book: "sv_step U s (book_exit ok i s)"
| watch: "sv_step U s (watchRecovered rd ok i s)" if "i \<notin> U \<longrightarrow> rd"
| cancel: "sv_step U s (fst (CancelAgent i s))"
| grace: "sv_step U s (grace_over i s)" if "i \<in> set (sv_grace s)"
| stop: "sv_step U s (orphan s)"
| restart: "sv_step U s s'" if "sv_agents s = []" "New_supervisor load_ok rd ok s = Some s'" "\<forall>i. i \<notin> U \<longrightarrow> rd i"

definition no_agents :: Supervisor_state where
  "no_agents = \<lparr>sv_agents = [], sv_rows = [], sv_procs = [], sv_used = {}, sv_signals = [], sv_grace = []\<rparr>"

section \<open>Processes that are gone\<close>

definition procs_ok :: "Supervisor_state \<Rightarrow> bool" where
  "procs_ok s \<longleftrightarrow> distinct (map fst (sv_procs s)) \<and> (\<forall>pid p. map_of (sv_procs s) pid = Some p \<longrightarrow> op_ticks p \<noteq> 0 \<and> (pid, op_ticks p) \<in> sv_used s)"

definition known :: "Supervisor_state \<Rightarrow> int \<Rightarrow> ticks \<Rightarrow> bool" where
  "known s pid tk \<longleftrightarrow> tk = 0 \<or> (pid, tk) \<in> sv_used s"

definition gone :: "Supervisor_state \<Rightarrow> int \<Rightarrow> ticks \<Rightarrow> bool" where
  "gone s pid tk \<longleftrightarrow> known s pid tk \<and> \<not> in_table pid tk s"

text \<open>What is gone stays gone.\<close>

definition later :: "Supervisor_state \<Rightarrow> Supervisor_state \<Rightarrow> bool" where
  "later s s' \<longleftrightarrow> procs_ok s' \<and> (\<forall>pid tk. known s pid tk \<longrightarrow> known s' pid tk) \<and> (\<forall>pid tk. gone s pid tk \<longrightarrow> gone s' pid tk)"

lemma later_same: "procs_ok s \<Longrightarrow> sv_procs s' = sv_procs s \<Longrightarrow> sv_used s' = sv_used s \<Longrightarrow> later s s'"
  by (simp add: later_def procs_ok_def gone_def known_def in_table_def)

lemma later_spawn: "procs_ok s \<Longrightarrow> free_process pid tk s \<Longrightarrow> later s (spawn child pid tk s)"
  by (auto simp: later_def procs_ok_def gone_def known_def in_table_def spawn_def free_process_def map_of_eq_None_iff)

lemma later_delete: "procs_ok s \<Longrightarrow> later s (set_procs (AList.delete pid (sv_procs s)) s)"
  by (auto simp: later_def procs_ok_def gone_def known_def in_table_def set_procs_def delete_conv' distinct_delete)

lemma later_ends: "procs_ok s \<Longrightarrow> later s (proc_ends pid code s)"
  using later_delete [of s pid] later_same [of s s]
  by (auto simp: proc_ends_def split: option.split)
    (auto simp: later_def procs_ok_def gone_def known_def in_table_def set_procs_def update_conv' distinct_update)

lemma map_of_live:
  "map_of (map (\<lambda>(pid, p). (pid, p\<lparr>op_child := False\<rparr>)) (filter (\<lambda>(pid, p). op_exit p = None) ps)) pid = Some q \<Longrightarrow>
   distinct (map fst ps) \<Longrightarrow> \<exists>p. map_of ps pid = Some p \<and> op_ticks p = op_ticks q"
  by (induction ps) (auto split: if_splits dest: map_of_SomeD, force)

lemma distinct_live: "distinct (map fst ps) \<Longrightarrow> distinct (map fst (map (\<lambda>(pid, p). (pid, f p)) (filter Q ps)))"
  by (induction ps) (auto, force)

lemma later_orphan:
  assumes "procs_ok s" shows "later s (orphan s)"
proof -
  have p: "\<exists>p. map_of (sv_procs s) pid = Some p \<and> op_ticks p = op_ticks q" if "map_of (sv_procs (orphan s)) pid = Some q" for pid q
    using assms map_of_live [of "sv_procs s" pid q] that by (simp add: orphan_def procs_ok_def)
  have u: "sv_used (orphan s) = sv_used s" by (simp add: orphan_def)
  have "distinct (map fst (sv_procs (orphan s)))"
    using assms distinct_live [of "sv_procs s" "\<lambda>p. p\<lparr>op_child := False\<rparr>"] unfolding procs_ok_def by (simp add: orphan_def del: map_map)
  then have "procs_ok (orphan s)" using assms p unfolding procs_ok_def u by metis
  moreover have "in_table pid tk s" if "in_table pid tk (orphan s)" for pid tk
    using that p [of pid] by (auto simp: in_table_def split: option.splits)
  ultimately show ?thesis by (auto simp: later_def gone_def known_def u)
qed

section \<open>The invariant\<close>

definition row_ok :: "string set \<Rightarrow> Supervisor_state \<Rightarrow> agentRow \<Rightarrow> bool" where
  "row_ok U s r \<longleftrightarrow> known s (ar_PID r) (word_of_int (ar_StartTicks r)) \<and>
     (ar_AgentID r \<notin> U \<longrightarrow> ar_Status r = ''exited'' \<longrightarrow> gone s (ar_PID r) (word_of_int (ar_StartTicks r)))"

definition agent_ok :: "string set \<Rightarrow> Supervisor_state \<Rightarrow> string \<Rightarrow> sv_agent \<Rightarrow> bool" where
  "agent_ok U s i a \<longleftrightarrow>
     (\<exists>r \<in> set (sv_rows s). ar_AgentID r = i \<and> ar_PID r = sa_pid a \<and> word_of_int (ar_StartTicks r) = sa_startTicks a) \<and>
     (i \<notin> U \<longrightarrow> sa_exited a \<or> sa_waited a \<noteq> None \<longrightarrow> gone s (sa_pid a) (sa_startTicks a)) \<and>
     (\<forall>pid tk. sa_cmd a = Some (pid, tk) \<longrightarrow> pid = sa_pid a \<and> (sa_startTicks a = tk \<or> sa_startTicks a = 0))"

definition sv_ok :: "string set \<Rightarrow> Supervisor_state \<Rightarrow> bool" where
  "sv_ok U s \<longleftrightarrow> procs_ok s \<and> distinct (map ar_AgentID (sv_rows s)) \<and> (\<forall>r \<in> set (sv_rows s). row_ok U s r) \<and>
     (\<forall>i a. map_of (sv_agents s) i = Some a \<longrightarrow> agent_ok U s i a)"

lemma row_ok_later: "row_ok U s r \<Longrightarrow> later s s' \<Longrightarrow> row_ok U s' r"
  by (simp add: row_ok_def later_def)

lemma agent_ok_later: "agent_ok U s i a \<Longrightarrow> later s s' \<Longrightarrow> sv_rows s' = sv_rows s \<Longrightarrow> agent_ok U s' i a"
  by (auto simp: agent_ok_def later_def)

text \<open>Steps of the processes alone.\<close>

lemma sv_ok_later:
  assumes "sv_ok U s" "later s s'" "sv_rows s' = sv_rows s" "sv_agents s' = sv_agents s"
  shows "sv_ok U s'"
proof -
  have "procs_ok s'" using assms(2) by (simp add: later_def)
  then show ?thesis using assms(1,3,4) row_ok_later [OF _ assms(2)] agent_ok_later [OF _ assms(2,3)] by (auto simp: sv_ok_def)
qed

lemma sv_ok_agent: "sv_ok U s \<Longrightarrow> map_of (sv_agents s) i = Some a \<Longrightarrow> agent_ok U s i a"
  by (simp add: sv_ok_def)

lemma sv_ok_procs: "sv_ok U s \<Longrightarrow> procs_ok s"
  by (simp add: sv_ok_def)

lemma update_rows: "set (updateAgentExit ok i code rows) \<subseteq> set rows \<union> (\<lambda>r. r\<lparr>ar_Status := ''exited'', ar_ExitCode := Some code\<rparr>) ` {r \<in> set rows. ar_AgentID r = i}"
  "map ar_AgentID (updateAgentExit ok i code rows) = map ar_AgentID rows"
  by (auto simp: updateAgentExit_def)

lemma update_row_kept:
  "r \<in> set rows \<Longrightarrow> \<exists>r' \<in> set (updateAgentExit ok i code rows). ar_AgentID r' = ar_AgentID r \<and> ar_PID r' = ar_PID r \<and> ar_StartTicks r' = ar_StartTicks r"
  by (induction rows) (auto simp: updateAgentExit_def)

definition row_of :: "string \<Rightarrow> sv_agent \<Rightarrow> agentRow list \<Rightarrow> bool" where
  "row_of i a rows \<longleftrightarrow> (\<exists>r \<in> set rows. ar_AgentID r = i \<and> ar_PID r = sa_pid a \<and> word_of_int (ar_StartTicks r) = sa_startTicks a)"

definition own_cmd :: "sv_agent \<Rightarrow> bool" where
  "own_cmd a \<longleftrightarrow> (\<forall>pid tk. sa_cmd a = Some (pid, tk) \<longrightarrow> pid = sa_pid a \<and> (sa_startTicks a = tk \<or> sa_startTicks a = 0))"

lemma agent_ok_iff:
  "agent_ok U s i a \<longleftrightarrow> row_of i a (sv_rows s) \<and> (i \<notin> U \<longrightarrow> sa_exited a \<or> sa_waited a \<noteq> None \<longrightarrow> gone s (sa_pid a) (sa_startTicks a)) \<and> own_cmd a"
  by (simp add: agent_ok_def row_of_def own_cmd_def)

lemma row_of_update: "row_of i a rows \<Longrightarrow> row_of i a (updateAgentExit ok j code rows)"
  using update_row_kept [of _ rows ok j code] by (fastforce simp: row_of_def)

lemma agent_fields [simp]:
  "sv_procs (set_agent i a s) = sv_procs s" "sv_used (set_agent i a s) = sv_used s" "sv_rows (set_agent i a s) = sv_rows s"
  "sv_procs (set_rows rs s) = sv_procs s" "sv_used (set_rows rs s) = sv_used s" "sv_rows (set_rows rs s) = rs" "sv_agents (set_rows rs s) = sv_agents s"
  "map_of (sv_agents (set_agent i a s)) j = (if j = i then Some a else map_of (sv_agents s) j)"
  by (simp_all add: set_agent_def set_rows_def update_conv')

text \<open>A change of one agent, and the booking of the end of one whose process is gone.\<close>

lemma sv_ok_set:
  assumes "sv_ok U s" "agent_ok U s i a" shows "sv_ok U (set_agent i a s)"
proof -
  have same: "later s (set_agent i a s)" using assms(1) by (intro later_same sv_ok_procs) simp_all
  show ?thesis using assms row_ok_later [OF _ same] agent_ok_later [OF _ same] sv_ok_agent [OF assms(1)] same
    by (auto simp: sv_ok_def later_def)
qed

lemma sv_ok_exit:
  assumes ok: "sv_ok U s" and row: "row_of i a (sv_rows s)" and gone: "i \<notin> U \<longrightarrow> gone s (sa_pid a) (sa_startTicks a)" and cmd: "own_cmd a"
  shows "sv_ok U (set_agent i a (set_rows (updateAgentExit b i code (sv_rows s)) s))"
proof -
  let ?s = "set_rows (updateAgentExit b i code (sv_rows s)) s"
  have same: "later s ?s" using ok by (intro later_same sv_ok_procs) simp_all
  obtain r0 where r0: "r0 \<in> set (sv_rows s)" "ar_AgentID r0 = i" "ar_PID r0 = sa_pid a" "word_of_int (ar_StartTicks r0) = sa_startTicks a"
    using row by (auto simp: row_of_def)
  have uniq: "r = r0" if "r \<in> set (sv_rows s)" "ar_AgentID r = i" for r
    using ok that r0 by (auto simp: sv_ok_def distinct_map inj_on_def)
  have "row_ok U ?s r" if r: "r \<in> set (sv_rows ?s)" for r
  proof -
    from r update_rows(1) [of b i code "sv_rows s"] consider "r \<in> set (sv_rows s)"
      | "r = r0\<lparr>ar_Status := ''exited'', ar_ExitCode := Some code\<rparr>" using uniq by auto
    then show ?thesis
    proof cases
      case 1
      then show ?thesis using ok row_ok_later [OF _ same] by (simp add: sv_ok_def)
    next
      case 2
      have "row_ok U s r0" using ok r0(1) by (simp add: sv_ok_def)
      then show ?thesis using 2 same gone r0 by (auto simp: row_ok_def later_def)
    qed
  qed
  moreover have "agent_ok U ?s j a'" if "map_of (sv_agents ?s) j = Some a'" for j a'
    using sv_ok_agent [OF ok, of j a'] that same row_of_update by (auto simp: agent_ok_iff later_def)
  ultimately have "sv_ok U ?s" using same ok update_rows(2) by (simp add: sv_ok_def later_def)
  moreover have "agent_ok U ?s i a" using gone same row_of_update [OF row] cmd by (simp add: agent_ok_iff later_def)
  ultimately show ?thesis by (rule sv_ok_set)
qed

text \<open>The row of an agent, as it was when the rows were read.\<close>

definition row_read :: "string set \<Rightarrow> Supervisor_state \<Rightarrow> agentRow \<times> ticks \<Rightarrow> bool" where
  "row_read U s x \<longleftrightarrow> snd x = word_of_int (ar_StartTicks (fst x)) \<and> row_ok U s (fst x) \<and>
    (\<exists>r' \<in> set (sv_rows s). ar_AgentID r' = ar_AgentID (fst x) \<and> ar_PID r' = ar_PID (fst x) \<and> ar_StartTicks r' = ar_StartTicks (fst x))"

lemma recoverOne_fields [simp]: "sv_procs (recoverOne rd ok r tk s) = sv_procs s" "sv_used (recoverOne rd ok r tk s) = sv_used s"
  by (simp_all add: recoverOne_def Let_def)

lemma recoverOne_later: "sv_ok U s \<Longrightarrow> later s (recoverOne rd ok r tk s)"
  by (intro later_same sv_ok_procs) simp_all

lemma recoverOne_ok:
  assumes "sv_ok U s" "row_read U s (r, tk)" "ar_AgentID r \<notin> U \<longrightarrow> rd" shows "sv_ok U (recoverOne rd ok r tk s)"
proof -
  let ?i = "ar_AgentID r"
  have tk: "tk = word_of_int (ar_StartTicks r)" and r: "row_ok U s r" using assms(2) by (auto simp: row_read_def)
  have row: "row_of ?i (recovered_agent r tk e c) (sv_rows s)" "own_cmd (recovered_agent r tk e c)" for e c
    using assms(2) tk by (auto simp: row_read_def row_of_def recovered_agent_def own_cmd_def)
  consider (exited) "ar_Status r = ''exited''" | (alive) "ar_Status r \<noteq> ''exited''" "pidIsAlive rd (ar_PID r) tk s"
    | (dead) "ar_Status r \<noteq> ''exited''" "\<not> pidIsAlive rd (ar_PID r) tk s" by blast
  then show ?thesis
  proof cases
    case exited
    then have "agent_ok U s ?i (recovered_agent r tk True c)" for c using r row by (simp add: agent_ok_iff row_ok_def tk) (simp add: recovered_agent_def)
    then show ?thesis using exited by (simp add: recoverOne_def Let_def sv_ok_set [OF assms(1)])
  next
    case alive
    have "agent_ok U s ?i (recovered_agent r tk False 0)" using row by (simp add: agent_ok_iff) (simp add: recovered_agent_def)
    then show ?thesis using alive by (simp add: recoverOne_def Let_def sv_ok_set [OF assms(1)])
  next
    case dead
    then have "?i \<notin> U \<longrightarrow> gone s (ar_PID r) tk" using r assms(3) by (auto simp: row_ok_def gone_def tk pidIsAlive_iff)
    then have "?i \<notin> U \<longrightarrow> gone s (sa_pid (recovered_agent r tk True (-1))) (sa_startTicks (recovered_agent r tk True (-1)))" by (simp add: recovered_agent_def)
    from sv_ok_exit [OF assms(1) row(1) this row(2)] show ?thesis using dead by (simp add: recoverOne_def Let_def)
  qed
qed

lemma recoverOne_rows:
  assumes "row_read U s x" "sv_ok U s" shows "row_read U (recoverOne rd ok r tk s) x"
proof -
  have "row_ok U (recoverOne rd ok r tk s) (fst x)" using assms by (auto simp: row_read_def intro: row_ok_later recoverOne_later)
  moreover have "\<exists>q' \<in> set (sv_rows (recoverOne rd ok r tk s)). ar_AgentID q' = ar_AgentID q \<and> ar_PID q' = ar_PID q \<and> ar_StartTicks q' = ar_StartTicks q"
    if "q \<in> set (sv_rows s)" for q using that update_row_kept [OF that, of ok "ar_AgentID r" "-1"] by (auto simp: recoverOne_def Let_def)
  ultimately show ?thesis using assms(1) unfolding row_read_def by metis
qed

lemma recoverEach_ok: "sv_ok U s \<Longrightarrow> \<forall>x \<in> set rs. row_read U s x \<Longrightarrow> \<forall>i. i \<notin> U \<longrightarrow> rd i \<Longrightarrow> sv_ok U (recoverEach_sv rs rd ok s)"
  by (induction rs rd ok s rule: recoverEach_sv.induct) (simp_all add: recoverOne_ok recoverOne_rows)

lemma row_read_all:
  assumes "sv_ok U s" "loadAgents_sv b (sv_rows s) = Some rs" "x \<in> set rs" shows "row_read U s x"
proof -
  obtain r where "r \<in> set (sv_rows s)" "x = (r, word_of_int (ar_StartTicks r))"
    using assms(2,3) by (auto simp: loadAgents_sv_def split: if_splits)
  then show ?thesis using assms(1) unfolding row_read_def sv_ok_def by auto
qed

lemma sv_ok_row:
  assumes "sv_ok U s" "insertAgent b r (sv_rows s) = Some rows" "row_ok U s r"
  shows "sv_ok U (set_rows rows s)"
proof -
  let ?s = "set_rows rows s"
  have rows: "rows = sv_rows s @ [r]" "ar_AgentID r \<notin> ar_AgentID ` set (sv_rows s)"
    using assms(2) by (auto simp: insertAgent_def split: if_splits)
  have same: "later s ?s" using assms(1) by (intro later_same sv_ok_procs) simp_all
  have "row_of j a rows" if "row_of j a (sv_rows s)" for j a using that rows by (auto simp: row_of_def)
  then have "agent_ok U ?s j a" if "map_of (sv_agents s) j = Some a" for j a
    using sv_ok_agent [OF assms(1) that] same by (auto simp: agent_ok_iff later_def)
  then show ?thesis using assms(1,3) rows row_ok_later [OF _ same] same by (auto simp: sv_ok_def later_def)
qed

lemma spawn_fields [simp]: "sv_rows (spawn c pid tk s) = sv_rows s" "sv_agents (spawn c pid tk s) = sv_agents s" "(pid, tk) \<in> sv_used (spawn c pid tk s)"
  by (simp_all add: spawn_def)

text \<open>Starting an agent: nothing happens, or a child that nobody keeps is left, or agent and row are new.\<close>

lemma StartAgent_cases:
  assumes "\<forall>pid tk. st_process x = Some (pid, tk) \<longrightarrow> free_process pid tk s"
  obtains (none) "fst (StartAgent req x s) = s"
  | (lost) pid tk sigs where "free_process pid tk s" "fst (StartAgent req x s) = (spawn True pid tk s)\<lparr>sv_signals := sigs\<rparr>"
  | (new) pid tk tk' rows where "free_process pid tk s" "tk' = tk \<or> tk' = 0"
      "insertAgent (st_persist x) (new_row req x pid tk') (sv_rows s) = Some rows"
      "fst (StartAgent req x s) = set_agent (st_id x) (new_agent req x pid tk tk') (set_rows rows (spawn True pid tk s))"
proof (cases "sq_Runtime req = [] \<or> \<not> st_stdout x \<or> \<not> st_stderr x \<or> st_process x = None")
  case True
  then have "fst (StartAgent req x s) = s" by (auto simp: StartAgent_def)
  then show thesis by (rule none)
next
  case False
  then obtain pid tk where p: "st_process x = Some (pid, tk)" by auto
  note free = assms [rule_format, OF p]
  define tk' where "tk' = (if st_readable x then tk else 0)"
  show thesis
  proof (cases "insertAgent (st_persist x) (new_row req x pid tk') (sv_rows s)")
    case None
    then show thesis using False p lost [OF free] by (simp add: StartAgent_def Let_def tk'_def)
  next
    case (Some rows)
    then show thesis using False p new [OF free, of tk' rows] by (simp add: StartAgent_def Let_def tk'_def)
  qed
qed

lemma StartAgent_ok:
  assumes ok: "sv_ok U s" and free: "\<forall>pid tk. st_process x = Some (pid, tk) \<longrightarrow> free_process pid tk s"
  shows "sv_ok U (fst (StartAgent req x s)) \<and> later s (fst (StartAgent req x s))"
  using free
proof (cases rule: StartAgent_cases [where req = req])
  case none
  then show ?thesis using ok later_same [OF sv_ok_procs [OF ok]] by simp
next
  case (lost pid tk sigs)
  have "later s ((spawn True pid tk s)\<lparr>sv_signals := sigs\<rparr>)"
    using later_spawn [OF sv_ok_procs [OF ok] lost(1), of True]
    by (simp add: later_def procs_ok_def known_def gone_def in_table_def)
  then show ?thesis using sv_ok_later [OF ok] by (simp add: lost(2))
next
  case (new pid tk tk' rows)
  let ?p = "spawn True pid tk s"
  have l: "later s ?p" using later_spawn [OF sv_ok_procs [OF ok] new(1)] .
  have p: "sv_ok U ?p" by (rule sv_ok_later [OF ok l]) simp_all
  have r: "row_ok U ?p (new_row req x pid tk')" using new(2) by (auto simp: row_ok_def new_row_def known_def)
  have q: "sv_ok U (set_rows rows ?p)" using sv_ok_row [OF p _ r] new(3) by simp
  have "row_of (st_id x) (new_agent req x pid tk tk') rows"
    using new(3) by (auto simp: insertAgent_def row_of_def new_row_def new_agent_def split: if_splits)
  then have "agent_ok U (set_rows rows ?p) (st_id x) (new_agent req x pid tk tk')" using new(2) by (auto simp: agent_ok_iff new_agent_def own_cmd_def)
  from sv_ok_set [OF q this] have "sv_ok U (fst (StartAgent req x s))" by (simp add: new(4))
  moreover have "later s (fst (StartAgent req x s))" using l by (simp add: new(4) later_def procs_ok_def known_def gone_def in_table_def)
  ultimately show ?thesis by simp
qed

lemma reap_ok:
  assumes ok: "sv_ok U s" and reap: "reap_child i s = Some s'"
  shows "sv_ok U s' \<and> later s s' \<and> (\<exists>a code. map_of (sv_agents s) i = Some a \<and> map_of (sv_agents s') = (map_of (sv_agents s))(i \<mapsto> a\<lparr>sa_waited := Some code\<rparr>) \<and> sv_rows s' = sv_rows s)"
proof -
  obtain a pid tk p code where a: "map_of (sv_agents s) i = Some a" "sa_cmd a = Some (pid, tk)" and p: "map_of (sv_procs s) pid = Some p" "op_ticks p = tk"
    and s': "s' = set_agent i (a\<lparr>sa_waited := Some code\<rparr>) (set_procs (AList.delete pid (sv_procs s)) s)"
    using reap by (auto simp: reap_child_def lookup_sv_def split: option.splits prod.splits if_splits)
  let ?t = "set_procs (AList.delete pid (sv_procs s)) s"
  have l: "later s ?t" using later_delete [OF sv_ok_procs [OF ok]] .
  have t: "sv_ok U ?t" by (rule sv_ok_later [OF ok l]) (simp_all add: set_procs_def)
  note old = sv_ok_agent [OF ok a(1), unfolded agent_ok_iff]
  have "sa_pid a = pid" "sa_startTicks a = tk \<or> sa_startTicks a = 0" using old a(2) by (auto simp: own_cmd_def)
  moreover have "(pid, tk) \<in> sv_used s" using sv_ok_procs [OF ok] p by (auto simp: procs_ok_def)
  ultimately have "gone ?t (sa_pid a) (sa_startTicks a)"
    by (auto simp: gone_def known_def in_table_def set_procs_def delete_conv')
  then have "agent_ok U ?t i (a\<lparr>sa_waited := Some code\<rparr>)" using old by (simp add: agent_ok_iff set_procs_def own_cmd_def row_of_def)
  from sv_ok_set [OF t this] have "sv_ok U s'" by (simp add: s')
  moreover have "later s s'" using l by (simp add: s' later_def procs_ok_def known_def gone_def in_table_def)
  moreover have "map_of (sv_agents s') = (map_of (sv_agents s))(i \<mapsto> a\<lparr>sa_waited := Some code\<rparr>)" "sv_rows s' = sv_rows s"
    by (auto simp: s' set_procs_def)
  ultimately show ?thesis using a(1) by blast
qed

lemma book_ok:
  assumes "sv_ok U s" shows "sv_ok U (book_exit ok i s)"
proof (cases "\<exists>a code. map_of (sv_agents s) i = Some a \<and> sa_waited a = Some code")
  case True
  then obtain a code where a: "map_of (sv_agents s) i = Some a" "sa_waited a = Some code" by blast
  from sv_ok_agent [OF assms a(1)] a(2) have k: "row_of i a (sv_rows s)" "i \<notin> U \<longrightarrow> gone s (sa_pid a) (sa_startTicks a)" "own_cmd a" by (auto simp: agent_ok_iff)
  have m: "sa_pid (markExited code a) = sa_pid a" "sa_startTicks (markExited code a) = sa_startTicks a" "sa_cmd (markExited code a) = sa_cmd a"
    by (simp_all add: markExited_def)
  have "sv_ok U (set_agent i (markExited code a) (set_rows (updateAgentExit ok i code (sv_rows s)) s))"
    using k by (intro sv_ok_exit [OF assms]) (simp_all add: row_of_def own_cmd_def m)
  then show ?thesis by (simp add: book_exit_def lookup_sv_def a)
qed (use assms in \<open>auto simp: book_exit_def lookup_sv_def split: option.split\<close>)

lemma watch_ok:
  assumes "sv_ok U s" "i \<notin> U \<longrightarrow> rd" shows "sv_ok U (watchRecovered rd ok i s)"
proof (cases "\<exists>a. map_of (sv_agents s) i = Some a \<and> sa_recovered a \<and> \<not> sa_exited a \<and> \<not> pidIsAlive rd (sa_pid a) (sa_startTicks a) s")
  case True
  then obtain a where a: "map_of (sv_agents s) i = Some a" "sa_recovered a" "\<not> sa_exited a" "\<not> pidIsAlive rd (sa_pid a) (sa_startTicks a) s" by blast
  from sv_ok_agent [OF assms(1) a(1)] have k: "row_of i a (sv_rows s)" "own_cmd a" by (auto simp: agent_ok_iff)
  then have "known s (sa_pid a) (sa_startTicks a)" using assms(1) by (auto simp: row_of_def sv_ok_def row_ok_def)
  then have g: "i \<notin> U \<longrightarrow> gone s (sa_pid a) (sa_startTicks a)" using a(4) assms(2) by (simp add: gone_def pidIsAlive_iff)
  have "sv_ok U (set_agent i (markExited (-1) a) (set_rows (updateAgentExit ok i (-1) (sv_rows s)) s))"
    using k g by (intro sv_ok_exit [OF assms(1)]) (simp_all add: row_of_def own_cmd_def markExited_def)
  then show ?thesis by (simp add: watchRecovered_def lookup_sv_def a)
qed (use assms in \<open>auto simp: watchRecovered_def lookup_sv_def split: option.split\<close>)

lemma signal_fields:
  "signal_agent i a sig s = (s', x) \<Longrightarrow> sv_procs s' = sv_procs s \<and> sv_used s' = sv_used s \<and> sv_rows s' = sv_rows s \<and> sv_agents s' = sv_agents s"
  by (auto simp: signal_agent_def split: if_splits option.splits)

lemma CancelAgent_fields:
  "sv_procs (fst (CancelAgent i s)) = sv_procs s \<and> sv_used (fst (CancelAgent i s)) = sv_used s \<and>
   sv_rows (fst (CancelAgent i s)) = sv_rows s \<and> sv_agents (fst (CancelAgent i s)) = sv_agents s"
  using signal_fields by (auto simp: CancelAgent_def split: option.split prod.splits sum.splits)

lemma grace_fields:
  "sv_procs (grace_over i s) = sv_procs s \<and> sv_used (grace_over i s) = sv_used s \<and> sv_rows (grace_over i s) = sv_rows s \<and> sv_agents (grace_over i s) = sv_agents s"
  by (auto simp: grace_over_def Let_def signal_agent_def split: option.split)

lemma other_fields:
  "sv_procs (book_exit ok i s) = sv_procs s \<and> sv_used (book_exit ok i s) = sv_used s"
  "sv_procs (watchRecovered rd ok i s) = sv_procs s \<and> sv_used (watchRecovered rd ok i s) = sv_used s"
  "sv_procs (recoverEach_sv rs rd' ok' s) = sv_procs s \<and> sv_used (recoverEach_sv rs rd' ok' s) = sv_used s"
proof -
  show "sv_procs (recoverEach_sv rs rd' ok' s) = sv_procs s \<and> sv_used (recoverEach_sv rs rd' ok' s) = sv_used s"
    by (induction rs rd' ok' s rule: recoverEach_sv.induct) simp_all
qed (auto simp: book_exit_def watchRecovered_def split: option.split)

lemma sv_step_ok:
  assumes "sv_step U s s'" "sv_ok U s" shows "sv_ok U s' \<and> later s s'"
  using assms(1)
proof cases
  case (restart load_ok rd ok)
  then obtain rs where rs: "loadAgents_sv load_ok (sv_rows s) = Some rs" "s' = recoverEach_sv rs rd ok s"
    by (auto simp: New_supervisor_def recoverFromDB_def split: option.splits)
  then show ?thesis using recoverEach_ok [OF assms(2)] row_read_all [OF assms(2) rs(1)] restart(3) later_same [OF sv_ok_procs [OF assms(2)]] other_fields(3) by blast
next
  case (start x req)
  then show ?thesis using StartAgent_ok [OF assms(2)] by blast
next
  case (stranger pid tk)
  then have "later s s'" using later_spawn [OF sv_ok_procs [OF assms(2)]] by blast
  then show ?thesis using sv_ok_later [OF assms(2)] stranger by simp
next
  case (ends pid code)
  then have "later s s'" using later_ends [OF sv_ok_procs [OF assms(2)]] by blast
  moreover have "sv_rows s' = sv_rows s" "sv_agents s' = sv_agents s" using ends by (auto simp: proc_ends_def set_procs_def split: option.split)
  ultimately show ?thesis using sv_ok_later [OF assms(2)] by blast
next
  case (reap i)
  then show ?thesis using reap_ok [OF assms(2)] by blast
next
  case (book ok i)
  then show ?thesis using book_ok [OF assms(2)] later_same [OF sv_ok_procs [OF assms(2)]] other_fields(1) by blast
next
  case (watch i rd ok)
  then show ?thesis using watch_ok [OF assms(2) watch(2)] later_same [OF sv_ok_procs [OF assms(2)]] other_fields(2) by blast
next
  case (cancel i)
  then have l: "later s s'" using later_same [OF sv_ok_procs [OF assms(2)]] CancelAgent_fields by blast
  then show ?thesis using sv_ok_later [OF assms(2) l] CancelAgent_fields cancel by metis
next
  case (grace i)
  then have l: "later s s'" using later_same [OF sv_ok_procs [OF assms(2)]] grace_fields by blast
  then show ?thesis using sv_ok_later [OF assms(2) l] grace_fields grace by metis
next
  case stop
  have l: "later s (orphan s)" using later_orphan [OF sv_ok_procs [OF assms(2)]] .
  then show ?thesis using assms(2) row_ok_later [OF _ l] stop by (auto simp: sv_ok_def later_def) (simp_all add: orphan_def)
qed

section \<open>Reports are final\<close>

text \<open>The process of the agent is gone, and no report says that it runs.\<close>

definition over :: "string \<Rightarrow> Supervisor_state \<Rightarrow> bool" where
  "over i s \<longleftrightarrow> (\<exists>r \<in> set (sv_rows s). ar_AgentID r = i \<and> gone s (ar_PID r) (word_of_int (ar_StartTicks r))) \<and>
     (\<forall>a. map_of (sv_agents s) i = Some a \<longrightarrow> sa_exited a)"

lemma over_keep:
  assumes "over i s" "later s s'"
    and "\<forall>r \<in> set (sv_rows s). \<exists>r' \<in> set (sv_rows s'). ar_AgentID r' = ar_AgentID r \<and> ar_PID r' = ar_PID r \<and> ar_StartTicks r' = ar_StartTicks r"
    and "\<forall>a'. map_of (sv_agents s') i = Some a' \<longrightarrow> sa_exited a'"
  shows "over i s'"
proof -
  obtain r where r: "r \<in> set (sv_rows s)" "ar_AgentID r = i" "gone s (ar_PID r) (word_of_int (ar_StartTicks r))" using assms(1) by (auto simp: over_def)
  then obtain r' where "r' \<in> set (sv_rows s')" "ar_AgentID r' = i" "ar_PID r' = ar_PID r" "ar_StartTicks r' = ar_StartTicks r"
    using assms(3) by fastforce
  moreover have "gone s' (ar_PID r) (word_of_int (ar_StartTicks r))" using r(3) assms(2) by (simp add: later_def)
  ultimately have "\<exists>r \<in> set (sv_rows s'). ar_AgentID r = i \<and> gone s' (ar_PID r) (word_of_int (ar_StartTicks r))" by (metis (no_types))
  then show ?thesis using assms(4) by (simp add: over_def)
qed

lemma over_row:
  assumes "sv_ok U s" "over i s" "row_read U s (r, tk)" "ar_AgentID r = i" shows "\<not> pidIsAlive rd (ar_PID r) tk s"
proof -
  obtain r1 r2 where "r1 \<in> set (sv_rows s)" "ar_AgentID r1 = i" "gone s (ar_PID r1) (word_of_int (ar_StartTicks r1))"
    and "r2 \<in> set (sv_rows s)" "ar_AgentID r2 = i" "ar_PID r2 = ar_PID r" "ar_StartTicks r2 = ar_StartTicks r" "tk = word_of_int (ar_StartTicks r)"
    using assms(2-4) by (auto simp: over_def row_read_def)
  moreover from this have "r1 = r2" using assms(1) by (auto simp: sv_ok_def distinct_map inj_on_def)
  ultimately show ?thesis by (simp add: gone_def pidIsAlive_iff)
qed

lemma recoverOne_over:
  assumes ok: "sv_ok U s" and over: "over i s" and read: "row_read U s (r, tk)" shows "over i (recoverOne rd b r tk s)"
proof (rule over_keep [OF over recoverOne_later [OF ok]])
  show "\<forall>q \<in> set (sv_rows s). \<exists>r' \<in> set (sv_rows (recoverOne rd b r tk s)). ar_AgentID r' = ar_AgentID q \<and> ar_PID r' = ar_PID q \<and> ar_StartTicks r' = ar_StartTicks q"
    using update_row_kept [of _ "sv_rows s" b "ar_AgentID r" "-1"] by (auto simp: recoverOne_def Let_def)
  have old: "\<forall>a. map_of (sv_agents s) i = Some a \<longrightarrow> sa_exited a" using over by (simp add: over_def)
  show "\<forall>a'. map_of (sv_agents (recoverOne rd b r tk s)) i = Some a' \<longrightarrow> sa_exited a'"
    using old over_row [OF ok over read] by (auto simp: recoverOne_def Let_def recovered_agent_def split: if_splits)
qed

lemma recoverEach_over:
  "sv_ok U s \<Longrightarrow> over i s \<Longrightarrow> \<forall>x \<in> set rs. row_read U s x \<Longrightarrow> \<forall>i. i \<notin> U \<longrightarrow> rd i \<Longrightarrow> over i (recoverEach_sv rs rd ok s)"
  by (induction rs rd ok s rule: recoverEach_sv.induct) (simp_all add: recoverOne_over recoverOne_ok recoverOne_rows)

lemma StartAgent_over:
  assumes ok: "sv_ok U s" and over: "over i s" and free: "\<forall>pid tk. st_process x = Some (pid, tk) \<longrightarrow> free_process pid tk s"
  shows "over i (fst (StartAgent req x s))"
proof (rule over_keep [OF over])
  show "later s (fst (StartAgent req x s))" using StartAgent_ok [OF ok free] by simp
  have i: "i \<in> ar_AgentID ` set (sv_rows s)" using over by (auto simp: over_def)
  have "(\<forall>r \<in> set (sv_rows s). r \<in> set (sv_rows (fst (StartAgent req x s)))) \<and> map_of (sv_agents (fst (StartAgent req x s))) i = map_of (sv_agents s) i"
    using free
  proof (cases rule: StartAgent_cases [where req = req])
    case (new pid tk tk' rows)
    then have "st_id x \<noteq> i" using i by (auto simp: insertAgent_def new_row_def split: if_splits)
    then show ?thesis using new(3) by (auto simp: new(4) insertAgent_def split: if_splits)
  qed simp_all
  then show "\<forall>r \<in> set (sv_rows s). \<exists>r' \<in> set (sv_rows (fst (StartAgent req x s))). ar_AgentID r' = ar_AgentID r \<and> ar_PID r' = ar_PID r \<and> ar_StartTicks r' = ar_StartTicks r"
    and "\<forall>a'. map_of (sv_agents (fst (StartAgent req x s))) i = Some a' \<longrightarrow> sa_exited a'" using over by (auto simp: over_def)
qed

lemma sv_step_over:
  assumes step: "sv_step U s s'" and ok: "sv_ok U s" and over: "over i s" shows "over i s'"
proof -
  have l: "later s s'" using sv_step_ok [OF step ok] by simp
  have old: "map_of (sv_agents s) i = Some a \<Longrightarrow> sa_exited a" for a using over by (simp add: over_def)
  note keep = over_keep [OF over l]
  from step show ?thesis
  proof cases
    case (restart load_ok rd b)
    then obtain rs where rs: "loadAgents_sv load_ok (sv_rows s) = Some rs" "s' = recoverEach_sv rs rd b s"
      by (auto simp: New_supervisor_def recoverFromDB_def split: option.splits)
    then show ?thesis using recoverEach_over [OF ok over] row_read_all [OF ok rs(1)] restart(3) by blast
  next
    case (start x req)
    then show ?thesis using StartAgent_over [OF ok over] by blast
  next
    case (stranger pid tk)
    then show ?thesis using old by (intro keep) auto
  next
    case (ends pid code)
    then show ?thesis using old by (intro keep) (auto simp: proc_ends_def set_procs_def split: option.split)
  next
    case (reap j)
    from reap_ok [OF ok this] show ?thesis using old by (intro keep) (auto split: if_splits)
  next
    case (book b j)
    then show ?thesis using old update_row_kept [of _ "sv_rows s" b j] by (intro keep) (auto simp: book_exit_def markExited_def lookup_sv_def split: option.split if_splits)
  next
    case (watch j rd b)
    then show ?thesis using old update_row_kept [of _ "sv_rows s" b j] by (intro keep) (auto simp: watchRecovered_def markExited_def lookup_sv_def split: option.split if_splits)
  next
    case (cancel j)
    then show ?thesis using old CancelAgent_fields [of j s] by (intro keep) auto
  next
    case (grace j)
    then show ?thesis using old grace_fields [of j s] by (intro keep) auto
  next
    case stop
    then show ?thesis by (intro keep) (auto simp: orphan_def)
  qed
qed

section \<open>Properties\<close>

text \<open>C13. The supervisor does not report a running agent as ended, and never takes the report back, unless reading the start time
  of a process that is there failed for this agent (\<open>U\<close> has the agents for which it may; for those the code takes the error for
  the end of the process). In any run of the system, with processes that start, end and take over the ids of others, with
  database statements that fail and with restarts of the supervisor at any time, once such an agent is reported as ended the process
  it was started as is not in the process table any more (if its start time could be read when it was started), then and
  ever after, and every later report says that it has ended.\<close>

theorem exit_report_final:
  assumes "(sv_step U)\<^sup>*\<^sup>* no_agents s" "i \<notin> U" "Status_sv i s = Some st" "as_Status st = ''exited''" "lookup_sv i s = Some a" "(sv_step U)\<^sup>*\<^sup>* s s'"
  shows "\<not> in_table (sa_pid a) (sa_startTicks a) s' \<and> (\<forall>st'. Status_sv i s' = Some st' \<longrightarrow> as_Status st' = ''exited'')"
proof -
  have ok: "sv_ok U s" using assms(1)
    by induction (auto dest: sv_step_ok simp: no_agents_def sv_ok_def procs_ok_def)
  have a: "map_of (sv_agents s) i = Some a" "sa_exited a"
    using assms(3-5) by (auto simp: lookup_sv_def Status_sv_def agent_status_def snapshotStatus_def split: if_splits)
  from sv_ok_agent [OF ok a(1)] a(2) assms(2) have k: "row_of i a (sv_rows s)" "gone s (sa_pid a) (sa_startTicks a)" by (auto simp: agent_ok_iff)
  then have "over i s" using a by (auto simp: over_def row_of_def)
  with assms(6) ok k(2) have "sv_ok U s' \<and> over i s' \<and> gone s' (sa_pid a) (sa_startTicks a)"
  proof (induction rule: rtranclp_induct)
    case (step t u)
    then show ?case using sv_step_ok [of U t u] sv_step_over [of U t u i] by (simp add: later_def)
  qed simp
  then show ?thesis by (auto simp: gone_def over_def Status_sv_def lookup_sv_def agent_status_def snapshotStatus_def)
qed

definition demo_start :: start_answers where
  "demo_start = \<lparr>st_id = ''a'', st_stdout = True, st_stderr = True, st_process = Some (5, 7), st_readable = True, st_now = 0, st_persist = True\<rparr>"

definition demo_request :: StartAgentRequest where
  "demo_request = \<lparr>sq_Runtime = ''codex'', sq_Workdir = [], sq_SessionID = []\<rparr>"

text \<open>The agent has ended and the supervisor has waited for it, but not yet noted the end.\<close>

definition demo_reaped :: Supervisor_state where
  "demo_reaped = the (reap_child ''a'' (proc_ends 5 0 (fst (StartAgent demo_request demo_start no_agents))))"

lemma demo_reaped_fields:
  "lookup_sv ''a'' demo_reaped = Some ((new_agent demo_request demo_start 5 7 7)\<lparr>sa_waited := Some 0\<rparr>)"
  "sv_procs demo_reaped = []" "sv_used demo_reaped = {(5, 7)}" "sv_rows demo_reaped = [new_row demo_request demo_start 5 7]"
  by (simp_all add: demo_reaped_def reap_child_def proc_ends_def StartAgent_def Let_def demo_request_def demo_start_def no_agents_def spawn_def
    insertAgent_def lookup_sv_def set_procs_def set_agent_def set_rows_def new_agent_def new_row_def)

lemma demo_reaped_reachable: "(sv_step U)\<^sup>*\<^sup>* no_agents demo_reaped"
proof -
  let ?s = "fst (StartAgent demo_request demo_start no_agents)"
  have "sv_step U no_agents ?s" by (rule sv_step.start) (simp add: demo_start_def free_process_def no_agents_def)
  moreover have "sv_step U ?s (proc_ends 5 0 ?s)" by (rule sv_step.ends)
  moreover have "reap_child ''a'' (proc_ends 5 0 ?s) \<noteq> None"
    by (simp add: reap_child_def proc_ends_def StartAgent_def Let_def demo_request_def demo_start_def no_agents_def spawn_def
      insertAgent_def lookup_sv_def set_procs_def set_agent_def set_rows_def new_agent_def new_row_def)
  then have "sv_step U (proc_ends 5 0 ?s) demo_reaped" by (auto simp: demo_reaped_def intro: sv_step.reap)
  ultimately show ?thesis by (meson converse_rtranclp_into_rtranclp rtranclp.rtrancl_refl)
qed

theorem exit_report_final_witness:
  "let s = book_exit False ''a'' demo_reaped
   in map_option as_Status (Status_sv ''a'' s) = Some ''exited'' \<and> \<not> in_table 5 7 (spawn False 5 9 s)"
proof -
  let ?s = "book_exit False ''a'' demo_reaped"
  have b: "(sv_step {})\<^sup>*\<^sup>* no_agents ?s" using demo_reaped_reachable sv_step.book by (rule rtranclp.rtrancl_into_rtrancl)
  have f: "lookup_sv ''a'' ?s = Some (markExited 0 ((new_agent demo_request demo_start 5 7 7)\<lparr>sa_waited := Some 0\<rparr>))"
    "sv_procs ?s = []" "sv_used ?s = {(5, 7)}"
    using demo_reaped_fields by (simp_all add: book_exit_def lookup_sv_def)
  then obtain st where st: "Status_sv ''a'' ?s = Some st" "as_Status st = ''exited''"
    by (simp add: Status_sv_def agent_status_def snapshotStatus_def markExited_def)
  have "(sv_step {})\<^sup>*\<^sup>* ?s (spawn False 5 9 ?s)" by (rule r_into_rtranclp, rule sv_step.stranger) (simp add: free_process_def f)
  from exit_report_final [OF b _ st f(1) this] st show ?thesis by (simp add: Let_def markExited_def new_agent_def)
qed

text \<open>The agent is running and was found again after a restart.\<close>

definition demo_stopped :: Supervisor_state where
  "demo_stopped = orphan (fst (StartAgent demo_request demo_start no_agents))"

definition demo_found :: Supervisor_state where
  "demo_found = recoverEach_sv [(new_row demo_request demo_start 5 7, 7)] (\<lambda>_. True) (\<lambda>_. True) demo_stopped"

lemma demo_stopped_fields:
  "sv_rows demo_stopped = [new_row demo_request demo_start 5 7]" "sv_agents demo_stopped = []"
  "sv_procs demo_stopped = [(5, \<lparr>op_ticks = 7, op_child = False, op_exit = None\<rparr>)]" "sv_used demo_stopped = {(5, 7)}"
  by (simp_all add: demo_stopped_def StartAgent_def Let_def demo_request_def demo_start_def no_agents_def spawn_def insertAgent_def set_agent_def set_rows_def new_row_def orphan_def)

lemma demo_found_fields:
  "lookup_sv ''a'' demo_found = Some (recovered_agent (new_row demo_request demo_start 5 7) 7 False 0)"
  "sv_procs demo_found = [(5, \<lparr>op_ticks = 7, op_child = False, op_exit = None\<rparr>)]" "sv_used demo_found = {(5, 7)}" "sv_rows demo_found = [new_row demo_request demo_start 5 7]"
  by (simp_all add: demo_found_def recoverOne_def Let_def pidIsAlive_def demo_stopped_fields lookup_sv_def) (simp_all add: new_row_def demo_start_def)

text \<open>A restart of the supervisor that finds the one row of the agent.\<close>

lemma demo_restart:
  assumes "sv_rows s = [new_row demo_request demo_start 5 7]" "sv_agents s = []"
  shows "sv_step U s (recoverEach_sv [(new_row demo_request demo_start 5 7, 7)] (\<lambda>_. True) (\<lambda>_. True) s)"
proof (rule sv_step.restart [where rd = "\<lambda>_. True"])
  show "New_supervisor True (\<lambda>_. True) (\<lambda>_. True) s = Some (recoverEach_sv [(new_row demo_request demo_start 5 7, 7)] (\<lambda>_. True) (\<lambda>_. True) s)"
    by (simp add: New_supervisor_def recoverFromDB_def loadAgents_sv_def assms) (simp add: new_row_def)
qed (use assms in simp_all)

lemma demo_found_reachable: "(sv_step U)\<^sup>*\<^sup>* no_agents demo_found"
proof -
  let ?s = "fst (StartAgent demo_request demo_start no_agents)"
  have "sv_step U no_agents ?s" by (rule sv_step.start) (simp add: demo_start_def free_process_def no_agents_def)
  moreover have "sv_step U ?s demo_stopped" unfolding demo_stopped_def by (rule sv_step.stop)
  moreover have "sv_step U demo_stopped demo_found" unfolding demo_found_def by (rule demo_restart) (simp_all add: demo_stopped_fields)
  ultimately show ?thesis by (meson converse_rtranclp_into_rtranclp rtranclp.rtrancl_refl)
qed

text \<open>What an error of the read does: an agent whose process runs is reported as ended and, when the row could not be written either,
  as running again after the next restart.\<close>

lemma misread_reported:
  "\<exists>s s'. (sv_step UNIV)\<^sup>*\<^sup>* no_agents s \<and> in_table 5 7 s \<and> map_option as_Status (Status_sv ''a'' s) = Some ''exited'' \<and>
     (sv_step UNIV)\<^sup>*\<^sup>* s s' \<and> map_option as_Status (Status_sv ''a'' s') = Some ''running''"
proof -
  let ?s = "watchRecovered False False ''a'' demo_found"
  let ?s' = "recoverEach_sv [(new_row demo_request demo_start 5 7, 7)] (\<lambda>_. True) (\<lambda>_. True) (orphan ?s)"
  have f: "sv_procs ?s = sv_procs demo_found" "sv_rows ?s = sv_rows demo_found"
    by (simp_all add: watchRecovered_def demo_found_fields updateAgentExit_def)
  have e: "map_option as_Status (Status_sv ''a'' ?s) = Some ''exited''"
    using demo_found_fields(1) by (simp add: watchRecovered_def pidIsAlive_def Status_sv_def agent_status_def snapshotStatus_def lookup_sv_def recovered_agent_def markExited_def)
  have o: "sv_rows (orphan ?s) = [new_row demo_request demo_start 5 7]" "sv_agents (orphan ?s) = []" "sv_procs (orphan ?s) = sv_procs demo_found"
    by (simp_all add: orphan_def f demo_found_fields)
  have "sv_step UNIV demo_found ?s" by (rule sv_step.watch) simp
  then have r: "(sv_step UNIV)\<^sup>*\<^sup>* no_agents ?s" using demo_found_reachable by (rule rtranclp.rtrancl_into_rtrancl [rotated])
  have "sv_step UNIV ?s (orphan ?s)" by (rule sv_step.stop)
  moreover have "sv_step UNIV (orphan ?s) ?s'" by (rule demo_restart [OF o(1,2)])
  ultimately have r': "(sv_step UNIV)\<^sup>*\<^sup>* ?s ?s'" by (meson converse_rtranclp_into_rtranclp rtranclp.rtrancl_refl)
  have a: "pidIsAlive True 5 7 (orphan ?s)" by (simp add: pidIsAlive_def o demo_found_fields)
  have x: "ar_PID (new_row demo_request demo_start 5 7) = 5" "ar_AgentID (new_row demo_request demo_start 5 7) = ''a''" "ar_Status (new_row demo_request demo_start 5 7) = ''running''"
    by (simp_all add: new_row_def demo_start_def)
  have b: "map_option as_Status (Status_sv ''a'' ?s') = Some ''running''"
    using a by (simp add: x recoverOne_def Let_def Status_sv_def agent_status_def snapshotStatus_def lookup_sv_def) (simp add: recovered_agent_def)
  have t: "in_table 5 7 ?s" by (simp add: in_table_def f demo_found_fields)
  show ?thesis by (intro exI conjI) (rule r t e r' b)+
qed

text \<open>C36. A cancellation can hit a stranger: the signal goes to whatever process has the id at that moment,
  so that after the process of an agent has ended and before its end is noted, a new process with the
  same id is terminated instead. This happens to an agent that is waited for and, for half a second, to
  every agent that was found again after a restart.\<close>

theorem cancel_hits_stranger:
  "\<exists>s a r b. (sv_step {})\<^sup>*\<^sup>* no_agents s \<and> lookup_sv ''a'' s = Some a \<and> sa_startTicks a = 7 \<and> \<not> sa_recovered a \<and>
     (''a'', 5, 9, SIGTERM) \<in> set (sv_signals (fst (CancelAgent ''a'' s))) \<and>
     (sv_step {})\<^sup>*\<^sup>* no_agents r \<and> lookup_sv ''a'' r = Some b \<and> sa_startTicks b = 7 \<and> sa_recovered b \<and>
     (''a'', 5, 9, SIGTERM) \<in> set (sv_signals (fst (CancelAgent ''a'' r)))"
proof -
  let ?s = "spawn False 5 9 demo_reaped"
  have s: "(sv_step {})\<^sup>*\<^sup>* no_agents ?s"
    using demo_reaped_reachable by (rule rtranclp.rtrancl_into_rtrancl) (rule sv_step.stranger, simp add: free_process_def demo_reaped_fields)
  have s2: "(''a'', 5, 9, SIGTERM) \<in> set (sv_signals (fst (CancelAgent ''a'' ?s)))"
    using demo_reaped_fields by (simp add: CancelAgent_def lookup_sv_def signal_agent_def spawn_def new_agent_def)
  let ?r = "spawn False 5 9 (proc_ends 5 0 demo_found)"
  note f = demo_found_fields
  have "sv_step {} demo_found (proc_ends 5 0 demo_found)" by (rule sv_step.ends)
  moreover have "sv_step {} (proc_ends 5 0 demo_found) ?r" using f by (intro sv_step.stranger) (simp add: free_process_def proc_ends_def set_procs_def)
  ultimately have r: "(sv_step {})\<^sup>*\<^sup>* no_agents ?r" using demo_found_reachable by (meson rtranclp.rtrancl_into_rtrancl)
  have r2: "lookup_sv ''a'' ?r = Some (recovered_agent (new_row demo_request demo_start 5 7) 7 False 0)"
    "(''a'', 5, 9, SIGTERM) \<in> set (sv_signals (fst (CancelAgent ''a'' ?r)))"
    using f by (simp_all add: CancelAgent_def lookup_sv_def signal_agent_def spawn_def recovered_agent_def new_row_def proc_ends_def set_procs_def)
  have s3: "lookup_sv ''a'' ?s = Some ((new_agent demo_request demo_start 5 7 7)\<lparr>sa_waited := Some 0\<rparr>)"
    using demo_reaped_fields by (simp add: lookup_sv_def)
  show ?thesis
  proof (intro exI conjI)
    show "sa_startTicks ((new_agent demo_request demo_start 5 7 7)\<lparr>sa_waited := Some 0\<rparr>) = 7"
      "\<not> sa_recovered ((new_agent demo_request demo_start 5 7 7)\<lparr>sa_waited := Some 0\<rparr>)" by (simp_all add: new_agent_def)
    show "sa_startTicks (recovered_agent (new_row demo_request demo_start 5 7) 7 False 0) = 7"
      "sa_recovered (recovered_agent (new_row demo_request demo_start 5 7) 7 False 0)" by (simp_all add: recovered_agent_def)
  qed (rule s s2 s3 r r2)+
qed

end
