(* ===== verification/Agent_Stream.thy ===== *)
theory Agent_Stream
  imports Supervisor Worker_Resume Json_Text "HOL-Library.Sublist"
begin

text \<open>
  The output of an agent on its way to a worker: the supervisor follows the file the agent writes to
  and sends each line as an event of a stream (\<^verbatim>\<open>StreamEvents\<close> of \<^verbatim>\<open>internal/supervisor/supervisor.go\<close>),
  the client takes the stream apart again (\<^verbatim>\<open>internal/supervisor/client\<close>), and a worker that resumes
  appends the lines to its own file (\<open>Worker_Resume\<close>).

  \<^item> A turn of the loop of the supervisor is a \<open>look\<close>: the content of the file when it is read, and
    whether, afterwards, the agent is seen to have ended, the request to have been cancelled, the answer
    to be writable. The file only grows.
  \<^item> The events are JSON objects with a line and its number; the decoder is an argument of the client.
    \<open>decode_event\<close> is its restriction to the objects the supervisor writes. Strings are coded as in \<open>Json_Text\<close>: stray bytes come
    out as the replacement character.
  \<^item> What the client is called back with may be refused (\<open>cb\<close>), which ends the stream.

  Shown here: whatever the file holds when it is read, one line arrives for every line of the output, in order and with its number, up to the
  last complete one in the file at the look at which the agent is seen to have ended, and a resumed worker appends exactly those that
  follow the ones it has; a line that is read before it is complete arrives without its beginning, every other one whole.
\<close>

section \<open>The supervisor\<close>

definition newline :: char where "newline = CHR 0x0A"

text \<open>\<^verbatim>\<open>ReadString\<close> at position \<open>p\<close> of the content \<open>c\<close>.\<close>

definition ReadString :: "string \<Rightarrow> nat \<Rightarrow> string \<times> nat" where
  "ReadString c p =
     (let rest = drop p c; k = length (takeWhile (\<lambda>x. x \<noteq> newline) rest)
      in if k < length rest then (take (Suc k) rest, p + Suc k) else (rest, p + length rest))"

definition complete_line :: "string \<Rightarrow> bool" where
  "complete_line l \<longleftrightarrow> l \<noteq> [] \<and> last l = newline"

definition trim_right :: "char set \<Rightarrow> string \<Rightarrow> string" where
  "trim_right cs s = rev (dropWhile (\<lambda>c. c \<in> cs) (rev s))"

fun skip_lines :: "nat \<Rightarrow> string \<Rightarrow> nat \<Rightarrow> nat \<Rightarrow> nat \<times> nat" where
  "skip_lines 0 c p n = (p, n)"
| "skip_lines (Suc k) c p n =
     (case ReadString c p of (line, p') \<Rightarrow> if complete_line line then skip_lines k c p' (Suc n) else (p', n))"

record look =
  lk_content :: string
  lk_exited :: bool
  lk_cancelled :: bool
  lk_writable :: bool

datatype stream_result = Drained | Cancelled | NotWritable | Following

type_synonym stream_line = "nat \<times> string"

fun followFile :: "look list \<Rightarrow> nat \<Rightarrow> nat \<Rightarrow> stream_line list \<times> stream_result" where
  "followFile [] p n = ([], Following)"
| "followFile (k # ks) p n =
     (case ReadString (lk_content k) p of
        (line, p') \<Rightarrow>
          if complete_line line then
            (if \<not> lk_writable k then ([], NotWritable)
             else case followFile ks p' (Suc n) of (evs, r) \<Rightarrow> ((Suc n, trim_right {newline} line) # evs, r))
          else if lk_exited k then ([], Drained)
          else if lk_cancelled k then ([], Cancelled)
          else followFile ks p' n)"

definition StreamEvents_sv :: "nat \<Rightarrow> string \<Rightarrow> look list \<Rightarrow> stream_line list \<times> stream_result" where
  "StreamEvents_sv fromOffset opened looks = (case skip_lines fromOffset opened 0 0 of (p, n) \<Rightarrow> followFile looks p n)"

text \<open>The keys of the object are written in order.\<close>

definition stream_payload :: "stream_line \<Rightarrow> string" where
  "stream_payload ev = (case ev of (n, line) \<Rightarrow>
     ''{'' @ json_string ''line'' @ '':'' @ json_string line @ '','' @ json_string ''offset'' @ '':'' @ itoa (int n) @ ''}'')"

definition sse_event :: "stream_line \<Rightarrow> string" where
  "sse_event ev = ''data: '' @ stream_payload ev @ [newline, newline]"

section \<open>The client\<close>

datatype client_end = ClientClosed | ClientNotFound | ClientStatus int | StreamError string | DecodeError | CallbackError string

fun sse_lines :: "(string \<Rightarrow> stream_line option) \<Rightarrow> (stream_line \<Rightarrow> string option) \<Rightarrow> string list \<Rightarrow> string \<Rightarrow> string \<Rightarrow> stream_line list \<times> client_end" where
  "sse_lines decode cb [] data name =
     (if name = ''error'' then ([], StreamError data)
      else if data \<noteq> [] then (case decode data of None \<Rightarrow> ([], ClientClosed) | Some ev \<Rightarrow> ([ev], ClientClosed))
      else ([], ClientClosed))"
| "sse_lines decode cb (l # ls) data name =
     (let line = trim_right {newline, CHR 0x0D} l
      in if line = [] then
           (if name = ''error'' then ([], StreamError data)
            else if data = [] then sse_lines decode cb ls [] []
            else case decode data of
                   None \<Rightarrow> ([], DecodeError)
                 | Some ev \<Rightarrow>
                    (case cb ev of
                       Some e \<Rightarrow> ([ev], CallbackError e)
                     | None \<Rightarrow> (case sse_lines decode cb ls [] [] of (evs, r) \<Rightarrow> (ev # evs, r))))
         else if has_prefix line '':'' then sse_lines decode cb ls data name
         else if has_prefix line ''event:'' then sse_lines decode cb ls data (trim_space (trim_prefix line ''event:''))
         else if has_prefix line ''data:''
         then sse_lines decode cb ls ((if data = [] then [] else data @ [newline]) @ trim_space (trim_prefix line ''data:'')) name
         else sse_lines decode cb ls data name)"

text \<open>The lines of the body; what follows the last newline is a line if it is not empty.\<close>

definition body_lines :: "string \<Rightarrow> string list" where
  "body_lines body = (let ps = split_on newline body in if last ps = [] then butlast ps else ps)"

definition client_StreamEvents ::
  "(string \<Rightarrow> stream_line option) \<Rightarrow> (stream_line \<Rightarrow> string option) \<Rightarrow> int \<Rightarrow> string \<Rightarrow> stream_line list \<times> client_end" where
  "client_StreamEvents decode cb code body =
     (if code = 404 then ([], ClientNotFound)
      else if code \<noteq> 200 then ([], ClientStatus code)
      else sse_lines decode cb (body_lines body) [] [])"

section \<open>Decoding an event\<close>

definition decode_event :: "string \<Rightarrow> stream_line option" where
  "decode_event s =
     (let pre = ''{'' @ json_string ''line'' @ '':'' @ [CHR 0x22]; mid = '','' @ json_string ''offset'' @ '':''
      in if \<not> has_prefix s pre then None
         else case json_unquote (drop (length pre) s) of
                None \<Rightarrow> None
              | Some (line, rest) \<Rightarrow>
                 if \<not> has_prefix rest mid then None
                 else let num = drop (length mid) rest
                      in if num = [] \<or> last num \<noteq> CHR ''}'' then None
                         else case atoi (butlast num) of None \<Rightarrow> None | Some n \<Rightarrow> if n < 0 then None else Some (nat n, line))"

lemma key_plain: "json_body ''line'' = ''line''" "json_body ''offset'' = ''offset''"
  by code_simp+

lemma decode_payload:
  assumes "int n \<le> max_int64" shows "decode_event (stream_payload (n, line)) = Some (n, valid_text line)"
proof -
  let ?pre = "''{'' @ json_string ''line'' @ '':'' @ [CHR 0x22]" and ?mid = "'','' @ json_string ''offset'' @ '':''"
  have p: "stream_payload (n, line) = ?pre @ json_body line @ CHR 0x22 # ?mid @ itoa (int n) @ ''}''"
    by (simp add: stream_payload_def json_string_def)
  have n: "atoi (itoa (int n)) = Some (int n)" using assms by (intro atoi_itoa) (simp_all add: min_int64_def)
  have "has_prefix (stream_payload (n, line)) ?pre" unfolding p by (rule has_prefix_append)
  moreover have "json_unquote (drop (length ?pre) (stream_payload (n, line))) = Some (valid_text line, ?mid @ itoa (int n) @ ''}'')"
    unfolding p append_eq_conv_conj [THEN iffD1, OF refl, THEN conjunct2] by (simp add: unquote_string)
  moreover have "has_prefix (?mid @ itoa (int n) @ ''}'') ?mid" by (rule has_prefix_append)
  moreover have "drop (length ?mid) (?mid @ itoa (int n) @ ''}'') = itoa (int n) @ ''}''" by simp
  ultimately show ?thesis using n unfolding decode_event_def Let_def by (simp add: butlast_append)
qed

section \<open>The file\<close>

text \<open>What the agent writes in all is \<open>W\<close>; at every look the file holds a beginning of it, never a shorter one than before, which may end
  within a line.\<close>

fun grows :: "string \<Rightarrow> nat \<Rightarrow> look list \<Rightarrow> bool" where
  "grows W p [] \<longleftrightarrow> True"
| "grows W p (k # ks) \<longleftrightarrow> (\<exists>m. p \<le> m \<and> m \<le> length W \<and> lk_content k = take m W \<and> grows W m ks)"

lemma grows_mono: "grows W m ks \<Longrightarrow> p \<le> m \<Longrightarrow> grows W p ks"
  by (cases ks) (auto intro: order_trans)

text \<open>Complete lines of a content, the lines of what was written, and a content that ends within line \<open>i\<close> (counted from 0).\<close>

definition full_lines :: "string \<Rightarrow> nat" where
  "full_lines c = length (filter (\<lambda>x. x = newline) c)"

definition out_line :: "string \<Rightarrow> nat \<Rightarrow> string" where
  "out_line W i = split_on newline W ! i"

definition ends_within :: "nat \<Rightarrow> string \<Rightarrow> bool" where
  "ends_within i c \<longleftrightarrow> full_lines c = i \<and> c \<noteq> [] \<and> last c \<noteq> newline"

text \<open>Where line \<open>i\<close> begins; the position \<open>p\<close> is in line \<open>i\<close>.\<close>

definition line_start :: "string \<Rightarrow> nat \<Rightarrow> nat" where
  "line_start W i = length (concat (map (\<lambda>l. l @ [newline]) (take i (split_on newline W))))"

definition in_line :: "string \<Rightarrow> nat \<Rightarrow> nat \<Rightarrow> bool" where
  "in_line W p i \<longleftrightarrow> i < length (split_on newline W) \<and> line_start W i \<le> p \<and> p \<le> line_start W i + length (out_line W i)"

lemma split_rejoined: "join_with [c] (split_on c s) = s"
proof (induction s)
  case (Cons x s)
  obtain p ps where "split_on c s = p # ps" using split_on_nonempty [of c s] by (cases "split_on c s") auto
  then show ?case using Cons by (cases ps) auto
qed simp

lemma drop_lines:
  "i < length ls \<Longrightarrow> drop (length (concat (map (\<lambda>l. l @ [c]) (take i ls)))) (join_with [c] ls) =
     ls ! i @ (if Suc i < length ls then c # drop (length (concat (map (\<lambda>l. l @ [c]) (take (Suc i) ls)))) (join_with [c] ls) else [])"
proof (induction "[c]" ls arbitrary: i rule: join_with.induct)
  case (3 x y xs)
  show ?case
  proof (cases i)
    case (Suc j)
    then show ?thesis using "3.hyps" [of j] "3.prems" by simp
  qed simp
qed simp_all

lemma drop_line:
  "i < length (split_on newline W) \<Longrightarrow> drop (line_start W i) W =
     out_line W i @ (if Suc i < length (split_on newline W) then newline # drop (line_start W (Suc i)) W else [])"
  using drop_lines [of i "split_on newline W" newline] by (simp add: split_rejoined line_start_def out_line_def)

lemma line_start_Suc: "Suc i < length (split_on newline W) \<Longrightarrow> line_start W (Suc i) = Suc (line_start W i + length (out_line W i))"
  by (simp add: line_start_def out_line_def take_Suc_conv_app_nth)

lemma split_plain_parts: "l \<in> set (split_on c s) \<Longrightarrow> c \<notin> set l"
proof (induction s arbitrary: l)
  case (Cons x s)
  then show ?case by (cases "split_on c s") (auto split: if_splits)
qed simp

lemma out_line_plain: "i < length (split_on newline W) \<Longrightarrow> newline \<notin> set (out_line W i)"
  using split_plain_parts [of "out_line W i" newline W] by (simp add: out_line_def)

lemma line_start_le: "i < length (split_on newline W) \<Longrightarrow> line_start W i \<le> length W"
proof -
  have "length (concat (map (\<lambda>l. l @ [c]) (take i ls))) \<le> length (join_with [c] ls)" if "i < length ls" for i ls and c :: char
    using that
  proof (induction "[c]" ls arbitrary: i rule: join_with.induct)
    case (3 x y xs)
    then show ?case by (cases i) auto
  qed simp_all
  from this [of i "split_on newline W" newline] show "i < length (split_on newline W) \<Longrightarrow> line_start W i \<le> length W"
    by (simp add: line_start_def split_rejoined)
qed

lemma line_lengths:
  "i < length (split_on newline W) \<Longrightarrow> length W - line_start W i =
     length (out_line W i) + (if Suc i < length (split_on newline W) then Suc (length W - line_start W (Suc i)) else 0)"
  using arg_cong [OF drop_line [of i W], of length] by (simp split: if_splits)

lemma last_line_end: "in_line W p i \<Longrightarrow> Suc i = length (split_on newline W) \<Longrightarrow> length W = line_start W i + length (out_line W i)"
  using line_start_le [of i W] line_lengths [of i W] by (simp add: in_line_def)

text \<open>The rest of the file from a position.\<close>

lemma drop_in_line:
  assumes "in_line W p i"
  shows "drop p W = drop (p - line_start W i) (out_line W i) @ (if Suc i < length (split_on newline W) then newline # drop (line_start W (Suc i)) W else [])"
proof -
  have "drop p W = drop (p - line_start W i) (drop (line_start W i) W)" using assms by (simp add: in_line_def)
  then show ?thesis using assms drop_line [of i W] by (simp only: in_line_def drop_append) simp
qed

lemma in_line_full: "m \<le> length W \<Longrightarrow> in_line W m (full_lines (take m W))"
proof (induction m)
  case 0
  then show ?case by (simp add: in_line_def line_start_def full_lines_def)
next
  case (Suc m)
  let ?i = "full_lines (take m W)"
  have i: "in_line W m ?i" using Suc by simp
  have W: "drop m W = W ! m # drop (Suc m) W" using Suc.prems by (simp add: Cons_nth_drop_Suc)
  have t: "full_lines (take (Suc m) W) = ?i + (if W ! m = newline then 1 else 0)" using Suc.prems by (simp add: take_Suc_conv_app_nth full_lines_def)
  show ?case
  proof (cases "m < line_start W ?i + length (out_line W ?i)")
    case True
    then have "m - line_start W ?i < length (out_line W ?i)" using i by (auto simp: in_line_def)
    then have "drop (m - line_start W ?i) (out_line W ?i) \<noteq> []" by simp
    then have "W ! m = hd (drop (m - line_start W ?i) (out_line W ?i))" using drop_in_line [OF i] W by (metis hd_append2 list.sel(1))
    also have "\<dots> \<in> set (out_line W ?i)" using \<open>drop (m - line_start W ?i) (out_line W ?i) \<noteq> []\<close> by (meson hd_in_set in_set_dropD)
    finally have "W ! m \<noteq> newline" using out_line_plain [of ?i W] i by (auto simp: in_line_def)
    then show ?thesis using True i t by (simp add: in_line_def)
  next
    case False
    then have m: "m = line_start W ?i + length (out_line W ?i)" using i by (simp add: in_line_def)
    then have n: "Suc ?i < length (split_on newline W)" using last_line_end [OF i] Suc.prems i by (force simp: in_line_def)
    then have "W ! m = newline" using drop_in_line [OF i] W m by simp
    then show ?thesis using n m t by (simp add: in_line_def line_start_Suc)
  qed
qed

lemma in_line_unique:
  assumes "in_line W m i" "m \<le> length W" shows "full_lines (take m W) = i"
proof -
  have mono: "line_start W j + length (out_line W j) < line_start W k" if "j < k" "k < length (split_on newline W)" for j k
    using that
  proof (induction k)
    case (Suc k)
    then show ?case using line_start_Suc [of k W] by (cases "j = k") auto
  qed simp
  let ?j = "full_lines (take m W)"
  have j: "in_line W m ?j" using in_line_full [OF assms(2)] .
  show ?thesis using mono [of ?j i] mono [of i ?j] assms(1) j by (cases ?j i rule: linorder_cases) (auto simp: in_line_def)
qed

lemma ends_within_iff:
  assumes "in_line W m i" "m \<le> length W" "m \<noteq> line_start W i" shows "ends_within i (take m W)"
proof -
  have m: "line_start W i < m" using assms by (simp add: in_line_def)
  have lt: "m - 1 - line_start W i < length (out_line W i)" using m assms(1) unfolding in_line_def by arith
  have "last (take m W) = W ! (m - 1)" using m assms(2) by (subst last_conv_nth) auto
  also have "\<dots> = drop (line_start W i) W ! (m - 1 - line_start W i)" using m assms(2) by simp
  also have "\<dots> = out_line W i ! (m - 1 - line_start W i)" using drop_line [of i W] assms(1) lt by (simp add: in_line_def nth_append)
  also have "\<dots> \<in> set (out_line W i)" using lt by (rule nth_mem)
  finally have "last (take m W) \<noteq> newline" using out_line_plain [of i W] assms(1) by (auto simp: in_line_def)
  moreover have "take m W \<noteq> []" using m assms(2) by auto
  ultimately show ?thesis using in_line_unique [OF assms(1,2)] by (simp add: ends_within_def)
qed

lemma start_not_within:
  assumes "i < length (split_on newline W)" shows "\<not> ends_within k (take (line_start W i) W)"
proof (cases i)
  case 0
  then show ?thesis by (simp add: line_start_def ends_within_def)
next
  case (Suc j)
  let ?q = "line_start W j + length (out_line W j)"
  have n: "Suc j < length (split_on newline W)" using assms Suc by simp
  have p: "line_start W i = Suc ?q" using line_start_Suc [OF n] Suc by simp
  have q: "?q < length W" using line_start_le [OF assms] p by simp
  have "drop ?q W = newline # drop (line_start W i) W" using drop_in_line [of W ?q j] n Suc by (simp add: in_line_def)
  then have "W ! ?q = newline" using q by (metis hd_drop_conv_nth list.sel(1))
  then show ?thesis unfolding p take_Suc_conv_app_nth [OF q] by (simp add: ends_within_def)
qed

lemma take_while_plain: "c \<notin> set xs \<Longrightarrow> length (takeWhile (\<lambda>x. x \<noteq> c) (xs @ c # ys)) = length xs"
  by (subst takeWhile_append2) auto

text \<open>A read within line \<open>i\<close>: the rest of the line, or what there is of it.\<close>

lemma read_in_line:
  assumes "in_line W p i" "p \<le> m" "m \<le> length W"
  shows "(if line_start W i + length (out_line W i) < m
     then Suc i < length (split_on newline W) \<and> ReadString (take m W) p = (drop (p - line_start W i) (out_line W i) @ [newline], line_start W (Suc i))
     else in_line W m i \<and> snd (ReadString (take m W) p) = m \<and> \<not> complete_line (fst (ReadString (take m W) p)))"
proof -
  let ?d = "drop (p - line_start W i) (out_line W i)"
  have ls: "i < length (split_on newline W)" using assms(1) by (simp add: in_line_def)
  have plain: "newline \<notin> set ?d" using out_line_plain [OF ls] by (auto dest: in_set_dropD)
  have len: "length ?d = line_start W i + length (out_line W i) - p" using assms(1) by (simp add: in_line_def)
  have rest: "drop p (take m W) = take (m - p) (drop p W)" by (simp add: drop_take)
  show ?thesis
  proof (cases "line_start W i + length (out_line W i) < m")
    case True
    then have n: "Suc i < length (split_on newline W)" using last_line_end [OF assms(1)] assms(3) ls by force
    obtain k where k: "m - p = Suc (length ?d + k)" using that [of "m - p - Suc (length ?d)"] True len assms(1) unfolding in_line_def by arith
    have r: "drop p (take m W) = ?d @ newline # take k (drop (line_start W (Suc i)) W)"
      unfolding rest drop_in_line [OF assms(1)] k using n by simp
    have "p + Suc (length ?d) = line_start W (Suc i)" using len line_start_Suc [OF n] assms(1) by (simp add: in_line_def)
    then show ?thesis using True n unfolding ReadString_def Let_def r take_while_plain [OF plain] by simp
  next
    case False
    have "take (m - p) (drop p W) = take (m - p) ?d" unfolding drop_in_line [OF assms(1)] using False len by simp
    then have r: "drop p (take m W) = take (m - p) ?d" using rest by simp
    have no: "newline \<notin> set (take (m - p) ?d)" using plain by (auto dest: in_set_takeD)
    then have w: "takeWhile (\<lambda>x. x \<noteq> newline) (take (m - p) ?d) = take (m - p) ?d" by (auto simp: takeWhile_eq_all_conv)
    have "length (drop p (take m W)) = m - p" using assms(3) by simp
    then have "p + length (drop p (take m W)) = m" using assms(2) by simp
    moreover have "\<not> complete_line (take (m - p) ?d)" using no by (metis complete_line_def last_in_set)
    moreover have "in_line W m i" using assms(1,2) False by (simp add: in_line_def)
    ultimately show ?thesis using False unfolding ReadString_def Let_def r w by simp
  qed
qed

lemma trim_line: "newline \<notin> set l \<Longrightarrow> trim_right {newline} (l @ [newline]) = l"
  by (cases l rule: rev_cases) (auto simp: trim_right_def)

lemma complete_line_iff [simp]: "complete_line (l @ [newline])" "\<not> complete_line []"
  by (simp_all add: complete_line_def)

text \<open>Skipping ends at the beginning of a line, or at the end of what the file held.\<close>

lemma skip_in_line:
  assumes "in_line W p n" "p \<le> m" "m \<le> length W" "p = line_start W n \<or> p = m"
  shows "\<exists>p'. skip_lines k (take m W) p n = (p', min (n + k) (full_lines (take m W))) \<and> in_line W p' (min (n + k) (full_lines (take m W))) \<and> p' \<le> m \<and>
     (p' = line_start W (min (n + k) (full_lines (take m W))) \<or> p' = m)"
  using assms
proof (induction k arbitrary: p n)
  case 0
  have "n \<le> full_lines (take m W)"
    using in_line_unique [OF 0(1)] 0(2,3) by (metis full_lines_def length_append filter_append le_add1 le_add_diff_inverse order_trans take_add)
  then show ?case using 0 by (simp add: min_absorb1)
next
  case (Suc k)
  note r = read_in_line [OF Suc.prems(1-3)]
  show ?case
  proof (cases "line_start W n + length (out_line W n) < m")
    case True
    then have n: "Suc n < length (split_on newline W)" and rd: "ReadString (take m W) p = (drop (p - line_start W n) (out_line W n) @ [newline], line_start W (Suc n))"
      using r by simp_all
    have "in_line W (line_start W (Suc n)) (Suc n)" "line_start W (Suc n) \<le> m" using n True line_start_Suc [OF n] by (simp_all add: in_line_def)
    from Suc.IH [OF this Suc.prems(3)] show ?thesis using rd by simp
  next
    case False
    then have "in_line W m n" "snd (ReadString (take m W) p) = m" "\<not> complete_line (fst (ReadString (take m W) p))" using r by simp_all
    moreover from this have "full_lines (take m W) = n" using in_line_unique Suc.prems(3) by blast
    ultimately show ?thesis by (simp add: split_beta)
  qed
qed


text \<open>The lines that are sent are numbered from where the reader is. A line is sent without its beginning only if some look ended within it,
  or the reader began within it.\<close>

definition sent :: "(nat \<Rightarrow> string) \<Rightarrow> nat \<Rightarrow> nat \<Rightarrow> stream_line list" where
  "sent ts n e = map (\<lambda>i. (Suc i, ts i)) [n..<e]"

definition torn_by :: "string \<Rightarrow> (nat \<Rightarrow> string) \<Rightarrow> string set \<Rightarrow> bool" where
  "torn_by W ts cs \<longleftrightarrow> (\<forall>i. suffix (ts i) (out_line W i) \<and> (ts i \<noteq> out_line W i \<longrightarrow> (\<exists>c \<in> cs. ends_within i c)))"

lemma torn_by_mono: "torn_by W ts cs \<Longrightarrow> cs \<subseteq> cs' \<Longrightarrow> torn_by W ts cs'"
  unfolding torn_by_def by blast

lemma follow_lines:
  assumes "in_line W p n" "p \<le> length W" "grows W p looks" "followFile looks p n = (evs, r)" "p = line_start W n \<or> ends_within n (take p W)"
  shows "\<exists>e ts. n \<le> e \<and> e < length (split_on newline W) \<and> evs = sent ts n e \<and> torn_by W ts (insert (take p W) (lk_content ` set looks)) \<and>
    (r = Drained \<longrightarrow> (\<exists>k \<in> set looks. lk_exited k \<and> full_lines (lk_content k) = e))"
  using assms
proof (induction looks arbitrary: p n evs r)
  case (Cons k ks)
  obtain m where m: "p \<le> m" "m \<le> length W" "lk_content k = take m W" "grows W m ks" using Cons.prems(3) by auto
  note rd = read_in_line [OF Cons.prems(1) m(1,2)]
  have n: "n < length (split_on newline W)" using Cons.prems(1) by (simp add: in_line_def)
  have none: "\<exists>e ts. n \<le> e \<and> e < length (split_on newline W) \<and> [] = sent ts n e \<and> torn_by W ts (insert (take p W) (lk_content ` set (k # ks))) \<and> e = n"
    using n by (intro exI [of _ n] exI [of _ "out_line W"]) (simp add: sent_def torn_by_def)
  show ?case
  proof (cases "line_start W n + length (out_line W n) < m")
    case True
    let ?d = "drop (p - line_start W n) (out_line W n)"
    have s: "Suc n < length (split_on newline W)" and r: "ReadString (lk_content k) p = (?d @ [newline], line_start W (Suc n))" using rd True m(3) by simp_all
    have t: "trim_right {newline} (?d @ [newline]) = ?d" using out_line_plain [OF n] by (intro trim_line) (auto dest: in_set_dropD)
    have tear: "suffix ?d (out_line W n)" "?d \<noteq> out_line W n \<Longrightarrow> ends_within n (take p W)" using Cons.prems(5) by (auto simp: suffix_drop)
    show ?thesis
    proof (cases "lk_writable k")
      case False
      then have "evs = []" "r = NotWritable" using Cons.prems(4) r by simp_all
      then show ?thesis using none by auto
    next
      case w: True
      obtain evs' r' where f: "followFile ks (line_start W (Suc n)) (Suc n) = (evs', r')" by (rule prod.exhaust)
      have evs: "evs = (Suc n, ?d) # evs'" "r = r'" using Cons.prems(4) w by (simp_all add: r f t)
      have at: "in_line W (line_start W (Suc n)) (Suc n)" "line_start W (Suc n) \<le> m" using s True line_start_Suc [OF s] by (simp_all add: in_line_def)
      have g: "grows W (line_start W (Suc n)) ks" using grows_mono [OF m(4) at(2)] .
      obtain e ts where e: "Suc n \<le> e" "e < length (split_on newline W)" "evs' = sent ts (Suc n) e"
        "torn_by W ts (insert (take (line_start W (Suc n)) W) (lk_content ` set ks))" "r' = Drained \<longrightarrow> (\<exists>k \<in> set ks. lk_exited k \<and> full_lines (lk_content k) = e)"
        using Cons.IH [OF at(1) order_trans [OF at(2) m(2)] g f disjI1 [OF refl]] by blast
      let ?ts = "ts(n := ?d)"
      have "torn_by W ?ts (insert (take p W) (lk_content ` set (k # ks)))" using e(4) tear start_not_within [OF s] by (auto simp: torn_by_def)
      moreover have "evs = sent ?ts n e" using e(1) evs(1) e(3) by (auto simp: sent_def upt_conv_Cons)
      moreover have "r = Drained \<longrightarrow> (\<exists>x \<in> set (k # ks). lk_exited x \<and> full_lines (lk_content x) = e)" using e(5) evs(2) by auto
      ultimately show ?thesis using Suc_leD [OF e(1)] e(2) by blast
    qed
  next
    case False
    then have at: "in_line W m n" and r: "snd (ReadString (lk_content k) p) = m" "\<not> complete_line (fst (ReadString (lk_content k) p))" using rd m(3) by simp_all
    have fl: "full_lines (lk_content k) = n" using in_line_unique [OF at m(2)] m(3) by simp
    consider "lk_exited k" | "\<not> lk_exited k" "lk_cancelled k" | "\<not> lk_exited k" "\<not> lk_cancelled k" by blast
    then show ?thesis
    proof cases
      case 3
      have "m = line_start W n \<or> ends_within n (take m W)" using ends_within_iff [OF at m(2)] by blast
      moreover have "followFile ks m n = (evs, r)" using Cons.prems(4) r 3 by (simp add: split_beta)
      ultimately obtain e ts where "n \<le> e" "e < length (split_on newline W)" "evs = sent ts n e" "torn_by W ts (insert (take m W) (lk_content ` set ks))"
        "r = Drained \<longrightarrow> (\<exists>k \<in> set ks. lk_exited k \<and> full_lines (lk_content k) = e)" using Cons.IH [OF at m(2,4)] by blast
      then show ?thesis using m(3) torn_by_mono [of W ts "insert (take m W) (lk_content ` set ks)" "insert (take p W) (lk_content ` set (k # ks))"]
        by (intro exI [of _ e] exI [of _ ts]) auto
    qed (use Cons.prems(4) r none fl in \<open>auto simp: split_beta\<close>)
  qed
next
  case Nil
  then show ?case by (intro exI [of _ n] exI [of _ "out_line W"]) (auto simp: sent_def torn_by_def in_line_def)
qed

section \<open>The stream\<close>

lemma digits_plain: "newline \<notin> set (itoa n)"
proof -
  have d: "digit_char d \<noteq> newline" if "d < 10" for d
    using digit_char_code [OF that] by (auto simp: newline_def)
  have "newline \<notin> set (nat_digits k)" for k
  proof (induction k rule: nat_digits.induct)
    case (1 k)
    then show ?case using d [of k] d [of "k mod 10"] by (subst nat_digits.simps) auto
  qed
  then show ?thesis by (simp add: itoa_def newline_def)
qed

lemma json_string_plain: "newline \<notin> set (json_string s)"
  using json_body_code [of newline s] by (auto simp: json_string_def newline_def)

lemma payload_plain: "newline \<notin> set (stream_payload ev)"
  using json_string_plain digits_plain by (cases ev) (simp add: stream_payload_def, simp add: newline_def)

lemma payload_ends: "\<exists>s. stream_payload ev = CHR ''{'' # s @ [CHR ''}'']"
  by (cases ev) (simp add: stream_payload_def)

lemma split_plain: "newline \<notin> set l \<Longrightarrow> split_on newline (l @ newline # t) = l # split_on newline t"
proof -
  assume "newline \<notin> set l"
  then have "split_on newline l = [l]" by (induction l) auto
  then show ?thesis by (simp add: split_on_append)
qed

definition data_line :: "stream_line \<Rightarrow> string" where
  "data_line ev = ''data: '' @ stream_payload ev"

lemma body_of_events: "body_lines (concat (map sse_event evs)) = concat (map (\<lambda>ev. [data_line ev, []]) evs)"
proof -
  have "split_on newline (concat (map sse_event evs)) = concat (map (\<lambda>ev. [data_line ev, []]) evs) @ [[]]"
  proof (induction evs)
    case (Cons ev evs)
    have "newline \<notin> set (data_line ev)" using payload_plain by (auto simp: data_line_def newline_def)
    note split = split_plain [OF this, of "newline # concat (map sse_event evs)"]
    have "concat (map sse_event (ev # evs)) = data_line ev @ newline # newline # concat (map sse_event evs)"
      by (simp add: sse_event_def data_line_def)
    with split Cons show ?case by simp
  qed simp
  then show ?thesis by (simp add: body_lines_def Let_def)
qed

lemma data_line_parts:
  "trim_right {newline, CHR 0x0D} (data_line ev) = data_line ev" "data_line ev \<noteq> []"
  "trim_space (trim_prefix (data_line ev) ''data:'') = stream_payload ev"
  "has_prefix (data_line ev) ''data:''" "\<not> has_prefix (data_line ev) '':''" "\<not> has_prefix (data_line ev) ''event:''"
proof -
  obtain s where s: "stream_payload ev = CHR ''{'' # s @ [CHR ''}'']" using payload_ends by blast
  show "trim_right {newline, CHR 0x0D} (data_line ev) = data_line ev" by (simp add: data_line_def s trim_right_def newline_def)
  have "trim_prefix (data_line ev) ''data:'' = CHR '' '' # stream_payload ev"
    using trim_prefix_append [of "''data:''" "CHR '' '' # stream_payload ev"] by (simp add: data_line_def)
  moreover have "trim_space (CHR '' '' # stream_payload ev) = trim_space (stream_payload ev)"
    by (simp add: trim_space_def is_space_def s)
  moreover have "trim_space (stream_payload ev) = stream_payload ev"
    by (rule trim_space_id) (simp_all add: s is_space_def)
  ultimately show "trim_space (trim_prefix (data_line ev) ''data:'') = stream_payload ev" by simp
qed (simp_all add: data_line_def has_prefix_def)

text \<open>The client is called with what it decodes of what the supervisor has written, up to the first event it is refused.\<close>

lemma sse_events:
  assumes "\<forall>ev \<in> set evs. decode (stream_payload ev) = Some (g ev) \<and> cb (g ev) = None"
  shows "client_StreamEvents decode cb 200 (concat (map sse_event evs)) = (map g evs, ClientClosed)"
proof -
  have "sse_lines decode cb (concat (map (\<lambda>ev. [data_line ev, []]) evs)) [] [] = (map g evs, ClientClosed)"
    using assms
  proof (induction evs)
    case (Cons ev evs)
    have "stream_payload ev \<noteq> []" using payload_ends [of ev] by auto
    moreover have "trim_right {newline, CHR 0x0D} [] = []" by (simp add: trim_right_def)
    ultimately show ?case using Cons data_line_parts [of ev] by simp
  qed simp
  then show ?thesis by (simp add: client_StreamEvents_def body_of_events)
qed


section \<open>Properties\<close>

lemma stream_lines:
  assumes "m \<le> length W" "grows W m looks" "StreamEvents_sv from (take m W) looks = (evs, r)"
  defines "s \<equiv> min from (full_lines (take m W))"
  shows "\<exists>e ts. s \<le> e \<and> e < length (split_on newline W) \<and> evs = sent ts s e \<and> torn_by W ts (insert (take m W) (lk_content ` set looks)) \<and>
    (r = Drained \<longrightarrow> (\<exists>k \<in> set looks. lk_exited k \<and> full_lines (lk_content k) = e))"
proof -
  have z: "in_line W 0 0" "line_start W 0 = 0" by (simp_all add: in_line_def line_start_def)
  obtain p where p: "skip_lines from (take m W) 0 0 = (p, s)" "in_line W p s" "p \<le> m" "p = line_start W s \<or> p = m"
    using skip_in_line [OF z(1) _ assms(1), of "from"] z(2) by (auto simp: s_def)
  have f: "followFile looks p s = (evs, r)" using assms(3) p(1) by (simp add: StreamEvents_sv_def)
  have pl: "p \<le> length W" using p(3) assms(1) by simp
  have at: "p = line_start W s \<or> ends_within s (take p W)" using ends_within_iff [OF p(2) pl] by blast
  obtain e ts where e: "s \<le> e" "e < length (split_on newline W)" "evs = sent ts s e" "torn_by W ts (insert (take p W) (lk_content ` set looks))"
    "r = Drained \<longrightarrow> (\<exists>k \<in> set looks. lk_exited k \<and> full_lines (lk_content k) = e)"
    using follow_lines [OF p(2) pl grows_mono [OF assms(2) p(3)] f at] by blast
  have "torn_by W ts (insert (take m W) (lk_content ` set looks))"
  proof (cases "p = m")
    case False
    then have "p = line_start W s" using p(4) by simp
    then have "\<not> ends_within i (take p W)" for i using start_not_within [of s W i] p(2) by (simp add: in_line_def)
    then show ?thesis using e(4) by (auto simp: torn_by_def)
  qed (use e(4) in simp)
  then show ?thesis using e by blast
qed

lemma stream_client:
  assumes "int (length W) \<le> max_int64" "m \<le> length W" "grows W m looks"
    and "StreamEvents_sv from (take m W) looks = (evs, r)" "\<forall>ev. cb ev = None"
  shows "\<exists>e ts. min from (full_lines (take m W)) \<le> e \<and> e < length (split_on newline W) \<and>
    client_StreamEvents decode_event cb 200 (concat (map sse_event evs)) = (sent (valid_text \<circ> ts) (min from (full_lines (take m W))) e, ClientClosed) \<and>
    torn_by W ts (insert (take m W) (lk_content ` set looks)) \<and>
    (r = Drained \<longrightarrow> (\<exists>k \<in> set looks. lk_exited k \<and> full_lines (lk_content k) = e))"
proof -
  let ?s = "min from (full_lines (take m W))"
  obtain e ts where e: "?s \<le> e" "e < length (split_on newline W)" "evs = sent ts ?s e" "torn_by W ts (insert (take m W) (lk_content ` set looks))"
    "r = Drained \<longrightarrow> (\<exists>k \<in> set looks. lk_exited k \<and> full_lines (lk_content k) = e)" using stream_lines [OF assms(2-4)] by blast
  have "length (split_on c x) \<le> Suc (length x)" for c x by (induction x) (auto split: list.splits)
  then have len: "e \<le> length W" using e(2) by (metis Suc_leI Suc_le_mono order_trans)
  have "decode_event (stream_payload ev) = Some (apsnd valid_text ev)" if "ev \<in> set evs" for ev
  proof -
    from that obtain n l where "ev = (n, l)" "n \<le> e" unfolding e(3) sent_def by fastforce
    then show ?thesis using decode_payload [of n l] assms(1) len by simp
  qed
  then have "client_StreamEvents decode_event cb 200 (concat (map sse_event evs)) = (map (apsnd valid_text) evs, ClientClosed)"
    using assms(5) by (intro sse_events) blast
  moreover have "map (apsnd valid_text) evs = sent (valid_text \<circ> ts) ?s e" by (simp add: e(3) sent_def)
  ultimately have "client_StreamEvents decode_event cb 200 (concat (map sse_event evs)) = (sent (valid_text \<circ> ts) ?s e, ClientClosed)" by simp
  then show ?thesis using e(1,2,4,5) by blast
qed

text \<open>C30. Lines arrive once, in order and with their numbers: whatever the supervisor sees of the growing file of an agent at each
  look, whole lines or not, the client is called with one line for every line of the output from the one after the offset it
  asked for, or from where the file ended then if that was earlier, without gap or repetition; and when the supervisor ends the
  stream, up to the last complete line the file had at the look at which the agent was seen to have ended. Each is the line of that
  number with stray bytes replaced by the JSON encoder, or an ending of it: its beginning is lost only if the file was read at a moment
  when it ended within this line.\<close>

theorem stream_delivers:
  assumes "int (length W) \<le> max_int64" "m \<le> length W" "grows W m looks"
    and "StreamEvents_sv from (take m W) looks = (evs, r)" "\<forall>ev. cb ev = None"
  shows "\<exists>e ts. min from (full_lines (take m W)) \<le> e \<and> e < length (split_on newline W) \<and>
    client_StreamEvents decode_event cb 200 (concat (map sse_event evs)) =
      (map (\<lambda>i. (Suc i, valid_text (ts i))) [min from (full_lines (take m W))..<e], ClientClosed) \<and>
    (\<forall>i. suffix (ts i) (out_line W i) \<and> (ts i \<noteq> out_line W i \<longrightarrow> (\<exists>c \<in> insert (take m W) (lk_content ` set looks). ends_within i c))) \<and>
    (r = Drained \<longrightarrow> (\<exists>k \<in> set looks. lk_exited k \<and> full_lines (lk_content k) = e))"
  using stream_client [OF assms] by (simp only: sent_def torn_by_def comp_def)

text \<open>The stream of the supervisor is what a resuming worker relies on.\<close>

lemma sent_faithful:
  assumes "n \<le> from" "e \<le> length ls" "\<forall>i. from0 \<le> i \<and> i < e \<longrightarrow> ls ! i = ts i" "from0 \<le> from"
  shows "faithful_stream ls (int from) (map (\<lambda>(i, l). (int i, l, False)) (sent ts n e))"
  using assms
proof (induction "e - n" arbitrary: n "from")
  case 0
  then show ?case by (simp add: sent_def)
next
  case (Suc k)
  then have "n < e" by simp
  then have cons: "sent ts n e = (Suc n, ts n) # sent ts (Suc n) e" by (simp add: sent_def upt_conv_Cons)
  have "faithful_stream ls (int (max from (Suc n))) (map (\<lambda>(i, l). (int i, l, False)) (sent ts (Suc n) e))"
    using Suc \<open>n < e\<close> by (intro Suc.hyps(1)) auto
  then show ?case using Suc.prems \<open>n < e\<close> unfolding cons by (auto simp: of_nat_max max.commute)
qed

text \<open>C33. A resumed worker appends exactly the lines that follow those it has: when its file has \<open>n\<close> lines, not more than the agent has written,
  then, with the lines it gets from the supervisor over the stream, which it asks for from the end of its file, whatever the
  supervisor sees of the file at each look, the file has the old lines followed by one line for each of the lines \<open>n\<close> to \<open>k - 1\<close> of
  the output, without gap or repetition. Each is that line with stray bytes replaced by the JSON encoder, or an ending of it if
  the supervisor read its file at a moment when it ended within the line.\<close>

theorem resume_through_stream:
  assumes "int (length W) \<le> max_int64" "m \<le> length W" "grows W m looks" "StreamEvents_sv n (take m W) looks = (evs, r)"
    and "ef_lines f = Some old" "length old = n" "n < length (split_on newline W)" "fl_EventsV1Path t \<noteq> []"
    and "su_stream sv = map (\<lambda>(i, l). (int i, l, False)) (fst (client_StreamEvents decode_event (\<lambda>_. None) 200 (concat (map sse_event evs))))"
    and "resumeOne sv t f = (f', res)"
  shows "\<exists>k ts. n \<le> k \<and> k < length (split_on newline W) \<and> ef_lines f' = Some (old @ map (\<lambda>i. valid_text (ts i)) [n..<k]) \<and>
    (\<forall>i. suffix (ts i) (out_line W i) \<and> (ts i \<noteq> out_line W i \<longrightarrow> (\<exists>c \<in> insert (take m W) (lk_content ` set looks). ends_within i c)))"
proof -
  let ?s = "min n (full_lines (take m W))"
  obtain e ts where e: "?s \<le> e" "e < length (split_on newline W)" "torn_by W ts (insert (take m W) (lk_content ` set looks))"
    "client_StreamEvents decode_event (\<lambda>_. None) 200 (concat (map sse_event evs)) = (sent (valid_text \<circ> ts) ?s e, ClientClosed)"
    using stream_client [OF assms(1-4), of "\<lambda>_. None"] by blast
  define ls where "ls = old @ map (\<lambda>i. valid_text (ts i)) [n..<max n e]"
  have len: "length ls = max n e" "take n ls = old" using assms(6) by (simp_all add: ls_def)
  have "ls ! i = valid_text (ts i)" if "n \<le> i" "i < e" for i using that assms(6) nth_upt [of n "i - n" "max n e"] by (simp add: ls_def nth_append)
  then have "faithful_stream ls (int n) (su_stream sv)" using sent_faithful [of ?s n e ls n "valid_text \<circ> ts"] len(1) assms(9) e(4) by simp
  from resume_file [OF _ _ assms(8) this assms(10)] assms(5) len obtain k where k: "n \<le> k" "k \<le> max n e" "ef_lines f' = Some (take k ls)" by auto
  have "take k ls = old @ map (\<lambda>i. valid_text (ts i)) [n..<k]" using k(1,2) assms(6) by (simp add: ls_def take_map take_upt)
  moreover have "k < length (split_on newline W)" using k(2) e(2) assms(7) by simp
  ultimately show ?thesis using k e(3) unfolding torn_by_def by (intro exI [of _ k] exI [of _ ts]) simp
qed

text \<open>A line that is read before it is complete is torn: the part that was there is dropped, and the
  rest arrives as if it were the line, under its number; and what an agent writes after the last look
  and before its end is noticed is never sent.\<close>

theorem stream_tears_lines:
  assumes "newline \<notin> set part" "newline \<notin> set rest" "part \<noteq> []"
  shows "StreamEvents_sv 0 [] [\<lparr>lk_content = part, lk_exited = False, lk_cancelled = False, lk_writable = True\<rparr>,
      \<lparr>lk_content = (part @ rest @ [newline]), lk_exited = True, lk_cancelled = False, lk_writable = True\<rparr>,
      \<lparr>lk_content = (part @ rest @ [newline]), lk_exited = True, lk_cancelled = False, lk_writable = True\<rparr>] = ([(1, rest)], Drained) \<and>
    StreamEvents_sv 0 [] [\<lparr>lk_content = [], lk_exited = True, lk_cancelled = False, lk_writable = True\<rparr>] = ([], Drained)"
proof -
  let ?c = "(part @ rest @ [newline])"
  have w: "takeWhile (\<lambda>x. x \<noteq> newline) part = part" using assms(1) by (auto simp: takeWhile_eq_all_conv)
  have w2: "length (takeWhile (\<lambda>x. x \<noteq> newline) (rest @ [newline])) = length rest" using assms(2) by (subst takeWhile_append2) auto
  have first: "ReadString part 0 = (part, length part)" by (simp add: ReadString_def w)
  have d: "drop (length part) ?c = rest @ [newline]" by simp
  have second: "ReadString ?c (length part) = (rest @ [newline], Suc (length part + length rest))"
    unfolding ReadString_def Let_def d w2 by simp
  have third: "ReadString ?c (Suc (length part + length rest)) = ([], Suc (length part + length rest))" by (simp add: ReadString_def)
  have "\<not> complete_line part" using assms(1,3) by (metis complete_line_def last_in_set)
  moreover have "ReadString [] 0 = ([], 0)" by (simp add: ReadString_def)
  ultimately show ?thesis using trim_line [OF assms(2)]
    by (simp add: StreamEvents_sv_def first second third)
qed

definition demo_out :: string where
  "demo_out = ''one'' @ [newline] @ ''two'' @ [newline] @ ''three'' @ [newline]"

definition look_at :: "nat \<Rightarrow> bool \<Rightarrow> look" where
  "look_at m exited = \<lparr>lk_content = take m demo_out, lk_exited = exited, lk_cancelled = False, lk_writable = True\<rparr>"

text \<open>The third look ends within the last line, which loses its first two characters.\<close>

definition demo_looks :: "look list" where
  "demo_looks = [look_at 8 False, look_at 8 False, look_at 10 False, look_at 14 True, look_at 14 True]"

lemma demo_run:
  "int (length demo_out) \<le> max_int64" "4 \<le> length demo_out" "grows demo_out 4 demo_looks"
  "StreamEvents_sv 1 (take 4 demo_out) demo_looks = ([(2, ''two''), (3, ''ree'')], Drained)"
proof -
  have g: "grows demo_out p (look_at m x # ks) \<longleftrightarrow> (\<exists>k. p \<le> k \<and> k \<le> length demo_out \<and> take m demo_out = take k demo_out \<and> grows demo_out k ks)" for p m x ks
    by (simp add: look_at_def)
  have l: "length demo_out = 14" by (simp add: demo_out_def)
  show "grows demo_out 4 demo_looks"
    unfolding demo_looks_def g l
    by (rule exI [of _ 8], simp, rule exI [of _ 8], simp, rule exI [of _ 10], simp, rule exI [of _ 14], simp, rule exI [of _ 14], simp)
  show "StreamEvents_sv 1 (take 4 demo_out) demo_looks = ([(2, ''two''), (3, ''ree'')], Drained)" by code_simp
qed (simp_all add: demo_out_def max_int64_def)

theorem stream_delivers_witness:
  "\<exists>e ts. client_StreamEvents decode_event (\<lambda>_. None) 200 (concat (map sse_event [(2, ''two''), (3, ''ree'')])) =
     (map (\<lambda>i. (Suc i, valid_text (ts i))) [1..<e], ClientClosed) \<and> suffix (ts 2) ''three''"
proof -
  have f: "full_lines (take 4 demo_out) = 1" "out_line demo_out 2 = ''three''" by code_simp+
  show ?thesis using stream_delivers [OF demo_run, of "\<lambda>_. None"] unfolding f(1) min.idem using f(2) by metis
qed

theorem resume_through_stream_witness:
  "let f = \<lparr>ef_lines = Some [''one''], ef_opens = True\<rparr>; t = \<lparr>fl_TaskID = ''t'', fl_SupervisorAgentID = ''g'', fl_EventsV1Path = ''/e''\<rparr>;
       sv = \<lparr>su_status = StatusOK ''running'', su_stream = map (\<lambda>(i, l). (int i, l, False)) (fst (client_StreamEvents decode_event (\<lambda>_. None) 200
         (concat (map sse_event [(2, ''two''), (3, ''ree'')])))), su_end = StreamClosed, su_final = StatusOK ''exited''\<rparr>
   in \<exists>k ts. 1 \<le> k \<and> ef_lines (fst (resumeOne sv t f)) = Some ([''one''] @ map (\<lambda>i. valid_text (ts i)) [1..<k])"
proof -
  let ?f = "\<lparr>ef_lines = Some [''one''], ef_opens = True\<rparr>" and ?t = "\<lparr>fl_TaskID = ''t'', fl_SupervisorAgentID = ''g'', fl_EventsV1Path = ''/e''\<rparr>"
  let ?sv = "\<lparr>su_status = StatusOK ''running'', su_stream = map (\<lambda>(i, l). (int i, l, False)) (fst (client_StreamEvents decode_event (\<lambda>_. None) 200
         (concat (map sse_event [(2, ''two''), (3, ''ree'')])))), su_end = StreamClosed, su_final = StatusOK ''exited''\<rparr>"
  have f: "ef_lines ?f = Some [''one'']" "length [''one''] = 1" "fl_EventsV1Path ?t \<noteq> []" by simp_all
  have n: "1 < length (split_on newline demo_out)" by code_simp
  have sv: "su_stream ?sv = map (\<lambda>(i, l). (int i, l, False)) (fst (client_StreamEvents decode_event (\<lambda>_. None) 200 (concat (map sse_event [(2, ''two''), (3, ''ree'')]))))"
    by simp
  from resume_through_stream [OF demo_run f(1,2) n f(3) sv prod.collapse [symmetric]]
  show ?thesis unfolding Let_def by blast
qed

theorem stream_tears_lines_witness:
  "fst (StreamEvents_sv 0 [] [\<lparr>lk_content = ''ab'', lk_exited = False, lk_cancelled = False, lk_writable = True\<rparr>,
     \<lparr>lk_content = ''abc'' @ [newline], lk_exited = True, lk_cancelled = False, lk_writable = True\<rparr>,
     \<lparr>lk_content = ''abc'' @ [newline], lk_exited = True, lk_cancelled = False, lk_writable = True\<rparr>]) = [(1, ''c'')]"
  using stream_tears_lines [of "''ab''" "''c''"] by (simp add: newline_def)

end
