(* ===== verification/Workspace.thy ===== *)
theory Workspace
  imports Prelude
begin

text \<open>
  The worktrees in which agents work (\<^verbatim>\<open>internal/workspace/workspace.go\<close>): one per issue, or per
  rollout of an issue, shared by the sessions that work on it and removed by the last of them.

  \<^item> Git and the file system are an interface: \<open>git\<close> holds the commands the manager runs and the
    calls it makes, over a state of any type. Nothing is assumed about them where nothing is said.
  \<^item> \<open>gt_abs\<close> is \<^verbatim>\<open>filepath.Abs\<close>; the root of the repository is given as a clean path.
  \<^item> The text that \<^verbatim>\<open>git worktree list --porcelain\<close> prints is taken apart as the code does it.
  \<^item> \<open>Remove\<close> says whether it kept the worktree (\<open>Retained\<close>), where the code answers without an error.
  \<^item> The manager is guarded by one mutex, so its operations do not interleave. What others do to the
    repository in between is any change of the state of git.

  Shown here: the count of references is the number of sessions at work, so that the worktree of a
  session is removed only when no other session uses it; a worktree is found in the listing exactly
  when it is registered there with a branch; and pruning deletes the directory of an issue although
  worktrees of its rollouts are registered inside.
\<close>

section \<open>Git\<close>

record 'g git =
  gt_abs :: "string \<Rightarrow> string"
  gt_fetch :: "'g \<Rightarrow> 'g"
  gt_prune :: "'g \<Rightarrow> 'g \<times> bool"
  gt_stat :: "string \<Rightarrow> 'g \<Rightarrow> bool"
  gt_list :: "'g \<Rightarrow> string option"
  gt_head :: "string \<Rightarrow> 'g \<Rightarrow> string option"
  gt_status :: "string \<Rightarrow> 'g \<Rightarrow> string option"
  gt_checkout :: "string \<Rightarrow> string \<Rightarrow> 'g \<Rightarrow> 'g \<times> bool"
  gt_pull :: "string \<Rightarrow> string \<Rightarrow> 'g \<Rightarrow> 'g \<times> bool"
  gt_verify_main :: "string \<Rightarrow> 'g \<Rightarrow> bool"
  gt_rebase :: "string \<Rightarrow> 'g \<Rightarrow> 'g \<times> bool"
  gt_abort :: "string \<Rightarrow> 'g \<Rightarrow> 'g"
  gt_show_ref :: "string \<Rightarrow> 'g \<Rightarrow> bool"
  gt_mkdir :: "string \<Rightarrow> 'g \<Rightarrow> 'g \<times> bool"
  gt_add :: "string \<Rightarrow> string \<Rightarrow> string option \<Rightarrow> 'g \<Rightarrow> 'g \<times> bool"
  gt_remove :: "string \<Rightarrow> 'g \<Rightarrow> 'g \<times> bool"
  gt_delete_branch :: "string \<Rightarrow> 'g \<Rightarrow> 'g \<times> bool"
  gt_readdir :: "string \<Rightarrow> 'g \<Rightarrow> (string \<times> bool) list option"
  gt_remove_all :: "string \<Rightarrow> 'g \<Rightarrow> 'g"

record 'g Manager =
  mg_baseDir :: string
  mg_refs :: "(string \<times> nat) list"
  mg_state :: 'g

definition worktreeDir :: string where "worktreeDir = ''.workbuddy/worktrees''"

definition NewManager :: "string \<Rightarrow> 'g \<Rightarrow> 'g Manager" where
  "NewManager baseDir g = \<lparr>mg_baseDir = baseDir, mg_refs = [], mg_state = g\<rparr>"

definition path_join :: "string \<Rightarrow> string \<Rightarrow> string" where
  "path_join a b = a @ ''/'' @ b"

definition refKey :: "'g git \<Rightarrow> string \<Rightarrow> string" where
  "refKey git p = gt_abs git p"

section \<open>The listing\<close>

definition wt_prefix :: string where "wt_prefix = ''worktree ''"
definition br_prefix :: string where "br_prefix = ''branch ''"
definition head_prefix :: string where "head_prefix = ''refs/heads/''"

text \<open>One line of the loop: the path of the current entry, and the result once it is found.\<close>

fun findInLines :: "(string \<Rightarrow> string) \<Rightarrow> string \<Rightarrow> string \<Rightarrow> string list \<Rightarrow> string \<Rightarrow> string" where
  "findInLines absp target branch [] cur = []"
| "findInLines absp target branch (line # ls) cur =
     (let cur1 = (if has_prefix line wt_prefix then trim_prefix line wt_prefix else cur);
          local = trim_prefix (trim_prefix line br_prefix) head_prefix
      in if has_prefix line br_prefix \<and> (branch = [] \<or> local = branch) \<and> cur1 \<noteq> [] \<and> (target = [] \<or> absp cur1 = target) then cur1
         else findInLines absp target branch ls (if line = [] then [] else cur1))"

definition findWorktreePathForPathAndBranch :: "'g git \<Rightarrow> string \<Rightarrow> string \<Rightarrow> 'g \<Rightarrow> string" where
  "findWorktreePathForPathAndBranch git wtPath branch g =
     (case gt_list git g of
        None \<Rightarrow> []
      | Some out \<Rightarrow> findInLines (gt_abs git) (if wtPath = [] then [] else gt_abs git wtPath) branch (split_on (CHR 0x0A) out) [])"

definition findWorktreePath :: "'g git \<Rightarrow> string \<Rightarrow> 'g \<Rightarrow> string" where
  "findWorktreePath git branch g = findWorktreePathForPathAndBranch git [] branch g"

definition findWorktreePathForPath :: "'g git \<Rightarrow> string \<Rightarrow> 'g \<Rightarrow> string" where
  "findWorktreePathForPath git wtPath g = findWorktreePathForPathAndBranch git wtPath [] g"

definition isRegisteredWorktree :: "'g git \<Rightarrow> string \<Rightarrow> 'g \<Rightarrow> bool" where
  "isRegisteredWorktree git wtPath g \<longleftrightarrow> findWorktreePathForPath git wtPath g \<noteq> []"

fun branchInLines :: "(string \<Rightarrow> string) \<Rightarrow> string \<Rightarrow> string list \<Rightarrow> bool \<Rightarrow> string" where
  "branchInLines absp target [] found = []"
| "branchInLines absp target (line # ls) found =
     (let found1 = (if has_prefix line wt_prefix then absp (trim_prefix line wt_prefix) = target else found)
      in if found1 \<and> has_prefix line br_prefix then trim_prefix (trim_prefix line br_prefix) head_prefix
         else branchInLines absp target ls (if line = [] then False else found1))"

definition worktreeBranch :: "'g git \<Rightarrow> string \<Rightarrow> 'g \<Rightarrow> string" where
  "worktreeBranch git wtPath g =
     (case gt_list git g of None \<Rightarrow> [] | Some out \<Rightarrow> branchInLines (gt_abs git) (gt_abs git wtPath) (split_on (CHR 0x0A) out) False)"

definition listWorktreePaths :: "'g git \<Rightarrow> 'g \<Rightarrow> string list option" where
  "listWorktreePaths git g =
     map_option (\<lambda>out. map (\<lambda>line. gt_abs git (trim_prefix line wt_prefix)) (filter (\<lambda>line. has_prefix line wt_prefix) (split_on (CHR 0x0A) out)))
       (gt_list git g)"

section \<open>Creating\<close>

definition localBranchExists :: "'g git \<Rightarrow> string \<Rightarrow> 'g \<Rightarrow> bool" where
  "localBranchExists git branch g = gt_show_ref git (head_prefix @ branch) g"

definition remoteBranchExists :: "'g git \<Rightarrow> string \<Rightarrow> 'g \<Rightarrow> bool" where
  "remoteBranchExists git branch g = gt_show_ref git (''refs/remotes/origin/'' @ branch) g"

definition gitCurrentBranch :: "'g git \<Rightarrow> string \<Rightarrow> 'g \<Rightarrow> string option" where
  "gitCurrentBranch git p g = map_option trim_space (gt_head git p g)"

definition gitIsClean :: "'g git \<Rightarrow> string \<Rightarrow> 'g \<Rightarrow> bool" where
  "gitIsClean git p g = (case gt_status git p g of None \<Rightarrow> False | Some out \<Rightarrow> trim_space out = [])"

datatype create_error = PruneFailed | NotRegistered string | NotValid string | WrongBranch string string | NotClean string
  | CheckoutFailed | PullFailed | MkdirFailed | AddFailed

definition syncExistingWorktree :: "'g git \<Rightarrow> string \<Rightarrow> string \<Rightarrow> 'g \<Rightarrow> 'g \<times> create_error option" where
  "syncExistingWorktree git p branch g =
     (case gt_checkout git p branch g of
        (g1, False) \<Rightarrow> (g1, Some CheckoutFailed)
      | (g1, True) \<Rightarrow>
         if \<not> remoteBranchExists git branch g1 then (g1, None)
         else case gt_pull git p branch g1 of
                (g2, False) \<Rightarrow> (g2, Some PullFailed)
              | (g2, True) \<Rightarrow>
                 if \<not> gt_verify_main git p g2 then (g2, None)
                 else case gt_rebase git p g2 of (g3, True) \<Rightarrow> (g3, None) | (g3, False) \<Rightarrow> (gt_abort git p g3, None))"

definition branch_name :: "int \<Rightarrow> int \<Rightarrow> string" where
  "branch_name issueNum rolloutIndex =
     (if 0 < rolloutIndex then ''workbuddy/issue-'' @ itoa issueNum @ ''/rollout-'' @ itoa rolloutIndex else ''workbuddy/issue-'' @ itoa issueNum)"

definition worktree_path :: "string \<Rightarrow> int \<Rightarrow> int \<Rightarrow> string" where
  "worktree_path baseDir issueNum rolloutIndex =
     (let p = path_join (path_join baseDir worktreeDir) (''issue-'' @ itoa issueNum)
      in if 0 < rolloutIndex then path_join p (''rollout-'' @ itoa rolloutIndex) else p)"

definition parent_dir :: "string \<Rightarrow> int \<Rightarrow> int \<Rightarrow> string" where
  "parent_dir baseDir issueNum rolloutIndex =
     (if 0 < rolloutIndex then worktree_path baseDir issueNum 0 else path_join baseDir worktreeDir)"

definition add_ref :: "string \<Rightarrow> 'g Manager \<Rightarrow> 'g Manager" where
  "add_ref k m = m\<lparr>mg_refs := AList.update k (Suc (case map_of (mg_refs m) k of None \<Rightarrow> 0 | Some n \<Rightarrow> n)) (mg_refs m)\<rparr>"

definition Create :: "'g git \<Rightarrow> int \<Rightarrow> int \<Rightarrow> 'g Manager \<Rightarrow> 'g Manager \<times> (create_error + string)" where
  "Create git issueNum rolloutIndex m =
     (let branch = branch_name issueNum rolloutIndex; p = worktree_path (mg_baseDir m) issueNum rolloutIndex
      in case gt_prune git (gt_fetch git (mg_state m)) of
           (g, False) \<Rightarrow> (m\<lparr>mg_state := g\<rparr>, Inl PruneFailed)
         | (g, True) \<Rightarrow>
            if gt_stat git p g then
              (if \<not> isRegisteredWorktree git p g then (m\<lparr>mg_state := g\<rparr>, Inl (NotRegistered p))
               else case gitCurrentBranch git p g of
                      None \<Rightarrow> (m\<lparr>mg_state := g\<rparr>, Inl (NotValid p))
                    | Some cur \<Rightarrow>
                       if cur \<noteq> branch then (m\<lparr>mg_state := g\<rparr>, Inl (WrongBranch p cur))
                       else if \<not> gitIsClean git p g then (m\<lparr>mg_state := g\<rparr>, Inl (NotClean p))
                       else case syncExistingWorktree git p branch g of
                              (g', Some e) \<Rightarrow> (m\<lparr>mg_state := g'\<rparr>, Inl e)
                            | (g', None) \<Rightarrow> (add_ref (refKey git p) (m\<lparr>mg_state := g'\<rparr>), Inr p))
            else case gt_mkdir git (parent_dir (mg_baseDir m) issueNum rolloutIndex) g of
                   (g1, False) \<Rightarrow> (m\<lparr>mg_state := g1\<rparr>, Inl MkdirFailed)
                 | (g1, True) \<Rightarrow>
                    (case gt_add git p branch (if localBranchExists git branch g1 then None
                        else Some (if remoteBranchExists git branch g1 then ''origin/'' @ branch else ''HEAD'')) g1 of
                       (g2, False) \<Rightarrow> (m\<lparr>mg_state := g2\<rparr>, Inl AddFailed)
                     | (g2, True) \<Rightarrow> (add_ref (refKey git p) (m\<lparr>mg_state := g2\<rparr>), Inr p)))"

section \<open>Removing\<close>

datatype removal = Retained | Removed bool bool

text \<open>\<open>Removed a b\<close>: \<open>a\<close> when the worktree could neither be removed nor pruned, \<open>b\<close> when its branch could not be deleted.\<close>

definition removeWorktree :: "'g git \<Rightarrow> string \<Rightarrow> 'g \<Rightarrow> 'g \<times> removal" where
  "removeWorktree git p g =
     (let branch = worktreeBranch git p g;
          (g1, bad1) = (case gt_remove git p g of
                          (g1, True) \<Rightarrow> (g1, False)
                        | (g1, False) \<Rightarrow> (case gt_prune git g1 of (g2, ok) \<Rightarrow> (g2, \<not> ok)));
          (g2, bad2) = (if branch = [] then (g1, False) else case gt_delete_branch git branch g1 of (g2, ok) \<Rightarrow> (g2, \<not> ok))
      in (g2, Removed bad1 bad2))"

definition Remove :: "'g git \<Rightarrow> string \<Rightarrow> 'g Manager \<Rightarrow> 'g Manager \<times> removal" where
  "Remove git p m =
     (let key = refKey git p; cleanup = (\<lambda>m. case removeWorktree git p (mg_state m) of (g, x) \<Rightarrow> (m\<lparr>mg_state := g\<rparr>, x))
      in case map_of (mg_refs m) key of
           None \<Rightarrow> cleanup m
         | Some count \<Rightarrow>
            if 1 < count then (m\<lparr>mg_refs := AList.update key (count - 1) (mg_refs m)\<rparr>, Retained)
            else cleanup (m\<lparr>mg_refs := AList.delete key (mg_refs m)\<rparr>))"

fun pruneEntries :: "'g git \<Rightarrow> string \<Rightarrow> string list \<Rightarrow> (string \<times> bool) list \<Rightarrow> 'g \<Rightarrow> 'g \<times> string list" where
  "pruneEntries git wtDir valid [] g = (g, [])"
| "pruneEntries git wtDir valid ((name, is_dir) # es) g =
     (let p = path_join wtDir name
      in if is_dir \<and> gt_abs git p \<notin> set valid
         then (case pruneEntries git wtDir valid es (gt_remove_all git p g) of (g', ps) \<Rightarrow> (g', p # ps))
         else pruneEntries git wtDir valid es g)"

text \<open>\<^verbatim>\<open>Prune\<close>, with the directories it deletes; \<open>None\<close> is its error.\<close>

definition Prune :: "'g git \<Rightarrow> 'g Manager \<Rightarrow> 'g Manager \<times> string list option" where
  "Prune git m =
     (let g = fst (gt_prune git (mg_state m)); wtDir = path_join (mg_baseDir m) worktreeDir
      in case listWorktreePaths git g of
           None \<Rightarrow> (m\<lparr>mg_state := g\<rparr>, None)
         | Some valid \<Rightarrow>
            (case gt_readdir git wtDir g of
               None \<Rightarrow> (m\<lparr>mg_state := g\<rparr>, Some [])
             | Some es \<Rightarrow> (case pruneEntries git wtDir valid es g of (g', ps) \<Rightarrow> (m\<lparr>mg_state := g'\<rparr>, Some ps))))"

section \<open>Sessions\<close>

text \<open>A manager with the sessions at work and the worktree each of them was given.\<close>

record 'g sessions =
  se_manager :: "'g Manager"
  se_active :: "(nat \<times> string) list"

inductive session_step :: "'g git \<Rightarrow> 'g sessions \<Rightarrow> 'g sessions \<Rightarrow> bool" for git where
  opens: "session_step git w (w\<lparr>se_manager := m, se_active := (s, p) # se_active w\<rparr>)"
    if "Create git issue rollout (se_manager w) = (m, Inr p)" "s \<notin> fst ` set (se_active w)"
| refused: "session_step git w (w\<lparr>se_manager := m\<rparr>)" if "Create git issue rollout (se_manager w) = (m, Inl e)"
| closes: "session_step git w (w\<lparr>se_manager := m, se_active := AList.delete s (se_active w)\<rparr>)"
    if "map_of (se_active w) s = Some p" "Remove git p (se_manager w) = (m, x)"
| prunes: "session_step git w (w\<lparr>se_manager := fst (Prune git (se_manager w))\<rparr>)"
| others: "session_step git w (w\<lparr>se_manager := (se_manager w)\<lparr>mg_state := g\<rparr>\<rparr>)"

definition wt_users :: "'g git \<Rightarrow> string \<Rightarrow> 'g sessions \<Rightarrow> (nat \<times> string) list" where
  "wt_users git k w = filter (\<lambda>(s, p). refKey git p = k) (se_active w)"

text \<open>The count of references is the number of sessions.\<close>

definition counted :: "'g git \<Rightarrow> 'g sessions \<Rightarrow> bool" where
  "counted git w \<longleftrightarrow> distinct (map fst (se_active w)) \<and>
     (\<forall>k. map_of (mg_refs (se_manager w)) k = (let n = length (wt_users git k w) in if n = 0 then None else Some n))"

lemma Create_refs:
  assumes "Create git issue rollout m = (m', x)"
  shows "mg_refs m' = (case x of Inl _ \<Rightarrow> mg_refs m | Inr p \<Rightarrow> mg_refs (add_ref (refKey git p) m))"
  using assms
  by (auto simp: Create_def Let_def add_ref_def split: prod.splits bool.splits if_splits option.splits)

lemma Remove_refs:
  assumes "Remove git p m = (m', x)"
  shows "mg_refs m' = (case map_of (mg_refs m) (refKey git p) of None \<Rightarrow> mg_refs m
      | Some n \<Rightarrow> if 1 < n then AList.update (refKey git p) (n - 1) (mg_refs m) else AList.delete (refKey git p) (mg_refs m))"
    and "x = Retained \<longleftrightarrow> (\<exists>n. map_of (mg_refs m) (refKey git p) = Some n \<and> 1 < n)"
  using assms by (auto simp: Remove_def removeWorktree_def Let_def split: option.splits if_splits prod.splits)

lemma Prune_refs: "mg_refs (fst (Prune git m)) = mg_refs m"
  by (auto simp: Prune_def Let_def split: option.split prod.splits)

lemma users_delete:
  assumes "distinct (map fst xs)" "map_of xs s = Some p"
  shows "length (filter (\<lambda>(s, p). f p = k) (AList.delete s xs)) + (if f p = k then 1 else 0) = length (filter (\<lambda>(s, p). f p = k) xs)"
  using assms
proof (induction xs)
  case (Cons x xs)
  obtain t q where x: "x = (t, q)" by (rule prod.exhaust)
  show ?case
  proof (cases "t = s")
    case True
    then have "AList.delete s xs = xs" using Cons.prems(1) x by (simp add: delete_id)
    then show ?thesis using True Cons.prems(2) x by simp
  next
    case False
    then show ?thesis using Cons x by auto
  qed
qed simp

lemma session_counted:
  assumes "session_step git w w'" "counted git w" shows "counted git w'"
  using assms(1)
proof cases
  case (opens issue rollout m p s)
  then show ?thesis using assms(2) Create_refs [OF opens(2)]
    by (auto simp: counted_def wt_users_def add_ref_def update_conv' Let_def split: if_splits)
next
  case (refused issue rollout m e)
  then show ?thesis using assms(2) Create_refs [OF refused(2)] by (simp add: counted_def wt_users_def)
next
  case (closes s p m x)
  define n n' where "n = (\<lambda>k. length (wt_users git k w))" and "n' = (\<lambda>k. length (wt_users git k w'))"
  have d: "n' k + (if refKey git p = k then 1 else 0) = n k" for k
    using users_delete [of "se_active w" s p "refKey git" k] assms(2) closes(1,2) by (simp add: counted_def wt_users_def n_def n'_def)
  have refs: "map_of (mg_refs (se_manager w)) k = (if n k = 0 then None else Some (n k))" for k
    using assms(2) by (simp add: counted_def Let_def n_def)
  have "map_of (mg_refs m) k = (if n' k = 0 then None else Some (n' k))" for k
    using Remove_refs(1) [OF closes(3)] refs [of k] refs [of "refKey git p"] d [of k] d [of "refKey git p"]
    by (auto simp: update_conv' delete_conv' split: if_splits)
  then have "map_of (mg_refs m) k = (let n = length (wt_users git k w') in if n = 0 then None else Some n)" for k
    by (simp add: n'_def Let_def)
  moreover have "distinct (map fst (AList.delete s (se_active w)))" using assms(2) by (simp add: counted_def distinct_delete)
  ultimately show ?thesis using closes(1) by (simp add: counted_def)
next
  case prunes
  then show ?thesis using assms(2) Prune_refs [of git "se_manager w"] by (simp add: counted_def wt_users_def)
next
  case (others g)
  then show ?thesis using assms(2) by (simp add: counted_def wt_users_def)
qed

section \<open>The entries of the listing\<close>

text \<open>An entry as git prints it: path, other attributes, and the branch unless the head is detached.\<close>

record wt_entry =
  we_path :: string
  we_attrs :: "string list"
  we_branch :: "string option"

definition entry_lines :: "wt_entry \<Rightarrow> string list" where
  "entry_lines e = (wt_prefix @ we_path e) # we_attrs e @ (case we_branch e of None \<Rightarrow> [''detached''] | Some b \<Rightarrow> [br_prefix @ head_prefix @ b]) @ [[]]"

definition porcelain :: "wt_entry list \<Rightarrow> string" where
  "porcelain es = concat (map (\<lambda>l. l @ [CHR 0x0A]) (concat (map entry_lines es)))"

definition entry_ok :: "wt_entry \<Rightarrow> bool" where
  "entry_ok e \<longleftrightarrow> we_path e \<noteq> [] \<and> CHR 0x0A \<notin> set (we_path e) \<and> CHR 0x0A \<notin> set (case we_branch e of None \<Rightarrow> [] | Some b \<Rightarrow> b) \<and>
     (\<forall>a \<in> set (we_attrs e). a \<noteq> [] \<and> CHR 0x0A \<notin> set a \<and> \<not> has_prefix a wt_prefix \<and> \<not> has_prefix a br_prefix)"

lemma split_lines: "\<forall>l \<in> set ls. CHR 0x0A \<notin> set l \<Longrightarrow> split_on (CHR 0x0A) (concat (map (\<lambda>l. l @ [CHR 0x0A]) ls)) = ls @ [[]]"
proof (induction ls)
  case (Cons l ls)
  then have "split_on (CHR 0x0A) l = [l]" by (induction l) auto
  then show ?case using Cons by (simp add: split_on_append)
qed simp

lemma entry_lines_plain: "entry_ok e \<Longrightarrow> l \<in> set (entry_lines e) \<Longrightarrow> CHR 0x0A \<notin> set l"
  by (auto simp: entry_lines_def entry_ok_def wt_prefix_def br_prefix_def head_prefix_def split: option.splits)

lemma split_porcelain: "\<forall>e \<in> set es. entry_ok e \<Longrightarrow> split_on (CHR 0x0A) (porcelain es) = concat (map entry_lines es) @ [[]]"
  unfolding porcelain_def by (rule split_lines) (auto dest: entry_lines_plain)

lemma attrs_skipped:
  assumes "\<forall>a \<in> set as. a \<noteq> [] \<and> \<not> has_prefix a wt_prefix \<and> \<not> has_prefix a br_prefix"
  shows "findInLines absp target branch (as @ ls) cur = findInLines absp target branch ls cur"
    and "branchInLines absp target (as @ ls) found = branchInLines absp target ls found"
  using assms by (induction as) (simp_all add: Let_def)

lemma prefix_lines:
  "has_prefix (wt_prefix @ p) wt_prefix" "\<not> has_prefix (wt_prefix @ p) br_prefix" "trim_prefix (wt_prefix @ p) wt_prefix = p"
  "has_prefix (br_prefix @ p) br_prefix" "\<not> has_prefix (br_prefix @ p) wt_prefix" "trim_prefix (br_prefix @ p) br_prefix = p"
  "\<not> has_prefix ''detached'' wt_prefix" "\<not> has_prefix ''detached'' br_prefix" "wt_prefix @ p \<noteq> []" "br_prefix @ p \<noteq> []"
  "\<not> has_prefix [] wt_prefix" "\<not> has_prefix [] br_prefix"
  by (simp_all add: wt_prefix_def br_prefix_def has_prefix_def trim_prefix_def)

lemma find_entry:
  assumes "entry_ok e"
  shows "findInLines absp target branch (entry_lines e @ ls) [] =
    (if (\<exists>b. we_branch e = Some b \<and> (branch = [] \<or> b = branch)) \<and> (target = [] \<or> absp (we_path e) = target) then we_path e
     else findInLines absp target branch ls [])"
proof -
  have as: "\<forall>a \<in> set (we_attrs e). a \<noteq> [] \<and> \<not> has_prefix a wt_prefix \<and> \<not> has_prefix a br_prefix" and p: "we_path e \<noteq> []"
    using assms by (auto simp: entry_ok_def)
  show ?thesis
    using attrs_skipped(1) [OF as] p
    by (cases "we_branch e") (simp_all add: entry_lines_def Let_def prefix_lines)
qed

lemma branch_entry:
  assumes "entry_ok e"
  shows "branchInLines absp target (entry_lines e @ ls) False =
    (if absp (we_path e) = target \<and> we_branch e \<noteq> None then the (we_branch e) else branchInLines absp target ls False)"
proof -
  have as: "\<forall>a \<in> set (we_attrs e). a \<noteq> [] \<and> \<not> has_prefix a wt_prefix \<and> \<not> has_prefix a br_prefix" and p: "we_path e \<noteq> []"
    using assms by (auto simp: entry_ok_def)
  show ?thesis
    using attrs_skipped(2) [OF as] p
    by (cases "we_branch e") (simp_all add: entry_lines_def Let_def prefix_lines)
qed

definition listed :: "(string \<Rightarrow> string) \<Rightarrow> string \<Rightarrow> wt_entry list \<Rightarrow> wt_entry option" where
  "listed absp target es = find (\<lambda>e. we_branch e \<noteq> None \<and> absp (we_path e) = target) es"

lemma find_lines:
  assumes "\<forall>e \<in> set es. entry_ok e" "target \<noteq> []"
  shows "findInLines absp target [] (concat (map entry_lines es) @ [[]]) [] = (case listed absp target es of None \<Rightarrow> [] | Some e \<Rightarrow> we_path e)"
  using assms by (induction es) (auto simp: find_entry listed_def prefix_lines Let_def)

lemma branch_lines:
  assumes "\<forall>e \<in> set es. entry_ok e"
  shows "branchInLines absp target (concat (map entry_lines es) @ [[]]) False = (case listed absp target es of None \<Rightarrow> [] | Some e \<Rightarrow> the (we_branch e))"
  using assms by (induction es) (auto simp: branch_entry listed_def prefix_lines Let_def)

lemma path_lines:
  assumes "\<forall>e \<in> set es. entry_ok e"
  shows "map (\<lambda>l. trim_prefix l wt_prefix) (filter (\<lambda>l. has_prefix l wt_prefix) (concat (map entry_lines es) @ [[]])) = map we_path es"
proof -
  have "map (\<lambda>l. trim_prefix l wt_prefix) (filter (\<lambda>l. has_prefix l wt_prefix) (entry_lines e)) = [we_path e]" if "entry_ok e" for e
  proof -
    have "filter (\<lambda>l. has_prefix l wt_prefix) (we_attrs e) = []" using that by (auto simp: entry_ok_def filter_empty_conv)
    then show ?thesis by (simp add: entry_lines_def prefix_lines split: option.split)
  qed
  then show ?thesis using assms by (induction es) (simp_all add: prefix_lines)
qed

text \<open>A path is found registered exactly when an entry with a branch has it; one with a detached head is not
  found.\<close>

lemma registered_listed:
  assumes "gt_list git g = Some (porcelain es)" "\<forall>e \<in> set es. entry_ok e" "p \<noteq> []" "gt_abs git p \<noteq> []"
  shows "isRegisteredWorktree git p g \<longleftrightarrow> (\<exists>e \<in> set es. we_branch e \<noteq> None \<and> gt_abs git (we_path e) = gt_abs git p)"
    and "worktreeBranch git p g = (case listed (gt_abs git) (gt_abs git p) es of None \<Rightarrow> [] | Some e \<Rightarrow> the (we_branch e))"
proof -
  have "findWorktreePathForPath git p g = (case listed (gt_abs git) (gt_abs git p) es of None \<Rightarrow> [] | Some e \<Rightarrow> we_path e)"
    using find_lines [OF assms(2,4)] assms(1,3) by (simp add: findWorktreePathForPath_def findWorktreePathForPathAndBranch_def split_porcelain [OF assms(2)])
  moreover have "we_path e \<noteq> []" if "listed (gt_abs git) (gt_abs git p) es = Some e" for e
    using that assms(2) by (auto simp: listed_def find_Some_iff entry_ok_def)
  ultimately show "isRegisteredWorktree git p g \<longleftrightarrow> (\<exists>e \<in> set es. we_branch e \<noteq> None \<and> gt_abs git (we_path e) = gt_abs git p)"
    by (auto simp: isRegisteredWorktree_def listed_def find_None_iff split: option.splits) (auto simp: find_Some_iff)
  show "worktreeBranch git p g = (case listed (gt_abs git) (gt_abs git p) es of None \<Rightarrow> [] | Some e \<Rightarrow> the (we_branch e))"
    using branch_lines [OF assms(2)] assms(1) by (simp add: worktreeBranch_def split_porcelain [OF assms(2)])
qed

section \<open>Properties\<close>

text \<open>C18. The worktree of a session is removed only by the last session that uses it: over any order of
  sessions that begin and end, whatever git answers and whoever else changes the repository, when a
  session ends its worktree is kept exactly when another session still works in it.\<close>

theorem last_session_removes:
  assumes "(session_step git)\<^sup>*\<^sup>* \<lparr>se_manager = NewManager base g, se_active = []\<rparr> w"
    and "map_of (se_active w) s = Some p" "Remove git p (se_manager w) = (m, x)"
  shows "x = Retained \<longleftrightarrow> (\<exists>(s', p') \<in> set (se_active w). s' \<noteq> s \<and> refKey git p' = refKey git p)"
proof -
  have c: "counted git w" using assms(1)
    by induction (auto simp: counted_def wt_users_def NewManager_def dest: session_counted)
  let ?U = "wt_users git (refKey git p) w" and ?others = "\<exists>(s', p') \<in> set (se_active w). s' \<noteq> s \<and> refKey git p' = refKey git p"
  have dist: "distinct (map fst (se_active w))" using c by (simp add: counted_def)
  have mem: "(s, p) \<in> set ?U" using assms(2) by (auto simp: wt_users_def dest: map_of_SomeD)
  have "?others \<longleftrightarrow> 1 < length ?U"
  proof
    assume ?others
    then obtain y where "y \<in> set ?U" "y \<noteq> (s, p)" by (auto simp: wt_users_def)
    with mem show "1 < length ?U" by (cases ?U; cases "tl ?U") auto
  next
    assume "1 < length ?U"
    moreover have "distinct ?U" using dist by (simp add: wt_users_def distinct_map)
    ultimately obtain y where y: "y \<in> set ?U" "y \<noteq> (s, p)" using mem
      by (cases ?U; cases "tl ?U") auto
    obtain s' p' where "y = (s', p')" by (rule prod.exhaust)
    moreover from this have "s' \<noteq> s" using y mem dist eq_key_imp_eq_value [OF dist, of s p'] by (auto simp: wt_users_def)
    ultimately show ?others using y(1) by (auto simp: wt_users_def)
  qed
  moreover have "map_of (mg_refs (se_manager w)) (refKey git p) = Some (length ?U)"
    using c mem by (auto simp: counted_def Let_def)
  ultimately show ?thesis using Remove_refs(2) [OF assms(3)] by simp
qed

text \<open>C38. Pruning deletes worktrees in use: the directory of an issue that was worked on in rollouts is not a
  worktree itself, so that pruning deletes it, and with it the worktrees of the rollouts, which git still
  has registered inside.\<close>

theorem prune_deletes_rollouts:
  assumes "gt_list git (fst (gt_prune git (mg_state m))) = Some (porcelain es)" "\<forall>e \<in> set es. entry_ok e"
    and "gt_readdir git (path_join (mg_baseDir m) worktreeDir) (fst (gt_prune git (mg_state m))) = Some ds" "(''issue-'' @ itoa n, True) \<in> set ds"
    and "e \<in> set es" "we_path e = worktree_path (mg_baseDir m) n k" "0 < k"
    and "\<forall>e \<in> set es. gt_abs git (we_path e) \<noteq> gt_abs git (worktree_path (mg_baseDir m) n 0)"
  shows "\<exists>ps. snd (Prune git m) = Some ps \<and> worktree_path (mg_baseDir m) n 0 \<in> set ps \<and>
    we_path e = path_join (worktree_path (mg_baseDir m) n 0) (''rollout-'' @ itoa k)"
proof -
  let ?wtDir = "path_join (mg_baseDir m) worktreeDir" and ?g = "fst (gt_prune git (mg_state m))"
  have valid: "listWorktreePaths git ?g = Some (map (gt_abs git \<circ> we_path) es)"
    using arg_cong [OF path_lines [OF assms(2)], of "map (gt_abs git)"]
    by (simp add: listWorktreePaths_def assms(1) split_porcelain [OF assms(2)] comp_def prefix_lines)
  have del: "path_join dir name \<in> set (snd (pruneEntries git dir valid ds g))" if "(name, True) \<in> set ds" "gt_abs git (path_join dir name) \<notin> set valid"
    for dir valid g name using that by (induction git dir valid ds g rule: pruneEntries.induct) (auto simp: Let_def split: prod.splits)
  have p: "worktree_path (mg_baseDir m) n 0 = path_join ?wtDir (''issue-'' @ itoa n)" by (simp add: worktree_path_def)
  have "worktree_path (mg_baseDir m) n 0 \<in> set (snd (pruneEntries git ?wtDir (map (gt_abs git \<circ> we_path) es) ds ?g))"
    unfolding p by (rule del [OF assms(4)]) (use assms(8) in \<open>force simp: p\<close>)
  then have "\<exists>ps. snd (Prune git m) = Some ps \<and> worktree_path (mg_baseDir m) n 0 \<in> set ps"
    by (simp add: Prune_def valid assms(3) split: prod.splits) (metis snd_conv)
  then show ?thesis using assms(6,7) by (simp add: worktree_path_def)
qed

section \<open>Samples\<close>

definition demo_git :: "string \<Rightarrow> unit git" where
  "demo_git listing = \<lparr>gt_abs = (\<lambda>p. p), gt_fetch = (\<lambda>g. g), gt_prune = (\<lambda>g. (g, True)), gt_stat = (\<lambda>_ _. False), gt_list = (\<lambda>_. Some listing),
     gt_head = (\<lambda>_ _. None), gt_status = (\<lambda>_ _. None), gt_checkout = (\<lambda>_ _ g. (g, True)), gt_pull = (\<lambda>_ _ g. (g, True)),
     gt_verify_main = (\<lambda>_ _. False), gt_rebase = (\<lambda>_ g. (g, True)), gt_abort = (\<lambda>_ g. g), gt_show_ref = (\<lambda>_ _. False),
     gt_mkdir = (\<lambda>_ g. (g, True)), gt_add = (\<lambda>_ _ _ g. (g, True)), gt_remove = (\<lambda>_ g. (g, True)), gt_delete_branch = (\<lambda>_ g. (g, True)),
     gt_readdir = (\<lambda>_ _. Some [(''issue-7'', True)]), gt_remove_all = (\<lambda>_ g. g)\<rparr>"

definition demo_sessions :: "unit sessions" where
  "demo_sessions = (let m1 = fst (Create (demo_git []) 7 0 (NewManager ''/r'' ())); m2 = fst (Create (demo_git []) 7 0 m1)
     in \<lparr>se_manager = m2, se_active = [(2, worktree_path ''/r'' 7 0), (1, worktree_path ''/r'' 7 0)]\<rparr>)"

lemma demo_create: "Create (demo_git l) 7 0 m = (add_ref (worktree_path (mg_baseDir m) 7 0) m, Inr (worktree_path (mg_baseDir m) 7 0))"
  by (cases m) (simp add: Create_def demo_git_def refKey_def localBranchExists_def add_ref_def Let_def)

theorem last_session_removes_witness:
  "snd (Remove (demo_git []) (worktree_path ''/r'' 7 0) (se_manager demo_sessions)) = Retained"
proof -
  let ?git = "demo_git []" and ?p = "worktree_path ''/r'' 7 0"
  let ?one = "\<lparr>se_manager = add_ref ?p (NewManager ''/r'' ()), se_active = [(1, ?p)]\<rparr>"
  have base: "mg_baseDir (add_ref k m) = mg_baseDir m" "mg_baseDir (NewManager b g) = b" for k m b g by (simp_all add: add_ref_def NewManager_def)
  have "session_step ?git \<lparr>se_manager = NewManager ''/r'' (), se_active = []\<rparr> ?one"
    using session_step.opens [of ?git 7 0 "\<lparr>se_manager = NewManager ''/r'' (), se_active = []\<rparr>" "add_ref ?p (NewManager ''/r'' ())" ?p 1] by (simp add: demo_create base)
  moreover have "session_step ?git ?one demo_sessions"
    using session_step.opens [of ?git 7 0 ?one "add_ref ?p (add_ref ?p (NewManager ''/r'' ()))" ?p 2]
    by (simp add: demo_create base demo_sessions_def Let_def)
  ultimately have run: "(session_step ?git)\<^sup>*\<^sup>* \<lparr>se_manager = NewManager ''/r'' (), se_active = []\<rparr> demo_sessions" by auto
  have a: "map_of (se_active demo_sessions) 1 = Some ?p" by (simp add: demo_sessions_def Let_def)
  have "\<exists>(s', p') \<in> set (se_active demo_sessions). s' \<noteq> 1 \<and> refKey ?git p' = refKey ?git ?p" by (simp add: demo_sessions_def Let_def)
  then show ?thesis using last_session_removes [OF run a prod.collapse [symmetric]] by blast
qed

definition rollout_entry :: wt_entry where
  "rollout_entry = \<lparr>we_path = worktree_path ''/r'' 7 1, we_attrs = [''HEAD 0''], we_branch = Some (branch_name 7 1)\<rparr>"

theorem prune_deletes_rollouts_witness:
  "\<exists>ps. snd (Prune (demo_git (porcelain [rollout_entry])) (NewManager ''/r'' ())) = Some ps \<and> worktree_path ''/r'' 7 0 \<in> set ps"
proof -
  let ?git = "demo_git (porcelain [rollout_entry])" and ?m = "NewManager ''/r'' ()"
  have ok: "entry_ok rollout_entry" by code_simp
  have "itoa 7 = ''7''" "worktree_path ''/r'' 7 1 \<noteq> worktree_path ''/r'' 7 0" by code_simp+
  then have "\<exists>ps. snd (Prune ?git ?m) = Some ps \<and> worktree_path (mg_baseDir ?m) 7 0 \<in> set ps \<and>
    we_path rollout_entry = path_join (worktree_path (mg_baseDir ?m) 7 0) (''rollout-'' @ itoa 1)"
    using ok by (intro prune_deletes_rollouts [where es = "[rollout_entry]" and ds = "[(''issue-7'', True)]" and k = 1])
      (simp_all add: demo_git_def NewManager_def rollout_entry_def)
  then show ?thesis by (auto simp: NewManager_def)
qed

end
