(* ===== verification/Tunnel.thy ===== *)
theory Tunnel
  imports Prelude "HOL-Library.Word"
begin

text \<open>
  The tunnel between coordinator and worker (\<^verbatim>\<open>internal/wstunnel/tunnel.go\<close>): requests and responses
  as frames over one connection, several of them at a time, told apart by the number of their stream.

  \<^item> The header of a frame is JSON (\<open>enc\<close>, \<open>dec\<close>), \<open>canon\<close> is the canonical form of a header key.
  \<^item> Channels are addresses in a list, because the reader of the connection, the table of streams and the
    call that waits share them. A send on a closed channel and a second closing of one are panics.
  \<^item> The critical sections of the reader and of the closing are the steps of \<open>tunnel_step\<close>. Between the look at
    the table of streams and the send to the channel, the reader holds the frame (\<open>ep_run\<close>).
  \<^item> A call begins in one step: the atomic count that numbers its stream and the section that registers
    the stream are merged (two calls between them would only register in the other order), and its frame is
    with the peer at the earliest from then on. The failure of its send, which removes the stream again, may come at once
    or any number of steps later (\<open>gives_up\<close>).
  \<^item> The peer answers a request as \<open>serveOne\<close> does, in any order; \<open>handler\<close> is the HTTP handler there. It may
    send requests of its own and close frames for them. A failure of the connection, of a ping, or a call of \<^verbatim>\<open>Close\<close> may happen at any time.
  \<^item> Frames on their way are not written out again: what a frame is after coding and decoding is the
    first result below.

  Shown here: a frame survives the coding whatever its body holds; a call that gets a response gets the one
  to its own request, however calls, responses and cancellations interleave; the channels of calls are
  never used after they are closed; and a failure while the reader holds a request ends in a panic.
\<close>

section \<open>Frames\<close>

definition FrameRequest :: string where "FrameRequest = ''request''"
definition FrameResponse :: string where "FrameResponse = ''response''"
definition FrameClose :: string where "FrameClose = ''close''"

type_synonym headers = "(string \<times> string list) list"

record Frame =
  fr_Type :: string
  fr_StreamID :: string
  fr_Method :: string
  fr_Path :: string
  fr_Headers :: headers
  fr_Status :: int
  fr_End :: bool
  fr_Error :: string
  fr_Body :: string

datatype frame_error = NoSeparator | BadHeader | TypeRequired

definition canonicalHeader :: "(string \<Rightarrow> string) \<Rightarrow> headers \<Rightarrow> headers" where
  "canonicalHeader canon h = fold (\<lambda>(k, v). AList.update (canon k) v) h []"

definition cloneHeader :: "(string \<Rightarrow> string) \<Rightarrow> headers \<Rightarrow> headers" where
  "cloneHeader canon h = fold (\<lambda>(k, v). AList.update (canon k) v) h []"

definition EncodeFrame :: "(Frame \<Rightarrow> string) \<Rightarrow> Frame \<Rightarrow> string" where
  "EncodeFrame enc f = enc (f\<lparr>fr_Body := []\<rparr>) @ CHR 0x0A # fr_Body f"

definition DecodeFrame :: "(string \<Rightarrow> Frame option) \<Rightarrow> (string \<Rightarrow> string) \<Rightarrow> string \<Rightarrow> frame_error + Frame" where
  "DecodeFrame dec canon data =
     (let head = takeWhile (\<lambda>c. c \<noteq> CHR 0x0A) data
      in if length head = length data then Inl NoSeparator
         else case dec head of
                None \<Rightarrow> Inl BadHeader
              | Some f \<Rightarrow>
                 if trim_space (fr_Type f) = [] \<or> trim_space (fr_StreamID f) = [] then Inl TypeRequired
                 else Inr (f\<lparr>fr_Body := drop (Suc (length head)) data, fr_Headers := canonicalHeader canon (fr_Headers f)\<rparr>))"

section \<open>Endpoints\<close>

record chan =
  ch_buf :: "Frame list"
  ch_closed :: bool

datatype tunnel_error = ErrClosed_tn | ReadFailed | PingFailed | InvalidFrame frame_error | UnknownType string | FrameError string | EOF_tn | ContextDone

datatype run_pc = Reading | Delivering nat Frame | Requesting Frame | Ended

datatype panic = PanicRequests | PanicStream

record Endpoint =
  ep_streams :: "(string \<times> nat) list"
  ep_chans :: "chan list"
  ep_requests :: chan
  ep_closed :: bool
  ep_closeErr :: "tunnel_error option"
  ep_next :: "64 word"
  ep_run :: run_pc
  ep_panic :: "panic option"

definition stream_cap :: nat where "stream_cap = 16"
definition requests_cap :: nat where "requests_cap = 64"

definition NewEndpoint :: Endpoint where
  "NewEndpoint = \<lparr>ep_streams = [], ep_chans = [], ep_requests = \<lparr>ch_buf = [], ch_closed = False\<rparr>, ep_closed = False, ep_closeErr = None,
     ep_next = 0, ep_run = Reading, ep_panic = None\<rparr>"

definition close_chan :: "nat \<Rightarrow> Endpoint \<Rightarrow> Endpoint" where
  "close_chan c ep =
     (if ch_closed (ep_chans ep ! c) then ep\<lparr>ep_panic := Some PanicStream\<rparr>
      else ep\<lparr>ep_chans := (ep_chans ep)[c := (ep_chans ep ! c)\<lparr>ch_closed := True\<rparr>]\<rparr>)"

definition close_requests :: "Endpoint \<Rightarrow> Endpoint" where
  "close_requests ep = ep\<lparr>ep_requests := (ep_requests ep)\<lparr>ch_closed := True\<rparr>\<rparr>"

definition fail_endpoint :: "tunnel_error \<Rightarrow> Endpoint \<Rightarrow> Endpoint" where
  "fail_endpoint e ep =
     (if ep_closed ep then ep
      else close_requests ((fold close_chan (map snd (ep_streams ep)) ep)\<lparr>ep_closeErr := Some e, ep_streams := [], ep_closed := True\<rparr>))"

definition removeStream :: "string \<Rightarrow> Endpoint \<Rightarrow> Endpoint" where
  "removeStream i ep =
     (case map_of (ep_streams ep) i of
        None \<Rightarrow> ep
      | Some c \<Rightarrow> close_chan c (ep\<lparr>ep_streams := AList.delete i (ep_streams ep)\<rparr>))"

text \<open>\<^verbatim>\<open>Run\<close>: the end of the loop, and the switch for a frame that was read, up to the send.\<close>

definition run_broken :: "tunnel_error \<Rightarrow> Endpoint \<Rightarrow> Endpoint" where
  "run_broken e ep = (fail_endpoint e ep)\<lparr>ep_run := Ended\<rparr>"

definition run_frame :: "frame_error + Frame \<Rightarrow> Endpoint \<Rightarrow> Endpoint" where
  "run_frame x ep =
     (case x of
        Inl e \<Rightarrow> run_broken (InvalidFrame e) ep
      | Inr f \<Rightarrow>
         if fr_Type f = FrameResponse \<or> fr_Type f = FrameClose then
           (let ch = map_of (ep_streams ep) (fr_StreamID f);
                ep1 = (if fr_Type f = FrameClose \<or> fr_End f then ep\<lparr>ep_streams := AList.delete (fr_StreamID f) (ep_streams ep)\<rparr> else ep)
            in case ch of None \<Rightarrow> ep1 | Some c \<Rightarrow> ep1\<lparr>ep_run := Delivering c f\<rparr>)
         else if fr_Type f = FrameRequest then ep\<lparr>ep_run := Requesting f\<rparr>
         else run_broken (UnknownType (fr_Type f)) ep)"

text \<open>The sends; \<open>None\<close> while the channel is full.\<close>

definition run_deliver :: "Endpoint \<Rightarrow> Endpoint option" where
  "run_deliver ep =
     (case ep_run ep of
        Delivering c f \<Rightarrow>
          (let ch = ep_chans ep ! c
           in if ch_closed ch then Some (ep\<lparr>ep_panic := Some PanicStream\<rparr>)
              else if length (ch_buf ch) \<ge> stream_cap then None
              else let ep1 = ep\<lparr>ep_chans := (ep_chans ep)[c := ch\<lparr>ch_buf := ch_buf ch @ [f]\<rparr>], ep_run := Reading\<rparr>
                   in Some (if fr_Type f = FrameClose \<or> fr_End f then close_chan c ep1 else ep1))
      | Requesting f \<Rightarrow>
          (if ch_closed (ep_requests ep) then Some (ep\<lparr>ep_panic := Some PanicRequests\<rparr>)
           else if length (ch_buf (ep_requests ep)) \<ge> requests_cap then None
           else Some (ep\<lparr>ep_requests := (ep_requests ep)\<lparr>ch_buf := ch_buf (ep_requests ep) @ [f]\<rparr>, ep_run := Reading\<rparr>))
      | _ \<Rightarrow> None)"

text \<open>The other branch of the same selects: the context is done before the send. A response is dropped.\<close>

definition run_cancel :: "Endpoint \<Rightarrow> Endpoint option" where
  "run_cancel ep =
     (case ep_run ep of
        Delivering c f \<Rightarrow> (let ep1 = ep\<lparr>ep_run := Reading\<rparr> in Some (if fr_Type f = FrameClose \<or> fr_End f then close_chan c ep1 else ep1))
      | Requesting f \<Rightarrow> Some (run_broken ContextDone ep)
      | _ \<Rightarrow> None)"

section \<open>Calls\<close>

datatype call_result = Response int headers string | CallError tunnel_error

record tunnel_call =
  cl_id :: string
  cl_chan :: nat
  cl_req :: Frame
  cl_status :: int
  cl_headers :: headers
  cl_buf :: string
  cl_result :: "call_result option"

definition request_frame :: "string \<Rightarrow> string \<Rightarrow> string \<Rightarrow> headers \<Rightarrow> string \<Rightarrow> Frame" where
  "request_frame i meth path hs body = \<lparr>fr_Type = FrameRequest, fr_StreamID = i, fr_Method = meth, fr_Path = (if path = [] then ''/'' else path),
     fr_Headers = hs, fr_Status = 0, fr_End = True, fr_Error = [], fr_Body = body\<rparr>"

text \<open>The first critical section of \<^verbatim>\<open>Do\<close>. The number of the stream is used up even when it fails.\<close>

definition do_open :: "Endpoint \<Rightarrow> Endpoint \<times> (tunnel_error + string \<times> nat)" where
  "do_open ep =
     (let ep1 = ep\<lparr>ep_next := ep_next ep + 1\<rparr>; i = nat_digits (unat (ep_next ep1)); c = length (ep_chans ep)
      in if ep_closed ep then (ep1, Inl (case ep_closeErr ep of None \<Rightarrow> ErrClosed_tn | Some e \<Rightarrow> e))
         else (ep1\<lparr>ep_chans := ep_chans ep @ [\<lparr>ch_buf = [], ch_closed = False\<rparr>], ep_streams := AList.update i c (ep_streams ep)\<rparr>, Inr (i, c)))"

definition new_call :: "string \<Rightarrow> nat \<Rightarrow> Frame \<Rightarrow> tunnel_call" where
  "new_call i c f = \<lparr>cl_id = i, cl_chan = c, cl_req = f, cl_status = 0, cl_headers = [], cl_buf = [], cl_result = None\<rparr>"

text \<open>What a call does with a frame, and with the closing of its channel.\<close>

definition take_frame :: "(string \<Rightarrow> string) \<Rightarrow> Frame \<Rightarrow> tunnel_call \<Rightarrow> tunnel_call" where
  "take_frame canon f cl =
     (if fr_Type f = FrameClose then cl\<lparr>cl_result := Some (CallError (if fr_Error f \<noteq> [] then FrameError (fr_Error f) else EOF_tn))\<rparr>
      else let cl1 = (if fr_Status f \<noteq> 0 then cl\<lparr>cl_status := fr_Status f, cl_headers := cloneHeader canon (fr_Headers f)\<rparr> else cl);
               cl2 = cl1\<lparr>cl_buf := cl_buf cl1 @ fr_Body f\<rparr>
           in if fr_End f then cl2\<lparr>cl_result := Some (Response (if cl_status cl2 = 0 then 502 else cl_status cl2) (cl_headers cl2) (cl_buf cl2))\<rparr> else cl2)"

definition do_receive :: "(string \<Rightarrow> string) \<Rightarrow> tunnel_call \<Rightarrow> Endpoint \<Rightarrow> (Endpoint \<times> tunnel_call) option" where
  "do_receive canon cl ep =
     (let ch = ep_chans ep ! cl_chan cl
      in case ch_buf ch of
           f # fs \<Rightarrow> Some (ep\<lparr>ep_chans := (ep_chans ep)[cl_chan cl := ch\<lparr>ch_buf := fs\<rparr>]\<rparr>, take_frame canon f cl)
         | [] \<Rightarrow>
            if ch_closed ch then Some (ep, cl\<lparr>cl_result := Some (CallError (case ep_closeErr ep of None \<Rightarrow> EOF_tn | Some e \<Rightarrow> e))\<rparr>)
            else None)"

definition serveOne :: "(string \<Rightarrow> string) \<Rightarrow> (string \<Rightarrow> string \<Rightarrow> headers \<Rightarrow> string \<Rightarrow> int \<times> headers \<times> string) \<Rightarrow> Frame \<Rightarrow> Frame" where
  "serveOne canon handler f =
     (let meth = (if trim_space (fr_Method f) = [] then ''GET'' else trim_space (fr_Method f));
          target = (if fr_Path f = [] \<or> \<not> has_prefix (fr_Path f) ''/'' then ''/'' else fr_Path f)
      in case handler meth target (cloneHeader canon (fr_Headers f)) (fr_Body f) of
           (status, hs, body) \<Rightarrow> \<lparr>fr_Type = FrameResponse, fr_StreamID = fr_StreamID f, fr_Method = [], fr_Path = [], fr_Headers = cloneHeader canon hs,
              fr_Status = status, fr_End = True, fr_Error = [], fr_Body = body\<rparr>)"

section \<open>The system\<close>

record tunnel =
  tn_ep :: Endpoint
  tn_calls :: "tunnel_call list"
  tn_pending :: "Frame list"
  tn_wire :: "Frame list"

definition new_tunnel :: tunnel where
  "new_tunnel = \<lparr>tn_ep = NewEndpoint, tn_calls = [], tn_pending = [], tn_wire = []\<rparr>"

text \<open>
  \<^verbatim>\<open>Do\<close> up to its wait. The send may fail (\<open>sent\<close> is its error); the frame may have reached the peer all the same, and a frame that
  was sent may be lost. In \<open>gives_up\<close> below a call ends with the error of its context, or of a send that
  fails only after other steps.
\<close>

definition do_begin :: "(string \<Rightarrow> string) \<Rightarrow> tunnel_error option \<Rightarrow> string \<Rightarrow> string \<Rightarrow> headers \<Rightarrow> string \<Rightarrow> tunnel \<Rightarrow> tunnel" where
  "do_begin canon sent meth path hs body t =
     (case do_open (tn_ep t) of
        (ep, Inl _) \<Rightarrow> t\<lparr>tn_ep := ep\<rparr>
      | (ep, Inr (i, c)) \<Rightarrow>
         (let f = request_frame i meth path (cloneHeader canon hs) body
          in case sent of
               None \<Rightarrow> t\<lparr>tn_ep := ep, tn_calls := tn_calls t @ [new_call i c f], tn_pending := f # tn_pending t\<rparr>
             | Some e \<Rightarrow> t\<lparr>tn_ep := removeStream i ep, tn_calls := tn_calls t @ [(new_call i c f)\<lparr>cl_result := Some (CallError e)\<rparr>],
                 tn_pending := f # tn_pending t\<rparr>))"

definition on_ep :: "(Endpoint \<Rightarrow> Endpoint) \<Rightarrow> tunnel \<Rightarrow> tunnel" where
  "on_ep f t = t\<lparr>tn_ep := f (tn_ep t)\<rparr>"

inductive tunnel_step :: "(string \<Rightarrow> string) \<Rightarrow> (string \<Rightarrow> string \<Rightarrow> headers \<Rightarrow> string \<Rightarrow> int \<times> headers \<times> string) \<Rightarrow> tunnel \<Rightarrow> tunnel \<Rightarrow> bool"
  for canon handler where
  begins: "tunnel_step canon handler t (do_begin canon sent meth path hs body t)"
| answers: "tunnel_step canon handler t (t\<lparr>tn_pending := remove1 f (tn_pending t), tn_wire := tn_wire t @ [serveOne canon handler f]\<rparr>)"
    if "f \<in> set (tn_pending t)"
| asks: "tunnel_step canon handler t (t\<lparr>tn_wire := tn_wire t @ [f]\<rparr>)" if "fr_Type f = FrameRequest \<or> fr_Type f = FrameClose"
| reads: "tunnel_step canon handler t (t\<lparr>tn_ep := run_frame (Inr f) (tn_ep t), tn_wire := fs\<rparr>)"
    if "tn_wire t = f # fs" "ep_run (tn_ep t) = Reading" "ep_panic (tn_ep t) = None"
| garbage: "tunnel_step canon handler t (on_ep (run_frame (Inl e)) t)" if "ep_run (tn_ep t) = Reading" "ep_panic (tn_ep t) = None"
| delivers: "tunnel_step canon handler t (t\<lparr>tn_ep := ep\<rparr>)" if "run_deliver (tn_ep t) = Some ep" "ep_panic (tn_ep t) = None"
| broken: "tunnel_step canon handler t (on_ep (run_broken e) t)" if "ep_run (tn_ep t) = Reading" "ep_panic (tn_ep t) = None"
| aborts: "tunnel_step canon handler t (t\<lparr>tn_ep := ep\<rparr>)" if "run_cancel (tn_ep t) = Some ep" "ep_panic (tn_ep t) = None"
| receives: "tunnel_step canon handler t (t\<lparr>tn_ep := ep, tn_calls := (tn_calls t)[n := cl]\<rparr>)"
    if "n < length (tn_calls t)" "cl_result (tn_calls t ! n) = None" "do_receive canon (tn_calls t ! n) (tn_ep t) = Some (ep, cl)"
| gives_up: "tunnel_step canon handler t (t\<lparr>tn_ep := removeStream (cl_id (tn_calls t ! n)) (tn_ep t),
      tn_calls := (tn_calls t)[n := (tn_calls t ! n)\<lparr>cl_result := Some (CallError e)\<rparr>]\<rparr>)"
    if "n < length (tn_calls t)" "cl_result (tn_calls t ! n) = None"
| fails: "tunnel_step canon handler t (on_ep (fail_endpoint e) t)"

section \<open>The invariant\<close>

definition chans_ok :: "(Frame \<Rightarrow> Frame) \<Rightarrow> Frame list \<Rightarrow> chan list \<Rightarrow> bool" where
  "chans_ok answer rs chs \<longleftrightarrow> length chs = length rs \<and> (\<forall>c < length rs. \<forall>f \<in> set (ch_buf (chs ! c)). f = answer (rs ! c) \<or> fr_Type f = FrameClose)"

definition streams_ok :: "chan list \<Rightarrow> (string \<times> nat) list \<Rightarrow> bool" where
  "streams_ok chs sts \<longleftrightarrow> distinct (map snd sts) \<and> (\<forall>(k, c) \<in> set sts. c < length chs \<and> k = nat_digits (Suc c) \<and> \<not> ch_closed (chs ! c))"

definition run_ok :: "(Frame \<Rightarrow> Frame) \<Rightarrow> Frame list \<Rightarrow> chan list \<Rightarrow> (string \<times> nat) list \<Rightarrow> run_pc \<Rightarrow> bool" where
  "run_ok answer rs chs sts pc \<longleftrightarrow>
     (case pc of Delivering c f \<Rightarrow> c < length rs \<and> (f = answer (rs ! c) \<or> fr_Type f = FrameClose) \<and> c \<notin> snd ` set sts \<and> \<not> ch_closed (chs ! c) | _ \<Rightarrow> True)"

text \<open>\<open>rs\<close> are the requests of the calls so far, in order: the call with number \<open>c\<close> uses channel \<open>c\<close> and stream \<open>c + 1\<close>.\<close>

definition ep_ok :: "(Frame \<Rightarrow> Frame) \<Rightarrow> Frame list \<Rightarrow> Endpoint \<Rightarrow> bool" where
  "ep_ok answer rs ep \<longleftrightarrow> chans_ok answer rs (ep_chans ep) \<and> streams_ok (ep_chans ep) (ep_streams ep) \<and>
     run_ok answer rs (ep_chans ep) (ep_streams ep) (ep_run ep) \<and> (\<not> ep_closed ep \<longrightarrow> unat (ep_next ep) = length rs) \<and> ep_panic ep \<noteq> Some PanicStream"

lemma digits_Suc_inj: "nat_digits (Suc a) = nat_digits (Suc b) \<Longrightarrow> a = b"
  using nat_digits_inj by blast

text \<open>Closing channels that are open.\<close>

definition closed_at :: "nat set \<Rightarrow> chan list \<Rightarrow> chan list \<Rightarrow> bool" where
  "closed_at cs chs chs' \<longleftrightarrow> length chs' = length chs \<and>
     (\<forall>j < length chs. ch_buf (chs' ! j) = ch_buf (chs ! j) \<and> (ch_closed (chs' ! j) \<longleftrightarrow> ch_closed (chs ! j) \<or> j \<in> cs))"

lemma close_open:
  assumes "c < length (ep_chans ep)" "\<not> ch_closed (ep_chans ep ! c)"
  shows "\<exists>chs. close_chan c ep = ep\<lparr>ep_chans := chs\<rparr> \<and> closed_at {c} (ep_chans ep) chs"
  using assms by (auto simp: close_chan_def closed_at_def nth_list_update)

lemma close_all:
  assumes "distinct cs" "\<forall>c \<in> set cs. c < length (ep_chans ep) \<and> \<not> ch_closed (ep_chans ep ! c)"
  shows "\<exists>chs. fold close_chan cs ep = ep\<lparr>ep_chans := chs\<rparr> \<and> closed_at (set cs) (ep_chans ep) chs"
  using assms
proof (induction cs arbitrary: ep)
  case Nil
  then show ?case by (intro exI [of _ "ep_chans ep"]) (simp add: closed_at_def)
next
  case (Cons c cs)
  obtain chs where chs: "close_chan c ep = ep\<lparr>ep_chans := chs\<rparr>" "closed_at {c} (ep_chans ep) chs"
    using close_open [of c ep] Cons.prems by auto
  have "\<forall>d \<in> set cs. d < length chs \<and> \<not> ch_closed (chs ! d)" using Cons.prems chs(2) by (auto simp: closed_at_def)
  then obtain chs' where "fold close_chan cs (ep\<lparr>ep_chans := chs\<rparr>) = ep\<lparr>ep_chans := chs'\<rparr>" "closed_at (set cs) chs chs'"
    using Cons.IH [of "ep\<lparr>ep_chans := chs\<rparr>"] Cons.prems(1) by auto
  then show ?case using chs by (auto simp: closed_at_def)
qed

lemma chans_closed: "chans_ok answer rs chs \<Longrightarrow> closed_at cs chs chs' \<Longrightarrow> chans_ok answer rs chs'"
  by (auto simp: chans_ok_def closed_at_def)

lemma fail_ok:
  assumes "ep_ok answer rs ep"
  shows "ep_ok answer rs (fail_endpoint e ep)"
proof (cases "ep_closed ep")
  case False
  have s: "streams_ok (ep_chans ep) (ep_streams ep)" using assms by (simp add: ep_ok_def)
  then obtain chs where chs: "fold close_chan (map snd (ep_streams ep)) ep = ep\<lparr>ep_chans := chs\<rparr>" "closed_at (snd ` set (ep_streams ep)) (ep_chans ep) chs"
    using close_all [of "map snd (ep_streams ep)" ep] by (fastforce simp: streams_ok_def)
  have "run_ok answer rs chs [] (ep_run ep)"
    using assms chs(2) by (auto simp: ep_ok_def run_ok_def closed_at_def chans_ok_def split: run_pc.splits)
  then show ?thesis using assms False chs(1) chans_closed [OF _ chs(2)] by (simp add: fail_endpoint_def close_requests_def ep_ok_def streams_ok_def)
qed (simp add: fail_endpoint_def assms)

lemma fail_open:
  assumes "ep_ok answer rs ep" "\<not> ep_closed ep"
  shows "ep_run (fail_endpoint e ep) = ep_run ep" "ep_panic (fail_endpoint e ep) = ep_panic ep" "ch_closed (ep_requests (fail_endpoint e ep))"
proof -
  have "streams_ok (ep_chans ep) (ep_streams ep)" using assms(1) by (simp add: ep_ok_def)
  then obtain chs where "fold close_chan (map snd (ep_streams ep)) ep = ep\<lparr>ep_chans := chs\<rparr>"
    using close_all [of "map snd (ep_streams ep)" ep] by (fastforce simp: streams_ok_def)
  then show "ep_run (fail_endpoint e ep) = ep_run ep" "ep_panic (fail_endpoint e ep) = ep_panic ep" "ch_closed (ep_requests (fail_endpoint e ep))"
    using assms(2) by (simp_all add: fail_endpoint_def close_requests_def)
qed

lemma streams_delete:
  assumes "streams_ok chs sts" "map_of sts i = Some c"
  shows "streams_ok chs (AList.delete i sts) \<and> c \<notin> snd ` set (AList.delete i sts)"
proof -
  have mem: "(i, c) \<in> set sts" using assms(2) by (rule map_of_SomeD)
  have sub: "set (AList.delete i sts) = {x \<in> set sts. fst x \<noteq> i}" by (auto simp: AList.delete_eq)
  have "distinct (map snd (AList.delete i sts))" using assms(1) by (simp add: streams_ok_def AList.delete_eq distinct_map_filter)
  moreover have "(k, c) \<notin> set sts" if "k \<noteq> i" for k
  proof
    assume "(k, c) \<in> set sts"
    then have "k = nat_digits (Suc c)" "i = nat_digits (Suc c)" using assms(1) mem by (auto simp: streams_ok_def)
    with \<open>k \<noteq> i\<close> show False by simp
  qed
  ultimately have "c \<notin> snd ` set (AList.delete i sts)" "distinct (map snd (AList.delete i sts))" using sub by auto
  then show ?thesis using assms(1) sub by (auto simp: streams_ok_def)
qed

lemma streams_closed:
  assumes "streams_ok chs sts" "closed_at cs chs chs'" "cs \<inter> snd ` set sts = {}"
  shows "streams_ok chs' sts"
proof -
  have "c < length chs' \<and> k = nat_digits (Suc c) \<and> \<not> ch_closed (chs' ! c)" if "(k, c) \<in> set sts" for k c
  proof -
    have "c < length chs" "k = nat_digits (Suc c)" "\<not> ch_closed (chs ! c)" using assms(1) that by (auto simp: streams_ok_def)
    moreover have "c \<notin> cs" using assms(3) that by (metis IntI empty_iff image_eqI snd_conv)
    ultimately show ?thesis using assms(2) by (simp add: closed_at_def)
  qed
  then show ?thesis using assms(1) by (auto simp: streams_ok_def)
qed

lemma run_closed:
  assumes "run_ok answer rs chs sts pc" "closed_at {c} chs chs'" "length chs = length rs" "\<forall>f. pc \<noteq> Delivering c f" "set sts' \<subseteq> set sts"
  shows "run_ok answer rs chs' sts' pc"
  using assms by (auto simp: run_ok_def closed_at_def split: run_pc.splits)

lemma close_ok:
  assumes "ep_ok answer rs ep" "c < length (ep_chans ep)" "\<not> ch_closed (ep_chans ep ! c)" "c \<notin> snd ` set (ep_streams ep)" "\<forall>f. ep_run ep \<noteq> Delivering c f"
  shows "ep_ok answer rs (close_chan c ep)"
proof -
  obtain chs where chs: "close_chan c ep = ep\<lparr>ep_chans := chs\<rparr>" "closed_at {c} (ep_chans ep) chs"
    using close_open [OF assms(2,3)] by blast
  have "chans_ok answer rs chs" using assms(1) chs(2) by (auto simp: ep_ok_def intro: chans_closed)
  moreover have "streams_ok chs (ep_streams ep)" using assms(1,4) chs(2) by (auto simp: ep_ok_def intro: streams_closed)
  moreover have "run_ok answer rs chs (ep_streams ep) (ep_run ep)"
  proof (rule run_closed [OF _ chs(2) _ assms(5) subset_refl])
    show "run_ok answer rs (ep_chans ep) (ep_streams ep) (ep_run ep)" using assms(1) by (simp add: ep_ok_def)
    show "length (ep_chans ep) = length rs" using assms(1) by (simp add: ep_ok_def chans_ok_def)
  qed
  ultimately show ?thesis using assms(1) unfolding chs(1) by (simp add: ep_ok_def)
qed

lemma delete_ok:
  assumes "ep_ok answer rs ep" "map_of (ep_streams ep) i = Some c"
  shows "ep_ok answer rs (ep\<lparr>ep_streams := AList.delete i (ep_streams ep)\<rparr>)" "c < length (ep_chans ep)" "\<not> ch_closed (ep_chans ep ! c)"
    "c \<notin> snd ` set (AList.delete i (ep_streams ep))" "\<forall>f. ep_run ep \<noteq> Delivering c f" "i = nat_digits (Suc c)"
proof -
  have s: "streams_ok (ep_chans ep) (ep_streams ep)" and mem: "(i, c) \<in> set (ep_streams ep)" using assms by (auto simp: ep_ok_def dest: map_of_SomeD)
  show "c < length (ep_chans ep)" "\<not> ch_closed (ep_chans ep ! c)" "i = nat_digits (Suc c)" using s mem by (auto simp: streams_ok_def)
  note d = streams_delete [OF s assms(2)]
  show "c \<notin> snd ` set (AList.delete i (ep_streams ep))" using d by blast
  show "\<forall>f. ep_run ep \<noteq> Delivering c f" using assms(1) mem by (force simp: ep_ok_def run_ok_def)
  have "run_ok answer rs (ep_chans ep) (AList.delete i (ep_streams ep)) (ep_run ep)"
    using assms(1) by (auto simp: ep_ok_def run_ok_def AList.delete_eq split: run_pc.splits)
  then show "ep_ok answer rs (ep\<lparr>ep_streams := AList.delete i (ep_streams ep)\<rparr>)" using assms(1) d by (simp add: ep_ok_def)
qed

lemma remove_ok:
  assumes "ep_ok answer rs ep" shows "ep_ok answer rs (removeStream i ep)"
proof (cases "map_of (ep_streams ep) i")
  case (Some c)
  note d = delete_ok [OF assms Some]
  have "ep_ok answer rs (close_chan c (ep\<lparr>ep_streams := AList.delete i (ep_streams ep)\<rparr>))" using d by (intro close_ok) simp_all
  then show ?thesis using Some by (simp add: removeStream_def)
qed (simp add: removeStream_def assms)

lemma broken_ok: "ep_ok answer rs ep \<Longrightarrow> ep_ok answer rs (run_broken e ep)"
  using fail_ok [of answer rs ep e] by (simp add: run_broken_def ep_ok_def run_ok_def)

definition frame_ok :: "(Frame \<Rightarrow> Frame) \<Rightarrow> Frame list \<Rightarrow> Frame \<Rightarrow> bool" where
  "frame_ok answer rs f \<longleftrightarrow> fr_Type f = FrameRequest \<or> fr_Type f = FrameClose \<or>
     fr_Type f = FrameResponse \<and> fr_End f \<and> (\<exists>c < length rs. f = answer (rs ! c) \<and> fr_StreamID f = nat_digits (Suc c))"

lemma types_distinct [simp]: "FrameRequest \<noteq> FrameClose" "FrameRequest \<noteq> FrameResponse" "FrameClose \<noteq> FrameResponse"
    "FrameClose \<noteq> FrameRequest" "FrameResponse \<noteq> FrameRequest" "FrameResponse \<noteq> FrameClose"
  by (simp_all add: FrameRequest_def FrameClose_def FrameResponse_def)

lemma update_absent: "i \<notin> fst ` set sts \<Longrightarrow> AList.update i c sts = sts @ [(i, c)]"
  by (induction sts) auto

lemma delete_absent: "map_of sts i = None \<Longrightarrow> AList.delete i sts = sts"
  by (induction sts) (auto split: if_splits)

lemma frame_step_ok:
  assumes "ep_ok answer rs ep" "frame_ok answer rs f" "ep_run ep = Reading"
  shows "ep_ok answer rs (run_frame (Inr f) ep)"
proof (cases "fr_Type f = FrameRequest")
  case True
  then show ?thesis using assms(1) by (simp add: run_frame_def ep_ok_def run_ok_def)
next
  case False
  then have f: "fr_Type f = FrameClose \<or> fr_Type f = FrameResponse \<and> fr_End f" using assms(2) by (auto simp: frame_ok_def)
  show ?thesis
  proof (cases "map_of (ep_streams ep) (fr_StreamID f)")
    case None
    with f assms(1) show ?thesis by (auto simp: run_frame_def delete_absent)
  next
    case (Some c)
    let ?ep = "ep\<lparr>ep_streams := AList.delete (fr_StreamID f) (ep_streams ep)\<rparr>"
    note d = delete_ok [OF assms(1) Some]
    have "run_frame (Inr f) ep = ?ep\<lparr>ep_run := Delivering c f\<rparr>" using f Some by (auto simp: run_frame_def)
    moreover have "c < length rs" using d(2) assms(1) by (simp add: ep_ok_def chans_ok_def)
    moreover have "f = answer (rs ! c) \<or> fr_Type f = FrameClose"
      using f assms(2) d(6) digits_Suc_inj by (auto simp: frame_ok_def)
    ultimately show ?thesis using d by (simp add: ep_ok_def run_ok_def)
  qed
qed

lemma deliver_ok:
  assumes "ep_ok answer rs ep" "run_deliver ep = Some ep'" "\<forall>r \<in> set rs. fr_End (answer r)"
  shows "ep_ok answer rs ep'"
proof (cases "ep_run ep")
  case (Delivering c f)
  have r: "c < length (ep_chans ep)" "c < length rs" "f = answer (rs ! c) \<or> fr_Type f = FrameClose" "c \<notin> snd ` set (ep_streams ep)" "\<not> ch_closed (ep_chans ep ! c)"
    using assms(1) Delivering by (auto simp: ep_ok_def run_ok_def chans_ok_def)
  let ?ep = "ep\<lparr>ep_chans := (ep_chans ep)[c := (ep_chans ep ! c)\<lparr>ch_buf := ch_buf (ep_chans ep ! c) @ [f]\<rparr>], ep_run := Reading\<rparr>"
  have "chans_ok answer rs (ep_chans ?ep)" using assms(1) r by (auto simp: ep_ok_def chans_ok_def nth_list_update)
  moreover have "streams_ok (ep_chans ?ep) (ep_streams ep)"
    using assms(1) r by (auto simp: ep_ok_def streams_ok_def nth_list_update)
  ultimately have ok: "ep_ok answer rs ?ep" using assms(1) by (simp add: ep_ok_def run_ok_def)
  have "fr_Type f = FrameClose \<or> fr_End f" using r assms(3) by auto
  then have "ep' = close_chan c ?ep" using assms(2) Delivering r by (auto simp: run_deliver_def Let_def split: if_splits)
  then show ?thesis using ok r by (simp add: close_ok)
qed (use assms(1,2) in \<open>auto simp: run_deliver_def ep_ok_def run_ok_def split: if_splits\<close>)

lemma cancel_ok:
  assumes "ep_ok answer rs ep" "run_cancel ep = Some ep'" "\<forall>r \<in> set rs. fr_End (answer r)"
  shows "ep_ok answer rs ep'"
proof (cases "ep_run ep")
  case (Delivering c f)
  have r: "c < length (ep_chans ep)" "c < length rs" "f = answer (rs ! c) \<or> fr_Type f = FrameClose" "c \<notin> snd ` set (ep_streams ep)" "\<not> ch_closed (ep_chans ep ! c)"
    using assms(1) Delivering by (auto simp: ep_ok_def run_ok_def chans_ok_def)
  have "ep_ok answer rs (ep\<lparr>ep_run := Reading\<rparr>)" using assms(1) by (simp add: ep_ok_def run_ok_def)
  moreover have "fr_Type f = FrameClose \<or> fr_End f" using r assms(3) by auto
  then have "ep' = close_chan c (ep\<lparr>ep_run := Reading\<rparr>)" using assms(2) Delivering by (auto simp: run_cancel_def Let_def)
  ultimately show ?thesis using r by (simp add: close_ok)
qed (use assms(1,2) broken_ok in \<open>auto simp: run_cancel_def\<close>)

lemma open_ok:
  assumes "ep_ok answer rs ep" "do_open ep = (ep', Inr (i, c))" "Suc (length rs) < 2 ^ 64"
  shows "c = length rs" "i = nat_digits (Suc c)" "ep_ok answer (rs @ [r]) ep'"
proof -
  have o: "\<not> ep_closed ep" and c: "c = length (ep_chans ep)" and i: "i = nat_digits (unat (ep_next ep + 1))"
    and ep': "ep' = ep\<lparr>ep_next := ep_next ep + 1, ep_chans := ep_chans ep @ [\<lparr>ch_buf = [], ch_closed = False\<rparr>], ep_streams := AList.update i c (ep_streams ep)\<rparr>"
    using assms(2) by (auto simp: do_open_def Let_def split: if_splits)
  show cr: "c = length rs" using assms(1) c by (simp add: ep_ok_def chans_ok_def)
  have nx: "unat (ep_next ep) = length rs" using assms(1) o by (simp add: ep_ok_def)
  have un: "unat (ep_next ep + 1) = Suc (length rs)"
    using nx assms(3) by (subst unat_add_lem [THEN iffD1]) simp_all
  show ic: "i = nat_digits (Suc c)" using i un cr by simp
  have s: "streams_ok (ep_chans ep) (ep_streams ep)" using assms(1) by (simp add: ep_ok_def)
  have "i \<notin> fst ` set (ep_streams ep)"
  proof
    assume "i \<in> fst ` set (ep_streams ep)"
    then obtain d where "(i, d) \<in> set (ep_streams ep)" by auto
    then have "d < c" "i = nat_digits (Suc d)" using s c by (auto simp: streams_ok_def)
    with ic show False using digits_Suc_inj by blast
  qed
  then have upd: "AList.update i c (ep_streams ep) = ep_streams ep @ [(i, c)]" by (rule update_absent)
  have "streams_ok (ep_chans ep @ [\<lparr>ch_buf = [], ch_closed = False\<rparr>]) (ep_streams ep @ [(i, c)])"
    using s c ic by (fastforce simp: streams_ok_def nth_append)
  moreover have "chans_ok answer (rs @ [r]) (ep_chans ep @ [\<lparr>ch_buf = [], ch_closed = False\<rparr>])"
    using assms(1) by (auto simp: ep_ok_def chans_ok_def nth_append)
  moreover have "run_ok answer (rs @ [r]) (ep_chans ep @ [\<lparr>ch_buf = [], ch_closed = False\<rparr>]) (ep_streams ep @ [(i, c)]) (ep_run ep)"
    using assms(1) cr by (auto simp: ep_ok_def chans_ok_def run_ok_def nth_append split: run_pc.splits)
  ultimately show "ep_ok answer (rs @ [r]) ep'" using assms(1) un upd ep' by (simp add: ep_ok_def)
qed

lemma open_refused: "ep_ok answer rs ep \<Longrightarrow> do_open ep = (ep', Inl e) \<Longrightarrow> ep_ok answer rs ep'"
  by (auto simp: do_open_def Let_def ep_ok_def split: if_splits)

lemma receive_ok:
  assumes "ep_ok answer rs ep" "do_receive canon cl ep = Some (ep', cl')" "cl_chan cl < length rs"
  shows "ep_ok answer rs ep'"
    "(\<exists>f. cl' = take_frame canon f cl \<and> (f = answer (rs ! cl_chan cl) \<or> fr_Type f = FrameClose)) \<or> (\<exists>e. cl' = cl\<lparr>cl_result := Some (CallError e)\<rparr>)"
proof -
  let ?ch = "ep_chans ep ! cl_chan cl"
  have len: "length (ep_chans ep) = length rs" using assms(1) by (simp add: ep_ok_def chans_ok_def)
  show "ep_ok answer rs ep'"
  proof (cases "ch_buf ?ch")
    case (Cons f fs)
    let ?chs = "(ep_chans ep)[cl_chan cl := ?ch\<lparr>ch_buf := fs\<rparr>]"
    have b: "set fs \<subseteq> set (ch_buf ?ch)" using Cons by auto
    have "chans_ok answer rs ?chs" using assms(1,3) b len by (auto simp: ep_ok_def chans_ok_def nth_list_update)
    moreover have "streams_ok ?chs (ep_streams ep)" using assms(1,3) len by (auto simp: ep_ok_def streams_ok_def nth_list_update)
    moreover have "run_ok answer rs ?chs (ep_streams ep) (ep_run ep)"
      using assms(1,3) len by (auto simp: ep_ok_def run_ok_def nth_list_update split: run_pc.splits)
    ultimately show ?thesis using assms(1,2) Cons by (auto simp: do_receive_def Let_def ep_ok_def)
  qed (use assms(1,2) in \<open>auto simp: do_receive_def Let_def split: if_splits\<close>)
  show "(\<exists>f. cl' = take_frame canon f cl \<and> (f = answer (rs ! cl_chan cl) \<or> fr_Type f = FrameClose)) \<or> (\<exists>e. cl' = cl\<lparr>cl_result := Some (CallError e)\<rparr>)"
  proof (cases "ch_buf ?ch")
    case (Cons f fs)
    have "f = answer (rs ! cl_chan cl) \<or> fr_Type f = FrameClose" using assms(1,3) Cons by (auto simp: ep_ok_def chans_ok_def)
    then show ?thesis using assms(2) Cons by (auto simp: do_receive_def Let_def)
  qed (use assms(2) in \<open>auto simp: do_receive_def Let_def split: if_splits\<close>)
qed

section \<open>Responses belong to their requests\<close>

text \<open>What a call should return for the answer to its request.\<close>

definition response_of :: "(string \<Rightarrow> string) \<Rightarrow> Frame \<Rightarrow> call_result" where
  "response_of canon f =
     Response (if fr_Status f = 0 then 502 else fr_Status f) (if fr_Status f = 0 then [] else cloneHeader canon (fr_Headers f)) (fr_Body f)"

definition result_ok :: "(string \<Rightarrow> string) \<Rightarrow> Frame \<Rightarrow> tunnel_call \<Rightarrow> bool" where
  "result_ok canon ans cl \<longleftrightarrow>
     (case cl_result cl of
        None \<Rightarrow> cl_status cl = 0 \<and> cl_headers cl = [] \<and> cl_buf cl = []
      | Some (CallError e) \<Rightarrow> True
      | Some r \<Rightarrow> r = response_of canon ans)"

definition call_ok :: "(string \<Rightarrow> string) \<Rightarrow> (Frame \<Rightarrow> Frame) \<Rightarrow> nat \<Rightarrow> tunnel_call \<Rightarrow> bool" where
  "call_ok canon answer n cl \<longleftrightarrow> cl_chan cl = n \<and> fr_StreamID (cl_req cl) = nat_digits (Suc n) \<and> result_ok canon (answer (cl_req cl)) cl"

lemma take_ok:
  assumes "result_ok canon ans cl" "cl_result cl = None" "f = ans \<or> fr_Type f = FrameClose" "fr_Type ans = FrameResponse" "fr_End ans"
  shows "result_ok canon ans (take_frame canon f cl)" "cl_chan (take_frame canon f cl) = cl_chan cl" "cl_req (take_frame canon f cl) = cl_req cl"
  using assms by (auto simp: result_ok_def take_frame_def response_of_def Let_def)

lemma serveOne_frame [simp]:
  "fr_Type (serveOne canon handler f) = FrameResponse" "fr_End (serveOne canon handler f)" "fr_StreamID (serveOne canon handler f) = fr_StreamID f"
  by (simp_all add: serveOne_def Let_def split: prod.splits)

definition tunnel_ok :: "(string \<Rightarrow> string) \<Rightarrow> (Frame \<Rightarrow> Frame) \<Rightarrow> tunnel \<Rightarrow> bool" where
  "tunnel_ok canon answer t \<longleftrightarrow>
     (let rs = map cl_req (tn_calls t)
      in ep_ok answer rs (tn_ep t) \<and> set (tn_pending t) \<subseteq> set rs \<and> (\<forall>f \<in> set (tn_wire t). frame_ok answer rs f) \<and>
         (\<forall>n < length (tn_calls t). call_ok canon answer n (tn_calls t ! n)))"

lemma frame_ok_append: "frame_ok answer rs f \<Longrightarrow> frame_ok answer (rs @ qs) f"
  by (force simp: frame_ok_def nth_append)

lemma tunnel_okI:
  assumes "ep_ok answer (map cl_req (tn_calls t)) (tn_ep t)" "set (tn_pending t) \<subseteq> set (map cl_req (tn_calls t))"
    "\<And>f. f \<in> set (tn_wire t) \<Longrightarrow> frame_ok answer (map cl_req (tn_calls t)) f" "\<And>n. n < length (tn_calls t) \<Longrightarrow> call_ok canon answer n (tn_calls t ! n)"
  shows "tunnel_ok canon answer t"
  using assms by (simp add: tunnel_ok_def)

lemma tunnel_okD:
  assumes "tunnel_ok canon answer t"
  shows "ep_ok answer (map cl_req (tn_calls t)) (tn_ep t)" "set (tn_pending t) \<subseteq> set (map cl_req (tn_calls t))"
    "f \<in> set (tn_wire t) \<Longrightarrow> frame_ok answer (map cl_req (tn_calls t)) f" "n < length (tn_calls t) \<Longrightarrow> call_ok canon answer n (tn_calls t ! n)"
  using assms by (simp_all add: tunnel_ok_def Let_def)

lemma tunnel_ep_ok: "tunnel_ok canon answer t \<Longrightarrow> ep_ok answer (map cl_req (tn_calls t)) ep \<Longrightarrow> tunnel_ok canon answer (t\<lparr>tn_ep := ep\<rparr>)"
  by (simp add: tunnel_ok_def Let_def)

lemma begin_ok:
  assumes "tunnel_ok canon answer t" "length (tn_calls (do_begin canon sent meth path hs body t)) < 2 ^ 64"
  shows "tunnel_ok canon answer (do_begin canon sent meth path hs body t)"
proof -
  note t = tunnel_okD [OF assms(1)]
  obtain ep r where o: "do_open (tn_ep t) = (ep, r)" by (rule prod.exhaust)
  show ?thesis
  proof (cases r)
    case (Inl e)
    then show ?thesis using o open_refused [OF t(1)] assms(1) by (simp add: do_begin_def tunnel_ep_ok)
  next
    case (Inr x)
    obtain i c where x: "x = (i, c)" by (rule prod.exhaust)
    let ?f = "request_frame i meth path (cloneHeader canon hs) body"
    have len: "Suc (length (map cl_req (tn_calls t))) < 2 ^ 64" using assms(2) o Inr x by (simp add: do_begin_def Let_def split: option.splits)
    have o': "do_open (tn_ep t) = (ep, Inr (i, c))" using o Inr x by simp
    note ok = open_ok [OF t(1) o' len]
    have cl: "call_ok canon answer (length (tn_calls t)) (new_call i c ?f)" "call_ok canon answer (length (tn_calls t)) ((new_call i c ?f)\<lparr>cl_result := Some (CallError e)\<rparr>)" for e
      using ok(1,2) by (simp_all add: call_ok_def new_call_def request_frame_def result_ok_def)
    have req: "cl_req (new_call i c ?f) = ?f" by (simp add: new_call_def)
    show ?thesis
    proof (cases sent)
      case None
      have "tunnel_ok canon answer (t\<lparr>tn_ep := ep, tn_calls := tn_calls t @ [new_call i c ?f], tn_pending := ?f # tn_pending t\<rparr>)"
        using t ok(3) [of ?f] cl(1) req by (intro tunnel_okI) (auto simp: nth_append less_Suc_eq intro: frame_ok_append)
      then show ?thesis using o' None by (simp add: do_begin_def Let_def)
    next
      case (Some e)
      have "tunnel_ok canon answer (t\<lparr>tn_ep := removeStream i ep, tn_calls := tn_calls t @ [(new_call i c ?f)\<lparr>cl_result := Some (CallError e)\<rparr>],
          tn_pending := ?f # tn_pending t\<rparr>)"
        using t remove_ok [OF ok(3) [of ?f]] cl(2) req by (intro tunnel_okI) (auto simp: nth_append less_Suc_eq intro: frame_ok_append)
      then show ?thesis using o' Some by (simp add: do_begin_def Let_def)
    qed
  qed
qed

lemma update_call_ok:
  assumes "tunnel_ok canon answer t" "ep_ok answer (map cl_req (tn_calls t)) ep" "n < length (tn_calls t)" "call_ok canon answer n cl" "cl_req cl = cl_req (tn_calls t ! n)"
  shows "tunnel_ok canon answer (t\<lparr>tn_ep := ep, tn_calls := (tn_calls t)[n := cl]\<rparr>)"
proof -
  note t = tunnel_okD [OF assms(1)]
  have m: "map cl_req ((tn_calls t)[n := cl]) = map cl_req (tn_calls t)"
    using assms(3,5) by (metis list_update_id map_update)
  show ?thesis using t assms(2-4) m by (intro tunnel_okI) (auto simp: nth_list_update simp del: map_update)
qed

lemma step_ok:
  assumes "tunnel_step canon handler t t'" "tunnel_ok canon (serveOne canon handler) t" "length (tn_calls t') < 2 ^ 64"
  shows "tunnel_ok canon (serveOne canon handler) t'"
  using assms(1)
proof cases
  case (begins sent meth path hs body)
  then show ?thesis using assms begin_ok by blast
next
  case (answers f)
  note t = tunnel_okD [OF assms(2)]
  obtain n where n: "n < length (tn_calls t)" "f = cl_req (tn_calls t ! n)" using answers(2) t(2) by (force simp: in_set_conv_nth)
  have "fr_StreamID f = nat_digits (Suc n)" using t(4) [OF n(1)] n(2) by (simp add: call_ok_def)
  then have "frame_ok (serveOne canon handler) (map cl_req (tn_calls t)) (serveOne canon handler f)"
    using n by (auto simp: frame_ok_def)
  then show ?thesis using answers(1) t set_remove1_subset [of f "tn_pending t"] by (intro tunnel_okI) auto
next
  case (asks f)
  then show ?thesis using assms(2) by (auto simp: tunnel_ok_def Let_def frame_ok_def)
next
  case (reads f fs)
  note t = tunnel_okD [OF assms(2)]
  have "ep_ok (serveOne canon handler) (map cl_req (tn_calls t)) (run_frame (Inr f) (tn_ep t))"
    using reads t by (intro frame_step_ok) auto
  then show ?thesis using reads t by (intro tunnel_okI) auto
next
  case (garbage e)
  then show ?thesis using tunnel_okD(1) [OF assms(2)] assms(2) by (simp add: on_ep_def run_frame_def broken_ok tunnel_ep_ok)
next
  case (delivers ep)
  then show ?thesis using deliver_ok [OF tunnel_okD(1) [OF assms(2)]] assms(2) by (simp add: tunnel_ep_ok)
next
  case (broken e)
  then show ?thesis using tunnel_okD(1) [OF assms(2)] assms(2) by (simp add: on_ep_def broken_ok tunnel_ep_ok)
next
  case (aborts ep)
  then show ?thesis using cancel_ok [OF tunnel_okD(1) [OF assms(2)]] assms(2) by (simp add: tunnel_ep_ok)
next
  case (receives n ep cl)
  note t = tunnel_okD [OF assms(2)]
  have c: "call_ok canon (serveOne canon handler) n (tn_calls t ! n)" using t(4) receives(2) by blast
  then have n: "cl_chan (tn_calls t ! n) = n" by (simp add: call_ok_def)
  then have "cl_chan (tn_calls t ! n) < length (map cl_req (tn_calls t))" using receives(2) by simp
  note r = receive_ok [OF t(1) receives(4) this]
  have "call_ok canon (serveOne canon handler) n cl \<and> cl_req cl = cl_req (tn_calls t ! n)"
    using r(2)
  proof
    assume "\<exists>f. cl = take_frame canon f (tn_calls t ! n) \<and> (f = serveOne canon handler (map cl_req (tn_calls t) ! cl_chan (tn_calls t ! n)) \<or> fr_Type f = FrameClose)"
    then obtain f where f: "cl = take_frame canon f (tn_calls t ! n)" "f = serveOne canon handler (cl_req (tn_calls t ! n)) \<or> fr_Type f = FrameClose"
      using n receives(2) by auto
    have "result_ok canon (serveOne canon handler (cl_req (tn_calls t ! n))) (tn_calls t ! n)" using c by (simp add: call_ok_def)
    note k = take_ok [OF this receives(3) f(2)]
    show ?thesis using c f(1) k by (simp add: call_ok_def)
  next
    assume "\<exists>e. cl = (tn_calls t ! n)\<lparr>cl_result := Some (CallError e)\<rparr>"
    then show ?thesis using c by (auto simp: call_ok_def result_ok_def)
  qed
  then show ?thesis using receives(1,2) update_call_ok [OF assms(2) r(1)] by blast
next
  case (gives_up n e)
  note t = tunnel_okD [OF assms(2)]
  have "call_ok canon (serveOne canon handler) n ((tn_calls t ! n)\<lparr>cl_result := Some (CallError e)\<rparr>)"
    using t(4) gives_up(2) by (simp add: call_ok_def result_ok_def)
  then show ?thesis using gives_up update_call_ok [OF assms(2) remove_ok [OF t(1)]] by simp
next
  case (fails e)
  then show ?thesis using tunnel_okD(1) [OF assms(2)] assms(2) by (simp add: on_ep_def fail_ok tunnel_ep_ok)
qed

lemma step_calls: "tunnel_step canon handler t t' \<Longrightarrow> length (tn_calls t) \<le> length (tn_calls t')"
  by (induction rule: tunnel_step.induct) (auto simp: do_begin_def on_ep_def Let_def split: prod.splits sum.splits option.splits)

lemma run_ok_calls:
  assumes "(tunnel_step canon handler)\<^sup>*\<^sup>* new_tunnel t" "length (tn_calls t) < 2 ^ 64"
  shows "tunnel_ok canon (serveOne canon handler) t"
  using assms
proof (induction rule: rtranclp_induct)
  case base
  then show ?case by (simp add: tunnel_ok_def new_tunnel_def NewEndpoint_def ep_ok_def chans_ok_def streams_ok_def run_ok_def)
next
  case (step t t')
  then show ?case using step_ok step_calls le_less_trans by blast
qed

section \<open>Runs to follow\<close>

text \<open>Steps as functions, the identity where the step is not possible.\<close>

type_synonym http_handler = "string \<Rightarrow> string \<Rightarrow> headers \<Rightarrow> string \<Rightarrow> int \<times> headers \<times> string"

definition act_answer :: "http_handler \<Rightarrow> nat \<Rightarrow> tunnel \<Rightarrow> tunnel" where
  "act_answer handler n t =
     (if n < length (tn_pending t) then t\<lparr>tn_pending := remove1 (tn_pending t ! n) (tn_pending t), tn_wire := tn_wire t @ [serveOne id handler (tn_pending t ! n)]\<rparr>
      else t)"

definition act_read :: "tunnel \<Rightarrow> tunnel" where
  "act_read t =
     (case tn_wire t of
        f # fs \<Rightarrow> if ep_run (tn_ep t) = Reading \<and> ep_panic (tn_ep t) = None then t\<lparr>tn_ep := run_frame (Inr f) (tn_ep t), tn_wire := fs\<rparr> else t
      | [] \<Rightarrow> t)"

definition act_deliver :: "tunnel \<Rightarrow> tunnel" where
  "act_deliver t =
     (case run_deliver (tn_ep t) of Some ep \<Rightarrow> if ep_panic (tn_ep t) = None then t\<lparr>tn_ep := ep\<rparr> else t | None \<Rightarrow> t)"

definition act_receive :: "nat \<Rightarrow> tunnel \<Rightarrow> tunnel" where
  "act_receive n t =
     (if n < length (tn_calls t) \<and> cl_result (tn_calls t ! n) = None
      then case do_receive id (tn_calls t ! n) (tn_ep t) of Some (ep, cl) \<Rightarrow> t\<lparr>tn_ep := ep, tn_calls := (tn_calls t)[n := cl]\<rparr> | None \<Rightarrow> t
      else t)"

definition reach :: "(string \<Rightarrow> string) \<Rightarrow> http_handler \<Rightarrow> tunnel \<Rightarrow> tunnel \<Rightarrow> bool" where
  "reach canon handler = (tunnel_step canon handler)\<^sup>*\<^sup>*"

lemma reach_refl: "reach canon handler t t" by (simp add: reach_def)

lemma reach_step: "reach canon handler t t' \<Longrightarrow> tunnel_step canon handler t' t'' \<Longrightarrow> reach canon handler t t''"
  by (simp add: reach_def)

lemma reach_act:
  assumes "reach id handler t0 t"
  shows "reach id handler t0 (do_begin id sent meth path hs body t)" "reach id handler t0 (act_answer handler n t)" "reach id handler t0 (act_read t)"
    "reach id handler t0 (act_deliver t)" "reach id handler t0 (act_receive n t)"
proof -
  show "reach id handler t0 (do_begin id sent meth path hs body t)" using assms by (rule reach_step) (rule begins)
  show "reach id handler t0 (act_answer handler n t)"
    using assms reach_step [OF assms answers [of "tn_pending t ! n" t]] by (simp add: act_answer_def)
  show "reach id handler t0 (act_read t)" using assms by (auto simp: act_read_def split: list.splits intro: reach_step reads)
  show "reach id handler t0 (act_deliver t)" using assms by (auto simp: act_deliver_def split: option.splits intro: reach_step delivers)
  show "reach id handler t0 (act_receive n t)" using assms by (auto simp: act_receive_def split: option.splits intro: reach_step receives)
qed

text \<open>C17. A call that gets a response gets the answer of the peer's handler to its own request, status, headers and body, however calls, answers,
  cancellations and failures of the connection interleave, for fewer than \<open>2 ^ 64\<close> calls; and no send to the channel of a call, and no
  closing of it, ever finds it closed.\<close>

theorem responses_matched:
  assumes "reach canon handler new_tunnel t" "length (tn_calls t) < 2 ^ 64"
  shows "ep_panic (tn_ep t) \<noteq> Some PanicStream \<and>
     (\<forall>cl \<in> set (tn_calls t). \<forall>status hs body. cl_result cl = Some (Response status hs body) \<longrightarrow>
        Response status hs body = response_of canon (serveOne canon handler (cl_req cl)))"
proof
  have ok: "tunnel_ok canon (serveOne canon handler) t" using assms run_ok_calls by (simp add: reach_def)
  show "ep_panic (tn_ep t) \<noteq> Some PanicStream" using tunnel_okD(1) [OF ok] by (simp add: ep_ok_def)
  show "\<forall>cl \<in> set (tn_calls t). \<forall>status hs body. cl_result cl = Some (Response status hs body) \<longrightarrow>
        Response status hs body = response_of canon (serveOne canon handler (cl_req cl))"
    using tunnel_okD(4) [OF ok] by (fastforce simp: in_set_conv_nth call_ok_def result_ok_def)
qed

text \<open>Two calls that are answered in the other order.\<close>

definition echo_handler :: http_handler where
  "echo_handler meth path hs body = (200, [], path @ body)"

definition crossed :: tunnel where
  "crossed = (let t0 = do_begin id None ''GET'' ''/b'' [] ''2'' (do_begin id None ''GET'' ''/a'' [] ''1'' new_tunnel);
                  t1 = act_answer echo_handler 0 (act_answer echo_handler 0 t0)
              in act_receive 0 (act_deliver (act_read (act_receive 1 (act_deliver (act_read t1))))))"

theorem responses_matched_witness:
  "map cl_result (tn_calls crossed) = [Some (Response 200 [] ''/a1''), Some (Response 200 [] ''/b2'')] \<and> map fr_Path (map cl_req (tn_calls crossed)) = [''/a'', ''/b''] \<and>
   Response 200 [] ''/a1'' = response_of id (serveOne id echo_handler (cl_req (tn_calls crossed ! 0)))"
proof -
  have r: "reach id echo_handler new_tunnel crossed" by (simp add: crossed_def Let_def reach_act reach_refl)
  have m: "map cl_result (tn_calls crossed) = [Some (Response 200 [] ''/a1''), Some (Response 200 [] ''/b2'')]" "map fr_Path (map cl_req (tn_calls crossed)) = [''/a'', ''/b'']"
    by code_simp+
  have len: "length (tn_calls crossed) = 2" using arg_cong [OF m(1), of length] by simp
  have "cl_result (tn_calls crossed ! 0) = Some (Response 200 [] ''/a1'')" using arg_cong [OF m(1), of "\<lambda>xs. xs ! 0"] len by simp
  moreover have "tn_calls crossed ! 0 \<in> set (tn_calls crossed)" using len by simp
  moreover have "length (tn_calls crossed) < 2 ^ 64" using len by simp
  ultimately show ?thesis using r m responses_matched [of id echo_handler crossed] by blast
qed

text \<open>C37. Wherever the reader has a request in front of it on an endpoint that is open, there is a run that ends in a panic: the reader takes the
  frame, a failed ping or a \<^verbatim>\<open>Close\<close> closes the queue of requests, and the reader sends the frame to it.\<close>

theorem request_race_panics:
  assumes "reach canon handler new_tunnel t" "length (tn_calls t) < 2 ^ 64" "tn_wire t = f # fs" "fr_Type f = FrameRequest"
    "ep_run (tn_ep t) = Reading" "ep_panic (tn_ep t) = None" "\<not> ep_closed (tn_ep t)"
  shows "\<exists>t'. reach canon handler t t' \<and> ep_panic (tn_ep t') = Some PanicRequests"
proof -
  have ok: "ep_ok (serveOne canon handler) (map cl_req (tn_calls t)) (tn_ep t)" using tunnel_okD(1) [OF run_ok_calls] assms(1,2) by (simp add: reach_def)
  let ?e1 = "(tn_ep t)\<lparr>ep_run := Requesting f\<rparr>"
  let ?t1 = "t\<lparr>tn_ep := run_frame (Inr f) (tn_ep t), tn_wire := fs\<rparr>"
  let ?e2 = "fail_endpoint PingFailed ?e1"
  let ?t2 = "on_ep (fail_endpoint PingFailed) ?t1"
  have 1: "tunnel_step canon handler t ?t1" using assms(3,5,6) by (rule reads)
  have e2: "tn_ep ?t2 = ?e2" using assms(4) by (simp add: on_ep_def run_frame_def)
  have "ep_ok (serveOne canon handler) (map cl_req (tn_calls t)) ?e1" using ok by (simp add: ep_ok_def run_ok_def)
  note run = fail_open [OF this, of PingFailed, simplified, OF assms(7)]
  have "run_deliver (tn_ep ?t2) = Some (?e2\<lparr>ep_panic := Some PanicRequests\<rparr>)" unfolding e2 using run by (simp add: run_deliver_def)
  moreover have "ep_panic (tn_ep ?t2) = None" unfolding e2 using run assms(6) by simp
  ultimately have 3: "tunnel_step canon handler ?t2 (?t2\<lparr>tn_ep := ?e2\<lparr>ep_panic := Some PanicRequests\<rparr>\<rparr>)" by (rule delivers)
  have "reach canon handler t (?t2\<lparr>tn_ep := ?e2\<lparr>ep_panic := Some PanicRequests\<rparr>\<rparr>)"
    using reach_step [OF reach_step [OF reach_step [OF reach_refl 1] fails] 3] .
  then show ?thesis by (intro exI [of _ "?t2\<lparr>tn_ep := ?e2\<lparr>ep_panic := Some PanicRequests\<rparr>\<rparr>"]) simp
qed

text \<open>The first request that a worker is sent.\<close>

definition health_check :: Frame where
  "health_check = request_frame ''1'' ''GET'' ''/health'' [] []"

theorem request_race_panics_witness:
  "\<exists>t'. reach id echo_handler (new_tunnel\<lparr>tn_wire := [health_check]\<rparr>) t' \<and> ep_panic (tn_ep t') = Some PanicRequests"
proof (rule request_race_panics)
  have "fr_Type health_check = FrameRequest" by (simp add: health_check_def request_frame_def)
  then show "fr_Type health_check = FrameRequest" "reach id echo_handler new_tunnel (new_tunnel\<lparr>tn_wire := [health_check]\<rparr>)"
    using reach_step [OF reach_refl asks [where f = health_check and t = new_tunnel]] by (simp_all add: new_tunnel_def)
qed (simp_all add: new_tunnel_def NewEndpoint_def)

section \<open>The coding of frames\<close>

text \<open>
  A frame comes back from its coding, whatever bytes its body holds, line breaks too, when the header is coded without line breaks.
\<close>

lemma frame_roundtrip:
  assumes "dec (enc (f\<lparr>fr_Body := []\<rparr>)) = Some (f\<lparr>fr_Body := []\<rparr>)" "CHR 0x0A \<notin> set (enc (f\<lparr>fr_Body := []\<rparr>))"
    "canonicalHeader canon (fr_Headers f) = fr_Headers f" "trim_space (fr_Type f) \<noteq> []" "trim_space (fr_StreamID f) \<noteq> []"
  shows "DecodeFrame dec canon (EncodeFrame enc f) = Inr f"
proof -
  have "takeWhile (\<lambda>c. c \<noteq> CHR 0x0A) (EncodeFrame enc f) = enc (f\<lparr>fr_Body := []\<rparr>)"
    using assms(2) by (auto simp: EncodeFrame_def takeWhile_append)
  then show ?thesis using assms by (simp add: DecodeFrame_def EncodeFrame_def Let_def)
qed

lemma frame_needs_separator: "CHR 0x0A \<notin> set data \<Longrightarrow> DecodeFrame dec canon data = Inl NoSeparator"
proof -
  assume "CHR 0x0A \<notin> set data"
  then have "takeWhile (\<lambda>c. c \<noteq> CHR 0x0A) data = data" by (auto simp: takeWhile_eq_all_conv)
  then show ?thesis by (simp only: DecodeFrame_def Let_def if_True simp_thms)
qed

section \<open>The registry of tunnels\<close>

text \<open>Endpoints are addresses in \<open>rg_eps\<close>; \<open>None\<close> is a nil endpoint.\<close>

record tunnel_entry =
  tu_WorkerID :: string
  tu_Endpoint :: nat
  tu_LastHandshake :: int

record tunnel_registry =
  rg_tunnels :: "(string \<times> tunnel_entry) list"
  rg_eps :: "Endpoint list"

definition NewRegistry_tn :: "Endpoint list \<Rightarrow> tunnel_registry" where
  "NewRegistry_tn eps = \<lparr>rg_tunnels = [], rg_eps = eps\<rparr>"

definition Close_endpoint :: "nat \<Rightarrow> tunnel_registry \<Rightarrow> tunnel_registry" where
  "Close_endpoint e r = r\<lparr>rg_eps := (rg_eps r)[e := fail_endpoint ErrClosed_tn (rg_eps r ! e)]\<rparr>"

definition Register_tn :: "int \<Rightarrow> string \<Rightarrow> nat option \<Rightarrow> tunnel_registry \<Rightarrow> tunnel_registry \<times> tunnel_entry option" where
  "Register_tn now w ep r =
     (case ep of
        None \<Rightarrow> (r, None)
      | Some e \<Rightarrow>
         if trim_space w = [] then (r, None)
         else let t = \<lparr>tu_WorkerID = trim_space w, tu_Endpoint = e, tu_LastHandshake = now\<rparr>;
                  old = map_of (rg_tunnels r) (trim_space w);
                  r1 = r\<lparr>rg_tunnels := AList.update (trim_space w) t (rg_tunnels r)\<rparr>
              in (case old of None \<Rightarrow> r1 | Some o' \<Rightarrow> Close_endpoint (tu_Endpoint o') r1, Some t))"

definition Remove_tn :: "string \<Rightarrow> nat option \<Rightarrow> tunnel_registry \<Rightarrow> tunnel_registry \<times> bool" where
  "Remove_tn w ep r =
     (case map_of (rg_tunnels r) w of
        None \<Rightarrow> (r, False)
      | Some cur \<Rightarrow> if ep = None \<or> ep = Some (tu_Endpoint cur) then (r\<lparr>rg_tunnels := AList.delete w (rg_tunnels r)\<rparr>, True) else (r, False))"

text \<open>The endpoint a request for the worker goes to (\<^verbatim>\<open>Registry.Do\<close>, before \<^verbatim>\<open>Endpoint.Do\<close>).\<close>

definition Do_tn :: "string \<Rightarrow> tunnel_registry \<Rightarrow> tunnel_error + nat" where
  "Do_tn w r = (case map_of (rg_tunnels r) (trim_space w) of None \<Rightarrow> Inl ErrClosed_tn | Some t \<Rightarrow> Inr (tu_Endpoint t))"

definition Status_tn :: "string \<Rightarrow> tunnel_registry \<Rightarrow> int option" where
  "Status_tn w r = map_option tu_LastHandshake (map_of (rg_tunnels r) (trim_space w))"

definition Snapshot_tn :: "tunnel_registry \<Rightarrow> (string \<times> int) list" where
  "Snapshot_tn r = map (\<lambda>(k, t). (k, tu_LastHandshake t)) (rg_tunnels r)"

lemma snapshot_status: "map_of (Snapshot_tn r) (trim_space w) = Status_tn w r"
proof -
  have "map_of (map (\<lambda>(k, t). (k, tu_LastHandshake t)) ts) k = map_option tu_LastHandshake (map_of ts k)" for ts k
    by (induction ts) auto
  then show ?thesis by (simp add: Snapshot_tn_def Status_tn_def)
qed

text \<open>
  A worker that connects again while its old connection is still there: the new endpoint takes the requests, the old one is closed, and
  the reader of the old one, when it ends, takes nothing away.
\<close>

lemma superseded_stays:
  assumes "trim_space w = w" "w \<noteq> []" "e1 \<noteq> e2" "map_of (rg_tunnels r) w = Some t" "tu_Endpoint t = e1" "e1 < length (rg_eps r)"
  shows "let r' = fst (Register_tn now w (Some e2) r)
         in Do_tn w r' = Inr e2 \<and> ep_closed (rg_eps r' ! e1) \<and> Remove_tn w (Some e1) r' = (r', False) \<and> Status_tn w r' = Some now"
  using assms
  by (simp add: Register_tn_def Close_endpoint_def Do_tn_def Remove_tn_def Status_tn_def Let_def update_conv' fail_endpoint_def close_requests_def)

end
