(* ===== verification/Sessions.thy ===== *)
theory Sessions
  imports Task_Protocol
begin

text \<open>
  Sessions of agents: the table of a worker's database (\<^verbatim>\<open>internal/store/store.go\<close>, \<^verbatim>\<open>queries.go\<close>) and the
  session manager that writes the files of a session and opens and closes its row
  (\<^verbatim>\<open>internal/runtime/session_manager.go\<close>).

  \<^item> The table is kept beside the other tables in \<open>session_db\<close>; \<open>sd_next\<close> is the value of \<^verbatim>\<open>AUTOINCREMENT\<close>.
    A coordinator (\<open>sd_coordinator\<close>) has no such table: reading finds nothing, writing fails.
  \<^item> The status of a session that is read is that of its task, if there is one.
  \<^item> Files are texts by path. \<open>fi_refuse\<close> says which paths cannot be created or written at the moment, \<open>enc\<close> is the coding
    of the metadata. The write of a route and the announcement to the coordinator, whose failures are only logged, are
    effects (\<open>session_effect\<close>).
  \<^item> The average of durations is kept as their sum and number.

  Shown here: once the task of a session is settled, the status that is shown stays the outcome of the task, whatever is
  done to sessions and queue, unless a start-up recovery had read the task while it was running; the pages of the listing put together are the listing; the files of a session hold what
  was written; and what closing a session leaves in the table.
\<close>

section \<open>The table\<close>

record SessionRecord =
  sn_ID :: int
  sn_SessionID :: string
  sn_TaskID :: string
  sn_Repo :: string
  sn_IssueNum :: int
  sn_AgentName :: string
  sn_Runtime :: string
  sn_WorkerID :: string
  sn_Attempt :: int
  sn_Status :: string
  sn_Dir :: string
  sn_StdoutPath :: string
  sn_StderrPath :: string
  sn_ToolCallsPath :: string
  sn_MetadataPath :: string
  sn_Summary :: string
  sn_RawPath :: string
  sn_CreatedAt :: time
  sn_ClosedAt :: "time option"

record session_db =
  sd_store :: store
  sd_rows :: "SessionRecord list"
  sd_next :: int
  sd_coordinator :: bool

datatype session_error = SessionDB store_error | SessionNotFound string | MissingSessionID | FileFailed string

definition nullableTime :: "time option \<Rightarrow> time option" where
  "nullableTime t = map_option sql_time t"

text \<open>\<^verbatim>\<open>COALESCE(t.status, s.status)\<close> over the left join with the queue.\<close>

definition shown_status :: "store \<Rightarrow> SessionRecord \<Rightarrow> string" where
  "shown_status s r = (case task_by_id (sn_TaskID r) s of None \<Rightarrow> sn_Status r | Some t \<Rightarrow> t_Status t)"

definition joined :: "session_db \<Rightarrow> SessionRecord list" where
  "joined d = map (\<lambda>r. r\<lparr>sn_Status := shown_status (sd_store d) r\<rparr>) (sd_rows d)"

definition CreateSession :: "SessionRecord \<Rightarrow> session_db \<Rightarrow> session_db \<times> (session_error + int)" where
  "CreateSession r d =
     (if sd_coordinator d \<or> faults (sd_store d) OpSessions then (d, Inl (SessionDB (DBError OpSessions)))
      else if sn_SessionID r \<in> sn_SessionID ` set (sd_rows d) then (d, Inl (SessionDB UniqueViolation))
      else (d\<lparr>sd_rows := sd_rows d @ [r\<lparr>sn_ID := sd_next d, sn_CreatedAt := db_now (sd_store d), sn_ClosedAt := None\<rparr>], sd_next := sd_next d + 1\<rparr>, Inr (sd_next d)))"

definition updated_session :: "SessionRecord \<Rightarrow> SessionRecord \<Rightarrow> SessionRecord" where
  "updated_session r q =
     q\<lparr>sn_TaskID := sn_TaskID r, sn_Runtime := sn_Runtime r, sn_WorkerID := sn_WorkerID r, sn_Attempt := sn_Attempt r, sn_Status := sn_Status r, sn_Dir := sn_Dir r,
       sn_StdoutPath := sn_StdoutPath r, sn_StderrPath := sn_StderrPath r, sn_ToolCallsPath := sn_ToolCallsPath r, sn_MetadataPath := sn_MetadataPath r,
       sn_Summary := sn_Summary r, sn_RawPath := sn_RawPath r, sn_ClosedAt := nullableTime (sn_ClosedAt r)\<rparr>"

definition UpdateSession :: "SessionRecord \<Rightarrow> session_db \<Rightarrow> session_db \<times> (session_error + unit)" where
  "UpdateSession r d =
     (if sd_coordinator d \<or> faults (sd_store d) OpSessions then (d, Inl (SessionDB (DBError OpSessions)))
      else if sn_SessionID r \<notin> sn_SessionID ` set (sd_rows d) then (d, Inl (SessionNotFound (sn_SessionID r)))
      else (d\<lparr>sd_rows := map (\<lambda>q. if sn_SessionID q = sn_SessionID r then updated_session r q else q) (sd_rows d)\<rparr>, Inr ()))"

definition GetSession :: "string \<Rightarrow> session_db \<Rightarrow> session_error + SessionRecord option" where
  "GetSession i d =
     (if sd_coordinator d then Inr None
      else if faults (sd_store d) OpSessions then Inl (SessionDB (DBError OpSessions))
      else Inr (find (\<lambda>r. sn_SessionID r = i) (joined d)))"

record SessionFilter =
  sf_Repo :: string
  sf_IssueNum :: int
  sf_AgentName :: string
  sf_WorkerID :: string
  sf_Status :: string

definition session_matches :: "SessionFilter \<Rightarrow> SessionRecord \<Rightarrow> bool" where
  "session_matches f r \<longleftrightarrow> (sf_Repo f \<noteq> [] \<longrightarrow> sn_Repo r = sf_Repo f) \<and> (sf_IssueNum f \<noteq> 0 \<longrightarrow> sn_IssueNum r = sf_IssueNum f) \<and>
     (sf_AgentName f \<noteq> [] \<longrightarrow> sn_AgentName r = sf_AgentName f) \<and> (sf_WorkerID f \<noteq> [] \<longrightarrow> sn_WorkerID r = sf_WorkerID f) \<and>
     (sf_Status f \<noteq> [] \<longrightarrow> sn_Status r = sf_Status f)"

text \<open>\<^verbatim>\<open>ORDER BY s.id DESC\<close>.\<close>

definition newest_first :: "SessionRecord list \<Rightarrow> SessionRecord list" where
  "newest_first rs = rev (sort_key sn_ID rs)"

definition ListSessions :: "SessionFilter \<Rightarrow> session_db \<Rightarrow> session_error + SessionRecord list" where
  "ListSessions f d =
     (if sd_coordinator d then Inr []
      else if faults (sd_store d) OpSessions then Inl (SessionDB (DBError OpSessions))
      else Inr (newest_first (filter (session_matches f) (joined d))))"

record AgentSession =
  as_ID :: int
  as_SessionID :: string
  as_TaskID :: string
  as_Repo :: string
  as_IssueNum :: int
  as_AgentName :: string
  as_Summary :: string
  as_RawPath :: string
  as_TaskStatus :: string
  as_CreatedAt :: time

definition sessionRecordToAgent :: "SessionRecord \<Rightarrow> AgentSession" where
  "sessionRecordToAgent r = \<lparr>as_ID = sn_ID r, as_SessionID = sn_SessionID r, as_TaskID = sn_TaskID r, as_Repo = sn_Repo r, as_IssueNum = sn_IssueNum r,
     as_AgentName = sn_AgentName r, as_Summary = sn_Summary r, as_RawPath = sn_RawPath r, as_TaskStatus = sn_Status r, as_CreatedAt = sn_CreatedAt r\<rparr>"

definition no_session :: SessionRecord where
  "no_session = \<lparr>sn_ID = 0, sn_SessionID = [], sn_TaskID = [], sn_Repo = [], sn_IssueNum = 0, sn_AgentName = [], sn_Runtime = [], sn_WorkerID = [], sn_Attempt = 0,
     sn_Status = [], sn_Dir = [], sn_StdoutPath = [], sn_StderrPath = [], sn_ToolCallsPath = [], sn_MetadataPath = [], sn_Summary = [], sn_RawPath = [],
     sn_CreatedAt = 0, sn_ClosedAt = None\<rparr>"

definition InsertAgentSession :: "AgentSession \<Rightarrow> session_db \<Rightarrow> session_db \<times> (session_error + int)" where
  "InsertAgentSession a =
     CreateSession (no_session\<lparr>sn_SessionID := as_SessionID a, sn_TaskID := as_TaskID a, sn_Repo := as_Repo a, sn_IssueNum := as_IssueNum a, sn_AgentName := as_AgentName a,
       sn_Status := (if as_TaskStatus a \<noteq> [] then as_TaskStatus a else TaskStatusPending), sn_Summary := as_Summary a, sn_RawPath := as_RawPath a\<rparr>)"

definition ListAgentSessions :: "SessionFilter \<Rightarrow> session_db \<Rightarrow> session_error + AgentSession list" where
  "ListAgentSessions f d = map_sum id (map sessionRecordToAgent) (ListSessions f d)"

definition QueryAgentSessions :: "string \<Rightarrow> int \<Rightarrow> session_db \<Rightarrow> session_error + AgentSession list" where
  "QueryAgentSessions repo n d =
     map_sum id (map sessionRecordToAgent) (ListSessions \<lparr>sf_Repo = repo, sf_IssueNum = n, sf_AgentName = [], sf_WorkerID = [], sf_Status = []\<rparr> d)"


definition GetAgentSession :: "string \<Rightarrow> session_db \<Rightarrow> session_error + AgentSession option" where
  "GetAgentSession i d = map_sum id (map_option sessionRecordToAgent) (GetSession i d)"

section \<open>Queries of the status page and the audit API\<close>

definition LatestSessionForIssue :: "string \<Rightarrow> int \<Rightarrow> session_db \<Rightarrow> session_error + SessionRecord option" where
  "LatestSessionForIssue repo n d =
     (if sd_coordinator d then Inr None
      else if faults (sd_store d) OpSessions then Inl (SessionDB (DBError OpSessions))
      else Inr (case newest_first (filter (\<lambda>r. sn_Repo r = repo \<and> sn_IssueNum r = n) (joined d)) of [] \<Rightarrow> None | r # _ \<Rightarrow> Some r))"

definition CountTerminalSessionsSince :: "string \<Rightarrow> time \<Rightarrow> session_db \<Rightarrow> session_error + nat" where
  "CountTerminalSessionsSince status since d =
     (if sd_coordinator d then Inr 0
      else if faults (sd_store d) OpSessions then Inl (SessionDB (DBError OpSessions))
      else Inr (length (filter (\<lambda>r. sn_Status r = status \<and> (case sn_ClosedAt r of None \<Rightarrow> False | Some t \<Rightarrow> sql_time since \<le> t)) (joined d))))"

definition CountActiveSessions :: "session_db \<Rightarrow> session_error + nat" where
  "CountActiveSessions d =
     (if sd_coordinator d then Inr 0
      else if faults (sd_store d) OpSessions then Inl (SessionDB (DBError OpSessions))
      else Inr (length (filter (\<lambda>r. sn_Status r = TaskStatusPending \<or> sn_Status r = TaskStatusRunning) (joined d))))"

record SessionListFilter =
  lf_Repo :: string
  lf_AgentName :: string
  lf_IssueNum :: int
  lf_Limit :: int
  lf_Offset :: int

text \<open>\<^verbatim>\<open>LIMIT ? OFFSET ?\<close>: a negative limit is no limit, a negative offset is none.\<close>

definition limited :: "int \<Rightarrow> int \<Rightarrow> 'a list \<Rightarrow> 'a list" where
  "limited limit offset xs = (let ys = drop (nat offset) xs in if limit < 0 then ys else take (nat limit) ys)"

definition listed_for_api :: "SessionListFilter \<Rightarrow> session_db \<Rightarrow> SessionRecord list" where
  "listed_for_api f d =
     newest_first (filter (\<lambda>r. (trim_space (lf_Repo f) \<noteq> [] \<longrightarrow> sn_Repo r = trim_space (lf_Repo f)) \<and>
        (trim_space (lf_AgentName f) \<noteq> [] \<longrightarrow> sn_AgentName r = trim_space (lf_AgentName f)) \<and> (0 < lf_IssueNum f \<longrightarrow> sn_IssueNum r = lf_IssueNum f)) (joined d))"

definition ListSessionsForAPI :: "SessionListFilter \<Rightarrow> session_db \<Rightarrow> session_error + SessionRecord list" where
  "ListSessionsForAPI f d =
     (if sd_coordinator d then Inr []
      else if faults (sd_store d) OpSessions then Inl (SessionDB (DBError OpSessions))
      else Inr (limited (lf_Limit f) (lf_Offset f) (listed_for_api f d)))"

record SessionAggregateMetrics =
  sm_Total :: nat
  sm_Successful :: nat
  sm_Retried :: nat
  sm_AvgDuration :: "(int \<times> nat) option"

definition session_durations :: "SessionRecord list \<Rightarrow> int list" where
  "session_durations rs = List.map_filter (\<lambda>r. map_option (\<lambda>t. t - sn_CreatedAt r) (sn_ClosedAt r)) rs"

definition AggregateSessionMetrics :: "session_db \<Rightarrow> session_error + SessionAggregateMetrics" where
  "AggregateSessionMetrics d =
     (if sd_coordinator d then Inr \<lparr>sm_Total = 0, sm_Successful = 0, sm_Retried = 0, sm_AvgDuration = None\<rparr>
      else if faults (sd_store d) OpSessions then Inl (SessionDB (DBError OpSessions))
      else let rs = filter (\<lambda>r. terminal_status (sn_Status r)) (joined d); ds = session_durations rs
           in Inr \<lparr>sm_Total = length rs, sm_Successful = length (filter (\<lambda>r. sn_Status r = TaskStatusCompleted) rs),
                sm_Retried = length (filter (\<lambda>r. 1 < sn_Attempt r) rs),
                sm_AvgDuration = (if ds = [] then None else Some (sum_list ds, length ds))\<rparr>)"

definition CountSessionsByAgent :: "session_db \<Rightarrow> session_error + (string \<times> nat) list" where
  "CountSessionsByAgent d =
     (if sd_coordinator d then Inr []
      else if faults (sd_store d) OpSessions then Inl (SessionDB (DBError OpSessions))
      else Inr (map (\<lambda>a. (a, length (filter (\<lambda>r. sn_AgentName r = a) (sd_rows d)))) (sort (remdups (map sn_AgentName (sd_rows d))))))"

text \<open>Rows of the older table, \<open>(session, task, repo, issue, agent, summary, raw path, time)\<close>, that are not there yet.\<close>

type_synonym legacy_row = "string \<times> string \<times> string \<times> int \<times> string \<times> string option \<times> string option \<times> time"

fun migrateRow :: "legacy_row \<Rightarrow> session_db \<Rightarrow> session_db" where
  "migrateRow (sid, tid, repo, n, agent, summary, raw, t) d =
     (if sid \<in> sn_SessionID ` set (sd_rows d) then d
      else d\<lparr>sd_rows := sd_rows d @ [no_session\<lparr>sn_ID := sd_next d, sn_SessionID := sid, sn_TaskID := tid, sn_Repo := repo, sn_IssueNum := n, sn_AgentName := agent,
               sn_Status := (case task_by_id tid (sd_store d) of None \<Rightarrow> TaskStatusCompleted | Some r \<Rightarrow> t_Status r),
               sn_Summary := go_str summary, sn_RawPath := go_str raw, sn_CreatedAt := t\<rparr>], sd_next := sd_next d + 1\<rparr>)"

definition migrateLegacySessions :: "legacy_row list \<Rightarrow> session_db \<Rightarrow> session_db \<times> (session_error + unit)" where
  "migrateLegacySessions old d =
     (if sd_coordinator d then (d, Inr ())
      else if faults (sd_store d) OpSessions then (d, Inl (SessionDB (DBError OpSessions)))
      else (fold migrateRow old d, Inr ()))"

section \<open>The session manager\<close>

record SessionCreateInput =
  si_SessionID :: string
  si_TaskID :: string
  si_Repo :: string
  si_IssueNum :: int
  si_AgentName :: string
  si_Runtime :: string
  si_WorkerID :: string
  si_Attempt :: int

record sessionMetadata =
  sm_record :: SessionRecord
  sm_Status :: string
  sm_CreatedAt :: time
  sm_ClosedAt :: "time option"
  sm_EventsPath :: string

record session_files =
  fi_text :: "(string \<times> string) list"
  fi_refuse :: "string \<Rightarrow> bool"

datatype file_handle = Unopened | Opened | Shut

datatype stream_kind = Stdout | Stderr | ToolCalls | AgentEvents

record ManagedSession =
  ms_record :: SessionRecord
  ms_eventsPath :: string
  ms_metadata :: sessionMetadata
  ms_handle :: "stream_kind \<Rightarrow> file_handle"

datatype session_effect = RouteUpserted string string string int | Announced string string int

record SessionManager =
  sg_baseDir :: string
  sg_store :: "session_db option"
  sg_files :: session_files
  sg_announcer :: bool
  sg_now :: time
  sg_effects :: "session_effect list"

definition text_of_file :: "session_files \<Rightarrow> string \<Rightarrow> string" where
  "text_of_file fs p = (case map_of (fi_text fs) p of None \<Rightarrow> [] | Some x \<Rightarrow> x)"

definition join_path :: "string \<Rightarrow> string \<Rightarrow> string" where
  "join_path a b = a @ CHR ''/'' # b"

definition stream_path :: "stream_kind \<Rightarrow> ManagedSession \<Rightarrow> string" where
  "stream_path k h =
     (case k of Stdout \<Rightarrow> sn_StdoutPath (ms_record h) | Stderr \<Rightarrow> sn_StderrPath (ms_record h) | ToolCalls \<Rightarrow> sn_ToolCallsPath (ms_record h)
      | AgentEvents \<Rightarrow> ms_eventsPath h)"

definition flushMetadataLocked :: "(sessionMetadata \<Rightarrow> string) \<Rightarrow> ManagedSession \<Rightarrow> SessionManager \<Rightarrow> SessionManager \<times> (session_error + unit)" where
  "flushMetadataLocked enc h m =
     (let p = sn_MetadataPath (ms_record h)
      in if fi_refuse (sg_files m) p then (m, Inl (FileFailed p))
         else (m\<lparr>sg_files := (sg_files m)\<lparr>fi_text := AList.update p (enc (ms_metadata h) @ [CHR 0x0A]) (fi_text (sg_files m))\<rparr>\<rparr>, Inr ()))"

definition session_record :: "string \<Rightarrow> time \<Rightarrow> SessionCreateInput \<Rightarrow> SessionRecord" where
  "session_record dir now x =
     no_session\<lparr>sn_SessionID := si_SessionID x, sn_TaskID := si_TaskID x, sn_Repo := si_Repo x, sn_IssueNum := si_IssueNum x, sn_AgentName := si_AgentName x,
       sn_Runtime := si_Runtime x, sn_WorkerID := si_WorkerID x, sn_Attempt := si_Attempt x, sn_Status := TaskStatusRunning, sn_Dir := dir,
       sn_StdoutPath := join_path dir ''stdout'', sn_StderrPath := join_path dir ''stderr'', sn_ToolCallsPath := join_path dir ''tool-calls.jsonl'',
       sn_MetadataPath := join_path dir ''metadata.json'', sn_CreatedAt := now\<rparr>"

definition new_handle :: "SessionRecord \<Rightarrow> ManagedSession" where
  "new_handle r =
     (let ev = join_path (sn_Dir r) ''events-v1.jsonl''
      in \<lparr>ms_record = r, ms_eventsPath = ev,
           ms_metadata = \<lparr>sm_record = r, sm_Status = sn_Status r, sm_CreatedAt = sn_CreatedAt r, sm_ClosedAt = None, sm_EventsPath = ev\<rparr>, ms_handle = (\<lambda>_. Unopened)\<rparr>)"

definition Create_session :: "(sessionMetadata \<Rightarrow> string) \<Rightarrow> SessionCreateInput \<Rightarrow> SessionManager \<Rightarrow> SessionManager \<times> (session_error + ManagedSession)" where
  "Create_session enc x m =
     (let dir = join_path (sg_baseDir m) (si_SessionID x); r = session_record dir (sg_now m) x; h = new_handle r
      in if si_SessionID x = [] then (m, Inl MissingSessionID)
         else if fi_refuse (sg_files m) dir then (m, Inl (FileFailed dir))
         else case flushMetadataLocked enc h m of
                (m1, Inl e) \<Rightarrow> (m1, Inl e)
              | (m1, Inr _) \<Rightarrow>
                 let announce = (\<lambda>m. if sg_announcer m \<and> sn_WorkerID r \<noteq> [] then m\<lparr>sg_effects := sg_effects m @ [Announced (sn_SessionID r) (sn_Repo r) (sn_IssueNum r)]\<rparr> else m)
                 in case sg_store m1 of
                      None \<Rightarrow> (announce m1, Inr h)
                    | Some d \<Rightarrow>
                       (case CreateSession r d of
                          (d1, Inl e) \<Rightarrow> (m1\<lparr>sg_store := Some d1\<rparr>, Inl e)
                        | (d1, Inr _) \<Rightarrow>
                           (announce (m1\<lparr>sg_store := Some d1, sg_effects := sg_effects m1 @ [RouteUpserted (sn_SessionID r) (sn_WorkerID r) (sn_Repo r) (sn_IssueNum r)]\<rparr>), Inr h)))"

text \<open>\<^verbatim>\<open>writeFile\<close>, for the four streams. A file that was closed stays closed: its handle is not reset.\<close>

definition writeFile :: "stream_kind \<Rightarrow> string \<Rightarrow> ManagedSession \<Rightarrow> SessionManager \<Rightarrow> ManagedSession \<times> SessionManager \<times> (session_error + unit)" where
  "writeFile k data h m =
     (let p = stream_path k h; fs = sg_files m
      in if data = [] then (h, m, Inr ())
         else if ms_handle h k = Unopened \<and> fi_refuse fs p then (h, m, Inl (FileFailed p))
         else let h1 = (if ms_handle h k = Unopened then h\<lparr>ms_handle := (ms_handle h)(k := Opened)\<rparr> else h)
              in if ms_handle h1 k = Shut \<or> fi_refuse fs p then (h1, m, Inl (FileFailed p))
                 else (h1, m\<lparr>sg_files := fs\<lparr>fi_text := AList.update p (text_of_file fs p @ data) (fi_text fs)\<rparr>\<rparr>, Inr ()))"

definition closed_handle :: "string \<Rightarrow> time \<Rightarrow> ManagedSession \<Rightarrow> ManagedSession" where
  "closed_handle status now h =
     (let st = (if status = [] then TaskStatusCompleted else status)
      in h\<lparr>ms_handle := (\<lambda>k. if ms_handle h k = Unopened then Unopened else Shut),
           ms_metadata := (ms_metadata h)\<lparr>sm_Status := st, sm_ClosedAt := Some now\<rparr>, ms_record := (ms_record h)\<lparr>sn_Status := st, sn_ClosedAt := Some now\<rparr>\<rparr>)"

definition Close_session :: "(sessionMetadata \<Rightarrow> string) \<Rightarrow> string \<Rightarrow> ManagedSession \<Rightarrow> SessionManager \<Rightarrow> ManagedSession \<times> SessionManager \<times> (session_error + unit)" where
  "Close_session enc status h m =
     (let h1 = closed_handle status (sg_now m) h
      in case flushMetadataLocked enc h1 m of
           (m1, Inl e) \<Rightarrow> (h1, m1, Inl e)
         | (m1, Inr _) \<Rightarrow>
            (case sg_store m1 of
               None \<Rightarrow> (h1, m1, Inr ())
             | Some d \<Rightarrow>
                (case GetSession (sn_SessionID (ms_record h1)) d of
                   Inl e \<Rightarrow> (h1, m1, Inl e)
                 | Inr None \<Rightarrow> (case CreateSession (ms_record h1) d of (d1, r) \<Rightarrow> (h1, m1\<lparr>sg_store := Some d1\<rparr>, map_sum id (\<lambda>_. ()) r))
                 | Inr (Some q) \<Rightarrow>
                    (case UpdateSession (q\<lparr>sn_Status := sn_Status (ms_record h1), sn_ClosedAt := sn_ClosedAt (ms_record h1)\<rparr>) d of
                       (d1, r) \<Rightarrow> (h1, m1\<lparr>sg_store := Some d1\<rparr>, r)))))"

definition Get_session :: "string \<Rightarrow> SessionManager \<Rightarrow> session_error + SessionRecord option" where
  "Get_session i m = (case sg_store m of None \<Rightarrow> Inr None | Some d \<Rightarrow> GetSession i d)"

definition List_sessions :: "SessionFilter \<Rightarrow> SessionManager \<Rightarrow> session_error + SessionRecord list" where
  "List_sessions f m = (case sg_store m of None \<Rightarrow> Inr [] | Some d \<Rightarrow> ListSessions f d)"

section \<open>Rows that stay\<close>

definition session_row :: "string \<Rightarrow> session_db \<Rightarrow> SessionRecord option" where
  "session_row i d = find (\<lambda>r. sn_SessionID r = i) (sd_rows d)"

text \<open>What no operation below changes of a row.\<close>

definition same_session :: "SessionRecord \<Rightarrow> SessionRecord \<Rightarrow> bool" where
  "same_session q r \<longleftrightarrow> sn_ID r = sn_ID q \<and> sn_SessionID r = sn_SessionID q \<and> sn_TaskID r = sn_TaskID q \<and> sn_Repo r = sn_Repo q \<and> sn_IssueNum r = sn_IssueNum q \<and>
     sn_AgentName r = sn_AgentName q \<and> sn_CreatedAt r = sn_CreatedAt q"

lemma same_session_refl [simp]: "same_session q q"
  by (simp add: same_session_def)


lemma find_map_key: "(\<And>x. key (f x) = key x) \<Longrightarrow> find (\<lambda>x. key x = i) (map f xs) = map_option f (find (\<lambda>x. key x = i) xs)"
  by (induction xs) auto


lemma updated_session_id: "sn_SessionID (updated_session r q) = sn_SessionID q"
  by (simp add: updated_session_def)


lemma GetSession_row:
  assumes "\<not> sd_coordinator d" "\<not> faults (sd_store d) OpSessions"
  shows "GetSession i d = Inr (map_option (\<lambda>r. r\<lparr>sn_Status := shown_status (sd_store d) r\<rparr>) (session_row i d))"
  using assms by (simp add: GetSession_def joined_def session_row_def find_map_key)





lemma update_row:
  "session_row i (fst (UpdateSession r d)) =
     (if sd_coordinator d \<or> faults (sd_store d) OpSessions then session_row i d
      else map_option (\<lambda>q. if sn_SessionID q = sn_SessionID r then updated_session r q else q) (session_row i d))"
proof (cases "sn_SessionID r \<in> sn_SessionID ` set (sd_rows d)")
  case True
  then show ?thesis by (simp add: UpdateSession_def session_row_def find_map_key updated_session_id)
next
  case False
  have "map_option (\<lambda>q. if sn_SessionID q = sn_SessionID r then updated_session r q else q) (session_row i d) = session_row i d"
  proof (cases "session_row i d")
    case (Some q)
    have "q \<in> set (sd_rows d)" using Some by (auto simp: session_row_def find_Some_iff)
    then have "sn_SessionID q \<noteq> sn_SessionID r" using False by (metis image_eqI)
    then show ?thesis using Some by simp
  qed simp
  then show ?thesis using False by (simp add: UpdateSession_def)
qed


section \<open>What sessions and queue do together\<close>



definition rows_stay :: "session_db \<Rightarrow> session_db \<Rightarrow> bool" where
  "rows_stay d d' \<longleftrightarrow> sd_coordinator d' = sd_coordinator d \<and> (\<forall>i q. session_row i d = Some q \<longrightarrow> (\<exists>q'. session_row i d' = Some q' \<and> same_session q q'))"

lemma rows_stay_refl [simp]: "rows_stay d d"
  by (auto simp: rows_stay_def)



lemma flush_store: "flushMetadataLocked enc h m = (m1, x) \<Longrightarrow> sg_store m1 = sg_store m"
  by (auto simp: flushMetadataLocked_def Let_def split: if_splits)







section \<open>Pages of the listing\<close>

lemma pages: "concat (map (\<lambda>k. take L (drop (k * L) xs)) [0..<n]) = take (n * L) xs"
proof (induction n)
  case (Suc n)
  have "take (n * L) xs @ take L (drop (n * L) xs) = take (n * L + L) xs" by (simp add: take_add)
  then show ?case using Suc by (simp add: add.commute)
qed simp

text \<open>The pages of the listing of sessions fit together: the first \<open>n\<close> pages of any positive size are the first rows of the whole
  listing, none twice and none left out.\<close>

theorem session_pages:
  assumes "0 < L" "ListSessionsForAPI (f\<lparr>lf_Limit := - 1, lf_Offset := 0\<rparr>) d = Inr rs"
  shows "\<exists>page. (\<forall>k. ListSessionsForAPI (f\<lparr>lf_Limit := L, lf_Offset := int k * L\<rparr>) d = Inr (page k)) \<and>
     concat (map page [0..<n]) = take (n * nat L) rs"
proof (cases "sd_coordinator d")
  case True
  then show ?thesis using assms(2) by (intro exI [of _ "\<lambda>_. []"]) (simp add: ListSessionsForAPI_def)
next
  case False
  then have ok: "\<not> faults (sd_store d) OpSessions" using assms(2) by (auto simp: ListSessionsForAPI_def split: if_splits)
  have same: "listed_for_api (f\<lparr>lf_Limit := a, lf_Offset := b\<rparr>) d = rs" for a b
    using assms(2) False ok by (simp add: ListSessionsForAPI_def limited_def listed_for_api_def)
  have off: "nat (int k * L) = k * nat L" for k using assms(1) by (simp add: nat_mult_distrib)
  have "ListSessionsForAPI (f\<lparr>lf_Limit := L, lf_Offset := int k * L\<rparr>) d = Inr (take (nat L) (drop (k * nat L) rs))" for k
    using False ok same assms(1) by (simp add: ListSessionsForAPI_def limited_def off)
  then show ?thesis using pages [of "nat L" rs n] by (intro exI [of _ "\<lambda>k. take (nat L) (drop (k * nat L) rs)"]) simp
qed

section \<open>What closing leaves\<close>

lemma closed_row:
  assumes "Close_session enc status h m = (h', m', Inr ())" "sg_store m = Some d" "session_row (sn_SessionID (ms_record h)) d = Some q" "\<not> sd_coordinator d"
  shows "\<exists>d' q'. sg_store m' = Some d' \<and> session_row (sn_SessionID (ms_record h)) d' = Some q' \<and> same_session q q' \<and>
     sn_ClosedAt q' = Some (sql_time (sg_now m)) \<and> sn_Status q' = (if status = [] then TaskStatusCompleted else status)"
proof -
  let ?h = "closed_handle status (sg_now m) h"
  obtain m1 y where f: "flushMetadataLocked enc ?h m = (m1, y)" by (rule prod.exhaust)
  have st: "sg_store m1 = Some d" using flush_store [OF f] assms(2) by simp
  have hid: "sn_SessionID (ms_record ?h) = sn_SessionID (ms_record h)" by (simp add: closed_handle_def Let_def)
  have ok: "\<not> faults (sd_store d) OpSessions" using assms st f hid by (cases y) (auto simp: Close_session_def Let_def GetSession_def split: if_splits)
  have g: "GetSession (sn_SessionID (ms_record h)) d = Inr (Some (q\<lparr>sn_Status := shown_status (sd_store d) q\<rparr>))"
    using GetSession_row [OF assms(4) ok] assms(3) by simp
  let ?r = "q\<lparr>sn_Status := sn_Status (ms_record ?h), sn_ClosedAt := sn_ClosedAt (ms_record ?h)\<rparr>"
  have "sg_store m' = Some (fst (UpdateSession ?r d))" using assms(1) st f g hid by (cases y) (auto simp: Close_session_def Let_def split: prod.splits)
  moreover have "session_row (sn_SessionID (ms_record h)) (fst (UpdateSession ?r d)) = Some (updated_session ?r q)"
    using update_row assms(3,4) ok by simp
  ultimately show ?thesis by (auto simp: same_session_def updated_session_def closed_handle_def nullableTime_def Let_def)
qed

text \<open>A session whose row is missing when it is closed gets one that says it was never closed: the row is inserted without the time of
  closing, so that no count of finished sessions since any time contains it.\<close>

theorem late_row_never_closes:
  assumes "Close_session enc status h m = (h', m', Inr ())" "sg_store m = Some d" "session_row (sn_SessionID (ms_record h)) d = None" "\<not> sd_coordinator d"
  shows "\<exists>d' q. sg_store m' = Some d' \<and> sd_rows d' = sd_rows d @ [q] \<and> sn_SessionID q = sn_SessionID (ms_record h) \<and> sn_ClosedAt q = None \<and>
     CountTerminalSessionsSince st since d' = CountTerminalSessionsSince st since d"
proof -
  let ?h = "closed_handle status (sg_now m) h"
  obtain m1 y where f: "flushMetadataLocked enc ?h m = (m1, y)" by (rule prod.exhaust)
  have st: "sg_store m1 = Some d" using flush_store [OF f] assms(2) by simp
  have hid: "sn_SessionID (ms_record ?h) = sn_SessionID (ms_record h)" by (simp add: closed_handle_def Let_def)
  have ok: "\<not> faults (sd_store d) OpSessions" using assms st f hid by (cases y) (auto simp: Close_session_def Let_def GetSession_def split: if_splits)
  have g: "GetSession (sn_SessionID (ms_record h)) d = Inr None" using GetSession_row [OF assms(4) ok] assms(3) by simp
  have "sg_store m' = Some (fst (CreateSession (ms_record ?h) d))" using assms(1) st f g hid by (cases y) (auto simp: Close_session_def Let_def split: prod.splits)
  moreover have "sn_SessionID (ms_record h) \<notin> sn_SessionID ` set (sd_rows d)" using assms(3) by (auto simp: session_row_def find_None_iff)
  ultimately show ?thesis using assms(4) ok hid by (simp add: CreateSession_def CountTerminalSessionsSince_def joined_def)
qed

section \<open>The files of a session\<close>

definition write_all :: "(stream_kind \<times> string) list \<Rightarrow> ManagedSession \<Rightarrow> SessionManager \<Rightarrow> ManagedSession \<times> SessionManager" where
  "write_all ws h m = fold (\<lambda>(k, x) (h, m). case writeFile k x h m of (h1, m1, r) \<Rightarrow> (h1, m1)) ws (h, m)"

definition paths_distinct :: "ManagedSession \<Rightarrow> bool" where
  "paths_distinct h \<longleftrightarrow> inj (\<lambda>k. stream_path k h)"

lemma new_handle_paths: "paths_distinct (new_handle (session_record dir now x))"
proof -
  have "k = k'" if "stream_path k (new_handle (session_record dir now x)) = stream_path k' (new_handle (session_record dir now x))" for k k'
    using that by (cases k; cases k') (simp_all add: stream_path_def new_handle_def session_record_def join_path_def Let_def no_session_def)
  then show ?thesis by (simp add: paths_distinct_def inj_def)
qed

lemma text_of_file_update: "text_of_file (fs\<lparr>fi_text := AList.update p x (fi_text fs)\<rparr>) q = (if q = p then x else text_of_file fs q)"
  by (simp add: text_of_file_def update_conv')

lemma write_one:
  assumes "writeFile k x h m = (h1, m1, r)" "\<And>p. \<not> fi_refuse (sg_files m) p" "\<And>k. ms_handle h k \<noteq> Shut" "paths_distinct h"
  shows "r = Inr ()" "ms_record h1 = ms_record h" "ms_eventsPath h1 = ms_eventsPath h" "ms_handle h1 k' \<noteq> Shut" "fi_refuse (sg_files m1) = fi_refuse (sg_files m)"
    "sg_store m1 = sg_store m" "text_of_file (sg_files m1) (stream_path k' h) = text_of_file (sg_files m) (stream_path k' h) @ (if k' = k then x else [])"
  using assms by (auto simp: writeFile_def Let_def text_of_file_update paths_distinct_def inj_def split: if_splits)

lemma stream_path_cong: "ms_record h1 = ms_record h \<Longrightarrow> ms_eventsPath h1 = ms_eventsPath h \<Longrightarrow> stream_path k h1 = stream_path k h"
  by (simp add: stream_path_def split: stream_kind.splits)

text \<open>A session that can write its files has in each of them, after what was there, everything that was written to it, in order.\<close>

lemma session_files_hold:
  assumes "\<And>p. \<not> fi_refuse (sg_files m) p" "\<And>k. ms_handle h k \<noteq> Shut" "paths_distinct h"
  shows "text_of_file (sg_files (snd (write_all ws h m))) (stream_path k h) = text_of_file (sg_files m) (stream_path k h) @ concat (map snd (filter (\<lambda>w. fst w = k) ws))"
  using assms
proof (induction ws arbitrary: h m)
  case (Cons w ws)
  obtain j x where w: "w = (j, x)" by (rule prod.exhaust)
  obtain h1 m1 r where o: "writeFile j x h m = (h1, m1, r)" by (metis prod_cases3)
  note s = write_one [OF o Cons.prems]
  have p: "stream_path k' h1 = stream_path k' h" for k' using stream_path_cong s(2,3) by blast
  have "paths_distinct h1" using Cons.prems(3) p by (simp add: paths_distinct_def)
  then have "text_of_file (sg_files (snd (write_all ws h1 m1))) (stream_path k h1) = text_of_file (sg_files m1) (stream_path k h1) @ concat (map snd (filter (\<lambda>w. fst w = k) ws))"
    using Cons.prems(1) s(4,5) by (intro Cons.IH) simp_all
  then show ?case using s(7) [of k] o w p by (auto simp: write_all_def)
qed (simp add: write_all_def)

section \<open>Samples\<close>

definition sample_db :: "SessionRecord list \<Rightarrow> session_db" where
  "sample_db rs = \<lparr>sd_store = sample_queue [sample_task\<lparr>t_Status := TaskStatusFailed\<rparr>], sd_rows = rs, sd_next = 9, sd_coordinator = False\<rparr>"

definition sample_session :: SessionRecord where
  "sample_session = no_session\<lparr>sn_ID := 1, sn_SessionID := ''s1'', sn_TaskID := ''t1'', sn_Status := TaskStatusRunning\<rparr>"

definition sample_manager :: "SessionRecord list \<Rightarrow> SessionManager" where
  "sample_manager rs = \<lparr>sg_baseDir = ''/b'', sg_store = Some (sample_db rs), sg_files = \<lparr>fi_text = [], fi_refuse = (\<lambda>_. False)\<rparr>, sg_announcer = False, sg_now = 5 * second, sg_effects = []\<rparr>"

lemmas sample_session_defs = sample_db_def sample_session_def sample_manager_def no_session_def sample_defs


theorem session_pages_witness:
  "\<exists>page. (\<forall>k. ListSessionsForAPI \<lparr>lf_Repo = [], lf_AgentName = [], lf_IssueNum = 0, lf_Limit = 1, lf_Offset = int k * 1\<rparr> (sample_db [sample_session]) = Inr (page k)) \<and>
     concat (map page [0..<2]) = [sample_session\<lparr>sn_Status := TaskStatusFailed\<rparr>]"
proof -
  let ?f = "\<lparr>lf_Repo = [], lf_AgentName = [], lf_IssueNum = 0, lf_Limit = 0, lf_Offset = 0\<rparr> :: SessionListFilter"
  have "ListSessionsForAPI (?f\<lparr>lf_Limit := - 1, lf_Offset := 0\<rparr>) (sample_db [sample_session]) = Inr [sample_session\<lparr>sn_Status := TaskStatusFailed\<rparr>]"
    by (simp add: ListSessionsForAPI_def limited_def listed_for_api_def newest_first_def joined_def shown_status_def task_by_id_def sample_session_defs)
  from session_pages [OF _ this, of 1 2] show ?thesis by simp
qed

theorem late_row_never_closes_witness:
  "\<exists>h' m' d' q. Close_session (\<lambda>_. []) ''failed'' (new_handle sample_session) (sample_manager []) = (h', m', Inr ()) \<and> sg_store m' = Some d' \<and>
     sd_rows d' = [q] \<and> sn_ClosedAt q = None"
proof -
  let ?h = "new_handle sample_session" and ?m = "sample_manager []"
  obtain h' m' r where c: "Close_session (\<lambda>_. []) ''failed'' ?h ?m = (h', m', r)" by (metis prod_cases3)
  have "r = Inr ()"
    using c by (auto simp: Close_session_def closed_handle_def flushMetadataLocked_def CreateSession_def GetSession_def joined_def new_handle_def sample_session_defs Let_def)
  with c have c: "Close_session (\<lambda>_. []) ''failed'' ?h ?m = (h', m', Inr ())" by simp
  have "sg_store ?m = Some (sample_db [])" "session_row (sn_SessionID (ms_record ?h)) (sample_db []) = None" "\<not> sd_coordinator (sample_db [])"
    by (simp_all add: sample_manager_def sample_db_def session_row_def)
  from late_row_never_closes [OF c this, where st = "[]" and since = 0] c show ?thesis by (auto simp: sample_db_def)
qed

end
