(* ===== verification/Label_Writer.thy ===== *)
theory Label_Writer
  imports Runtime_Safety
begin

text \<open>
  The labels the coordinator writes itself, for agents that have no access to the host of the repository
  (\<^verbatim>\<open>internal/labelwriter/labelwriter.go\<close>): through the GitHub command line, or through the REST interface of Gitea.

  \<^item> The command line, the HTTP client and the host behind them are arguments over any state \<open>'w\<close>: \<open>lh_run\<close> runs a command
    with its arguments, \<open>lh_post\<close> posts a label with a token. The text of requests and error messages is left out.
  \<^item> \<open>lw_decode\<close> is \<^verbatim>\<open>json.Unmarshal\<close> of the registration into the kind of host and the base address.

  Shown here: after the labels of an issue were changed on GitHub, the new label is its only status label and the others are
  kept, so that the recovery of \<open>Repo_Runtime\<close> finds exactly the state that was asked for, unless the labels could not be listed
  before the change: then, as always on Gitea, the old status label stays, and the recovery gives the issue up.
\<close>

definition HostKindGitHub :: string where "HostKindGitHub = ''github''"
definition HostKindGitea :: string where "HostKindGitea = ''gitea''"

record 'w label_writer =
  lw_lookup :: "(string \<Rightarrow> store_error + string option) option"
  lw_decode :: "string \<Rightarrow> (string \<times> string) option"
  lw_look :: "string option"
  lw_run :: "string \<Rightarrow> string list \<Rightarrow> 'w \<Rightarrow> 'w \<times> bool \<times> string"
  lw_post :: "string \<Rightarrow> string \<Rightarrow> string \<Rightarrow> 'w \<Rightarrow> 'w \<times> int option"
  lw_giteaToken :: string
  lw_env :: string

datatype label_error = LookupFailed store_error | UnsupportedKind string | NoCommand | EditFailed | BaseMissing | TokenMissing | PostFailed | PostStatus int

definition ResolveHostKind :: "(string \<Rightarrow> (string \<times> string) option) \<Rightarrow> string \<Rightarrow> string \<times> string" where
  "ResolveHostKind decode cfg =
     (if trim_space cfg = [] then (HostKindGitHub, [])
      else case decode cfg of
             None \<Rightarrow> (HostKindGitHub, [])
           | Some (kind, base) \<Rightarrow>
              (let k = map lower_char (trim_space kind)
               in (if k = [] then HostKindGitHub else k, rev (dropWhile (\<lambda>c. c = CHR ''/'') (rev base)))))"

definition resolveHostKind :: "'w label_writer \<Rightarrow> string \<Rightarrow> store_error + string \<times> string" where
  "resolveHostKind w repo =
     (case lw_lookup w of
        None \<Rightarrow> Inr (HostKindGitHub, [])
      | Some f \<Rightarrow>
         (case f repo of
            Inl e \<Rightarrow> Inl e
          | Inr None \<Rightarrow> Inr (HostKindGitHub, [])
          | Inr (Some cfg) \<Rightarrow> Inr (ResolveHostKind (lw_decode w) cfg)))"

definition status_prefix :: string where "status_prefix = ''status:''"

definition view_args :: "string \<Rightarrow> int \<Rightarrow> string list" where
  "view_args repo n = [''issue'', ''view'', itoa n, ''--repo'', repo, ''--json'', ''labels'', ''--jq'', ''.labels[].name'']"

definition edit_args :: "string \<Rightarrow> int \<Rightarrow> string \<Rightarrow> string list \<Rightarrow> string list" where
  "edit_args repo n label stale =
     [''issue'', ''edit'', itoa n, ''--repo'', repo, ''--add-label'', label] @ concat (map (\<lambda>s. [''--remove-label'', s]) stale)"

definition stale_in :: "string \<Rightarrow> string \<Rightarrow> string list" where
  "stale_in keep out =
     filter (\<lambda>x. x \<noteq> [] \<and> x \<noteq> keep \<and> has_prefix x status_prefix) (map trim_space (split_on (CHR 0x0A) (trim_space out)))"

definition staleStatusLabels :: "'w label_writer \<Rightarrow> string \<Rightarrow> string \<Rightarrow> int \<Rightarrow> string \<Rightarrow> 'w \<Rightarrow> 'w \<times> string list" where
  "staleStatusLabels w bin repo n keep x =
     (case lw_run w bin (view_args repo n) x of (x', ok, out) \<Rightarrow> (x', if ok then stale_in keep out else []))"

definition applyViaGH :: "'w label_writer \<Rightarrow> string \<Rightarrow> int \<Rightarrow> string \<Rightarrow> 'w \<Rightarrow> 'w \<times> (label_error + unit)" where
  "applyViaGH w repo n label x =
     (case lw_look w of
        None \<Rightarrow> (x, Inl NoCommand)
      | Some bin \<Rightarrow>
         (case staleStatusLabels w bin repo n label x of
            (x1, stale) \<Rightarrow> (case lw_run w bin (edit_args repo n label stale) x1 of (x2, ok, _) \<Rightarrow> (x2, if ok then Inr () else Inl EditFailed))))"

definition labels_url :: "string \<Rightarrow> string \<Rightarrow> int \<Rightarrow> string" where
  "labels_url base repo n = base @ ''/api/v1/repos/'' @ repo @ ''/issues/'' @ itoa n @ ''/labels''"

definition applyViaGitea :: "'w label_writer \<Rightarrow> string \<Rightarrow> string \<Rightarrow> int \<Rightarrow> string \<Rightarrow> 'w \<Rightarrow> 'w \<times> (label_error + unit)" where
  "applyViaGitea w base repo n label x =
     (let token = (if lw_giteaToken w = [] then lw_env w else lw_giteaToken w)
      in if base = [] then (x, Inl BaseMissing)
         else if token = [] then (x, Inl TokenMissing)
         else case lw_post w (labels_url base repo n) token label x of
                (x', None) \<Rightarrow> (x', Inl PostFailed)
              | (x', Some status) \<Rightarrow> (x', if status < 200 \<or> 300 \<le> status then Inl (PostStatus status) else Inr ()))"

definition ApplyNextLabel :: "'w label_writer \<Rightarrow> string \<Rightarrow> int \<Rightarrow> string \<Rightarrow> 'w \<Rightarrow> 'w \<times> (label_error + unit)" where
  "ApplyNextLabel w repo n label x =
     (if trim_space label = [] then (x, Inr ())
      else case resolveHostKind w repo of
             Inl e \<Rightarrow> (x, Inl (LookupFailed e))
           | Inr (kind, base) \<Rightarrow>
              if kind = HostKindGitHub then applyViaGH w repo n label x
              else if kind = HostKindGitea then applyViaGitea w base repo n label x
              else (x, Inl (UnsupportedKind kind)))"

section \<open>What the hosts do\<close>

text \<open>
  \<open>labels x\<close> are the labels of the issue. Documented behaviour: \<^verbatim>\<open>gh issue view\<close> with the query changes nothing, and prints one name per
  line unless it fails;
  \<^verbatim>\<open>gh issue edit\<close> adds and removes the labels named; a post to the labels of an issue of Gitea adds to them.
\<close>

definition gh_views :: "'w label_writer \<Rightarrow> ('w \<Rightarrow> string list) \<Rightarrow> string \<Rightarrow> int \<Rightarrow> 'w \<Rightarrow> bool" where
  "gh_views w labels repo n x \<longleftrightarrow>
     (\<forall>bin. \<exists>ok out. lw_run w bin (view_args repo n) x = (x, ok, out) \<and> (ok \<longrightarrow> out = concat (map (\<lambda>l. l @ [CHR 0x0A]) (labels x))))"

text \<open>The view succeeds.\<close>

definition gh_viewed :: "'w label_writer \<Rightarrow> string \<Rightarrow> int \<Rightarrow> 'w \<Rightarrow> bool" where
  "gh_viewed w repo n x \<longleftrightarrow> (\<exists>bin. lw_look w = Some bin \<and> fst (snd (lw_run w bin (view_args repo n) x)))"

definition gh_edits :: "'w label_writer \<Rightarrow> ('w \<Rightarrow> string list) \<Rightarrow> string \<Rightarrow> int \<Rightarrow> 'w \<Rightarrow> bool" where
  "gh_edits w labels repo n x \<longleftrightarrow>
     (\<forall>bin label stale. case lw_run w bin (edit_args repo n label stale) x of
        (x', ok, _) \<Rightarrow> ok \<longrightarrow> set (labels x') = (set (labels x) - set stale) \<union> ({label} - set stale))"

definition gitea_adds :: "'w label_writer \<Rightarrow> ('w \<Rightarrow> string list) \<Rightarrow> 'w \<Rightarrow> bool" where
  "gitea_adds w labels x \<longleftrightarrow>
     (\<forall>url token label. case lw_post w url token label x of (x', r) \<Rightarrow> (\<exists>s. r = Some s \<and> 200 \<le> s \<and> s < 300) \<longrightarrow> set (labels x') = insert label (set (labels x)))"

definition plain_label :: "string \<Rightarrow> bool" where
  "plain_label l \<longleftrightarrow> l \<noteq> [] \<and> \<not> is_space (hd l) \<and> \<not> is_space (last l) \<and> CHR 0x0A \<notin> set l"

lemma plain_trim: "plain_label l \<Longrightarrow> trim_space l = l"
  by (simp add: plain_label_def trim_space_id)

lemma plain_split: "CHR 0x0A \<notin> set l \<Longrightarrow> split_on (CHR 0x0A) l = [l]"
  by (induction l) auto

lemma lines_join: "ls \<noteq> [] \<Longrightarrow> concat (map (\<lambda>l. l @ [c]) ls) = join_with [c] ls @ [c]"
  by (induction "[c]" ls rule: join_with.induct) auto

lemma trim_trailing: "is_space c \<Longrightarrow> trim_space (s @ [c]) = trim_space s"
proof (cases "\<forall>x \<in> set s. is_space x")
  case True
  moreover assume "is_space c"
  ultimately have "trim_space (s @ [c]) = []" "trim_space s = []" by (simp_all add: trim_space_blank)
  then show ?thesis by simp
next
  case False
  assume "is_space c"
  then show ?thesis using False by (auto simp: trim_space_def dropWhile_append)
qed

lemma join_ends:
  assumes "ls \<noteq> []" "\<forall>l \<in> set ls. plain_label l"
  shows "plain_label (hd ls)" "join_with [c] ls \<noteq> []" "hd (join_with [c] ls) = hd (hd ls)" "last (join_with [c] ls) = last (last ls)"
  using assms by (induction "[c]" ls rule: join_with.induct) (auto simp: plain_label_def)

lemma listing_trim:
  assumes "ls \<noteq> []" "\<forall>l \<in> set ls. plain_label l"
  shows "trim_space (concat (map (\<lambda>l. l @ [CHR 0x0A]) ls)) = join_with [CHR 0x0A] ls"
proof -
  have "is_space (CHR 0x0A)" by code_simp
  then have "trim_space (concat (map (\<lambda>l. l @ [CHR 0x0A]) ls)) = trim_space (join_with [CHR 0x0A] ls)"
    using assms(1) by (simp add: lines_join trim_trailing)
  also have "\<dots> = join_with [CHR 0x0A] ls"
  proof (rule trim_space_id)
    show "join_with [CHR 0x0A] ls \<noteq> []" using join_ends [OF assms] by simp
    show "\<not> is_space (hd (join_with [CHR 0x0A] ls))" using join_ends [OF assms] by (simp add: plain_label_def)
    have "plain_label (last ls)" using assms by simp
    then show "\<not> is_space (last (join_with [CHR 0x0A] ls))" using join_ends(4) [OF assms] by (simp add: plain_label_def)
  qed
  finally show ?thesis .
qed

lemma join_split: "ls \<noteq> [] \<Longrightarrow> \<forall>l \<in> set ls. c \<notin> set l \<Longrightarrow> set (split_on c (join_with [c] ls)) = set ls"
proof (induction "[c]" ls rule: join_with.induct)
  case (2 x)
  then have "split_on c x = [x]" by (induction x) auto
  then show ?case by simp
next
  case (3 x y xs)
  then have "split_on c x = [x]" by (induction x) auto
  then show ?case using 3 by (simp add: split_on_append)
qed simp

text \<open>What the listing of the labels is taken for.\<close>

lemma stale_in_listing:
  assumes "\<forall>l \<in> set ls. plain_label l"
  shows "set (stale_in keep (concat (map (\<lambda>l. l @ [CHR 0x0A]) ls))) = {l \<in> set ls. l \<noteq> keep \<and> has_prefix l status_prefix}"
proof (cases "ls = []")
  case False
  have "set (split_on (CHR 0x0A) (join_with [CHR 0x0A] ls)) = set ls" using assms False by (intro join_split) (auto simp: plain_label_def)
  moreover have "trim_space ` set ls = set ls" using assms plain_trim by force
  ultimately show ?thesis using assms by (auto simp: stale_in_def listing_trim [OF False assms] plain_label_def)
qed (simp add: stale_in_def)

section \<open>After a change of labels\<close>

definition status_labels :: "string list \<Rightarrow> string set" where
  "status_labels ls = {l \<in> set ls. has_prefix l status_prefix}"

lemma gh_flip:
  assumes "resolveHostKind w repo = Inr (HostKindGitHub, base)" "ApplyNextLabel w repo n label x = (x', Inr ())" "trim_space label \<noteq> []"
    and "gh_views w labels repo n x" "gh_edits w labels repo n x" "\<forall>l \<in> set (labels x). plain_label l"
  shows "set (labels x') = insert label (if gh_viewed w repo n x then {l \<in> set (labels x). \<not> has_prefix l status_prefix} else set (labels x))"
proof -
  obtain bin where look: "lw_look w = Some bin" using assms(1-3) by (auto simp: ApplyNextLabel_def applyViaGH_def split: option.splits)
  obtain ok out where v: "lw_run w bin (view_args repo n) x = (x, ok, out)" "ok \<longrightarrow> out = concat (map (\<lambda>l. l @ [CHR 0x0A]) (labels x))"
    using assms(4) unfolding gh_views_def by blast
  define stale where "stale = (if ok then stale_in label out else [])"
  have ok: "gh_viewed w repo n x \<longleftrightarrow> ok" using look v(1) by (simp add: gh_viewed_def)
  have st: "staleStatusLabels w bin repo n label x = (x, stale)" using v(1) by (simp add: staleStatusLabels_def stale_def)
  obtain x2 ok2 out2 where e: "lw_run w bin (edit_args repo n label stale) x = (x2, ok2, out2)" by (metis prod_cases3)
  have "x' = x2" "ok2" using assms(1-3) look st e by (auto simp: ApplyNextLabel_def applyViaGH_def split: if_splits)
  then have "set (labels x') = (set (labels x) - set stale) \<union> ({label} - set stale)"
    using assms(5) [unfolded gh_edits_def, rule_format, where bin = bin and label = label and stale = stale] e by simp
  moreover have "set stale = (if ok then {l \<in> set (labels x). l \<noteq> label \<and> has_prefix l status_prefix} else {})"
    using v(2) stale_in_listing [OF assms(6), of label] by (simp add: stale_def)
  ultimately show ?thesis unfolding ok by auto
qed

definition state_matches :: "string list \<Rightarrow> string \<times> WState \<Rightarrow> bool" where
  "state_matches ls s \<longleftrightarrow> EnterLabel (snd s) \<noteq> [] \<and> EnterLabel (snd s) \<in> set ls \<and> recoverableStateAgents (snd s) \<noteq> []"

lemma active_one_workflow:
  assumes "cf_Workflows cfg = [(k, v)]" "trim_space (TriggerLabel v) \<noteq> []" "trim_space (TriggerLabel v) \<in> set ls"
  shows "activeMatches (cf_Workflows cfg) ls = map (\<lambda>s. (wf_Name v, fst s, recoverableStateAgents (snd s))) (filter (state_matches ls) (States v))"
proof -
  have "concat (map (\<lambda>(name, st). if EnterLabel st = [] \<or> EnterLabel st \<notin> set ls \<or> recoverableStateAgents st = [] then []
      else [(wf_Name v, name, recoverableStateAgents st)]) ss) = map (\<lambda>s. (wf_Name v, fst s, recoverableStateAgents (snd s))) (filter (state_matches ls) ss)" for ss
    by (induction ss) (auto simp: state_matches_def)
  then show ?thesis using assms by (simp add: activeMatches_def Let_def)
qed

lemma filter_key_one:
  assumes "distinct (map key xs)" "x \<in> set xs" "P x" "\<And>y. y \<in> set xs \<Longrightarrow> P y \<Longrightarrow> key y = key x"
  shows "filter P xs = [x]"
proof -
  have "set (filter P xs) = {x}" using assms by (auto simp: distinct_map dest: inj_onD)
  moreover have "distinct (filter P xs)" using assms(1) by (simp add: distinct_map)
  ultimately show ?thesis by (metis distinct.simps(2) distinct_length_2_or_more empty_iff insertE insertI1 list.exhaust list.set(1) list.simps(15) singletonD)
qed

lemma filter_two: "a \<in> set (filter P xs) \<Longrightarrow> b \<in> set (filter P xs) \<Longrightarrow> a \<noteq> b \<Longrightarrow> \<exists>c d r. filter P xs = c # d # r"
  by (metis empty_iff list.exhaust list.set(1) set_ConsD)

text \<open>Another state of the workflow to which the labels of the issue could lead the recovery.\<close>

definition rival_state :: "WorkflowConfig \<Rightarrow> string \<Rightarrow> string list \<Rightarrow> bool" where
  "rival_state v label ls \<longleftrightarrow> (\<exists>s \<in> set (States v). EnterLabel (snd s) \<noteq> label \<and> state_matches ls s)"

text \<open>C20. A label that the coordinator writes to GitHub moves the issue to one state, if its labels could be listed: when the change
  succeeds, the new label is then the only status label and every other label is kept, and the recovery after a restart finds exactly
  the state of that label, when the labels of the states of the workflow are distinct status labels. When the listing failed,
  the change still succeeds but only adds the label: all others stay, and the recovery finds the state only if no other
  state with agents has its label on the issue, else it gives the issue up as ambiguous.\<close>

theorem managed_flip_recoverable:
  assumes "resolveHostKind w repo = Inr (HostKindGitHub, base)" "ApplyNextLabel w repo n label x = (x', Inr ())"
    and "gh_views w labels repo n x" "gh_edits w labels repo n x" "\<forall>l \<in> set (labels x). plain_label l"
    and "cf_Workflows cfg = [(k, v)]" "trim_space (TriggerLabel v) \<noteq> []" "trim_space (TriggerLabel v) \<in> set (labels x)" "\<not> has_prefix (trim_space (TriggerLabel v)) status_prefix"
    and "distinct (map (EnterLabel \<circ> snd) (States v))" "\<forall>(s, st) \<in> set (States v). EnterLabel st = [] \<or> has_prefix (EnterLabel st) status_prefix"
    and "(name, st) \<in> set (States v)" "EnterLabel st = label" "recoverableStateAgents st \<noteq> []" "label \<noteq> []"
  shows "status_labels (labels x') = (if gh_viewed w repo n x then {label} else insert label (status_labels (labels x))) \<and>
     (\<forall>l. \<not> has_prefix l status_prefix \<longrightarrow> (l \<in> set (labels x') \<longleftrightarrow> l \<in> set (labels x))) \<and>
     recoverableActiveState cfg (labels x') =
       (if gh_viewed w repo n x \<or> \<not> rival_state v label (labels x) then Inr (Some (wf_Name v, name, recoverableStateAgents st)) else Inl ())"
proof -
  have pre: "has_prefix label status_prefix" using assms(11,12,13,15) by fastforce
  then have "CHR ''s'' \<in> set label" by (cases label) (auto simp: has_prefix_def status_prefix_def)
  moreover have "\<not> is_space (CHR ''s'')" by code_simp
  ultimately have "trim_space label \<noteq> []" by (auto simp: trim_space_blank)
  note f = gh_flip [OF assms(1,2) this assms(3-5)]
  have st: "status_labels (labels x') = (if gh_viewed w repo n x then {label} else insert label (status_labels (labels x)))" using f pre by (auto simp: status_labels_def)
  let ?ms = "filter (state_matches (labels x')) (States v)"
  have self: "state_matches (labels x') (name, st)" using assms(13-15) f by (simp add: state_matches_def)
  have active: "activeMatches (cf_Workflows cfg) (labels x') = map (\<lambda>s. (wf_Name v, fst s, recoverableStateAgents (snd s))) ?ms"
    using active_one_workflow [OF assms(6,7), of "labels x'"] assms(8,9) f by simp
  have lab: "has_prefix (EnterLabel (snd y)) status_prefix" if "y \<in> set (States v)" "state_matches ls y" for y ls
    using that assms(11) by (cases y) (auto simp: state_matches_def)
  have "recoverableActiveState cfg (labels x') =
       (if gh_viewed w repo n x \<or> \<not> rival_state v label (labels x) then Inr (Some (wf_Name v, name, recoverableStateAgents st)) else Inl ())"
  proof (cases "gh_viewed w repo n x \<or> \<not> rival_state v label (labels x)")
    case True
    have "?ms = [(name, st)]"
    proof (rule filter_key_one [OF assms(10,12)])
      show "(EnterLabel \<circ> snd) y = (EnterLabel \<circ> snd) (name, st)" if y: "y \<in> set (States v)" "state_matches (labels x') y" for y
      proof (rule ccontr)
        assume "(EnterLabel \<circ> snd) y \<noteq> (EnterLabel \<circ> snd) (name, st)"
        then have ne: "EnterLabel (snd y) \<noteq> label" using assms(13) by simp
        then have "\<not> gh_viewed w repo n x" "EnterLabel (snd y) \<in> set (labels x)" using y f lab [OF y] by (auto simp: state_matches_def split: if_splits)
        then show False using True y ne by (auto simp: rival_state_def state_matches_def)
      qed
    qed (rule self)
    then show ?thesis using active True by (simp add: recoverableActiveState_def)
  next
    case False
    then obtain y where y: "y \<in> set (States v)" "EnterLabel (snd y) \<noteq> label" "state_matches (labels x) y" by (auto simp: rival_state_def)
    then have "state_matches (labels x') y" using f False by (simp add: state_matches_def)
    moreover have "(name, st) \<noteq> y" using y(2) assms(13) by auto
    ultimately have "\<exists>c d r. ?ms = c # d # r" using filter_two [of "(name, st)" "state_matches (labels x')" "States v" y] self assms(12) y(1) by simp
    then show ?thesis using active False by (auto simp: recoverableActiveState_def)
  qed
  then show ?thesis using st f pre by auto
qed

text \<open>C39. On Gitea the old status label stays: after a successful change the issue has the labels of both states, and the recovery after
  a restart gives it up as ambiguous.\<close>

theorem gitea_flip_ambiguous:
  assumes "resolveHostKind w repo = Inr (HostKindGitea, base)" "ApplyNextLabel w repo n label x = (x', Inr ())" "gitea_adds w labels x"
    and "cf_Workflows cfg = [(k, v)]" "trim_space (TriggerLabel v) \<noteq> []" "trim_space (TriggerLabel v) \<in> set (labels x)"
    and "(old, ost) \<in> set (States v)" "EnterLabel ost \<in> set (labels x)" "EnterLabel ost \<noteq> []" "recoverableStateAgents ost \<noteq> []"
    and "(name, st) \<in> set (States v)" "EnterLabel st = label" "recoverableStateAgents st \<noteq> []" "trim_space label \<noteq> []" "old \<noteq> name"
  shows "set (labels x') = insert label (set (labels x)) \<and> recoverableActiveState cfg (labels x') = Inl ()"
proof -
  have kinds: "HostKindGitea \<noteq> HostKindGitHub" by (simp add: HostKindGitea_def HostKindGitHub_def)
  obtain token r where p: "lw_post w (labels_url base repo n) token label x = (x', r)" "\<exists>s. r = Some s \<and> 200 \<le> s \<and> s < 300"
    using assms(1,2,14) kinds by (auto simp: ApplyNextLabel_def applyViaGitea_def Let_def split: if_splits prod.splits option.splits)
  then have f: "set (labels x') = insert label (set (labels x))" using assms(3) [unfolded gitea_adds_def, rule_format, where url = "labels_url base repo n" and token = token and label = label] by simp
  have "label \<noteq> []" using assms(14) by auto
  then have "(old, ost) \<in> set (filter (state_matches (labels x')) (States v))" "(name, st) \<in> set (filter (state_matches (labels x')) (States v))"
    using assms(7-13) f by (auto simp: state_matches_def)
  then obtain a b rest where "filter (state_matches (labels x')) (States v) = a # b # rest" using filter_two [of "(old, ost)" "state_matches (labels x')" "States v" "(name, st)"] assms(15) by auto
  then have "\<exists>a b rest. activeMatches (cf_Workflows cfg) (labels x') = a # b # rest"
    using active_one_workflow [OF assms(4,5), of "labels x'"] assms(6) f by simp
  then show ?thesis using f by (auto simp: recoverableActiveState_def)
qed

section \<open>Samples\<close>

text \<open>A host with one issue: its state is the list of the labels.\<close>

fun removed_args :: "string list \<Rightarrow> string list" where
  "removed_args (a # b # r) = b # removed_args r"
| "removed_args _ = []"

lemma removed_args_concat [simp]: "removed_args (concat (map (\<lambda>s. [c, s]) stale)) = stale"
  by (induction stale) auto

definition demo_host :: "string \<Rightarrow> string list label_writer" where
  "demo_host kind = \<lparr>lw_lookup = Some (\<lambda>_. Inr (Some ''{}'')), lw_decode = (\<lambda>_. Some (kind, ''http://g'')), lw_look = Some ''gh'',
     lw_run = (\<lambda>bin args x. if args ! 1 = ''view'' then (x, True, concat (map (\<lambda>l. l @ [CHR 0x0A]) x))
        else (let stale = removed_args (drop 7 args) in (filter (\<lambda>l. l \<notin> set stale) (args ! 6 # x), True, []))),
     lw_post = (\<lambda>url token label x. (label # x, Some 200)), lw_giteaToken = ''t'', lw_env = []\<rparr>"

lemma demo_host_ok: "gh_views (demo_host kind) id repo n x" "gh_edits (demo_host kind) id repo n x" "gitea_adds (demo_host kind) id x"
  by (auto simp: gh_views_def gh_edits_def gitea_adds_def demo_host_def view_args_def edit_args_def Let_def nth_append)

definition demo_labels :: "string list" where
  "demo_labels = [trim_space (TriggerLabel demo_workflow), ''status:developing'', ''bug'']"

lemma demo_host_kind:
  "resolveHostKind (demo_host ''github'') repo = Inr (HostKindGitHub, ''http://g'')" "resolveHostKind (demo_host ''gitea'') repo = Inr (HostKindGitea, ''http://g'')"
proof -
  have "map lower_char (trim_space ''github'') = ''github''" "map lower_char (trim_space ''gitea'') = ''gitea''" "trim_space ''{}'' \<noteq> []" "trim_space ''gitea'' \<noteq> []" by code_simp+
  then show "resolveHostKind (demo_host ''github'') repo = Inr (HostKindGitHub, ''http://g'')" "resolveHostKind (demo_host ''gitea'') repo = Inr (HostKindGitea, ''http://g'')"
    by (simp_all add: resolveHostKind_def demo_host_def ResolveHostKind_def HostKindGitHub_def HostKindGitea_def Let_def)
qed

theorem managed_flip_recoverable_witness:
  "\<exists>x'. ApplyNextLabel (demo_host ''github'') ''o/r'' 7 ''status:reviewing'' demo_labels = (x', Inr ()) \<and> status_labels x' = {''status:reviewing''} \<and>
     recoverableActiveState demo_full_config x' = Inr (Some (wf_Name demo_workflow, ''reviewing'', [''review'']))"
proof -
  obtain x' r where a: "ApplyNextLabel (demo_host ''github'') ''o/r'' 7 ''status:reviewing'' demo_labels = (x', r)" by (rule prod.exhaust)
  have t: "trim_space ''status:reviewing'' \<noteq> []" by code_simp
  have "applyViaGH (demo_host ''github'') ''o/r'' 7 ''status:reviewing'' demo_labels = (x', r)" using a t by (simp add: ApplyNextLabel_def demo_host_kind)
  then have r: "r = Inr ()" by (auto simp: applyViaGH_def demo_host_def edit_args_def Let_def split: prod.splits if_splits)
  have pl: "\<forall>l \<in> set demo_labels. plain_label l" by code_simp
  have tr: "trim_space (TriggerLabel demo_workflow) \<noteq> []" "\<not> has_prefix (trim_space (TriggerLabel demo_workflow)) status_prefix" by code_simp+
  have st: "distinct (map (EnterLabel \<circ> snd) (States demo_workflow))" "\<forall>(s, st) \<in> set (States demo_workflow). EnterLabel st = [] \<or> has_prefix (EnterLabel st) status_prefix"
    "(''reviewing'', demo_reviewing) \<in> set (States demo_workflow)" "EnterLabel demo_reviewing = ''status:reviewing''" "recoverableStateAgents demo_reviewing = [''review'']" by code_simp+
  have "cf_Workflows demo_full_config = [(''default'', demo_workflow)]" by (simp add: demo_full_config_def)
  from managed_flip_recoverable [OF demo_host_kind(1) a [unfolded r] demo_host_ok(1,2) _ this tr(1) _ tr(2) st(1-4)] pl st(5)
  show ?thesis using a r by (simp add: demo_labels_def gh_viewed_def demo_host_def view_args_def)
qed

theorem gitea_flip_ambiguous_witness:
  "\<exists>x'. ApplyNextLabel (demo_host ''gitea'') ''o/r'' 7 ''status:reviewing'' demo_labels = (x', Inr ()) \<and> recoverableActiveState demo_full_config x' = Inl ()"
proof -
  obtain x' r where a: "ApplyNextLabel (demo_host ''gitea'') ''o/r'' 7 ''status:reviewing'' demo_labels = (x', r)" by (rule prod.exhaust)
  have t: "trim_space ''status:reviewing'' \<noteq> []" by code_simp
  have "HostKindGitea \<noteq> HostKindGitHub" by (simp add: HostKindGitea_def HostKindGitHub_def)
  then have "applyViaGitea (demo_host ''gitea'') ''http://g'' ''o/r'' 7 ''status:reviewing'' demo_labels = (x', r)" using a t by (simp add: ApplyNextLabel_def demo_host_kind)
  then have r: "r = Inr ()" by (auto simp: applyViaGitea_def demo_host_def Let_def split: prod.splits if_splits)
  have tr: "trim_space (TriggerLabel demo_workflow) \<noteq> []" by code_simp
  have st: "(''developing'', demo_state) \<in> set (States demo_workflow)" "EnterLabel demo_state \<in> set demo_labels" "EnterLabel demo_state \<noteq> []" "recoverableStateAgents demo_state \<noteq> []"
    "(''reviewing'', demo_reviewing) \<in> set (States demo_workflow)" "EnterLabel demo_reviewing = ''status:reviewing''" "recoverableStateAgents demo_reviewing \<noteq> []" by code_simp+
  have "cf_Workflows demo_full_config = [(''default'', demo_workflow)]" by (simp add: demo_full_config_def)
  from gitea_flip_ambiguous [OF demo_host_kind(2) a [unfolded r] demo_host_ok(3) this tr _ st(1) _ st(3-7) t] st(2)
  show ?thesis using a r by (simp add: demo_labels_def)
qed

end
