(* ===== verification/Spec2Isabelle.thy ===== *)
theory Spec2Isabelle
  imports SM_Limits SM_Idempotence Resolver Task_Flow Reference_Forms Auth Hooks Liveness
    Worker_Remote Worker_Resume Notifications Issue_Restart Operator Config_Reload
    Agent_Stream Workspace Tunnel Sessions Label_Writer
begin

text \<open>
  Verification of workbuddy, a program that has coding agents work on GitHub issues.

  \<^bold>\<open>The program.\<close> A poller (\<^verbatim>\<open>internal/poller\<close>) turns the labels of issues into events. A state machine
  (\<^verbatim>\<open>internal/statemachine\<close>) walks every issue through a configured workflow and asks for runs of agents; a resolver
  (\<^verbatim>\<open>internal/dependency\<close>) keeps back the issues whose declared dependencies are open. A router turns the requests into rows of a task
  queue, workers claim the rows over HTTP, run agents in worktrees and report back, and the report goes to the state machine
  again. Several coordinators and workers share one database (\<^verbatim>\<open>internal/store\<close>), whose rows carry leases. Around this there are
  hooks, notifications, an operator that raises alerts, a supervisor that keeps agents alive across restarts of a worker, and
  commands for operators.

  \<^bold>\<open>How the code is modelled.\<close> A struct is a record, an operation a function on the state it changes, with every error a
  value. Handlers of the state machine are programs of the state monad over the record \<open>sm\<close>; the database is the record
  \<open>store\<close> of \<open>Store_Types\<close>, a list of rows per table, and any statement may fail (\<open>faults\<close>) or be busy (\<open>busy\<close>). Where
  goroutines, processes or machines interleave, the critical sections of the code are the steps of an inductive relation, and
  properties hold of every run; where a step takes in several sections (\<open>Hooks\<close>, the start of a call in \<open>Tunnel\<close>), its theory says
  so. Times are nanoseconds, times in the database whole seconds. Code outside of the repository (the
  GitHub reader, JSON and YAML but for JSON strings, the tracing library, git, the operating system, HTTP handlers behind the tunnel) is an argument of the
  definitions.

  \<^bold>\<open>Shared.\<close>
  \<^item> \<open>Prelude\<close>: strings, numerals, times, tables, and the rules that carry relations through monadic programs.
  \<^item> \<open>Store_Types\<close>: the database record, its errors, the retry of busy statements.
  \<^item> \<open>Sha256\<close>: the hash over which labels, tokens and dependency sets are compared.
  \<^item> \<open>Json_Text\<close>: strings as \<^verbatim>\<open>encoding/json\<close> writes and reads them, with UTF-8: what is read back is the string with the bytes
    that are not UTF-8 replaced.

  \<^bold>\<open>Database\<close> (\<^verbatim>\<open>internal/store\<close>).
  \<^item> \<open>Task_Store\<close>, \<open>Task_Protocol\<close>: every operation of the task queue; the outcome of a settled task is final, a task under a
    live lease is not handed out again (interface \<open>task_queue_steps\<close>). The start-up recovery is a read followed by unguarded
    writes, as steps of their own: it is the one writer that can overwrite an outcome, if it read the task before it settled.
  \<^item> \<open>Claim_Store\<close>: the lease per issue, a refinement of an abstract exclusive lease.
  \<^item> \<open>Issue_Store\<close>, \<open>Workflow\<close>, \<open>Repo_Registration\<close>, \<open>Event_Log\<close>: counters, caches, dependencies, workers; instances of workflows with
    their history; registrations of repositories; the events table, and that the log accounts for every event it was given.
  \<^item> \<open>Sessions\<close>: the sessions table and \<^verbatim>\<open>internal/runtime/session_manager.go\<close>; what a session shows is the outcome of its task.

  \<^bold>\<open>Configuration\<close> (\<^verbatim>\<open>internal/config\<close>, \<^verbatim>\<open>internal/app/config_reload.go\<close>).
  \<^item> \<open>Config\<close>, \<open>Agent_Config\<close>: workflows, agents, the whole directory; what loads is well-formed.
  \<^item> \<open>Config_Reload\<close>: the change of the running configuration takes effect as a whole or not at all.

  \<^bold>\<open>State machine.\<close>
  \<^item> \<open>SM_Types\<close>, \<open>SM_Dispatch\<close>, \<open>SM_Events\<close>, \<open>SM_Completion\<close>: its state and handlers.
  \<^item> \<open>SM_Gates\<close>: what stops a dispatch, as an interface with one interpretation per gate.
  \<^item> \<open>SM_Effects\<close>: every handler is a sequence of effects, so invariants are checked for these.
  \<^item> \<open>SM_Groups\<close>, \<open>SM_Fanout\<close>, \<open>SM_Safety\<close>, \<open>SM_Idempotence\<close>, \<open>SM_Limits\<close>: joins; what is sent and who may send it; gates over whole
    runs; what happens once only; the caps that end a run in circles, and the entries they do not see.

  \<^bold>\<open>Dependencies\<close> (\<^verbatim>\<open>internal/dependency\<close>).
  \<^item> \<open>Declaration\<close>, \<open>Reference_Forms\<close>, \<open>Cycles\<close>, \<open>Resolver\<close>: parsing of declarations, the normal form of references, cycles of the
    graph, verdicts. The properties of this theory join them to the state machine.

  \<^bold>\<open>Coordinator\<close> (\<^verbatim>\<open>internal/app\<close>, \<^verbatim>\<open>internal/router\<close>, \<^verbatim>\<open>internal/registry\<close>, \<^verbatim>\<open>internal/security\<close>, \<^verbatim>\<open>internal/labelwriter\<close>).
  \<^item> \<open>Poller\<close>, \<open>Gh_Util\<close>: poll cycles with their backoff; rate limits and secrets in texts of the command line.
  \<^item> \<open>Repo_Runtime\<close>, \<open>Runtime_Safety\<close>: one runtime per repository; recovery, deregistration, a whole poll cycle.
  \<^item> \<open>Coordinator\<close>, \<open>Registry\<close>, \<open>Task_Flow\<close>: the handlers workers call, and the way of a task from request to result.
  \<^item> \<open>Auth\<close>, \<open>Security\<close>: tokens of workers, the authorisation of requests; the allow list of authors.
  \<^item> \<open>Label_Writer\<close>: labels that the coordinator writes for agents without access, the fallback included that only adds the label
    when the labels of the issue cannot be listed.
  \<^item> \<open>Issue_Restart\<close>, \<open>Operator\<close>, \<open>Liveness\<close>: restart of an issue; alerts about stuck work; thresholds and the idle watchdog.
  \<^item> \<open>Hook_Config\<close>, \<open>Hooks\<close>, \<open>Notifications\<close>: hooks with their bounds; alert bus, task hub and notifier.
  \<^item> \<open>Tunnel\<close> (\<^verbatim>\<open>internal/wstunnel\<close>): requests to workers over one connection; responses reach their calls.

  \<^bold>\<open>Worker\<close> (\<^verbatim>\<open>internal/worker\<close>, \<^verbatim>\<open>internal/workerclient\<close>, \<^verbatim>\<open>internal/workspace\<close>, \<^verbatim>\<open>internal/supervisor\<close>).
  \<^item> \<open>Worker_Lock\<close>, \<open>Worker_Exec\<close>: one execution per issue; the start of a session by the launcher
    (\<^verbatim>\<open>Registry.Start\<close> of \<^verbatim>\<open>internal/runtime\<close>) and what an execution cleans up on every path.
  \<^item> \<open>Worker_Remote\<close>, \<open>Worker_Resume\<close>: heartbeats, results and retries over a lossy network; resumption after a restart.
  \<^item> \<open>Workspace\<close>: worktrees and who removes them.
  \<^item> \<open>Supervisor\<close>, \<open>Agent_Stream\<close>: agents over a process table with reused identifiers, in which reading the start time of a process may
    fail; their output from file to worker, however the file grows between two reads, torn lines included.

  \<^bold>\<open>Kinds of results.\<close> Invariants and safety over every run (leases, outcomes, gates, groups, locks, tokens, agents, tunnel);
  functional behaviour on every branch (recovery, restart, deregistration, reload, execution); refinement (the claims table and
  the abstract lease); equivalence of the pruned deduplication map with the plain rule; round trips (the agent stream, frames,
  references, tokens); bounds (backoff, dispatcher queues); and errors the code cannot avoid or does not handle, which are the theorems
  behind the list of findings.

  \<^bold>\<open>Termination and fuel.\<close> Loops over finite data are structural recursions. The search for blocks in a declaration has the
  length of the text as fuel, which every step consumes; the depth-first search of \<open>Cycles\<close> has the number of unvisited nodes as
  measure; redaction, globs, placeholders and the reading of JSON strings have the length of the text. Loops that retry have
  the number of attempts of the code (four insertions of an event, the list of delays of a submission, \<open>retry_busy\<close>). That the evaluation of
  dependencies returns is a theorem here. Loops without an end (poller, pumps, detector, readers of channels) are step
  relations.

  \<^bold>\<open>Not modelled.\<close> The launcher and the runtimes of agents (\<^verbatim>\<open>internal/launcher\<close>, \<^verbatim>\<open>internal/runtime\<close> but for the session manager
  and \<^verbatim>\<open>Registry.Start\<close>, \<^verbatim>\<open>internal/agent\<close>): processes and the protocols of foreign programs. The HTTP views (\<^verbatim>\<open>internal/auditapi\<close>, \<^verbatim>\<open>internal/sessionproxy\<close>,
  \<^verbatim>\<open>internal/webui\<close>, \<^verbatim>\<open>internal/metrics\<close>): they format what the modelled queries return. Reports for readers (\<^verbatim>\<open>internal/reporter\<close>), the
  checks of documents and configuration that only print (\<^verbatim>\<open>internal/validate\<close>, \<^verbatim>\<open>internal/diagnose\<close>), the commands (\<^verbatim>\<open>cmd\<close>: deployment,
  status, logs, wiring of processes), the creation of the schema, the rewriting of statements for MySQL, failpoints of test builds. Log
  lines are left out everywhere.
\<close>

section \<open>Resolver and state machine together\<close>

text \<open>An issue with an unmet dependency is not dispatched. Once the resolver has completed an
  evaluation, no run of the state machine over that database sends a request for an open issue
  without the override label that has a dependency that is not met, or that lies on a reported
  cycle, whatever other processes do short of unblocking the issue.\<close>

theorem unmet_dependency_not_dispatched:
  assumes "EvaluateOpenIssues repo gv r = (r', Inr ns)" "ListIssueCaches repo (rs_db r) = Inr caches"
    and "map_of (openIssuesOf caches) n = Some issue" "OverrideLabel \<notin> set (i_Labels issue)"
    and "map_of (detectCycles (dependency_graph (rs_yaml r) repo (openIssuesOf caches))) n \<noteq> None \<or>
      (\<exists>x \<in> set (issue_outcomes repo (rs_yaml r) (rs_reader r) (openIssuesOf caches) issue). x \<noteq> Met)"
    and "db s = rs_db r'"
    and "(sm_step (world (\<lambda>d d'. fst (IsBlocked repo n d) \<longrightarrow> fst (IsBlocked repo n d'))))\<^sup>*\<^sup>* s s'"
  shows "filter (for_issue (repo, n)) (dispatched s') = filter (for_issue (repo, n)) (dispatched s)"
proof (rule dependency_gate_quiet [OF assms(7)])
  show "fst (IsBlocked repo n (db s))" using evaluated_gate [OF assms(1-3)] assms(4-6) by simp
qed

theorem unmet_dependency_not_dispatched_witness:
  "\<exists>r' ns. EvaluateOpenIssues ''o/r'' 1 demo_resolver = (r', Inr ns) \<and>
     filter (for_issue (''o/r'', 7)) (dispatched (snd (run_state
       (DispatchAgent background ''o/r'' 7 ''dev'' ''wf'' ''developing'') (demo_sm (rs_db r'))))) = []"
proof -
  obtain r' ns caches where ev: "EvaluateOpenIssues ''o/r'' 1 demo_resolver = (r', Inr ns)"
    and c: "ListIssueCaches ''o/r'' (rs_db demo_resolver) = Inr caches" and opens: "openIssuesOf caches = demo_open"
    by (rule demo_evaluation)
  have start: "db (demo_sm d) = d" "dispatched (demo_sm d) = []" for d
    by (simp_all add: demo_sm_def NewStateMachine_def)
  note spec = unmet_dependency_not_dispatched [OF ev c, of 7, unfolded opens demo_world, OF _ _ _ start(1) dispatch_step]
  show ?thesis using spec ev by (simp add: demo_issue demo_outcomes OverrideLabel_def start)
qed

text \<open>C27. The evaluation of dependencies always comes to an end with the right verdicts: on a healthy
  database and without cancellation it returns without an error, whatever the GitHub reader
  answers and however the declared dependencies are entangled, and afterwards the gate blocks
  exactly the open issues without the override label that lie on a reported cycle or have a
  dependency that is not met.\<close>

theorem dependency_evaluation_total:
  assumes "no_faults (rs_db r)" "rs_ctx r = None"
  shows "\<exists>r' ns caches. EvaluateOpenIssues repo gv r = (r', Inr ns) \<and> ListIssueCaches repo (rs_db r) = Inr caches \<and>
    (\<forall>n issue. map_of (openIssuesOf caches) n = Some issue \<longrightarrow>
      (fst (IsBlocked repo n (rs_db r')) \<longleftrightarrow> OverrideLabel \<notin> set (i_Labels issue) \<and>
        (map_of (detectCycles (dependency_graph (rs_yaml r) repo (openIssuesOf caches))) n \<noteq> None \<or>
         (\<exists>x \<in> set (issue_outcomes repo (rs_yaml r) (rs_reader r) (openIssuesOf caches) issue). x \<noteq> Met))))"
proof -
  obtain r' ns where ev: "EvaluateOpenIssues repo gv r = (r', Inr ns)" using EvaluateOpenIssues_completes [OF assms] by blast
  obtain caches where c: "ListIssueCaches repo (rs_db r) = Inr caches"
    using assms(1) by (simp add: ListIssueCaches_def no_faults_def)
  show ?thesis using ev c evaluated_gate [OF ev c] by blast
qed

theorem dependency_evaluation_total_witness:
  "\<exists>r' ns. EvaluateOpenIssues ''o/r'' 1 demo_resolver = (r', Inr ns) \<and> fst (IsBlocked ''o/r'' 7 (rs_db r'))"
proof -
  have ok: "no_faults (rs_db demo_resolver)" "rs_ctx demo_resolver = None"
    by (simp_all add: demo_resolver_def NewResolver_def no_faults_def empty_store_def)
  obtain r' ns caches where ev: "EvaluateOpenIssues ''o/r'' 1 demo_resolver = (r', Inr ns)"
    and c: "ListIssueCaches ''o/r'' (rs_db demo_resolver) = Inr caches" and opens: "openIssuesOf caches = demo_open"
    by (rule demo_evaluation)
  from dependency_evaluation_total [OF ok, of "''o/r''" 1] ev c
  have "fst (IsBlocked ''o/r'' 7 (rs_db r'))" by (simp add: opens demo_world demo_issue demo_outcomes OverrideLabel_def)
  with ev show ?thesis by blast
qed

end
